(* ===== verification/KPL_Prelude.thy ===== *)
theory KPL_Prelude
  imports Complex_Main "HOL-Library.Word"
begin

text \<open>
  Shared vocabulary of the development.

  \<^item> \<open>go_err\<close>, \<open>'a result\<close>, \<open>rbind\<close>, \<open>foldR\<close>: the Go idiom "return on the first error" as a
    sum type, with a panic as an error value of its own, and the \<open>for\<close> loop over a range with such
    a body.
  \<^item> \<open>f64\<close>: IEEE 754 binary64 values as the program observes them, exact rationals for the finite
    ones, with rounding to nearest even.
  \<^item> \<open>rng\<close>: the draws of a seeded \<^verbatim>\<open>*rand.Rand\<close>, as a tape of raw values.
  \<^item> helpers for strings, slices and pointers (an omitted pointer is \<open>None\<close>).
\<close>

named_theorems result_simps "unfolding of the result combinators"
named_theorems loop_rules "invariant rules of the loop combinators"

subsection \<open>Errors as values\<close>

datatype go_err =
    CtxErr           \<comment> \<open>\<^verbatim>\<open>ctx.Err()\<close>\<close>
  | Fail string      \<comment> \<open>\<^verbatim>\<open>fmt.Errorf\<close> or \<^verbatim>\<open>errors.New\<close>\<close>
  | Panic            \<comment> \<open>a Go run-time panic\<close>

type_synonym 'a result = "go_err + 'a"

definition rbind :: "'a result \<Rightarrow> ('a \<Rightarrow> 'b result) \<Rightarrow> 'b result" where
  "rbind m f = (case m of Inl e \<Rightarrow> Inl e | Inr x \<Rightarrow> f x)"

lemma rbind_simps [simp, result_simps]:
  "rbind (Inl e) f = Inl e"
  "rbind (Inr x) f = f x"
  by (simp_all add: rbind_def)

lemma rbind_Inr_iff [result_simps]:
  "rbind m f = Inr y \<longleftrightarrow> (\<exists>x. m = Inr x \<and> f x = Inr y)"
  by (cases m) auto

lemma rbind_Inl_iff [result_simps]:
  "rbind m f = Inl e \<longleftrightarrow> m = Inl e \<or> (\<exists>x. m = Inr x \<and> f x = Inl e)"
  by (cases m) auto

lemma rbind_InrE:
  assumes "rbind m f = Inr y"
  obtains x where "m = Inr x" "f x = Inr y"
  using assms by (auto simp: rbind_Inr_iff)

lemma returns: "\<not> isl m \<Longrightarrow> \<exists>x. m = Inr x"
  by (cases m) auto

lemma rbind_cong [fundef_cong]:
  "m = m' \<Longrightarrow> (\<And>x. m' = Inr x \<Longrightarrow> f x = g x) \<Longrightarrow> rbind m f = rbind m' g"
  by (cases m') auto

text \<open>\<open>check c e\<close> is \<^verbatim>\<open>if c { return e }\<close> in a validation function.\<close>

definition check :: "bool \<Rightarrow> string \<Rightarrow> unit result" where
  "check bad msg = (if bad then Inl (Fail msg) else Inr ())"

lemma check_simps [simp]:
  "check True msg = Inl (Fail msg)"
  "check False msg = Inr ()"
  "check bad msg = Inr u \<longleftrightarrow> \<not> bad"
  "check bad msg = Inl e \<longleftrightarrow> bad \<and> e = Fail msg"
  by (auto simp: check_def)

lemma rbind_check_Inr_iff [simp]:
  "rbind (check bad msg) f = Inr y \<longleftrightarrow> \<not> bad \<and> f () = Inr y"
  by (cases bad) auto

text \<open>The loop \<^verbatim>\<open>for _, x := range xs { if err := body(x); err != nil { return err } }\<close>.\<close>

fun foldR :: "('x \<Rightarrow> 's \<Rightarrow> 's result) \<Rightarrow> 'x list \<Rightarrow> 's \<Rightarrow> 's result" where
  "foldR f [] s = Inr s"
| "foldR f (x # xs) s = rbind (f x s) (foldR f xs)"

lemma foldR_append: "foldR f (xs @ ys) s = rbind (foldR f xs s) (foldR f ys)"
  by (induction xs arbitrary: s) (auto simp: rbind_def split: sum.splits)

text \<open>
  The invariant rules: \<open>I\<close> speaks of the part of the range already consumed. The first rule is
  partial (what a finished loop establishes), the second excludes the errors of a set \<open>B\<close>.
\<close>

lemma foldR_invariant [loop_rules]:
  assumes "foldR f xs s = Inr s'" and "I [] s"
    and "\<And>ys x zs t t'. xs = ys @ x # zs \<Longrightarrow> I ys t \<Longrightarrow> f x t = Inr t' \<Longrightarrow> I (ys @ [x]) t'"
  shows "I xs s'"
  using assms
proof (induction xs arbitrary: s' rule: rev_induct)
  case Nil
  then show ?case by simp
next
  case (snoc x xs)
  from snoc.prems(1) obtain t where t: "foldR f xs s = Inr t" "f x t = Inr s'"
    by (auto simp: foldR_append rbind_Inr_iff)
  have "I xs t"
  proof (rule snoc.IH [OF t(1) snoc.prems(2)])
    fix ys y zs u u'
    assume "xs = ys @ y # zs" "I ys u" "f y u = Inr u'"
    then show "I (ys @ [y]) u'" using snoc.prems(3) [of ys y "zs @ [x]" u u'] by simp
  qed
  then show ?case using snoc.prems(3) [of xs x "[]" t s'] t(2) by simp
qed

lemma foldR_inv:
  assumes "foldR f xs s = Inr s'" and "I s"
    and "\<And>x t t'. x \<in> set xs \<Longrightarrow> I t \<Longrightarrow> f x t = Inr t' \<Longrightarrow> I t'"
  shows "I s'"
  using assms by (induction xs arbitrary: s) (auto simp: rbind_Inr_iff)

text \<open>
  Total correctness of a fallible computation: \<open>yields m B P\<close> says that \<open>m\<close> returns a value in \<open>P\<close> or
  an error in \<open>B\<close>. The rules compose along \<open>rbind\<close> and along loops.
\<close>

definition yields :: "'a result \<Rightarrow> go_err set \<Rightarrow> ('a \<Rightarrow> bool) \<Rightarrow> bool" where
  "yields m B P = (case m of Inl e \<Rightarrow> e \<in> B | Inr x \<Rightarrow> P x)"

lemma yields_simps [simp]:
  "yields (Inl e) B P \<longleftrightarrow> e \<in> B"
  "yields (Inr x) B P \<longleftrightarrow> P x"
  by (simp_all add: yields_def)

lemma yields_bind:
  assumes "yields m B Q" and "\<And>x. Q x \<Longrightarrow> yields (f x) B P"
  shows "yields (rbind m f) B P"
  using assms by (cases m) auto

lemma yields_mono: "yields m B Q \<Longrightarrow> (\<And>x. Q x \<Longrightarrow> P x) \<Longrightarrow> yields m B P"
  by (cases m) auto

lemma yields_Inr: "yields m B P \<Longrightarrow> m = Inr x \<Longrightarrow> P x"
  by simp

lemma yields_Inl: "yields m B P \<Longrightarrow> m = Inl e \<Longrightarrow> e \<in> B"
  by simp

lemma yields_foldR [loop_rules]:
  assumes "I [] s"
    and "\<And>ys x zs t. xs = ys @ x # zs \<Longrightarrow> I ys t \<Longrightarrow> yields (f x t) B (I (ys @ [x]))"
  shows "yields (foldR f xs s) B (I xs)"
  using assms
proof (induction xs rule: rev_induct)
  case Nil
  then show ?case by simp
next
  case (snoc x xs)
  have "yields (foldR f xs s) B (I xs)"
  proof (rule snoc.IH [OF snoc.prems(1)])
    fix ys y zs t
    assume "xs = ys @ y # zs" "I ys t"
    then show "yields (f y t) B (I (ys @ [y]))" using snoc.prems(2) [of ys y "zs @ [x]" t] by simp
  qed
  then have "yields (rbind (foldR f xs s) (\<lambda>t. rbind (f x t) Inr)) B (I (xs @ [x]))"
    by (rule yields_bind) (auto intro!: yields_bind [OF snoc.prems(2) [of xs x "[]"]])
  moreover have "foldR f (xs @ [x]) s = rbind (foldR f xs s) (\<lambda>t. rbind (f x t) Inr)"
    by (simp add: foldR_append) (auto simp: rbind_def fun_eq_iff split: sum.splits)
  ultimately show ?case by simp
qed

text \<open>Nested loops are loops over the pairs in the order of the nesting.\<close>

definition nested_range :: "'x list \<Rightarrow> ('x \<Rightarrow> 'y list) \<Rightarrow> ('x \<times> 'y) list" where
  "nested_range xs g = concat (map (\<lambda>x. map (Pair x) (g x)) xs)"

lemma set_nested_range [simp]: "(x, y) \<in> set (nested_range xs g) \<longleftrightarrow> x \<in> set xs \<and> y \<in> set (g x)"
  by (auto simp: nested_range_def)

lemma distinct_nested_range:
  "distinct xs \<Longrightarrow> (\<And>x. x \<in> set xs \<Longrightarrow> distinct (g x)) \<Longrightarrow> distinct (nested_range xs g)"
  by (induction xs) (auto simp: nested_range_def distinct_map inj_on_def)

lemma length_nested_range: "length (nested_range xs g) = (\<Sum>x\<leftarrow>xs. length (g x))"
  by (induction xs) (auto simp: nested_range_def)

lemma foldR_map: "foldR f (map h xs) s = foldR (\<lambda>x. f (h x)) xs s"
  by (induction xs arbitrary: s) (auto simp: rbind_def split: sum.splits)

lemma foldR_nested:
  "foldR (\<lambda>x. foldR (f x) (g x)) xs s = foldR (\<lambda>(x, y). f x y) (nested_range xs g) s"
proof (induction xs arbitrary: s)
  case Nil
  then show ?case by (simp add: nested_range_def)
next
  case (Cons x xs)
  have "nested_range (x # xs) g = map (Pair x) (g x) @ nested_range xs g"
    by (simp add: nested_range_def)
  then show ?case by (simp add: foldR_append foldR_map) (simp add: rbind_def Cons.IH split: sum.splits)
qed

subsection \<open>Pointers and strings\<close>

text \<open>Dereferencing a pointer that the code has just tested or defaulted.\<close>

definition deref :: "'a option \<Rightarrow> 'a result" where
  "deref p = (case p of None \<Rightarrow> Inl Panic | Some x \<Rightarrow> Inr x)"

lemma deref_simps [simp]: "deref None = Inl Panic" "deref (Some x) = Inr x"
  by (simp_all add: deref_def)

text \<open>\<open>ptr_is P p\<close> is the guard \<^verbatim>\<open>p != nil && P(*p)\<close>.\<close>

definition ptr_is :: "('a \<Rightarrow> bool) \<Rightarrow> 'a option \<Rightarrow> bool" where
  "ptr_is P p = (case p of None \<Rightarrow> False | Some x \<Rightarrow> P x)"

lemma ptr_is_simps [simp]: "ptr_is P None = False" "ptr_is P (Some x) = P x"
  by (simp_all add: ptr_is_def)

text \<open>\<open>default_ptr\<close>: \<^verbatim>\<open>if p == nil { p = &v }\<close>, \<open>default_str\<close>: the same for an empty string.\<close>

definition default_ptr :: "'a \<Rightarrow> 'a option \<Rightarrow> 'a option" where
  "default_ptr v p = (case p of None \<Rightarrow> Some v | Some x \<Rightarrow> Some x)"

definition default_str :: "string \<Rightarrow> string \<Rightarrow> string" where
  "default_str v s = (if s = '''' then v else s)"

lemma default_ptr_simps [simp]:
  "default_ptr v None = Some v"
  "default_ptr v (Some x) = Some x"
  "default_ptr v p \<noteq> None"
  "default_ptr w (default_ptr v p) = default_ptr v p"
  by (auto simp: default_ptr_def split: option.splits)

lemma default_str_simps [simp]:
  "default_str v '''' = v"
  "s \<noteq> '''' \<Longrightarrow> default_str v s = s"
  "v \<noteq> '''' \<Longrightarrow> default_str v s \<noteq> ''''"
  "default_str v (default_str v s) = default_str v s"
  by (auto simp: default_str_def)

text \<open>\<^verbatim>\<open>strings.TrimSpace\<close> on ASCII text: tab, newline, vertical tab, form feed, return, space.\<close>

definition go_space :: "char \<Rightarrow> bool" where
  "go_space c = (of_char c \<in> {9, 10, 11, 12, 13, 32 :: nat})"

definition TrimSpace :: "string \<Rightarrow> string" where
  "TrimSpace s = rev (dropWhile go_space (rev (dropWhile go_space s)))"

definition HasPrefix :: "string \<Rightarrow> string \<Rightarrow> bool" where
  "HasPrefix s p = (take (length p) s = p)"

definition HasSuffix :: "string \<Rightarrow> string \<Rightarrow> bool" where
  "HasSuffix s p = (length p \<le> length s \<and> drop (length s - length p) s = p)"

subsection \<open>Binary64 numbers\<close>

text \<open>
  Finite values are the rationals they denote (the sign of zero is not observed by the modelled
  code). Comparisons with a NaN are false, as in Go.
\<close>

datatype f64 = Fin rat | PInf | NInf | NaN

fun f_lt :: "f64 \<Rightarrow> f64 \<Rightarrow> bool" where
  "f_lt (Fin a) (Fin b) = (a < b)"
| "f_lt (Fin _) PInf = True"
| "f_lt NInf (Fin _) = True"
| "f_lt NInf PInf = True"
| "f_lt _ _ = False"

fun f_eq :: "f64 \<Rightarrow> f64 \<Rightarrow> bool" where
  "f_eq NaN _ = False"
| "f_eq _ NaN = False"
| "f_eq a b = (a = b)"

definition f_le :: "f64 \<Rightarrow> f64 \<Rightarrow> bool" where
  "f_le a b = (f_lt a b \<or> f_eq a b)"

definition f_finite :: "f64 \<Rightarrow> bool" where
  "f_finite x = (case x of Fin _ \<Rightarrow> True | _ \<Rightarrow> False)"

lemma f_finite_simps [simp]:
  "f_finite (Fin a)" "\<not> f_finite PInf" "\<not> f_finite NInf" "\<not> f_finite NaN"
  by (simp_all add: f_finite_def)

lemma f_finite_iff: "f_finite x \<longleftrightarrow> (\<exists>a. x = Fin a)"
  by (cases x) auto

lemma f_le_Fin [simp]: "f_le (Fin a) (Fin b) \<longleftrightarrow> a \<le> b"
  by (auto simp: f_le_def)

text \<open>
  Rounding to nearest, ties to even, with 53 bits of precision, gradual underflow at
  \<open>2 ^ -1074\<close> and overflow to an infinity.
\<close>

fun int_bits :: "int \<Rightarrow> int" where
  "int_bits x = (if x \<le> 0 then 0 else int_bits (x div 2) + 1)"

declare int_bits.simps [simp del]

definition floor_log2_rat :: "rat \<Rightarrow> int" where
  "floor_log2_rat r =
     (let (p, q) = quotient_of r; k = int_bits p - int_bits q
      in if 2 powi k \<le> r then k else k - 1)"

definition round_half_even :: "rat \<Rightarrow> int" where
  "round_half_even x =
     (let f = \<lfloor>x\<rfloor>; d = x - of_int f
      in if d < 1 / 2 then f else if d > 1 / 2 then f + 1 else if even f then f else f + 1)"

definition f64_round :: "rat \<Rightarrow> f64" where
  "f64_round r =
     (if r = 0 then Fin 0
      else let e = max (-1074) (floor_log2_rat \<bar>r\<bar> - 52);
               m = of_int (round_half_even (\<bar>r\<bar> / 2 powi e)) * 2 powi e
           in if m \<ge> 2 ^ 1024 then (if r > 0 then PInf else NInf)
              else Fin (if r > 0 then m else - m))"

definition f_neg :: "f64 \<Rightarrow> f64" where
  "f_neg x = (case x of Fin a \<Rightarrow> Fin (- a) | PInf \<Rightarrow> NInf | NInf \<Rightarrow> PInf | NaN \<Rightarrow> NaN)"

fun f_add :: "f64 \<Rightarrow> f64 \<Rightarrow> f64" where
  "f_add (Fin a) (Fin b) = f64_round (a + b)"
| "f_add NaN _ = NaN"
| "f_add _ NaN = NaN"
| "f_add (Fin _) b = b"
| "f_add a (Fin _) = a"
| "f_add a b = (if a = b then a else NaN)"

definition f_sub :: "f64 \<Rightarrow> f64 \<Rightarrow> f64" where
  "f_sub a b = f_add a (f_neg b)"

text \<open>A quotient by a zero of either sign is not needed: the code tests the divisor first.\<close>

fun f_div :: "f64 \<Rightarrow> f64 \<Rightarrow> f64" where
  "f_div (Fin a) (Fin b) =
     (if b = 0 then (if a = 0 then NaN else if a > 0 then PInf else NInf) else f64_round (a / b))"
| "f_div NaN _ = NaN"
| "f_div _ NaN = NaN"
| "f_div (Fin _) _ = Fin 0"
| "f_div a (Fin b) = (if (0 \<le> b) = (a = PInf) then PInf else NInf)"
| "f_div _ _ = NaN"

text \<open>The builtin \<^verbatim>\<open>max\<close> on floats: a NaN operand gives NaN.\<close>

definition f_max :: "f64 \<Rightarrow> f64 \<Rightarrow> f64" where
  "f_max a b = (if a = NaN \<or> b = NaN then NaN else if f_lt a b then b else a)"

fun f_mul :: "f64 \<Rightarrow> f64 \<Rightarrow> f64" where
  "f_mul (Fin a) (Fin b) = f64_round (a * b)"
| "f_mul NaN _ = NaN"
| "f_mul _ NaN = NaN"
| "f_mul (Fin a) b = (if a = 0 then NaN else if (a > 0) = (b = PInf) then PInf else NInf)"
| "f_mul a (Fin b) = (if b = 0 then NaN else if (b > 0) = (a = PInf) then PInf else NInf)"
| "f_mul a b = (if a = b then PInf else NInf)"

subsection \<open>Pseudo-random draws\<close>

text \<open>
  A \<^verbatim>\<open>*rand.Rand\<close> is seen through its draws only: \<^verbatim>\<open>Float64\<close> yields a multiple of \<open>2 ^ -53\<close> in
  \<open>[0, 1)\<close> and \<^verbatim>\<open>Intn(n)\<close> an integer in \<open>[0, n)\<close>, panicking for \<open>n \<le> 0\<close>. The tape supplies the raw
  choices; every outcome of either draw is the outcome for some tape, so a statement for every tape
  holds for every seed.
\<close>

record rng =
  tape :: "nat \<Rightarrow> int"
  pos :: nat

definition rng_Float64 :: "rng \<Rightarrow> rat \<times> rng" where
  "rng_Float64 r = (of_int (tape r (pos r) mod 2 ^ 53) / 2 ^ 53, r\<lparr>pos := Suc (pos r)\<rparr>)"

definition rng_Intn :: "nat \<Rightarrow> rng \<Rightarrow> (nat \<times> rng) result" where
  "rng_Intn n r =
     (if n = 0 then Inl Panic else Inr (nat (tape r (pos r) mod int n), r\<lparr>pos := Suc (pos r)\<rparr>))"

lemma rng_Float64_range: "0 \<le> fst (rng_Float64 r)" "fst (rng_Float64 r) < 1"
proof -
  have "tape r (pos r) mod 2 ^ 53 < (2 ^ 53 :: int)" by simp
  then have "(of_int (tape r (pos r) mod 2 ^ 53) :: rat) < of_int (2 ^ 53)"
    by (simp only: of_int_less_iff)
  then show "fst (rng_Float64 r) < 1" by (simp add: rng_Float64_def)
qed (simp add: rng_Float64_def)

lemma rng_Intn_bound: "0 < n \<Longrightarrow> nat (x mod int n) < n"
  by (simp add: nat_less_iff)

lemma rng_Intn_range: "rng_Intn n r = Inr (k, r') \<Longrightarrow> k < n"
  by (auto simp: rng_Intn_def rng_Intn_bound split: if_splits)

lemma rng_Intn_total: "0 < n \<Longrightarrow> \<exists>k r'. rng_Intn n r = Inr (k, r') \<and> k < n"
  by (simp add: rng_Intn_def rng_Intn_bound)

subsection \<open>Lists\<close>

lemma range_split:
  assumes "[a..<b] = ys @ x # zs"
  shows "x = a + length ys" "x < b" "a \<le> x" "ys = [a..<x]" "zs = [Suc x..<b]"
proof -
  have len: "length ys < b - a" using arg_cong [OF assms, of length] by simp
  have x: "x = [a..<b] ! length ys" using assms by simp
  with len show *: "x = a + length ys" by simp
  with len show "x < b" "a \<le> x" by auto
  have "ys = take (length ys) [a..<b]" using assms by simp
  with * len show "ys = [a..<x]" by (simp add: take_upt)
  have "zs = drop (Suc (length ys)) [a..<b]" using assms by simp
  with * show "zs = [Suc x..<b]" by simp
qed

lemma upt_Suc_snoc: "a \<le> x \<Longrightarrow> [a..<x] @ [x] = [a..<Suc x]"
  by simp

end
