(* ===== verification/Degree_Tree.thy ===== *)
theory Degree_Tree
  imports KPL_Prelude
begin

text \<open>
  The Fenwick tree \<^verbatim>\<open>degreeTree\<close> of \<^verbatim>\<open>internal/topology/generate.go\<close>, which the Barabasi-Albert
  generator uses to sample existing nodes with probability proportional to their degrees.

  The locale \<open>weighted_sampler\<close> is the contract the generator relies on: a represented weight vector,
  point updates, the total, and a choice that inverts the prefix sums. \<open>degreeTree\<close> is shown to
  implement it.
\<close>

unbundle bit_operations_syntax

subsection \<open>The data structure\<close>

record degreeTree =
  tree :: "int list"
  total :: int

definition new_degreeTree :: "nat \<Rightarrow> degreeTree" where
  "new_degreeTree n = \<lparr>tree = replicate (n + 1) 0, total = 0\<rparr>"

text \<open>The Go expression \<^verbatim>\<open>i & -i\<close>.\<close>

definition lowbit :: "nat \<Rightarrow> nat" where
  "lowbit i = nat (int i AND - int i)"

lemma odd_and_minus: "(2 * m + 1 :: int) AND - (2 * m + 1) = 1"
proof -
  have "(- (2 * m + 1)) div 2 = NOT m" by (simp add: not_int_def)
  moreover have "(2 * m + 1) div 2 = m" by simp
  ultimately show ?thesis by (simp add: and_rec [of "2 * m + 1"] bit.conj_cancel_right)
qed

lemma lowbit_eq: "lowbit (2 ^ k * (2 * m + 1)) = 2 ^ k"
proof -
  have "int (2 ^ k * (2 * m + 1)) = push_bit k (2 * int m + 1)"
    by (simp add: push_bit_eq_mult algebra_simps)
  moreover have "- int (2 ^ k * (2 * m + 1)) = push_bit k (- (2 * int m + 1))"
    by (simp add: push_bit_eq_mult algebra_simps)
  ultimately have "int (2 ^ k * (2 * m + 1)) AND - int (2 ^ k * (2 * m + 1)) = push_bit k 1"
    by (simp only: push_bit_and [symmetric] odd_and_minus)
  then show ?thesis by (simp add: lowbit_def push_bit_eq_mult)
qed

lemma nat_split_pow2: "0 < (i :: nat) \<Longrightarrow> \<exists>k m. i = 2 ^ k * (2 * m + 1)"
proof (induction i rule: less_induct)
  case (less i)
  show ?case
  proof (cases "even i")
    case True
    then obtain j where j: "i = 2 * j" by blast
    with less.prems have "j < i" "0 < j" by auto
    then obtain k m where "j = 2 ^ k * (2 * m + 1)" using less.IH by blast
    with j have "i = 2 ^ Suc k * (2 * m + 1)" by simp
    then show ?thesis by blast
  next
    case False
    then obtain m where "i = 2 ^ 0 * (2 * m + 1)" by (auto elim: oddE)
    then show ?thesis by blast
  qed
qed

lemma lowbitE:
  assumes "0 < i"
  obtains k m where "i = 2 ^ k * (2 * m + 1)" "lowbit i = 2 ^ k"
  using nat_split_pow2 [OF assms] lowbit_eq by blast

lemma lowbit_pos: "0 < i \<Longrightarrow> 0 < lowbit i"
  by (erule lowbitE) simp

lemma lowbit_le: "0 < i \<Longrightarrow> lowbit i \<le> i"
  by (erule lowbitE) simp

lemma lowbit_dvd_pos: "0 < i \<Longrightarrow> 2 ^ k dvd i \<Longrightarrow> 2 ^ k \<le> lowbit i"
proof (elim lowbitE)
  fix j m assume *: "2 ^ k dvd i" "i = 2 ^ j * (2 * m + 1)" "lowbit i = 2 ^ j"
  have "k \<le> j"
  proof (rule ccontr)
    assume "\<not> k \<le> j"
    then have "2 ^ Suc j dvd (2 :: nat) ^ k" by (intro le_imp_power_dvd) simp
    with * have "2 ^ j * 2 dvd 2 ^ j * (2 * m + 1)" by (metis dvd_trans power_Suc2)
    then have "2 dvd 2 * m + 1" by (metis nat_mult_dvd_cancel1 pos2 zero_less_power)
    then show False by simp
  qed
  with * show ?thesis by simp
qed

text \<open>
  \<^verbatim>\<open>add\<close>: the loop walks the tree cells that cover the index. The guard \<open>0 < i\<close> always holds, since
  the loop starts at \<^verbatim>\<open>index + 1\<close>.
\<close>

function degreeTree_add_loop :: "int list \<Rightarrow> nat \<Rightarrow> int \<Rightarrow> int list" where
  "degreeTree_add_loop t i delta =
     (if 0 < i \<and> i < length t
      then degreeTree_add_loop (t[i := t ! i + delta]) (i + lowbit i) delta
      else t)"
  by pat_completeness auto
termination
proof (relation "measure (\<lambda>(t, i, delta). length t - i)")
  fix t :: "int list" and i :: nat and delta :: int
  assume "0 < i \<and> i < length t"
  with lowbit_pos [of i] show "((t[i := t ! i + delta], i + lowbit i, delta), t, i, delta)
      \<in> measure (\<lambda>(t, i, delta). length t - i)"
    by auto
qed simp

declare degreeTree_add_loop.simps [simp del]

definition degreeTree_add :: "nat \<Rightarrow> int \<Rightarrow> degreeTree \<Rightarrow> degreeTree" where
  "degreeTree_add index delta t =
     t\<lparr>total := total t + delta, tree := degreeTree_add_loop (tree t) (index + 1) delta\<rparr>"

text \<open>\<^verbatim>\<open>choose\<close>: a power of two at least \<^verbatim>\<open>len(t.tree)\<close>, then a binary descent.\<close>

function choose_step :: "nat \<Rightarrow> nat \<Rightarrow> nat" where
  "choose_step step len = (if 0 < step \<and> step < len then choose_step (2 * step) len else step)"
  by pat_completeness auto
termination by (relation "measure (\<lambda>(step, len). len - step)") auto

declare choose_step.simps [simp del]

fun choose_loop :: "int list \<Rightarrow> nat \<Rightarrow> nat \<Rightarrow> int \<Rightarrow> nat" where
  "choose_loop t step index ticket =
     (if step = 0 then index
      else let next = index + step
           in if next < length t \<and> t ! next \<le> ticket
              then choose_loop t (step div 2) next (ticket - t ! next)
              else choose_loop t (step div 2) index ticket)"

declare choose_loop.simps [simp del]

definition degreeTree_choose :: "int \<Rightarrow> degreeTree \<Rightarrow> nat" where
  "degreeTree_choose ticket t =
     choose_loop (tree t) (choose_step 1 (length (tree t)) div 2) 0 ticket"

subsection \<open>The contract of a weighted sampler\<close>

definition prefix_sum :: "(nat \<Rightarrow> int) \<Rightarrow> nat \<Rightarrow> int" where
  "prefix_sum w k = (\<Sum>j<k. w j)"

lemma prefix_sum_simps [simp]:
  "prefix_sum w 0 = 0"
  "prefix_sum w (Suc k) = prefix_sum w k + w k"
  by (simp_all add: prefix_sum_def)

lemma prefix_sum_mono: "(\<And>j. 0 \<le> w j) \<Longrightarrow> a \<le> b \<Longrightarrow> prefix_sum w a \<le> prefix_sum w b"
  by (simp add: prefix_sum_def sum_mono2)

lemma prefix_sum_interval:
  "a \<le> b \<Longrightarrow> (\<Sum>j\<in>{a..<b}. w j) = prefix_sum w b - prefix_sum w a"
proof (induction b)
  case (Suc b)
  then show ?case by (cases "a = Suc b") (auto simp: sum.atLeastLessThan_Suc)
qed simp

lemma prefix_sum_upd:
  "prefix_sum (w(i := x)) k = prefix_sum w k + (if i < k then x - w i else 0)"
  by (induction k) (auto simp: less_Suc_eq)

locale weighted_sampler =
  fixes rep :: "'s \<Rightarrow> nat \<Rightarrow> (nat \<Rightarrow> int) \<Rightarrow> bool"
    and empty :: "nat \<Rightarrow> 's"
    and add :: "nat \<Rightarrow> int \<Rightarrow> 's \<Rightarrow> 's"
    and weight_sum :: "'s \<Rightarrow> int"
    and pick :: "int \<Rightarrow> 's \<Rightarrow> nat"
  assumes rep_empty: "rep (empty n) n (\<lambda>_. 0)"
    and rep_add: "rep s n w \<Longrightarrow> i < n \<Longrightarrow> rep (add i d s) n (w(i := w i + d))"
    and rep_sum: "rep s n w \<Longrightarrow> weight_sum s = prefix_sum w n"
    and rep_pick: "rep s n w \<Longrightarrow> (\<And>j. 0 \<le> w j) \<Longrightarrow> 0 \<le> k \<Longrightarrow> k < prefix_sum w n \<Longrightarrow>
        pick k s < n \<and> prefix_sum w (pick k s) \<le> k \<and> k < prefix_sum w (Suc (pick k s))"
begin

text \<open>A chosen index has positive weight: clearing an index excludes it from later choices.\<close>

lemma pick_positive:
  assumes "rep s n w" "\<And>j. 0 \<le> w j" "0 \<le> k" "k < prefix_sum w n"
  shows "pick k s < n" "0 < w (pick k s)"
  using rep_pick [OF assms] by auto

text \<open>
  Exactness: the tickets that select an index \<open>i\<close> form an interval of length \<open>w i\<close>, so a uniform
  ticket selects \<open>i\<close> with probability \<open>w i / weight_sum s\<close>.
\<close>

lemma pick_eq_iff:
  assumes "rep s n w" "\<And>j. 0 \<le> w j" "0 \<le> k" "k < prefix_sum w n"
  shows "pick k s = i \<longleftrightarrow> prefix_sum w i \<le> k \<and> k < prefix_sum w (Suc i)"
proof
  assume "pick k s = i"
  then show "prefix_sum w i \<le> k \<and> k < prefix_sum w (Suc i)" using rep_pick [OF assms] by simp
next
  assume i: "prefix_sum w i \<le> k \<and> k < prefix_sum w (Suc i)"
  let ?c = "pick k s"
  have c: "prefix_sum w ?c \<le> k" "k < prefix_sum w (Suc ?c)" using rep_pick [OF assms] by auto
  show "?c = i"
  proof (rule linorder_cases [of ?c i])
    assume "?c < i"
    then have "prefix_sum w (Suc ?c) \<le> prefix_sum w i" using assms(2) by (intro prefix_sum_mono) auto
    with i c show ?thesis by linarith
  next
    assume "i < ?c"
    then have "prefix_sum w (Suc i) \<le> prefix_sum w ?c" using assms(2) by (intro prefix_sum_mono) auto
    with i c show ?thesis by linarith
  qed simp
qed

lemma pick_card:
  assumes "rep s n w" "\<And>j. 0 \<le> w j" "i < n"
  shows "card {k. 0 \<le> k \<and> k < weight_sum s \<and> pick k s = i} = nat (w i)"
proof -
  have up: "prefix_sum w (Suc i) \<le> prefix_sum w n" using assms by (intro prefix_sum_mono) auto
  have lo: "0 \<le> prefix_sum w i" using prefix_sum_mono [of w 0 i] assms(2) by simp
  have "{k. 0 \<le> k \<and> k < weight_sum s \<and> pick k s = i} = {prefix_sum w i ..< prefix_sum w (Suc i)}"
  proof (rule set_eqI)
    fix k
    show "k \<in> {k. 0 \<le> k \<and> k < weight_sum s \<and> pick k s = i}
        \<longleftrightarrow> k \<in> {prefix_sum w i ..< prefix_sum w (Suc i)}"
    proof (cases "0 \<le> k \<and> k < prefix_sum w n")
      case True
      then show ?thesis using pick_eq_iff [OF assms(1,2), of k i] rep_sum [OF assms(1)] by simp
    next
      case False
      then show ?thesis using up lo rep_sum [OF assms(1)] by auto
    qed
  qed
  then show ?thesis by simp
qed

end

subsection \<open>The Fenwick invariant\<close>

text \<open>Cell \<open>i\<close> holds the weights of the half-open interval of length \<open>lowbit i\<close> that ends at \<open>i\<close>.\<close>

definition covers :: "nat \<Rightarrow> nat \<Rightarrow> bool" where
  "covers p i = (i - lowbit i < p \<and> p \<le> i)"

definition fenwick :: "degreeTree \<Rightarrow> nat \<Rightarrow> (nat \<Rightarrow> int) \<Rightarrow> bool" where
  "fenwick t n w =
     (length (tree t) = n + 1 \<and> total t = prefix_sum w n
      \<and> (\<forall>i. 0 < i \<and> i \<le> n \<longrightarrow> tree t ! i = prefix_sum w i - prefix_sum w (i - lowbit i)))"

lemma covers_self: "0 < p \<Longrightarrow> covers p p"
  using lowbit_pos [of p] by (auto simp: covers_def)

lemma covers_next:
  assumes "covers p i" "0 < i"
  shows "covers p (i + lowbit i)"
proof -
  from assms(2) obtain k m where i: "i = 2 ^ k * (2 * m + 1)" and lb: "lowbit i = 2 ^ k"
    by (rule lowbitE)
  then have "i + lowbit i = 2 ^ Suc k * (m + 1)" by (simp add: algebra_simps)
  then have "2 ^ Suc k dvd i + lowbit i" by simp
  then have "2 ^ Suc k \<le> lowbit (i + lowbit i)" using assms(2) by (intro lowbit_dvd_pos) auto
  with assms(1) lb show ?thesis by (auto simp: covers_def)
qed

lemma lowbit_add_small:
  assumes "2 ^ k dvd i" "0 < r" "r < 2 ^ k"
  shows "lowbit (i + r) = lowbit r"
proof -
  from assms(2) obtain j m where r: "r = 2 ^ j * (2 * m + 1)" and lb: "lowbit r = 2 ^ j"
    by (rule lowbitE)
  have "(2 :: nat) ^ j \<le> r" using r by simp
  then have "(2 :: nat) ^ j < 2 ^ k" using assms(3) by (rule le_less_trans)
  then have jk: "j < k" by simp
  obtain c where "i = 2 ^ k * c" using assms(1) by (auto simp: dvd_def)
  also have "(2 :: nat) ^ k = 2 ^ j * 2 * 2 ^ (k - Suc j)"
    using jk by (metis Suc_leI le_add_diff_inverse power_Suc2 power_add)
  finally have "i + r = 2 ^ j * (2 * (2 ^ (k - Suc j) * c + m) + 1)"
    using r by (simp add: algebra_simps)
  then show ?thesis using lb lowbit_eq by metis
qed

lemma covers_gap:
  assumes "covers p i" "0 < i" "i < j" "j < i + lowbit i"
  shows "\<not> covers p j"
proof -
  from assms(2) obtain k m where i: "i = 2 ^ k * (2 * m + 1)" and lb: "lowbit i = 2 ^ k"
    by (rule lowbitE)
  define r where "r = j - i"
  have r: "0 < r" "r < 2 ^ k" "j = i + r" using assms lb by (auto simp: r_def)
  have "lowbit j = lowbit r" using lowbit_add_small [of k i r] i r by simp
  then have "lowbit j \<le> r" using lowbit_le r by simp
  with assms(1) r show ?thesis by (auto simp: covers_def)
qed

lemma length_add_loop [simp]: "length (degreeTree_add_loop t i d) = length t"
proof (induction t i d rule: degreeTree_add_loop.induct)
  case (1 t i d)
  then show ?case
    by (cases "0 < i \<and> i < length t") (auto simp: degreeTree_add_loop.simps [of t i d])
qed

lemma add_loop_nth:
  assumes "covers p i" "0 < i" "j < length t"
  shows "degreeTree_add_loop t i d ! j = t ! j + (if i \<le> j \<and> covers p j then d else 0)"
  using assms
proof (induction t i d arbitrary: j rule: degreeTree_add_loop.induct)
  case (1 t i d)
  show ?case
  proof (cases "i < length t")
    case True
    let ?t = "t[i := t ! i + d]"
    have nth: "degreeTree_add_loop ?t (i + lowbit i) d ! j
        = ?t ! j + (if i + lowbit i \<le> j \<and> covers p j then d else 0)"
      using 1 True covers_next by simp
    have unfold: "degreeTree_add_loop t i d = degreeTree_add_loop ?t (i + lowbit i) d"
      using 1 True by (simp add: degreeTree_add_loop.simps [of t i d])
    have "i \<le> j \<and> covers p j \<longleftrightarrow> j = i \<or> (i + lowbit i \<le> j \<and> covers p j)"
    proof (cases "i < j \<and> j < i + lowbit i")
      case True
      with covers_gap [OF 1(2) 1(3), of j] show ?thesis by auto
    next
      case False
      with 1(2) lowbit_pos [OF 1(3)] show ?thesis by auto
    qed
    moreover have "i + lowbit i \<le> j \<Longrightarrow> j \<noteq> i" using lowbit_pos [OF 1(3)] by simp
    ultimately show ?thesis unfolding unfold nth using 1(4) lowbit_pos [OF 1(3)]
      by (cases "j = i") (simp_all add: nth_list_update)
  next
    case False
    with 1 show ?thesis by (simp add: degreeTree_add_loop.simps [of t i d])
  qed
qed

lemma fenwick_new: "fenwick (new_degreeTree n) n (\<lambda>_. 0)"
  by (auto simp: fenwick_def new_degreeTree_def prefix_sum_def nth_Cons')

lemma fenwick_add:
  assumes t: "fenwick t n w" and i: "i < n"
  shows "fenwick (degreeTree_add i d t) n (w(i := w i + d))"
proof -
  have "tree (degreeTree_add i d t) ! j
      = prefix_sum (w(i := w i + d)) j - prefix_sum (w(i := w i + d)) (j - lowbit j)"
    if j: "0 < j" "j \<le> n" for j
  proof -
    have "tree (degreeTree_add i d t) ! j = tree t ! j + (if covers (i + 1) j then d else 0)"
      using add_loop_nth [of "i + 1" "i + 1" j "tree t" d] covers_self [of "i + 1"] j t
      by (auto simp: degreeTree_add_def fenwick_def covers_def)
    also have "\<dots> = prefix_sum w j - prefix_sum w (j - lowbit j) + (if covers (i + 1) j then d else 0)"
      using t j by (simp add: fenwick_def)
    finally show ?thesis using lowbit_le [of j] j
      by (auto simp: prefix_sum_upd covers_def)
  qed
  then show ?thesis using t i
    by (auto simp: fenwick_def degreeTree_add_def prefix_sum_upd)
qed

lemma choose_step_pow2: "step = 2 ^ a \<Longrightarrow> \<exists>b. choose_step step len = 2 ^ b \<and> len \<le> 2 ^ b"
proof (induction step len arbitrary: a rule: choose_step.induct)
  case (1 step len)
  show ?case
  proof (cases "step < len")
    case True
    with 1(1) [of "Suc a"] 1(2) show ?thesis by (subst choose_step.simps) simp
  next
    case False
    with 1(2) show ?thesis by (subst choose_step.simps) auto
  qed
qed

text \<open>
  The descent. With \<open>step = 2 ^ b\<close> the index is a multiple of \<open>2 ^ Suc b\<close>, the remaining ticket is
  relative to the prefix sum at the index, and the answer lies below \<open>index + 2 ^ Suc b\<close>.
\<close>

lemma choose_loop_correct:
  assumes "fenwick t n w" "\<And>j. 0 \<le> w j" "2 ^ b dvd index" "index \<le> n"
    and "prefix_sum w index \<le> k" "k < prefix_sum w n" "k < prefix_sum w (min n (index + 2 ^ b))"
  shows "choose_loop (tree t) (2 ^ b div 2) index (k - prefix_sum w index) < n
    \<and> prefix_sum w (choose_loop (tree t) (2 ^ b div 2) index (k - prefix_sum w index)) \<le> k
    \<and> k < prefix_sum w (Suc (choose_loop (tree t) (2 ^ b div 2) index (k - prefix_sum w index)))"
  using assms(3-)
proof (induction b arbitrary: index)
  case 0
  have "index < n" using 0 by (cases "index = n") auto
  then have "min n (index + 2 ^ 0) = Suc index" by simp
  with 0 \<open>index < n\<close> show ?case by (simp add: choose_loop.simps)
next
  case (Suc b)
  let ?next = "index + 2 ^ b"
  have "2 ^ Suc b dvd index" by (rule Suc.prems)
  then obtain c where c: "index = 2 ^ Suc b * c" by blast
  have lb: "lowbit ?next = 2 ^ b" using lowbit_eq [of b c] c by (simp add: algebra_simps)
  have len: "length (tree t) = n + 1" using assms(1) by (simp add: fenwick_def)
  have cell: "tree t ! ?next = prefix_sum w ?next - prefix_sum w index" if "?next \<le> n"
    using assms(1) that lb by (simp add: fenwick_def)
  have unfold: "choose_loop (tree t) (2 ^ Suc b div 2) index (k - prefix_sum w index) =
      (if ?next \<le> n \<and> prefix_sum w ?next \<le> k
       then choose_loop (tree t) (2 ^ b div 2) ?next (k - prefix_sum w ?next)
       else choose_loop (tree t) (2 ^ b div 2) index (k - prefix_sum w index))"
    using len cell by (subst choose_loop.simps) (auto simp: Let_def less_Suc_eq_le)
  show ?case
  proof (cases "?next \<le> n \<and> prefix_sum w ?next \<le> k")
    case True
    moreover have "2 ^ b dvd ?next" using c by simp
    moreover have "k < prefix_sum w (min n (?next + 2 ^ b))"
    proof -
      have "?next + 2 ^ b = index + 2 ^ Suc b" by simp
      then show ?thesis using Suc.prems by (simp only:)
    qed
    ultimately show ?thesis using Suc.IH [of ?next] Suc.prems unfold by simp
  next
    case False
    moreover have "2 ^ b dvd index" using c by simp
    moreover have "k < prefix_sum w (min n ?next)" using False Suc.prems by (auto simp: min_def)
    ultimately show ?thesis using Suc.IH [of index] Suc.prems unfold by auto
  qed
qed

lemma fenwick_choose:
  assumes "fenwick t n w" "\<And>j. 0 \<le> w j" "0 \<le> k" "k < prefix_sum w n"
  shows "degreeTree_choose k t < n \<and> prefix_sum w (degreeTree_choose k t) \<le> k
    \<and> k < prefix_sum w (Suc (degreeTree_choose k t))"
proof -
  obtain b where b: "choose_step 1 (length (tree t)) = 2 ^ b" "length (tree t) \<le> 2 ^ b"
    using choose_step_pow2 [of 1 0] by auto
  then have "min n (0 + 2 ^ b) = n" using assms(1) by (auto simp: fenwick_def)
  then show ?thesis
    using choose_loop_correct [OF assms(1,2), of b 0 k] assms b by (simp add: degreeTree_choose_def)
qed

interpretation dtree: weighted_sampler fenwick new_degreeTree degreeTree_add total degreeTree_choose
proof unfold_locales
  show "fenwick (new_degreeTree n) n (\<lambda>_. 0)" for n by (rule fenwick_new)
  show "fenwick s n w \<Longrightarrow> i < n \<Longrightarrow> fenwick (degreeTree_add i d s) n (w(i := w i + d))"
    for s n w i d by (rule fenwick_add)
  show "fenwick s n w \<Longrightarrow> total s = prefix_sum w n" for s n w by (simp add: fenwick_def)
  show "degreeTree_choose k s < n \<and> prefix_sum w (degreeTree_choose k s) \<le> k
      \<and> k < prefix_sum w (Suc (degreeTree_choose k s))"
    if "fenwick s n w" "\<And>j. 0 \<le> w j" "0 \<le> k" "k < prefix_sum w n" for s n w k
    using that by (rule fenwick_choose)
qed

subsection \<open>Sampling from a tree built by any sequence of updates\<close>

definition degreeTree_adds :: "nat \<Rightarrow> (nat \<times> int) list \<Rightarrow> degreeTree" where
  "degreeTree_adds n ds = foldl (\<lambda>t (i, d). degreeTree_add i d t) (new_degreeTree n) ds"

definition weight_of :: "(nat \<times> int) list \<Rightarrow> nat \<Rightarrow> int" where
  "weight_of ds i = (\<Sum>(j, d)\<leftarrow>ds. if j = i then d else 0)"

lemma fenwick_adds:
  assumes "\<forall>(i, d)\<in>set ds. i < n"
  shows "fenwick (degreeTree_adds n ds) n (weight_of ds)"
  using assms
proof (induction ds rule: rev_induct)
  case Nil
  have "weight_of [] = (\<lambda>_. 0)" by (simp add: weight_of_def fun_eq_iff)
  then show ?case using dtree.rep_empty [of n] by (simp add: degreeTree_adds_def)
next
  case (snoc p ds)
  obtain i d where p: "p = (i, d)" by fastforce
  have "weight_of (ds @ [p]) = (weight_of ds)(i := weight_of ds i + d)"
    by (auto simp: weight_of_def p fun_eq_iff)
  moreover have "degreeTree_adds n (ds @ [p]) = degreeTree_add i d (degreeTree_adds n ds)"
    by (simp add: degreeTree_adds_def p)
  ultimately show ?case using snoc dtree.rep_add [of "degreeTree_adds n ds" n "weight_of ds" i d] p by (simp del: fun_upd_apply)
qed

text \<open>
  C10. The Fenwick tree behind preferential attachment samples exactly: after any sequence of weight
  updates that leaves no negative weight, the tickets \<open>0 \<le> k < total\<close> for which \<^verbatim>\<open>choose\<close> returns the
  index \<open>i\<close> are as many as the weight of \<open>i\<close>, so an index of weight zero is never chosen.
\<close>

theorem degreeTree_choose_exact:
  assumes "\<forall>(j, d)\<in>set ds. j < n" "\<And>j. 0 \<le> weight_of ds j" "i < n"
  shows "card {k. 0 \<le> k \<and> k < total (degreeTree_adds n ds) \<and> degreeTree_choose k (degreeTree_adds n ds) = i}
    = nat (weight_of ds i)"
  by (rule dtree.pick_card [OF fenwick_adds [OF assms(1)] assms(2,3)])

theorem degreeTree_choose_exact_witness:
  "card {k. 0 \<le> k \<and> k < total (degreeTree_adds 3 [(0, 2), (2, 4), (0, -1)])
      \<and> degreeTree_choose k (degreeTree_adds 3 [(0, 2), (2, 4), (0, -1)]) = 2} = 4"
  using degreeTree_choose_exact [of "[(0, 2), (2, 4), (0, -1)]" 3 2] by (simp add: weight_of_def)

end
