(* ===== verification/Topology_Config.thy ===== *)
theory Topology_Config
  imports KPL_Prelude
begin

text \<open>
  \<^verbatim>\<open>internal/model/topology.go\<close>: the description of a generated topology and its validation, with the
  cohort-dependent bounds that keep a generation below the edge limit.
\<close>

subsection \<open>The configuration\<close>

definition MaxTopologyNodes :: int where "MaxTopologyNodes = 10000"
definition MaxTopologyEdges :: int where "MaxTopologyEdges = 1000000"

record TopologyConfig =
  tc_Model :: string
  tc_Seed :: "int option"
  tc_P :: "f64 option"
  tc_K :: "int option"
  tc_M :: "int option"
  tc_Radius :: "f64 option"
  tc_Alpha :: "f64 option"
  tc_Beta :: "f64 option"
  tc_Rows :: "int option"
  tc_Columns :: "int option"

text \<open>\<^verbatim>\<open>model.FiniteScore\<close>.\<close>

definition FiniteScore :: "f64 \<Rightarrow> bool" where
  "FiniteScore x = f_finite x"

text \<open>The switch that fills the map \<^verbatim>\<open>allowed\<close>; \<open>None\<close> is its default branch.\<close>

definition topology_allowed :: "string \<Rightarrow> string list option" where
  "topology_allowed model =
     (if model = ''er'' then Some [''p'']
      else if model = ''ws'' then Some [''p'', ''k'']
      else if model = ''ba'' then Some [''m'']
      else if model = ''rgg'' then Some [''radius'']
      else if model = ''waxman'' then Some [''alpha'', ''beta'']
      else if model = ''grid'' \<or> model = ''triangular'' then Some [''rows'', ''columns'']
      else None)"

definition topology_fields :: "TopologyConfig \<Rightarrow> (string \<times> bool) list" where
  "topology_fields c =
     [(''p'', tc_P c \<noteq> None), (''k'', tc_K c \<noteq> None), (''m'', tc_M c \<noteq> None),
      (''radius'', tc_Radius c \<noteq> None), (''alpha'', tc_Alpha c \<noteq> None), (''beta'', tc_Beta c \<noteq> None),
      (''rows'', tc_Rows c \<noteq> None), (''columns'', tc_Columns c \<noteq> None)]"

definition topology_check_field :: "string list \<Rightarrow> string \<times> bool \<Rightarrow> unit \<Rightarrow> unit result" where
  "topology_check_field allowed field u =
     (let (name, present) = field in
      rbind (check (present \<and> name \<notin> set allowed) ''topology model does not support field'') (\<lambda>_.
      check (\<not> present \<and> name \<in> set allowed) ''topology model requires field''))"

text \<open>\<^verbatim>\<open>math.Sqrt2\<close> as a float64.\<close>

definition Sqrt2_f64 :: f64 where
  "Sqrt2_f64 = Fin (6369051672525773 / 4503599627370496)"

text \<open>The edge estimate at the end of \<^verbatim>\<open>Validate\<close>. All products stay far below \<open>2 ^ 63\<close>.\<close>

definition topology_edge_estimate :: "TopologyConfig \<Rightarrow> int \<Rightarrow> int result" where
  "topology_edge_estimate c n =
     (if \<not> n > 0 then Inr 0
      else if tc_Model c = ''ws'' then rbind (deref (tc_K c)) (\<lambda>k. Inr (n * k div 2))
      else if tc_Model c = ''ba'' then rbind (deref (tc_M c)) (\<lambda>m. Inr (m * (n - m)))
      else if tc_Model c = ''er'' then
        rbind (deref (tc_P c)) (\<lambda>p. Inr (if f_eq p (Fin 1) then n * (n - 1) div 2 else 0))
      else if tc_Model c = ''rgg'' then
        rbind (deref (tc_Radius c)) (\<lambda>r. Inr (if f_le Sqrt2_f64 r then n * (n - 1) div 2 else 0))
      else Inr 0)"

definition topology_check_unit :: "f64 option \<Rightarrow> unit result" where
  "topology_check_unit v =
     check (ptr_is (\<lambda>x. \<not> FiniteScore x \<or> f_le x (Fin 0) \<or> f_lt (Fin 1) x) v)
       ''topology value must be finite and in (0, 1]''"

definition topology_check_lattice :: "TopologyConfig \<Rightarrow> int \<Rightarrow> unit result" where
  "topology_check_lattice c n =
     (case tc_Rows c of None \<Rightarrow> Inr ()
      | Some rows \<Rightarrow> rbind (deref (tc_Columns c)) (\<lambda>columns.
          rbind (check (rows < 1 \<or> columns < 1 \<or> rows > MaxTopologyNodes \<or> columns > MaxTopologyNodes
                        \<or> rows > MaxTopologyNodes div columns)
                  ''topology rows and columns must be positive with a bounded product'') (\<lambda>_.
          check (n > 0 \<and> rows * columns \<noteq> n)
            ''topology rows * columns must equal selected node count'')))"

definition topology_Validate :: "TopologyConfig \<Rightarrow> int \<Rightarrow> unit result" where
  "topology_Validate c n =
     rbind (check (n < 0 \<or> n > MaxTopologyNodes) ''topology node count out of range'') (\<lambda>_.
     case topology_allowed (tc_Model c) of
       None \<Rightarrow> Inl (Fail ''unknown topology model'')
     | Some allowed \<Rightarrow>
        rbind (foldR (topology_check_field allowed) (topology_fields c) ()) (\<lambda>_.
        rbind (check (ptr_is (\<lambda>p. \<not> FiniteScore p \<or> f_lt p (Fin 0) \<or> f_lt (Fin 1) p) (tc_P c))
                 ''topology p must be finite and in [0, 1]'') (\<lambda>_.
        rbind (check (ptr_is (\<lambda>k. k < 2 \<or> k mod 2 \<noteq> 0 \<or> k \<ge> MaxTopologyNodes \<or> n > 0 \<and> k \<ge> n) (tc_K c))
                 ''topology ws k must be even, at least 2, and smaller than the node count'') (\<lambda>_.
        rbind (check (ptr_is (\<lambda>m. m < 1 \<or> m \<ge> MaxTopologyNodes \<or> n > 0 \<and> m \<ge> n) (tc_M c))
                 ''topology ba m must be at least 1 and smaller than the node count'') (\<lambda>_.
        rbind (check (ptr_is (\<lambda>r. \<not> FiniteScore r \<or> f_lt r (Fin 0)) (tc_Radius c))
                 ''topology radius must be finite and non-negative'') (\<lambda>_.
        rbind (topology_check_unit (tc_Alpha c)) (\<lambda>_.
        rbind (topology_check_unit (tc_Beta c)) (\<lambda>_.
        rbind (topology_check_lattice c n) (\<lambda>_.
        rbind (topology_edge_estimate c n) (\<lambda>edges.
        check (edges > MaxTopologyEdges) ''topology exceeds the limit of undirected edges''))))))))))"

subsection \<open>What an accepted configuration guarantees\<close>

lemmas topology_Validate_defs =
  topology_Validate_def topology_fields_def topology_check_field_def topology_edge_estimate_def
  topology_check_unit_def topology_check_lattice_def MaxTopologyNodes_def MaxTopologyEdges_def

lemma topology_Validate_size: "topology_Validate c n = Inr () \<Longrightarrow> 0 \<le> n \<and> n \<le> 10000"
  by (simp add: topology_Validate_def MaxTopologyNodes_def)

lemma topology_Validate_model:
  assumes "topology_Validate c n = Inr ()"
  shows "tc_Model c \<in> {''er'', ''ws'', ''ba'', ''rgg'', ''waxman'', ''grid'', ''triangular''}"
  using assms by (auto simp: topology_Validate_def topology_allowed_def split: if_splits)

lemma topology_Validate_ws:
  assumes "topology_Validate c n = Inr ()" "tc_Model c = ''ws''" "0 < n"
  obtains k p where "tc_K c = Some k" "tc_P c = Some (Fin p)" "2 \<le> k" "even k" "k < n"
    "n * k div 2 \<le> 1000000" "0 \<le> p" "p \<le> 1"
proof -
  have "\<exists>k p. tc_K c = Some k \<and> tc_P c = Some (Fin p) \<and> 2 \<le> k \<and> even k \<and> k < n
      \<and> n * k div 2 \<le> 1000000 \<and> 0 \<le> p \<and> p \<le> 1"
    using assms
    by (auto simp: topology_Validate_defs topology_allowed_def rbind_Inr_iff FiniteScore_def
        f_finite_iff even_iff_mod_2_eq_zero)
  then show thesis using that by blast
qed

lemma topology_Validate_ba:
  assumes "topology_Validate c n = Inr ()" "tc_Model c = ''ba''" "0 < n"
  obtains m where "tc_M c = Some m" "1 \<le> m" "m < n" "m * (n - m) \<le> 1000000"
proof -
  have "\<exists>m. tc_M c = Some m \<and> 1 \<le> m \<and> m < n \<and> m * (n - m) \<le> 1000000"
    using assms
    by (auto simp: topology_Validate_defs topology_allowed_def rbind_Inr_iff)
  then show thesis using that by blast
qed

lemma topology_Validate_lattice:
  assumes "topology_Validate c n = Inr ()" "tc_Model c = ''grid'' \<or> tc_Model c = ''triangular''" "0 < n"
  obtains rows columns where "tc_Rows c = Some rows" "tc_Columns c = Some columns"
    "1 \<le> rows" "1 \<le> columns" "rows * columns = n"
proof -
  have "\<exists>r k. tc_Rows c = Some r \<and> tc_Columns c = Some k \<and> 1 \<le> r \<and> 1 \<le> k \<and> r * k = n"
    using assms
    by (auto simp: topology_Validate_defs topology_allowed_def rbind_Inr_iff)
  then show thesis using that by blast
qed

lemma topology_Validate_present:
  assumes "topology_Validate c n = Inr ()" "0 < n"
  shows "tc_Model c = ''er'' \<Longrightarrow> tc_P c \<noteq> None"
    and "tc_Model c = ''rgg'' \<Longrightarrow> tc_Radius c \<noteq> None"
    and "tc_Model c = ''waxman'' \<Longrightarrow> tc_Alpha c \<noteq> None \<and> tc_Beta c \<noteq> None"
  using assms by (auto simp: topology_Validate_defs topology_allowed_def rbind_Inr_iff)

end
