(* ===== verification/Topology_Builder.thy ===== *)
theory Topology_Builder
  imports Degree_Tree Topology_Config
begin

text \<open>
  The \<^verbatim>\<open>builder\<close> of \<^verbatim>\<open>internal/topology/generate.go\<close> and its generators.

  A Go \<^verbatim>\<open>map[int]struct{}\<close> of neighbours is a \<^typ>\<open>nat set\<close> (a nil map is the empty set), node indices
  are naturals. \<^verbatim>\<open>ctx.Err()\<close> is decided by the environment: \<open>ctx k\<close> says whether the \<open>k\<close>-th call of it
  reports a cancellation, and \<open>polls\<close> counts the calls. An index out of range is a panic.
\<close>

subsection \<open>State and primitive operations\<close>

type_synonym ctx = "nat \<Rightarrow> bool"

definition MaxEdges :: int where "MaxEdges = MaxTopologyEdges"

record builder =
  neighbors :: "nat set list"
  edges :: int
  steps :: "64 word"
  polls :: nat

definition new_builder :: "nat \<Rightarrow> nat \<Rightarrow> builder" where
  "new_builder n k = \<lparr>neighbors = replicate n {}, edges = 0, steps = 0, polls = k\<rparr>"

definition ctx_Err :: "ctx \<Rightarrow> builder \<Rightarrow> builder result" where
  "ctx_Err ctx b = (if ctx (polls b) then Inl CtxErr else Inr (b\<lparr>polls := Suc (polls b)\<rparr>))"

definition builder_step :: "ctx \<Rightarrow> builder \<Rightarrow> builder result" where
  "builder_step ctx b =
     (let b' = b\<lparr>steps := steps b + 1\<rparr>
      in if and (steps b') 1023 = 0 then ctx_Err ctx b' else Inr b')"

definition edge_limit :: go_err where
  "edge_limit = Fail ''topology exceeds the limit of undirected edges''"

definition builder_add :: "nat \<Rightarrow> nat \<Rightarrow> builder \<Rightarrow> builder result" where
  "builder_add u v b =
     (if u = v then Inl (Fail ''topology cannot contain a self edge'')
      else if u \<ge> length (neighbors b) then Inl Panic
      else if v \<in> neighbors b ! u then Inr b
      else if edges b \<ge> MaxEdges then Inl edge_limit
      else if v \<ge> length (neighbors b) then Inl Panic
      else Inr (b\<lparr>neighbors := (neighbors b)[u := insert v (neighbors b ! u),
                                              v := insert u (neighbors b ! v)],
                  edges := edges b + 1\<rparr>))"

text \<open>Reading \<^verbatim>\<open>b.neighbors[v]\<close>.\<close>

definition nbrs :: "builder \<Rightarrow> nat \<Rightarrow> nat set result" where
  "nbrs b v = (if v < length (neighbors b) then Inr (neighbors b ! v) else Inl Panic)"

text \<open>
  \<^verbatim>\<open>pairs\<close> visits the pairs \<open>u < v\<close>. The closure \<open>incl\<close> may carry state of its own (the random
  source, or the longest distance seen).
\<close>

definition pair_body ::
    "ctx \<Rightarrow> (nat \<Rightarrow> nat \<Rightarrow> 's \<Rightarrow> bool \<times> 's) \<Rightarrow> nat \<Rightarrow> nat \<Rightarrow> builder \<times> 's \<Rightarrow> (builder \<times> 's) result" where
  "pair_body ctx incl u v bs =
     (let (b, s) = bs in
      rbind (builder_step ctx b) (\<lambda>b.
      let (yes, s') = incl u v s in
      if yes then rbind (builder_add u v b) (\<lambda>b. Inr (b, s')) else Inr (b, s')))"

definition builder_pairs ::
    "ctx \<Rightarrow> (nat \<Rightarrow> nat \<Rightarrow> 's \<Rightarrow> bool \<times> 's) \<Rightarrow> builder \<times> 's \<Rightarrow> (builder \<times> 's) result" where
  "builder_pairs ctx incl bs =
     (let n = length (neighbors (fst bs)) in
      foldR (\<lambda>u. foldR (pair_body ctx incl u) [u + 1..<n]) [0..<n] bs)"

subsection \<open>Watts-Strogatz\<close>

definition ws_ring_body :: "ctx \<Rightarrow> nat \<Rightarrow> nat \<Rightarrow> nat \<Rightarrow> builder \<Rightarrow> builder result" where
  "ws_ring_body ctx n offset u b =
     rbind (builder_step ctx b) (\<lambda>b. builder_add u ((u + offset) mod n) b)"

text \<open>The rejection loop \<^verbatim>\<open>for attempt := 0; attempt < 16; attempt++\<close>.\<close>

fun ws_attempts :: "nat \<Rightarrow> nat set \<Rightarrow> nat \<Rightarrow> nat \<Rightarrow> rng \<Rightarrow> (nat option \<times> rng) result" where
  "ws_attempts 0 linked u n r = Inr (None, r)"
| "ws_attempts (Suc attempts) linked u n r =
     rbind (rng_Intn n r) (\<lambda>(candidate, r').
       if candidate \<noteq> u \<and> candidate \<notin> linked then Inr (Some candidate, r')
       else ws_attempts attempts linked u n r')"

text \<open>The exact choice by rank among the unlinked candidates.\<close>

fun ws_rank :: "ctx \<Rightarrow> nat list \<Rightarrow> nat set \<Rightarrow> nat \<Rightarrow> nat \<Rightarrow> builder \<Rightarrow> (nat option \<times> builder) result" where
  "ws_rank ctx [] linked u rank b = Inr (None, b)"
| "ws_rank ctx (candidate # cs) linked u rank b =
     rbind (builder_step ctx b) (\<lambda>b.
       if candidate \<noteq> u \<and> candidate \<notin> linked
       then (if rank = 0 then Inr (Some candidate, b) else ws_rank ctx cs linked u (rank - 1) b)
       else ws_rank ctx cs linked u rank b)"

definition builder_delete :: "nat \<Rightarrow> nat \<Rightarrow> builder \<Rightarrow> builder" where
  "builder_delete u v b =
     (let nb = (neighbors b)[u := neighbors b ! u - {v}]
      in b\<lparr>neighbors := nb[v := nb ! v - {u}], edges := edges b - 1\<rparr>)"

text \<open>
  The choice of \<^verbatim>\<open>w\<close>; \<open>None\<close> is the value \<open>-1\<close>, for which \<^verbatim>\<open>b.add(u, w)\<close> reads \<^verbatim>\<open>b.neighbors[-1]\<close> after
  the test of the edge limit.
\<close>

definition ws_choose :: "ctx \<Rightarrow> nat \<Rightarrow> nat \<Rightarrow> builder \<Rightarrow> rng \<Rightarrow> (nat option \<times> builder \<times> rng) result" where
  "ws_choose ctx n u b r =
     rbind (nbrs b u) (\<lambda>linked.
     rbind (ws_attempts 16 linked u n r) (\<lambda>(w, r).
       case w of Some c \<Rightarrow> Inr (Some c, b, r)
       | None \<Rightarrow>
          rbind (rng_Intn (n - 1 - card linked) r) (\<lambda>(rank, r).
          rbind (ws_rank ctx [0..<n] linked u rank b) (\<lambda>(w, b). Inr (w, b, r)))))"

definition ws_rewire_body ::
    "ctx \<Rightarrow> f64 \<Rightarrow> nat \<Rightarrow> nat \<Rightarrow> nat \<Rightarrow> builder \<times> rng \<Rightarrow> (builder \<times> rng) result" where
  "ws_rewire_body ctx probability n offset u br =
     (let (b, r) = br in
      rbind (builder_step ctx b) (\<lambda>b.
      let (x, r) = rng_Float64 r in
      if f_le probability (Fin x) then Inr (b, r)
      else rbind (nbrs b u) (\<lambda>linked.
      if card linked = n - 1 then Inr (b, r)
      else rbind (ws_choose ctx n u b r) (\<lambda>(w, b, r).
        let b = builder_delete u ((u + offset) mod n) b in
        case w of
          Some w \<Rightarrow> rbind (builder_add u w b) (\<lambda>b. Inr (b, r))
        | None \<Rightarrow> Inl (if edges b \<ge> MaxEdges then edge_limit else Panic)))))"

definition wattsStrogatz :: "ctx \<Rightarrow> nat \<Rightarrow> f64 \<Rightarrow> builder \<Rightarrow> rng \<Rightarrow> (builder \<times> rng) result" where
  "wattsStrogatz ctx k probability b r =
     (let n = length (neighbors b) in
      rbind (foldR (\<lambda>offset. foldR (ws_ring_body ctx n offset) [0..<n]) [1..<k div 2 + 1] b) (\<lambda>b.
      foldR (\<lambda>offset. foldR (ws_rewire_body ctx probability n offset) [0..<n]) [1..<k div 2 + 1] (b, r)))"

subsection \<open>Barabasi-Albert\<close>

definition ba_star_body :: "ctx \<Rightarrow> nat \<Rightarrow> builder \<Rightarrow> builder result" where
  "ba_star_body ctx v b = rbind (builder_step ctx b) (\<lambda>b. builder_add 0 v b)"

definition ba_weight_body :: "builder \<Rightarrow> nat \<Rightarrow> degreeTree \<Rightarrow> degreeTree result" where
  "ba_weight_body b v t = rbind (nbrs b v) (\<lambda>nb. Inr (degreeTree_add v (int (card nb)) t))"

text \<open>One draw of a target: its weight is cleared, so that it is not drawn again for this node.\<close>

definition ba_pick_body ::
    "ctx \<Rightarrow> nat \<Rightarrow> builder \<times> degreeTree \<times> rng \<times> nat list \<Rightarrow> (builder \<times> degreeTree \<times> rng \<times> nat list) result"
  where
  "ba_pick_body ctx i st =
     (let (b, t, r, targets) = st in
      rbind (builder_step ctx b) (\<lambda>b.
      rbind (rng_Intn (nat (total t)) r) (\<lambda>(ticket, r).
      let target = degreeTree_choose (int ticket) t in
      rbind (nbrs b target) (\<lambda>nb.
      Inr (b, degreeTree_add target (- int (card nb)) t, r, targets[i := target])))))"

definition ba_link_body :: "nat \<Rightarrow> nat \<Rightarrow> builder \<times> degreeTree \<Rightarrow> (builder \<times> degreeTree) result" where
  "ba_link_body v target bt =
     (let (b, t) = bt in
      rbind (builder_add v target b) (\<lambda>b.
      rbind (nbrs b target) (\<lambda>nb. Inr (b, degreeTree_add target (int (card nb)) t))))"

definition ba_node_body ::
    "ctx \<Rightarrow> nat \<Rightarrow> nat \<Rightarrow> builder \<times> degreeTree \<times> rng \<times> nat list \<Rightarrow> (builder \<times> degreeTree \<times> rng \<times> nat list) result"
  where
  "ba_node_body ctx m v st =
     rbind (foldR (ba_pick_body ctx) [0..<length (snd (snd (snd st)))] st) (\<lambda>(b, t, r, targets).
     rbind (foldR (ba_link_body v) targets (b, t)) (\<lambda>(b, t).
     Inr (b, degreeTree_add v (int m) t, r, targets)))"

definition barabasiAlbert :: "ctx \<Rightarrow> nat \<Rightarrow> builder \<Rightarrow> rng \<Rightarrow> (builder \<times> rng) result" where
  "barabasiAlbert ctx m b r =
     (let n = length (neighbors b); weights = new_degreeTree n in
      rbind (foldR (ba_star_body ctx) [1..<m + 1] b) (\<lambda>b.
      rbind (foldR (ba_weight_body b) [0..<m + 1] weights) (\<lambda>weights.
      rbind (foldR (ba_node_body ctx m) [m + 1..<n] (b, weights, r, replicate m 0)) (\<lambda>(b, t, r, targets).
      Inr (b, r)))))"

subsection \<open>Lattices\<close>

record Position =
  pos_X :: f64
  pos_Y :: f64

text \<open>\<^verbatim>\<open>math.Sqrt(3) / 2\<close> as a float64.\<close>

definition Sqrt3_half_f64 :: f64 where
  "Sqrt3_half_f64 = Fin (7800463371553962 / 9007199254740992)"

definition lattice_position :: "bool \<Rightarrow> nat \<Rightarrow> nat \<Rightarrow> Position" where
  "lattice_position triangular row column =
     (if triangular
      then \<lparr>pos_X = f_add (Fin (of_nat column)) (f_div (Fin (of_nat (row mod 2))) (Fin 2)),
            pos_Y = f_mul (Fin (of_nat row)) Sqrt3_half_f64\<rparr>
      else \<lparr>pos_X = Fin (of_nat column), pos_Y = Fin (of_nat row)\<rparr>)"

text \<open>
  The edges a lattice cell adds, in the order of the code: the right neighbour, the cell below and,
  in a triangular lattice, one diagonal of the row below (\<^verbatim>\<open>next\<close>, which may leave the row).
\<close>

definition lattice_targets :: "nat \<Rightarrow> nat \<Rightarrow> bool \<Rightarrow> nat \<Rightarrow> nat \<Rightarrow> nat list" where
  "lattice_targets rows columns triangular row column =
     (let u = row * columns + column;
          next = (if row mod 2 = 1 then int column + 1 else int column - 1)
      in (if column + 1 < columns then [u + 1] else [])
         @ (if row + 1 < rows
            then [u + columns]
                 @ (if triangular \<and> next \<ge> 0 \<and> next < int columns
                    then [(row + 1) * columns + nat next] else [])
            else []))"

definition lattice_body ::
    "ctx \<Rightarrow> nat \<Rightarrow> nat \<Rightarrow> bool \<Rightarrow> nat \<Rightarrow> nat \<Rightarrow> builder \<times> Position list \<Rightarrow> (builder \<times> Position list) result"
  where
  "lattice_body ctx rows columns triangular row column bp =
     (let (b, positions) = bp; u = row * columns + column in
      rbind (builder_step ctx b) (\<lambda>b.
      if u \<ge> length positions then Inl Panic
      else rbind (foldR (builder_add u) (lattice_targets rows columns triangular row column) b) (\<lambda>b.
      Inr (b, positions[u := lattice_position triangular row column]))))"

definition zero_Position :: Position where
  "zero_Position = \<lparr>pos_X = Fin 0, pos_Y = Fin 0\<rparr>"

definition lattice :: "ctx \<Rightarrow> nat \<Rightarrow> nat \<Rightarrow> bool \<Rightarrow> builder \<Rightarrow> (builder \<times> Position list) result" where
  "lattice ctx rows columns triangular b =
     foldR (\<lambda>row. foldR (lattice_body ctx rows columns triangular row) [0..<columns]) [0..<rows]
       (b, replicate (length (neighbors b)) zero_Position)"

end
