(* ===== verification/Topology_Invariant.thy ===== *)
theory Topology_Invariant
  imports Topology_Builder
begin

text \<open>
  The invariant of the topology builder, a simple undirected graph whose edge counter is exact, and
  the contract \<open>edge_store\<close> that the generators use: what adding an edge does to the adjacency
  relation and to the counter, and when it fails.
\<close>

subsection \<open>The contract of an edge store\<close>

locale edge_store =
  fixes inv :: "nat \<Rightarrow> 'b \<Rightarrow> bool"
    and adj :: "'b \<Rightarrow> nat \<Rightarrow> nat \<Rightarrow> bool"
    and count :: "'b \<Rightarrow> int"
    and add :: "nat \<Rightarrow> nat \<Rightarrow> 'b \<Rightarrow> 'b result"
    and limit :: int
    and full :: go_err
  assumes adj_sym: "inv n b \<Longrightarrow> u < n \<Longrightarrow> adj b u v \<Longrightarrow> adj b v u"
    and adj_irrefl: "inv n b \<Longrightarrow> u < n \<Longrightarrow> \<not> adj b u u"
    and add_known: "inv n b \<Longrightarrow> u < n \<Longrightarrow> adj b u v \<Longrightarrow> add u v b = Inr b"
    and add_full: "inv n b \<Longrightarrow> u < n \<Longrightarrow> u \<noteq> v \<Longrightarrow> \<not> adj b u v \<Longrightarrow> limit \<le> count b \<Longrightarrow> add u v b = Inl full"
    and add_new: "inv n b \<Longrightarrow> u < n \<Longrightarrow> v < n \<Longrightarrow> u \<noteq> v \<Longrightarrow> \<not> adj b u v \<Longrightarrow> count b < limit \<Longrightarrow>
        \<exists>b'. add u v b = Inr b' \<and> inv n b' \<and> count b' = count b + 1
          \<and> (\<forall>x y. adj b' x y \<longleftrightarrow> adj b x y \<or> x = u \<and> y = v \<or> x = v \<and> y = u)"
begin

text \<open>Adding any edge between two distinct nodes keeps the invariant or reports the limit.\<close>

lemma add_yields:
  assumes "inv n b" "u < n" "v < n" "u \<noteq> v"
  shows "yields (add u v b) {full} (inv n)"
proof -
  consider "adj b u v" | "\<not> adj b u v" "limit \<le> count b" | "\<not> adj b u v" "count b < limit"
    by linarith
  then show ?thesis
  proof cases
    case 1
    then show ?thesis using add_known assms by simp
  next
    case 2
    then show ?thesis using add_full assms by simp
  next
    case 3
    then show ?thesis using add_new [OF assms] by force
  qed
qed

lemma add_new_yields:
  assumes "inv n b" "u < n" "v < n" "u \<noteq> v" "\<not> adj b u v" "count b < limit"
  shows "yields (add u v b) B (\<lambda>b'. inv n b' \<and> count b' = count b + 1
    \<and> (\<forall>x y. adj b' x y \<longleftrightarrow> adj b x y \<or> x = u \<and> y = v \<or> x = v \<and> y = u))"
  using add_new [OF assms] by force

text \<open>A list of fresh edges from one node.\<close>

lemma add_list_yields:
  assumes "inv n b" "u < n" "distinct vs" "\<forall>v\<in>set vs. v < n \<and> v \<noteq> u \<and> \<not> adj b u v"
    and "count b + int (length vs) \<le> limit"
  shows "yields (foldR (add u) vs b) B (\<lambda>b'. inv n b' \<and> count b' = count b + int (length vs)
    \<and> (\<forall>x y. adj b' x y \<longleftrightarrow> adj b x y \<or> x = u \<and> y \<in> set vs \<or> y = u \<and> x \<in> set vs))"
proof (rule yields_foldR [where I = "\<lambda>done b'. inv n b' \<and> count b' = count b + int (length done)
    \<and> (\<forall>x y. adj b' x y \<longleftrightarrow> adj b x y \<or> x = u \<and> y \<in> set done \<or> y = u \<and> x \<in> set done)"])
  show "inv n b \<and> count b = count b + int (length [])
    \<and> (\<forall>x y. adj b x y \<longleftrightarrow> adj b x y \<or> x = u \<and> y \<in> set [] \<or> y = u \<and> x \<in> set [])"
    using assms by simp
next
  fix ys v zs t
  assume vs: "vs = ys @ v # zs"
    and I: "inv n t \<and> count t = count b + int (length ys)
      \<and> (\<forall>x y. adj t x y \<longleftrightarrow> adj b x y \<or> x = u \<and> y \<in> set ys \<or> y = u \<and> x \<in> set ys)"
  have "yields (add u v t) B (\<lambda>b'. inv n b' \<and> count b' = count t + 1
      \<and> (\<forall>x y. adj b' x y \<longleftrightarrow> adj t x y \<or> x = u \<and> y = v \<or> x = v \<and> y = u))"
    using vs I assms by (intro add_new_yields) auto
  then show "yields (add u v t) B (\<lambda>b'. inv n b' \<and> count b' = count b + int (length (ys @ [v]))
      \<and> (\<forall>x y. adj b' x y \<longleftrightarrow> adj b x y \<or> x = u \<and> y \<in> set (ys @ [v]) \<or> y = u \<and> x \<in> set (ys @ [v])))"
    by (rule yields_mono) (use I in auto)
qed

end

subsection \<open>The builder implements it\<close>

definition adj :: "builder \<Rightarrow> nat \<Rightarrow> nat \<Rightarrow> bool" where
  "adj b u v = (u < length (neighbors b) \<and> v \<in> neighbors b ! u)"

definition simple_graph :: "nat \<Rightarrow> builder \<Rightarrow> bool" where
  "simple_graph n b =
     (length (neighbors b) = n \<and> (\<forall>u<n. neighbors b ! u \<subseteq> {..<n} - {u})
      \<and> (\<forall>u<n. \<forall>v\<in>neighbors b ! u. u \<in> neighbors b ! v)
      \<and> (\<Sum>u<n. int (card (neighbors b ! u))) = 2 * edges b \<and> edges b \<le> MaxEdges)"

lemma simple_graphD:
  assumes "simple_graph n b"
  shows "length (neighbors b) = n" "\<And>u. u < n \<Longrightarrow> neighbors b ! u \<subseteq> {..<n} - {u}"
    "\<And>u v. u < n \<Longrightarrow> v \<in> neighbors b ! u \<Longrightarrow> u \<in> neighbors b ! v"
    "(\<Sum>u<n. int (card (neighbors b ! u))) = 2 * edges b" "edges b \<le> MaxEdges"
    "\<And>u. u < n \<Longrightarrow> finite (neighbors b ! u)" "\<And>u v. u < n \<Longrightarrow> v \<in> neighbors b ! u \<Longrightarrow> v < n"
proof -
  show "length (neighbors b) = n" "(\<Sum>u<n. int (card (neighbors b ! u))) = 2 * edges b"
    "edges b \<le> MaxEdges" using assms by (simp_all add: simple_graph_def)
  show sub: "neighbors b ! u \<subseteq> {..<n} - {u}" if "u < n" for u
    using assms that by (simp add: simple_graph_def)
  show "u \<in> neighbors b ! v" if "u < n" "v \<in> neighbors b ! u" for u v
    using assms that by (simp add: simple_graph_def)
  show "finite (neighbors b ! u)" if "u < n" for u
    using sub [OF that] by (rule finite_subset) simp
  show "v < n" if "u < n" "v \<in> neighbors b ! u" for u v
    using sub [OF that(1)] that(2) by auto
qed

lemma simple_graph_adj:
  assumes "simple_graph n b" "adj b u v"
  shows "u < n" "v < n" "u \<noteq> v" "adj b v u"
  using assms simple_graphD [OF assms(1)] unfolding adj_def by auto

lemma simple_graphI:
  assumes "length (neighbors b) = n" "\<And>u v. adj b u v \<Longrightarrow> v < n \<and> u \<noteq> v \<and> adj b v u"
    and "(\<Sum>u<n. int (card (neighbors b ! u))) = 2 * edges b" "edges b \<le> MaxEdges"
  shows "simple_graph n b"
proof -
  have "v < n \<and> u \<noteq> v \<and> u \<in> neighbors b ! v" if "u < n" "v \<in> neighbors b ! u" for u v
    using assms(2) [of u v] that assms(1) by (simp add: adj_def)
  then have "neighbors b ! u \<subseteq> {..<n} - {u}" "\<forall>v\<in>neighbors b ! u. u \<in> neighbors b ! v"
    if "u < n" for u using that by blast+
  then show ?thesis using assms(1,3,4) by (simp add: simple_graph_def)
qed

lemma simple_graph_new: "simple_graph n (new_builder n k)"
  by (auto simp: simple_graph_def new_builder_def MaxEdges_def MaxTopologyEdges_def)

text \<open>
  A cancellation is the only error of a step, and only of a context that is cancelled at some poll.
  Steps and cancellation checks do not touch the graph.
\<close>

definition ctx_errs :: "ctx \<Rightarrow> go_err set" where
  "ctx_errs ctx = {e. e = CtxErr \<and> (\<exists>k. ctx k)}"

lemma ctx_errs_simps [simp]:
  "CtxErr \<in> ctx_errs ctx \<longleftrightarrow> (\<exists>k. ctx k)"
  "Panic \<notin> ctx_errs ctx" "ctx_errs (\<lambda>_. False) = {}"
  by (auto simp: ctx_errs_def)

lemma ctx_Err_yields:
  "yields (ctx_Err ctx b) (ctx_errs ctx) (\<lambda>b'. neighbors b' = neighbors b \<and> edges b' = edges b)"
  by (auto simp: ctx_Err_def)

lemma builder_step_yields:
  "yields (builder_step ctx b) (ctx_errs ctx) (\<lambda>b'. neighbors b' = neighbors b \<and> edges b' = edges b)"
  by (auto simp: builder_step_def ctx_Err_def Let_def)

lemma builder_step_bind:
  assumes "\<And>b'. neighbors b' = neighbors b \<Longrightarrow> edges b' = edges b \<Longrightarrow> yields (f b') B P" "ctx_errs ctx \<subseteq> B"
  shows "yields (rbind (builder_step ctx b) f) B P"
proof -
  have "yields (builder_step ctx b) B (\<lambda>b'. neighbors b' = neighbors b \<and> edges b' = edges b)"
    using builder_step_yields [of ctx b] assms(2) by (cases "builder_step ctx b") auto
  then show ?thesis by (rule yields_bind) (use assms(1) in auto)
qed

lemma same_graph:
  assumes "neighbors b' = neighbors b" "edges b' = edges b"
  shows "simple_graph n b' = simple_graph n b" "adj b' = adj b"
  using assms by (auto simp: simple_graph_def adj_def fun_eq_iff)

lemma sum_two_updates:
  fixes f g :: "nat \<Rightarrow> int"
  assumes "u < n" "v < n" "u \<noteq> v" "\<And>x. x \<noteq> u \<Longrightarrow> x \<noteq> v \<Longrightarrow> g x = f x"
  shows "(\<Sum>x<n. g x) = (\<Sum>x<n. f x) + (g u - f u) + (g v - f v)"
proof -
  have split: "(\<Sum>x<n. h x) = h u + h v + (\<Sum>x\<in>{..<n} - {u, v}. h x)" for h :: "nat \<Rightarrow> int"
    using assms(1-3) sum.remove [of "{..<n}" u h] sum.remove [of "{..<n} - {u}" v h]
    by (simp add: Diff_insert2 [symmetric] insert_commute)
  have "(\<Sum>x\<in>{..<n} - {u, v}. g x) = (\<Sum>x\<in>{..<n} - {u, v}. f x)"
    using assms(4) by (intro sum.cong) auto
  then show ?thesis by (simp add: split [of f] split [of g])
qed

lemma builder_add_new:
  assumes b: "simple_graph n b" and uv: "u < n" "v < n" "u \<noteq> v" "\<not> adj b u v" "edges b < MaxEdges"
  shows "\<exists>b'. builder_add u v b = Inr b' \<and> simple_graph n b' \<and> edges b' = edges b + 1
    \<and> (\<forall>x y. adj b' x y \<longleftrightarrow> adj b x y \<or> x = u \<and> y = v \<or> x = v \<and> y = u)"
proof -
  note D = simple_graphD [OF b]
  define b' where "b' = b\<lparr>neighbors := (neighbors b)[u := insert v (neighbors b ! u),
      v := insert u (neighbors b ! v)], edges := edges b + 1\<rparr>"
  have add: "builder_add u v b = Inr b'" using uv D(1) by (simp add: builder_add_def adj_def b'_def)
  have len: "length (neighbors b') = n" and edges: "edges b' = edges b + 1"
    using D(1) by (simp_all add: b'_def)
  have nb: "neighbors b' ! x = (if x = u then insert v (neighbors b ! u)
      else if x = v then insert u (neighbors b ! v) else neighbors b ! x)" if "x < n" for x
    using that uv D(1) by (simp add: b'_def nth_list_update)
  have nuv: "v \<notin> neighbors b ! u" "u \<notin> neighbors b ! v"
    using uv D(1) D(3) [of v u] by (auto simp: adj_def)
  have adj': "\<forall>x y. adj b' x y \<longleftrightarrow> adj b x y \<or> x = u \<and> y = v \<or> x = v \<and> y = u"
    using nb uv D(1) len by (auto simp: adj_def split: if_splits)
  have "(\<Sum>x<n. int (card (neighbors b' ! x))) = (\<Sum>x<n. int (card (neighbors b ! x))) + 1 + 1"
    using sum_two_updates [OF uv(1-3), where g = "\<lambda>x. if x < n then int (card (neighbors b' ! x)) else 0"
        and f = "\<lambda>x. if x < n then int (card (neighbors b ! x)) else 0"] nb nuv uv D(6)
    by auto
  moreover have "y < n \<and> x \<noteq> y \<and> adj b' y x" if "adj b' x y" for x y
    using that adj' simple_graph_adj [OF b, of x y] uv by blast
  ultimately have "simple_graph n b'"
    using D(4) uv edges by (intro simple_graphI [OF len]) auto
  with add adj' edges show ?thesis by blast
qed

interpretation store: edge_store simple_graph adj edges builder_add MaxEdges edge_limit
proof unfold_locales
  show "simple_graph n b \<Longrightarrow> u < n \<Longrightarrow> adj b u v \<Longrightarrow> adj b v u" for n b u v
    by (rule simple_graph_adj)
  show "simple_graph n b \<Longrightarrow> u < n \<Longrightarrow> \<not> adj b u u" for n b u
    using simple_graph_adj(3) by blast
  show "simple_graph n b \<Longrightarrow> u < n \<Longrightarrow> adj b u v \<Longrightarrow> builder_add u v b = Inr b" for n b u v
    using simple_graph_adj(3) by (auto simp: builder_add_def adj_def)
  show "builder_add u v b = Inl edge_limit"
    if "simple_graph n b" "u < n" "u \<noteq> v" "\<not> adj b u v" "MaxEdges \<le> edges b" for n b u v
    using that simple_graphD(1) [OF that(1)] by (simp add: builder_add_def adj_def)
  show "\<exists>b'. builder_add u v b = Inr b' \<and> simple_graph n b' \<and> edges b' = edges b + 1
      \<and> (\<forall>x y. adj b' x y \<longleftrightarrow> adj b x y \<or> x = u \<and> y = v \<or> x = v \<and> y = u)"
    if "simple_graph n b" "u < n" "v < n" "u \<noteq> v" "\<not> adj b u v" "edges b < MaxEdges" for n b u v
    using that by (rule builder_add_new)
qed

text \<open>Deleting a present edge keeps a simple graph and takes one from the counter.\<close>

lemma builder_delete_edge:
  assumes b: "simple_graph n b" and e: "adj b u v"
  shows "simple_graph n (builder_delete u v b)" "edges (builder_delete u v b) = edges b - 1"
    "adj (builder_delete u v b) x y \<longleftrightarrow> adj b x y \<and> \<not> (x = u \<and> y = v \<or> x = v \<and> y = u)"
proof -
  note D = simple_graphD [OF b] and E = simple_graph_adj [OF b e]
  define b' where "b' = builder_delete u v b"
  have nb: "neighbors b' ! x = (if x = u then neighbors b ! u - {v}
      else if x = v then neighbors b ! v - {u} else neighbors b ! x)" if "x < n" for x
    using that E(1-3) D(1) by (auto simp: b'_def builder_delete_def Let_def nth_list_update)
  have len: "length (neighbors b') = n" using D(1) by (simp add: b'_def builder_delete_def Let_def)
  have edges: "edges b' = edges b - 1" by (simp add: b'_def builder_delete_def Let_def)
  then show "edges (builder_delete u v b) = edges b - 1" by (simp add: b'_def)
  have adj': "adj b' x y \<longleftrightarrow> adj b x y \<and> \<not> (x = u \<and> y = v \<or> x = v \<and> y = u)" for x y
  proof (cases "x < n")
    case True
    show ?thesis unfolding adj_def nb [OF True] using E(3) len D(1) by auto
  next
    case False
    with len D(1) show ?thesis by (simp add: adj_def)
  qed
  then show "adj (builder_delete u v b) x y \<longleftrightarrow> adj b x y \<and> \<not> (x = u \<and> y = v \<or> x = v \<and> y = u)"
    by (simp add: b'_def)
  have mem: "v \<in> neighbors b ! u" "u \<in> neighbors b ! v" using e E(4) by (auto simp: adj_def)
  have "card (neighbors b ! u) > 0" "card (neighbors b ! v) > 0"
    using mem D(6) E(1,2) by (auto simp: card_gt_0_iff)
  then have "(\<Sum>x<n. int (card (neighbors b' ! x))) = (\<Sum>x<n. int (card (neighbors b ! x))) + (-1) + (-1)"
    using sum_two_updates [OF E(1-3), where g = "\<lambda>x. if x < n then int (card (neighbors b' ! x)) else 0"
        and f = "\<lambda>x. if x < n then int (card (neighbors b ! x)) else 0"] nb mem E D(6)
    by auto
  moreover have "y < n \<and> x \<noteq> y \<and> adj b' y x" if "adj b' x y" for x y
    using that adj' simple_graph_adj [OF b, of x y] by blast
  ultimately show "simple_graph n (builder_delete u v b)"
    unfolding b'_def [symmetric] using D(4,5) edges by (intro simple_graphI [OF len]) auto
qed

subsection \<open>The pair loop\<close>

lemma pair_body_yields:
  fixes bs :: "builder \<times> 'a"
  assumes "simple_graph n (fst bs)" "u < v" "v < n"
  shows "yields (pair_body ctx incl u v bs) (insert edge_limit (ctx_errs ctx)) (\<lambda>bs'. simple_graph n (fst bs'))"
proof -
  obtain b :: builder and s :: 'a where bs: "bs = (b, s)" by fastforce
  obtain yes and s' :: 'a where i: "incl u v s = (yes, s')" by fastforce
  have "yields (builder_step ctx b) (insert edge_limit (ctx_errs ctx))
      (\<lambda>b'. neighbors b' = neighbors b \<and> edges b' = edges b)"
    using builder_step_yields [of ctx b] by (cases "builder_step ctx b") auto
  then have "yields (rbind (builder_step ctx b) (\<lambda>b. if yes then rbind (builder_add u v b) (\<lambda>b. Inr (b, s'))
      else Inr (b, s'))) (insert edge_limit (ctx_errs ctx)) (\<lambda>bs'. simple_graph n (fst bs'))"
  proof (rule yields_bind)
    fix b' :: builder assume "neighbors b' = neighbors b \<and> edges b' = edges b"
    then have b': "simple_graph n b'" using assms(1) bs same_graph(1) [of b' b] by simp
    have "yields (builder_add u v b') (insert edge_limit (ctx_errs ctx)) (simple_graph n)"
      using store.add_yields [OF b', of u v] assms by (cases "builder_add u v b'") auto
    then show "yields (if yes then rbind (builder_add u v b') (\<lambda>b. Inr (b, s')) else Inr (b', s'))
        (insert edge_limit (ctx_errs ctx)) (\<lambda>bs'. simple_graph n (fst bs'))"
      using b' by (auto intro: yields_bind)
  qed
  then show ?thesis by (simp add: pair_body_def bs i)
qed

lemma builder_pairs_yields:
  fixes bs :: "builder \<times> 'a"
  assumes "simple_graph n (fst bs)"
  shows "yields (builder_pairs ctx incl bs) (insert edge_limit (ctx_errs ctx)) (\<lambda>bs'. simple_graph n (fst bs'))"
proof -
  have n: "length (neighbors (fst bs)) = n" using assms simple_graphD(1) by blast
  have "yields (foldR (\<lambda>(u, v). pair_body ctx incl u v) (nested_range [0..<n] (\<lambda>u. [u + 1..<n])) bs)
      (insert edge_limit (ctx_errs ctx)) (\<lambda>bs'. simple_graph n (fst bs'))"
  proof (rule yields_foldR [where I = "\<lambda>_ bs'. simple_graph n (fst bs')"])
    fix ys p zs and t :: "builder \<times> 'a"
    assume r: "nested_range [0..<n] (\<lambda>u. [u + 1..<n]) = ys @ p # zs" and t: "simple_graph n (fst t)"
    obtain u v where p: "p = (u, v)" by fastforce
    have "(u, v) \<in> set (nested_range [0..<n] (\<lambda>u. [u + 1..<n]))" unfolding r p by simp
    then have "u < v" "v < n" by auto
    then show "yields ((case p of (u, v) \<Rightarrow> pair_body ctx incl u v) t) (insert edge_limit (ctx_errs ctx))
        (\<lambda>bs'. simple_graph n (fst bs'))"
      unfolding p using pair_body_yields [OF t] by simp
  qed (use assms in simp)
  then show ?thesis by (simp add: builder_pairs_def n foldR_nested)
qed

text \<open>With a stateless condition the loop links exactly the pairs \<open>u < v\<close> that satisfy it.\<close>

lemma pair_body_exact:
  assumes "simple_graph n b" "u < v" "v < n"
    and before: "\<And>x y. adj b x y \<longleftrightarrow> (x, y) \<in> E \<or> (y, x) \<in> E" and fresh: "(u, v) \<notin> E" "(v, u) \<notin> E"
  shows "yields (pair_body ctx (\<lambda>u v s. (P u v, s)) u v (b, s)) (insert edge_limit (ctx_errs ctx))
    (\<lambda>bs'. simple_graph n (fst bs') \<and> (\<forall>x y. adj (fst bs') x y \<longleftrightarrow>
      (x, y) \<in> E \<union> {p. p = (u, v) \<and> P u v} \<or> (y, x) \<in> E \<union> {p. p = (u, v) \<and> P u v}))"
proof -
  have "yields (rbind (builder_step ctx b) (\<lambda>b. if P u v then rbind (builder_add u v b) (\<lambda>b. Inr (b, s)) else Inr (b, s)))
      (insert edge_limit (ctx_errs ctx)) (\<lambda>bs'. simple_graph n (fst bs') \<and> (\<forall>x y. adj (fst bs') x y \<longleftrightarrow>
      (x, y) \<in> E \<union> {p. p = (u, v) \<and> P u v} \<or> (y, x) \<in> E \<union> {p. p = (u, v) \<and> P u v}))"
  proof (rule builder_step_bind)
    fix b' :: builder assume "neighbors b' = neighbors b" "edges b' = edges b"
    note same = same_graph [OF this]
    have b': "simple_graph n b'" "\<not> adj b' u v" and adj': "\<And>x y. adj b' x y \<longleftrightarrow> (x, y) \<in> E \<or> (y, x) \<in> E"
      using assms same by auto
    consider "edges b' < MaxEdges" | "MaxEdges \<le> edges b'" by linarith
    then have "yields (builder_add u v b') (insert edge_limit (ctx_errs ctx)) (\<lambda>b2. simple_graph n b2
        \<and> (\<forall>x y. adj b2 x y \<longleftrightarrow> adj b' x y \<or> x = u \<and> y = v \<or> x = v \<and> y = u))"
    proof cases
      case 1
      have "yields (builder_add u v b') (insert edge_limit (ctx_errs ctx)) (\<lambda>b2. simple_graph n b2
          \<and> edges b2 = edges b' + 1 \<and> (\<forall>x y. adj b2 x y \<longleftrightarrow> adj b' x y \<or> x = u \<and> y = v \<or> x = v \<and> y = u))"
        by (rule store.add_new_yields) (use b' 1 assms(2,3) in auto)
      then show ?thesis by (rule yields_mono) simp
    next
      case 2
      then show ?thesis using store.add_full [OF b'(1), of u v] assms(2,3) b'(2) by auto
    qed
    then have "yields (rbind (builder_add u v b') (\<lambda>b. Inr (b, s))) (insert edge_limit (ctx_errs ctx))
       (\<lambda>bs'. simple_graph n (fst bs') \<and> (\<forall>x y. adj (fst bs') x y \<longleftrightarrow> adj b' x y \<or> x = u \<and> y = v \<or> x = v \<and> y = u))"
      by (rule yields_bind) simp
    then show "yields (if P u v then rbind (builder_add u v b') (\<lambda>b. Inr (b, s)) else Inr (b', s))
      (insert edge_limit (ctx_errs ctx)) (\<lambda>bs'. simple_graph n (fst bs') \<and> (\<forall>x y. adj (fst bs') x y \<longleftrightarrow>
      (x, y) \<in> E \<union> {p. p = (u, v) \<and> P u v} \<or> (y, x) \<in> E \<union> {p. p = (u, v) \<and> P u v}))"
      by (cases "P u v") (auto simp: b' adj' elim!: yields_mono)
  qed auto
  then show ?thesis by (simp add: pair_body_def)
qed

lemma builder_pairs_exact:
  assumes b: "simple_graph n b" "\<And>x y. \<not> adj b x y"
  shows "yields (builder_pairs ctx (\<lambda>u v s. (P u v, s)) (b, s)) (insert edge_limit (ctx_errs ctx))
    (\<lambda>bs'. simple_graph n (fst bs') \<and> (\<forall>x y. adj (fst bs') x y \<longleftrightarrow>
      x < y \<and> y < n \<and> P x y \<or> y < x \<and> x < n \<and> P y x))"
proof -
  let ?R = "nested_range [0..<n] (\<lambda>u. [u + 1..<n])"
  let ?E = "\<lambda>ys. {(x, y). (x, y) \<in> set ys \<and> P x y}"
  let ?I = "\<lambda>ys bs'. simple_graph n (fst bs') \<and>
      (\<forall>x y. adj (fst bs') x y \<longleftrightarrow> (x, y) \<in> ?E ys \<or> (y, x) \<in> ?E ys)"
  have n: "length (neighbors b) = n" using b(1) simple_graphD(1) by blast
  have dist: "distinct ?R" by (rule distinct_nested_range) auto
  have "yields (foldR (\<lambda>(u, v). pair_body ctx (\<lambda>u v s. (P u v, s)) u v) ?R (b, s))
      (insert edge_limit (ctx_errs ctx)) (?I ?R)"
  proof (rule yields_foldR [where I = ?I])
    fix ys p zs and t :: "builder \<times> 'a"
    assume r: "?R = ys @ p # zs" and t: "?I ys t"
    obtain u v where p: "p = (u, v)" by fastforce
    have "(u, v) \<in> set ?R" unfolding r p by simp
    then have uv: "u < v" "v < n" by auto
    have "(u, v) \<notin> set ys" using dist r p by simp
    moreover have "(v, u) \<notin> set ys"
    proof
      assume "(v, u) \<in> set ys"
      then have "(v, u) \<in> set ?R" unfolding r by simp
      then show False using uv by auto
    qed
    ultimately have "yields (pair_body ctx (\<lambda>u v s. (P u v, s)) u v (fst t, snd t)) (insert edge_limit (ctx_errs ctx))
      (\<lambda>bs'. simple_graph n (fst bs') \<and> (\<forall>x y. adj (fst bs') x y \<longleftrightarrow>
      (x, y) \<in> ?E ys \<union> {p. p = (u, v) \<and> P u v} \<or> (y, x) \<in> ?E ys \<union> {p. p = (u, v) \<and> P u v}))"
      using t uv by (intro pair_body_exact) auto
    moreover have "?E ys \<union> {p. p = (u, v) \<and> P u v} = ?E (ys @ [p])" using p by auto
    ultimately show "yields ((case p of (u, v) \<Rightarrow> pair_body ctx (\<lambda>u v s. (P u v, s)) u v) t)
        (insert edge_limit (ctx_errs ctx)) (?I (ys @ [p]))"
      using p by simp
  qed (use b in simp)
  then have "yields (builder_pairs ctx (\<lambda>u v s. (P u v, s)) (b, s)) (insert edge_limit (ctx_errs ctx)) (?I ?R)"
    by (simp add: builder_pairs_def n foldR_nested)
  moreover have "((x, y) \<in> ?E ?R \<or> (y, x) \<in> ?E ?R) \<longleftrightarrow> (x < y \<and> y < n \<and> P x y \<or> y < x \<and> x < n \<and> P y x)" for x y by auto
  ultimately show ?thesis by (simp only:)
qed

end
