(* ===== verification/Topology_WS.thy ===== *)
theory Topology_WS
  imports Topology_Invariant
begin

text \<open>
  The Watts-Strogatz generator: the ring phase builds exactly \<open>n * (k div 2)\<close> edges, and every
  rewiring replaces an edge that is still present by a fresh one, so the count is kept; no step
  panics and the edge limit is not reached.
\<close>

subsection \<open>Ring edges\<close>

abbreviation ring :: "nat \<Rightarrow> nat \<Rightarrow> nat \<Rightarrow> nat" where
  "ring n offset u \<equiv> (u + offset) mod n"

lemma ring_eq: "u < n \<Longrightarrow> p < n \<Longrightarrow> ring n p u = (if u + p < n then u + p else u + p - n)"
  by (simp add: mod_if)

lemma ring_inj:
  assumes "u < n" "u' < n" "1 \<le> p" "1 \<le> q" "2 * p < n" "2 * q < n"
    and "u = u' \<and> ring n p u = ring n q u' \<or> u = ring n q u' \<and> ring n p u = u'"
  shows "p = q \<and> u = u'"
proof -
  have *: "ring n p u = (if u + p < n then u + p else u + p - n)"
    "ring n q u' = (if u' + q < n then u' + q else u' + q - n)"
    using assms(1-6) by (simp_all add: ring_eq)
  show ?thesis using assms(1-6) assms(7) [unfolded *] by (auto split: if_splits)
qed

lemma ring_neq: "u < n \<Longrightarrow> 1 \<le> p \<Longrightarrow> 2 * p < n \<Longrightarrow> ring n p u \<noteq> u"
  by (subst ring_eq) auto

definition ring_range :: "nat \<Rightarrow> nat \<Rightarrow> (nat \<times> nat) list" where
  "ring_range n h = nested_range [1..<h + 1] (\<lambda>_. [0..<n])"

lemma ring_range_mem: "(p, u) \<in> set (ring_range n h) \<longleftrightarrow> 1 \<le> p \<and> p \<le> h \<and> u < n"
  by (auto simp: ring_range_def)

lemma ring_range_distinct: "distinct (ring_range n h)"
  unfolding ring_range_def by (intro distinct_nested_range) auto

lemma ring_range_length: "length (ring_range n h) = h * n"
  by (simp add: ring_range_def length_nested_range sum_list_triv)

lemma ring_range_split:
  assumes "ring_range n h = ys @ (p, u) # zs" "2 * h < n"
  shows "1 \<le> p" "2 * p < n" "u < n" "(p, u) \<notin> set ys" "length ys < h * n"
proof -
  have "(p, u) \<in> set (ring_range n h)" unfolding assms(1) by simp
  then show "1 \<le> p" "2 * p < n" "u < n" using assms(2) by (auto simp: ring_range_mem)
  show "(p, u) \<notin> set ys" using ring_range_distinct [of n h] unfolding assms(1) by auto
  have "length (ring_range n h) = length ys + Suc (length zs)" unfolding assms(1) by simp
  then show "length ys < h * n" by (simp add: ring_range_length)
qed

definition ring_inv :: "nat \<Rightarrow> (nat \<times> nat) list \<Rightarrow> builder \<Rightarrow> bool" where
  "ring_inv n ys b =
     (simple_graph n b \<and> edges b = int (length ys)
      \<and> (\<forall>x y. adj b x y \<longleftrightarrow> (\<exists>(p, u)\<in>set ys. x = u \<and> y = ring n p u \<or> y = u \<and> x = ring n p u)))"

lemma ws_ring_yields:
  assumes b: "simple_graph n b" "edges b = 0" "\<And>x y. \<not> adj b x y"
    and h: "2 * h < n" "int (h * n) \<le> MaxEdges"
  shows "yields (foldR (\<lambda>offset. foldR (ws_ring_body ctx n offset) [0..<n]) [1..<h + 1] b) (ctx_errs ctx)
    (ring_inv n (ring_range n h))"
  unfolding foldR_nested ring_range_def [symmetric]
proof (rule yields_foldR)
  show "ring_inv n [] b" using b by (simp add: ring_inv_def)
next
  fix ys pu zs t
  assume r: "ring_range n h = ys @ pu # zs" and t: "ring_inv n ys t"
  obtain p u where pu: "pu = (p, u)" by fastforce
  note R = ring_range_split [OF r [unfolded pu] h(1)]
  have fresh: "\<not> adj t u (ring n p u)"
  proof
    assume "adj t u (ring n p u)"
    then obtain q v where qv: "(q, v) \<in> set ys"
      "u = v \<and> ring n p u = ring n q v \<or> ring n p u = v \<and> u = ring n q v"
      using t by (auto simp: ring_inv_def)
    have "(q, v) \<in> set (ring_range n h)" using qv(1) unfolding r by simp
    then have "1 \<le> q" "2 * q < n" "v < n" using h(1) by (auto simp: ring_range_mem)
    then have "p = q \<and> u = v" using qv(2) R by (intro ring_inj) auto
    with qv(1) R(4) show False by simp
  qed
  have "yields (ws_ring_body ctx n p u t) (ctx_errs ctx) (ring_inv n (ys @ [(p, u)]))"
    unfolding ws_ring_body_def
  proof (rule builder_step_bind)
    fix t' :: builder assume t': "neighbors t' = neighbors t" "edges t' = edges t"
    note same = same_graph [OF t']
    have "int (length ys) < int (h * n)" using R(5) by (simp only: of_nat_less_iff)
    then have room: "int (length ys) < MaxEdges" using h(2) by linarith
    have "yields (builder_add u (ring n p u) t') (ctx_errs ctx) (\<lambda>b'. simple_graph n b' \<and> edges b' = edges t' + 1
        \<and> (\<forall>x y. adj b' x y \<longleftrightarrow> adj t' x y \<or> x = u \<and> y = ring n p u \<or> x = ring n p u \<and> y = u))"
      using t R fresh ring_neq [OF R(3,1,2)] room t' by (intro store.add_new_yields) (auto simp: ring_inv_def same)
    then show "yields (builder_add u (ring n p u) t') (ctx_errs ctx) (ring_inv n (ys @ [(p, u)]))"
      by (rule yields_mono) (use t t' in \<open>auto simp: ring_inv_def same\<close>)
  qed simp
  then show "yields ((case pu of (offset, u) \<Rightarrow> ws_ring_body ctx n offset u) t) (ctx_errs ctx) (ring_inv n (ys @ [pu]))"
    by (simp add: pu)
qed

subsection \<open>Choosing a new end point\<close>

lemma ws_attempts_yields:
  "0 < n \<Longrightarrow> yields (ws_attempts a linked u n r) B
     (\<lambda>(w, r'). \<forall>c. w = Some c \<longrightarrow> c < n \<and> c \<noteq> u \<and> c \<notin> linked)"
proof (induction a arbitrary: r)
  case (Suc a)
  obtain c r' where c: "rng_Intn n r = Inr (c, r')" "c < n" using rng_Intn_total Suc.prems by blast
  then show ?case using Suc by auto
qed simp

lemma ws_rank_yields:
  assumes "rank < length (filter (\<lambda>c. c \<noteq> u \<and> c \<notin> linked) cs)"
  shows "yields (ws_rank ctx cs linked u rank b) (ctx_errs ctx) (\<lambda>(w, b'). neighbors b' = neighbors b
    \<and> edges b' = edges b \<and> (\<exists>c\<in>set cs. w = Some c \<and> c \<noteq> u \<and> c \<notin> linked))"
  using assms
proof (induction cs arbitrary: rank b)
  case (Cons c cs)
  have "yields (rbind (builder_step ctx b) (\<lambda>b. if c \<noteq> u \<and> c \<notin> linked
       then (if rank = 0 then Inr (Some c, b) else ws_rank ctx cs linked u (rank - 1) b)
       else ws_rank ctx cs linked u rank b)) (ctx_errs ctx) (\<lambda>(w, b'). neighbors b' = neighbors b
    \<and> edges b' = edges b \<and> (\<exists>x\<in>set (c # cs). w = Some x \<and> x \<noteq> u \<and> x \<notin> linked))"
  proof (rule builder_step_bind)
    fix b' :: builder assume b': "neighbors b' = neighbors b" "edges b' = edges b"
    have rec: "yields (ws_rank ctx cs linked u k b') (ctx_errs ctx) (\<lambda>(w, b'). neighbors b' = neighbors b
        \<and> edges b' = edges b \<and> (\<exists>x\<in>set (c # cs). w = Some x \<and> x \<noteq> u \<and> x \<notin> linked))"
      if "k < length (filter (\<lambda>c. c \<noteq> u \<and> c \<notin> linked) cs)" for k
      by (rule yields_mono [OF Cons.IH [OF that]]) (use b' in auto)
    show "yields (if c \<noteq> u \<and> c \<notin> linked
       then (if rank = 0 then Inr (Some c, b') else ws_rank ctx cs linked u (rank - 1) b')
       else ws_rank ctx cs linked u rank b') (ctx_errs ctx) (\<lambda>(w, b'). neighbors b' = neighbors b
      \<and> edges b' = edges b \<and> (\<exists>x\<in>set (c # cs). w = Some x \<and> x \<noteq> u \<and> x \<notin> linked))"
      using rec Cons.prems b' by auto
  qed simp
  then show ?case by simp
qed simp

lemma candidates_count:
  assumes "linked \<subseteq> {..<n} - {u}" "u < n"
  shows "length (filter (\<lambda>c. c \<noteq> u \<and> c \<notin> linked) [0..<n]) = n - 1 - card linked"
proof -
  have "length (filter (\<lambda>c. c \<noteq> u \<and> c \<notin> linked) [0..<n])
      = card (set (filter (\<lambda>c. c \<noteq> u \<and> c \<notin> linked) [0..<n]))"
    by (intro distinct_card [symmetric]) simp
  also have "set (filter (\<lambda>c. c \<noteq> u \<and> c \<notin> linked) [0..<n]) = ({..<n} - {u}) - linked" by auto
  also have "card \<dots> = card ({..<n} - {u}) - card linked"
    using assms by (intro card_Diff_subset) (auto intro: finite_subset)
  finally show ?thesis using assms by simp
qed

lemma ws_choose_yields:
  assumes b: "simple_graph n b" and u: "u < n" "card (neighbors b ! u) \<noteq> n - 1"
  shows "yields (ws_choose ctx n u b r) (ctx_errs ctx) (\<lambda>(w, b', r'). neighbors b' = neighbors b
    \<and> edges b' = edges b \<and> (\<exists>c<n. w = Some c \<and> c \<noteq> u \<and> \<not> adj b u c))"
proof -
  note D = simple_graphD [OF b]
  let ?l = "neighbors b ! u"
  have "card ?l \<le> card ({..<n} - {u})" using D(2) [OF u(1)] by (intro card_mono) auto
  then have lt: "0 < n - 1 - card ?l" using u by simp
  have na: "\<not> adj b u c \<longleftrightarrow> c \<notin> ?l" for c using u D(1) by (simp add: adj_def)
  let ?post = "\<lambda>(w, b', r'). neighbors b' = neighbors b \<and> edges b' = edges b
      \<and> (\<exists>c<n. w = Some c \<and> c \<noteq> u \<and> \<not> adj b u c)"
  have "yields (case (w, r) of (w, r) \<Rightarrow> case w of Some c \<Rightarrow> Inr (Some c, b, r)
       | None \<Rightarrow> rbind (rng_Intn (n - 1 - card ?l) r) (\<lambda>(rank, r).
          rbind (ws_rank ctx [0..<n] ?l u rank b) (\<lambda>(w, b). Inr (w, b, r)))) (ctx_errs ctx) ?post"
    if w: "\<forall>c. w = Some c \<longrightarrow> c < n \<and> c \<noteq> u \<and> c \<notin> ?l" for w r
  proof (cases w)
    case (Some c)
    then show ?thesis using w na by auto
  next
    case None
    obtain rank r' where k: "rng_Intn (n - 1 - card ?l) r = Inr (rank, r')" "rank < n - 1 - card ?l"
      using rng_Intn_total [OF lt] by blast
    have "yields (ws_rank ctx [0..<n] ?l u rank b) (ctx_errs ctx) (\<lambda>(w, b'). neighbors b' = neighbors b
        \<and> edges b' = edges b \<and> (\<exists>c\<in>set [0..<n]. w = Some c \<and> c \<noteq> u \<and> c \<notin> ?l))"
      using k(2) candidates_count [OF D(2) [OF u(1)] u(1)] by (intro ws_rank_yields) simp
    then have "yields (rbind (ws_rank ctx [0..<n] ?l u rank b) (\<lambda>(w, b). Inr (w, b, r'))) (ctx_errs ctx) ?post"
      by (rule yields_bind) (use na in auto)
    then show ?thesis by (simp only: None k(1) rbind_simps prod.case option.case)
  qed
  then have "yields (rbind (ws_attempts 16 ?l u n r) (\<lambda>(w, r). case w of Some c \<Rightarrow> Inr (Some c, b, r)
       | None \<Rightarrow> rbind (rng_Intn (n - 1 - card ?l) r) (\<lambda>(rank, r).
          rbind (ws_rank ctx [0..<n] ?l u rank b) (\<lambda>(w, b). Inr (w, b, r))))) (ctx_errs ctx) ?post"
    using u by (intro yields_bind [OF ws_attempts_yields]) auto
  then show ?thesis using u D(1) by (simp add: ws_choose_def nbrs_def)
qed

subsection \<open>Rewiring\<close>

definition rewired :: "nat \<Rightarrow> builder \<Rightarrow> nat \<Rightarrow> nat \<Rightarrow> builder \<Rightarrow> bool" where
  "rewired n b u v b' =
     (simple_graph n b' \<and> edges b' = edges b
      \<and> (\<forall>x y. adj b x y \<and> \<not> (x = u \<and> y = v \<or> x = v \<and> y = u) \<longrightarrow> adj b' x y))"

lemma rewired_same:
  assumes "simple_graph n b" "neighbors b' = neighbors b" "edges b' = edges b"
  shows "rewired n b u v b'"
  using assms same_graph [OF assms(2,3)] by (simp add: rewired_def)

lemma rewire_edge:
  assumes b: "simple_graph n b" and e: "adj b u v" and w: "w < n" "w \<noteq> u" "\<not> adj b u w"
  shows "yields (builder_add u w (builder_delete u v b)) B (rewired n b u v)"
proof -
  note del = builder_delete_edge [OF b e]
  note E = simple_graph_adj [OF b e]
  have "yields (builder_add u w (builder_delete u v b)) B (\<lambda>b'. simple_graph n b'
      \<and> edges b' = edges (builder_delete u v b) + 1 \<and> (\<forall>x y. adj b' x y \<longleftrightarrow>
        adj (builder_delete u v b) x y \<or> x = u \<and> y = w \<or> x = w \<and> y = u))"
    using del E w simple_graphD(5) [OF b] by (intro store.add_new_yields) auto
  then show ?thesis by (rule yields_mono) (auto simp: rewired_def del)
qed

lemma ws_rewire_body_yields:
  assumes b: "simple_graph n b" and e: "adj b u (ring n p u)"
  shows "yields (ws_rewire_body ctx probability n p u (b, r)) (ctx_errs ctx)
    (\<lambda>br. rewired n b u (ring n p u) (fst br))"
proof -
  note E = simple_graph_adj [OF b e]
  obtain x r1 where x: "rng_Float64 r = (x, r1)" by fastforce
  show ?thesis
    unfolding ws_rewire_body_def Let_def split x
  proof (rule builder_step_bind, goal_cases)
    case (1 b1)
    note same = same_graph [OF 1]
    have b1: "simple_graph n b1" "adj b1 u (ring n p u)" using b e same by simp_all
    have stay: "rewired n b u (ring n p u) b1" using b 1 by (rule rewired_same)
    show ?case
    proof (cases "f_le probability (Fin x) \<or> card (neighbors b1 ! u) = n - 1")
      case True
      then show ?thesis using stay E(1) simple_graphD(1) [OF b1(1)] by (auto simp: nbrs_def)
    next
      case False
      let ?go = "\<lambda>(w, b, r). case w of
          Some w \<Rightarrow> rbind (builder_add u w (builder_delete u (ring n p u) b)) (\<lambda>b. Inr (b, r))
        | None \<Rightarrow> Inl (if edges (builder_delete u (ring n p u) b) \<ge> MaxEdges then edge_limit else Panic)"
      have "yields (rbind (ws_choose ctx n u b1 r1) ?go) (ctx_errs ctx) (\<lambda>br. rewired n b u (ring n p u) (fst br))"
      proof (rule yields_bind [OF ws_choose_yields [OF b1(1) E(1)]])
        show "card (neighbors b1 ! u) \<noteq> n - 1" using False by simp
        fix wbr :: "nat option \<times> builder \<times> rng"
        obtain w b2 r2 where wbr: "wbr = (w, b2, r2)" by (cases wbr)
        assume "case wbr of (w, b', r') \<Rightarrow> neighbors b' = neighbors b1 \<and> edges b' = edges b1
            \<and> (\<exists>c<n. w = Some c \<and> c \<noteq> u \<and> \<not> adj b1 u c)"
        then obtain c where c: "neighbors b2 = neighbors b1" "edges b2 = edges b1" "w = Some c" "c < n"
          "c \<noteq> u" "\<not> adj b1 u c" by (auto simp: wbr)
        note same2 = same_graph [OF c(1,2)]
        have "yields (builder_add u c (builder_delete u (ring n p u) b2)) (ctx_errs ctx) (rewired n b2 u (ring n p u))"
          using b1 c same2 by (intro rewire_edge) auto
        then have "yields (rbind (builder_add u c (builder_delete u (ring n p u) b2)) (\<lambda>b. Inr (b, r2)))
            (ctx_errs ctx) (\<lambda>br. rewired n b u (ring n p u) (fst br))"
          by (rule yields_bind) (use same same2 c 1 in \<open>auto simp: rewired_def\<close>)
        then show "yields (?go wbr) (ctx_errs ctx) (\<lambda>br. rewired n b u (ring n p u) (fst br))"
          by (simp add: wbr c(3))
      qed
      then show ?thesis using False E(1) simple_graphD(1) [OF b1(1)] by (simp add: nbrs_def)
    qed
  qed simp
qed

definition rewire_inv :: "nat \<Rightarrow> nat \<Rightarrow> int \<Rightarrow> (nat \<times> nat) list \<Rightarrow> builder \<times> rng \<Rightarrow> bool" where
  "rewire_inv n h cnt ys br =
     (simple_graph n (fst br) \<and> edges (fst br) = cnt
      \<and> (\<forall>(p, u)\<in>set (ring_range n h) - set ys. adj (fst br) u (ring n p u)))"

lemma ws_rewire_yields:
  assumes br: "rewire_inv n h cnt [] br" and h: "2 * h < n"
  shows "yields (foldR (\<lambda>offset. foldR (ws_rewire_body ctx probability n offset) [0..<n]) [1..<h + 1] br)
    (ctx_errs ctx) (rewire_inv n h cnt (ring_range n h))"
  unfolding foldR_nested ring_range_def [symmetric]
proof (rule yields_foldR [where I = "rewire_inv n h cnt"])
  show "rewire_inv n h cnt [] br" by (rule br)
next
  fix ys pu zs and t :: "builder \<times> rng"
  assume r: "ring_range n h = ys @ pu # zs" and t: "rewire_inv n h cnt ys t"
  obtain p u where pu: "pu = (p, u)" by fastforce
  obtain b rg where tb: "t = (b, rg)" by fastforce
  note R = ring_range_split [OF r [unfolded pu] h]
  have "(p, u) \<in> set (ring_range n h) - set ys" using R(4) unfolding r pu by simp
  then have e: "adj b u (ring n p u)" and b: "simple_graph n b"
    using t by (auto simp: rewire_inv_def tb)
  have other: "\<not> (v = u \<and> ring n q v = ring n p u \<or> v = ring n p u \<and> ring n q v = u)"
    if "(q, v) \<in> set (ring_range n h)" "(q, v) \<noteq> (p, u)" for q v
  proof
    assume "v = u \<and> ring n q v = ring n p u \<or> v = ring n p u \<and> ring n q v = u"
    moreover have "v < n" "1 \<le> q" "2 * q < n" using that(1) h by (simp_all add: ring_range_mem)
    ultimately have "q = p \<and> v = u" using R by (intro ring_inj)
    with that(2) show False by simp
  qed
  have "yields (ws_rewire_body ctx probability n p u (b, rg)) (ctx_errs ctx) (rewire_inv n h cnt (ys @ [(p, u)]))"
  proof (rule yields_mono [OF ws_rewire_body_yields [OF b e]])
    fix br :: "builder \<times> rng"
    assume br: "rewired n b u (ring n p u) (fst br)"
    have "adj (fst br) v (ring n q v)" if qv: "(q, v) \<in> set (ring_range n h) - set (ys @ [(p, u)])" for q v
    proof -
      have "adj b v (ring n q v)" using t qv by (auto simp: rewire_inv_def tb)
      moreover have "\<not> (v = u \<and> ring n q v = ring n p u \<or> v = ring n p u \<and> ring n q v = u)"
        using other [of q v] qv by simp
      ultimately show ?thesis using br unfolding rewired_def by blast
    qed
    then show "rewire_inv n h cnt (ys @ [(p, u)]) br"
      using br t by (auto simp: rewire_inv_def rewired_def tb)
  qed
  then show "yields ((case pu of (offset, u) \<Rightarrow> ws_rewire_body ctx probability n offset u) t) (ctx_errs ctx)
      (rewire_inv n h cnt (ys @ [pu]))"
    by (simp add: pu tb)
qed

lemma wattsStrogatz_yields:
  assumes b: "simple_graph n b" "edges b = 0" "\<And>x y. \<not> adj b x y"
    and k: "k < n" "int (k div 2 * n) \<le> MaxEdges"
  shows "yields (wattsStrogatz ctx k probability b r) (ctx_errs ctx)
    (\<lambda>br. simple_graph n (fst br) \<and> edges (fst br) = int (k div 2 * n))"
proof -
  have h: "2 * (k div 2) < n" using k(1) by simp
  have "yields (rbind (foldR (\<lambda>offset. foldR (ws_ring_body ctx n offset) [0..<n]) [1..<k div 2 + 1] b)
      (\<lambda>b. foldR (\<lambda>offset. foldR (ws_rewire_body ctx probability n offset) [0..<n]) [1..<k div 2 + 1] (b, r)))
      (ctx_errs ctx) (rewire_inv n (k div 2) (int (k div 2 * n)) (ring_range n (k div 2)))"
  proof (rule yields_bind [OF ws_ring_yields [OF b h k(2)]])
    fix b' assume "ring_inv n (ring_range n (k div 2)) b'"
    then have "rewire_inv n (k div 2) (int (k div 2 * n)) [] (b', r)"
      by (auto simp: ring_inv_def rewire_inv_def ring_range_length)
    then show "yields (foldR (\<lambda>offset. foldR (ws_rewire_body ctx probability n offset) [0..<n])
        [1..<k div 2 + 1] (b', r)) (ctx_errs ctx) (rewire_inv n (k div 2) (int (k div 2 * n)) (ring_range n (k div 2)))"
      using h by (rule ws_rewire_yields)
  qed
  then show ?thesis
    unfolding wattsStrogatz_def Let_def simple_graphD(1) [OF b(1)]
    by (rule yields_mono) (simp add: rewire_inv_def)
qed

end
