(* ===== verification/Topology_BA.thy ===== *)
theory Topology_BA
  imports Topology_WS
begin

text \<open>
  The Barabasi-Albert generator: every node after the seed star gets \<open>m\<close> distinct earlier targets, so
  the graph has exactly \<open>m * (n - m)\<close> edges. The sampling tree represents the degrees of the nodes
  seen so far at every step, hence each target is drawn with a weight equal to its degree, and neither
  the draw nor an index can panic.
\<close>

definition deg :: "builder \<Rightarrow> nat \<Rightarrow> int" where
  "deg b j = int (card (neighbors b ! j))"

text \<open>The degrees of a set of live nodes, zero elsewhere: what the tree represents.\<close>

definition live_weights :: "builder \<Rightarrow> nat set \<Rightarrow> nat \<Rightarrow> int" where
  "live_weights b S j = (if j \<in> S then deg b j else 0)"

lemma live_weights_nonneg: "0 \<le> live_weights b S j"
  by (simp add: live_weights_def deg_def)

lemma live_weights_insert:
  "(live_weights b S)(v := live_weights b S v + d) = live_weights b (insert v S)"
  if "v \<notin> S" "d = deg b v"
  using that by (auto simp: live_weights_def)

lemma live_weights_remove:
  "(live_weights b S)(v := live_weights b S v + - deg b v) = live_weights b (S - {v})"
  if "v \<in> S"
  using that by (auto simp: live_weights_def)

lemma live_weights_same:
  "neighbors b' = neighbors b \<Longrightarrow> live_weights b' = live_weights b"
  by (auto simp: live_weights_def deg_def fun_eq_iff)

lemma neighbors_adj: "simple_graph n b \<Longrightarrow> j < n \<Longrightarrow> neighbors b ! j = {y. adj b j y}"
  using simple_graphD(1) [of n b] by (auto simp: adj_def)

lemma deg_cong:
  assumes "simple_graph n b" "simple_graph n b'" "j < n" "\<And>y. adj b' j y = adj b j y"
  shows "deg b' j = deg b j"
  using assms by (simp add: deg_def neighbors_adj)

lemma live_total_pos:
  assumes "j \<in> S" "j < n" "0 < deg b j"
  shows "0 < prefix_sum (live_weights b S) n"
proof -
  have "0 \<le> prefix_sum (live_weights b S) j"
    using prefix_sum_mono [of "live_weights b S" 0 j] live_weights_nonneg by simp
  moreover have "0 < live_weights b S j" using assms by (simp add: live_weights_def)
  ultimately have "0 < prefix_sum (live_weights b S) (Suc j)" by simp
  also have "\<dots> \<le> prefix_sum (live_weights b S) n"
    using assms live_weights_nonneg by (intro prefix_sum_mono) auto
  finally show ?thesis .
qed

subsection \<open>The seed star and its weights\<close>

lemma ba_star_yields:
  assumes b: "simple_graph n b" "edges b = 0" "\<And>x y. \<not> adj b x y" and m: "m < n" "int m \<le> MaxEdges"
  shows "yields (foldR (ba_star_body ctx) [1..<m + 1] b) (ctx_errs ctx) (\<lambda>b'. simple_graph n b' \<and> edges b' = int m
    \<and> (\<forall>x y. adj b' x y \<longleftrightarrow> x = 0 \<and> 1 \<le> y \<and> y \<le> m \<or> y = 0 \<and> 1 \<le> x \<and> x \<le> m))"
proof -
  let ?I = "\<lambda>ys b'. simple_graph n b' \<and> edges b' = int (length ys)
    \<and> (\<forall>x y. adj b' x y \<longleftrightarrow> x = 0 \<and> y \<in> set ys \<or> y = 0 \<and> x \<in> set ys)"
  have "yields (foldR (ba_star_body ctx) [1..<m + 1] b) (ctx_errs ctx) (?I [1..<m + 1])"
  proof (rule yields_foldR)
    show "?I [] b" using b by simp
  next
    fix ys v zs t
    assume r: "[1..<m + 1] = ys @ v # zs" and t: "?I ys t"
    note R = range_split [OF r]
    show "yields (ba_star_body ctx v t) (ctx_errs ctx) (?I (ys @ [v]))"
      unfolding ba_star_body_def
    proof (rule builder_step_bind)
      fix t' :: builder assume t': "neighbors t' = neighbors t" "edges t' = edges t"
      note same = same_graph [OF t']
      have "yields (builder_add 0 v t') (ctx_errs ctx) (\<lambda>b'. simple_graph n b' \<and> edges b' = edges t' + 1
          \<and> (\<forall>x y. adj b' x y \<longleftrightarrow> adj t' x y \<or> x = 0 \<and> y = v \<or> x = v \<and> y = 0))"
        using t R(2-4) m t' by (intro store.add_new_yields) (auto simp: same)
      then show "yields (builder_add 0 v t') (ctx_errs ctx) (?I (ys @ [v]))"
        by (rule yields_mono) (use t t' in \<open>auto simp: same\<close>)
    qed simp
  qed
  moreover have "length [1..<m + 1] = m" "\<And>x. x \<in> set [1..<m + 1] \<longleftrightarrow> 1 \<le> x \<and> x \<le> m" by auto
  ultimately show ?thesis by (simp only:)
qed

lemma ba_weight_yields:
  assumes b: "simple_graph n b" and m: "m < n"
  shows "yields (foldR (ba_weight_body b) [0..<m + 1] (new_degreeTree n)) B
    (\<lambda>t. fenwick t n (live_weights b {..<m + 1}))"
proof -
  have "yields (foldR (ba_weight_body b) [0..<m + 1] (new_degreeTree n)) B
      (\<lambda>t. fenwick t n (live_weights b (set [0..<m + 1])))"
  proof (rule yields_foldR [where I = "\<lambda>ys t. fenwick t n (live_weights b (set ys))"])
    show "fenwick (new_degreeTree n) n (live_weights b (set []))"
      using dtree.rep_empty [of n] by (simp add: live_weights_def [abs_def])
  next
    fix ys v zs t
    assume r: "[0..<m + 1] = ys @ v # zs" and t: "fenwick t n (live_weights b (set ys))"
    note R = range_split [OF r]
    have "fenwick (degreeTree_add v (deg b v) t) n (live_weights b (insert v (set ys)))"
      using dtree.rep_add [OF t, of v "deg b v"] live_weights_insert [of v "set ys" "deg b v" b] R(2-4) m
      by simp
    then show "yields (ba_weight_body b v t) B (\<lambda>t. fenwick t n (live_weights b (set (ys @ [v]))))"
      using R(2) m simple_graphD(1) [OF b] by (simp add: ba_weight_body_def nbrs_def deg_def)
  qed
  then show ?thesis by (simp add: atLeast0LessThan lessThan_Suc)
qed

subsection \<open>Drawing the targets of one node\<close>

text \<open>The state of the draws for node \<open>v\<close> after the first \<open>i\<close> of them.\<close>

definition pick_inv ::
    "nat \<Rightarrow> nat \<Rightarrow> nat \<Rightarrow> builder \<Rightarrow> nat \<Rightarrow> builder \<times> degreeTree \<times> rng \<times> nat list \<Rightarrow> bool" where
  "pick_inv n m v b0 i st =
     (let (b, t, r, targets) = st in
      neighbors b = neighbors b0 \<and> edges b = edges b0 \<and> length targets = m
      \<and> distinct (take i targets) \<and> set (take i targets) \<subseteq> {..<v}
      \<and> fenwick t n (live_weights b0 ({..<v} - set (take i targets))))"

lemma take_Suc_update: "i < length xs \<Longrightarrow> take (Suc i) (xs[i := x]) = take i xs @ [x]"
  by (simp add: take_Suc_conv_app_nth)

lemma ba_pick_body_yields:
  assumes b0: "simple_graph n b0" "\<And>j. j < v \<Longrightarrow> 0 < deg b0 j" "v \<le> n" "m < v"
    and i: "i < m" and st: "pick_inv n m v b0 i st"
  shows "yields (ba_pick_body ctx i st) (ctx_errs ctx) (pick_inv n m v b0 (Suc i))"
proof -
  obtain b t r ts where st': "st = (b, t, r, ts)" by (cases st)
  let ?S = "{..<v} - set (take i ts)"
  have I: "neighbors b = neighbors b0" "edges b = edges b0" "length ts = m" "distinct (take i ts)"
    "set (take i ts) \<subseteq> {..<v}" "fenwick t n (live_weights b0 ?S)"
    using st by (simp_all add: pick_inv_def st')
  have "card (set (take i ts)) < card {..<v}"
    using card_length [of "take i ts"] i b0(4) by simp
  then have "\<not> {..<v} \<subseteq> set (take i ts)" using card_mono [of "set (take i ts)" "{..<v}"] by auto
  then obtain j where j: "j \<in> ?S" "j < v" by auto
  have pos: "0 < prefix_sum (live_weights b0 ?S) n"
    using live_total_pos [OF j(1)] j b0 by simp
  then have "0 < nat (total t)" using dtree.rep_sum [OF I(6)] by simp
  then obtain k r' where k: "rng_Intn (nat (total t)) r = Inr (k, r')" "k < nat (total t)"
    using rng_Intn_total by blast
  let ?c = "degreeTree_choose (int k) t"
  have kt: "0 \<le> int k" "int k < prefix_sum (live_weights b0 ?S) n"
    using k(2) dtree.rep_sum [OF I(6)] by auto
  note c = dtree.pick_positive [OF I(6) live_weights_nonneg kt]
  then have cS: "?c \<in> ?S" by (auto simp: live_weights_def split: if_splits)
  have tree: "fenwick (degreeTree_add ?c (- deg b0 ?c) t) n (live_weights b0 (?S - {?c}))"
    using dtree.rep_add [OF I(6) c(1), of "- deg b0 ?c"] live_weights_remove [OF cS, of b0] by simp
  have post: "pick_inv n m v b0 (Suc i) (b', degreeTree_add ?c (- deg b0 ?c) t, r', ts[i := ?c])"
    if "neighbors b' = neighbors b0" "edges b' = edges b0" for b'
  proof -
    have "take (Suc i) (ts[i := ?c]) = take i ts @ [?c]" using I(3) i by (intro take_Suc_update) simp
    moreover have "{..<v} - (set (take i ts) \<union> {?c}) = ?S - {?c}" by auto
    ultimately show ?thesis using that I tree cS by (auto simp: pick_inv_def)
  qed
  show ?thesis unfolding ba_pick_body_def st' split Let_def
  proof (rule builder_step_bind)
    fix b' :: builder assume b': "neighbors b' = neighbors b" "edges b' = edges b"
    have "nbrs b' ?c = Inr (neighbors b0 ! ?c)"
      using b' I(1) c(1) simple_graphD(1) [OF b0(1)] by (simp add: nbrs_def)
    then show "yields (rbind (rng_Intn (nat (total t)) r) (\<lambda>(ticket, r).
        rbind (nbrs b' (degreeTree_choose (int ticket) t)) (\<lambda>nb.
        Inr (b', degreeTree_add (degreeTree_choose (int ticket) t) (- int (card nb)) t, r,
          ts[i := degreeTree_choose (int ticket) t])))) (ctx_errs ctx) (pick_inv n m v b0 (Suc i))"
      using post [of b'] b' I(1,2) k(1) by (simp add: deg_def)
  qed simp
qed

lemma ba_picks_yields:
  assumes b0: "simple_graph n b0" "\<And>j. j < v \<Longrightarrow> 0 < deg b0 j" "v \<le> n" "m < v"
    and st: "pick_inv n m v b0 0 st"
  shows "yields (foldR (ba_pick_body ctx) [0..<m] st) (ctx_errs ctx) (pick_inv n m v b0 m)"
proof -
  have "yields (foldR (ba_pick_body ctx) [0..<m] st) (ctx_errs ctx) (pick_inv n m v b0 (length [0..<m]))"
  proof (rule yields_foldR [where I = "\<lambda>ys. pick_inv n m v b0 (length ys)"])
    show "pick_inv n m v b0 (length []) st" using st by simp
  next
    fix ys i zs t
    assume "[0..<m] = ys @ i # zs" and t: "pick_inv n m v b0 (length ys) t"
    note R = range_split [OF this(1)]
    show "yields (ba_pick_body ctx i t) (ctx_errs ctx) (pick_inv n m v b0 (length (ys @ [i])))"
      using ba_pick_body_yields [OF b0, of i t ctx] R(1,2) t by simp
  qed
  then show ?thesis by simp
qed

subsection \<open>Linking one node\<close>

definition link_inv :: "nat \<Rightarrow> nat \<Rightarrow> builder \<Rightarrow> nat list \<Rightarrow> nat list \<Rightarrow> builder \<times> degreeTree \<Rightarrow> bool" where
  "link_inv n v b0 targets ys bt =
     (simple_graph n (fst bt) \<and> edges (fst bt) = edges b0 + int (length ys)
      \<and> (\<forall>x y. adj (fst bt) x y \<longleftrightarrow> adj b0 x y \<or> x = v \<and> y \<in> set ys \<or> y = v \<and> x \<in> set ys)
      \<and> fenwick (snd bt) n (live_weights (fst bt) ({..<v} - (set targets - set ys))))"

lemma live_weights_adj_cong:
  assumes "simple_graph n b" "simple_graph n b'" "S \<subseteq> {..<n}"
    and "\<And>j y. j \<in> S \<Longrightarrow> adj b' j y = adj b j y"
  shows "live_weights b' S = live_weights b S"
proof
  fix j
  show "live_weights b' S j = live_weights b S j"
    using deg_cong [OF assms(1,2), of j] assms(3,4) by (auto simp: live_weights_def)
qed

lemma ba_link_body_yields:
  assumes v: "v < n" and old: "\<And>x y. adj b0 x y \<Longrightarrow> x < v \<and> y < v"
    and ts: "targets = ys @ w # zs" "distinct targets" "set targets \<subseteq> {..<v}"
    and room: "edges b0 + int (length targets) \<le> MaxEdges"
    and bt: "link_inv n v b0 targets ys bt"
  shows "yields (ba_link_body v w bt) B (link_inv n v b0 targets (ys @ [w]))"
proof -
  obtain b t where bt': "bt = (b, t)" by fastforce
  have I: "simple_graph n b" "edges b = edges b0 + int (length ys)"
    "\<And>x y. adj b x y \<longleftrightarrow> adj b0 x y \<or> x = v \<and> y \<in> set ys \<or> y = v \<and> x \<in> set ys"
    "fenwick t n (live_weights b ({..<v} - (set targets - set ys)))"
    using bt by (simp_all add: link_inv_def bt')
  have w: "w < v" "w \<notin> set ys" "w \<in> set targets" using ts by auto
  have "\<not> adj b v w" using I(3) [of v w] old [of v w] w by auto
  moreover have "edges b < MaxEdges" using room I(2) ts(1) by simp
  ultimately have "yields (builder_add v w b) B (\<lambda>b'. simple_graph n b' \<and> edges b' = edges b + 1
      \<and> (\<forall>x y. adj b' x y \<longleftrightarrow> adj b x y \<or> x = v \<and> y = w \<or> x = w \<and> y = v))"
    using I(1) v w by (intro store.add_new_yields) auto
  then have "yields (rbind (builder_add v w b) (\<lambda>b'.
      rbind (nbrs b' w) (\<lambda>nb. Inr (b', degreeTree_add w (int (card nb)) t)))) B
      (link_inv n v b0 targets (ys @ [w]))"
  proof (rule yields_bind)
    fix b'
    assume b': "simple_graph n b' \<and> edges b' = edges b + 1
      \<and> (\<forall>x y. adj b' x y \<longleftrightarrow> adj b x y \<or> x = v \<and> y = w \<or> x = w \<and> y = v)"
    let ?S = "{..<v} - (set targets - set ys)"
    have "live_weights b' ?S = live_weights b ?S"
      using b' I(1) v w by (intro live_weights_adj_cong) auto
    then have t: "fenwick t n (live_weights b' ?S)" using I(4) by simp
    have "w \<notin> ?S" using w by simp
    then have "fenwick (degreeTree_add w (deg b' w) t) n (live_weights b' (insert w ?S))"
      using dtree.rep_add [OF t, of w "deg b' w"] live_weights_insert [of w ?S "deg b' w" b'] w v by simp
    moreover have "insert w ?S = {..<v} - (set targets - set (ys @ [w]))" using w by auto
    moreover have "nbrs b' w = Inr (neighbors b' ! w)"
      using simple_graphD(1) [of n b'] b' w v by (simp add: nbrs_def)
    ultimately show "yields (rbind (nbrs b' w) (\<lambda>nb. Inr (b', degreeTree_add w (int (card nb)) t))) B
        (link_inv n v b0 targets (ys @ [w]))"
      using b' I(2,3) by (auto simp: link_inv_def deg_def)
  qed
  then show ?thesis by (simp add: ba_link_body_def bt')
qed

lemma ba_links_yields:
  assumes "v < n" "\<And>x y. adj b0 x y \<Longrightarrow> x < v \<and> y < v"
    and "distinct targets" "set targets \<subseteq> {..<v}" "edges b0 + int (length targets) \<le> MaxEdges"
    and "link_inv n v b0 targets [] bt"
  shows "yields (foldR (ba_link_body v) targets bt) B (link_inv n v b0 targets targets)"
  by (rule yields_foldR [where I = "link_inv n v b0 targets"]) (use assms ba_link_body_yields in blast)+

subsection \<open>The whole generator\<close>

definition ba_inv :: "nat \<Rightarrow> nat \<Rightarrow> nat \<Rightarrow> builder \<times> degreeTree \<times> rng \<times> nat list \<Rightarrow> bool" where
  "ba_inv n m v st =
     (let (b, t, r, targets) = st in
      simple_graph n b \<and> edges b = int m * (int v - int m) \<and> length targets = m
      \<and> (\<forall>x y. adj b x y \<longrightarrow> x < v \<and> y < v) \<and> (\<forall>j<v. 0 < deg b j)
      \<and> fenwick t n (live_weights b {..<v}))"

lemma ba_node_body_yields:
  assumes m: "1 \<le> m" "m < v" "v < n" and room: "int m * (int n - int m) \<le> MaxEdges"
    and st: "ba_inv n m v st"
  shows "yields (ba_node_body ctx m v st) (ctx_errs ctx) (ba_inv n m (Suc v))"
proof -
  obtain b t r ts where st': "st = (b, t, r, ts)" by (cases st)
  have I: "simple_graph n b" "edges b = int m * (int v - int m)" "length ts = m"
    "\<And>x y. adj b x y \<Longrightarrow> x < v \<and> y < v" "\<And>j. j < v \<Longrightarrow> 0 < deg b j"
    "fenwick t n (live_weights b {..<v})"
    using st by (auto simp: ba_inv_def st')
  have "int m * (int v + 1 - int m) \<le> int m * (int n - int m)" using m by (intro mult_left_mono) auto
  then have room': "edges b + int m \<le> MaxEdges" using room I(2) by (simp add: algebra_simps)
  have "pick_inv n m v b 0 st" using I by (simp add: pick_inv_def st')
  then have picks: "yields (foldR (ba_pick_body ctx) [0..<m] st) (ctx_errs ctx) (pick_inv n m v b m)"
    using m I by (intro ba_picks_yields) auto
  have "yields (rbind (foldR (ba_pick_body ctx) [0..<m] st) (\<lambda>(b, t, r, targets).
      rbind (foldR (ba_link_body v) targets (b, t)) (\<lambda>(b, t).
      Inr (b, degreeTree_add v (int m) t, r, targets)))) (ctx_errs ctx) (ba_inv n m (Suc v))"
  proof (rule yields_bind [OF picks])
    fix st1 assume st1: "pick_inv n m v b m st1"
    obtain b1 t1 r1 ts1 where st1': "st1 = (b1, t1, r1, ts1)" by (cases st1)
    have "length ts1 = m" using st1 by (simp add: pick_inv_def st1')
    then have P: "neighbors b1 = neighbors b" "edges b1 = edges b" "length ts1 = m" "distinct ts1"
      "set ts1 \<subseteq> {..<v}" "fenwick t1 n (live_weights b ({..<v} - set ts1))"
      using st1 by (simp_all add: pick_inv_def st1')
    note same = same_graph [OF P(1,2)]
    have "link_inv n v b ts1 [] (b1, t1)"
      using P I(1) live_weights_same [OF P(1)] by (simp add: link_inv_def same)
    then have "yields (foldR (ba_link_body v) ts1 (b1, t1)) (ctx_errs ctx) (link_inv n v b ts1 ts1)"
      using m I(4) P room' by (intro ba_links_yields) auto
    then have "yields (rbind (foldR (ba_link_body v) ts1 (b1, t1)) (\<lambda>(b, t).
        Inr (b, degreeTree_add v (int m) t, r1, ts1))) (ctx_errs ctx) (ba_inv n m (Suc v))"
    proof (rule yields_bind)
      fix bt assume bt: "link_inv n v b ts1 ts1 bt"
      obtain b2 t2 where bt': "bt = (b2, t2)" by fastforce
      have L: "simple_graph n b2" "edges b2 = edges b + int m"
        "\<And>x y. adj b2 x y \<longleftrightarrow> adj b x y \<or> x = v \<and> y \<in> set ts1 \<or> y = v \<and> x \<in> set ts1"
        "fenwick t2 n (live_weights b2 {..<v})"
        using bt P(3) by (simp_all add: link_inv_def bt')
      have "neighbors b2 ! v = set ts1"
        using neighbors_adj [OF L(1) m(3)] L(3) [of v] I(4) [of v] P(5) by auto
      then have dv: "deg b2 v = int m" using P(3,4) by (simp add: deg_def distinct_card)
      have "fenwick (degreeTree_add v (int m) t2) n (live_weights b2 {..<Suc v})"
        using dtree.rep_add [OF L(4) m(3), of "int m"] live_weights_insert [of v "{..<v}" "int m" b2] dv
        by (simp add: lessThan_Suc)
      moreover have "0 < deg b2 j" if "j < Suc v" for j
      proof (cases "j = v")
        case True
        then show ?thesis using dv m by simp
      next
        case False
        then have "j < v" using that by simp
        then obtain y where "adj b j y" using I(5) [of j] neighbors_adj [OF I(1), of j] m
          by (auto simp: deg_def card_gt_0_iff)
        then show ?thesis using L(3) neighbors_adj [OF L(1), of j] simple_graphD(6) [OF L(1), of j] \<open>j < v\<close> m
          by (auto simp: deg_def card_gt_0_iff)
      qed
      moreover have "edges b2 = int m * (int (Suc v) - int m)" using L(2) I(2) by (simp add: algebra_simps)
      moreover have "x < Suc v \<and> y < Suc v" if "adj b2 x y" for x y
        using that L(3) [of x y] I(4) [of x y] P(5) by fastforce
      ultimately show "yields (case bt of (b, t) \<Rightarrow> Inr (b, degreeTree_add v (int m) t, r1, ts1)) (ctx_errs ctx)
          (ba_inv n m (Suc v))"
        using L(1) P(3) by (simp add: ba_inv_def bt')
    qed
    then show "yields (case st1 of (b, t, r, targets) \<Rightarrow> rbind (foldR (ba_link_body v) targets (b, t))
        (\<lambda>(b, t). Inr (b, degreeTree_add v (int m) t, r, targets))) (ctx_errs ctx) (ba_inv n m (Suc v))"
      by (simp add: st1')
  qed
  then show ?thesis using I(3) by (simp add: ba_node_body_def st')
qed

lemma ba_nodes_yields:
  assumes m: "1 \<le> m" "m < n" and room: "int m * (int n - int m) \<le> MaxEdges"
    and st: "ba_inv n m (m + 1) st"
  shows "yields (foldR (ba_node_body ctx m) [m + 1..<n] st) (ctx_errs ctx) (ba_inv n m n)"
proof -
  have "yields (foldR (ba_node_body ctx m) [m + 1..<n] st) (ctx_errs ctx) (ba_inv n m (m + 1 + length [m + 1..<n]))"
  proof (rule yields_foldR [where I = "\<lambda>ys. ba_inv n m (m + 1 + length ys)"])
    show "ba_inv n m (m + 1 + length []) st" using st by simp
  next
    fix ys v zs t
    assume "[m + 1..<n] = ys @ v # zs" and t: "ba_inv n m (m + 1 + length ys) t"
    note R = range_split [OF this(1)]
    show "yields (ba_node_body ctx m v t) (ctx_errs ctx) (ba_inv n m (m + 1 + length (ys @ [v])))"
      using ba_node_body_yields [OF m(1) _ _ room, of v t ctx] R(1-3) t by simp
  qed
  then show ?thesis using m by simp
qed

lemma barabasiAlbert_yields:
  assumes b: "simple_graph n b" "edges b = 0" "\<And>x y. \<not> adj b x y"
    and m: "1 \<le> m" "m < n" and room: "int m * (int n - int m) \<le> MaxEdges"
  shows "yields (barabasiAlbert ctx m b r) (ctx_errs ctx)
    (\<lambda>br. simple_graph n (fst br) \<and> edges (fst br) = int m * (int n - int m))"
proof -
  have "int m * 1 \<le> int m * (int n - int m)" using m by (intro mult_left_mono) auto
  then have mE: "int m \<le> MaxEdges" using room by simp
  have "yields (rbind (foldR (ba_star_body ctx) [1..<m + 1] b) (\<lambda>b.
      rbind (foldR (ba_weight_body b) [0..<m + 1] (new_degreeTree n)) (\<lambda>weights.
      rbind (foldR (ba_node_body ctx m) [m + 1..<n] (b, weights, r, replicate m 0)) (\<lambda>(b, t, r, targets).
      Inr (b, r))))) (ctx_errs ctx) (\<lambda>br. simple_graph n (fst br) \<and> edges (fst br) = int m * (int n - int m))"
  proof (rule yields_bind [OF ba_star_yields [OF b m(2) mE]], goal_cases)
    case (1 b1)
    note S = 1
    have "0 < deg b1 j" if "j < m + 1" for j
    proof -
      have "adj b1 j (if j = 0 then 1 else 0)" using S that m by auto
      then have "neighbors b1 ! j \<noteq> {}" using neighbors_adj [of n b1 j] S that m by auto
      then show ?thesis using simple_graphD(6) [of n b1 j] S that m by (simp add: deg_def card_gt_0_iff)
    qed
    then have "ba_inv n m (m + 1) (b1, weights, r, replicate m 0)"
      if "fenwick weights n (live_weights b1 {..<m + 1})" for weights
      using that S by (auto simp: ba_inv_def)
    note nodes = ba_nodes_yields [OF m room this]
    show ?case
    proof (rule yields_bind [OF ba_weight_yields])
      show "simple_graph n b1" "m < n" using S m by auto
      fix weights assume "fenwick weights n (live_weights b1 {..<m + 1})"
      from nodes [OF this]
      show "yields (rbind (foldR (ba_node_body ctx m) [m + 1..<n] (b1, weights, r, replicate m 0))
          (\<lambda>(b, t, r, targets). Inr (b, r))) (ctx_errs ctx)
          (\<lambda>br. simple_graph n (fst br) \<and> edges (fst br) = int m * (int n - int m))"
        by (rule yields_bind) (auto simp: ba_inv_def)
    qed
  qed
  then show ?thesis by (simp add: barabasiAlbert_def Let_def simple_graphD(1) [OF b(1)])
qed

end
