(* ===== verification/Topology_Lattice.thy ===== *)
theory Topology_Lattice
  imports Topology_BA
begin

text \<open>
  The grid and triangular lattices: the edges are exactly the links of the lattice, stated on the
  row and column of a node, and their number is the closed form.
\<close>

definition lattice_link :: "bool \<Rightarrow> nat \<times> nat \<Rightarrow> nat \<times> nat \<Rightarrow> bool" where
  "lattice_link triangular p q =
     (let (r, c) = p; (r', c') = q in
      r' = r \<and> c' = c + 1
      \<or> r' = r + 1 \<and> (c' = c \<or> triangular \<and> (if odd r then c' = c + 1 else c = c' + 1)))"

definition lattice_size :: "nat \<Rightarrow> nat \<Rightarrow> bool \<Rightarrow> nat" where
  "lattice_size rows columns triangular =
     rows * (columns - 1) + (rows - 1) * (columns + (if triangular then columns - 1 else 0))"

lemma cell_inj:
  assumes "r * k + c = r' * k + c'" "c < k" "c' < (k :: nat)"
  shows "r = r'" "c = c'"
proof -
  have "(r * k + c) div k = (r' * k + c') div k" "(r * k + c) mod k = (r' * k + c') mod k"
    using assms(1) by simp_all
  then show "r = r'" "c = c'" using assms(2,3) by simp_all
qed

lemma cell_less:
  assumes "r < rows" "c < columns"
  shows "r * columns + c < rows * (columns :: nat)"
proof -
  have "r * columns + c < Suc r * columns" using assms(2) by simp
  also have "\<dots> \<le> rows * columns" using assms(1) by (intro mult_le_mono1) simp
  finally show ?thesis .
qed

lemma lattice_targets_iff:
  assumes "r < rows" "c < columns"
  shows "y \<in> set (lattice_targets rows columns triangular r c) \<longleftrightarrow>
    (\<exists>r'<rows. \<exists>c'<columns. y = r' * columns + c' \<and> lattice_link triangular (r, c) (r', c'))"
proof -
  let ?next = "if r mod 2 = 1 then int c + 1 else int c - 1"
  have next_iff: "?next \<ge> 0 \<and> ?next < int columns \<longleftrightarrow>
      (\<exists>c'<columns. nat ?next = c' \<and> (if odd r then c' = c + 1 else c = c' + 1))"
    using assms(2) by (auto simp: odd_iff_mod_2_eq_one)
  show ?thesis
    using assms next_iff by (auto simp: lattice_targets_def lattice_link_def Let_def odd_iff_mod_2_eq_one
        split: if_splits)
qed

lemma lattice_targets_forward:
  assumes "r < rows" "c < columns" "y \<in> set (lattice_targets rows columns triangular r c)"
  shows "r * columns + c < y" "y < rows * columns"
proof -
  obtain r' c' where y: "r' < rows" "c' < columns" "y = r' * columns + c'" "lattice_link triangular (r, c) (r', c')"
    using assms lattice_targets_iff by blast
  then show "y < rows * columns" using cell_less by simp
  show "r * columns + c < y" using y(2-) assms(2) by (auto simp: lattice_link_def)
qed

lemma lattice_targets_distinct:
  assumes "c < columns"
  shows "distinct (lattice_targets rows columns triangular r c)"
  using assms by (auto simp: lattice_targets_def Let_def)

lemma lattice_targets_length:
  assumes "c < columns"
  shows "length (lattice_targets rows columns triangular r c) =
    (if c + 1 < columns then 1 else 0) + (if r + 1 < rows then
      1 + (if triangular \<and> (if odd r then c + 1 < columns else 1 \<le> c) then 1 else 0) else 0)"
  using assms by (auto simp: lattice_targets_def Let_def odd_iff_mod_2_eq_one)

lemma sum_pred_less: "(\<Sum>c<k. if c + 1 < k then 1 else 0) = k - (1 :: nat)"
proof (cases k)
  case (Suc j)
  have "(\<Sum>c<j. if c + 1 < Suc j then 1 else 0) = (\<Sum>c<j. 1 :: nat)" by (intro sum.cong) auto
  then show ?thesis by (simp add: Suc)
qed simp

lemma sum_pos: "(\<Sum>c<k. if 1 \<le> c then 1 else 0) = k - (1 :: nat)"
proof (cases k)
  case (Suc j)
  then show ?thesis by (simp add: sum.lessThan_Suc_shift del: sum.lessThan_Suc)
qed simp

lemma lattice_size_sum:
  "(\<Sum>r<rows. \<Sum>c<columns. length (lattice_targets rows columns triangular r c))
    = lattice_size rows columns triangular"
proof -
  have inner: "(\<Sum>c<columns. length (lattice_targets rows columns triangular r c)) =
      (columns - 1) + (if r + 1 < rows then columns + (if triangular then columns - 1 else 0) else 0)" for r
  proof -
    have "(\<Sum>c<columns. length (lattice_targets rows columns triangular r c)) =
      (\<Sum>c<columns. (if c + 1 < columns then 1 else 0) + (if r + 1 < rows then
        1 + (if triangular \<and> (if odd r then c + 1 < columns else 1 \<le> c) then 1 else 0) else 0))"
      by (intro sum.cong) (simp_all add: lattice_targets_length)
    then show ?thesis
      using sum_pred_less [of columns] sum_pos [of columns]
      by (cases "r + 1 < rows"; cases triangular; cases "odd r") (simp_all add: sum.distrib sum_Suc)
  qed
  have "(\<Sum>r<rows. if r + 1 < rows then d else 0) = (rows - 1) * d" for d :: nat
  proof -
    have "(\<Sum>r<rows. if r + 1 < rows then d else 0) = (\<Sum>r<rows. (if r + 1 < rows then 1 else 0) * d)"
      by (intro sum.cong) auto
    also have "\<dots> = (\<Sum>r<rows. if r + 1 < rows then 1 else 0) * d" by (rule sum_distrib_right [symmetric])
    finally show ?thesis by (simp only: sum_pred_less)
  qed
  then show ?thesis by (simp add: inner sum.distrib lattice_size_def)
qed

subsection \<open>The loop\<close>

definition lattice_inv ::
    "nat \<Rightarrow> nat \<Rightarrow> bool \<Rightarrow> (nat \<times> nat) list \<Rightarrow> builder \<times> Position list \<Rightarrow> bool" where
  "lattice_inv rows columns triangular ys bp =
     (simple_graph (rows * columns) (fst bp)
      \<and> edges (fst bp) = int (\<Sum>(r, c)\<leftarrow>ys. length (lattice_targets rows columns triangular r c))
      \<and> length (snd bp) = rows * columns
      \<and> (\<forall>(r, c)\<in>set ys. snd bp ! (r * columns + c) = lattice_position triangular r c)
      \<and> (\<forall>x y. adj (fst bp) x y \<longleftrightarrow> (\<exists>(r, c)\<in>set ys.
            x = r * columns + c \<and> y \<in> set (lattice_targets rows columns triangular r c)
            \<or> y = r * columns + c \<and> x \<in> set (lattice_targets rows columns triangular r c))))"

lemma sum_list_bound:
  assumes "\<And>x. x \<in> set xs \<Longrightarrow> f x \<le> (k :: nat)"
  shows "(\<Sum>x\<leftarrow>xs. f x) \<le> k * length xs"
  using assms
proof (induction xs)
  case (Cons x xs)
  then have "(\<Sum>x\<leftarrow>xs. f x) \<le> k * length xs" "f x \<le> k" by auto
  then show ?case by simp
qed simp

lemma lattice_body_yields:
  assumes r: "r < rows" and c: "c < columns" and new: "(r, c) \<notin> set ys"
    and range: "\<forall>(r, c)\<in>set ys. r < rows \<and> c < columns" and len: "length ys < rows * columns"
    and room: "int (3 * (rows * columns)) \<le> MaxEdges"
    and bp: "lattice_inv rows columns triangular ys bp"
  shows "yields (lattice_body ctx rows columns triangular r c bp) (ctx_errs ctx)
    (lattice_inv rows columns triangular (ys @ [(r, c)]))"
proof -
  let ?n = "rows * columns" and ?T = "\<lambda>r c. lattice_targets rows columns triangular r c"
  let ?u = "r * columns + c"
  obtain b ps where bp': "bp = (b, ps)" by fastforce
  have I: "simple_graph ?n b" "edges b = int (\<Sum>(r, c)\<leftarrow>ys. length (?T r c))" "length ps = ?n"
    "\<forall>(r, c)\<in>set ys. ps ! (r * columns + c) = lattice_position triangular r c"
    "\<And>x y. adj b x y \<longleftrightarrow> (\<exists>(r, c)\<in>set ys. x = r * columns + c \<and> y \<in> set (?T r c)
        \<or> y = r * columns + c \<and> x \<in> set (?T r c))"
    using bp by (simp_all add: lattice_inv_def bp')
  have u: "?u < ?n" using r c by (rule cell_less)
  have other: "r' * columns + c' \<noteq> ?u" if "(r', c') \<in> set ys" for r' c'
    using that new range cell_inj [of r' columns c' r c] c by fastforce
  have fresh: "v < ?n \<and> v \<noteq> ?u \<and> \<not> adj b ?u v" if "v \<in> set (?T r c)" for v
  proof -
    have v: "?u < v" "v < ?n" using lattice_targets_forward [OF r c that] by auto
    have "\<not> adj b ?u v"
    proof
      assume "adj b ?u v"
      then obtain r' c' where rc: "(r', c') \<in> set ys"
        "?u = r' * columns + c' \<and> v \<in> set (?T r' c') \<or> v = r' * columns + c' \<and> ?u \<in> set (?T r' c')"
        using I(5) by auto
      then show False using other range lattice_targets_forward(1) [of r' rows c' columns ?u triangular] v
        by fastforce
    qed
    with v show ?thesis by simp
  qed
  have ps: "\<forall>(r', c')\<in>set (ys @ [(r, c)]).
      ps[?u := lattice_position triangular r c] ! (r' * columns + c') = lattice_position triangular r' c'"
    using I(3,4) u other by (force simp: nth_list_update_neq)
  have "edges b \<le> int (3 * length ys)"
    unfolding I(2) using range by (intro of_nat_mono sum_list_bound) (auto simp: lattice_targets_length)
  moreover have "length (?T r c) \<le> 3" using c by (simp add: lattice_targets_length)
  moreover have "int (3 * length ys) + 3 \<le> int (3 * ?n)" using len by linarith
  ultimately have fits: "edges b + int (length (?T r c)) \<le> MaxEdges" using room by linarith
  show ?thesis unfolding lattice_body_def bp' split Let_def
  proof (rule builder_step_bind)
    fix b' :: builder assume b': "neighbors b' = neighbors b" "edges b' = edges b"
    note same = same_graph [OF b']
    have "yields (foldR (builder_add ?u) (?T r c) b') (ctx_errs ctx) (\<lambda>b2. simple_graph ?n b2
        \<and> edges b2 = edges b' + int (length (?T r c))
        \<and> (\<forall>x y. adj b2 x y \<longleftrightarrow> adj b' x y \<or> x = ?u \<and> y \<in> set (?T r c) \<or> y = ?u \<and> x \<in> set (?T r c)))"
      using I(1) u fresh fits b' lattice_targets_distinct [OF c]
      by (intro store.add_list_yields) (auto simp: same)
    then have "yields (rbind (foldR (builder_add ?u) (?T r c) b') (\<lambda>b.
        Inr (b, ps[?u := lattice_position triangular r c]))) (ctx_errs ctx)
        (lattice_inv rows columns triangular (ys @ [(r, c)]))"
    proof (rule yields_bind, goal_cases)
      case (1 b2)
      then have "adj b2 x y \<longleftrightarrow> (\<exists>(r, c)\<in>set (ys @ [(r, c)]). x = r * columns + c \<and> y \<in> set (?T r c)
          \<or> y = r * columns + c \<and> x \<in> set (?T r c))" for x y
        using I(5) [of x y] same(2) by auto
      with 1 ps I(2,3) b'(2) show ?case by (simp add: lattice_inv_def)
    qed
    then show "yields (if ?u \<ge> length ps then Inl Panic else rbind (foldR (builder_add ?u) (?T r c) b') (\<lambda>b.
        Inr (b, ps[?u := lattice_position triangular r c]))) (ctx_errs ctx)
        (lattice_inv rows columns triangular (ys @ [(r, c)]))"
      using I(3) u by simp
  qed simp
qed

lemma lattice_yields:
  assumes b: "simple_graph (rows * columns) b" "edges b = 0" "\<And>x y. \<not> adj b x y"
    and room: "int (3 * (rows * columns)) \<le> MaxEdges"
  shows "yields (lattice ctx rows columns triangular b) (ctx_errs ctx)
    (lattice_inv rows columns triangular (nested_range [0..<rows] (\<lambda>_. [0..<columns])))"
  unfolding lattice_def foldR_nested
proof (rule yields_foldR [where I = "lattice_inv rows columns triangular"])
  show "lattice_inv rows columns triangular [] (b, replicate (length (neighbors b)) zero_Position)"
    using b simple_graphD(1) [OF b(1)] by (simp add: lattice_inv_def)
next
  fix ys rc zs and t :: "builder \<times> Position list"
  let ?R = "nested_range [0..<rows] (\<lambda>_. [0..<columns])"
  assume eq: "?R = ys @ rc # zs" and t: "lattice_inv rows columns triangular ys t"
  obtain r c where rc: "rc = (r, c)" by fastforce
  have "distinct ?R" by (intro distinct_nested_range) auto
  then have new: "(r, c) \<notin> set ys" unfolding eq rc by auto
  have mem: "p < rows \<and> q < columns" if "(p, q) \<in> set (ys @ [(r, c)])" for p q
  proof -
    have "(p, q) \<in> set ?R" using that unfolding eq rc by auto
    then show ?thesis by simp
  qed
  have "length ?R = rows * columns" by (simp add: length_nested_range sum_list_triv)
  then have "length ys < rows * columns" unfolding eq by simp
  then show "yields ((case rc of (row, column) \<Rightarrow> lattice_body ctx rows columns triangular row column) t)
      (ctx_errs ctx) (lattice_inv rows columns triangular (ys @ [rc]))"
    unfolding rc using lattice_body_yields [OF _ _ new _ _ room t] mem by fastforce
qed

text \<open>What the finished loop means on rows and columns.\<close>

lemma nested_range_sum:
  fixes f :: "nat \<Rightarrow> nat \<Rightarrow> nat"
  shows "(\<Sum>(r, c)\<leftarrow>nested_range [0..<rows] (\<lambda>_. [0..<columns]). f r c) = (\<Sum>r<rows. \<Sum>c<columns. f r c)"
proof -
  have "(\<Sum>(r, c)\<leftarrow>nested_range xs (\<lambda>_. [0..<columns]). f r c) = (\<Sum>r\<leftarrow>xs. \<Sum>c\<leftarrow>[0..<columns]. f r c)" for xs
    by (induction xs) (auto simp: nested_range_def comp_def)
  then show ?thesis by (simp add: interv_sum_list_conv_sum_set_nat atLeast0LessThan)
qed

lemma lattice_inv_final:
  assumes "lattice_inv rows columns triangular (nested_range [0..<rows] (\<lambda>_. [0..<columns])) (b, ps)"
  shows "edges b = int (lattice_size rows columns triangular)"
    and "r < rows \<Longrightarrow> c < columns \<Longrightarrow> r' < rows \<Longrightarrow> c' < columns \<Longrightarrow>
      adj b (r * columns + c) (r' * columns + c') \<longleftrightarrow>
        lattice_link triangular (r, c) (r', c') \<or> lattice_link triangular (r', c') (r, c)"
proof -
  show "edges b = int (lattice_size rows columns triangular)"
    using assms by (simp add: lattice_inv_def nested_range_sum lattice_size_sum)
next
  assume rc: "r < rows" "c < columns" "r' < rows" "c' < columns"
  let ?T = "\<lambda>r c. lattice_targets rows columns triangular r c"
  have "adj b x y \<longleftrightarrow> (\<exists>p q. p < rows \<and> q < columns \<and> (x = p * columns + q \<and> y \<in> set (?T p q)
      \<or> y = p * columns + q \<and> x \<in> set (?T p q)))" for x y
    using assms by (simp add: lattice_inv_def Bex_def split_paired_Ex)
  then have "adj b (r * columns + c) (r' * columns + c') \<longleftrightarrow> (\<exists>p<rows. \<exists>q<columns.
      r * columns + c = p * columns + q \<and> r' * columns + c' \<in> set (?T p q)
      \<or> r' * columns + c' = p * columns + q \<and> r * columns + c \<in> set (?T p q))"
    by blast
  also have "\<dots> \<longleftrightarrow> r' * columns + c' \<in> set (?T r c) \<or> r * columns + c \<in> set (?T r' c')"
    using rc cell_inj by metis
  also have "r' * columns + c' \<in> set (?T r c) \<longleftrightarrow> lattice_link triangular (r, c) (r', c')"
    unfolding lattice_targets_iff [OF rc(1,2)] using rc cell_inj by metis
  also have "r * columns + c \<in> set (?T r' c') \<longleftrightarrow> lattice_link triangular (r', c') (r, c)"
    unfolding lattice_targets_iff [OF rc(3,4)] using rc cell_inj by metis
  finally show "adj b (r * columns + c) (r' * columns + c') \<longleftrightarrow>
        lattice_link triangular (r, c) (r', c') \<or> lattice_link triangular (r', c') (r, c)" .
qed

end
