(* ===== verification/Topology_Generate.thy ===== *)
theory Topology_Generate
  imports Topology_Lattice
begin

text \<open>
  \<^verbatim>\<open>Generate\<close> of \<^verbatim>\<open>internal/topology/generate.go\<close> and the theorems about the graphs it returns.

  The math library functions \<^verbatim>\<open>math.Hypot\<close> and \<^verbatim>\<open>math.Exp\<close> are the fields of \<open>math_fns\<close>, and
  \<open>source seed\<close> is the tape of draws of \<^verbatim>\<open>rand.New(rand.NewSource(seed))\<close>; the theorems hold for all
  of them and for every behaviour of the context.
\<close>

subsection \<open>The operation\<close>

record math_fns =
  m_Hypot :: "f64 \<Rightarrow> f64 \<Rightarrow> f64"
  m_Exp :: "f64 \<Rightarrow> f64"

record Graph =
  g_Neighbors :: "nat list list"
  g_Positions :: "Position list option"

definition EdgeCount :: "Graph \<Rightarrow> nat" where
  "EdgeCount g = (\<Sum>ns\<leftarrow>g_Neighbors g. length ns) div 2"

definition distance :: "math_fns \<Rightarrow> Position \<Rightarrow> Position \<Rightarrow> f64" where
  "distance M a b = m_Hypot M (f_sub (pos_X a) (pos_X b)) (f_sub (pos_Y a) (pos_Y b))"

fun draw_positions :: "nat \<Rightarrow> rng \<Rightarrow> Position list \<times> rng" where
  "draw_positions 0 r = ([], r)"
| "draw_positions (Suc n) r =
     (let (x, r) = rng_Float64 r; (y, r) = rng_Float64 r; (ps, r) = draw_positions n r
      in (\<lparr>pos_X = Fin x, pos_Y = Fin y\<rparr> # ps, r))"

definition er_include :: "f64 \<Rightarrow> nat \<Rightarrow> nat \<Rightarrow> rng \<Rightarrow> bool \<times> rng" where
  "er_include p u v r = (let (x, r) = rng_Float64 r in (f_lt (Fin x) p, r))"

definition rgg_include :: "math_fns \<Rightarrow> Position list \<Rightarrow> f64 \<Rightarrow> nat \<Rightarrow> nat \<Rightarrow> unit \<Rightarrow> bool \<times> unit" where
  "rgg_include M ps radius u v s = (f_le (distance M (ps ! u) (ps ! v)) radius, s)"

definition waxman_longest :: "math_fns \<Rightarrow> Position list \<Rightarrow> nat \<Rightarrow> nat \<Rightarrow> f64 \<Rightarrow> bool \<times> f64" where
  "waxman_longest M ps u v longest = (False, f_max longest (distance M (ps ! u) (ps ! v)))"

definition waxman_include ::
    "math_fns \<Rightarrow> Position list \<Rightarrow> f64 \<Rightarrow> f64 \<Rightarrow> f64 \<Rightarrow> nat \<Rightarrow> nat \<Rightarrow> rng \<Rightarrow> bool \<times> rng" where
  "waxman_include M ps alpha beta longest u v r =
     (let chance = (if f_lt (Fin 0) longest
                    then f_mul beta (m_Exp M (f_div (f_neg (distance M (ps ! u) (ps ! v))) (f_mul alpha longest)))
                    else beta);
          (x, r) = rng_Float64 r
      in (f_lt (Fin x) chance, r))"

text \<open>The switch over the model.\<close>

definition generate_model ::
    "math_fns \<Rightarrow> ctx \<Rightarrow> TopologyConfig \<Rightarrow> builder \<Rightarrow> rng \<Rightarrow> (builder \<times> Position list option) result" where
  "generate_model M ctx c b r =
     (let n = length (neighbors b); model = tc_Model c in
      if model = ''er'' then
        rbind (deref (tc_P c)) (\<lambda>p.
        rbind (builder_pairs ctx (er_include p) (b, r)) (\<lambda>(b, _). Inr (b, None)))
      else if model = ''ws'' then
        rbind (deref (tc_K c)) (\<lambda>k. rbind (deref (tc_P c)) (\<lambda>p.
        rbind (wattsStrogatz ctx (nat k) p b r) (\<lambda>(b, _). Inr (b, None))))
      else if model = ''ba'' then
        rbind (deref (tc_M c)) (\<lambda>m.
        rbind (barabasiAlbert ctx (nat m) b r) (\<lambda>(b, _). Inr (b, None)))
      else if model = ''rgg'' \<or> model = ''waxman'' then
        (let (ps, r) = draw_positions n r in
         if model = ''rgg'' then
           rbind (deref (tc_Radius c)) (\<lambda>radius.
           rbind (builder_pairs ctx (rgg_include M ps radius) (b, ())) (\<lambda>(b, _). Inr (b, Some ps)))
         else
           rbind (builder_pairs ctx (waxman_longest M ps) (b, Fin 0)) (\<lambda>(b, longest).
           rbind (deref (tc_Beta c)) (\<lambda>beta. rbind (deref (tc_Alpha c)) (\<lambda>alpha.
           rbind (builder_pairs ctx (waxman_include M ps alpha beta longest) (b, r)) (\<lambda>(b, _).
           Inr (b, Some ps))))))
      else if model = ''grid'' \<or> model = ''triangular'' then
        rbind (deref (tc_Rows c)) (\<lambda>rows. rbind (deref (tc_Columns c)) (\<lambda>columns.
        rbind (lattice ctx (nat rows) (nat columns) (model = ''triangular'') b) (\<lambda>(b, ps).
        Inr (b, Some ps))))
      else Inr (b, None))"

text \<open>The final copy of the neighbour sets into sorted lists, with a cancellation check per node.\<close>

definition export_body :: "ctx \<Rightarrow> nat \<Rightarrow> builder \<times> nat list list \<Rightarrow> (builder \<times> nat list list) result" where
  "export_body ctx i bo =
     (let (b, out) = bo in
      rbind (ctx_Err ctx b) (\<lambda>b. rbind (nbrs b i) (\<lambda>nb. Inr (b, out @ [sorted_list_of_set nb]))))"

definition Generate ::
    "math_fns \<Rightarrow> (int \<Rightarrow> nat \<Rightarrow> int) \<Rightarrow> ctx \<Rightarrow> TopologyConfig \<Rightarrow> int \<Rightarrow> int \<Rightarrow> Graph result" where
  "Generate M source ctx c n seed =
     (if ctx 0 then Inl CtxErr
      else rbind (check (n < 1) ''topology requires at least one node'') (\<lambda>_.
      rbind (topology_Validate c n) (\<lambda>_.
      let seed = (case tc_Seed c of Some s \<Rightarrow> s | None \<Rightarrow> seed);
          r = \<lparr>tape = source seed, pos = 0\<rparr>
      in rbind (generate_model M ctx c (new_builder (nat n) 1) r) (\<lambda>(b, positions).
         rbind (foldR (export_body ctx) [0..<nat n] (b, [])) (\<lambda>(b, out).
         Inr \<lparr>g_Neighbors = out, g_Positions = positions\<rparr>)))))"

subsection \<open>Every model builds a simple graph or reports an error\<close>

lemma new_builder_facts:
  "simple_graph n (new_builder n k)" "edges (new_builder n k) = 0" "\<not> adj (new_builder n k) x y"
  "length (neighbors (new_builder n k)) = n"
  using simple_graph_new by (auto simp: new_builder_def adj_def)

lemma yields_errs_mono: "yields m B P \<Longrightarrow> B \<subseteq> B' \<Longrightarrow> yields m B' P"
  by (cases m) auto

lemma MaxEdges_val: "MaxEdges = 1000000"
  by (simp add: MaxEdges_def MaxTopologyEdges_def)

lemma generate_ws:
  assumes v: "topology_Validate c (int n) = Inr ()" "0 < n" "tc_Model c = ''ws''" "tc_K c = Some k"
  shows "yields (generate_model M ctx c (new_builder n 1) r) (ctx_errs ctx)
    (\<lambda>bp. simple_graph n (fst bp) \<and> edges (fst bp) = int n * k div 2)"
proof -
  obtain p where k: "tc_P c = Some (Fin p)" "2 \<le> k" "even k" "k < int n" "int n * k div 2 \<le> 1000000"
    by (rule topology_Validate_ws [OF v(1,3)]) (use v(2,4) in auto)
  obtain h where h: "k = 2 * h" using k(3) by blast
  have nk: "nat k div 2 = nat h" "int (nat k div 2 * n) = int n * h" "int n * k div 2 = int n * h"
    using h k(2) by (auto simp: nat_mult_distrib)
  have "yields (wattsStrogatz ctx (nat k) (Fin p) (new_builder n 1) r) (ctx_errs ctx)
      (\<lambda>br. simple_graph n (fst br) \<and> edges (fst br) = int (nat k div 2 * n))"
    using k nk by (intro wattsStrogatz_yields new_builder_facts) (auto simp: MaxEdges_val mult.commute)
  then have "yields (rbind (wattsStrogatz ctx (nat k) (Fin p) (new_builder n 1) r) (\<lambda>(b, _). Inr (b, None)))
      (ctx_errs ctx) (\<lambda>bp. simple_graph n (fst bp) \<and> edges (fst bp) = int n * k div 2)"
    by (rule yields_bind) (use nk in auto)
  then show ?thesis using v k by (simp add: generate_model_def)
qed

lemma generate_ba:
  assumes v: "topology_Validate c (int n) = Inr ()" "0 < n" "tc_Model c = ''ba''" "tc_M c = Some m"
  shows "yields (generate_model M ctx c (new_builder n 1) r) (ctx_errs ctx)
    (\<lambda>bp. simple_graph n (fst bp) \<and> edges (fst bp) = m * (int n - m))"
proof -
  have m: "1 \<le> m" "m < int n" "m * (int n - m) \<le> 1000000"
    by (rule topology_Validate_ba [OF v(1,3)], use v(2,4) in simp, use v(2,4) in simp)+
  have "yields (barabasiAlbert ctx (nat m) (new_builder n 1) r) (ctx_errs ctx)
      (\<lambda>br. simple_graph n (fst br) \<and> edges (fst br) = int (nat m) * (int n - int (nat m)))"
    using m by (intro barabasiAlbert_yields new_builder_facts) (auto simp: MaxEdges_val)
  then have "yields (rbind (barabasiAlbert ctx (nat m) (new_builder n 1) r) (\<lambda>(b, _). Inr (b, None)))
      (ctx_errs ctx) (\<lambda>bp. simple_graph n (fst bp) \<and> edges (fst bp) = m * (int n - m))"
    by (rule yields_bind) (use m in auto)
  then show ?thesis using v by (simp add: generate_model_def)
qed

lemma generate_lattice:
  assumes v: "topology_Validate c (int n) = Inr ()" "0 < n" "tc_Model c = ''grid'' \<or> tc_Model c = ''triangular''"
    "tc_Rows c = Some rows" "tc_Columns c = Some columns"
  shows "yields (generate_model M ctx c (new_builder n 1) r) (ctx_errs ctx)
    (\<lambda>(b, ps). simple_graph n b \<and> (\<exists>p. ps = Some p \<and> lattice_inv (nat rows) (nat columns) (tc_Model c = ''triangular'')
       (nested_range [0..<nat rows] (\<lambda>_. [0..<nat columns])) (b, p)))"
proof -
  have rc: "1 \<le> rows" "1 \<le> columns" "rows * columns = int n"
    by (rule topology_Validate_lattice [OF v(1,3)], use v(2,4,5) in simp, use v(2,4,5) in simp)+
  then have n: "nat rows * nat columns = n" by (metis nat_int nat_mult_distrib order_trans zero_le_one)
  have "int n \<le> 10000" using topology_Validate_size [OF v(1)] by simp
  then have room: "int (3 * (nat rows * nat columns)) \<le> MaxEdges" using n by (simp add: MaxEdges_val)
  let ?I = "lattice_inv (nat rows) (nat columns) (tc_Model c = ''triangular'')
      (nested_range [0..<nat rows] (\<lambda>_. [0..<nat columns]))"
  have "yields (lattice ctx (nat rows) (nat columns) (tc_Model c = ''triangular'') (new_builder n 1)) (ctx_errs ctx) ?I"
    using new_builder_facts n room by (intro lattice_yields) auto
  then have "yields (rbind (lattice ctx (nat rows) (nat columns) (tc_Model c = ''triangular'') (new_builder n 1))
      (\<lambda>(b, ps). Inr (b, Some ps))) (ctx_errs ctx) (\<lambda>(b, ps). simple_graph n b \<and> (\<exists>p. ps = Some p \<and> ?I (b, p)))"
    by (rule yields_bind) (use n in \<open>auto simp: lattice_inv_def\<close>)
  then show ?thesis using v(3-5) by (auto simp: generate_model_def)
qed

lemma generate_pairs:
  fixes s :: 's
  assumes "simple_graph n b"
    and "\<And>b' s'. simple_graph n b' \<Longrightarrow> yields (f (b', s')) (insert edge_limit (ctx_errs ctx)) P"
  shows "yields (rbind (builder_pairs ctx incl (b, s)) f) (insert edge_limit (ctx_errs ctx)) P"
  by (rule yields_bind [OF builder_pairs_yields [of n]]) (use assms in auto)

lemma generate_model_yields:
  assumes v: "topology_Validate c (int n) = Inr ()" "0 < n"
  shows "yields (generate_model M ctx c (new_builder n 1) r) (insert edge_limit (ctx_errs ctx)) (\<lambda>bp. simple_graph n (fst bp))"
proof -
  note b = new_builder_facts [of n "Suc 0"]
  have n: "0 < int n" using v(2) by simp
  have weaken: "yields m (insert edge_limit (ctx_errs ctx)) (\<lambda>bp. simple_graph n (fst bp))"
    if "yields m (ctx_errs ctx) Q" "\<And>x. Q x \<Longrightarrow> simple_graph n (fst x)" for m :: "(builder \<times> Position list option) result" and Q
    using that by (cases m) auto
  consider (er) "tc_Model c = ''er''" | (ws) "tc_Model c = ''ws''" | (ba) "tc_Model c = ''ba''"
    | (rgg) "tc_Model c = ''rgg''" | (wax) "tc_Model c = ''waxman''"
    | (lat) "tc_Model c = ''grid'' \<or> tc_Model c = ''triangular''"
    using topology_Validate_model [OF v(1)] by auto
  then show ?thesis
  proof cases
    case er
    then obtain p where "tc_P c = Some p" using topology_Validate_present(1) [OF v(1) n] by auto
    then show ?thesis using er by (simp add: generate_model_def) (rule generate_pairs [OF b(1)], simp)
  next
    case ws
    obtain k where "tc_K c = Some k" using topology_Validate_ws [OF v(1) ws n] by blast
    then show ?thesis by (rule weaken [OF generate_ws [OF v ws]]) simp
  next
    case ba
    obtain m where "tc_M c = Some m" using topology_Validate_ba [OF v(1) ba n] by blast
    then show ?thesis by (rule weaken [OF generate_ba [OF v ba]]) simp
  next
    case rgg
    then obtain p where "tc_Radius c = Some p" using topology_Validate_present(2) [OF v(1) n] by auto
    then show ?thesis using rgg
      by (simp add: generate_model_def split: prod.splits) (intro allI impI generate_pairs [OF b(1)], simp)
  next
    case wax
    then obtain p q where "tc_Alpha c = Some p" "tc_Beta c = Some q"
      using topology_Validate_present(3) [OF v(1) n] by auto
    then show ?thesis using wax
      by (simp add: generate_model_def split: prod.splits)
        (intro allI impI generate_pairs [OF b(1)], simp, rule generate_pairs, auto)
  next
    case lat
    obtain rows columns where "tc_Rows c = Some rows" "tc_Columns c = Some columns"
      using topology_Validate_lattice [OF v(1) lat n] by blast
    then show ?thesis by (rule weaken [OF generate_lattice [OF v lat]]) auto
  qed
qed

subsection \<open>Exporting the graph\<close>

definition exported :: "nat \<Rightarrow> builder \<Rightarrow> nat list list \<Rightarrow> bool" where
  "exported n b out = (out = map (\<lambda>i. sorted_list_of_set (neighbors b ! i)) [0..<n])"

lemma export_yields:
  assumes "length (neighbors b) = n"
  shows "yields (foldR (export_body ctx) [0..<n] (b, [])) (ctx_errs ctx) (\<lambda>bo. exported n b (snd bo))"
proof -
  have "yields (foldR (export_body ctx) [0..<n] (b, [])) (ctx_errs ctx) (\<lambda>bo. neighbors (fst bo) = neighbors b
      \<and> snd bo = map (\<lambda>i. sorted_list_of_set (neighbors b ! i)) [0..<n])"
  proof (rule yields_foldR [where I = "\<lambda>ys bo. neighbors (fst bo) = neighbors b
      \<and> snd bo = map (\<lambda>i. sorted_list_of_set (neighbors b ! i)) ys"])
    fix ys i zs and bo :: "builder \<times> nat list list"
    assume "[0..<n] = ys @ i # zs" and bo: "neighbors (fst bo) = neighbors b
      \<and> snd bo = map (\<lambda>i. sorted_list_of_set (neighbors b ! i)) ys"
    note R = range_split [OF this(1)]
    show "yields (export_body ctx i bo) (ctx_errs ctx) (\<lambda>bo. neighbors (fst bo) = neighbors b
        \<and> snd bo = map (\<lambda>i. sorted_list_of_set (neighbors b ! i)) (ys @ [i]))"
      using bo R(2) assms by (cases bo) (auto simp: export_body_def ctx_Err_def nbrs_def)
  qed simp
  then show ?thesis by (rule yields_mono) (simp add: exported_def)
qed

lemma exported_edges:
  assumes "simple_graph n b" "exported n b (g_Neighbors g)"
  shows "int (EdgeCount g) = edges b"
proof -
  note D = simple_graphD [OF assms(1)]
  have "int (\<Sum>ns\<leftarrow>g_Neighbors g. length ns) = (\<Sum>u<n. int (card (neighbors b ! u)))"
  proof -
    have "(\<Sum>ns\<leftarrow>g_Neighbors g. length ns) = (\<Sum>u\<leftarrow>[0..<n]. length (sorted_list_of_set (neighbors b ! u)))"
      using assms(2) by (simp add: exported_def comp_def)
    also have "\<dots> = (\<Sum>u<n. card (neighbors b ! u))"
      by (simp add: interv_sum_list_conv_sum_set_nat atLeast0LessThan)
    finally show ?thesis by simp
  qed
  then show ?thesis using D(4) unfolding EdgeCount_def by linarith
qed

lemma exported_mem:
  assumes "simple_graph n b" "exported n b (g_Neighbors g)" "u < n"
  shows "v \<in> set (g_Neighbors g ! u) \<longleftrightarrow> adj b u v"
  using assms simple_graphD(1) [OF assms(1)] simple_graphD(6) [OF assms(1,3)] by (simp add: exported_def adj_def)

lemma GenerateE:
  assumes "Generate M source ctx c n seed = Inr g"
  obtains b positions r where "0 < nat n" "n = int (nat n)" "topology_Validate c (int (nat n)) = Inr ()"
    "generate_model M ctx c (new_builder (nat n) 1) r = Inr (b, positions)" "simple_graph (nat n) b"
    "exported (nat n) b (g_Neighbors g)" "g_Positions g = positions"
proof -
  from assms obtain r b positions b' out where n: "\<not> n < 1" and v: "topology_Validate c n = Inr ()"
    and m: "generate_model M ctx c (new_builder (nat n) 1) r = Inr (b, positions)"
    and e: "foldR (export_body ctx) [0..<nat n] (b, []) = Inr (b', out)"
    and g: "g = \<lparr>g_Neighbors = out, g_Positions = positions\<rparr>"
    by (auto simp: Generate_def rbind_Inr_iff Let_def split: if_splits prod.splits)
  have n': "0 < nat n" "n = int (nat n)" using n by auto
  have s: "simple_graph (nat n) b"
    using generate_model_yields [of c "nat n" M ctx r] n' v m by simp
  moreover have "exported (nat n) b out"
    using export_yields [OF simple_graphD(1) [OF s], of ctx] e by simp
  ultimately show thesis using that [OF n'] v m g n' by simp
qed

end
