(* ===== verification/Topology_Correct.thy ===== *)
theory Topology_Correct
  imports Topology_Generate
begin

text \<open>
  The theorems about \<^verbatim>\<open>topology.Generate\<close>: the shape of every returned graph, the absence of panics, the
  exact edge counts and edge sets of the models, and completion without a cancellation.
\<close>

subsection \<open>Errors\<close>

lemma Validate_no_panic: "topology_Validate c n \<noteq> Inl Panic"
proof
  assume "topology_Validate c n = Inl Panic"
  then show False
    by (auto simp: topology_Validate_defs topology_allowed_def rbind_Inl_iff rbind_Inr_iff
        split: if_splits option.splits)
qed

lemma Generate_errors:
  assumes "Generate M source ctx c n seed = Inl e"
  shows "e \<in> insert edge_limit (ctx_errs ctx) \<or> topology_Validate c n = Inl e
    \<or> n < 1 \<and> e = Fail ''topology requires at least one node''"
proof (cases "ctx 0 \<or> n < 1 \<or> topology_Validate c n = Inl e")
  case True
  then show ?thesis using assms by (auto simp: Generate_def rbind_Inl_iff split: if_splits)
next
  case False
  then obtain r where v: "topology_Validate c n = Inr ()" and n: "0 < n"
    and e: "rbind (generate_model M ctx c (new_builder (nat n) 1) r) (\<lambda>(b, positions).
         rbind (foldR (export_body ctx) [0..<nat n] (b, [])) (\<lambda>(b, out).
         Inr \<lparr>g_Neighbors = out, g_Positions = positions\<rparr>)) = Inl e"
    using assms by (auto simp: Generate_def Let_def rbind_Inl_iff)
  let ?B = "insert edge_limit (ctx_errs ctx)"
  have "yields (generate_model M ctx c (new_builder (nat n) 1) r) ?B (\<lambda>bp. simple_graph (nat n) (fst bp))"
    using generate_model_yields [of c "nat n" M ctx r] v n by simp
  then have "yields (rbind (generate_model M ctx c (new_builder (nat n) 1) r) (\<lambda>(b, positions).
         rbind (foldR (export_body ctx) [0..<nat n] (b, [])) (\<lambda>(b, out).
         Inr \<lparr>g_Neighbors = out, g_Positions = positions\<rparr>))) ?B (\<lambda>_. True)"
  proof (rule yields_bind)
    fix bp :: "builder \<times> Position list option" assume s: "simple_graph (nat n) (fst bp)"
    have "yields (foldR (export_body ctx) [0..<nat n] (fst bp, [])) ?B (\<lambda>_. True)"
      using export_yields [OF simple_graphD(1) [OF s], of ctx]
      by (cases "foldR (export_body ctx) [0..<nat n] (fst bp, [])") auto
    then have "yields (rbind (foldR (export_body ctx) [0..<nat n] (fst bp, [])) (\<lambda>(b, out).
         Inr \<lparr>g_Neighbors = out, g_Positions = snd bp\<rparr>)) ?B (\<lambda>_. True)"
      by (rule yields_bind) (simp split: prod.splits)
    then show "yields (case bp of (b, positions) \<Rightarrow> rbind (foldR (export_body ctx) [0..<nat n] (b, []))
        (\<lambda>(b, out). Inr \<lparr>g_Neighbors = out, g_Positions = positions\<rparr>)) ?B (\<lambda>_. True)"
      by (cases bp) simp
  qed
  then have "e \<in> ?B" by (rule yields_Inl) (rule e)
  then show ?thesis by simp
qed

subsection \<open>What each model returns\<close>

lemma GenerateE':
  assumes "Generate M source ctx c (int n) seed = Inr g"
  obtains b positions r where "0 < n" "topology_Validate c (int n) = Inr ()"
    "generate_model M ctx c (new_builder n 1) r = Inr (b, positions)" "simple_graph n b"
    "exported n b (g_Neighbors g)" "g_Positions g = positions"
  using assms by (rule GenerateE) (use that in simp)

lemma Generate_nat: "Generate M source ctx c n seed = Inr g \<Longrightarrow> n = int (nat n)"
  by (erule GenerateE) simp

lemma generate_rgg:
  assumes "tc_Model c = ''rgg''" "tc_Radius c = Some radius"
  shows "yields (generate_model M ctx c (new_builder n 1) r) (insert edge_limit (ctx_errs ctx))
    (\<lambda>(b, ps). simple_graph n b \<and> ps = Some (fst (draw_positions n r)) \<and> (\<forall>x y. adj b x y \<longleftrightarrow>
       x < y \<and> y < n \<and> f_le (distance M (fst (draw_positions n r) ! x) (fst (draw_positions n r) ! y)) radius
       \<or> y < x \<and> x < n \<and> f_le (distance M (fst (draw_positions n r) ! y) (fst (draw_positions n r) ! x)) radius))"
proof -
  let ?ps = "fst (draw_positions n r)"
  note b = new_builder_facts [of n 1]
  have P: "rgg_include M ?ps radius = (\<lambda>u v s. (f_le (distance M (?ps ! u) (?ps ! v)) radius, s))"
    by (simp add: rgg_include_def fun_eq_iff)
  have "yields (rbind (builder_pairs ctx (rgg_include M ?ps radius) (new_builder n 1, ())) (\<lambda>(b, _). Inr (b, Some ?ps)))
    (insert edge_limit (ctx_errs ctx)) (\<lambda>(b, ps). simple_graph n b \<and> ps = Some ?ps \<and> (\<forall>x y. adj b x y \<longleftrightarrow>
       x < y \<and> y < n \<and> f_le (distance M (?ps ! x) (?ps ! y)) radius
       \<or> y < x \<and> x < n \<and> f_le (distance M (?ps ! y) (?ps ! x)) radius))"
    unfolding P by (rule yields_bind [OF builder_pairs_exact [of n]]) (use b in auto)
  then show ?thesis using assms b(4)
    by (cases "draw_positions n r") (simp add: generate_model_def)
qed

lemma draw_positions_length: "length (fst (draw_positions n r)) = n"
proof (induction n arbitrary: r)
  case (Suc n)
  then show ?case by (auto simp: Let_def split: prod.splits) (metis fst_conv)
qed simp

lemma generate_completes:
  assumes v: "topology_Validate c (int n) = Inr ()" "0 < n"
    and m: "tc_Model c \<in> {''ws'', ''ba'', ''grid'', ''triangular''}"
  shows "yields (generate_model M ctx c (new_builder n 1) r) (ctx_errs ctx) (\<lambda>bp. simple_graph n (fst bp))"
proof -
  have n: "0 < int n" using v(2) by simp
  consider (ws) "tc_Model c = ''ws''" | (ba) "tc_Model c = ''ba''"
    | (lat) "tc_Model c = ''grid'' \<or> tc_Model c = ''triangular''"
    using m by auto
  then show ?thesis
  proof cases
    case ws
    obtain k where "tc_K c = Some k" using topology_Validate_ws [OF v(1) ws n] by blast
    from generate_ws [OF v ws this] show ?thesis by (rule yields_mono) simp
  next
    case ba
    obtain m where "tc_M c = Some m" using topology_Validate_ba [OF v(1) ba n] by blast
    from generate_ba [OF v ba this] show ?thesis by (rule yields_mono) simp
  next
    case lat
    obtain rows columns where "tc_Rows c = Some rows" "tc_Columns c = Some columns"
      using topology_Validate_lattice [OF v(1) lat n] by blast
    from generate_lattice [OF v lat this] show ?thesis by (rule yields_mono) auto
  qed
qed

lemma Generate_total:
  assumes "topology_Validate c n = Inr ()" "1 \<le> n" "tc_Model c \<in> {''ws'', ''ba'', ''grid'', ''triangular''}"
  shows "\<exists>g. Generate M source (\<lambda>_. False) c n seed = Inr g"
proof -
  define m where "m = nat n"
  have n: "n = int m" "0 < m" using assms(2) by (auto simp: m_def)
  define r where "r = \<lparr>tape = source (case tc_Seed c of Some s \<Rightarrow> s | None \<Rightarrow> seed), pos = 0\<rparr>"
  from generate_completes [of c m M "\<lambda>_. False" r] assms n
  obtain b ps where g: "generate_model M (\<lambda>_. False) c (new_builder m 1) r = Inr (b, ps)" "simple_graph m b"
    by (cases "generate_model M (\<lambda>_. False) c (new_builder m 1) r") auto
  from export_yields [OF simple_graphD(1) [OF g(2)], of "\<lambda>_. False"]
  obtain b' out where "foldR (export_body (\<lambda>_. False)) [0..<m] (b, []) = Inr (b', out)"
    by (cases "foldR (export_body (\<lambda>_. False)) [0..<m] (b, [])") auto
  then show ?thesis using g(1) assms(1,2) n by (auto simp: Generate_def r_def Let_def)
qed

subsection \<open>Examples for the witnesses\<close>

definition ex_math :: math_fns where
  "ex_math = \<lparr>m_Hypot = (\<lambda>a b. f_max a (f_max (f_neg a) (f_max b (f_neg b)))), m_Exp = (\<lambda>_. Fin 1)\<rparr>"

definition ex_source :: "int \<Rightarrow> nat \<Rightarrow> int" where
  "ex_source seed k = seed + int k"

definition ex_topology :: "string \<Rightarrow> TopologyConfig" where
  "ex_topology model = \<lparr>tc_Model = model, tc_Seed = None, tc_P = None, tc_K = None, tc_M = None,
     tc_Radius = None, tc_Alpha = None, tc_Beta = None, tc_Rows = None, tc_Columns = None\<rparr>"

abbreviation ex_ws :: TopologyConfig where
  "ex_ws \<equiv> (ex_topology ''ws'')\<lparr>tc_P := Some (Fin 1), tc_K := Some 2\<rparr>"

abbreviation ex_ba :: TopologyConfig where
  "ex_ba \<equiv> (ex_topology ''ba'')\<lparr>tc_M := Some 2\<rparr>"

abbreviation ex_rgg :: TopologyConfig where
  "ex_rgg \<equiv> (ex_topology ''rgg'')\<lparr>tc_Radius := Some (Fin 1)\<rparr>"

abbreviation ex_tri :: TopologyConfig where
  "ex_tri \<equiv> (ex_topology ''triangular'')\<lparr>tc_Rows := Some 2, tc_Columns := Some 2\<rparr>"

subsection \<open>Properties\<close>

text \<open>
  C5. A graph returned by \<^verbatim>\<open>Generate\<close> is a simple undirected graph on the \<open>n\<close> requested nodes: one
  neighbour list per node, each strictly increasing, without the node itself, within range, and
  symmetric; and the number of edges is within the limit.
\<close>

theorem Generate_simple_graph:
  assumes "Generate M source ctx c n seed = Inr g"
  shows "int (length (g_Neighbors g)) = n \<and> int (EdgeCount g) \<le> MaxTopologyEdges
    \<and> (\<forall>u < length (g_Neighbors g). sorted_wrt (<) (g_Neighbors g ! u)
        \<and> (\<forall>v \<in> set (g_Neighbors g ! u). v < length (g_Neighbors g) \<and> v \<noteq> u \<and> u \<in> set (g_Neighbors g ! v)))"
proof -
  define m where "m = nat n"
  from assms obtain b where n: "n = int m" and s: "simple_graph m b"
    and e: "exported m b (g_Neighbors g)" unfolding m_def by (rule GenerateE)
  have len: "length (g_Neighbors g) = m" using e by (simp add: exported_def)
  have "int (length (g_Neighbors g)) = n" using len n by simp
  moreover have "int (EdgeCount g) \<le> MaxTopologyEdges"
    using exported_edges [OF s e] simple_graphD(5) [OF s] by (simp add: MaxEdges_def)
  moreover have "sorted_wrt (<) (g_Neighbors g ! u)" if "u < m" for u
    using e that by (simp add: exported_def)
  moreover have "v < m \<and> v \<noteq> u \<and> u \<in> set (g_Neighbors g ! v)"
    if "u < m" "v \<in> set (g_Neighbors g ! u)" for u v
  proof -
    have "adj b u v" using that exported_mem [OF s e] by simp
    note A = simple_graph_adj [OF s this]
    then show ?thesis using exported_mem [OF s e A(2)] by auto
  qed
  ultimately show ?thesis unfolding len by blast
qed

theorem Generate_simple_graph_witness:
  "\<exists>g. Generate ex_math ex_source (\<lambda>_. False) ex_ws 5 7 = Inr g \<and> int (length (g_Neighbors g)) = 5"
proof -
  have "\<exists>g. Generate ex_math ex_source (\<lambda>_. False) ex_ws 5 7 = Inr g" by (rule returns) code_simp
  then show ?thesis using Generate_simple_graph [of ex_math ex_source "\<lambda>_. False" ex_ws 5 7] by blast
qed

text \<open>
  C6. \<^verbatim>\<open>Generate\<close> never panics: for every configuration (valid or not), node count, seed, random source
  and context, no index is out of range, no nil field is read and no random draw has an empty range.
\<close>

theorem Generate_no_panic: "Generate M source ctx c n seed \<noteq> Inl Panic"
proof
  assume "Generate M source ctx c n seed = Inl Panic"
  from Generate_errors [OF this] show False using Validate_no_panic by (auto simp: edge_limit_def)
qed

text \<open>
  C7. The Watts-Strogatz model returns exactly \<open>n * k / 2\<close> edges, whatever the rewiring probability:
  rewiring moves edges and never loses or duplicates one.
\<close>

theorem Generate_ws_edges:
  assumes "Generate M source ctx c n seed = Inr g" "tc_Model c = ''ws''" "tc_K c = Some k"
  shows "int (EdgeCount g) = n * k div 2"
proof -
  define m where "m = nat n"
  have n: "n = int m" using Generate_nat [OF assms(1)] by (simp add: m_def)
  from assms(1) [unfolded n] obtain b positions r where v: "0 < m" "topology_Validate c (int m) = Inr ()"
    "generate_model M ctx c (new_builder m 1) r = Inr (b, positions)" "simple_graph m b"
    "exported m b (g_Neighbors g)" by (rule GenerateE')
  have "edges b = int m * k div 2" using generate_ws [OF v(2,1) assms(2,3), of M ctx r] v(3) by simp
  then show ?thesis using exported_edges [OF v(4,5)] n by simp
qed

theorem Generate_ws_edges_witness:
  "\<exists>g. Generate ex_math ex_source (\<lambda>_. False) ex_ws 5 7 = Inr g \<and> int (EdgeCount g) = 5"
proof -
  have "\<exists>g. Generate ex_math ex_source (\<lambda>_. False) ex_ws 5 7 = Inr g" by (rule returns) code_simp
  then obtain g where "Generate ex_math ex_source (\<lambda>_. False) ex_ws 5 7 = Inr g" by blast
  with Generate_ws_edges [OF this, of 2] show ?thesis by (simp add: ex_topology_def)
qed

text \<open>
  The Barabasi-Albert model returns exactly \<open>m * (n - m)\<close> edges: every new node is linked to \<open>m\<close>
  distinct earlier nodes.
\<close>

theorem Generate_ba_edges:
  assumes "Generate M source ctx c n seed = Inr g" "tc_Model c = ''ba''" "tc_M c = Some m"
  shows "int (EdgeCount g) = m * (n - m)"
proof -
  define k where "k = nat n"
  have n: "n = int k" using Generate_nat [OF assms(1)] by (simp add: k_def)
  from assms(1) [unfolded n] obtain b positions r where v: "0 < k" "topology_Validate c (int k) = Inr ()"
    "generate_model M ctx c (new_builder k 1) r = Inr (b, positions)" "simple_graph k b"
    "exported k b (g_Neighbors g)" by (rule GenerateE')
  have "edges b = m * (int k - m)" using generate_ba [OF v(2,1) assms(2,3), of M ctx r] v(3) by simp
  then show ?thesis using exported_edges [OF v(4,5)] n by simp
qed

theorem Generate_ba_edges_witness:
  "\<exists>g. Generate ex_math ex_source (\<lambda>_. False) ex_ba 5 7 = Inr g \<and> int (EdgeCount g) = 6"
proof -
  have "\<exists>g. Generate ex_math ex_source (\<lambda>_. False) ex_ba 5 7 = Inr g" by (rule returns) code_simp
  then obtain g where "Generate ex_math ex_source (\<lambda>_. False) ex_ba 5 7 = Inr g" by blast
  with Generate_ba_edges [OF this, of 2] show ?thesis by (simp add: ex_topology_def)
qed

text \<open>
  C8. The lattice models link node \<open>r * columns + c\<close> to exactly its right and lower neighbours and, for
  the triangular lattice, to one diagonal neighbour that depends on the parity of the row; the number
  of edges is the corresponding closed form.
\<close>

theorem Generate_lattice_links:
  assumes "Generate M source ctx cfg n seed = Inr g" "tc_Model cfg = ''grid'' \<or> tc_Model cfg = ''triangular''"
    and "tc_Rows cfg = Some (int rows)" "tc_Columns cfg = Some (int columns)"
    and "r < rows" "c < columns" "r' < rows" "c' < columns"
  shows "EdgeCount g = lattice_size rows columns (tc_Model cfg = ''triangular'')
    \<and> (r' * columns + c' \<in> set (g_Neighbors g ! (r * columns + c)) \<longleftrightarrow>
        lattice_link (tc_Model cfg = ''triangular'') (r, c) (r', c')
        \<or> lattice_link (tc_Model cfg = ''triangular'') (r', c') (r, c))"
proof -
  define k where "k = nat n"
  have n: "n = int k" using Generate_nat [OF assms(1)] by (simp add: k_def)
  from assms(1) [unfolded n] obtain b positions rg where v: "0 < k" "topology_Validate cfg (int k) = Inr ()"
    "generate_model M ctx cfg (new_builder k 1) rg = Inr (b, positions)" "simple_graph k b"
    "exported k b (g_Neighbors g)" by (rule GenerateE')
  have "rows * columns = k"
    by (rule topology_Validate_lattice [OF v(2) assms(2)])
      (use v(1) assms(3,4) in \<open>auto simp: of_nat_mult [symmetric] simp del: of_nat_mult\<close>)
  moreover have "r * columns + c < rows * columns"
    using assms(5,6) by (rule cell_less)
  ultimately have u: "r * columns + c < k" by simp
  from generate_lattice [OF v(2,1) assms(2-4), of M ctx rg] v(3) obtain p where
    inv: "lattice_inv rows columns (tc_Model cfg = ''triangular'') (nested_range [0..<rows] (\<lambda>_. [0..<columns])) (b, p)"
    by auto
  show ?thesis
    using lattice_inv_final(1) [OF inv] lattice_inv_final(2) [OF inv assms(5-8)]
      exported_edges [OF v(4,5)] exported_mem [OF v(4,5) u] by simp
qed

theorem Generate_lattice_links_witness:
  "\<exists>g. Generate ex_math ex_source (\<lambda>_. False) ex_tri 4 7 = Inr g \<and> EdgeCount g = 5
    \<and> 2 \<in> set (g_Neighbors g ! 1) \<and> \<not> 3 \<in> set (g_Neighbors g ! 0)"
proof -
  have "topology_Validate ex_tri 4 = Inr ()" by code_simp
  then have "\<exists>g. Generate ex_math ex_source (\<lambda>_. False) ex_tri 4 7 = Inr g"
    by (rule Generate_total) (auto simp: ex_topology_def)
  then obtain g where g: "Generate ex_math ex_source (\<lambda>_. False) ex_tri 4 7 = Inr g" by blast
  show ?thesis
    using Generate_lattice_links [OF g, of 2 2 0 1 1 0] Generate_lattice_links [OF g, of 2 2 0 0 1 1] g
    by (simp add: ex_topology_def lattice_link_def lattice_size_def)
qed

text \<open>
  A random geometric graph links exactly the pairs of nodes whose distance is at most the radius,
  at the positions it returns.
\<close>

theorem Generate_rgg_links:
  assumes "Generate M source ctx c n seed = Inr g" "tc_Model c = ''rgg''" "tc_Radius c = Some radius"
    and "g_Positions g = Some ps"
    and "u < v" "int v < n"
  shows "length ps = nat n \<and> (v \<in> set (g_Neighbors g ! u) \<longleftrightarrow> f_le (distance M (ps ! u) (ps ! v)) radius)"
proof -
  define k where "k = nat n"
  have n: "n = int k" using Generate_nat [OF assms(1)] by (simp add: k_def)
  from assms(1) [unfolded n] obtain b positions r where V: "0 < k" "topology_Validate c (int k) = Inr ()"
    "generate_model M ctx c (new_builder k 1) r = Inr (b, positions)" "simple_graph k b"
    "exported k b (g_Neighbors g)" "g_Positions g = positions" by (rule GenerateE')
  from generate_rgg [OF assms(2,3), of M ctx k r] V(3) assms(4) V(6) have "ps = fst (draw_positions k r)"
    and "adj b u v \<longleftrightarrow> f_le (distance M (ps ! u) (ps ! v)) radius"
    using assms(5,6) n by auto
  then show ?thesis using exported_mem [OF V(4,5)] assms(5,6) n by (simp add: draw_positions_length)
qed

theorem Generate_rgg_links_witness:
  "\<exists>g ps. Generate ex_math ex_source (\<lambda>_. False) ex_rgg 2 7 = Inr g \<and> g_Positions g = Some ps
    \<and> length ps = 2 \<and> (1 \<in> set (g_Neighbors g ! 0) \<longleftrightarrow> f_le (distance ex_math (ps ! 0) (ps ! 1)) (Fin 1))"
proof -
  have "(case Generate ex_math ex_source (\<lambda>_. False) ex_rgg 2 7 of Inr g \<Rightarrow> g_Positions g \<noteq> None | _ \<Rightarrow> False)"
    by code_simp
  then obtain g ps where g: "Generate ex_math ex_source (\<lambda>_. False) ex_rgg 2 7 = Inr g" and "g_Positions g = Some ps"
    by (auto split: sum.splits)
  with Generate_rgg_links [OF g, of "Fin 1" ps 0 1] g show ?thesis by (auto simp: ex_topology_def)
qed

text \<open>
  C9. A valid Watts-Strogatz, Barabasi-Albert or lattice request whose context is never cancelled
  completes with a graph, for every random source: the rejection loops end and the edge limit, which
  validation has estimated, is not reached.
\<close>

theorem Generate_completes:
  assumes "topology_Validate c n = Inr ()" "1 \<le> n" "tc_Model c \<in> {''ws'', ''ba'', ''grid'', ''triangular''}"
  shows "\<exists>g. Generate M source (\<lambda>_. False) c n seed = Inr g"
  using assms by (rule Generate_total)

theorem Generate_completes_witness: "\<exists>g. Generate ex_math ex_source (\<lambda>_. False) ex_ba 5 7 = Inr g"
proof -
  have "topology_Validate ex_ba 5 = Inr ()" by code_simp
  from Generate_completes [OF this] show ?thesis by (simp add: ex_topology_def)
qed

end
