(* ===== verification/Go_Bytes.thy ===== *)
theory Go_Bytes
  imports KPL_Prelude "HOL-Library.List_Lexorder" "HOL-Library.Char_ord"
begin

unbundle bit_operations_syntax

text \<open>
  Bytes of the Go standard library as the modelled code uses them: \<^verbatim>\<open>encoding/binary\<close> big-endian
  integers, \<^verbatim>\<open>hash/crc32\<close>, decimal printing and parsing, and lines ended by a newline.
\<close>

type_synonym byte = "8 word"
type_synonym bytes = "byte list"

text \<open>\<^verbatim>\<open>[]byte(s)\<close> of an ASCII string.\<close>

definition str_bytes :: "string \<Rightarrow> bytes" where
  "str_bytes s = map of_char s"

subsection \<open>Big-endian integers\<close>

text \<open>\<open>put_be k v\<close>: the \<open>k\<close> bytes that \<^verbatim>\<open>PutUint32\<close> (\<open>k = 4\<close>) and \<^verbatim>\<open>PutUint64\<close> (\<open>k = 8\<close>) write.\<close>

definition put_be :: "nat \<Rightarrow> int \<Rightarrow> bytes" where
  "put_be k v = map (\<lambda>i. word_of_int (v div 256 ^ i)) (rev [0..<k])"

definition get_be :: "bytes \<Rightarrow> int" where
  "get_be bs = foldl (\<lambda>a b. a * 256 + uint b) 0 bs"

lemma length_put_be [simp]: "length (put_be k v) = k"
  by (simp add: put_be_def)

lemma put_be_Suc: "put_be (Suc k) v = word_of_int (v div 256 ^ k) # put_be k v"
  by (simp add: put_be_def)

lemma foldl_be: "foldl (\<lambda>a b. a * 256 + uint (b :: byte)) a bs = a * 256 ^ length bs + get_be bs"
proof (induction bs arbitrary: a rule: rev_induct)
  case (snoc b bs)
  have "get_be (bs @ [b]) = get_be bs * 256 + uint b" by (simp add: get_be_def)
  then show ?case using snoc.IH [of a] by (simp only: foldl_append foldl_Cons foldl_Nil) (simp add: algebra_simps)
qed (simp add: get_be_def)

lemma get_be_Cons: "get_be (b # bs) = uint b * 256 ^ length bs + get_be bs"
  using foldl_be [of "uint b" bs] by (simp add: get_be_def)

lemma get_put_be: "get_be (put_be k v) = v mod 256 ^ k"
proof (induction k)
  case (Suc k)
  have "uint (word_of_int (v div 256 ^ k) :: byte) = v div 256 ^ k mod 256"
    by (simp add: uint_word_of_int)
  then have "get_be (put_be (Suc k) v) = v div 256 ^ k mod 256 * 256 ^ k + v mod 256 ^ k"
    using Suc by (simp add: put_be_Suc get_be_Cons)
  also have "\<dots> = v mod (256 ^ k * 256)"
    by (subst zmod_zmult2_eq) simp_all
  finally show ?case by (simp add: mult.commute)
qed (simp add: put_be_def get_be_def)

subsection \<open>CRC-32\<close>

text \<open>\<^verbatim>\<open>crc32.ChecksumIEEE\<close>, bit by bit with the reversed polynomial.\<close>

definition crc_bit :: "32 word \<Rightarrow> 32 word" where
  "crc_bit c = (if c AND 1 = 1 then (drop_bit 1 c) XOR 0xEDB88320 else drop_bit 1 c)"

definition crc_byte :: "32 word \<Rightarrow> byte \<Rightarrow> 32 word" where
  "crc_byte c b = (crc_bit ^^ 8) (c XOR ucast b)"

definition ChecksumIEEE :: "bytes \<Rightarrow> 32 word" where
  "ChecksumIEEE bs = (foldl crc_byte 0xFFFFFFFF bs) XOR 0xFFFFFFFF"

subsection \<open>Decimal numbers\<close>

definition digit_char :: "int \<Rightarrow> char" where
  "digit_char d = (''0123456789'' ! nat d)"

text \<open>\<^verbatim>\<open>%0kd\<close> of a non-negative integer below \<open>10 ^ k\<close>.\<close>

definition dec_pad :: "nat \<Rightarrow> int \<Rightarrow> string" where
  "dec_pad k v = map (\<lambda>i. digit_char (v div 10 ^ i mod 10)) (rev [0..<k])"

lemma length_dec_pad [simp]: "length (dec_pad k v) = k"
  by (simp add: dec_pad_def)

lemma dec_pad_Suc: "dec_pad (Suc k) v = digit_char (v div 10 ^ k mod 10) # dec_pad k v"
  by (simp add: dec_pad_def)

lemma dec_pad_mod: "dec_pad k (v mod 10 ^ k) = dec_pad k v"
proof -
  have "v mod 10 ^ k div 10 ^ i mod 10 = v div 10 ^ i mod 10" if "i < k" for i
  proof -
    have "(10 :: int) ^ k = 10 ^ i * (10 * 10 ^ (k - Suc i))"
      using that by (simp flip: power_add power_Suc)
    then have "v mod 10 ^ k = 10 ^ i * (v div 10 ^ i mod (10 * 10 ^ (k - Suc i))) + v mod 10 ^ i"
      by (simp add: zmod_zmult2_eq)
    then have "v mod 10 ^ k div 10 ^ i = v div 10 ^ i mod (10 * 10 ^ (k - Suc i))"
      by (simp add: div_add1_eq)
    then show ?thesis by (simp add: mod_mod_cancel)
  qed
  then show ?thesis by (simp add: dec_pad_def)
qed

lemma digit_cases: "0 \<le> d \<Longrightarrow> d < 10 \<Longrightarrow> d \<in> {0, 1, 2, 3, 4, 5, 6, 7, 8, 9 :: int}"
  by simp presburger

lemma digit_less:
  assumes "a < b" "0 \<le> a" "b < 10"
  shows "digit_char a < digit_char b"
proof -
  have "a \<in> {0, 1, 2, 3, 4, 5, 6, 7, 8, 9}" "b \<in> {0, 1, 2, 3, 4, 5, 6, 7, 8, 9}"
    using assms by (intro digit_cases; simp)+
  then show ?thesis using assms(1) by (auto simp: digit_char_def less_char_def)
qed

text \<open>Zero-padded decimals of one width are ordered as their values, whatever follows them.\<close>

lemma dec_pad_less:
  "0 \<le> a \<Longrightarrow> a < b \<Longrightarrow> b < 10 ^ k \<Longrightarrow> dec_pad k a @ xs < dec_pad k b @ ys"
proof (induction k arbitrary: a b)
  case (Suc k)
  have "b = b div 10 ^ k * 10 ^ k + b mod 10 ^ k" "0 \<le> b mod 10 ^ k"
    by (rule div_mult_mod_eq [symmetric]) simp
  then have "b div 10 ^ k * 10 ^ k \<le> b" by linarith
  also have "b < 10 * 10 ^ k" using Suc.prems(3) by simp
  finally have "b div 10 ^ k < 10" by (rule mult_right_less_imp_less) simp
  then have q: "a div 10 ^ k \<le> b div 10 ^ k" "0 \<le> a div 10 ^ k" "b div 10 ^ k < 10"
    using Suc.prems by (simp_all add: zdiv_mono1 pos_imp_zdiv_nonneg_iff)
  show ?case
  proof (cases "a div 10 ^ k = b div 10 ^ k")
    case True
    have "a mod 10 ^ k < b mod 10 ^ k"
      using Suc.prems(2) True by (metis mult_div_mod_eq add_less_cancel_left)
    then have "dec_pad k (a mod 10 ^ k) @ xs < dec_pad k (b mod 10 ^ k) @ ys" by (intro Suc.IH) simp_all
    then show ?thesis using True by (simp add: dec_pad_Suc dec_pad_mod)
  next
    case False
    then have "digit_char (a div 10 ^ k) < digit_char (b div 10 ^ k)" using q by (intro digit_less) auto
    then show ?thesis using q by (simp add: dec_pad_Suc)
  qed
qed simp

text \<open>\<^verbatim>\<open>strconv.ParseInt(s, 10, 64)\<close>; \<open>None\<close> is a syntax or range error. \<^verbatim>\<open>strconv.Atoi\<close> agrees with it.\<close>

definition digit_val :: "char \<Rightarrow> int option" where
  "digit_val c = (let v = (of_char c :: int) in if 48 \<le> v \<and> v \<le> 57 then Some (v - 48) else None)"

fun parse_digits :: "int \<Rightarrow> string \<Rightarrow> int option" where
  "parse_digits acc [] = Some acc"
| "parse_digits acc (c # cs) =
     (case digit_val c of None \<Rightarrow> None | Some d \<Rightarrow> parse_digits (acc * 10 + d) cs)"

definition ParseInt :: "string \<Rightarrow> int option" where
  "ParseInt s =
     (let neg = (s \<noteq> '''' \<and> hd s = CHR ''-'');
          body = (if s \<noteq> '''' \<and> (hd s = CHR ''-'' \<or> hd s = CHR ''+'') then tl s else s)
      in if body = '''' then None
         else case parse_digits 0 body of None \<Rightarrow> None
              | Some v \<Rightarrow> let r = (if neg then - v else v)
                         in if - (2 ^ 63) \<le> r \<and> r < 2 ^ 63 then Some r else None)"

text \<open>\<^verbatim>\<open>strconv.Itoa\<close> of a non-negative integer.\<close>

fun itoa_loop :: "nat \<Rightarrow> int \<Rightarrow> string \<Rightarrow> string" where
  "itoa_loop 0 v acc = acc"
| "itoa_loop (Suc fuel) v acc =
     (let acc' = digit_char (v mod 10) # acc in if v < 10 then acc' else itoa_loop fuel (v div 10) acc')"

definition Itoa :: "int \<Rightarrow> string" where
  "Itoa v = itoa_loop 20 v []"

lemma digit_val_digit: "0 \<le> d \<Longrightarrow> d < 10 \<Longrightarrow> digit_val (digit_char d) = Some d"
proof -
  assume "0 \<le> d" "d < 10"
  then have "d \<in> {0, 1, 2, 3, 4, 5, 6, 7, 8, 9}" by (rule digit_cases)
  then show ?thesis by (auto simp: digit_val_def digit_char_def)
qed

lemma digit_not_sign: "0 \<le> d \<Longrightarrow> d < 10 \<Longrightarrow> digit_char d \<noteq> CHR ''-'' \<and> digit_char d \<noteq> CHR ''+''"
proof -
  assume "0 \<le> d" "d < 10"
  then have "d \<in> {0, 1, 2, 3, 4, 5, 6, 7, 8, 9}" by (rule digit_cases)
  then show ?thesis by (auto simp: digit_char_def)
qed

lemma parse_digits_dec_pad: "parse_digits acc (dec_pad k v) = Some (acc * 10 ^ k + v mod 10 ^ k)"
proof (induction k arbitrary: acc)
  case (Suc k)
  have "v mod (10 ^ k * 10) = v div 10 ^ k mod 10 * 10 ^ k + v mod 10 ^ k"
    by (subst zmod_zmult2_eq) simp_all
  then have "v mod 10 ^ Suc k = v div 10 ^ k mod 10 * 10 ^ k + v mod 10 ^ k" by (simp add: mult.commute)
  then show ?case using Suc by (simp add: dec_pad_Suc digit_val_digit algebra_simps)
qed (simp add: dec_pad_def)

text \<open>Parsing undoes the zero-padded printing of a non-negative 64-bit number.\<close>

lemma ParseInt_dec_pad:
  assumes "0 \<le> v" "v < 10 ^ k" "v < 2 ^ 63" "0 < k"
  shows "ParseInt (dec_pad k v) = Some v"
proof -
  obtain j where k: "k = Suc j" using assms(4) by (cases k) auto
  have hd: "dec_pad k v \<noteq> []" "hd (dec_pad k v) \<noteq> CHR ''-''" "hd (dec_pad k v) \<noteq> CHR ''+''"
    using digit_not_sign [of "v div 10 ^ j mod 10"] by (auto simp: k dec_pad_Suc)
  show ?thesis using assms hd parse_digits_dec_pad [of 0 k v] by (simp add: ParseInt_def)
qed

subsection \<open>Lines\<close>

definition newline :: byte where "newline = 10"

text \<open>
  \<^verbatim>\<open>reader.ReadBytes('\n')\<close>: the bytes up to and including the delimiter, or all of them at the end of
  the file. \<open>split_lines\<close> is the sequence of such reads: the complete lines without their newline, and
  the unterminated rest.
\<close>

fun split_lines :: "bytes \<Rightarrow> bytes list \<times> bytes" where
  "split_lines [] = ([], [])"
| "split_lines (b # bs) =
     (let (ls, rest) = split_lines bs in
      if b = newline then ([] # ls, rest)
      else case ls of [] \<Rightarrow> ([], b # rest) | l # ls' \<Rightarrow> ((b # l) # ls', rest))"

lemma split_lines_rest: "newline \<notin> set bs \<Longrightarrow> split_lines bs = ([], bs)"
  by (induction bs) auto

lemma split_lines_line: "newline \<notin> set l \<Longrightarrow> split_lines (l @ newline # bs) =
    (let (ls, rest) = split_lines bs in (l # ls, rest))"
  by (induction l) (auto simp: Let_def split: prod.splits)

lemma split_lines_concat:
  assumes "\<forall>l\<in>set ls. newline \<notin> set l" "newline \<notin> set rest"
  shows "split_lines (concat (map (\<lambda>l. l @ [newline]) ls) @ rest) = (ls, rest)"
  using assms by (induction ls) (auto simp: split_lines_rest split_lines_line)

end
