(* ===== verification/Telemetry_Spool.thy ===== *)
theory Telemetry_Spool
  imports Go_Bytes "HOL-Library.AList"
begin

text \<open>
  The durable telemetry queue of an Agent: \<^verbatim>\<open>internal/agent/telemetry_spool.go\<close>, \<^verbatim>\<open>telemetry_log.go\<close> and
  \<^verbatim>\<open>telemetry_window.go\<close>.

  The spool directory is an association list from file names to contents. Every file system call
  consults the environment, which may make it fail, and a write may stop after any number of bytes.
  The state reached when a call fails is also the state a crash at that point leaves behind (writes
  reach the disk in the order of the calls). Temporary files of \<^verbatim>\<open>os.CreateTemp\<close> are not represented:
  their names do not end in .json or .jsonl, so that no code reads them back.

  A \<^verbatim>\<open>*telemetrySegment\<close> is the segment's file name, looked up in the heap \<open>sp_segments\<close>; file names are
  unique within a spool. JSON encoding and decoding are the fields of a \<open>codec\<close>.
\<close>

subsection \<open>Environment, disk and sequencing\<close>

datatype fault = IOk | IErr | IShort nat

record env =
  e_fault :: "nat \<Rightarrow> fault"
  e_now :: "nat \<Rightarrow> int"
  e_text :: "nat \<Rightarrow> string"

text \<open>
  The streaming decoder of \<^verbatim>\<open>encoding/json\<close> on a file that should hold one array: the raw items with the
  input offset after each, and how the array ends.
\<close>

datatype array_end = EndErr | EndTrailing | EndOk
datatype array_scan = ScanErr | ScanNotArray | ScanItems "(bytes \<times> int) list" array_end

record 'e codec =
  Marshal :: "'e \<Rightarrow> bytes result"
  Marshal_string :: "string \<Rightarrow> bytes result"
  Unmarshal_run :: "bytes \<Rightarrow> string result"
  Decode :: "bytes \<Rightarrow> 'e result"
  Valid :: "bytes \<Rightarrow> bool"
  Scan :: "bytes \<Rightarrow> array_scan"
  RunID :: "'e \<Rightarrow> string"

record telemetrySegment =
  sg_count :: nat
  sg_ack :: nat
  sg_size :: int
  sg_ackBytes :: int

record telemetryRecord =
  tr_segment :: string
  tr_offset :: int
  tr_size :: int
  tr_runID :: string

record telemetrySpool =
  sp_records :: "telemetryRecord list"
  sp_bytes :: int
  sp_lastStamp :: int
  sp_cleanup :: "string option"
  sp_active :: "string option"
  sp_formatReady :: bool
  sp_segments :: "string \<Rightarrow> telemetrySegment"

record world =
  files :: "(string \<times> bytes) list"
  ops :: nat
  sp :: telemetrySpool

type_synonym 'a act = "world \<Rightarrow> 'a result \<times> world"

definition ok :: "'a \<Rightarrow> 'a act" where
  "ok x w = (Inr x, w)"

definition raise :: "go_err \<Rightarrow> 'a act" where
  "raise e w = (Inl e, w)"

definition andThen :: "'a act \<Rightarrow> ('a \<Rightarrow> 'b act) \<Rightarrow> 'b act" where
  "andThen m f w = (case m w of (Inl e, w') \<Rightarrow> (Inl e, w') | (Inr x, w') \<Rightarrow> f x w')"

definition attempt :: "'a result \<Rightarrow> 'a act" where
  "attempt r w = (r, w)"

definition set_sp :: "(telemetrySpool \<Rightarrow> telemetrySpool) \<Rightarrow> unit act" where
  "set_sp f w = (Inr (), w\<lparr>sp := f (sp w)\<rparr>)"

text \<open>One file system call: its outcome is the environment's, its effect \<open>f\<close> applies on success.\<close>

definition io_error :: go_err where "io_error = Fail ''i/o error''"
definition ErrNotExist :: go_err where "ErrNotExist = Fail ''file does not exist''"

definition sys :: "env \<Rightarrow> (world \<Rightarrow> 'a result \<times> world) \<Rightarrow> 'a act" where
  "sys E f w =
     (let w' = w\<lparr>ops := Suc (ops w)\<rparr>
      in if e_fault E (ops w) = IOk then f w' else (Inl io_error, w'))"

definition put_file :: "string \<Rightarrow> bytes \<Rightarrow> unit act" where
  "put_file path data w = (Inr (), w\<lparr>files := AList.update path data (files w)\<rparr>)"

definition get_file :: "string \<Rightarrow> bytes act" where
  "get_file path w = (case map_of (files w) path of None \<Rightarrow> (Inl ErrNotExist, w) | Some c \<Rightarrow> (Inr c, w))"

definition del_file :: "string \<Rightarrow> unit act" where
  "del_file path w =
     (case map_of (files w) path of None \<Rightarrow> (Inl ErrNotExist, w)
      | Some _ \<Rightarrow> (Inr (), w\<lparr>files := AList.delete path (files w)\<rparr>))"

text \<open>\<^verbatim>\<open>f.WriteAt(data, offset)\<close> with \<^verbatim>\<open>offset\<close> within the file; a short write leaves a prefix behind.\<close>

definition splice :: "bytes \<Rightarrow> nat \<Rightarrow> bytes \<Rightarrow> bytes" where
  "splice c offset data = take offset c @ data @ drop (offset + length data) c"

definition WriteAt :: "env \<Rightarrow> string \<Rightarrow> bytes \<Rightarrow> nat \<Rightarrow> unit act" where
  "WriteAt E path data offset w =
     (let w' = w\<lparr>ops := Suc (ops w)\<rparr>;
          c = the (map_of (files w) path);
          written = (\<lambda>n. w'\<lparr>files := AList.update path (splice c offset (take n data)) (files w)\<rparr>)
      in case e_fault E (ops w) of
           IOk \<Rightarrow> (Inr (), written (length data))
         | IErr \<Rightarrow> (Inl io_error, w')
         | IShort n \<Rightarrow> (Inl io_error, written n))"

definition Sync :: "env \<Rightarrow> unit act" where
  "Sync E = sys E (ok ())"

subsection \<open>Files\<close>

definition syncTelemetryDirectory :: "env \<Rightarrow> unit act" where
  "syncTelemetryDirectory E = andThen (sys E (ok ())) (\<lambda>_. Sync E)"

text \<open>A temporary file is created, written, synced and closed, then renamed over \<open>path\<close>.\<close>

definition writeTelemetryFile :: "env \<Rightarrow> string \<Rightarrow> bytes \<Rightarrow> unit act" where
  "writeTelemetryFile E path data =
     andThen (sys E (ok ())) (\<lambda>_.
     andThen (sys E (ok ())) (\<lambda>_.
     andThen (Sync E) (\<lambda>_.
     andThen (sys E (ok ())) (\<lambda>_.
     andThen (sys E (put_file path data)) (\<lambda>_.
     syncTelemetryDirectory E)))))"

definition OpenFile :: "env \<Rightarrow> string \<Rightarrow> bool \<Rightarrow> unit act" where
  "OpenFile E path create =
     sys E (\<lambda>w. if map_of (files w) path \<noteq> None then ok () w
                else if create then put_file path [] w else raise ErrNotExist w)"

definition appendTelemetryFile :: "env \<Rightarrow> string \<Rightarrow> bytes \<Rightarrow> int \<Rightarrow> bool \<Rightarrow> unit act" where
  "appendTelemetryFile E path data offset create =
     andThen (OpenFile E path create) (\<lambda>_.
     andThen (sys E (get_file path)) (\<lambda>c.
     if int (length c) < offset then raise (Fail ''invalid telemetry append offset'')
     else andThen (if int (length c) > offset then sys E (put_file path (take (nat offset) c)) else ok ()) (\<lambda>_.
     andThen (WriteAt E path data (nat offset)) (\<lambda>_.
     andThen (Sync E) (\<lambda>_.
     if create \<and> offset = 0 then syncTelemetryDirectory E else ok ())))))"

definition removeSegment :: "env \<Rightarrow> string \<Rightarrow> unit act" where
  "removeSegment E name w =
     (case sys E (del_file name) w of
        (r, w1) \<Rightarrow>
          if r \<noteq> Inr () \<and> r \<noteq> Inl ErrNotExist then (r, w1)
          else andThen (syncTelemetryDirectory E) (\<lambda>_ w2.
            case sys E (del_file (name @ ''.ack'')) w2 of
              (r, w3) \<Rightarrow> if r \<noteq> Inr () \<and> r \<noteq> Inl ErrNotExist then (r, w3) else (Inr (), w3)) w1)"

subsection \<open>The log format\<close>

definition telemetryWindowBytes :: int where "telemetryWindowBytes = 1048576"
definition MaxEventBatchBytes :: int where "MaxEventBatchBytes = 10485760"
definition MaxEventBatchEvents :: int where "MaxEventBatchEvents = 5000"
definition telemetryWindowEvents :: int where "telemetryWindowEvents = MaxEventBatchEvents"
definition telemetrySegmentBytes :: int where "telemetrySegmentBytes = 4194304"
definition telemetryFormatMarker :: string where "telemetryFormatMarker = ''format-v2.json''"
definition telemetryFormatData :: bytes where
  "telemetryFormatData = str_bytes (''{'' @ [CHR 0x22] @ ''format'' @ [CHR 0x22] @ '':'' @ [CHR 0x22]
     @ ''kpl-telemetry-jsonl-v1'' @ [CHR 0x22] @ ''}'')"
definition telemetryAckFrameBytes :: nat where "telemetryAckFrameBytes = 16"
definition telemetryAckMagic :: int where "telemetryAckMagic = 0x4b504c31"

definition ensureLogFormat :: "env \<Rightarrow> unit act" where
  "ensureLogFormat E w =
     (if sp_formatReady (sp w) then (Inr (), w)
      else (case sys E (get_file telemetryFormatMarker) w of
          (Inr c, w1) \<Rightarrow>
            if int (length c) > 256 then (Inl (Fail ''invalid telemetry format marker''), w1)
            else andThen (sys E (get_file telemetryFormatMarker)) (\<lambda>data.
              if data \<noteq> telemetryFormatData then raise (Fail ''unsupported telemetry spool format'')
              else set_sp (\<lambda>s. s\<lparr>sp_formatReady := True\<rparr>)) w1
        | (Inl e, w1) \<Rightarrow>
            if e = ErrNotExist
            then andThen (writeTelemetryFile E telemetryFormatMarker telemetryFormatData) (\<lambda>_.
              set_sp (\<lambda>s. s\<lparr>sp_formatReady := True\<rparr>)) w1
            else (Inl e, w1)))"

subsection \<open>Appending\<close>

text \<open>The loop that encodes the events: the data, the records relative to the start of the data.\<close>

definition encode_body ::
    "'e codec \<Rightarrow> 'e \<Rightarrow> bytes \<times> telemetryRecord list \<times> int \<Rightarrow> (bytes \<times> telemetryRecord list \<times> int) result" where
  "encode_body J event st =
     (let (data, records, bytes) = st in
      rbind (Marshal J event) (\<lambda>encoded.
      rbind (check (int (length encoded) > MaxEventBatchBytes) ''telemetry event exceeds size limit'') (\<lambda>_.
      Inr (data @ encoded @ [newline],
           records @ [\<lparr>tr_segment = [], tr_offset = int (length data), tr_size = int (length encoded),
                       tr_runID = RunID J event\<rparr>],
           bytes + int (length encoded)))))"

definition zero_segment :: telemetrySegment where
  "zero_segment = \<lparr>sg_count = 0, sg_ack = 0, sg_size = 0, sg_ackBytes = 0\<rparr>"

text \<open>The rotation of a full active segment.\<close>

definition rotate :: "env \<Rightarrow> int \<Rightarrow> unit act" where
  "rotate E len w =
     (case sp_active (sp w) of
        None \<Rightarrow> (Inr (), w)
      | Some name \<Rightarrow>
          (let segment = sp_segments (sp w) name in
           if sg_size segment + len > telemetrySegmentBytes
           then let w1 = w\<lparr>sp := (sp w)\<lparr>sp_active := None\<rparr>\<rparr> in
             if sg_ack segment = sg_count segment
             then (case removeSegment E name w1 of
                 (Inl e, w2) \<Rightarrow> (Inl e, w2\<lparr>sp := (sp w2)\<lparr>sp_cleanup := Some name\<rparr>\<rparr>)
               | (Inr u, w2) \<Rightarrow> (Inr u, w2))
             else (Inr (), w1)
           else (Inr (), w)))"

definition segment_name :: "int \<Rightarrow> string \<Rightarrow> string" where
  "segment_name stamp text = dec_pad 20 stamp @ ''-'' @ text @ ''.jsonl''"

text \<open>Writing the data into a new segment or at the end of the active one; the name of the segment.\<close>

definition write_segment :: "env \<Rightarrow> bytes \<Rightarrow> string act" where
  "write_segment E data w =
     (case sp_active (sp w) of
        None \<Rightarrow>
          (let stamp = max (e_now E (ops w)) (sp_lastStamp (sp w) + 1);
               name = segment_name stamp (e_text E (ops w))
           in andThen (writeTelemetryFile E name data) (\<lambda>_.
              andThen (set_sp (\<lambda>s. s\<lparr>sp_lastStamp := stamp, sp_active := Some name,
                  sp_segments := (sp_segments s)(name := zero_segment)\<rparr>)) (\<lambda>_.
              ok name)) w)
      | Some name \<Rightarrow>
          andThen (appendTelemetryFile E name data (sg_size (sp_segments (sp w) name)) False) (\<lambda>_. ok name) w)"

definition commit_records :: "string \<Rightarrow> bytes \<Rightarrow> telemetryRecord list \<Rightarrow> int \<Rightarrow> telemetrySpool \<Rightarrow> telemetrySpool" where
  "commit_records name data records bytes s =
     (let segment = sp_segments s name;
          located = map (\<lambda>r. r\<lparr>tr_segment := name, tr_offset := tr_offset r + sg_size segment\<rparr>) records
      in s\<lparr>sp_segments := (sp_segments s)(name := segment\<lparr>sg_count := sg_count segment + length records,
              sg_size := sg_size segment + int (length data)\<rparr>),
           sp_records := sp_records s @ located, sp_bytes := sp_bytes s + bytes\<rparr>)"

definition appendLog :: "env \<Rightarrow> 'e codec \<Rightarrow> 'e list \<Rightarrow> unit act" where
  "appendLog E J events =
     andThen (ensureLogFormat E) (\<lambda>_.
     andThen (attempt (foldR (encode_body J) events ([], [], 0))) (\<lambda>(data, records, bytes).
     if int (length data) > 67108864 then raise (Fail ''telemetry segment exceeds size limit'')
     else andThen (rotate E (int (length data))) (\<lambda>_.
     andThen (write_segment E data) (\<lambda>name.
     set_sp (commit_records name data records bytes)))))"

definition spool_append :: "env \<Rightarrow> 'e codec \<Rightarrow> 'e list \<Rightarrow> unit act" where
  "spool_append E J events = (if events = [] then ok () else appendLog E J events)"

subsection \<open>Acknowledging\<close>

definition ack_frame :: "nat \<Rightarrow> bytes" where
  "ack_frame next =
     (let h = put_be 4 telemetryAckMagic @ put_be 8 (int next)
      in h @ put_be 4 (uint (ChecksumIEEE h)))"

definition acknowledgeLog :: "env \<Rightarrow> string \<Rightarrow> nat \<Rightarrow> unit act" where
  "acknowledgeLog E name next w =
     andThen (appendTelemetryFile E (name @ ''.ack'') (ack_frame next) (sg_ackBytes (sp_segments (sp w) name)) True)
       (\<lambda>_. set_sp (\<lambda>s. s\<lparr>sp_segments := (sp_segments s)(name := (sp_segments s name)
           \<lparr>sg_ackBytes := sg_ackBytes (sp_segments s name) + int (length (ack_frame next))\<rparr>)\<rparr>)) w"

text \<open>Dropping the first \<open>n\<close> records once their acknowledgement is durable.\<close>

definition drop_records :: "string \<Rightarrow> nat \<Rightarrow> nat \<Rightarrow> telemetrySpool \<Rightarrow> telemetrySpool" where
  "drop_records name n next s =
     s\<lparr>sp_bytes := sp_bytes s - (\<Sum>r\<leftarrow>take n (sp_records s). tr_size r),
       sp_records := drop n (sp_records s),
       sp_segments := (sp_segments s)(name := (sp_segments s name)\<lparr>sg_ack := next\<rparr>)\<rparr>"

text \<open>
  The loop of \<^verbatim>\<open>acknowledge\<close>. The result is the committed count with the error, if any; \<open>None\<close> means that
  the loop is still running when the fuel is used up.
\<close>

fun ack_loop :: "env \<Rightarrow> nat \<Rightarrow> nat \<Rightarrow> nat \<Rightarrow> world \<Rightarrow> ((nat \<times> go_err option) \<times> world) option" where
  "ack_loop E fuel count committed w =
     (if committed < count then
        (case fuel of 0 \<Rightarrow> None
         | Suc fuel' \<Rightarrow>
           (case sp_records (sp w) of [] \<Rightarrow> Some ((committed, Some Panic), w)
            | first # _ \<Rightarrow>
              let name = tr_segment first;
                  segment = sp_segments (sp w) name;
                  n = min (count - committed) (sg_count segment - sg_ack segment);
                  next = sg_ack segment + n
              in case (if HasSuffix name ''.jsonl'' then acknowledgeLog E name next
                       else writeTelemetryFile E (name @ ''.ack'') (str_bytes (Itoa (int next)))) w of
                   (Inl e, w1) \<Rightarrow> Some ((committed, Some e), w1)
                 | (Inr _, w1) \<Rightarrow>
                   let w2 = w1\<lparr>sp := drop_records name n next (sp w1)\<rparr> in
                   if next = sg_count segment \<and> Some name \<noteq> sp_active (sp w2)
                   then (case removeSegment E name w2 of
                       (Inl e, w3) \<Rightarrow> Some ((committed + n, Some e), w3\<lparr>sp := (sp w3)\<lparr>sp_cleanup := Some name\<rparr>\<rparr>)
                     | (Inr _, w3) \<Rightarrow> ack_loop E fuel' count (committed + n) w3)
                   else ack_loop E fuel' count (committed + n) w2))
      else Some ((committed, None), w))"

declare ack_loop.simps [simp del]

definition acknowledge :: "env \<Rightarrow> nat \<Rightarrow> world \<Rightarrow> ((nat \<times> go_err option) \<times> world) option" where
  "acknowledge E count w =
     (if count > length (sp_records (sp w))
      then Some ((0, Some (Fail ''invalid telemetry acknowledgement count'')), w)
      else ack_loop E count count 0 w)"

subsection \<open>Reading the next window\<close>

definition clean_up :: "env \<Rightarrow> unit act" where
  "clean_up E w =
     (case sp_cleanup (sp w) of None \<Rightarrow> (Inr (), w)
      | Some name \<Rightarrow> andThen (removeSegment E name) (\<lambda>_. set_sp (\<lambda>s. s\<lparr>sp_cleanup := None\<rparr>)) w)"

text \<open>Opening the segment of a record unless it is open already, and reading its section.\<close>

definition read_section :: "env \<Rightarrow> string option \<Rightarrow> telemetryRecord \<Rightarrow> bytes act" where
  "read_section E opened record =
     andThen (if opened = Some (tr_segment record) then get_file (tr_segment record)
              else sys E (get_file (tr_segment record))) (\<lambda>c.
     andThen (sys E (ok ())) (\<lambda>_.
     ok (take (nat (tr_size record)) (drop (nat (tr_offset record)) c))))"

fun window_count :: "int \<Rightarrow> telemetryRecord list \<Rightarrow> nat \<Rightarrow> int \<Rightarrow> (nat \<times> int) result" where
  "window_count header [] count sz = Inr (count, sz)"
| "window_count header (record # records) count sz =
     (if count > 0 \<and> (int count \<ge> telemetryWindowEvents \<or> sz + tr_size record > telemetryWindowBytes)
      then Inr (count, sz)
      else if header + sz + tr_size record + int count + 2 > MaxEventBatchBytes
      then (if count = 0 then Inl (Fail ''encoded telemetry event exceeds batch limit'') else Inr (count, sz))
      else window_count header records (count + 1) (sz + tr_size record))"

fun copy_records :: "env \<Rightarrow> 'e codec \<Rightarrow> telemetryRecord list \<Rightarrow> string option \<Rightarrow> bytes \<Rightarrow> bytes act" where
  "copy_records E J [] opened data = ok data"
| "copy_records E J (record # records) opened data =
     andThen (read_section E opened record) (\<lambda>section.
     if int (length section) < tr_size record then raise (Fail ''unexpected EOF'')
     else if \<not> Valid J section then raise (Fail ''invalid telemetry JSON'')
     else copy_records E J records (Some (tr_segment record))
            ((if opened = None then data else data @ str_bytes '','') @ section))"

definition batch_open :: bytes where
  "batch_open = str_bytes (''{'' @ [CHR 0x22] @ ''agentId'' @ [CHR 0x22] @ '':'')"
definition batch_mid :: bytes where
  "batch_mid = str_bytes ('','' @ [CHR 0x22] @ ''events'' @ [CHR 0x22] @ '':['')"
definition batch_close :: bytes where "batch_close = str_bytes '']}''"

definition marshalPrefix :: "env \<Rightarrow> 'e codec \<Rightarrow> string \<Rightarrow> (bytes \<times> nat) act" where
  "marshalPrefix E J agentID =
     andThen (clean_up E) (\<lambda>_.
     andThen (attempt (Marshal_string J agentID)) (\<lambda>agent w.
     let header = batch_open @ agent @ batch_mid in
     case window_count (int (length header)) (sp_records (sp w)) 0 0 of
       Inl e \<Rightarrow> (Inl e, w)
     | Inr (count, sz) \<Rightarrow>
         if count = 0 then (Inr ([], 0), w)
         else andThen (copy_records E J (take count (sp_records (sp w))) None header) (\<lambda>data.
           ok (data @ batch_close, count)) w))"

text \<open>\<^verbatim>\<open>loadPrefix\<close>: the decoded window.\<close>

fun load_records ::
    "env \<Rightarrow> 'e codec \<Rightarrow> telemetryRecord list \<Rightarrow> string option \<Rightarrow> 'e list \<Rightarrow> int \<Rightarrow> 'e list act" where
  "load_records E J [] opened events sz = ok events"
| "load_records E J (record # records) opened events sz =
     (if events \<noteq> [] \<and> (int (length events) \<ge> telemetryWindowEvents \<or> sz + tr_size record > telemetryWindowBytes)
      then ok events
      else andThen (read_section E opened record) (\<lambda>section.
        andThen (attempt (Decode J section)) (\<lambda>event.
        load_records E J records (Some (tr_segment record)) (events @ [event]) (sz + tr_size record))))"

definition loadPrefix :: "env \<Rightarrow> 'e codec \<Rightarrow> 'e list act" where
  "loadPrefix E J =
     andThen (clean_up E) (\<lambda>_ w. load_records E J (sp_records (sp w)) None [] 0 w)"

subsection \<open>Recovery\<close>

text \<open>The frames of an acknowledgement journal: the loop of \<^verbatim>\<open>recoverTelemetryAck\<close> over the file contents.\<close>

definition frame_ok :: "bytes \<Rightarrow> bool" where
  "frame_ok frame = (length frame = telemetryAckFrameBytes \<and> get_be (take 4 frame) = telemetryAckMagic
     \<and> get_be (drop 12 frame) = uint (ChecksumIEEE (take 12 frame)))"

text \<open>
  The first component tells whether the tail after the valid frames has to be truncated. The fuel is
  the length of the rest, which every iteration shortens.
\<close>

function ack_scan :: "nat \<Rightarrow> bytes \<Rightarrow> nat \<Rightarrow> nat \<Rightarrow> (bool \<times> nat \<times> nat) result" where
  "ack_scan count rest ack validBytes =
     (if rest = [] then Inr (False, ack, validBytes)
      else let frame = take telemetryAckFrameBytes rest in
        if \<not> frame_ok frame
        then (if length rest \<noteq> length frame then Inl (Fail ''corrupt telemetry acknowledgement journal'')
              else Inr (True, ack, validBytes))
        else let next = get_be (take 8 (drop 4 frame)) in
          if next \<le> int ack \<or> next > int count then Inl (Fail ''invalid telemetry acknowledgement sequence'')
          else ack_scan count (drop telemetryAckFrameBytes rest) (nat next) (validBytes + telemetryAckFrameBytes))"
  by pat_completeness auto
termination by (relation "measure (\<lambda>(count, rest, ack, validBytes). length rest)") (auto simp: telemetryAckFrameBytes_def)

declare ack_scan.simps [simp del]

definition recoverTelemetryAck :: "env \<Rightarrow> string \<Rightarrow> nat \<Rightarrow> (nat \<times> int) act" where
  "recoverTelemetryAck E path count w =
     (case sys E (get_file path) w of
        (Inl e, w1) \<Rightarrow> if e = ErrNotExist then (Inr (0, 0), w1) else (Inl e, w1)
      | (Inr c, w1) \<Rightarrow>
         andThen (sys E (ok ())) (\<lambda>_.
         if int (length c) > int (count + 1) * int telemetryAckFrameBytes
         then raise (Fail ''invalid telemetry acknowledgement journal'')
         else andThen (sys E (ok ())) (\<lambda>_.
           case ack_scan count c 0 0 of
             Inl e \<Rightarrow> raise e
           | Inr (torn, ack, validBytes) \<Rightarrow>
               if torn then andThen (sys E (put_file path (take validBytes c))) (\<lambda>_.
                 andThen (Sync E) (\<lambda>_. ok (ack, int validBytes)))
               else ok (ack, int validBytes))) w1)"

definition log_body ::
    "'e codec \<Rightarrow> string \<Rightarrow> bytes \<Rightarrow> telemetryRecord list \<times> int \<Rightarrow> (telemetryRecord list \<times> int) result" where
  "log_body J name raw st =
     (let (records, offset) = st in
      rbind (check (int (length raw) > MaxEventBatchBytes) ''telemetry event exceeds size limit'') (\<lambda>_.
      rbind (Unmarshal_run J raw) (\<lambda>runID.
      Inr (records @ [\<lparr>tr_segment = name, tr_offset = offset, tr_size = int (length raw), tr_runID = runID\<rparr>],
           offset + int (length raw) + 1))))"

definition queue_records :: "string \<Rightarrow> telemetrySegment \<Rightarrow> telemetryRecord list \<Rightarrow> telemetrySpool \<Rightarrow> telemetrySpool" where
  "queue_records name segment records s =
     s\<lparr>sp_segments := (sp_segments s)(name := segment),
       sp_bytes := sp_bytes s + (\<Sum>r\<leftarrow>records. tr_size r), sp_records := sp_records s @ records\<rparr>"

definition recoverLog :: "env \<Rightarrow> 'e codec \<Rightarrow> string \<Rightarrow> unit act" where
  "recoverLog E J name =
     andThen (sys E (get_file name)) (\<lambda>c.
     andThen (sys E (ok ())) (\<lambda>_.
     let (lines, tail) = split_lines c in
     andThen (attempt (foldR (log_body J name) lines ([], 0))) (\<lambda>(records, offset).
     andThen (recoverTelemetryAck E (name @ ''.ack'') (length records)) (\<lambda>(ack, ackBytes).
     andThen (if tail \<noteq> [] then andThen (sys E (put_file name (take (nat offset) c))) (\<lambda>_. Sync E) else ok ()) (\<lambda>_.
     if ack = length records then removeSegment E name
     else set_sp (queue_records name
            \<lparr>sg_count = length records, sg_ack = ack, sg_size = offset, sg_ackBytes = ackBytes\<rparr>
            (drop ack records)))))))"

text \<open>The loop over a legacy array: records from the acknowledged position on, and the count.\<close>

definition array_body ::
    "'e codec \<Rightarrow> string \<Rightarrow> int \<Rightarrow> bytes \<times> int \<Rightarrow> telemetryRecord list \<times> nat \<Rightarrow> (telemetryRecord list \<times> nat) result" where
  "array_body J name ack item st =
     (let (raw, offset) = item; (records, count) = st in
      rbind (check (int (length raw) > MaxEventBatchBytes) ''telemetry event exceeds size limit'') (\<lambda>_.
      if int count \<ge> ack
      then rbind (Unmarshal_run J raw) (\<lambda>runID.
        Inr (records @ [\<lparr>tr_segment = name, tr_offset = offset - int (length raw), tr_size = int (length raw),
                         tr_runID = runID\<rparr>], count + 1))
      else Inr (records, count + 1)))"

definition recoverArray :: "env \<Rightarrow> 'e codec \<Rightarrow> string \<Rightarrow> int \<Rightarrow> unit act" where
  "recoverArray E J name ack =
     andThen (sys E (get_file name)) (\<lambda>c.
     andThen (sys E (ok ())) (\<lambda>_.
     case Scan J c of
       ScanErr \<Rightarrow> raise (Fail ''json'')
     | ScanNotArray \<Rightarrow> raise (Fail ''invalid telemetry array'')
     | ScanItems items fin \<Rightarrow>
        (\<lambda>w. case foldR (array_body J name ack) items ([], 0) of
           Inl e \<Rightarrow> (Inl e, w)
         | Inr (records, count) \<Rightarrow>
           andThen (set_sp (queue_records name
               \<lparr>sg_count = count, sg_ack = nat ack, sg_size = 0, sg_ackBytes = 0\<rparr> records)) (\<lambda>_.
           case fin of
             EndErr \<Rightarrow> raise (Fail ''json'')
           | EndTrailing \<Rightarrow> raise (Fail ''trailing telemetry spool data'')
           | EndOk \<Rightarrow>
              if ack < 0 \<or> ack > int count then raise (Fail ''invalid telemetry acknowledgement'')
              else if ack = int count then removeSegment E name else ok ()) w)))"

definition name_stamp :: "string \<Rightarrow> int option" where
  "name_stamp name = ParseInt (takeWhile (\<lambda>c. c \<noteq> CHR ''-'') name)"

definition recoverSegment :: "env \<Rightarrow> 'e codec \<Rightarrow> string \<Rightarrow> unit act" where
  "recoverSegment E J name =
     andThen (case name_stamp name of None \<Rightarrow> ok ()
              | Some stamp \<Rightarrow> set_sp (\<lambda>s. s\<lparr>sp_lastStamp := max stamp (sp_lastStamp s)\<rparr>)) (\<lambda>_.
     andThen (sys E (get_file name)) (\<lambda>c.
     if int (length c) > 67108864 then raise (Fail ''invalid telemetry spool segment'')
     else if HasSuffix name ''.jsonl'' then recoverLog E J name
     else (\<lambda>w. case sys E (get_file (name @ ''.ack'')) w of
         (Inl e, w1) \<Rightarrow> if e = ErrNotExist then recoverArray E J name 0 w1 else (Inl e, w1)
       | (Inr data, w1) \<Rightarrow>
           (case ParseInt (map (\<lambda>b. char_of (uint b)) data) of
              None \<Rightarrow> (Inl (Fail ''strconv.Atoi''), w1)
            | Some ack \<Rightarrow> recoverArray E J name ack w1))))"

definition releaseIdleLog :: "env \<Rightarrow> unit act" where
  "releaseIdleLog E w =
     (if \<exists>r \<in> set (sp_records (sp w)). HasSuffix (tr_segment r) ''.jsonl'' then (Inr (), w)
      else andThen (clean_up E) (\<lambda>_.
        andThen (\<lambda>w. case sp_active (sp w) of None \<Rightarrow> (Inr (), w)
          | Some name \<Rightarrow>
              if sg_ack (sp_segments (sp w) name) \<noteq> sg_count (sp_segments (sp w) name)
              then (Inl (Fail ''telemetry segment still has pending events''), w)
              else andThen (removeSegment E name) (\<lambda>_. set_sp (\<lambda>s. s\<lparr>sp_active := None\<rparr>)) w) (\<lambda>_ w.
        case sys E (del_file telemetryFormatMarker) w of
          (Inl e, w1) \<Rightarrow> if e = ErrNotExist then set_sp (\<lambda>s. s\<lparr>sp_formatReady := False\<rparr>) w1 else (Inl e, w1)
        | (Inr _, w1) \<Rightarrow> andThen (syncTelemetryDirectory E) (\<lambda>_. set_sp (\<lambda>s. s\<lparr>sp_formatReady := False\<rparr>)) w1)) w)"

definition empty_spool :: telemetrySpool where
  "empty_spool = \<lparr>sp_records = [], sp_bytes = 0, sp_lastStamp = 0, sp_cleanup = None, sp_active = None,
     sp_formatReady = False, sp_segments = (\<lambda>_. zero_segment)\<rparr>"

definition segment_names :: "(string \<times> bytes) list \<Rightarrow> string list" where
  "segment_names fs = sort (filter (\<lambda>n. HasSuffix n ''.json'' \<or> HasSuffix n ''.jsonl'') (map fst fs))"

fun recover_names :: "env \<Rightarrow> 'e codec \<Rightarrow> string list \<Rightarrow> unit act" where
  "recover_names E J [] = ok ()"
| "recover_names E J (name # names) =
     andThen (if name = telemetryFormatMarker then ensureLogFormat E else recoverSegment E J name) (\<lambda>_.
     recover_names E J names)"

definition readTelemetrySpool :: "env \<Rightarrow> 'e codec \<Rightarrow> unit act" where
  "readTelemetrySpool E J =
     andThen (sys E (ok ())) (\<lambda>_.
     andThen (syncTelemetryDirectory E) (\<lambda>_.
     andThen (set_sp (\<lambda>_. empty_spool)) (\<lambda>_.
     andThen (sys E (\<lambda>w. ok (segment_names (files w)) w)) (\<lambda>names.
     andThen (recover_names E J names) (\<lambda>_.
     releaseIdleLog E)))))"

end
