(* ===== verification/Telemetry_Files.thy ===== *)
theory Telemetry_Files
  imports Telemetry_Spool
begin

text \<open>
  What the file operations of the telemetry spool change on disk, whatever the environment does:
  \<open>wp m B Q w\<close> says that \<open>m\<close>, started in \<open>w\<close>, either fails in a state of \<open>B\<close> or returns with \<open>Q\<close>.
\<close>

definition wp :: "'a act \<Rightarrow> (world \<Rightarrow> bool) \<Rightarrow> ('a \<Rightarrow> world \<Rightarrow> bool) \<Rightarrow> world \<Rightarrow> bool" where
  "wp m B Q w = (case m w of (Inl e, w') \<Rightarrow> B w' | (Inr x, w') \<Rightarrow> Q x w')"

named_theorems wp_simps "weakest preconditions of the primitive actions"

lemma wp_ok [simp, wp_simps]: "wp (ok x) B Q w = Q x w"
  by (simp add: wp_def ok_def)

lemma wp_raise [simp, wp_simps]: "wp (raise e) B Q w = B w"
  by (simp add: wp_def raise_def)

lemma wp_andThen [simp, wp_simps]: "wp (andThen m f) B Q w = wp m B (\<lambda>x. wp (f x) B Q) w"
  by (auto simp: wp_def andThen_def split: prod.splits sum.splits)

lemma wp_set_sp [simp, wp_simps]: "wp (set_sp g) B Q w = Q () (w\<lparr>sp := g (sp w)\<rparr>)"
  by (simp add: wp_def set_sp_def)

lemma wp_attempt [simp, wp_simps]: "wp (attempt r) B Q w = (case r of Inl e \<Rightarrow> B w | Inr x \<Rightarrow> Q x w)"
  by (simp add: wp_def attempt_def split: sum.splits)

lemma wp_if [wp_simps]: "wp (if c then m else n) B Q w = (if c then wp m B Q w else wp n B Q w)"
  by simp

lemma wp_mono:
  assumes "wp m B Q w" "\<And>w'. B w' \<Longrightarrow> B' w'" "\<And>x w'. Q x w' \<Longrightarrow> Q' x w'"
  shows "wp m B' Q' w"
  using assms by (auto simp: wp_def split: prod.splits sum.splits)

lemma wp_sys:
  assumes "B (w\<lparr>ops := Suc (ops w)\<rparr>)" "wp f B Q (w\<lparr>ops := Suc (ops w)\<rparr>)"
  shows "wp (sys E f) B Q w"
  using assms by (auto simp: wp_def sys_def Let_def)

lemma wpE:
  assumes "wp m B Q w"
  obtains (err) e w' where "m w = (Inl e, w')" "B w'" | (val) x w' where "m w = (Inr x, w')" "Q x w'"
  using assms by (cases "m w"; cases "fst (m w)") (auto simp: wp_def)

subsection \<open>Frames\<close>

abbreviation disk :: "world \<Rightarrow> string \<Rightarrow> bytes option" where
  "disk w \<equiv> map_of (files w)"

text \<open>The spool is untouched and only the files of \<open>S\<close> may differ.\<close>

definition changed_only :: "string set \<Rightarrow> world \<Rightarrow> world \<Rightarrow> bool" where
  "changed_only S w w' = (sp w' = sp w \<and> (\<forall>n. n \<notin> S \<longrightarrow> disk w' n = disk w n))"

lemma changed_only_refl [simp]: "changed_only S w w" "changed_only S w (w\<lparr>ops := k\<rparr>)"
  by (auto simp: changed_only_def)

lemma changed_only_trans: "changed_only S w w1 \<Longrightarrow> changed_only S w1 w2 \<Longrightarrow> changed_only S w w2"
  by (auto simp: changed_only_def)

lemma changed_only_mono: "changed_only S w w' \<Longrightarrow> S \<subseteq> T \<Longrightarrow> changed_only T w w'"
  by (auto simp: changed_only_def)

lemma changed_only_sp: "changed_only S w w' \<Longrightarrow> sp w' = sp w"
  by (simp add: changed_only_def)

lemma changed_only_file: "changed_only S w w' \<Longrightarrow> n \<notin> S \<Longrightarrow> disk w' n = disk w n"
  by (simp add: changed_only_def)

lemma file_simps [simp]:
  "disk (w\<lparr>ops := k\<rparr>) n = disk w n"
  "disk (w\<lparr>sp := s\<rparr>) n = disk w n"
  "map_of (AList.update p d fs) n = (if n = p then Some d else map_of fs n)"
  "map_of (AList.delete p fs) n = (if n = p then None else map_of fs n)"
  by (simp_all add: update_conv' delete_conv')

subsection \<open>Specifications of the file operations\<close>

lemmas act_defs = wp_def andThen_def ok_def raise_def set_sp_def attempt_def sys_def Let_def

lemma wp_nop:
  assumes "\<And>k. B (w\<lparr>ops := k\<rparr>)" "\<And>k. Q () (w\<lparr>ops := k\<rparr>)"
  shows "wp (sys E (ok ())) B Q w" "wp (Sync E) B Q w" "wp (syncTelemetryDirectory E) B Q w"
  using assms by (simp_all add: act_defs Sync_def syncTelemetryDirectory_def)

lemma writeTelemetryFile_spec:
  "wp (writeTelemetryFile E path data)
     (\<lambda>w'. changed_only {path} w w' \<and> disk w' path \<in> {disk w path, Some data})
     (\<lambda>_ w'. changed_only {path} w w' \<and> disk w' path = Some data) w"
  by (simp add: act_defs writeTelemetryFile_def Sync_def syncTelemetryDirectory_def put_file_def changed_only_def)

text \<open>An append keeps the committed prefix even when it fails, and replaces what followed it.\<close>

definition keeps_prefix :: "nat \<Rightarrow> bytes option \<Rightarrow> bytes option \<Rightarrow> bool" where
  "keeps_prefix n c c' = (\<forall>x. c = Some x \<longrightarrow> n \<le> length x \<longrightarrow>
     (\<exists>x'. c' = Some x' \<and> n \<le> length x' \<and> take n x' = take n x))"

lemma keeps_prefix_refl [simp]: "keeps_prefix n c c"
  by (simp add: keeps_prefix_def)

lemma appendTelemetryFile_spec:
  assumes "0 \<le> offset"
  shows "wp (appendTelemetryFile E path data offset create)
     (\<lambda>w'. changed_only {path} w w' \<and> keeps_prefix (nat offset) (disk w path) (disk w' path))
     (\<lambda>_ w'. changed_only {path} w w' \<and> (\<exists>c. (disk w path = Some c \<or> disk w path = None \<and> c = [])
        \<and> nat offset \<le> length c \<and> disk w' path = Some (take (nat offset) c @ data))) w"
proof -
  have len: "nat offset \<le> length c \<longleftrightarrow> offset \<le> int (length c)" for c :: bytes by linarith
  show ?thesis using assms
    by (cases "disk w path")
      (auto simp: act_defs appendTelemetryFile_def OpenFile_def get_file_def put_file_def WriteAt_def Sync_def
        syncTelemetryDirectory_def changed_only_def keeps_prefix_def splice_def len not_less
        split: fault.splits)
qed

lemma removeSegment_spec:
  "wp (removeSegment E name) (changed_only {name, name @ ''.ack''} w)
     (\<lambda>_ w'. changed_only {name, name @ ''.ack''} w w' \<and> disk w' name = None) w"
  by (auto simp: act_defs removeSegment_def del_file_def Sync_def syncTelemetryDirectory_def changed_only_def
      io_error_def ErrNotExist_def split: option.splits)

lemma ensureLogFormat_spec:
  "wp (ensureLogFormat E)
     (\<lambda>w'. changed_only {telemetryFormatMarker} w w')
     (\<lambda>_ w'. changed_only {telemetryFormatMarker} w (w'\<lparr>sp := sp w\<rparr>) \<and> sp w' = (sp w)\<lparr>sp_formatReady := True\<rparr>) w"
proof -
  let ?B = "\<lambda>w'. changed_only {telemetryFormatMarker} w w'"
  let ?Q = "\<lambda>(_ :: unit) w'. changed_only {telemetryFormatMarker} w (w'\<lparr>sp := sp w\<rparr>) \<and> sp w' = (sp w)\<lparr>sp_formatReady := True\<rparr>"
  have wr: "wp (\<lambda>w. andThen (writeTelemetryFile E telemetryFormatMarker telemetryFormatData)
      (\<lambda>_. set_sp (\<lambda>s. s\<lparr>sp_formatReady := True\<rparr>)) w) ?B ?Q w1" if "changed_only {telemetryFormatMarker} w w1" for w1
  proof -
    have "wp (writeTelemetryFile E telemetryFormatMarker telemetryFormatData) ?B
        (\<lambda>_. wp (set_sp (\<lambda>s. s\<lparr>sp_formatReady := True\<rparr>)) ?B ?Q) w1"
      by (rule wp_mono [OF writeTelemetryFile_spec])
        (use that in \<open>auto simp: changed_only_def\<close>)
    then show ?thesis by (simp add: wp_def andThen_def split: prod.splits sum.splits)
  qed
  show ?thesis
  proof (cases "sp_formatReady (sp w)")
    case True
    then show ?thesis by (simp add: wp_def ensureLogFormat_def changed_only_def)
  next
    case False
    let ?w1 = "w\<lparr>ops := Suc (ops w)\<rparr>"
    show ?thesis
    proof (cases "e_fault E (ops w) = IOk \<and> disk w telemetryFormatMarker = None")
      case True
      then show ?thesis using False wr [of ?w1]
        by (simp add: wp_def ensureLogFormat_def sys_def get_file_def)
    next
      case no: False
      then show ?thesis using False
        by (auto simp: act_defs ensureLogFormat_def get_file_def changed_only_def io_error_def ErrNotExist_def
            split: option.splits)
    qed
  qed
qed

end
