(* ===== verification/Telemetry_Queue.thy ===== *)
theory Telemetry_Queue
  imports Telemetry_Files
begin

text \<open>
  The spool as a durable queue: the invariant of the in-memory index and the files, and the effect of
  appending and acknowledging on the sequence of pending payloads, for every environment.
\<close>

subsection \<open>Names\<close>

definition known_name :: "int \<Rightarrow> string \<Rightarrow> bool" where
  "known_name stamp n = ((\<exists>s t. n = segment_name s t \<and> 0 \<le> s \<and> s \<le> stamp)
     \<or> HasSuffix n ''.json'' \<and> n \<noteq> telemetryFormatMarker)"

lemma HasSuffix_append [simp]: "HasSuffix (s @ p) p"
  by (simp add: HasSuffix_def)

lemma last_HasSuffix: "HasSuffix s p \<Longrightarrow> p \<noteq> [] \<Longrightarrow> last s = last p"
  by (metis HasSuffix_def append_take_drop_id last_appendR)

lemma segment_name_suffix [simp]: "HasSuffix (segment_name s t) ''.jsonl''" "last (segment_name s t) = CHR ''l''"
proof -
  have "segment_name s t = (dec_pad 20 s @ ''-'' @ t) @ ''.jsonl''" by (simp add: segment_name_def)
  then show "HasSuffix (segment_name s t) ''.jsonl''" by (simp only: HasSuffix_append)
  then show "last (segment_name s t) = CHR ''l''" by (drule_tac last_HasSuffix) auto
qed

lemma known_name_facts:
  assumes "known_name stamp n"
  shows "n \<noteq> telemetryFormatMarker" "n \<noteq> m @ ''.ack''"
proof -
  have last: "last n = CHR ''l'' \<or> last n = CHR ''n'' \<and> n \<noteq> telemetryFormatMarker"
  proof (cases "\<exists>s t. n = segment_name s t")
    case True
    then show ?thesis by (metis segment_name_suffix(2))
  next
    case False
    then have "HasSuffix n ''.json''" "n \<noteq> telemetryFormatMarker" using assms by (auto simp: known_name_def)
    then show ?thesis using last_HasSuffix [of n "''.json''"] by simp
  qed
  then show "n \<noteq> telemetryFormatMarker" by (auto simp: telemetryFormatMarker_def)
  show "n \<noteq> m @ ''.ack''"
  proof
    assume "n = m @ ''.ack''"
    then have "last n = CHR ''k''" by simp
    with last show False by simp
  qed
qed

lemma known_name_mono: "known_name s n \<Longrightarrow> s \<le> s' \<Longrightarrow> known_name s' n"
  by (auto simp: known_name_def intro: order_trans)

lemma dec_pad_inj:
  assumes "0 \<le> a" "a < 10 ^ k" "0 \<le> b" "b < 10 ^ k" "dec_pad k a @ xs = dec_pad k b @ ys"
  shows "a = b"
  using dec_pad_less [of a b k xs ys] dec_pad_less [of b a k ys xs] assms by (cases a b rule: linorder_cases) auto

lemma new_name_fresh:
  assumes "known_name stamp n" "stamp < s" "0 \<le> stamp" "s < 2 ^ 63"
  shows "n \<noteq> segment_name s t"
proof
  assume eq: "n = segment_name s t"
  show False
  proof (cases "\<exists>s t. n = segment_name s t \<and> 0 \<le> s \<and> s \<le> stamp")
    case True
    then obtain s' t' where "segment_name s t = segment_name s' t'" "0 \<le> s'" "s' \<le> stamp" using eq by auto
    then show False using dec_pad_inj [of s 20 s'] assms by (simp add: segment_name_def)
  next
    case False
    then have "last n = CHR ''n''" using assms(1) by (auto simp: known_name_def dest: last_HasSuffix)
    then show False using eq by simp
  qed
qed

subsection \<open>The invariant\<close>

definition seg_pending :: "telemetrySpool \<Rightarrow> string \<Rightarrow> nat" where
  "seg_pending s n = sg_count (sp_segments s n) - sg_ack (sp_segments s n)"

text \<open>The records stand in blocks, one per segment with pending records, in the order of \<open>names\<close>.\<close>

definition layout :: "telemetrySpool \<Rightarrow> string list \<Rightarrow> bool" where
  "layout s names = (distinct names \<and> (\<forall>n\<in>set names. 0 < seg_pending s n)
     \<and> map tr_segment (sp_records s) = concat (map (\<lambda>n. replicate (seg_pending s n) n) names))"

text \<open>The active segment is the last block, or has nothing pending.\<close>

definition active_ok :: "telemetrySpool \<Rightarrow> string list \<Rightarrow> bool" where
  "active_ok s names = (\<forall>a. sp_active s = Some a \<longrightarrow>
     (if a \<in> set names then last names = a else sg_ack (sp_segments s a) = sg_count (sp_segments s a)))"

definition known :: "telemetrySpool \<Rightarrow> string set" where
  "known s = tr_segment ` set (sp_records s) \<union> set_option (sp_active s) \<union> set_option (sp_cleanup s)"

definition spool_wf :: "telemetrySpool \<Rightarrow> bool" where
  "spool_wf s =
     (sp_bytes s = (\<Sum>r\<leftarrow>sp_records s. tr_size r) \<and> 0 \<le> sp_lastStamp s
      \<and> (\<forall>n\<in>known s. known_name (sp_lastStamp s) n \<and> 0 \<le> sg_ackBytes (sp_segments s n)
            \<and> 0 \<le> sg_size (sp_segments s n) \<and> sg_ack (sp_segments s n) \<le> sg_count (sp_segments s n))
      \<and> (\<exists>names. layout s names \<and> active_ok s names)
      \<and> (\<forall>c. sp_cleanup s = Some c \<longrightarrow> c \<notin> tr_segment ` set (sp_records s) \<and> sp_active s \<noteq> Some c))"

definition in_file :: "world \<Rightarrow> telemetryRecord \<Rightarrow> bool" where
  "in_file w r = (0 \<le> tr_offset r \<and> 0 \<le> tr_size r
     \<and> (\<exists>c. disk w (tr_segment r) = Some c \<and> tr_offset r + tr_size r \<le> int (length c)))"

definition payload :: "world \<Rightarrow> telemetryRecord \<Rightarrow> bytes" where
  "payload w r = take (nat (tr_size r)) (drop (nat (tr_offset r)) (the (disk w (tr_segment r))))"

definition pending :: "world \<Rightarrow> bytes list" where
  "pending w = map (payload w) (sp_records (sp w))"

definition spool_disk :: "world \<Rightarrow> bool" where
  "spool_disk w =
     ((\<forall>r\<in>set (sp_records (sp w)). in_file w r)
      \<and> (\<forall>a. sp_active (sp w) = Some a \<longrightarrow>
           (\<exists>c. disk w a = Some c \<and> sg_size (sp_segments (sp w) a) \<le> int (length c))
           \<and> (\<forall>r\<in>set (sp_records (sp w)). tr_segment r = a \<longrightarrow> tr_offset r + tr_size r \<le> sg_size (sp_segments (sp w) a))))"

definition spool_inv :: "world \<Rightarrow> bool" where
  "spool_inv w = (spool_wf (sp w) \<and> spool_disk w)"

lemma known_simps [simp]:
  "r \<in> set (sp_records s) \<Longrightarrow> tr_segment r \<in> known s"
  "sp_active s = Some a \<Longrightarrow> a \<in> known s"
  "sp_cleanup s = Some a \<Longrightarrow> a \<in> known s"
  by (auto simp: known_def)

lemma spool_wfD:
  assumes "spool_wf s" "n \<in> known s"
  shows "known_name (sp_lastStamp s) n" "0 \<le> sg_ackBytes (sp_segments s n)" "0 \<le> sg_size (sp_segments s n)"
    "sg_ack (sp_segments s n) \<le> sg_count (sp_segments s n)"
  using assms by (auto simp: spool_wf_def)

text \<open>Changing files outside the pending ones, or beyond the committed end of the active one, is harmless.\<close>

definition stable :: "world \<Rightarrow> world \<Rightarrow> bool" where
  "stable w w' = (\<forall>n \<in> tr_segment ` set (sp_records (sp w)) \<union> set_option (sp_active (sp w)).
     disk w' n = disk w n
     \<or> sp_active (sp w) = Some n \<and> keeps_prefix (nat (sg_size (sp_segments (sp w) n))) (disk w n) (disk w' n))"

lemma payload_prefix:
  assumes "keeps_prefix n (disk w s) (disk w' s)" "disk w s = Some c" "n \<le> length c" "tr_segment r = s"
    "0 \<le> tr_offset r" "0 \<le> tr_size r" "tr_offset r + tr_size r \<le> int n"
  shows "in_file w' r" "payload w' r = payload w r"
proof -
  obtain c' where c': "disk w' s = Some c'" "n \<le> length c'" "take n c' = take n c"
    using assms(1-3) by (auto simp: keeps_prefix_def)
  then show "in_file w' r" using assms(4-7) by (auto simp: in_file_def)
  have le: "nat (tr_offset r) + nat (tr_size r) \<le> n" using assms(5-7) by linarith
  have cut: "take (nat (tr_size r)) (drop (nat (tr_offset r)) x)
      = take (nat (tr_size r)) (drop (nat (tr_offset r)) (take n x))" for x :: bytes
    using le by (simp add: drop_take)
  show "payload w' r = payload w r"
    unfolding payload_def assms(4) using cut [of c] cut [of c'] c' assms(2) by simp
qed

lemma payload_same:
  "disk w' (tr_segment r) = disk w (tr_segment r) \<Longrightarrow> payload w' r = payload w r \<and> in_file w' r = in_file w r"
  by (simp add: payload_def in_file_def)

lemma spool_stable:
  assumes inv: "spool_inv w" and st: "stable w w'" and s: "sp w' = sp w"
  shows "spool_inv w'" "pending w' = pending w"
proof -
  have wf: "spool_wf (sp w)" and dk: "spool_disk w" using inv by (simp_all add: spool_inv_def)
  have rec: "in_file w' r \<and> payload w' r = payload w r" if r: "r \<in> set (sp_records (sp w))" for r
  proof (cases "disk w' (tr_segment r) = disk w (tr_segment r)")
    case True
    moreover have "in_file w r" using dk r unfolding spool_disk_def by blast
    ultimately show ?thesis using payload_same [of w' r w] by simp
  next
    case False
    then have act: "sp_active (sp w) = Some (tr_segment r)"
      and kp: "keeps_prefix (nat (sg_size (sp_segments (sp w) (tr_segment r)))) (disk w (tr_segment r)) (disk w' (tr_segment r))"
      using st r by (auto simp: stable_def)
    have c4: "in_file w r" and c3: "tr_offset r + tr_size r \<le> sg_size (sp_segments (sp w) (tr_segment r))"
      using dk act r unfolding spool_disk_def by blast+
    obtain c where c: "disk w (tr_segment r) = Some c" "sg_size (sp_segments (sp w) (tr_segment r)) \<le> int (length c)"
      using dk act unfolding spool_disk_def by blast
    note sz = spool_wfD(3) [OF wf known_simps(1) [OF r]]
    have "0 \<le> tr_offset r" "0 \<le> tr_size r" using c4 by (simp_all add: in_file_def)
    then show ?thesis using payload_prefix [OF kp c(1) _ refl] c(2) c3 sz by simp
  qed
  then show "pending w' = pending w" by (simp add: pending_def s)
  have "\<exists>c. disk w' a = Some c \<and> sg_size (sp_segments (sp w) a) \<le> int (length c)" if a: "sp_active (sp w) = Some a" for a
  proof -
    obtain c where c: "disk w a = Some c" "sg_size (sp_segments (sp w) a) \<le> int (length c)"
      using dk a by (auto simp: spool_disk_def)
    have "disk w' a = disk w a \<or> keeps_prefix (nat (sg_size (sp_segments (sp w) a))) (disk w a) (disk w' a)"
      using st a by (auto simp: stable_def)
    then show ?thesis using c spool_wfD(3) [OF wf known_simps(2) [OF a]] by (auto simp: keeps_prefix_def)
  qed
  then show "spool_inv w'" using wf rec dk by (auto simp: spool_inv_def spool_disk_def s)
qed

lemma stable_refl [simp]: "stable w w"
  by (simp add: stable_def)

lemma changed_stable:
  assumes "changed_only S w w'" "S \<inter> (tr_segment ` set (sp_records (sp w)) \<union> set_option (sp_active (sp w))) = {}"
  shows "stable w w'"
  using assms by (auto simp: stable_def changed_only_def)

subsection \<open>Appending\<close>

text \<open>The encoding loop: one record per event, laid out one line after the other.\<close>

definition line_records :: "int \<Rightarrow> (bytes \<times> string) list \<Rightarrow> telemetryRecord list" where
  "line_records base ls = map (\<lambda>i. \<lparr>tr_segment = [],
     tr_offset = base + (\<Sum>(l, _)\<leftarrow>take i ls. int (length l) + 1),
     tr_size = int (length (fst (ls ! i))), tr_runID = snd (ls ! i)\<rparr>) [0..<length ls]"

definition line_data :: "(bytes \<times> string) list \<Rightarrow> bytes" where
  "line_data ls = concat (map (\<lambda>(l, _). l @ [newline]) ls)"

lemma line_data_snoc: "line_data (ls @ [(l, run)]) = line_data ls @ l @ [newline]"
  by (simp add: line_data_def)

lemma length_line_data: "int (length (line_data ls)) = (\<Sum>(l, _)\<leftarrow>ls. int (length l) + 1)"
  by (induction ls) (auto simp: line_data_def)

lemma line_records_snoc:
  "line_records base (ls @ [l]) = line_records base ls @
     [\<lparr>tr_segment = [], tr_offset = base + (\<Sum>(l, _)\<leftarrow>ls. int (length l) + 1),
       tr_size = int (length (fst l)), tr_runID = snd l\<rparr>]"
  by (simp add: line_records_def nth_append cong: map_cong)

lemma line_records_sizes: "(\<Sum>r\<leftarrow>line_records base ls. tr_size r) = (\<Sum>(l, _)\<leftarrow>ls. int (length l))"
  by (induction ls rule: rev_induct) (auto simp: line_records_snoc, simp add: line_records_def)

definition encodes :: "'e codec \<Rightarrow> 'e list \<Rightarrow> (bytes \<times> string) list \<Rightarrow> bool" where
  "encodes J events ls = list_all2 (\<lambda>e (l, run). Marshal J e = Inr l \<and> run = RunID J e
     \<and> int (length l) \<le> MaxEventBatchBytes) events ls"

lemma encode_loop:
  assumes "foldR (encode_body J) events ([], [], 0) = Inr (data, records, n)"
  shows "\<exists>ls. encodes J events ls \<and> data = line_data ls \<and> records = line_records 0 ls
    \<and> n = (\<Sum>(l, _)\<leftarrow>ls. int (length l))"
proof -
  have "(\<lambda>evs (data, records, n). \<exists>ls. encodes J evs ls \<and> data = line_data ls \<and> records = line_records 0 ls
    \<and> n = (\<Sum>(l, _)\<leftarrow>ls. int (length l))) events (data, records, n)"
  proof (rule foldR_invariant [OF assms])
    fix ys e zs t t'
    assume I: "case t of (data, records, n) \<Rightarrow> \<exists>ls. encodes J ys ls \<and> data = line_data ls
        \<and> records = line_records 0 ls \<and> n = (\<Sum>(l, _)\<leftarrow>ls. int (length l))" and s: "encode_body J e t = Inr t'"
    obtain ls where ls: "encodes J ys ls" "t = (line_data ls, line_records 0 ls, (\<Sum>(l, _)\<leftarrow>ls. int (length l)))"
      using I by (auto split: prod.splits)
    from s ls(2) obtain l where l: "Marshal J e = Inr l" "int (length l) \<le> MaxEventBatchBytes"
      and t': "t' = (line_data (ls @ [(l, RunID J e)]), line_records 0 (ls @ [(l, RunID J e)]),
        (\<Sum>(l, _)\<leftarrow>ls @ [(l, RunID J e)]. int (length l)))"
      by (auto simp: encode_body_def rbind_Inr_iff line_records_snoc length_line_data line_data_snoc)
    have "encodes J (ys @ [e]) (ls @ [(l, RunID J e)])"
      using ls(1) l by (simp add: encodes_def list_all2_appendI)
    then show "case t' of (data, records, n) \<Rightarrow> \<exists>ls. encodes J (ys @ [e]) ls \<and> data = line_data ls
        \<and> records = line_records 0 ls \<and> n = (\<Sum>(l, _)\<leftarrow>ls. int (length l))"
      unfolding t' by blast
  qed (auto simp: encodes_def line_data_def line_records_def)
  then show ?thesis by simp
qed

lemma line_payload:
  assumes "r \<in> set (line_records (int (length pre)) ls)"
  shows "0 \<le> tr_offset r" "0 \<le> tr_size r" "tr_offset r + tr_size r \<le> int (length (pre @ line_data ls))"
proof -
  from assms obtain i where i: "i < length ls" and r: "tr_offset r = int (length pre) + (\<Sum>(l, _)\<leftarrow>take i ls. int (length l) + 1)"
    "tr_size r = int (length (fst (ls ! i)))" by (auto simp: line_records_def)
  have ls: "ls = take i ls @ ls ! i # drop (Suc i) ls" using i by (rule id_take_nth_drop)
  have pos: "0 \<le> (\<Sum>(l, _)\<leftarrow>xs. int (length l) + 1)" for xs :: "(bytes \<times> string) list" by (induction xs) auto
  have "int (length (line_data ls)) = (\<Sum>(l, _)\<leftarrow>take i ls. int (length l) + 1) + (int (length (fst (ls ! i))) + 1)
      + (\<Sum>(l, _)\<leftarrow>drop (Suc i) ls. int (length l) + 1)"
    unfolding length_line_data by (subst ls) (simp add: split_beta)
  then show "tr_offset r + tr_size r \<le> int (length (pre @ line_data ls))" using r pos [of "drop (Suc i) ls"] by simp
  show "0 \<le> tr_offset r" "0 \<le> tr_size r" using r pos [of "take i ls"] by simp_all
qed

lemma line_payloads:
  "map (\<lambda>r. take (nat (tr_size r)) (drop (nat (tr_offset r)) (pre @ line_data ls))) (line_records (int (length pre)) ls)
    = map fst ls"
proof (rule nth_equalityI)
  show "length (map (\<lambda>r. take (nat (tr_size r)) (drop (nat (tr_offset r)) (pre @ line_data ls)))
      (line_records (int (length pre)) ls)) = length (map fst ls)" by (simp add: line_records_def)
  fix i assume "i < length (map (\<lambda>r. take (nat (tr_size r)) (drop (nat (tr_offset r)) (pre @ line_data ls)))
      (line_records (int (length pre)) ls))"
  then have i: "i < length ls" by (simp add: line_records_def)
  have ls: "ls = take i ls @ ls ! i # drop (Suc i) ls" using i by (rule id_take_nth_drop)
  have split: "line_data ls = line_data (take i ls) @ fst (ls ! i) @ newline # line_data (drop (Suc i) ls)"
    by (subst ls) (simp add: line_data_def split_beta)
  have off: "nat (int (length pre) + (\<Sum>(l, _)\<leftarrow>take i ls. int (length l) + 1)) = length pre + length (line_data (take i ls))"
    unfolding length_line_data [symmetric] by simp
  show "map (\<lambda>r. take (nat (tr_size r)) (drop (nat (tr_offset r)) (pre @ line_data ls)))
      (line_records (int (length pre)) ls) ! i = map fst ls ! i"
    using i by (simp add: line_records_def off split)
qed

lemma layout_extend:
  assumes lay: "layout s names" and a: "if a \<in> set names then last names = a else sg_ack (sp_segments s a) = sg_count (sp_segments s a)"
    and le: "sg_ack (sp_segments s a) \<le> sg_count (sp_segments s a)"
    and s': "sp_records s' = sp_records s @ rs" "\<forall>r\<in>set rs. tr_segment r = a"
      "\<And>n. n \<noteq> a \<Longrightarrow> sp_segments s' n = sp_segments s n"
      "sg_count (sp_segments s' a) = sg_count (sp_segments s a) + length rs" "sg_ack (sp_segments s' a) = sg_ack (sp_segments s a)"
  shows "\<exists>names'. layout s' names' \<and> (if a \<in> set names' then last names' = a
      else sg_ack (sp_segments s' a) = sg_count (sp_segments s' a))"
proof -
  have pa: "seg_pending s' a = seg_pending s a + length rs" using s'(4,5) le by (simp add: seg_pending_def)
  have pn: "seg_pending s' n = seg_pending s n" if "n \<noteq> a" for n using s'(3) [OF that] by (simp add: seg_pending_def)
  have mrs: "map tr_segment rs = replicate (length rs) a" using s'(2) by (simp add: map_replicate_const [symmetric] cong: map_cong)
  have same: "concat (map (\<lambda>n. replicate (seg_pending s' n) n) ns) = concat (map (\<lambda>n. replicate (seg_pending s n) n) ns)" if "a \<notin> set ns" for ns
    using that pn by (induction ns) auto
  have pos: "\<forall>n\<in>set ns. 0 < seg_pending s' n" if "a \<notin> set ns" "\<forall>n\<in>set ns. 0 < seg_pending s n" for ns
    using that pn by metis
  show ?thesis
  proof (cases "a \<in> set names")
    case True
    then obtain ns where ns: "names = ns @ [a]" using a by (metis append_butlast_last_id emptyE list.set(1))
    then have "a \<notin> set ns" using lay by (simp add: layout_def)
    then have "layout s' names" using lay ns s'(1) mrs pa same [of ns] pos [of ns]
      by (auto simp: layout_def replicate_add)
    then show ?thesis using True a by auto
  next
    case False
    have p0: "seg_pending s a = 0" using False a by (simp add: seg_pending_def)
    show ?thesis
    proof (cases "rs = []")
      case True
      then have "layout s' names" using lay False s'(1) same [of names] pos [of names] by (auto simp: layout_def)
      then show ?thesis using False a True s'(4,5) by auto
    next
      case ne: False
      then have "layout s' (names @ [a])" using lay False s'(1) mrs pa p0 same [of names] pos [of names]
        by (auto simp: layout_def)
      then show ?thesis by auto
    qed
  qed
qed

lemma spool_wf_layout:
  assumes "spool_wf s" "sp_active s = Some a"
  obtains names where "layout s names"
    "if a \<in> set names then last names = a else sg_ack (sp_segments s a) = sg_count (sp_segments s a)"
  using assms unfolding spool_wf_def active_ok_def by blast

text \<open>Committing the records of data that has just been written behind the committed end.\<close>

lemma commit_records_inv:
  assumes inv: "spool_inv w" and a: "sp_active (sp w) = Some a"
    and c: "disk w a = Some (pre @ line_data ls)" "int (length pre) = sg_size (sp_segments (sp w) a)"
  defines "w' \<equiv> w\<lparr>sp := commit_records a (line_data ls) (line_records 0 ls) (\<Sum>(l, _)\<leftarrow>ls. int (length l)) (sp w)\<rparr>"
  shows "spool_inv w'" "pending w' = pending w @ map fst ls"
proof -
  let ?s = "sp w" and ?s' = "sp w'"
  let ?rs = "map (\<lambda>r. r\<lparr>tr_segment := a\<rparr>) (line_records (int (length pre)) ls)"
  have wf: "spool_wf ?s" and dk: "spool_disk w" using inv by (simp_all add: spool_inv_def)
  have files: "disk w' = disk w" by (simp add: w'_def fun_eq_iff)
  have moved: "map (\<lambda>r. r\<lparr>tr_segment := a, tr_offset := tr_offset r + sg_size (sp_segments ?s a)\<rparr>) (line_records 0 ls) = ?rs"
    using c(2) by (simp add: line_records_def)
  have recs: "sp_records ?s' = sp_records ?s @ ?rs"
    by (simp add: w'_def commit_records_def Let_def moved)
  have segs: "sp_segments ?s' = (sp_segments ?s)(a := (sp_segments ?s a)\<lparr>sg_count := sg_count (sp_segments ?s a) + length ls,
      sg_size := sg_size (sp_segments ?s a) + int (length (line_data ls))\<rparr>)"
    by (simp add: w'_def commit_records_def Let_def line_records_def)
  have rest: "sp_active ?s' = Some a" "sp_lastStamp ?s' = sp_lastStamp ?s" "sp_cleanup ?s' = sp_cleanup ?s"
    "sp_bytes ?s' = sp_bytes ?s + (\<Sum>(l, _)\<leftarrow>ls. int (length l))"
    using a by (simp_all add: w'_def commit_records_def Let_def)
  note wa = spool_wfD [OF wf known_simps(2) [OF a]]
  have new: "in_file w' r" "tr_offset r + tr_size r \<le> sg_size (sp_segments ?s' a)" if "r \<in> set ?rs" for r
  proof -
    from that obtain r0 where r0: "r0 \<in> set (line_records (int (length pre)) ls)" "r = r0\<lparr>tr_segment := a\<rparr>" by auto
    note lp = line_payload [OF r0(1)]
    show "in_file w' r" using lp c(1) by (simp add: in_file_def files r0(2))
    show "tr_offset r + tr_size r \<le> sg_size (sp_segments ?s' a)" using lp(3) c(2) by (simp add: segs r0(2))
  qed
  have sizes: "(\<Sum>r\<leftarrow>?rs. tr_size r) = (\<Sum>(l, _)\<leftarrow>ls. int (length l))"
    using line_records_sizes [of "int (length pre)" ls] by (simp add: comp_def)
  obtain names where names: "layout ?s names"
    "if a \<in> set names then last names = a else sg_ack (sp_segments ?s a) = sg_count (sp_segments ?s a)"
    using spool_wf_layout [OF wf a] .
  have lay: "\<exists>names. layout ?s' names \<and> (if a \<in> set names then last names = a
      else sg_ack (sp_segments ?s' a) = sg_count (sp_segments ?s' a))"
    by (rule layout_extend [OF names wa(4) recs]) (auto simp: segs line_records_def)
  have kn: "known ?s' = known ?s \<union> (if ls = [] then {} else {a})"
    using recs rest a by (auto simp: known_def line_records_def)
  have "spool_wf ?s'"
    unfolding spool_wf_def
  proof (intro conjI)
    show "sp_bytes ?s' = (\<Sum>r\<leftarrow>sp_records ?s'. tr_size r)" "0 \<le> sp_lastStamp ?s'"
      using wf sizes by (simp_all add: recs rest spool_wf_def)
    show "\<forall>n\<in>known ?s'. known_name (sp_lastStamp ?s') n \<and> 0 \<le> sg_ackBytes (sp_segments ?s' n)
        \<and> 0 \<le> sg_size (sp_segments ?s' n) \<and> sg_ack (sp_segments ?s' n) \<le> sg_count (sp_segments ?s' n)"
      using wa spool_wfD [OF wf] by (auto simp: kn segs rest)
    show "\<exists>names. layout ?s' names \<and> active_ok ?s' names"
      using lay rest(1) by (simp add: active_ok_def)
    show "\<forall>c. sp_cleanup ?s' = Some c \<longrightarrow> c \<notin> tr_segment ` set (sp_records ?s') \<and> sp_active ?s' \<noteq> Some c"
      using wf a by (auto simp: spool_wf_def rest recs)
  qed
  moreover have "spool_disk w'"
    unfolding spool_disk_def rest
  proof (intro conjI allI impI ballI)
    fix r assume "r \<in> set (sp_records ?s')"
    then show "in_file w' r" using new(1) dk files by (auto simp: recs spool_disk_def in_file_def)
  next
    fix b assume b: "Some a = Some b"
    show "\<exists>c. disk w' b = Some c \<and> sg_size (sp_segments ?s' b) \<le> int (length c)"
      using b c by (simp add: files segs)
    fix r assume "r \<in> set (sp_records ?s')" "tr_segment r = b"
    then show "tr_offset r + tr_size r \<le> sg_size (sp_segments ?s' b)"
      using new(2) [of r] dk a b by (auto simp: recs spool_disk_def segs)
  qed
  ultimately show "spool_inv w'" by (simp add: spool_inv_def)
  have "map (payload w') ?rs = map fst ls"
    using line_payloads [of pre ls] c(1) by (simp add: payload_def files comp_def)
  moreover have "map (payload w') (sp_records ?s) = map (payload w) (sp_records ?s)"
    by (simp add: payload_def files)
  ultimately show "pending w' = pending w @ map fst ls" by (simp add: pending_def recs)
qed

text \<open>The clock: stamps fit into an \<^verbatim>\<open>int64\<close> and the next stamp does not overflow.\<close>

definition clock_ok :: "env \<Rightarrow> world \<Rightarrow> bool" where
  "clock_ok E w = ((\<forall>k. e_now E k < 2 ^ 63) \<and> sp_lastStamp (sp w) + 1 < 2 ^ 63)"

lemma new_active_inv:
  assumes inv: "spool_inv w" and act: "sp_active (sp w) = None" and fresh: "name \<notin> known (sp w)"
    and name: "known_name stamp name" "sp_lastStamp (sp w) < stamp" and c: "disk w name = Some c"
  defines "w' \<equiv> w\<lparr>sp := (sp w)\<lparr>sp_lastStamp := stamp, sp_active := Some name,
      sp_segments := (sp_segments (sp w))(name := zero_segment)\<rparr>\<rparr>"
  shows "spool_inv w'" "pending w' = pending w"
proof -
  have wf: "spool_wf (sp w)" and dk: "spool_disk w" using inv by (simp_all add: spool_inv_def)
  have ne: "tr_segment r \<noteq> name" if "r \<in> set (sp_records (sp w))" for r using that fresh by auto
  have kn: "known (sp w') = insert name (known (sp w))" using act by (auto simp: w'_def known_def)
  have seg: "sp_segments (sp w') n = sp_segments (sp w) n" if "n \<noteq> name" for n using that by (simp add: w'_def)
  obtain names where lay: "layout (sp w) names" using wf by (auto simp: spool_wf_def)
  have nn: "name \<notin> set names"
  proof
    assume "name \<in> set names"
    then have "name \<in> set (map tr_segment (sp_records (sp w)))" using lay unfolding layout_def by auto
    then show False using ne by auto
  qed
  have same: "concat (map (\<lambda>n. replicate (seg_pending (sp w') n) n) ns) = concat (map (\<lambda>n. replicate (seg_pending (sp w) n) n) ns)"
    if "name \<notin> set ns" for ns using that seg by (induction ns) (auto simp: seg_pending_def)
  have "\<forall>n\<in>set names. 0 < seg_pending (sp w') n"
    using lay nn seg unfolding layout_def seg_pending_def by metis
  then have "layout (sp w') names" using lay same [OF nn] unfolding layout_def by (simp add: w'_def)
  then have "spool_wf (sp w')" unfolding spool_wf_def
  proof (intro conjI)
    show "sp_bytes (sp w') = (\<Sum>r\<leftarrow>sp_records (sp w'). tr_size r)" "0 \<le> sp_lastStamp (sp w')"
      using wf name(2) by (simp_all add: w'_def spool_wf_def)
    show "\<forall>n\<in>known (sp w'). known_name (sp_lastStamp (sp w')) n \<and> 0 \<le> sg_ackBytes (sp_segments (sp w') n)
        \<and> 0 \<le> sg_size (sp_segments (sp w') n) \<and> sg_ack (sp_segments (sp w') n) \<le> sg_count (sp_segments (sp w') n)"
    proof
      fix n assume "n \<in> known (sp w')"
      then consider "n = name" | "n \<in> known (sp w)" "n \<noteq> name" using kn by blast
      then show "known_name (sp_lastStamp (sp w')) n \<and> 0 \<le> sg_ackBytes (sp_segments (sp w') n)
        \<and> 0 \<le> sg_size (sp_segments (sp w') n) \<and> sg_ack (sp_segments (sp w') n) \<le> sg_count (sp_segments (sp w') n)"
        using name spool_wfD [OF wf] known_name_mono [of "sp_lastStamp (sp w)" n stamp]
        by cases (simp_all add: w'_def zero_segment_def)
    qed
    show "\<exists>names. layout (sp w') names \<and> active_ok (sp w') names" if "layout (sp w') names"
      using that nn by (intro exI [of _ names]) (simp add: active_ok_def w'_def zero_segment_def)
    show "\<forall>c. sp_cleanup (sp w') = Some c \<longrightarrow> c \<notin> tr_segment ` set (sp_records (sp w')) \<and> sp_active (sp w') \<noteq> Some c"
      using wf fresh by (auto simp: spool_wf_def w'_def)
  qed
  moreover have "spool_disk w'" using dk ne c by (auto simp: spool_disk_def w'_def in_file_def zero_segment_def)
  ultimately show "spool_inv w'" by (simp add: spool_inv_def)
  show "pending w' = pending w" by (simp add: pending_def w'_def payload_def)
qed

abbreviation unharmed :: "world \<Rightarrow> world \<Rightarrow> bool" where
  "unharmed w w' \<equiv> spool_inv w' \<and> pending w' = pending w"

lemma write_segment_spec:
  assumes inv: "spool_inv w" and clk: "clock_ok E w"
  shows "wp (write_segment E (line_data ls)) (unharmed w) (\<lambda>name w'. unharmed w w' \<and> sp_active (sp w') = Some name
    \<and> (\<exists>pre. disk w' name = Some (pre @ line_data ls) \<and> int (length pre) = sg_size (sp_segments (sp w') name))) w"
proof (cases "sp_active (sp w)")
  case None
  let ?stamp = "max (e_now E (ops w)) (sp_lastStamp (sp w) + 1)"
  let ?name = "segment_name ?stamp (e_text E (ops w))"
  have wf: "spool_wf (sp w)" using inv by (simp add: spool_inv_def)
  have st: "sp_lastStamp (sp w) < ?stamp" "?stamp < 2 ^ 63" "0 \<le> sp_lastStamp (sp w)"
    using clk wf by (auto simp: clock_ok_def spool_wf_def)
  then have kn: "known_name ?stamp ?name" unfolding known_name_def
    by (intro disjI1 exI [of _ ?stamp] exI [of _ "e_text E (ops w)"]) simp
  have fresh: "?name \<notin> known (sp w)"
    using new_name_fresh [OF spool_wfD(1) [OF wf] st(1,3,2)] by blast
  have stable: "unharmed w w'" if "changed_only {?name} w w'" for w'
    using spool_stable [OF inv changed_stable [OF that] changed_only_sp [OF that]] fresh by (auto simp: known_def)
  let ?up = "\<lambda>s. s\<lparr>sp_lastStamp := ?stamp, sp_active := Some ?name, sp_segments := (sp_segments s)(?name := zero_segment)\<rparr>"
  have "wp (writeTelemetryFile E ?name (line_data ls)) (unharmed w)
      (\<lambda>_. wp (andThen (set_sp ?up) (\<lambda>_. ok ?name)) (unharmed w) (\<lambda>name w'. unharmed w w' \<and> sp_active (sp w') = Some name
      \<and> (\<exists>pre. disk w' name = Some (pre @ line_data ls) \<and> int (length pre) = sg_size (sp_segments (sp w') name)))) w"
  proof (rule wp_mono [OF writeTelemetryFile_spec])
    fix w' :: world and u assume w': "changed_only {?name} w w' \<and> disk w' ?name = Some (line_data ls)"
    then have u: "unharmed w w'" "sp w' = sp w" using stable changed_only_sp by blast+
    have "unharmed w (w'\<lparr>sp := ?up (sp w')\<rparr>)"
      using new_active_inv [of w' ?name ?stamp "line_data ls"] u None fresh kn st w' by simp
    then show "wp (andThen (set_sp ?up) (\<lambda>_. ok ?name)) (unharmed w) (\<lambda>name w'. unharmed w w' \<and> sp_active (sp w') = Some name
      \<and> (\<exists>pre. disk w' name = Some (pre @ line_data ls) \<and> int (length pre) = sg_size (sp_segments (sp w') name))) w'"
      using w' by (simp add: zero_segment_def)
  qed (use stable in blast)
  then show ?thesis using None by (simp add: wp_def write_segment_def Let_def andThen_def split: prod.splits sum.splits)
next
  case (Some a)
  have wf: "spool_wf (sp w)" using inv by (simp add: spool_inv_def)
  let ?off = "sg_size (sp_segments (sp w) a)"
  have off: "0 \<le> ?off" using spool_wfD(3) [OF wf known_simps(2) [OF Some]] .
  have stable: "unharmed w w'" if "changed_only {a} w w'" "keeps_prefix (nat ?off) (disk w a) (disk w' a)" for w'
  proof -
    have "stable w w'" unfolding stable_def
    proof
      fix n show "disk w' n = disk w n \<or> sp_active (sp w) = Some n
          \<and> keeps_prefix (nat (sg_size (sp_segments (sp w) n))) (disk w n) (disk w' n)"
        using that Some by (cases "n = a") (auto simp: changed_only_def)
    qed
    then show ?thesis using spool_stable [OF inv _ changed_only_sp [OF that(1)]] by blast
  qed
  have "wp (appendTelemetryFile E a (line_data ls) ?off False) (unharmed w)
      (\<lambda>_ w'. unharmed w w' \<and> sp_active (sp w') = Some a
      \<and> (\<exists>pre. disk w' a = Some (pre @ line_data ls) \<and> int (length pre) = sg_size (sp_segments (sp w') a))) w"
  proof (rule wp_mono [OF appendTelemetryFile_spec [OF off]])
    fix w' :: world and u :: unit
    assume w': "changed_only {a} w w' \<and> (\<exists>c. (disk w a = Some c \<or> disk w a = None \<and> c = [])
        \<and> nat ?off \<le> length c \<and> disk w' a = Some (take (nat ?off) c @ line_data ls))"
    then obtain c where c: "disk w a = Some c \<or> disk w a = None \<and> c = []" "nat ?off \<le> length c"
      "disk w' a = Some (take (nat ?off) c @ line_data ls)" by blast
    have "keeps_prefix (nat ?off) (disk w a) (disk w' a)" using c by (auto simp: keeps_prefix_def)
    moreover have "sp w' = sp w" using w' changed_only_sp by blast
    moreover have "int (length (take (nat ?off) c)) = ?off" using c(2) off by simp
    ultimately show "unharmed w w' \<and> sp_active (sp w') = Some a
        \<and> (\<exists>pre. disk w' a = Some (pre @ line_data ls) \<and> int (length pre) = sg_size (sp_segments (sp w') a))"
      using stable [OF conjunct1 [OF w']] Some c(3) by metis
  qed (use stable in blast)
  then show ?thesis using Some by (simp add: wp_def write_segment_def andThen_def ok_def split: prod.splits sum.splits)
qed

lemma seg_cond_records:
  assumes "layout s names" "n \<in> tr_segment ` set (sp_records s)"
  shows "n \<in> set names"
proof -
  have "n \<in> set (map tr_segment (sp_records s))" using assms(2) by auto
  then show ?thesis using assms(1) unfolding layout_def by auto
qed

text \<open>Forgetting the active segment, or remembering a segment without pending records for removal.\<close>

lemma layout_upd [simp]:
  "layout (s\<lparr>sp_active := x\<rparr>) = layout s" "layout (s\<lparr>sp_cleanup := x\<rparr>) = layout s"
  "layout (s\<lparr>sp_formatReady := y\<rparr>) = layout s"
  by (simp_all add: layout_def seg_pending_def fun_eq_iff)

lemma active_ok_upd [simp]:
  "active_ok (s\<lparr>sp_active := None\<rparr>) names" "active_ok (s\<lparr>sp_cleanup := x\<rparr>) = active_ok s"
  "active_ok (s\<lparr>sp_formatReady := y\<rparr>) = active_ok s"
  by (simp_all add: active_ok_def fun_eq_iff)

lemma spool_wf_seal: "spool_wf s \<Longrightarrow> spool_wf (s\<lparr>sp_active := None\<rparr>)"
  unfolding spool_wf_def by (simp add: known_def) blast

lemma spool_wf_cleanup:
  assumes "spool_wf s" "n \<notin> tr_segment ` set (sp_records s)" "sp_active s \<noteq> Some n"
    "known_name (sp_lastStamp s) n" "0 \<le> sg_ackBytes (sp_segments s n)" "0 \<le> sg_size (sp_segments s n)"
    "sg_ack (sp_segments s n) \<le> sg_count (sp_segments s n)"
  shows "spool_wf (s\<lparr>sp_cleanup := Some n\<rparr>)"
  using assms unfolding spool_wf_def by (simp add: known_def)

lemma unharmed_sp:
  assumes "spool_inv w" "spool_wf s'" "sp_records s' = sp_records (sp w)" "sp_active s' = None"
  shows "unharmed w (w\<lparr>sp := s'\<rparr>)"
  using assms by (simp add: spool_inv_def spool_disk_def pending_def in_file_def payload_def)

lemma rotate_spec:
  assumes inv: "spool_inv w"
  shows "wp (rotate E len) (unharmed w) (\<lambda>_ w'. unharmed w w' \<and> sp_lastStamp (sp w') = sp_lastStamp (sp w)) w"
proof (cases "\<exists>a. sp_active (sp w) = Some a \<and> sg_size (sp_segments (sp w) a) + len > telemetrySegmentBytes")
  case False
  then show ?thesis using inv by (auto simp: wp_def rotate_def Let_def split: option.splits)
next
  case True
  then obtain a where a: "sp_active (sp w) = Some a" "sg_size (sp_segments (sp w) a) + len > telemetrySegmentBytes" by blast
  define w1 where "w1 = w\<lparr>sp := (sp w)\<lparr>sp_active := None\<rparr>\<rparr>"
  have wf: "spool_wf (sp w)" using inv by (simp add: spool_inv_def)
  have u1: "unharmed w w1" unfolding w1_def by (rule unharmed_sp [OF inv spool_wf_seal [OF wf]]) simp_all
  show ?thesis
  proof (cases "sg_ack (sp_segments (sp w) a) = sg_count (sp_segments (sp w) a)")
    case False
    then show ?thesis using a u1 by (simp add: wp_def rotate_def Let_def w1_def)
  next
    case drained: True
    obtain names where names: "layout (sp w) names"
      "if a \<in> set names then last names = a else sg_ack (sp_segments (sp w) a) = sg_count (sp_segments (sp w) a)"
      using spool_wf_layout [OF wf a(1)] .
    have "a \<notin> set names" using names(1) drained by (auto simp: layout_def seg_pending_def)
    then have na: "a \<notin> tr_segment ` set (sp_records (sp w))" using seg_cond_records [OF names(1)] by blast
    have stable: "unharmed w w'" "sp w' = sp w1" if "changed_only {a, a @ ''.ack''} w1 w'" for w'
    proof -
      have "{a, a @ ''.ack''} \<inter> (tr_segment ` set (sp_records (sp w1)) \<union> set_option (sp_active (sp w1))) = {}"
        using na known_name_facts(2) [OF spool_wfD(1) [OF wf known_simps(1)], THEN not_sym] by (auto simp: w1_def)
      then show "unharmed w w'"
        using spool_stable [OF conjunct1 [OF u1] changed_stable [OF that] changed_only_sp [OF that]] u1 by simp
      show "sp w' = sp w1" using changed_only_sp [OF that] .
    qed
    have cl: "unharmed w (w'\<lparr>sp := (sp w')\<lparr>sp_cleanup := Some a\<rparr>\<rparr>)" if "changed_only {a, a @ ''.ack''} w1 w'" for w'
    proof -
      note st = stable [OF that]
      have "spool_wf (sp w')" using st(1) by (simp add: spool_inv_def)
      then have "spool_wf ((sp w')\<lparr>sp_cleanup := Some a\<rparr>)"
        by (rule spool_wf_cleanup) (use na st(2) spool_wfD [OF wf known_simps(2) [OF a(1)]] in \<open>auto simp: w1_def\<close>)
      then show ?thesis using unharmed_sp [OF conjunct1 [OF st(1)], of "(sp w')\<lparr>sp_cleanup := Some a\<rparr>"] st by (simp add: w1_def)
    qed
    have "wp (removeSegment E a) (\<lambda>w'. changed_only {a, a @ ''.ack''} w1 w') (\<lambda>_ w'. changed_only {a, a @ ''.ack''} w1 w') w1"
      by (rule wp_mono [OF removeSegment_spec]) auto
    then show ?thesis
    proof (cases rule: wpE)
      case (err e w')
      then show ?thesis using a drained cl by (simp add: wp_def rotate_def Let_def w1_def [symmetric])
    next
      case (val x w')
      then show ?thesis using a drained stable [OF val(2)]
        by (simp add: wp_def rotate_def Let_def w1_def [symmetric]) (simp add: w1_def)
    qed
  qed
qed

text \<open>Appending: all events become pending, in order, or nothing changes.\<close>

lemma spool_inv_format:
  assumes "spool_inv w" "changed_only {telemetryFormatMarker} w (w'\<lparr>sp := sp w\<rparr>)" "sp w' = (sp w)\<lparr>sp_formatReady := b\<rparr>"
  shows "unharmed w w'"
proof -
  have wf: "spool_wf (sp w)" using assms(1) by (simp add: spool_inv_def)
  have "tr_segment ` set (sp_records (sp w)) \<union> set_option (sp_active (sp w)) \<subseteq> known (sp w)" by (auto simp: known_def)
  then have "{telemetryFormatMarker} \<inter> (tr_segment ` set (sp_records (sp w)) \<union> set_option (sp_active (sp w))) = {}"
    using known_name_facts(1) [OF spool_wfD(1) [OF wf]] by blast
  from spool_stable [OF assms(1) changed_stable [OF assms(2) this]]
  have "unharmed w (w'\<lparr>sp := sp w\<rparr>)" by simp
  then show ?thesis
    using assms(3) by (simp add: spool_inv_def spool_disk_def pending_def in_file_def payload_def
        spool_wf_def known_def)
qed

lemma appendLog_spec:
  assumes inv: "spool_inv w" and clk: "clock_ok E w"
  shows "wp (appendLog E J events) (unharmed w)
    (\<lambda>_ w'. \<exists>ls. encodes J events ls \<and> spool_inv w' \<and> pending w' = pending w @ map fst ls) w"
proof -
  let ?Q = "\<lambda>(_ :: unit) w'. \<exists>ls. encodes J events ls \<and> spool_inv w' \<and> pending w' = pending w @ map fst ls"
  have body: "wp (andThen (rotate E (int (length (line_data ls)))) (\<lambda>_. andThen (write_segment E (line_data ls)) (\<lambda>name.
      set_sp (commit_records name (line_data ls) (line_records 0 ls) (\<Sum>(l, _)\<leftarrow>ls. int (length l)))))) (unharmed w) ?Q w1"
    if w1: "unharmed w w1" "sp_lastStamp (sp w1) = sp_lastStamp (sp w)" and ls: "encodes J events ls" for w1 ls
  proof -
    have "wp (rotate E (int (length (line_data ls)))) (unharmed w) (\<lambda>_. wp (andThen (write_segment E (line_data ls)) (\<lambda>name.
        set_sp (commit_records name (line_data ls) (line_records 0 ls) (\<Sum>(l, _)\<leftarrow>ls. int (length l))))) (unharmed w) ?Q) w1"
    proof (rule wp_mono [OF rotate_spec [OF conjunct1 [OF w1(1)]]])
      fix w2 :: world and u :: unit assume w2: "unharmed w1 w2 \<and> sp_lastStamp (sp w2) = sp_lastStamp (sp w1)"
      then have c2: "clock_ok E w2" using clk w1(2) by (simp add: clock_ok_def)
      have "wp (write_segment E (line_data ls)) (unharmed w) (\<lambda>name. wp (set_sp (commit_records name (line_data ls)
          (line_records 0 ls) (\<Sum>(l, _)\<leftarrow>ls. int (length l)))) (unharmed w) ?Q) w2"
      proof (rule wp_mono [OF write_segment_spec [OF conjunct1 [OF conjunct1 [OF w2]] c2, of ls]])
        fix name :: string and w3 :: world
        assume w3: "unharmed w2 w3 \<and> sp_active (sp w3) = Some name \<and> (\<exists>pre. disk w3 name = Some (pre @ line_data ls)
            \<and> int (length pre) = sg_size (sp_segments (sp w3) name))"
        then obtain pre where "disk w3 name = Some (pre @ line_data ls)" "int (length pre) = sg_size (sp_segments (sp w3) name)" by blast
        from commit_records_inv [OF _ _ this] w3 w2 w1 ls
        show "wp (set_sp (commit_records name (line_data ls) (line_records 0 ls) (\<Sum>(l, _)\<leftarrow>ls. int (length l)))) (unharmed w) ?Q w3"
          by auto
      qed (use w1 w2 in auto)
      then show "wp (andThen (write_segment E (line_data ls)) (\<lambda>name.
        set_sp (commit_records name (line_data ls) (line_records 0 ls) (\<Sum>(l, _)\<leftarrow>ls. int (length l))))) (unharmed w) ?Q w2" by simp
    qed (use w1 in auto)
    then show ?thesis by simp
  qed
  show ?thesis unfolding appendLog_def wp_andThen
  proof (rule wp_mono [OF ensureLogFormat_spec])
    fix w1 assume w1: "changed_only {telemetryFormatMarker} w w1"
    then show "unharmed w w1"
      using spool_inv_format [OF inv, of w1 "sp_formatReady (sp w)"] changed_only_sp [OF w1]
      by (simp add: changed_only_def)
  next
    fix w1 :: world and u :: unit
    assume "changed_only {telemetryFormatMarker} w (w1\<lparr>sp := sp w\<rparr>) \<and> sp w1 = (sp w)\<lparr>sp_formatReady := True\<rparr>"
    then have u1: "unharmed w w1" "sp_lastStamp (sp w1) = sp_lastStamp (sp w)" using spool_inv_format [OF inv] by auto
    show "wp (attempt (foldR (encode_body J) events ([], [], 0))) (unharmed w) (\<lambda>x. wp (case x of (data, records, bytes) \<Rightarrow>
        if int (length data) > 67108864 then raise (Fail ''telemetry segment exceeds size limit'')
        else andThen (rotate E (int (length data))) (\<lambda>_. andThen (write_segment E data) (\<lambda>name.
          set_sp (commit_records name data records bytes)))) (unharmed w) ?Q) w1"
    proof (cases "foldR (encode_body J) events ([], [], 0)")
      case (Inl e)
      then show ?thesis using u1 by simp
    next
      case (Inr d)
      obtain data records n where d: "d = (data, records, n)" by (cases d) auto
      from encode_loop [OF Inr [unfolded d]] obtain ls where ls: "encodes J events ls" "data = line_data ls"
        "records = line_records 0 ls" "n = (\<Sum>(l, _)\<leftarrow>ls. int (length l))" by blast
      show ?thesis using body [OF u1 ls(1)] u1 by (simp add: Inr d ls(2-))
    qed
  qed
qed

end
