(* ===== verification/Telemetry_Ack.thy ===== *)
theory Telemetry_Ack
  imports Telemetry_Queue
begin

text \<open>
  Acknowledging a delivered prefix: the committed records leave the queue, the others stay, and the
  loop always ends, for every environment.
\<close>

lemma layout_first:
  assumes "layout s names" "sp_records s = first # rs"
  obtains ns where "names = tr_segment first # ns"
proof (cases names)
  case Nil
  then show ?thesis using assms by (simp add: layout_def)
next
  case (Cons n ns)
  then obtain k where "seg_pending s n = Suc k" using assms(1) by (auto simp: layout_def gr0_conv_Suc)
  then have "tr_segment first = n" using assms Cons by (simp add: layout_def)
  then show ?thesis using that Cons by blast
qed

lemma layout_drop:
  assumes lay: "layout s (name # ns)" and act: "active_ok s (name # ns)"
    and n: "n \<le> seg_pending s name" and le: "sg_ack (sp_segments s name) \<le> sg_count (sp_segments s name)"
    and s': "sp_records s' = drop n (sp_records s)" "sp_active s' = sp_active s"
      "\<And>m. m \<noteq> name \<Longrightarrow> sp_segments s' m = sp_segments s m"
      "sg_count (sp_segments s' name) = sg_count (sp_segments s name)"
      "sg_ack (sp_segments s' name) = sg_ack (sp_segments s name) + n"
  shows "\<exists>names. layout s' names \<and> active_ok s' names \<and> (n = seg_pending s name \<longrightarrow> name \<notin> set names)"
proof -
  have p: "seg_pending s' name = seg_pending s name - n" using s'(4,5) by (simp add: seg_pending_def)
  have q: "seg_pending s' m = seg_pending s m" if "m \<noteq> name" for m using s'(3) [OF that] by (simp add: seg_pending_def)
  have nn: "name \<notin> set ns" "distinct ns" using lay by (simp_all add: layout_def)
  have same: "concat (map (\<lambda>m. replicate (seg_pending s' m) m) ns) = concat (map (\<lambda>m. replicate (seg_pending s m) m) ns)"
    using nn q by (metis (mono_tags, lifting) map_eq_conv)
  have pos: "\<forall>m\<in>set ns. 0 < seg_pending s' m" using lay nn q unfolding layout_def by (metis list.set_intros(2))
  have recs: "map tr_segment (sp_records s') = replicate (seg_pending s name - n) name
      @ concat (map (\<lambda>m. replicate (seg_pending s m) m) ns)"
    using lay n by (simp add: layout_def s'(1) drop_map [symmetric])
  have act_ns: "last ns = a" if "sp_active s = Some a" "a \<in> set ns" for a
    using act that by (auto simp: active_ok_def split: if_splits)
  have act_out: "sg_ack (sp_segments s a) = sg_count (sp_segments s a)" if "sp_active s = Some a" "a \<notin> set (name # ns)" for a
    using act that by (auto simp: active_ok_def split: if_splits)
  show ?thesis
  proof (cases "n = seg_pending s name")
    case True
    have "layout s' ns" using True recs same pos nn by (simp add: layout_def)
    moreover have "active_ok s' ns" unfolding active_ok_def s'(2)
    proof (intro allI impI)
      fix a assume a: "sp_active s = Some a"
      show "if a \<in> set ns then last ns = a else sg_ack (sp_segments s' a) = sg_count (sp_segments s' a)"
        using act_ns [OF a] act_out [OF a] s'(3-5) True le by (cases "a = name") (auto simp: seg_pending_def)
    qed
    ultimately show ?thesis using nn by blast
  next
    case False
    then have "layout s' (name # ns)" using n p recs same pos nn by (simp add: layout_def)
    moreover have "active_ok s' (name # ns)" unfolding active_ok_def s'(2)
    proof (intro allI impI)
      fix a assume a: "sp_active s = Some a"
      show "if a \<in> set (name # ns) then last (name # ns) = a else sg_ack (sp_segments s' a) = sg_count (sp_segments s' a)"
        using a act act_out [OF a] s'(3) by (auto simp: active_ok_def split: if_splits)
    qed
    ultimately show ?thesis using False by blast
  qed
qed

lemma drop_records_inv:
  assumes inv: "spool_inv w" and first: "sp_records (sp w) = first # rs" and name: "name = tr_segment first"
    and n: "n \<le> seg_pending (sp w) name"
    and seg: "sg_count seg' = sg_count (sp_segments (sp w) name)" "sg_size seg' = sg_size (sp_segments (sp w) name)"
      "sg_ack seg' = sg_ack (sp_segments (sp w) name) + n" "0 \<le> sg_ackBytes seg'"
    and w': "sp w' = (sp w)\<lparr>sp_bytes := sp_bytes (sp w) - (\<Sum>r\<leftarrow>take n (sp_records (sp w)). tr_size r),
        sp_records := drop n (sp_records (sp w)), sp_segments := (sp_segments (sp w))(name := seg')\<rparr>"
      "\<And>m. m \<in> known (sp w) \<Longrightarrow> disk w' m = disk w m"
  shows "spool_inv w'" "pending w' = drop n (pending w)"
    "n = seg_pending (sp w) name \<Longrightarrow> name \<notin> tr_segment ` set (sp_records (sp w'))"
proof -
  have wf: "spool_wf (sp w)" and dk: "spool_disk w" using inv by (simp_all add: spool_inv_def)
  have kn: "name \<in> known (sp w)" using first name by (simp add: known_def)
  note wn = spool_wfD [OF wf kn]
  obtain names where names: "layout (sp w) names" "active_ok (sp w) names" using wf by (auto simp: spool_wf_def)
  then obtain ns where ns: "names = name # ns" using layout_first [OF names(1) first] name by blast
  have "\<exists>names. layout (sp w') names \<and> active_ok (sp w') names \<and> (n = seg_pending (sp w) name \<longrightarrow> name \<notin> set names)"
    by (rule layout_drop [OF names [unfolded ns] n wn(4)]) (use w'(1) seg in auto)
  then obtain names' where names': "layout (sp w') names'" "active_ok (sp w') names'"
    "n = seg_pending (sp w) name \<longrightarrow> name \<notin> set names'" by blast
  have sub: "set (sp_records (sp w')) \<subseteq> set (sp_records (sp w))" using w'(1) by (simp add: set_drop_subset)
  have kn': "known (sp w') \<subseteq> known (sp w)" using sub w'(1) by (auto simp: known_def)
  have bytes: "sp_bytes (sp w') = (\<Sum>r\<leftarrow>sp_records (sp w'). tr_size r)"
  proof -
    have "(\<Sum>r\<leftarrow>sp_records (sp w). tr_size r) = (\<Sum>r\<leftarrow>take n (sp_records (sp w)) @ drop n (sp_records (sp w)). tr_size r)" by simp
    also have "\<dots> = (\<Sum>r\<leftarrow>take n (sp_records (sp w)). tr_size r) + (\<Sum>r\<leftarrow>drop n (sp_records (sp w)). tr_size r)"
      by (simp only: map_append sum_list.append)
    finally show ?thesis using wf w'(1) by (simp add: spool_wf_def)
  qed
  have "spool_wf (sp w')" unfolding spool_wf_def
  proof (intro conjI)
    show "\<forall>m\<in>known (sp w'). known_name (sp_lastStamp (sp w')) m \<and> 0 \<le> sg_ackBytes (sp_segments (sp w') m)
        \<and> 0 \<le> sg_size (sp_segments (sp w') m) \<and> sg_ack (sp_segments (sp w') m) \<le> sg_count (sp_segments (sp w') m)"
      using kn' spool_wfD [OF wf] wn seg n by (auto simp: w'(1) seg_pending_def)
    show "\<forall>c. sp_cleanup (sp w') = Some c \<longrightarrow> c \<notin> tr_segment ` set (sp_records (sp w')) \<and> sp_active (sp w') \<noteq> Some c"
      using wf sub by (auto simp: spool_wf_def w'(1))
  qed (use bytes names' wf w'(1) in \<open>auto simp: spool_wf_def\<close>)
  moreover have "spool_disk w'" unfolding spool_disk_def
  proof (intro conjI ballI allI impI)
    fix r assume "r \<in> set (sp_records (sp w'))"
    then have r: "r \<in> set (sp_records (sp w))" using sub by blast
    then show "in_file w' r" using dk w'(2) [OF known_simps(1) [OF r]] by (simp add: spool_disk_def in_file_def)
  next
    fix a assume "sp_active (sp w') = Some a"
    then have a: "sp_active (sp w) = Some a" by (simp add: w'(1))
    have sz: "sg_size (sp_segments (sp w') a) = sg_size (sp_segments (sp w) a)" using seg(2) by (simp add: w'(1))
    show "\<exists>c. disk w' a = Some c \<and> sg_size (sp_segments (sp w') a) \<le> int (length c)"
      using dk a w'(2) [OF known_simps(2) [OF a]] sz by (simp add: spool_disk_def)
    fix r assume "r \<in> set (sp_records (sp w'))" "tr_segment r = a"
    then show "tr_offset r + tr_size r \<le> sg_size (sp_segments (sp w') a)"
      using dk a sub sz unfolding spool_disk_def by auto
  qed
  ultimately show "spool_inv w'" by (simp add: spool_inv_def)
  have "payload w' r = payload w r" if "r \<in> set (sp_records (sp w))" for r
    using w'(2) [OF known_simps(1) [OF that]] by (simp add: payload_def)
  then show "pending w' = drop n (pending w)"
    using sub by (simp add: pending_def drop_map w'(1)) (meson in_set_dropD)
  show "name \<notin> tr_segment ` set (sp_records (sp w'))" if "n = seg_pending (sp w) name"
    using that names' seg_cond_records [OF names'(1)] by blast
qed

definition ack_write :: "env \<Rightarrow> string \<Rightarrow> nat \<Rightarrow> unit act" where
  "ack_write E name next = (if HasSuffix name ''.jsonl'' then acknowledgeLog E name next
     else writeTelemetryFile E (name @ ''.ack'') (str_bytes (Itoa (int next))))"

lemma ack_write_spec:
  assumes "0 \<le> sg_ackBytes (sp_segments (sp w) name)"
  shows "wp (ack_write E name next) (changed_only {name @ ''.ack''} w)
    (\<lambda>_ w'. \<exists>ab\<ge>0. sp w' = (sp w)\<lparr>sp_segments := (sp_segments (sp w))(name := (sp_segments (sp w) name)\<lparr>sg_ackBytes := ab\<rparr>)\<rparr>
      \<and> (\<forall>m. m \<noteq> name @ ''.ack'' \<longrightarrow> disk w' m = disk w m)) w"
proof (cases "HasSuffix name ''.jsonl''")
  case True
  let ?g = "\<lambda>s. s\<lparr>sp_segments := (sp_segments s)(name := (sp_segments s name)
      \<lparr>sg_ackBytes := sg_ackBytes (sp_segments s name) + int (length (ack_frame next))\<rparr>)\<rparr>"
  have "wp (appendTelemetryFile E (name @ ''.ack'') (ack_frame next) (sg_ackBytes (sp_segments (sp w) name)) True)
      (changed_only {name @ ''.ack''} w) (\<lambda>_. wp (set_sp ?g) (changed_only {name @ ''.ack''} w)
      (\<lambda>_ w'. \<exists>ab\<ge>0. sp w' = (sp w)\<lparr>sp_segments := (sp_segments (sp w))(name := (sp_segments (sp w) name)\<lparr>sg_ackBytes := ab\<rparr>)\<rparr>
      \<and> (\<forall>m. m \<noteq> name @ ''.ack'' \<longrightarrow> disk w' m = disk w m))) w"
    by (rule wp_mono [OF appendTelemetryFile_spec [OF assms]])
      (use assms in \<open>auto simp: changed_only_def intro!: exI [of _ "sg_ackBytes (sp_segments (sp w) name) + int (length (ack_frame next))"]\<close>)
  then have "wp (\<lambda>w. acknowledgeLog E name next w) (changed_only {name @ ''.ack''} w)
    (\<lambda>_ w'. \<exists>ab\<ge>0. sp w' = (sp w)\<lparr>sp_segments := (sp_segments (sp w))(name := (sp_segments (sp w) name)\<lparr>sg_ackBytes := ab\<rparr>)\<rparr>
      \<and> (\<forall>m. m \<noteq> name @ ''.ack'' \<longrightarrow> disk w' m = disk w m)) w"
    by (simp only: wp_andThen [symmetric]) (simp only: wp_def acknowledgeLog_def)
  then show ?thesis using True by (simp add: ack_write_def)
next
  case False
  have "wp (writeTelemetryFile E (name @ ''.ack'') (str_bytes (Itoa (int next)))) (changed_only {name @ ''.ack''} w)
    (\<lambda>_ w'. \<exists>ab\<ge>0. sp w' = (sp w)\<lparr>sp_segments := (sp_segments (sp w))(name := (sp_segments (sp w) name)\<lparr>sg_ackBytes := ab\<rparr>)\<rparr>
      \<and> (\<forall>m. m \<noteq> name @ ''.ack'' \<longrightarrow> disk w' m = disk w m)) w"
    by (rule wp_mono [OF writeTelemetryFile_spec])
      (use assms in \<open>auto simp: changed_only_def intro!: exI [of _ "sg_ackBytes (sp_segments (sp w) name)"]\<close>)
  then show ?thesis using False by (simp add: ack_write_def)
qed

lemma removed_unharmed:
  assumes inv: "spool_inv w" and n: "known_name (sp_lastStamp (sp w)) n" "n \<notin> tr_segment ` set (sp_records (sp w))"
    "sp_active (sp w) \<noteq> Some n" and ch: "changed_only {n, n @ ''.ack''} w w'"
  shows "unharmed w w'"
proof -
  have wf: "spool_wf (sp w)" using inv by (simp add: spool_inv_def)
  have "m \<noteq> n @ ''.ack''" if "m \<in> known (sp w)" for m
    using known_name_facts(2) [OF spool_wfD(1) [OF wf that]] .
  then have "{n, n @ ''.ack''} \<inter> (tr_segment ` set (sp_records (sp w)) \<union> set_option (sp_active (sp w))) = {}"
    using n(2,3) by (auto simp: known_def)
  then show ?thesis using spool_stable [OF inv changed_stable [OF ch] changed_only_sp [OF ch]] by simp
qed

lemma cleanup_inv:
  assumes "spool_inv w" "known_name (sp_lastStamp (sp w)) n" "n \<notin> tr_segment ` set (sp_records (sp w))"
    "sp_active (sp w) \<noteq> Some n" "0 \<le> sg_ackBytes (sp_segments (sp w) n)" "0 \<le> sg_size (sp_segments (sp w) n)"
    "sg_ack (sp_segments (sp w) n) \<le> sg_count (sp_segments (sp w) n)"
  shows "unharmed w (w\<lparr>sp := (sp w)\<lparr>sp_cleanup := Some n\<rparr>\<rparr>)"
proof -
  have "spool_wf ((sp w)\<lparr>sp_cleanup := Some n\<rparr>)"
    using assms by (intro spool_wf_cleanup) (auto simp: spool_inv_def)
  then show ?thesis using assms(1) by (simp add: spool_inv_def spool_disk_def pending_def in_file_def payload_def)
qed

text \<open>One iteration: the committed count grows, or the error is returned with what is committed so far.\<close>

definition ack_result :: "world \<Rightarrow> nat \<Rightarrow> nat \<Rightarrow> ((nat \<times> go_err option) \<times> world) option \<Rightarrow> bool" where
  "ack_result w count committed res = (\<exists>c err w'. res = Some ((c, err), w') \<and> spool_inv w' \<and> committed \<le> c \<and> c \<le> count
     \<and> pending w' = drop (c - committed) (pending w) \<and> (err = None \<longrightarrow> c = count)
     \<and> sp_lastStamp (sp w') = sp_lastStamp (sp w))"

lemma ack_step:
  assumes inv: "spool_inv w" and first: "sp_records (sp w) = first # rs" and lt: "committed < count"
    and len: "count - committed \<le> length (sp_records (sp w))"
    and rec: "\<And>w' n. 0 < n \<Longrightarrow> n \<le> count - committed \<Longrightarrow> spool_inv w' \<Longrightarrow> pending w' = drop n (pending w) \<Longrightarrow>
      sp_lastStamp (sp w') = sp_lastStamp (sp w) \<Longrightarrow> ack_result w' count (committed + n) (ack_loop E fuel count (committed + n) w')"
  shows "ack_result w count committed (ack_loop E (Suc fuel) count committed w)"
proof -
  define name where "name = tr_segment first"
  define seg where "seg = sp_segments (sp w) name"
  define n where "n = min (count - committed) (sg_count seg - sg_ack seg)"
  have wf: "spool_wf (sp w)" using inv by (simp add: spool_inv_def)
  have kn: "name \<in> known (sp w)" using first by (simp add: known_def name_def)
  note wn = spool_wfD [OF wf kn, folded seg_def]
  obtain names where names: "layout (sp w) names" using wf by (auto simp: spool_wf_def)
  then obtain ns where "names = name # ns" using layout_first [OF names first] name_def by blast
  then have "0 < seg_pending (sp w) name" using names by (simp add: layout_def)
  then have n: "0 < n" "n \<le> count - committed" "n \<le> seg_pending (sp w) name"
    using lt by (auto simp: n_def seg_pending_def seg_def)
  have full: "sg_ack seg + n = sg_count seg \<longleftrightarrow> n = seg_pending (sp w) name"
    using wn(4) n by (auto simp: seg_pending_def seg_def)
  have unfold: "ack_loop E (Suc fuel) count committed w =
      (case ack_write E name (sg_ack seg + n) w of
         (Inl e, w1) \<Rightarrow> Some ((committed, Some e), w1)
       | (Inr _, w1) \<Rightarrow>
         let w2 = w1\<lparr>sp := drop_records name n (sg_ack seg + n) (sp w1)\<rparr> in
         if sg_ack seg + n = sg_count seg \<and> Some name \<noteq> sp_active (sp w2)
         then (case removeSegment E name w2 of
             (Inl e, w3) \<Rightarrow> Some ((committed + n, Some e), w3\<lparr>sp := (sp w3)\<lparr>sp_cleanup := Some name\<rparr>\<rparr>)
           | (Inr _, w3) \<Rightarrow> ack_loop E fuel count (committed + n) w3)
         else ack_loop E fuel count (committed + n) w2)"
    using lt first unfolding ack_write_def n_def seg_def name_def Let_def
    by (subst ack_loop.simps, unfold Let_def) simp
  have chain: "ack_result w count committed r"
    if "ack_result w' count (committed + n) r" "pending w' = drop n (pending w)" "sp_lastStamp (sp w') = sp_lastStamp (sp w)" for w' r
  proof -
    from that(1) obtain c err w'' where r: "r = Some ((c, err), w'')" "spool_inv w''" "committed + n \<le> c" "c \<le> count"
      "pending w'' = drop (c - (committed + n)) (pending w')" "err = None \<longrightarrow> c = count"
      "sp_lastStamp (sp w'') = sp_lastStamp (sp w')" unfolding ack_result_def by blast
    have "pending w'' = drop (c - committed) (pending w)" using r(3,5) that(2) by simp
    then show ?thesis unfolding ack_result_def using r that(3) by auto
  qed
  show ?thesis
  proof (cases rule: wpE [OF ack_write_spec [of w name E "sg_ack seg + n", folded seg_def, OF wn(2)]])
    case (1 e w1)
    have "{name @ ''.ack''} \<inter> (tr_segment ` set (sp_records (sp w)) \<union> set_option (sp_active (sp w))) = {}"
      using known_name_facts(2) [OF spool_wfD(1) [OF wf], THEN not_sym] by (auto simp: known_def)
    then have "unharmed w w1" "sp w1 = sp w"
      using spool_stable [OF inv changed_stable [OF 1(2)] changed_only_sp [OF 1(2)]] changed_only_sp [OF 1(2)] by auto
    then show ?thesis using lt by (simp add: unfold 1 ack_result_def)
  next
    case (2 u w1)
    from 2(2) obtain ab where ab: "ab \<ge> 0" "sp w1 = (sp w)\<lparr>sp_segments := (sp_segments (sp w))(name := seg\<lparr>sg_ackBytes := ab\<rparr>)\<rparr>"
      "\<forall>m. m \<noteq> name @ ''.ack'' \<longrightarrow> disk w1 m = disk w m" by blast
    define w2 where "w2 = w1\<lparr>sp := drop_records name n (sg_ack seg + n) (sp w1)\<rparr>"
    have unfold2: "ack_loop E (Suc fuel) count committed w =
        (if sg_ack seg + n = sg_count seg \<and> Some name \<noteq> sp_active (sp w2)
         then (case removeSegment E name w2 of
             (Inl e, w3) \<Rightarrow> Some ((committed + n, Some e), w3\<lparr>sp := (sp w3)\<lparr>sp_cleanup := Some name\<rparr>\<rparr>)
           | (Inr _, w3) \<Rightarrow> ack_loop E fuel count (committed + n) w3)
         else ack_loop E fuel count (committed + n) w2)"
      unfolding unfold 2(1) w2_def Let_def prod.case sum.case by (rule refl)
    define seg' where "seg' = seg\<lparr>sg_ackBytes := ab, sg_ack := sg_ack seg + n\<rparr>"
    have sp2: "sp w2 = (sp w)\<lparr>sp_bytes := sp_bytes (sp w) - (\<Sum>r\<leftarrow>take n (sp_records (sp w)). tr_size r),
        sp_records := drop n (sp_records (sp w)), sp_segments := (sp_segments (sp w))(name := seg')\<rparr>"
      by (simp add: w2_def drop_records_def ab(2) seg'_def)
    have dk2: "disk w2 m = disk w m" if "m \<in> known (sp w)" for m
      using ab(3) known_name_facts(2) [OF spool_wfD(1) [OF wf that]] by (simp add: w2_def)
    have seg': "sg_count seg' = sg_count (sp_segments (sp w) name)" "sg_size seg' = sg_size (sp_segments (sp w) name)"
      "sg_ack seg' = sg_ack (sp_segments (sp w) name) + n" "0 \<le> sg_ackBytes seg'"
      by (simp_all add: seg'_def seg_def ab(1))
    note D = drop_records_inv [OF inv first name_def n(3) seg' sp2 dk2]
    have st2: "sp_lastStamp (sp w2) = sp_lastStamp (sp w)" "sp_segments (sp w2) name = seg'" "sp_active (sp w2) = sp_active (sp w)"
      by (simp_all add: sp2)
    show ?thesis
    proof (cases "sg_ack seg + n = sg_count seg \<and> Some name \<noteq> sp_active (sp w2)")
      case False
      then have "ack_loop E (Suc fuel) count committed w = ack_loop E fuel count (committed + n) w2"
        unfolding unfold2 by (rule if_not_P)
      then show ?thesis using chain [OF rec [OF n(1,2) D(1,2) st2(1)] D(2) st2(1)] by simp
    next
      case True
      have out: "name \<notin> tr_segment ` set (sp_records (sp w2))" using D(3) full True by blast
      have kn2: "known_name (sp_lastStamp (sp w2)) name" using wn(1) st2(1) by simp
      have safe: "unharmed w2 w3 \<and> sp w3 = sp w2" if "changed_only {name, name @ ''.ack''} w2 w3" for w3
        using removed_unharmed [OF D(1) kn2 out _ that] True changed_only_sp [OF that] by auto
      show ?thesis
      proof (cases rule: wpE [OF removeSegment_spec [of E name w2]])
        case (1 e w3)
        note s3 = safe [OF 1(2)]
        have "unharmed w3 (w3\<lparr>sp := (sp w3)\<lparr>sp_cleanup := Some name\<rparr>\<rparr>)"
          using s3 out kn2 True st2(2) seg' wn n full
          by (intro cleanup_inv) (auto simp: seg_def seg_pending_def)
        then show ?thesis using n s3 D(2) lt st2(1) True
          by (simp add: unfold2 1(1) ack_result_def)
      next
        case (2 x w3)
        have s3: "unharmed w2 w3 \<and> sp w3 = sp w2" using safe 2(2) by blast
        then have p3: "pending w3 = drop n (pending w)" "sp_lastStamp (sp w3) = sp_lastStamp (sp w)" using D(2) st2(1) by auto
        have "ack_loop E (Suc fuel) count committed w = ack_loop E fuel count (committed + n) w3"
          using True by (simp add: unfold2 2(1))
        then show ?thesis using chain [OF rec [OF n(1,2) conjunct1 [OF conjunct1 [OF s3]] p3] p3] by simp
      qed
    qed
  qed
qed

lemma ack_loop_spec:
  assumes "spool_inv w" "committed \<le> count" "count - committed \<le> length (sp_records (sp w))" "count - committed \<le> fuel"
  shows "ack_result w count committed (ack_loop E fuel count committed w)"
  using assms
proof (induction fuel arbitrary: committed w)
  case 0
  then show ?case by (subst ack_loop.simps) (simp add: ack_result_def)
next
  case (Suc fuel)
  show ?case
  proof (cases "committed < count")
    case False
    then show ?thesis using Suc.prems by (subst ack_loop.simps) (simp add: ack_result_def)
  next
    case True
    then obtain first rs where first: "sp_records (sp w) = first # rs"
      using Suc.prems(3) by (cases "sp_records (sp w)") auto
    show ?thesis
    proof (rule ack_step [OF Suc.prems(1) first True Suc.prems(3)])
      fix w' n assume n: "0 < n" "n \<le> count - committed" and w': "spool_inv w'" "pending w' = drop n (pending w)"
      have "length (sp_records (sp w')) = length (sp_records (sp w)) - n"
        using arg_cong [OF w'(2), of length] by (simp add: pending_def)
      then show "ack_result w' count (committed + n) (ack_loop E fuel count (committed + n) w')"
        using n Suc.prems w'(1) by (intro Suc.IH) auto
    qed
  qed
qed

lemma acknowledge_spec:
  assumes "spool_inv w" "count \<le> length (sp_records (sp w))"
  shows "ack_result w count 0 (acknowledge E count w)"
  using ack_loop_spec [of w 0 count count E] assms by (simp add: acknowledge_def)

end
