(* ===== verification/Telemetry_Window.thy ===== *)
theory Telemetry_Window
  imports Telemetry_Ack
begin

text \<open>
  The window that is sent to the Controller: \<^verbatim>\<open>marshalPrefix\<close> returns a batch that holds the first
  pending payloads, unchanged and in order, within the receiver's limits.
\<close>

subsection \<open>Choosing the window\<close>

definition sizes :: "telemetryRecord list \<Rightarrow> int" where
  "sizes rs = (\<Sum>r\<leftarrow>rs. tr_size r)"

lemma sizes_simps [simp]: "sizes [] = 0" "sizes (r # rs) = tr_size r + sizes rs" "sizes (xs @ ys) = sizes xs + sizes ys"
  by (simp_all add: sizes_def)

lemma window_count_spec:
  assumes "window_count header rs count sz = Inr (c, sz')"
    and "count > 0 \<Longrightarrow> header + sz + int count + 1 \<le> MaxEventBatchBytes"
    and "int count \<le> MaxEventBatchEvents" "count > 1 \<Longrightarrow> sz \<le> telemetryWindowBytes"
  shows "count \<le> c \<and> c - count \<le> length rs \<and> sz' = sz + sizes (take (c - count) rs)
    \<and> (c > 0 \<longrightarrow> header + sz' + int c + 1 \<le> MaxEventBatchBytes) \<and> int c \<le> MaxEventBatchEvents
    \<and> (c > 1 \<longrightarrow> sz' \<le> telemetryWindowBytes) \<and> (rs \<noteq> [] \<longrightarrow> c > 0)"
  using assms
proof (induction header rs count sz rule: window_count.induct)
  case (2 header r rs count sz)
  show ?case
  proof (cases "count > 0 \<and> (int count \<ge> telemetryWindowEvents \<or> sz + tr_size r > telemetryWindowBytes)
      \<or> header + sz + tr_size r + int count + 2 > MaxEventBatchBytes")
    case True
    then show ?thesis using 2(2-) by (auto split: if_splits)
  next
    case False
    then have w: "window_count header rs (count + 1) (sz + tr_size r) = Inr (c, sz')" using 2(2) by auto
    have "count + 1 \<le> c \<and> c - (count + 1) \<le> length rs \<and> sz' = sz + tr_size r + sizes (take (c - (count + 1)) rs)
        \<and> (c > 0 \<longrightarrow> header + sz' + int c + 1 \<le> MaxEventBatchBytes) \<and> int c \<le> MaxEventBatchEvents
        \<and> (c > 1 \<longrightarrow> sz' \<le> telemetryWindowBytes) \<and> (rs \<noteq> [] \<longrightarrow> c > 0)"
    proof (rule 2(1))
      show "\<not> (count > 0 \<and> (int count \<ge> telemetryWindowEvents \<or> sz + tr_size r > telemetryWindowBytes))"
        "\<not> header + sz + tr_size r + int count + 2 > MaxEventBatchBytes" using False by auto
      show "int (count + 1) \<le> MaxEventBatchEvents"
        using False 2(4) by (cases "count = 0") (auto simp: telemetryWindowEvents_def MaxEventBatchEvents_def)
    qed (use False w in auto)
    moreover from this have "take (c - count) (r # rs) = r # take (c - (count + 1)) rs" by (simp add: take_Cons')
    ultimately show ?thesis by auto
  qed
qed auto

subsection \<open>Copying the payloads\<close>

definition comma :: bytes where "comma = str_bytes '',''"

definition joined :: "bytes list \<Rightarrow> bytes" where
  "joined ps = (case ps of [] \<Rightarrow> [] | p # ps \<Rightarrow> p @ concat (map (\<lambda>q. comma @ q) ps))"

lemma get_file_spec: "wp (get_file n) (\<lambda>w'. w' = w) (\<lambda>c w'. w' = w \<and> disk w n = Some c) w"
  by (simp add: wp_def get_file_def split: option.splits)

lemma read_section_spec:
  "wp (read_section E opened r) (changed_only {} w) (\<lambda>s w'. changed_only {} w w' \<and> s = payload w r) w"
  by (auto simp: act_defs read_section_def get_file_def payload_def changed_only_def split: option.splits)

lemma copy_records_spec:
  "wp (copy_records E J rs opened data) (changed_only {} w)
     (\<lambda>d w'. changed_only {} w w' \<and> d = data @ (if opened = None then joined (map (payload w) rs)
        else concat (map (\<lambda>r. comma @ payload w r) rs))) w"
proof (induction E J rs opened data arbitrary: w rule: copy_records.induct)
  case (2 E J r rs opened data)
  show ?case unfolding copy_records.simps wp_andThen
  proof (rule wp_mono [OF read_section_spec])
    fix s :: bytes and w1 :: world assume w1: "changed_only {} w w1 \<and> s = payload w r"
    then have pay: "payload w1 q = payload w q" for q by (simp add: payload_def changed_only_def)
    show "wp (if int (length s) < tr_size r then raise (Fail ''unexpected EOF'')
        else if \<not> Valid J s then raise (Fail ''invalid telemetry JSON'')
        else copy_records E J rs (Some (tr_segment r)) ((if opened = None then data else data @ str_bytes '','') @ s))
        (changed_only {} w) (\<lambda>d w'. changed_only {} w w' \<and> d = data @ (if opened = None then joined (map (payload w) (r # rs))
        else concat (map (\<lambda>r. comma @ payload w r) (r # rs)))) w1"
    proof (cases "int (length s) < tr_size r \<or> \<not> Valid J s")
      case True
      then show ?thesis using w1 by auto
    next
      case False
      have "wp (copy_records E J rs (Some (tr_segment r)) ((if opened = None then data else data @ str_bytes '','') @ s))
        (changed_only {} w) (\<lambda>d w'. changed_only {} w w' \<and> d = data @ (if opened = None then joined (map (payload w) (r # rs))
        else concat (map (\<lambda>r. comma @ payload w r) (r # rs)))) w1"
        by (rule wp_mono [OF 2]) (use False w1 pay in \<open>auto simp: joined_def comma_def comp_def intro: changed_only_trans\<close>)
      then show ?thesis using False by simp
    qed
  qed
qed (simp add: joined_def)

lemma clean_up_spec:
  assumes inv: "spool_inv w"
  shows "wp (clean_up E) (unharmed w) (\<lambda>_ w'. unharmed w w' \<and> sp_records (sp w') = sp_records (sp w)
    \<and> sp_lastStamp (sp w') = sp_lastStamp (sp w)) w"
proof (cases "sp_cleanup (sp w)")
  case None
  then show ?thesis using inv by (simp add: wp_def clean_up_def)
next
  case (Some n)
  have wf: "spool_wf (sp w)" using inv by (simp add: spool_inv_def)
  have n: "known_name (sp_lastStamp (sp w)) n" "n \<notin> tr_segment ` set (sp_records (sp w))" "sp_active (sp w) \<noteq> Some n"
    using wf Some spool_wfD(1) [OF wf known_simps(3) [OF Some]] unfolding spool_wf_def by blast+
  have safe: "unharmed w w' \<and> sp w' = sp w" if "changed_only {n, n @ ''.ack''} w w'" for w'
    using removed_unharmed [OF inv n that] changed_only_sp [OF that] by blast
  have "wp (removeSegment E n) (unharmed w) (\<lambda>_. wp (set_sp (\<lambda>s. s\<lparr>sp_cleanup := None\<rparr>)) (unharmed w)
      (\<lambda>_ w'. unharmed w w' \<and> sp_records (sp w') = sp_records (sp w) \<and> sp_lastStamp (sp w') = sp_lastStamp (sp w))) w"
  proof (rule wp_mono [OF removeSegment_spec])
    fix w' :: world and u :: unit assume "changed_only {n, n @ ''.ack''} w w' \<and> disk w' n = None"
    then have s: "unharmed w w' \<and> sp w' = sp w" using safe by blast
    then have "spool_wf (sp w')" using wf by simp
    then have "spool_wf ((sp w')\<lparr>sp_cleanup := None\<rparr>)"
      unfolding spool_wf_def by (simp add: known_def)
    then have "unharmed w' (w'\<lparr>sp := (sp w')\<lparr>sp_cleanup := None\<rparr>\<rparr>)"
      using conjunct1 [OF conjunct1 [OF s]] by (simp add: spool_inv_def spool_disk_def pending_def in_file_def payload_def)
    then show "wp (set_sp (\<lambda>s. s\<lparr>sp_cleanup := None\<rparr>)) (unharmed w)
      (\<lambda>_ w'. unharmed w w' \<and> sp_records (sp w') = sp_records (sp w) \<and> sp_lastStamp (sp w') = sp_lastStamp (sp w)) w'"
      using s by simp
  qed (use safe in blast)
  then show ?thesis using Some by (simp only: wp_andThen [symmetric]) (simp add: wp_def clean_up_def)
qed

subsection \<open>The batch\<close>

definition batch_ok :: "bytes \<Rightarrow> bytes list \<Rightarrow> bytes \<times> nat \<Rightarrow> bool" where
  "batch_ok agent ps dc =
     (let (data, count) = dc in
      count \<le> length ps \<and> (count = 0 \<longleftrightarrow> ps = []) \<and> int count \<le> MaxEventBatchEvents
      \<and> (count > 0 \<longrightarrow> data = batch_open @ agent @ batch_mid @ joined (take count ps) @ batch_close
           \<and> int (length data) \<le> MaxEventBatchBytes)
      \<and> (count > 1 \<longrightarrow> int (length (concat (take count ps))) \<le> telemetryWindowBytes))"

lemma length_joined: "ps \<noteq> [] \<Longrightarrow> int (length (joined ps)) = int (length (concat ps)) + int (length ps) - 1"
proof -
  have "length (concat (map (\<lambda>q. comma @ q) ps)) = length (concat ps) + length ps" for ps
    by (induction ps) (auto simp: comma_def str_bytes_def)
  then show "ps \<noteq> [] \<Longrightarrow> int (length (joined ps)) = int (length (concat ps)) + int (length ps) - 1"
    by (cases ps) (auto simp: joined_def)
qed

lemma payload_length: "in_file w r \<Longrightarrow> int (length (payload w r)) = tr_size r"
  by (auto simp: in_file_def payload_def min_def)

lemma sizes_payloads:
  "\<forall>r\<in>set rs. in_file w r \<Longrightarrow> sizes rs = int (length (concat (map (payload w) rs)))"
  by (induction rs) (auto simp: payload_length)

lemma marshalPrefix_spec:
  assumes inv: "spool_inv w"
  shows "wp (marshalPrefix E J agentID) (unharmed w) (\<lambda>dc w'. unharmed w w' \<and> sp_lastStamp (sp w') = sp_lastStamp (sp w)
    \<and> (\<exists>agent. Marshal_string J agentID = Inr agent \<and> batch_ok agent (pending w) dc)) w"
  unfolding marshalPrefix_def wp_andThen
proof (rule wp_mono [OF clean_up_spec [OF inv]])
  let ?Q = "\<lambda>dc w'. unharmed w w' \<and> sp_lastStamp (sp w') = sp_lastStamp (sp w)
    \<and> (\<exists>agent. Marshal_string J agentID = Inr agent \<and> batch_ok agent (pending w) dc)"
  fix w1 :: world and u :: unit
  assume w1: "unharmed w w1 \<and> sp_records (sp w1) = sp_records (sp w) \<and> sp_lastStamp (sp w1) = sp_lastStamp (sp w)"
  let ?rs = "sp_records (sp w1)"
  have rec: "\<forall>r\<in>set ?rs. in_file w1 r" using w1 by (simp add: spool_inv_def spool_disk_def)
  have pend: "pending w = map (payload w1) ?rs" using w1 unfolding pending_def by metis
  show "wp (attempt (Marshal_string J agentID)) (unharmed w) (\<lambda>x. wp (\<lambda>w. let header = batch_open @ x @ batch_mid in
     case window_count (int (length header)) (sp_records (sp w)) 0 0 of
       Inl e \<Rightarrow> (Inl e, w)
     | Inr (count, sz) \<Rightarrow>
         if count = 0 then (Inr ([], 0), w)
         else andThen (copy_records E J (take count (sp_records (sp w))) None header) (\<lambda>data.
           ok (data @ batch_close, count)) w) (unharmed w) ?Q) w1"
  proof (cases "Marshal_string J agentID")
    case (Inl e)
    then show ?thesis using w1 by simp
  next
    case (Inr agent)
    let ?h = "batch_open @ agent @ batch_mid"
    show ?thesis
    proof (cases "window_count (int (length ?h)) ?rs 0 0")
      case err: (Inl e)
      show ?thesis unfolding Inr wp_attempt sum.case unfolding wp_def Let_def err using w1 by simp
    next
      case val: (Inr cs)
      obtain c sz where cs: "cs = (c, sz)" by fastforce
      from window_count_spec [OF val [unfolded cs]]
      have c: "c \<le> length ?rs" "sz = sizes (take c ?rs)" "c > 0 \<longrightarrow> int (length ?h) + sz + int c + 1 \<le> MaxEventBatchBytes"
        "int c \<le> MaxEventBatchEvents" "c > 1 \<longrightarrow> sz \<le> telemetryWindowBytes" "?rs \<noteq> [] \<longrightarrow> c > 0"
        by (auto simp: MaxEventBatchEvents_def)
      have sz: "sz = int (length (concat (take c (pending w))))"
        using sizes_payloads [of "take c ?rs" w1] rec c(2) in_set_takeD [of _ c ?rs] by (simp add: pend take_map)
      have zero: "batch_ok agent (pending w) ([], 0)" if "c = 0" using c(6) that pend by (simp add: batch_ok_def MaxEventBatchEvents_def)
      have some: "batch_ok agent (pending w) (?h @ joined (take c (pending w)) @ batch_close, c)" if "c > 0"
      proof -
        have plen: "length (pending w) = length ?rs" by (simp add: pend)
        then have ne: "take c (pending w) \<noteq> []" using that c(1) by auto
        have jl: "int (length (joined (take c (pending w)))) = sz + int c - 1"
          using length_joined [OF ne] sz plen c(1) by simp
        have cl: "length batch_close = 2" by (simp add: batch_close_def str_bytes_def)
        have "int (length (?h @ joined (take c (pending w)) @ batch_close)) \<le> MaxEventBatchBytes"
          using jl cl c(3) that by simp
        then show ?thesis using that c(1,4,5) sz plen ne by (auto simp: batch_ok_def)
      qed
      have "wp (copy_records E J (take c ?rs) None ?h) (unharmed w) (\<lambda>data. wp (ok (data @ batch_close, c)) (unharmed w) ?Q) w1"
        if "c > 0"
      proof (rule wp_mono [OF copy_records_spec])
        fix w2 assume "changed_only {} w1 w2"
        then show "unharmed w w2" using spool_stable [OF conjunct1 [OF conjunct1 [OF w1]] changed_stable] w1 changed_only_sp by simp
      next
        fix d :: bytes and w2 :: world
        assume d: "changed_only {} w1 w2 \<and> d = ?h @ (if None = None then joined (map (payload w1) (take c ?rs))
            else concat (map (\<lambda>r. comma @ payload w1 r) (take c ?rs)))"
        then have "unharmed w w2" "sp w2 = sp w1"
          using spool_stable [OF conjunct1 [OF conjunct1 [OF w1]] changed_stable, of "{}" w2] w1 changed_only_sp by auto
        moreover have "map (payload w1) (take c ?rs) = take c (pending w)" by (simp add: pend take_map)
        ultimately show "wp (ok (d @ batch_close, c)) (unharmed w) ?Q w2"
          using some [OF that] Inr w1 d by simp
      qed
      then have "wp (andThen (copy_records E J (take c ?rs) None ?h) (\<lambda>data. ok (data @ batch_close, c))) (unharmed w) ?Q w1"
        if "c > 0" using that by (simp only: wp_andThen)
      then show ?thesis unfolding Inr wp_attempt sum.case unfolding wp_def Let_def val cs using zero w1 by (cases "c = 0") auto
    qed
  qed
qed (use inv in simp)

end
