(* ===== verification/Event_Batch.thy ===== *)
theory Event_Batch
  imports Telemetry_Window
begin

text \<open>
  \<^verbatim>\<open>internal/model/event_batch.go\<close>: the encoding of the longest prefix of events that fits the receiver's
  limits, and the admission check of single events. \<^verbatim>\<open>json.Marshal\<close> is the codec's \<open>Marshal\<close>; an
  \<^verbatim>\<open>Encoder\<close> writes the same bytes and a newline in one call of \<^verbatim>\<open>Write\<close>.
\<close>

record 'e EventBatch =
  eb_AgentID :: string
  eb_Events :: "'e list"

subsection \<open>Encoding a prefix\<close>

fun prefix_loop :: "'e codec \<Rightarrow> 'e list \<Rightarrow> bytes \<Rightarrow> nat \<Rightarrow> (bytes \<times> nat) result" where
  "prefix_loop J [] data count = Inr (data, count)"
| "prefix_loop J (event # events) data count =
     (case Marshal J event of
        Inl e \<Rightarrow> if count > 0 then Inr (data, count) else Inl (Fail ''encode telemetry event'')
      | Inr encoded \<Rightarrow>
         let separator = (if count > 0 then 1 else 0) in
         if int (length data) + separator + int (length encoded) + 2 > MaxEventBatchBytes
         then (if count > 0 then Inr (data, count)
               else Inl (Fail ''encoded telemetry event exceeds batch limit''))
         else prefix_loop J events
                ((if count > 0 then data @ str_bytes '','' else data) @ encoded) (count + 1))"

definition MarshalEventBatchPrefix :: "'e codec \<Rightarrow> string \<Rightarrow> 'e list \<Rightarrow> (bytes \<times> nat) result" where
  "MarshalEventBatchPrefix J agentID events =
     rbind (Marshal_string J agentID) (\<lambda>agent.
     let data = batch_open @ agent @ batch_mid in
     rbind (check (int (length data) + 2 > MaxEventBatchBytes) ''event batch envelope exceeds limit'') (\<lambda>_.
     rbind (prefix_loop J (take (nat (min (int (length events)) MaxEventBatchEvents)) events) data 0) (\<lambda>(data, count).
     Inr (data @ batch_close, count))))"

subsection \<open>Validating the sizes of single events\<close>

definition eventSizeLimit_Write :: "int \<Rightarrow> bytes \<Rightarrow> int result" where
  "eventSizeLimit_Write limit data =
     (if int (length data) - 1 > limit then Inl (Fail ''encoded telemetry event exceeds batch limit'')
      else Inr (int (length data)))"

definition encode_event :: "'e codec \<Rightarrow> int \<Rightarrow> 'e \<Rightarrow> unit \<Rightarrow> unit result" where
  "encode_event J limit event u =
     rbind (Marshal J event) (\<lambda>encoded. rbind (eventSizeLimit_Write limit (encoded @ [newline])) (\<lambda>_. Inr ()))"

definition ValidateEventSizes :: "'e codec \<Rightarrow> 'e EventBatch \<Rightarrow> unit result" where
  "ValidateEventSizes J batch =
     (if eb_Events batch = [] then Inr ()
      else rbind (Marshal_string J (eb_AgentID batch)) (\<lambda>agent.
      let overhead = int (length batch_open) + int (length agent) + int (length (batch_mid @ batch_close)) in
      rbind (check (overhead > MaxEventBatchBytes) ''event batch envelope exceeds limit'') (\<lambda>_.
      foldR (encode_event J (MaxEventBatchBytes - overhead)) (eb_Events batch) ())))"

subsection \<open>The prefix is maximal\<close>

definition encodings :: "'e codec \<Rightarrow> 'e list \<Rightarrow> bytes list" where
  "encodings J es = map (\<lambda>e. projr (Marshal J e)) es"

definition envelope :: "bytes \<Rightarrow> bytes list \<Rightarrow> bytes" where
  "envelope agent ps = batch_open @ agent @ batch_mid @ joined ps @ batch_close"

lemma joined_snoc: "joined (ps @ [p]) = (if ps = [] then p else joined ps @ comma @ p)"
  by (cases ps) (auto simp: joined_def)

text \<open>
  The loop from a state in which \<open>done\<close> has been written: it stops after \<open>done @ take c events\<close>, at the end
  or in front of an event that cannot be encoded or does not fit.
\<close>

lemma prefix_loop_spec:
  assumes "prefix_loop J events (hdr @ joined (encodings J done)) (length done) = Inr (data, count)"
    and "\<forall>e\<in>set done. \<not> isl (Marshal J e)" "int (length (hdr @ joined (encodings J done))) + 2 \<le> MaxEventBatchBytes"
  shows "\<exists>c\<le>length events. count = length done + c \<and> data = hdr @ joined (encodings J (done @ take c events))
    \<and> (\<forall>e\<in>set (done @ take c events). \<not> isl (Marshal J e)) \<and> int (length data) + 2 \<le> MaxEventBatchBytes
    \<and> (c < length events \<longrightarrow> 0 < count \<and> (isl (Marshal J (events ! c))
         \<or> int (length (hdr @ joined (encodings J (done @ take (Suc c) events)))) + 2 > MaxEventBatchBytes))"
  using assms
proof (induction events arbitrary: "done")
  case Nil
  then show ?case by auto
next
  case (Cons e es)
  let ?d = "hdr @ joined (encodings J done)"
  show ?case
  proof (cases "Marshal J e")
    case (Inl err)
    then show ?thesis using Cons.prems by (intro exI [of _ 0]) (auto split: if_splits)
  next
    case (Inr enc)
    have more: "hdr @ joined (encodings J (done @ [e])) = (if length done > 0 then ?d @ str_bytes '','' else ?d) @ enc"
      using Inr by (simp add: encodings_def joined_snoc comma_def) (simp add: joined_def)
    have sep: "int (length ?d) + (if length done > 0 then 1 else 0) + int (length enc) + 2
        = int (length (hdr @ joined (encodings J (done @ [e])))) + 2"
      unfolding more by (simp add: str_bytes_def)
    show ?thesis
    proof (cases "int (length (hdr @ joined (encodings J (done @ [e])))) + 2 > MaxEventBatchBytes")
      case True
      then show ?thesis using Cons.prems Inr sep by (intro exI [of _ 0]) (auto simp: Let_def split: if_splits)
    next
      case False
      then have "prefix_loop J es (hdr @ joined (encodings J (done @ [e]))) (length (done @ [e])) = Inr (data, count)"
        using Cons.prems(1) Inr sep unfolding more by (simp add: Let_def split: if_splits)
      from Cons.IH [OF this] Cons.prems(2) Inr False obtain c where c: "c \<le> length es" "count = length (done @ [e]) + c"
        "data = hdr @ joined (encodings J ((done @ [e]) @ take c es))"
        "\<forall>x\<in>set ((done @ [e]) @ take c es). \<not> isl (Marshal J x)" "int (length data) + 2 \<le> MaxEventBatchBytes"
        "c < length es \<longrightarrow> 0 < count \<and> (isl (Marshal J (es ! c))
           \<or> int (length (hdr @ joined (encodings J ((done @ [e]) @ take (Suc c) es)))) + 2 > MaxEventBatchBytes)" by auto
      then show ?thesis by (intro exI [of _ "Suc c"]) simp
    qed
  qed
qed

lemma envelope_length: "int (length (envelope agent ps)) = int (length (batch_open @ agent @ batch_mid @ joined ps)) + 2"
  by (simp add: envelope_def batch_close_def str_bytes_def)

text \<open>
  C19. \<^verbatim>\<open>MarshalEventBatchPrefix\<close> returns the envelope of a prefix of the events that respects both limits,
  and the longest such prefix: it ends early only at an event that cannot be encoded or with which
  the encoded batch would exceed the byte limit.
\<close>

theorem MarshalEventBatchPrefix_longest:
  assumes "MarshalEventBatchPrefix J agentID events = Inr (data, count)" "Marshal_string J agentID = Inr agent"
  shows "count \<le> length events \<and> int count \<le> MaxEventBatchEvents
    \<and> data = envelope agent (encodings J (take count events)) \<and> int (length data) \<le> MaxEventBatchBytes
    \<and> (\<forall>e\<in>set (take count events). \<not> isl (Marshal J e))
    \<and> (count < length events \<longrightarrow> int count = MaxEventBatchEvents \<or> isl (Marshal J (events ! count))
        \<or> int (length (envelope agent (encodings J (take (Suc count) events)))) > MaxEventBatchBytes)"
proof -
  let ?hdr = "batch_open @ agent @ batch_mid"
  define lim where "lim = nat (min (int (length events)) MaxEventBatchEvents)"
  have lim: "lim \<le> length events" "int lim \<le> MaxEventBatchEvents" "lim < length events \<longrightarrow> int lim = MaxEventBatchEvents"
    by (auto simp: lim_def MaxEventBatchEvents_def)
  from assms obtain d where d: "prefix_loop J (take lim events) ?hdr 0 = Inr (d, count)" "data = d @ batch_close"
    "int (length ?hdr) + 2 \<le> MaxEventBatchBytes"
    by (auto simp: MarshalEventBatchPrefix_def Let_def rbind_Inr_iff lim_def [symmetric])
  have "joined (encodings J []) = []" by (simp add: encodings_def joined_def)
  then obtain c where c: "c \<le> length (take lim events)" "count = c" "d = ?hdr @ joined (encodings J (take c (take lim events)))"
    "\<forall>e\<in>set (take c (take lim events)). \<not> isl (Marshal J e)" "int (length d) + 2 \<le> MaxEventBatchBytes"
    "c < length (take lim events) \<longrightarrow> isl (Marshal J (take lim events ! c))
         \<or> int (length (?hdr @ joined (encodings J (take (Suc c) (take lim events))))) + 2 > MaxEventBatchBytes"
    using prefix_loop_spec [of J "take lim events" ?hdr "[]" d count] d by auto
  have t: "take c (take lim events) = take c events" "c \<le> lim" using c(1) lim(1) by (simp_all add: min_absorb1)
  have t1: "c < lim \<Longrightarrow> take (Suc c) (take lim events) = take (Suc c) events \<and> take lim events ! c = events ! c" by (simp add: min_def)
  have data: "data = envelope agent (encodings J (take count events))" using d(2) c(2,3) t by (simp add: envelope_def)
  have "int (length data) \<le> MaxEventBatchBytes" using c(5) d(2) by (simp add: batch_close_def str_bytes_def)
  moreover have "count < length events \<longrightarrow> int count = MaxEventBatchEvents \<or> isl (Marshal J (events ! count))
      \<or> int (length (envelope agent (encodings J (take (Suc count) events)))) > MaxEventBatchBytes"
    using c(2,6) t(2) t1 lim by (cases "c < lim") (auto simp: envelope_length)
  ultimately show ?thesis using c data t lim by auto
qed

definition ex_events :: "bytes list" where
  "ex_events = [[1, 2], [3]]"

definition plain_codec :: "bytes codec" where
  "plain_codec = \<lparr>Marshal = Inr, Marshal_string = (\<lambda>s. Inr (str_bytes s)), Unmarshal_run = (\<lambda>_. Inr ''run''),
     Decode = Inr, Valid = (\<lambda>_. True), Scan = (\<lambda>_. ScanErr), RunID = (\<lambda>_. ''run'')\<rparr>"

theorem MarshalEventBatchPrefix_longest_witness:
  "\<exists>data. MarshalEventBatchPrefix plain_codec ''a'' ex_events = Inr (data, 2)
    \<and> data = envelope (str_bytes ''a'') (encodings plain_codec (take 2 ex_events))"
proof -
  have "map_sum id snd (MarshalEventBatchPrefix plain_codec ''a'' ex_events) = Inr 2" by code_simp
  then obtain data where d: "MarshalEventBatchPrefix plain_codec ''a'' ex_events = Inr (data, 2)"
    by (cases "MarshalEventBatchPrefix plain_codec ''a'' ex_events") auto
  have "Marshal_string plain_codec ''a'' = Inr (str_bytes ''a'')" by (simp add: plain_codec_def)
  from MarshalEventBatchPrefix_longest [OF d this] d show ?thesis by blast
qed

lemma ValidateEventSizes_each:
  assumes "ValidateEventSizes J batch = Inr ()" "Marshal_string J (eb_AgentID batch) = Inr agent" "e \<in> set (eb_Events batch)"
  shows "\<exists>p. Marshal J e = Inr p \<and> int (length (envelope agent [p])) \<le> MaxEventBatchBytes"
proof -
  let ?over = "int (length batch_open) + int (length agent) + int (length (batch_mid @ batch_close))"
  have loop: "foldR (encode_event J (MaxEventBatchBytes - ?over)) (eb_Events batch) () = Inr ()"
    using assms by (auto simp: ValidateEventSizes_def Let_def split: if_splits)
  then have "\<forall>x\<in>set (eb_Events batch). encode_event J (MaxEventBatchBytes - ?over) x () = Inr ()"
  proof (induction "eb_Events batch" arbitrary: batch)
    case (Cons x xs)
    from Cons.hyps(2) [symmetric] Cons.prems have "encode_event J (MaxEventBatchBytes - ?over) x () = Inr ()"
      "foldR (encode_event J (MaxEventBatchBytes - ?over)) xs () = Inr ()" by (auto simp: rbind_Inr_iff)
    then show ?case using Cons.hyps(1) [of "batch\<lparr>eb_Events := xs\<rparr>"] Cons.hyps(2) [symmetric] by simp
  qed simp
  then show ?thesis using assms(3)
    by (auto simp: encode_event_def rbind_Inr_iff eventSizeLimit_Write_def envelope_def joined_def split: if_splits)
qed

text \<open>
  C21. A batch that passed \<^verbatim>\<open>ValidateEventSizes\<close> can always be forwarded: for every non-empty remainder of its
  events, \<^verbatim>\<open>MarshalEventBatchPrefix\<close> succeeds and encodes at least one event, so that retrying the
  remainder terminates.
\<close>

theorem validated_batch_progress:
  assumes "ValidateEventSizes J batch = Inr ()" "Marshal_string J (eb_AgentID batch) = Inr agent"
    and "drop k (eb_Events batch) \<noteq> []"
  shows "\<exists>data count. MarshalEventBatchPrefix J (eb_AgentID batch) (drop k (eb_Events batch)) = Inr (data, count) \<and> 0 < count"
proof -
  obtain e es where es: "drop k (eb_Events batch) = e # es" using assms(3) by (cases "drop k (eb_Events batch)") auto
  then have "e \<in> set (eb_Events batch)" by (metis in_set_dropD list.set_intros(1))
  from ValidateEventSizes_each [OF assms(1,2) this] obtain p where
    p: "Marshal J e = Inr p" "int (length (envelope agent [p])) \<le> MaxEventBatchBytes" by blast
  let ?hdr = "batch_open @ agent @ batch_mid"
  have fit: "int (length ?hdr) + int (length p) + 2 \<le> MaxEventBatchBytes" using p(2) by (simp add: envelope_length joined_def)
  have run: "\<exists>d c. prefix_loop J xs data n = Inr (d, c) \<and> 0 < c" if "0 < n" for xs data n
    using that by (induction xs arbitrary: data n) (auto simp: Let_def split: sum.splits)
  obtain m where m: "nat (min (int (length (e # es))) MaxEventBatchEvents) = Suc m"
    by (cases "nat (min (int (length (e # es))) MaxEventBatchEvents)") (auto simp: MaxEventBatchEvents_def)
  obtain d c where "prefix_loop J (take m es) (?hdr @ p) 1 = Inr (d, c)" "0 < c" using run [of 1 "take m es" "?hdr @ p"] by auto
  then show ?thesis using p(1) fit assms(2) m by (auto simp: MarshalEventBatchPrefix_def es Let_def)
qed

definition ex_batch :: "bytes EventBatch" where
  "ex_batch = \<lparr>eb_AgentID = ''a'', eb_Events = ex_events\<rparr>"

theorem validated_batch_progress_witness:
  "\<exists>data count. MarshalEventBatchPrefix plain_codec ''a'' [[3]] = Inr (data, count) \<and> 0 < count"
proof -
  have "ValidateEventSizes plain_codec ex_batch = Inr ()" by code_simp
  moreover have "Marshal_string plain_codec (eb_AgentID ex_batch) = Inr (str_bytes ''a'')"
    by (simp add: plain_codec_def ex_batch_def)
  moreover have "drop 1 (eb_Events ex_batch) = [[3]]" by (simp add: ex_batch_def ex_events_def)
  ultimately show ?thesis using validated_batch_progress [of plain_codec ex_batch _ 1] by (simp add: ex_batch_def)
qed

end
