(* ===== verification/Telemetry_Deliver.thy ===== *)
theory Telemetry_Deliver
  imports Event_Batch
begin

text \<open>
  Delivery to the Controller: \<^verbatim>\<open>flushSpoolEventsLocked\<close> takes a window under the lock, posts it without
  the lock while other goroutines append, and acknowledges it under the lock when the post succeeded.
  The interface between the flush loop and the spool is the locale \<open>durable_queue\<close>.
\<close>

subsection \<open>The flush loop\<close>

text \<open>
  \<open>d_accepted\<close> records the payloads of successful appends, \<open>d_received\<close> the request bodies that the Controller has taken,
  \<open>d_acked\<close> how many payloads have been acknowledged; \<open>d_inflight\<close> is the body that is being posted with
  \<^verbatim>\<open>s.eventsInFlight\<close>, the number of its payloads.
\<close>

record ('s, 'p, 'm) delivery =
  d_spool :: 's
  d_inflight :: "('m \<times> nat) option"
  d_accepted :: "'p list"
  d_received :: "'m list"
  d_acked :: nat

text \<open>
  The relations \<open>push s x r s'\<close> (append with its outcome), \<open>peek s (Some (m, n)) s'\<close> (the body \<open>m\<close> of a window of \<open>n\<close>
  payloads, \<open>None\<close> when there is none) and \<open>pop s n c s'\<close> (acknowledge \<open>n\<close>, of which \<open>c\<close> are committed) stand for the
  spool's operations. A post succeeds, fails, or fails although the Controller has taken the body.
\<close>

inductive flush_step ::
    "('s \<Rightarrow> 'x \<Rightarrow> 'p list option \<Rightarrow> 's \<Rightarrow> bool) \<Rightarrow> ('s \<Rightarrow> ('m \<times> nat) option \<Rightarrow> 's \<Rightarrow> bool) \<Rightarrow> ('s \<Rightarrow> nat \<Rightarrow> nat \<Rightarrow> 's \<Rightarrow> bool) \<Rightarrow>
     ('s, 'p, 'm) delivery \<Rightarrow> ('s, 'p, 'm) delivery \<Rightarrow> bool"
  for push peek pop where
  Append: "push (d_spool d) x r s' \<Longrightarrow>
     flush_step push peek pop d
       (d\<lparr>d_spool := s', d_accepted := d_accepted d @ (case r of None \<Rightarrow> [] | Some ps \<Rightarrow> ps)\<rparr>)"
| Idle: "d_inflight d = None \<Longrightarrow> peek (d_spool d) None s' \<Longrightarrow> flush_step push peek pop d (d\<lparr>d_spool := s'\<rparr>)"
| Begin: "d_inflight d = None \<Longrightarrow> peek (d_spool d) (Some (m, n)) s' \<Longrightarrow>
     flush_step push peek pop d (d\<lparr>d_spool := s', d_inflight := Some (m, n)\<rparr>)"
| Posted: "d_inflight d = Some (m, n) \<Longrightarrow> pop (d_spool d) n c s' \<Longrightarrow>
     flush_step push peek pop d
       (d\<lparr>d_spool := s', d_inflight := None, d_received := d_received d @ [m], d_acked := d_acked d + c\<rparr>)"
| Failed: "d_inflight d = Some (m, n) \<Longrightarrow> flush_step push peek pop d (d\<lparr>d_inflight := None\<rparr>)"
| Unconfirmed: "d_inflight d = Some (m, n) \<Longrightarrow>
     flush_step push peek pop d (d\<lparr>d_inflight := None, d_received := d_received d @ [m]\<rparr>)"

inductive flushes for push peek pop where
  Start: "flushes push peek pop d d"
| Step: "flushes push peek pop d d' \<Longrightarrow> flush_step push peek pop d' d'' \<Longrightarrow> flushes push peek pop d d''"

definition delivery_start :: "'s \<Rightarrow> ('s, 'p, 'm) delivery" where
  "delivery_start s = \<lparr>d_spool = s, d_inflight = None, d_accepted = [], d_received = [], d_acked = 0\<rparr>"

text \<open>
  What a sequence of posts amounts to: each body encodes a window \<open>n\<close> payloads long from position \<open>i\<close> of all payloads, the
  windows never step back, none starts behind the acknowledged prefix, and together they cover that prefix.
\<close>

definition window_of :: "('p list \<Rightarrow> 'm) \<Rightarrow> 'p list \<Rightarrow> nat \<times> nat \<Rightarrow> 'm" where
  "window_of batch all = (\<lambda>(i, n). batch (take n (drop i all)))"

definition windows_ok :: "'p list \<Rightarrow> nat \<Rightarrow> (nat \<times> nat) list \<Rightarrow> bool" where
  "windows_ok all acked ws \<longleftrightarrow> sorted (map fst ws) \<and> (\<forall>(i, n)\<in>set ws. i \<le> acked \<and> 0 < n \<and> i + n \<le> length all)
     \<and> (\<forall>j<acked. \<exists>(i, n)\<in>set ws. i \<le> j \<and> j < i + n)"

lemma window_of_append: "windows_ok all acked ws \<Longrightarrow> map (window_of batch (all @ extra)) ws = map (window_of batch all) ws"
  by (auto simp: windows_ok_def window_of_def)

lemma windows_ok_append: "windows_ok all acked ws \<Longrightarrow> windows_ok (all @ extra) acked ws"
  by (auto simp: windows_ok_def)

lemma windows_ok_post:
  assumes "windows_ok all acked ws" "0 < n" "acked + n \<le> length all" "c \<le> n"
  shows "windows_ok all (acked + c) (ws @ [(acked, n)])"
proof -
  have "\<exists>(i, n)\<in>set (ws @ [(acked, n)]). i \<le> j \<and> j < i + n" if "j < acked + c" for j
    using assms that by (cases "j < acked") (auto simp: windows_ok_def)
  then show ?thesis using assms by (auto simp: windows_ok_def sorted_append)
qed

text \<open>
  The promise: the queue is what was accepted less what was acknowledged, the bodies that the Controller took are such
  windows, and the body in flight encodes the front of the queue.
\<close>

definition delivery_ok :: "('p list \<Rightarrow> 'm) \<Rightarrow> ('s \<Rightarrow> 'p list) \<Rightarrow> 'p list \<Rightarrow> ('s, 'p, 'm) delivery \<Rightarrow> bool" where
  "delivery_ok batch queue old d \<longleftrightarrow>
     (let all = old @ d_accepted d in
      queue (d_spool d) = drop (d_acked d) all \<and> d_acked d \<le> length all
      \<and> (\<exists>ws. d_received d = map (window_of batch all) ws \<and> windows_ok all (d_acked d) ws)
      \<and> (\<forall>m n. d_inflight d = Some (m, n) \<longrightarrow> 0 < n \<and> n \<le> length (queue (d_spool d)) \<and> m = batch (take n (queue (d_spool d)))))"

locale durable_queue =
  fixes inv :: "'s \<Rightarrow> bool" and queue :: "'s \<Rightarrow> 'p list" and batch :: "'p list \<Rightarrow> 'm"
    and push :: "'s \<Rightarrow> 'x \<Rightarrow> 'p list option \<Rightarrow> 's \<Rightarrow> bool"
    and peek :: "'s \<Rightarrow> ('m \<times> nat) option \<Rightarrow> 's \<Rightarrow> bool"
    and pop :: "'s \<Rightarrow> nat \<Rightarrow> nat \<Rightarrow> 's \<Rightarrow> bool"
  assumes push_queue: "inv s \<Longrightarrow> push s x r s' \<Longrightarrow>
        inv s' \<and> queue s' = queue s @ (case r of None \<Rightarrow> [] | Some ps \<Rightarrow> ps)"
    and peek_queue: "inv s \<Longrightarrow> peek s out s' \<Longrightarrow> inv s' \<and> queue s' = queue s"
    and peek_batch: "inv s \<Longrightarrow> peek s (Some (m, n)) s' \<Longrightarrow> 0 < n \<and> n \<le> length (queue s) \<and> m = batch (take n (queue s))"
    and pop_queue: "inv s \<Longrightarrow> n \<le> length (queue s) \<Longrightarrow> pop s n c s' \<Longrightarrow>
        inv s' \<and> c \<le> n \<and> queue s' = drop c (queue s)"
begin

text \<open>A body that the Controller takes, of which \<open>c\<close> payloads are then acknowledged.\<close>

lemma post_ok:
  assumes "delivery_ok batch queue old d" "d_inflight d = Some (m, n)" "c \<le> n" "queue s' = drop c (queue (d_spool d))"
  shows "delivery_ok batch queue old (d\<lparr>d_spool := s', d_inflight := None, d_received := d_received d @ [m], d_acked := d_acked d + c\<rparr>)"
proof -
  define all where "all = old @ d_accepted d"
  have q: "queue (d_spool d) = drop (d_acked d) all" "d_acked d \<le> length all" and n: "0 < n" "n \<le> length (queue (d_spool d))" "m = batch (take n (queue (d_spool d)))"
    using assms(1,2) by (auto simp: delivery_ok_def all_def Let_def)
  obtain ws where ws: "d_received d = map (window_of batch all) ws" "windows_ok all (d_acked d) ws"
    using assms(1) by (auto simp: delivery_ok_def all_def Let_def)
  have len: "d_acked d + n \<le> length all" using q n by simp
  have "d_received d @ [m] = map (window_of batch all) (ws @ [(d_acked d, n)])" using ws(1) n(3) q(1) by (simp add: window_of_def)
  moreover have "windows_ok all (d_acked d + c) (ws @ [(d_acked d, n)])" using windows_ok_post [OF ws(2) n(1) len assms(3)] .
  ultimately have "\<exists>vs. d_received d @ [m] = map (window_of batch all) vs \<and> windows_ok all (d_acked d + c) vs" by blast
  moreover have "queue s' = drop (d_acked d + c) all" using assms(4) q(1) by (simp add: add.commute)
  moreover have "d_acked d + c \<le> length all" using len assms(3) by simp
  ultimately show ?thesis unfolding delivery_ok_def Let_def by (simp add: all_def)
qed

lemma step_ok:
  assumes "flush_step push peek pop d d'" "inv (d_spool d)" "delivery_ok batch queue old d"
  shows "inv (d_spool d') \<and> delivery_ok batch queue old d'"
  using assms(1)
proof (cases rule: flush_step.cases)
  case (Append x r s')
  define extra where "extra = (case r of None \<Rightarrow> [] | Some ps \<Rightarrow> ps)"
  define all where "all = old @ d_accepted d"
  have p: "inv s'" "queue s' = queue (d_spool d) @ extra" using push_queue [OF assms(2) Append(2)] by (auto simp: extra_def)
  have q: "queue (d_spool d) = drop (d_acked d) all" "d_acked d \<le> length all"
    "\<forall>m n. d_inflight d = Some (m, n) \<longrightarrow> 0 < n \<and> n \<le> length (queue (d_spool d)) \<and> m = batch (take n (queue (d_spool d)))"
    using assms(3) by (auto simp: delivery_ok_def all_def Let_def)
  obtain ws where ws: "d_received d = map (window_of batch all) ws" "windows_ok all (d_acked d) ws"
    using assms(3) by (auto simp: delivery_ok_def all_def Let_def)
  have "\<exists>ws. d_received d = map (window_of batch (all @ extra)) ws \<and> windows_ok (all @ extra) (d_acked d) ws"
    using ws window_of_append [OF ws(2), of batch extra] windows_ok_append [OF ws(2), of extra] by metis
  moreover have "queue s' = drop (d_acked d) (all @ extra)" "d_acked d \<le> length (all @ extra)" using p(2) q(1,2) by auto
  moreover have "\<forall>m n. d_inflight d = Some (m, n) \<longrightarrow> 0 < n \<and> n \<le> length (queue s') \<and> m = batch (take n (queue s'))"
    using q(3) p(2) by auto
  ultimately show ?thesis using p(1) by (simp add: Append(1) delivery_ok_def Let_def extra_def [symmetric] all_def del: drop_append)
next
  case (Idle s')
  then show ?thesis using peek_queue [OF assms(2) Idle(3)] assms(3) by (simp add: delivery_ok_def Let_def)
next
  case (Begin m n s')
  then show ?thesis using peek_queue [OF assms(2) Begin(3)] peek_batch [OF assms(2) Begin(3)] assms(3) by (simp add: delivery_ok_def Let_def)
next
  case (Posted m n c s')
  have "n \<le> length (queue (d_spool d))" using assms(3) Posted(2) unfolding delivery_ok_def Let_def by blast
  from pop_queue [OF assms(2) this Posted(3)] show ?thesis using post_ok [OF assms(3) Posted(2)] by (simp add: Posted(1))
next
  case (Failed m n)
  then show ?thesis using assms by (simp add: delivery_ok_def Let_def)
next
  case (Unconfirmed m n)
  then show ?thesis using post_ok [OF assms(3) Unconfirmed(2), of 0 "d_spool d"] assms(2) by simp
qed

lemma flushes_ok:
  assumes "flushes push peek pop d d'" "inv (d_spool d)" "delivery_ok batch queue old d"
  shows "inv (d_spool d') \<and> delivery_ok batch queue old d'"
  using assms by (induction rule: flushes.induct) (auto dest: step_ok)

end

subsection \<open>The spool provides the queue\<close>

definition spool_push :: "env \<Rightarrow> 'e codec \<Rightarrow> world \<Rightarrow> 'e list \<Rightarrow> bytes list option \<Rightarrow> world \<Rightarrow> bool" where
  "spool_push E J w events r w' =
     (clock_ok E w \<and>
      (case spool_append E J events w of
         (Inl e, w1) \<Rightarrow> r = None \<and> w' = w1
       | (Inr _, w1) \<Rightarrow> r = Some (map (\<lambda>e. projr (Marshal J e)) events) \<and> w' = w1))"

text \<open>The body that is posted is the one \<^verbatim>\<open>marshalPrefix\<close> returned; an error or an empty window posts nothing.\<close>

definition spool_peek :: "env \<Rightarrow> 'e codec \<Rightarrow> string \<Rightarrow> world \<Rightarrow> (bytes \<times> nat) option \<Rightarrow> world \<Rightarrow> bool" where
  "spool_peek E J agentID w out w' =
     (case marshalPrefix E J agentID w of
        (Inl e, w1) \<Rightarrow> out = None \<and> w' = w1
      | (Inr (data, count), w1) \<Rightarrow> out = (if count = 0 then None else Some (data, count)) \<and> w' = w1)"

definition spool_pop :: "env \<Rightarrow> world \<Rightarrow> nat \<Rightarrow> nat \<Rightarrow> world \<Rightarrow> bool" where
  "spool_pop E w n c w' = (\<exists>err. acknowledge E n w = Some ((c, err), w'))"

text \<open>The body for given payloads: the JSON envelope with the identifier of the Agent.\<close>

definition spool_batch :: "'e codec \<Rightarrow> string \<Rightarrow> bytes list \<Rightarrow> bytes" where
  "spool_batch J agentID = envelope (projr (Marshal_string J agentID))"

lemma encodes_map: "encodes J events ls \<Longrightarrow> map fst ls = map (\<lambda>e. projr (Marshal J e)) events"
  unfolding encodes_def by (induction events ls rule: list_all2_induct) auto

lemma spool_append_spec:
  assumes "spool_inv w" "clock_ok E w"
  shows "wp (spool_append E J events) (unharmed w) (\<lambda>_ w'. spool_inv w'
    \<and> pending w' = pending w @ map (\<lambda>e. projr (Marshal J e)) events) w"
proof (cases "events = []")
  case True
  then show ?thesis using assms by (simp add: spool_append_def)
next
  case False
  then show ?thesis unfolding spool_append_def
    by (simp, intro wp_mono [OF appendLog_spec [OF assms]]) (auto simp: encodes_map)
qed

lemma spool_peek_spec:
  assumes "spool_inv w" "spool_peek E J agentID w out w'"
  shows "spool_inv w' \<and> pending w' = pending w
    \<and> (out = Some (data, n) \<longrightarrow> 0 < n \<and> n \<le> length (pending w) \<and> data = spool_batch J agentID (take n (pending w)))"
proof (cases "marshalPrefix E J agentID w")
  case (Pair res w1)
  show ?thesis
    using marshalPrefix_spec [OF assms(1), of E J agentID] assms(2) Pair
    by (cases res) (auto simp: spool_peek_def wp_def batch_ok_def spool_batch_def envelope_def split: if_splits)
qed

interpretation spool: durable_queue spool_inv pending "spool_batch J agentID" "spool_push E J" "spool_peek E J agentID" "spool_pop E"
  for E J agentID
proof unfold_locales
  fix w events r w'
  assume w: "spool_inv w" "spool_push E J w events r w'"
  then have "wp (spool_append E J events) (unharmed w) (\<lambda>_ w'. spool_inv w'
      \<and> pending w' = pending w @ map (\<lambda>e. projr (Marshal J e)) events) w"
    by (intro spool_append_spec) (auto simp: spool_push_def)
  then show "spool_inv w' \<and> pending w' = pending w @ (case r of None \<Rightarrow> [] | Some ps \<Rightarrow> ps)"
    using w(2) by (auto simp: spool_push_def wp_def split: prod.splits sum.splits)
next
  fix w out w'
  assume "spool_inv w" "spool_peek E J agentID w out w'"
  then show "spool_inv w' \<and> pending w' = pending w" using spool_peek_spec by blast
next
  fix w data n w'
  assume "spool_inv w" "spool_peek E J agentID w (Some (data, n)) w'"
  then show "0 < n \<and> n \<le> length (pending w) \<and> data = spool_batch J agentID (take n (pending w))" using spool_peek_spec by blast
next
  fix w n c w'
  assume w: "spool_inv w" "n \<le> length (pending w)" "spool_pop E w n c w'"
  then have "n \<le> length (sp_records (sp w))" by (simp add: pending_def)
  from acknowledge_spec [OF w(1) this, of E] w(3)
  show "spool_inv w' \<and> c \<le> n \<and> pending w' = drop c (pending w)" by (auto simp: spool_pop_def ack_result_def)
qed

end
