(* ===== verification/Telemetry_Correct.thy ===== *)
theory Telemetry_Correct
  imports Telemetry_Deliver
begin

text \<open>
  The theorems about the durable telemetry queue of an Agent in normal operation, for every behaviour of
  the file system, with a small spool for their witnesses.
\<close>

definition ex_codec :: "bytes codec" where
  "ex_codec = \<lparr>Marshal = Inr, Marshal_string = (\<lambda>s. Inr (str_bytes s)), Unmarshal_run = (\<lambda>_. Inr ''run''),
     Decode = Inr, Valid = (\<lambda>_. True), Scan = (\<lambda>_. ScanErr), RunID = (\<lambda>_. ''run'')\<rparr>"

definition ex_env :: env where
  "ex_env = \<lparr>e_fault = (\<lambda>_. IOk), e_now = (\<lambda>_. 100), e_text = (\<lambda>_. ''AB'')\<rparr>"

definition ex_world :: world where
  "ex_world = \<lparr>files = [], ops = 0, sp = empty_spool\<rparr>"

lemma ex_world_inv: "spool_inv ex_world" "pending ex_world = []" "clock_ok ex_env ex_world"
  by (auto simp: spool_inv_def spool_wf_def spool_disk_def ex_world_def empty_spool_def known_def layout_def
      active_ok_def pending_def clock_ok_def ex_env_def intro!: exI [of _ "[]"])

definition ex_world1 :: world where
  "ex_world1 = snd (spool_append ex_env ex_codec [[1, 2], [3]] ex_world)"

lemma ex_append: "fst (spool_append ex_env ex_codec [[1, 2], [3]] ex_world) = Inr ()"
  by code_simp

lemma ex_world1_inv: "spool_inv ex_world1" "pending ex_world1 = [[1, 2], [3]]" "length (sp_records (sp ex_world1)) = 2"
proof -
  have w: "spool_inv ex_world1 \<and> pending ex_world1 = [[1, 2], [3]]"
    using spool_append_spec [OF ex_world_inv(1,3), of ex_codec "[[1, 2], [3]]"] ex_append
    by (auto simp: wp_def ex_world_inv(2) ex_world1_def prod_eq_iff ex_codec_def split: prod.splits)
  then show "spool_inv ex_world1" "pending ex_world1 = [[1, 2], [3]]" by auto
  then show "length (sp_records (sp ex_world1)) = 2" by (metis length_map length_Cons list.size(3) One_nat_def Suc_1 pending_def)
qed

text \<open>
  C14. Appending a batch to the telemetry spool is atomic and durable: on success exactly the encodings of
  the events follow the pending payloads, in order; on any failure the pending payloads are unchanged.
  The invariant of index and files is kept in both cases.
\<close>

theorem spool_append_durable:
  assumes "spool_inv w" "clock_ok E w" "spool_append E J events w = (r, w')"
  shows "spool_inv w' \<and> pending w' = pending w @ (if r = Inr () then map (\<lambda>e. projr (Marshal J e)) events else [])"
  using spool_append_spec [OF assms(1,2), of J events] assms(3) by (cases r) (auto simp: wp_def)

theorem spool_append_durable_witness:
  "spool_inv ex_world1 \<and> pending ex_world1 = [[1, 2], [3]]"
  using spool_append_durable [OF ex_world_inv(1,3), of ex_codec "[[1, 2], [3]]" "Inr ()" ex_world1] ex_append
  by (simp add: ex_world_inv(2) ex_world1_def prod_eq_iff ex_codec_def)

text \<open>
  C15. Acknowledging a delivered prefix always returns, commits a number of records between zero and the
  requested count, the full count unless it reports an error, and removes exactly those from the
  pending payloads: a record that was not acknowledged is never dropped.
\<close>

theorem acknowledge_prefix:
  assumes "spool_inv w" "count \<le> length (sp_records (sp w))"
  shows "\<exists>c err w'. acknowledge E count w = Some ((c, err), w') \<and> spool_inv w' \<and> c \<le> count
    \<and> (err = None \<longrightarrow> c = count) \<and> pending w' = drop c (pending w)"
  using acknowledge_spec [OF assms, of E] by (auto simp: ack_result_def)

theorem acknowledge_prefix_witness:
  "\<exists>c err w'. acknowledge ex_env 1 ex_world1 = Some ((c, err), w') \<and> c \<le> 1 \<and> pending w' = drop c (pending ex_world1)"
  using acknowledge_prefix [of ex_world1 1 ex_env] ex_world1_inv by auto

text \<open>
  The batch sent to the Controller is the JSON envelope around the first pending payloads, byte for
  byte and in order. It respects the receiver's limits of bytes and events, holds at most one event
  beyond the window size, and is never empty while something is pending.
\<close>

theorem marshalPrefix_batch:
  assumes "spool_inv w" "marshalPrefix E J agentID w = (Inr (data, count), w')" "Marshal_string J agentID = Inr agent"
  shows "spool_inv w' \<and> pending w' = pending w \<and> count \<le> length (pending w) \<and> (count = 0 \<longleftrightarrow> pending w = [])
    \<and> int count \<le> MaxEventBatchEvents
    \<and> (count > 0 \<longrightarrow> data = batch_open @ agent @ batch_mid @ joined (take count (pending w)) @ batch_close
         \<and> int (length data) \<le> MaxEventBatchBytes)
    \<and> (count > 1 \<longrightarrow> int (length (concat (take count (pending w)))) \<le> telemetryWindowBytes)"
  using marshalPrefix_spec [OF assms(1), of E J agentID] assms(2,3) by (auto simp: wp_def batch_ok_def)

lemma ex_marshal: "\<not> isl (fst (marshalPrefix ex_env ex_codec ''a'' ex_world1))"
  by code_simp

theorem marshalPrefix_batch_witness:
  "\<exists>data count w'. marshalPrefix ex_env ex_codec ''a'' ex_world1 = (Inr (data, count), w') \<and> 0 < count
    \<and> data = batch_open @ str_bytes ''a'' @ batch_mid @ joined (take count [[1, 2], [3]]) @ batch_close"
proof -
  obtain data count w' where m: "marshalPrefix ex_env ex_codec ''a'' ex_world1 = (Inr (data, count), w')"
    using ex_marshal by (cases "marshalPrefix ex_env ex_codec ''a'' ex_world1"; cases "fst (marshalPrefix ex_env ex_codec ''a'' ex_world1)") auto
  have "Marshal_string ex_codec ''a'' = Inr (str_bytes ''a'')" by (simp add: ex_codec_def)
  from marshalPrefix_batch [OF ex_world1_inv(1) m this] m show ?thesis by (auto simp: ex_world1_inv(2))
qed

text \<open>
  C16. At-least-once delivery: in every interleaving of appends with flushes whose posts succeed, fail or
  time out after the Controller has taken the request, the pending payloads are the accepted ones less
  the acknowledged prefix; every request body that the Controller has taken is, byte for byte, the JSON
  envelope of consecutive accepted payloads; the bodies never step back behind what was acknowledged when they
  were sent, and every acknowledged payload is in one of them.
\<close>

theorem delivery_at_least_once:
  assumes "spool_inv w"
    and "flushes (spool_push E J) (spool_peek E J agentID) (spool_pop E) (delivery_start w) d"
    and "all = pending w @ d_accepted d"
  shows "pending (d_spool d) = drop (d_acked d) all \<and> d_acked d \<le> length all
    \<and> (\<exists>ws. d_received d = map (\<lambda>(i, n). envelope (projr (Marshal_string J agentID)) (take n (drop i all))) ws
         \<and> sorted (map fst ws) \<and> (\<forall>(i, n)\<in>set ws. i \<le> d_acked d \<and> 0 < n \<and> i + n \<le> length all)
         \<and> (\<forall>j<d_acked d. \<exists>(i, n)\<in>set ws. i \<le> j \<and> j < i + n))"
proof -
  have "delivery_ok (spool_batch J agentID) pending (pending w) (delivery_start w)"
    by (simp add: delivery_ok_def delivery_start_def windows_ok_def)
  from spool.flushes_ok [OF assms(2) _ this] assms(1)
  have "delivery_ok (spool_batch J agentID) pending (pending w) d" by (simp add: delivery_start_def)
  then show ?thesis unfolding delivery_ok_def Let_def windows_ok_def window_of_def spool_batch_def assms(3) by blast
qed

text \<open>An example: two events are appended, posted in one request and acknowledged.\<close>

definition ex_body :: "bytes \<times> nat" where
  "ex_body = projr (fst (marshalPrefix ex_env ex_codec ''a'' ex_world1))"

definition ex_world2 :: world where
  "ex_world2 = snd (marshalPrefix ex_env ex_codec ''a'' ex_world1)"

definition ex_world3 :: world where
  "ex_world3 = snd (the (acknowledge ex_env 2 ex_world2))"

definition ex_delivery :: "(world, bytes, bytes) delivery" where
  "ex_delivery = \<lparr>d_spool = ex_world3, d_inflight = None, d_accepted = [[1, 2], [3]], d_received = [fst ex_body], d_acked = 2\<rparr>"

lemma ex_body_count: "snd ex_body = 2"
  by code_simp

lemma ex_new_file:
  "map_of (files w) path = None \<Longrightarrow> \<exists>w1. appendTelemetryFile ex_env path data 0 True w = (Inr (), w1) \<and> sp w1 = sp w"
  by (simp add: appendTelemetryFile_def OpenFile_def WriteAt_def Sync_def syncTelemetryDirectory_def sys_def andThen_def get_file_def put_file_def
      ok_def ex_env_def Let_def update_conv)

lemma ex_world2_parts:
  "sp_records (sp ex_world2) \<noteq> [] \<and> length (sp_records (sp ex_world2)) = 2
   \<and> (let name = tr_segment (hd (sp_records (sp ex_world2))); segment = sp_segments (sp ex_world2) name
      in HasSuffix name ''.jsonl'' \<and> sg_count segment = 2 \<and> sg_ack segment = 0 \<and> sg_ackBytes segment = 0
         \<and> sp_active (sp ex_world2) = Some name \<and> map_of (files ex_world2) (name @ ''.ack'') = None)"
  by code_simp

lemma ex_acknowledge: "map_option fst (acknowledge ex_env 2 ex_world2) = Some (2, None)"
proof -
  obtain first rest where rs: "sp_records (sp ex_world2) = first # rest" "length (first # rest) = 2"
    using ex_world2_parts by (cases "sp_records (sp ex_world2)") auto
  define name where "name = tr_segment first"
  define segment where "segment = sp_segments (sp ex_world2) name"
  have parts: "HasSuffix name ''.jsonl''" "sg_count segment = 2" "sg_ack segment = 0" "sg_ackBytes segment = 0"
    "sp_active (sp ex_world2) = Some name" "map_of (files ex_world2) (name @ ''.ack'') = None"
    using ex_world2_parts by (simp_all add: rs(1) name_def segment_def Let_def)
  obtain w1 where w1: "acknowledgeLog ex_env name 2 ex_world2 = (Inr (), w1)" "sp_active (sp w1) = Some name"
    using ex_new_file [OF parts(6), of "ack_frame 2"] parts(4,5) by (auto simp: acknowledgeLog_def andThen_def set_sp_def segment_def)
  have "ack_loop ex_env 2 2 0 ex_world2 = ack_loop ex_env 1 2 2 (w1\<lparr>sp := drop_records name 2 2 (sp w1)\<rparr>)"
    unfolding ack_loop.simps [of ex_env 2]
    using parts w1 by (simp add: rs(1) name_def [symmetric] segment_def [symmetric] Let_def drop_records_def numeral_2_eq_2)
  also have "\<dots> = Some ((2, None), w1\<lparr>sp := drop_records name 2 2 (sp w1)\<rparr>)" by (subst ack_loop.simps) simp
  finally show ?thesis using rs by (simp add: acknowledge_def)
qed

lemma ex_flushes:
  "flushes (spool_push ex_env ex_codec) (spool_peek ex_env ex_codec ''a'') (spool_pop ex_env) (delivery_start ex_world) ex_delivery"
proof -
  let ?d1 = "\<lparr>d_spool = ex_world1, d_inflight = None, d_accepted = [[1, 2], [3]], d_received = [], d_acked = 0\<rparr> :: (world, bytes, bytes) delivery"
  let ?d2 = "\<lparr>d_spool = ex_world2, d_inflight = Some (fst ex_body, 2), d_accepted = [[1, 2], [3]], d_received = [], d_acked = 0\<rparr> :: (world, bytes, bytes) delivery"
  have "spool_push ex_env ex_codec ex_world [[1, 2], [3]] (Some [[1, 2], [3]]) ex_world1"
    using ex_append ex_world_inv(3) by (auto simp: spool_push_def ex_world1_def ex_codec_def split: prod.splits sum.splits)
  then have 1: "flush_step (spool_push ex_env ex_codec) (spool_peek ex_env ex_codec ''a'') (spool_pop ex_env) (delivery_start ex_world) ?d1"
    using flush_step.Append [of "spool_push ex_env ex_codec" "delivery_start ex_world" "[[1, 2], [3]]" "Some [[1, 2], [3]]" ex_world1]
    by (simp add: delivery_start_def)
  have "spool_peek ex_env ex_codec ''a'' ex_world1 (Some (fst ex_body, 2)) ex_world2"
    using ex_marshal ex_body_count by (auto simp: spool_peek_def ex_body_def ex_world2_def split: prod.splits sum.splits)
  then have 2: "flush_step (spool_push ex_env ex_codec) (spool_peek ex_env ex_codec ''a'') (spool_pop ex_env) ?d1 ?d2"
    using flush_step.Begin [of ?d1 "spool_peek ex_env ex_codec ''a''" "fst ex_body" 2 ex_world2] by simp
  have "spool_pop ex_env ex_world2 2 2 ex_world3"
    using ex_acknowledge by (auto simp: spool_pop_def ex_world3_def)
  then have 3: "flush_step (spool_push ex_env ex_codec) (spool_peek ex_env ex_codec ''a'') (spool_pop ex_env) ?d2 ex_delivery"
    using flush_step.Posted [of ?d2 "fst ex_body" 2 "spool_pop ex_env" 2 ex_world3] by (simp add: ex_delivery_def numeral_2_eq_2)
  show ?thesis using flushes.Step [OF flushes.Step [OF flushes.Step [OF flushes.Start 1] 2] 3] .
qed

theorem delivery_at_least_once_witness:
  "pending ex_world3 = [] \<and> (\<exists>i n. fst ex_body = envelope (str_bytes ''a'') (take n (drop i [[1, 2], [3]])) \<and> i = 0 \<and> n = 2)"
proof -
  have all: "[[1, 2], [3]] = pending ex_world @ d_accepted ex_delivery" by (simp add: ex_delivery_def ex_world_inv(2))
  have parts: "d_spool ex_delivery = ex_world3" "d_acked ex_delivery = 2" "d_received ex_delivery = [fst ex_body]" "Marshal_string ex_codec ''a'' = Inr (str_bytes ''a'')"
    by (simp_all add: ex_delivery_def ex_codec_def)
  note main = delivery_at_least_once [OF ex_world_inv(1) ex_flushes all, unfolded parts sum.sel(2)]
  obtain ws where ws: "[fst ex_body] = map (\<lambda>(i, n). envelope (str_bytes ''a'') (take n (drop i [[1, 2], [3]]))) ws"
    "\<forall>(i, n)\<in>set ws. i \<le> 2 \<and> 0 < n \<and> i + n \<le> length [[1, 2], [3 :: byte]]" "\<forall>j<2. \<exists>(i, n)\<in>set ws. i \<le> j \<and> j < i + n"
    using conjunct2 [OF conjunct2 [OF main]] by - (elim exE conjE, rule that, assumption+)
  obtain i n where win: "ws = [(i, n)]" using ws(1) by (cases ws; cases "tl ws") auto
  have "i = 0" "n = 2" using ws(2) ws(3) [rule_format, of 0] ws(3) [rule_format, of 1] by (auto simp: win)
  then show ?thesis using ws(1) win main by simp
qed

end
