(* ===== verification/Telemetry_Recover.thy ===== *)
theory Telemetry_Recover
  imports Telemetry_Correct
begin

text \<open>
  Recovery of a log segment after a crash: a torn append and a torn acknowledgement are cut off, and
  exactly the complete lines beyond the last durable acknowledgement become pending again.
\<close>

subsection \<open>Acknowledgement frames\<close>

lemma length_ack_frame [simp]: "length (ack_frame n) = 16"
  by (simp add: ack_frame_def Let_def)

lemma frame_ok_ack_frame: "frame_ok (ack_frame n)"
proof -
  let ?h = "put_be 4 telemetryAckMagic @ put_be 8 (int n)"
  have "take 12 (ack_frame n) = ?h" "take 4 (ack_frame n) = put_be 4 telemetryAckMagic"
    "drop 12 (ack_frame n) = put_be 4 (uint (ChecksumIEEE ?h))"
    by (simp_all add: ack_frame_def Let_def)
  moreover have "uint (ChecksumIEEE ?h) < 2 ^ 32" using uint_lt2p [of "ChecksumIEEE ?h"] by simp
  ultimately show ?thesis
    by (simp add: frame_ok_def get_put_be telemetryAckFrameBytes_def) (simp add: telemetryAckMagic_def)
qed

lemma frame_next: "get_be (take 8 (drop 4 (ack_frame n))) = int n mod 2 ^ 64"
proof -
  have "take 8 (drop 4 (ack_frame n)) = put_be 8 (int n)" by (simp add: ack_frame_def Let_def)
  then show ?thesis by (simp add: get_put_be)
qed

text \<open>A journal of strictly increasing acknowledgements, then at most a torn frame.\<close>

definition journal :: "nat list \<Rightarrow> bytes \<Rightarrow> bytes" where
  "journal xs t = concat (map ack_frame xs) @ t"

fun acks_ok :: "nat \<Rightarrow> nat \<Rightarrow> nat list \<Rightarrow> bool" where
  "acks_ok count a [] = (a \<le> count)"
| "acks_ok count a (x # xs) = (a < x \<and> acks_ok count x xs)"

lemma acks_ok_bound: "acks_ok count a xs \<Longrightarrow> a + length xs \<le> count \<and> last (a # xs) \<le> count"
  by (induction xs arbitrary: a) (auto split: if_splits, fastforce+)

lemma acks_ok_le: "acks_ok count a xs \<Longrightarrow> a \<le> count"
  by (induction xs arbitrary: a) (auto, fastforce)

lemma ack_scan_journal:
  assumes "acks_ok count a xs" "length t < 16" "int count < 2 ^ 64"
  shows "ack_scan count (journal xs t) a vb = Inr (t \<noteq> [], last (a # xs), vb + 16 * length xs)"
  using assms(1)
proof (induction xs arbitrary: a vb)
  case Nil
  show ?case
  proof (cases "t = []")
    case True
    then show ?thesis by (subst ack_scan.simps) (simp add: journal_def)
  next
    case False
    have "take 16 t = t" "\<not> frame_ok t" using assms(2) by (auto simp: frame_ok_def telemetryAckFrameBytes_def)
    then show ?thesis using False
      by (subst ack_scan.simps) (simp add: journal_def telemetryAckFrameBytes_def Let_def)
  qed
next
  case (Cons x xs)
  have x: "a < x" "acks_ok count x xs" "x \<le> count" using Cons.prems acks_ok_le by auto
  have fr: "take telemetryAckFrameBytes (journal (x # xs) t) = ack_frame x"
    "drop telemetryAckFrameBytes (journal (x # xs) t) = journal xs t" "journal (x # xs) t \<noteq> []"
    using length_ack_frame [of x]
    by (auto simp: journal_def telemetryAckFrameBytes_def simp del: length_ack_frame)
  have "int x mod 2 ^ 64 = int x" using x(3) assms(3) by simp
  then show ?case using x fr frame_ok_ack_frame frame_next [of x] Cons.IH [OF x(2)]
    by (subst ack_scan.simps) (simp add: Let_def telemetryAckFrameBytes_def)
qed

subsection \<open>Lines\<close>

definition good_env :: "env \<Rightarrow> bool" where
  "good_env E = (\<forall>k. e_fault E k = IOk)"

lemma sys_good: "good_env E \<Longrightarrow> sys E f w = f (w\<lparr>ops := Suc (ops w)\<rparr>)"
  by (simp add: sys_def good_env_def Let_def)

definition lines_ok :: "'e codec \<Rightarrow> (bytes \<times> string) list \<Rightarrow> bool" where
  "lines_ok J ls = (\<forall>(l, run)\<in>set ls. newline \<notin> set l \<and> int (length l) \<le> MaxEventBatchBytes \<and> Unmarshal_run J l = Inr run)"

lemma split_line_data:
  assumes "lines_ok J ls" "newline \<notin> set tail"
  shows "split_lines (line_data ls @ tail) = (map fst ls, tail)"
proof -
  have "line_data ls = concat (map (\<lambda>l. l @ [newline]) (map fst ls))"
    by (induction ls) (auto simp: line_data_def)
  moreover have "\<forall>l\<in>set (map fst ls). newline \<notin> set l" using assms(1) by (auto simp: lines_ok_def)
  ultimately show ?thesis using split_lines_concat [of "map fst ls" tail] assms(2) by metis
qed

lemma log_loop:
  assumes "lines_ok J ls"
  shows "foldR (log_body J name) (map fst ls) ([], 0) =
    Inr (map (\<lambda>r. r\<lparr>tr_segment := name\<rparr>) (line_records 0 ls), int (length (line_data ls)))"
  using assms
proof (induction ls rule: rev_induct)
  case Nil
  then show ?case by (simp add: line_records_def line_data_def)
next
  case (snoc p ls)
  obtain l run where p: "p = (l, run)" by fastforce
  have l: "int (length l) \<le> MaxEventBatchBytes" "Unmarshal_run J l = Inr run" "lines_ok J ls"
    using snoc.prems by (auto simp: lines_ok_def p)
  then show ?case using snoc.IH
    by (simp add: foldR_append p log_body_def line_records_snoc line_data_snoc not_less length_line_data [symmetric]
        check_def)
qed

text \<open>A torn write of some lines is a number of complete lines and an unterminated rest.\<close>

lemma torn_lines:
  assumes "lines_ok J ls"
  shows "\<exists>j tail. j \<le> length ls \<and> take k (line_data ls) = line_data (take j ls) @ tail \<and> newline \<notin> set tail"
  using assms
proof (induction ls arbitrary: k)
  case Nil
  then show ?case by (auto simp: line_data_def intro!: exI [of _ 0])
next
  case (Cons p ls)
  obtain l run where p: "p = (l, run)" by fastforce
  have d: "line_data (p # ls) = l @ newline # line_data ls" by (simp add: line_data_def p)
  show ?case
  proof (cases "k \<le> length l")
    case True
    have "newline \<notin> set (take k l)" using Cons.prems p in_set_takeD [of newline k l] by (auto simp: lines_ok_def)
    then have "take k (line_data (p # ls)) = line_data (take 0 (p # ls)) @ take k l"
      using True by (simp add: d, simp add: line_data_def)
    then show ?thesis using \<open>newline \<notin> set (take k l)\<close> by blast
  next
    case False
    have "lines_ok J ls" using Cons.prems by (simp add: lines_ok_def)
    then obtain j tail where j: "j \<le> length ls" "take (k - Suc (length l)) (line_data ls) = line_data (take j ls) @ tail"
      "newline \<notin> set tail" using Cons.IH by blast
    have "take k (line_data (p # ls)) = line_data (take (Suc j) (p # ls)) @ tail"
      using False j(2) by (simp add: d take_Cons' Suc_diff_Suc) (simp add: line_data_def p)
    then show ?thesis using j by (metis Suc_le_mono length_Cons)
  qed
qed

subsection \<open>Recovering a segment\<close>

definition journal_file :: "world \<Rightarrow> string \<Rightarrow> nat list \<Rightarrow> bytes \<Rightarrow> bool" where
  "journal_file w path xs t = (disk w path = Some (journal xs t) \<or> disk w path = None \<and> xs = [] \<and> t = [])"

lemma length_journal: "length (journal xs t) = 16 * length xs + length t"
proof -
  have "length (concat (map ack_frame xs)) = 16 * length xs" by (induction xs) auto
  then show ?thesis by (simp add: journal_def)
qed

lemma recoverTelemetryAck_spec:
  assumes E: "good_env E" and f: "journal_file w path xs t"
    and ok: "acks_ok count 0 xs" "length t < 16" "int count < 2 ^ 64"
  shows "\<exists>w'. recoverTelemetryAck E path count w = (Inr (last (0 # xs), 16 * int (length xs)), w')
    \<and> changed_only {path} w w' \<and> journal_file w' path xs []"
proof (cases "disk w path")
  case None
  then have "xs = []" "t = []" using f by (auto simp: journal_file_def)
  then show ?thesis using None E
    by (simp add: recoverTelemetryAck_def sys_good get_file_def journal_file_def changed_only_def)
next
  case (Some c)
  then have c: "c = journal xs t" using f by (auto simp: journal_file_def)
  have "length xs \<le> count" using acks_ok_bound [OF ok(1)] by simp
  then have size: "\<not> int (length c) > int (count + 1) * int telemetryAckFrameBytes"
    using ok(2) by (simp add: c length_journal telemetryAckFrameBytes_def)
  have "take (16 * length xs) c = journal xs []"
    by (simp add: c journal_def length_journal [of xs "[]", unfolded journal_def, simplified])
  then show ?thesis using Some E size ack_scan_journal [OF ok, of 0]
    by (auto simp: recoverTelemetryAck_def sys_good get_file_def andThen_def ok_def put_file_def Sync_def c
        journal_file_def changed_only_def raise_def)
qed

text \<open>
  What recovery makes of a segment: \<open>ls\<close> are its complete lines, \<open>k\<close> of them acknowledged. A fully
  acknowledged segment is removed, otherwise the rest is queued at its place in the repaired file.
\<close>

definition recovered :: "world \<Rightarrow> string \<Rightarrow> (bytes \<times> string) list \<Rightarrow> nat \<Rightarrow> world \<Rightarrow> bool" where
  "recovered w name ls k w' =
     (if k = length ls then sp w' = sp w \<and> disk w' name = None
      else \<exists>rs. sp_records (sp w') = sp_records (sp w) @ rs \<and> map (payload w') rs = drop k (map fst ls)
        \<and> (\<forall>r\<in>set rs. tr_segment r = name \<and> in_file w' r)
        \<and> sp_bytes (sp w') = sp_bytes (sp w) + sizes rs
        \<and> sg_count (sp_segments (sp w') name) = length ls \<and> sg_ack (sp_segments (sp w') name) = k
        \<and> disk w' name = Some (line_data ls))"

lemma line_records_located:
  assumes "disk w name = Some (line_data ls)"
  shows "map (payload w) (map (\<lambda>r. r\<lparr>tr_segment := name\<rparr>) (line_records 0 ls)) = map fst ls"
    and "r \<in> set (map (\<lambda>r. r\<lparr>tr_segment := name\<rparr>) (line_records 0 ls)) \<Longrightarrow> in_file w r \<and> tr_segment r = name"
  using line_payloads [of "[]" ls] line_payload [of _ "[]" ls] assms
  by (auto simp: payload_def comp_def in_file_def)

lemma recoverLog_spec:
  assumes E: "good_env E" and c: "disk w name = Some (line_data ls @ tail)" and tail: "newline \<notin> set tail"
    and ls: "lines_ok J ls" and j: "journal_file w (name @ ''.ack'') xs t"
    and ok: "acks_ok (length ls) 0 xs" "length t < 16" "int (length ls) < 2 ^ 64"
  shows "\<exists>w'. recoverLog E J name w = (Inr (), w') \<and> recovered w name ls (last (0 # xs)) w'
    \<and> (\<forall>n. n \<noteq> name \<longrightarrow> n \<noteq> name @ ''.ack'' \<longrightarrow> disk w' n = disk w n)"
proof -
  let ?k = "last (0 # xs)" and ?rs = "map (\<lambda>r. r\<lparr>tr_segment := name\<rparr>) (line_records 0 ls)"
  let ?w1 = "w\<lparr>ops := Suc (Suc (ops w))\<rparr>"
  have len: "length ?rs = length ls" by (simp add: line_records_def)
  obtain w2 where w2: "recoverTelemetryAck E (name @ ''.ack'') (length ls) ?w1 = (Inr (?k, 16 * int (length xs)), w2)"
    "changed_only {name @ ''.ack''} ?w1 w2"
    using recoverTelemetryAck_spec [OF E _ ok, of ?w1 "name @ ''.ack''"] j by (auto simp: journal_file_def)
  define w3 where "w3 = (if tail \<noteq> [] then w2\<lparr>ops := Suc (Suc (ops w2)), files := AList.update name (line_data ls) (files w2)\<rparr> else w2)"
  have repair: "(if tail \<noteq> [] then andThen (sys E (put_file name (take (nat (int (length (line_data ls)))) (line_data ls @ tail))))
      (\<lambda>_. Sync E) else ok ()) w2 = (Inr (), w3)"
    using E by (auto simp: w3_def andThen_def sys_good put_file_def Sync_def ok_def)
  have d3: "disk w3 name = Some (line_data ls)" "sp w3 = sp w"
    "\<And>n. n \<noteq> name \<Longrightarrow> n \<noteq> name @ ''.ack'' \<Longrightarrow> disk w3 n = disk w n"
    using w2(2) c by (auto simp: w3_def changed_only_def)
  have run: "recoverLog E J name w = (if ?k = length ls then removeSegment E name w3
      else set_sp (queue_records name \<lparr>sg_count = length ls, sg_ack = ?k, sg_size = int (length (line_data ls)),
        sg_ackBytes = 16 * int (length xs)\<rparr> (drop ?k ?rs)) w3)"
    using E c w2(1) repair len unfolding recoverLog_def
    by (simp add: andThen_def sys_good get_file_def ok_def split_line_data [OF ls tail] attempt_def log_loop [OF ls])
  show ?thesis
  proof (cases "?k = length ls")
    case True
    have "\<exists>w'. removeSegment E name w3 = (Inr (), w') \<and> changed_only {name, name @ ''.ack''} w3 w' \<and> disk w' name = None"
      using E d3(1) by (auto simp: removeSegment_def sys_good del_file_def andThen_def syncTelemetryDirectory_def Sync_def ok_def
          changed_only_def ErrNotExist_def split: option.splits)
    then obtain w' where "removeSegment E name w3 = (Inr (), w')" "changed_only {name, name @ ''.ack''} w3 w'" "disk w' name = None"
      by blast
    then show ?thesis using run True d3 by (auto simp: recovered_def changed_only_def)
  next
    case False
    define w' where "w' = w3\<lparr>sp := queue_records name \<lparr>sg_count = length ls, sg_ack = ?k, sg_size = int (length (line_data ls)),
        sg_ackBytes = 16 * int (length xs)\<rparr> (drop ?k ?rs) (sp w3)\<rparr>"
    have d': "disk w' name = Some (line_data ls)" using d3(1) by (simp add: w'_def)
    have rs: "sp_records (sp w') = sp_records (sp w) @ drop ?k ?rs" "sp_bytes (sp w') = sp_bytes (sp w) + sizes (drop ?k ?rs)"
      by (simp_all add: w'_def queue_records_def d3(2) sizes_def)
    have seg: "sg_count (sp_segments (sp w') name) = length ls" "sg_ack (sp_segments (sp w') name) = ?k"
      by (simp_all add: w'_def queue_records_def)
    have "map (payload w') (drop ?k ?rs) = drop ?k (map fst ls)"
      using line_records_located(1) [OF d'] by (metis drop_map)
    moreover have "\<forall>r\<in>set (drop ?k ?rs). tr_segment r = name \<and> in_file w' r"
      using line_records_located(2) [OF d'] in_set_dropD by metis
    ultimately have "recovered w name ls ?k w'"
      using False rs d' seg unfolding recovered_def by (simp only: if_False) blast
    moreover have "recoverLog E J name w = (Inr (), w')" using run False by (simp add: w'_def set_sp_def)
    ultimately show ?thesis using d3(3) by (auto simp: w'_def)
  qed
qed

subsection \<open>Crashes\<close>

text \<open>What an append leaves behind, wherever it stops: the old contents and a prefix of the data.\<close>

lemma append_leaves_prefix:
  assumes "disk w path = Some c \<or> disk w path = None \<and> c = [] \<and> create"
    and "appendTelemetryFile E path data (int (length c)) create w = (r, w')"
  shows "changed_only {path} w w' \<and> ((\<exists>m. disk w' path = Some (c @ take m data)) \<or> disk w' path = disk w path)
    \<and> (r = Inr () \<longrightarrow> disk w' path = Some (c @ data))"
proof -
  have whole: "\<exists>m. data = take m data" by (intro exI [of _ "length data"]) simp
  show ?thesis using assms
    by (auto simp: whole appendTelemetryFile_def OpenFile_def get_file_def put_file_def WriteAt_def Sync_def andThen_def
        sys_def ok_def raise_def Let_def syncTelemetryDirectory_def changed_only_def splice_def
        split: fault.splits if_splits)
qed

lemma acks_ok_mono: "acks_ok n a xs \<Longrightarrow> n \<le> n' \<Longrightarrow> acks_ok n' a xs"
  by (induction xs arbitrary: a) auto

lemma acks_ok_snoc: "acks_ok n a xs \<Longrightarrow> last (a # xs) < x \<Longrightarrow> x \<le> n \<Longrightarrow> acks_ok n a (xs @ [x])"
  by (induction xs arbitrary: a) (auto split: if_splits)

lemma line_data_append: "line_data (xs @ ys) = line_data xs @ line_data ys"
  by (simp add: line_data_def)

lemma recover_lines:
  assumes E: "good_env E" and ls: "lines_ok J ls0" "lines_ok J ls1"
    and c: "disk w name = Some (line_data ls0 @ take m (line_data ls1))"
    and j: "journal_file w (name @ ''.ack'') xs t" "length t < 16" "acks_ok (length ls0) 0 xs"
    and n: "int (length ls0 + length ls1) < 2 ^ 64"
  shows "\<exists>k\<le>length ls1. \<exists>w'. recoverLog E J name w = (Inr (), w') \<and> recovered w name (ls0 @ take k ls1) (last (0 # xs)) w'
    \<and> (length (line_data ls1) \<le> m \<longrightarrow> k = length ls1)"
proof -
  obtain k tail where k: "k \<le> length ls1" "take m (line_data ls1) = line_data (take k ls1) @ tail" "newline \<notin> set tail"
    "length (line_data ls1) \<le> m \<longrightarrow> k = length ls1"
  proof (cases "length (line_data ls1) \<le> m")
    case True
    then show ?thesis using that [of "length ls1" "[]"] by simp
  next
    case False
    then show ?thesis using torn_lines [OF ls(2), of m] that by blast
  qed
  have "lines_ok J (ls0 @ take k ls1)" using ls in_set_takeD [of _ k ls1] unfolding lines_ok_def by fastforce
  moreover have "disk w name = Some (line_data (ls0 @ take k ls1) @ tail)" using c k(2) by (simp add: line_data_append)
  moreover have "acks_ok (length (ls0 @ take k ls1)) 0 xs" using j(3) by (rule acks_ok_mono) simp
  moreover have "int (length (ls0 @ take k ls1)) < 2 ^ 64" using n k(1) by simp
  ultimately show ?thesis using recoverLog_spec [OF E _ k(3) _ j(1)] j(2) k(1,4) by blast
qed

text \<open>
  C17. Crash safety of an append: if the write of new lines stops at any point and the Agent restarts,
  recovery succeeds, keeps every line that was in the segment before, and adds a prefix of the new
  lines, all of them if the append had returned success. Acknowledged lines do not come back.
\<close>

theorem append_crash_recover:
  assumes "good_env E'" "lines_ok J ls0" "lines_ok J ls1" "disk w name = Some (line_data ls0)"
    and "journal_file w (name @ ''.ack'') xs []" "acks_ok (length ls0) 0 xs" "int (length ls0 + length ls1) < 2 ^ 64"
    and "appendTelemetryFile E name (line_data ls1) (int (length (line_data ls0))) False w = (r, w1)"
  shows "\<exists>k\<le>length ls1. \<exists>w'. recoverLog E' J name w1 = (Inr (), w')
    \<and> recovered w1 name (ls0 @ take k ls1) (last (0 # xs)) w' \<and> (r = Inr () \<longrightarrow> k = length ls1)"
proof -
  have w1: "changed_only {name} w w1" "(\<exists>m. disk w1 name = Some (line_data ls0 @ take m (line_data ls1))) \<or> disk w1 name = disk w name"
    "r = Inr () \<longrightarrow> disk w1 name = Some (line_data ls0 @ line_data ls1)"
    using append_leaves_prefix [OF disjI1 [OF assms(4)] assms(8)] by auto
  obtain m where m: "disk w1 name = Some (line_data ls0 @ take m (line_data ls1))" "r = Inr () \<longrightarrow> length (line_data ls1) \<le> m"
  proof (cases "r = Inr ()")
    case True
    then show ?thesis using that [of "length (line_data ls1)"] w1(3) by simp
  next
    case False
    then show ?thesis using that [of 0] that w1(2) assms(4) by auto
  qed
  have "journal_file w1 (name @ ''.ack'') xs []" using assms(5) w1(1) by (simp add: journal_file_def changed_only_def)
  from recover_lines [OF assms(1-3) m(1) this _ assms(6,7)] show ?thesis using m(2) by (metis length_greater_0_conv list.size(3) zero_less_numeral)
qed

definition ex_crash :: world where
  "ex_crash = ex_world\<lparr>files := [(''s.jsonl'', [1, 10])]\<rparr>"

theorem append_crash_recover_witness:
  "\<exists>k\<le>1. \<exists>w'. recoverLog ex_env ex_codec ''s.jsonl''
     (snd (appendTelemetryFile (ex_env\<lparr>e_fault := (\<lambda>k. if k < 2 then IOk else IShort 1)\<rparr>) ''s.jsonl'' [2, 10] 2 False ex_crash)) = (Inr (), w')
    \<and> pending w' = map fst ([([1], ''run'')] @ take k [([2], ''run'')])"
proof -
  let ?E = "ex_env\<lparr>e_fault := (\<lambda>k. if k < 2 then IOk else IShort 1)\<rparr>"
  obtain r w1 where a: "appendTelemetryFile ?E ''s.jsonl'' [2, 10] 2 False ex_crash = (r, w1)" by fastforce
  have d: "line_data [([1], ''run'')] = [1, 10]" "line_data [([2], ''run'')] = [2, 10]" by (simp_all add: line_data_def newline_def)
  let ?l0 = "[([1 :: byte], ''run'')]" and ?l1 = "[([2 :: byte], ''run'')]"
  have "good_env ex_env" "lines_ok ex_codec ?l0" "lines_ok ex_codec ?l1" "disk ex_crash ''s.jsonl'' = Some (line_data ?l0)"
    "journal_file ex_crash (''s.jsonl'' @ ''.ack'') [] []" "acks_ok (length ?l0) 0 []" "int (length ?l0 + length ?l1) < 2 ^ 64"
    "appendTelemetryFile ?E ''s.jsonl'' (line_data ?l1) (int (length (line_data ?l0))) False ex_crash = (r, w1)"
    using a by (simp_all add: d good_env_def ex_env_def lines_ok_def newline_def ex_codec_def MaxEventBatchBytes_def ex_crash_def
        journal_file_def)
  from append_crash_recover [OF this]
  have "\<exists>k\<le>length ?l1. \<exists>w'. recoverLog ex_env ex_codec ''s.jsonl'' w1 = (Inr (), w')
    \<and> recovered w1 ''s.jsonl'' (?l0 @ take k ?l1) (last (0 # [])) w' \<and> (r = Inr () \<longrightarrow> k = length ?l1)" .
  moreover have "sp w1 = empty_spool"
    using append_leaves_prefix [of ex_crash "''s.jsonl''" "[1, 10]" False ?E "[2, 10]" r w1] a
    by (auto simp: ex_crash_def changed_only_def ex_world_def)
  ultimately show ?thesis using a
    by (auto simp: recovered_def pending_def empty_spool_def split: if_splits)
qed

end
