(* ===== verification/Work_Queue.thy ===== *)
theory Work_Queue
  imports KPL_Prelude
begin

text \<open>
  The Controller's work queue: \<^verbatim>\<open>internal/controller/work_queue.go\<close> with the parts of
  \<^verbatim>\<open>experiment_queue.go\<close>, \<^verbatim>\<open>repeat.go\<close> and \<^verbatim>\<open>run_integrity.go\<close> it calls.

  A \<^verbatim>\<open>*workSlot\<close> is its work identifier, looked up in the heap \<open>sv_heap\<close>; a \<^verbatim>\<open>*repeatBatch\<close> is an index into
  \<open>sv_batches\<close>. Each function runs under \<^verbatim>\<open>cancelMu\<close>, so a call is one step. Calls of context cancel
  functions are recorded in \<open>sv_cancelled\<close>. The clock and the random identifier are arguments. Closing a
  closed channel and a negative \<^verbatim>\<open>WaitGroup\<close> counter are panics.
\<close>

subsection \<open>State\<close>

record WorkQueueItem =
  wi_ID :: string
  wi_Kind :: string
  wi_Name :: string
  wi_RunID :: string
  wi_BatchID :: string
  wi_OperationID :: string
  wi_State :: string
  wi_Position :: nat
  wi_CreatedAt :: int
  wi_StartedAt :: "int option"
  wi_Phase :: string
  wi_Progress :: f64

record workSlot =
  ws_item :: WorkQueueItem
  ws_cancel :: bool
  ws_closed :: bool  \<comment> \<open>the channel \<^verbatim>\<open>ready\<close> is closed\<close>
  ws_opened :: bool
  ws_finished :: bool
  ws_batch :: "nat option"

record repeatBatch =
  rb_executionID :: string
  rb_repetitions :: int
  rb_members :: "string list"
  rb_slot :: "string option"
  rb_queuedIDs :: "string list"

record Experiment =
  ex_State :: string
  ex_ExecutionID :: string
  ex_QueuePosition :: nat
  ex_StopRequested :: bool

datatype cancellation = CancelSlot string | CancelBatch nat

record wserver =
  sv_heap :: "string \<Rightarrow> workSlot"
  sv_live :: "string list"            \<comment> \<open>the keys of \<^verbatim>\<open>workSlots\<close>\<close>
  sv_queue :: "string list"           \<comment> \<open>\<^verbatim>\<open>experimentQueue\<close>\<close>
  sv_items :: "WorkQueueItem list"    \<comment> \<open>\<^verbatim>\<open>state.workQueue\<close>\<close>
  sv_experiments :: "string \<rightharpoonup> Experiment"
  sv_batches :: "nat \<Rightarrow> repeatBatch"
  sv_repeat :: "string \<rightharpoonup> nat"        \<comment> \<open>\<^verbatim>\<open>repeatBatches\<close>\<close>
  sv_cancels :: "string set"          \<comment> \<open>the keys of \<^verbatim>\<open>cancels\<close>\<close>
  sv_recent :: "string list"          \<comment> \<open>\<^verbatim>\<open>recentWorkCancels\<close>\<close>
  sv_workers :: int                   \<comment> \<open>\<^verbatim>\<open>workWorkers\<close>\<close>
  sv_cancelled :: "cancellation list"
  sv_cleanup :: "string list"         \<comment> \<open>\<^verbatim>\<open>queueCleanup\<close>\<close>

definition upd_slot :: "string \<Rightarrow> (workSlot \<Rightarrow> workSlot) \<Rightarrow> wserver \<Rightarrow> wserver" where
  "upd_slot wid f s = s\<lparr>sv_heap := (sv_heap s)(wid := f (sv_heap s wid))\<rparr>"

subsection \<open>Publishing the queue\<close>

text \<open>The new item of the slot at a position.\<close>

definition place_item :: "int \<Rightarrow> nat \<Rightarrow> WorkQueueItem \<Rightarrow> WorkQueueItem" where
  "place_item now position item =
     item\<lparr>wi_Position := position,
       wi_State := (if position = 0 then ''running'' else ''queued''),
       wi_StartedAt := (if position = 0 \<and> wi_StartedAt item = None then Some now else wi_StartedAt item)\<rparr>"

definition carry_progress :: "WorkQueueItem list \<Rightarrow> WorkQueueItem \<Rightarrow> WorkQueueItem" where
  "carry_progress previous item =
     (case map_of (map (\<lambda>i. (wi_ID i, i)) (rev previous)) (wi_ID item) of
        Some old \<Rightarrow> item\<lparr>wi_Phase := wi_Phase old, wi_Progress := wi_Progress old\<rparr>
      | None \<Rightarrow> item)"

definition set_position :: "nat \<Rightarrow> string \<Rightarrow> (string \<rightharpoonup> Experiment) \<Rightarrow> (string \<rightharpoonup> Experiment)" where
  "set_position position wid m =
     (case m wid of None \<Rightarrow> m | Some run \<Rightarrow> m(wid \<mapsto> run\<lparr>ex_QueuePosition := position\<rparr>))"

definition batch_ids :: "wserver \<Rightarrow> string \<Rightarrow> string list" where
  "batch_ids s wid = (case ws_batch (sv_heap s wid) of None \<Rightarrow> [] | Some b \<Rightarrow> rb_queuedIDs (sv_batches s b))"

text \<open>The loop over the queue: \<open>previous\<close> is the published queue, \<open>position\<close> the index of the next slot.\<close>

fun place_slots ::
    "int \<Rightarrow> WorkQueueItem list \<Rightarrow> nat \<Rightarrow> string list \<Rightarrow> wserver \<times> WorkQueueItem list \<Rightarrow> wserver \<times> WorkQueueItem list" where
  "place_slots now previous position [] sq = sq"
| "place_slots now previous position (wid # wids) sq =
     (let (s, queue) = sq;
          s1 = upd_slot wid (\<lambda>slot. slot\<lparr>ws_item := place_item now position (ws_item slot)\<rparr>) s;
          item = carry_progress previous (ws_item (sv_heap s1 wid));
          s2 = s1\<lparr>sv_experiments := fold (set_position position) (batch_ids s1 wid) (sv_experiments s1)\<rparr>
      in place_slots now previous (Suc position) wids (s2, queue @ [item]))"

definition open_head :: "wserver \<Rightarrow> wserver result" where
  "open_head s =
     (case sv_queue s of [] \<Rightarrow> Inr s
      | head # _ \<Rightarrow>
          if ws_opened (sv_heap s head) then Inr s
          else if ws_closed (sv_heap s head) then Inl Panic
          else Inr (upd_slot head (\<lambda>slot. slot\<lparr>ws_opened := True, ws_closed := True\<rparr>) s))"

definition updateQueuePositionsLocked :: "int \<Rightarrow> wserver \<Rightarrow> wserver result" where
  "updateQueuePositionsLocked now s =
     (let (s1, queue) = place_slots now (sv_items s) 0 (sv_queue s) (s, [])
      in open_head (s1\<lparr>sv_items := queue\<rparr>))"

subsection \<open>Admission and completion\<close>

definition new_slot :: "int \<Rightarrow> string \<Rightarrow> WorkQueueItem \<Rightarrow> bool \<Rightarrow> workSlot" where
  "new_slot now wid item cancel =
     \<lparr>ws_item = item\<lparr>wi_ID := wid, wi_CreatedAt := now, wi_State := ''queued'', wi_Phase := [],
         wi_Progress := Fin 0, wi_StartedAt := None\<rparr>,
      ws_cancel = cancel, ws_closed = False, ws_opened = False, ws_finished = False, ws_batch = None\<rparr>"

definition enqueueWorkLocked :: "int \<Rightarrow> string \<Rightarrow> WorkQueueItem \<Rightarrow> bool \<Rightarrow> wserver \<Rightarrow> wserver result" where
  "enqueueWorkLocked now text item cancel s =
     (let wid = ''work-'' @ text in
      updateQueuePositionsLocked now
        (s\<lparr>sv_heap := (sv_heap s)(wid := new_slot now wid item cancel), sv_live := List.insert wid (sv_live s),
           sv_workers := sv_workers s + 1, sv_queue := sv_queue s @ [wid]\<rparr>))"

text \<open>The experiments of a batch take one slot; the runs' identifiers and the slot are set on the batch.\<close>

definition enqueueExperimentsLocked ::
    "int \<Rightarrow> string \<Rightarrow> nat \<Rightarrow> string list \<Rightarrow> string \<Rightarrow> string \<Rightarrow> wserver \<Rightarrow> wserver result" where
  "enqueueExperimentsLocked now text b runIDs name batchID s =
     (let wid = ''work-'' @ text;
          s0 = s\<lparr>sv_batches := (sv_batches s)(b := (sv_batches s b)\<lparr>rb_queuedIDs := rb_queuedIDs (sv_batches s b) @ runIDs\<rparr>)\<rparr>;
          item = \<lparr>wi_ID = [], wi_Kind = ''experiment'', wi_Name = name, wi_RunID = (case runIDs of [] \<Rightarrow> [] | r # _ \<Rightarrow> r),
                  wi_BatchID = batchID, wi_OperationID = [], wi_State = [], wi_Position = 0, wi_CreatedAt = 0,
                  wi_StartedAt = None, wi_Phase = [], wi_Progress = Fin 0\<rparr>
      in if runIDs = [] then Inl Panic
         else rbind (enqueueWorkLocked now text item True s0) (\<lambda>s1.
           updateQueuePositionsLocked now
             (upd_slot wid (\<lambda>slot. slot\<lparr>ws_batch := Some b\<rparr>)
               (s1\<lparr>sv_batches := (sv_batches s1)(b := (sv_batches s1 b)\<lparr>rb_slot := Some wid\<rparr>)\<rparr>))))"

text \<open>
  The registration of a batch, which \<^verbatim>\<open>startScenarioRepeated\<close>, \<^verbatim>\<open>resumeScenarioBatch\<close> and the appending of repetitions end with: the
  runs are stored, every member leads to the new batch and can be cancelled, and the runs to be made take a slot. Only the last two
  list the members; otherwise they are the runs.
\<close>

definition registerBatch :: "nat \<Rightarrow> repeatBatch \<Rightarrow> string list \<Rightarrow> wserver \<Rightarrow> wserver" where
  "registerBatch b batch members s =
     s\<lparr>sv_batches := (sv_batches s)(b := batch), sv_repeat := (\<lambda>runID. if runID \<in> set members then Some b else sv_repeat s runID),
       sv_cancels := sv_cancels s \<union> set members\<rparr>"

definition startBatchLocked ::
    "int \<Rightarrow> string \<Rightarrow> nat \<Rightarrow> string \<Rightarrow> int \<Rightarrow> string list \<Rightarrow> (string \<times> Experiment) list \<Rightarrow> string \<Rightarrow> string \<Rightarrow> wserver \<Rightarrow> wserver result" where
  "startBatchLocked now text b executionID repetitions members runs name batchID s =
     (let s1 = s\<lparr>sv_experiments := sv_experiments s ++ map_of (rev runs)\<rparr>;
          batch = \<lparr>rb_executionID = executionID, rb_repetitions = repetitions, rb_members = members, rb_slot = None, rb_queuedIDs = []\<rparr>
      in enqueueExperimentsLocked now text b (map fst runs) name batchID
           (registerBatch b batch (if members = [] then map fst runs else members) s1))"

definition removeWorkLocked :: "int \<Rightarrow> string \<Rightarrow> wserver \<Rightarrow> wserver result" where
  "removeWorkLocked now wid s =
     (if wid \<notin> set (sv_queue s) then Inr s
      else updateQueuePositionsLocked now
        (s\<lparr>sv_queue := remove1 wid (sv_queue s),
           sv_experiments := fold (set_position 0) (batch_ids s wid) (sv_experiments s)\<rparr>))"

definition finishWorkLocked :: "int \<Rightarrow> string option \<Rightarrow> wserver \<Rightarrow> wserver result" where
  "finishWorkLocked now slot s =
     (case slot of None \<Rightarrow> Inr s
      | Some wid \<Rightarrow>
          if ws_finished (sv_heap s wid) then Inr s
          else rbind (removeWorkLocked now wid (upd_slot wid (\<lambda>slot. slot\<lparr>ws_finished := True\<rparr>) s)) (\<lambda>s.
            if sv_workers s - 1 < 0 then Inl Panic
            else Inr (s\<lparr>sv_live := remove1 wid (sv_live s), sv_workers := sv_workers s - 1\<rparr>)))"

text \<open>\<^verbatim>\<open>waitWork\<close> of a waiter whose context is cancelled; the place of an active worker is kept.\<close>

definition index_of :: "string \<Rightarrow> string list \<Rightarrow> int" where
  "index_of wid q = (if wid \<in> set q then int (length (takeWhile (\<lambda>x. x \<noteq> wid) q)) else -1)"

definition waitWork_cancelled :: "int \<Rightarrow> string \<Rightarrow> wserver \<Rightarrow> wserver result" where
  "waitWork_cancelled now wid s =
     (if index_of wid (sv_queue s) > 0 then removeWorkLocked now wid s else Inr s)"

subsection \<open>Status\<close>

definition f_min :: "f64 \<Rightarrow> f64 \<Rightarrow> f64" where
  "f_min a b = (if a = NaN \<or> b = NaN then NaN else if f_lt b a then b else a)"

fun set_status :: "string \<Rightarrow> string \<Rightarrow> f64 \<Rightarrow> WorkQueueItem list \<Rightarrow> WorkQueueItem list" where
  "set_status wid phase progress [] = []"
| "set_status wid phase progress (item # items) =
     (if wi_ID item = wid \<and> wi_Phase item \<noteq> ''Stopping''
      then item\<lparr>wi_Phase := phase,
             wi_Progress := (if phase \<noteq> ''Stopping'' then f_min (Fin 100) (f_max (Fin 0) progress)
                             else wi_Progress item)\<rparr> # items
      else item # set_status wid phase progress items)"

definition updateWorkStatus :: "string \<Rightarrow> string \<Rightarrow> f64 \<Rightarrow> wserver \<Rightarrow> wserver" where
  "updateWorkStatus wid phase progress s =
     (let progress = (if f_finite progress then progress else Fin 0)
      in s\<lparr>sv_items := set_status wid phase progress (sv_items s)\<rparr>)"

definition workPosition :: "string \<Rightarrow> wserver \<Rightarrow> nat \<times> bool" where
  "workPosition wid s =
     (case find (\<lambda>item. wi_ID item = wid) (sv_items s) of Some item \<Rightarrow> (wi_Position item, True) | None \<Rightarrow> (0, False))"

subsection \<open>Cancellation\<close>

definition markStopRequestedLocked :: "string \<Rightarrow> string \<Rightarrow> wserver \<Rightarrow> wserver" where
  "markStopRequestedLocked wid execution s =
     s\<lparr>sv_experiments := (\<lambda>key. case sv_experiments s key of None \<Rightarrow> None
        | Some run \<Rightarrow>
            if (execution \<noteq> [] \<and> ex_ExecutionID run = execution \<or> execution = [] \<and> key = wid)
               \<and> (ex_State run = ''running'' \<or> ex_State run = ''queued'')
            then Some (run\<lparr>ex_StopRequested := True\<rparr>) else Some run)\<rparr>"

definition cancelRepeatLocked :: "string \<Rightarrow> wserver \<Rightarrow> bool \<times> wserver" where
  "cancelRepeatLocked runID s =
     (case sv_repeat s runID of None \<Rightarrow> (False, s)
      | Some b \<Rightarrow>
          let batch = sv_batches s b;
              executionID = (case sv_experiments s runID of None \<Rightarrow> [] | Some run \<Rightarrow> ex_ExecutionID run) in
          if rb_executionID batch \<noteq> [] \<and> executionID \<noteq> rb_executionID batch then (False, s)
          else if rb_repetitions batch \<le> 1 \<and> runID \<notin> sv_cancels s then (False, s)
          else let s1 = markStopRequestedLocked runID (rb_executionID batch) s;
                   s2 = (case rb_slot batch of None \<Rightarrow> s1 | Some wid \<Rightarrow> updateWorkStatus wid ''Stopping'' (Fin 0) s1)
               in (True, s2\<lparr>sv_cancelled := sv_cancelled s2 @ [CancelBatch b]\<rparr>))"

definition errWorkNotFound :: go_err where "errWorkNotFound = Fail ''queued work not found or already finished''"
definition errExecutionChanged :: go_err where "errExecutionChanged = Fail ''execution changed''"

text \<open>The cancellation of the slot itself: through its batch, or by its own cancel function.\<close>

definition cancel_slot :: "string \<Rightarrow> wserver \<Rightarrow> wserver result" where
  "cancel_slot wid s =
     (case ws_batch (sv_heap s wid) of
        Some b \<Rightarrow>
          (case rb_queuedIDs (sv_batches s b) of [] \<Rightarrow> Inl Panic
           | runID # _ \<Rightarrow>
               (case cancelRepeatLocked runID s of (done, s1) \<Rightarrow> if done then Inr s1 else Inl errExecutionChanged))
      | None \<Rightarrow> Inr (if ws_cancel (sv_heap s wid) then s\<lparr>sv_cancelled := sv_cancelled s @ [CancelSlot wid]\<rparr> else s))"

definition remember_cancel :: "string \<Rightarrow> string list \<Rightarrow> string list" where
  "remember_cancel wid recent =
     (let recent = recent @ [wid] in if length recent > 128 then drop (length recent - 128) recent else recent)"

definition cancelWork :: "int \<Rightarrow> string \<Rightarrow> wserver \<Rightarrow> wserver result" where
  "cancelWork now wid s =
     (if wid \<in> set (sv_recent s) then Inr s
      else if wid \<notin> set (sv_live s) then Inl errWorkNotFound
      else rbind (cancel_slot wid s) (\<lambda>s.
        let s = s\<lparr>sv_recent := remember_cancel wid (sv_recent s)\<rparr>
        in if index_of wid (sv_queue s) > 0 then removeWorkLocked now wid s
           else Inr (updateWorkStatus wid ''Stopping'' (wi_Progress (ws_item (sv_heap s wid))) s)))"

text \<open>Shutdown cancels every live slot; the order of a map iteration is not observable here.\<close>

definition cancelWorkQueueLocked :: "wserver \<Rightarrow> wserver" where
  "cancelWorkQueueLocked s =
     s\<lparr>sv_cancelled := sv_cancelled s @ map CancelSlot (filter (\<lambda>wid. ws_cancel (sv_heap s wid)) (sv_live s))\<rparr>"

subsection \<open>Cleanup obligations\<close>

definition rememberQueueCleanupLocked :: "string \<Rightarrow> wserver \<Rightarrow> wserver" where
  "rememberQueueCleanupLocked wid s =
     (if wid \<noteq> [] \<and> wid \<notin> set (sv_cleanup s) then s\<lparr>sv_cleanup := sv_cleanup s @ [wid]\<rparr> else s)"

text \<open>\<open>cleared\<close> is the outcome of removing the durable markers (\<^verbatim>\<open>clearPendingWorkCleanup\<close>).\<close>

definition completeQueueCleanup :: "unit result \<Rightarrow> string list \<Rightarrow> wserver \<Rightarrow> wserver result" where
  "completeQueueCleanup cleared wids s =
     rbind cleared (\<lambda>_. Inr (s\<lparr>sv_cleanup := filter (\<lambda>wid. wid \<notin> set wids) (sv_cleanup s)\<rparr>))"

subsection \<open>The end of a batch\<close>

text \<open>
  The deferred function of \<^verbatim>\<open>runRepeatedScenarios\<close>: the members are retired, runs that still hold Peers become obligations, and the slot
  is finished. \<open>unclean\<close> tells the runs that have started and whose cleanup is not complete; the queued runs are those of the scheduler.
\<close>

definition retireBatchLocked :: "int \<Rightarrow> nat \<Rightarrow> (string \<Rightarrow> bool) \<Rightarrow> wserver \<Rightarrow> wserver result" where
  "retireBatchLocked now b unclean s =
     (let batch = sv_batches s b;
          members = (if rb_members batch = [] then rb_queuedIDs batch else rb_members batch);
          s1 = s\<lparr>sv_repeat := (\<lambda>runID. if runID \<in> set members then None else sv_repeat s runID), sv_cancels := sv_cancels s - set members\<rparr>
      in finishWorkLocked now (rb_slot batch) (fold rememberQueueCleanupLocked (filter unclean (rb_queuedIDs batch)) s1))"

text \<open>A run retires its own cancellation handle before its finalization.\<close>

definition retireCancelLocked :: "string \<Rightarrow> wserver \<Rightarrow> wserver" where
  "retireCancelLocked runID s = s\<lparr>sv_cancels := sv_cancels s - {runID}\<rparr>"

end
