(* ===== verification/Work_Queue_Correct.thy ===== *)
theory Work_Queue_Correct
  imports Work_Queue "HOL-Library.Sublist"
begin

text \<open>
  The work queue as a state machine: its invariant, the absence of panics, first-in first-out order and
  the isolation of the worker at the head, over all sequences of calls.
\<close>

subsection \<open>The steps\<close>

text \<open>
  A new slot has an identifier that no live slot has, and a new batch is an object that no slot refers to. Runs are updated by other
  goroutines at any time.
\<close>

inductive wq_step :: "wserver \<Rightarrow> wserver \<Rightarrow> bool" where
  Enqueue: "''work-'' @ text \<notin> set (sv_live s) \<Longrightarrow> enqueueWorkLocked now text item cancel s = Inr s' \<Longrightarrow> wq_step s s'"
| EnqueueBatch: "''work-'' @ text \<notin> set (sv_live s) \<Longrightarrow> runIDs \<noteq> [] \<Longrightarrow>
     enqueueExperimentsLocked now text b runIDs name batchID s = Inr s' \<Longrightarrow> wq_step s s'"
| StartBatch: "''work-'' @ text \<notin> set (sv_live s) \<Longrightarrow> runs \<noteq> [] \<Longrightarrow> \<forall>w. ws_batch (sv_heap s w) \<noteq> Some b \<Longrightarrow>
     startBatchLocked now text b executionID repetitions members runs name batchID s = Inr s' \<Longrightarrow> wq_step s s'"
| RetireBatch: "rb_slot (sv_batches s b) = Some w \<Longrightarrow> w \<in> set (sv_live s) \<or> ws_finished (sv_heap s w) \<Longrightarrow>
     retireBatchLocked now b unclean s = Inr s' \<Longrightarrow> wq_step s s'"
| RetireCancel: "wq_step s (retireCancelLocked runID s)"
| UpdateRun: "sv_experiments s runID = Some run \<Longrightarrow> wq_step s (s\<lparr>sv_experiments := (sv_experiments s)(runID \<mapsto> run')\<rparr>)"
| Finish: "\<forall>w. slot = Some w \<longrightarrow> w \<in> set (sv_live s) \<or> ws_finished (sv_heap s w) \<Longrightarrow>
     finishWorkLocked now slot s = Inr s' \<Longrightarrow> wq_step s s'"
| WaiterCancelled: "waitWork_cancelled now w s = Inr s' \<Longrightarrow> wq_step s s'"
| Cancel: "cancelWork now w s = Inr s' \<Longrightarrow> wq_step s s'"
| Status: "wq_step s (updateWorkStatus w phase progress s)"
| Shutdown: "wq_step s (cancelWorkQueueLocked s)"
| Remember: "wq_step s (rememberQueueCleanupLocked w s)"
| Complete: "completeQueueCleanup cleared ws s = Inr s' \<Longrightarrow> wq_step s s'"

inductive wq_reach :: "wserver \<Rightarrow> wserver \<Rightarrow> bool" for s where
  Refl: "wq_reach s s"
| Step: "wq_reach s s' \<Longrightarrow> wq_step s' s'' \<Longrightarrow> wq_reach s s''"

subsection \<open>The invariant\<close>

definition published :: "string list \<Rightarrow> WorkQueueItem list \<Rightarrow> bool" where
  "published queue items = (length items = length queue \<and> (\<forall>i<length queue. wi_ID (items ! i) = queue ! i
     \<and> wi_Position (items ! i) = i \<and> wi_State (items ! i) = (if i = 0 then ''running'' else ''queued'')))"

text \<open>\<open>slots_ok\<close> is what a call keeps even before the queue is published again.\<close>

definition slots_ok :: "wserver \<Rightarrow> bool" where
  "slots_ok s = (distinct (sv_queue s) \<and> distinct (sv_live s) \<and> set (sv_queue s) \<subseteq> set (sv_live s)
     \<and> (\<forall>w\<in>set (sv_live s). ws_closed (sv_heap s w) = ws_opened (sv_heap s w)
          \<and> wi_ID (ws_item (sv_heap s w)) = w
          \<and> (\<forall>b. ws_batch (sv_heap s w) = Some b \<longrightarrow> rb_queuedIDs (sv_batches s b) \<noteq> []))
     \<and> (\<forall>w\<in>set (tl (sv_queue s)). \<not> ws_opened (sv_heap s w))
     \<and> sv_workers s = int (length (sv_live s)) \<and> length (sv_recent s) \<le> 128)"

definition queue_pub :: "wserver \<Rightarrow> bool" where
  "queue_pub s = (slots_ok s \<and> (sv_queue s \<noteq> [] \<longrightarrow> ws_opened (sv_heap s (hd (sv_queue s))))
     \<and> published (sv_queue s) (sv_items s))"

definition queue_ok :: "wserver \<Rightarrow> bool" where
  "queue_ok s = (queue_pub s \<and> (\<forall>w\<in>set (sv_live s). \<not> ws_finished (sv_heap s w)))"

lemmas queue_defs = queue_ok_def queue_pub_def

definition empty_server :: wserver where
  "empty_server = \<lparr>sv_heap = (\<lambda>_. new_slot 0 [] \<lparr>wi_ID = [], wi_Kind = [], wi_Name = [], wi_RunID = [],
       wi_BatchID = [], wi_OperationID = [], wi_State = [], wi_Position = 0, wi_CreatedAt = 0, wi_StartedAt = None,
       wi_Phase = [], wi_Progress = Fin 0\<rparr> False),
     sv_live = [], sv_queue = [], sv_items = [], sv_experiments = Map.empty,
     sv_batches = (\<lambda>_. \<lparr>rb_executionID = [], rb_repetitions = 0, rb_members = [], rb_slot = None, rb_queuedIDs = []\<rparr>),
     sv_repeat = Map.empty, sv_cancels = {}, sv_recent = [], sv_workers = 0, sv_cancelled = [], sv_cleanup = []\<rparr>"

lemma empty_server_ok: "queue_ok empty_server"
  by (simp add: queue_defs slots_ok_def empty_server_def published_def)

subsection \<open>Publishing\<close>

definition slot_flags :: "workSlot \<Rightarrow> string \<times> bool \<times> bool \<times> bool \<times> bool \<times> nat option" where
  "slot_flags slot = (wi_ID (ws_item slot), ws_cancel slot, ws_closed slot, ws_opened slot, ws_finished slot, ws_batch slot)"

definition same_flags :: "wserver \<Rightarrow> wserver \<Rightarrow> bool" where
  "same_flags s s' = (\<exists>h e. s' = s\<lparr>sv_heap := h, sv_experiments := e\<rparr> \<and> (\<forall>w. slot_flags (h w) = slot_flags (sv_heap s w)))"

lemma place_item_simps [simp]:
  "wi_ID (place_item now p item) = wi_ID item" "wi_Position (place_item now p item) = p"
  "wi_State (place_item now p item) = (if p = 0 then ''running'' else ''queued'')"
  by (simp_all add: place_item_def)

lemma carry_progress_simps [simp]:
  "wi_ID (carry_progress prev item) = wi_ID item" "wi_Position (carry_progress prev item) = wi_Position item"
  "wi_State (carry_progress prev item) = wi_State item"
  by (simp_all add: carry_progress_def split: option.splits)

lemma place_slots_spec:
  assumes "place_slots now prev p ws (s, q) = (s', q')"
  shows "same_flags s s' \<and> (\<exists>items. q' = q @ items \<and> length items = length ws
    \<and> (\<forall>i<length ws. wi_ID (items ! i) = wi_ID (ws_item (sv_heap s (ws ! i))) \<and> wi_Position (items ! i) = p + i
         \<and> wi_State (items ! i) = (if p + i = 0 then ''running'' else ''queued'')))"
  using assms
proof (induction ws arbitrary: p s q)
  case Nil
  then show ?case by (auto simp: same_flags_def intro!: exI [of _ "sv_heap s"] exI [of _ "sv_experiments s"])
next
  case (Cons w ws)
  define s1 where "s1 = upd_slot w (\<lambda>slot. slot\<lparr>ws_item := place_item now p (ws_item slot)\<rparr>) s"
  define s2 where "s2 = s1\<lparr>sv_experiments := fold (set_position p) (batch_ids s1 w) (sv_experiments s1)\<rparr>"
  define item where "item = carry_progress prev (ws_item (sv_heap s1 w))"
  have run: "place_slots now prev (Suc p) ws (s2, q @ [item]) = (s', q')"
    using Cons.prems by (simp add: s1_def s2_def item_def Let_def)
  have h2: "slot_flags (sv_heap s2 x) = slot_flags (sv_heap s x)" for x
    by (simp add: s2_def s1_def upd_slot_def slot_flags_def)
  from Cons.IH [OF run] obtain items where
    IH: "same_flags s2 s'" "q' = (q @ [item]) @ items" "length items = length ws"
      "\<forall>i<length ws. wi_ID (items ! i) = wi_ID (ws_item (sv_heap s2 (ws ! i))) \<and> wi_Position (items ! i) = Suc p + i
         \<and> wi_State (items ! i) = (if Suc p + i = 0 then ''running'' else ''queued'')" by blast
  obtain h e where he: "s' = s2\<lparr>sv_heap := h, sv_experiments := e\<rparr>" "\<forall>x. slot_flags (h x) = slot_flags (sv_heap s2 x)"
    using IH(1) by (auto simp: same_flags_def)
  have "s' = s\<lparr>sv_heap := h, sv_experiments := e\<rparr>" by (simp add: he(1) s2_def s1_def upd_slot_def)
  then have "same_flags s s'" using he(2) h2 by (auto simp: same_flags_def)
  moreover have "\<forall>i<length (w # ws). wi_ID ((item # items) ! i) = wi_ID (ws_item (sv_heap s ((w # ws) ! i)))
      \<and> wi_Position ((item # items) ! i) = p + i
      \<and> wi_State ((item # items) ! i) = (if p + i = 0 then ''running'' else ''queued'')"
    using IH(4) h2 by (auto simp: nth_Cons' item_def s1_def upd_slot_def slot_flags_def)
  ultimately show ?case using IH(2,3) by (intro conjI exI [of _ "item # items"]) auto
qed

text \<open>Publishing a queue in a state that satisfies \<open>slots_ok\<close> succeeds and establishes the invariant.\<close>

definition keeps :: "wserver \<Rightarrow> wserver \<Rightarrow> bool" where
  "keeps s s' = (sv_queue s' = sv_queue s \<and> sv_live s' = sv_live s \<and> sv_recent s' = sv_recent s
     \<and> sv_batches s' = sv_batches s \<and> sv_workers s' = sv_workers s \<and> sv_cancelled s' = sv_cancelled s
     \<and> sv_cleanup s' = sv_cleanup s \<and> (\<forall>w. ws_finished (sv_heap s' w) = ws_finished (sv_heap s w)))"

lemma updateQueuePositions_ok:
  assumes ok: "slots_ok s"
  shows "\<exists>s'. updateQueuePositionsLocked now s = Inr s' \<and> queue_pub s' \<and> keeps s s'"
proof -
  obtain s1 items where p: "place_slots now (sv_items s) 0 (sv_queue s) (s, []) = (s1, items)" by fastforce
  from place_slots_spec [OF p] obtain h e where
    s1: "s1 = s\<lparr>sv_heap := h, sv_experiments := e\<rparr>" "\<forall>w. slot_flags (h w) = slot_flags (sv_heap s w)"
    and len: "length items = length (sv_queue s)"
    and it: "\<forall>i<length (sv_queue s). wi_ID (items ! i) = wi_ID (ws_item (sv_heap s (sv_queue s ! i))) \<and> wi_Position (items ! i) = i
         \<and> wi_State (items ! i) = (if i = 0 then ''running'' else ''queued'')"
    by (auto simp: same_flags_def)
  define s2 where "s2 = s1\<lparr>sv_items := items\<rparr>"
  have fl: "wi_ID (ws_item (h w)) = wi_ID (ws_item (sv_heap s w))" "ws_closed (h w) = ws_closed (sv_heap s w)"
    "ws_opened (h w) = ws_opened (sv_heap s w)" "ws_finished (h w) = ws_finished (sv_heap s w)" "ws_batch (h w) = ws_batch (sv_heap s w)" for w
    using s1(2) by (simp_all add: slot_flags_def)
  have ids: "wi_ID (ws_item (sv_heap s w)) = w" if "w \<in> set (sv_queue s)" for w using ok that by (auto simp: slots_ok_def)
  have pub: "published (sv_queue s) items" using it len ids by (auto simp: published_def)
  have k2: "keeps s s2" "sv_queue s2 = sv_queue s" by (simp_all add: keeps_def s2_def s1 fl)
  have ok2: "slots_ok s2" using ok by (auto simp: slots_ok_def s2_def s1 fl)
  have pub2: "published (sv_queue s2) (sv_items s2)" using pub by (simp add: s2_def s1)
  have run: "updateQueuePositionsLocked now s = open_head s2" by (simp add: updateQueuePositionsLocked_def p s2_def)
  show ?thesis
  proof (cases "sv_queue s2")
    case Nil
    then have "open_head s2 = Inr s2" by (simp add: open_head_def)
    then show ?thesis using run ok2 pub2 Nil k2 by (auto simp: queue_pub_def)
  next
    case (Cons w ws)
    show ?thesis
    proof (cases "ws_opened (sv_heap s2 w)")
      case True
      then have "open_head s2 = Inr s2" using Cons by (simp add: open_head_def)
      then show ?thesis using run ok2 pub2 Cons True k2 by (auto simp: queue_pub_def)
    next
      case False
      have w: "w \<in> set (sv_live s2)" "w \<notin> set ws" using ok2 Cons by (auto simp: slots_ok_def)
      then have "\<not> ws_closed (sv_heap s2 w)" using ok2 False by (auto simp: slots_ok_def)
      then have "open_head s2 = Inr (upd_slot w (\<lambda>slot. slot\<lparr>ws_opened := True, ws_closed := True\<rparr>) s2)" (is "_ = Inr ?s3")
        using Cons False by (simp add: open_head_def)
      moreover have "slots_ok ?s3" using ok2 Cons w by (auto simp: slots_ok_def upd_slot_def)
      moreover have "keeps s ?s3" using k2(1) by (simp add: keeps_def upd_slot_def)
      ultimately show ?thesis using run pub2 Cons by (auto simp: queue_pub_def upd_slot_def)
    qed
  qed
qed

subsection \<open>Every call keeps the invariant\<close>

lemma set_status_published: "published q items \<Longrightarrow> published q (set_status w phase progress items)"
proof -
  have "length (set_status w phase progress items) = length items
    \<and> (\<forall>i<length items. wi_ID (set_status w phase progress items ! i) = wi_ID (items ! i)
        \<and> wi_Position (set_status w phase progress items ! i) = wi_Position (items ! i)
        \<and> wi_State (set_status w phase progress items ! i) = wi_State (items ! i))"
  proof (induction items)
    case (Cons x xs)
    then show ?case by (auto simp: nth_Cons split: nat.splits)
  qed simp
  then show "published q items \<Longrightarrow> published q (set_status w phase progress items)" by (simp add: published_def)
qed

lemma updateWorkStatus_ok: "queue_ok s \<Longrightarrow> queue_ok (updateWorkStatus w phase progress s)"
  "keeps s (updateWorkStatus w phase progress s)" "sv_heap (updateWorkStatus w phase progress s) = sv_heap s"
  by (auto simp: queue_defs slots_ok_def updateWorkStatus_def Let_def keeps_def set_status_published)

lemma tl_remove1_subset: "set (tl (remove1 w q)) \<subseteq> set (tl q)"
proof (cases q)
  case (Cons x xs)
  then show ?thesis
  proof (cases "x = w")
    case True
    then show ?thesis using Cons by (cases xs) auto
  next
    case False
    then show ?thesis using Cons set_remove1_subset by fastforce
  qed
qed simp

lemma removeWork_ok:
  assumes "slots_ok s" "w \<in> set (sv_queue s)"
  shows "\<exists>s'. removeWorkLocked now w s = Inr s' \<and> queue_pub s' \<and> sv_queue s' = remove1 w (sv_queue s)
    \<and> keeps (s\<lparr>sv_queue := remove1 w (sv_queue s)\<rparr>) s'"
proof -
  define s1 where "s1 = s\<lparr>sv_queue := remove1 w (sv_queue s),
      sv_experiments := fold (set_position 0) (batch_ids s w) (sv_experiments s)\<rparr>"
  have "slots_ok s1" using assms tl_remove1_subset [of w "sv_queue s"] set_remove1_subset [of w "sv_queue s"]
    by (auto simp: slots_ok_def s1_def)
  from updateQueuePositions_ok [OF this, of now] show ?thesis
    using assms(2) by (auto simp: removeWorkLocked_def s1_def [symmetric] keeps_def) (auto simp: s1_def keeps_def)
qed

lemma slots_ok_enqueue:
  assumes "slots_ok s" "w \<notin> set (sv_live s)" "slot = new_slot now w item cancel"
  shows "slots_ok (s\<lparr>sv_heap := (sv_heap s)(w := slot), sv_live := List.insert w (sv_live s),
     sv_workers := sv_workers s + 1, sv_queue := sv_queue s @ [w]\<rparr>)"
proof -
  have "w \<notin> set (sv_queue s)" using assms by (auto simp: slots_ok_def)
  moreover have "set (tl (sv_queue s @ [w])) \<subseteq> set (tl (sv_queue s)) \<union> {w}" by (cases "sv_queue s") auto
  moreover have "set (tl (sv_queue s)) \<subseteq> set (sv_queue s)" by (cases "sv_queue s") auto
  ultimately show ?thesis using assms by (auto simp: slots_ok_def new_slot_def List.insert_def)
qed

lemma enqueueWork_ok:
  assumes "queue_ok s" "''work-'' @ text \<notin> set (sv_live s)"
  shows "\<exists>s'. enqueueWorkLocked now text item cancel s = Inr s' \<and> queue_ok s'
    \<and> sv_queue s' = sv_queue s @ [''work-'' @ text] \<and> sv_live s' = (''work-'' @ text) # sv_live s
    \<and> sv_batches s' = sv_batches s \<and> (\<forall>w \<noteq> ''work-'' @ text. ws_finished (sv_heap s' w) = ws_finished (sv_heap s w))"
proof -
  let ?w = "''work-'' @ text"
  let ?s1 = "s\<lparr>sv_heap := (sv_heap s)(?w := new_slot now ?w item cancel), sv_live := List.insert ?w (sv_live s),
     sv_workers := sv_workers s + 1, sv_queue := sv_queue s @ [?w]\<rparr>"
  have "slots_ok ?s1" using assms by (intro slots_ok_enqueue) (auto simp: queue_defs)
  from updateQueuePositions_ok [OF this, of now] assms show ?thesis
    by (auto simp: enqueueWorkLocked_def keeps_def queue_ok_def new_slot_def)
qed

lemma finishWork_ok:
  assumes "queue_ok s" "\<forall>w. slot = Some w \<longrightarrow> w \<in> set (sv_live s) \<or> ws_finished (sv_heap s w)"
  shows "\<exists>s'. finishWorkLocked now slot s = Inr s' \<and> queue_ok s'
    \<and> (sv_queue s' = sv_queue s \<or> (\<exists>w. slot = Some w \<and> ws_finished (sv_heap s' w) \<and> sv_queue s' = remove1 w (sv_queue s)))"
proof (cases "\<exists>w. slot = Some w \<and> \<not> ws_finished (sv_heap s w)")
  case False
  then show ?thesis using assms(1) by (auto simp: finishWorkLocked_def split: option.splits)
next
  case True
  then obtain w where w: "slot = Some w" "\<not> ws_finished (sv_heap s w)" "w \<in> set (sv_live s)" using assms(2) by auto
  define s1 where "s1 = upd_slot w (\<lambda>slot. slot\<lparr>ws_finished := True\<rparr>) s"
  have ok1: "slots_ok s1" using assms(1) by (auto simp: queue_defs slots_ok_def s1_def upd_slot_def)
  have "\<exists>s2. removeWorkLocked now w s1 = Inr s2 \<and> queue_pub s2 \<and> sv_queue s2 = remove1 w (sv_queue s)
      \<and> sv_live s2 = sv_live s \<and> sv_workers s2 = sv_workers s \<and> (\<forall>x. ws_finished (sv_heap s2 x) = ws_finished (sv_heap s1 x))"
  proof (cases "w \<in> set (sv_queue s)")
    case True
    then show ?thesis using removeWork_ok [OF ok1, of w now] by (auto simp: keeps_def s1_def upd_slot_def)
  next
    case False
    then have "removeWorkLocked now w s1 = Inr s1" by (simp add: removeWorkLocked_def s1_def upd_slot_def)
    moreover have "queue_pub s1" using assms(1) by (auto simp: queue_defs slots_ok_def s1_def upd_slot_def)
    ultimately show ?thesis using False by (auto simp: s1_def upd_slot_def remove1_idem)
  qed
  then obtain s2 where s2: "removeWorkLocked now w s1 = Inr s2" "queue_pub s2" "sv_queue s2 = remove1 w (sv_queue s)"
    "sv_live s2 = sv_live s" "sv_workers s2 = sv_workers s" "\<And>x. ws_finished (sv_heap s2 x) = ws_finished (sv_heap s1 x)" by blast
  have live: "distinct (sv_live s)" "distinct (sv_queue s)" "set (sv_queue s) \<subseteq> set (sv_live s)"
    "sv_workers s = int (length (sv_live s))" using assms(1) by (auto simp: queue_defs slots_ok_def)
  have pos: "0 < length (sv_live s)" using w(3) by (auto simp: length_pos_if_in_set)
  define s' where "s' = s2\<lparr>sv_live := remove1 w (sv_live s2), sv_workers := sv_workers s2 - 1\<rparr>"
  have run: "finishWorkLocked now slot s = Inr s'"
    using w s2(1,5) live(4) pos by (simp add: finishWorkLocked_def s1_def [symmetric] s'_def)
  have fin: "ws_finished (sv_heap s2 x) \<longleftrightarrow> ws_finished (sv_heap s x) \<or> x = w" for x
    using s2(6) by (auto simp: s1_def upd_slot_def)
  have cnt: "int (length (sv_live s)) - 1 = int (length (sv_live s) - Suc 0)" using pos by linarith
  have "queue_pub s'" using s2(2-5) live pos
    by (auto simp: queue_pub_def slots_ok_def s'_def length_remove1 w(3) cnt)
  moreover have "\<forall>x\<in>set (sv_live s'). \<not> ws_finished (sv_heap s' x)"
    using assms(1) live(1) fin by (auto simp: s'_def s2(4) queue_ok_def)
  ultimately have "queue_ok s'" by (simp add: queue_ok_def)
  moreover have "sv_queue s' = remove1 w (sv_queue s)" "ws_finished (sv_heap s' w)" using s2(3) fin by (simp_all add: s'_def)
  ultimately show ?thesis using run w(1) by blast
qed

lemma index_pos: "index_of w q > 0 \<longleftrightarrow> w \<in> set (tl q) \<and> hd q \<noteq> w" if "distinct q"
  using that by (cases q) (auto simp: index_of_def)

lemma remove_waiting:
  assumes "queue_ok s" "index_of w (sv_queue s) > 0"
  shows "\<exists>s'. removeWorkLocked now w s = Inr s' \<and> queue_ok s' \<and> sv_queue s' = remove1 w (sv_queue s)
    \<and> hd (sv_queue s') = hd (sv_queue s) \<and> sv_queue s' \<noteq> [] \<and> sv_recent s' = sv_recent s"
proof -
  have d: "distinct (sv_queue s)" using assms(1) by (simp add: queue_defs slots_ok_def)
  then have w: "w \<in> set (tl (sv_queue s))" "hd (sv_queue s) \<noteq> w" using assms(2) index_pos by auto
  then have "w \<in> set (sv_queue s)" "remove1 w (sv_queue s) = hd (sv_queue s) # remove1 w (tl (sv_queue s))"
    by (cases "sv_queue s"; auto)+
  with removeWork_ok [of s w now] assms(1) show ?thesis by (auto simp: queue_ok_def queue_pub_def keeps_def)
qed

lemma cancelRepeat_ok:
  assumes "cancelRepeatLocked runID s = (res, s')" "queue_ok s"
  shows "queue_ok s' \<and> sv_queue s' = sv_queue s \<and> sv_recent s' = sv_recent s \<and> sv_live s' = sv_live s \<and> sv_heap s' = sv_heap s"
proof -
  have m: "queue_ok (markStopRequestedLocked runID e s)" for e
    using assms(2) by (simp add: queue_defs slots_ok_def markStopRequestedLocked_def)
  have frame: "queue_ok (t\<lparr>sv_cancelled := c\<rparr>)" if "queue_ok t" for t c using that by (simp add: queue_defs slots_ok_def)
  have eq: "sv_queue (markStopRequestedLocked runID e s) = sv_queue s" "sv_recent (markStopRequestedLocked runID e s) = sv_recent s"
    "sv_live (markStopRequestedLocked runID e s) = sv_live s" "sv_heap (markStopRequestedLocked runID e s) = sv_heap s" for e
    by (simp_all add: markStopRequestedLocked_def)
  have eq': "sv_queue (updateWorkStatus w p x t) = sv_queue t" "sv_recent (updateWorkStatus w p x t) = sv_recent t"
    "sv_live (updateWorkStatus w p x t) = sv_live t" "sv_heap (updateWorkStatus w p x t) = sv_heap t" for w p x t
    by (simp_all add: updateWorkStatus_def Let_def)
  show ?thesis
  proof (cases res)
    case False
    then have "s' = s" using assms(1) by (auto simp: cancelRepeatLocked_def Let_def split: option.splits if_splits)
    then show ?thesis using assms(2) by simp
  next
    case True
    then obtain b t where "s' = t\<lparr>sv_cancelled := sv_cancelled t @ [CancelBatch b]\<rparr>"
      "t = markStopRequestedLocked runID (rb_executionID (sv_batches s b)) s
       \<or> (\<exists>w. t = updateWorkStatus w ''Stopping'' (Fin 0) (markStopRequestedLocked runID (rb_executionID (sv_batches s b)) s))"
      using assms(1) by (auto simp: cancelRepeatLocked_def Let_def split: option.splits if_splits)
    then show ?thesis using frame m updateWorkStatus_ok(1) [OF m] eq eq' by auto
  qed
qed

lemma cancel_slot_ok:
  assumes "queue_ok s" "w \<in> set (sv_live s)"
  shows "yields (cancel_slot w s) {errExecutionChanged} (\<lambda>s'. queue_ok s' \<and> sv_queue s' = sv_queue s
    \<and> sv_recent s' = sv_recent s \<and> sv_live s' = sv_live s \<and> sv_heap s' = sv_heap s)"
proof (cases "ws_batch (sv_heap s w)")
  case None
  then show ?thesis using assms by (auto simp: cancel_slot_def queue_defs slots_ok_def)
next
  case (Some b)
  then obtain r rs where q: "rb_queuedIDs (sv_batches s b) = r # rs"
    using assms by (cases "rb_queuedIDs (sv_batches s b)") (auto simp: queue_defs slots_ok_def)
  obtain res s1 where c: "cancelRepeatLocked r s = (res, s1)" by fastforce
  from cancelRepeat_ok [OF c assms(1)] show ?thesis by (simp add: cancel_slot_def Some q c)
qed

lemma length_remember_cancel: "length (remember_cancel w recent) \<le> 128"
  by (simp add: remember_cancel_def Let_def)

lemma cancelWork_ok:
  assumes ok: "queue_ok s"
  shows "yields (cancelWork now w s) {errWorkNotFound, errExecutionChanged} (\<lambda>s'. queue_ok s'
    \<and> (sv_queue s' = sv_queue s \<or> sv_queue s' = remove1 w (sv_queue s) \<and> sv_queue s' \<noteq> [] \<and> hd (sv_queue s') = hd (sv_queue s)))"
proof (cases "w \<in> set (sv_recent s) \<or> w \<notin> set (sv_live s)")
  case True
  then show ?thesis using ok by (auto simp: cancelWork_def)
next
  case False
  let ?recent = "\<lambda>s. remember_cancel w (sv_recent s)"
  have "yields (rbind (cancel_slot w s) (\<lambda>s. let s = s\<lparr>sv_recent := ?recent s\<rparr>
        in if index_of w (sv_queue s) > 0 then removeWorkLocked now w s
           else Inr (updateWorkStatus w ''Stopping'' (wi_Progress (ws_item (sv_heap s w))) s)))
     {errWorkNotFound, errExecutionChanged} (\<lambda>s'. queue_ok s'
    \<and> (sv_queue s' = sv_queue s \<or> sv_queue s' = remove1 w (sv_queue s) \<and> sv_queue s' \<noteq> [] \<and> hd (sv_queue s') = hd (sv_queue s)))"
  proof (rule yields_bind)
    show "yields (cancel_slot w s) {errWorkNotFound, errExecutionChanged} (\<lambda>s'. queue_ok s' \<and> sv_queue s' = sv_queue s)"
      using cancel_slot_ok [OF ok, of w] False by (cases "cancel_slot w s") auto
  next
    fix s1 assume s1: "queue_ok s1 \<and> sv_queue s1 = sv_queue s"
    define s2 where "s2 = s1\<lparr>sv_recent := ?recent s1\<rparr>"
    have s2: "queue_ok s2" "sv_queue s2 = sv_queue s" using s1 by (auto simp: s2_def queue_defs slots_ok_def length_remember_cancel)
    then have "yields (if index_of w (sv_queue s2) > 0 then removeWorkLocked now w s2
           else Inr (updateWorkStatus w ''Stopping'' (wi_Progress (ws_item (sv_heap s2 w))) s2)) {errWorkNotFound, errExecutionChanged}
        (\<lambda>s'. queue_ok s' \<and> (sv_queue s' = sv_queue s \<or> sv_queue s' = remove1 w (sv_queue s) \<and> sv_queue s' \<noteq> []
          \<and> hd (sv_queue s') = hd (sv_queue s)))"
      using remove_waiting [OF s2(1), of w now] updateWorkStatus_ok(1) [OF s2(1)] updateWorkStatus_ok(2) [of s2]
      by (auto simp: keeps_def)
    then show "yields (let s = s1\<lparr>sv_recent := ?recent s1\<rparr> in if index_of w (sv_queue s) > 0 then removeWorkLocked now w s
           else Inr (updateWorkStatus w ''Stopping'' (wi_Progress (ws_item (sv_heap s w))) s)) {errWorkNotFound, errExecutionChanged}
        (\<lambda>s'. queue_ok s' \<and> (sv_queue s' = sv_queue s \<or> sv_queue s' = remove1 w (sv_queue s) \<and> sv_queue s' \<noteq> []
          \<and> hd (sv_queue s') = hd (sv_queue s)))"
      by (simp only: s2_def Let_def)
  qed
  then show ?thesis using False by (simp add: cancelWork_def Let_def)
qed

lemma enqueueExperiments_ok:
  assumes ok: "queue_ok s" and fresh: "''work-'' @ text \<notin> set (sv_live s)" and ne: "runIDs \<noteq> []"
  shows "\<exists>s'. enqueueExperimentsLocked now text b runIDs name batchID s = Inr s' \<and> queue_ok s'
    \<and> sv_queue s' = sv_queue s @ [''work-'' @ text]"
proof -
  let ?w = "''work-'' @ text"
  define s0 where "s0 = s\<lparr>sv_batches := (sv_batches s)(b := (sv_batches s b)\<lparr>rb_queuedIDs := rb_queuedIDs (sv_batches s b) @ runIDs\<rparr>)\<rparr>"
  have q0: "queue_ok s0" using ok ne by (auto simp: queue_defs slots_ok_def s0_def)
  let ?item = "\<lparr>wi_ID = [], wi_Kind = ''experiment'', wi_Name = name, wi_RunID = (case runIDs of [] \<Rightarrow> [] | r # _ \<Rightarrow> r),
      wi_BatchID = batchID, wi_OperationID = [], wi_State = [], wi_Position = 0, wi_CreatedAt = 0,
      wi_StartedAt = None, wi_Phase = [], wi_Progress = Fin 0\<rparr>"
  obtain s1 where s1: "enqueueWorkLocked now text ?item True s0 = Inr s1" "queue_ok s1" "sv_queue s1 = sv_queue s @ [?w]"
    "sv_batches s1 = sv_batches s0"
    using enqueueWork_ok [OF q0, of "text" now ?item True] fresh by (auto simp: s0_def)
  define s2 where "s2 = upd_slot ?w (\<lambda>slot. slot\<lparr>ws_batch := Some b\<rparr>)
      (s1\<lparr>sv_batches := (sv_batches s1)(b := (sv_batches s1 b)\<lparr>rb_slot := Some ?w\<rparr>)\<rparr>)"
  have "slots_ok s2" using s1(2,4) ne
    by (auto simp: queue_defs slots_ok_def s2_def upd_slot_def s0_def split: if_splits)
  from updateQueuePositions_ok [OF this, of now] obtain s' where
    "updateQueuePositionsLocked now s2 = Inr s'" "queue_pub s'" "keeps s2 s'" by blast
  then show ?thesis using s1 ne
    by (auto simp: enqueueExperimentsLocked_def Let_def s0_def [symmetric] s2_def [symmetric])
      (auto simp: queue_ok_def keeps_def s2_def upd_slot_def split: if_splits)
qed

lemma startBatch_ok:
  assumes ok: "queue_ok s" and fresh: "''work-'' @ text \<notin> set (sv_live s)" and ne: "runs \<noteq> []" and b: "\<forall>w. ws_batch (sv_heap s w) \<noteq> Some b"
  shows "\<exists>s'. startBatchLocked now text b executionID repetitions members runs name batchID s = Inr s' \<and> queue_ok s'
    \<and> sv_queue s' = sv_queue s @ [''work-'' @ text]"
proof -
  define s1 where "s1 = registerBatch b \<lparr>rb_executionID = executionID, rb_repetitions = repetitions, rb_members = members, rb_slot = None, rb_queuedIDs = []\<rparr>
      (if members = [] then map fst runs else members) (s\<lparr>sv_experiments := sv_experiments s ++ map_of (rev runs)\<rparr>)"
  have "queue_ok s1" using ok b by (auto simp: queue_defs slots_ok_def s1_def registerBatch_def)
  moreover have "''work-'' @ text \<notin> set (sv_live s1)" "sv_queue s1 = sv_queue s" using fresh by (simp_all add: s1_def registerBatch_def)
  ultimately show ?thesis
    using enqueueExperiments_ok [of s1 "text" "map fst runs" now b name batchID] ne unfolding startBatchLocked_def Let_def s1_def [symmetric] by simp
qed

lemma remember_fold: "\<exists>c. fold rememberQueueCleanupLocked ids s = s\<lparr>sv_cleanup := c\<rparr>"
proof (induction ids arbitrary: s)
  case Nil
  then show ?case by (intro exI [of _ "sv_cleanup s"]) simp
next
  case (Cons runID ids)
  obtain c where c: "rememberQueueCleanupLocked runID s = s\<lparr>sv_cleanup := c\<rparr>"
    by (cases "runID \<noteq> [] \<and> runID \<notin> set (sv_cleanup s)") (auto simp: rememberQueueCleanupLocked_def intro: that [of "sv_cleanup s"])
  show ?case using Cons.IH [of "s\<lparr>sv_cleanup := c\<rparr>"] by (auto simp: c)
qed

lemma retireBatch_ok:
  assumes ok: "queue_ok s" and w: "rb_slot (sv_batches s b) = Some w" "w \<in> set (sv_live s) \<or> ws_finished (sv_heap s w)"
  shows "\<exists>s'. retireBatchLocked now b unclean s = Inr s' \<and> queue_ok s'
    \<and> (sv_queue s' = sv_queue s \<or> ws_finished (sv_heap s' w) \<and> sv_queue s' = remove1 w (sv_queue s))"
proof -
  let ?members = "if rb_members (sv_batches s b) = [] then rb_queuedIDs (sv_batches s b) else rb_members (sv_batches s b)"
  define t where "t = s\<lparr>sv_repeat := (\<lambda>runID. if runID \<in> set ?members then None else sv_repeat s runID), sv_cancels := sv_cancels s - set ?members\<rparr>"
  obtain c where c: "fold rememberQueueCleanupLocked (filter unclean (rb_queuedIDs (sv_batches s b))) t = t\<lparr>sv_cleanup := c\<rparr>"
    using remember_fold by blast
  have "queue_ok (t\<lparr>sv_cleanup := c\<rparr>)" "sv_queue (t\<lparr>sv_cleanup := c\<rparr>) = sv_queue s"
    "\<forall>v. Some w = Some v \<longrightarrow> v \<in> set (sv_live (t\<lparr>sv_cleanup := c\<rparr>)) \<or> ws_finished (sv_heap (t\<lparr>sv_cleanup := c\<rparr>) v)"
    using ok w(2) by (auto simp: queue_defs slots_ok_def t_def)
  from finishWork_ok [OF this(1,3), of now] this(2) show ?thesis
    unfolding retireBatchLocked_def Let_def t_def [symmetric] c w(1) by auto
qed

subsection \<open>The properties\<close>

lemma waitWork_cancelled_ok:
  assumes "queue_ok s"
  shows "\<exists>s'. waitWork_cancelled now w s = Inr s' \<and> queue_ok s'
    \<and> (sv_queue s' = sv_queue s \<or> sv_queue s' = remove1 w (sv_queue s) \<and> sv_queue s' \<noteq> [] \<and> hd (sv_queue s') = hd (sv_queue s))"
  using assms remove_waiting [OF assms, of w now] by (auto simp: waitWork_cancelled_def)

text \<open>What one step does to the queue: it appends, or it takes one entry out; the head goes only by \<open>Finish\<close>.\<close>

definition queue_moves :: "wserver \<Rightarrow> wserver \<Rightarrow> bool" where
  "queue_moves s s' = (sv_queue s' = sv_queue s \<or> (\<exists>w. w \<notin> set (sv_live s) \<and> sv_queue s' = sv_queue s @ [w])
     \<or> (\<exists>w. ws_finished (sv_heap s' w) \<and> sv_queue s' = remove1 w (sv_queue s))
     \<or> (\<exists>w. sv_queue s' = remove1 w (sv_queue s) \<and> sv_queue s' \<noteq> [] \<and> hd (sv_queue s') = hd (sv_queue s)))"

lemma wq_step_ok:
  assumes "wq_step s s'" and ok: "queue_ok s"
  shows "queue_ok s' \<and> queue_moves s s'"
  using assms(1)
proof cases
  case (Enqueue "text" now item cancel)
  then show ?thesis using enqueueWork_ok [OF ok Enqueue(1), of now item cancel] by (auto simp: queue_moves_def)
next
  case (EnqueueBatch "text" runIDs now b name batchID)
  then show ?thesis
    using enqueueExperiments_ok [OF ok EnqueueBatch(1,2), of now b name batchID] by (auto simp: queue_moves_def)
next
  case (StartBatch "text" runs b now executionID repetitions members name batchID)
  then show ?thesis
    using startBatch_ok [OF ok StartBatch(1-3), of now executionID repetitions members name batchID] by (auto simp: queue_moves_def)
next
  case (RetireBatch b w now unclean)
  then show ?thesis using retireBatch_ok [OF ok RetireBatch(1,2), of now unclean] by (auto simp: queue_moves_def)
next
  case (RetireCancel runID)
  then show ?thesis using ok by (auto simp: queue_moves_def queue_defs slots_ok_def retireCancelLocked_def)
next
  case (UpdateRun runID run run')
  then show ?thesis using ok by (auto simp: queue_moves_def queue_defs slots_ok_def)
next
  case (Finish slot now)
  then show ?thesis using finishWork_ok [OF ok Finish(1), of now] by (auto simp: queue_moves_def)
next
  case (WaiterCancelled now w)
  then show ?thesis using waitWork_cancelled_ok [OF ok, of now w] by (auto simp: queue_moves_def)
next
  case (Cancel now w)
  then show ?thesis using cancelWork_ok [OF ok, of now w] by (auto simp: queue_moves_def)
next
  case (Status w phase progress)
  then show ?thesis using updateWorkStatus_ok(1) [OF ok] updateWorkStatus_ok(2) [of s] by (auto simp: queue_moves_def keeps_def)
next
  case Shutdown
  then show ?thesis using ok by (auto simp: queue_moves_def queue_defs slots_ok_def cancelWorkQueueLocked_def)
next
  case (Remember w)
  then show ?thesis using ok by (auto simp: queue_moves_def queue_defs slots_ok_def rememberQueueCleanupLocked_def)
next
  case (Complete cleared ws)
  then show ?thesis using ok by (auto simp: queue_moves_def queue_defs slots_ok_def completeQueueCleanup_def rbind_Inr_iff)
qed

lemma wq_reach_ok: "wq_reach s s' \<Longrightarrow> queue_ok s \<Longrightarrow> queue_ok s'"
  by (induction rule: wq_reach.induct) (auto dest: wq_step_ok)

lemma published_head:
  assumes "queue_ok s" "i < length (sv_items s)"
  shows "wi_State (sv_items s ! i) = ''running'' \<longleftrightarrow> i = 0" "ws_opened (sv_heap s (wi_ID (sv_items s ! i))) \<longleftrightarrow> i = 0"
proof -
  have p: "i < length (sv_queue s)" "wi_ID (sv_items s ! i) = sv_queue s ! i" "wi_State (sv_items s ! i) = (if i = 0 then ''running'' else ''queued'')"
    using assms by (auto simp: queue_defs published_def)
  show "wi_State (sv_items s ! i) = ''running'' \<longleftrightarrow> i = 0" using p(3) by auto
  have "\<not> ws_opened (sv_heap s (sv_queue s ! i))" if "i \<noteq> 0"
  proof -
    have "sv_queue s ! i \<in> set (tl (sv_queue s))" using p(1) that by (cases "sv_queue s"; cases i) auto
    then show ?thesis using assms(1) by (auto simp: queue_defs slots_ok_def)
  qed
  moreover have "ws_opened (sv_heap s (sv_queue s ! 0))" using assms(1) p(1) by (cases "sv_queue s") (auto simp: queue_defs)
  ultimately show "ws_opened (sv_heap s (wi_ID (sv_items s ! i))) \<longleftrightarrow> i = 0" using p(2) by auto
qed

text \<open>
  C29. In every state the Controller reaches from an empty queue, by any sequence of admissions, completions,
  cancellations, status updates and cleanups, the published queue lists the slots in order with their positions, exactly
  the first one is running, and exactly the first slot's gate is open: at most one piece of work ever holds the queue.
  The worker count is the number of live slots and at most 128 cancelled identifiers are remembered.
\<close>

theorem work_queue_invariant:
  assumes "wq_reach empty_server s"
  shows "map wi_ID (sv_items s) = sv_queue s \<and> map wi_Position (sv_items s) = [0..<length (sv_queue s)]
    \<and> (\<forall>i<length (sv_items s). (wi_State (sv_items s ! i) = ''running'' \<longleftrightarrow> i = 0)
         \<and> (ws_opened (sv_heap s (sv_queue s ! i)) \<longleftrightarrow> i = 0))
    \<and> distinct (sv_queue s) \<and> set (sv_queue s) \<subseteq> set (sv_live s)
    \<and> sv_workers s = int (length (sv_live s)) \<and> length (sv_recent s) \<le> 128"
proof -
  have ok: "queue_ok s" by (rule wq_reach_ok [OF assms empty_server_ok])
  then have pub: "published (sv_queue s) (sv_items s)" and sl: "slots_ok s" by (simp_all add: queue_defs)
  have "map wi_ID (sv_items s) = sv_queue s" "map wi_Position (sv_items s) = [0..<length (sv_queue s)]"
    using pub by (auto simp: published_def intro!: nth_equalityI)
  moreover have "(wi_State (sv_items s ! i) = ''running'' \<longleftrightarrow> i = 0) \<and> (ws_opened (sv_heap s (sv_queue s ! i)) \<longleftrightarrow> i = 0)"
    if "i < length (sv_items s)" for i
    using published_head [OF ok that] pub that by (auto simp: published_def)
  ultimately show ?thesis using sl by (simp add: slots_ok_def)
qed

text \<open>The batch of the slot is registered for its first run, the execution has not changed, and the run can still be stopped.\<close>

definition stoppable :: "string \<Rightarrow> nat \<Rightarrow> wserver \<Rightarrow> bool" where
  "stoppable w b s \<longleftrightarrow> ws_batch (sv_heap s w) = Some b
     \<and> (case rb_queuedIDs (sv_batches s b) of [] \<Rightarrow> False
        | runID # _ \<Rightarrow> sv_repeat s runID = Some b
            \<and> (rb_executionID (sv_batches s b) = [] \<or> (case sv_experiments s runID of None \<Rightarrow> False | Some run \<Rightarrow> ex_ExecutionID run = rb_executionID (sv_batches s b)))
            \<and> (1 < rb_repetitions (sv_batches s b) \<or> runID \<in> sv_cancels s))"

lemma cancel_slot_stoppable:
  assumes "stoppable w b s"
  shows "\<exists>s'. cancel_slot w s = Inr s' \<and> CancelBatch b \<in> set (sv_cancelled s')"
  using assms
  by (auto simp: stoppable_def cancel_slot_def cancelRepeatLocked_def Let_def split: list.splits option.splits)

lemma cancelWork_stoppable:
  assumes ok: "queue_ok s" and w: "w \<in> set (sv_live s)" "w \<notin> set (sv_recent s)" and b: "stoppable w b s"
  shows "\<exists>s'. cancelWork now w s = Inr s' \<and> CancelBatch b \<in> set (sv_cancelled s')"
proof -
  obtain s1 where s1: "cancel_slot w s = Inr s1" "CancelBatch b \<in> set (sv_cancelled s1)" using cancel_slot_stoppable [OF b] by blast
  then have ok1: "queue_ok s1" using cancel_slot_ok [OF ok w(1)] by simp
  define s2 where "s2 = s1\<lparr>sv_recent := remember_cancel w (sv_recent s1)\<rparr>"
  have s2: "queue_ok s2" "CancelBatch b \<in> set (sv_cancelled s2)" using ok1 s1(2) by (auto simp: s2_def queue_defs slots_ok_def length_remember_cancel)
  have "\<exists>s'. removeWorkLocked now w s2 = Inr s' \<and> CancelBatch b \<in> set (sv_cancelled s')" if "index_of w (sv_queue s2) > 0"
  proof -
    have "w \<in> set (sv_queue s2)" "slots_ok s2" using that s2(1) by (auto simp: index_of_def queue_defs split: if_splits)
    then show ?thesis using removeWork_ok [of s2 w now] s2(2) by (auto simp: keeps_def)
  qed
  moreover have "cancelWork now w s = (if index_of w (sv_queue s2) > 0 then removeWorkLocked now w s2
      else Inr (updateWorkStatus w ''Stopping'' (wi_Progress (ws_item (sv_heap s2 w))) s2))"
    using s1(1) w by (simp add: cancelWork_def Let_def s2_def)
  ultimately show ?thesis using s2(2) by (simp add: updateWorkStatus_def Let_def)
qed

text \<open>
  C30. From every reachable state, with batches registered, cancelled and retired in any order, the queue operations do not panic:
  no channel is closed twice, the wait group never goes negative and no empty batch is indexed. Admitting work with a fresh identifier
  appends it, and so does starting a batch of at least one run on a new batch object; finishing a live or already finished slot and
  retiring a batch with such a slot succeed; a cancelled waiter is removed. A cancellation returns or reports one of its two errors,
  and that of a live slot whose batch is registered for an unchanged execution that can still be stopped succeeds and cancels the
  context of the batch.
\<close>

theorem work_queue_no_panic:
  assumes "wq_reach empty_server s"
  shows "(''work-'' @ text \<notin> set (sv_live s) \<longrightarrow>
            (\<exists>s'. enqueueWorkLocked now text item cancel s = Inr s' \<and> sv_queue s' = sv_queue s @ [''work-'' @ text]))
    \<and> (''work-'' @ text \<notin> set (sv_live s) \<and> runIDs \<noteq> [] \<longrightarrow>
            (\<exists>s'. enqueueExperimentsLocked now text b runIDs name batchID s = Inr s' \<and> sv_queue s' = sv_queue s @ [''work-'' @ text]))
    \<and> (w \<in> set (sv_live s) \<or> ws_finished (sv_heap s w) \<longrightarrow> (\<exists>s'. finishWorkLocked now (Some w) s = Inr s'))
    \<and> (''work-'' @ text \<notin> set (sv_live s) \<and> runs \<noteq> [] \<and> (\<forall>w. ws_batch (sv_heap s w) \<noteq> Some b) \<longrightarrow>
            (\<exists>s'. startBatchLocked now text b executionID repetitions members runs name batchID s = Inr s' \<and> sv_queue s' = sv_queue s @ [''work-'' @ text]))
    \<and> (rb_slot (sv_batches s b) = Some w \<and> (w \<in> set (sv_live s) \<or> ws_finished (sv_heap s w)) \<longrightarrow> (\<exists>s'. retireBatchLocked now b unclean s = Inr s'))
    \<and> (\<exists>s'. waitWork_cancelled now w s = Inr s')
    \<and> (w \<in> set (sv_live s) \<and> w \<notin> set (sv_recent s) \<and> stoppable w b s \<longrightarrow>
            (\<exists>s'. cancelWork now w s = Inr s' \<and> CancelBatch b \<in> set (sv_cancelled s')))
    \<and> (case cancelWork now w s of Inl e \<Rightarrow> e = errWorkNotFound \<or> e = errExecutionChanged | Inr s' \<Rightarrow> True)"
proof -
  have ok: "queue_ok s" by (rule wq_reach_ok [OF assms empty_server_ok])
  show ?thesis
  proof (intro conjI impI)
    assume fresh: "''work-'' @ text \<notin> set (sv_live s)"
    show "\<exists>s'. enqueueWorkLocked now text item cancel s = Inr s' \<and> sv_queue s' = sv_queue s @ [''work-'' @ text]"
      using enqueueWork_ok [OF ok fresh] by blast
  next
    assume "''work-'' @ text \<notin> set (sv_live s) \<and> runIDs \<noteq> []"
    then show "\<exists>s'. enqueueExperimentsLocked now text b runIDs name batchID s = Inr s' \<and> sv_queue s' = sv_queue s @ [''work-'' @ text]"
      using enqueueExperiments_ok [OF ok] by blast
  next
    assume "w \<in> set (sv_live s) \<or> ws_finished (sv_heap s w)"
    then show "\<exists>s'. finishWorkLocked now (Some w) s = Inr s'" using finishWork_ok [OF ok, of "Some w" now] by auto
  next
    assume "''work-'' @ text \<notin> set (sv_live s) \<and> runs \<noteq> [] \<and> (\<forall>w. ws_batch (sv_heap s w) \<noteq> Some b)"
    then show "\<exists>s'. startBatchLocked now text b executionID repetitions members runs name batchID s = Inr s' \<and> sv_queue s' = sv_queue s @ [''work-'' @ text]"
      using startBatch_ok [OF ok] by blast
  next
    assume "rb_slot (sv_batches s b) = Some w \<and> (w \<in> set (sv_live s) \<or> ws_finished (sv_heap s w))"
    then show "\<exists>s'. retireBatchLocked now b unclean s = Inr s'" using retireBatch_ok [OF ok] by blast
  next
    assume "w \<in> set (sv_live s) \<and> w \<notin> set (sv_recent s) \<and> stoppable w b s"
    then show "\<exists>s'. cancelWork now w s = Inr s' \<and> CancelBatch b \<in> set (sv_cancelled s')" using cancelWork_stoppable [OF ok] by blast
  next
    show "\<exists>s'. waitWork_cancelled now w s = Inr s'" using waitWork_cancelled_ok [OF ok] by blast
  next
    show "case cancelWork now w s of Inl e \<Rightarrow> e = errWorkNotFound \<or> e = errExecutionChanged | Inr s' \<Rightarrow> True"
      using cancelWork_ok [OF ok, of now w] by (cases "cancelWork now w s") auto
  qed
qed

text \<open>
  First in, first out: one step keeps the order of the slots it leaves in the queue and can only append a new one;
  a slot at the head of the queue leaves it only by finishing, so cancelling or timing out other work never moves the
  piece of work that is running.
\<close>

theorem work_queue_fifo:
  assumes "wq_reach empty_server s" "wq_step s s'"
  shows "(\<exists>new. subseq (sv_queue s') (sv_queue s @ new) \<and> length new \<le> 1 \<and> set new \<inter> set (sv_live s) = {})
    \<and> (sv_queue s \<noteq> [] \<longrightarrow> sv_queue s' \<noteq> [] \<and> hd (sv_queue s') = hd (sv_queue s) \<or> ws_finished (sv_heap s' (hd (sv_queue s))))"
proof -
  have ok: "queue_ok s" by (rule wq_reach_ok [OF assms(1) empty_server_ok])
  have sub: "subseq (remove1 w xs) xs" for w and xs :: "string list" by (induction xs) auto
  from wq_step_ok [OF assms(2) ok] have "queue_moves s s'" by simp
  then consider (same) "sv_queue s' = sv_queue s" | (new) w where "w \<notin> set (sv_live s)" "sv_queue s' = sv_queue s @ [w]"
    | (fin) w where "ws_finished (sv_heap s' w)" "sv_queue s' = remove1 w (sv_queue s)"
    | (rem) w where "sv_queue s' = remove1 w (sv_queue s)" "sv_queue s' \<noteq> []" "hd (sv_queue s') = hd (sv_queue s)"
    unfolding queue_moves_def by blast
  then show ?thesis
  proof cases
    case same
    then show ?thesis by (auto intro!: exI [of _ "[]"])
  next
    case (new w)
    then show ?thesis by (auto intro!: exI [of _ "[w]"])
  next
    case (fin w)
    then show ?thesis by (cases "sv_queue s") (auto simp: sub intro!: exI [of _ "[]"])
  next
    case (rem w)
    then show ?thesis using sub by (auto intro!: exI [of _ "[]"])
  qed
qed

subsection \<open>Witnesses\<close>

definition demo_item :: WorkQueueItem where
  "demo_item = ws_item (sv_heap empty_server [])"

text \<open>One slot, and then a second one behind it.\<close>

definition one_slot :: wserver where
  "one_slot = projr (enqueueWorkLocked 7 ''a'' demo_item True empty_server)"

definition two_slots :: wserver where
  "two_slots = projr (enqueueWorkLocked 8 ''b'' demo_item True one_slot)"

lemma one_slot: "enqueueWorkLocked 7 ''a'' demo_item True empty_server = Inr one_slot" "queue_ok one_slot"
    "sv_queue one_slot = [''work-a'']" "sv_live one_slot = [''work-a'']"
  using enqueueWork_ok [OF empty_server_ok, of "''a''" 7 demo_item True] unfolding one_slot_def by (auto simp: empty_server_def)

lemma two_slots: "enqueueWorkLocked 8 ''b'' demo_item True one_slot = Inr two_slots" "queue_ok two_slots"
    "sv_queue two_slots = [''work-a'', ''work-b'']" "sv_live two_slots = [''work-b'', ''work-a'']"
  using enqueueWork_ok [OF one_slot(2), of "''b''" 8 demo_item True] unfolding two_slots_def by (auto simp: one_slot)

lemma two_slots_reach: "wq_reach empty_server two_slots"
proof -
  have "wq_step empty_server one_slot" using one_slot(1) by (rule Enqueue [rotated]) (simp add: empty_server_def)
  moreover have "wq_step one_slot two_slots" using two_slots(1) by (rule Enqueue [rotated]) (simp add: one_slot)
  ultimately show ?thesis by (meson wq_reach.intros)
qed

theorem work_queue_invariant_witness:
  "map wi_ID (sv_items two_slots) = [''work-a'', ''work-b''] \<and> map wi_Position (sv_items two_slots) = [0, 1]
   \<and> sv_workers two_slots = 2"
  using work_queue_invariant [OF two_slots_reach] by (simp add: two_slots upt_rec)

text \<open>A batch of one run behind the first slot.\<close>

definition demo_batch :: wserver where
  "demo_batch = projr (startBatchLocked 8 ''b'' 0 ''e'' 1 [] [(''r'', \<lparr>ex_State = ''queued'', ex_ExecutionID = ''e'', ex_QueuePosition = 0, ex_StopRequested = False\<rparr>)]
     ''name'' ''r'' one_slot)"

lemma demo_batch_unused: "ws_batch (sv_heap one_slot w) = None"
  unfolding one_slot_def
  by (simp add: enqueueWorkLocked_def updateQueuePositionsLocked_def open_head_def upd_slot_def new_slot_def empty_server_def Let_def)

lemma demo_batch: "startBatchLocked 8 ''b'' 0 ''e'' 1 [] [(''r'', \<lparr>ex_State = ''queued'', ex_ExecutionID = ''e'', ex_QueuePosition = 0, ex_StopRequested = False\<rparr>)]
     ''name'' ''r'' one_slot = Inr demo_batch"
proof -
  have "\<exists>s'. startBatchLocked 8 ''b'' 0 ''e'' 1 [] [(''r'', \<lparr>ex_State = ''queued'', ex_ExecutionID = ''e'', ex_QueuePosition = 0, ex_StopRequested = False\<rparr>)]
     ''name'' ''r'' one_slot = Inr s' \<and> queue_ok s' \<and> sv_queue s' = sv_queue one_slot @ [''work-'' @ ''b'']"
    by (rule startBatch_ok [OF one_slot(2)]) (simp_all add: one_slot demo_batch_unused)
  then show ?thesis unfolding demo_batch_def by (elim exE conjE) simp
qed

lemma demo_batch_reach: "wq_reach empty_server demo_batch"
proof -
  have "wq_step empty_server one_slot" using one_slot(1) by (rule Enqueue [rotated]) (simp add: empty_server_def)
  moreover have "wq_step one_slot demo_batch" by (rule StartBatch [OF _ _ _ demo_batch]) (simp_all add: one_slot demo_batch_unused)
  ultimately show ?thesis by (meson wq_reach.intros)
qed

lemma demo_batch_stoppable: "''work-b'' \<in> set (sv_live demo_batch) \<and> ''work-b'' \<notin> set (sv_recent demo_batch) \<and> stoppable ''work-b'' 0 demo_batch"
  unfolding stoppable_def by code_simp

theorem work_queue_no_panic_witness:
  "(\<exists>s'. finishWorkLocked 9 (Some ''work-a'') two_slots = Inr s')
   \<and> (\<exists>s'. cancelWork 9 ''work-b'' demo_batch = Inr s' \<and> CancelBatch 0 \<in> set (sv_cancelled s'))"
  using work_queue_no_panic [OF two_slots_reach, where w = "''work-a''" and now = 9]
    work_queue_no_panic [OF demo_batch_reach, where w = "''work-b''" and now = 9 and b = 0] demo_batch_stoppable by (simp add: two_slots)

theorem work_queue_fifo_witness:
  "\<exists>s'. waitWork_cancelled 9 ''work-b'' two_slots = Inr s' \<and> (sv_queue s' \<noteq> [] \<and> hd (sv_queue s') = ''work-a''
      \<or> ws_finished (sv_heap s' ''work-a''))"
proof -
  from waitWork_cancelled_ok [OF two_slots(2), of 9 "''work-b''"] obtain s' where
    s': "waitWork_cancelled 9 ''work-b'' two_slots = Inr s'" by blast
  then have "wq_step two_slots s'" by (rule WaiterCancelled)
  from work_queue_fifo [OF two_slots_reach this] show ?thesis using s' by (auto simp: two_slots)
qed

end
