(* ===== verification/Go_Duration.thy ===== *)
theory Go_Duration
  imports KPL_Prelude
begin

text \<open>
  \<^verbatim>\<open>time.ParseDuration\<close> and \<^verbatim>\<open>time.Duration.String\<close> of the Go library, as the configuration code uses them:
  the text of a duration is a byte string, its value an \<open>int\<close> of nanoseconds in the range of an
  \<^verbatim>\<open>int64\<close>. Fractions go through binary64 arithmetic, as in the library.
\<close>

subsection \<open>Parsing\<close>

definition dur_invalid :: go_err where "dur_invalid = Fail ''time: invalid duration''"
definition dur_no_unit :: go_err where "dur_no_unit = Fail ''time: missing unit in duration''"
definition dur_bad_unit :: go_err where "dur_bad_unit = Fail ''time: unknown unit in duration''"

definition is_digit :: "char \<Rightarrow> bool" where
  "is_digit c = (48 \<le> (of_char c :: nat) \<and> (of_char c :: nat) \<le> 57)"

definition digit_val :: "char \<Rightarrow> nat" where
  "digit_val c = of_char c - 48"

fun leadingInt :: "nat \<Rightarrow> string \<Rightarrow> (nat \<times> string) result" where
  "leadingInt x [] = Inr (x, [])"
| "leadingInt x (c # s) =
     (if \<not> is_digit c then Inr (x, c # s)
      else if x > 2 ^ 63 div 10 then Inl dur_invalid
      else let y = x * 10 + digit_val c in if y > 2 ^ 63 then Inl dur_invalid else leadingInt y s)"

fun leadingFraction :: "nat \<Rightarrow> f64 \<Rightarrow> bool \<Rightarrow> string \<Rightarrow> nat \<times> f64 \<times> string" where
  "leadingFraction x scale overflow [] = (x, scale, [])"
| "leadingFraction x scale overflow (c # s) =
     (if \<not> is_digit c then (x, scale, c # s)
      else if overflow \<or> x > (2 ^ 63 - 1) div 10 then leadingFraction x scale True s
      else let y = x * 10 + digit_val c in
           if y > 2 ^ 63 then leadingFraction x scale True s
           else leadingFraction y (f_mul scale (Fin 10)) False s)"

text \<open>The micro sign is \<open>U+00B5\<close> or the Greek letter \<open>U+03BC\<close>, both as UTF-8 bytes.\<close>

definition micro :: string where "micro = [CHR 0xC2, CHR 0xB5]"
definition greek_mu :: string where "greek_mu = [CHR 0xCE, CHR 0xBC]"

definition duration_unit :: "string \<Rightarrow> nat option" where
  "duration_unit u =
     (if u = ''ns'' then Some 1
      else if u = ''us'' \<or> u = micro @ ''s'' \<or> u = greek_mu @ ''s'' then Some 1000
      else if u = ''ms'' then Some 1000000
      else if u = ''s'' then Some 1000000000
      else if u = ''m'' then Some 60000000000
      else if u = ''h'' then Some 3600000000000
      else None)"

text \<open>The conversion of a non-negative float64 to an unsigned integer truncates.\<close>

definition f_trunc :: "f64 \<Rightarrow> nat" where
  "f_trunc x = (case x of Fin a \<Rightarrow> nat \<lfloor>a\<rfloor> | _ \<Rightarrow> 0)"

definition fraction_value :: "nat \<Rightarrow> f64 \<Rightarrow> nat \<Rightarrow> nat" where
  "fraction_value f scale unit =
     (if f > 0 then f_trunc (f_mul (f64_round (of_nat f)) (f_div (f64_round (of_nat unit)) scale)) else 0)"

definition unit_end :: "char \<Rightarrow> bool" where
  "unit_end c = (c = CHR ''.'' \<or> is_digit c)"

text \<open>One term, a number with a unit, and the text after it.\<close>

definition parse_fraction :: "string \<Rightarrow> nat \<times> f64 \<times> bool \<times> string" where
  "parse_fraction s =
     (case s of c # s1 \<Rightarrow>
        if c = CHR ''.'' then
          (case leadingFraction 0 (Fin 1) False s1 of (f, scale, s2) \<Rightarrow> (f, scale, length s2 \<noteq> length s1, s2))
        else (0, Fin 1, False, s)
      | [] \<Rightarrow> (0, Fin 1, False, s))"

definition parse_unit :: "nat \<Rightarrow> nat \<Rightarrow> f64 \<Rightarrow> string \<Rightarrow> (nat \<times> string) result" where
  "parse_unit v f scale s =
     (let u = takeWhile (\<lambda>c. \<not> unit_end c) s; rest = dropWhile (\<lambda>c. \<not> unit_end c) s in
      if u = [] then Inl dur_no_unit
      else case duration_unit u of
          None \<Rightarrow> Inl dur_bad_unit
        | Some unit \<Rightarrow>
            if v > 2 ^ 63 div unit then Inl dur_invalid
            else let w = v * unit + fraction_value f scale unit
                 in if f > 0 \<and> w > 2 ^ 63 then Inl dur_invalid else Inr (w, rest))"

definition parse_term :: "string \<Rightarrow> (nat \<times> string) result" where
  "parse_term s =
     (case s of [] \<Rightarrow> Inl dur_invalid
      | c # _ \<Rightarrow>
          if \<not> unit_end c then Inl dur_invalid
          else rbind (leadingInt 0 s) (\<lambda>(v, s1).
            case parse_fraction s1 of (f, scale, post, s2) \<Rightarrow>
              if length s1 = length s \<and> \<not> post then Inl dur_invalid else parse_unit v f scale s2))"

lemma leadingInt_length: "leadingInt x s = Inr (v, r) \<Longrightarrow> length r \<le> length s"
  by (induction x s rule: leadingInt.induct) (auto simp: Let_def split: if_splits)

lemma leadingFraction_length: "leadingFraction x sc ov s = (f, sc', r) \<Longrightarrow> length r \<le> length s"
  by (induction x sc ov s rule: leadingFraction.induct) (auto simp: Let_def split: if_splits)

lemma parse_fraction_length: "parse_fraction s = (f, sc, post, r) \<Longrightarrow> length r \<le> length s"
  by (auto simp: parse_fraction_def split: list.splits if_splits prod.splits dest!: leadingFraction_length)

lemma parse_unit_length: "parse_unit v f sc s = Inr (w, r) \<Longrightarrow> length r < length s"
proof -
  assume a: "parse_unit v f sc s = Inr (w, r)"
  let ?P = "\<lambda>c. \<not> unit_end c"
  have "takeWhile ?P s \<noteq> []" "r = dropWhile ?P s"
    using a by (auto simp: parse_unit_def Let_def split: if_splits option.splits)
  moreover have "length s = length (takeWhile ?P s) + length (dropWhile ?P s)"
    by (metis length_append takeWhile_dropWhile_id)
  ultimately show ?thesis by simp
qed

lemma parse_term_length:
  assumes "parse_term s = Inr (w, r)"
  shows "length r < length s"
proof -
  obtain v s1 where v: "leadingInt 0 s = Inr (v, s1)" and
    u: "(case parse_fraction s1 of (f, scale, post, s2) \<Rightarrow>
          if length s1 = length s \<and> \<not> post then Inl dur_invalid else parse_unit v f scale s2) = Inr (w, r)"
    using assms by (auto simp: parse_term_def rbind_Inr_iff simp del: leadingInt.simps split: list.splits if_splits)
  obtain f sc post s2 where f: "parse_fraction s1 = (f, sc, post, s2)" by (metis prod_cases4)
  have "parse_unit v f sc s2 = Inr (w, r)" using u by (auto simp: f split: if_splits)
  from parse_unit_length [OF this] parse_fraction_length [OF f] leadingInt_length [OF v] show ?thesis by linarith
qed

text \<open>The sum of the terms, in an unsigned 64-bit accumulator.\<close>

function (sequential) parse_terms :: "nat \<Rightarrow> string \<Rightarrow> nat result" where
  "parse_terms d [] = Inr d"
| "parse_terms d (c # s) =
     (case parse_term (c # s) of Inl e \<Rightarrow> Inl e
      | Inr (v, rest) \<Rightarrow>
          let e = (d + v) mod 2 ^ 64 in if e > 2 ^ 63 then Inl dur_invalid else parse_terms e rest)"
  by pat_completeness auto
termination by (relation "measure (length \<circ> snd)") (auto dest: parse_term_length)

definition parse_unsigned :: "bool \<Rightarrow> string \<Rightarrow> int result" where
  "parse_unsigned neg s =
     (if s = ''0'' then Inr 0
      else if s = [] then Inl dur_invalid
      else rbind (parse_terms 0 s) (\<lambda>d.
        if neg then Inr (- int d)
        else if d > 2 ^ 63 - 1 then Inl dur_invalid else Inr (int d)))"

definition ParseDuration :: "string \<Rightarrow> int result" where
  "ParseDuration s =
     (case s of [] \<Rightarrow> parse_unsigned False []
      | c # s1 \<Rightarrow> if c = CHR ''-'' \<or> c = CHR ''+'' then parse_unsigned (c = CHR ''-'') s1 else parse_unsigned False s)"

subsection \<open>Printing\<close>

definition digit_chr :: "nat \<Rightarrow> char" where
  "digit_chr d = char_of (48 + d)"

fun fmtFrac :: "nat \<Rightarrow> nat \<Rightarrow> bool \<Rightarrow> string \<Rightarrow> string \<times> nat" where
  "fmtFrac 0 v print buf = (if print then CHR ''.'' # buf else buf, v)"
| "fmtFrac (Suc prec) v print buf =
     (let digit = v mod 10; print' = (print \<or> digit \<noteq> 0)
      in fmtFrac prec (v div 10) print' (if print' then digit_chr digit # buf else buf))"

fun fmtDigits :: "nat \<Rightarrow> string \<Rightarrow> string" where
  "fmtDigits v buf = (if v = 0 then buf else fmtDigits (v div 10) (digit_chr (v mod 10) # buf))"

declare fmtDigits.simps [simp del]

definition fmtInt :: "nat \<Rightarrow> string \<Rightarrow> string" where
  "fmtInt v buf = (if v = 0 then CHR ''0'' # buf else fmtDigits v buf)"

definition fmtSmall :: "nat \<Rightarrow> string" where
  "fmtSmall u =
     (if u = 0 then ''0s''
      else let (prec, suffix) = (if u < 1000 then (0, ''ns'') else if u < 1000000 then (3, micro @ ''s'') else (6, ''ms''));
               (buf, v) = fmtFrac prec u False suffix
           in fmtInt v buf)"

definition fmtClock :: "nat \<Rightarrow> string \<Rightarrow> string" where
  "fmtClock u buf =
     (let buf = fmtInt (u mod 60) buf; u = u div 60
      in if u = 0 then buf
         else let buf = fmtInt (u mod 60) (CHR ''m'' # buf); u = u div 60
              in if u = 0 then buf else fmtInt u (CHR ''h'' # buf))"

definition fmtDuration :: "nat \<Rightarrow> string" where
  "fmtDuration u =
     (if u < 1000000000 then fmtSmall u
      else let (buf, v) = fmtFrac 9 u False ''s'' in fmtClock v buf)"

definition Duration_String :: "int \<Rightarrow> string" where
  "Duration_String d = (if d < 0 then CHR ''-'' # fmtDuration (nat (- d)) else fmtDuration (nat d))"

subsection \<open>Reading back what was printed\<close>

text \<open>A natural number below \<open>2 ^ 53\<close> is a float64.\<close>

lemma int_bits_pow: "0 < x \<Longrightarrow> 2 ^ nat (int_bits x - 1) \<le> x \<and> 1 \<le> int_bits x"
proof (induction x rule: int_bits.induct)
  case (1 x)
  have e: "int_bits x = int_bits (x div 2) + 1" using 1(2) by (subst int_bits.simps) simp
  show ?case
  proof (cases "x = 1")
    case True
    then show ?thesis using e by (simp add: int_bits.simps)
  next
    case False
    then have p: "0 < x div 2" using 1(2) by simp
    with 1 have IH: "2 ^ nat (int_bits (x div 2) - 1) \<le> x div 2" "1 \<le> int_bits (x div 2)" by auto
    have "2 ^ nat (int_bits x - 1) = (2 :: int) * 2 ^ nat (int_bits (x div 2) - 1)"
      using IH(2) by (simp add: e flip: power_Suc)
    also have "\<dots> \<le> 2 * (x div 2)" using IH(1) by simp
    also have "\<dots> \<le> x" by simp
    finally show ?thesis using e IH(2) by simp
  qed
qed

lemma int_bits_1: "int_bits 1 = 1"
  by (simp add: int_bits.simps)

lemma f64_round_nat:
  assumes "n < 2 ^ 53"
  shows "f64_round (of_nat n) = Fin (of_nat n)"
proof (cases "n = 0")
  case True
  then show ?thesis by (simp add: f64_round_def)
next
  case False
  have q: "quotient_of (of_nat n) = (int n, 1)" by simp
  define k where "k = int_bits (int n) - 1"
  have k: "2 ^ nat k \<le> int n" "0 \<le> k" using int_bits_pow [of "int n"] False by (auto simp: k_def)
  have "(2 :: rat) powi k \<le> of_nat n"
  proof -
    have "(of_int (2 ^ nat k) :: rat) \<le> of_int (int n)" using k(1) by (simp only: of_int_le_iff)
    then show ?thesis using k(2) by (simp add: power_int_def)
  qed
  then have fl: "floor_log2_rat (of_nat n) = k" by (simp add: floor_log2_rat_def q int_bits_1 k_def [symmetric])
  have "(2 :: int) ^ nat k < 2 ^ 53" using k(1) assms by (metis of_nat_less_iff of_nat_numeral of_nat_power order_le_less_trans)
  then have "nat k < 53" by (simp only: power_strict_increasing_iff)
  then have kb: "k \<le> 52" by linarith
  define j where "j = nat (- max (-1074) (k - 52))"
  have j: "max (-1074) (k - 52) = - int j" using kb by (simp add: j_def)
  have pw: "(2 :: rat) powi (- int j) = 1 / 2 ^ j" by (simp add: power_int_minus divide_simps)
  have scaled: "of_nat n / (2 :: rat) powi (- int j) = of_int (int n * 2 ^ j)" by (simp add: pw)
  have r: "round_half_even (of_int z) = z" for z by (simp add: round_half_even_def)
  have m: "of_int (round_half_even (of_nat n / 2 powi (- int j))) * (2 :: rat) powi (- int j) = of_nat n"
    by (simp only: scaled r) (simp add: pw)
  have "(of_nat n :: rat) < 2 ^ 53" using assms by (metis of_nat_less_iff of_nat_numeral of_nat_power)
  also have "\<dots> \<le> 2 ^ 1024" by (rule power_increasing) auto
  finally have small: "\<not> (of_nat n :: rat) \<ge> 2 ^ 1024" by simp
  have "f64_round (of_nat n) = (if (of_nat n :: rat) \<ge> 2 ^ 1024 then (if (of_nat n :: rat) > 0 then PInf else NInf)
      else Fin (if (of_nat n :: rat) > 0 then of_nat n else - of_nat n))"
    using False by (simp only: f64_round_def abs_of_nat fl j Let_def m of_nat_eq_0_iff if_False)
  then show ?thesis using False small by (simp only: if_False) simp
qed

lemma f_mul_nat: "a * b < 2 ^ 53 \<Longrightarrow> f_mul (Fin (of_nat a)) (Fin (of_nat b)) = Fin (of_nat (a * b))"
  using f64_round_nat [of "a * b"] by simp

text \<open>Digits are read as they were written.\<close>

lemma digit_chr [simp]: "d < 10 \<Longrightarrow> is_digit (digit_chr d)" "d < 10 \<Longrightarrow> digit_val (digit_chr d) = d"
  by (auto simp: is_digit_def digit_val_def digit_chr_def of_char_of)

definition no_digit :: "string \<Rightarrow> bool" where
  "no_digit s = (case s of [] \<Rightarrow> True | c # _ \<Rightarrow> \<not> is_digit c)"

lemma leadingInt_stop: "no_digit s \<Longrightarrow> leadingInt x s = Inr (x, s)"
  by (cases s) (auto simp: no_digit_def)

definition dec_val :: "nat \<Rightarrow> string \<Rightarrow> nat" where
  "dec_val x s = foldl (\<lambda>x c. x * 10 + digit_val c) x s"

lemma dec_val_simps [simp]: "dec_val x [] = x" "dec_val x (c # s) = dec_val (x * 10 + digit_val c) s"
  "dec_val x (s @ t) = dec_val (dec_val x s) t"
  by (simp_all add: dec_val_def)

lemma dec_val_mono: "x \<le> dec_val x s"
proof (induction s arbitrary: x)
  case (Cons c s)
  have "x \<le> x * 10 + digit_val c" by simp
  also have "\<dots> \<le> dec_val (x * 10 + digit_val c) s" by (rule Cons.IH)
  finally show ?case by simp
qed simp

lemma leadingInt_digits:
  assumes "\<forall>c\<in>set ds. is_digit c" "dec_val x ds \<le> 2 ^ 63" "no_digit rest"
  shows "leadingInt x (ds @ rest) = Inr (dec_val x ds, rest)"
  using assms
proof (induction ds arbitrary: x)
  case (Cons c ds)
  have le: "x * 10 + digit_val c \<le> 2 ^ 63" using Cons.prems(2) dec_val_mono [of "x * 10 + digit_val c" ds] by simp
  then have "\<not> x > 2 ^ 63 div 10" by simp
  then show ?case using Cons le by (simp add: Let_def)
qed (simp add: leadingInt_stop)

lemma leadingFraction_digits:
  assumes "\<forall>c\<in>set ds. is_digit c" "dec_val x ds \<le> 2 ^ 50" "10 ^ (k + length ds) \<le> (2 :: nat) ^ 50" "no_digit rest"
  shows "leadingFraction x (Fin (of_nat (10 ^ k))) False (ds @ rest) = (dec_val x ds, Fin (of_nat (10 ^ (k + length ds))), rest)"
  using assms
proof (induction ds arbitrary: x k)
  case Nil
  then show ?case by (cases rest) (auto simp: no_digit_def)
next
  case (Cons c ds)
  have le: "x * 10 + digit_val c \<le> 2 ^ 50" using Cons.prems(2) dec_val_mono [of "x * 10 + digit_val c" ds] by simp
  have "(10 :: nat) ^ k * 10 \<le> 10 ^ (k + length (c # ds))" by (simp add: power_add)
  also have "\<dots> \<le> 2 ^ 50" by (rule Cons.prems(3))
  finally have "(10 :: nat) ^ k * 10 < 2 ^ 53" by simp
  from f_mul_nat [OF this] have sc: "f_mul (Fin (of_nat (10 ^ k))) (Fin 10) = Fin (of_nat (10 ^ Suc k))" by (simp add: mult.commute)
  have IH: "leadingFraction (x * 10 + digit_val c) (Fin (of_nat (10 ^ Suc k))) False (ds @ rest)
      = (dec_val (x * 10 + digit_val c) ds, Fin (of_nat (10 ^ (Suc k + length ds))), rest)"
    using Cons.prems by (intro Cons.IH) auto
  have "is_digit c" using Cons.prems(1) by simp
  moreover have "\<not> x > (2 ^ 63 - 1) div 10" "\<not> x * 10 + digit_val c > 2 ^ 63" using le by simp_all
  ultimately show ?case using IH sc by (simp only: append_Cons leadingFraction.simps if_False if_True simp_thms Let_def) simp
qed

text \<open>What \<^verbatim>\<open>fmtInt\<close> and \<^verbatim>\<open>fmtFrac\<close> write.\<close>

lemma fmtDigits_spec: "\<exists>ds. fmtDigits v buf = ds @ buf \<and> (\<forall>c\<in>set ds. is_digit c) \<and> dec_val 0 ds = v \<and> (v > 0 \<longrightarrow> ds \<noteq> [])"
proof (induction v buf rule: fmtDigits.induct)
  case (1 v buf)
  show ?case
  proof (cases "v = 0")
    case True
    then show ?thesis by (auto simp: fmtDigits.simps intro!: exI [of _ "[]"])
  next
    case False
    from 1 [OF False] obtain ds where ds: "fmtDigits (v div 10) (digit_chr (v mod 10) # buf) = ds @ digit_chr (v mod 10) # buf"
      "\<forall>c\<in>set ds. is_digit c" "dec_val 0 ds = v div 10" by blast
    then show ?thesis using False
      by (subst fmtDigits.simps) (auto intro!: exI [of _ "ds @ [digit_chr (v mod 10)]"])
  qed
qed

lemma fmtInt_spec: "\<exists>ds. fmtInt v buf = ds @ buf \<and> (\<forall>c\<in>set ds. is_digit c) \<and> dec_val 0 ds = v \<and> ds \<noteq> []"
proof (cases "v = 0")
  case True
  then show ?thesis by (auto simp: fmtInt_def is_digit_def digit_val_def intro!: exI [of _ "''0''"])
next
  case False
  then show ?thesis using fmtDigits_spec [of v buf] by (auto simp: fmtInt_def)
qed

lemma fmtFrac_spec:
  "fmtFrac prec v print buf = (b, q) \<Longrightarrow> \<exists>ds. q = v div 10 ^ prec \<and> (\<forall>c\<in>set ds. is_digit c) \<and> length ds \<le> prec
     \<and> (if print \<or> v mod 10 ^ prec \<noteq> 0
        then b = CHR ''.'' # ds @ buf \<and> dec_val 0 ds * 10 ^ (prec - length ds) = v mod 10 ^ prec \<and> (print \<longrightarrow> length ds = prec)
        else b = buf)"
proof (induction prec arbitrary: v print buf)
  case 0
  then show ?case by (auto intro!: exI [of _ "[]"])
next
  case (Suc prec)
  define pr where "pr = (print \<or> v mod 10 \<noteq> 0)"
  define buf' where "buf' = (if pr then digit_chr (v mod 10) # buf else buf)"
  have "fmtFrac prec (v div 10) pr buf' = (b, q)" using Suc.prems by (simp add: pr_def buf'_def Let_def)
  from Suc.IH [OF this] obtain ds where ds: "q = v div 10 div 10 ^ prec" "\<forall>c\<in>set ds. is_digit c" "length ds \<le> prec"
    "if pr \<or> v div 10 mod 10 ^ prec \<noteq> 0
        then b = CHR ''.'' # ds @ buf' \<and> dec_val 0 ds * 10 ^ (prec - length ds) = v div 10 mod 10 ^ prec \<and> (pr \<longrightarrow> length ds = prec)
        else b = buf'" by blast
  have q: "q = v div 10 ^ Suc prec" using ds(1) by (simp add: div_mult2_eq)
  have split: "v mod 10 ^ Suc prec = 10 * (v div 10 mod 10 ^ prec) + v mod 10"
    using mod_mult2_eq [of v 10 "10 ^ prec"] by simp
  show ?case
  proof (cases pr)
    case True
    then have b: "b = CHR ''.'' # (ds @ [digit_chr (v mod 10)]) @ buf" "dec_val 0 ds = v div 10 mod 10 ^ prec" "length ds = prec"
      using ds(4) by (auto simp: buf'_def)
    have dv: "dec_val 0 (ds @ [digit_chr (v mod 10)]) = v mod 10 ^ Suc prec" using b(2) split by (simp add: mult.commute)
    show ?thesis
    proof (cases "print \<or> v mod 10 ^ Suc prec \<noteq> 0")
      case nz: True
      then show ?thesis using q b(1,3) dv ds(2) by (intro exI [of _ "ds @ [digit_chr (v mod 10)]"]) auto
    next
      case False
      then show ?thesis using True split by (auto simp: pr_def)
    qed
  next
    case False
    then have z: "v mod 10 = 0" "\<not> print" "buf' = buf" by (auto simp: pr_def buf'_def)
    show ?thesis
    proof (cases "v div 10 mod 10 ^ prec = 0")
      case True
      then show ?thesis using q ds(4) z split False by (auto intro!: exI [of _ "[]"])
    next
      case nz: False
      then have "b = CHR ''.'' # ds @ buf" "dec_val 0 ds * 10 ^ (prec - length ds) = v div 10 mod 10 ^ prec"
        using ds(4) z by auto
      moreover have "(10 :: nat) ^ (Suc prec - length ds) = 10 * 10 ^ (prec - length ds)" using ds(3) by (simp add: Suc_diff_le)
      ultimately show ?thesis using q ds(2,3) z split nz by (intro exI [of _ ds]) auto
    qed
  qed
qed

text \<open>Reading one term.\<close>

definition unit_text :: "string \<Rightarrow> nat \<Rightarrow> bool" where
  "unit_text u unit = (u \<noteq> [] \<and> (\<forall>c\<in>set u. \<not> unit_end c) \<and> duration_unit u = Some unit)"

definition term_end :: "string \<Rightarrow> bool" where
  "term_end s = (case s of [] \<Rightarrow> True | c # _ \<Rightarrow> unit_end c)"

lemma unit_texts:
  "unit_text ''ns'' 1" "unit_text (micro @ ''s'') 1000" "unit_text ''ms'' 1000000" "unit_text ''s'' 1000000000"
  "unit_text ''m'' 60000000000" "unit_text ''h'' 3600000000000"
  by (auto simp: unit_text_def unit_end_def is_digit_def duration_unit_def micro_def greek_mu_def)

lemma parse_unit_text:
  assumes "unit_text u unit" "term_end rest" "v \<le> 2 ^ 63 div unit" "v * unit + fraction_value f sc unit \<le> 2 ^ 63"
  shows "parse_unit v f sc (u @ rest) = Inr (v * unit + fraction_value f sc unit, rest)"
proof -
  have "takeWhile (\<lambda>c. \<not> unit_end c) (u @ rest) = u \<and> dropWhile (\<lambda>c. \<not> unit_end c) (u @ rest) = rest"
    using assms(1,2) by (cases rest) (auto simp: unit_text_def term_end_def takeWhile_append dropWhile_append)
  then show ?thesis using assms by (auto simp: parse_unit_def unit_text_def Let_def)
qed

lemma unit_text_no_digit: "unit_text u unit \<Longrightarrow> no_digit (u @ rest) \<and> u \<noteq> [] \<and> hd u \<noteq> CHR ''.''"
  by (cases u) (auto simp: unit_text_def no_digit_def unit_end_def)

lemma parse_term_int:
  assumes "\<forall>c\<in>set ds. is_digit c" "ds \<noteq> []" "unit_text u unit" "term_end rest"
    and "dec_val 0 ds \<le> 2 ^ 63 div unit"
  shows "parse_term (ds @ u @ rest) = Inr (dec_val 0 ds * unit, rest)"
proof -
  obtain c ds' where ds: "ds = c # ds'" using assms(2) by (cases ds) auto
  have le: "dec_val 0 ds \<le> 2 ^ 63" using assms(5) div_le_dividend order_trans by blast
  have lead: "leadingInt 0 (ds @ u @ rest) = Inr (dec_val 0 ds, u @ rest)"
    using leadingInt_digits [OF assms(1) le] unit_text_no_digit [OF assms(3)] by blast
  have fr: "parse_fraction (u @ rest) = (0, Fin 1, False, u @ rest)"
    using unit_text_no_digit [OF assms(3)] by (cases u) (auto simp: parse_fraction_def)
  have mul: "dec_val 0 ds * unit \<le> 2 ^ 63" using assms(5) by (meson div_times_less_eq_dividend mult_le_mono1 order_trans)
  then have "parse_unit (dec_val 0 ds) 0 (Fin 1) (u @ rest) = Inr (dec_val 0 ds * unit, rest)"
    using parse_unit_text [OF assms(3,4,5), of 0 "Fin 1"] by (simp add: fraction_value_def)
  moreover have "unit_end c" using assms(1) ds by (auto simp: unit_end_def)
  ultimately show ?thesis using lead fr ds assms(2) by (simp add: parse_term_def)
qed

lemma fraction_value_exact:
  assumes "k \<le> prec" "prec \<le> 9" "f * 10 ^ (prec - k) < 10 ^ prec"
  shows "fraction_value f (Fin (of_nat (10 ^ k))) (10 ^ prec) = f * 10 ^ (prec - k)"
proof -
  have p: "(10 :: nat) ^ n < 2 ^ 53" if "n \<le> 9" for n
  proof -
    have "(10 :: nat) ^ n \<le> 10 ^ 9" by (rule power_increasing) (use that in auto)
    then show ?thesis by simp
  qed
  have "f \<le> f * 10 ^ (prec - k)" by simp
  then have f: "f < 2 ^ 53" using assms(3) p [OF assms(2)] by linarith
  have pr: "f64_round (of_nat f) = Fin (of_nat f)" "f64_round (of_nat (10 ^ prec)) = Fin (of_nat (10 ^ prec))"
    using f64_round_nat f p [OF assms(2)] by blast+
  have "(10 :: rat) ^ prec / 10 ^ k = 10 ^ (prec - k)" using assms(1) by (simp add: power_diff)
  then have dv: "f_div (Fin (of_nat (10 ^ prec))) (Fin (of_nat (10 ^ k))) = Fin (of_nat (10 ^ (prec - k)))"
    using f64_round_nat [OF p, of "prec - k"] assms(2) by simp
  have "f * 10 ^ (prec - k) < 2 ^ 53" using assms(3) p [OF assms(2)] by linarith
  from f_mul_nat [OF this] have ml: "f_mul (Fin (of_nat f)) (Fin (of_nat (10 ^ (prec - k)))) = Fin (of_nat (f * 10 ^ (prec - k)))" .
  show ?thesis
    by (simp only: fraction_value_def pr dv ml f_trunc_def f64.case floor_of_nat nat_int) simp
qed

lemma parse_term_frac:
  assumes ds: "\<forall>c\<in>set ds. is_digit c" "ds \<noteq> []" and fs: "\<forall>c\<in>set fs. is_digit c" "fs \<noteq> []" "length fs \<le> prec" "prec \<le> 9"
    and r: "dec_val 0 fs * 10 ^ (prec - length fs) = r" "r < 10 ^ prec"
    and u: "unit_text u (10 ^ prec)" "term_end rest" and b: "dec_val 0 ds * 10 ^ prec + r \<le> 2 ^ 63"
  shows "parse_term (ds @ CHR ''.'' # fs @ u @ rest) = Inr (dec_val 0 ds * 10 ^ prec + r, rest)"
proof -
  obtain c ds' where c: "ds = c # ds'" using ds(2) by (cases ds) auto
  have le: "dec_val 0 ds \<le> 2 ^ 63 div 10 ^ prec" using b by (simp add: less_eq_div_iff_mult_less_eq)
  then have le': "dec_val 0 ds \<le> 2 ^ 63" using div_le_dividend order_trans by blast
  have "no_digit (CHR ''.'' # fs @ u @ rest)" by (simp add: no_digit_def is_digit_def)
  from leadingInt_digits [OF ds(1) le' this]
  have lead: "leadingInt 0 (ds @ CHR ''.'' # fs @ u @ rest) = Inr (dec_val 0 ds, CHR ''.'' # fs @ u @ rest)" .
  have p9: "(10 :: nat) ^ prec \<le> 10 ^ 9" by (rule power_increasing) (use fs(4) in auto)
  have "dec_val 0 fs \<le> r" unfolding r(1) [symmetric] by simp
  then have fb: "dec_val 0 fs \<le> 2 ^ 50" using r(2) p9 by simp
  have "(10 :: nat) ^ (0 + length fs) \<le> 10 ^ prec" using fs(3) by (simp add: power_increasing)
  then have "(10 :: nat) ^ (0 + length fs) \<le> 10 ^ 9" using p9 by (rule order_trans)
  then have sb: "(10 :: nat) ^ (0 + length fs) \<le> 2 ^ 50" by simp
  have "leadingFraction 0 (Fin (of_nat (10 ^ 0))) False (fs @ u @ rest) = (dec_val 0 fs, Fin (of_nat (10 ^ (0 + length fs))), u @ rest)"
    using leadingFraction_digits [OF fs(1) fb sb] unit_text_no_digit [OF u(1)] by blast
  then have fr: "parse_fraction (CHR ''.'' # fs @ u @ rest) = (dec_val 0 fs, Fin (of_nat (10 ^ length fs)), True, u @ rest)"
    using fs(2) by (simp add: parse_fraction_def)
  have fv: "fraction_value (dec_val 0 fs) (Fin (of_nat (10 ^ length fs))) (10 ^ prec) = r"
    using fraction_value_exact [OF fs(3,4)] r by simp
  have "parse_unit (dec_val 0 ds) (dec_val 0 fs) (Fin (of_nat (10 ^ length fs))) (u @ rest) = Inr (dec_val 0 ds * 10 ^ prec + r, rest)"
    using parse_unit_text [OF u le, of "dec_val 0 fs" "Fin (of_nat (10 ^ length fs))"] fv b by simp
  moreover have "unit_end c" using ds(1) c by (auto simp: unit_end_def)
  moreover have "parse_term (ds @ CHR ''.'' # fs @ u @ rest) = rbind (leadingInt 0 (ds @ CHR ''.'' # fs @ u @ rest)) (\<lambda>(v, s1).
            case parse_fraction s1 of (f, scale, post, s2) \<Rightarrow>
              if length s1 = length (ds @ CHR ''.'' # fs @ u @ rest) \<and> \<not> post then Inl dur_invalid else parse_unit v f scale s2)"
    using \<open>unit_end c\<close> c by (simp add: parse_term_def)
  ultimately show ?thesis by (simp only: lead rbind_simps prod.case fr simp_thms if_False)
qed

text \<open>The last term of a printed duration: an integer, the fraction of \<open>u\<close> and its unit.\<close>

lemma parse_last_term:
  assumes "fmtFrac prec u False suf = (b, q)" "unit_text suf (10 ^ prec)" "prec \<le> 9" "x * 10 ^ prec + u mod 10 ^ prec \<le> 2 ^ 63"
  shows "parse_term (fmtInt x b) = Inr (x * 10 ^ prec + u mod 10 ^ prec, [])"
proof -
  obtain ds where ds: "fmtInt x b = ds @ b" "\<forall>c\<in>set ds. is_digit c" "dec_val 0 ds = x" "ds \<noteq> []" using fmtInt_spec by blast
  obtain fs where fs: "\<forall>c\<in>set fs. is_digit c" "length fs \<le> prec"
    "if u mod 10 ^ prec \<noteq> 0 then b = CHR ''.'' # fs @ suf \<and> dec_val 0 fs * 10 ^ (prec - length fs) = u mod 10 ^ prec else b = suf"
    using fmtFrac_spec [OF assms(1)] by auto
  show ?thesis
  proof (cases "u mod 10 ^ prec = 0")
    case True
    have "x \<le> 2 ^ 63 div 10 ^ prec" using assms(4) by (simp add: less_eq_div_iff_mult_less_eq)
    then have "parse_term (ds @ suf @ []) = Inr (x * 10 ^ prec, [])"
      using parse_term_int [OF ds(2,4) assms(2), of "[]"] ds(3) by (simp add: term_end_def)
    then show ?thesis using True fs(3) ds(1) by simp
  next
    case False
    then have b: "b = CHR ''.'' # fs @ suf" "dec_val 0 fs * 10 ^ (prec - length fs) = u mod 10 ^ prec" using fs(3) by auto
    then have "fs \<noteq> []" using False by auto
    then have "parse_term (ds @ CHR ''.'' # fs @ suf @ []) = Inr (x * 10 ^ prec + u mod 10 ^ prec, [])"
      using parse_term_frac [OF ds(2,4) fs(1) _ fs(2) assms(3) b(2) _ assms(2), of "[]"] ds(3) assms(4) by (simp add: term_end_def)
    then show ?thesis using b(1) ds(1) by simp
  qed
qed

lemma parse_int_term:
  assumes "unit_text [c] unit" "x * unit \<le> 2 ^ 63" "term_end rest" "0 < unit"
  shows "parse_term (fmtInt x (c # rest)) = Inr (x * unit, rest)"
proof -
  obtain ds where ds: "fmtInt x (c # rest) = ds @ c # rest" "\<forall>c\<in>set ds. is_digit c" "dec_val 0 ds = x" "ds \<noteq> []" using fmtInt_spec by blast
  have "x \<le> 2 ^ 63 div unit" using assms(2,4) by (simp add: less_eq_div_iff_mult_less_eq)
  then show ?thesis using parse_term_int [OF ds(2,4) assms(1,3)] ds(1,3) by simp
qed

lemma fmtInt_term_end [simp]: "term_end (fmtInt x buf)" "fmtInt x buf \<noteq> []"
proof -
  obtain ds where "fmtInt x buf = ds @ buf" "\<forall>c\<in>set ds. is_digit c" "ds \<noteq> []" using fmtInt_spec by blast
  then show "term_end (fmtInt x buf)" "fmtInt x buf \<noteq> []" by (cases ds; auto simp: term_end_def unit_end_def)+
qed

lemma parse_terms_step:
  assumes "parse_term s = Inr (v, rest)" "d + v \<le> 2 ^ 63"
  shows "parse_terms d s = parse_terms (d + v) rest"
proof -
  have "s \<noteq> []" using assms(1) by (auto simp: parse_term_def)
  moreover have "(d + v) mod 2 ^ 64 = d + v" using assms(2) by (intro mod_less) simp
  ultimately show ?thesis using assms by (cases s) (auto simp: Let_def)
qed

lemma parse_terms_fmt:
  assumes "u \<le> 2 ^ 63"
  shows "parse_terms 0 (fmtDuration u) = Inr u"
proof (cases "u < 1000000000")
  case True
  show ?thesis
  proof (cases "u = 0")
    case u0: True
    have "parse_term (''0'' @ ''s'' @ []) = Inr (0 * 1000000000, [])"
      using parse_term_int [of "''0''" "''s''" 1000000000 "[]"] unit_texts(4) by (simp add: is_digit_def digit_val_def term_end_def)
    then have "parse_terms 0 ''0s'' = Inr 0" using parse_terms_step [of "''0s''" 0 "[]" 0] by simp
    then show ?thesis using u0 by (simp add: fmtDuration_def fmtSmall_def)
  next
    case False
    have last: "parse_terms 0 (case fmtFrac prec u False suf of (b, v) \<Rightarrow> fmtInt v b) = Inr u"
      if "unit_text suf (10 ^ prec)" "prec \<le> 9" for prec suf
    proof -
      obtain b q where f: "fmtFrac prec u False suf = (b, q)" by fastforce
      then have "q = u div 10 ^ prec" using fmtFrac_spec by blast
      then have "parse_term (fmtInt q b) = Inr (u, [])" using parse_last_term [OF f that, of q] assms by (simp only: div_mult_mod_eq)
      from parse_terms_step [OF this, of 0] show ?thesis using assms f by simp
    qed
    consider "u < 1000" | "\<not> u < 1000" "u < 1000000" | "\<not> u < 1000" "\<not> u < 1000000" by blast
    then show ?thesis
    proof cases
      case 1
      then show ?thesis using True False last [of "''ns''" 0] unit_texts(1) by (simp add: fmtDuration_def fmtSmall_def)
    next
      case 2
      then show ?thesis using True False last [of "micro @ ''s''" 3] unit_texts(2) by (simp add: fmtDuration_def fmtSmall_def)
    next
      case 3
      then show ?thesis using True False last [of "''ms''" 6] unit_texts(3) by (simp add: fmtDuration_def fmtSmall_def)
    qed
  qed
next
  case False
  obtain b q where f: "fmtFrac 9 u False ''s'' = (b, q)" by fastforce
  then have q: "q = u div 10 ^ 9" using fmtFrac_spec by blast
  define hh mm ss where "hh = q div 60 div 60" "mm = q div 60 mod 60" "ss = q mod 60"
  have sum: "hh * 3600000000000 + mm * 60000000000 + (ss * 10 ^ 9 + u mod 10 ^ 9) = u"
  proof -
    have "u = q * 10 ^ 9 + u mod 10 ^ 9" unfolding q by (rule div_mult_mod_eq [symmetric])
    moreover have "q = q div 60 * 60 + ss" "q div 60 = hh * 60 + mm" unfolding hh_mm_ss_def by (simp_all only: div_mult_mod_eq)
    ultimately show ?thesis by simp
  qed
  have t1: "parse_term (fmtInt ss b) = Inr (ss * 10 ^ 9 + u mod 10 ^ 9, [])"
    using sum assms by (intro parse_last_term [OF f]) (auto simp: unit_texts)
  have t2: "parse_term (fmtInt mm (CHR ''m'' # fmtInt ss b)) = Inr (mm * 60000000000, fmtInt ss b)"
    using sum assms by (intro parse_int_term) (auto simp: unit_texts)
  have t3: "parse_term (fmtInt hh (CHR ''h'' # fmtInt mm (CHR ''m'' # fmtInt ss b))) = Inr (hh * 3600000000000, fmtInt mm (CHR ''m'' # fmtInt ss b))"
    using sum assms by (intro parse_int_term) (auto simp: unit_texts)
  have p1: "parse_terms d (fmtInt ss b) = Inr u" if "d + (ss * 10 ^ 9 + u mod 10 ^ 9) = u" for d
    using parse_terms_step [OF t1, of d] that assms by simp
  have p2: "parse_terms d (fmtInt mm (CHR ''m'' # fmtInt ss b)) = Inr u" if "d + mm * 60000000000 + (ss * 10 ^ 9 + u mod 10 ^ 9) = u" for d
    using parse_terms_step [OF t2, of d] that assms p1 by simp
  have p3: "parse_terms 0 (fmtInt hh (CHR ''h'' # fmtInt mm (CHR ''m'' # fmtInt ss b))) = Inr u"
    using parse_terms_step [OF t3, of 0] sum assms p2 by simp
  have out: "fmtDuration u = (if q div 60 = 0 then fmtInt ss b
      else if hh = 0 then fmtInt mm (CHR ''m'' # fmtInt ss b)
      else fmtInt hh (CHR ''h'' # fmtInt mm (CHR ''m'' # fmtInt ss b)))"
    using False by (simp add: fmtDuration_def f fmtClock_def Let_def hh_mm_ss_def)
  show ?thesis
  proof (cases "hh = 0")
    case h0: True
    then show ?thesis
    proof (cases "q div 60 = 0")
      case True
      then have "mm = 0" by (simp add: hh_mm_ss_def)
      then show ?thesis using out True h0 p1 [of 0] sum by simp
    qed (use out h0 p2 [of 0] sum in simp)
  next
    case False
    then show ?thesis using out p3 by (auto simp: hh_mm_ss_def)
  qed
qed

lemma fmtDuration_head: "\<exists>c s. fmtDuration u = c # s \<and> is_digit c \<and> s \<noteq> []"
proof -
  have d: "\<exists>c s. fmtInt x buf = c # s \<and> is_digit c \<and> s \<noteq> []" if "buf \<noteq> []" for x buf
  proof -
    obtain ds where "fmtInt x buf = ds @ buf" "\<forall>c\<in>set ds. is_digit c" "ds \<noteq> []" using fmtInt_spec by blast
    then show ?thesis using that by (cases ds) auto
  qed
  have f: "b \<noteq> []" if "fmtFrac prec u pr suf = (b, q)" "suf \<noteq> []" for prec pr suf b q
    using fmtFrac_spec [OF that(1)] that(2) by (auto split: if_splits)
  show ?thesis
  proof (cases "u < 1000000000")
    case True
    then show ?thesis
      by (auto simp: fmtDuration_def fmtSmall_def micro_def is_digit_def [of "CHR ''0''"] split: prod.splits if_splits intro!: d dest!: f)
  next
    case False
    then show ?thesis by (auto simp: fmtDuration_def fmtClock_def Let_def split: prod.splits intro!: d dest!: f)
  qed
qed

lemma parse_unsigned_fmt:
  assumes "u \<le> 2 ^ 63" "\<not> neg \<longrightarrow> u < 2 ^ 63"
  shows "parse_unsigned neg (fmtDuration u) = Inr (if neg then - int u else int u)"
proof -
  obtain c s where "fmtDuration u = c # s" "s \<noteq> []" using fmtDuration_head by blast
  then show ?thesis using parse_terms_fmt [OF assms(1)] assms(2) by (auto simp: parse_unsigned_def)
qed

text \<open>The text of any duration parses back to it, over the whole range of an \<^verbatim>\<open>int64\<close>.\<close>

lemma ParseDuration_String:
  assumes "- (2 ^ 63) \<le> d" "d < 2 ^ 63"
  shows "ParseDuration (Duration_String d) = Inr d"
proof (cases "d < 0")
  case True
  then have "nat (- d) \<le> 2 ^ 63" using assms(1) by simp
  from parse_unsigned_fmt [OF this, of True] show ?thesis using True by (simp add: Duration_String_def ParseDuration_def)
next
  case False
  have "nat d \<le> 2 ^ 63" "nat d < 2 ^ 63" using assms(2) False by simp_all
  from parse_unsigned_fmt [OF this(1), of False] this(2) have "parse_unsigned False (fmtDuration (nat d)) = Inr d" using False by simp
  moreover obtain c s where "fmtDuration (nat d) = c # s" "is_digit c" using fmtDuration_head by blast
  ultimately show ?thesis using False by (auto simp: Duration_String_def ParseDuration_def is_digit_def)
qed

lemma parse_terms_range: "parse_terms d s = Inr e \<Longrightarrow> d \<le> 2 ^ 63 \<Longrightarrow> e \<le> 2 ^ 63"
  by (induction d s rule: parse_terms.induct) (auto simp: Let_def split: sum.splits prod.splits if_splits)

lemma ParseDuration_range: "ParseDuration s = Inr d \<Longrightarrow> - (2 ^ 63) \<le> d \<and> d < 2 ^ 63"
  by (auto simp: ParseDuration_def parse_unsigned_def rbind_Inr_iff split: list.splits if_splits dest!: parse_terms_range)

text \<open>Evaluating the parser on a literal by the simplifier.\<close>

lemmas duration_eval = ParseDuration_def parse_unsigned_def parse_term_def parse_fraction_def parse_unit_def
  duration_unit_def unit_end_def is_digit_def digit_val_def fraction_value_def micro_def greek_mu_def Let_def

lemma parse_literals:
  "ParseDuration ''1s'' = Inr 1000000000" "ParseDuration ''10s'' = Inr 10000000000" "ParseDuration ''60s'' = Inr 60000000000"
  "ParseDuration ''1m'' = Inr 60000000000" "ParseDuration ''30s'' = Inr 30000000000" "ParseDuration ''3s'' = Inr 3000000000"
  "ParseDuration ''100ms'' = Inr 100000000" "ParseDuration ''1ms'' = Inr 1000000" "ParseDuration ''50ms'' = Inr 50000000"
  "ParseDuration ''10ms'' = Inr 10000000" "ParseDuration ''5ms'' = Inr 5000000"
  by (simp_all add: duration_eval)

end
