(* ===== verification/Config_Base.thy ===== *)
theory Config_Base
  imports Go_Duration
begin

text \<open>
  Shared vocabulary of the configuration components of \<^verbatim>\<open>internal/model\<close>.

  A pointer field is an \<open>option\<close>. A slice or map whose nil-ness the code observes is an \<open>option\<close> of a list, and
  a map is the list of its entries in the order of an iteration, so a statement about every list covers every
  iteration order. Where the code ranges over a map literal the model uses the order in which it is written; the
  verdict does not depend on it (\<open>check_all_perm\<close>), only the choice of the reported error does. Error texts
  leave out the formatted arguments.
\<close>

subsection \<open>Errors\<close>

text \<open>\<^verbatim>\<open>fmt.Errorf("prefix: %w", err)\<close>.\<close>

definition wrap :: "string \<Rightarrow> 'a result \<Rightarrow> 'a result" where
  "wrap prefix m = (case m of Inl (Fail e) \<Rightarrow> Inl (Fail (prefix @ e)) | _ \<Rightarrow> m)"

lemma wrap_simps [simp]:
  "wrap p (Inr x) = Inr x" "wrap p (Inl (Fail e)) = Inl (Fail (p @ e))" "wrap p (Inl Panic) = Inl Panic"
  "wrap p m = Inr x \<longleftrightarrow> m = Inr x" "wrap p m = Inl Panic \<longleftrightarrow> m = Inl Panic"
  by (auto simp: wrap_def split: sum.splits go_err.splits)

text \<open>A loop whose body only checks.\<close>

definition check_all :: "('x \<Rightarrow> unit result) \<Rightarrow> 'x list \<Rightarrow> unit result" where
  "check_all f xs = foldR (\<lambda>x _. f x) xs ()"

lemma check_all_simps [simp]:
  "check_all f [] = Inr ()" "check_all f (x # xs) = rbind (f x) (\<lambda>_. check_all f xs)"
  by (auto simp: check_all_def rbind_def split: sum.splits)

lemma check_all_Inr [simp]: "check_all f xs = Inr u \<longleftrightarrow> (\<forall>x\<in>set xs. f x = Inr ())"
  by (induction xs) (auto simp: rbind_Inr_iff)

lemma check_all_perm: "set xs = set ys \<Longrightarrow> check_all f xs = Inr () \<longleftrightarrow> check_all f ys = Inr ()"
  by simp

text \<open>Panics: \<open>calm m\<close> says that \<open>m\<close> is not a panic. The rules below decide it along the structure of a validator.\<close>

named_theorems calm_rules "absence of panics in the configuration code"

definition calm :: "'a result \<Rightarrow> bool" where
  "calm m = (m \<noteq> Inl Panic)"

lemma calm_simps [simp]:
  "calm (Inr x)" "calm (Inl (Fail e))" "calm (check b e)" "calm (wrap p m) \<longleftrightarrow> calm m"
  by (auto simp: calm_def check_def)

lemma calm_bind [calm_rules]: "calm m \<Longrightarrow> (\<And>x. m = Inr x \<Longrightarrow> calm (f x)) \<Longrightarrow> calm (rbind m f)"
  by (cases m) (auto simp: calm_def)

lemma calm_all [calm_rules]: "(\<And>x. x \<in> set xs \<Longrightarrow> calm (f x)) \<Longrightarrow> calm (check_all f xs)"
  by (induction xs) (auto intro!: calm_bind)

lemma calm_if [calm_rules]: "(b \<Longrightarrow> calm m) \<Longrightarrow> (\<not> b \<Longrightarrow> calm n) \<Longrightarrow> calm (if b then m else n)"
  by simp

lemma calm_option [calm_rules]:
  "(x = None \<Longrightarrow> calm m) \<Longrightarrow> (\<And>y. x = Some y \<Longrightarrow> calm (f y)) \<Longrightarrow> calm (case x of None \<Rightarrow> m | Some y \<Rightarrow> f y)"
  by (cases x) auto

lemma dur_errors_Fail: "leadingInt x s \<noteq> Inl Panic" "parse_unit v f sc s \<noteq> Inl Panic" "parse_term s \<noteq> Inl Panic"
  "parse_terms d s \<noteq> Inl Panic"
proof -
  show a: "leadingInt x s \<noteq> Inl Panic" for x s
    by (induction x s rule: leadingInt.induct) (auto simp: dur_invalid_def Let_def)
  show b: "parse_unit v f sc s \<noteq> Inl Panic" for v f sc s
    by (auto simp: parse_unit_def dur_invalid_def dur_no_unit_def dur_bad_unit_def Let_def split: option.splits)
  show c: "parse_term s \<noteq> Inl Panic" for s
    using a b by (auto simp: parse_term_def dur_invalid_def rbind_Inl_iff simp del: leadingInt.simps split: list.splits prod.splits if_splits)
  show "parse_terms d s \<noteq> Inl Panic"
    by (induction d s rule: parse_terms.induct) (use c in \<open>auto simp: dur_invalid_def Let_def split: sum.splits prod.splits if_splits\<close>)
qed

lemma calm_ParseDuration [simp]: "calm (ParseDuration s)"
  using dur_errors_Fail(4) by (auto simp: calm_def ParseDuration_def parse_unsigned_def dur_invalid_def rbind_Inl_iff
      simp del: parse_terms.simps split: list.splits if_splits)

subsection \<open>Merging\<close>

text \<open>\<^verbatim>\<open>mergeNonZero\<close> on one field: a nil pointer, slice or map and a zero value leave the base as it is.\<close>

definition merge_ptr :: "'a option \<Rightarrow> 'a option \<Rightarrow> 'a option" where
  "merge_ptr base overlay = (case overlay of None \<Rightarrow> base | Some _ \<Rightarrow> overlay)"

definition merge_str :: "string \<Rightarrow> string \<Rightarrow> string" where
  "merge_str base overlay = (if overlay = [] then base else overlay)"

definition merge_int :: "int \<Rightarrow> int \<Rightarrow> int" where
  "merge_int base overlay = (if overlay = 0 then base else overlay)"

lemma merge_ptr_simps [simp]:
  "merge_ptr b None = b" "merge_ptr b (Some x) = Some x" "merge_ptr None p = p" "merge_ptr p p = p"
  "merge_ptr b (merge_ptr b p) = merge_ptr b p"
  by (auto simp: merge_ptr_def split: option.splits)

lemma merge_str_simps [simp]:
  "merge_str b [] = b" "merge_str [] s = s" "merge_str s s = s" "merge_str b (merge_str b s) = merge_str b s"
  by (auto simp: merge_str_def)

lemma merge_int_simps [simp]:
  "merge_int b 0 = b" "merge_int 0 i = i" "merge_int i i = i" "merge_int b (merge_int b i) = merge_int b i"
  by (auto simp: merge_int_def)

lemma merge_ptr_iff: "merge_ptr b p = None \<longleftrightarrow> b = None \<and> p = None"
  by (auto simp: merge_ptr_def split: option.splits)

lemma merge_str_iff: "merge_str b s = [] \<longleftrightarrow> b = [] \<and> s = []"
  by (auto simp: merge_str_def)

lemma merge_assoc:
  "merge_ptr (merge_ptr a b) c = merge_ptr a (merge_ptr b c)" "merge_str (merge_str x y) z = merge_str x (merge_str y z)"
  "merge_int (merge_int i j) k = merge_int i (merge_int j k)"
  by (auto simp: merge_ptr_def merge_str_def merge_int_def split: option.splits)

text \<open>The elements of a slice or the entries of a map that may be nil.\<close>

definition elems :: "'a list option \<Rightarrow> 'a list" where
  "elems s = (case s of None \<Rightarrow> [] | Some xs \<Rightarrow> xs)"

lemma elems_simps [simp]: "elems None = []" "elems (Some xs) = xs"
  by (simp_all add: elems_def)

subsection \<open>Numbers and durations\<close>

definition validNumber :: "f64 \<Rightarrow> bool" where
  "validNumber value = (value \<noteq> NaN \<and> value \<noteq> PInf \<and> value \<noteq> NInf)"

definition validDecay :: "f64 \<Rightarrow> bool" where
  "validDecay value = (validNumber value \<and> f_lt (Fin 0) value \<and> f_lt value (Fin 1))"

lemma validNumber_iff: "validNumber x \<longleftrightarrow> f_finite x"
  by (cases x) (auto simp: validNumber_def)

definition pubsubContains :: "string list \<Rightarrow> string \<Rightarrow> bool" where
  "pubsubContains values needle = list_ex (\<lambda>v. v = needle) values"

lemma pubsubContains_iff [simp]: "pubsubContains values needle \<longleftrightarrow> needle \<in> set values"
  by (auto simp: pubsubContains_def list_ex_iff)

definition pubsubDuration :: "string \<Rightarrow> string \<Rightarrow> bool \<Rightarrow> unit result" where
  "pubsubDuration name value positive =
     (if value = [] then Inr ()
      else check (case ParseDuration value of Inl _ \<Rightarrow> True | Inr d \<Rightarrow> d < 0 \<or> positive \<and> d = 0)
        (name @ '' must be a '' @ (if positive then ''positive'' else ''non-negative'') @ '' duration''))"

lemma calm_pubsubDuration [simp]: "calm (pubsubDuration n v p)"
  by (simp add: pubsubDuration_def)

lemma pubsubDuration_Inr: "pubsubDuration n v p = Inr u \<longleftrightarrow>
    v = [] \<or> (\<exists>d. ParseDuration v = Inr d \<and> 0 \<le> d \<and> (p \<longrightarrow> 0 < d))"
  by (auto simp: pubsubDuration_def split: sum.splits)

subsection \<open>Code outside the repository\<close>

text \<open>
  The functions of other packages that the validation calls: peer identifiers, multiaddresses and keys of libp2p, and
  \<^verbatim>\<open>net.ParseCIDR\<close>, \<^verbatim>\<open>regexp\<close> and \<^verbatim>\<open>base64\<close>. They are a parameter of the model; an absent value is an error.
\<close>

record golib =
  lb_Decode :: "string \<Rightarrow> string option"
  lb_IDString :: "string \<Rightarrow> string"
  lb_NewMultiaddr :: "string \<Rightarrow> string option"
  lb_AddrInfo :: "string \<Rightarrow> (string \<times> string list) option"
  lb_SplitAddr :: "string \<Rightarrow> string option \<times> string"
  lb_ParseCIDR :: "string \<Rightarrow> bool"
  lb_Regexp :: "string \<Rightarrow> (string \<Rightarrow> bool) option"
  lb_Base64 :: "string \<Rightarrow> string option"
  lb_PrivateKey :: "string \<Rightarrow> string option"
  lb_KeyID :: "string \<Rightarrow> string option"

definition validatePeerIDs :: "golib \<Rightarrow> string list \<Rightarrow> unit result" where
  "validatePeerIDs lb values = check_all (\<lambda>v. check (lb_Decode lb v = None) ''invalid peer ID'') values"

lemma calm_validatePeerIDs [simp]: "calm (validatePeerIDs lb vs)"
  by (auto simp: validatePeerIDs_def intro!: calm_rules)

end
