(* ===== verification/Attack_Config.thy ===== *)
theory Attack_Config
  imports Config_Base
begin

text \<open>
  The attack options of \<^verbatim>\<open>internal/model/attacks.go\<close>, one by one: their structs, merging, defaults and selectors. An
  embedded struct is a field (\<open>..._Attack\<close>, \<open>..._Control\<close>). The functions over a whole node configuration are in
  \<open>Node_Config\<close> and \<open>Node_Validate\<close>.
\<close>

subsection \<open>Structs\<close>

record ProbabilityAttack =
  pa_Enabled :: "bool option"
  pa_Probability :: "f64 option"

record AttackSelector =
  se_Groups :: "string list"
  se_NodeIDs :: "string list"
  se_PeerIDs :: "string list"

record ControlAttackConfig =
  co_Enabled :: "bool option"
  co_Topics :: "string list option"
  co_Targets :: "AttackSelector option"
  co_Interval :: string

record CensorshipConfig =
  ce_Attack :: ProbabilityAttack
  ce_Topics :: "string list option"
  ce_Publishers :: "AttackSelector option"

record MessageDelayConfig =
  md_Attack :: ProbabilityAttack
  md_Delay :: string
  md_MaxPendingMessages :: "int option"
  md_MaxPendingBytes :: "int option"

record ConnectionAttackConfig =
  ca_Enabled :: "bool option"
  ca_Targets :: "AttackSelector option"
  ca_TargetConnections :: "int option"
  ca_RetryInterval :: string

record GraftFloodConfig =
  gf_Control :: ControlAttackConfig
  gf_GraftsPerPeer :: "int option"
  gf_RespectBackoff :: "bool option"

record IHaveSpamConfig =
  ih_Control :: ControlAttackConfig
  ih_IDsPerRPC :: "int option"
  ih_RPCsPerPeer :: "int option"

text \<open>\<^verbatim>\<open>ForwardingConfig\<close> and \<^verbatim>\<open>IWantWithholdingConfig\<close> have the same fields.\<close>

record TargetedAttackConfig =
  ta_Attack :: ProbabilityAttack
  ta_Topics :: "string list option"
  ta_Targets :: "AttackSelector option"

record InvalidMessageConfig =
  im_Control :: ControlAttackConfig
  im_Mode :: string
  im_MessagesPerPeer :: "int option"
  im_PayloadSize :: "int option"

subsection \<open>Probability attacks and selectors\<close>

definition pa_Active :: "ProbabilityAttack option \<Rightarrow> bool" where
  "pa_Active p = ptr_is (\<lambda>a. ptr_is (\<lambda>b. b) (pa_Enabled a)) p"

definition pa_WithDefaults :: "ProbabilityAttack \<Rightarrow> ProbabilityAttack" where
  "pa_WithDefaults p =
     p\<lparr>pa_Enabled := default_ptr False (pa_Enabled p), pa_Probability := default_ptr (Fin 1) (pa_Probability p)\<rparr>"

definition pa_Validate :: "ProbabilityAttack \<Rightarrow> unit result" where
  "pa_Validate p = check (ptr_is (\<lambda>v. \<not> f_finite v \<or> f_lt v (Fin 0) \<or> f_lt (Fin 1) v) (pa_Probability p)) ''probability must be finite and in [0, 1]''"

definition se_Empty :: "AttackSelector option \<Rightarrow> bool" where
  "se_Empty s = (case s of None \<Rightarrow> True | Some s \<Rightarrow> length (se_Groups s) + length (se_NodeIDs s) + length (se_PeerIDs s) = 0)"

definition se_Matches :: "AttackSelector option \<Rightarrow> string \<Rightarrow> string \<Rightarrow> string \<Rightarrow> bool" where
  "se_Matches s grp nodeID peerID =
     (case s of None \<Rightarrow> True
      | Some s \<Rightarrow> (se_Groups s = [] \<or> grp \<in> set (se_Groups s)) \<and> (se_NodeIDs s = [] \<or> nodeID \<in> set (se_NodeIDs s))
          \<and> (se_PeerIDs s = [] \<or> peerID \<in> set (se_PeerIDs s)))"

fun selector_values :: "golib \<Rightarrow> string \<Rightarrow> string list \<Rightarrow> string list \<Rightarrow> unit result" where
  "selector_values lb name [] seen = Inr ()"
| "selector_values lb name (value # values) seen =
     rbind (check (value = [] \<or> TrimSpace value \<noteq> value \<or> value \<in> set seen)
       (name @ '' must contain distinct nonblank values without surrounding whitespace'')) (\<lambda>_.
     rbind (check (name = ''peerIds'' \<and> lb_Decode lb value = None) ''invalid attack peerId'') (\<lambda>_.
     selector_values lb name values (value # seen)))"

definition se_Validate :: "golib \<Rightarrow> AttackSelector option \<Rightarrow> unit result" where
  "se_Validate lb s =
     (case s of None \<Rightarrow> Inr ()
      | Some s \<Rightarrow> check_all (\<lambda>(name, values). selector_values lb name values [])
          [(''groups'', se_Groups s), (''nodeIds'', se_NodeIDs s), (''peerIds'', se_PeerIDs s)])"

definition normalizeAttackSelector :: "golib \<Rightarrow> AttackSelector option \<Rightarrow> AttackSelector option" where
  "normalizeAttackSelector lb value =
     map_option (\<lambda>s. s\<lparr>se_PeerIDs := map (\<lambda>raw. case lb_Decode lb raw of None \<Rightarrow> raw | Some pid \<Rightarrow> lb_IDString lb pid) (se_PeerIDs s)\<rparr>) value"

definition attackEnabled :: "bool option \<Rightarrow> bool" where
  "attackEnabled value = ptr_is (\<lambda>b. b) value"

subsection \<open>Merging\<close>

text \<open>\<^verbatim>\<open>mergeAttack\<close> with \<^verbatim>\<open>mergeNonZero\<close> on the struct \<open>f\<close> and its zero value.\<close>

definition mergeAttack :: "('a \<Rightarrow> 'a \<Rightarrow> 'a) \<Rightarrow> 'a \<Rightarrow> 'a option \<Rightarrow> 'a option \<Rightarrow> 'a option" where
  "mergeAttack f zero base overlay =
     (if base = None \<and> overlay = None then None
      else let result = (case base of None \<Rightarrow> zero | Some b \<Rightarrow> b)
           in Some (case overlay of None \<Rightarrow> result | Some v \<Rightarrow> f result v))"

lemma mergeAttack_None [simp]: "mergeAttack f zero base None = base"
  by (cases base) (simp_all add: mergeAttack_def)

definition merge_pa :: "ProbabilityAttack \<Rightarrow> ProbabilityAttack \<Rightarrow> ProbabilityAttack" where
  "merge_pa b v = \<lparr>pa_Enabled = merge_ptr (pa_Enabled b) (pa_Enabled v), pa_Probability = merge_ptr (pa_Probability b) (pa_Probability v)\<rparr>"

definition zero_pa :: ProbabilityAttack where "zero_pa = \<lparr>pa_Enabled = None, pa_Probability = None\<rparr>"

definition merge_control :: "ControlAttackConfig \<Rightarrow> ControlAttackConfig \<Rightarrow> ControlAttackConfig" where
  "merge_control b v = \<lparr>co_Enabled = merge_ptr (co_Enabled b) (co_Enabled v), co_Topics = merge_ptr (co_Topics b) (co_Topics v),
     co_Targets = merge_ptr (co_Targets b) (co_Targets v), co_Interval = merge_str (co_Interval b) (co_Interval v)\<rparr>"

definition zero_control :: ControlAttackConfig where
  "zero_control = \<lparr>co_Enabled = None, co_Topics = None, co_Targets = None, co_Interval = []\<rparr>"

definition merge_targeted :: "TargetedAttackConfig \<Rightarrow> TargetedAttackConfig \<Rightarrow> TargetedAttackConfig" where
  "merge_targeted b v = \<lparr>ta_Attack = merge_pa (ta_Attack b) (ta_Attack v), ta_Topics = merge_ptr (ta_Topics b) (ta_Topics v),
     ta_Targets = merge_ptr (ta_Targets b) (ta_Targets v)\<rparr>"

definition zero_targeted :: TargetedAttackConfig where "zero_targeted = \<lparr>ta_Attack = zero_pa, ta_Topics = None, ta_Targets = None\<rparr>"

definition merge_invalid :: "InvalidMessageConfig \<Rightarrow> InvalidMessageConfig \<Rightarrow> InvalidMessageConfig" where
  "merge_invalid b v = \<lparr>im_Control = merge_control (im_Control b) (im_Control v), im_Mode = merge_str (im_Mode b) (im_Mode v),
     im_MessagesPerPeer = merge_ptr (im_MessagesPerPeer b) (im_MessagesPerPeer v), im_PayloadSize = merge_ptr (im_PayloadSize b) (im_PayloadSize v)\<rparr>"

definition zero_invalid :: InvalidMessageConfig where
  "zero_invalid = \<lparr>im_Control = zero_control, im_Mode = [], im_MessagesPerPeer = None, im_PayloadSize = None\<rparr>"

definition merge_censorship :: "CensorshipConfig \<Rightarrow> CensorshipConfig \<Rightarrow> CensorshipConfig" where
  "merge_censorship b v = \<lparr>ce_Attack = merge_pa (ce_Attack b) (ce_Attack v), ce_Topics = merge_ptr (ce_Topics b) (ce_Topics v),
     ce_Publishers = merge_ptr (ce_Publishers b) (ce_Publishers v)\<rparr>"

definition zero_censorship :: CensorshipConfig where "zero_censorship = \<lparr>ce_Attack = zero_pa, ce_Topics = None, ce_Publishers = None\<rparr>"

definition merge_delay_attack :: "MessageDelayConfig \<Rightarrow> MessageDelayConfig \<Rightarrow> MessageDelayConfig" where
  "merge_delay_attack b v = \<lparr>md_Attack = merge_pa (md_Attack b) (md_Attack v), md_Delay = merge_str (md_Delay b) (md_Delay v),
     md_MaxPendingMessages = merge_ptr (md_MaxPendingMessages b) (md_MaxPendingMessages v),
     md_MaxPendingBytes = merge_ptr (md_MaxPendingBytes b) (md_MaxPendingBytes v)\<rparr>"

definition zero_delay_attack :: MessageDelayConfig where
  "zero_delay_attack = \<lparr>md_Attack = zero_pa, md_Delay = [], md_MaxPendingMessages = None, md_MaxPendingBytes = None\<rparr>"

definition merge_connection :: "ConnectionAttackConfig \<Rightarrow> ConnectionAttackConfig \<Rightarrow> ConnectionAttackConfig" where
  "merge_connection b v = \<lparr>ca_Enabled = merge_ptr (ca_Enabled b) (ca_Enabled v), ca_Targets = merge_ptr (ca_Targets b) (ca_Targets v),
     ca_TargetConnections = merge_ptr (ca_TargetConnections b) (ca_TargetConnections v),
     ca_RetryInterval = merge_str (ca_RetryInterval b) (ca_RetryInterval v)\<rparr>"

definition zero_connection :: ConnectionAttackConfig where
  "zero_connection = \<lparr>ca_Enabled = None, ca_Targets = None, ca_TargetConnections = None, ca_RetryInterval = []\<rparr>"

definition merge_graft :: "GraftFloodConfig \<Rightarrow> GraftFloodConfig \<Rightarrow> GraftFloodConfig" where
  "merge_graft b v = \<lparr>gf_Control = merge_control (gf_Control b) (gf_Control v), gf_GraftsPerPeer = merge_ptr (gf_GraftsPerPeer b) (gf_GraftsPerPeer v),
     gf_RespectBackoff = merge_ptr (gf_RespectBackoff b) (gf_RespectBackoff v)\<rparr>"

definition zero_graft :: GraftFloodConfig where
  "zero_graft = \<lparr>gf_Control = zero_control, gf_GraftsPerPeer = None, gf_RespectBackoff = None\<rparr>"

definition merge_ihave :: "IHaveSpamConfig \<Rightarrow> IHaveSpamConfig \<Rightarrow> IHaveSpamConfig" where
  "merge_ihave b v = \<lparr>ih_Control = merge_control (ih_Control b) (ih_Control v), ih_IDsPerRPC = merge_ptr (ih_IDsPerRPC b) (ih_IDsPerRPC v),
     ih_RPCsPerPeer = merge_ptr (ih_RPCsPerPeer b) (ih_RPCsPerPeer v)\<rparr>"

definition zero_ihave :: IHaveSpamConfig where "zero_ihave = \<lparr>ih_Control = zero_control, ih_IDsPerRPC = None, ih_RPCsPerPeer = None\<rparr>"

subsection \<open>Defaults\<close>

definition control_defaults :: "golib \<Rightarrow> ControlAttackConfig \<Rightarrow> ControlAttackConfig" where
  "control_defaults lb p = p\<lparr>co_Targets := normalizeAttackSelector lb (co_Targets p), co_Enabled := default_ptr False (co_Enabled p),
     co_Interval := default_str ''1s'' (co_Interval p)\<rparr>"

definition targeted_defaults :: "golib \<Rightarrow> TargetedAttackConfig \<Rightarrow> TargetedAttackConfig" where
  "targeted_defaults lb p = p\<lparr>ta_Targets := normalizeAttackSelector lb (ta_Targets p), ta_Attack := pa_WithDefaults (ta_Attack p)\<rparr>"

definition invalid_defaults :: "golib \<Rightarrow> InvalidMessageConfig \<Rightarrow> InvalidMessageConfig" where
  "invalid_defaults lb p = p\<lparr>im_Control := control_defaults lb (im_Control p), im_Mode := default_str ''invalid-signature'' (im_Mode p),
     im_MessagesPerPeer := default_ptr 1 (im_MessagesPerPeer p), im_PayloadSize := default_ptr 256 (im_PayloadSize p)\<rparr>"

definition censorship_defaults :: "golib \<Rightarrow> CensorshipConfig \<Rightarrow> CensorshipConfig" where
  "censorship_defaults lb p = p\<lparr>ce_Publishers := normalizeAttackSelector lb (ce_Publishers p), ce_Attack := pa_WithDefaults (ce_Attack p)\<rparr>"

definition delay_defaults :: "MessageDelayConfig \<Rightarrow> MessageDelayConfig" where
  "delay_defaults p = p\<lparr>md_Attack := pa_WithDefaults (md_Attack p), md_MaxPendingMessages := default_ptr 1024 (md_MaxPendingMessages p),
     md_MaxPendingBytes := default_ptr 16777216 (md_MaxPendingBytes p)\<rparr>"

definition connection_defaults :: "golib \<Rightarrow> ConnectionAttackConfig \<Rightarrow> ConnectionAttackConfig" where
  "connection_defaults lb p = p\<lparr>ca_Targets := normalizeAttackSelector lb (ca_Targets p), ca_Enabled := default_ptr False (ca_Enabled p),
     ca_TargetConnections := default_ptr 8 (ca_TargetConnections p), ca_RetryInterval := default_str ''1s'' (ca_RetryInterval p)\<rparr>"

definition graft_defaults :: "golib \<Rightarrow> GraftFloodConfig \<Rightarrow> GraftFloodConfig" where
  "graft_defaults lb p = p\<lparr>gf_Control := control_defaults lb (gf_Control p), gf_GraftsPerPeer := default_ptr 1 (gf_GraftsPerPeer p),
     gf_RespectBackoff := default_ptr False (gf_RespectBackoff p)\<rparr>"

definition ihave_defaults :: "golib \<Rightarrow> IHaveSpamConfig \<Rightarrow> IHaveSpamConfig" where
  "ihave_defaults lb p = p\<lparr>ih_Control := control_defaults lb (ih_Control p), ih_IDsPerRPC := default_ptr 100 (ih_IDsPerRPC p),
     ih_RPCsPerPeer := default_ptr 1 (ih_RPCsPerPeer p)\<rparr>"

text \<open>
  The law of peer identifiers the defaults rely on: the text of a decoded identifier decodes to the same identifier.
  Then normalising is idempotent, and so are all the defaults.
\<close>

definition peer_ids_canonical :: "golib \<Rightarrow> bool" where
  "peer_ids_canonical lb = (\<forall>raw pid. lb_Decode lb raw = Some pid \<longrightarrow> lb_Decode lb (lb_IDString lb pid) = Some pid)"

lemma normalize_idem:
  assumes "peer_ids_canonical lb"
  shows "normalizeAttackSelector lb (normalizeAttackSelector lb s) = normalizeAttackSelector lb s"
  using assms by (cases s) (auto simp: normalizeAttackSelector_def peer_ids_canonical_def split: option.splits)

lemma pa_WithDefaults_idem [simp]: "pa_WithDefaults (pa_WithDefaults p) = pa_WithDefaults p"
  by (simp add: pa_WithDefaults_def)

lemma attack_defaults_idem:
  assumes "peer_ids_canonical lb"
  shows "targeted_defaults lb (targeted_defaults lb t) = targeted_defaults lb t" "invalid_defaults lb (invalid_defaults lb i) = invalid_defaults lb i"
    "censorship_defaults lb (censorship_defaults lb c) = censorship_defaults lb c" "delay_defaults (delay_defaults d) = delay_defaults d"
    "connection_defaults lb (connection_defaults lb n) = connection_defaults lb n" "graft_defaults lb (graft_defaults lb g) = graft_defaults lb g"
    "ihave_defaults lb (ihave_defaults lb h) = ihave_defaults lb h"
  using assms
  by (simp_all add: targeted_defaults_def invalid_defaults_def censorship_defaults_def delay_defaults_def connection_defaults_def
      graft_defaults_def ihave_defaults_def control_defaults_def normalize_idem)

lemma se_Empty_normalize [simp]: "se_Empty (normalizeAttackSelector lb s) = se_Empty s"
  by (cases s) (auto simp: se_Empty_def normalizeAttackSelector_def)

lemma calm_selector [simp]: "calm (se_Validate lb s)" "calm (pa_Validate p)"
proof -
  have v: "calm (selector_values lb name vs seen)" for name vs seen by (induction vs arbitrary: seen) (auto intro!: calm_rules)
  show "calm (se_Validate lb s)" unfolding se_Validate_def by (intro calm_rules) (auto simp: v)
  show "calm (pa_Validate p)" by (simp add: pa_Validate_def)
qed

end
