(* ===== verification/Kademlia_Config.thy ===== *)
theory Kademlia_Config
  imports Config_Base
begin

text \<open>\<^verbatim>\<open>internal/model/kademlia_config.go\<close>: the DHT configuration and its declarative policies.\<close>

subsection \<open>Configuration\<close>

record KademliaFilterConfig =
  kf_Policy :: string
  kf_AllowCIDRs :: "string list"
  kf_DenyCIDRs :: "string list"

record KademliaDiversityConfig =
  kd_Enabled :: "bool option"
  kd_MaxPerCpl :: "int option"
  kd_MaxForTable :: "int option"

record KademliaValidatorConfig =
  kv_Mode :: string
  kv_Namespaces :: "(string \<times> string) list"

record KademliaProviderStoreConfig =
  kp_Mode :: string
  kp_CleanupInterval :: string
  kp_CacheSize :: "int option"

record KademliaConfig =
  ka_Enabled :: "bool option"
  ka_Mode :: string
  ka_ProtocolPrefix :: string
  ka_ProtocolID :: string
  ka_ProtocolExtension :: string
  ka_BucketSize :: "int option"
  ka_Concurrency :: "int option"
  ka_Resiliency :: "int option"
  ka_LookupCheckConcurrency :: "int option"
  ka_RoutingTableLatencyTolerance :: string
  ka_RoutingTableRefreshPeriod :: string
  ka_RoutingTableRefreshTimeout :: string
  ka_MaxRecordAge :: string
  ka_DisableAutoRefresh :: "bool option"
  ka_DisableProviders :: "bool option"
  ka_DisableValues :: "bool option"
  ka_OptimisticProvide :: "bool option"
  ka_OptimisticProvideJobsPoolSize :: "int option"
  ka_BootstrapTimeout :: string
  ka_BootstrapRetryInterval :: string
  ka_QueryFilter :: "KademliaFilterConfig option"
  ka_RoutingTableFilter :: "KademliaFilterConfig option"
  ka_AddressFilter :: "KademliaFilterConfig option"
  ka_RoutingTableDiversity :: "KademliaDiversityConfig option"
  ka_BootstrapSource :: string
  ka_BootstrapPeers :: "string list option"
  ka_Datastore :: string
  ka_Validator :: "KademliaValidatorConfig option"
  ka_ProviderStore :: "KademliaProviderStoreConfig option"
  ka_RequestHook :: string

subsection \<open>Validation\<close>

definition check_filter :: "golib \<Rightarrow> string \<times> KademliaFilterConfig option \<Rightarrow> unit result" where
  "check_filter lb entry =
     (case entry of (name, filter_ptr) \<Rightarrow>
        case filter_ptr of None \<Rightarrow> Inr ()
        | Some f \<Rightarrow>
            rbind (check (kf_Policy f \<notin> {[], ''all'', ''public'', ''private'', ''non-loopback''})
              (name @ ''.policy must be all, public, private or non-loopback'')) (\<lambda>_.
            check_all (\<lambda>cidrs. check_all (\<lambda>cidr. check (\<not> lb_ParseCIDR lb cidr) (name @ '': invalid CIDR'')) cidrs)
              [kf_AllowCIDRs f, kf_DenyCIDRs f]))"

definition check_diversity :: "KademliaConfig \<Rightarrow> unit result" where
  "check_diversity c =
     (case ka_RoutingTableDiversity c of None \<Rightarrow> Inr ()
      | Some d \<Rightarrow>
          rbind (check (ptr_is (\<lambda>v. v \<le> 0) (kd_MaxPerCpl d)) ''kademlia.routingTableDiversity.maxPerCpl must be positive'') (\<lambda>_.
          check (ptr_is (\<lambda>v. v \<le> 0) (kd_MaxForTable d)) ''kademlia.routingTableDiversity.maxForTable must be positive''))"

definition check_bootstrap_peer :: "golib \<Rightarrow> string \<Rightarrow> unit result" where
  "check_bootstrap_peer lb raw =
     (case lb_NewMultiaddr lb raw of
        None \<Rightarrow> Inl (Fail ''kademlia.bootstrapPeers: invalid multiaddr'')
      | Some address \<Rightarrow>
          check (case lb_AddrInfo lb address of None \<Rightarrow> True | Some (peer_id, addrs) \<Rightarrow> peer_id = [] \<or> addrs = [])
            ''kademlia.bootstrapPeers: requires a transport address and /p2p Peer ID'')"

definition ContainsAny :: "string \<Rightarrow> string \<Rightarrow> bool" where
  "ContainsAny s chars = list_ex (\<lambda>c. c \<in> set chars) s"

definition check_namespace :: "string \<Rightarrow> string \<times> string \<Rightarrow> unit result" where
  "check_namespace mode entry =
     (case entry of (namespace, policy) \<Rightarrow>
        rbind (check (namespace = [] \<or> ContainsAny namespace [CHR ''/'', CHR '' '', CHR 0x09, CHR 0x0D, CHR 0x0A])
          ''kademlia.validator.namespaces: invalid namespace'') (\<lambda>_.
        rbind (check (policy \<notin> {''public-key'', ''ipns'', ''bytes'', ''reject''})
          ''kademlia.validator.namespaces must be public-key, ipns, bytes or reject'') (\<lambda>_.
        rbind (check (policy = ''public-key'' \<and> namespace \<noteq> ''pk'' \<or> policy = ''ipns'' \<and> namespace \<noteq> ''ipns'')
          ''kademlia.validator.namespaces: policy only validates its standard namespace'') (\<lambda>_.
        check (mode \<noteq> ''namespaced'' \<and> (namespace = ''pk'' \<and> policy \<noteq> ''public-key'' \<or> namespace = ''ipns'' \<and> policy \<noteq> ''ipns''))
          ''kademlia.validator: replacing requires mode namespaced''))))"

definition check_validator :: "KademliaConfig \<Rightarrow> unit result" where
  "check_validator c =
     (case ka_Validator c of None \<Rightarrow> Inr ()
      | Some v \<Rightarrow>
          rbind (check (kv_Mode v \<notin> {[], ''default'', ''namespaced''}) ''kademlia.validator.mode must be default or namespaced'') (\<lambda>_.
          check_all (check_namespace (kv_Mode v)) (kv_Namespaces v)))"

definition check_provider_store :: "KademliaConfig \<Rightarrow> unit result" where
  "check_provider_store c =
     (case ka_ProviderStore c of None \<Rightarrow> Inr ()
      | Some p \<Rightarrow>
          rbind (check (kp_Mode p \<notin> {[], ''manager'', ''null''}) ''kademlia.providerStore.mode must be manager or null'') (\<lambda>_.
          rbind (check (kp_Mode p = ''null'' \<and> (kp_CleanupInterval p \<noteq> [] \<or> kp_CacheSize p \<noteq> None))
            ''kademlia.providerStore null does not use cleanupInterval or cacheSize'') (\<lambda>_.
          rbind (check (kp_CleanupInterval p \<noteq> [] \<and> (case ParseDuration (kp_CleanupInterval p) of Inl _ \<Rightarrow> True | Inr i \<Rightarrow> i \<le> 0))
            ''kademlia.providerStore.cleanupInterval must be a positive duration'') (\<lambda>_.
          check (ptr_is (\<lambda>v. v \<le> 0) (kp_CacheSize p)) ''kademlia.providerStore.cacheSize must be positive''))))"

text \<open>Whether the wire protocol is the public Amino DHT, and what it then requires.\<close>

definition aminoProtocol :: "KademliaConfig \<Rightarrow> bool" where
  "aminoProtocol c =
     (if ka_ProtocolID c \<noteq> [] then ka_ProtocolID c = ''/ipfs/kad/1.0.0''
      else ka_ProtocolPrefix c @ ka_ProtocolExtension c = ''/ipfs'')"

definition map_get :: "(string \<times> string) list \<Rightarrow> string \<Rightarrow> string" where
  "map_get m k = (case map_of m k of None \<Rightarrow> [] | Some v \<Rightarrow> v)"

definition check_amino :: "KademliaConfig \<Rightarrow> unit result" where
  "check_amino c =
     (if \<not> aminoProtocol c then Inr ()
      else
        rbind (check (ptr_is (\<lambda>v. v \<noteq> 20) (ka_BucketSize c)) ''kademlia /ipfs protocol requires bucketSize 20'') (\<lambda>_.
        rbind (check (ptr_is (\<lambda>b. b) (ka_DisableProviders c) \<or> ptr_is (\<lambda>b. b) (ka_DisableValues c))
          ''kademlia /ipfs protocol requires providers and values enabled'') (\<lambda>_.
        case ka_Validator c of None \<Rightarrow> Inr ()
        | Some v \<Rightarrow>
            rbind (check_all (\<lambda>(namespace, policy). check (namespace \<noteq> ''pk'' \<and> namespace \<noteq> ''ipns''
                \<or> namespace = ''pk'' \<and> policy \<noteq> ''public-key'' \<or> namespace = ''ipns'' \<and> policy \<noteq> ''ipns'')
              ''kademlia /ipfs protocol requires only standard pk and ipns validators'') (kv_Namespaces v)) (\<lambda>_.
            check (kv_Mode v = ''namespaced'' \<and> (length (kv_Namespaces v) \<noteq> 2 \<or> map_get (kv_Namespaces v) ''pk'' \<noteq> ''public-key''
                \<or> map_get (kv_Namespaces v) ''ipns'' \<noteq> ''ipns''))
              ''kademlia /ipfs protocol requires both standard pk and ipns validators''))))"

definition kademlia_Validate :: "golib \<Rightarrow> KademliaConfig \<Rightarrow> unit result" where
  "kademlia_Validate lb c =
     rbind (check_all (check_filter lb) [(''queryFilter'', ka_QueryFilter c), (''routingTableFilter'', ka_RoutingTableFilter c),
       (''addressFilter'', ka_AddressFilter c)]) (\<lambda>_.
     rbind (check_diversity c) (\<lambda>_.
     rbind (check (ka_BootstrapSource c \<notin> {[], ''none'', ''static'', ''controller''})
       ''kademlia.bootstrapSource must be none, static or controller'') (\<lambda>_.
     rbind (check (elems (ka_BootstrapPeers c) \<noteq> [] \<and> ka_BootstrapSource c \<noteq> ''static'')
       ''kademlia.bootstrapPeers requires bootstrapSource static'') (\<lambda>_.
     rbind (check_all (check_bootstrap_peer lb) (elems (ka_BootstrapPeers c))) (\<lambda>_.
     rbind (check (ka_Datastore c \<notin> {[], ''memory'', ''null''}) ''kademlia.datastore must be memory or null'') (\<lambda>_.
     rbind (check_validator c) (\<lambda>_.
     rbind (check_provider_store c) (\<lambda>_.
     rbind (check (ka_RequestHook c \<notin> {[], ''none'', ''log''}) ''kademlia.requestHook must be none or log'') (\<lambda>_.
     check_amino c)))))))))"

lemma calm_kademlia_parts [simp]:
  "calm (check_filter lb f)" "calm (check_diversity c)" "calm (check_bootstrap_peer lb raw)" "calm (check_namespace mode ns)"
  "calm (check_validator c)" "calm (check_provider_store c)" "calm (check_amino c)"
proof -
  show "calm (check_filter lb f)" by (cases f) (auto simp: check_filter_def simp del: check_all_simps intro!: calm_rules)
  show "calm (check_diversity c)" unfolding check_diversity_def by (intro calm_rules) simp_all
  show "calm (check_bootstrap_peer lb raw)" unfolding check_bootstrap_peer_def by (intro calm_rules) simp_all
  show ns: "calm (check_namespace mode ns)" for mode ns unfolding check_namespace_def by (cases ns) (simp, intro calm_rules, simp_all)
  show "calm (check_validator c)" unfolding check_validator_def by (intro calm_rules) (simp_all add: ns)
  show "calm (check_provider_store c)" unfolding check_provider_store_def by (intro calm_rules) simp_all
  show "calm (check_amino c)" unfolding check_amino_def by (intro calm_rules) (auto split: prod.splits)
qed

lemma calm_kademlia [simp]: "calm (kademlia_Validate lb c)"
  unfolding kademlia_Validate_def by (intro calm_rules) simp_all

text \<open>
  Interoperability with the public DHT: an accepted configuration whose wire protocol is the Amino protocol, by
  exact identifier or by prefix and extension, keeps the bucket size at 20 where it is set, does not disable providers or
  values, and admits record validators for the namespaces \<^verbatim>\<open>pk\<close> and \<^verbatim>\<open>ipns\<close> only, each with its standard policy.
\<close>

theorem kademlia_amino_standard:
  assumes "kademlia_Validate lb c = Inr ()" "aminoProtocol c"
  shows "(\<forall>n. ka_BucketSize c = Some n \<longrightarrow> n = 20) \<and> ka_DisableProviders c \<noteq> Some True \<and> ka_DisableValues c \<noteq> Some True
    \<and> (\<forall>v. ka_Validator c = Some v \<longrightarrow> set (kv_Namespaces v) \<subseteq> {(''pk'', ''public-key''), (''ipns'', ''ipns'')}
         \<and> (kv_Mode v = ''namespaced'' \<longrightarrow> set (kv_Namespaces v) = {(''pk'', ''public-key''), (''ipns'', ''ipns'')}))"
proof -
  have a: "check_amino c = Inr ()" using assms(1) unfolding kademlia_Validate_def rbind_Inr_iff rbind_check_Inr_iff by blast
  have flags: "ptr_is (\<lambda>v. v \<noteq> 20) (ka_BucketSize c) = False" "ptr_is (\<lambda>b. b) (ka_DisableProviders c) = False" "ptr_is (\<lambda>b. b) (ka_DisableValues c) = False"
    using a assms(2) by (auto simp: check_amino_def)
  have ns: "set (kv_Namespaces v) \<subseteq> {(''pk'', ''public-key''), (''ipns'', ''ipns'')}
      \<and> (kv_Mode v = ''namespaced'' \<longrightarrow> map_get (kv_Namespaces v) ''pk'' = ''public-key'' \<and> map_get (kv_Namespaces v) ''ipns'' = ''ipns'')"
    if "ka_Validator c = Some v" for v
    using a assms(2) that by (auto simp: check_amino_def rbind_Inr_iff)
  have get: "(k, v) \<in> set m" if "map_get m k = v" "v \<noteq> []" for m k v
    using that by (auto simp: map_get_def split: option.splits dest: map_of_SomeD)
  have "set (kv_Namespaces v) = {(''pk'', ''public-key''), (''ipns'', ''ipns'')}" if "ka_Validator c = Some v" "kv_Mode v = ''namespaced''" for v
    using ns [OF that(1)] that(2) get [of "kv_Namespaces v" "''pk''" "''public-key''"] get [of "kv_Namespaces v" "''ipns''" "''ipns''"] by auto
  then show ?thesis using flags ns by auto
qed

definition zero_kademlia :: KademliaConfig where
  "zero_kademlia = \<lparr>ka_Enabled = None, ka_Mode = [], ka_ProtocolPrefix = [], ka_ProtocolID = [], ka_ProtocolExtension = [],
     ka_BucketSize = None, ka_Concurrency = None, ka_Resiliency = None, ka_LookupCheckConcurrency = None,
     ka_RoutingTableLatencyTolerance = [], ka_RoutingTableRefreshPeriod = [], ka_RoutingTableRefreshTimeout = [], ka_MaxRecordAge = [],
     ka_DisableAutoRefresh = None, ka_DisableProviders = None, ka_DisableValues = None, ka_OptimisticProvide = None,
     ka_OptimisticProvideJobsPoolSize = None, ka_BootstrapTimeout = [], ka_BootstrapRetryInterval = [], ka_QueryFilter = None,
     ka_RoutingTableFilter = None, ka_AddressFilter = None, ka_RoutingTableDiversity = None, ka_BootstrapSource = [],
     ka_BootstrapPeers = None, ka_Datastore = [], ka_Validator = None, ka_ProviderStore = None, ka_RequestHook = []\<rparr>"

definition ex_amino :: KademliaConfig where
  "ex_amino = zero_kademlia\<lparr>ka_ProtocolPrefix := ''/ip'', ka_ProtocolExtension := ''fs'', ka_BucketSize := Some 20,
     ka_Validator := Some \<lparr>kv_Mode = ''namespaced'', kv_Namespaces = [(''ipns'', ''ipns''), (''pk'', ''public-key'')]\<rparr>\<rparr>"

definition no_lib :: golib where
  "no_lib = \<lparr>lb_Decode = (\<lambda>_. None), lb_IDString = (\<lambda>s. s), lb_NewMultiaddr = (\<lambda>_. None), lb_AddrInfo = (\<lambda>_. None),
     lb_SplitAddr = (\<lambda>s. (None, [])), lb_ParseCIDR = (\<lambda>s. False), lb_Regexp = (\<lambda>s. None), lb_Base64 = (\<lambda>_. None),
     lb_PrivateKey = (\<lambda>_. None), lb_KeyID = (\<lambda>_. None)\<rparr>"

lemma ex_amino_ok: "kademlia_Validate no_lib ex_amino = Inr ()" "aminoProtocol ex_amino"
  by (simp_all add: kademlia_Validate_def ex_amino_def zero_kademlia_def check_filter_def check_diversity_def check_validator_def
      check_namespace_def check_provider_store_def check_amino_def aminoProtocol_def map_get_def ContainsAny_def)

theorem kademlia_amino_standard_witness: "ka_DisableProviders ex_amino \<noteq> Some True"
  using kademlia_amino_standard [OF ex_amino_ok] by blast

end
