(* ===== verification/Distribution.thy ===== *)
theory Distribution
  imports Go_Duration
begin

text \<open>
  \<^verbatim>\<open>internal/distribution/distribution.go\<close>: seeded duration distributions, their validation and sampling.

  The transcendental functions of package \<^verbatim>\<open>math\<close>, \<^verbatim>\<open>strconv.ParseFloat\<close> and the shapes of \<^verbatim>\<open>NormFloat64\<close> and
  \<^verbatim>\<open>ExpFloat64\<close> are a parameter, the record \<open>gomath\<close>: the statements hold for all of them. The rejection loops
  of the gamma and Poisson samplers take fuel, as a run of draws may be rejected forever.
\<close>

subsection \<open>Configuration\<close>

record Distribution =
  di_Model :: string
  di_Value :: string
  di_Mean :: string
  di_Sigma :: string
  di_XM :: string
  di_Alpha :: f64
  di_Beta :: f64
  di_Scale :: string
  di_Mu :: f64
  di_LogSigma :: f64
  di_Min :: string
  di_Max :: string

record gomath =
  gm_Norm :: "int \<Rightarrow> f64"
  gm_ExpDraw :: "int \<Rightarrow> f64"
  gm_Exp :: "f64 \<Rightarrow> f64"
  gm_Log :: "f64 \<Rightarrow> f64"
  gm_Sqrt :: "f64 \<Rightarrow> f64"
  gm_Pow :: "f64 \<Rightarrow> f64 \<Rightarrow> f64"
  gm_Lgamma :: "f64 \<Rightarrow> f64"
  gm_ParseFloat :: "string \<Rightarrow> f64 result"

definition finitePositive :: "f64 \<Rightarrow> bool" where
  "finitePositive value = (f_lt (Fin 0) value \<and> f_finite value)"

definition parseDurationOrZero :: "string \<Rightarrow> int result" where
  "parseDurationOrZero value =
     (if value = [] then Inr 0
      else case ParseDuration value of
          Inl _ \<Rightarrow> Inl (Fail ''invalid duration'')
        | Inr d \<Rightarrow> if d < 0 then Inl (Fail ''duration cannot be negative'') else Inr d)"

definition positiveDuration :: "string \<Rightarrow> string \<Rightarrow> int result" where
  "positiveDuration value name =
     rbind (parseDurationOrZero value) (\<lambda>d. if d \<le> 0 then Inl (Fail (name @ '' must be positive'')) else Inr d)"

definition lognormalSigma :: "gomath \<Rightarrow> Distribution \<Rightarrow> f64 result" where
  "lognormalSigma gm d =
     (if di_Sigma d = [] then Inr (di_LogSigma d)
      else case gm_ParseFloat gm (di_Sigma d) of
          Inl _ \<Rightarrow> Inl (Fail ''lognormal sigma must be a dimensionless number'')
        | Inr v \<Rightarrow> Inr v)"

text \<open>The comparison \<^verbatim>\<open>d == (Distribution{})\<close>.\<close>

definition dist_is_zero :: "Distribution \<Rightarrow> bool" where
  "dist_is_zero d =
     (di_Model d = [] \<and> di_Value d = [] \<and> di_Mean d = [] \<and> di_Sigma d = [] \<and> di_XM d = []
      \<and> f_eq (di_Alpha d) (Fin 0) \<and> f_eq (di_Beta d) (Fin 0) \<and> di_Scale d = [] \<and> f_eq (di_Mu d) (Fin 0)
      \<and> f_eq (di_LogSigma d) (Fin 0) \<and> di_Min d = [] \<and> di_Max d = [])"

text \<open>The switch over the models.\<close>

definition validate_model :: "gomath \<Rightarrow> Distribution \<Rightarrow> unit result" where
  "validate_model gm d =
     (let model = di_Model d; ok = (\<lambda>_. Inr ()) in
      if model = ''fixed'' then rbind (parseDurationOrZero (di_Value d)) ok
      else if model = ''exponential'' \<or> model = ''poisson'' then rbind (positiveDuration (di_Mean d) ''mean'') ok
      else if model = ''normal'' then
        rbind (ParseDuration (di_Mean d)) (\<lambda>_. rbind (parseDurationOrZero (di_Sigma d)) ok)
      else if model = ''pareto'' then
        rbind (positiveDuration (di_XM d) ''xm'') (\<lambda>_. check (\<not> finitePositive (di_Alpha d)) ''alpha must be positive and finite'')
      else if model = ''gamma'' then
        (if \<not> finitePositive (di_Alpha d) then Inl (Fail ''alpha must be positive and finite'')
         else if di_Scale d \<noteq> [] \<and> \<not> f_eq (di_Beta d) (Fin 0) then Inl (Fail ''gamma scale and beta are mutually exclusive'')
         else if di_Scale d \<noteq> [] then rbind (positiveDuration (di_Scale d) ''scale'') ok
         else check (\<not> finitePositive (di_Beta d)) ''gamma requires a positive finite beta rate or scale duration'')
      else if model = ''lognormal'' then
        (if di_Sigma d \<noteq> [] \<and> \<not> f_eq (di_LogSigma d) (Fin 0) then Inl (Fail ''lognormal sigma and logSigma are mutually exclusive'')
         else rbind (lognormalSigma gm d) (\<lambda>logSigma.
           check (\<not> f_finite (di_Mu d) \<or> \<not> f_finite logSigma \<or> f_lt logSigma (Fin 0))
             ''lognormal mu must be finite and sigma must be finite and non-negative''))
      else Inl (Fail ''unsupported model''))"

definition dist_Validate :: "gomath \<Rightarrow> bool \<Rightarrow> Distribution \<Rightarrow> unit result" where
  "dist_Validate gm optional d =
     (if di_Model d = [] then
        (if optional \<and> dist_is_zero d then Inr () else Inl (Fail ''model is required''))
      else rbind (validate_model gm d) (\<lambda>_.
        rbind (parseDurationOrZero (di_Min d)) (\<lambda>minimum.
        rbind (parseDurationOrZero (di_Max d)) (\<lambda>maximum.
        check (di_Min d \<noteq> [] \<and> di_Max d \<noteq> [] \<and> minimum > maximum) ''min cannot exceed max''))))"

subsection \<open>Draws and conversions\<close>

definition draw :: "rng \<Rightarrow> int \<times> rng" where
  "draw r = (tape r (pos r), r\<lparr>pos := Suc (pos r)\<rparr>)"

definition NormFloat64 :: "gomath \<Rightarrow> rng \<Rightarrow> f64 \<times> rng" where
  "NormFloat64 gm r = (case draw r of (x, r) \<Rightarrow> (gm_Norm gm x, r))"

definition ExpFloat64 :: "gomath \<Rightarrow> rng \<Rightarrow> f64 \<times> rng" where
  "ExpFloat64 gm r = (case draw r of (x, r) \<Rightarrow> (gm_ExpDraw gm x, r))"

definition Float64 :: "rng \<Rightarrow> f64 \<times> rng" where
  "Float64 r = (case rng_Float64 r of (x, r) \<Rightarrow> (Fin x, r))"

definition SmallestNonzeroFloat64 :: f64 where
  "SmallestNonzeroFloat64 = Fin (1 / 2 ^ 1074)"

definition durationFromNanoseconds :: "f64 \<Rightarrow> int" where
  "durationFromNanoseconds value =
     (if value = NaN \<or> f_le value (Fin 0) then 0
      else if value = PInf \<or> f_le (Fin (2 ^ 63)) value then 2 ^ 63 - 1
      else int (f_trunc value))"

definition durationFromSeconds :: "f64 \<Rightarrow> int" where
  "durationFromSeconds value = durationFromNanoseconds (f_mul value (Fin 1000000000))"

text \<open>\<^verbatim>\<open>float64(d)\<close> of a duration, and \<^verbatim>\<open>d.Seconds()\<close>; Go's division truncates towards zero.\<close>

definition float_of :: "int \<Rightarrow> f64" where
  "float_of d = f64_round (of_int d)"

definition Duration_Seconds :: "int \<Rightarrow> f64" where
  "Duration_Seconds d =
     (let sec = sgn d * (\<bar>d\<bar> div 1000000000); nsec = sgn d * (\<bar>d\<bar> mod 1000000000)
      in f_add (float_of sec) (f_div (float_of nsec) (Fin 1000000000)))"

text \<open>\<^verbatim>\<open>int64(k)\<close>: truncation; a value that does not fit gives the least integer, as on amd64 and arm64 for negatives.\<close>

definition int64_of :: "f64 \<Rightarrow> int" where
  "int64_of x = (case x of Fin a \<Rightarrow>
       let t = (if a \<ge> 0 then \<lfloor>a\<rfloor> else \<lceil>a\<rceil>) in if - (2 ^ 63) \<le> t \<and> t < 2 ^ 63 then t else - (2 ^ 63)
     | _ \<Rightarrow> - (2 ^ 63))"

definition f_floor :: "f64 \<Rightarrow> f64" where
  "f_floor x = (case x of Fin a \<Rightarrow> Fin (of_int \<lfloor>a\<rfloor>) | y \<Rightarrow> y)"

definition f_abs :: "f64 \<Rightarrow> f64" where
  "f_abs x = (case x of Fin a \<Rightarrow> Fin \<bar>a\<bar> | NaN \<Rightarrow> NaN | _ \<Rightarrow> PInf)"

text \<open>A decimal constant of the source as a float64.\<close>

definition flit :: "int \<Rightarrow> nat \<Rightarrow> f64" where
  "flit n e = f64_round (of_int n / 10 ^ e)"

subsection \<open>Samplers\<close>

fun gamma_loop :: "nat \<Rightarrow> gomath \<Rightarrow> f64 \<Rightarrow> f64 \<Rightarrow> rng \<Rightarrow> (f64 \<times> rng) option" where
  "gamma_loop 0 gm d c r = None"
| "gamma_loop (Suc fuel) gm d c r =
     (let (x, r) = NormFloat64 gm r; v = f_add (Fin 1) (f_mul c x) in
      if f_le v (Fin 0) then gamma_loop fuel gm d c r
      else let v = f_mul (f_mul v v) v; (u, r) = Float64 r;
               x4 = f_mul (f_mul (f_mul (f_mul (flit 331 4) x) x) x) x;
               rhs = f_add (f_mul (f_mul (flit 5 1) x) x)
                 (f_mul d (f_add (f_sub (Fin 1) v) (gm_Log gm v)))
           in if f_lt u (f_sub (Fin 1) x4) \<or> f_lt (gm_Log gm u) rhs then Some (f_mul d v, r)
              else gamma_loop fuel gm d c r)"

fun sampleGamma :: "nat \<Rightarrow> gomath \<Rightarrow> f64 \<Rightarrow> rng \<Rightarrow> (f64 \<times> rng) option" where
  "sampleGamma 0 gm shape r = None"
| "sampleGamma (Suc fuel) gm shape r =
     (if f_lt shape (Fin 1) then
        let (u0, r) = Float64 r; u = f_max u0 SmallestNonzeroFloat64
        in case sampleGamma fuel gm (f_add shape (Fin 1)) r of None \<Rightarrow> None
           | Some (g, r) \<Rightarrow> Some (f_mul g (gm_Pow gm u (f_div (Fin 1) shape)), r)
      else let d = f_sub shape (f64_round (1 / 3)); c = f_div (Fin 1) (gm_Sqrt gm (f_mul (Fin 9) d))
           in gamma_loop fuel gm d c r)"

fun poisson_count :: "nat \<Rightarrow> f64 \<Rightarrow> f64 \<Rightarrow> int \<Rightarrow> rng \<Rightarrow> (int \<times> rng) option" where
  "poisson_count 0 limit product count r = None"
| "poisson_count (Suc fuel) limit product count r =
     (if f_lt limit product then
        let (u, r) = Float64 r in poisson_count fuel limit (f_mul product u) (count + 1) r
      else Some (count - 1, r))"

fun ptrs_loop :: "nat \<Rightarrow> gomath \<Rightarrow> f64 \<Rightarrow> f64 \<Rightarrow> f64 \<Rightarrow> f64 \<Rightarrow> f64 \<Rightarrow> rng \<Rightarrow> (int \<times> rng) option" where
  "ptrs_loop 0 gm lambda b a invAlpha vR r = None"
| "ptrs_loop (Suc fuel) gm lambda b a invAlpha vR r =
     (let (u0, r) = Float64 r; u = f_sub u0 (flit 5 1); (v, r) = Float64 r; us = f_sub (flit 5 1) (f_abs u);
          k = f_floor (f_add (f_add (f_mul (f_add (f_div (f_mul (Fin 2) a) us) b) u) lambda) (flit 43 2))
      in if f_le (flit 7 2) us \<and> f_le v vR then Some (int64_of k, r)
         else if f_lt k (Fin 0) \<or> f_lt us (flit 13 3) \<and> f_lt us v then ptrs_loop fuel gm lambda b a invAlpha vR r
         else if f_le (gm_Log gm (f_div (f_mul v invAlpha) (f_add (f_div a (f_mul us us)) b)))
                   (f_sub (f_add (f_neg lambda) (f_mul k (gm_Log gm lambda))) (gm_Lgamma gm (f_add k (Fin 1))))
              then Some (int64_of k, r)
              else ptrs_loop fuel gm lambda b a invAlpha vR r)"

definition SamplePoisson :: "nat \<Rightarrow> gomath \<Rightarrow> f64 \<Rightarrow> rng \<Rightarrow> (int \<times> rng) option" where
  "SamplePoisson fuel gm lambda r =
     (if f_lt lambda (Fin 30) then poisson_count fuel (gm_Exp gm (f_neg lambda)) (Fin 1) 0 r
      else let b = f_add (flit 931 3) (f_mul (flit 253 2) (gm_Sqrt gm lambda));
               a = f_add (flit (-59) 3) (f_mul (flit 2483 5) b);
               invAlpha = f_add (flit 11239 4) (f_div (flit 11328 4) (f_sub b (flit 34 1)));
               vR = f_sub (flit 9277 4) (f_div (flit 36224 4) (f_sub b (Fin 2)))
           in ptrs_loop fuel gm lambda b a invAlpha vR r)"

text \<open>\<^verbatim>\<open>v, _ := time.ParseDuration(s)\<close>: zero on an error.\<close>

definition duration_or_zero :: "string \<Rightarrow> int" where
  "duration_or_zero s = (case ParseDuration s of Inl _ \<Rightarrow> 0 | Inr d \<Rightarrow> d)"

definition sample_value :: "nat \<Rightarrow> gomath \<Rightarrow> Distribution \<Rightarrow> rng \<Rightarrow> (int \<times> rng) option" where
  "sample_value fuel gm d r =
     (let model = di_Model d in
      if model = ''fixed'' then Some (duration_or_zero (di_Value d), r)
      else if model = ''exponential'' then
        (let (x, r) = ExpFloat64 gm r in Some (durationFromNanoseconds (f_mul x (float_of (duration_or_zero (di_Mean d)))), r))
      else if model = ''poisson'' then
        map_option (\<lambda>(n, r). (durationFromSeconds (float_of n), r))
          (SamplePoisson fuel gm (Duration_Seconds (duration_or_zero (di_Mean d))) r)
      else if model = ''normal'' then
        (let (x, r) = NormFloat64 gm r
         in Some (durationFromNanoseconds (f_add (float_of (duration_or_zero (di_Mean d)))
              (f_mul x (float_of (duration_or_zero (di_Sigma d))))), r))
      else if model = ''pareto'' then
        (let (u0, r) = Float64 r; u = f_max u0 SmallestNonzeroFloat64
         in Some (durationFromNanoseconds (f_div (float_of (duration_or_zero (di_XM d))) (gm_Pow gm u (f_div (Fin 1) (di_Alpha d)))), r))
      else if model = ''gamma'' then
        map_option (\<lambda>(sample, r).
            (if di_Scale d \<noteq> [] then durationFromNanoseconds (f_mul sample (float_of (duration_or_zero (di_Scale d))))
             else durationFromSeconds (f_div sample (di_Beta d)), r))
          (sampleGamma fuel gm (di_Alpha d) r)
      else if model = ''lognormal'' then
        (let (x, r) = NormFloat64 gm r; logSigma = (case lognormalSigma gm d of Inl _ \<Rightarrow> Fin 0 | Inr v \<Rightarrow> v)
         in Some (durationFromSeconds (gm_Exp gm (f_add (di_Mu d) (f_mul logSigma x))), r))
      else Some (0, r))"

definition clamp_value :: "Distribution \<Rightarrow> int \<Rightarrow> int" where
  "clamp_value d value =
     (let value = (if value < 0 then 0 else value);
          value = (if di_Min d \<noteq> [] \<and> value < duration_or_zero (di_Min d) then duration_or_zero (di_Min d) else value)
      in if di_Max d \<noteq> [] \<and> value > duration_or_zero (di_Max d) then duration_or_zero (di_Max d) else value)"

definition dist_Sample :: "nat \<Rightarrow> gomath \<Rightarrow> Distribution \<Rightarrow> rng \<Rightarrow> (int \<times> rng) option" where
  "dist_Sample fuel gm d r =
     (if di_Model d = [] then Some (0, r)
      else map_option (\<lambda>(value, r). (clamp_value d value, r)) (sample_value fuel gm d r))"

subsection \<open>Bounds of a sample\<close>

lemma parseDurationOrZero_Inr:
  assumes "parseDurationOrZero s = Inr v"
  shows "0 \<le> v \<and> v < 2 ^ 63 \<and> (s \<noteq> [] \<longrightarrow> duration_or_zero s = v)"
  using assms ParseDuration_range [of s]
  by (auto simp: parseDurationOrZero_def duration_or_zero_def split: if_splits sum.splits)

lemma duration_or_zero_range: "- (2 ^ 63) \<le> duration_or_zero s \<and> duration_or_zero s < 2 ^ 63"
  using ParseDuration_range [of s] by (auto simp: duration_or_zero_def split: sum.splits)

lemma durationFromNanoseconds_range: "0 \<le> durationFromNanoseconds x \<and> durationFromNanoseconds x < 2 ^ 63"
proof (cases x)
  case (Fin a)
  then show ?thesis
    by (auto simp: durationFromNanoseconds_def f_trunc_def floor_less_iff)
qed (auto simp: durationFromNanoseconds_def f_le_def f_trunc_def)

lemma sample_value_bound: "sample_value fuel gm d r = Some (v, r') \<Longrightarrow> v < 2 ^ 63"
  using durationFromNanoseconds_range duration_or_zero_range
  by (auto simp: sample_value_def durationFromSeconds_def Let_def split: if_splits prod.splits)

lemma clamp_value_range:
  assumes "v < 2 ^ 63" "rbind (parseDurationOrZero (di_Min d)) (\<lambda>minimum. rbind (parseDurationOrZero (di_Max d)) (\<lambda>maximum.
        check (di_Min d \<noteq> [] \<and> di_Max d \<noteq> [] \<and> minimum > maximum) ''min cannot exceed max'')) = Inr ()"
  shows "0 \<le> clamp_value d v \<and> clamp_value d v < 2 ^ 63
    \<and> (di_Min d \<noteq> [] \<longrightarrow> duration_or_zero (di_Min d) \<le> clamp_value d v)
    \<and> (di_Max d \<noteq> [] \<longrightarrow> clamp_value d v \<le> duration_or_zero (di_Max d))"
proof -
  obtain lo hi where "parseDurationOrZero (di_Min d) = Inr lo" "parseDurationOrZero (di_Max d) = Inr hi"
    "\<not> (di_Min d \<noteq> [] \<and> di_Max d \<noteq> [] \<and> lo > hi)" using assms(2) by (auto simp: rbind_Inr_iff)
  then show ?thesis using assms(1) parseDurationOrZero_Inr [of "di_Min d" lo] parseDurationOrZero_Inr [of "di_Max d" hi]
    by (auto simp: clamp_value_def Let_def)
qed

text \<open>
  C31. For every accepted distribution, every source of draws and every implementation of the transcendental functions,
  a sample is a non-negative duration that fits an \<^verbatim>\<open>int64\<close> and lies between the configured minimum and maximum. The
  models without a rejection loop always produce one.
\<close>

theorem dist_Sample_range:
  assumes "dist_Validate gm optional d = Inr ()"
  shows "(\<forall>v r'. dist_Sample fuel gm d r = Some (v, r') \<longrightarrow> 0 \<le> v \<and> v < 2 ^ 63
      \<and> (di_Min d \<noteq> [] \<longrightarrow> ParseDuration (di_Min d) = Inr (duration_or_zero (di_Min d)) \<and> duration_or_zero (di_Min d) \<le> v)
      \<and> (di_Max d \<noteq> [] \<longrightarrow> ParseDuration (di_Max d) = Inr (duration_or_zero (di_Max d)) \<and> v \<le> duration_or_zero (di_Max d)))
    \<and> (di_Model d \<noteq> ''gamma'' \<and> di_Model d \<noteq> ''poisson'' \<longrightarrow> dist_Sample fuel gm d r \<noteq> None)"
proof (cases "di_Model d = []")
  case True
  then show ?thesis using assms by (auto simp: dist_Validate_def dist_Sample_def dist_is_zero_def split: if_splits)
next
  case False
  have lim: "rbind (parseDurationOrZero (di_Min d)) (\<lambda>minimum. rbind (parseDurationOrZero (di_Max d)) (\<lambda>maximum.
        check (di_Min d \<noteq> [] \<and> di_Max d \<noteq> [] \<and> minimum > maximum) ''min cannot exceed max'')) = Inr ()"
    using assms False by (auto simp: dist_Validate_def rbind_Inr_iff)
  have p: "ParseDuration s = Inr (duration_or_zero s)" if "parseDurationOrZero s = Inr x" "s \<noteq> []" for s x
    using that by (auto simp: parseDurationOrZero_def duration_or_zero_def split: sum.splits)
  have pm: "di_Min d \<noteq> [] \<longrightarrow> ParseDuration (di_Min d) = Inr (duration_or_zero (di_Min d))"
    "di_Max d \<noteq> [] \<longrightarrow> ParseDuration (di_Max d) = Inr (duration_or_zero (di_Max d))"
    using lim p by (auto simp: rbind_Inr_iff)
  have "dist_Sample fuel gm d r \<noteq> None" if "di_Model d \<noteq> ''gamma''" "di_Model d \<noteq> ''poisson''"
    using that False by (auto simp: dist_Sample_def sample_value_def Let_def split: prod.splits)
  moreover have "0 \<le> v \<and> v < 2 ^ 63 \<and> (di_Min d \<noteq> [] \<longrightarrow> duration_or_zero (di_Min d) \<le> v)
      \<and> (di_Max d \<noteq> [] \<longrightarrow> v \<le> duration_or_zero (di_Max d))" if smp: "dist_Sample fuel gm d r = Some (v, r')" for v r'
  proof -
    obtain x where "sample_value fuel gm d r = Some (x, r')" "v = clamp_value d x"
      using smp False by (auto simp: dist_Sample_def)
    then show ?thesis using clamp_value_range [OF sample_value_bound lim] by blast
  qed
  ultimately show ?thesis using pm by blast
qed

definition ex_dist :: Distribution where
  "ex_dist = \<lparr>di_Model = ''normal'', di_Value = [], di_Mean = ''50ms'', di_Sigma = ''10ms'', di_XM = [], di_Alpha = Fin 0,
     di_Beta = Fin 0, di_Scale = [], di_Mu = Fin 0, di_LogSigma = Fin 0, di_Min = ''5ms'', di_Max = ''1s''\<rparr>"

definition ex_math :: gomath where
  "ex_math = \<lparr>gm_Norm = (\<lambda>x. Fin (of_int x / 4)), gm_ExpDraw = (\<lambda>x. Fin 1), gm_Exp = (\<lambda>x. x), gm_Log = (\<lambda>x. x), gm_Sqrt = (\<lambda>x. x),
     gm_Pow = (\<lambda>x y. x), gm_Lgamma = (\<lambda>x. x), gm_ParseFloat = (\<lambda>s. Inl Panic)\<rparr>"

lemma ex_dist_ok: "dist_Validate ex_math False ex_dist = Inr ()"
  by (simp add: dist_Validate_def validate_model_def ex_dist_def parseDurationOrZero_def parse_literals Let_def)

theorem dist_Sample_range_witness:
  "dist_Sample 0 ex_math ex_dist \<lparr>tape = (\<lambda>_. 3), pos = 0\<rparr> \<noteq> None"
  using dist_Sample_range [OF ex_dist_ok] by (simp add: ex_dist_def)

end
