(* ===== verification/Network_Config.thy ===== *)
theory Network_Config
  imports Distribution Config_Base
begin

text \<open>
  \<^verbatim>\<open>internal/model/network.go\<close> and \<^verbatim>\<open>network_schedule.go\<close>: the network impairment of a peer, its schedule of
  changes, validation, merging and resolution to concrete values.

  \<^verbatim>\<open>NetworkConfig\<close> contains its schedule, whose changes contain \<^verbatim>\<open>NetworkConfig\<close>s: the plain fields are the record
  \<open>NetworkFields\<close> and the recursion is in the datatype.
\<close>

subsection \<open>Configuration\<close>

record TBFConfig =
  tbf_RateMbps :: f64
  tbf_BurstKbit :: f64
  tbf_Latency :: string

record NetworkFields =
  nf_Scope :: string
  nf_Delay :: string
  nf_DelayDistribution :: "Distribution option"
  nf_Jitter :: string
  nf_JitterDistribution :: string
  nf_LossPercent :: "f64 option"
  nf_DuplicatePercent :: "f64 option"
  nf_CorruptPercent :: "f64 option"
  nf_ReorderPercent :: "f64 option"
  nf_ReorderCorrelationPercent :: "f64 option"
  nf_RateMbps :: "f64 option"
  nf_TBF :: "TBFConfig option"
  nf_QueueLimit :: "int option"

datatype NetworkConfig = NetworkConfig (nc_fields: NetworkFields) (nc_Schedule: "NetworkSchedule option")
and NetworkSchedule = NetworkSchedule (ns_Reference: string) (ns_Changes: "NetworkChange list")
and NetworkChange = NetworkChange (nch_After: string) (nch_Set: NetworkConfig)

definition zero_network :: NetworkFields where
  "zero_network = \<lparr>nf_Scope = [], nf_Delay = [], nf_DelayDistribution = None, nf_Jitter = [], nf_JitterDistribution = [],
     nf_LossPercent = None, nf_DuplicatePercent = None, nf_CorruptPercent = None, nf_ReorderPercent = None,
     nf_ReorderCorrelationPercent = None, nf_RateMbps = None, nf_TBF = None, nf_QueueLimit = None\<rparr>"

subsection \<open>Validation of the fields\<close>

definition networkDuration :: "string \<Rightarrow> string \<Rightarrow> int result" where
  "networkDuration name value =
     (if value = [] then Inr 0
      else case ParseDuration value of
          Inl _ \<Rightarrow> Inl (Fail (name @ '' must be a non-negative Go duration''))
        | Inr d \<Rightarrow> if d < 0 then Inl (Fail (name @ '' must be a non-negative Go duration'')) else Inr d)"

definition networkPositiveFinite :: "f64 \<Rightarrow> bool" where
  "networkPositiveFinite value = (f_lt (Fin 0) value \<and> value \<noteq> NaN \<and> value \<noteq> PInf \<and> value \<noteq> NInf)"

definition check_percent :: "string \<times> f64 option \<Rightarrow> unit result" where
  "check_percent field =
     (case field of (name, value) \<Rightarrow>
        check (ptr_is (\<lambda>v. \<not> f_finite v \<or> f_lt v (Fin 0) \<or> f_lt (Fin 100) v) value)
          (name @ '' must be finite and between 0 and 100''))"

definition check_delay_distribution :: "gomath \<Rightarrow> NetworkFields \<Rightarrow> int \<Rightarrow> unit result" where
  "check_delay_distribution gm c jitter =
     (case nf_DelayDistribution c of None \<Rightarrow> Inr ()
      | Some dd \<Rightarrow>
          rbind (check (nf_Delay c \<noteq> []) ''delay and delayDistribution are mutually exclusive'') (\<lambda>_.
          rbind (wrap ''delayDistribution: '' (dist_Validate gm False dd)) (\<lambda>_.
          check ((jitter > 0 \<or> ptr_is (f_lt (Fin 0)) (nf_ReorderPercent c)) \<and> duration_or_zero (di_Min dd) \<le> 0)
            ''delayDistribution requires a positive min when jitter or reorderPercent is enabled'')))"

definition check_tbf :: "NetworkFields \<Rightarrow> unit result" where
  "check_tbf c =
     (case nf_TBF c of None \<Rightarrow> Inr ()
      | Some tbf \<Rightarrow>
          rbind (check (ptr_is (f_lt (Fin 0)) (nf_RateMbps c)) ''tbf and positive rateMbps are mutually exclusive'') (\<lambda>_.
          rbind (check (\<not> networkPositiveFinite (tbf_RateMbps tbf) \<or> \<not> networkPositiveFinite (tbf_BurstKbit tbf))
            ''tbf rateMbps and burstKbit must be positive and finite'') (\<lambda>_.
          rbind (networkDuration ''tbf latency'' (tbf_Latency tbf)) (\<lambda>latency.
          check (latency < 1000 \<or> latency > 4294967295 * 1000) ''tbf latency must be between 1us and the uint32 maximum''))))"

text \<open>\<^verbatim>\<open>NetworkConfig.Validate\<close> up to its last call, \<^verbatim>\<open>validateSchedule\<close>.\<close>

definition fields_Validate :: "gomath \<Rightarrow> NetworkFields \<Rightarrow> unit result" where
  "fields_Validate gm c =
     rbind (check (nf_Scope c \<noteq> [] \<and> nf_Scope c \<noteq> ''p2p'' \<and> nf_Scope c \<noteq> ''all'') ''scope must be p2p or all'') (\<lambda>_.
     rbind (check (nf_JitterDistribution c \<noteq> [] \<and> nf_JitterDistribution c \<noteq> ''uniform'' \<and> nf_JitterDistribution c \<noteq> ''normal''
         \<and> nf_JitterDistribution c \<noteq> ''pareto'' \<and> nf_JitterDistribution c \<noteq> ''paretonormal'')
       ''jitterDistribution must be uniform, normal, pareto, or paretonormal'') (\<lambda>_.
     rbind (networkDuration ''delay'' (nf_Delay c)) (\<lambda>delay.
     rbind (networkDuration ''jitter'' (nf_Jitter c)) (\<lambda>jitter.
     rbind (check (jitter > 2147483647) ''jitter must not exceed the Linux netem limit'') (\<lambda>_.
     rbind (check_delay_distribution gm c jitter) (\<lambda>_.
     rbind (check (jitter > 0 \<and> delay = 0 \<and> nf_DelayDistribution c = None) ''jitter requires a positive delay'') (\<lambda>_.
     rbind (check_all check_percent [(''lossPercent'', nf_LossPercent c), (''duplicatePercent'', nf_DuplicatePercent c),
         (''corruptPercent'', nf_CorruptPercent c), (''reorderPercent'', nf_ReorderPercent c),
         (''reorderCorrelationPercent'', nf_ReorderCorrelationPercent c)]) (\<lambda>_.
     rbind (check (ptr_is (f_lt (Fin 0)) (nf_ReorderPercent c) \<and> delay = 0 \<and> nf_DelayDistribution c = None)
       ''reorderPercent requires a positive delay'') (\<lambda>_.
     rbind (check (ptr_is (f_lt (Fin 0)) (nf_ReorderCorrelationPercent c)
         \<and> (nf_ReorderPercent c = None \<or> ptr_is (\<lambda>v. f_le v (Fin 0)) (nf_ReorderPercent c)))
       ''reorderCorrelationPercent requires a positive reorderPercent'') (\<lambda>_.
     rbind (check (ptr_is (\<lambda>v. \<not> f_finite v \<or> f_lt v (Fin 0)) (nf_RateMbps c))
       ''rateMbps must be finite and non-negative (0 disables the limit)'') (\<lambda>_.
     rbind (check_tbf c) (\<lambda>_.
     check (ptr_is (\<lambda>q. q \<le> 0 \<or> q > 4294967295) (nf_QueueLimit c)) ''queueLimit must be between 1 and the uint32 maximum''))))))))))))"

subsection \<open>Merging and schedules\<close>

text \<open>
  The network part of \<^verbatim>\<open>NodeConfig.Merge\<close>: switching between the delay and the shaper modes replaces the inherited
  alternative, then \<^verbatim>\<open>mergeNonZero\<close>.
\<close>

definition network_modes :: "NetworkFields \<Rightarrow> NetworkFields \<Rightarrow> NetworkFields" where
  "network_modes c overlay =
     (let c = (if nf_Delay overlay \<noteq> [] \<and> nf_DelayDistribution overlay = None then c\<lparr>nf_DelayDistribution := None\<rparr> else c);
          c = (if nf_DelayDistribution overlay \<noteq> None \<and> nf_Delay overlay = [] then c\<lparr>nf_Delay := []\<rparr> else c);
          c = (if nf_TBF overlay \<noteq> None \<and> nf_RateMbps overlay = None then c\<lparr>nf_RateMbps := None\<rparr> else c)
      in if nf_RateMbps overlay \<noteq> None \<and> nf_TBF overlay = None then c\<lparr>nf_TBF := None\<rparr> else c)"

definition merge_network_fields :: "NetworkFields \<Rightarrow> NetworkFields \<Rightarrow> NetworkFields" where
  "merge_network_fields c overlay =
     \<lparr>nf_Scope = merge_str (nf_Scope c) (nf_Scope overlay),
      nf_Delay = merge_str (nf_Delay c) (nf_Delay overlay),
      nf_DelayDistribution = merge_ptr (nf_DelayDistribution c) (nf_DelayDistribution overlay),
      nf_Jitter = merge_str (nf_Jitter c) (nf_Jitter overlay),
      nf_JitterDistribution = merge_str (nf_JitterDistribution c) (nf_JitterDistribution overlay),
      nf_LossPercent = merge_ptr (nf_LossPercent c) (nf_LossPercent overlay),
      nf_DuplicatePercent = merge_ptr (nf_DuplicatePercent c) (nf_DuplicatePercent overlay),
      nf_CorruptPercent = merge_ptr (nf_CorruptPercent c) (nf_CorruptPercent overlay),
      nf_ReorderPercent = merge_ptr (nf_ReorderPercent c) (nf_ReorderPercent overlay),
      nf_ReorderCorrelationPercent = merge_ptr (nf_ReorderCorrelationPercent c) (nf_ReorderCorrelationPercent overlay),
      nf_RateMbps = merge_ptr (nf_RateMbps c) (nf_RateMbps overlay),
      nf_TBF = merge_ptr (nf_TBF c) (nf_TBF overlay),
      nf_QueueLimit = merge_ptr (nf_QueueLimit c) (nf_QueueLimit overlay)\<rparr>"

definition network_Merge_fields :: "NetworkFields \<Rightarrow> NetworkFields \<Rightarrow> NetworkFields" where
  "network_Merge_fields c overlay = merge_network_fields (network_modes c overlay) overlay"

definition network_Merge :: "NetworkConfig \<Rightarrow> NetworkConfig \<Rightarrow> NetworkConfig" where
  "network_Merge c overlay =
     NetworkConfig (network_Merge_fields (nc_fields c) (nc_fields overlay)) (merge_ptr (nc_Schedule c) (nc_Schedule overlay))"

definition network_Initial :: "NetworkConfig \<Rightarrow> NetworkConfig" where
  "network_Initial c = NetworkConfig (nc_fields c) None"

definition network_Scheduled :: "NetworkConfig \<Rightarrow> bool" where
  "network_Scheduled c = (case nc_Schedule c of None \<Rightarrow> False | Some s \<Rightarrow> ns_Changes s \<noteq> [])"

definition schedule_Clock :: "NetworkSchedule option \<Rightarrow> string" where
  "schedule_Clock s =
     (case s of None \<Rightarrow> ''peer-join'' | Some s \<Rightarrow> if ns_Reference s = [] then ''peer-join'' else ns_Reference s)"

text \<open>
  The loop of \<^verbatim>\<open>validateSchedule\<close>: \<open>previous\<close> is the time of the change before, if there is one. \<open>current\<close> has no
  schedule (it starts as \<^verbatim>\<open>c.Initial()\<close> and a change with a schedule is refused), so \<^verbatim>\<open>current.Validate()\<close> is the
  validation of its fields.
\<close>

fun schedule_loop :: "gomath \<Rightarrow> NetworkChange list \<Rightarrow> NetworkFields \<Rightarrow> int option \<Rightarrow> unit result" where
  "schedule_loop gm [] current previous = Inr ()"
| "schedule_loop gm (change # changes) current previous =
     (case ParseDuration (nch_After change) of
        Inl _ \<Rightarrow> Inl (Fail ''schedule.changes.after must be a non-negative Go duration'')
      | Inr after \<Rightarrow>
          rbind (check (after < 0) ''schedule.changes.after must be a non-negative Go duration'') (\<lambda>_.
          rbind (check (ptr_is (\<lambda>p. after \<le> p) previous) ''schedule.changes after times must be strictly increasing'') (\<lambda>_.
          rbind (check (nc_Schedule (nch_Set change) \<noteq> None) ''schedule.changes.set cannot contain another schedule'') (\<lambda>_.
          let current = network_Merge_fields current (nc_fields (nch_Set change)) in
          rbind (wrap ''schedule.changes.set: '' (fields_Validate gm current)) (\<lambda>_.
          schedule_loop gm changes current (Some after))))))"

definition validateSchedule :: "gomath \<Rightarrow> NetworkConfig \<Rightarrow> unit result" where
  "validateSchedule gm c =
     (case nc_Schedule c of None \<Rightarrow> Inr ()
      | Some s \<Rightarrow>
          rbind (check (schedule_Clock (Some s) \<noteq> ''peer-join'' \<and> schedule_Clock (Some s) \<noteq> ''experiment-start'')
            ''schedule.reference must be peer-join or experiment-start'') (\<lambda>_.
          rbind (check (length (ns_Changes s) > 128) ''schedule supports at most 128 changes'') (\<lambda>_.
          schedule_loop gm (ns_Changes s) (nc_fields c) None)))"

definition network_Validate :: "gomath \<Rightarrow> NetworkConfig \<Rightarrow> unit result" where
  "network_Validate gm c = rbind (fields_Validate gm (nc_fields c)) (\<lambda>_. validateSchedule gm c)"

lemma network_Validate_flat: "nc_Schedule c = None \<Longrightarrow> network_Validate gm c = fields_Validate gm (nc_fields c)"
  by (auto simp: network_Validate_def validateSchedule_def rbind_def split: sum.splits)

subsection \<open>Resolution\<close>

text \<open>
  \<open>None\<close>: the sampler still rejects draws when the fuel is used up. A missing random source is \<open>None\<close> as well, in
  the argument. \<open>resolve_flat\<close> is \<^verbatim>\<open>Resolve\<close> of a configuration without schedule.
\<close>

type_synonym 'a sampled = "('a \<times> rng option) result option"

definition resolve_flat :: "nat \<Rightarrow> gomath \<Rightarrow> NetworkFields \<Rightarrow> rng option \<Rightarrow> NetworkFields sampled" where
  "resolve_flat fuel gm c r =
     (case fields_Validate gm c of Inl e \<Rightarrow> Some (Inl e)
      | Inr _ \<Rightarrow>
          (case nf_DelayDistribution c of None \<Rightarrow> Some (Inr (c, r))
           | Some dd \<Rightarrow>
               (case r of None \<Rightarrow> Some (Inl (Fail ''delayDistribution requires a random source''))
                | Some r \<Rightarrow>
                    (case dist_Sample fuel gm dd r of None \<Rightarrow> None
                     | Some (v, r') \<Rightarrow>
                         let c' = c\<lparr>nf_Delay := Duration_String v, nf_DelayDistribution := None\<rparr>
                         in Some (rbind (fields_Validate gm c') (\<lambda>_. Inr (c', Some r')))))))"

fun resolve_changes ::
    "nat \<Rightarrow> gomath \<Rightarrow> NetworkChange list \<Rightarrow> NetworkFields \<Rightarrow> rng option \<Rightarrow> NetworkChange list sampled" where
  "resolve_changes fuel gm [] current r = Some (Inr ([], r))"
| "resolve_changes fuel gm (change # changes) current r =
     (case resolve_flat fuel gm (network_Merge_fields current (nc_fields (nch_Set change))) r of
        None \<Rightarrow> None
      | Some (Inl e) \<Rightarrow> Some (wrap ''schedule.changes: '' (Inl e))
      | Some (Inr (current, r)) \<Rightarrow>
          (case resolve_changes fuel gm changes current r of None \<Rightarrow> None
           | Some (Inl e) \<Rightarrow> Some (Inl e)
           | Some (Inr (plan, r)) \<Rightarrow>
               Some (Inr (NetworkChange (nch_After change) (NetworkConfig current None) # plan, r))))"

definition resolveSchedule :: "nat \<Rightarrow> gomath \<Rightarrow> NetworkConfig \<Rightarrow> NetworkSchedule \<Rightarrow> rng option \<Rightarrow> NetworkConfig sampled" where
  "resolveSchedule fuel gm c s r =
     (case resolve_flat fuel gm (nc_fields c) r of
        None \<Rightarrow> None
      | Some (Inl e) \<Rightarrow> Some (Inl e)
      | Some (Inr (initial, r)) \<Rightarrow>
          (case resolve_changes fuel gm (ns_Changes s) initial r of None \<Rightarrow> None
           | Some (Inl e) \<Rightarrow> Some (Inl e)
           | Some (Inr (plan, r)) \<Rightarrow>
               Some (Inr (NetworkConfig initial (Some (NetworkSchedule (schedule_Clock (Some s)) plan)), r))))"

definition network_Resolve :: "nat \<Rightarrow> gomath \<Rightarrow> NetworkConfig \<Rightarrow> rng option \<Rightarrow> NetworkConfig sampled" where
  "network_Resolve fuel gm c r =
     (case network_Validate gm c of Inl e \<Rightarrow> Some (Inl e)
      | Inr _ \<Rightarrow>
          (case nc_Schedule c of
             Some s \<Rightarrow> resolveSchedule fuel gm c s r
           | None \<Rightarrow> map_option (\<lambda>m. rbind m (\<lambda>(f, r). Inr (NetworkConfig f None, r))) (resolve_flat fuel gm (nc_fields c) r)))"

subsection \<open>Enabled\<close>

definition fields_Enabled :: "NetworkFields \<Rightarrow> bool" where
  "fields_Enabled c =
     (duration_or_zero (nf_Delay c) \<noteq> 0 \<or> duration_or_zero (nf_Jitter c) \<noteq> 0 \<or> nf_QueueLimit c \<noteq> None
      \<or> nf_DelayDistribution c \<noteq> None \<or> nf_TBF c \<noteq> None
      \<or> list_ex (ptr_is (\<lambda>v. \<not> f_eq v (Fin 0)))
          [nf_LossPercent c, nf_DuplicatePercent c, nf_CorruptPercent c, nf_ReorderPercent c, nf_RateMbps c])"

fun enabled_changes :: "NetworkChange list \<Rightarrow> NetworkFields \<Rightarrow> bool" where
  "enabled_changes [] current = False"
| "enabled_changes (change # changes) current =
     (let current = network_Merge_fields current (nc_fields (nch_Set change))
      in fields_Enabled current \<or> enabled_changes changes current)"

definition network_Enabled :: "NetworkConfig \<Rightarrow> bool" where
  "network_Enabled c =
     ((case nc_Schedule c of None \<Rightarrow> False | Some s \<Rightarrow> enabled_changes (ns_Changes s) (nc_fields c)) \<or> fields_Enabled (nc_fields c))"

end
