(* ===== verification/Score_Config.thy ===== *)
theory Score_Config
  imports Config_Base
begin

text \<open>
  \<^verbatim>\<open>internal/model/score_config.go\<close>: the peer score parameters, their defaults and their validation, with what every
  accepted configuration guarantees to the router.
\<close>

subsection \<open>Configuration\<close>

record PeerScoreThresholdsConfig =
  th_SkipAtomicValidation :: bool
  th_GossipThreshold :: f64
  th_PublishThreshold :: f64
  th_GraylistThreshold :: f64
  th_AcceptPXThreshold :: f64
  th_OpportunisticGraftThreshold :: f64

record TopicScoreConfig =
  ts_SkipAtomicValidation :: bool
  ts_TopicWeight :: f64
  ts_TimeInMeshWeight :: f64
  ts_TimeInMeshQuantum :: string
  ts_TimeInMeshCap :: f64
  ts_FirstMessageDeliveriesWeight :: f64
  ts_FirstMessageDeliveriesDecay :: f64
  ts_FirstMessageDeliveriesCap :: f64
  ts_MeshMessageDeliveriesWeight :: f64
  ts_MeshMessageDeliveriesDecay :: f64
  ts_MeshMessageDeliveriesThreshold :: f64
  ts_MeshMessageDeliveriesCap :: f64
  ts_MeshMessageDeliveriesActivation :: string
  ts_MeshMessageDeliveriesWindow :: string
  ts_MeshFailurePenaltyWeight :: f64
  ts_MeshFailurePenaltyDecay :: f64
  ts_InvalidMessageDeliveriesWeight :: f64
  ts_InvalidMessageDeliveriesDecay :: f64

record AppSpecificScoreConfig =
  as_Default :: f64
  as_Peers :: "(string \<times> f64) list"

record PeerScoreConfig =
  ps_Enabled :: "bool option"
  ps_SkipAtomicValidation :: bool
  ps_TopicScoreCap :: f64
  ps_AppSpecificScore :: "AppSpecificScoreConfig option"
  ps_AppSpecificWeight :: f64
  ps_IPColocationFactorWeight :: f64
  ps_IPColocationFactorThreshold :: int
  ps_IPColocationFactorWhitelist :: "string list"
  ps_BehaviourPenaltyWeight :: f64
  ps_BehaviourPenaltyThreshold :: f64
  ps_BehaviourPenaltyDecay :: f64
  ps_DecayInterval :: string
  ps_DecayToZero :: f64
  ps_RetainScore :: string
  ps_SeenMessageTTL :: string
  ps_Thresholds :: PeerScoreThresholdsConfig
  ps_Topics :: "(string \<times> TopicScoreConfig) list"

definition score_IsEnabled :: "PeerScoreConfig \<Rightarrow> bool" where
  "score_IsEnabled c = ptr_is (\<lambda>b. b) (ps_Enabled c)"

text \<open>\<^verbatim>\<open>x == 0\<close> and \<^verbatim>\<open>x != 0\<close> on floats.\<close>

abbreviation f_zero :: "f64 \<Rightarrow> bool" where "f_zero x \<equiv> f_eq x (Fin 0)"

definition topic_defaults :: "bool \<Rightarrow> TopicScoreConfig \<Rightarrow> TopicScoreConfig" where
  "topic_defaults enabled params =
     (if enabled \<and> ts_SkipAtomicValidation params \<and> ts_TimeInMeshQuantum params = [] \<and> f_zero (ts_TimeInMeshWeight params)
         \<and> f_zero (ts_TimeInMeshCap params)
      then params\<lparr>ts_TimeInMeshQuantum := ''1s''\<rparr> else params)"

text \<open>The copies that \<^verbatim>\<open>WithDefaults\<close> makes of pointers, slices and maps do not change a value.\<close>

definition score_WithDefaults :: "PeerScoreConfig \<Rightarrow> PeerScoreConfig" where
  "score_WithDefaults c =
     (let c = (if score_IsEnabled c \<and> ps_SkipAtomicValidation c \<and> ps_DecayInterval c = [] \<and> f_zero (ps_DecayToZero c)
               then c\<lparr>ps_DecayInterval := ''1s'', ps_DecayToZero := f64_round (1 / 100)\<rparr> else c)
      in c\<lparr>ps_Topics := map (\<lambda>(topic, params). (topic, topic_defaults (score_IsEnabled c) params)) (ps_Topics c)\<rparr>)"

subsection \<open>Validation\<close>

definition scoreDuration :: "string \<Rightarrow> string \<Rightarrow> int result" where
  "scoreDuration name raw = (if raw = [] then Inr 0 else wrap (name @ '': '') (ParseDuration raw))"

definition check_score_duration :: "string \<times> string \<Rightarrow> unit result" where
  "check_score_duration field =
     (case field of (name, raw) \<Rightarrow>
        rbind (scoreDuration name raw) (\<lambda>value. check (value < 0) (name @ '' cannot be negative'')))"

definition finiteScoreValues :: "(string \<times> f64) list \<Rightarrow> unit result" where
  "finiteScoreValues values = check_all (\<lambda>(name, value). check (\<not> validNumber value) (name @ '' must be finite'')) values"

text \<open>The loop over the peers of the application score; \<open>seen\<close> holds the decoded identifiers.\<close>

fun app_peers :: "golib \<Rightarrow> f64 \<Rightarrow> (string \<times> f64) list \<Rightarrow> string list \<Rightarrow> unit result" where
  "app_peers lb weight [] seen = Inr ()"
| "app_peers lb weight ((raw, score) # peers) seen =
     (case lb_Decode lb raw of
        None \<Rightarrow> Inl (Fail ''appSpecificScore peers key is not a valid peer ID'')
      | Some pid \<Rightarrow>
          rbind (check (pid \<in> set seen) ''appSpecificScore peers keys identify the same peer'') (\<lambda>_.
          rbind (check (\<not> validNumber score \<or> \<not> validNumber (f_mul score weight))
            ''appSpecificScore peer and its weighted value must be finite'') (\<lambda>_.
          app_peers lb weight peers (pid # seen))))"

definition app_validate :: "golib \<Rightarrow> AppSpecificScoreConfig \<Rightarrow> f64 \<Rightarrow> unit result" where
  "app_validate lb c weight =
     rbind (check (\<not> validNumber (as_Default c) \<or> \<not> validNumber (f_mul (as_Default c) weight))
       ''appSpecificScore default and its weighted value must be finite'') (\<lambda>_.
     app_peers lb weight (as_Peers c) [])"

definition topic_validateSyntax :: "TopicScoreConfig \<Rightarrow> unit result" where
  "topic_validateSyntax c =
     rbind (finiteScoreValues [(''topicWeight'', ts_TopicWeight c), (''timeInMeshWeight'', ts_TimeInMeshWeight c),
       (''timeInMeshCap'', ts_TimeInMeshCap c), (''firstMessageDeliveriesWeight'', ts_FirstMessageDeliveriesWeight c),
       (''firstMessageDeliveriesDecay'', ts_FirstMessageDeliveriesDecay c), (''firstMessageDeliveriesCap'', ts_FirstMessageDeliveriesCap c),
       (''meshMessageDeliveriesWeight'', ts_MeshMessageDeliveriesWeight c), (''meshMessageDeliveriesDecay'', ts_MeshMessageDeliveriesDecay c),
       (''meshMessageDeliveriesThreshold'', ts_MeshMessageDeliveriesThreshold c), (''meshMessageDeliveriesCap'', ts_MeshMessageDeliveriesCap c),
       (''meshFailurePenaltyWeight'', ts_MeshFailurePenaltyWeight c), (''meshFailurePenaltyDecay'', ts_MeshFailurePenaltyDecay c),
       (''invalidMessageDeliveriesWeight'', ts_InvalidMessageDeliveriesWeight c),
       (''invalidMessageDeliveriesDecay'', ts_InvalidMessageDeliveriesDecay c)]) (\<lambda>_.
     check_all check_score_duration [(''timeInMeshQuantum'', ts_TimeInMeshQuantum c),
       (''meshMessageDeliveriesActivation'', ts_MeshMessageDeliveriesActivation c),
       (''meshMessageDeliveriesWindow'', ts_MeshMessageDeliveriesWindow c)])"

definition check_cidrs :: "golib \<Rightarrow> PeerScoreConfig \<Rightarrow> unit result" where
  "check_cidrs lb c = check_all (\<lambda>raw. check (\<not> lb_ParseCIDR lb raw) ''invalid ipColocationFactorWhitelist entry'') (ps_IPColocationFactorWhitelist c)"

definition check_topics :: "(TopicScoreConfig \<Rightarrow> unit result) \<Rightarrow> PeerScoreConfig \<Rightarrow> unit result" where
  "check_topics f c = check_all (\<lambda>(topic, params).
     rbind (check (TrimSpace topic = []) ''score topic name cannot be empty'') (\<lambda>_. wrap ''topic: '' (f params))) (ps_Topics c)"

definition score_validateSyntax :: "golib \<Rightarrow> PeerScoreConfig \<Rightarrow> unit result" where
  "score_validateSyntax lb c =
     rbind (finiteScoreValues [(''topicScoreCap'', ps_TopicScoreCap c), (''appSpecificWeight'', ps_AppSpecificWeight c),
       (''ipColocationFactorWeight'', ps_IPColocationFactorWeight c), (''behaviourPenaltyWeight'', ps_BehaviourPenaltyWeight c),
       (''behaviourPenaltyThreshold'', ps_BehaviourPenaltyThreshold c), (''behaviourPenaltyDecay'', ps_BehaviourPenaltyDecay c),
       (''decayToZero'', ps_DecayToZero c)]) (\<lambda>_.
     rbind (case ps_AppSpecificScore c of None \<Rightarrow> Inr ()
       | Some app \<Rightarrow> app_validate lb app (if score_IsEnabled c then ps_AppSpecificWeight c else Fin 0)) (\<lambda>_.
     rbind (finiteScoreValues [(''thresholds.gossipThreshold'', th_GossipThreshold (ps_Thresholds c)),
       (''thresholds.publishThreshold'', th_PublishThreshold (ps_Thresholds c)),
       (''thresholds.graylistThreshold'', th_GraylistThreshold (ps_Thresholds c)),
       (''thresholds.acceptPXThreshold'', th_AcceptPXThreshold (ps_Thresholds c)),
       (''thresholds.opportunisticGraftThreshold'', th_OpportunisticGraftThreshold (ps_Thresholds c))]) (\<lambda>_.
     rbind (check_all check_score_duration [(''decayInterval'', ps_DecayInterval c), (''retainScore'', ps_RetainScore c),
       (''seenMessageTTL'', ps_SeenMessageTTL c)]) (\<lambda>_.
     rbind (check_cidrs lb c) (\<lambda>_.
     check_topics topic_validateSyntax c)))))"

definition thresholds_validate :: "PeerScoreThresholdsConfig \<Rightarrow> unit result" where
  "thresholds_validate c =
     rbind (if \<not> th_SkipAtomicValidation c \<or> \<not> f_zero (th_PublishThreshold c) \<or> \<not> f_zero (th_GossipThreshold c)
               \<or> \<not> f_zero (th_GraylistThreshold c) then
         rbind (check (\<not> validNumber (th_GossipThreshold c) \<or> f_lt (Fin 0) (th_GossipThreshold c)) ''gossipThreshold must be finite and non-positive'') (\<lambda>_.
         rbind (check (\<not> validNumber (th_PublishThreshold c) \<or> f_lt (th_GossipThreshold c) (th_PublishThreshold c))
           ''publishThreshold must be finite and <= gossipThreshold'') (\<lambda>_.
         check (\<not> validNumber (th_GraylistThreshold c) \<or> f_lt (th_PublishThreshold c) (th_GraylistThreshold c))
           ''graylistThreshold must be finite and <= publishThreshold''))
       else Inr ()) (\<lambda>_.
     rbind (check ((\<not> th_SkipAtomicValidation c \<or> \<not> f_zero (th_AcceptPXThreshold c))
         \<and> (\<not> validNumber (th_AcceptPXThreshold c) \<or> f_lt (th_AcceptPXThreshold c) (Fin 0)))
       ''acceptPXThreshold must be finite and non-negative'') (\<lambda>_.
     check ((\<not> th_SkipAtomicValidation c \<or> \<not> f_zero (th_OpportunisticGraftThreshold c))
         \<and> (\<not> validNumber (th_OpportunisticGraftThreshold c) \<or> f_lt (th_OpportunisticGraftThreshold c) (Fin 0)))
       ''opportunisticGraftThreshold must be finite and non-negative''))"

definition positive_finite :: "f64 \<Rightarrow> bool" where
  "positive_finite value = (validNumber value \<and> f_lt (Fin 0) value)"

text \<open>The groups of \<^verbatim>\<open>TopicScoreConfig.validate\<close>, in order.\<close>

definition topic_time_in_mesh :: "TopicScoreConfig \<Rightarrow> int \<Rightarrow> unit result" where
  "topic_time_in_mesh c quantum =
     (if \<not> ts_SkipAtomicValidation c \<or> \<not> f_zero (ts_TimeInMeshWeight c) \<or> quantum \<noteq> 0 \<or> \<not> f_zero (ts_TimeInMeshCap c) then
        rbind (check (\<not> validNumber (ts_TimeInMeshWeight c) \<or> f_lt (ts_TimeInMeshWeight c) (Fin 0)) ''timeInMeshWeight must be finite and non-negative'') (\<lambda>_.
        check (\<not> f_zero (ts_TimeInMeshWeight c) \<and> (quantum < 0 \<or> \<not> positive_finite (ts_TimeInMeshCap c)))
          ''enabled time-in-mesh scoring requires a positive quantum and cap'')
      else Inr ())"

definition topic_first_message :: "TopicScoreConfig \<Rightarrow> unit result" where
  "topic_first_message c =
     (if \<not> ts_SkipAtomicValidation c \<or> \<not> f_zero (ts_FirstMessageDeliveriesWeight c) \<or> \<not> f_zero (ts_FirstMessageDeliveriesDecay c)
         \<or> \<not> f_zero (ts_FirstMessageDeliveriesCap c) then
        rbind (check (\<not> validNumber (ts_FirstMessageDeliveriesWeight c) \<or> f_lt (ts_FirstMessageDeliveriesWeight c) (Fin 0))
          ''firstMessageDeliveriesWeight must be finite and non-negative'') (\<lambda>_.
        check (\<not> f_zero (ts_FirstMessageDeliveriesWeight c) \<and> (\<not> validDecay (ts_FirstMessageDeliveriesDecay c)
            \<or> \<not> positive_finite (ts_FirstMessageDeliveriesCap c)))
          ''enabled first-message scoring requires decay in (0,1) and a positive cap'')
      else Inr ())"

definition topic_mesh_message :: "TopicScoreConfig \<Rightarrow> int \<Rightarrow> int \<Rightarrow> unit result" where
  "topic_mesh_message c meshActivation meshWindow =
     (if \<not> ts_SkipAtomicValidation c \<or> \<not> f_zero (ts_MeshMessageDeliveriesWeight c) \<or> \<not> f_zero (ts_MeshMessageDeliveriesDecay c)
         \<or> \<not> f_zero (ts_MeshMessageDeliveriesThreshold c) \<or> \<not> f_zero (ts_MeshMessageDeliveriesCap c)
         \<or> meshActivation \<noteq> 0 \<or> meshWindow \<noteq> 0 then
        rbind (check (\<not> validNumber (ts_MeshMessageDeliveriesWeight c) \<or> f_lt (Fin 0) (ts_MeshMessageDeliveriesWeight c))
          ''meshMessageDeliveriesWeight must be finite and non-positive'') (\<lambda>_.
        rbind (check (meshWindow < 0) ''meshMessageDeliveriesWindow cannot be negative'') (\<lambda>_.
        check (\<not> f_zero (ts_MeshMessageDeliveriesWeight c) \<and> (\<not> validDecay (ts_MeshMessageDeliveriesDecay c)
            \<or> \<not> positive_finite (ts_MeshMessageDeliveriesThreshold c) \<or> \<not> positive_finite (ts_MeshMessageDeliveriesCap c)
            \<or> meshActivation < 1000000000))
          ''enabled mesh-message scoring requires decay in (0,1), positive threshold/cap, and activation >= 1s''))
      else Inr ())"

definition topic_mesh_failure :: "TopicScoreConfig \<Rightarrow> unit result" where
  "topic_mesh_failure c =
     (if \<not> ts_SkipAtomicValidation c \<or> \<not> f_zero (ts_MeshFailurePenaltyWeight c) \<or> \<not> f_zero (ts_MeshFailurePenaltyDecay c) then
        rbind (check (\<not> validNumber (ts_MeshFailurePenaltyWeight c) \<or> f_lt (Fin 0) (ts_MeshFailurePenaltyWeight c))
          ''meshFailurePenaltyWeight must be finite and non-positive'') (\<lambda>_.
        check (\<not> f_zero (ts_MeshFailurePenaltyWeight c) \<and> \<not> validDecay (ts_MeshFailurePenaltyDecay c))
          ''enabled mesh-failure scoring requires decay in (0,1)'')
      else Inr ())"

definition topic_invalid_message :: "TopicScoreConfig \<Rightarrow> unit result" where
  "topic_invalid_message c =
     (if \<not> ts_SkipAtomicValidation c \<or> \<not> f_zero (ts_InvalidMessageDeliveriesWeight c) \<or> \<not> f_zero (ts_InvalidMessageDeliveriesDecay c) then
        rbind (check (\<not> validNumber (ts_InvalidMessageDeliveriesWeight c) \<or> f_lt (Fin 0) (ts_InvalidMessageDeliveriesWeight c))
          ''invalidMessageDeliveriesWeight must be finite and non-positive'') (\<lambda>_.
        check (\<not> validDecay (ts_InvalidMessageDeliveriesDecay c)) ''invalidMessageDeliveriesDecay must be between 0 and 1'')
      else Inr ())"

definition topic_validate :: "TopicScoreConfig \<Rightarrow> unit result" where
  "topic_validate c =
     rbind (topic_validateSyntax c) (\<lambda>_.
     rbind (check (\<not> validNumber (ts_TopicWeight c) \<or> f_lt (ts_TopicWeight c) (Fin 0)) ''topicWeight must be finite and non-negative'') (\<lambda>_.
     rbind (scoreDuration ''timeInMeshQuantum'' (ts_TimeInMeshQuantum c)) (\<lambda>quantum.
     rbind (check (quantum \<le> 0) ''timeInMeshQuantum must be positive'') (\<lambda>_.
     rbind (topic_time_in_mesh c quantum) (\<lambda>_.
     rbind (topic_first_message c) (\<lambda>_.
     rbind (scoreDuration ''meshMessageDeliveriesActivation'' (ts_MeshMessageDeliveriesActivation c)) (\<lambda>meshActivation.
     rbind (scoreDuration ''meshMessageDeliveriesWindow'' (ts_MeshMessageDeliveriesWindow c)) (\<lambda>meshWindow.
     rbind (topic_mesh_message c meshActivation meshWindow) (\<lambda>_.
     rbind (topic_mesh_failure c) (\<lambda>_.
     topic_invalid_message c))))))))))"

definition score_weights :: "golib \<Rightarrow> PeerScoreConfig \<Rightarrow> unit result" where
  "score_weights lb c =
     rbind (check (\<not> validNumber (ps_TopicScoreCap c) \<or> f_lt (ps_TopicScoreCap c) (Fin 0)) ''topicScoreCap must be finite and non-negative'') (\<lambda>_.
     rbind (check (\<not> validNumber (ps_AppSpecificWeight c)) ''appSpecificWeight must be finite'') (\<lambda>_.
     rbind (check (\<not> f_zero (ps_AppSpecificWeight c) \<and> ps_AppSpecificScore c = None) ''appSpecificWeight requires appSpecificScore'') (\<lambda>_.
     rbind (if \<not> ps_SkipAtomicValidation c \<or> \<not> f_zero (ps_IPColocationFactorWeight c) then
         rbind (check (\<not> validNumber (ps_IPColocationFactorWeight c) \<or> f_lt (Fin 0) (ps_IPColocationFactorWeight c))
           ''ipColocationFactorWeight must be finite and non-positive'') (\<lambda>_.
         check (\<not> f_zero (ps_IPColocationFactorWeight c) \<and> ps_IPColocationFactorThreshold c < 1)
           ''ipColocationFactorThreshold must be at least 1 when its weight is enabled'')
       else Inr ()) (\<lambda>_.
     rbind (check_cidrs lb c) (\<lambda>_.
     if \<not> ps_SkipAtomicValidation c \<or> \<not> f_zero (ps_BehaviourPenaltyWeight c) \<or> \<not> f_zero (ps_BehaviourPenaltyThreshold c) then
         rbind (check (\<not> validNumber (ps_BehaviourPenaltyWeight c) \<or> f_lt (Fin 0) (ps_BehaviourPenaltyWeight c))
           ''behaviourPenaltyWeight must be finite and non-positive'') (\<lambda>_.
         rbind (check (\<not> f_zero (ps_BehaviourPenaltyWeight c) \<and> \<not> validDecay (ps_BehaviourPenaltyDecay c))
           ''behaviourPenaltyDecay must be between 0 and 1 when its weight is enabled'') (\<lambda>_.
         check (\<not> validNumber (ps_BehaviourPenaltyThreshold c) \<or> f_lt (ps_BehaviourPenaltyThreshold c) (Fin 0))
           ''behaviourPenaltyThreshold must be finite and non-negative''))
     else Inr ())))))"

definition score_validate :: "golib \<Rightarrow> PeerScoreConfig \<Rightarrow> unit result" where
  "score_validate lb c =
     (let c = score_WithDefaults c in
      rbind (score_validateSyntax lb c) (\<lambda>_.
      if \<not> score_IsEnabled c then Inr ()
      else
        rbind (score_weights lb c) (\<lambda>_.
        rbind (scoreDuration ''decayInterval'' (ps_DecayInterval c)) (\<lambda>decayInterval.
        rbind (check (decayInterval < 1000000000) ''decayInterval must be at least 1s'') (\<lambda>_.
        rbind (check (\<not> validDecay (ps_DecayToZero c)) ''decayToZero must be between 0 and 1'') (\<lambda>_.
        rbind (check_all check_score_duration [(''retainScore'', ps_RetainScore c), (''seenMessageTTL'', ps_SeenMessageTTL c)]) (\<lambda>_.
        rbind (wrap ''thresholds: '' (thresholds_validate (ps_Thresholds c))) (\<lambda>_.
        check_topics topic_validate c))))))))"

end
