(* ===== verification/Gossipsub_Config.thy ===== *)
theory Gossipsub_Config
  imports Score_Config
begin

text \<open>
  \<^verbatim>\<open>internal/model/gossipsub_config.go\<close>, \<^verbatim>\<open>gossipsub_policies.go\<close> and \<^verbatim>\<open>gossipsub_validation.go\<close>: the PubSub
  configuration, its declarative callback policies and their validation.
\<close>

subsection \<open>Policies\<close>

record PubSubValidatorConfig =
  va_BasicSeqno :: bool
  va_Result :: string
  va_FailureResult :: string
  va_MinBytes :: "int option"
  va_MaxBytes :: "int option"
  va_Pattern :: string
  va_Format :: string
  va_Delay :: string
  va_Timeout :: string
  va_Concurrency :: "int option"
  va_Inline :: "bool option"
  va_UseValidatorData :: bool

record PubSubTopicConfig =
  to_MessageID :: string
  to_SubscriptionBufferSize :: "int option"
  to_Validator :: "PubSubValidatorConfig option"

record PubSubPeerRule =
  pr_Allow :: "string list"
  pr_Deny :: "string list"

record PubSubPeerFilterConfig =
  pf_Allow :: "string list"
  pf_Deny :: "string list"
  pf_Topics :: "(string \<times> PubSubPeerRule) list"

record PubSubSubscriptionFilterConfig =
  sf_Allowlist :: "string list"
  sf_Pattern :: string
  sf_MaxSubscriptions :: "int option"

record PubSubProtocolConfig =
  pp_ID :: string
  pp_Features :: "string list"

record PubSubBlacklistConfig =
  bl_Peers :: "string list"
  bl_TTL :: string

record PubSubRPCInspectorConfig =
  ri_MaxMessages :: "int option"
  ri_MaxSubscriptions :: "int option"
  ri_MaxControlEntries :: "int option"
  ri_MaxMessageIDs :: "int option"
  ri_MaxBytes :: "int option"
  ri_RejectPeers :: "string list"

record PubSubDiscoveryConnectorConfig =
  dc_CacheSize :: "int option"
  dc_DialTimeout :: string
  dc_MinBackoff :: string
  dc_MaxBackoff :: string
  dc_TimeUnit :: string
  dc_Base :: "f64 option"
  dc_Offset :: string
  dc_Jitter :: string
  dc_Seed :: "int option"

record PubSubDiscoveryConfig =
  ds_Mode :: string
  ds_TTL :: string
  ds_Limit :: "int option"
  ds_Connector :: "PubSubDiscoveryConnectorConfig option"

record PubSubAuthorConfig =
  au_PeerID :: string
  au_PrivateKey :: string
  au_NoAuthor :: bool

text \<open>A value of type \<^verbatim>\<open>any\<close>, as far as the code looks at it.\<close>

datatype any_value = AnyString string | AnyOther

record PubSubPublishConfig =
  pu_ReadinessMinPeers :: "int option"
  pu_ReadinessTimeout :: string
  pu_Local :: "bool option"
  pu_ValidatorData :: "(string \<times> any_value) list"
  pu_Author :: "PubSubAuthorConfig option"

record PeerGaterConfig =
  pg_Threshold :: "f64 option"
  pg_GlobalDecay :: "f64 option"
  pg_SourceDecay :: "f64 option"
  pg_DecayInterval :: string
  pg_DecayToZero :: "f64 option"
  pg_RetainStats :: string
  pg_Quiet :: string
  pg_DuplicateWeight :: "f64 option"
  pg_IgnoreWeight :: "f64 option"
  pg_RejectWeight :: "f64 option"
  pg_TopicDeliveryWeights :: "(string \<times> f64) list"

subsection \<open>Configuration\<close>

record GossipSubParamsConfig =
  gp_D :: "int option"
  gp_DLow :: "int option"
  gp_DHigh :: "int option"
  gp_DScore :: "int option"
  gp_DOut :: "int option"
  gp_DLazy :: "int option"
  gp_HistoryLength :: "int option"
  gp_HistoryGossip :: "int option"
  gp_GossipFactor :: "f64 option"
  gp_GossipRetransmission :: "int option"
  gp_HeartbeatInitialDelay :: string
  gp_HeartbeatInterval :: string
  gp_SlowHeartbeatWarning :: "f64 option"
  gp_FanoutTTL :: string
  gp_PrunePeers :: "int option"
  gp_PruneBackoff :: string
  gp_UnsubscribeBackoff :: string
  gp_Connectors :: "int option"
  gp_MaxPendingConnections :: "int option"
  gp_ConnectionTimeout :: string
  gp_DirectConnectTicks :: "int option"
  gp_DirectConnectInitialDelay :: string
  gp_OpportunisticGraftTicks :: "int option"
  gp_OpportunisticGraftPeers :: "int option"
  gp_GraftFloodThreshold :: string
  gp_MaxIHaveLength :: "int option"
  gp_MaxIHaveMessages :: "int option"
  gp_MaxIDontWantLength :: "int option"
  gp_MaxIDontWantMessages :: "int option"
  gp_IWantFollowupTime :: string
  gp_IDontWantMessageThreshold :: "int option"
  gp_IDontWantMessageTTL :: "int option"
  gp_HopwaveFactor :: "f64 option"
  gp_HopwaveInterval :: "int option"

record GossipSubConfig =
  gs_MessageID :: string
  gs_TopicOptions :: "(string \<times> PubSubTopicConfig) list option"
  gs_PeerFilter :: "PubSubPeerFilterConfig option"
  gs_DirectPeers :: "string list option"
  gs_PeerGater :: "PeerGaterConfig option"
  gs_SubscriptionFilter :: "PubSubSubscriptionFilterConfig option"
  gs_SeenMessagesStrategy :: string
  gs_Protocols :: "PubSubProtocolConfig list option"
  gs_ProtocolMatch :: string
  gs_Blacklist :: "PubSubBlacklistConfig option"
  gs_DefaultValidators :: "PubSubValidatorConfig list option"
  gs_RPCInspector :: "PubSubRPCInspectorConfig option"
  gs_Discovery :: "PubSubDiscoveryConfig option"
  gs_Author :: "PubSubAuthorConfig option"
  gs_Publish :: "PubSubPublishConfig option"
  gs_Enabled :: "bool option"
  gs_Router :: string
  gs_Hopwave :: "bool option"
  gs_MeshFreeze :: "bool option"
  gs_TopicMode :: string
  gs_RandomDegree :: "int option"
  gs_RandomNetworkSize :: "int option"
  gs_Subscribe :: "bool option"
  gs_AllowPublish :: "bool option"
  gs_Topics :: "string list option"
  gs_Params :: GossipSubParamsConfig
  gs_Score :: "PeerScoreConfig option"
  gs_ScoreInspectInterval :: string
  gs_FloodPublish :: "bool option"
  gs_PeerExchange :: "bool option"
  gs_MaxMessageSize :: "int option"
  gs_PeerOutboundQueueSize :: "int option"
  gs_SignaturePolicy :: string
  gs_SeenMessagesTTL :: string
  gs_ValidateQueueSize :: "int option"
  gs_ValidateThrottle :: "int option"
  gs_ValidateWorkers :: "int option"
  gs_SubscriptionBufferSize :: "int option"

subsection \<open>Validation of the policies\<close>

definition validateMessageID :: "string \<Rightarrow> unit result" where
  "validateMessageID value = check (value \<notin> {[], ''default'', ''sha256'', ''topic-sha256''}) ''invalid messageId policy''"

definition validator_Validate :: "golib \<Rightarrow> PubSubValidatorConfig \<Rightarrow> unit result" where
  "validator_Validate lb c =
     rbind (check_all (\<lambda>(name, value). check (\<not> pubsubContains [[], ''accept'', ''reject'', ''ignore''] value)
         (name @ '' must be accept, reject, or ignore'')) [(''result'', va_Result c), (''failureResult'', va_FailureResult c)]) (\<lambda>_.
     rbind (check (va_FailureResult c = ''accept'') ''failureResult must be reject or ignore'') (\<lambda>_.
     rbind (check (ptr_is (\<lambda>v. v < 0) (va_MinBytes c) \<or> ptr_is (\<lambda>v. v < 0) (va_MaxBytes c)) ''validator byte limits cannot be negative'') (\<lambda>_.
     rbind (check (ptr_is (\<lambda>lo. ptr_is (\<lambda>hi. lo > hi) (va_MaxBytes c)) (va_MinBytes c)) ''validator minBytes exceeds maxBytes'') (\<lambda>_.
     rbind (check (va_Pattern c \<noteq> [] \<and> lb_Regexp lb (va_Pattern c) = None) ''validator pattern'') (\<lambda>_.
     rbind (check (va_Format c \<notin> {[], ''any'', ''json'', ''envelope''}) ''validator format must be any, json, or envelope'') (\<lambda>_.
     rbind (check_all (\<lambda>(name, value). pubsubDuration (''validator.'' @ name) value False)
         [(''delay'', va_Delay c), (''timeout'', va_Timeout c)]) (\<lambda>_.
     check (ptr_is (\<lambda>v. v \<le> 0) (va_Concurrency c)) ''validator concurrency must be positive'')))))))"

definition check_gater_value :: "string \<times> f64 option \<Rightarrow> unit result" where
  "check_gater_value entry =
     (case entry of (name, value) \<Rightarrow> case value of None \<Rightarrow> Inr ()
      | Some v \<Rightarrow>
          rbind (check (\<not> validNumber v \<or> f_le v (Fin 0)) (name @ '' must be finite and positive'')) (\<lambda>_.
          rbind (check ((name = ''globalDecay'' \<or> name = ''sourceDecay'' \<or> name = ''decayToZero'') \<and> f_le (Fin 1) v)
            (name @ '' must be below 1'')) (\<lambda>_.
          check ((name = ''ignoreWeight'' \<or> name = ''rejectWeight'') \<and> f_lt v (Fin 1)) (name @ '' must be at least 1''))))"

definition check_gater_duration :: "string \<times> string \<Rightarrow> unit result" where
  "check_gater_duration entry =
     (case entry of (name, value) \<Rightarrow>
        rbind (pubsubDuration name value False) (\<lambda>_.
        check (value \<noteq> [] \<and> name \<noteq> ''retainStats'' \<and> (case ParseDuration value of Inl _ \<Rightarrow> True | Inr d \<Rightarrow> d < 1000000000))
          (name @ '' must be at least 1s'')))"

definition gater_Validate :: "PeerGaterConfig \<Rightarrow> unit result" where
  "gater_Validate c =
     rbind (check_all check_gater_value [(''threshold'', pg_Threshold c), (''globalDecay'', pg_GlobalDecay c), (''sourceDecay'', pg_SourceDecay c),
       (''decayToZero'', pg_DecayToZero c), (''duplicateWeight'', pg_DuplicateWeight c), (''ignoreWeight'', pg_IgnoreWeight c),
       (''rejectWeight'', pg_RejectWeight c)]) (\<lambda>_.
     rbind (check_all check_gater_duration [(''decayInterval'', pg_DecayInterval c), (''quiet'', pg_Quiet c), (''retainStats'', pg_RetainStats c)]) (\<lambda>_.
     check_all (\<lambda>(topic, weight). check (topic = [] \<or> \<not> validNumber weight \<or> f_le weight (Fin 0))
       ''topicDeliveryWeights require nonempty topics and finite positive weights'') (pg_TopicDeliveryWeights c)))"

definition check_connector :: "PubSubDiscoveryConnectorConfig \<Rightarrow> unit result" where
  "check_connector b =
     rbind (check (ptr_is (\<lambda>v. v \<le> 0) (dc_CacheSize b)) ''connector.cacheSize must be positive'') (\<lambda>_.
     rbind (check_all (\<lambda>(name, value). pubsubDuration (''connector.'' @ name) value (name \<noteq> ''offset''))
       [(''dialTimeout'', dc_DialTimeout b), (''minBackoff'', dc_MinBackoff b), (''maxBackoff'', dc_MaxBackoff b),
        (''timeUnit'', dc_TimeUnit b), (''offset'', dc_Offset b)]) (\<lambda>_.
     let lo = (if dc_MinBackoff b = [] then 10000000000 else case ParseDuration (dc_MinBackoff b) of Inl _ \<Rightarrow> 0 | Inr d \<Rightarrow> d);
         hi = (if dc_MaxBackoff b = [] then 3600000000000 else case ParseDuration (dc_MaxBackoff b) of Inl _ \<Rightarrow> 0 | Inr d \<Rightarrow> d) in
     rbind (check (lo > hi) ''connector.minBackoff exceeds maxBackoff'') (\<lambda>_.
     rbind (check (ptr_is (\<lambda>v. \<not> validNumber v \<or> f_le v (Fin 1)) (dc_Base b)) ''connector.base must be finite and greater than 1'') (\<lambda>_.
     check (dc_Jitter b \<notin> {[], ''full'', ''none''}) ''connector.jitter must be full or none''))))"

definition discovery_Validate :: "PubSubDiscoveryConfig \<Rightarrow> unit result" where
  "discovery_Validate c =
     rbind (check (ds_Mode c \<notin> {[], ''controller'', ''routing'', ''none''}) ''mode must be controller, routing, or none'') (\<lambda>_.
     rbind (check (ds_Mode c = ''none'' \<and> (ds_TTL c \<noteq> [] \<or> ds_Limit c \<noteq> None \<or> ds_Connector c \<noteq> None))
       ''disabled discovery cannot configure TTL, limit, or connector'') (\<lambda>_.
     rbind (pubsubDuration ''ttl'' (ds_TTL c) True) (\<lambda>_.
     rbind (check (ptr_is (\<lambda>v. v \<le> 0) (ds_Limit c)) ''limit must be positive'') (\<lambda>_.
     case ds_Connector c of None \<Rightarrow> Inr () | Some b \<Rightarrow> check_connector b))))"

text \<open>\<^verbatim>\<open>PubSubAuthorConfig.Identity\<close>: the key, if one is configured, and the peer identifier.\<close>

definition author_Identity :: "golib \<Rightarrow> PubSubAuthorConfig \<Rightarrow> (string option \<times> string) result" where
  "author_Identity lb c =
     (if au_NoAuthor c then
        (if au_PeerID c \<noteq> [] \<or> au_PrivateKey c \<noteq> [] then Inl (Fail ''noAuthor conflicts with peerId/privateKey'') else Inr (None, []))
      else if au_PeerID c = [] \<and> au_PrivateKey c = [] then Inl (Fail ''peerId or privateKey is required'')
      else rbind (if au_PeerID c \<noteq> [] then
             (case lb_Decode lb (au_PeerID c) of None \<Rightarrow> Inl (Fail ''invalid author peerId'') | Some pid \<Rightarrow> Inr pid)
           else Inr []) (\<lambda>pid.
        if au_PrivateKey c = [] then Inr (None, pid)
        else case lb_Base64 lb (au_PrivateKey c) of
            None \<Rightarrow> Inl (Fail ''privateKey must be base64 libp2p key bytes'')
          | Some bytes \<Rightarrow>
              (case lb_PrivateKey lb bytes of
                 None \<Rightarrow> Inl (Fail ''invalid libp2p privateKey'')
               | Some key \<Rightarrow>
                   (case lb_KeyID lb key of
                      None \<Rightarrow> Inl (Fail ''derive author identity'')
                    | Some derived \<Rightarrow>
                        if pid \<noteq> [] \<and> pid \<noteq> derived then Inl (Fail ''author peerId does not match privateKey'')
                        else Inr (Some key, derived)))))"

subsection \<open>ValidateExtended\<close>

fun features_loop :: "string list \<Rightarrow> string list \<Rightarrow> string list result" where
  "features_loop [] seen = Inr seen"
| "features_loop (f # fs) seen =
     rbind (check (f \<notin> {''none'', ''mesh'', ''px'', ''idontwant''}) ''unknown GossipSub protocol feature'') (\<lambda>_.
     rbind (check (f \<in> set seen) ''duplicate protocol feature'') (\<lambda>_.
     features_loop fs (f # seen)))"

fun protocols_loop :: "string \<Rightarrow> PubSubProtocolConfig list \<Rightarrow> string list \<Rightarrow> unit result" where
  "protocols_loop router [] seenProtocols = Inr ()"
| "protocols_loop router (p # ps) seenProtocols =
     rbind (check (\<not> HasPrefix (pp_ID p) ''/'' \<or> TrimSpace (pp_ID p) \<noteq> pp_ID p \<or> pp_ID p \<in> set seenProtocols)
       ''protocol IDs must be unique, nonempty, slash-prefixed strings'') (\<lambda>_.
     rbind (check (router = ''floodsub'' \<and> pp_Features p \<noteq> []) ''floodsub protocols cannot enable GossipSub features'') (\<lambda>_.
     rbind (features_loop (pp_Features p) []) (\<lambda>seen.
     rbind (check (''none'' \<in> set seen \<and> length seen > 1) ''protocol feature none cannot be combined with capabilities'') (\<lambda>_.
     rbind (check ((''px'' \<in> set seen \<or> ''idontwant'' \<in> set seen) \<and> ''mesh'' \<notin> set seen) ''protocol px/idontwant features require mesh'') (\<lambda>_.
     protocols_loop router ps (pp_ID p # seenProtocols))))))"

definition check_direct_peer :: "golib \<Rightarrow> string \<Rightarrow> unit result" where
  "check_direct_peer lb raw =
     (case lb_NewMultiaddr lb raw of
        None \<Rightarrow> Inl (Fail ''invalid direct peer multiaddr'')
      | Some address \<Rightarrow>
          check (case lb_AddrInfo lb address of None \<Rightarrow> True | Some (_, addrs) \<Rightarrow> addrs = [])
            ''directPeers require transport multiaddrs ending in /p2p/<peer ID>'')"

definition check_peer_filter :: "golib \<Rightarrow> GossipSubConfig \<Rightarrow> unit result" where
  "check_peer_filter lb c =
     (case gs_PeerFilter c of None \<Rightarrow> Inr ()
      | Some f \<Rightarrow>
          rbind (wrap ''peerFilter: '' (validatePeerIDs lb (pf_Allow f @ pf_Deny f))) (\<lambda>_.
          check_all (\<lambda>(topic, rl).
            rbind (check (topic = []) ''peerFilter topic cannot be empty'') (\<lambda>_.
            wrap ''peerFilter topic: '' (validatePeerIDs lb (pr_Allow rl @ pr_Deny rl)))) (pf_Topics f)))"

definition check_blacklist :: "golib \<Rightarrow> GossipSubConfig \<Rightarrow> unit result" where
  "check_blacklist lb c =
     (case gs_Blacklist c of None \<Rightarrow> Inr ()
      | Some b \<Rightarrow>
          rbind (wrap ''blacklist: '' (validatePeerIDs lb (bl_Peers b))) (\<lambda>_.
          pubsubDuration ''blacklist.ttl'' (bl_TTL b) True))"

definition check_subscription_filter :: "golib \<Rightarrow> GossipSubConfig \<Rightarrow> unit result" where
  "check_subscription_filter lb c =
     (case gs_SubscriptionFilter c of None \<Rightarrow> Inr ()
      | Some f \<Rightarrow>
          rbind (check (sf_Allowlist f \<noteq> [] \<and> sf_Pattern f \<noteq> []) ''subscriptionFilter allowlist and pattern are mutually exclusive'') (\<lambda>_.
          rbind (if sf_Pattern f = [] then Inr None
                 else case lb_Regexp lb (sf_Pattern f) of None \<Rightarrow> Inl (Fail ''subscriptionFilter.pattern'') | Some rx \<Rightarrow> Inr (Some rx)) (\<lambda>rx.
          rbind (check (ptr_is (\<lambda>v. v \<le> 0) (sf_MaxSubscriptions f)) ''subscriptionFilter.maxSubscriptions must be positive'') (\<lambda>_.
          check_all (\<lambda>topic.
            rbind (check (ptr_is (\<lambda>rx. \<not> rx topic) rx) ''subscriptionFilter excludes joined topic'') (\<lambda>_.
            check (sf_Allowlist f \<noteq> [] \<and> \<not> pubsubContains (sf_Allowlist f) topic) ''subscriptionFilter excludes joined topic''))
            (elems (gs_Topics c))))))"

definition needs_strict_sign :: "GossipSubConfig \<Rightarrow> PubSubValidatorConfig \<Rightarrow> bool" where
  "needs_strict_sign c v = (va_BasicSeqno v \<and> gs_SignaturePolicy c \<noteq> [] \<and> gs_SignaturePolicy c \<noteq> ''strict-sign'')"

definition check_topic_option :: "golib \<Rightarrow> GossipSubConfig \<Rightarrow> string \<times> PubSubTopicConfig \<Rightarrow> unit result" where
  "check_topic_option lb c entry =
     (case entry of (topic, options) \<Rightarrow>
        rbind (check (\<not> pubsubContains (elems (gs_Topics c)) topic) ''topicOptions refers to unjoined topic'') (\<lambda>_.
        rbind (wrap ''topicOptions: '' (validateMessageID (to_MessageID options))) (\<lambda>_.
        rbind (check (ptr_is (\<lambda>v. v < 0) (to_SubscriptionBufferSize options)) ''topicOptions subscriptionBufferSize cannot be negative'') (\<lambda>_.
        rbind (check (to_SubscriptionBufferSize options \<noteq> None \<and> gs_TopicMode c \<noteq> [] \<and> gs_TopicMode c \<noteq> ''subscribe'')
          ''topic subscriptionBufferSize requires subscribe topicMode'') (\<lambda>_.
        case to_Validator options of None \<Rightarrow> Inr ()
        | Some v \<Rightarrow>
            rbind (check (needs_strict_sign c v) ''basicSeqno validator requires strict-sign'') (\<lambda>_.
            wrap ''topicOptions validator: '' (validator_Validate lb v)))))))"

definition check_default_validator :: "golib \<Rightarrow> GossipSubConfig \<Rightarrow> PubSubValidatorConfig \<Rightarrow> unit result" where
  "check_default_validator lb c v =
     rbind (check (needs_strict_sign c v) ''basicSeqno validator requires strict-sign'') (\<lambda>_.
     wrap ''defaultValidators: '' (validator_Validate lb v))"

definition check_rpc_inspector :: "golib \<Rightarrow> GossipSubConfig \<Rightarrow> unit result" where
  "check_rpc_inspector lb c =
     (case gs_RPCInspector c of None \<Rightarrow> Inr ()
      | Some r \<Rightarrow>
          rbind (check_all (\<lambda>(name, value). check (ptr_is (\<lambda>v. v < 0) value) (''rpcInspector.'' @ name @ '' cannot be negative''))
            [(''maxMessages'', ri_MaxMessages r), (''maxSubscriptions'', ri_MaxSubscriptions r), (''maxControlEntries'', ri_MaxControlEntries r),
             (''maxMessageIds'', ri_MaxMessageIDs r), (''maxBytes'', ri_MaxBytes r)]) (\<lambda>_.
          wrap ''rpcInspector: '' (validatePeerIDs lb (ri_RejectPeers r))))"

definition topic_option :: "GossipSubConfig \<Rightarrow> string \<Rightarrow> PubSubTopicConfig" where
  "topic_option c topic =
     (case map_of (elems (gs_TopicOptions c)) topic of
        None \<Rightarrow> \<lparr>to_MessageID = [], to_SubscriptionBufferSize = None, to_Validator = None\<rparr> | Some o_ \<Rightarrow> o_)"

definition message_id_mode :: "GossipSubConfig \<Rightarrow> string \<Rightarrow> string" where
  "message_id_mode c topic = (if to_MessageID (topic_option c topic) \<noteq> [] then to_MessageID (topic_option c topic) else gs_MessageID c)"

definition check_author :: "golib \<Rightarrow> GossipSubConfig \<Rightarrow> unit result" where
  "check_author lb c =
     (case gs_Author c of None \<Rightarrow> Inr ()
      | Some a \<Rightarrow>
          rbind (wrap ''author: '' (author_Identity lb a)) (\<lambda>_.
          if au_NoAuthor a then
            rbind (check (gs_SignaturePolicy c \<noteq> ''strict-no-sign'' \<and> gs_SignaturePolicy c \<noteq> ''lax-no-sign'')
              ''author.noAuthor requires an unsigned signaturePolicy'') (\<lambda>_.
            check_all (\<lambda>topic. check (message_id_mode c topic = [] \<or> message_id_mode c topic = ''default'')
              ''author.noAuthor requires a content messageId policy on every topic'') (elems (gs_Topics c)))
          else Inr ()))"

definition check_publish_author :: "golib \<Rightarrow> GossipSubConfig \<Rightarrow> PubSubPublishConfig \<Rightarrow> unit result" where
  "check_publish_author lb c p =
     (case pu_Author p of None \<Rightarrow> Inr ()
      | Some a \<Rightarrow>
          rbind (check (ptr_is (\<lambda>b. b) (pu_Local p)) ''publish.author cannot be combined with local publication'') (\<lambda>_.
          rbind (check (au_NoAuthor a \<or> au_PrivateKey a = []) ''publish.author requires a privateKey and cannot omit author'') (\<lambda>_.
          rbind (wrap ''publish.author: '' (author_Identity lb a)) (\<lambda>_.
          check (gs_SignaturePolicy c = ''strict-no-sign'' \<or> gs_SignaturePolicy c = ''lax-no-sign'' \<or> ptr_is au_NoAuthor (gs_Author c))
            ''publish.author requires a signing signaturePolicy''))))"

definition uses_validator_data :: "GossipSubConfig \<Rightarrow> bool" where
  "uses_validator_data c =
     (list_ex va_UseValidatorData (elems (gs_DefaultValidators c))
      \<or> list_ex (\<lambda>topic. ptr_is va_UseValidatorData (to_Validator (topic_option c topic))) (elems (gs_Topics c)))"

definition check_validator_data :: "GossipSubConfig \<Rightarrow> PubSubPublishConfig \<Rightarrow> unit result" where
  "check_validator_data c p =
     (if pu_ValidatorData p = [] then Inr ()
      else
        rbind (check (\<not> uses_validator_data c) ''publish.validatorData requires a validator with useValidatorData'') (\<lambda>_.
        check (case map_of (pu_ValidatorData p) ''result'' of
            Some (AnyString result) \<Rightarrow> \<not> pubsubContains [''accept'', ''reject'', ''ignore''] result
          | _ \<Rightarrow> True) ''publish.validatorData.result must be accept, reject, or ignore''))"

definition check_publish :: "golib \<Rightarrow> GossipSubConfig \<Rightarrow> unit result" where
  "check_publish lb c =
     (case gs_Publish c of None \<Rightarrow> Inr ()
      | Some p \<Rightarrow>
          rbind (check (ptr_is (\<lambda>v. v < 0) (pu_ReadinessMinPeers p)) ''publish.readinessMinPeers cannot be negative'') (\<lambda>_.
          rbind (pubsubDuration ''publish.readinessTimeout'' (pu_ReadinessTimeout p) True) (\<lambda>_.
          rbind (check (pu_ReadinessTimeout p \<noteq> [] \<and> (case ParseDuration (pu_ReadinessTimeout p) of Inl _ \<Rightarrow> False | Inr t \<Rightarrow> t > 10000000000))
            ''publish.readinessTimeout cannot exceed the 10s publish request budget'') (\<lambda>_.
          rbind (check (pu_ReadinessTimeout p \<noteq> [] \<and> pu_ReadinessMinPeers p = None) ''publish.readinessTimeout requires readinessMinPeers'') (\<lambda>_.
          rbind (check_publish_author lb c p) (\<lambda>_.
          check_validator_data c p))))))"

definition wrong_router :: "GossipSubConfig \<Rightarrow> bool" where
  "wrong_router c = (gs_Router c \<noteq> [] \<and> gs_Router c \<noteq> ''gossipsub'')"

definition check_routing :: "GossipSubConfig \<Rightarrow> unit result" where
  "check_routing c =
     rbind (check (ptr_is (\<lambda>b. b) (gs_MeshFreeze c) \<and> wrong_router c) ''meshFreeze requires the gossipsub router'') (\<lambda>_.
     rbind (check (ptr_is (\<lambda>b. b) (gs_Hopwave c) \<and> wrong_router c) ''hopwave requires the gossipsub router'') (\<lambda>_.
     rbind (validateMessageID (gs_MessageID c)) (\<lambda>_.
     rbind (check (gs_SeenMessagesStrategy c \<notin> {[], ''first-seen'', ''last-seen''}) ''invalid seenMessagesStrategy'') (\<lambda>_.
     rbind (check (gs_ProtocolMatch c \<notin> {[], ''exact'', ''prefix''}) ''invalid protocolMatch'') (\<lambda>_.
     rbind (check (gs_ProtocolMatch c = ''prefix'' \<and> elems (gs_Protocols c) = []) ''protocolMatch prefix requires explicit protocols'') (\<lambda>_.
     rbind (check (wrong_router c \<and> (elems (gs_DirectPeers c) \<noteq> [] \<or> gs_PeerGater c \<noteq> None)) ''directPeers and peerGater require the gossipsub router'') (\<lambda>_.
     check (gs_Router c = ''randomsub'' \<and> elems (gs_Protocols c) \<noteq> []) ''custom protocols are unavailable for randomsub'')))))))"

definition ValidateExtended :: "golib \<Rightarrow> GossipSubConfig \<Rightarrow> unit result" where
  "ValidateExtended lb c =
     rbind (check_routing c) (\<lambda>_.
     rbind (protocols_loop (gs_Router c) (elems (gs_Protocols c)) []) (\<lambda>_.
     rbind (check_all (check_direct_peer lb) (elems (gs_DirectPeers c))) (\<lambda>_.
     rbind (check_peer_filter lb c) (\<lambda>_.
     rbind (check_blacklist lb c) (\<lambda>_.
     rbind (check_subscription_filter lb c) (\<lambda>_.
     rbind (check_all (check_topic_option lb c) (elems (gs_TopicOptions c))) (\<lambda>_.
     rbind (check_all (check_default_validator lb c) (elems (gs_DefaultValidators c))) (\<lambda>_.
     rbind (check_rpc_inspector lb c) (\<lambda>_.
     rbind (case gs_PeerGater c of None \<Rightarrow> Inr () | Some g \<Rightarrow> wrap ''peerGater: '' (gater_Validate g)) (\<lambda>_.
     rbind (case gs_Discovery c of None \<Rightarrow> Inr () | Some d \<Rightarrow> wrap ''discovery: '' (discovery_Validate d)) (\<lambda>_.
     rbind (check_author lb c) (\<lambda>_.
     check_publish lb c))))))))))))"

end
