(* ===== verification/Score_Correct.thy ===== *)
theory Score_Correct
  imports Score_Config
begin

text \<open>What an accepted score configuration guarantees, whether or not the selective validation is switched on.\<close>

subsection \<open>Defaults\<close>

lemma score_IsEnabled_defaults [simp]: "score_IsEnabled (score_WithDefaults c) = score_IsEnabled c"
  by (simp add: score_WithDefaults_def score_IsEnabled_def Let_def)

lemma topic_defaults_idem: "topic_defaults e (topic_defaults e p) = topic_defaults e p"
  by (simp add: topic_defaults_def)

lemma f64_cent: "\<not> f_zero (f64_round (1 / 100))"
  by code_simp

lemma score_WithDefaults_idem: "score_WithDefaults (score_WithDefaults c) = score_WithDefaults c"
proof -
  define d where "d = (score_IsEnabled c \<and> ps_SkipAtomicValidation c \<and> ps_DecayInterval c = [] \<and> f_zero (ps_DecayToZero c))"
  define c1 where "c1 = (if d then c\<lparr>ps_DecayInterval := ''1s'', ps_DecayToZero := f64_round (1 / 100)\<rparr> else c)"
  have e: "score_IsEnabled c1 = score_IsEnabled c" by (simp add: c1_def score_IsEnabled_def)
  have w: "score_WithDefaults c = c1\<lparr>ps_Topics := map (\<lambda>(topic, params). (topic, topic_defaults (score_IsEnabled c) params)) (ps_Topics c1)\<rparr>"
    using e by (simp add: score_WithDefaults_def c1_def d_def Let_def)
  let ?c2 = "score_WithDefaults c"
  have "\<not> (score_IsEnabled ?c2 \<and> ps_SkipAtomicValidation ?c2 \<and> ps_DecayInterval ?c2 = [] \<and> f_zero (ps_DecayToZero ?c2))"
    using e by (cases d) (simp_all add: w c1_def d_def score_IsEnabled_def)
  then have "score_WithDefaults ?c2 = ?c2\<lparr>ps_Topics := map (\<lambda>(topic, params). (topic, topic_defaults (score_IsEnabled c) params)) (ps_Topics ?c2)\<rparr>"
    by (subst score_WithDefaults_def) (simp only: Let_def if_False score_IsEnabled_defaults)
  also have "\<dots> = ?c2" by (simp add: w comp_def case_prod_unfold topic_defaults_idem)
  finally show ?thesis .
qed

text \<open>
  Normalisation of the score parameters is idempotent and validation judges exactly the normalised values: what is
  accepted is what is passed to the router.
\<close>

theorem score_defaults_stable:
  "score_WithDefaults (score_WithDefaults c) = score_WithDefaults c \<and> score_validate lb (score_WithDefaults c) = score_validate lb c"
  by (simp add: score_validate_def score_WithDefaults_idem)

subsection \<open>Accepted values\<close>

lemma f_zero_le [simp]: "f_zero x \<Longrightarrow> f_le x (Fin 0) \<and> f_le (Fin 0) x"
  by (cases x) (auto simp: f_le_def)

lemma f_zero_Fin [simp]: "f_zero x \<longleftrightarrow> x = Fin 0"
  by (cases x) auto

lemma valid_not_lt: "validNumber x \<Longrightarrow> validNumber y \<Longrightarrow> \<not> f_lt x y \<longleftrightarrow> f_le y x"
  by (cases x; cases y) (auto simp: validNumber_def)

lemma validNumber_Fin [simp]: "validNumber (Fin a)"
  by (simp add: validNumber_def)

lemma thresholds_order:
  assumes "thresholds_validate c = Inr ()"
  shows "f_le (th_GraylistThreshold c) (th_PublishThreshold c) \<and> f_le (th_PublishThreshold c) (th_GossipThreshold c)
    \<and> f_le (th_GossipThreshold c) (Fin 0) \<and> f_le (Fin 0) (th_AcceptPXThreshold c) \<and> f_le (Fin 0) (th_OpportunisticGraftThreshold c)"
  using assms valid_not_lt [of "Fin 0"] valid_not_lt [of _ "Fin 0"]
    valid_not_lt [of "th_GossipThreshold c" "th_PublishThreshold c"] valid_not_lt [of "th_PublishThreshold c" "th_GraylistThreshold c"]
  by (auto simp: thresholds_validate_def rbind_Inr_iff split: if_splits)

text \<open>The signs the router's scoring function relies on.\<close>

definition topic_signs :: "TopicScoreConfig \<Rightarrow> bool" where
  "topic_signs c =
     (f_le (Fin 0) (ts_TopicWeight c) \<and> f_le (Fin 0) (ts_TimeInMeshWeight c) \<and> f_le (Fin 0) (ts_FirstMessageDeliveriesWeight c)
      \<and> f_le (ts_MeshMessageDeliveriesWeight c) (Fin 0) \<and> f_le (ts_MeshFailurePenaltyWeight c) (Fin 0)
      \<and> f_le (ts_InvalidMessageDeliveriesWeight c) (Fin 0)
      \<and> (\<exists>quantum. ParseDuration (ts_TimeInMeshQuantum c) = Inr quantum \<and> 0 < quantum))"

lemma sign_rules:
  "\<not> (\<not> validNumber x \<or> f_lt x (Fin 0)) \<Longrightarrow> f_le (Fin 0) x" "\<not> (\<not> validNumber x \<or> f_lt (Fin 0) x) \<Longrightarrow> f_le x (Fin 0)"
  using valid_not_lt [of x "Fin 0"] valid_not_lt [of "Fin 0" x] by auto

lemma scoreDuration_pos: "scoreDuration n s = Inr q \<Longrightarrow> 0 < q \<Longrightarrow> ParseDuration s = Inr q"
  by (auto simp: scoreDuration_def split: if_splits)

lemma topic_signs_ok:
  assumes "topic_validate c = Inr ()"
  shows "topic_signs c"
proof -
  obtain q a w where v: "\<not> (\<not> validNumber (ts_TopicWeight c) \<or> f_lt (ts_TopicWeight c) (Fin 0))"
    "scoreDuration ''timeInMeshQuantum'' (ts_TimeInMeshQuantum c) = Inr q" "\<not> q \<le> 0" "topic_time_in_mesh c q = Inr ()"
    "topic_first_message c = Inr ()" "topic_mesh_message c a w = Inr ()" "topic_mesh_failure c = Inr ()" "topic_invalid_message c = Inr ()"
    using assms unfolding topic_validate_def rbind_check_Inr_iff rbind_Inr_iff by fastforce
  have "f_le (Fin 0) (ts_TimeInMeshWeight c)"
    using v(4) sign_rules(1) [of "ts_TimeInMeshWeight c"] unfolding topic_time_in_mesh_def by (auto split: if_splits)
  moreover have "f_le (Fin 0) (ts_FirstMessageDeliveriesWeight c)"
    using v(5) sign_rules(1) [of "ts_FirstMessageDeliveriesWeight c"] unfolding topic_first_message_def by (auto split: if_splits)
  moreover have "f_le (ts_MeshMessageDeliveriesWeight c) (Fin 0)"
    using v(6) sign_rules(2) [of "ts_MeshMessageDeliveriesWeight c"] unfolding topic_mesh_message_def by (auto split: if_splits)
  moreover have "f_le (ts_MeshFailurePenaltyWeight c) (Fin 0)"
    using v(7) sign_rules(2) [of "ts_MeshFailurePenaltyWeight c"] unfolding topic_mesh_failure_def by (auto split: if_splits)
  moreover have "f_le (ts_InvalidMessageDeliveriesWeight c) (Fin 0)"
    using v(8) sign_rules(2) [of "ts_InvalidMessageDeliveriesWeight c"] unfolding topic_invalid_message_def by (auto split: if_splits)
  ultimately show ?thesis using v(1-3) sign_rules(1) scoreDuration_pos [OF v(2)] by (auto simp: topic_signs_def)
qed

lemma score_weights_signs:
  assumes "score_weights lb c = Inr ()"
  shows "f_le (Fin 0) (ps_TopicScoreCap c) \<and> f_le (ps_IPColocationFactorWeight c) (Fin 0)
    \<and> f_le (ps_BehaviourPenaltyWeight c) (Fin 0) \<and> f_le (Fin 0) (ps_BehaviourPenaltyThreshold c)
    \<and> (ps_AppSpecificScore c = None \<longrightarrow> f_zero (ps_AppSpecificWeight c))"
proof -
  have w: "\<not> (\<not> validNumber (ps_TopicScoreCap c) \<or> f_lt (ps_TopicScoreCap c) (Fin 0))"
    "\<not> (\<not> f_zero (ps_AppSpecificWeight c) \<and> ps_AppSpecificScore c = None)"
    "(\<not> ps_SkipAtomicValidation c \<or> \<not> f_zero (ps_IPColocationFactorWeight c)) \<longrightarrow>
       \<not> (\<not> validNumber (ps_IPColocationFactorWeight c) \<or> f_lt (Fin 0) (ps_IPColocationFactorWeight c))"
    "(\<not> ps_SkipAtomicValidation c \<or> \<not> f_zero (ps_BehaviourPenaltyWeight c) \<or> \<not> f_zero (ps_BehaviourPenaltyThreshold c)) \<longrightarrow>
       \<not> (\<not> validNumber (ps_BehaviourPenaltyWeight c) \<or> f_lt (Fin 0) (ps_BehaviourPenaltyWeight c))
       \<and> \<not> (\<not> validNumber (ps_BehaviourPenaltyThreshold c) \<or> f_lt (ps_BehaviourPenaltyThreshold c) (Fin 0))"
    using assms unfolding score_weights_def rbind_check_Inr_iff rbind_Inr_iff by (auto split: if_splits)
  then show ?thesis
    using sign_rules(1) [of "ps_TopicScoreCap c"] sign_rules(2) [of "ps_IPColocationFactorWeight c"]
      sign_rules(2) [of "ps_BehaviourPenaltyWeight c"] sign_rules(1) [of "ps_BehaviourPenaltyThreshold c"] by auto
qed

text \<open>
  C34. An accepted and enabled score configuration, after normalisation, has the shape the router needs whatever was
  skipped by selective validation: graylist \<open>\<le>\<close> publish \<open>\<le>\<close> gossip \<open>\<le> 0\<close>, non-negative exchange and grafting
  thresholds, a decay interval of at least a second, decay to zero strictly between 0 and 1, rewards with non-negative and
  penalties with non-positive weights, and a positive time quantum for every topic.
\<close>

theorem score_accepted_bounds:
  assumes "score_validate lb c = Inr ()" "score_IsEnabled c" and d: "c' = score_WithDefaults c"
  shows "f_le (th_GraylistThreshold (ps_Thresholds c')) (th_PublishThreshold (ps_Thresholds c'))
    \<and> f_le (th_PublishThreshold (ps_Thresholds c')) (th_GossipThreshold (ps_Thresholds c'))
    \<and> f_le (th_GossipThreshold (ps_Thresholds c')) (Fin 0)
    \<and> f_le (Fin 0) (th_AcceptPXThreshold (ps_Thresholds c')) \<and> f_le (Fin 0) (th_OpportunisticGraftThreshold (ps_Thresholds c'))
    \<and> (\<exists>decay. ParseDuration (ps_DecayInterval c') = Inr decay \<and> 1000000000 \<le> decay) \<and> validDecay (ps_DecayToZero c')
    \<and> f_le (Fin 0) (ps_TopicScoreCap c') \<and> f_le (ps_IPColocationFactorWeight c') (Fin 0)
    \<and> f_le (ps_BehaviourPenaltyWeight c') (Fin 0)
    \<and> (\<forall>(topic, params)\<in>set (ps_Topics c'). TrimSpace topic \<noteq> [] \<and> topic_signs params)"
proof -
  have en: "score_IsEnabled c'" using assms(2) d by simp
  then obtain decay where v: "score_weights lb c' = Inr ()" "scoreDuration ''decayInterval'' (ps_DecayInterval c') = Inr decay"
    "\<not> decay < 1000000000" "\<not> \<not> validDecay (ps_DecayToZero c')" "thresholds_validate (ps_Thresholds c') = Inr ()"
    "check_topics topic_validate c' = Inr ()"
    using assms(1) unfolding score_validate_def Let_def d [symmetric] by (auto simp: rbind_Inr_iff)
  have "\<forall>(topic, params)\<in>set (ps_Topics c'). TrimSpace topic \<noteq> [] \<and> topic_signs params"
    using v(6) topic_signs_ok by (fastforce simp: check_topics_def)
  moreover have "ParseDuration (ps_DecayInterval c') = Inr decay" using scoreDuration_pos [OF v(2)] v(3) by simp
  ultimately show ?thesis using thresholds_order [OF v(5)] score_weights_signs [OF v(1)] v(3,4) by auto
qed

subsection \<open>Witness\<close>

definition ex_lib :: golib where
  "ex_lib = \<lparr>lb_Decode = Some, lb_IDString = (\<lambda>s. s), lb_NewMultiaddr = Some, lb_AddrInfo = (\<lambda>s. Some (s, [s])),
     lb_SplitAddr = (\<lambda>s. (Some s, [])), lb_ParseCIDR = (\<lambda>s. s \<noteq> []), lb_Regexp = (\<lambda>s. Some (\<lambda>t. t \<noteq> [])), lb_Base64 = Some,
     lb_PrivateKey = Some, lb_KeyID = Some\<rparr>"

definition ex_topic_score :: TopicScoreConfig where
  "ex_topic_score = \<lparr>ts_SkipAtomicValidation = True, ts_TopicWeight = Fin 1, ts_TimeInMeshWeight = Fin 0, ts_TimeInMeshQuantum = [],
     ts_TimeInMeshCap = Fin 0, ts_FirstMessageDeliveriesWeight = Fin 1, ts_FirstMessageDeliveriesDecay = Fin (1 / 2),
     ts_FirstMessageDeliveriesCap = Fin 10, ts_MeshMessageDeliveriesWeight = Fin 0, ts_MeshMessageDeliveriesDecay = Fin 0,
     ts_MeshMessageDeliveriesThreshold = Fin 0, ts_MeshMessageDeliveriesCap = Fin 0, ts_MeshMessageDeliveriesActivation = [],
     ts_MeshMessageDeliveriesWindow = [], ts_MeshFailurePenaltyWeight = Fin 0, ts_MeshFailurePenaltyDecay = Fin 0,
     ts_InvalidMessageDeliveriesWeight = Fin (- 1), ts_InvalidMessageDeliveriesDecay = Fin (1 / 2)\<rparr>"

definition ex_score :: PeerScoreConfig where
  "ex_score = \<lparr>ps_Enabled = Some True, ps_SkipAtomicValidation = False, ps_TopicScoreCap = Fin 100, ps_AppSpecificScore = None,
     ps_AppSpecificWeight = Fin 0, ps_IPColocationFactorWeight = Fin (- 1), ps_IPColocationFactorThreshold = 3,
     ps_IPColocationFactorWhitelist = [''10.0.0.0/8''], ps_BehaviourPenaltyWeight = Fin (- 1), ps_BehaviourPenaltyThreshold = Fin 6,
     ps_BehaviourPenaltyDecay = Fin (1 / 2), ps_DecayInterval = ''1s'', ps_DecayToZero = Fin (1 / 64), ps_RetainScore = ''1m'',
     ps_SeenMessageTTL = [], ps_Thresholds = \<lparr>th_SkipAtomicValidation = False, th_GossipThreshold = Fin (- 10),
        th_PublishThreshold = Fin (- 20), th_GraylistThreshold = Fin (- 30), th_AcceptPXThreshold = Fin 5,
        th_OpportunisticGraftThreshold = Fin 1\<rparr>,
     ps_Topics = [(''kpl/default'', ex_topic_score)]\<rparr>"

lemma ex_score_ok: "score_validate ex_lib ex_score = Inr ()" "score_IsEnabled ex_score"
proof -
  show e: "score_IsEnabled ex_score" by (simp add: score_IsEnabled_def ex_score_def)
  have w: "score_WithDefaults ex_score = ex_score\<lparr>ps_Topics := [(''kpl/default'', ex_topic_score\<lparr>ts_TimeInMeshQuantum := ''1s''\<rparr>)]\<rparr>"
    by (simp add: score_WithDefaults_def ex_score_def score_IsEnabled_def topic_defaults_def ex_topic_score_def)
  have ts: "TrimSpace ''kpl/default'' \<noteq> []" by code_simp
  let ?c = "score_WithDefaults ex_score"
  have "score_validateSyntax ex_lib ?c = Inr ()" unfolding w
    by (simp add: score_validateSyntax_def ex_score_def finiteScoreValues_def check_score_duration_def scoreDuration_def parse_literals
        check_cidrs_def ex_lib_def check_topics_def ts topic_validateSyntax_def ex_topic_score_def)
  moreover have "score_weights ex_lib ?c = Inr ()" unfolding w
    by (simp add: score_weights_def ex_score_def check_cidrs_def ex_lib_def validDecay_def)
  moreover have "thresholds_validate (ps_Thresholds ?c) = Inr ()" unfolding w by (simp add: thresholds_validate_def ex_score_def)
  moreover have "check_topics topic_validate ?c = Inr ()" unfolding w
    by (simp add: check_topics_def ex_score_def ts topic_validate_def topic_validateSyntax_def ex_topic_score_def finiteScoreValues_def
        check_score_duration_def scoreDuration_def parse_literals topic_time_in_mesh_def topic_first_message_def topic_mesh_message_def
        topic_mesh_failure_def topic_invalid_message_def positive_finite_def validDecay_def)
  moreover have "ps_DecayInterval ?c = ''1s''" "ps_DecayToZero ?c = Fin (1 / 64)" "ps_RetainScore ?c = ''1m''" "ps_SeenMessageTTL ?c = []"
    unfolding w by (simp_all add: ex_score_def)
  ultimately show "score_validate ex_lib ex_score = Inr ()"
    unfolding score_validate_def Let_def
    by (simp add: e scoreDuration_def parse_literals validDecay_def check_score_duration_def)
qed

theorem score_accepted_bounds_witness:
  "f_le (th_GraylistThreshold (ps_Thresholds (score_WithDefaults ex_score))) (th_PublishThreshold (ps_Thresholds (score_WithDefaults ex_score)))"
  using score_accepted_bounds [OF ex_score_ok refl] by blast

end
