(* ===== verification/Gossipsub_Correct.thy ===== *)
theory Gossipsub_Correct
  imports Gossipsub_Config Score_Correct
begin

text \<open>The validation of the PubSub policies does not panic; what an accepted configuration guarantees.\<close>

subsection \<open>No panics\<close>

lemma calm_score [simp]: "calm (score_validate lb c)"
proof -
  have du: "calm (check_score_duration f)" for f
    by (cases f) (auto simp: check_score_duration_def scoreDuration_def intro!: calm_rules)
  have fin: "calm (finiteScoreValues vs)" for vs by (auto simp: finiteScoreValues_def intro!: calm_rules split: prod.splits)
  have ci: "calm (check_cidrs lb c)" for c unfolding check_cidrs_def by (intro calm_rules) simp
  have to: "calm (check_topics f c)" if "\<And>p. calm (f p)" for f c
    using that by (auto simp: check_topics_def intro!: calm_rules split: prod.splits)
  have sd: "calm (scoreDuration n s)" for n s by (simp add: scoreDuration_def)
  have syn: "calm (topic_validateSyntax p)" for p unfolding topic_validateSyntax_def by (intro calm_rules fin du)
  have groups: "calm (topic_time_in_mesh p q)" "calm (topic_first_message p)" "calm (topic_mesh_message p q r)" "calm (topic_mesh_failure p)"
    "calm (topic_invalid_message p)" for p q r
    unfolding topic_time_in_mesh_def topic_first_message_def topic_mesh_message_def topic_mesh_failure_def topic_invalid_message_def
    by (intro calm_rules; simp)+
  have tv: "calm (topic_validate p)" for p
    unfolding topic_validate_def by (intro calm_rules syn sd groups) simp_all
  have ap: "calm (app_peers lb w ps seen)" for w ps seen
    by (induction ps arbitrary: seen) (auto intro!: calm_rules)
  have app: "calm (app_validate lb a w)" for a w unfolding app_validate_def by (intro calm_rules ap) simp
  have th: "calm (thresholds_validate t)" for t unfolding thresholds_validate_def by (intro calm_rules) simp_all
  have sw: "calm (score_weights lb c)" for c unfolding score_weights_def by (intro calm_rules ci) simp_all
  have ss: "calm (score_validateSyntax lb c)" for c
    unfolding score_validateSyntax_def by (intro calm_rules fin du ci to syn app) simp_all
  show ?thesis unfolding score_validate_def Let_def by (intro calm_rules ss sw sd du to tv) (simp_all add: th)
qed

lemma calm_gossipsub_parts [simp]:
  "calm (validator_Validate lb v)" "calm (gater_Validate g)" "calm (discovery_Validate d)" "calm (author_Identity lb a)"
  "calm (protocols_loop router ps seen)" "calm (check_direct_peer lb raw)" "calm (check_peer_filter lb c)" "calm (check_blacklist lb c)"
  "calm (check_subscription_filter lb c)" "calm (check_topic_option lb c e)" "calm (check_default_validator lb c v)"
  "calm (check_rpc_inspector lb c)" "calm (check_author lb c)" "calm (check_publish lb c)" "calm (check_routing c)"
proof -
  show va: "calm (validator_Validate lb v)" for v
    unfolding validator_Validate_def by (intro calm_rules) (simp_all split: prod.splits)
  have gv: "calm (check_gater_value e)" "calm (check_gater_duration e')" for e e'
    by (cases e; auto simp: check_gater_value_def intro!: calm_rules) (cases e'; auto simp: check_gater_duration_def intro!: calm_rules)
  show "calm (gater_Validate g)" unfolding gater_Validate_def by (intro calm_rules gv) (simp split: prod.splits)
  have co: "calm (check_connector b)" for b
    unfolding check_connector_def Let_def by (intro calm_rules) (simp_all split: prod.splits)
  show "calm (discovery_Validate d)" unfolding discovery_Validate_def by (intro calm_rules co) simp_all
  show au: "calm (author_Identity lb a)" for a
    unfolding author_Identity_def by (intro calm_rules) simp_all
  have fe: "calm (features_loop fs seen)" for fs seen by (induction fs arbitrary: seen) (auto intro!: calm_rules)
  show "calm (protocols_loop router ps seen)" by (induction ps arbitrary: seen) (auto intro!: calm_rules fe)
  show "calm (check_direct_peer lb raw)" unfolding check_direct_peer_def by (intro calm_rules) simp_all
  show "calm (check_peer_filter lb c)" unfolding check_peer_filter_def by (intro calm_rules) (auto intro!: calm_rules)
  show "calm (check_blacklist lb c)" unfolding check_blacklist_def by (intro calm_rules) simp_all
  show "calm (check_subscription_filter lb c)" unfolding check_subscription_filter_def by (intro calm_rules) simp_all
  show "calm (check_topic_option lb c e)" unfolding check_topic_option_def
    by (cases e) (simp, intro calm_rules, simp_all add: validateMessageID_def va)
  show "calm (check_default_validator lb c v)" unfolding check_default_validator_def by (intro calm_rules) (simp_all add: va)
  show "calm (check_rpc_inspector lb c)" unfolding check_rpc_inspector_def by (intro calm_rules) (simp_all split: prod.splits)
  show "calm (check_author lb c)" unfolding check_author_def by (intro calm_rules) (simp_all add: au)
  have "calm (check_publish_author lb c p)" "calm (check_validator_data c p)" for p
    unfolding check_publish_author_def check_validator_data_def by (intro calm_rules; simp add: au)+
  then show "calm (check_publish lb c)" unfolding check_publish_def by (intro calm_rules) simp_all
  show "calm (check_routing c)" unfolding check_routing_def by (intro calm_rules) (simp_all add: validateMessageID_def)
qed

lemma calm_ValidateExtended [simp]: "calm (ValidateExtended lb c)"
  unfolding ValidateExtended_def by (intro calm_rules) simp_all

subsection \<open>Signing policies\<close>

lemma ValidateExtended_parts:
  assumes "ValidateExtended lb c = Inr ()"
  shows "protocols_loop (gs_Router c) (elems (gs_Protocols c)) [] = Inr ()" "\<forall>e\<in>set (elems (gs_TopicOptions c)). check_topic_option lb c e = Inr ()"
    "\<forall>v\<in>set (elems (gs_DefaultValidators c)). check_default_validator lb c v = Inr ()" "check_author lb c = Inr ()" "check_publish lb c = Inr ()"
  using assms unfolding ValidateExtended_def rbind_Inr_iff check_all_Inr by auto

lemma author_key:
  assumes "author_Identity lb a = Inr (k, pid)"
  shows "(au_NoAuthor a \<longrightarrow> k = None \<and> pid = [])
    \<and> (\<forall>key. k = Some key \<longrightarrow> lb_KeyID lb key = Some pid \<and> (au_PeerID a \<noteq> [] \<longrightarrow> lb_Decode lb (au_PeerID a) \<in> {Some [], Some pid}))
    \<and> (k = None \<and> \<not> au_NoAuthor a \<longrightarrow> lb_Decode lb (au_PeerID a) = Some pid)"
  using assms by (auto simp: author_Identity_def rbind_Inr_iff split: if_splits option.splits)

text \<open>
  C35. Signing is consistent in every accepted PubSub configuration. Messages without an author are allowed only under a
  policy that does not sign, and then every joined topic identifies messages by content, never by author and sequence
  number; a separate publishing author comes with a private key, its peer identifier, where one is given, belongs to that
  key, and it excludes unsigned policies and anonymous messages; and a sequence number validator, on a topic or by default,
  is accepted only under strict signing.
\<close>

theorem gossipsub_signing_consistent:
  assumes "ValidateExtended lb c = Inr ()"
  shows "(ptr_is au_NoAuthor (gs_Author c) \<longrightarrow> gs_SignaturePolicy c \<in> {''strict-no-sign'', ''lax-no-sign''}
       \<and> (\<forall>topic\<in>set (elems (gs_Topics c)). message_id_mode c topic \<notin> {[], ''default''}))
    \<and> (\<forall>p a. gs_Publish c = Some p \<and> pu_Author p = Some a \<longrightarrow>
         \<not> au_NoAuthor a \<and> \<not> ptr_is au_NoAuthor (gs_Author c) \<and> gs_SignaturePolicy c \<notin> {''strict-no-sign'', ''lax-no-sign''}
         \<and> (\<exists>key pid. author_Identity lb a = Inr (Some key, pid) \<and> lb_KeyID lb key = Some pid
              \<and> (au_PeerID a \<noteq> [] \<longrightarrow> lb_Decode lb (au_PeerID a) \<in> {Some [], Some pid})))
    \<and> (\<forall>v. (v \<in> set (elems (gs_DefaultValidators c)) \<or> (\<exists>topic options. (topic, options) \<in> set (elems (gs_TopicOptions c))
            \<and> to_Validator options = Some v)) \<and> va_BasicSeqno v \<longrightarrow> gs_SignaturePolicy c \<in> {[], ''strict-sign''})"
proof (intro conjI impI allI)
  note p = ValidateExtended_parts [OF assms]
  assume na: "ptr_is au_NoAuthor (gs_Author c)"
  then obtain a where "gs_Author c = Some a" "au_NoAuthor a" by (cases "gs_Author c") auto
  then show "gs_SignaturePolicy c \<in> {''strict-no-sign'', ''lax-no-sign''}"
    "\<forall>topic\<in>set (elems (gs_Topics c)). message_id_mode c topic \<notin> {[], ''default''}"
    using p(4) by (auto simp: check_author_def rbind_Inr_iff)
next
  fix v assume v: "(v \<in> set (elems (gs_DefaultValidators c)) \<or> (\<exists>topic options. (topic, options) \<in> set (elems (gs_TopicOptions c))
            \<and> to_Validator options = Some v)) \<and> va_BasicSeqno v"
  note p = ValidateExtended_parts [OF assms]
  have "\<not> needs_strict_sign c v"
    using v p(2,3) by (fastforce simp: check_default_validator_def check_topic_option_def rbind_Inr_iff)
  then show "gs_SignaturePolicy c \<in> {[], ''strict-sign''}" using v by (auto simp: needs_strict_sign_def)
next
  fix q a assume qa: "gs_Publish c = Some q \<and> pu_Author q = Some a"
  note p = ValidateExtended_parts [OF assms]
  have "check_publish_author lb c q = Inr ()" using p(5) qa by (auto simp: check_publish_def rbind_Inr_iff)
  then have s: "\<not> au_NoAuthor a" "au_PrivateKey a \<noteq> []" "\<exists>x. author_Identity lb a = Inr x"
    "gs_SignaturePolicy c \<notin> {''strict-no-sign'', ''lax-no-sign''}" "\<not> ptr_is au_NoAuthor (gs_Author c)"
    using qa by (auto simp: check_publish_author_def rbind_Inr_iff)
  then obtain k pid where i: "author_Identity lb a = Inr (k, pid)" by fastforce
  then have "k \<noteq> None" using s(1,2) by (auto simp: author_Identity_def rbind_Inr_iff split: if_splits option.splits) (metis option.exhaust)+
  then obtain key where "k = Some key" by blast
  then show "\<exists>key pid. author_Identity lb a = Inr (Some key, pid) \<and> lb_KeyID lb key = Some pid
              \<and> (au_PeerID a \<noteq> [] \<longrightarrow> lb_Decode lb (au_PeerID a) \<in> {Some [], Some pid})"
    using i author_key [OF i] by blast
  show "\<not> au_NoAuthor a" "\<not> ptr_is au_NoAuthor (gs_Author c)" "gs_SignaturePolicy c \<notin> {''strict-no-sign'', ''lax-no-sign''}"
    using s by auto
qed

lemma features_loop_Inr:
  "features_loop fs seen = Inr seen' \<Longrightarrow> distinct seen \<Longrightarrow> seen' = rev fs @ seen \<and> distinct seen'
     \<and> set fs \<subseteq> {''none'', ''mesh'', ''px'', ''idontwant''}"
proof (induction fs arbitrary: seen)
  case (Cons f fs)
  then have f: "f \<in> {''none'', ''mesh'', ''px'', ''idontwant''}" "f \<notin> set seen" "features_loop fs (f # seen) = Inr seen'"
    by (auto simp: rbind_Inr_iff)
  with Cons.IH [of "f # seen"] Cons.prems(2) show ?case by auto
qed simp

definition protocol_features_ok :: "PubSubProtocolConfig \<Rightarrow> bool" where
  "protocol_features_ok p = (distinct (pp_Features p) \<and> set (pp_Features p) \<subseteq> {''none'', ''mesh'', ''px'', ''idontwant''}
     \<and> (''none'' \<in> set (pp_Features p) \<longrightarrow> pp_Features p = [''none''])
     \<and> (''px'' \<in> set (pp_Features p) \<or> ''idontwant'' \<in> set (pp_Features p) \<longrightarrow> ''mesh'' \<in> set (pp_Features p)))"

lemma singleton_list: "x \<in> set xs \<Longrightarrow> length xs \<le> 1 \<Longrightarrow> xs = [x]"
  by (cases xs) auto

lemma protocols_loop_Inr:
  "protocols_loop router ps seen = Inr () \<Longrightarrow> distinct (map pp_ID ps) \<and> set (map pp_ID ps) \<inter> set seen = {}
     \<and> (\<forall>p\<in>set ps. HasPrefix (pp_ID p) ''/'' \<and> TrimSpace (pp_ID p) = pp_ID p \<and> protocol_features_ok p
          \<and> (router = ''floodsub'' \<longrightarrow> pp_Features p = []))"
proof (induction ps arbitrary: seen)
  case (Cons p ps)
  then obtain fs where f: "features_loop (pp_Features p) [] = Inr fs" "\<not> (''none'' \<in> set fs \<and> length fs > 1)"
    "\<not> ((''px'' \<in> set fs \<or> ''idontwant'' \<in> set fs) \<and> ''mesh'' \<notin> set fs)" "protocols_loop router ps (pp_ID p # seen) = Inr ()"
    "HasPrefix (pp_ID p) ''/''" "TrimSpace (pp_ID p) = pp_ID p" "pp_ID p \<notin> set seen" "router = ''floodsub'' \<longrightarrow> pp_Features p = []"
    by (auto simp: rbind_Inr_iff)
  from features_loop_Inr [OF f(1)] have "fs = rev (pp_Features p)" "distinct (pp_Features p)"
    "set (pp_Features p) \<subseteq> {''none'', ''mesh'', ''px'', ''idontwant''}" by auto
  then have "protocol_features_ok p" using f(2,3) singleton_list [of "''none''" "pp_Features p"] by (auto simp: protocol_features_ok_def)
  then show ?case using Cons.IH [OF f(4)] f(5-8) by auto
qed simp

text \<open>
  The custom protocols of an accepted configuration have distinct, slash-prefixed identifiers, no repeated features,
  peer exchange and IDONTWANT only together with mesh support, and \<^verbatim>\<open>none\<close> only on its own.
\<close>

theorem gossipsub_protocols_accepted:
  assumes "ValidateExtended lb c = Inr ()"
  shows "distinct (map pp_ID (elems (gs_Protocols c)))
    \<and> (\<forall>p\<in>set (elems (gs_Protocols c)). HasPrefix (pp_ID p) ''/'' \<and> distinct (pp_Features p)
         \<and> (''none'' \<in> set (pp_Features p) \<longrightarrow> pp_Features p = [''none''])
         \<and> (''px'' \<in> set (pp_Features p) \<or> ''idontwant'' \<in> set (pp_Features p) \<longrightarrow> ''mesh'' \<in> set (pp_Features p)))"
  using protocols_loop_Inr [OF ValidateExtended_parts(1) [OF assms]] by (auto simp: protocol_features_ok_def)

subsection \<open>Witnesses\<close>

definition zero_params :: GossipSubParamsConfig where
  "zero_params = \<lparr>gp_D = None, gp_DLow = None, gp_DHigh = None, gp_DScore = None, gp_DOut = None, gp_DLazy = None,
     gp_HistoryLength = None, gp_HistoryGossip = None, gp_GossipFactor = None, gp_GossipRetransmission = None,
     gp_HeartbeatInitialDelay = [], gp_HeartbeatInterval = [], gp_SlowHeartbeatWarning = None, gp_FanoutTTL = [], gp_PrunePeers = None,
     gp_PruneBackoff = [], gp_UnsubscribeBackoff = [], gp_Connectors = None, gp_MaxPendingConnections = None, gp_ConnectionTimeout = [],
     gp_DirectConnectTicks = None, gp_DirectConnectInitialDelay = [], gp_OpportunisticGraftTicks = None, gp_OpportunisticGraftPeers = None,
     gp_GraftFloodThreshold = [], gp_MaxIHaveLength = None, gp_MaxIHaveMessages = None, gp_MaxIDontWantLength = None,
     gp_MaxIDontWantMessages = None, gp_IWantFollowupTime = [], gp_IDontWantMessageThreshold = None, gp_IDontWantMessageTTL = None,
     gp_HopwaveFactor = None, gp_HopwaveInterval = None\<rparr>"

definition zero_gossipsub :: GossipSubConfig where
  "zero_gossipsub = \<lparr>gs_MessageID = [], gs_TopicOptions = None, gs_PeerFilter = None, gs_DirectPeers = None, gs_PeerGater = None,
     gs_SubscriptionFilter = None, gs_SeenMessagesStrategy = [], gs_Protocols = None, gs_ProtocolMatch = [], gs_Blacklist = None,
     gs_DefaultValidators = None, gs_RPCInspector = None, gs_Discovery = None, gs_Author = None, gs_Publish = None, gs_Enabled = None,
     gs_Router = [], gs_Hopwave = None, gs_MeshFreeze = None, gs_TopicMode = [], gs_RandomDegree = None, gs_RandomNetworkSize = None,
     gs_Subscribe = None, gs_AllowPublish = None, gs_Topics = None, gs_Params = zero_params, gs_Score = None, gs_ScoreInspectInterval = [],
     gs_FloodPublish = None, gs_PeerExchange = None, gs_MaxMessageSize = None, gs_PeerOutboundQueueSize = None, gs_SignaturePolicy = [],
     gs_SeenMessagesTTL = [], gs_ValidateQueueSize = None, gs_ValidateThrottle = None, gs_ValidateWorkers = None,
     gs_SubscriptionBufferSize = None\<rparr>"

definition ex_gossipsub :: GossipSubConfig where
  "ex_gossipsub = zero_gossipsub\<lparr>gs_MessageID := ''sha256'', gs_Topics := Some [''blocks''], gs_SignaturePolicy := ''strict-no-sign'',
     gs_Author := Some \<lparr>au_PeerID = [], au_PrivateKey = [], au_NoAuthor = True\<rparr>,
     gs_Protocols := Some [\<lparr>pp_ID = ''/a'', pp_Features = [''mesh'', ''px'']\<rparr>]\<rparr>"

lemma ex_gossipsub_ok: "ValidateExtended ex_lib ex_gossipsub = Inr ()"
proof -
  have "TrimSpace ''/a'' = ''/a''" "HasPrefix ''/a'' ''/''" by code_simp+
  then show ?thesis
    by (simp add: ValidateExtended_def ex_gossipsub_def zero_gossipsub_def check_routing_def wrong_router_def validateMessageID_def
        check_peer_filter_def check_blacklist_def check_subscription_filter_def check_rpc_inspector_def check_author_def author_Identity_def
        message_id_mode_def topic_option_def check_publish_def)
qed

theorem gossipsub_signing_consistent_witness: "message_id_mode ex_gossipsub ''blocks'' \<noteq> ''default''"
  using gossipsub_signing_consistent [OF ex_gossipsub_ok] by (simp add: ex_gossipsub_def)

theorem gossipsub_protocols_accepted_witness: "distinct (map pp_ID (elems (gs_Protocols ex_gossipsub)))"
  using gossipsub_protocols_accepted [OF ex_gossipsub_ok] by blast

end
