(* ===== verification/Node_Config.thy ===== *)
theory Node_Config
  imports Attack_Config Kademlia_Config Network_Config Gossipsub_Correct
begin

text \<open>
  \<^verbatim>\<open>NodeConfig\<close> of \<^verbatim>\<open>internal/model/config.go\<close>: the record, overlay merging, promotion of the legacy flat fields and
  the defaults, with the parts of \<^verbatim>\<open>attacks.go\<close> that work on a whole node.
\<close>

subsection \<open>The record\<close>

record ConnectionManagerConfig =
  cm_LowWater :: int
  cm_HighWater :: int
  cm_GracePeriod :: string

record Libp2pConfig =
  lp_UserAgent :: string
  lp_NATPortMap :: "bool option"
  lp_Relay :: "bool option"
  lp_RelayService :: "bool option"
  lp_ConnectionLimit :: "int option"
  lp_ConnectionManager :: "ConnectionManagerConfig option"
  lp_DialTimeout :: string

record NodeConfig =
  nd_Forwarding :: "TargetedAttackConfig option"
  nd_InvalidMessage :: "InvalidMessageConfig option"
  nd_Sink :: "ProbabilityAttack option"
  nd_Censorship :: "CensorshipConfig option"
  nd_MessageDelay :: "MessageDelayConfig option"
  nd_ConnectionAttack :: "ConnectionAttackConfig option"
  nd_GraftFlood :: "GraftFloodConfig option"
  nd_IHaveSpam :: "IHaveSpamConfig option"
  nd_IWantWithholding :: "TargetedAttackConfig option"
  nd_Type :: string
  nd_Topics :: "string list option"
  nd_D :: int
  nd_DLow :: int
  nd_DHigh :: int
  nd_DOut :: int
  nd_DLazy :: int
  nd_Heartbeat :: string
  nd_ConnectLimit :: int
  nd_Libp2p :: Libp2pConfig
  nd_Kademlia :: KademliaConfig
  nd_GossipSub :: GossipSubConfig
  nd_Network :: NetworkConfig

definition zero_libp2p :: Libp2pConfig where
  "zero_libp2p = \<lparr>lp_UserAgent = [], lp_NATPortMap = None, lp_Relay = None, lp_RelayService = None, lp_ConnectionLimit = None,
     lp_ConnectionManager = None, lp_DialTimeout = []\<rparr>"

definition zero_node :: NodeConfig where
  "zero_node = \<lparr>nd_Forwarding = None, nd_InvalidMessage = None, nd_Sink = None, nd_Censorship = None, nd_MessageDelay = None,
     nd_ConnectionAttack = None, nd_GraftFlood = None, nd_IHaveSpam = None, nd_IWantWithholding = None, nd_Type = [], nd_Topics = None,
     nd_D = 0, nd_DLow = 0, nd_DHigh = 0, nd_DOut = 0, nd_DLazy = 0, nd_Heartbeat = [], nd_ConnectLimit = 0, nd_Libp2p = zero_libp2p,
     nd_Kademlia = zero_kademlia, nd_GossipSub = zero_gossipsub, nd_Network = NetworkConfig zero_network None\<rparr>"

subsection \<open>Merging\<close>

definition merge_libp2p :: "Libp2pConfig \<Rightarrow> Libp2pConfig \<Rightarrow> Libp2pConfig" where
  "merge_libp2p b v = \<lparr>lp_UserAgent = merge_str (lp_UserAgent b) (lp_UserAgent v), lp_NATPortMap = merge_ptr (lp_NATPortMap b) (lp_NATPortMap v),
     lp_Relay = merge_ptr (lp_Relay b) (lp_Relay v), lp_RelayService = merge_ptr (lp_RelayService b) (lp_RelayService v),
     lp_ConnectionLimit = merge_ptr (lp_ConnectionLimit b) (lp_ConnectionLimit v),
     lp_ConnectionManager = merge_ptr (lp_ConnectionManager b) (lp_ConnectionManager v),
     lp_DialTimeout = merge_str (lp_DialTimeout b) (lp_DialTimeout v)\<rparr>"

text \<open>The mode switches of \<^verbatim>\<open>Merge\<close> for the DHT: exact protocol against prefix, static against other bootstrap sources.\<close>

definition kademlia_modes :: "KademliaConfig \<Rightarrow> KademliaConfig \<Rightarrow> KademliaConfig" where
  "kademlia_modes c overlay =
     (let c = (if ka_ProtocolID overlay \<noteq> [] \<and> ka_ProtocolPrefix overlay = [] then
                 (let c = c\<lparr>ka_ProtocolPrefix := []\<rparr>
                  in if ka_ProtocolExtension overlay = [] then c\<lparr>ka_ProtocolExtension := []\<rparr> else c)
               else c);
          c = (if ka_ProtocolPrefix overlay \<noteq> [] \<and> ka_ProtocolID overlay = [] then c\<lparr>ka_ProtocolID := []\<rparr> else c)
      in if (ka_BootstrapSource overlay = ''none'' \<or> ka_BootstrapSource overlay = ''controller'') \<and> ka_BootstrapPeers overlay = None
         then c\<lparr>ka_BootstrapPeers := None\<rparr> else c)"

definition merge_kademlia :: "KademliaConfig \<Rightarrow> KademliaConfig \<Rightarrow> KademliaConfig" where
  "merge_kademlia b v = \<lparr>ka_Enabled = merge_ptr (ka_Enabled b) (ka_Enabled v), ka_Mode = merge_str (ka_Mode b) (ka_Mode v),
     ka_ProtocolPrefix = merge_str (ka_ProtocolPrefix b) (ka_ProtocolPrefix v), ka_ProtocolID = merge_str (ka_ProtocolID b) (ka_ProtocolID v),
     ka_ProtocolExtension = merge_str (ka_ProtocolExtension b) (ka_ProtocolExtension v), ka_BucketSize = merge_ptr (ka_BucketSize b) (ka_BucketSize v),
     ka_Concurrency = merge_ptr (ka_Concurrency b) (ka_Concurrency v), ka_Resiliency = merge_ptr (ka_Resiliency b) (ka_Resiliency v),
     ka_LookupCheckConcurrency = merge_ptr (ka_LookupCheckConcurrency b) (ka_LookupCheckConcurrency v),
     ka_RoutingTableLatencyTolerance = merge_str (ka_RoutingTableLatencyTolerance b) (ka_RoutingTableLatencyTolerance v),
     ka_RoutingTableRefreshPeriod = merge_str (ka_RoutingTableRefreshPeriod b) (ka_RoutingTableRefreshPeriod v),
     ka_RoutingTableRefreshTimeout = merge_str (ka_RoutingTableRefreshTimeout b) (ka_RoutingTableRefreshTimeout v),
     ka_MaxRecordAge = merge_str (ka_MaxRecordAge b) (ka_MaxRecordAge v),
     ka_DisableAutoRefresh = merge_ptr (ka_DisableAutoRefresh b) (ka_DisableAutoRefresh v),
     ka_DisableProviders = merge_ptr (ka_DisableProviders b) (ka_DisableProviders v),
     ka_DisableValues = merge_ptr (ka_DisableValues b) (ka_DisableValues v),
     ka_OptimisticProvide = merge_ptr (ka_OptimisticProvide b) (ka_OptimisticProvide v),
     ka_OptimisticProvideJobsPoolSize = merge_ptr (ka_OptimisticProvideJobsPoolSize b) (ka_OptimisticProvideJobsPoolSize v),
     ka_BootstrapTimeout = merge_str (ka_BootstrapTimeout b) (ka_BootstrapTimeout v),
     ka_BootstrapRetryInterval = merge_str (ka_BootstrapRetryInterval b) (ka_BootstrapRetryInterval v),
     ka_QueryFilter = merge_ptr (ka_QueryFilter b) (ka_QueryFilter v),
     ka_RoutingTableFilter = merge_ptr (ka_RoutingTableFilter b) (ka_RoutingTableFilter v),
     ka_AddressFilter = merge_ptr (ka_AddressFilter b) (ka_AddressFilter v),
     ka_RoutingTableDiversity = merge_ptr (ka_RoutingTableDiversity b) (ka_RoutingTableDiversity v),
     ka_BootstrapSource = merge_str (ka_BootstrapSource b) (ka_BootstrapSource v),
     ka_BootstrapPeers = merge_ptr (ka_BootstrapPeers b) (ka_BootstrapPeers v), ka_Datastore = merge_str (ka_Datastore b) (ka_Datastore v),
     ka_Validator = merge_ptr (ka_Validator b) (ka_Validator v), ka_ProviderStore = merge_ptr (ka_ProviderStore b) (ka_ProviderStore v),
     ka_RequestHook = merge_str (ka_RequestHook b) (ka_RequestHook v)\<rparr>"

definition merge_params :: "GossipSubParamsConfig \<Rightarrow> GossipSubParamsConfig \<Rightarrow> GossipSubParamsConfig" where
  "merge_params b v = \<lparr>gp_D = merge_ptr (gp_D b) (gp_D v), gp_DLow = merge_ptr (gp_DLow b) (gp_DLow v), gp_DHigh = merge_ptr (gp_DHigh b) (gp_DHigh v),
     gp_DScore = merge_ptr (gp_DScore b) (gp_DScore v), gp_DOut = merge_ptr (gp_DOut b) (gp_DOut v), gp_DLazy = merge_ptr (gp_DLazy b) (gp_DLazy v),
     gp_HistoryLength = merge_ptr (gp_HistoryLength b) (gp_HistoryLength v), gp_HistoryGossip = merge_ptr (gp_HistoryGossip b) (gp_HistoryGossip v),
     gp_GossipFactor = merge_ptr (gp_GossipFactor b) (gp_GossipFactor v),
     gp_GossipRetransmission = merge_ptr (gp_GossipRetransmission b) (gp_GossipRetransmission v),
     gp_HeartbeatInitialDelay = merge_str (gp_HeartbeatInitialDelay b) (gp_HeartbeatInitialDelay v),
     gp_HeartbeatInterval = merge_str (gp_HeartbeatInterval b) (gp_HeartbeatInterval v),
     gp_SlowHeartbeatWarning = merge_ptr (gp_SlowHeartbeatWarning b) (gp_SlowHeartbeatWarning v),
     gp_FanoutTTL = merge_str (gp_FanoutTTL b) (gp_FanoutTTL v), gp_PrunePeers = merge_ptr (gp_PrunePeers b) (gp_PrunePeers v),
     gp_PruneBackoff = merge_str (gp_PruneBackoff b) (gp_PruneBackoff v), gp_UnsubscribeBackoff = merge_str (gp_UnsubscribeBackoff b) (gp_UnsubscribeBackoff v),
     gp_Connectors = merge_ptr (gp_Connectors b) (gp_Connectors v),
     gp_MaxPendingConnections = merge_ptr (gp_MaxPendingConnections b) (gp_MaxPendingConnections v),
     gp_ConnectionTimeout = merge_str (gp_ConnectionTimeout b) (gp_ConnectionTimeout v),
     gp_DirectConnectTicks = merge_ptr (gp_DirectConnectTicks b) (gp_DirectConnectTicks v),
     gp_DirectConnectInitialDelay = merge_str (gp_DirectConnectInitialDelay b) (gp_DirectConnectInitialDelay v),
     gp_OpportunisticGraftTicks = merge_ptr (gp_OpportunisticGraftTicks b) (gp_OpportunisticGraftTicks v),
     gp_OpportunisticGraftPeers = merge_ptr (gp_OpportunisticGraftPeers b) (gp_OpportunisticGraftPeers v),
     gp_GraftFloodThreshold = merge_str (gp_GraftFloodThreshold b) (gp_GraftFloodThreshold v),
     gp_MaxIHaveLength = merge_ptr (gp_MaxIHaveLength b) (gp_MaxIHaveLength v), gp_MaxIHaveMessages = merge_ptr (gp_MaxIHaveMessages b) (gp_MaxIHaveMessages v),
     gp_MaxIDontWantLength = merge_ptr (gp_MaxIDontWantLength b) (gp_MaxIDontWantLength v),
     gp_MaxIDontWantMessages = merge_ptr (gp_MaxIDontWantMessages b) (gp_MaxIDontWantMessages v),
     gp_IWantFollowupTime = merge_str (gp_IWantFollowupTime b) (gp_IWantFollowupTime v),
     gp_IDontWantMessageThreshold = merge_ptr (gp_IDontWantMessageThreshold b) (gp_IDontWantMessageThreshold v),
     gp_IDontWantMessageTTL = merge_ptr (gp_IDontWantMessageTTL b) (gp_IDontWantMessageTTL v),
     gp_HopwaveFactor = merge_ptr (gp_HopwaveFactor b) (gp_HopwaveFactor v), gp_HopwaveInterval = merge_ptr (gp_HopwaveInterval b) (gp_HopwaveInterval v)\<rparr>"

definition merge_gossipsub :: "GossipSubConfig \<Rightarrow> GossipSubConfig \<Rightarrow> GossipSubConfig" where
  "merge_gossipsub b v = \<lparr>gs_MessageID = merge_str (gs_MessageID b) (gs_MessageID v), gs_TopicOptions = merge_ptr (gs_TopicOptions b) (gs_TopicOptions v),
     gs_PeerFilter = merge_ptr (gs_PeerFilter b) (gs_PeerFilter v), gs_DirectPeers = merge_ptr (gs_DirectPeers b) (gs_DirectPeers v),
     gs_PeerGater = merge_ptr (gs_PeerGater b) (gs_PeerGater v), gs_SubscriptionFilter = merge_ptr (gs_SubscriptionFilter b) (gs_SubscriptionFilter v),
     gs_SeenMessagesStrategy = merge_str (gs_SeenMessagesStrategy b) (gs_SeenMessagesStrategy v), gs_Protocols = merge_ptr (gs_Protocols b) (gs_Protocols v),
     gs_ProtocolMatch = merge_str (gs_ProtocolMatch b) (gs_ProtocolMatch v), gs_Blacklist = merge_ptr (gs_Blacklist b) (gs_Blacklist v),
     gs_DefaultValidators = merge_ptr (gs_DefaultValidators b) (gs_DefaultValidators v), gs_RPCInspector = merge_ptr (gs_RPCInspector b) (gs_RPCInspector v),
     gs_Discovery = merge_ptr (gs_Discovery b) (gs_Discovery v), gs_Author = merge_ptr (gs_Author b) (gs_Author v),
     gs_Publish = merge_ptr (gs_Publish b) (gs_Publish v), gs_Enabled = merge_ptr (gs_Enabled b) (gs_Enabled v),
     gs_Router = merge_str (gs_Router b) (gs_Router v), gs_Hopwave = merge_ptr (gs_Hopwave b) (gs_Hopwave v),
     gs_MeshFreeze = merge_ptr (gs_MeshFreeze b) (gs_MeshFreeze v), gs_TopicMode = merge_str (gs_TopicMode b) (gs_TopicMode v),
     gs_RandomDegree = merge_ptr (gs_RandomDegree b) (gs_RandomDegree v), gs_RandomNetworkSize = merge_ptr (gs_RandomNetworkSize b) (gs_RandomNetworkSize v),
     gs_Subscribe = merge_ptr (gs_Subscribe b) (gs_Subscribe v), gs_AllowPublish = merge_ptr (gs_AllowPublish b) (gs_AllowPublish v),
     gs_Topics = merge_ptr (gs_Topics b) (gs_Topics v), gs_Params = merge_params (gs_Params b) (gs_Params v), gs_Score = merge_ptr (gs_Score b) (gs_Score v),
     gs_ScoreInspectInterval = merge_str (gs_ScoreInspectInterval b) (gs_ScoreInspectInterval v), gs_FloodPublish = merge_ptr (gs_FloodPublish b) (gs_FloodPublish v),
     gs_PeerExchange = merge_ptr (gs_PeerExchange b) (gs_PeerExchange v), gs_MaxMessageSize = merge_ptr (gs_MaxMessageSize b) (gs_MaxMessageSize v),
     gs_PeerOutboundQueueSize = merge_ptr (gs_PeerOutboundQueueSize b) (gs_PeerOutboundQueueSize v),
     gs_SignaturePolicy = merge_str (gs_SignaturePolicy b) (gs_SignaturePolicy v), gs_SeenMessagesTTL = merge_str (gs_SeenMessagesTTL b) (gs_SeenMessagesTTL v),
     gs_ValidateQueueSize = merge_ptr (gs_ValidateQueueSize b) (gs_ValidateQueueSize v), gs_ValidateThrottle = merge_ptr (gs_ValidateThrottle b) (gs_ValidateThrottle v),
     gs_ValidateWorkers = merge_ptr (gs_ValidateWorkers b) (gs_ValidateWorkers v),
     gs_SubscriptionBufferSize = merge_ptr (gs_SubscriptionBufferSize b) (gs_SubscriptionBufferSize v)\<rparr>"

text \<open>\<^verbatim>\<open>promoteLegacy\<close>: the flat fields of old scenarios fill nested fields that are not set.\<close>

definition promote_int :: "int \<Rightarrow> int option \<Rightarrow> int option" where
  "promote_int legacy p = (if legacy \<noteq> 0 \<and> p = None then Some legacy else p)"

definition promoteLegacy :: "NodeConfig \<Rightarrow> NodeConfig" where
  "promoteLegacy c =
     (let g = nd_GossipSub c; p = gs_Params g in
      c\<lparr>nd_GossipSub := g\<lparr>
          gs_Topics := (if elems (gs_Topics g) = [] \<and> elems (nd_Topics c) \<noteq> [] then Some (elems (nd_Topics c)) else gs_Topics g),
          gs_Params := p\<lparr>gp_D := promote_int (nd_D c) (gp_D p), gp_DLow := promote_int (nd_DLow c) (gp_DLow p),
            gp_DHigh := promote_int (nd_DHigh c) (gp_DHigh p), gp_DOut := promote_int (nd_DOut c) (gp_DOut p),
            gp_DLazy := promote_int (nd_DLazy c) (gp_DLazy p),
            gp_HeartbeatInterval := (if nd_Heartbeat c \<noteq> [] \<and> gp_HeartbeatInterval p = [] then nd_Heartbeat c else gp_HeartbeatInterval p)\<rparr>\<rparr>,
        nd_Libp2p := (nd_Libp2p c)\<lparr>lp_ConnectionLimit := promote_int (nd_ConnectLimit c) (lp_ConnectionLimit (nd_Libp2p c))\<rparr>\<rparr>)"

definition overlay_topic_mode :: "GossipSubConfig \<Rightarrow> GossipSubConfig" where
  "overlay_topic_mode g =
     (case gs_Subscribe g of None \<Rightarrow> g
      | Some sub \<Rightarrow> if gs_TopicMode g = [] then g\<lparr>gs_TopicMode := (if sub then ''subscribe'' else ''publish'')\<rparr> else g)"

definition mergeAttacks :: "NodeConfig \<Rightarrow> NodeConfig \<Rightarrow> NodeConfig \<Rightarrow> NodeConfig" where
  "mergeAttacks c base overlay =
     c\<lparr>nd_Forwarding := mergeAttack merge_targeted zero_targeted (nd_Forwarding base) (nd_Forwarding overlay),
       nd_InvalidMessage := mergeAttack merge_invalid zero_invalid (nd_InvalidMessage base) (nd_InvalidMessage overlay),
       nd_Sink := mergeAttack merge_pa zero_pa (nd_Sink base) (nd_Sink overlay),
       nd_Censorship := mergeAttack merge_censorship zero_censorship (nd_Censorship base) (nd_Censorship overlay),
       nd_MessageDelay := mergeAttack merge_delay_attack zero_delay_attack (nd_MessageDelay base) (nd_MessageDelay overlay),
       nd_ConnectionAttack := mergeAttack merge_connection zero_connection (nd_ConnectionAttack base) (nd_ConnectionAttack overlay),
       nd_GraftFlood := mergeAttack merge_graft zero_graft (nd_GraftFlood base) (nd_GraftFlood overlay),
       nd_IHaveSpam := mergeAttack merge_ihave zero_ihave (nd_IHaveSpam base) (nd_IHaveSpam overlay),
       nd_IWantWithholding := mergeAttack merge_targeted zero_targeted (nd_IWantWithholding base) (nd_IWantWithholding overlay)\<rparr>"

text \<open>\<^verbatim>\<open>mergeNonZero\<close> on the fields other than the attacks, which \<^verbatim>\<open>mergeAttacks\<close> sets afterwards.\<close>

definition node_Merge :: "NodeConfig \<Rightarrow> NodeConfig \<Rightarrow> NodeConfig" where
  "node_Merge c overlay =
     (let ov = promoteLegacy overlay; ov = ov\<lparr>nd_GossipSub := overlay_topic_mode (nd_GossipSub ov)\<rparr> in
      mergeAttacks
        (c\<lparr>nd_Type := merge_str (nd_Type c) (nd_Type ov), nd_Topics := merge_ptr (nd_Topics c) (nd_Topics ov),
           nd_D := merge_int (nd_D c) (nd_D ov), nd_DLow := merge_int (nd_DLow c) (nd_DLow ov), nd_DHigh := merge_int (nd_DHigh c) (nd_DHigh ov),
           nd_DOut := merge_int (nd_DOut c) (nd_DOut ov), nd_DLazy := merge_int (nd_DLazy c) (nd_DLazy ov),
           nd_Heartbeat := merge_str (nd_Heartbeat c) (nd_Heartbeat ov), nd_ConnectLimit := merge_int (nd_ConnectLimit c) (nd_ConnectLimit ov),
           nd_Libp2p := merge_libp2p (nd_Libp2p c) (nd_Libp2p ov),
           nd_Kademlia := merge_kademlia (kademlia_modes (nd_Kademlia c) (nd_Kademlia ov)) (nd_Kademlia ov),
           nd_GossipSub := merge_gossipsub (nd_GossipSub c) (nd_GossipSub ov),
           nd_Network := network_Merge (nd_Network c) (nd_Network ov)\<rparr>)
        c ov)"

subsection \<open>Defaults\<close>

definition defaultAttacks :: "golib \<Rightarrow> NodeConfig \<Rightarrow> NodeConfig" where
  "defaultAttacks lb c =
     c\<lparr>nd_Forwarding := map_option (targeted_defaults lb) (nd_Forwarding c),
       nd_InvalidMessage := map_option (invalid_defaults lb) (nd_InvalidMessage c),
       nd_Sink := map_option pa_WithDefaults (nd_Sink c),
       nd_Censorship := map_option (censorship_defaults lb) (nd_Censorship c),
       nd_MessageDelay := map_option delay_defaults (nd_MessageDelay c),
       nd_ConnectionAttack := map_option (connection_defaults lb) (nd_ConnectionAttack c),
       nd_GraftFlood := map_option (graft_defaults lb) (nd_GraftFlood c),
       nd_IHaveSpam := map_option (ihave_defaults lb) (nd_IHaveSpam c),
       nd_IWantWithholding := map_option (targeted_defaults lb) (nd_IWantWithholding c)\<rparr>"

definition params_defaults :: "GossipSubParamsConfig \<Rightarrow> GossipSubParamsConfig" where
  "params_defaults p = \<lparr>gp_D = default_ptr 6 (gp_D p), gp_DLow = default_ptr 5 (gp_DLow p), gp_DHigh = default_ptr 12 (gp_DHigh p),
     gp_DScore = default_ptr 4 (gp_DScore p), gp_DOut = default_ptr 2 (gp_DOut p), gp_DLazy = default_ptr 6 (gp_DLazy p),
     gp_HistoryLength = default_ptr 5 (gp_HistoryLength p), gp_HistoryGossip = default_ptr 3 (gp_HistoryGossip p),
     gp_GossipFactor = default_ptr (Fin (1 / 4)) (gp_GossipFactor p), gp_GossipRetransmission = default_ptr 3 (gp_GossipRetransmission p),
     gp_HeartbeatInitialDelay = default_str ''100ms'' (gp_HeartbeatInitialDelay p), gp_HeartbeatInterval = default_str ''1s'' (gp_HeartbeatInterval p),
     gp_SlowHeartbeatWarning = default_ptr (f64_round (1 / 10)) (gp_SlowHeartbeatWarning p), gp_FanoutTTL = default_str ''1m'' (gp_FanoutTTL p),
     gp_PrunePeers = default_ptr 16 (gp_PrunePeers p), gp_PruneBackoff = default_str ''1m'' (gp_PruneBackoff p),
     gp_UnsubscribeBackoff = default_str ''10s'' (gp_UnsubscribeBackoff p), gp_Connectors = default_ptr 8 (gp_Connectors p),
     gp_MaxPendingConnections = default_ptr 128 (gp_MaxPendingConnections p), gp_ConnectionTimeout = default_str ''30s'' (gp_ConnectionTimeout p),
     gp_DirectConnectTicks = default_ptr 300 (gp_DirectConnectTicks p), gp_DirectConnectInitialDelay = default_str ''1s'' (gp_DirectConnectInitialDelay p),
     gp_OpportunisticGraftTicks = default_ptr 60 (gp_OpportunisticGraftTicks p), gp_OpportunisticGraftPeers = default_ptr 2 (gp_OpportunisticGraftPeers p),
     gp_GraftFloodThreshold = default_str ''10s'' (gp_GraftFloodThreshold p), gp_MaxIHaveLength = default_ptr 5000 (gp_MaxIHaveLength p),
     gp_MaxIHaveMessages = default_ptr 10 (gp_MaxIHaveMessages p), gp_MaxIDontWantLength = default_ptr 10 (gp_MaxIDontWantLength p),
     gp_MaxIDontWantMessages = default_ptr 1000 (gp_MaxIDontWantMessages p), gp_IWantFollowupTime = default_str ''3s'' (gp_IWantFollowupTime p),
     gp_IDontWantMessageThreshold = default_ptr 1024 (gp_IDontWantMessageThreshold p), gp_IDontWantMessageTTL = default_ptr 3 (gp_IDontWantMessageTTL p),
     gp_HopwaveFactor = default_ptr (Fin 1) (gp_HopwaveFactor p), gp_HopwaveInterval = default_ptr 1 (gp_HopwaveInterval p)\<rparr>"

text \<open>The PubSub defaults before the parameters; an unset topic mode follows \<^verbatim>\<open>subscribe\<close>, which then follows the mode.\<close>

definition gossipsub_defaults :: "GossipSubConfig \<Rightarrow> GossipSubConfig" where
  "gossipsub_defaults g =
     (let mode = (if gs_TopicMode g = [] then (if gs_Subscribe g = Some False then ''publish'' else ''subscribe'') else gs_TopicMode g);
          score = map_option score_WithDefaults (gs_Score g) in
      g\<lparr>gs_Enabled := default_ptr True (gs_Enabled g), gs_Router := default_str ''gossipsub'' (gs_Router g), gs_TopicMode := mode,
        gs_Subscribe := Some (mode = ''subscribe''), gs_AllowPublish := default_ptr True (gs_AllowPublish g), gs_Score := score,
        gs_ScoreInspectInterval := (if ptr_is score_IsEnabled score \<and> gs_ScoreInspectInterval g = [] then ''1s'' else gs_ScoreInspectInterval g),
        gs_Topics := (if elems (gs_Topics g) = [] then Some [''kpl/default''] else gs_Topics g),
        gs_Params := params_defaults (gs_Params g)\<rparr>)"

definition kademlia_defaults :: "KademliaConfig \<Rightarrow> KademliaConfig" where
  "kademlia_defaults k =
     k\<lparr>ka_Enabled := default_ptr True (ka_Enabled k), ka_Mode := default_str ''server'' (ka_Mode k),
       ka_ProtocolPrefix := (if ka_ProtocolPrefix k = [] \<and> ka_ProtocolID k = [] then ''/k-p2p-lab/v3'' else ka_ProtocolPrefix k),
       ka_BucketSize := default_ptr 20 (ka_BucketSize k), ka_BootstrapTimeout := default_str ''60s'' (ka_BootstrapTimeout k),
       ka_BootstrapRetryInterval := default_str ''1s'' (ka_BootstrapRetryInterval k)\<rparr>"

text \<open>The flat fields are written back from the nested ones. \<open>the\<close> is applied to parameters just defaulted.\<close>

definition node_WithDefaults :: "golib \<Rightarrow> NodeConfig \<Rightarrow> NodeConfig" where
  "node_WithDefaults lb c0 =
     (let c = promoteLegacy c0; g = gossipsub_defaults (nd_GossipSub c); p = gs_Params g in
      (defaultAttacks lb c)\<lparr>nd_Type := default_str ''full'' (nd_Type c), nd_GossipSub := g, nd_Kademlia := kademlia_defaults (nd_Kademlia c),
        nd_Topics := gs_Topics g, nd_D := the (gp_D p), nd_DLow := the (gp_DLow p), nd_DHigh := the (gp_DHigh p),
        nd_DOut := the (gp_DOut p), nd_DLazy := the (gp_DLazy p), nd_Heartbeat := gp_HeartbeatInterval p,
        nd_ConnectLimit := (case lp_ConnectionLimit (nd_Libp2p c) of None \<Rightarrow> nd_ConnectLimit c | Some n \<Rightarrow> n)\<rparr>)"

end
