(* ===== verification/Node_Validate.thy ===== *)
theory Node_Validate
  imports Node_Config
begin

text \<open>
  Validation of a whole node: \<^verbatim>\<open>ValidateAttackSyntax\<close> and \<^verbatim>\<open>ValidateAttacks\<close> of \<^verbatim>\<open>attacks.go\<close>, \<^verbatim>\<open>NodeConfig.Validate\<close>,
  the built-in presets and \<^verbatim>\<open>PublishAllowed\<close> of \<^verbatim>\<open>config.go\<close>. Dereferencing a nil pointer is a panic.
\<close>

subsection \<open>Attack predicates\<close>

definition HasAttackOptions :: "NodeConfig \<Rightarrow> bool" where
  "HasAttackOptions c = (nd_Forwarding c \<noteq> None \<or> nd_InvalidMessage c \<noteq> None \<or> nd_Sink c \<noteq> None \<or> nd_Censorship c \<noteq> None
     \<or> nd_MessageDelay c \<noteq> None \<or> nd_ConnectionAttack c \<noteq> None \<or> nd_GraftFlood c \<noteq> None \<or> nd_IHaveSpam c \<noteq> None \<or> nd_IWantWithholding c \<noteq> None)"

definition HasActiveAttacks :: "NodeConfig \<Rightarrow> bool" where
  "HasActiveAttacks c = (pa_Active (map_option ta_Attack (nd_Forwarding c)) \<or> ptr_is (\<lambda>p. attackEnabled (co_Enabled (im_Control p))) (nd_InvalidMessage c)
     \<or> pa_Active (nd_Sink c) \<or> pa_Active (map_option ce_Attack (nd_Censorship c)) \<or> pa_Active (map_option md_Attack (nd_MessageDelay c))
     \<or> ptr_is (\<lambda>p. attackEnabled (ca_Enabled p)) (nd_ConnectionAttack c) \<or> ptr_is (\<lambda>p. attackEnabled (co_Enabled (gf_Control p))) (nd_GraftFlood c)
     \<or> ptr_is (\<lambda>p. attackEnabled (co_Enabled (ih_Control p))) (nd_IHaveSpam c) \<or> pa_Active (map_option ta_Attack (nd_IWantWithholding c)))"

definition opt_list :: "('a \<Rightarrow> 'b) \<Rightarrow> 'a option \<Rightarrow> 'b list" where
  "opt_list f p = (case p of None \<Rightarrow> [] | Some x \<Rightarrow> [f x])"

definition AttackSelectors :: "NodeConfig \<Rightarrow> AttackSelector option list" where
  "AttackSelectors c = opt_list ta_Targets (nd_Forwarding c) @ opt_list (\<lambda>p. co_Targets (im_Control p)) (nd_InvalidMessage c)
     @ opt_list ce_Publishers (nd_Censorship c) @ opt_list ca_Targets (nd_ConnectionAttack c)
     @ opt_list (\<lambda>p. co_Targets (gf_Control p)) (nd_GraftFlood c) @ opt_list (\<lambda>p. co_Targets (ih_Control p)) (nd_IHaveSpam c)
     @ opt_list ta_Targets (nd_IWantWithholding c)"

definition ValidateAttackRole :: "NodeConfig \<Rightarrow> string \<Rightarrow> unit result" where
  "ValidateAttackRole c role = check (HasActiveAttacks c \<and> role \<noteq> ''worker'') ''active attack options require role worker''"

subsection \<open>Attack syntax\<close>

definition check_invalid_message :: "InvalidMessageConfig \<Rightarrow> unit result" where
  "check_invalid_message p =
     rbind (check (im_Mode p \<noteq> [] \<and> im_Mode p \<noteq> ''invalid-signature'' \<and> im_Mode p \<noteq> ''malformed-protobuf'')
       ''invalidMessage.mode must be invalid-signature or malformed-protobuf'') (\<lambda>_.
     rbind (check (ptr_is (\<lambda>v. v < 1 \<or> v > 1024) (im_MessagesPerPeer p)) ''invalidMessage.messagesPerPeer must be in [1, 1024]'') (\<lambda>_.
     rbind (check (ptr_is (\<lambda>v. v < 1 \<or> v > 1048576) (im_PayloadSize p)) ''invalidMessage.payloadSize must be in [1, 1048576]'') (\<lambda>_.
     if co_Interval (im_Control p) = [] then Inr () else pubsubDuration ''invalidMessage.interval'' (co_Interval (im_Control p)) True)))"

fun distinct_topics :: "string list \<Rightarrow> string list \<Rightarrow> unit result" where
  "distinct_topics [] seen = Inr ()"
| "distinct_topics (topic # topics) seen =
     rbind (check (topic = [] \<or> topic \<in> set seen) ''attack topics must contain distinct nonblank values'') (\<lambda>_.
     distinct_topics topics (topic # seen))"

definition attack_topics :: "NodeConfig \<Rightarrow> string list list" where
  "attack_topics c = map elems (opt_list ta_Topics (nd_Forwarding c) @ opt_list (\<lambda>p. co_Topics (im_Control p)) (nd_InvalidMessage c)
     @ opt_list ce_Topics (nd_Censorship c) @ opt_list (\<lambda>p. co_Topics (gf_Control p)) (nd_GraftFlood c)
     @ opt_list (\<lambda>p. co_Topics (ih_Control p)) (nd_IHaveSpam c) @ opt_list ta_Topics (nd_IWantWithholding c))"

definition attack_durations :: "NodeConfig \<Rightarrow> (string \<times> string) list" where
  "attack_durations c =
     (let field = (\<lambda>name value. (name, case value of None \<Rightarrow> [] | Some s \<Rightarrow> s)) in
      [field ''messageDelay.delay'' (map_option md_Delay (nd_MessageDelay c)),
       field ''connectionAttack.retryInterval'' (map_option ca_RetryInterval (nd_ConnectionAttack c)),
       field ''graftFlood.interval'' (map_option (\<lambda>p. co_Interval (gf_Control p)) (nd_GraftFlood c)),
       field ''ihaveSpam.interval'' (map_option (\<lambda>p. co_Interval (ih_Control p)) (nd_IHaveSpam c))])"

definition attack_counts :: "NodeConfig \<Rightarrow> int option list" where
  "attack_counts c = concat (opt_list (\<lambda>p. [md_MaxPendingBytes p, md_MaxPendingMessages p]) (nd_MessageDelay c)
     @ opt_list (\<lambda>p. [ca_TargetConnections p]) (nd_ConnectionAttack c) @ opt_list (\<lambda>p. [gf_GraftsPerPeer p]) (nd_GraftFlood c)
     @ opt_list (\<lambda>p. [ih_IDsPerRPC p, ih_RPCsPerPeer p]) (nd_IHaveSpam c))"

definition ValidateAttackSyntax :: "golib \<Rightarrow> NodeConfig \<Rightarrow> unit result" where
  "ValidateAttackSyntax lb c =
     rbind (case nd_Forwarding c of None \<Rightarrow> Inr () | Some f \<Rightarrow> wrap ''forwarding: '' (pa_Validate (ta_Attack f))) (\<lambda>_.
     rbind (case nd_InvalidMessage c of None \<Rightarrow> Inr () | Some p \<Rightarrow> check_invalid_message p) (\<lambda>_.
     rbind (check_all (\<lambda>topics. distinct_topics topics []) (attack_topics c)) (\<lambda>_.
     rbind (check (ptr_is (\<lambda>p. ptr_is (\<lambda>v. v > 65536) (gf_GraftsPerPeer p)) (nd_GraftFlood c)) ''graftsPerPeer must not exceed 65536'') (\<lambda>_.
     rbind (case nd_IHaveSpam c of None \<Rightarrow> Inr ()
       | Some p \<Rightarrow> check_all (\<lambda>value. check (ptr_is (\<lambda>v. v > 65536) value) ''IHAVE counts must not exceed 65536'') [ih_IDsPerRPC p, ih_RPCsPerPeer p]) (\<lambda>_.
     rbind (check_all pa_Validate (opt_list (\<lambda>p. p) (nd_Sink c) @ opt_list ce_Attack (nd_Censorship c) @ opt_list md_Attack (nd_MessageDelay c)
       @ opt_list ta_Attack (nd_IWantWithholding c))) (\<lambda>_.
     rbind (check_all (se_Validate lb) (AttackSelectors c)) (\<lambda>_.
     rbind (check_all (\<lambda>(name, value). if value = [] then Inr () else pubsubDuration name value True) (attack_durations c)) (\<lambda>_.
     check_all (\<lambda>value. check (ptr_is (\<lambda>v. v \<le> 0) value) ''attack counts and queue limits must be positive'') (attack_counts c)))))))))"

subsection \<open>Attack semantics\<close>

definition attack_topics_ok :: "NodeConfig \<Rightarrow> string list option \<Rightarrow> bool \<Rightarrow> unit result" where
  "attack_topics_ok c values required =
     rbind (check (required \<and> elems values = []) ''active control attack requires explicit topics'') (\<lambda>_.
     check_all (\<lambda>t. check (t = [] \<or> t \<notin> set (elems (gs_Topics (nd_GossipSub c)))) ''attack topic is not a configured topic'') (elems values))"

definition check_censorship :: "NodeConfig \<Rightarrow> unit result" where
  "check_censorship c =
     (case nd_Censorship c of None \<Rightarrow> Inr ()
      | Some p \<Rightarrow>
          rbind (attack_topics_ok c (ce_Topics p) False) (\<lambda>_.
          rbind (check (pa_Active (Some (ce_Attack p)) \<and> elems (ce_Topics p) = [] \<and> se_Empty (ce_Publishers p))
            ''active censorship requires topics or publishers'') (\<lambda>_.
          check (pa_Active (Some (ce_Attack p)) \<and> \<not> se_Empty (ce_Publishers p) \<and> gs_SignaturePolicy (nd_GossipSub c) \<noteq> []
              \<and> gs_SignaturePolicy (nd_GossipSub c) \<noteq> ''strict-sign'') ''publisher censorship requires strict-sign'')))"

definition check_message_delay :: "NodeConfig \<Rightarrow> unit result" where
  "check_message_delay c =
     (case nd_MessageDelay c of None \<Rightarrow> Inr ()
      | Some p \<Rightarrow>
          rbind (check ((md_Delay p \<noteq> [] \<or> pa_Active (Some (md_Attack p))) \<and> (case ParseDuration (md_Delay p) of Inl _ \<Rightarrow> True | Inr d \<Rightarrow> d \<le> 0))
            ''messageDelay.delay must be a positive duration'') (\<lambda>_.
          rbind (deref (md_MaxPendingMessages p)) (\<lambda>messages.
          rbind (deref (md_MaxPendingBytes p)) (\<lambda>bytes.
          check (messages \<le> 0 \<or> bytes \<le> 0) ''messageDelay queue limits must be positive''))))"

definition check_connection_attack :: "NodeConfig \<Rightarrow> unit result" where
  "check_connection_attack c =
     (case nd_ConnectionAttack c of None \<Rightarrow> Inr ()
      | Some p \<Rightarrow>
          rbind (check (ca_TargetConnections p = None \<or> ptr_is (\<lambda>v. v \<le> 0) (ca_TargetConnections p)) ''targetConnections must be positive'') (\<lambda>_.
          rbind (pubsubDuration ''connectionAttack.retryInterval'' (ca_RetryInterval p) True) (\<lambda>_.
          rbind (check (attackEnabled (ca_Enabled p) \<and> se_Empty (ca_Targets p)) ''active connectionAttack requires targets'') (\<lambda>_.
          check (attackEnabled (ca_Enabled p) \<and> ptr_is (\<lambda>limit. limit > 0 \<and> ptr_is (\<lambda>n. n > limit) (ca_TargetConnections p))
              (lp_ConnectionLimit (nd_Libp2p c))) ''targetConnections exceeds the libp2p connection limit''))))"

definition check_control :: "NodeConfig \<Rightarrow> ControlAttackConfig \<Rightarrow> unit result" where
  "check_control c p =
     rbind (attack_topics_ok c (co_Topics p) (attackEnabled (co_Enabled p))) (\<lambda>_.
     pubsubDuration ''control attack interval'' (co_Interval p) True)"

definition check_graft_flood :: "NodeConfig \<Rightarrow> unit result" where
  "check_graft_flood c =
     (case nd_GraftFlood c of None \<Rightarrow> Inr ()
      | Some p \<Rightarrow>
          rbind (check_control c (gf_Control p)) (\<lambda>_.
          rbind (deref (gf_GraftsPerPeer p)) (\<lambda>n. check (n \<le> 0 \<or> n > 65536) ''graftsPerPeer must be in [1, 65536]'')))"

definition check_ihave_spam :: "NodeConfig \<Rightarrow> unit result" where
  "check_ihave_spam c =
     (case nd_IHaveSpam c of None \<Rightarrow> Inr ()
      | Some p \<Rightarrow>
          rbind (check_control c (ih_Control p)) (\<lambda>_.
          rbind (deref (ih_IDsPerRPC p)) (\<lambda>ids.
          rbind (deref (ih_RPCsPerPeer p)) (\<lambda>rpcs.
          check (ids \<le> 0 \<or> ids > 65536 \<or> rpcs \<le> 0 \<or> rpcs > 65536) ''IHAVE counts must be in [1, 65536]''))))"

definition check_active_attacks :: "NodeConfig \<Rightarrow> unit result" where
  "check_active_attacks c =
     (if \<not> HasActiveAttacks c then Inr ()
      else
        rbind (check (gs_Enabled (nd_GossipSub c) \<noteq> Some True \<or> gs_Router (nd_GossipSub c) \<noteq> ''gossipsub'') ''active attacks require enabled GossipSub'') (\<lambda>_.
        check ((pa_Active (nd_Sink c) \<or> pa_Active (map_option ce_Attack (nd_Censorship c)) \<or> pa_Active (map_option md_Attack (nd_MessageDelay c)))
            \<and> gs_TopicMode (nd_GossipSub c) \<noteq> ''subscribe'' \<and> gs_TopicMode (nd_GossipSub c) \<noteq> ''relay'')
          ''receive attacks require subscribe or relay topic mode''))"

definition ValidateAttacks :: "golib \<Rightarrow> NodeConfig \<Rightarrow> unit result" where
  "ValidateAttacks lb c0 =
     rbind (ValidateAttackSyntax lb c0) (\<lambda>_.
     let c = defaultAttacks lb c0 in
     rbind (check_all (\<lambda>(name, p). case p of None \<Rightarrow> Inr () | Some p \<Rightarrow> wrap (name @ '': '') (pa_Validate p))
       [(''sink'', nd_Sink c), (''censorship'', map_option ce_Attack (nd_Censorship c)), (''messageDelay'', map_option md_Attack (nd_MessageDelay c)),
        (''iwantWithholding'', map_option ta_Attack (nd_IWantWithholding c))]) (\<lambda>_.
     rbind (check_all (se_Validate lb) (AttackSelectors c)) (\<lambda>_.
     rbind (check_censorship c) (\<lambda>_.
     rbind (check_message_delay c) (\<lambda>_.
     rbind (check_connection_attack c) (\<lambda>_.
     rbind (check_graft_flood c) (\<lambda>_.
     rbind (check_ihave_spam c) (\<lambda>_.
     rbind (case nd_IWantWithholding c of None \<Rightarrow> Inr () | Some p \<Rightarrow> attack_topics_ok c (ta_Topics p) False) (\<lambda>_.
     rbind (case nd_Forwarding c of None \<Rightarrow> Inr () | Some p \<Rightarrow> attack_topics_ok c (ta_Topics p) False) (\<lambda>_.
     rbind (case nd_InvalidMessage c of None \<Rightarrow> Inr () | Some p \<Rightarrow> check_control c (im_Control p)) (\<lambda>_.
     check_active_attacks c)))))))))))"

subsection \<open>Validation of a node\<close>

definition check_kademlia_node :: "golib \<Rightarrow> KademliaConfig \<Rightarrow> unit result" where
  "check_kademlia_node lb k =
     (if ka_Enabled k \<noteq> Some True then Inr ()
      else
        rbind (wrap ''kademlia: '' (kademlia_Validate lb k)) (\<lambda>_.
        rbind (check (ka_ProtocolID k \<noteq> [] \<and> ka_ProtocolPrefix k \<noteq> []) ''kademlia protocolId and protocolPrefix are mutually exclusive'') (\<lambda>_.
        rbind (check (ka_ProtocolID k \<noteq> [] \<and> ka_ProtocolExtension k \<noteq> []) ''kademlia protocolExtension cannot be combined with protocolId'') (\<lambda>_.
        rbind (check (ka_Mode k \<notin> {''auto'', ''auto-server'', ''client'', ''server''}) ''invalid kademlia mode'') (\<lambda>_.
        rbind (check (ptr_is (\<lambda>v. v \<le> 0) (ka_BucketSize k)) ''kademlia bucketSize must be positive'') (\<lambda>_.
        rbind (check (ptr_is (\<lambda>v. v \<le> 0) (ka_Concurrency k)) ''kademlia concurrency must be positive'') (\<lambda>_.
        rbind (check (ptr_is (\<lambda>v. v < 0) (ka_Resiliency k)) ''kademlia resiliency cannot be negative'') (\<lambda>_.
        rbind (check (ptr_is (\<lambda>v. v \<le> 0) (ka_LookupCheckConcurrency k)) ''kademlia lookupCheckConcurrency must be positive'') (\<lambda>_.
        check (ptr_is (\<lambda>v. v \<le> 0) (ka_OptimisticProvideJobsPoolSize k)) ''kademlia optimisticProvideJobsPoolSize must be positive'')))))))))"

text \<open>The degree, history and factor checks of the gossipsub router. A degree that reaches the division is positive.\<close>

definition check_degrees :: "GossipSubParamsConfig \<Rightarrow> unit result" where
  "check_degrees p =
     rbind (deref (gp_D p)) (\<lambda>d. rbind (deref (gp_DLow p)) (\<lambda>dLow. rbind (deref (gp_DHigh p)) (\<lambda>dHigh.
     rbind (deref (gp_DScore p)) (\<lambda>dScore. rbind (deref (gp_DOut p)) (\<lambda>dOut. rbind (deref (gp_DLazy p)) (\<lambda>dLazy.
     rbind (check (dLow > d \<or> d > dHigh) ''gossipsub degree must satisfy dLow <= d <= dHigh'') (\<lambda>_.
     rbind (check (d \<le> 0 \<or> dLow < 0 \<or> dHigh \<le> 0 \<or> dScore < 0 \<or> dScore > d \<or> dLazy < 0)
       ''gossipsub degrees must be non-negative, with positive d/dHigh and dScore <= d'') (\<lambda>_.
     check (dOut < 0 \<or> dOut \<ge> dLow \<or> dOut > d div 2) ''gossipsub dOut must be < dLow and <= d/2''))))))))"

definition check_history :: "GossipSubParamsConfig \<Rightarrow> unit result" where
  "check_history p =
     rbind (deref (gp_HistoryLength p)) (\<lambda>len. rbind (deref (gp_HistoryGossip p)) (\<lambda>gossip.
     rbind (check (len \<le> 0 \<or> gossip < 0 \<or> gossip > len) ''gossipsub history requires 0 <= historyGossip <= historyLength'') (\<lambda>_.
     rbind (deref (gp_DirectConnectTicks p)) (\<lambda>direct. rbind (deref (gp_OpportunisticGraftTicks p)) (\<lambda>opp.
     check (direct = 0 \<or> opp = 0) ''gossipsub directConnectTicks and opportunisticGraftTicks must be positive'')))))"

definition check_factors :: "GossipSubParamsConfig \<Rightarrow> unit result" where
  "check_factors p =
     rbind (deref (gp_GossipFactor p)) (\<lambda>factor.
     rbind (check (\<not> validNumber factor \<or> f_lt factor (Fin 0) \<or> f_lt (Fin 1) factor) ''gossipsub gossipFactor must be finite and in [0, 1]'') (\<lambda>_.
     rbind (deref (gp_HopwaveFactor p)) (\<lambda>hopwave.
     rbind (check (\<not> validNumber hopwave \<or> f_lt hopwave (Fin 0) \<or> f_lt (Fin 1) hopwave) ''gossipsub hopwaveFactor must be finite and in [0, 1]'') (\<lambda>_.
     rbind (deref (gp_HopwaveInterval p)) (\<lambda>interval.
     rbind (check (interval < 1 \<or> interval > 2147483647) ''gossipsub hopwaveInterval must be in [1, 2147483647]'') (\<lambda>_.
     rbind (deref (gp_SlowHeartbeatWarning p)) (\<lambda>slow.
     check (\<not> validNumber slow \<or> f_lt slow (Fin 0)) ''gossipsub slowHeartbeatWarning must be finite and non-negative'')))))))"

definition check_counts :: "GossipSubParamsConfig \<Rightarrow> unit result" where
  "check_counts p = check_all (\<lambda>(name, value). rbind (deref value) (\<lambda>v. check (v < 0) (''gossipsub '' @ name @ '' cannot be negative'')))
     [(''gossipRetransmission'', gp_GossipRetransmission p), (''prunePeers'', gp_PrunePeers p), (''connectors'', gp_Connectors p),
      (''maxPendingConnections'', gp_MaxPendingConnections p), (''opportunisticGraftPeers'', gp_OpportunisticGraftPeers p),
      (''maxIHaveLength'', gp_MaxIHaveLength p), (''maxIHaveMessages'', gp_MaxIHaveMessages p), (''maxIDontWantLength'', gp_MaxIDontWantLength p),
      (''maxIDontWantMessages'', gp_MaxIDontWantMessages p), (''iDontWantMessageThreshold'', gp_IDontWantMessageThreshold p),
      (''iDontWantMessageTTL'', gp_IDontWantMessageTTL p)]"

definition check_params :: "GossipSubParamsConfig \<Rightarrow> unit result" where
  "check_params p = rbind (check_degrees p) (\<lambda>_. rbind (check_history p) (\<lambda>_. rbind (check_factors p) (\<lambda>_. check_counts p)))"

definition check_discovery_routing :: "NodeConfig \<Rightarrow> unit result" where
  "check_discovery_routing c =
     (let k = nd_Kademlia c in
      check (ptr_is (\<lambda>d. ds_Mode d = ''routing'') (gs_Discovery (nd_GossipSub c))
          \<and> (ka_Enabled k \<noteq> Some True \<or> ptr_is (\<lambda>b. b) (ka_DisableProviders k) \<or> ptr_is (\<lambda>s. kp_Mode s = ''null'') (ka_ProviderStore k)))
        ''routing discovery requires enabled Kademlia providers and provider storage'')"

definition check_router :: "GossipSubConfig \<Rightarrow> unit result" where
  "check_router g =
     rbind (check (elems (gs_Topics g) = []) ''gossipsub topics cannot be empty'') (\<lambda>_.
     rbind (check (gs_Router g \<notin> {''gossipsub'', ''floodsub'', ''randomsub''}) ''invalid pubsub router'') (\<lambda>_.
     rbind (check (gs_TopicMode g \<notin> {''subscribe'', ''relay'', ''publish''}) ''invalid topicMode'') (\<lambda>_.
     rbind (if gs_Router g = ''randomsub'' then
         rbind (check (gs_RandomDegree g = None \<or> ptr_is (\<lambda>v. v \<le> 0) (gs_RandomDegree g)) ''randomsub requires a positive randomDegree'') (\<lambda>_.
         check (gs_RandomNetworkSize g = None \<or> ptr_is (\<lambda>v. v \<le> 0) (gs_RandomNetworkSize g)) ''randomsub requires a positive randomNetworkSize'')
       else Inr ()) (\<lambda>_.
     if gs_Router g \<noteq> ''gossipsub'' then
       rbind (check (ptr_is score_IsEnabled (gs_Score g)) ''gossipsub score requires the gossipsub router'') (\<lambda>_.
       check (gs_FloodPublish g \<noteq> None \<or> gs_PeerExchange g \<noteq> None) ''floodPublish and peerExchange require the gossipsub router'')
     else Inr ()))))"

definition check_sizes :: "GossipSubConfig \<Rightarrow> unit result" where
  "check_sizes g =
     rbind (check_all (\<lambda>(name, value). check (ptr_is (\<lambda>v. v \<le> 0) value) (''gossipsub '' @ name @ '' must be positive''))
       [(''peerOutboundQueueSize'', gs_PeerOutboundQueueSize g), (''validateQueueSize'', gs_ValidateQueueSize g), (''validateWorkers'', gs_ValidateWorkers g)]) (\<lambda>_.
     check_all (\<lambda>(name, value). check (ptr_is (\<lambda>v. v < 0) value) (''gossipsub '' @ name @ '' cannot be negative''))
       [(''maxMessageSize'', gs_MaxMessageSize g), (''subscriptionBufferSize'', gs_SubscriptionBufferSize g), (''validateThrottle'', gs_ValidateThrottle g)])"

definition check_gossipsub_node :: "golib \<Rightarrow> NodeConfig \<Rightarrow> unit result" where
  "check_gossipsub_node lb c =
     (let g = nd_GossipSub c in
      if gs_Enabled g \<noteq> Some True then Inr ()
      else
        rbind (wrap ''gossipsub: '' (ValidateExtended lb g)) (\<lambda>_.
        rbind (check_discovery_routing c) (\<lambda>_.
        rbind (case gs_Score g of None \<Rightarrow> Inr ()
          | Some score \<Rightarrow> if \<not> score_IsEnabled score then Inr ()
              else check_all (\<lambda>(topic, _). check (\<not> pubsubContains (elems (gs_Topics g)) topic) ''gossipsub score refers to unjoined topic'') (ps_Topics score)) (\<lambda>_.
        rbind (check_router g) (\<lambda>_.
        rbind (check_sizes g) (\<lambda>_.
        rbind (if gs_Router g = ''gossipsub'' then check_params (gs_Params g) else Inr ()) (\<lambda>_.
        rbind (check (gs_SignaturePolicy g \<notin> {[], ''strict-sign'', ''strict-no-sign'', ''lax-sign'', ''lax-no-sign''}) ''invalid signaturePolicy'') (\<lambda>_.
        case gs_Score g of None \<Rightarrow> Inr () | Some score \<Rightarrow> wrap ''gossipsub score: '' (score_validate lb score)))))))))"

text \<open>The named durations, each with whether zero is refused.\<close>

definition node_durations :: "NodeConfig \<Rightarrow> (string \<times> string \<times> bool) list" where
  "node_durations c =
     (let k = nd_Kademlia c; g = nd_GossipSub c; p = gs_Params g in
      [(''libp2p.dialTimeout'', lp_DialTimeout (nd_Libp2p c), True),
       (''kademlia.routingTableLatencyTolerance'', ka_RoutingTableLatencyTolerance k, False),
       (''kademlia.routingTableRefreshPeriod'', ka_RoutingTableRefreshPeriod k, True),
       (''kademlia.routingTableRefreshTimeout'', ka_RoutingTableRefreshTimeout k, True),
       (''kademlia.maxRecordAge'', ka_MaxRecordAge k, False), (''kademlia.bootstrapTimeout'', ka_BootstrapTimeout k, True),
       (''kademlia.bootstrapRetryInterval'', ka_BootstrapRetryInterval k, True), (''gossipsub.seenMessagesTTL'', gs_SeenMessagesTTL g, False),
       (''gossipsub.scoreInspectInterval'', gs_ScoreInspectInterval g, False)]
      @ (if gs_Enabled g = Some True \<and> gs_Router g = ''gossipsub'' then
           [(''gossipsub.heartbeatInitialDelay'', gp_HeartbeatInitialDelay p, False), (''gossipsub.heartbeatInterval'', gp_HeartbeatInterval p, True),
            (''gossipsub.fanoutTTL'', gp_FanoutTTL p, False), (''gossipsub.pruneBackoff'', gp_PruneBackoff p, False),
            (''gossipsub.unsubscribeBackoff'', gp_UnsubscribeBackoff p, False), (''gossipsub.connectionTimeout'', gp_ConnectionTimeout p, False),
            (''gossipsub.directConnectInitialDelay'', gp_DirectConnectInitialDelay p, False),
            (''gossipsub.graftFloodThreshold'', gp_GraftFloodThreshold p, False), (''gossipsub.iWantFollowupTime'', gp_IWantFollowupTime p, False)]
         else []))"

definition check_node_duration :: "string \<times> string \<times> bool \<Rightarrow> unit result" where
  "check_node_duration entry =
     (case entry of (name, value, positive) \<Rightarrow>
        if value = [] then Inr ()
        else rbind (wrap (name @ '': '') (ParseDuration value)) (\<lambda>duration.
          rbind (check (duration < 0) (name @ '' cannot be negative'')) (\<lambda>_.
          check (duration = 0 \<and> positive) (name @ '' must be positive''))))"

definition check_connection_manager :: "Libp2pConfig \<Rightarrow> unit result" where
  "check_connection_manager l =
     (case lp_ConnectionManager l of None \<Rightarrow> Inr ()
      | Some cm \<Rightarrow>
          rbind (check (cm_LowWater cm < 0 \<or> cm_HighWater cm \<le> 0 \<or> cm_LowWater cm > cm_HighWater cm)
            ''connectionManager requires 0 <= lowWater <= highWater'') (\<lambda>_.
          if cm_GracePeriod cm = [] then Inr ()
          else rbind (wrap ''connectionManager.gracePeriod: '' (ParseDuration (cm_GracePeriod cm))) (\<lambda>grace.
            check (grace < 0) ''connectionManager.gracePeriod cannot be negative'')))"

definition node_Validate :: "golib \<Rightarrow> gomath \<Rightarrow> NodeConfig \<Rightarrow> unit result" where
  "node_Validate lb gm c0 =
     (let c = node_WithDefaults lb c0; g = nd_GossipSub c in
      rbind (ValidateAttacks lb c) (\<lambda>_.
      rbind (check (ptr_is (\<lambda>b. b) (gs_MeshFreeze g) \<and> gs_Enabled g \<noteq> Some True) ''meshFreeze requires enabled GossipSub'') (\<lambda>_.
      rbind (wrap ''network: '' (network_Validate gm (nd_Network c))) (\<lambda>_.
      rbind (check (nd_Type c = []) ''node type is required'') (\<lambda>_.
      rbind (check (ptr_is (\<lambda>v. v < 0) (lp_ConnectionLimit (nd_Libp2p c))) ''libp2p connectionLimit cannot be negative'') (\<lambda>_.
      rbind (check_kademlia_node lb (nd_Kademlia c)) (\<lambda>_.
      rbind (check_gossipsub_node lb c) (\<lambda>_.
      rbind (check_all check_node_duration (node_durations c)) (\<lambda>_.
      check_connection_manager (nd_Libp2p c))))))))))"

definition PublishAllowed :: "golib \<Rightarrow> NodeConfig \<Rightarrow> bool" where
  "PublishAllowed lb c0 =
     (let g = nd_GossipSub (node_WithDefaults lb c0) in ptr_is (\<lambda>b. b) (gs_Enabled g) \<and> ptr_is (\<lambda>b. b) (gs_AllowPublish g))"

subsection \<open>Presets\<close>

definition applyV2WorkerGossipDefaults :: "NodeConfig \<Rightarrow> NodeConfig" where
  "applyV2WorkerGossipDefaults c =
     c\<lparr>nd_GossipSub := (nd_GossipSub c)\<lparr>gs_Params := (gs_Params (nd_GossipSub c))\<lparr>gp_DLow := Some 5, gp_DScore := Some 3,
         gp_MaxIHaveLength := Some 5500, gp_HeartbeatInitialDelay := ''1s''\<rparr>\<rparr>\<rparr>"

text \<open>\<^verbatim>\<open>strings.ToLower\<close> on ASCII text.\<close>

definition to_lower :: "char \<Rightarrow> char" where
  "to_lower c = (if 65 \<le> (of_char c :: nat) \<and> (of_char c :: nat) \<le> 90 then char_of ((of_char c :: nat) + 32) else c)"

definition ToLower :: "string \<Rightarrow> string" where
  "ToLower s = map to_lower s"

definition preset_limits :: "string \<Rightarrow> int \<Rightarrow> NodeConfig \<Rightarrow> NodeConfig" where
  "preset_limits mode limit c =
     c\<lparr>nd_Kademlia := (nd_Kademlia c)\<lparr>ka_Mode := mode\<rparr>, nd_Libp2p := (nd_Libp2p c)\<lparr>lp_ConnectionLimit := Some limit\<rparr>\<rparr>"

definition on_gossip :: "(GossipSubConfig \<Rightarrow> GossipSubConfig) \<Rightarrow> NodeConfig \<Rightarrow> NodeConfig" where
  "on_gossip f c = c\<lparr>nd_GossipSub := f (nd_GossipSub c)\<rparr>"

text \<open>The switch over the kind; \<open>None\<close> is its default branch.\<close>

definition preset :: "string \<Rightarrow> NodeConfig option" where
  "preset kind =
     (let c = zero_node\<lparr>nd_Type := kind\<rparr>; worker = applyV2WorkerGossipDefaults in
      if kind = ''boot'' then
        Some (on_gossip (\<lambda>g. g\<lparr>gs_Enabled := Some False, gs_Params := (gs_Params g)\<lparr>gp_DScore := Some 3\<rparr>\<rparr>)
          (c\<lparr>nd_Kademlia := (nd_Kademlia c)\<lparr>ka_Mode := ''server''\<rparr>\<rparr>))
      else if kind = ''full'' \<or> kind = ''worker'' then Some (worker (preset_limits ''server'' 55 (c\<lparr>nd_Type := ''full''\<rparr>)))
      else if kind = ''light'' then Some (worker (preset_limits ''client'' 32 c))
      else if kind = ''publisher'' then
        Some (on_gossip (\<lambda>g. g\<lparr>gs_Subscribe := Some False, gs_TopicMode := ''publish''\<rparr>) (worker (preset_limits ''client'' 55 c)))
      else if kind = ''subscriber'' \<or> kind = ''observer'' then
        Some (on_gossip (\<lambda>g. g\<lparr>gs_AllowPublish := Some False\<rparr>) (worker (preset_limits ''client'' 55 c)))
      else if kind = ''relay'' then
        Some (on_gossip (\<lambda>g. g\<lparr>gs_TopicMode := ''relay'', gs_AllowPublish := Some False\<rparr>) (worker (preset_limits ''client'' 55 c)))
      else if kind = ''flood'' then Some (on_gossip (\<lambda>g. g\<lparr>gs_Router := ''floodsub''\<rparr>) (preset_limits ''client'' 55 c))
      else if kind = ''random'' then
        Some (on_gossip (\<lambda>g. g\<lparr>gs_Router := ''randomsub'', gs_RandomDegree := Some 6, gs_RandomNetworkSize := Some 100\<rparr>) (preset_limits ''client'' 55 c))
      else if kind = ''dht-only'' then Some (on_gossip (\<lambda>g. g\<lparr>gs_Enabled := Some False\<rparr>) (preset_limits ''server'' 55 c))
      else if kind = ''gossip-only'' then
        Some (worker (c\<lparr>nd_Kademlia := (nd_Kademlia c)\<lparr>ka_Enabled := Some False\<rparr>, nd_Libp2p := (nd_Libp2p c)\<lparr>lp_ConnectionLimit := Some 55\<rparr>\<rparr>))
      else if kind = ''non-gossip'' \<or> kind = ''mesh-only'' then
        Some (on_gossip (\<lambda>g. g\<lparr>gs_Params := (gs_Params g)\<lparr>gp_HistoryGossip := Some 0, gp_GossipFactor := Some (Fin 0)\<rparr>\<rparr>)
          (worker (preset_limits ''server'' 55 c)))
      else None)"

definition BuiltInNodeConfig :: "golib \<Rightarrow> string \<Rightarrow> NodeConfig \<times> bool" where
  "BuiltInNodeConfig lb kind =
     (case preset (ToLower (TrimSpace kind)) of None \<Rightarrow> (zero_node, False) | Some c \<Rightarrow> (node_WithDefaults lb c, True))"

end
