(* ===== verification/Profile_Config.thy ===== *)
theory Profile_Config
  imports Node_Validate
begin

text \<open>
  Runtime profile patches (\<^verbatim>\<open>internal/model/profile_schedule.go\<close>): the settings that may change while a Peer runs, their
  validation, application to a node configuration, the snapshot that acknowledges an application, and the check of such
  an acknowledgement by Agent and Controller.
\<close>

subsection \<open>Data\<close>

record RuntimeGossipSubParams =
  rg_D :: "int option"
  rg_DLow :: "int option"
  rg_DHigh :: "int option"
  rg_DScore :: "int option"
  rg_DOut :: "int option"
  rg_DLazy :: "int option"
  rg_GossipFactor :: "f64 option"
  rg_HopwaveFactor :: "f64 option"
  rg_HopwaveInterval :: "int option"

text \<open>\<^verbatim>\<open>RuntimeGossipSubConfig\<close> has the single field \<^verbatim>\<open>params\<close> and is represented by it.\<close>

record RuntimeProfilePatch =
  rp_Forwarding :: "ProbabilityAttack option"
  rp_Sink :: "ProbabilityAttack option"
  rp_Censorship :: "ProbabilityAttack option"
  rp_MessageDelay :: "ProbabilityAttack option"
  rp_GossipSub :: "RuntimeGossipSubParams option"
  rp_Network :: "NetworkConfig option"

record ProfileChange =
  pc_After :: string
  pc_Set :: RuntimeProfilePatch

record ProfileSchedule =
  sc_Reference :: string
  sc_Changes :: "ProfileChange list"

record ProfileUpdateRequest =
  ur_RunID :: string
  ur_Generation :: nat
  ur_Revision :: nat
  ur_Stage :: string
  ur_Set :: RuntimeProfilePatch

record ProfileUpdateResponse =
  us_NodeID :: string
  us_PeerID :: string
  us_Revision :: nat
  us_Stage :: string
  us_Effective :: RuntimeProfilePatch

definition zero_runtime :: RuntimeGossipSubParams where
  "zero_runtime = \<lparr>rg_D = None, rg_DLow = None, rg_DHigh = None, rg_DScore = None, rg_DOut = None, rg_DLazy = None,
     rg_GossipFactor = None, rg_HopwaveFactor = None, rg_HopwaveInterval = None\<rparr>"

definition HasAttacks :: "RuntimeProfilePatch \<Rightarrow> bool" where
  "HasAttacks p = (rp_Forwarding p \<noteq> None \<or> rp_Sink p \<noteq> None \<or> rp_Censorship p \<noteq> None \<or> rp_MessageDelay p \<noteq> None)"

definition patch_attacks :: "RuntimeProfilePatch \<Rightarrow> (string \<times> ProbabilityAttack option) list" where
  "patch_attacks p = [(''sink'', rp_Sink p), (''censorship'', rp_Censorship p), (''messageDelay'', rp_MessageDelay p), (''forwarding'', rp_Forwarding p)]"

subsection \<open>Validation of a patch\<close>

definition check_patch_attack :: "string \<times> ProbabilityAttack option \<Rightarrow> unit result" where
  "check_patch_attack entry =
     (case entry of (name, attack) \<Rightarrow> case attack of None \<Rightarrow> Inr ()
      | Some a \<Rightarrow>
          rbind (check (pa_Enabled a = None \<and> pa_Probability a = None) (name @ '' patch must not be empty'')) (\<lambda>_.
          wrap (name @ '': '') (pa_Validate a)))"

definition check_runtime_params :: "RuntimeGossipSubParams \<Rightarrow> unit result" where
  "check_runtime_params g =
     rbind (check (g = zero_runtime) ''gossipsub.params must not be empty'') (\<lambda>_.
     rbind (check_all (\<lambda>(name, value). check (ptr_is (\<lambda>v. v < 0 \<or> (name = ''d'' \<or> name = ''dHigh'' \<or> name = ''hopwaveInterval'') \<and> v = 0) value)
         (''invalid gossipsub.params.'' @ name))
       [(''d'', rg_D g), (''dLow'', rg_DLow g), (''dHigh'', rg_DHigh g), (''dScore'', rg_DScore g), (''dOut'', rg_DOut g), (''dLazy'', rg_DLazy g),
        (''hopwaveInterval'', rg_HopwaveInterval g)]) (\<lambda>_.
     rbind (check (ptr_is (\<lambda>v. v > 2147483647) (rg_HopwaveInterval g)) ''hopwaveInterval must not exceed 2147483647'') (\<lambda>_.
     check_all (\<lambda>(name, value). check (ptr_is (\<lambda>v. \<not> validNumber v \<or> f_lt v (Fin 0) \<or> f_lt (Fin 1) v) value) (name @ '' must be finite and in [0, 1]''))
       [(''gossipFactor'', rg_GossipFactor g), (''hopwaveFactor'', rg_HopwaveFactor g)])))"

definition check_patch_network :: "gomath \<Rightarrow> NetworkConfig \<Rightarrow> unit result" where
  "check_patch_network gm n =
     rbind (check (n = NetworkConfig zero_network None) ''network must not be empty'') (\<lambda>_.
     rbind (check (nc_Schedule n \<noteq> None \<or> nf_DelayDistribution (nc_fields n) \<noteq> None)
       ''schedule action network patches cannot contain schedule or delayDistribution; use concrete conditions'') (\<lambda>_.
     let base = network_Merge (NetworkConfig (zero_network\<lparr>nf_Delay := ''1ms''\<rparr>) None) n;
         base' = (if nf_ReorderPercent (nc_fields n) = None \<and> nf_ReorderCorrelationPercent (nc_fields n) \<noteq> None
                  then NetworkConfig ((nc_fields base)\<lparr>nf_ReorderPercent := Some (Fin 1)\<rparr>) (nc_Schedule base) else base)
     in wrap ''network: '' (network_Validate gm base')))"

definition patch_Validate :: "gomath \<Rightarrow> RuntimeProfilePatch \<Rightarrow> unit result" where
  "patch_Validate gm p =
     rbind (check_all check_patch_attack (patch_attacks p)) (\<lambda>_.
     rbind (check (rp_GossipSub p = None \<and> rp_Network p = None \<and> \<not> HasAttacks p) ''set requires gossipsub.params, network, or attack options'') (\<lambda>_.
     rbind (case rp_GossipSub p of None \<Rightarrow> Inr () | Some g \<Rightarrow> check_runtime_params g) (\<lambda>_.
     case rp_Network p of None \<Rightarrow> Inr () | Some n \<Rightarrow> check_patch_network gm n)))"

subsection \<open>Application\<close>

definition nodeParams :: "RuntimeGossipSubParams \<Rightarrow> GossipSubParamsConfig" where
  "nodeParams g = zero_params\<lparr>gp_D := rg_D g, gp_DLow := rg_DLow g, gp_DHigh := rg_DHigh g, gp_DScore := rg_DScore g, gp_DOut := rg_DOut g,
     gp_DLazy := rg_DLazy g, gp_GossipFactor := rg_GossipFactor g, gp_HopwaveFactor := rg_HopwaveFactor g, gp_HopwaveInterval := rg_HopwaveInterval g\<rparr>"

definition patch_overlay :: "RuntimeProfilePatch \<Rightarrow> NodeConfig" where
  "patch_overlay p =
     zero_node\<lparr>nd_Sink := rp_Sink p,
       nd_Forwarding := map_option (\<lambda>a. zero_targeted\<lparr>ta_Attack := a\<rparr>) (rp_Forwarding p),
       nd_Censorship := map_option (\<lambda>a. zero_censorship\<lparr>ce_Attack := a\<rparr>) (rp_Censorship p),
       nd_MessageDelay := map_option (\<lambda>a. zero_delay_attack\<lparr>md_Attack := a\<rparr>) (rp_MessageDelay p),
       nd_GossipSub := zero_gossipsub\<lparr>gs_Params := (case rp_GossipSub p of None \<Rightarrow> zero_params | Some g \<Rightarrow> nodeParams g)\<rparr>,
       nd_Network := (case rp_Network p of None \<Rightarrow> NetworkConfig zero_network None | Some n \<Rightarrow> n)\<rparr>"

text \<open>The guard on the router; after the defaults \<^verbatim>\<open>enabled\<close> is never nil.\<close>

definition runs_gossipsub :: "NodeConfig \<Rightarrow> bool result" where
  "runs_gossipsub c = rbind (deref (gs_Enabled (nd_GossipSub c))) (\<lambda>enabled. Inr (enabled \<and> gs_Router (nd_GossipSub c) = ''gossipsub''))"

definition patch_Apply :: "golib \<Rightarrow> gomath \<Rightarrow> RuntimeProfilePatch \<Rightarrow> NodeConfig \<Rightarrow> NodeConfig result" where
  "patch_Apply lb gm p base0 =
     rbind (patch_Validate gm p) (\<lambda>_.
     let base = node_WithDefaults lb base0 in
     rbind (if HasAttacks p then rbind (runs_gossipsub base) (\<lambda>ok. check (\<not> ok) ''attack runtime changes require enabled GossipSub'') else Inr ()) (\<lambda>_.
     rbind (if rp_GossipSub p \<noteq> None then rbind (runs_gossipsub base) (\<lambda>ok. check (\<not> ok) ''gossipsub runtime changes require enabled GossipSub'') else Inr ()) (\<lambda>_.
     rbind (check (rp_Network p \<noteq> None \<and> network_Scheduled (nd_Network base))
       ''schedule action network changes cannot overlap network.schedule on the same Peer'') (\<lambda>_.
     let updated = node_WithDefaults lb (node_Merge base (patch_overlay p)) in
     rbind (node_Validate lb gm updated) (\<lambda>_. Inr updated)))))"

subsection \<open>Snapshots\<close>

definition runtime_params :: "GossipSubParamsConfig \<Rightarrow> RuntimeGossipSubParams" where
  "runtime_params g = \<lparr>rg_D = gp_D g, rg_DLow = gp_DLow g, rg_DHigh = gp_DHigh g, rg_DScore = gp_DScore g, rg_DOut = gp_DOut g, rg_DLazy = gp_DLazy g,
     rg_GossipFactor = gp_GossipFactor g, rg_HopwaveFactor = gp_HopwaveFactor g, rg_HopwaveInterval = gp_HopwaveInterval g\<rparr>"

definition RuntimeProfileSnapshot :: "golib \<Rightarrow> NodeConfig \<Rightarrow> RuntimeProfilePatch" where
  "RuntimeProfileSnapshot lb c0 =
     (let c = node_WithDefaults lb c0 in
      \<lparr>rp_Forwarding = map_option ta_Attack (nd_Forwarding c), rp_Sink = nd_Sink c, rp_Censorship = map_option ce_Attack (nd_Censorship c),
       rp_MessageDelay = map_option md_Attack (nd_MessageDelay c), rp_GossipSub = Some (runtime_params (gs_Params (nd_GossipSub c))),
       rp_Network = Some (network_Initial (nd_Network c))\<rparr>)"

definition only_if :: "'a option \<Rightarrow> 'b option \<Rightarrow> 'b option" where
  "only_if p q = (if p = None then None else q)"

definition patch_Snapshot :: "golib \<Rightarrow> RuntimeProfilePatch \<Rightarrow> NodeConfig \<Rightarrow> RuntimeProfilePatch" where
  "patch_Snapshot lb p c =
     (let r = RuntimeProfileSnapshot lb c in
      \<lparr>rp_Forwarding = only_if (rp_Forwarding p) (rp_Forwarding r), rp_Sink = only_if (rp_Sink p) (rp_Sink r),
       rp_Censorship = only_if (rp_Censorship p) (rp_Censorship r), rp_MessageDelay = only_if (rp_MessageDelay p) (rp_MessageDelay r),
       rp_GossipSub = only_if (rp_GossipSub p) (rp_GossipSub r), rp_Network = only_if (rp_Network p) (rp_Network r)\<rparr>)"

definition check_snapshot_attack :: "string \<times> ProbabilityAttack option \<Rightarrow> unit result" where
  "check_snapshot_attack entry =
     (case entry of (name, attack) \<Rightarrow> case attack of None \<Rightarrow> Inr ()
      | Some a \<Rightarrow>
          rbind (check (pa_Enabled a = None \<or> pa_Probability a = None) (''incomplete runtime '' @ name @ '' snapshot'')) (\<lambda>_. pa_Validate a))"

definition incomplete_params :: "RuntimeGossipSubParams \<Rightarrow> bool" where
  "incomplete_params g = (rg_D g = None \<or> rg_DLow g = None \<or> rg_DHigh g = None \<or> rg_DScore g = None \<or> rg_DOut g = None \<or> rg_DLazy g = None
     \<or> rg_GossipFactor g = None \<or> rg_HopwaveFactor g = None \<or> rg_HopwaveInterval g = None)"

definition ValidateRuntimeProfileSnapshot :: "golib \<Rightarrow> gomath \<Rightarrow> RuntimeProfilePatch \<Rightarrow> unit result" where
  "ValidateRuntimeProfileSnapshot lb gm p =
     rbind (check_all check_snapshot_attack (patch_attacks p)) (\<lambda>_.
     rbind (check (rp_GossipSub p = None \<and> rp_Network p = None \<and> \<not> HasAttacks p) ''empty runtime profile snapshot'') (\<lambda>_.
     rbind (case rp_GossipSub p of None \<Rightarrow> Inr ()
       | Some g \<Rightarrow>
           rbind (check (incomplete_params g) ''incomplete runtime GossipSub snapshot'') (\<lambda>_.
           node_Validate lb gm (zero_node\<lparr>nd_GossipSub := zero_gossipsub\<lparr>gs_Params := nodeParams g\<rparr>\<rparr>))) (\<lambda>_.
     case rp_Network p of None \<Rightarrow> Inr ()
     | Some n \<Rightarrow>
         rbind (check (nc_Schedule n \<noteq> None \<or> nf_DelayDistribution (nc_fields n) \<noteq> None) ''runtime network snapshot must be concrete'') (\<lambda>_.
         network_Validate gm n))))"

subsection \<open>Acknowledgements\<close>

definition differs :: "('a \<Rightarrow> 'a \<Rightarrow> bool) \<Rightarrow> 'a option \<Rightarrow> 'a option \<Rightarrow> bool result" where
  "differs eq wanted got = (case wanted of None \<Rightarrow> Inr False | Some w \<Rightarrow> rbind (deref got) (\<lambda>g. Inr (\<not> eq w g)))"

definition f_eq :: "f64 \<Rightarrow> f64 \<Rightarrow> bool" where
  "f_eq a b = (a = b \<and> a \<noteq> NaN)"

definition check_ack_attack :: "ProbabilityAttack option \<times> ProbabilityAttack option \<Rightarrow> unit result" where
  "check_ack_attack pair =
     (case pair of (wanted, got) \<Rightarrow> case wanted of None \<Rightarrow> Inr ()
      | Some w \<Rightarrow>
          rbind (deref got) (\<lambda>g.
          rbind (differs (=) (pa_Enabled w) (pa_Enabled g)) (\<lambda>e.
          rbind (if e then Inr True else differs f_eq (pa_Probability w) (pa_Probability g)) (\<lambda>bad.
          check bad ''profile acknowledgement does not contain requested attack values''))))"

definition ValidateProfileAcknowledgement :: "golib \<Rightarrow> gomath \<Rightarrow> ProfileUpdateRequest \<Rightarrow> ProfileUpdateResponse \<Rightarrow> unit result" where
  "ValidateProfileAcknowledgement lb gm request response =
     (let wanted = ur_Set request; actual = us_Effective response in
      rbind (check ((rp_Forwarding wanted = None) \<noteq> (rp_Forwarding actual = None) \<or> (rp_GossipSub wanted = None) \<noteq> (rp_GossipSub actual = None)
          \<or> (rp_Network wanted = None) \<noteq> (rp_Network actual = None) \<or> (rp_Sink wanted = None) \<noteq> (rp_Sink actual = None)
          \<or> (rp_Censorship wanted = None) \<noteq> (rp_Censorship actual = None) \<or> (rp_MessageDelay wanted = None) \<noteq> (rp_MessageDelay actual = None))
        ''profile acknowledgement fields do not match the request'') (\<lambda>_.
      rbind (ValidateRuntimeProfileSnapshot lb gm actual) (\<lambda>_.
      rbind (check_all check_ack_attack [(rp_Forwarding wanted, rp_Forwarding actual), (rp_Sink wanted, rp_Sink actual),
        (rp_Censorship wanted, rp_Censorship actual), (rp_MessageDelay wanted, rp_MessageDelay actual)]) (\<lambda>_.
      let ordinary = wanted\<lparr>rp_Forwarding := None, rp_Sink := None, rp_Censorship := None, rp_MessageDelay := None\<rparr> in
      if rp_GossipSub ordinary = None \<and> rp_Network ordinary = None then Inr ()
      else
        let base = zero_node\<lparr>nd_GossipSub := zero_gossipsub\<lparr>gs_Params := (case rp_GossipSub actual of None \<Rightarrow> zero_params | Some g \<Rightarrow> nodeParams g)\<rparr>,
              nd_Network := (case rp_Network actual of None \<Rightarrow> NetworkConfig zero_network None | Some n \<Rightarrow> n)\<rparr> in
        rbind (patch_Apply lb gm ordinary base) (\<lambda>updated.
        let expected = patch_Snapshot lb ordinary updated in
        check (rp_GossipSub expected \<noteq> rp_GossipSub actual \<or> rp_Network expected \<noteq> rp_Network actual)
          ''profile acknowledgement does not contain the requested values'')))))"

subsection \<open>Schedules and requests\<close>

definition profile_Clock :: "ProfileSchedule \<Rightarrow> string" where
  "profile_Clock s = (if sc_Reference s = [] then ''phase-start'' else sc_Reference s)"

fun profile_changes :: "gomath \<Rightarrow> ProfileChange list \<Rightarrow> int option \<Rightarrow> unit result" where
  "profile_changes gm [] previous = Inr ()"
| "profile_changes gm (change # changes) previous =
     (case ParseDuration (pc_After change) of
        Inl _ \<Rightarrow> Inl (Fail ''schedule.changes.after must be non-negative and strictly increasing'')
      | Inr after \<Rightarrow>
          rbind (check (after < 0 \<or> ptr_is (\<lambda>p. after \<le> p) previous) ''schedule.changes.after must be non-negative and strictly increasing'') (\<lambda>_.
          rbind (wrap ''schedule.changes.set: '' (patch_Validate gm (pc_Set change))) (\<lambda>_.
          profile_changes gm changes (Some after))))"

definition profile_Validate :: "gomath \<Rightarrow> ProfileSchedule \<Rightarrow> unit result" where
  "profile_Validate gm s =
     rbind (check (profile_Clock s \<noteq> ''phase-start'' \<and> profile_Clock s \<noteq> ''experiment-start'') ''schedule.reference must be phase-start or experiment-start'') (\<lambda>_.
     rbind (check (sc_Changes s = [] \<or> length (sc_Changes s) > 128) ''schedule requires 1..128 changes'') (\<lambda>_.
     profile_changes gm (sc_Changes s) None))"

definition request_Validate :: "gomath \<Rightarrow> ProfileUpdateRequest \<Rightarrow> unit result" where
  "request_Validate gm r =
     rbind (check (ur_RunID r = [] \<or> ur_Revision r = 0 \<or> ur_Revision r > 2147483647 \<or> ur_Stage r \<noteq> ''prepare'' \<and> ur_Stage r \<noteq> ''apply'')
       ''profile update requires runId, positive revision, and prepare/apply stage'') (\<lambda>_.
     patch_Validate gm (ur_Set r))"

end
