(* ===== verification/Network_Correct.thy ===== *)
theory Network_Correct
  imports Network_Config
begin

text \<open>
  What resolution guarantees: an accepted network configuration resolves to concrete delays that are accepted again,
  with its schedule's cumulative patches turned into complete states.
\<close>

subsection \<open>The delay and the rest of the fields\<close>

definition needs_delay :: "NetworkFields \<Rightarrow> bool" where
  "needs_delay f = (duration_or_zero (nf_Jitter f) > 0 \<or> ptr_is (f_lt (Fin 0)) (nf_ReorderPercent f))"

definition with_delay :: "NetworkFields \<Rightarrow> string \<Rightarrow> Distribution option \<Rightarrow> NetworkFields" where
  "with_delay f s d = f\<lparr>nf_Delay := s, nf_DelayDistribution := d\<rparr>"

lemma with_delay_simps [simp]:
  "with_delay (with_delay f s d) s' d' = with_delay f s' d'" "nf_Delay (with_delay f s d) = s"
  "nf_DelayDistribution (with_delay f s d) = d" "needs_delay (with_delay f s d) = needs_delay f"
  "with_delay f (nf_Delay f) (nf_DelayDistribution f) = f"
  by (simp_all add: with_delay_def needs_delay_def)

lemma with_delay_rest:
  "nf_Scope (with_delay f s d) = nf_Scope f" "nf_Jitter (with_delay f s d) = nf_Jitter f"
  "nf_JitterDistribution (with_delay f s d) = nf_JitterDistribution f" "nf_LossPercent (with_delay f s d) = nf_LossPercent f"
  "nf_DuplicatePercent (with_delay f s d) = nf_DuplicatePercent f" "nf_CorruptPercent (with_delay f s d) = nf_CorruptPercent f"
  "nf_ReorderPercent (with_delay f s d) = nf_ReorderPercent f"
  "nf_ReorderCorrelationPercent (with_delay f s d) = nf_ReorderCorrelationPercent f" "nf_RateMbps (with_delay f s d) = nf_RateMbps f"
  "nf_TBF (with_delay f s d) = nf_TBF f" "nf_QueueLimit (with_delay f s d) = nf_QueueLimit f"
  by (simp_all add: with_delay_def)

definition static_ok :: "NetworkFields \<Rightarrow> int \<Rightarrow> bool" where
  "static_ok f jitter =
     (\<not> (nf_Scope f \<noteq> [] \<and> nf_Scope f \<noteq> ''p2p'' \<and> nf_Scope f \<noteq> ''all'')
      \<and> \<not> (nf_JitterDistribution f \<noteq> [] \<and> nf_JitterDistribution f \<noteq> ''uniform'' \<and> nf_JitterDistribution f \<noteq> ''normal''
         \<and> nf_JitterDistribution f \<noteq> ''pareto'' \<and> nf_JitterDistribution f \<noteq> ''paretonormal'')
      \<and> networkDuration ''jitter'' (nf_Jitter f) = Inr jitter \<and> \<not> jitter > 2147483647
      \<and> check_all check_percent [(''lossPercent'', nf_LossPercent f), (''duplicatePercent'', nf_DuplicatePercent f),
         (''corruptPercent'', nf_CorruptPercent f), (''reorderPercent'', nf_ReorderPercent f),
         (''reorderCorrelationPercent'', nf_ReorderCorrelationPercent f)] = Inr ()
      \<and> \<not> (ptr_is (f_lt (Fin 0)) (nf_ReorderCorrelationPercent f)
         \<and> (nf_ReorderPercent f = None \<or> ptr_is (\<lambda>v. f_le v (Fin 0)) (nf_ReorderPercent f)))
      \<and> \<not> ptr_is (\<lambda>v. \<not> f_finite v \<or> f_lt v (Fin 0)) (nf_RateMbps f) \<and> check_tbf f = Inr ()
      \<and> \<not> ptr_is (\<lambda>q. q \<le> 0 \<or> q > 4294967295) (nf_QueueLimit f))"

definition delay_ok :: "gomath \<Rightarrow> string \<Rightarrow> Distribution option \<Rightarrow> bool \<Rightarrow> bool" where
  "delay_ok gm s dd needed =
     (case dd of
        None \<Rightarrow> (\<exists>d. networkDuration ''delay'' s = Inr d \<and> (needed \<longrightarrow> d \<noteq> 0))
      | Some dd \<Rightarrow> s = [] \<and> dist_Validate gm False dd = Inr () \<and> (needed \<longrightarrow> 0 < duration_or_zero (di_Min dd)))"

lemma networkDuration_value: "networkDuration n s = Inr d \<Longrightarrow> duration_or_zero s = d \<or> s = []"
  by (auto simp: networkDuration_def duration_or_zero_def split: if_splits sum.splits)

lemma duration_or_zero_empty [simp]: "duration_or_zero [] = 0"
  by (simp add: duration_or_zero_def ParseDuration_def parse_unsigned_def dur_invalid_def)

lemma networkDuration_zero: "networkDuration n s = Inr d \<Longrightarrow> d = duration_or_zero s \<and> 0 \<le> d"
  by (cases "s = []") (auto simp: networkDuration_def duration_or_zero_def [of s] split: if_splits sum.splits)

lemma unit_ex: "(\<exists>u::unit. P u) \<longleftrightarrow> P ()"
  by (metis old.unit.exhaust)

lemma fields_Validate_iff:
  "fields_Validate gm f = Inr () \<longleftrightarrow> (\<exists>delay jitter. networkDuration ''delay'' (nf_Delay f) = Inr delay \<and> static_ok f jitter
     \<and> check_delay_distribution gm f jitter = Inr () \<and> \<not> (jitter > 0 \<and> delay = 0 \<and> nf_DelayDistribution f = None)
     \<and> \<not> (ptr_is (f_lt (Fin 0)) (nf_ReorderPercent f) \<and> delay = 0 \<and> nf_DelayDistribution f = None))"
  unfolding fields_Validate_def static_ok_def rbind_check_Inr_iff rbind_Inr_iff check_simps unit_ex by blast

lemma fields_Validate_split:
  "fields_Validate gm f = Inr () \<longleftrightarrow> (\<exists>jitter. static_ok f jitter)
     \<and> delay_ok gm (nf_Delay f) (nf_DelayDistribution f) (needs_delay f)"
proof -
  have j: "jitter = duration_or_zero (nf_Jitter f)" if "static_ok f jitter" for jitter
    using that networkDuration_zero unfolding static_ok_def by blast
  show ?thesis
  proof (cases "nf_DelayDistribution f")
    case None
    then show ?thesis unfolding fields_Validate_iff
      using j by (auto simp: check_delay_distribution_def delay_ok_def needs_delay_def)
  next
    case (Some dd)
    then show ?thesis unfolding fields_Validate_iff
      using j by (auto simp: check_delay_distribution_def delay_ok_def needs_delay_def rbind_Inr_iff networkDuration_def [of _ "[]"])
  qed
qed

lemma static_ok_with_delay [simp]: "static_ok (with_delay f s d) = static_ok f"
proof -
  have "check_tbf (with_delay f s d) = check_tbf f"
    by (cases "nf_TBF f") (simp_all add: check_tbf_def with_delay_def)
  then show ?thesis by (simp add: fun_eq_iff static_ok_def) (simp add: with_delay_def)
qed

lemmas network_defs = network_Merge_fields_def merge_network_fields_def network_modes_def with_delay_def

text \<open>What a merge does to the delay, and that the rest does not depend on it.\<close>

lemma merge_delay:
  "nf_Delay (network_Merge_fields c s) =
     (if nf_Delay s \<noteq> [] then nf_Delay s else if nf_DelayDistribution s \<noteq> None then [] else nf_Delay c)"
  "nf_DelayDistribution (network_Merge_fields c s) =
     (if nf_DelayDistribution s \<noteq> None then nf_DelayDistribution s else if nf_Delay s \<noteq> [] then None else nf_DelayDistribution c)"
  by (auto simp: network_Merge_fields_def merge_network_fields_def network_modes_def Let_def merge_str_def)

lemma merge_shaper:
  "nf_RateMbps (network_Merge_fields c s) =
     (if nf_RateMbps s \<noteq> None then nf_RateMbps s else if nf_TBF s \<noteq> None then None else nf_RateMbps c)"
  "nf_TBF (network_Merge_fields c s) =
     (if nf_TBF s \<noteq> None then nf_TBF s else if nf_RateMbps s \<noteq> None then None else nf_TBF c)"
  by (auto simp: network_Merge_fields_def merge_network_fields_def network_modes_def Let_def)

lemma merge_plain [simp]:
  "nf_Scope (network_Merge_fields c s) = merge_str (nf_Scope c) (nf_Scope s)"
  "nf_Jitter (network_Merge_fields c s) = merge_str (nf_Jitter c) (nf_Jitter s)"
  "nf_JitterDistribution (network_Merge_fields c s) = merge_str (nf_JitterDistribution c) (nf_JitterDistribution s)"
  "nf_LossPercent (network_Merge_fields c s) = merge_ptr (nf_LossPercent c) (nf_LossPercent s)"
  "nf_DuplicatePercent (network_Merge_fields c s) = merge_ptr (nf_DuplicatePercent c) (nf_DuplicatePercent s)"
  "nf_CorruptPercent (network_Merge_fields c s) = merge_ptr (nf_CorruptPercent c) (nf_CorruptPercent s)"
  "nf_ReorderPercent (network_Merge_fields c s) = merge_ptr (nf_ReorderPercent c) (nf_ReorderPercent s)"
  "nf_ReorderCorrelationPercent (network_Merge_fields c s) = merge_ptr (nf_ReorderCorrelationPercent c) (nf_ReorderCorrelationPercent s)"
  "nf_QueueLimit (network_Merge_fields c s) = merge_ptr (nf_QueueLimit c) (nf_QueueLimit s)"
  by (simp_all add: network_Merge_fields_def merge_network_fields_def network_modes_def Let_def)

lemma merge_rest: "with_delay (network_Merge_fields (with_delay c x y) s) a b = with_delay (network_Merge_fields c s) a b"
  by (auto simp: network_defs Let_def)

subsection \<open>Resolving one state\<close>

definition sample_of :: "Distribution \<Rightarrow> int \<Rightarrow> bool" where
  "sample_of dd v = (0 \<le> v \<and> v < 2 ^ 63 \<and> (di_Min dd \<noteq> [] \<longrightarrow> duration_or_zero (di_Min dd) \<le> v))"

text \<open>\<open>concretises u c\<close>: \<open>c\<close> is \<open>u\<close> with its delay distribution, if any, replaced by one of its samples.\<close>

definition concretises :: "NetworkFields \<Rightarrow> NetworkFields \<Rightarrow> bool" where
  "concretises u c =
     (case nf_DelayDistribution u of None \<Rightarrow> c = u
      | Some dd \<Rightarrow> nf_Delay u = [] \<and> (\<exists>v. sample_of dd v \<and> c = with_delay u (Duration_String v) None))"

lemma concretises_dist: "concretises u c \<Longrightarrow> nf_DelayDistribution c = None"
  by (auto simp: concretises_def split: option.splits)

lemma Duration_String_ne: "Duration_String d \<noteq> []"
  using fmtDuration_head [of "nat d"] by (auto simp: Duration_String_def)

lemma concretises_valid:
  assumes "concretises u c" "fields_Validate gm u = Inr ()"
  shows "fields_Validate gm c = Inr ()"
proof (cases "nf_DelayDistribution u")
  case None
  then show ?thesis using assms by (simp add: concretises_def)
next
  case (Some dd)
  then obtain v where v: "sample_of dd v" "c = with_delay u (Duration_String v) None" using assms(1) by (auto simp: concretises_def)
  then have "ParseDuration (Duration_String v) = Inr v" by (intro ParseDuration_String) (auto simp: sample_of_def)
  then have d: "networkDuration ''delay'' (Duration_String v) = Inr v"
    using v(1) Duration_String_ne by (simp add: networkDuration_def sample_of_def)
  have ok: "\<exists>j. static_ok u j" "needs_delay u \<longrightarrow> 0 < duration_or_zero (di_Min dd)"
    using assms(2) Some by (auto simp: fields_Validate_split delay_ok_def)
  have "needs_delay u \<longrightarrow> v \<noteq> 0"
  proof
    assume "needs_delay u"
    then have m: "0 < duration_or_zero (di_Min dd)" using ok(2) by simp
    then have "di_Min dd \<noteq> []" by auto
    then show "v \<noteq> 0" using v(1) m by (auto simp: sample_of_def)
  qed
  then show ?thesis using ok(1) d by (auto simp: fields_Validate_split v(2) delay_ok_def)
qed

definition single_draw :: "Distribution option \<Rightarrow> bool" where
  "single_draw dd = (case dd of None \<Rightarrow> True | Some dd \<Rightarrow> di_Model dd \<noteq> ''gamma'' \<and> di_Model dd \<noteq> ''poisson'')"

lemma dist_Sample_sample_of:
  assumes "dist_Validate gm False dd = Inr ()" "dist_Sample fuel gm dd r = Some (v, r')"
  shows "sample_of dd v"
proof (cases "di_Model dd = []")
  case True
  then show ?thesis using assms(1) by (simp add: dist_Validate_def)
next
  case False
  have lim: "rbind (parseDurationOrZero (di_Min dd)) (\<lambda>minimum. rbind (parseDurationOrZero (di_Max dd)) (\<lambda>maximum.
        check (di_Min dd \<noteq> [] \<and> di_Max dd \<noteq> [] \<and> minimum > maximum) ''min cannot exceed max'')) = Inr ()"
    using assms False by (auto simp: dist_Validate_def rbind_Inr_iff)
  obtain x where "sample_value fuel gm dd r = Some (x, r')" "v = clamp_value dd x"
    using assms(2) False by (auto simp: dist_Sample_def)
  then show ?thesis using clamp_value_range [OF sample_value_bound lim] unfolding sample_of_def by blast
qed

lemma dist_Sample_single: "single_draw (Some dd) \<Longrightarrow> dist_Sample fuel gm dd r \<noteq> None"
  by (auto simp: single_draw_def dist_Sample_def sample_value_def Let_def split: prod.splits)

lemma resolve_flat_ok:
  assumes "fields_Validate gm u = Inr ()"
  shows "(\<exists>c r'. resolve_flat fuel gm u (Some r) = Some (Inr (c, Some r')) \<and> concretises u c)
     \<or> resolve_flat fuel gm u (Some r) = None \<and> \<not> single_draw (nf_DelayDistribution u)"
proof (cases "nf_DelayDistribution u")
  case None
  then show ?thesis using assms by (auto simp: resolve_flat_def concretises_def)
next
  case (Some dd)
  then have dd: "nf_Delay u = []" "dist_Validate gm False dd = Inr ()"
    using assms by (auto simp: fields_Validate_split delay_ok_def)
  show ?thesis
  proof (cases "dist_Sample fuel gm dd r")
    case None
    then have "\<not> single_draw (Some dd)" using dist_Sample_single [of dd fuel gm r] by auto
    then show ?thesis using assms Some None by (simp add: resolve_flat_def)
  next
    case smp: (Some vr)
    obtain v r' where vr: "vr = (v, r')" by fastforce
    have c: "concretises u (with_delay u (Duration_String v) None)"
      using dist_Sample_sample_of [OF dd(2), of fuel r v r'] smp vr dd(1) Some unfolding concretises_def by auto
    from concretises_valid [OF c assms] have "fields_Validate gm (u\<lparr>nf_Delay := Duration_String v, nf_DelayDistribution := None\<rparr>) = Inr ()"
      by (simp add: with_delay_def)
    then show ?thesis using c assms Some smp vr by (simp add: resolve_flat_def with_delay_def)
  qed
qed

text \<open>Merging a patch into a concrete state, compared with merging it into the state it comes from.\<close>

lemma concretises_merge:
  assumes rel: "concretises u c" and ok: "fields_Validate gm (network_Merge_fields u s) = Inr ()"
  shows "fields_Validate gm (network_Merge_fields c s) = Inr ()
    \<and> (\<forall>c'. concretises (network_Merge_fields c s) c' \<longrightarrow> concretises (network_Merge_fields u s) c')"
proof (cases "nf_DelayDistribution u")
  case None
  then show ?thesis using assms by (auto simp: concretises_def)
next
  case (Some dd)
  then obtain v where v: "nf_Delay u = []" "sample_of dd v" "c = with_delay u (Duration_String v) None"
    using rel by (auto simp: concretises_def)
  show ?thesis
  proof (cases "nf_Delay s = [] \<and> nf_DelayDistribution s = None")
    case False
    have "with_delay (network_Merge_fields c s) a b = with_delay (network_Merge_fields u s) a b" for a b
      using merge_rest v(3) by simp
    moreover have "nf_Delay (network_Merge_fields c s) = nf_Delay (network_Merge_fields u s)"
      "nf_DelayDistribution (network_Merge_fields c s) = nf_DelayDistribution (network_Merge_fields u s)"
      using False by (auto simp: merge_delay)
    ultimately have "network_Merge_fields c s = network_Merge_fields u s" by (metis with_delay_simps(5))
    then show ?thesis using ok by simp
  next
    case True
    have d: "nf_DelayDistribution (network_Merge_fields u s) = Some dd" "nf_Delay (network_Merge_fields u s) = []"
      "nf_DelayDistribution (network_Merge_fields c s) = None" "nf_Delay (network_Merge_fields c s) = Duration_String v"
      using True Some v by (simp_all add: merge_delay)
    have "network_Merge_fields c s = with_delay (network_Merge_fields u s) (Duration_String v) None"
      using merge_rest [of u "Duration_String v" None s] d(3,4) v(3) by (metis with_delay_simps(5))
    then have "concretises (network_Merge_fields u s) (network_Merge_fields c s)" using d(1,2) v(2) by (auto simp: concretises_def)
    moreover have "c' = network_Merge_fields c s" if "concretises (network_Merge_fields c s) c'" for c'
      using that d(3) by (simp add: concretises_def)
    ultimately show ?thesis using concretises_valid ok by blast
  qed
qed

text \<open>A complete state, merged into the state it grew out of, is itself.\<close>

lemma merge_complete:
  assumes "nf_DelayDistribution c = None" "concretises (network_Merge_fields c s) c'"
  shows "network_Merge_fields c c' = c'"
proof -
  have rest: "with_delay c' [] None = with_delay (network_Merge_fields c s) [] None"
    using assms(2) by (auto simp: concretises_def split: option.splits)
  have p: "nf_Scope c' = nf_Scope (network_Merge_fields c s)" "nf_Jitter c' = nf_Jitter (network_Merge_fields c s)"
    "nf_JitterDistribution c' = nf_JitterDistribution (network_Merge_fields c s)" "nf_LossPercent c' = nf_LossPercent (network_Merge_fields c s)"
    "nf_DuplicatePercent c' = nf_DuplicatePercent (network_Merge_fields c s)" "nf_CorruptPercent c' = nf_CorruptPercent (network_Merge_fields c s)"
    "nf_ReorderPercent c' = nf_ReorderPercent (network_Merge_fields c s)"
    "nf_ReorderCorrelationPercent c' = nf_ReorderCorrelationPercent (network_Merge_fields c s)"
    "nf_QueueLimit c' = nf_QueueLimit (network_Merge_fields c s)"
    using arg_cong [OF rest, of nf_Scope] arg_cong [OF rest, of nf_Jitter] arg_cong [OF rest, of nf_JitterDistribution]
      arg_cong [OF rest, of nf_LossPercent] arg_cong [OF rest, of nf_DuplicatePercent] arg_cong [OF rest, of nf_CorruptPercent]
      arg_cong [OF rest, of nf_ReorderPercent] arg_cong [OF rest, of nf_ReorderCorrelationPercent] arg_cong [OF rest, of nf_QueueLimit]
    by (simp_all only: with_delay_rest)
  have t: "nf_RateMbps c' = nf_RateMbps (network_Merge_fields c s)" "nf_TBF c' = nf_TBF (network_Merge_fields c s)"
    using arg_cong [OF rest, of nf_RateMbps] arg_cong [OF rest, of nf_TBF] by (simp_all only: with_delay_rest)
  have n: "nf_DelayDistribution c' = None" using assms(2) concretises_dist by blast
  have "nf_Delay c' = [] \<Longrightarrow> nf_Delay c = []"
    using assms Duration_String_ne by (auto simp: concretises_def merge_delay split: option.splits if_splits)
  then have d: "nf_Delay (network_Merge_fields c c') = nf_Delay c'" "nf_DelayDistribution (network_Merge_fields c c') = nf_DelayDistribution c'"
    using n assms(1) by (auto simp: merge_delay)
  have "nf_RateMbps (network_Merge_fields c c') = nf_RateMbps c'" "nf_TBF (network_Merge_fields c c') = nf_TBF c'"
    using t by (auto simp: merge_shaper split: if_splits)
  with d show ?thesis by (intro NetworkFields.equality) (simp_all add: p)
qed

subsection \<open>Resolving a schedule\<close>

definition change_dist :: "NetworkChange \<Rightarrow> Distribution option" where
  "change_dist change = nf_DelayDistribution (nc_fields (nch_Set change))"

definition plan_of :: "gomath \<Rightarrow> NetworkFields \<Rightarrow> int option \<Rightarrow> NetworkChange list \<Rightarrow> NetworkChange list \<Rightarrow> bool" where
  "plan_of gm c previous changes plan =
     (map nch_After plan = map nch_After changes \<and> schedule_loop gm plan c previous = Inr ()
      \<and> (\<forall>change\<in>set plan. change_dist change = None \<and> nc_Schedule (nch_Set change) = None
           \<and> fields_Validate gm (nc_fields (nch_Set change)) = Inr ()))"

lemma schedule_loop_Cons:
  "schedule_loop gm (change # changes) u previous = Inr () \<longleftrightarrow> (\<exists>after. ParseDuration (nch_After change) = Inr after
     \<and> 0 \<le> after \<and> \<not> ptr_is (\<lambda>p. after \<le> p) previous \<and> nc_Schedule (nch_Set change) = None
     \<and> fields_Validate gm (network_Merge_fields u (nc_fields (nch_Set change))) = Inr ()
     \<and> schedule_loop gm changes (network_Merge_fields u (nc_fields (nch_Set change))) (Some after) = Inr ())"
  by (cases "ParseDuration (nch_After change)") (auto simp: rbind_Inr_iff Let_def)

lemma resolve_changes_ok:
  assumes "concretises u c" "schedule_loop gm changes u previous = Inr ()"
  shows "(\<exists>plan r'. resolve_changes fuel gm changes c (Some r) = Some (Inr (plan, Some r')) \<and> plan_of gm c previous changes plan)
    \<or> resolve_changes fuel gm changes c (Some r) = None \<and> (\<exists>change\<in>set changes. \<not> single_draw (change_dist change))"
  using assms
proof (induction changes arbitrary: u c previous r)
  case Nil
  then show ?case by (simp add: plan_of_def)
next
  case (Cons change changes)
  let ?s = "nc_fields (nch_Set change)"
  obtain after where a: "ParseDuration (nch_After change) = Inr after" "0 \<le> after" "\<not> ptr_is (\<lambda>p. after \<le> p) previous"
    "fields_Validate gm (network_Merge_fields u ?s) = Inr ()" "schedule_loop gm changes (network_Merge_fields u ?s) (Some after) = Inr ()"
    using Cons.prems(2) unfolding schedule_loop_Cons by blast
  have m: "fields_Validate gm (network_Merge_fields c ?s) = Inr ()"
    "\<And>c'. concretises (network_Merge_fields c ?s) c' \<Longrightarrow> concretises (network_Merge_fields u ?s) c'"
    using concretises_merge [OF Cons.prems(1) a(4)] by blast+
  have none: "nf_DelayDistribution c = None" by (rule concretises_dist [OF Cons.prems(1)])
  from resolve_flat_ok [OF m(1), of fuel r] show ?case
  proof
    assume "resolve_flat fuel gm (network_Merge_fields c ?s) (Some r) = None \<and> \<not> single_draw (nf_DelayDistribution (network_Merge_fields c ?s))"
    moreover from this none have "\<not> single_draw (change_dist change)"
      by (auto simp: merge_delay change_dist_def single_draw_def split: if_splits)
    ultimately show ?thesis by simp
  next
    assume "\<exists>c' r'. resolve_flat fuel gm (network_Merge_fields c ?s) (Some r) = Some (Inr (c', Some r')) \<and> concretises (network_Merge_fields c ?s) c'"
    then obtain c' r' where c': "resolve_flat fuel gm (network_Merge_fields c ?s) (Some r) = Some (Inr (c', Some r'))"
      "concretises (network_Merge_fields c ?s) c'" by blast
    have v': "fields_Validate gm c' = Inr ()" "nf_DelayDistribution c' = None" "network_Merge_fields c c' = c'"
      using concretises_valid [OF c'(2) m(1)] concretises_dist [OF c'(2)] merge_complete [OF none c'(2)] by blast+
    from Cons.IH [OF m(2) [OF c'(2)] a(5), of r'] show ?thesis
    proof
      assume "resolve_changes fuel gm changes c' (Some r') = None \<and> (\<exists>change\<in>set changes. \<not> single_draw (change_dist change))"
      then show ?thesis by (auto simp: c'(1))
    next
      assume "\<exists>plan r''. resolve_changes fuel gm changes c' (Some r') = Some (Inr (plan, Some r'')) \<and> plan_of gm c' (Some after) changes plan"
      then obtain plan r'' where p: "resolve_changes fuel gm changes c' (Some r') = Some (Inr (plan, Some r''))"
        "plan_of gm c' (Some after) changes plan" by blast
      have "plan_of gm c previous (change # changes) (NetworkChange (nch_After change) (NetworkConfig c' None) # plan)"
        using p(2) a(1-3) v' by (simp add: plan_of_def schedule_loop_Cons change_dist_def del: schedule_loop.simps)
      then show ?thesis by (simp add: c'(1) p(1))
    qed
  qed
qed

text \<open>The configurations that hold no distribution: what an Agent receives.\<close>

definition concrete :: "NetworkConfig \<Rightarrow> bool" where
  "concrete c = (nf_DelayDistribution (nc_fields c) = None
     \<and> (case nc_Schedule c of None \<Rightarrow> True | Some s \<Rightarrow> \<forall>change\<in>set (ns_Changes s). change_dist change = None))"

definition single_draws :: "NetworkConfig \<Rightarrow> bool" where
  "single_draws c = (single_draw (nf_DelayDistribution (nc_fields c))
     \<and> (case nc_Schedule c of None \<Rightarrow> True | Some s \<Rightarrow> \<forall>change\<in>set (ns_Changes s). single_draw (change_dist change)))"

definition change_times :: "NetworkConfig \<Rightarrow> string list" where
  "change_times c = (case nc_Schedule c of None \<Rightarrow> [] | Some s \<Rightarrow> map nch_After (ns_Changes s))"

lemma Clock_twice: "schedule_Clock (Some (NetworkSchedule (schedule_Clock (Some s)) plan)) = schedule_Clock (Some s)"
  by (auto simp: schedule_Clock_def)

lemma resolveSchedule_ok:
  assumes "network_Validate gm c = Inr ()" "nc_Schedule c = Some s"
  shows "(\<exists>c' r'. resolveSchedule fuel gm c s (Some r) = Some (Inr (c', Some r')) \<and> concrete c' \<and> network_Validate gm c' = Inr ()
      \<and> change_times c' = change_times c)
    \<or> resolveSchedule fuel gm c s (Some r) = None \<and> \<not> single_draws c"
proof -
  have ok: "fields_Validate gm (nc_fields c) = Inr ()" "schedule_loop gm (ns_Changes s) (nc_fields c) None = Inr ()"
    "length (ns_Changes s) \<le> 128" "schedule_Clock (Some s) = ''peer-join'' \<or> schedule_Clock (Some s) = ''experiment-start''"
    using assms by (auto simp: network_Validate_def validateSchedule_def rbind_Inr_iff)
  from resolve_flat_ok [OF ok(1), of fuel r] show ?thesis
  proof
    assume "resolve_flat fuel gm (nc_fields c) (Some r) = None \<and> \<not> single_draw (nf_DelayDistribution (nc_fields c))"
    then show ?thesis by (simp add: resolveSchedule_def single_draws_def)
  next
    assume "\<exists>i r'. resolve_flat fuel gm (nc_fields c) (Some r) = Some (Inr (i, Some r')) \<and> concretises (nc_fields c) i"
    then obtain i r' where i: "resolve_flat fuel gm (nc_fields c) (Some r) = Some (Inr (i, Some r'))" "concretises (nc_fields c) i" by blast
    from resolve_changes_ok [OF i(2) ok(2), of fuel r'] show ?thesis
    proof
      assume "resolve_changes fuel gm (ns_Changes s) i (Some r') = None \<and> (\<exists>change\<in>set (ns_Changes s). \<not> single_draw (change_dist change))"
      then show ?thesis using assms(2) by (auto simp: resolveSchedule_def i(1) single_draws_def)
    next
      assume "\<exists>plan r''. resolve_changes fuel gm (ns_Changes s) i (Some r') = Some (Inr (plan, Some r'')) \<and> plan_of gm i None (ns_Changes s) plan"
      then obtain plan r'' where p: "resolve_changes fuel gm (ns_Changes s) i (Some r') = Some (Inr (plan, Some r''))"
        "plan_of gm i None (ns_Changes s) plan" by blast
      let ?c = "NetworkConfig i (Some (NetworkSchedule (schedule_Clock (Some s)) plan))"
      have len: "length plan \<le> 128" using p(2) ok(3) map_eq_imp_length_eq [of nch_After plan nch_After "ns_Changes s"] by (simp add: plan_of_def)
      have "network_Validate gm ?c = Inr ()"
        using concretises_valid [OF i(2) ok(1)] p(2) ok(4) len
        by (auto simp: network_Validate_def validateSchedule_def Clock_twice plan_of_def)
      moreover have "concrete ?c" using concretises_dist [OF i(2)] p(2) by (simp add: concrete_def plan_of_def)
      ultimately show ?thesis using p(2) assms(2) by (simp add: resolveSchedule_def i(1) p(1) change_times_def plan_of_def)
    qed
  qed
qed

text \<open>
  C32. Resolution of an accepted network configuration never fails: with a random source it yields a configuration
  without delay distributions, at the same change times, that is accepted again, so an Agent can apply it as it is.
  The only other outcome is that a rejection sampler is still running, which needs a gamma or Poisson distribution.
\<close>

theorem network_Resolve_concrete:
  assumes "network_Validate gm c = Inr ()"
  shows "(\<exists>c' r'. network_Resolve fuel gm c (Some r) = Some (Inr (c', Some r')) \<and> concrete c' \<and> network_Validate gm c' = Inr ()
      \<and> change_times c' = change_times c)
    \<or> network_Resolve fuel gm c (Some r) = None \<and> \<not> single_draws c"
proof (cases "nc_Schedule c")
  case None
  have ok: "fields_Validate gm (nc_fields c) = Inr ()" using assms None by (simp add: network_Validate_flat)
  from resolve_flat_ok [OF ok, of fuel r] show ?thesis
  proof
    assume "\<exists>i r'. resolve_flat fuel gm (nc_fields c) (Some r) = Some (Inr (i, Some r')) \<and> concretises (nc_fields c) i"
    then obtain i r' where i: "resolve_flat fuel gm (nc_fields c) (Some r) = Some (Inr (i, Some r'))" "concretises (nc_fields c) i" by blast
    have "network_Validate gm (NetworkConfig i None) = Inr ()" using concretises_valid [OF i(2) ok] by (simp add: network_Validate_flat)
    moreover have "concrete (NetworkConfig i None)" using concretises_dist [OF i(2)] by (simp add: concrete_def)
    ultimately show ?thesis using assms None by (simp add: network_Resolve_def i(1) change_times_def)
  qed (simp add: assms None network_Resolve_def single_draws_def)
next
  case (Some s)
  then show ?thesis using resolveSchedule_ok [OF assms Some] assms by (simp add: network_Resolve_def)
qed

fun schedule_states :: "NetworkFields \<Rightarrow> NetworkChange list \<Rightarrow> NetworkFields list" where
  "schedule_states u [] = []"
| "schedule_states u (change # changes) =
     (let u' = network_Merge_fields u (nc_fields (nch_Set change)) in u' # schedule_states u' changes)"

lemma schedule_loop_states:
  "schedule_loop gm changes u previous = Inr () \<Longrightarrow>
     (\<forall>u'\<in>set (schedule_states u changes). fields_Validate gm u' = Inr ())
     \<and> (\<exists>times. map (\<lambda>c. ParseDuration (nch_After c)) changes = map Inr times
          \<and> (case previous of None \<Rightarrow> \<forall>t\<in>set times. 0 \<le> t | Some p \<Rightarrow> \<forall>t\<in>set times. 0 \<le> t \<and> p < t) \<and> sorted_wrt (<) times)"
proof (induction changes arbitrary: u previous)
  case Nil
  then show ?case by (auto split: option.splits)
next
  case (Cons change changes)
  let ?u = "network_Merge_fields u (nc_fields (nch_Set change))"
  obtain after where a: "ParseDuration (nch_After change) = Inr after" "0 \<le> after" "\<not> ptr_is (\<lambda>p. after \<le> p) previous"
    "fields_Validate gm ?u = Inr ()" "schedule_loop gm changes ?u (Some after) = Inr ()"
    using Cons.prems unfolding schedule_loop_Cons by blast
  from Cons.IH [OF a(5)] obtain times where t: "\<forall>u'\<in>set (schedule_states ?u changes). fields_Validate gm u' = Inr ()"
    "map (\<lambda>c. ParseDuration (nch_After c)) changes = map Inr times" "\<forall>t\<in>set times. 0 \<le> t \<and> after < t" "sorted_wrt (<) times"
    by auto
  have "case previous of None \<Rightarrow> \<forall>t\<in>set (after # times). 0 \<le> t | Some p \<Rightarrow> \<forall>t\<in>set (after # times). 0 \<le> t \<and> p < t"
    using a(2,3) t(3) by (cases previous) auto
  moreover have "map (\<lambda>c. ParseDuration (nch_After c)) (change # changes) = map Inr (after # times)" using a(1) t(2) by simp
  moreover have "sorted_wrt (<) (after # times)" using t(3,4) by auto
  ultimately show ?case using a(4) t(1) by (intro conjI exI [of _ "after # times"]) (auto simp: Let_def)
qed

text \<open>
  C33. An accepted schedule has at most 128 changes at strictly increasing, non-negative times, and every state it
  passes through, the base with the patches up to a change merged in order, is an accepted configuration.
\<close>

theorem network_schedule_accepted:
  assumes "network_Validate gm c = Inr ()" "nc_Schedule c = Some s"
  shows "length (ns_Changes s) \<le> 128
    \<and> (\<exists>times. map (\<lambda>c. ParseDuration (nch_After c)) (ns_Changes s) = map Inr times \<and> (\<forall>t\<in>set times. 0 \<le> t) \<and> sorted_wrt (<) times)
    \<and> (\<forall>u\<in>set (schedule_states (nc_fields c) (ns_Changes s)). network_Validate gm (NetworkConfig u None) = Inr ())"
  using assms schedule_loop_states [of gm "ns_Changes s" "nc_fields c" None]
  by (auto simp: network_Validate_def validateSchedule_def rbind_Inr_iff)

subsection \<open>Witnesses\<close>

definition ex_network :: NetworkConfig where
  "ex_network = NetworkConfig (zero_network\<lparr>nf_DelayDistribution := Some ex_dist, nf_Jitter := ''1ms''\<rparr>)
     (Some (NetworkSchedule [] [NetworkChange ''10s'' (NetworkConfig (zero_network\<lparr>nf_Delay := ''100ms''\<rparr>) None),
        NetworkChange ''1m'' (NetworkConfig (zero_network\<lparr>nf_LossPercent := Some (Fin 5)\<rparr>) None)]))"

lemma ex_dist_min: "duration_or_zero (di_Min ex_dist) = 5000000"
  by (simp add: ex_dist_def duration_or_zero_def parse_literals)

lemma ex_network_ok: "network_Validate ex_math ex_network = Inr ()"
  by (simp add: network_Validate_def validateSchedule_def ex_network_def zero_network_def fields_Validate_def networkDuration_def
      parse_literals check_delay_distribution_def ex_dist_ok ex_dist_min check_percent_def check_tbf_def schedule_Clock_def
      network_Merge_fields_def merge_network_fields_def network_modes_def Let_def)

theorem network_Resolve_concrete_witness:
  "\<exists>c' r'. network_Resolve 0 ex_math ex_network (Some \<lparr>tape = (\<lambda>_. 3), pos = 0\<rparr>) = Some (Inr (c', Some r'))
     \<and> concrete c' \<and> change_times c' = [''10s'', ''1m'']"
proof -
  have "single_draws ex_network"
    by (simp add: single_draws_def ex_network_def zero_network_def single_draw_def change_dist_def ex_dist_def)
  moreover have "change_times ex_network = [''10s'', ''1m'']" by (simp add: change_times_def ex_network_def)
  ultimately show ?thesis using network_Resolve_concrete [OF ex_network_ok, of 0 "\<lparr>tape = (\<lambda>_. 3), pos = 0\<rparr>"] by auto
qed

theorem network_schedule_accepted_witness:
  "list_all (\<lambda>u. network_Validate ex_math (NetworkConfig u None) = Inr ())
     (schedule_states (nc_fields ex_network) (ns_Changes (the (nc_Schedule ex_network))))"
  using network_schedule_accepted [OF ex_network_ok, of "the (nc_Schedule ex_network)"] by (simp add: ex_network_def list_all_iff)

end
