(* ===== verification/Node_Presets.thy ===== *)
theory Node_Presets
  imports Node_Correct
begin

text \<open>Every built-in preset is an accepted configuration; what acceptance of a node means for its parts.\<close>

subsection \<open>Evaluating a preset\<close>

lemma tenth: "f64_round (1 / 10) = Fin (3602879701896397 / 36028797018963968)"
  by code_simp

lemmas preset_eval = node_WithDefaults_def defaultAttacks_def promoteLegacy_def promote_int_def gossipsub_defaults_def params_defaults_def
  kademlia_defaults_def zero_node_def zero_gossipsub_def zero_params_def zero_kademlia_def zero_libp2p_def zero_network_def Let_def
  applyV2WorkerGossipDefaults_def preset_limits_def on_gossip_def

lemmas validate_eval = node_Validate_def ValidateAttacks_def ValidateAttackSyntax_def HasActiveAttacks_def AttackSelectors_def attack_topics_def
  attack_durations_def attack_counts_def opt_list_def check_censorship_def check_message_delay_def check_connection_attack_def check_graft_flood_def
  check_ihave_spam_def check_active_attacks_def pa_Active_def network_Validate_def fields_Validate_def networkDuration_def
  check_delay_distribution_def check_percent_def check_tbf_def validateSchedule_def check_kademlia_node_def kademlia_Validate_def check_filter_def
  check_diversity_def check_validator_def check_provider_store_def check_amino_def aminoProtocol_def check_gossipsub_node_def ValidateExtended_def
  check_routing_def wrong_router_def validateMessageID_def check_peer_filter_def check_blacklist_def check_subscription_filter_def
  check_rpc_inspector_def check_author_def check_publish_def check_discovery_routing_def check_router_def check_sizes_def check_params_def
  check_degrees_def check_history_def check_factors_def check_counts_def node_durations_def check_node_duration_def check_connection_manager_def
  parse_literals validNumber_def tenth

definition preset_kinds :: "string list" where
  "preset_kinds = [''boot'', ''full'', ''worker'', ''light'', ''publisher'', ''subscriber'', ''observer'', ''relay'', ''flood'', ''random'',
     ''dht-only'', ''gossip-only'', ''non-gossip'', ''mesh-only'']"

lemma preset_kinds: "preset kind \<noteq> None \<longleftrightarrow> kind \<in> set preset_kinds"
  by (simp add: preset_def preset_kinds_def Let_def)

definition preset_ok :: "golib \<Rightarrow> gomath \<Rightarrow> string \<Rightarrow> bool" where
  "preset_ok lb gm kind = (node_Validate lb gm (the (preset kind)) = Inr ())"

lemma preset_boot: "preset_ok lb gm ''boot''"
  by (simp add: preset_ok_def preset_def preset_eval validate_eval)

lemma preset_full: "preset_ok lb gm ''full''" "preset_ok lb gm ''worker''"
  by (simp_all add: preset_ok_def preset_def preset_eval validate_eval)

lemma preset_light: "preset_ok lb gm ''light''"
  by (simp add: preset_ok_def preset_def preset_eval validate_eval)

lemma preset_publisher: "preset_ok lb gm ''publisher''"
  by (simp add: preset_ok_def preset_def preset_eval validate_eval)

lemma preset_subscriber: "preset_ok lb gm ''subscriber''" "preset_ok lb gm ''observer''"
  by (simp_all add: preset_ok_def preset_def preset_eval validate_eval)

lemma preset_relay: "preset_ok lb gm ''relay''"
  by (simp add: preset_ok_def preset_def preset_eval validate_eval)

lemma preset_flood: "preset_ok lb gm ''flood''"
  by (simp add: preset_ok_def preset_def preset_eval validate_eval)

lemma preset_random: "preset_ok lb gm ''random''"
  by (simp add: preset_ok_def preset_def preset_eval validate_eval)

lemma preset_dht_only: "preset_ok lb gm ''dht-only''"
  by (simp add: preset_ok_def preset_def preset_eval validate_eval)

lemma preset_gossip_only: "preset_ok lb gm ''gossip-only''"
  by (simp add: preset_ok_def preset_def preset_eval validate_eval)

lemma preset_mesh_only: "preset_ok lb gm ''non-gossip''" "preset_ok lb gm ''mesh-only''"
  by (simp_all add: preset_ok_def preset_def preset_eval validate_eval)

lemmas presets_ok = preset_boot preset_full preset_light preset_publisher preset_subscriber preset_relay preset_flood preset_random
  preset_dht_only preset_gossip_only preset_mesh_only

lemma preset_valid: "preset kind = Some c \<Longrightarrow> node_Validate lb gm c = Inr ()"
  using preset_kinds [of kind] presets_ok [of lb gm] by (auto simp: preset_kinds_def preset_ok_def)

lemma no_attacks [simp]:
  "\<not> HasAttackOptions zero_node"
  "HasAttackOptions (nd_Type_update f1 c) = HasAttackOptions c" "HasAttackOptions (nd_Topics_update f2 c) = HasAttackOptions c"
  "HasAttackOptions (nd_D_update f3 c) = HasAttackOptions c" "HasAttackOptions (nd_DLow_update f3 c) = HasAttackOptions c"
  "HasAttackOptions (nd_DHigh_update f3 c) = HasAttackOptions c" "HasAttackOptions (nd_DOut_update f3 c) = HasAttackOptions c"
  "HasAttackOptions (nd_DLazy_update f3 c) = HasAttackOptions c" "HasAttackOptions (nd_Heartbeat_update f1 c) = HasAttackOptions c"
  "HasAttackOptions (nd_ConnectLimit_update f3 c) = HasAttackOptions c" "HasAttackOptions (nd_Libp2p_update f4 c) = HasAttackOptions c"
  "HasAttackOptions (nd_Kademlia_update f5 c) = HasAttackOptions c" "HasAttackOptions (nd_GossipSub_update f6 c) = HasAttackOptions c"
  "HasAttackOptions (nd_Network_update f7 c) = HasAttackOptions c"
  by (simp_all add: HasAttackOptions_def) (simp add: zero_node_def)

lemma no_attacks_parts [simp]:
  "HasAttackOptions (on_gossip f c) = HasAttackOptions c" "HasAttackOptions (applyV2WorkerGossipDefaults c) = HasAttackOptions c"
  "HasAttackOptions (preset_limits mode limit c) = HasAttackOptions c"
  by (simp_all add: on_gossip_def applyV2WorkerGossipDefaults_def preset_limits_def)

lemma preset_no_attacks: "preset kind = Some c \<Longrightarrow> \<not> HasAttackOptions c"
proof -
  have "pred_option (\<lambda>c. \<not> HasAttackOptions c) (preset kind)"
    unfolding preset_def Let_def if_distrib [of "pred_option (\<lambda>c. \<not> HasAttackOptions c)"] option.pred_inject no_attacks no_attacks_parts by simp
  then show "preset kind = Some c \<Longrightarrow> \<not> HasAttackOptions c" by simp
qed

lemma WithDefaults_no_attacks: "\<not> HasAttackOptions c \<Longrightarrow> node_WithDefaults lb c = node_WithDefaults lb' c"
  by (simp add: node_WithDefaults_def Let_def defaultAttacks_def HasAttackOptions_def promoteLegacy_def)

lemma WithDefaults_HasAttackOptions: "HasAttackOptions (node_WithDefaults lb c) = HasAttackOptions c"
  by (simp add: node_WithDefaults_def Let_def defaultAttacks_def HasAttackOptions_def promoteLegacy_def)

text \<open>
  C40. Every built-in preset is an accepted configuration, whatever the letter case of its name and the white space
  around it, and the names that have a preset are the documented ones; other names give none.
\<close>

theorem builtin_presets_valid:
  "(snd (BuiltInNodeConfig lb kind) \<longleftrightarrow> ToLower (TrimSpace kind) \<in> set preset_kinds)
   \<and> (snd (BuiltInNodeConfig lb kind) \<longrightarrow> node_Validate lb gm (fst (BuiltInNodeConfig lb kind)) = Inr ())"
proof (cases "preset (ToLower (TrimSpace kind))")
  case None
  then show ?thesis using preset_kinds [of "ToLower (TrimSpace kind)"] by (simp add: BuiltInNodeConfig_def)
next
  case (Some c)
  then have n: "\<not> HasAttackOptions c" by (rule preset_no_attacks)
  have "node_WithDefaults lb (node_WithDefaults lb c) = node_WithDefaults lb c"
    using node_WithDefaults_idem [OF ex_lib_canonical, of c] n
    by (metis WithDefaults_no_attacks WithDefaults_HasAttackOptions)
  then have "node_Validate lb gm (node_WithDefaults lb c) = node_Validate lb gm c" by (simp add: node_Validate_def)
  then show ?thesis using preset_valid [OF Some] Some preset_kinds [of "ToLower (TrimSpace kind)"] by (simp add: BuiltInNodeConfig_def)
qed

theorem builtin_presets_valid_witness: "node_Validate ex_lib ex_math (fst (BuiltInNodeConfig ex_lib '' Worker'')) = Inr ()"
proof -
  have "ToLower (TrimSpace '' Worker'') = ''worker''" by code_simp
  then show ?thesis using builtin_presets_valid [of ex_lib "'' Worker''" ex_math] by (simp add: preset_kinds_def)
qed

end
