(* ===== verification/Node_Accepted.thy ===== *)
theory Node_Accepted
  imports Node_Presets
begin

text \<open>What acceptance of a node means: the relations between the degrees of its mesh, and the containment of its attacks.\<close>

subsection \<open>Inversion of the validators\<close>

lemma deref_Inr_iff [simp]: "deref p = Inr x \<longleftrightarrow> p = Some x"
  by (cases p) auto

lemma accept_seq: "rbind (m :: unit result) (\<lambda>_. n) = Inr u \<longleftrightarrow> m = Inr () \<and> n = Inr u"
  by (cases m) auto

lemmas accept_iff = rbind_check_Inr_iff rbind_Inr_iff wrap_simps(4)

lemma check_Inr [simp]: "check b e = Inr u \<longleftrightarrow> \<not> b"
  by (simp add: check_def)

definition degrees_ok :: "GossipSubParamsConfig \<Rightarrow> bool" where
  "degrees_ok p \<longleftrightarrow> (\<exists>d dLow dHigh dScore dOut dLazy.
     gp_D p = Some d \<and> gp_DLow p = Some dLow \<and> gp_DHigh p = Some dHigh \<and> gp_DScore p = Some dScore \<and> gp_DOut p = Some dOut \<and> gp_DLazy p = Some dLazy
     \<and> 0 \<le> dOut \<and> dOut < dLow \<and> dLow \<le> d \<and> d \<le> dHigh \<and> 2 * dOut \<le> d \<and> 0 \<le> dScore \<and> dScore \<le> d \<and> 0 \<le> dLazy)"

lemma check_degrees_ok: "check_degrees p = Inr u \<Longrightarrow> degrees_ok p"
  unfolding check_degrees_def accept_iff deref_Inr_iff check_Inr degrees_ok_def by force

lemma node_accepted_parts:
  assumes "node_Validate lb gm c0 = Inr ()" "c = node_WithDefaults lb c0"
  shows "ValidateAttacks lb c = Inr ()" "check_gossipsub_node lb c = Inr ()" "check_all check_node_duration (node_durations c) = Inr ()"
  using assms(1) unfolding node_Validate_def Let_def accept_seq wrap_simps assms(2) by blast+

lemma gossipsub_accepted:
  assumes "check_gossipsub_node lb c = Inr ()" "gs_Enabled (nd_GossipSub c) = Some True"
  shows "elems (gs_Topics (nd_GossipSub c)) \<noteq> []" "gs_Router (nd_GossipSub c) = ''gossipsub'' \<Longrightarrow> degrees_ok (gs_Params (nd_GossipSub c))"
    "gs_Score (nd_GossipSub c) = Some score \<Longrightarrow> score_IsEnabled score \<Longrightarrow>
       gs_Router (nd_GossipSub c) = ''gossipsub'' \<and> fst ` set (ps_Topics score) \<subseteq> set (elems (gs_Topics (nd_GossipSub c)))"
proof -
  let ?g = "nd_GossipSub c"
  have r: "check_router ?g = Inr ()"
    and p: "(if gs_Router ?g = ''gossipsub'' then check_params (gs_Params ?g) else Inr ()) = Inr ()"
    and s: "(case gs_Score ?g of None \<Rightarrow> Inr () | Some score \<Rightarrow> if \<not> score_IsEnabled score then Inr ()
        else check_all (\<lambda>(topic, _). check (\<not> pubsubContains (elems (gs_Topics ?g)) topic) ''gossipsub score refers to unjoined topic'') (ps_Topics score)) = Inr ()"
    using assms(1) unfolding check_gossipsub_node_def Let_def assms(2) simp_thms if_False accept_seq wrap_simps(4) by blast+
  show "elems (gs_Topics ?g) \<noteq> []" using r unfolding check_router_def accept_seq check_Inr by blast
  show "gs_Router ?g = ''gossipsub'' \<Longrightarrow> degrees_ok (gs_Params ?g)"
    using p by (auto simp: check_params_def accept_seq intro: check_degrees_ok)
  assume score: "gs_Score ?g = Some score" "score_IsEnabled score"
  then have "gs_Router ?g = ''gossipsub''" using r unfolding check_router_def accept_seq check_Inr by (auto split: if_splits)
  moreover have "fst ` set (ps_Topics score) \<subseteq> set (elems (gs_Topics ?g))" using s score by (auto simp: pubsubContains_iff)
  ultimately show "gs_Router ?g = ''gossipsub'' \<and> fst ` set (ps_Topics score) \<subseteq> set (elems (gs_Topics ?g))" by blast
qed

lemma heartbeat_accepted:
  assumes "check_all check_node_duration (node_durations c) = Inr ()" "gs_Enabled (nd_GossipSub c) = Some True"
    "gs_Router (nd_GossipSub c) = ''gossipsub''" "gp_HeartbeatInterval (gs_Params (nd_GossipSub c)) \<noteq> []"
  shows "\<exists>t. ParseDuration (gp_HeartbeatInterval (gs_Params (nd_GossipSub c))) = Inr t \<and> t > 0"
proof -
  have "(''gossipsub.heartbeatInterval'', gp_HeartbeatInterval (gs_Params (nd_GossipSub c)), True) \<in> set (node_durations c)"
    using assms(2,3) by (simp add: node_durations_def Let_def)
  then have "check_node_duration (''gossipsub.heartbeatInterval'', gp_HeartbeatInterval (gs_Params (nd_GossipSub c)), True) = Inr ()"
    using assms(1) by auto
  then show ?thesis using assms(4) by (force simp: check_node_duration_def accept_iff)
qed

lemma heartbeat_defaulted: "gp_HeartbeatInterval (gs_Params (nd_GossipSub (node_WithDefaults lb c))) \<noteq> []"
  by (simp add: node_WithDefaults_def Let_def gossipsub_defaults_def params_defaults_def default_str_def)

text \<open>
  C38. A node accepted with GossipSub enabled is one the router can run: it joins a topic, an enabled score belongs to the
  gossipsub router and scores joined topics only, and under that router the effective degrees are all present with
  \<^verbatim>\<open>0 <= dOut < dLow <= d <= dHigh\<close>, \<^verbatim>\<open>dOut <= d/2\<close>, \<^verbatim>\<open>0 <= dScore <= d\<close> and \<^verbatim>\<open>0 <= dLazy\<close>, and the heartbeat interval is a positive
  duration.
\<close>

theorem node_accepted_gossipsub:
  assumes "node_Validate lb gm c0 = Inr ()" "g = nd_GossipSub (node_WithDefaults lb c0)" "gs_Enabled g = Some True"
  shows "elems (gs_Topics g) \<noteq> []
    \<and> (\<forall>score. gs_Score g = Some score \<and> score_IsEnabled score \<longrightarrow>
         gs_Router g = ''gossipsub'' \<and> fst ` set (ps_Topics score) \<subseteq> set (elems (gs_Topics g)))
    \<and> (gs_Router g = ''gossipsub'' \<longrightarrow>
         (\<exists>d dLow dHigh dScore dOut dLazy beat.
            gp_D (gs_Params g) = Some d \<and> gp_DLow (gs_Params g) = Some dLow \<and> gp_DHigh (gs_Params g) = Some dHigh
            \<and> gp_DScore (gs_Params g) = Some dScore \<and> gp_DOut (gs_Params g) = Some dOut \<and> gp_DLazy (gs_Params g) = Some dLazy
            \<and> ParseDuration (gp_HeartbeatInterval (gs_Params g)) = Inr beat \<and> beat > 0
            \<and> 0 \<le> dOut \<and> dOut < dLow \<and> dLow \<le> d \<and> d \<le> dHigh \<and> 2 * dOut \<le> d \<and> 0 \<le> dScore \<and> dScore \<le> d \<and> 0 \<le> dLazy))"
proof -
  note parts = node_accepted_parts [OF assms(1) refl]
  note acc = gossipsub_accepted [OF parts(2)] assms(3) [unfolded assms(2)]
  have "gs_Router g = ''gossipsub'' \<Longrightarrow> degrees_ok (gs_Params g) \<and> (\<exists>t. ParseDuration (gp_HeartbeatInterval (gs_Params g)) = Inr t \<and> t > 0)"
    using acc heartbeat_accepted [OF parts(3)] heartbeat_defaulted assms(2) by blast
  then show ?thesis using acc unfolding assms(2) degrees_ok_def by blast
qed

theorem node_accepted_gossipsub_witness:
  "\<exists>d. gp_D (gs_Params (nd_GossipSub (node_WithDefaults ex_lib (the (preset ''full''))))) = Some d \<and> d > 0"
proof -
  let ?c = "the (preset ''full'')"
  let ?g = "nd_GossipSub (node_WithDefaults ex_lib ?c)"
  have "node_Validate ex_lib ex_math ?c = Inr ()" using preset_full(1) by (simp add: preset_ok_def)
  moreover have "gs_Enabled ?g = Some True" "gs_Router ?g = ''gossipsub''" by (simp_all add: preset_def preset_eval)
  ultimately show ?thesis using node_accepted_gossipsub [of ex_lib ex_math ?c ?g] by fastforce
qed

subsection \<open>Attacks\<close>

lemma defaultAttacks_frame [simp]:
  "nd_GossipSub (defaultAttacks lb c) = nd_GossipSub c" "attack_topics (defaultAttacks lb c) = attack_topics c"
  by (cases "nd_Forwarding c"; cases "nd_InvalidMessage c"; cases "nd_Censorship c"; cases "nd_GraftFlood c"; cases "nd_IHaveSpam c"; cases "nd_IWantWithholding c";
      simp add: defaultAttacks_def attack_topics_def opt_list_def targeted_defaults_def invalid_defaults_def control_defaults_def
        censorship_defaults_def graft_defaults_def ihave_defaults_def)+

lemma defaultAttacks_active: "HasActiveAttacks (defaultAttacks lb c) = HasActiveAttacks c"
proof -
  have pa: "pa_Active (map_option pa_WithDefaults p) = pa_Active p" for p
    by (cases p) (auto simp: pa_Active_def pa_WithDefaults_def default_ptr_def split: option.splits)
  have en: "attackEnabled (default_ptr False e) = attackEnabled e" for e by (auto simp: attackEnabled_def default_ptr_def split: option.splits)
  have po: "pa_Active (map_option f (map_option g p)) = pa_Active (map_option f p)" if "\<And>x. f (g x) = pa_WithDefaults (f x)" for f g and p :: "'x option"
    using that pa [of "map_option f p"] by (simp add: option.map_comp comp_def)
  have pt: "ptr_is P (map_option g p) = ptr_is P p" if "\<And>x. P (g x) = P x" for P g and p :: "'x option" using that by (cases p) auto
  show ?thesis
    unfolding HasActiveAttacks_def
    by (simp add: defaultAttacks_def pa po pt targeted_defaults_def invalid_defaults_def control_defaults_def censorship_defaults_def
        delay_defaults_def connection_defaults_def graft_defaults_def ihave_defaults_def en)
qed

lemma distinct_topics_ok: "distinct_topics ts seen = Inr u \<Longrightarrow> distinct ts \<and> [] \<notin> set ts \<and> set ts \<inter> set seen = {}"
proof (induction ts arbitrary: seen)
  case (Cons t ts)
  then show ?case using Cons.IH [of "t # seen"] by (auto simp: accept_seq)
qed simp

lemma attack_topics_joined:
  "attack_topics_ok c values required = Inr u \<Longrightarrow> set (elems values) \<subseteq> set (elems (gs_Topics (nd_GossipSub c)))"
  by (auto simp: attack_topics_ok_def rbind_check_Inr_iff)

lemma set_opt_list: "set (opt_list f p) = {f y | y. p = Some y}"
  by (cases p) (auto simp: opt_list_def)

lemma attacks_joined:
  assumes "ValidateAttacks lb c = Inr ()"
  shows "\<forall>ts\<in>set (attack_topics c). set ts \<subseteq> set (elems (gs_Topics (nd_GossipSub c)))"
proof -
  let ?c = "defaultAttacks lb c"
  have a: "check_censorship ?c = Inr ()" "check_graft_flood ?c = Inr ()" "check_ihave_spam ?c = Inr ()"
    "(case nd_IWantWithholding ?c of None \<Rightarrow> Inr () | Some p \<Rightarrow> attack_topics_ok ?c (ta_Topics p) False) = Inr ()"
    "(case nd_Forwarding ?c of None \<Rightarrow> Inr () | Some p \<Rightarrow> attack_topics_ok ?c (ta_Topics p) False) = Inr ()"
    "(case nd_InvalidMessage ?c of None \<Rightarrow> Inr () | Some p \<Rightarrow> check_control ?c (im_Control p)) = Inr ()"
    using assms unfolding ValidateAttacks_def Let_def accept_seq by blast+
  let ?T = "set (elems (gs_Topics (nd_GossipSub c)))"
  have ok: "attack_topics_ok ?c v r = Inr () \<Longrightarrow> set (elems v) \<subseteq> ?T" for v r using attack_topics_joined [of ?c v r] by simp
  then have ctl: "check_control ?c p = Inr () \<Longrightarrow> set (elems (co_Topics p)) \<subseteq> ?T" for p
    unfolding check_control_def accept_seq by blast
  have "nd_Forwarding ?c = Some p \<Longrightarrow> set (elems (ta_Topics p)) \<subseteq> ?T" "nd_IWantWithholding ?c = Some p \<Longrightarrow> set (elems (ta_Topics p)) \<subseteq> ?T" for p
    using a(4,5) ok by simp_all
  moreover have "nd_InvalidMessage ?c = Some p \<Longrightarrow> set (elems (co_Topics (im_Control p))) \<subseteq> ?T" for p using a(6) ctl by simp
  moreover have "nd_Censorship ?c = Some p \<Longrightarrow> set (elems (ce_Topics p)) \<subseteq> ?T" for p
    using a(1) ok [of "ce_Topics p" False] by (simp add: check_censorship_def accept_seq)
  moreover have "nd_GraftFlood ?c = Some p \<Longrightarrow> set (elems (co_Topics (gf_Control p))) \<subseteq> ?T" for p
    using a(2) ctl by (simp add: check_graft_flood_def accept_seq)
  moreover have "nd_IHaveSpam ?c = Some p \<Longrightarrow> set (elems (co_Topics (ih_Control p))) \<subseteq> ?T" for p
    using a(3) ctl by (simp add: check_ihave_spam_def accept_seq)
  ultimately have "set ts \<subseteq> ?T" if "ts \<in> set (attack_topics ?c)" for ts
    using that unfolding attack_topics_def set_map set_append image_Un by (elim UnE) (simp_all only: image_iff set_opt_list, blast+)
  then show ?thesis by simp
qed

lemma attacks_accepted:
  assumes "ValidateAttacks lb c = Inr ()"
  shows "\<forall>ts\<in>set (attack_topics c). distinct ts \<and> [] \<notin> set ts" "HasActiveAttacks c \<Longrightarrow> gs_Enabled (nd_GossipSub c) = Some True \<and> gs_Router (nd_GossipSub c) = ''gossipsub''"
proof -
  have syn: "ValidateAttackSyntax lb c = Inr ()" and act: "check_active_attacks (defaultAttacks lb c) = Inr ()"
    using assms unfolding ValidateAttacks_def Let_def accept_seq by blast+
  have "check_all (\<lambda>topics. distinct_topics topics []) (attack_topics c) = Inr ()" using syn unfolding ValidateAttackSyntax_def accept_seq by blast
  then show "\<forall>ts\<in>set (attack_topics c). distinct ts \<and> [] \<notin> set ts" by (auto dest: distinct_topics_ok)
  show "HasActiveAttacks c \<Longrightarrow> gs_Enabled (nd_GossipSub c) = Some True \<and> gs_Router (nd_GossipSub c) = ''gossipsub''"
    using act by (auto simp: check_active_attacks_def defaultAttacks_active rbind_check_Inr_iff)
qed

text \<open>
  C39. Attacks stay inside the experiment: in an accepted node every topic list of every attack option holds distinct joined
  topics, and an active attack is only possible with GossipSub enabled under the gossipsub router.
\<close>

theorem node_accepted_attacks:
  assumes "node_Validate lb gm c0 = Inr ()" "c = node_WithDefaults lb c0"
  shows "(\<forall>ts\<in>set (attack_topics c). distinct ts \<and> [] \<notin> set ts \<and> set ts \<subseteq> set (elems (gs_Topics (nd_GossipSub c))))
    \<and> (HasActiveAttacks c \<longrightarrow> gs_Enabled (nd_GossipSub c) = Some True \<and> gs_Router (nd_GossipSub c) = ''gossipsub'')"
  using node_accepted_parts(1) [OF assms] attacks_joined attacks_accepted by blast

text \<open>A worker that drops half of what it would forward on its topic.\<close>

definition ex_attacker :: NodeConfig where
  "ex_attacker = zero_node\<lparr>nd_Forwarding := Some \<lparr>ta_Attack = \<lparr>pa_Enabled = Some True, pa_Probability = Some (Fin (1 / 2))\<rparr>,
     ta_Topics = Some [''kpl/default''], ta_Targets = None\<rparr>\<rparr>"

lemma ex_attacker_valid: "node_Validate ex_lib ex_math ex_attacker = Inr ()"
  by (simp add: ex_attacker_def preset_eval validate_eval targeted_defaults_def pa_WithDefaults_def pa_Validate_def se_Validate_def
      attack_topics_ok_def normalizeAttackSelector_def)

theorem node_accepted_attacks_witness: "[''kpl/default''] \<in> set (attack_topics (node_WithDefaults ex_lib ex_attacker))
  \<and> HasActiveAttacks (node_WithDefaults ex_lib ex_attacker) \<and> gs_Enabled (nd_GossipSub (node_WithDefaults ex_lib ex_attacker)) = Some True"
proof -
  let ?c = "node_WithDefaults ex_lib ex_attacker"
  have "[''kpl/default''] \<in> set (attack_topics ?c)" "HasActiveAttacks ?c"
    by (simp_all add: ex_attacker_def preset_eval attack_topics_def opt_list_def HasActiveAttacks_def targeted_defaults_def pa_WithDefaults_def pa_Active_def)
  then show ?thesis using node_accepted_attacks [OF ex_attacker_valid refl] by blast
qed

end
