(* ===== verification/Profile_Correct.thy ===== *)
theory Profile_Correct
  imports Profile_Config Node_Accepted
begin

text \<open>
  Runtime profile patches: what applying one changes, and that the acknowledgement a Peer builds from its effective
  configuration passes the check that Agent and Controller make of it.
\<close>

subsection \<open>The overlay of a patch\<close>

lemma patch_overlay_effective: "effective_overlay (patch_overlay p) = patch_overlay p"
proof -
  have "promoteLegacy (patch_overlay p) = patch_overlay p"
    by (simp add: promoteLegacy_def patch_overlay_def zero_node_def zero_gossipsub_def zero_libp2p_def promote_int_def Let_def)
  then show ?thesis
    by (simp add: effective_overlay_def) (simp add: patch_overlay_def overlay_topic_mode_def zero_gossipsub_def)
qed

lemma merge_zero_gossipsub: "merge_gossipsub g (zero_gossipsub\<lparr>gs_Params := P\<rparr>) = g\<lparr>gs_Params := merge_params (gs_Params g) P\<rparr>"
  by (simp add: merge_gossipsub_def zero_gossipsub_def)

definition patch_params :: "RuntimeProfilePatch \<Rightarrow> GossipSubParamsConfig" where
  "patch_params p = (case rp_GossipSub p of None \<Rightarrow> zero_params | Some g \<Rightarrow> nodeParams g)"

definition patch_net :: "RuntimeProfilePatch \<Rightarrow> NetworkConfig" where
  "patch_net p = (case rp_Network p of None \<Rightarrow> NetworkConfig zero_network None | Some n \<Rightarrow> n)"

lemma patch_overlay_parts:
  "nd_GossipSub (patch_overlay p) = zero_gossipsub\<lparr>gs_Params := patch_params p\<rparr>" "nd_Network (patch_overlay p) = patch_net p"
  "nd_Libp2p (patch_overlay p) = zero_libp2p" "nd_Kademlia (patch_overlay p) = zero_kademlia"
  by (simp_all add: patch_overlay_def patch_params_def patch_net_def zero_node_def)

lemma merge_ordinary_patch:
  "merge_ordinary c (patch_overlay p) = c\<lparr>nd_GossipSub := (nd_GossipSub c)\<lparr>gs_Params := merge_params (gs_Params (nd_GossipSub c)) (patch_params p)\<rparr>,
     nd_Network := network_Merge (nd_Network c) (patch_net p)\<rparr>"
  unfolding merge_ordinary_def patch_overlay_parts merge_zero merge_zero_gossipsub
  by (simp add: patch_overlay_def) (simp add: zero_node_def)

lemma node_Merge_patch:
  "node_Merge c (patch_overlay p) = mergeAttacks (c\<lparr>nd_GossipSub := (nd_GossipSub c)\<lparr>gs_Params := merge_params (gs_Params (nd_GossipSub c)) (patch_params p)\<rparr>,
     nd_Network := network_Merge (nd_Network c) (patch_net p)\<rparr>) c (patch_overlay p)"
  by (simp only: node_Merge_eq patch_overlay_effective merge_ordinary_patch)

lemma mergeAttacks_frame [simp]:
  "nd_GossipSub (mergeAttacks c b v) = nd_GossipSub c" "nd_Network (mergeAttacks c b v) = nd_Network c"
  by (simp_all add: mergeAttacks_def)

lemma WithDefaults_parts:
  "nd_GossipSub (node_WithDefaults lb c) = gossipsub_defaults (nd_GossipSub (promoteLegacy c))" "nd_Network (node_WithDefaults lb c) = nd_Network c"
  "nd_Forwarding (node_WithDefaults lb c) = map_option (targeted_defaults lb) (nd_Forwarding c)" "nd_Sink (node_WithDefaults lb c) = map_option pa_WithDefaults (nd_Sink c)"
  "nd_Censorship (node_WithDefaults lb c) = map_option (censorship_defaults lb) (nd_Censorship c)"
  "nd_MessageDelay (node_WithDefaults lb c) = map_option delay_defaults (nd_MessageDelay c)"
  by (simp_all add: node_WithDefaults_def Let_def defaultAttacks_def promoteLegacy_def)

lemma WithDefaults_twice: "nd_GossipSub (node_WithDefaults lb (node_WithDefaults lb c)) = nd_GossipSub (node_WithDefaults lb c)"
proof -
  have "promoteLegacy (node_WithDefaults lb c) = node_WithDefaults lb c"
    by (intro promoteLegacy_filled [of _ "nd_GossipSub (promoteLegacy c)"])
      (auto simp: node_WithDefaults_def Let_def defaultAttacks_def promoteLegacy_def promote_int_def split: if_splits)
  then show ?thesis by (simp add: WithDefaults_parts(1))
qed

text \<open>A complete configuration stays complete under an overlay, so defaulting the result again fills nothing.\<close>

lemma filled_gossipsub:
  assumes "g = gossipsub_defaults g0"
  shows "gossipsub_defaults (g\<lparr>gs_Params := merge_params (gs_Params g) P\<rparr>) = g\<lparr>gs_Params := merge_params (gs_Params g) P\<rparr>"
proof -
  have "params_defaults (merge_params (params_defaults q) P) = merge_params (params_defaults q) P" for q
  proof -
    have f: "default_ptr d (merge_ptr (default_ptr d x) y) = merge_ptr (default_ptr d x) y" for d and x y :: "'x option" by (cases x; cases y) auto
    have s: "d \<noteq> [] \<Longrightarrow> default_str d (merge_str (default_str d x) y) = merge_str (default_str d x) y" for d x y :: string by (simp add: default_str_def merge_str_def)
    show ?thesis by (simp add: params_defaults_def merge_params_def f s)
  qed
  then have p: "params_defaults (merge_params (gs_Params g) P) = merge_params (gs_Params g) P" by (simp add: assms)
  have "gossipsub_defaults (g\<lparr>gs_Params := Q\<rparr>) = (gossipsub_defaults g)\<lparr>gs_Params := params_defaults Q\<rparr>" for Q
    by (simp add: gossipsub_defaults_def Let_def)
  then show ?thesis using p by (simp add: assms)
qed

lemma applied_gossipsub:
  assumes "b = node_WithDefaults lb b0" "u = node_WithDefaults lb (node_Merge b (patch_overlay p))"
  shows "nd_GossipSub u = (nd_GossipSub b)\<lparr>gs_Params := merge_params (gs_Params (nd_GossipSub b)) (patch_params p)\<rparr>"
    "nd_Network u = network_Merge (nd_Network b) (patch_net p)"
proof -
  let ?m = "node_Merge b (patch_overlay p)"
  have g: "nd_GossipSub ?m = (nd_GossipSub b)\<lparr>gs_Params := merge_params (gs_Params (nd_GossipSub b)) (patch_params p)\<rparr>"
    "nd_Network ?m = network_Merge (nd_Network b) (patch_net p)"
    by (simp_all add: node_Merge_patch)
  show "nd_Network u = network_Merge (nd_Network b) (patch_net p)" using g(2) by (simp add: assms(2) WithDefaults_parts)
  have b: "nd_GossipSub b = gossipsub_defaults (nd_GossipSub (promoteLegacy b0))" by (simp add: assms(1) WithDefaults_parts)
  have fixed: "gossipsub_defaults (nd_GossipSub ?m) = nd_GossipSub ?m" unfolding g(1) by (rule filled_gossipsub [OF b])
  have "nd_GossipSub (promoteLegacy ?m) = nd_GossipSub ?m"
  proof -
    have "elems (gs_Topics (nd_GossipSub ?m)) \<noteq> []" by (metis fixed gossipsub_defaults_topics)
    moreover have "gs_Params (nd_GossipSub ?m) = params_defaults (gs_Params (nd_GossipSub ?m))" by (metis fixed gossipsub_defaults_params)
    note params_filled [OF this] defaults_filled(6) [of "gs_Params (nd_GossipSub ?m)", folded this]
    ultimately show ?thesis by (simp add: promoteLegacy_def Let_def)
  qed
  then show "nd_GossipSub u = (nd_GossipSub b)\<lparr>gs_Params := merge_params (gs_Params (nd_GossipSub b)) (patch_params p)\<rparr>"
    using fixed g(1) by (simp add: assms(2) WithDefaults_parts)
qed

subsection \<open>Inversion of an application\<close>

lemma runs_gossipsub_WithDefaults:
  "runs_gossipsub (node_WithDefaults lb c) = Inr (gs_Enabled (nd_GossipSub (node_WithDefaults lb c)) = Some True \<and> gs_Router (nd_GossipSub (node_WithDefaults lb c)) = ''gossipsub'')"
  by (cases "gs_Enabled (nd_GossipSub (promoteLegacy c))") (simp_all add: runs_gossipsub_def WithDefaults_parts gossipsub_defaults_def Let_def)

definition runs :: "NodeConfig \<Rightarrow> bool" where
  "runs c \<longleftrightarrow> gs_Enabled (nd_GossipSub c) = Some True \<and> gs_Router (nd_GossipSub c) = ''gossipsub''"

lemma patch_ApplyE:
  assumes "patch_Apply lb gm p b0 = Inr u"
  obtains b where "b = node_WithDefaults lb b0" "patch_Validate gm p = Inr ()" "u = node_WithDefaults lb (node_Merge b (patch_overlay p))"
    "node_Validate lb gm u = Inr ()" "HasAttacks p \<or> rp_GossipSub p \<noteq> None \<Longrightarrow> runs b" "rp_Network p \<noteq> None \<Longrightarrow> \<not> network_Scheduled (nd_Network b)"
  using assms
  by (auto simp: patch_Apply_def Let_def rbind_Inr_iff runs_gossipsub_WithDefaults runs_def split: if_splits)

lemma runs_applied: "nd_GossipSub u = (nd_GossipSub b)\<lparr>gs_Params := P\<rparr> \<Longrightarrow> runs u = runs b"
  by (simp add: runs_def)

text \<open>The parameters a running gossipsub node was accepted with.\<close>

lemma accepted_params:
  assumes "node_Validate lb gm u = Inr ()" "u = node_WithDefaults lb u0" "runs u"
  shows "check_params (gs_Params (nd_GossipSub u)) = Inr ()"
proof -
  let ?c = "node_WithDefaults lb u"
  have g: "nd_GossipSub ?c = nd_GossipSub u" by (simp add: assms(2) WithDefaults_twice)
  have "check_gossipsub_node lb ?c = Inr ()" by (rule node_accepted_parts(2) [OF assms(1) refl])
  then have "(if gs_Router (nd_GossipSub ?c) = ''gossipsub'' then check_params (gs_Params (nd_GossipSub ?c)) else Inr ()) = Inr ()"
    using assms(3) unfolding check_gossipsub_node_def Let_def runs_def g by (auto simp: accept_seq)
  then show ?thesis using assms(3) by (simp add: runs_def g)
qed

lemma accepted_network: "node_Validate lb gm u = Inr () \<Longrightarrow> network_Validate gm (nd_Network u) = Inr ()"
  unfolding node_Validate_def Let_def accept_seq wrap_simps(4) WithDefaults_parts(2) by blast

lemma fields_accepted: "network_Validate gm n = Inr () \<Longrightarrow> network_Validate gm (network_Initial n) = Inr ()"
  by (simp add: network_Validate_def accept_seq network_Initial_def validateSchedule_def)

subsection \<open>The node an acknowledgement is checked against\<close>

text \<open>A node that has runtime parameters and network conditions only.\<close>

definition bare :: "GossipSubParamsConfig \<Rightarrow> NetworkConfig \<Rightarrow> NodeConfig" where
  "bare P n = zero_node\<lparr>nd_GossipSub := zero_gossipsub\<lparr>gs_Params := P\<rparr>, nd_Network := n\<rparr>"

lemma bare_defaults:
  "nd_GossipSub (node_WithDefaults lb (bare P n)) = gossipsub_defaults (zero_gossipsub\<lparr>gs_Params := P\<rparr>)"
  "nd_Network (node_WithDefaults lb (bare P n)) = n" "\<not> HasAttackOptions (bare P n)"
proof -
  have "nd_GossipSub (promoteLegacy (bare P n)) = zero_gossipsub\<lparr>gs_Params := P\<rparr>"
    by (simp add: bare_def promoteLegacy_def zero_node_def zero_gossipsub_def promote_int_def Let_def)
  then show "nd_GossipSub (node_WithDefaults lb (bare P n)) = gossipsub_defaults (zero_gossipsub\<lparr>gs_Params := P\<rparr>)"
    by (simp add: WithDefaults_parts)
  show "nd_Network (node_WithDefaults lb (bare P n)) = n" by (simp add: WithDefaults_parts bare_def)
  show "\<not> HasAttackOptions (bare P n)" by (simp add: bare_def HasAttackOptions_def zero_node_def)
qed

lemma plain_WithDefaults_idem: "\<not> HasAttackOptions c \<Longrightarrow> node_WithDefaults lb (node_WithDefaults lb c) = node_WithDefaults lb c"
  using node_WithDefaults_idem [OF ex_lib_canonical, of c] by (metis WithDefaults_no_attacks WithDefaults_HasAttackOptions)

lemma params_defaults_durations:
  "gp_HeartbeatInitialDelay (params_defaults (nodeParams g)) = ''100ms''" "gp_HeartbeatInterval (params_defaults (nodeParams g)) = ''1s''"
  "gp_FanoutTTL (params_defaults (nodeParams g)) = ''1m''" "gp_PruneBackoff (params_defaults (nodeParams g)) = ''1m''"
  "gp_UnsubscribeBackoff (params_defaults (nodeParams g)) = ''10s''" "gp_ConnectionTimeout (params_defaults (nodeParams g)) = ''30s''"
  "gp_DirectConnectInitialDelay (params_defaults (nodeParams g)) = ''1s''" "gp_GraftFloodThreshold (params_defaults (nodeParams g)) = ''10s''"
  "gp_IWantFollowupTime (params_defaults (nodeParams g)) = ''3s''"
  by (simp_all add: params_defaults_def nodeParams_def zero_params_def)

lemma bare_gossipsub:
  assumes "g = gossipsub_defaults (zero_gossipsub\<lparr>gs_Params := P\<rparr>)"
  shows "g = zero_gossipsub\<lparr>gs_Enabled := Some True, gs_Router := ''gossipsub'', gs_TopicMode := ''subscribe'', gs_Subscribe := Some True,
    gs_AllowPublish := Some True, gs_Topics := Some [''kpl/default''], gs_Params := params_defaults P\<rparr>"
  by (simp add: assms gossipsub_defaults_def Let_def) (simp add: zero_gossipsub_def)

lemma bare_rest:
  assumes "c = node_WithDefaults lb (bare P n)"
  shows "nd_Kademlia c = kademlia_defaults zero_kademlia" "nd_Libp2p c = zero_libp2p" "nd_Type c = ''full''"
    "nd_Forwarding c = None" "nd_InvalidMessage c = None" "nd_Sink c = None" "nd_Censorship c = None" "nd_MessageDelay c = None"
    "nd_ConnectionAttack c = None" "nd_GraftFlood c = None" "nd_IHaveSpam c = None" "nd_IWantWithholding c = None"
  by (simp_all add: assms node_WithDefaults_def bare_def promoteLegacy_def defaultAttacks_def zero_node_def zero_libp2p_def promote_int_def Let_def)

lemma bare_valid:
  assumes "check_params (params_defaults (nodeParams g)) = Inr ()" "network_Validate gm n = Inr ()"
  shows "node_Validate lb gm (bare (nodeParams g) n) = Inr ()"
proof -
  define c where "c = node_WithDefaults lb (bare (nodeParams g) n)"
  note rest = bare_rest [OF c_def]
  have gs: "nd_GossipSub c = zero_gossipsub\<lparr>gs_Enabled := Some True, gs_Router := ''gossipsub'', gs_TopicMode := ''subscribe'', gs_Subscribe := Some True,
    gs_AllowPublish := Some True, gs_Topics := Some [''kpl/default''], gs_Params := params_defaults (nodeParams g)\<rparr>"
    by (rule bare_gossipsub) (simp add: c_def bare_defaults)
  have "ValidateAttacks lb c = Inr ()"
    by (simp add: ValidateAttacks_def ValidateAttackSyntax_def Let_def defaultAttacks_def rest attack_topics_def attack_durations_def attack_counts_def
        opt_list_def AttackSelectors_def check_censorship_def check_message_delay_def check_connection_attack_def check_graft_flood_def
        check_ihave_spam_def check_active_attacks_def HasActiveAttacks_def pa_Active_def)
  moreover have "check_kademlia_node lb (nd_Kademlia c) = Inr ()"
    by (simp add: rest check_kademlia_node_def kademlia_defaults_def zero_kademlia_def kademlia_Validate_def check_filter_def check_diversity_def
        check_validator_def check_provider_store_def check_amino_def aminoProtocol_def)
  moreover have "check_gossipsub_node lb c = Inr ()"
    using assms(1) by (simp add: check_gossipsub_node_def Let_def gs ValidateExtended_def check_routing_def wrong_router_def validateMessageID_def
        check_peer_filter_def check_blacklist_def check_subscription_filter_def check_rpc_inspector_def check_author_def check_publish_def
        check_discovery_routing_def check_router_def check_sizes_def zero_gossipsub_def)
  moreover have "check_all check_node_duration (node_durations c) = Inr ()"
    by (simp add: node_durations_def gs rest Let_def kademlia_defaults_def zero_kademlia_def zero_libp2p_def zero_gossipsub_def check_node_duration_def
        params_defaults_durations parse_literals)
  moreover have "check_connection_manager (nd_Libp2p c) = Inr ()" by (simp add: rest check_connection_manager_def zero_libp2p_def)
  moreover have "nd_Network c = n" by (simp add: c_def bare_defaults)
  ultimately show ?thesis unfolding node_Validate_def Let_def c_def [symmetric] accept_seq
    by (simp add: assms(2) rest(2,3) gs) (simp add: zero_libp2p_def zero_gossipsub_def)
qed

subsection \<open>Acknowledgements\<close>

lemma merge_default_absorb: "merge_ptr (default_ptr d (merge_ptr x y)) y = default_ptr d (merge_ptr x y)"
  by (cases x; cases y) auto

lemma runtime_absorb:
  assumes "Q = merge_params B (nodeParams g)"
  shows "merge_params (params_defaults (nodeParams (runtime_params Q))) (nodeParams g) = params_defaults (nodeParams (runtime_params Q))"
  by (simp add: assms merge_params_def params_defaults_def nodeParams_def runtime_params_def zero_params_def merge_default_absorb)

lemma runtime_complete:
  assumes "Q = params_defaults Q0"
  shows "runtime_params (params_defaults (nodeParams (runtime_params Q))) = runtime_params Q" "\<not> incomplete_params (runtime_params Q)"
  by (simp_all add: assms runtime_params_def params_defaults_def nodeParams_def incomplete_params_def)

lemma check_params_default: "check_params (params_defaults (nodeParams zero_runtime)) = Inr ()"
  by (simp add: params_defaults_def nodeParams_def zero_params_def zero_runtime_def check_params_def check_degrees_def check_history_def check_factors_def
      check_counts_def validNumber_def tenth)

lemma check_params_runtime:
  assumes "check_params Q = Inr ()" "Q = params_defaults Q0"
  shows "check_params (params_defaults (nodeParams (runtime_params Q))) = Inr ()"
proof -
  let ?R = "params_defaults (nodeParams (runtime_params Q))"
  have same: "gp_D ?R = gp_D Q" "gp_DLow ?R = gp_DLow Q" "gp_DHigh ?R = gp_DHigh Q" "gp_DScore ?R = gp_DScore Q" "gp_DOut ?R = gp_DOut Q"
    "gp_DLazy ?R = gp_DLazy Q" "gp_GossipFactor ?R = gp_GossipFactor Q" "gp_HopwaveFactor ?R = gp_HopwaveFactor Q" "gp_HopwaveInterval ?R = gp_HopwaveInterval Q"
    by (simp_all add: assms(2) params_defaults_def nodeParams_def runtime_params_def)
  have "check_degrees ?R = Inr ()" using assms(1) by (simp add: check_params_def accept_seq check_degrees_def same)
  moreover have "check_history ?R = Inr ()"
    by (simp add: check_history_def params_defaults_def nodeParams_def zero_params_def)
  moreover have "check_counts ?R = Inr ()"
    by (simp add: check_counts_def params_defaults_def nodeParams_def zero_params_def)
  moreover have "check_factors ?R = Inr ()"
  proof -
    have "gp_SlowHeartbeatWarning ?R = Some (f64_round (1 / 10))" by (simp add: params_defaults_def nodeParams_def zero_params_def)
    then show ?thesis using assms(1) by (auto simp: check_params_def accept_seq check_factors_def same rbind_Inr_iff tenth validNumber_def)
  qed
  ultimately show ?thesis by (simp add: check_params_def)
qed

lemma ack_attack_ok:
  assumes "pa_Validate w = Inr ()"
  shows "check_ack_attack (Some w, Some (pa_WithDefaults (merge_pa r w))) = Inr ()"
proof -
  have "pa_Probability w = Some v \<Longrightarrow> v \<noteq> NaN" for v using assms by (auto simp: pa_Validate_def)
  then show ?thesis
    by (cases "pa_Enabled w"; cases "pa_Probability w") (auto simp: check_ack_attack_def differs_def f_eq_def pa_WithDefaults_def merge_pa_def)
qed

lemma snapshot_attack_ok: "pa_Validate (pa_WithDefaults x) = Inr () \<Longrightarrow> check_snapshot_attack (name, Some (pa_WithDefaults x)) = Inr ()"
  by (simp add: check_snapshot_attack_def) (simp add: pa_WithDefaults_def)

lemma patch_merge_attacks:
  "nd_Forwarding (node_Merge b (patch_overlay p)) = mergeAttack merge_targeted zero_targeted (nd_Forwarding b) (map_option (\<lambda>a. zero_targeted\<lparr>ta_Attack := a\<rparr>) (rp_Forwarding p))"
  "nd_Sink (node_Merge b (patch_overlay p)) = mergeAttack merge_pa zero_pa (nd_Sink b) (rp_Sink p)"
  "nd_Censorship (node_Merge b (patch_overlay p)) = mergeAttack merge_censorship zero_censorship (nd_Censorship b) (map_option (\<lambda>a. zero_censorship\<lparr>ce_Attack := a\<rparr>) (rp_Censorship p))"
  "nd_MessageDelay (node_Merge b (patch_overlay p)) = mergeAttack merge_delay_attack zero_delay_attack (nd_MessageDelay b) (map_option (\<lambda>a. zero_delay_attack\<lparr>md_Attack := a\<rparr>) (rp_MessageDelay p))"
  unfolding node_Merge_patch by (simp_all add: mergeAttacks_def) (simp_all add: patch_overlay_def)

text \<open>The attack values in force after an application: those of the patch over the previous ones.\<close>

lemma applied_attacks:
  assumes "u = node_WithDefaults lb (node_Merge b (patch_overlay p))" "s = RuntimeProfileSnapshot lb u"
  shows "rp_Forwarding p = Some w \<Longrightarrow> \<exists>r. rp_Forwarding s = Some (pa_WithDefaults (merge_pa r w))"
    "rp_Sink p = Some w \<Longrightarrow> \<exists>r. rp_Sink s = Some (pa_WithDefaults (merge_pa r w))"
    "rp_Censorship p = Some w \<Longrightarrow> \<exists>r. rp_Censorship s = Some (pa_WithDefaults (merge_pa r w))"
    "rp_MessageDelay p = Some w \<Longrightarrow> \<exists>r. rp_MessageDelay s = Some (pa_WithDefaults (merge_pa r w))"
  by (auto simp: assms RuntimeProfileSnapshot_def Let_def WithDefaults_parts patch_merge_attacks mergeAttack_def targeted_defaults_def
      censorship_defaults_def delay_defaults_def merge_targeted_def merge_censorship_def merge_delay_attack_def option.map_comp)

lemma snapshot_attacks_valid:
  assumes "node_Validate lb gm u = Inr ()" "s = RuntimeProfileSnapshot lb u" "(name, Some a) \<in> set (patch_attacks s)"
  shows "pa_Validate a = Inr ()"
proof -
  let ?c = "node_WithDefaults lb u"
  have "ValidateAttackSyntax lb ?c = Inr ()"
    using node_accepted_parts(1) [OF assms(1) refl] unfolding ValidateAttacks_def accept_seq by blast
  then have "(case nd_Forwarding ?c of None \<Rightarrow> Inr () | Some f \<Rightarrow> wrap ''forwarding: '' (pa_Validate (ta_Attack f))) = Inr ()"
    "check_all pa_Validate (opt_list (\<lambda>p. p) (nd_Sink ?c) @ opt_list ce_Attack (nd_Censorship ?c) @ opt_list md_Attack (nd_MessageDelay ?c)
       @ opt_list ta_Attack (nd_IWantWithholding ?c)) = Inr ()"
    unfolding ValidateAttackSyntax_def accept_seq by blast+
  then show ?thesis using assms(3)
    by (auto simp: assms(2) RuntimeProfileSnapshot_def Let_def patch_attacks_def set_opt_list dest!: sym [of "Some a"])
qed

text \<open>The configuration rebuilt from an acknowledgement absorbs the requested patch, and so is what the request would have produced.\<close>

lemma bare_absorbs:
  assumes "merge_params (params_defaults P) (patch_params p) = params_defaults P" "network_Merge n (patch_net p) = n" "\<not> HasAttacks p"
  shows "node_WithDefaults lb (node_Merge (node_WithDefaults lb (bare P n)) (patch_overlay p)) = node_WithDefaults lb (bare P n)"
proof -
  define b where "b = node_WithDefaults lb (bare P n)"
  have g: "gs_Params (nd_GossipSub b) = params_defaults P" "nd_Network b = n" by (simp_all add: b_def bare_defaults)
  have "mergeAttacks b b (patch_overlay p) = b"
    using assms(3) by (simp add: mergeAttacks_def HasAttacks_def patch_overlay_def zero_node_def)
  moreover have "b\<lparr>nd_GossipSub := (nd_GossipSub b)\<lparr>gs_Params := merge_params (gs_Params (nd_GossipSub b)) (patch_params p)\<rparr>,
      nd_Network := network_Merge (nd_Network b) (patch_net p)\<rparr> = b"
    by (simp add: g assms(1,2))
  ultimately have "node_Merge b (patch_overlay p) = b" by (simp only: node_Merge_patch)
  then show ?thesis unfolding b_def by (simp add: plain_WithDefaults_idem bare_defaults)
qed

lemma bare_apply:
  assumes "patch_Validate gm p = Inr ()" "\<not> HasAttacks p" "nc_Schedule n = None"
    "merge_params (params_defaults (nodeParams r)) (patch_params p) = params_defaults (nodeParams r)" "network_Merge n (patch_net p) = n"
    "check_params (params_defaults (nodeParams r)) = Inr ()" "network_Validate gm n = Inr ()"
  shows "patch_Apply lb gm p (bare (nodeParams r) n) = Inr (node_WithDefaults lb (bare (nodeParams r) n))"
proof -
  let ?b = "node_WithDefaults lb (bare (nodeParams r) n)"
  have "runs_gossipsub ?b = Inr True"
    by (simp add: runs_gossipsub_def bare_defaults gossipsub_defaults_def Let_def zero_gossipsub_def)
  moreover have "\<not> network_Scheduled (nd_Network ?b)" by (simp add: bare_defaults network_Scheduled_def assms(3))
  moreover have "node_Validate lb gm ?b = Inr ()"
    using bare_valid [OF assms(6,7), of lb] plain_WithDefaults_idem [of "bare (nodeParams r) n" lb] by (simp add: node_Validate_def bare_defaults)
  ultimately show ?thesis
    using assms(1,2) by (simp add: patch_Apply_def Let_def bare_absorbs [OF assms(4,5,2)])
qed

lemma effective_attack:
  assumes "\<And>w. x = Some w \<Longrightarrow> \<exists>r. y = Some (pa_WithDefaults (merge_pa r w))" "\<And>a. y = Some a \<Longrightarrow> pa_Validate a = Inr ()"
    "\<And>w. x = Some w \<Longrightarrow> pa_Validate w = Inr ()"
  shows "check_snapshot_attack (name, only_if x y) = Inr () \<and> check_ack_attack (x, only_if x y) = Inr () \<and> (only_if x y = None \<longleftrightarrow> x = None)"
proof (cases x)
  case (Some w)
  obtain r where y: "y = Some (pa_WithDefaults (merge_pa r w))" using assms(1) [OF Some] by blast
  then have "pa_Validate (pa_WithDefaults (merge_pa r w)) = Inr ()" using assms(2) by blast
  then show ?thesis using ack_attack_ok [OF assms(3) [OF Some]] by (simp add: Some y only_if_def snapshot_attack_ok)
qed (simp_all add: only_if_def check_snapshot_attack_def check_ack_attack_def)

lemma patch_attack_valid:
  assumes "patch_Validate gm p = Inr ()" "(name, Some w) \<in> set (patch_attacks p)"
  shows "pa_Validate w = Inr ()"
proof -
  have "check_patch_attack (name, Some w) = Inr ()" using assms by (auto simp: patch_Validate_def accept_seq)
  then show ?thesis by (simp add: check_patch_attack_def accept_seq)
qed

lemma patch_network_concrete:
  assumes "patch_Validate gm p = Inr ()" "rp_Network p = Some n"
  shows "nc_Schedule n = None" "nf_DelayDistribution (nc_fields n) = None"
  using assms by (auto simp: patch_Validate_def check_patch_network_def accept_seq)

lemma merge_distribution_None:
  "nf_DelayDistribution (nc_fields a) = None \<Longrightarrow> nf_DelayDistribution (nc_fields b) = None \<Longrightarrow> nf_DelayDistribution (nc_fields (network_Merge a b)) = None"
  by (simp add: network_Merge_def network_Merge_fields_def merge_network_fields_def network_modes_def Let_def)

lemma merge_Initial_twice: "nc_Schedule n = None \<Longrightarrow> network_Merge (network_Initial (network_Merge m n)) n = network_Initial (network_Merge m n)"
  using merge_twice(4) [of "network_Initial m" n] by (simp add: network_Merge_def network_Initial_def)

text \<open>The snapshot is the effective state restricted to the fields of the patch.\<close>

lemma snapshot_parts:
  assumes "u = node_WithDefaults lb u0"
  shows "rp_GossipSub (patch_Snapshot lb p u) = only_if (rp_GossipSub p) (Some (runtime_params (gs_Params (nd_GossipSub u))))"
    "rp_Network (patch_Snapshot lb p u) = only_if (rp_Network p) (Some (network_Initial (nd_Network u)))"
  using WithDefaults_twice [of lb u0] by (simp_all add: patch_Snapshot_def RuntimeProfileSnapshot_def Let_def assms WithDefaults_parts(2))

lemma ack_attacks:
  assumes "patch_Apply lb gm p base = Inr u" "eff = patch_Snapshot lb p u"
  shows "check_all check_snapshot_attack (patch_attacks eff) = Inr ()"
    "check_all check_ack_attack [(rp_Forwarding p, rp_Forwarding eff), (rp_Sink p, rp_Sink eff), (rp_Censorship p, rp_Censorship eff),
       (rp_MessageDelay p, rp_MessageDelay eff)] = Inr ()"
    "(rp_Forwarding eff = None) = (rp_Forwarding p = None)" "(rp_Sink eff = None) = (rp_Sink p = None)"
    "(rp_Censorship eff = None) = (rp_Censorship p = None)" "(rp_MessageDelay eff = None) = (rp_MessageDelay p = None)"
proof -
  obtain b where u: "u = node_WithDefaults lb (node_Merge b (patch_overlay p))" and valid: "patch_Validate gm p = Inr ()" "node_Validate lb gm u = Inr ()"
    by (rule patch_ApplyE [OF assms(1)])
  define s where "s = RuntimeProfileSnapshot lb u"
  note a = applied_attacks [OF u s_def] and v = snapshot_attacks_valid [OF valid(2) s_def] and w = patch_attack_valid [OF valid(1)]
  have e: "rp_Forwarding eff = only_if (rp_Forwarding p) (rp_Forwarding s)" "rp_Sink eff = only_if (rp_Sink p) (rp_Sink s)"
    "rp_Censorship eff = only_if (rp_Censorship p) (rp_Censorship s)" "rp_MessageDelay eff = only_if (rp_MessageDelay p) (rp_MessageDelay s)"
    by (simp_all add: assms(2) patch_Snapshot_def s_def Let_def)
  have att: "check_snapshot_attack (name, only_if x y) = Inr () \<and> check_ack_attack (x, only_if x y) = Inr () \<and> (only_if x y = None \<longleftrightarrow> x = None)"
    if "\<And>w. x = Some w \<Longrightarrow> \<exists>r. y = Some (pa_WithDefaults (merge_pa r w))" "(name, y) \<in> set (patch_attacks s)" "(name, x) \<in> set (patch_attacks p)" for name x y
    using that v w by (intro effective_attack) auto
  have mem: "(''forwarding'', rp_Forwarding q) \<in> set (patch_attacks q)" "(''sink'', rp_Sink q) \<in> set (patch_attacks q)"
    "(''censorship'', rp_Censorship q) \<in> set (patch_attacks q)" "(''messageDelay'', rp_MessageDelay q) \<in> set (patch_attacks q)" for q
    by (simp_all add: patch_attacks_def)
  note all = att [OF a(1) mem(1) mem(1), folded e] att [OF a(2) mem(2) mem(2), folded e]
    att [OF a(3) mem(3) mem(3), folded e] att [OF a(4) mem(4) mem(4), folded e]
  show "(rp_Forwarding eff = None) = (rp_Forwarding p = None)" "(rp_Sink eff = None) = (rp_Sink p = None)"
    "(rp_Censorship eff = None) = (rp_Censorship p = None)" "(rp_MessageDelay eff = None) = (rp_MessageDelay p = None)"
    using all by blast+
  show "check_all check_snapshot_attack (patch_attacks eff) = Inr ()"
    using all by (simp add: patch_attacks_def)
  show "check_all check_ack_attack [(rp_Forwarding p, rp_Forwarding eff), (rp_Sink p, rp_Sink eff), (rp_Censorship p, rp_Censorship eff),
       (rp_MessageDelay p, rp_MessageDelay eff)] = Inr ()"
    using all by simp
qed

lemma ordinary_valid:
  assumes "patch_Validate gm p = Inr ()" "q = p\<lparr>rp_Forwarding := None, rp_Sink := None, rp_Censorship := None, rp_MessageDelay := None\<rparr>"
    "rp_GossipSub p \<noteq> None \<or> rp_Network p \<noteq> None"
  shows "patch_Validate gm q = Inr ()" "\<not> HasAttacks q" "patch_params q = patch_params p" "patch_net q = patch_net p"
proof -
  show "\<not> HasAttacks q" "patch_params q = patch_params p" "patch_net q = patch_net p"
    by (simp_all add: assms(2) HasAttacks_def patch_params_def patch_net_def)
  have "check_all check_patch_attack (patch_attacks q) = Inr ()" by (simp add: assms(2) patch_attacks_def check_patch_attack_def)
  then show "patch_Validate gm q = Inr ()" using assms(1,3) unfolding patch_Validate_def accept_seq by (auto simp: assms(2) accept_seq)
qed

lemma network_zero_valid: "network_Validate gm (NetworkConfig zero_network None) = Inr ()"
  by (simp add: network_Validate_def fields_Validate_def zero_network_def networkDuration_def parse_literals check_delay_distribution_def check_percent_def
      check_tbf_def validateSchedule_def)

lemma params_zero: "zero_params = nodeParams zero_runtime"
  by (simp add: nodeParams_def zero_runtime_def zero_params_def)

lemma nodeParams_absorbs_none: "merge_params (params_defaults P) zero_params = params_defaults P"
  by (simp add: merge_params_def zero_params_def)

text \<open>
  What an acknowledgement rebuilds: the runtime parameters and the network conditions of the applied node where the patch
  has them, zero values elsewhere.
\<close>

definition ack_runtime :: "RuntimeProfilePatch \<Rightarrow> NodeConfig \<Rightarrow> RuntimeGossipSubParams" where
  "ack_runtime p u = (case rp_GossipSub p of None \<Rightarrow> zero_runtime | Some _ \<Rightarrow> runtime_params (gs_Params (nd_GossipSub u)))"

definition ack_net :: "RuntimeProfilePatch \<Rightarrow> NodeConfig \<Rightarrow> NetworkConfig" where
  "ack_net p u = (case rp_Network p of None \<Rightarrow> NetworkConfig zero_network None | Some _ \<Rightarrow> network_Initial (nd_Network u))"

lemma ack_runtime_facts:
  assumes "patch_Apply lb gm p base = Inr u"
  shows "check_params (params_defaults (nodeParams (ack_runtime p u))) = Inr ()"
    "merge_params (params_defaults (nodeParams (ack_runtime p u))) (patch_params p) = params_defaults (nodeParams (ack_runtime p u))"
    "rp_GossipSub p \<noteq> None \<Longrightarrow> runtime_params (params_defaults (nodeParams (ack_runtime p u))) = runtime_params (gs_Params (nd_GossipSub u))
       \<and> \<not> incomplete_params (runtime_params (gs_Params (nd_GossipSub u)))"
proof -
  obtain b where b: "b = node_WithDefaults lb base" "u = node_WithDefaults lb (node_Merge b (patch_overlay p))" "node_Validate lb gm u = Inr ()"
    "rp_GossipSub p \<noteq> None \<Longrightarrow> runs b"
    using patch_ApplyE [OF assms] by metis
  let ?Q = "gs_Params (nd_GossipSub u)"
  note up = applied_gossipsub [OF b(1,2)]
  obtain Q0 where Q0: "?Q = params_defaults Q0" using WithDefaults_parts(1) b(2) by simp
  have Q: "?Q = merge_params (gs_Params (nd_GossipSub b)) (patch_params p)" by (simp add: up)
  have "runs u" if "rp_GossipSub p \<noteq> None" using b(4) that runs_applied [OF up(1)] by blast
  then show "check_params (params_defaults (nodeParams (ack_runtime p u))) = Inr ()"
    using check_params_runtime [OF accepted_params [OF b(3,2)] Q0] check_params_default by (cases "rp_GossipSub p") (simp_all add: ack_runtime_def)
  show "merge_params (params_defaults (nodeParams (ack_runtime p u))) (patch_params p) = params_defaults (nodeParams (ack_runtime p u))"
    using Q nodeParams_absorbs_none runtime_absorb by (cases "rp_GossipSub p") (simp_all add: ack_runtime_def patch_params_def)
  show "rp_GossipSub p \<noteq> None \<Longrightarrow> runtime_params (params_defaults (nodeParams (ack_runtime p u))) = runtime_params ?Q \<and> \<not> incomplete_params (runtime_params ?Q)"
    using runtime_complete [OF Q0] by (auto simp: ack_runtime_def)
qed

lemma ack_net_facts:
  assumes "patch_Apply lb gm p base = Inr u" "nf_DelayDistribution (nc_fields (nd_Network base)) = None"
  shows "network_Validate gm (ack_net p u) = Inr ()" "nc_Schedule (ack_net p u) = None" "network_Merge (ack_net p u) (patch_net p) = ack_net p u"
    "nf_DelayDistribution (nc_fields (ack_net p u)) = None"
proof -
  obtain b where b: "b = node_WithDefaults lb base" "patch_Validate gm p = Inr ()" "u = node_WithDefaults lb (node_Merge b (patch_overlay p))"
    "node_Validate lb gm u = Inr ()"
    by (rule patch_ApplyE [OF assms(1)])
  note up = applied_gossipsub(2) [OF b(1,3)]
  show "network_Validate gm (ack_net p u) = Inr ()" "nc_Schedule (ack_net p u) = None"
    using network_zero_valid fields_accepted [OF accepted_network [OF b(4)]] by (simp_all add: ack_net_def network_Initial_def split: option.split)
  show "network_Merge (ack_net p u) (patch_net p) = ack_net p u"
    using patch_network_concrete(1) [OF b(2)] merge_Initial_twice by (cases "rp_Network p") (simp_all add: ack_net_def patch_net_def up)
  show "nf_DelayDistribution (nc_fields (ack_net p u)) = None"
    using patch_network_concrete(2) [OF b(2)] merge_distribution_None assms(2)
    by (cases "rp_Network p") (simp_all add: ack_net_def patch_net_def up network_Initial_def b(1) WithDefaults_parts, simp add: zero_network_def)
qed

lemma snapshot_accepted:
  assumes "patch_Apply lb gm p base = Inr u" "nf_DelayDistribution (nc_fields (nd_Network base)) = None" "e = patch_Snapshot lb p u"
  shows "ValidateRuntimeProfileSnapshot lb gm e = Inr ()"
proof -
  obtain b where b: "patch_Validate gm p = Inr ()" "u = node_WithDefaults lb (node_Merge b (patch_overlay p))" by (rule patch_ApplyE [OF assms(1)])
  note ep = snapshot_parts [OF b(2), of p, folded assms(3)] and at = ack_attacks [OF assms(1,3)]
    and params = ack_runtime_facts [OF assms(1)] and net = ack_net_facts [OF assms(1,2)]
  have "(case rp_GossipSub e of None \<Rightarrow> Inr () | Some g \<Rightarrow> rbind (check (incomplete_params g) ''incomplete runtime GossipSub snapshot'') (\<lambda>_.
      node_Validate lb gm (zero_node\<lparr>nd_GossipSub := zero_gossipsub\<lparr>gs_Params := nodeParams g\<rparr>\<rparr>))) = Inr ()"
    using bare_valid [OF params(1) network_zero_valid, of lb] params(3)
    by (cases "rp_GossipSub p") (simp_all add: ep only_if_def ack_runtime_def accept_seq bare_def zero_node_def)
  moreover have "(case rp_Network e of None \<Rightarrow> Inr () | Some n \<Rightarrow> rbind (check (nc_Schedule n \<noteq> None \<or> nf_DelayDistribution (nc_fields n) \<noteq> None)
      ''runtime network snapshot must be concrete'') (\<lambda>_. network_Validate gm n)) = Inr ()"
    using net by (cases "rp_Network p") (simp_all add: ep only_if_def ack_net_def)
  moreover have "rp_GossipSub p \<noteq> None \<or> rp_Network p \<noteq> None \<or> HasAttacks p" using b(1) unfolding patch_Validate_def accept_seq check_Inr by argo
  then have "\<not> (rp_GossipSub e = None \<and> rp_Network e = None \<and> \<not> HasAttacks e)"
    unfolding HasAttacks_def using at(3-6) by (auto simp: ep only_if_def)
  ultimately show ?thesis using at(1) unfolding ValidateRuntimeProfileSnapshot_def accept_seq check_Inr by blast
qed

text \<open>
  Agreement on runtime changes: when a Peer has applied a patch and acknowledges it with the snapshot of its effective
  configuration, the check made by Agent and Controller accepts the acknowledgement, for every patch, base
  configuration and combination of attack, GossipSub and network fields, as long as the network conditions in force are concrete.
\<close>

lemma ack_honest:
  assumes app: "patch_Apply lb gm (ur_Set request) base = Inr updated"
    and concrete: "nf_DelayDistribution (nc_fields (nd_Network base)) = None"
    and eff: "us_Effective response = patch_Snapshot lb (ur_Set request) updated"
  shows "ValidateProfileAcknowledgement lb gm request response = Inr ()"
proof -
  define p where "p = ur_Set request"
  define e where "e = patch_Snapshot lb p updated"
  define v where "v = node_WithDefaults lb (bare (nodeParams (ack_runtime p updated)) (ack_net p updated))"
  define q where "q = p\<lparr>rp_Forwarding := None, rp_Sink := None, rp_Censorship := None, rp_MessageDelay := None\<rparr>"
  obtain b where b: "patch_Validate gm p = Inr ()" "updated = node_WithDefaults lb (node_Merge b (patch_overlay p))"
    by (rule patch_ApplyE [OF app [folded p_def]])
  note ep = snapshot_parts [OF b(2), of p, folded e_def] and at = ack_attacks [OF app [folded p_def] e_def]
    and params = ack_runtime_facts [OF app [folded p_def]] and net = ack_net_facts [OF app [folded p_def] concrete]
    and snap = snapshot_accepted [OF app [folded p_def] concrete e_def]
  have ebase: "zero_node\<lparr>nd_GossipSub := zero_gossipsub\<lparr>gs_Params := (case rp_GossipSub e of None \<Rightarrow> zero_params | Some g \<Rightarrow> nodeParams g)\<rparr>,
      nd_Network := (case rp_Network e of None \<Rightarrow> NetworkConfig zero_network None | Some n \<Rightarrow> n)\<rparr>
      = bare (nodeParams (ack_runtime p updated)) (ack_net p updated)"
    by (cases "rp_GossipSub p"; cases "rp_Network p") (simp_all add: bare_def ep only_if_def ack_runtime_def ack_net_def params_zero)
  have rest: "patch_Apply lb gm q (bare (nodeParams (ack_runtime p updated)) (ack_net p updated)) = Inr v" if "rp_GossipSub p \<noteq> None \<or> rp_Network p \<noteq> None"
    unfolding v_def using ordinary_valid [OF b(1) q_def that] net params by (intro bare_apply) simp_all
  have same: "rp_GossipSub (patch_Snapshot lb q v) = rp_GossipSub e" "rp_Network (patch_Snapshot lb q v) = rp_Network e"
    using params(3) snapshot_parts [OF v_def, of q]
    by (cases "rp_GossipSub p"; cases "rp_Network p";
        simp add: q_def v_def bare_defaults ep only_if_def ack_net_def ack_runtime_def network_Initial_def)+
  have "rp_GossipSub q = rp_GossipSub p" "rp_Network q = rp_Network p" by (simp_all add: q_def)
  then show ?thesis
    using at(2-6) snap rest same
    unfolding ValidateProfileAcknowledgement_def Let_def eff p_def [symmetric] e_def [symmetric] q_def [symmetric] accept_seq check_Inr ebase
    by (auto simp: ep only_if_def)
qed

text \<open>A patch of the mesh degree, the loss rate and the forwarding probability on the worker preset.\<close>

definition ex_patch :: RuntimeProfilePatch where
  "ex_patch = \<lparr>rp_Forwarding = Some \<lparr>pa_Enabled = Some True, pa_Probability = Some (Fin (1 / 2))\<rparr>, rp_Sink = None, rp_Censorship = None,
     rp_MessageDelay = None, rp_GossipSub = Some (zero_runtime\<lparr>rg_D := Some 8\<rparr>),
     rp_Network = Some (NetworkConfig (zero_network\<lparr>nf_LossPercent := Some (Fin 5)\<rparr>) None)\<rparr>"

definition ex_request :: "string \<Rightarrow> nat \<Rightarrow> ProfileUpdateRequest" where
  "ex_request stage revision = \<lparr>ur_RunID = ''run'', ur_Generation = 1, ur_Revision = revision, ur_Stage = stage, ur_Set = ex_patch\<rparr>"

lemma ex_patch_valid: "patch_Validate gm ex_patch = Inr ()"
  by (simp add: patch_Validate_def patch_attacks_def check_patch_attack_def ex_patch_def HasAttacks_def check_runtime_params_def zero_runtime_def
      check_patch_network_def network_Merge_def network_Merge_fields_def merge_network_fields_def network_modes_def zero_network_def Let_def
      network_Validate_def fields_Validate_def networkDuration_def parse_literals check_delay_distribution_def check_percent_def check_tbf_def
      validateSchedule_def pa_Validate_def)

definition ex_updated :: NodeConfig where
  "ex_updated = node_WithDefaults ex_lib (node_Merge (node_WithDefaults ex_lib zero_node) (patch_overlay ex_patch))"

text \<open>The result is that of the plain attacker node with the changed degree and loss rate, completed by defaults.\<close>

definition ex_plain :: NodeConfig where
  "ex_plain = zero_node\<lparr>nd_Forwarding := Some (zero_targeted\<lparr>ta_Attack := \<lparr>pa_Enabled = Some True, pa_Probability = Some (Fin (1 / 2))\<rparr>\<rparr>),
     nd_GossipSub := zero_gossipsub\<lparr>gs_Params := zero_params\<lparr>gp_D := Some 8\<rparr>\<rparr>,
     nd_Network := NetworkConfig (zero_network\<lparr>nf_LossPercent := Some (Fin 5)\<rparr>) None\<rparr>"

lemma ex_plain_valid: "node_Validate ex_lib gm ex_plain = Inr ()"
  by (simp add: ex_plain_def preset_eval zero_targeted_def validate_eval targeted_defaults_def pa_WithDefaults_def pa_Validate_def se_Validate_def
      attack_topics_ok_def normalizeAttackSelector_def)

lemma ex_merged: "node_Merge (node_WithDefaults ex_lib zero_node) (patch_overlay ex_patch)
    = (node_WithDefaults ex_lib zero_node)\<lparr>nd_Forwarding := nd_Forwarding ex_plain,
        nd_GossipSub := (nd_GossipSub (node_WithDefaults ex_lib zero_node))\<lparr>gs_Params := (params_defaults zero_params)\<lparr>gp_D := Some 8\<rparr>\<rparr>, nd_Network := nd_Network ex_plain\<rparr>"
proof -
  let ?b = "node_WithDefaults ex_lib zero_node"
  have "gs_Params (nd_GossipSub ?b) = params_defaults zero_params" by (simp add: preset_eval)
  moreover have "nd_Network ?b = NetworkConfig zero_network None" by (simp add: WithDefaults_parts) (simp add: zero_node_def)
  moreover have "merge_params (params_defaults zero_params) (patch_params ex_patch) = (params_defaults zero_params)\<lparr>gp_D := Some 8\<rparr>"
    by (simp add: patch_params_def ex_patch_def nodeParams_def zero_runtime_def merge_params_def zero_params_def)
  moreover have "network_Merge (NetworkConfig zero_network None) (patch_net ex_patch) = nd_Network ex_plain"
    by (simp add: patch_net_def ex_patch_def ex_plain_def network_Merge_def network_Merge_fields_def merge_network_fields_def network_modes_def zero_network_def)
  moreover have "mergeAttacks c ?b (patch_overlay ex_patch) = c\<lparr>nd_Forwarding := nd_Forwarding ex_plain, nd_InvalidMessage := None, nd_Sink := None,
      nd_Censorship := None, nd_MessageDelay := None, nd_ConnectionAttack := None, nd_GraftFlood := None, nd_IHaveSpam := None, nd_IWantWithholding := None\<rparr>" for c
    by (simp add: mergeAttacks_def patch_overlay_def ex_patch_def ex_plain_def zero_node_def node_WithDefaults_def Let_def defaultAttacks_def promoteLegacy_def
        mergeAttack_def merge_targeted_def merge_pa_def zero_targeted_def zero_pa_def)
  ultimately show ?thesis
    unfolding node_Merge_patch by (simp add: node_WithDefaults_def Let_def defaultAttacks_def promoteLegacy_def zero_node_def)
qed

lemma ex_updated_eq: "ex_updated = node_WithDefaults ex_lib ex_plain"
  unfolding ex_updated_def ex_merged by (simp add: preset_eval ex_plain_def zero_targeted_def)

lemma ex_updated_valid: "node_Validate ex_lib gm ex_updated = Inr ()"
  using ex_plain_valid node_WithDefaults_idem [OF ex_lib_canonical, of ex_plain] by (simp add: ex_updated_eq node_Validate_def)

lemma ex_patch_applies: "patch_Apply ex_lib gm ex_patch zero_node = Inr ex_updated"
proof -
  have "runs_gossipsub (node_WithDefaults ex_lib zero_node) = Inr True" by (simp add: runs_gossipsub_def preset_eval)
  moreover have "\<not> network_Scheduled (nd_Network (node_WithDefaults ex_lib zero_node))" by (simp add: WithDefaults_parts zero_node_def network_Scheduled_def)
  ultimately show ?thesis
    by (simp add: patch_Apply_def Let_def ex_patch_valid ex_updated_valid flip: ex_updated_def)
qed

end
