(* ===== verification/Profile_Update.thy ===== *)
theory Profile_Update
  imports Profile_Correct
begin

text \<open>
  The two-stage profile update of a Peer (\<^verbatim>\<open>internal/peer/profile_update.go\<close>): \<^verbatim>\<open>prepare\<close> computes and keeps the next
  configuration, \<^verbatim>\<open>apply\<close> installs exactly the prepared one. The gate serialises updates, so one execution is one step;
  what the outside contributes to it (cancellation, the attack registry, the kernel and the router) is the record
  \<open>update_env\<close>. Timestamps, telemetry events and the JSON text of the status are left out.
\<close>

subsection \<open>State\<close>

record AttackTarget =
  at_NodeID :: string
  at_Group :: string
  at_PeerID :: string
  at_AuthorPeerID :: string
  at_Addresses :: "string list"
  at_Ready :: bool

record preparedProfileUpdate =
  pp_request :: ProfileUpdateRequest
  pp_config :: NodeConfig

record peer_server =
  pr_NodeID :: string
  pr_RunID :: string
  pr_Generation :: nat
  pr_Role :: string
  pr_PeerID :: string
  pr_NodeConfig :: NodeConfig
  pr_ProfileRevision :: nat
  pr_NetworkMutable :: bool
  pr_pubsub :: bool
  pr_attacks :: "(NodeConfig \<times> nat) option"
  pr_prepared :: "preparedProfileUpdate option"
  pr_last :: "preparedProfileUpdate option"
  pr_failed :: bool
  pr_applied :: "(NodeConfig \<times> nat) option"
  pr_networkApplied :: "(NetworkConfig \<times> nat) option"

text \<open>
  Outcomes of the calls one execution may make: entering the gate, \<^verbatim>\<open>fetchTargets\<close> and the registry it leaves,
  the context before the installation, \<^verbatim>\<open>applyNetwork\<close> and \<^verbatim>\<open>SetGossipSubRuntimeParams\<close>.
\<close>

record update_env =
  ue_gate :: "unit result"
  ue_fetch :: "unit result"
  ue_registry :: "AttackTarget list option"
  ue_ctx :: "unit result"
  ue_network :: "NetworkConfig \<Rightarrow> NetworkConfig \<Rightarrow> unit result"
  ue_params :: "RuntimeGossipSubParams \<Rightarrow> unit result"

subsection \<open>Ambiguous publishers\<close>

text \<open>
  \<^verbatim>\<open>validateAttackPublisherTargets\<close>: \<open>byAuthor\<close> maps an author to the bits seen for it, 1 for a node that is not selected
  and 2 for one that is.
\<close>

fun publisher_targets :: "AttackSelector option \<Rightarrow> AttackTarget list \<Rightarrow> (string \<Rightarrow> bool \<times> bool) \<Rightarrow> unit result" where
  "publisher_targets selector [] byAuthor = Inr ()"
| "publisher_targets selector (target # targets) byAuthor =
     (if at_AuthorPeerID target = [] then
        rbind (check (se_Matches selector (at_Group target) (at_NodeID target) []) ''ambiguous attack publisher: anonymous node'') (\<lambda>_.
        publisher_targets selector targets byAuthor)
      else
        let author = at_AuthorPeerID target;
            hit = se_Matches selector (at_Group target) (at_NodeID target) author;
            seen = (fst (byAuthor author) \<or> \<not> hit, snd (byAuthor author) \<or> hit)
        in rbind (check (fst seen \<and> snd seen) ''ambiguous attack publisher'') (\<lambda>_.
           publisher_targets selector targets (byAuthor(author := seen))))"

definition selects_nodes :: "NodeConfig \<Rightarrow> bool" where
  "selects_nodes c =
     (case nd_Censorship c of None \<Rightarrow> False
      | Some ce \<Rightarrow> pa_Active (Some (ce_Attack ce)) \<and> \<not> se_Empty (ce_Publishers ce)
          \<and> (case ce_Publishers ce of None \<Rightarrow> False | Some s \<Rightarrow> length (se_Groups s) + length (se_NodeIDs s) > 0))"

definition validateAttackPublisherTargets :: "NodeConfig \<Rightarrow> AttackTarget list \<Rightarrow> unit result" where
  "validateAttackPublisherTargets c targets =
     (case nd_Censorship c of None \<Rightarrow> Inr ()
      | Some ce \<Rightarrow> if selects_nodes c then publisher_targets (ce_Publishers ce) targets (\<lambda>_. (False, False)) else Inr ())"

subsection \<open>One update\<close>

definition sameProfileUpdate :: "ProfileUpdateRequest \<Rightarrow> ProfileUpdateRequest \<Rightarrow> bool" where
  "sameProfileUpdate a b = (a\<lparr>ur_Stage := []\<rparr> = b\<lparr>ur_Stage := []\<rparr>)"

definition current_profile :: "peer_server \<Rightarrow> NodeConfig \<times> nat" where
  "current_profile s = (case pr_applied s of None \<Rightarrow> (pr_NodeConfig s, pr_ProfileRevision s) | Some a \<Rightarrow> a)"

definition update_response :: "golib \<Rightarrow> peer_server \<Rightarrow> ProfileUpdateRequest \<Rightarrow> NodeConfig \<Rightarrow> ProfileUpdateResponse" where
  "update_response lb s request c =
     \<lparr>us_NodeID = pr_NodeID s, us_PeerID = pr_PeerID s, us_Revision = ur_Revision request, us_Stage = ur_Stage request,
      us_Effective = patch_Snapshot lb (ur_Set request) c\<rparr>"

text \<open>The checks after the revision test: the configuration the patch leads to.\<close>

definition next_profile :: "golib \<Rightarrow> gomath \<Rightarrow> update_env \<Rightarrow> ProfileUpdateRequest \<Rightarrow> peer_server \<Rightarrow> NodeConfig result" where
  "next_profile lb gm E request s =
     rbind (check (rp_Network (ur_Set request) \<noteq> None \<and> \<not> pr_NetworkMutable s) ''Peer was not created with network update capability'') (\<lambda>_.
     rbind (check (rp_GossipSub (ur_Set request) \<noteq> None \<and> \<not> pr_pubsub s) ''GossipSub is not running'') (\<lambda>_.
     rbind (patch_Apply lb gm (ur_Set request) (fst (current_profile s))) (\<lambda>updated.
     rbind (ValidateAttackRole updated (pr_Role s)) (\<lambda>_.
     rbind (check (HasAttacks (ur_Set request) \<and> pr_attacks s = None) ''attack runtime is not running'') (\<lambda>_.
     rbind (if ur_Stage request = ''prepare'' \<and> selects_nodes updated then
         rbind (if pr_attacks s = None then Inl Panic else ue_fetch E) (\<lambda>_.
         case ue_registry E of None \<Rightarrow> Inr () | Some targets \<Rightarrow> validateAttackPublisherTargets updated targets)
       else Inr ()) (\<lambda>_.
     Inr updated))))))"

text \<open>The installation of a prepared configuration. An error leaves the mark that the effective state may be incomplete.\<close>

definition router_params :: "GossipSubParamsConfig \<Rightarrow> RuntimeGossipSubParams result" where
  "router_params p = (if incomplete_params (runtime_params p) then Inl Panic else Inr (runtime_params p))"

definition install_profile :: "update_env \<Rightarrow> ProfileUpdateRequest \<Rightarrow> NodeConfig \<Rightarrow> NodeConfig \<Rightarrow> peer_server \<Rightarrow> unit result \<times> peer_server" where
  "install_profile E request current updated s =
     (let new_net = network_Initial (nd_Network updated);
          net = (if rp_Network (ur_Set request) \<noteq> None then ue_network E (network_Initial (nd_Network current)) new_net else Inr ());
          s1 = (if rp_Network (ur_Set request) \<noteq> None \<and> net = Inr () then s\<lparr>pr_networkApplied := Some (new_net, ur_Revision request)\<rparr> else s);
          outcome = rbind net (\<lambda>_. if rp_GossipSub (ur_Set request) \<noteq> None then rbind (router_params (gs_Params (nd_GossipSub updated))) (ue_params E) else Inr ())
      in (outcome, s1))"

definition executeProfileUpdate :: "golib \<Rightarrow> gomath \<Rightarrow> update_env \<Rightarrow> ProfileUpdateRequest \<Rightarrow> peer_server \<Rightarrow> ProfileUpdateResponse result \<times> peer_server" where
  "executeProfileUpdate lb gm E request s =
     (let current = fst (current_profile s); revision = snd (current_profile s) in
      case rbind (request_Validate gm request) (\<lambda>_. ue_gate E) of Inl e \<Rightarrow> (Inl e, s)
      | Inr _ \<Rightarrow>
        if pr_failed s then (Inl (Fail ''previous profile application failed; effective state may be incomplete''), s)
        else if ur_Revision request \<le> revision then
          (if (case pr_last s of None \<Rightarrow> False | Some l \<Rightarrow> sameProfileUpdate (pp_request l) request)
           then (Inr (update_response lb s request current), s)
           else (Inl (Fail ''stale or conflicting profile revision''), s))
        else
          case next_profile lb gm E request s of Inl e \<Rightarrow> (Inl e, s)
          | Inr updated \<Rightarrow>
            if ur_Stage request = ''prepare'' then
              (if (case pr_prepared s of None \<Rightarrow> False
                   | Some q \<Rightarrow> ur_Revision request \<le> ur_Revision (pp_request q) \<and> \<not> sameProfileUpdate (pp_request q) request)
               then (Inl (Fail ''conflicting prepared profile revision''), s)
               else (Inr (update_response lb s request updated), s\<lparr>pr_prepared := Some \<lparr>pp_request = request, pp_config = updated\<rparr>\<rparr>))
            else
              case pr_prepared s of None \<Rightarrow> (Inl (Fail ''profile apply requires matching preparation''), s)
              | Some q \<Rightarrow>
                if \<not> sameProfileUpdate (pp_request q) request then (Inl (Fail ''profile apply requires matching preparation''), s)
                else
                  case ue_ctx E of Inl e \<Rightarrow> (Inl e, s)
                  | Inr _ \<Rightarrow>
                    (case install_profile E request current (pp_config q) s of
                       (Inl Panic, s1) \<Rightarrow> (Inl Panic, s1)
                     | (Inl e, s1) \<Rightarrow> (wrap ''profile apply may be partial: '' (Inl e), s1\<lparr>pr_failed := True\<rparr>)
                     | (Inr _, s1) \<Rightarrow>
                         (Inr (update_response lb s request (pp_config q)),
                          s1\<lparr>pr_attacks := (if HasAttacks (ur_Set request) then Some (node_WithDefaults lb (pp_config q), ur_Revision request) else pr_attacks s1),
                             pr_applied := Some (pp_config q, ur_Revision request), pr_last := pr_prepared s1, pr_prepared := None\<rparr>)))"

text \<open>The handler after decoding; \<open>header\<close> is the node identity the request names.\<close>

definition handleProfileUpdate :: "golib \<Rightarrow> gomath \<Rightarrow> update_env \<Rightarrow> string \<Rightarrow> ProfileUpdateRequest \<Rightarrow> peer_server \<Rightarrow> ProfileUpdateResponse result \<times> peer_server" where
  "handleProfileUpdate lb gm E header request s =
     (if pr_NodeID s = [] \<or> header \<noteq> pr_NodeID s then (Inl (Fail ''profile target identity mismatch''), s)
      else case request_Validate gm request of Inl e \<Rightarrow> (Inl e, s)
      | Inr _ \<Rightarrow>
        if ur_RunID request \<noteq> pr_RunID s \<or> ur_Generation request \<noteq> pr_Generation s then (Inl (Fail ''profile run/generation mismatch''), s)
        else executeProfileUpdate lb gm E request s)"

text \<open>The status a Peer reports.\<close>

definition profileStatusSnapshot :: "golib \<Rightarrow> peer_server \<Rightarrow> NodeConfig \<Rightarrow> RuntimeProfilePatch" where
  "profileStatusSnapshot lb s c =
     (let snapshot = RuntimeProfileSnapshot lb c;
          snapshot = (if gs_Enabled (nd_GossipSub c) \<noteq> Some True \<or> gs_Router (nd_GossipSub c) \<noteq> ''gossipsub''
                      then snapshot\<lparr>rp_GossipSub := None, rp_Forwarding := None, rp_Sink := None, rp_Censorship := None, rp_MessageDelay := None\<rparr> else snapshot)
      in if \<not> pr_NetworkMutable s \<or> network_Scheduled (nd_Network c) then snapshot\<lparr>rp_Network := None\<rparr> else snapshot)"

end
