(* ===== verification/Profile_Update_Correct.thy ===== *)
theory Profile_Update_Correct
  imports Profile_Update
begin

text \<open>
  The profile update protocol: the effective configuration is the initial one with the installed patches applied in the
  order of their revisions, whatever requests arrive in whatever order and however their outside calls end.
\<close>

subsection \<open>What one update does\<close>

text \<open>The four outcomes of an execution: nothing changes, a preparation, a failed installation, an installation.\<close>

inductive update_case :: "golib \<Rightarrow> gomath \<Rightarrow> ProfileUpdateRequest \<Rightarrow> peer_server \<Rightarrow> ProfileUpdateResponse result \<Rightarrow> peer_server \<Rightarrow> bool"
  for lb gm request s where
  refused: "update_case lb gm request s (Inl e) s"
| replayed: "update_case lb gm request s (Inr (update_response lb s request (fst (current_profile s)))) s"
    if "pr_last s = Some l" "sameProfileUpdate (pp_request l) request" "ur_Revision request \<le> snd (current_profile s)"
| prepared: "update_case lb gm request s (Inr (update_response lb s request u)) (s\<lparr>pr_prepared := Some \<lparr>pp_request = request, pp_config = u\<rparr>\<rparr>)"
    if "\<not> pr_failed s" "ur_Stage request = ''prepare''" "snd (current_profile s) < ur_Revision request"
      "patch_Apply lb gm (ur_Set request) (fst (current_profile s)) = Inr u"
| broken: "update_case lb gm request s (Inl e) (s\<lparr>pr_networkApplied := n, pr_failed := f\<rparr>)"
    if "\<not> pr_failed s" "ur_Stage request = ''apply''" "e = Panic \<or> f"
| installed: "update_case lb gm request s (Inr (update_response lb s request (pp_config q)))
      (s\<lparr>pr_networkApplied := n, pr_attacks := a, pr_applied := Some (pp_config q, ur_Revision request), pr_last := Some q, pr_prepared := None\<rparr>)"
    if "\<not> pr_failed s" "ur_Stage request = ''apply''" "snd (current_profile s) < ur_Revision request" "pr_prepared s = Some q"
      "sameProfileUpdate (pp_request q) request" "pr_attacks s \<noteq> None \<longrightarrow> a \<noteq> None"

lemma install_profile_parts: "\<exists>n. snd (install_profile E request c u s) = s\<lparr>pr_networkApplied := n\<rparr>"
  by (intro exI [of _ "pr_networkApplied (snd (install_profile E request c u s))"]) (simp add: install_profile_def Let_def)

lemma next_profile_Apply: "next_profile lb gm E request s = Inr u \<Longrightarrow> patch_Apply lb gm (ur_Set request) (fst (current_profile s)) = Inr u"
  by (auto simp: next_profile_def rbind_Inr_iff accept_seq)

lemma request_stage: "request_Validate gm request = Inr () \<Longrightarrow> ur_Stage request = ''prepare'' \<or> ur_Stage request = ''apply''"
  by (auto simp: request_Validate_def accept_seq)

lemma execute_case:
  assumes "executeProfileUpdate lb gm E request s = (res, s')"
  shows "update_case lb gm request s res s'"
proof (cases "rbind (request_Validate gm request) (\<lambda>_. ue_gate E)")
  case (Inl e)
  then show ?thesis using assms update_case.refused by (auto simp: executeProfileUpdate_def)
next
  case (Inr r)
  then have stage: "ur_Stage request = ''prepare'' \<or> ur_Stage request = ''apply''" using request_stage by (auto simp: rbind_Inr_iff)
  note ex = assms [unfolded executeProfileUpdate_def Let_def Inr sum.case]
  consider (early) "pr_failed s \<or> ur_Revision request \<le> snd (current_profile s)"
    | (go) u where "\<not> pr_failed s" "snd (current_profile s) < ur_Revision request" "next_profile lb gm E request s = Inr u"
    | (no) e where "\<not> pr_failed s" "snd (current_profile s) < ur_Revision request" "next_profile lb gm E request s = Inl e"
    by (cases "next_profile lb gm E request s") force+
  then show ?thesis
  proof cases
    case early
    then show ?thesis using ex by (auto intro: update_case.refused update_case.replayed split: if_splits option.splits)
  next
    case no
    then show ?thesis using ex update_case.refused by auto
  next
    case go
    note u = next_profile_Apply [OF go(3)]
    show ?thesis
    proof (cases "ur_Stage request = ''prepare''")
      case True
      then show ?thesis using ex go u by (auto intro: update_case.intros split: if_splits option.splits)
    next
      case False
      then have ap: "ur_Stage request = ''apply''" using stage by simp
      consider "res = Inl (Fail ''profile apply requires matching preparation'')" "s' = s"
        | q where "pr_prepared s = Some q" "sameProfileUpdate (pp_request q) request"
        using ex go False by (auto split: if_splits option.splits)
      then show ?thesis
      proof cases
        case (2 q)
        obtain n where n: "snd (install_profile E request (fst (current_profile s)) (pp_config q) s) = s\<lparr>pr_networkApplied := n\<rparr>"
          using install_profile_parts by blast
        obtain out s1 where io: "install_profile E request (fst (current_profile s)) (pp_config q) s = (out, s1)" by fastforce
        then have s1: "s1 = s\<lparr>pr_networkApplied := n\<rparr>" using n by simp
        have keep: "s\<lparr>pr_networkApplied := n\<rparr> = s\<lparr>pr_networkApplied := n, pr_failed := False\<rparr>" using go(1) by simp
        show ?thesis
        proof (cases "ue_ctx E")
          case (Inl e)
          then show ?thesis using ex go ap 2 by (auto intro: update_case.refused)
        next
          case (Inr c)
          show ?thesis
          proof (cases out)
            case (Inl e)
            then have "res = wrap ''profile apply may be partial: '' (Inl e) \<and> s' = s1\<lparr>pr_failed := True\<rparr> \<or> res = Inl Panic \<and> s' = s1 \<and> e = Panic"
              using ex go ap 2 io Inr by (cases e) (auto simp: s1)
            then show ?thesis
              using update_case.broken [OF go(1) ap, where f = True and n = n] update_case.broken [OF go(1) ap, where f = False and n = n and e = Panic] keep
              by (cases e) (auto simp: s1 wrap_def)
          next
            case (Inr v)
            then show ?thesis
              using ex go ap 2 io \<open>ue_ctx E = Inr c\<close> s1 update_case.installed [OF go(1) ap go(2) 2, of _ lb gm n] by auto
          qed
        qed
      qed (use update_case.refused in auto)
    qed
  qed
qed

subsection \<open>Histories\<close>

definition concrete_net :: "NodeConfig \<Rightarrow> bool" where
  "concrete_net c \<longleftrightarrow> nf_DelayDistribution (nc_fields (nd_Network c)) = None"

lemma Apply_concrete:
  assumes "patch_Apply lb gm p c = Inr u" "concrete_net c"
  shows "concrete_net u"
proof -
  obtain b where b: "b = node_WithDefaults lb c" "patch_Validate gm p = Inr ()" "u = node_WithDefaults lb (node_Merge b (patch_overlay p))"
    by (rule patch_ApplyE [OF assms(1)])
  have "nf_DelayDistribution (nc_fields (patch_net p)) = None"
    using patch_network_concrete(2) [OF b(2)] by (auto simp: patch_net_def zero_network_def split: option.split)
  then show ?thesis
    using assms(2) merge_distribution_None by (simp add: concrete_net_def applied_gossipsub(2) [OF b(1,3)]) (simp add: b(1) WithDefaults_parts)
qed

lemma Apply_runs:
  assumes "patch_Apply lb gm p c = Inr u"
  shows "runs u = runs (node_WithDefaults lb c)" "runs (node_WithDefaults lb u) = runs (node_WithDefaults lb c)"
proof -
  obtain b where b: "b = node_WithDefaults lb c" "u = node_WithDefaults lb (node_Merge b (patch_overlay p))"
    by (rule patch_ApplyE [OF assms])
  show "runs u = runs (node_WithDefaults lb c)" using runs_applied [OF applied_gossipsub(1) [OF b]] by (simp add: b(1))
  then show "runs (node_WithDefaults lb u) = runs (node_WithDefaults lb c)" using WithDefaults_twice [of lb] b(2) by (simp add: runs_def)
qed

text \<open>Whether an answer reports a new installation.\<close>

definition installs :: "ProfileUpdateRequest \<Rightarrow> peer_server \<Rightarrow> ProfileUpdateResponse result \<Rightarrow> bool" where
  "installs request s res \<longleftrightarrow> \<not> isl res \<and> ur_Stage request = ''apply'' \<and> snd (current_profile s) < ur_Revision request"

text \<open>A Peer as it starts: nothing prepared, a concrete network, and the attack runtime and the router running with GossipSub.\<close>

definition fresh_peer :: "golib \<Rightarrow> peer_server \<Rightarrow> bool" where
  "fresh_peer lb s \<longleftrightarrow> pr_prepared s = None \<and> pr_last s = None \<and> \<not> pr_failed s \<and> pr_applied s = None \<and> concrete_net (pr_NodeConfig s)
     \<and> (runs (node_WithDefaults lb (pr_NodeConfig s)) \<longrightarrow> pr_attacks s \<noteq> None \<and> pr_pubsub s)"

inductive profile_run :: "golib \<Rightarrow> gomath \<Rightarrow> peer_server \<Rightarrow> ProfileUpdateRequest list \<Rightarrow> peer_server \<Rightarrow> bool" for lb gm s0 where
  start: "profile_run lb gm s0 [] s0"
| step: "profile_run lb gm s0 (hist @ (if installs request s res then [request] else [])) s'"
    if "profile_run lb gm s0 hist s" "handleProfileUpdate lb gm E header request s = (res, s')"

definition apply_log :: "golib \<Rightarrow> gomath \<Rightarrow> ProfileUpdateRequest list \<Rightarrow> NodeConfig \<Rightarrow> NodeConfig result" where
  "apply_log lb gm hist c = foldR (\<lambda>q. patch_Apply lb gm (ur_Set q)) hist c"

lemma apply_log_simps [simp]:
  "apply_log lb gm [] c = Inr c" "apply_log lb gm (hist @ [q]) c = rbind (apply_log lb gm hist c) (patch_Apply lb gm (ur_Set q))"
  by (auto simp: apply_log_def foldR_append rbind_def split: sum.splits)

definition profile_inv :: "golib \<Rightarrow> gomath \<Rightarrow> peer_server \<Rightarrow> ProfileUpdateRequest list \<Rightarrow> peer_server \<Rightarrow> bool" where
  "profile_inv lb gm s0 hist s \<longleftrightarrow>
     pr_NodeConfig s = pr_NodeConfig s0 \<and> pr_ProfileRevision s = pr_ProfileRevision s0 \<and> pr_pubsub s = pr_pubsub s0
     \<and> (pr_attacks s0 \<noteq> None \<longrightarrow> pr_attacks s \<noteq> None)
     \<and> apply_log lb gm hist (pr_NodeConfig s0) = Inr (fst (current_profile s))
     \<and> sorted_wrt (<) (pr_ProfileRevision s0 # map ur_Revision hist) \<and> snd (current_profile s) = last (pr_ProfileRevision s0 # map ur_Revision hist)
     \<and> concrete_net (fst (current_profile s)) \<and> runs (node_WithDefaults lb (fst (current_profile s))) = runs (node_WithDefaults lb (pr_NodeConfig s0))
     \<and> (\<forall>q. pr_prepared s = Some q \<longrightarrow> patch_Apply lb gm (ur_Set (pp_request q)) (fst (current_profile s)) = Inr (pp_config q))
     \<and> (\<forall>q. pr_last s = Some q \<longrightarrow> fst (current_profile s) = pp_config q
          \<and> (\<exists>b. concrete_net b \<and> patch_Apply lb gm (ur_Set (pp_request q)) b = Inr (pp_config q)))"

lemma sameProfileUpdate_fields: "sameProfileUpdate a b \<Longrightarrow> ur_Set a = ur_Set b \<and> ur_Revision a = ur_Revision b"
  by (cases a; cases b) (auto simp: sameProfileUpdate_def)

lemma sorted_last_less: "sorted_wrt (<) (x # xs) \<Longrightarrow> last (x # xs) < (y::nat) \<Longrightarrow> sorted_wrt (<) (x # xs @ [y])"
  by (cases xs rule: rev_cases) (fastforce simp: sorted_wrt_append)+

lemma profile_inv_start: "fresh_peer lb s0 \<Longrightarrow> profile_inv lb gm s0 [] s0"
  by (auto simp: profile_inv_def fresh_peer_def current_profile_def)

lemma current_profile_upd [simp]:
  "current_profile (s\<lparr>pr_prepared := x\<rparr>) = current_profile s" "current_profile (s\<lparr>pr_networkApplied := n\<rparr>) = current_profile s"
  "current_profile (s\<lparr>pr_failed := f\<rparr>) = current_profile s" "current_profile (s\<lparr>pr_applied := Some a\<rparr>) = a"
  "current_profile (s\<lparr>pr_attacks := b\<rparr>) = current_profile s" "current_profile (s\<lparr>pr_last := l\<rparr>) = current_profile s"
  by (simp_all add: current_profile_def split: option.split)

lemma update_case_inv:
  assumes "update_case lb gm request s res s'" "profile_inv lb gm s0 hist s"
  shows "profile_inv lb gm s0 (hist @ (if installs request s res then [request] else [])) s'"
  using assms(1)
proof cases
  case (installed q n a)
  have q: "patch_Apply lb gm (ur_Set (pp_request q)) (fst (current_profile s)) = Inr (pp_config q)" using assms(2) installed by (auto simp: profile_inv_def)
  note same = sameProfileUpdate_fields [OF installed(7)]
  have "concrete_net (pp_config q)" using Apply_concrete [OF q] assms(2) by (simp add: profile_inv_def)
  moreover have "runs (node_WithDefaults lb (pp_config q)) = runs (node_WithDefaults lb (pr_NodeConfig s0))"
    using Apply_runs(2) [OF q] assms(2) by (simp add: profile_inv_def)
  moreover have "sorted_wrt (<) (pr_ProfileRevision s0 # map ur_Revision hist @ [ur_Revision request])"
    using assms(2) installed(5) by (intro sorted_last_less) (simp_all add: profile_inv_def)
  ultimately show ?thesis
    using assms(2) installed q same by (auto simp: profile_inv_def installs_def)
qed (use assms(2) in \<open>auto simp: profile_inv_def installs_def\<close>)

lemma handle_case:
  assumes "handleProfileUpdate lb gm E header request s = (res, s')"
  shows "update_case lb gm request s res s'"
  using assms execute_case update_case.refused by (auto simp: handleProfileUpdate_def split: if_splits sum.splits)

lemma profile_run_inv: "profile_run lb gm s0 hist s \<Longrightarrow> fresh_peer lb s0 \<Longrightarrow> profile_inv lb gm s0 hist s"
proof (induction rule: profile_run.induct)
  case start
  then show ?case by (rule profile_inv_start)
next
  case (step hist s E header request res s')
  then show ?case using update_case_inv [OF handle_case] by blast
qed

subsection \<open>Properties\<close>

text \<open>
  C18. The protocol refines the sequence of installed patches: after any requests, in any order and with any outcome of the
  outside calls, the effective configuration of a Peer is its initial configuration with the acknowledged installations
  applied one after the other, their revisions strictly increase, and the reported revision is the last of them.
\<close>

theorem profile_update_history:
  assumes "fresh_peer lb s0" "profile_run lb gm s0 hist s"
  shows "apply_log lb gm hist (pr_NodeConfig s0) = Inr (fst (current_profile s))
    \<and> sorted_wrt (<) (pr_ProfileRevision s0 # map ur_Revision hist)
    \<and> snd (current_profile s) = last (pr_ProfileRevision s0 # map ur_Revision hist)"
  using profile_run_inv [OF assms(2,1)] by (simp add: profile_inv_def)

lemma profile_invD:
  assumes "profile_inv lb gm s0 hist s"
  shows "concrete_net (fst (current_profile s))"
    "pr_prepared s = Some q \<Longrightarrow> patch_Apply lb gm (ur_Set (pp_request q)) (fst (current_profile s)) = Inr (pp_config q)"
    "pr_last s = Some q \<Longrightarrow> fst (current_profile s) = pp_config q \<and> (\<exists>b. concrete_net b \<and> patch_Apply lb gm (ur_Set (pp_request q)) b = Inr (pp_config q))"
  using assms by (simp_all add: profile_inv_def)

lemma response_honest:
  assumes "patch_Apply lb gm (ur_Set request) b = Inr u" "concrete_net b"
  shows "ValidateProfileAcknowledgement lb gm request (update_response lb s request u) = Inr ()"
  using assms by (intro ack_honest) (auto simp: concrete_net_def update_response_def)

text \<open>
  C20. Peer and Agent agree: every successful answer of a Peer, to a preparation, an installation or a repeated
  installation, names the Peer, the revision and the stage of the request and carries effective values that the acknowledgement check accepts.
\<close>

theorem profile_update_acknowledged:
  assumes "fresh_peer lb s0" "profile_run lb gm s0 hist s" "handleProfileUpdate lb gm E header request s = (Inr response, s')"
  shows "ValidateProfileAcknowledgement lb gm request response = Inr ()
    \<and> us_NodeID response = pr_NodeID s \<and> us_Revision response = ur_Revision request \<and> us_Stage response = ur_Stage request"
proof -
  note inv = profile_invD [OF profile_run_inv [OF assms(2,1)]]
  have "\<exists>u b. response = update_response lb s request u \<and> patch_Apply lb gm (ur_Set request) b = Inr u \<and> concrete_net b"
    using handle_case [OF assms(3)]
  proof cases
    case (replayed l)
    obtain b where "concrete_net b" "patch_Apply lb gm (ur_Set (pp_request l)) b = Inr (fst (current_profile s))"
      using inv(3) [OF replayed(3)] by auto
    then show ?thesis using replayed(1) sameProfileUpdate_fields [OF replayed(4)] by auto
  next
    case (prepared u)
    then show ?thesis using inv(1) by auto
  next
    case (installed q n a)
    then show ?thesis using inv(1) inv(2) [OF installed(6)] sameProfileUpdate_fields [OF installed(7)] by auto
  qed
  then show ?thesis using response_honest by (auto simp: update_response_def)
qed

text \<open>
  C22. A lost answer can be asked for again: after an installation, repeating the same request returns the same
  answer and changes nothing, as soon as the gate can be entered.
\<close>

theorem profile_apply_replay:
  assumes "handleProfileUpdate lb gm E header request s = (Inr response, s')" "installs request s (Inr response)" "ue_gate E' = Inr ()"
  shows "handleProfileUpdate lb gm E' header request s' = (Inr response, s')"
proof -
  have v: "request_Validate gm request = Inr ()" "\<not> (pr_NodeID s = [] \<or> header \<noteq> pr_NodeID s)"
    "\<not> (ur_RunID request \<noteq> pr_RunID s \<or> ur_Generation request \<noteq> pr_Generation s)"
    using assms(1) by (auto simp: handleProfileUpdate_def split: if_splits sum.splits)
  show ?thesis
    using handle_case [OF assms(1)]
  proof cases
    case (installed q n a)
    then show ?thesis using v assms(3) by (simp add: handleProfileUpdate_def executeProfileUpdate_def Let_def update_response_def)
  qed (use assms(2) in \<open>auto simp: installs_def\<close>)
qed

subsection \<open>Failures\<close>

definition calm_env :: "update_env \<Rightarrow> bool" where
  "calm_env E \<longleftrightarrow> calm (ue_gate E) \<and> calm (ue_fetch E) \<and> calm (ue_ctx E) \<and> (\<forall>a b. calm (ue_network E a b)) \<and> (\<forall>p. calm (ue_params E p))"

lemma calm_patch [simp]: "calm (patch_Validate gm p)" "calm (request_Validate gm r)"
proof -
  have a: "calm (check_patch_attack e)" for e by (cases e) (auto simp: check_patch_attack_def split: option.split intro!: calm_rules)
  have g: "calm (check_runtime_params g)" for g unfolding check_runtime_params_def by (intro calm_rules) (auto split: prod.split)
  have n: "calm (check_patch_network gm n)" for n unfolding check_patch_network_def Let_def by (intro calm_rules) simp_all
  show p: "calm (patch_Validate gm p)" for p unfolding patch_Validate_def by (intro calm_rules a g n) simp_all
  show "calm (request_Validate gm r)" unfolding request_Validate_def by (intro calm_rules p) simp_all
qed

lemma calm_Apply [simp]: "calm (patch_Apply lb gm p c)"
  unfolding patch_Apply_def Let_def by (intro calm_rules) (simp_all add: runs_gossipsub_WithDefaults)

lemma HasActiveAttacks_WithDefaults: "HasActiveAttacks (node_WithDefaults lb c) = HasActiveAttacks c"
proof -
  have "HasActiveAttacks (node_WithDefaults lb c) = HasActiveAttacks (defaultAttacks lb c)"
    by (simp add: HasActiveAttacks_def node_WithDefaults_def Let_def defaultAttacks_def promoteLegacy_def)
  then show ?thesis by (simp add: defaultAttacks_active)
qed

lemma selects_active: "selects_nodes c \<Longrightarrow> HasActiveAttacks c"
  by (auto simp: selects_nodes_def HasActiveAttacks_def split: option.splits)

text \<open>An accepted result that selects publishers by node runs GossipSub, and then the attack runtime exists.\<close>

lemma active_runs:
  assumes "patch_Apply lb gm p c = Inr u" "HasActiveAttacks u"
  shows "runs (node_WithDefaults lb c)"
proof -
  obtain b where b: "u = node_WithDefaults lb (node_Merge b (patch_overlay p))" "node_Validate lb gm u = Inr ()" by (rule patch_ApplyE [OF assms(1)])
  have "HasActiveAttacks (node_WithDefaults lb u)" using assms(2) by (simp add: HasActiveAttacks_WithDefaults)
  then have "runs (node_WithDefaults lb u)"
    using attacks_accepted(2) [OF node_accepted_parts(1) [OF b(2) refl]] by (simp add: runs_def)
  then show ?thesis using Apply_runs(2) [OF assms(1)] by blast
qed

lemma calm_publisher_targets: "calm (publisher_targets sel ts m)"
proof (induction ts arbitrary: m)
  case (Cons t ts)
  show ?case unfolding publisher_targets.simps Let_def by (intro calm_rules Cons.IH) simp_all
qed simp

lemma calm_next_profile:
  assumes "calm_env E" "runs (node_WithDefaults lb (fst (current_profile s))) \<Longrightarrow> pr_attacks s \<noteq> None"
  shows "calm (next_profile lb gm E request s)"
proof -
  have "calm (validateAttackPublisherTargets c ts)" for c ts
    unfolding validateAttackPublisherTargets_def by (intro calm_rules calm_publisher_targets) simp_all
  then show ?thesis
    unfolding next_profile_def
    by (intro calm_rules) (use assms active_runs selects_active in \<open>auto simp: calm_env_def ValidateAttackRole_def\<close>)
qed

lemma calm_install:
  assumes "calm_env E" "u = node_WithDefaults lb u0"
  shows "calm (fst (install_profile E request c u s))"
proof -
  have "\<not> incomplete_params (runtime_params (gs_Params (nd_GossipSub u)))"
    by (rule runtime_complete(2)) (simp add: assms(2) WithDefaults_parts)
  then show ?thesis
    unfolding install_profile_def Let_def fst_conv by (intro calm_rules) (use assms(1) in \<open>simp_all add: calm_env_def router_params_def\<close>)
qed

lemma execute_calm:
  assumes "calm_env E" "profile_inv lb gm s0 hist s" "fresh_peer lb s0"
  shows "fst (executeProfileUpdate lb gm E request s) \<noteq> Inl Panic"
proof -
  have "runs (node_WithDefaults lb (fst (current_profile s))) \<Longrightarrow> pr_attacks s \<noteq> None"
    using assms(2,3) by (auto simp: profile_inv_def fresh_peer_def)
  note nx = calm_next_profile [OF assms(1) this, where gm = gm and request = request]
  have ga: "calm (rbind (request_Validate gm request) (\<lambda>_. ue_gate E))" using assms(1) by (intro calm_rules) (simp_all add: calm_env_def)
  have cx: "calm (ue_ctx E)" using assms(1) by (simp add: calm_env_def)
  have ins: "install_profile E request c (pp_config q) s \<noteq> (Inl Panic, t)" if q: "pr_prepared s = Some q" for c q t
  proof -
    have "patch_Apply lb gm (ur_Set (pp_request q)) (fst (current_profile s)) = Inr (pp_config q)" by (rule profile_invD(2) [OF assms(2) q])
    then obtain b where "pp_config q = node_WithDefaults lb b" by (rule patch_ApplyE) blast
    then show ?thesis using calm_install [OF assms(1), of "pp_config q" lb b request c s] by (auto simp: calm_def)
  qed
  show ?thesis
    using nx ga cx ins unfolding executeProfileUpdate_def Let_def calm_def
    by (auto split: sum.split if_split option.split prod.split go_err.split simp: wrap_def)
qed

text \<open>A request that passes every check up to the installation of the preparation \<open>q\<close>.\<close>

definition admitted_apply :: "golib \<Rightarrow> gomath \<Rightarrow> update_env \<Rightarrow> string \<Rightarrow> ProfileUpdateRequest \<Rightarrow> peer_server \<Rightarrow> preparedProfileUpdate \<Rightarrow> bool" where
  "admitted_apply lb gm E header request s q \<longleftrightarrow>
     pr_NodeID s \<noteq> [] \<and> header = pr_NodeID s \<and> ur_RunID request = pr_RunID s \<and> ur_Generation request = pr_Generation s
     \<and> request_Validate gm request = Inr () \<and> ue_gate E = Inr () \<and> \<not> pr_failed s \<and> snd (current_profile s) < ur_Revision request
     \<and> \<not> isl (next_profile lb gm E request s) \<and> ur_Stage request = ''apply''
     \<and> pr_prepared s = Some q \<and> sameProfileUpdate (pp_request q) request \<and> ue_ctx E = Inr ()"

text \<open>The kernel refuses the network of the preparation, or the router its parameters.\<close>

definition install_refused :: "update_env \<Rightarrow> ProfileUpdateRequest \<Rightarrow> NodeConfig \<Rightarrow> NodeConfig \<Rightarrow> bool" where
  "install_refused E request current updated \<longleftrightarrow>
     rp_Network (ur_Set request) \<noteq> None \<and> isl (ue_network E (network_Initial (nd_Network current)) (network_Initial (nd_Network updated)))
     \<or> rp_GossipSub (ur_Set request) \<noteq> None \<and> isl (ue_params E (runtime_params (gs_Params (nd_GossipSub updated))))"

lemma install_refused_error:
  assumes "install_refused E request c u"
  shows "isl (fst (install_profile E request c u s))"
  using assms by (auto simp: install_refused_def install_profile_def Let_def router_params_def rbind_def isl_def split: sum.split)

lemma refused_apply_fails:
  assumes "admitted_apply lb gm E header request s q" "install_refused E request (fst (current_profile s)) (pp_config q)"
    "handleProfileUpdate lb gm E header request s = (res, s')" "res \<noteq> Inl Panic"
  shows "isl res \<and> pr_failed s'"
proof -
  obtain e s1 where ins: "install_profile E request (fst (current_profile s)) (pp_config q) s = (Inl e, s1)"
    using install_refused_error [OF assms(2), of s] by (cases "install_profile E request (fst (current_profile s)) (pp_config q) s") (auto simp: isl_def)
  obtain u where u: "next_profile lb gm E request s = Inr u" using assms(1) by (cases "next_profile lb gm E request s") (auto simp: admitted_apply_def)
  have "handleProfileUpdate lb gm E header request s =
      (case e of Panic \<Rightarrow> (Inl Panic, s1) | _ \<Rightarrow> (wrap ''profile apply may be partial: '' (Inl e), s1\<lparr>pr_failed := True\<rparr>))"
    using assms(1) u ins by (cases e) (simp_all add: admitted_apply_def handleProfileUpdate_def executeProfileUpdate_def Let_def)
  then show ?thesis using assms(3,4) by (cases e) (auto simp: wrap_def)
qed

lemma failed_refuses: "pr_failed s \<Longrightarrow> handleProfileUpdate lb gm E header request s = (res, s') \<Longrightarrow> isl res \<and> s' = s"
  by (auto simp: handleProfileUpdate_def executeProfileUpdate_def Let_def split: if_splits sum.splits)

lemma failed_forever: "profile_run lb gm s hist t \<Longrightarrow> pr_failed s \<Longrightarrow> t = s \<and> hist = []"
proof (induction rule: profile_run.induct)
  case (step hist t E header request res t')
  then show ?case using failed_refuses [of t lb gm E header request res t'] by (auto simp: installs_def)
qed simp

text \<open>
  C23. Errors are contained: as long as the outside calls return, an update never panics; a refused or failed update leaves
  the recorded configuration, its revision and the preparation in force. A request that passes every check, but whose
  installation the kernel or the router refuses, fails and marks the Peer, as does every failed update that changed
  anything; a marked Peer refuses every update, and no sequence of later requests changes it again.
\<close>

theorem profile_update_contained:
  assumes "fresh_peer lb s0" "profile_run lb gm s0 hist s" "calm_env E" "handleProfileUpdate lb gm E header request s = (res, s')"
  shows "res \<noteq> Inl Panic \<and> (isl res \<longrightarrow> current_profile s' = current_profile s \<and> pr_prepared s' = pr_prepared s)
    \<and> (\<forall>q. admitted_apply lb gm E header request s q \<and> install_refused E request (fst (current_profile s)) (pp_config q) \<longrightarrow> isl res \<and> pr_failed s')
    \<and> (isl res \<and> s' \<noteq> s \<longrightarrow> pr_failed s')
    \<and> (pr_failed s \<longrightarrow> isl res \<and> s' = s)
    \<and> (pr_failed s' \<longrightarrow> (\<forall>later t. profile_run lb gm s' later t \<longrightarrow> t = s' \<and> later = []))"
proof -
  have "fst (handleProfileUpdate lb gm E header request s) \<noteq> Inl Panic"
    using execute_calm [OF assms(3) profile_run_inv [OF assms(2,1)] assms(1)] calm_patch(2) [of gm request]
    by (auto simp: handleProfileUpdate_def calm_def split: sum.split)
  then have calm: "res \<noteq> Inl Panic" using assms(4) by simp
  have keep: "isl res \<longrightarrow> current_profile s' = current_profile s \<and> pr_prepared s' = pr_prepared s"
    using handle_case [OF assms(4)] by cases auto
  have mark: "isl res \<and> s' \<noteq> s \<longrightarrow> pr_failed s'"
    using handle_case [OF assms(4)] calm by cases auto
  show ?thesis
    using calm keep mark refused_apply_fails [OF _ _ assms(4) calm] failed_refuses [OF _ assms(4)] failed_forever [of lb gm s'] by metis
qed

subsection \<open>Witnesses\<close>

text \<open>A fresh Peer with default configuration that prepares and installs the example patch.\<close>

definition ex_peer :: peer_server where
  "ex_peer = \<lparr>pr_NodeID = ''n'', pr_RunID = ''run'', pr_Generation = 1, pr_Role = ''worker'', pr_PeerID = ''p'', pr_NodeConfig = zero_node,
     pr_ProfileRevision = 0, pr_NetworkMutable = True, pr_pubsub = True, pr_attacks = Some (zero_node, 0), pr_prepared = None, pr_last = None,
     pr_failed = False, pr_applied = None, pr_networkApplied = None\<rparr>"

definition ex_env :: update_env where
  "ex_env = \<lparr>ue_gate = Inr (), ue_fetch = Inr (), ue_registry = None, ue_ctx = Inr (), ue_network = (\<lambda>_ _. Inr ()), ue_params = (\<lambda>_. Inr ())\<rparr>"

definition ex_prepared :: peer_server where
  "ex_prepared = ex_peer\<lparr>pr_prepared := Some \<lparr>pp_request = ex_request ''prepare'' 7, pp_config = ex_updated\<rparr>\<rparr>"

definition ex_installed :: peer_server where
  "ex_installed = snd (handleProfileUpdate ex_lib ex_math ex_env ''n'' (ex_request ''apply'' 7) ex_prepared)"

lemma ex_gate: "ue_gate ex_env = Inr ()"
  by (simp add: ex_env_def)

lemma ex_fresh: "fresh_peer ex_lib ex_peer"
  by (simp add: fresh_peer_def ex_peer_def concrete_net_def) (simp add: zero_node_def zero_network_def)

lemma ex_valid: "request_Validate gm (ex_request ''prepare'' 7) = Inr ()" "request_Validate gm (ex_request ''apply'' 7) = Inr ()"
  by (simp_all add: request_Validate_def ex_request_def ex_patch_valid)

lemma ex_not_selecting: "\<not> selects_nodes ex_updated" "ValidateAttackRole ex_updated ''worker'' = Inr ()"
proof -
  have "nd_Censorship ex_updated = None" by (simp add: ex_updated_eq WithDefaults_parts) (simp add: ex_plain_def zero_node_def)
  then show "\<not> selects_nodes ex_updated" by (simp add: selects_nodes_def)
  show "ValidateAttackRole ex_updated ''worker'' = Inr ()" by (simp add: ValidateAttackRole_def)
qed

lemma ex_next:
  assumes "s = ex_peer \<or> s = ex_prepared" "request = ex_request stage 7"
  shows "next_profile ex_lib ex_math ex_env request s = Inr ex_updated" "current_profile s = (zero_node, 0)"
  using assms ex_patch_applies [of ex_math] ex_not_selecting
  by (auto simp: next_profile_def ex_peer_def ex_prepared_def current_profile_def ex_request_def)

lemma ex_prepare: "handleProfileUpdate ex_lib ex_math ex_env ''n'' (ex_request ''prepare'' 7) ex_peer
    = (Inr (update_response ex_lib ex_peer (ex_request ''prepare'' 7) ex_updated), ex_prepared)"
  using ex_next [of ex_peer "ex_request ''prepare'' 7" "''prepare''"] ex_valid [of ex_math]
  by (simp add: handleProfileUpdate_def executeProfileUpdate_def Let_def) (simp add: ex_peer_def ex_env_def ex_prepared_def ex_request_def)

lemma ex_runs: "profile_run ex_lib ex_math ex_peer [] ex_prepared"
  using profile_run.step [OF profile_run.start ex_prepare] by (simp add: installs_def ex_request_def)

lemma ex_install: "handleProfileUpdate ex_lib ex_math ex_env ''n'' (ex_request ''apply'' 7) ex_prepared
    = (Inr (update_response ex_lib ex_prepared (ex_request ''apply'' 7) ex_updated), ex_installed)"
proof -
  have "\<not> incomplete_params (runtime_params (gs_Params (nd_GossipSub ex_updated)))"
    by (rule runtime_complete(2)) (simp add: ex_updated_eq WithDefaults_parts)
  then have "install_profile ex_env (ex_request ''apply'' 7) zero_node ex_updated ex_prepared
      = (Inr (), ex_prepared\<lparr>pr_networkApplied := Some (network_Initial (nd_Network ex_updated), 7)\<rparr>)"
    by (simp add: install_profile_def Let_def ex_env_def router_params_def ex_request_def ex_patch_def)
  then show ?thesis
    using ex_next [of ex_prepared "ex_request ''apply'' 7" "''apply''"] ex_valid [of ex_math]
    by (simp add: ex_installed_def handleProfileUpdate_def executeProfileUpdate_def Let_def)
      (simp add: ex_prepared_def ex_peer_def ex_env_def ex_request_def sameProfileUpdate_def)
qed

lemma ex_installs: "installs (ex_request ''apply'' 7) ex_prepared (Inr r)"
  using ex_next(2) [of ex_prepared "ex_request ''apply'' 7"] by (simp add: installs_def ex_request_def)

lemma ex_history: "profile_run ex_lib ex_math ex_peer [ex_request ''apply'' 7] ex_installed"
  using profile_run.step [OF ex_runs ex_install] by (simp add: ex_installs)

theorem profile_update_history_witness: "snd (current_profile ex_installed) = 7 \<and> patch_Apply ex_lib ex_math ex_patch zero_node = Inr (fst (current_profile ex_installed))"
proof -
  have "apply_log ex_lib ex_math [q] c = patch_Apply ex_lib ex_math (ur_Set q) c" for q c
    using apply_log_simps(2) [of ex_lib ex_math "[]" q c] by simp
  then show ?thesis using profile_update_history [OF ex_fresh ex_history] by (simp add: ex_request_def ex_peer_def)
qed

theorem profile_update_acknowledged_witness:
  "ValidateProfileAcknowledgement ex_lib ex_math (ex_request ''apply'' 7) (update_response ex_lib ex_prepared (ex_request ''apply'' 7) ex_updated) = Inr ()"
  using profile_update_acknowledged [OF ex_fresh ex_runs ex_install] by blast

theorem profile_apply_replay_witness:
  "fst (handleProfileUpdate ex_lib ex_math ex_env ''n'' (ex_request ''apply'' 7) ex_installed)
     = fst (handleProfileUpdate ex_lib ex_math ex_env ''n'' (ex_request ''apply'' 7) ex_prepared)"
  using profile_apply_replay [OF ex_install ex_installs, of ex_env] ex_install ex_gate by simp

text \<open>The router refuses the parameters after the network has been changed.\<close>

definition ex_refusing :: update_env where
  "ex_refusing = ex_env\<lparr>ue_params := (\<lambda>_. Inl (Fail ''router closed''))\<rparr>"

lemma ex_admitted: "admitted_apply ex_lib ex_math ex_refusing ''n'' (ex_request ''apply'' 7) ex_prepared \<lparr>pp_request = ex_request ''prepare'' 7, pp_config = ex_updated\<rparr>"
proof -
  have "next_profile ex_lib ex_math ex_refusing (ex_request ''apply'' 7) ex_prepared = Inr ex_updated" "snd (current_profile ex_prepared) = 0"
    using ex_next [of ex_prepared "ex_request ''apply'' 7" "''apply''"] by (simp_all add: next_profile_def ex_refusing_def ex_request_def)
  then show ?thesis using ex_valid(2) [of ex_math]
    by (simp add: admitted_apply_def) (simp add: ex_refusing_def ex_env_def ex_prepared_def ex_peer_def ex_request_def sameProfileUpdate_def)
qed

theorem profile_update_contained_witness:
  "isl (fst (handleProfileUpdate ex_lib ex_math ex_refusing ''n'' (ex_request ''apply'' 7) ex_prepared))
   \<and> pr_failed (snd (handleProfileUpdate ex_lib ex_math ex_refusing ''n'' (ex_request ''apply'' 7) ex_prepared))"
proof -
  have "calm_env ex_refusing" by (simp add: calm_env_def ex_refusing_def ex_env_def calm_def)
  note main = profile_update_contained [OF ex_fresh ex_runs this prod.collapse [symmetric], of "''n''" "ex_request ''apply'' 7"]
  have "install_refused ex_refusing (ex_request ''apply'' 7) c ex_updated" for c
    by (simp add: install_refused_def ex_refusing_def ex_request_def ex_patch_def)
  then show ?thesis using main ex_admitted by (metis preparedProfileUpdate.select_convs(2))
qed

end
