(* ===== verification/Agent_Resources.thy ===== *)
theory Agent_Resources
  imports Node_Validate
begin

text \<open>
  \<^verbatim>\<open>internal/model/agent_resources.go\<close> and \<^verbatim>\<open>normalizeAgentResources\<close>, \<^verbatim>\<open>topologyReportTime\<close> of \<^verbatim>\<open>internal/controller\<close>: the
  resource sample an Agent reports and its translation to the Controller's clock.

  A \<^verbatim>\<open>time.Time\<close> is an \<open>int\<close>: nanoseconds since the zero time, which is \<open>0\<close>. A copy of a pointed-to value is the value.
\<close>

subsection \<open>Times\<close>

type_synonym gotime = int

definition IsZero :: "gotime \<Rightarrow> bool" where
  "IsZero t = (t = 0)"

text \<open>\<^verbatim>\<open>t.Sub(u)\<close> saturates at the range of a \<^verbatim>\<open>time.Duration\<close>.\<close>

definition time_Sub :: "gotime \<Rightarrow> gotime \<Rightarrow> int" where
  "time_Sub t u = max (- (2 ^ 63)) (min (2 ^ 63 - 1) (t - u))"

definition second :: int where "second = 1000000000"

definition topologyReportTime :: "gotime \<Rightarrow> gotime \<Rightarrow> gotime \<Rightarrow> gotime" where
  "topologyReportTime received agentReported peerSeen =
     (if IsZero agentReported \<or> IsZero peerSeen then received
      else let age = time_Sub agentReported peerSeen
           in received + - (if age < 0 then 0 else age))"

subsection \<open>Samples\<close>

record ContainerResources =
  cr_CPUCores :: "f64 option"
  cr_MemoryUsageBytes :: "64 word option"
  cr_MemoryWorkingSetBytes :: "64 word option"
  cr_Containers :: int
  cr_MeasuredContainers :: int
  cr_Complete :: bool

record AgentResources =
  ar_Agent :: "ContainerResources option"
  ar_Peers :: "ContainerResources option"
  ar_SampledAt :: gotime
  ar_CPUCapacityCores :: int
  ar_CPUCores :: "f64 option"
  ar_MemoryUsageBytes :: "64 word option"
  ar_MemoryWorkingSetBytes :: "64 word option"
  ar_Containers :: int
  ar_MeasuredContainers :: int
  ar_Complete :: bool
  ar_Error :: string

text \<open>\<^verbatim>\<open>ContainerResources.Valid\<close>: the receiver may be nil; the guards on nil fields come before their use.\<close>

definition container_Valid :: "bool \<Rightarrow> ContainerResources option \<Rightarrow> bool" where
  "container_Valid allowEmpty p =
     (case p of None \<Rightarrow> False
      | Some r \<Rightarrow>
          (case (cr_CPUCores r, cr_MemoryUsageBytes r, cr_MemoryWorkingSetBytes r) of
             (Some cpu, Some usage, Some working) \<Rightarrow>
               \<not> (cr_Containers r < 0 \<or> cr_MeasuredContainers r < 0 \<or> cr_MeasuredContainers r > cr_Containers r
                  \<or> cr_Complete r \<and> cr_MeasuredContainers r \<noteq> cr_Containers r
                  \<or> cpu = NaN \<or> cpu = PInf \<or> cpu = NInf \<or> f_lt cpu (Fin 0) \<or> working > usage)
               \<and> (if cr_Containers r = 0 then allowEmpty \<and> cr_Complete r \<and> f_eq cpu (Fin 0) \<and> usage = 0 \<and> working = 0
                   else cr_MeasuredContainers r > 0)
           | _ \<Rightarrow> False))"

definition ResourceScopeTotal :: string where "ResourceScopeTotal = ''agent_and_peers''"
definition ResourceScopeAgent :: string where "ResourceScopeAgent = ''agent''"
definition ResourceScopePeers :: string where "ResourceScopePeers = ''peers''"

definition resources_Usage :: "AgentResources \<Rightarrow> string \<Rightarrow> ContainerResources option" where
  "resources_Usage r scope =
     (if scope = ResourceScopeTotal then
        Some \<lparr>cr_CPUCores = ar_CPUCores r, cr_MemoryUsageBytes = ar_MemoryUsageBytes r,
          cr_MemoryWorkingSetBytes = ar_MemoryWorkingSetBytes r, cr_Containers = ar_Containers r,
          cr_MeasuredContainers = ar_MeasuredContainers r, cr_Complete = ar_Complete r\<rparr>
      else if scope = ResourceScopeAgent then ar_Agent r
      else if scope = ResourceScopePeers then ar_Peers r
      else None)"

definition ScopeValid :: "AgentResources \<Rightarrow> string \<Rightarrow> bool" where
  "ScopeValid r scope =
     (\<not> IsZero (ar_SampledAt r) \<and> container_Valid (scope = ResourceScopePeers) (resources_Usage r scope)
      \<and> (scope \<noteq> ResourceScopeAgent \<or> ptr_is (\<lambda>u. cr_Containers u = 1) (resources_Usage r scope)))"

definition resources_Valid :: "AgentResources \<Rightarrow> bool" where
  "resources_Valid r = ScopeValid r ResourceScopeTotal"

subsection \<open>Normalisation\<close>

definition hide_usage :: "ContainerResources \<Rightarrow> ContainerResources" where
  "hide_usage u = u\<lparr>cr_Complete := False, cr_CPUCores := None, cr_MemoryUsageBytes := None, cr_MemoryWorkingSetBytes := None\<rparr>"

text \<open>The loop over the two breakdowns; \<^verbatim>\<open>u\<close> points into the copy.\<close>

definition hide_scopes :: "AgentResources \<Rightarrow> AgentResources" where
  "hide_scopes copy =
     (let copy = copy\<lparr>ar_Agent := (if ScopeValid copy ResourceScopeAgent then ar_Agent copy else map_option hide_usage (ar_Agent copy))\<rparr>
      in copy\<lparr>ar_Peers := (if ScopeValid copy ResourceScopePeers then ar_Peers copy else map_option hide_usage (ar_Peers copy))\<rparr>)"

definition retime :: "AgentResources \<Rightarrow> gotime \<Rightarrow> gotime \<Rightarrow> AgentResources" where
  "retime r reportedAt receivedAt =
     (if IsZero (ar_SampledAt r) \<or> IsZero reportedAt \<or> ar_SampledAt r > reportedAt + 5 * second
      then r\<lparr>ar_Complete := False, ar_SampledAt := 0\<rparr>
      else r\<lparr>ar_SampledAt := topologyReportTime receivedAt reportedAt (ar_SampledAt r)\<rparr>)"

definition normalizeAgentResources :: "AgentResources option \<Rightarrow> gotime \<Rightarrow> gotime \<Rightarrow> AgentResources option" where
  "normalizeAgentResources p reportedAt receivedAt =
     (case p of None \<Rightarrow> None
      | Some r \<Rightarrow>
          let copy = retime r reportedAt receivedAt;
              copy = (if \<not> resources_Valid copy
                then copy\<lparr>ar_Complete := False, ar_CPUCores := None, ar_MemoryUsageBytes := None, ar_MemoryWorkingSetBytes := None\<rparr>
                else copy);
              copy = hide_scopes copy
          in Some (copy\<lparr>ar_Error := take 256 (ar_Error copy)\<rparr>))"

text \<open>After normalisation every figure that is shown belongs to a valid, dated scope.\<close>

lemma hide_scopes_valid:
  "ar_Agent (hide_scopes r) = Some u \<Longrightarrow> cr_CPUCores u \<noteq> None \<Longrightarrow> ScopeValid (hide_scopes r) ResourceScopeAgent"
  "ar_Peers (hide_scopes r) = Some u \<Longrightarrow> cr_CPUCores u \<noteq> None \<Longrightarrow> ScopeValid (hide_scopes r) ResourceScopePeers"
  by (auto simp: hide_scopes_def Let_def ScopeValid_def resources_Usage_def ResourceScopeAgent_def ResourceScopePeers_def
      ResourceScopeTotal_def hide_usage_def split: if_splits)

lemma normalized_shown:
  assumes "normalizeAgentResources p t now = Some r"
  shows "ar_CPUCores r \<noteq> None \<Longrightarrow> resources_Valid r" "length (ar_Error r) \<le> 256"
proof -
  obtain q where p: "p = Some q" using assms by (cases p) (auto simp: normalizeAgentResources_def)
  show "length (ar_Error r) \<le> 256" using assms by (auto simp: p normalizeAgentResources_def Let_def)
  assume "ar_CPUCores r \<noteq> None"
  then show "resources_Valid r"
    using assms by (auto simp: p normalizeAgentResources_def Let_def hide_scopes_def resources_Valid_def ScopeValid_def
        resources_Usage_def ResourceScopeAgent_def ResourceScopePeers_def ResourceScopeTotal_def split: if_splits)
qed

end
