(* ===== verification/Agent_Registry.thy ===== *)
theory Agent_Registry
  imports Agent_Resources "HOL-Library.AList" "HOL-Library.List_Lexorder" "HOL-Library.Char_ord"
begin

text \<open>
  The Controller's registry of Agents and Peers: the maps of \<^verbatim>\<open>state\<close> in \<^verbatim>\<open>internal/controller/state.go\<close> with registration and
  heartbeats, capacity and availability settings (\<^verbatim>\<open>agent_capacity.go\<close>, \<^verbatim>\<open>agent_availability.go\<close>, \<^verbatim>\<open>host_availability.go\<close>).

  A Go map is the list of its entries. A function that holds \<^verbatim>\<open>mu\<close> is one transition; it reads the clock once, so \<open>now\<close> is
  an argument, and \<open>fresh\<close> is what \<^verbatim>\<open>rand.Text()\<close> returns. Watchers and metrics are notified outside the registry. Counters
  are unbounded: they count containers of a machine.
\<close>

subsection \<open>Maps\<close>

type_synonym 'v gomap = "(string \<times> 'v) list"

text \<open>\<^verbatim>\<open>m[k]\<close>: the zero value \<open>z\<close> when the key is missing.\<close>

definition mget :: "'v \<Rightarrow> 'v gomap \<Rightarrow> string \<Rightarrow> 'v" where
  "mget z m k = (case map_of m k of None \<Rightarrow> z | Some v \<Rightarrow> v)"

subsection \<open>Records\<close>

record AgentHost =
  ah_NodeID :: string
  ah_Hostname :: string
  ah_BootID :: string
  ah_RebootEnabled :: bool
  ah_RebootSupported :: bool
  ah_RebootReason :: string
  ah_RebootPending :: bool

record Agent =
  ag_Host :: "AgentHost option"
  ag_CreateReplay :: bool
  ag_Disabled :: bool
  ag_Resources :: "AgentResources option"
  ag_StartupReconciled :: bool
  ag_PeerImage :: string
  ag_RunDrain :: bool
  ag_ID :: string
  ag_Name :: string
  ag_URL :: string
  ag_MetricsURL :: string
  ag_Hostname :: string
  ag_Version :: string
  ag_Capacity :: int
  ag_DefaultCapacity :: int
  ag_CapacityOverride :: int
  ag_CapacityPending :: bool
  ag_CapacityRevision :: string
  ag_ActiveNodes :: int
  ag_State :: string
  ag_Labels :: "string gomap"
  ag_StartedAt :: gotime
  ag_LastSeen :: gotime

definition zero_agent :: Agent where
  "zero_agent = \<lparr>ag_Host = None, ag_CreateReplay = False, ag_Disabled = False, ag_Resources = None, ag_StartupReconciled = False,
     ag_PeerImage = [], ag_RunDrain = False, ag_ID = [], ag_Name = [], ag_URL = [], ag_MetricsURL = [], ag_Hostname = [], ag_Version = [],
     ag_Capacity = 0, ag_DefaultCapacity = 0, ag_CapacityOverride = 0, ag_CapacityPending = False, ag_CapacityRevision = [],
     ag_ActiveNodes = 0, ag_State = [], ag_Labels = [], ag_StartedAt = 0, ag_LastSeen = 0\<rparr>"

record ScoreStatistic =
  ss_Count :: int
  ss_Mean :: f64
  ss_Min :: f64
  ss_Max :: f64

record PeerScoreSample =
  pss_ObservedAt :: gotime
  pss_Sequence :: "64 word"
  pss_IntervalSeconds :: f64
  pss_Components :: "ScoreStatistic gomap"

record Node =
  no_ScoreSample :: "PeerScoreSample option"
  no_ID :: string
  no_RunID :: string
  no_Generation :: "64 word"
  no_AgentID :: string
  no_Group :: string
  no_Role :: string
  no_Type :: string
  no_Profile :: string
  no_PeerID :: string
  no_State :: string
  no_Addresses :: "string list"
  no_ConnectedPeers :: "string list"
  no_RoutingPeers :: "string list"
  no_MeshPeers :: "string list gomap"
  no_OverlayObservedAt :: gotime
  no_TopicPeers :: "int gomap"
  no_PeerScores :: "f64 gomap"
  no_Metadata :: "string gomap option"
  no_StartedAt :: gotime
  no_LastSeen :: gotime
  no_Error :: string

record AgentHeartbeat =
  hb_Agent :: Agent
  hb_Nodes :: "Node list"
  hb_Partial :: bool

record uncertainCreate =
  uc_runID :: string
  uc_generation :: "64 word"
  uc_agentID :: string

record registry =
  cs_agentCapacityOverrides :: "int gomap"
  cs_agentCapacityRevisions :: "string gomap"
  cs_agentReportedCapacities :: "int gomap"
  cs_agentSettingsErr :: "string option"
  cs_agentDisabled :: "bool gomap"
  cs_hostDisabled :: "bool gomap"
  cs_agentAvailabilityErr :: "string option"
  cs_agents :: "Agent gomap"
  cs_nodes :: "Node gomap"
  cs_activeNodeIDs :: "string list option"
  cs_reservations :: "string gomap"
  cs_uncertainCreates :: "uncertainCreate gomap"
  cs_agentAdmissionUntil :: "gotime gomap"
  cs_agentSnapshots :: "gotime gomap"
  cs_nodeReportTimes :: "gotime gomap"

text \<open>\<^verbatim>\<open>newState\<close> with what the settings files held.\<close>

definition newState :: "int gomap \<Rightarrow> string option \<Rightarrow> bool gomap \<Rightarrow> bool gomap \<Rightarrow> string option \<Rightarrow> registry" where
  "newState overrides settingsErr disabledAgents disabledHosts availabilityErr =
     \<lparr>cs_agentCapacityOverrides = overrides, cs_agentCapacityRevisions = [], cs_agentReportedCapacities = [],
      cs_agentSettingsErr = settingsErr, cs_agentDisabled = disabledAgents, cs_hostDisabled = disabledHosts,
      cs_agentAvailabilityErr = availabilityErr, cs_agents = [], cs_nodes = [], cs_activeNodeIDs = None, cs_reservations = [],
      cs_uncertainCreates = [], cs_agentAdmissionUntil = [], cs_agentSnapshots = [], cs_nodeReportTimes = []\<rparr>"

text \<open>\<^verbatim>\<open>loadAgentCapacities\<close> after decoding: blank Agents and non-positive capacities are refused.\<close>

definition checkAgentCapacities :: "int gomap \<Rightarrow> unit result" where
  "checkAgentCapacities m = check_all (\<lambda>(agentID, capacity). check (TrimSpace agentID = [] \<or> capacity \<le> 0) ''invalid saved capacity for Agent'') m"

subsection \<open>States of a node\<close>

definition NodeStarting :: string where "NodeStarting = ''starting''"
definition NodeReady :: string where "NodeReady = ''ready''"
definition NodeStopping :: string where "NodeStopping = ''stopping''"
definition NodeStopped :: string where "NodeStopped = ''stopped''"
definition NodeFailed :: string where "NodeFailed = ''failed''"
definition AgentOnline :: string where "AgentOnline = ''online''"
definition AgentOffline :: string where "AgentOffline = ''offline''"

lemmas node_state_defs = NodeStarting_def NodeReady_def NodeStopping_def NodeStopped_def NodeFailed_def

definition nodeHasLiveState :: "Node \<Rightarrow> bool" where
  "nodeHasLiveState node = (no_State node \<noteq> NodeStopped \<and> no_State node \<noteq> NodeFailed)"

text \<open>The guard repeated in the code for a node that still runs: neither stopping nor terminal.\<close>

definition node_running :: "Node \<Rightarrow> bool" where
  "node_running node = (no_State node \<noteq> NodeStopping \<and> no_State node \<noteq> NodeStopped \<and> no_State node \<noteq> NodeFailed)"

definition cleanup_complete :: "Node \<Rightarrow> bool" where
  "cleanup_complete node = (mget [] (elems (no_Metadata node)) ''cleanupComplete'' = ''true'')"

definition confirmed_failure :: "Node \<Rightarrow> bool" where
  "confirmed_failure node = (no_State node = NodeFailed \<and> cleanup_complete node)"

subsection \<open>The node index\<close>

definition setNodeLocked :: "Node \<Rightarrow> registry \<Rightarrow> registry" where
  "setNodeLocked node s =
     (let ids = (case cs_activeNodeIDs s of
            None \<Rightarrow> map fst (filter (\<lambda>(_, current). nodeHasLiveState current) (cs_nodes s))
          | Some ids \<Rightarrow> ids)
      in s\<lparr>cs_nodes := AList.update (no_ID node) node (cs_nodes s),
           cs_activeNodeIDs := Some (if nodeHasLiveState node then List.insert (no_ID node) ids else removeAll (no_ID node) ids)\<rparr>)"

definition live_record :: "registry \<Rightarrow> string \<Rightarrow> Node option" where
  "live_record s nodeID = (case map_of (cs_nodes s) nodeID of None \<Rightarrow> None | Some node \<Rightarrow> if nodeHasLiveState node then Some node else None)"

definition activeNodesLocked :: "registry \<Rightarrow> Node list" where
  "activeNodesLocked s =
     (case cs_activeNodeIDs s of
        None \<Rightarrow> filter nodeHasLiveState (map snd (cs_nodes s))
      | Some ids \<Rightarrow> List.map_filter (live_record s) ids)"

subsection \<open>Capacity and availability\<close>

definition agentHostNodeID :: "Agent \<Rightarrow> string" where
  "agentHostNodeID agent =
     (case ag_Host agent of Some host \<Rightarrow> if ah_NodeID host \<noteq> [] then ah_NodeID host else mget [] (ag_Labels agent) ''swarmNodeId''
      | None \<Rightarrow> mget [] (ag_Labels agent) ''swarmNodeId'')"

definition applyAgentCapacityLocked :: "registry \<Rightarrow> Agent \<Rightarrow> Agent" where
  "applyAgentCapacityLocked s agent =
     (let agentID = ag_ID agent;
          disabled = (mget False (cs_agentDisabled s) agentID \<or> mget False (cs_hostDisabled s) (agentHostNodeID agent)
            \<or> cs_agentAvailabilityErr s \<noteq> None);
          reported = mget 0 (cs_agentReportedCapacities s) agentID;
          override = mget 0 (cs_agentCapacityOverrides s) agentID;
          desired = (if override > 0 then override else ag_DefaultCapacity agent);
          pending = (desired > 0 \<and> (reported \<noteq> desired \<or> ag_CapacityRevision agent \<noteq> mget [] (cs_agentCapacityRevisions s) agentID));
          capacity = (if desired > 0 \<and> (reported \<le> 0 \<or> desired < reported) then desired else reported);
          previous = ag_Capacity (mget zero_agent (cs_agents s) agentID)
      in agent\<lparr>ag_Disabled := disabled, ag_CapacityOverride := override, ag_CapacityPending := pending,
           ag_Capacity := (if pending \<and> previous > 0 then min capacity previous else capacity)\<rparr>)"

definition observeAgentCapacityLocked :: "string \<Rightarrow> Agent \<Rightarrow> registry \<Rightarrow> registry \<times> Agent" where
  "observeAgentCapacityLocked fresh agent s =
     (let s = (if ag_DefaultCapacity agent > 0 \<and> mget [] (cs_agentCapacityRevisions s) (ag_ID agent) = []
            then s\<lparr>cs_agentCapacityRevisions := AList.update (ag_ID agent) fresh (cs_agentCapacityRevisions s)\<rparr> else s);
          s = s\<lparr>cs_agentReportedCapacities := AList.update (ag_ID agent) (ag_Capacity agent) (cs_agentReportedCapacities s)\<rparr>
      in (s, applyAgentCapacityLocked s agent))"

definition put_agent :: "string \<Rightarrow> Agent \<Rightarrow> registry \<Rightarrow> registry" where
  "put_agent agentID agent s = s\<lparr>cs_agents := AList.update agentID agent (cs_agents s)\<rparr>"

text \<open>
  \<^verbatim>\<open>setAgentCapacity\<close>: \<open>accepts_capacity\<close> is the part before the file is written, with \<^verbatim>\<open>mu\<close> held for reading, \<open>commit_capacity\<close>
  the part after it. The lock of the settings keeps \<^verbatim>\<open>agentCapacityOverrides\<close> unchanged in between; heartbeats may run.
\<close>

definition accepts_capacity :: "string \<Rightarrow> int option \<Rightarrow> registry \<Rightarrow> int gomap result" where
  "accepts_capacity agentID capacity s =
     rbind (check (ptr_is (\<lambda>c. c \<le> 0) capacity) ''capacity must be a positive integer or null to use the CLI default'') (\<lambda>_.
     case cs_agentSettingsErr s of Some e \<Rightarrow> Inl (Fail e)
     | None \<Rightarrow>
        (case map_of (cs_agents s) agentID of None \<Rightarrow> Inl (Fail ''Agent not found'')
         | Some agent \<Rightarrow>
            rbind (check (ag_DefaultCapacity agent \<le> 0) ''update this Agent to support capacity settings'') (\<lambda>_.
              Inr (case capacity of None \<Rightarrow> AList.delete agentID (cs_agentCapacityOverrides s)
                   | Some c \<Rightarrow> AList.update agentID c (cs_agentCapacityOverrides s)))))"

definition commit_capacity :: "string \<Rightarrow> string \<Rightarrow> int gomap \<Rightarrow> registry \<Rightarrow> registry" where
  "commit_capacity fresh agentID capacities s =
     (let s = s\<lparr>cs_agentCapacityOverrides := capacities,
            cs_agentCapacityRevisions := AList.update agentID fresh (cs_agentCapacityRevisions s)\<rparr>
      in put_agent agentID (applyAgentCapacityLocked s (mget zero_agent (cs_agents s) agentID)) s)"

text \<open>\<open>saved\<close> is the outcome of encoding and replacing the settings file.\<close>

definition setAgentCapacity :: "string \<Rightarrow> bool \<Rightarrow> string \<Rightarrow> int option \<Rightarrow> registry \<Rightarrow> registry \<times> unit result" where
  "setAgentCapacity fresh saved agentID capacity s =
     (case accepts_capacity agentID capacity s of Inl e \<Rightarrow> (s, Inl e)
      | Inr capacities \<Rightarrow>
         if saved then (commit_capacity fresh agentID capacities s, Inr ()) else (s, Inl (Fail ''save Agent capacity'')))"

definition commit_enabled :: "string \<Rightarrow> bool \<Rightarrow> registry \<Rightarrow> registry" where
  "commit_enabled agentID enabled s =
     (let s = s\<lparr>cs_agentDisabled := (if enabled then AList.delete agentID (cs_agentDisabled s) else AList.update agentID True (cs_agentDisabled s))\<rparr>;
          agent = mget zero_agent (cs_agents s) agentID
      in put_agent agentID (agent\<lparr>ag_Disabled := (\<not> enabled \<or> mget False (cs_hostDisabled s) (agentHostNodeID agent))\<rparr>) s)"

definition setAgentEnabled :: "bool \<Rightarrow> string \<Rightarrow> bool \<Rightarrow> registry \<Rightarrow> registry \<times> unit result" where
  "setAgentEnabled saved agentID enabled s =
     (case cs_agentAvailabilityErr s of Some e \<Rightarrow> (s, Inl (Fail e))
      | None \<Rightarrow>
         if map_of (cs_agents s) agentID = None then (s, Inl (Fail ''Agent not found''))
         else if mget False (cs_agentDisabled s) agentID = (\<not> enabled) then (s, Inr ())
         else if saved then (commit_enabled agentID enabled s, Inr ()) else (s, Inl (Fail ''save Agent availability'')))"

text \<open>\<open>valid\<close> is \<^verbatim>\<open>validResultID(nodeID)\<close> with the length limit.\<close>

definition setHostDisabled :: "bool \<Rightarrow> bool \<Rightarrow> string \<Rightarrow> bool \<Rightarrow> registry \<Rightarrow> registry \<times> unit result" where
  "setHostDisabled valid saved nodeID disabled s =
     (case cs_agentAvailabilityErr s of Some e \<Rightarrow> (s, Inl (Fail e))
      | None \<Rightarrow>
         if mget False (cs_hostDisabled s) nodeID = disabled then (s, Inr ())
         else if \<not> valid then (s, Inl (Fail ''invalid host availability identity''))
         else if \<not> saved then (s, Inl (Fail ''save host availability''))
         else let hosts = (if disabled then AList.update nodeID True (cs_hostDisabled s) else AList.delete nodeID (cs_hostDisabled s))
              in (s\<lparr>cs_hostDisabled := hosts,
                    cs_agents := map (\<lambda>(agentID, agent). (agentID, agent\<lparr>ag_Disabled :=
                      (mget False (cs_agentDisabled s) agentID \<or> mget False hosts (agentHostNodeID agent))\<rparr>)) (cs_agents s)\<rparr>, Inr ()))"

subsection \<open>Registration\<close>

definition agentStaleAfter :: int where "agentStaleAfter = 10 * second"

definition agentIsOnline :: "Agent \<Rightarrow> gotime \<Rightarrow> bool" where
  "agentIsOnline agent now =
     (ag_State agent = AgentOnline \<and> (IsZero (ag_LastSeen agent) \<or> time_Sub now (ag_LastSeen agent) \<le> agentStaleAfter))"

definition firstNonEmpty :: "string \<Rightarrow> string \<Rightarrow> string" where
  "firstNonEmpty value fallback = (if value \<noteq> [] then value else fallback)"

definition reserved_for :: "registry \<Rightarrow> string \<Rightarrow> int" where
  "reserved_for s agentID = int (length (filter (\<lambda>(_, a). a = agentID) (cs_reservations s)))"

text \<open>The nodes of an instance that restarted have failed.\<close>

definition fail_restarted :: "gotime \<Rightarrow> string \<Rightarrow> string \<times> Node \<Rightarrow> registry \<Rightarrow> registry" where
  "fail_restarted now agentID entry s =
     (let node = snd entry
      in if no_AgentID node = agentID \<and> no_State node \<noteq> NodeStopped \<and> no_State node \<noteq> NodeFailed
         then setNodeLocked (node\<lparr>no_State := NodeFailed, no_Error := ''Agent instance restarted'', no_LastSeen := now\<rparr>) s
         else s)"

definition restart_agent :: "gotime \<Rightarrow> string \<Rightarrow> registry \<Rightarrow> registry" where
  "restart_agent now agentID s =
     (let s = s\<lparr>cs_agentAdmissionUntil := AList.delete agentID (cs_agentAdmissionUntil s),
            cs_uncertainCreates := filter (\<lambda>(nodeID, _). map_of (cs_reservations s) nodeID \<noteq> Some agentID) (cs_uncertainCreates s),
            cs_reservations := filter (\<lambda>(_, a). a \<noteq> agentID) (cs_reservations s)\<rparr>;
          s = fold (fail_restarted now agentID) (cs_nodes s) s
      in s\<lparr>cs_agentSnapshots := AList.delete agentID (cs_agentSnapshots s)\<rparr>)"

definition register_as :: "gotime \<Rightarrow> Agent option \<Rightarrow> bool \<Rightarrow> Agent \<Rightarrow> registry \<Rightarrow> registry \<times> Agent" where
  "register_as now previous restarted agent s =
     (case previous of
        Some p \<Rightarrow>
          if restarted then (restart_agent now (ag_ID agent) s, agent)
          else (s, agent\<lparr>ag_MetricsURL := firstNonEmpty (ag_MetricsURL agent) (ag_MetricsURL p),
                         ag_ActiveNodes := max (ag_ActiveNodes agent) (ag_ActiveNodes p)\<rparr>)
      | None \<Rightarrow> (s, agent\<lparr>ag_ActiveNodes := ag_ActiveNodes agent + reserved_for s (ag_ID agent)\<rparr>))"

text \<open>An older sample does not replace a newer one of the same instance.\<close>

definition register_resources :: "Agent option \<Rightarrow> bool \<Rightarrow> gotime \<Rightarrow> gotime \<Rightarrow> registry \<Rightarrow> Agent \<Rightarrow> AgentResources option" where
  "register_resources previous restarted reportedAt now s agent =
     (let r = normalizeAgentResources (ag_Resources agent) reportedAt now
      in case (previous, r) of
           (Some p, Some new) \<Rightarrow>
             (case ag_Resources p of
                Some old \<Rightarrow> if \<not> restarted \<and> \<not> reportedAt > mget 0 (cs_agentSnapshots s) (ag_ID agent) \<and> ar_SampledAt new < ar_SampledAt old
                  then Some old else r
              | None \<Rightarrow> r)
         | _ \<Rightarrow> r)"

definition admit_agent :: "gotime \<Rightarrow> string \<Rightarrow> gotime \<Rightarrow> Agent option \<Rightarrow> bool \<Rightarrow> Agent \<Rightarrow> registry \<Rightarrow> registry \<times> Agent" where
  "admit_agent now fresh reportedAt previous restarted agent s =
     (let (s, agent) = register_as now previous restarted agent s;
          agent = (if IsZero (ag_StartedAt agent) then agent\<lparr>ag_StartedAt := now\<rparr> else agent);
          s = (if \<not> IsZero reportedAt \<and> reportedAt > mget 0 (cs_agentSnapshots s) (ag_ID agent)
               then s\<lparr>cs_agentSnapshots := AList.update (ag_ID agent) reportedAt (cs_agentSnapshots s)\<rparr> else s);
          agent = agent\<lparr>ag_Resources := register_resources previous restarted reportedAt now s agent,
             ag_ActiveNodes := max 0 (ag_ActiveNodes agent), ag_LastSeen := now, ag_State := AgentOnline\<rparr>;
          (s, agent) = observeAgentCapacityLocked fresh agent s
      in (put_agent (ag_ID agent) agent s, agent))"

definition registerAgent :: "gotime \<Rightarrow> string \<Rightarrow> Agent \<Rightarrow> registry \<Rightarrow> registry \<times> Agent result" where
  "registerAgent now fresh agent s =
     (case cs_agentSettingsErr s of Some e \<Rightarrow> (s, Inl (Fail e))
      | None \<Rightarrow>
     if TrimSpace (ag_ID agent) = [] \<or> TrimSpace (ag_URL agent) = [] then (s, Inl (Fail ''agent id and url are required''))
     else
       let reportedAt = ag_LastSeen agent;
           previous = map_of (cs_agents s) (ag_ID agent);
           agent = (case previous of Some p \<Rightarrow> if IsZero (ag_StartedAt agent) then agent\<lparr>ag_StartedAt := ag_StartedAt p\<rparr> else agent | None \<Rightarrow> agent);
           restarted = ptr_is (\<lambda>p. ag_StartedAt agent \<noteq> ag_StartedAt p) previous
       in if ptr_is (\<lambda>p. ag_StartedAt agent \<noteq> ag_StartedAt p \<and> (ag_StartedAt agent < ag_StartedAt p \<or> agentIsOnline p now)) previous
          then (s, Inl (Fail ''agent is already registered by another live or newer instance''))
          else let (s, agent) = admit_agent now fresh reportedAt previous restarted agent s in (s, Inr agent))"

definition markStaleAgents :: "gotime \<Rightarrow> int \<Rightarrow> registry \<Rightarrow> registry" where
  "markStaleAgents now maxAge s =
     s\<lparr>cs_agents := map (\<lambda>(agentID, agent). (agentID,
        if time_Sub now (ag_LastSeen agent) > maxAge \<and> ag_State agent \<noteq> AgentOffline then agent\<lparr>ag_State := AgentOffline\<rparr> else agent)) (cs_agents s)\<rparr>"

end
