(* ===== verification/Agent_Heartbeat.thy ===== *)
theory Agent_Heartbeat
  imports Agent_Registry
begin

text \<open>
  \<^verbatim>\<open>state.heartbeat\<close> of \<^verbatim>\<open>internal/controller/state.go\<close>: a full or partial report of an Agent about itself and its nodes. Reports can
  be late, repeated or out of order; the merge of a node decides what of a report is still news.
\<close>

subsection \<open>Admission\<close>

text \<open>Every node of the report has an identifier of its own and belongs to the Agent, if it belongs to any.\<close>

definition own_node :: "registry \<Rightarrow> string \<Rightarrow> Node \<Rightarrow> bool" where
  "own_node s agentID node =
     (let owner = (case map_of (cs_nodes s) (no_ID node) of None \<Rightarrow> [] | Some old \<Rightarrow> no_AgentID old);
          reservation = mget [] (cs_reservations s) (no_ID node)
      in no_ID node \<noteq> [] \<and> \<not> (owner \<noteq> [] \<and> owner \<noteq> agentID) \<and> \<not> (reservation \<noteq> [] \<and> reservation \<noteq> agentID))"

fun report_seen :: "registry \<Rightarrow> string \<Rightarrow> Node list \<Rightarrow> string list \<Rightarrow> string list result" where
  "report_seen s agentID [] seen = Inr seen"
| "report_seen s agentID (node # nodes) seen =
     (if no_ID node \<in> set seen \<or> \<not> own_node s agentID node
      then Inl (Fail ''agent heartbeat contains an empty, duplicate, or foreign node'')
      else report_seen s agentID nodes (no_ID node # seen))"

subsection \<open>The Agent\<close>

definition carry_agent :: "registry \<Rightarrow> gotime \<Rightarrow> Agent \<Rightarrow> Agent \<Rightarrow> Agent" where
  "carry_agent s now previous a =
     a\<lparr>ag_URL := firstNonEmpty (ag_URL a) (ag_URL previous),
       ag_MetricsURL := firstNonEmpty (ag_MetricsURL a) (ag_MetricsURL previous),
       ag_Name := firstNonEmpty (ag_Name a) (ag_Name previous),
       ag_Hostname := firstNonEmpty (ag_Hostname a) (ag_Hostname previous),
       ag_Version := firstNonEmpty (ag_Version a) (ag_Version previous),
       ag_PeerImage := firstNonEmpty (ag_PeerImage a) (ag_PeerImage previous),
       ag_RunDrain := (ag_RunDrain a \<or> ag_RunDrain previous),
       ag_CreateReplay := (ag_CreateReplay a \<or> ag_CreateReplay previous),
       ag_Host := (case ag_Host a of None \<Rightarrow> ag_Host previous | Some host \<Rightarrow> Some host),
       ag_StartupReconciled := (ag_StartupReconciled a \<or> ag_StartupReconciled previous),
       ag_Capacity := (if ag_Capacity a = 0 then mget 0 (cs_agentReportedCapacities s) (ag_ID a) else ag_Capacity a),
       ag_StartedAt := (if IsZero (ag_StartedAt a) then ag_StartedAt previous else ag_StartedAt a),
       ag_Resources := normalizeAgentResources (ag_Resources a) (ag_LastSeen a) now,
       ag_LastSeen := now,
       ag_State := AgentOnline\<rparr>"

subsection \<open>The nodes\<close>

text \<open>Whether the recorded node wins over the report.\<close>

definition keeps_record :: "Node \<Rightarrow> Node \<Rightarrow> bool" where
  "keeps_record old node =
     (if no_State old = NodeStopped \<and> no_State node \<noteq> NodeStopped
         \<and> \<not> (\<not> cleanup_complete old \<and> no_State node = NodeFailed \<and> cleanup_complete node) then True
      else if no_State old = NodeFailed \<and> cleanup_complete old then True
      else if no_State old = NodeFailed \<and> no_State node \<noteq> NodeFailed \<and> no_State node \<noteq> NodeStopping \<and> no_State node \<noteq> NodeStopped then True
      else no_State old = NodeStopping \<and> no_State node \<noteq> NodeStopping \<and> no_State node \<noteq> NodeStopped \<and> no_State node \<noteq> NodeFailed)"

definition reported_node :: "registry \<Rightarrow> gotime \<Rightarrow> string \<Rightarrow> Node \<Rightarrow> Node" where
  "reported_node s now agentID node0 =
     (let node = node0\<lparr>no_AgentID := agentID, no_LastSeen := (if IsZero (no_LastSeen node0) then now else no_LastSeen node0),
            no_StartedAt := (if IsZero (no_StartedAt node0)
              then (case map_of (cs_nodes s) (no_ID node0) of Some old \<Rightarrow> no_StartedAt old | None \<Rightarrow> now) else no_StartedAt node0)\<rparr>
      in case map_of (cs_nodes s) (no_ID node) of
           Some old \<Rightarrow> if keeps_record old node then old else node
         | None \<Rightarrow> node)"

text \<open>One turn of the loop over the report; the counters are \<^verbatim>\<open>observedActive\<close> and \<^verbatim>\<open>releasedReservations\<close>.\<close>

definition report_node :: "gotime \<Rightarrow> gotime \<Rightarrow> string \<Rightarrow> Node \<Rightarrow> registry \<times> int \<times> int \<Rightarrow> registry \<times> int \<times> int" where
  "report_node now reportedAt agentID node0 = (\<lambda>(s, observedActive, released).
     let s = s\<lparr>cs_nodeReportTimes := AList.update (no_ID node0) (topologyReportTime now reportedAt (no_LastSeen node0)) (cs_nodeReportTimes s)\<rparr>;
         node = reported_node s now agentID node0;
         s = setNodeLocked node s;
         observedActive = observedActive + (if node_running node then 1 else 0)
     in if mget [] (cs_reservations s) (no_ID node) = agentID
        then (s\<lparr>cs_reservations := AList.delete (no_ID node) (cs_reservations s),
                cs_uncertainCreates := AList.delete (no_ID node) (cs_uncertainCreates s)\<rparr>, observedActive, released + 1)
        else (s, observedActive, released))"

definition inventory_active :: "registry \<Rightarrow> string \<Rightarrow> int" where
  "inventory_active s agentID =
     int (length (filter (\<lambda>node. no_AgentID node = agentID \<and> mget [] (cs_reservations s) (no_ID node) \<noteq> agentID \<and> node_running node)
       (activeNodesLocked s)))"

text \<open>A full report infers the exit of the nodes it leaves out.\<close>

definition sweep_node :: "gotime \<Rightarrow> string \<Rightarrow> string list \<Rightarrow> string \<times> Node \<Rightarrow> registry \<Rightarrow> registry" where
  "sweep_node now agentID seen entry s =
     (let nodeID = fst entry; node = snd entry
      in if no_AgentID node = agentID \<and> nodeID \<notin> set seen \<and> no_State node \<noteq> NodeStopped \<and> \<not> confirmed_failure node
            \<and> mget [] (cs_reservations s) nodeID \<noteq> agentID
         then setNodeLocked (node\<lparr>no_State := NodeStopped, no_LastSeen := now\<rparr>) s
         else s)"

definition final_report :: "Node \<Rightarrow> bool" where
  "final_report node = (no_State node = NodeStopped \<or> no_State node = NodeFailed \<and> cleanup_complete node)"

subsection \<open>The report\<close>

definition apply_report ::
    "gotime \<Rightarrow> string \<Rightarrow> AgentHeartbeat \<Rightarrow> Agent \<Rightarrow> bool \<Rightarrow> string list \<Rightarrow> registry \<Rightarrow> registry" where
  "apply_report now fresh h previous stale seen s =
     (let agentID = ag_ID (hb_Agent h);
          reportedAt = ag_LastSeen (hb_Agent h);
          nodes = (if stale then filter final_report (hb_Nodes h) else hb_Nodes h);
          s = (if \<not> stale \<and> \<not> IsZero reportedAt then s\<lparr>cs_agentSnapshots := AList.update agentID reportedAt (cs_agentSnapshots s)\<rparr> else s);
          agent = carry_agent s now previous (hb_Agent h);
          reportedOccupied = max 0 (ag_ActiveNodes agent);
          (s, observedActive, released) = fold (report_node now reportedAt agentID) nodes (s, 0, 0);
          observedActive = (if hb_Partial h then inventory_active s agentID else observedActive);
          agent = agent\<lparr>ag_ActiveNodes := max reportedOccupied observedActive + reserved_for s agentID\<rparr>;
          s = (if hb_Partial h then s else fold (sweep_node now agentID seen) (cs_nodes s) s)
      in if stale then put_agent agentID (previous\<lparr>ag_ActiveNodes := max 0 (ag_ActiveNodes previous - released)\<rparr>) s
         else let (s, agent) = observeAgentCapacityLocked fresh agent s in put_agent agentID agent s)"

definition heartbeat :: "gotime \<Rightarrow> string \<Rightarrow> AgentHeartbeat \<Rightarrow> registry \<Rightarrow> registry \<times> unit result" where
  "heartbeat now fresh h s =
     (let agentID = ag_ID (hb_Agent h)
      in if agentID = [] then (s, Inl (Fail ''agent id is required''))
         else case map_of (cs_agents s) agentID of
           None \<Rightarrow> (s, Inl (Fail ''agent is not registered''))
         | Some previous \<Rightarrow>
             if \<not> IsZero (ag_StartedAt (hb_Agent h)) \<and> ag_StartedAt (hb_Agent h) \<noteq> ag_StartedAt previous
             then (s, Inl (Fail ''agent heartbeat does not match its registered instance''))
             else
               let reportedAt = ag_LastSeen (hb_Agent h);
                   last = mget 0 (cs_agentSnapshots s) agentID;
                   stale = (\<not> IsZero reportedAt \<and> \<not> IsZero last \<and> reportedAt < last)
               in if \<not> hb_Partial h \<and> \<not> IsZero reportedAt \<and> \<not> IsZero last \<and> \<not> reportedAt > last then (s, Inr ())
                  else case report_seen s agentID (hb_Nodes h) [] of
                    Inl e \<Rightarrow> (s, Inl e)
                  | Inr seen \<Rightarrow> (apply_report now fresh h previous stale seen s, Inr ()))"

end
