(* ===== verification/Placement.thy ===== *)
theory Placement
  imports Agent_Heartbeat
begin

text \<open>
  Placement of new nodes on Agents, from \<^verbatim>\<open>internal/controller/runner.go\<close>, \<^verbatim>\<open>agent_capacity.go\<close> and \<^verbatim>\<open>create_retry.go\<close>: a slot is
  reserved before a create request is sent, and kept, released or exchanged for a node record according to its outcome.
\<close>

subsection \<open>Choosing an Agent\<close>

definition utilization :: "Agent \<Rightarrow> int \<Rightarrow> f64" where
  "utilization agent additional =
     (let occupied = f_add (float_of (ag_ActiveNodes agent)) (float_of additional)
      in if ag_Capacity agent \<le> 0 then occupied else f_div occupied (float_of (ag_Capacity agent)))"

definition balancedAgentBefore :: "Agent \<Rightarrow> Agent \<Rightarrow> bool" where
  "balancedAgentBefore a b =
     (if \<not> f_eq (utilization a 1) (utilization b 1) then f_lt (utilization a 1) (utilization b 1)
      else if \<not> f_eq (utilization a 0) (utilization b 0) then f_lt (utilization a 0) (utilization b 0)
      else ag_ID a < ag_ID b)"

definition deferred :: "registry \<Rightarrow> gotime \<Rightarrow> string \<Rightarrow> bool" where
  "deferred s now agentID = (now < mget 0 (cs_agentAdmissionUntil s) agentID)"

definition may_place :: "registry \<Rightarrow> gotime \<Rightarrow> string \<Rightarrow> Agent \<Rightarrow> bool" where
  "may_place s now target agent =
     (\<not> (target \<noteq> [] \<and> ag_ID agent \<noteq> target)
      \<and> \<not> (ag_Disabled agent \<or> deferred s now (ag_ID agent) \<or> \<not> agentIsOnline agent now
           \<or> ag_Capacity agent > 0 \<and> ag_ActiveNodes agent \<ge> ag_Capacity agent))"

text \<open>The balanced choice keeps the best candidate while it ranges over the Agents.\<close>

definition better_agent :: "Agent \<Rightarrow> Agent option \<Rightarrow> Agent option" where
  "better_agent agent selected =
     (case selected of None \<Rightarrow> Some agent | Some best \<Rightarrow> if balancedAgentBefore agent best then Some agent else Some best)"

text \<open>A seeded choice sorts the candidates first. \<open>rng_Intn\<close> fails on an empty range only.\<close>

definition select_agent :: "registry \<Rightarrow> gotime \<Rightarrow> string \<Rightarrow> rng option \<Rightarrow> Agent option \<times> rng option" where
  "select_agent s now target r =
     (let candidates = filter (may_place s now target) (map snd (cs_agents s))
      in case r of
           None \<Rightarrow> (fold better_agent candidates None, None)
         | Some g \<Rightarrow>
             if candidates = [] then (None, Some g)
             else case rng_Intn (length candidates) g of
               Inl _ \<Rightarrow> (None, Some g)
             | Inr (i, g') \<Rightarrow> (Some (sort_key ag_ID candidates ! i), Some g'))"

definition drop_reservation :: "string \<Rightarrow> string \<Rightarrow> registry \<Rightarrow> registry" where
  "drop_reservation nodeID agentID s =
     (let s = s\<lparr>cs_reservations := AList.delete nodeID (cs_reservations s)\<rparr>
      in case map_of (cs_agents s) agentID of
           None \<Rightarrow> s
         | Some agent \<Rightarrow> put_agent agentID (agent\<lparr>ag_ActiveNodes := max 0 (ag_ActiveNodes agent - 1)\<rparr>) s)"

definition reserve_new :: "gotime \<Rightarrow> string \<Rightarrow> string \<Rightarrow> rng option \<Rightarrow> registry \<Rightarrow> registry \<times> rng option \<times> Agent option" where
  "reserve_new now nodeID target r s =
     (case select_agent s now target r of
        (None, r) \<Rightarrow> (s, r, None)
      | (Some selected, r) \<Rightarrow>
          let selected = selected\<lparr>ag_ActiveNodes := ag_ActiveNodes selected + 1\<rparr>;
              s = put_agent (ag_ID selected) selected s
          in (s\<lparr>cs_reservations := AList.update nodeID (ag_ID selected) (cs_reservations s)\<rparr>, r, Some selected))"

text \<open>\<^verbatim>\<open>tryReserveAgentWithPlacement\<close>; the result is the Agent when the second value of the code is true.\<close>

definition tryReserveAgentWithPlacement ::
    "gotime \<Rightarrow> string \<Rightarrow> string \<Rightarrow> rng option \<Rightarrow> registry \<Rightarrow> registry \<times> rng option \<times> Agent option" where
  "tryReserveAgentWithPlacement now nodeID target r s =
     (case map_of (cs_reservations s) nodeID of
        None \<Rightarrow> reserve_new now nodeID target r s
      | Some agentID \<Rightarrow>
          (case map_of (cs_agents s) agentID of
             Some agent \<Rightarrow>
               if \<not> ag_Disabled agent \<and> \<not> deferred s now (ag_ID agent)
               then (s, r, if agentIsOnline agent now \<and> (target = [] \<or> agentID = target) then Some agent else None)
               else reserve_new now nodeID target r (drop_reservation nodeID agentID s)
           | None \<Rightarrow> reserve_new now nodeID target r (drop_reservation nodeID agentID s)))"

text \<open>One look of \<^verbatim>\<open>selectBatchAgent\<close> at the registry; the code repeats it until it finds a candidate.\<close>

definition selectBatchAgent_once :: "gotime \<Rightarrow> rng \<Rightarrow> registry \<Rightarrow> string option \<times> rng" where
  "selectBatchAgent_once now g s =
     (let candidates = map ag_ID (filter (\<lambda>agent. \<not> ag_Disabled agent \<and> \<not> deferred s now (ag_ID agent) \<and> agentIsOnline agent now
            \<and> (ag_Capacity agent \<le> 0 \<or> ag_ActiveNodes agent < ag_Capacity agent)) (map snd (cs_agents s)))
      in if candidates = [] then (None, g)
         else case rng_Intn (length candidates) g of
           Inl _ \<Rightarrow> (None, g)
         | Inr (i, g') \<Rightarrow> (Some (sort candidates ! i), g'))"

subsection \<open>Releasing a slot\<close>

definition releaseReservation :: "string \<Rightarrow> registry \<Rightarrow> registry" where
  "releaseReservation nodeID s =
     (let agentID = mget [] (cs_reservations s) nodeID;
          s = s\<lparr>cs_reservations := AList.delete nodeID (cs_reservations s)\<rparr>
      in case map_of (cs_agents s) agentID of
           Some agent \<Rightarrow> if ag_ActiveNodes agent > 0 then put_agent agentID (agent\<lparr>ag_ActiveNodes := ag_ActiveNodes agent - 1\<rparr>) s else s
         | None \<Rightarrow> s)"

text \<open>\<^verbatim>\<open>deferAgentAdmission\<close> without its log line.\<close>

definition deferAgentAdmission :: "gotime \<Rightarrow> Agent \<Rightarrow> int \<Rightarrow> registry \<Rightarrow> registry" where
  "deferAgentAdmission now agent after s =
     (case map_of (cs_agents s) (ag_ID agent) of
        Some current \<Rightarrow>
          if ag_StartedAt current = ag_StartedAt agent \<and> now + after > mget 0 (cs_agentAdmissionUntil s) (ag_ID agent)
          then s\<lparr>cs_agentAdmissionUntil := AList.update (ag_ID agent) (now + after) (cs_agentAdmissionUntil s)\<rparr> else s
      | None \<Rightarrow> s)"

definition markNodeStoppingAndReleaseCapacity :: "gotime \<Rightarrow> string \<Rightarrow> registry \<Rightarrow> registry" where
  "markNodeStoppingAndReleaseCapacity now nodeID s =
     (let s = (case map_of (cs_nodes s) nodeID of
            Some node \<Rightarrow> if node_running node then setNodeLocked (node\<lparr>no_State := NodeStopping, no_LastSeen := now\<rparr>) s else s
          | None \<Rightarrow> s)
      in s\<lparr>cs_reservations := AList.delete nodeID (cs_reservations s)\<rparr>)"

subsection \<open>Creating a node\<close>

record CreateNodeRequest =
  cq_AgentStartedAt :: gotime
  cq_PeerNetworkID :: string
  cq_NetworkMutable :: bool
  cq_ProfileRevision :: "64 word"
  cq_ExperimentStartedAt :: gotime
  cq_ID :: string
  cq_RunID :: string
  cq_Generation :: "64 word"
  cq_Group :: string
  cq_Role :: string
  cq_Type :: string
  cq_Profile :: string
  cq_Seed :: int
  cq_Config :: NodeConfig
  cq_Lifetime :: string

definition ack_matches :: "bool \<Rightarrow> string \<Rightarrow> string \<Rightarrow> bool" where
  "ack_matches strict got want = (got = want \<or> \<not> strict \<and> got = [])"

definition createAcknowledgementMatches :: "Node \<Rightarrow> CreateNodeRequest \<Rightarrow> string \<Rightarrow> bool \<Rightarrow> bool" where
  "createAcknowledgementMatches node request agentID strict =
     (ack_matches strict (no_ID node) (cq_ID request) \<and> ack_matches strict (no_RunID node) (cq_RunID request)
      \<and> ack_matches strict (no_AgentID node) agentID \<and> ack_matches strict (no_Group node) (cq_Group request)
      \<and> (no_Generation node = cq_Generation request \<or> \<not> strict \<and> no_Generation node = 0))"

definition FormatBool :: "bool \<Rightarrow> string" where
  "FormatBool b = (if b then ''true'' else ''false'')"

fun strings_Join :: "string list \<Rightarrow> string \<Rightarrow> string" where
  "strings_Join [] sep = []"
| "strings_Join [x] sep = x"
| "strings_Join (x # y # ys) sep = x @ sep @ strings_Join (y # ys) sep"

text \<open>\<open>enc\<close> is \<^verbatim>\<open>encodeTopics\<close>, the JSON text of the topics.\<close>

definition created_metadata :: "golib \<Rightarrow> (string list option \<Rightarrow> string) \<Rightarrow> NodeConfig \<Rightarrow> string \<Rightarrow> string gomap" where
  "created_metadata lb enc config profile =
     (let g = nd_GossipSub config; on = ptr_is (\<lambda>b. b) (gs_Enabled g)
      in [(''profile'', profile),
          (''pubsubRouter'', gs_Router g),
          (''pubsubEnabled'', FormatBool on),
          (''meshFreezeEnabled'', FormatBool (on \<and> gs_Router g = ''gossipsub'' \<and> ptr_is (\<lambda>b. b) (gs_MeshFreeze g))),
          (''scoreEnabled'', FormatBool (on \<and> gs_Router g = ''gossipsub'' \<and> ptr_is score_IsEnabled (gs_Score g))),
          (''allowPublish'', FormatBool (PublishAllowed lb config)),
          (''topicMode'', gs_TopicMode g),
          (''topics'', strings_Join (elems (gs_Topics g)) '',''),
          (''topicsJSON'', enc (gs_Topics g)),
          (''dhtEnabled'', FormatBool (ptr_is (\<lambda>b. b) (ka_Enabled (nd_Kademlia config)))),
          (''dhtMode'', ka_Mode (nd_Kademlia config))])"

definition created_node :: "golib \<Rightarrow> (string list option \<Rightarrow> string) \<Rightarrow> gotime \<Rightarrow> CreateNodeRequest \<Rightarrow> string \<Rightarrow> Node \<Rightarrow> Node" where
  "created_node lb enc now request agentID node =
     (let config = node_WithDefaults lb (cq_Config request);
          profile = firstNonEmpty (no_Profile node) (cq_Profile request)
      in node\<lparr>no_ID := firstNonEmpty (no_ID node) (cq_ID request),
              no_RunID := firstNonEmpty (no_RunID node) (cq_RunID request),
              no_Generation := (if no_Generation node = 0 then cq_Generation request else no_Generation node),
              no_AgentID := firstNonEmpty (no_AgentID node) agentID,
              no_Group := firstNonEmpty (no_Group node) (cq_Group request),
              no_Role := firstNonEmpty (no_Role node) (cq_Role request),
              no_Type := firstNonEmpty (no_Type node) (cq_Type request),
              no_Profile := profile,
              no_State := firstNonEmpty (no_State node) NodeStarting,
              no_Metadata := (case no_Metadata node of None \<Rightarrow> Some (created_metadata lb enc config profile) | Some m \<Rightarrow> Some m),
              no_StartedAt := (if IsZero (no_StartedAt node) then now else no_StartedAt node),
              no_LastSeen := (if IsZero (no_LastSeen node) then now else no_LastSeen node)\<rparr>)"

definition recordCreatedNode ::
    "golib \<Rightarrow> (string list option \<Rightarrow> string) \<Rightarrow> gotime \<Rightarrow> CreateNodeRequest \<Rightarrow> string \<Rightarrow> Node \<Rightarrow> gotime option \<Rightarrow> registry \<Rightarrow> registry \<times> bool" where
  "recordCreatedNode lb enc now request agentID node0 expectedInstance s =
     (let node = created_node lb enc now request agentID node0
      in if ptr_is (\<lambda>t. \<not> ptr_is (\<lambda>current. ag_StartedAt current = t) (map_of (cs_agents s) agentID)) expectedInstance then (s, False)
         else case map_of (cs_nodes s) (no_ID node) of
           None \<Rightarrow> (setNodeLocked node s, True)
         | Some current \<Rightarrow>
             if \<not> IsZero (no_LastSeen node0) \<and> node_running current \<and> no_LastSeen current < no_LastSeen node
             then (setNodeLocked node s, True) else (s, True))"

subsection \<open>Uncertain creations\<close>

definition retainUncertainCreate :: "CreateNodeRequest \<Rightarrow> string \<Rightarrow> registry \<Rightarrow> registry" where
  "retainUncertainCreate request agentID s =
     (if mget [] (cs_reservations s) (cq_ID request) \<noteq> agentID then s
      else s\<lparr>cs_uncertainCreates := AList.update (cq_ID request)
        \<lparr>uc_runID = cq_RunID request, uc_generation = cq_Generation request, uc_agentID = agentID\<rparr> (cs_uncertainCreates s)\<rparr>)"

definition release_uncertain :: "string \<Rightarrow> 64 word \<Rightarrow> string list \<Rightarrow> string \<times> uncertainCreate \<Rightarrow> registry \<Rightarrow> registry" where
  "release_uncertain runID generation cleaned entry s =
     (let nodeID = fst entry; pending = snd entry
      in if uc_runID pending \<noteq> runID \<or> uc_generation pending > generation \<or> uc_agentID pending \<notin> set cleaned then s
         else
           let agent = mget zero_agent (cs_agents s) (uc_agentID pending);
               s = (if mget [] (cs_reservations s) nodeID = uc_agentID pending
                 then put_agent (uc_agentID pending) (agent\<lparr>ag_ActiveNodes := max 0 (ag_ActiveNodes agent - 1)\<rparr>)
                        (s\<lparr>cs_reservations := AList.delete nodeID (cs_reservations s)\<rparr>)
                 else s)
           in s\<lparr>cs_uncertainCreates := AList.delete nodeID (cs_uncertainCreates s)\<rparr>)"

definition releaseUncertainCreates :: "string \<Rightarrow> 64 word \<Rightarrow> string list \<Rightarrow> registry \<Rightarrow> registry" where
  "releaseUncertainCreates runID generation cleaned s =
     fold (release_uncertain runID generation cleaned) (cs_uncertainCreates s) s"

end
