(* ===== verification/Registry_Invariant.thy ===== *)
theory Registry_Invariant
  imports Placement
begin

text \<open>
  The invariant of the registry. Its two halves are about different fields: \<open>nodes_ok\<close> about the node records and their index,
  \<open>agents_ok\<close> about the Agents, the slots reserved on them and the operator's settings.
\<close>

subsection \<open>Maps\<close>

lemma mget_Some [simp]: "map_of m k = Some v \<Longrightarrow> mget z m k = v"
  and mget_None [simp]: "map_of m k = None \<Longrightarrow> mget z m k = z"
  by (simp_all add: mget_def)

lemma map_of_update_if: "map_of (AList.update k v m) x = (if x = k then Some v else map_of m x)"
  by (simp add: update_conv)

lemma map_of_delete_if: "map_of (AList.delete k m) x = (if x = k then None else map_of m x)"
  by (simp add: delete_conv)

lemma mget_update: "mget z (AList.update k v m) x = (if x = k then v else mget z m x)"
  by (simp add: mget_def map_of_update_if)

lemma mget_delete: "mget z (AList.delete k m) x = (if x = k then z else mget z m x)"
  by (simp add: mget_def map_of_delete_if)

lemma map_of_map_snd: "map_of (map (\<lambda>(k, v). (k, f k v)) m) x = map_option (f x) (map_of m x)"
  by (induction m) auto

lemma keys_map_snd [simp]: "map (fst \<circ> (\<lambda>(k, v). (k, f k v))) m = map fst m"
  by (induction m) auto

definition wf_map :: "'v gomap \<Rightarrow> bool" where
  "wf_map m = distinct (map fst m)"

lemma wf_map_simps [simp]:
  "wf_map []" "wf_map m \<Longrightarrow> wf_map (AList.update k v m)" "wf_map m \<Longrightarrow> wf_map (AList.delete k m)"
  "wf_map m \<Longrightarrow> wf_map (filter p m)" "wf_map m \<Longrightarrow> wf_map (map (\<lambda>(k, v). (k, f k v)) m)"
  by (simp_all add: wf_map_def distinct_update distinct_delete distinct_map_filter)

lemma wf_map_of_mem: "wf_map m \<Longrightarrow> (k, v) \<in> set m \<longleftrightarrow> map_of m k = Some v"
  by (simp add: wf_map_def)

lemmas map_rules = map_of_update_if map_of_delete_if mget_update mget_delete

text \<open>Entries with a given value.\<close>

definition held :: "string gomap \<Rightarrow> string \<Rightarrow> int" where
  "held m k = int (length (filter (\<lambda>(_, a). a = k) m))"

lemma reserved_for_held: "reserved_for s k = held (cs_reservations s) k"
  by (simp add: reserved_for_def held_def)

lemma held_nonneg [simp]: "0 \<le> held m k"
  by (simp add: held_def)

lemma held_delete: "wf_map m \<Longrightarrow> held (AList.delete n m) k = held m k - (if map_of m n = Some k then 1 else 0)"
proof (induction m)
  case Nil
  then show ?case by (simp add: held_def)
next
  case (Cons e m)
  have d: "fst e \<notin> fst ` set m" "wf_map m" using Cons.prems by (auto simp: wf_map_def)
  then have "AList.delete (fst e) m = m" "map_of m (fst e) = None" by (simp_all add: map_of_eq_None_iff)
  then show ?case using Cons.IH [OF d(2)] by (cases e) (auto simp: held_def)
qed

lemma held_update: "wf_map m \<Longrightarrow> map_of m n = None \<Longrightarrow> held (AList.update n a m) k = held m k + (if a = k then 1 else 0)"
  by (induction m) (auto simp: held_def wf_map_def split: if_splits)

lemma held_filter [simp]: "held (filter (\<lambda>(_, a). a \<noteq> j) m) k = (if k = j then 0 else held m k)"
proof -
  have "filter (\<lambda>x. (case x of (_, a) \<Rightarrow> a \<noteq> j) \<and> (case x of (_, a) \<Rightarrow> a = k)) m = (if k = j then [] else filter (\<lambda>(_, a). a = k) m)"
    by (induction m) auto
  then show ?thesis by (simp add: held_def)
qed

lemma held_none: "(\<And>n. map_of m n \<noteq> Some k) \<Longrightarrow> wf_map m \<Longrightarrow> held m k = 0"
  by (auto simp: held_def filter_empty_conv wf_map_of_mem)

subsection \<open>Nodes\<close>

definition nodes_ok :: "registry \<Rightarrow> bool" where
  "nodes_ok s \<longleftrightarrow> wf_map (cs_nodes s) \<and> (\<forall>k n. map_of (cs_nodes s) k = Some n \<longrightarrow> no_ID n = k)
     \<and> (\<forall>ids. cs_activeNodeIDs s = Some ids \<longrightarrow> distinct ids
          \<and> set ids = {k. \<exists>n. map_of (cs_nodes s) k = Some n \<and> nodeHasLiveState n})"

text \<open>How the record of a node may change in a step or a sequence of steps.\<close>

definition evolves :: "Node \<Rightarrow> Node \<Rightarrow> bool" where
  "evolves n n' \<longleftrightarrow> (confirmed_failure n \<longrightarrow> n' = n)
     \<and> (no_State n = NodeStopped \<longrightarrow> no_State n' = NodeStopped \<or> confirmed_failure n')
     \<and> (\<not> node_running n \<longrightarrow> \<not> node_running n')"

lemma evolves_refl [simp]: "evolves n n"
  by (simp add: evolves_def)

lemma confirmed_not_running: "confirmed_failure n \<Longrightarrow> \<not> node_running n"
  by (simp add: confirmed_failure_def node_running_def)

lemma evolves_trans: "evolves a b \<Longrightarrow> evolves b c \<Longrightarrow> evolves a c"
  unfolding evolves_def by blast

definition nodes_evolve :: "registry \<Rightarrow> registry \<Rightarrow> bool" where
  "nodes_evolve s s' \<longleftrightarrow> (\<forall>k n. map_of (cs_nodes s) k = Some n \<longrightarrow> (\<exists>n'. map_of (cs_nodes s') k = Some n' \<and> evolves n n'))"

lemma nodes_evolve_refl: "cs_nodes s' = cs_nodes s \<Longrightarrow> nodes_evolve s s'"
  by (simp add: nodes_evolve_def)

lemma nodes_evolve_trans: "nodes_evolve a b \<Longrightarrow> nodes_evolve b c \<Longrightarrow> nodes_evolve a c"
  unfolding nodes_evolve_def by (meson evolves_trans)

text \<open>\<open>nodes_only s s'\<close>: a step that changes nothing but the node records and the index.\<close>

definition nodes_only :: "registry \<Rightarrow> registry \<Rightarrow> bool" where
  "nodes_only s s' \<longleftrightarrow> (\<exists>ns ids. s' = s\<lparr>cs_nodes := ns, cs_activeNodeIDs := ids\<rparr>)"

lemma nodes_only_refl [simp]: "nodes_only s s"
  unfolding nodes_only_def by (intro exI [of _ "cs_nodes s"] exI [of _ "cs_activeNodeIDs s"]) simp

lemma nodes_only_trans: "nodes_only a b \<Longrightarrow> nodes_only b c \<Longrightarrow> nodes_only a c"
  unfolding nodes_only_def by (elim exE, hypsubst, intro exI) simp

lemma setNodeLocked_only [simp]: "nodes_only s (setNodeLocked n s)"
  unfolding nodes_only_def setNodeLocked_def Let_def by blast

lemma setNodeLocked_nodes [simp]: "cs_nodes (setNodeLocked n s) = AList.update (no_ID n) n (cs_nodes s)"
  by (simp add: setNodeLocked_def Let_def)

lemma setNodeLocked_ok:
  assumes ok: "nodes_ok s"
  shows "nodes_ok (setNodeLocked n s)"
proof -
  let ?ids = "case cs_activeNodeIDs s of None \<Rightarrow> map fst (filter (\<lambda>(_, c). nodeHasLiveState c) (cs_nodes s)) | Some ids \<Rightarrow> ids"
  have wf: "wf_map (cs_nodes s)" using ok by (simp add: nodes_ok_def)
  have ids: "distinct ?ids" "set ?ids = {k. \<exists>m. map_of (cs_nodes s) k = Some m \<and> nodeHasLiveState m}"
  proof (atomize (full), cases "cs_activeNodeIDs s")
    case None
    have "distinct (map fst (filter (\<lambda>(_, c). nodeHasLiveState c) (cs_nodes s)))"
      using wf by (simp add: wf_map_def distinct_map_filter)
    moreover have "fst ` {x \<in> set (cs_nodes s). case x of (_, c) \<Rightarrow> nodeHasLiveState c}
        = {k. \<exists>m. map_of (cs_nodes s) k = Some m \<and> nodeHasLiveState m}"
      using wf_map_of_mem [OF wf] by force
    ultimately show "distinct ?ids \<and> set ?ids = {k. \<exists>m. map_of (cs_nodes s) k = Some m \<and> nodeHasLiveState m}"
      by (simp add: None)
  next
    case (Some ids)
    then show "distinct ?ids \<and> set ?ids = {k. \<exists>m. map_of (cs_nodes s) k = Some m \<and> nodeHasLiveState m}"
      using ok by (simp add: nodes_ok_def)
  qed
  have act: "cs_activeNodeIDs (setNodeLocked n s) = Some (if nodeHasLiveState n then List.insert (no_ID n) ?ids else removeAll (no_ID n) ?ids)"
    by (simp add: setNodeLocked_def Let_def)
  show ?thesis
    using ok ids unfolding nodes_ok_def act setNodeLocked_nodes
    by (auto simp: map_of_update_if distinct_removeAll split: if_splits)
qed

lemma setNodeLocked_evolve:
  assumes "\<And>old. map_of (cs_nodes s) (no_ID n) = Some old \<Longrightarrow> evolves old n"
  shows "nodes_evolve s (setNodeLocked n s)"
  using assms by (auto simp: nodes_evolve_def map_of_update_if)

text \<open>With a correct index the active nodes are the live ones, each once.\<close>

lemma activeNodesLocked_live:
  assumes "nodes_ok s"
  shows "distinct (map no_ID (activeNodesLocked s)) \<and> set (activeNodesLocked s) = {n. map_of (cs_nodes s) (no_ID n) = Some n \<and> nodeHasLiveState n}"
proof -
  have wf: "wf_map (cs_nodes s)" and keys: "\<And>k n. map_of (cs_nodes s) k = Some n \<Longrightarrow> no_ID n = k"
    using assms by (auto simp: nodes_ok_def)
  show ?thesis
  proof (cases "cs_activeNodeIDs s")
    case None
    have e: "(k, n) \<in> set (cs_nodes s) \<Longrightarrow> no_ID n = k" for k n using keys wf_map_of_mem [OF wf] by blast
    have eq: "map no_ID (map snd (cs_nodes s)) = map fst (cs_nodes s)"
      using e by (auto simp: map_eq_conv)
    have "distinct (map no_ID (map snd (cs_nodes s)))" using wf unfolding wf_map_def eq .
    then have "distinct (map no_ID (filter nodeHasLiveState (map snd (cs_nodes s))))" by (rule distinct_map_filter)
    moreover have "n \<in> snd ` set (cs_nodes s) \<longleftrightarrow> map_of (cs_nodes s) (no_ID n) = Some n" for n
    proof
      assume "n \<in> snd ` set (cs_nodes s)"
      then obtain k where "(k, n) \<in> set (cs_nodes s)" by auto
      then show "map_of (cs_nodes s) (no_ID n) = Some n" using e wf_map_of_mem [OF wf] by metis
    next
      assume "map_of (cs_nodes s) (no_ID n) = Some n"
      then show "n \<in> snd ` set (cs_nodes s)" by (metis map_of_SomeD snd_conv image_eqI)
    qed
    then have "set (filter nodeHasLiveState (map snd (cs_nodes s))) = {n. map_of (cs_nodes s) (no_ID n) = Some n \<and> nodeHasLiveState n}"
      by auto
    ultimately show ?thesis by (simp add: activeNodesLocked_def None)
  next
    case (Some ids)
    have ids: "distinct ids" "set ids = {k. \<exists>n. map_of (cs_nodes s) k = Some n \<and> nodeHasLiveState n}"
      using assms Some by (auto simp: nodes_ok_def)
    have live: "live_record s k = Some n \<longleftrightarrow> map_of (cs_nodes s) k = Some n \<and> nodeHasLiveState n" for k n
      by (auto simp: live_record_def split: option.splits)
    have "map no_ID (List.map_filter (live_record s) ks) = ks" if "set ks \<subseteq> set ids" for ks
      using that
    proof (induction ks)
      case (Cons k ks)
      then obtain n where n: "live_record s k = Some n" using ids(2) live by fastforce
      then have "no_ID n = k" using live keys by blast
      then show ?case using Cons n by (simp add: List.map_filter_simps)
    qed (simp add: List.map_filter_simps)
    then have "map no_ID (List.map_filter (live_record s) ids) = ids" by blast
    moreover have "set (List.map_filter (live_record s) ids) = {n. map_of (cs_nodes s) (no_ID n) = Some n \<and> nodeHasLiveState n}"
    proof -
      have "set (List.map_filter (live_record s) ids) = {n. \<exists>k\<in>set ids. live_record s k = Some n}"
        by (force simp: List.map_filter_def)
      also have "\<dots> = {n. map_of (cs_nodes s) (no_ID n) = Some n \<and> nodeHasLiveState n}"
        using ids(2) live keys by auto
      finally show ?thesis .
    qed
    ultimately show ?thesis using ids(1) by (simp add: activeNodesLocked_def Some)
  qed
qed

end
