(* ===== verification/Registry_Correct.thy ===== *)
theory Registry_Correct
  imports Registry_Invariant
begin

text \<open>Every operation on the registry keeps its invariant and lets node records only evolve; what a reservation guarantees.\<close>

subsection \<open>Agents and slots\<close>

text \<open>The limit the operator or the Agent's own command line asks for; not positive means none.\<close>

definition agent_limit :: "Agent \<Rightarrow> int" where
  "agent_limit a = (if ag_CapacityOverride a > 0 then ag_CapacityOverride a else ag_DefaultCapacity a)"

definition settings_ok :: "registry \<Rightarrow> Agent \<Rightarrow> bool" where
  "settings_ok s a \<longleftrightarrow> ag_CapacityOverride a = mget 0 (cs_agentCapacityOverrides s) (ag_ID a)
     \<and> (ag_Disabled a \<longleftrightarrow> mget False (cs_agentDisabled s) (ag_ID a) \<or> mget False (cs_hostDisabled s) (agentHostNodeID a)
          \<or> cs_agentAvailabilityErr s \<noteq> None)
     \<and> (0 < agent_limit a \<longrightarrow> 0 < ag_Capacity a \<and> ag_Capacity a \<le> agent_limit a)"

definition agents_ok :: "registry \<Rightarrow> bool" where
  "agents_ok s \<longleftrightarrow> wf_map (cs_agents s) \<and> wf_map (cs_reservations s)
     \<and> (\<forall>k a. map_of (cs_agents s) k = Some a \<longrightarrow> ag_ID a = k \<and> k \<noteq> [] \<and> held (cs_reservations s) k \<le> ag_ActiveNodes a \<and> settings_ok s a)
     \<and> (\<forall>n k. map_of (cs_reservations s) n = Some k \<longrightarrow> map_of (cs_agents s) k \<noteq> None)
     \<and> (\<forall>n u. (n, u) \<in> set (cs_uncertainCreates s) \<longrightarrow> map_of (cs_agents s) (uc_agentID u) \<noteq> None)"

definition registry_ok :: "registry \<Rightarrow> bool" where
  "registry_ok s \<longleftrightarrow> nodes_ok s \<and> agents_ok s"

lemma agents_okD:
  assumes "agents_ok s"
  shows "wf_map (cs_agents s)" "wf_map (cs_reservations s)"
    "map_of (cs_agents s) k = Some a \<Longrightarrow> ag_ID a = k" "map_of (cs_agents s) k = Some a \<Longrightarrow> k \<noteq> []"
    "map_of (cs_agents s) k = Some a \<Longrightarrow> held (cs_reservations s) k \<le> ag_ActiveNodes a"
    "map_of (cs_agents s) k = Some a \<Longrightarrow> settings_ok s a"
    "map_of (cs_reservations s) n = Some k \<Longrightarrow> map_of (cs_agents s) k \<noteq> None"
    "(n, u) \<in> set (cs_uncertainCreates s) \<Longrightarrow> map_of (cs_agents s) (uc_agentID u) \<noteq> None"
  using assms unfolding agents_ok_def by blast+

text \<open>The fields \<open>agents_ok\<close> and \<open>nodes_ok\<close> read.\<close>

lemma agents_ok_cong:
  assumes "cs_agents s' = cs_agents s" "cs_reservations s' = cs_reservations s" "cs_uncertainCreates s' = cs_uncertainCreates s"
    "cs_agentCapacityOverrides s' = cs_agentCapacityOverrides s" "cs_agentDisabled s' = cs_agentDisabled s"
    "cs_hostDisabled s' = cs_hostDisabled s" "cs_agentAvailabilityErr s' = cs_agentAvailabilityErr s"
  shows "agents_ok s' = agents_ok s"
  by (simp add: agents_ok_def settings_ok_def assms)

lemma nodes_ok_cong: "cs_nodes s' = cs_nodes s \<Longrightarrow> cs_activeNodeIDs s' = cs_activeNodeIDs s \<Longrightarrow> nodes_ok s' = nodes_ok s"
  by (simp add: nodes_ok_def)

lemma agents_ok_nodes_only: "nodes_only s s' \<Longrightarrow> agents_ok s' = agents_ok s"
  unfolding nodes_only_def by (elim exE, hypsubst, rule agents_ok_cong) simp_all

text \<open>\<open>settings_eq\<close>: the operator's settings are the same.\<close>

definition settings_eq :: "registry \<Rightarrow> registry \<Rightarrow> bool" where
  "settings_eq s s' \<longleftrightarrow> cs_agentCapacityOverrides s' = cs_agentCapacityOverrides s \<and> cs_agentDisabled s' = cs_agentDisabled s
     \<and> cs_hostDisabled s' = cs_hostDisabled s \<and> cs_agentAvailabilityErr s' = cs_agentAvailabilityErr s"

lemma settings_ok_cong: "settings_eq s s' \<Longrightarrow> settings_ok s' a = settings_ok s a"
  by (simp add: settings_eq_def settings_ok_def)

text \<open>
  Replacing one Agent: the new record keeps its identity, covers its slots and follows the settings; the slots of the other
  Agents may only become fewer.
\<close>

lemma put_agent_ok:
  assumes ok: "agents_ok s" and others: "\<And>j b. j \<noteq> k \<Longrightarrow> map_of (cs_agents s) j = Some b \<Longrightarrow> settings_ok s' b" and ag: "cs_agents s' = AList.update k a (cs_agents s)"
    and res: "wf_map (cs_reservations s')" "\<And>j. j \<noteq> k \<Longrightarrow> held (cs_reservations s') j \<le> held (cs_reservations s) j"
    and reg: "\<And>n j. map_of (cs_reservations s') n = Some j \<Longrightarrow> j = k \<or> map_of (cs_agents s) j \<noteq> None"
    and unc: "set (cs_uncertainCreates s') \<subseteq> set (cs_uncertainCreates s)"
    and a: "ag_ID a = k" "k \<noteq> []" "held (cs_reservations s') k \<le> ag_ActiveNodes a" "settings_ok s' a"
  shows "agents_ok s'"
  unfolding agents_ok_def
proof (intro conjI allI impI)
  show "wf_map (cs_agents s')" using agents_okD(1) [OF ok] by (simp add: ag)
  show "wf_map (cs_reservations s')" by (rule res(1))
next
  fix j b assume "map_of (cs_agents s') j = Some b"
  then have *: "j = k \<and> b = a \<or> j \<noteq> k \<and> map_of (cs_agents s) j = Some b" by (auto simp: ag map_of_update_if split: if_splits)
  then show "ag_ID b = j" using a(1) agents_okD(3) [OF ok] by blast
  show "j \<noteq> []" using * a(2) agents_okD(4) [OF ok] by blast
  show "settings_ok s' b" using * a(4) others by blast
  show "held (cs_reservations s') j \<le> ag_ActiveNodes b"
    using * a(3) agents_okD(5) [OF ok] res(2) by (meson order_trans)
next
  fix n j assume "map_of (cs_reservations s') n = Some j"
  then show "map_of (cs_agents s') j \<noteq> None" using reg by (auto simp: ag map_of_update_if)
next
  fix n u assume "(n, u) \<in> set (cs_uncertainCreates s')"
  then show "map_of (cs_agents s') (uc_agentID u) \<noteq> None" using agents_okD(8) [OF ok] unc by (auto simp: ag map_of_update_if)
qed

lemma fewer_slots_ok:
  assumes ok: "agents_ok s" and eq: "settings_eq s s'" "cs_agents s' = cs_agents s"
    and res: "wf_map (cs_reservations s')" "\<And>j. held (cs_reservations s') j \<le> held (cs_reservations s) j"
      "\<And>n j. map_of (cs_reservations s') n = Some j \<Longrightarrow> map_of (cs_agents s) j \<noteq> None"
    and unc: "\<And>n u. (n, u) \<in> set (cs_uncertainCreates s') \<Longrightarrow> map_of (cs_agents s) (uc_agentID u) \<noteq> None"
  shows "agents_ok s'"
  unfolding agents_ok_def eq(2) settings_ok_cong [OF eq(1)]
proof (intro conjI allI impI)
  fix k a assume a: "map_of (cs_agents s) k = Some a"
  show "ag_ID a = k" "k \<noteq> []" "settings_ok s a" using agents_okD(3,4,6) [OF ok a] by blast+
  show "held (cs_reservations s') k \<le> ag_ActiveNodes a" using agents_okD(5) [OF ok a] res(2) by (rule order_trans [rotated])
qed (use agents_okD(1) [OF ok] res unc in blast)+

lemma delete_slot:
  assumes "agents_ok s"
  shows "wf_map (AList.delete n (cs_reservations s))" "held (AList.delete n (cs_reservations s)) j \<le> held (cs_reservations s) j"
    "map_of (AList.delete n (cs_reservations s)) m = Some j \<Longrightarrow> map_of (cs_agents s) j \<noteq> None"
  using agents_okD(2,7) [OF assms] by (auto simp: held_delete map_of_delete_if split: if_splits)

subsection \<open>Settings\<close>

lemma agentHostNodeID_update [simp]:
  "agentHostNodeID (a\<lparr>ag_ActiveNodes := x\<rparr>) = agentHostNodeID a" "agentHostNodeID (a\<lparr>ag_State := st\<rparr>) = agentHostNodeID a"
  "agentHostNodeID (a\<lparr>ag_Disabled := d\<rparr>) = agentHostNodeID a"
  by (simp_all add: agentHostNodeID_def split: option.split)

lemma agent_limit_update [simp]:
  "agent_limit (a\<lparr>ag_ActiveNodes := x\<rparr>) = agent_limit a" "agent_limit (a\<lparr>ag_State := st\<rparr>) = agent_limit a"
  "agent_limit (a\<lparr>ag_Disabled := d\<rparr>) = agent_limit a"
  by (simp_all add: agent_limit_def)

lemma apply_capacity_simps [simp]:
  "ag_ID (applyAgentCapacityLocked s a) = ag_ID a" "ag_ActiveNodes (applyAgentCapacityLocked s a) = ag_ActiveNodes a"
  "agentHostNodeID (applyAgentCapacityLocked s a) = agentHostNodeID a"
  "ag_CapacityOverride (applyAgentCapacityLocked s a) = mget 0 (cs_agentCapacityOverrides s) (ag_ID a)"
  "ag_DefaultCapacity (applyAgentCapacityLocked s a) = ag_DefaultCapacity a"
  by (simp_all add: applyAgentCapacityLocked_def Let_def agentHostNodeID_def split: option.split)

text \<open>Reductions take effect at once and only the acknowledgement of the current revision raises the limit, so the bound always holds.\<close>

lemma apply_capacity_settings: "settings_ok s (applyAgentCapacityLocked s a)"
proof -
  let ?a = "applyAgentCapacityLocked s a"
  have "0 < agent_limit ?a \<longrightarrow> 0 < ag_Capacity ?a \<and> ag_Capacity ?a \<le> agent_limit ?a"
    unfolding agent_limit_def apply_capacity_simps
    by (simp add: applyAgentCapacityLocked_def Let_def min_def)
  moreover have "ag_Disabled ?a \<longleftrightarrow> mget False (cs_agentDisabled s) (ag_ID a) \<or> mget False (cs_hostDisabled s) (agentHostNodeID a)
      \<or> cs_agentAvailabilityErr s \<noteq> None"
    by (simp add: applyAgentCapacityLocked_def Let_def)
  ultimately show ?thesis unfolding settings_ok_def apply_capacity_simps by blast
qed

lemma observe_capacity:
  assumes "observeAgentCapacityLocked fresh a s = (s', a')"
  shows "settings_eq s s'" "settings_ok s' a'" "ag_ID a' = ag_ID a" "ag_ActiveNodes a' = ag_ActiveNodes a"
    "cs_agents s' = cs_agents s" "cs_reservations s' = cs_reservations s" "cs_uncertainCreates s' = cs_uncertainCreates s"
    "cs_nodes s' = cs_nodes s" "cs_activeNodeIDs s' = cs_activeNodeIDs s"
  using assms apply_capacity_settings
  by (auto simp: observeAgentCapacityLocked_def Let_def settings_eq_def)

lemma settings_ok_update [simp]:
  "settings_ok s (a\<lparr>ag_ActiveNodes := x\<rparr>) = settings_ok s a" "settings_ok s (a\<lparr>ag_State := st\<rparr>) = settings_ok s a"
  by (simp_all add: settings_ok_def)

lemma commit_capacity_ok:
  assumes ok: "agents_ok s" and reg: "map_of (cs_agents s) k = Some a"
    and c: "\<And>j. j \<noteq> k \<Longrightarrow> mget 0 capacities j = mget 0 (cs_agentCapacityOverrides s) j"
  shows "agents_ok (commit_capacity fresh k capacities s)"
proof -
  let ?s = "s\<lparr>cs_agentCapacityOverrides := capacities, cs_agentCapacityRevisions := AList.update k fresh (cs_agentCapacityRevisions s)\<rparr>"
  let ?a = "applyAgentCapacityLocked ?s a"
  have ID: "ag_ID a = k" "k \<noteq> []" and cover: "held (cs_reservations s) k \<le> ag_ActiveNodes a" using agents_okD(3-5) [OF ok] reg by blast+
  have s': "commit_capacity fresh k capacities s = put_agent k ?a ?s" using reg by (simp add: commit_capacity_def Let_def)
  show ?thesis unfolding s'
  proof (rule put_agent_ok [OF ok, where k = k and a = ?a])
    show "settings_ok (put_agent k ?a ?s) b" if "j \<noteq> k" "map_of (cs_agents s) j = Some b" for j b
      using agents_okD(6) [OF ok that(2)] agents_okD(3) [OF ok that(2)] that(1) c by (simp add: settings_ok_def put_agent_def)
    show "settings_ok (put_agent k ?a ?s) ?a"
      using apply_capacity_settings [of ?s a] by (simp add: settings_ok_def put_agent_def)
  qed (use agents_okD(2,7) [OF ok] ID cover in \<open>auto simp: put_agent_def\<close>)
qed

lemma commit_enabled_ok:
  assumes ok: "agents_ok s" and reg: "map_of (cs_agents s) k = Some a" and err: "cs_agentAvailabilityErr s = None"
  shows "agents_ok (commit_enabled k enabled s)"
proof -
  let ?s = "s\<lparr>cs_agentDisabled := (if enabled then AList.delete k (cs_agentDisabled s) else AList.update k True (cs_agentDisabled s))\<rparr>"
  let ?a = "a\<lparr>ag_Disabled := (\<not> enabled \<or> mget False (cs_hostDisabled s) (agentHostNodeID a))\<rparr>"
  have ID: "ag_ID a = k" "k \<noteq> []" and cover: "held (cs_reservations s) k \<le> ag_ActiveNodes a" and st: "settings_ok s a"
    using agents_okD(3-6) [OF ok] reg by blast+
  have s': "commit_enabled k enabled s = put_agent k ?a ?s" using reg by (simp add: commit_enabled_def Let_def)
  show ?thesis unfolding s'
  proof (rule put_agent_ok [OF ok, where k = k and a = ?a])
    show "settings_ok (put_agent k ?a ?s) b" if "j \<noteq> k" "map_of (cs_agents s) j = Some b" for j b
      using agents_okD(6) [OF ok that(2)] agents_okD(3) [OF ok that(2)] that(1) by (simp add: settings_ok_def put_agent_def map_rules)
    show "settings_ok (put_agent k ?a ?s) ?a"
      using st ID err by (simp add: settings_ok_def put_agent_def map_rules)
  qed (use agents_okD(2,7) [OF ok] ID cover in \<open>auto simp: put_agent_def\<close>)
qed

text \<open>Changing every Agent in place.\<close>

lemma map_agents_ok:
  assumes ok: "agents_ok s" and ag: "cs_agents s' = map (\<lambda>(k, a). (k, f k a)) (cs_agents s)"
    and eq: "cs_reservations s' = cs_reservations s" "cs_uncertainCreates s' = cs_uncertainCreates s"
    and f: "\<And>k a. ag_ID (f k a) = ag_ID a" "\<And>k a. ag_ActiveNodes (f k a) = ag_ActiveNodes a"
      "\<And>a. settings_ok s a \<Longrightarrow> settings_ok s' (f (ag_ID a) a)"
  shows "agents_ok s'"
proof -
  have look: "map_of (cs_agents s') k = map_option (f k) (map_of (cs_agents s) k)" for k by (simp add: ag map_of_map_snd)
  show ?thesis unfolding agents_ok_def
  proof (intro conjI allI impI)
    show "wf_map (cs_agents s')" using agents_okD(1) [OF ok] by (simp add: ag)
    fix k b assume "map_of (cs_agents s') k = Some b"
    then obtain a where a: "map_of (cs_agents s) k = Some a" "b = f k a" unfolding look by auto
    show "ag_ID b = k" "k \<noteq> []" "held (cs_reservations s') k \<le> ag_ActiveNodes b"
      using agents_okD(3-5) [OF ok a(1)] by (simp_all add: a(2) f eq)
    show "settings_ok s' b" using f(3) [OF agents_okD(6) [OF ok a(1)]] agents_okD(3) [OF ok a(1)] a(2) by simp
  qed (use agents_okD(2,7,8) [OF ok] in \<open>auto simp: look eq\<close>)
qed

lemma host_disabled_ok:
  assumes ok: "agents_ok s"
  shows "agents_ok (fst (setHostDisabled valid saved host disabled s))"
proof -
  let ?hosts = "if disabled then AList.update host True (cs_hostDisabled s) else AList.delete host (cs_hostDisabled s)"
  let ?f = "\<lambda>agentID agent. agent\<lparr>ag_Disabled := (mget False (cs_agentDisabled s) agentID \<or> mget False ?hosts (agentHostNodeID agent))\<rparr>"
  let ?s = "s\<lparr>cs_hostDisabled := ?hosts, cs_agents := map (\<lambda>(k, a). (k, ?f k a)) (cs_agents s)\<rparr>"
  have "agents_ok ?s" if "cs_agentAvailabilityErr s = None"
    by (rule map_agents_ok [OF ok, where f = ?f]) (simp_all add: settings_ok_def that)
  then show ?thesis using ok by (cases disabled) (simp_all add: setHostDisabled_def Let_def split: option.split)
qed

lemma stale_agents_ok:
  assumes ok: "agents_ok s"
  shows "agents_ok (markStaleAgents now maxAge s)"
  by (rule map_agents_ok [OF ok, where f = "\<lambda>_ a. if time_Sub now (ag_LastSeen a) > maxAge \<and> ag_State a \<noteq> AgentOffline
      then a\<lparr>ag_State := AgentOffline\<rparr> else a"])
    (simp_all add: markStaleAgents_def settings_ok_def)

subsection \<open>Loops over the nodes\<close>

text \<open>
  A loop that visits every entry of the node map and replaces some records. The body may look at the registry, but only at
  fields the loop does not write.
\<close>

locale node_sweep =
  fixes visit :: "string \<times> Node \<Rightarrow> registry \<Rightarrow> registry"
    and touches :: "string \<times> Node \<Rightarrow> registry \<Rightarrow> bool"
    and change :: "Node \<Rightarrow> Node"
  assumes visit_def: "visit e s = (if touches e s then setNodeLocked (change (snd e)) s else s)"
    and change_ID: "no_ID (change n) = no_ID n"
    and change_evolves: "touches (k, n) s \<Longrightarrow> evolves n (change n)"
begin

lemma sweep:
  assumes "nodes_ok s" "distinct (map fst es)" "\<And>k n. (k, n) \<in> set es \<Longrightarrow> map_of (cs_nodes s) k = Some n"
  shows "nodes_ok (fold visit es s) \<and> nodes_evolve s (fold visit es s) \<and> nodes_only s (fold visit es s)"
  using assms
proof (induction es arbitrary: s)
  case Nil
  then show ?case by (simp add: nodes_evolve_refl)
next
  case (Cons e es)
  obtain k n where e: "e = (k, n)" by (cases e)
  have kn: "map_of (cs_nodes s) k = Some n" using Cons.prems(3) e by simp
  then have "no_ID n = k" using Cons.prems(1) by (auto simp: nodes_ok_def)
  then have ID: "no_ID (change n) = k" by (simp add: change_ID)
  have step: "nodes_ok (visit e s)" "nodes_evolve s (visit e s)" "nodes_only s (visit e s)"
    using Cons.prems(1) kn change_evolves
    by (auto simp: visit_def e setNodeLocked_ok nodes_evolve_refl ID intro!: setNodeLocked_evolve)
  have "map_of (cs_nodes (visit e s)) k' = Some n'" if "(k', n') \<in> set es" for k' n'
  proof -
    have "k' \<noteq> k" using Cons.prems(2) that e by force
    then show ?thesis using Cons.prems(3) that by (auto simp: visit_def e ID map_of_update_if)
  qed
  from Cons.IH [OF step(1) _ this] Cons.prems(2) have
    "nodes_ok (fold visit es (visit e s)) \<and> nodes_evolve (visit e s) (fold visit es (visit e s)) \<and> nodes_only (visit e s) (fold visit es (visit e s))"
    by simp
  then show ?case using step nodes_evolve_trans nodes_only_trans unfolding fold_simps by blast
qed

lemma sweep_all:
  assumes "nodes_ok s"
  shows "nodes_ok (fold visit (cs_nodes s) s) \<and> nodes_evolve s (fold visit (cs_nodes s) s) \<and> nodes_only s (fold visit (cs_nodes s) s)"
proof (rule sweep [OF assms])
  have wf: "wf_map (cs_nodes s)" using assms by (simp add: nodes_ok_def)
  then show "distinct (map fst (cs_nodes s))" by (simp add: wf_map_def)
  show "\<And>k n. (k, n) \<in> set (cs_nodes s) \<Longrightarrow> map_of (cs_nodes s) k = Some n" using wf_map_of_mem [OF wf] by blast
qed

end

interpretation restarted: node_sweep "fail_restarted now agentID"
  "\<lambda>e s. no_AgentID (snd e) = agentID \<and> no_State (snd e) \<noteq> NodeStopped \<and> no_State (snd e) \<noteq> NodeFailed"
  "\<lambda>n. n\<lparr>no_State := NodeFailed, no_Error := ''Agent instance restarted'', no_LastSeen := now\<rparr>" for now agentID
  by unfold_locales (auto simp: fail_restarted_def Let_def evolves_def confirmed_failure_def node_running_def)

interpretation left_out: node_sweep "sweep_node now agentID seen"
  "\<lambda>e s. no_AgentID (snd e) = agentID \<and> fst e \<notin> set seen \<and> no_State (snd e) \<noteq> NodeStopped \<and> \<not> confirmed_failure (snd e)
     \<and> mget [] (cs_reservations s) (fst e) \<noteq> agentID"
  "\<lambda>n. n\<lparr>no_State := NodeStopped, no_LastSeen := now\<rparr>" for now agentID seen
  by unfold_locales (auto simp: sweep_node_def Let_def evolves_def node_running_def)

subsection \<open>Registration\<close>

lemma restart_agent_ok:
  assumes "registry_ok s"
  shows "nodes_ok (restart_agent now k s) \<and> nodes_evolve s (restart_agent now k s) \<and> settings_eq s (restart_agent now k s)
    \<and> cs_agents (restart_agent now k s) = cs_agents s \<and> agents_ok (restart_agent now k s) \<and> held (cs_reservations (restart_agent now k s)) k = 0"
proof -
  define s1 where "s1 = s\<lparr>cs_agentAdmissionUntil := AList.delete k (cs_agentAdmissionUntil s),
      cs_uncertainCreates := filter (\<lambda>(nodeID, _). map_of (cs_reservations s) nodeID \<noteq> Some k) (cs_uncertainCreates s),
      cs_reservations := filter (\<lambda>(_, a). a \<noteq> k) (cs_reservations s)\<rparr>"
  define s2 where "s2 = fold (fail_restarted now k) (cs_nodes s1) s1"
  have r: "restart_agent now k s = s2\<lparr>cs_agentSnapshots := AList.delete k (cs_agentSnapshots s2)\<rparr>"
    by (simp add: restart_agent_def Let_def s1_def s2_def)
  have ok: "nodes_ok s" "agents_ok s" using assms by (simp_all add: registry_ok_def)
  have "nodes_ok s1" using ok(1) by (subst nodes_ok_cong [of s1 s]) (simp_all add: s1_def)
  from restarted.sweep_all [OF this] have s2: "nodes_ok s2" "nodes_evolve s1 s2" "nodes_only s1 s2" by (simp_all add: s2_def)
  have eq: "cs_agents s1 = cs_agents s" "settings_eq s s1" by (simp_all add: s1_def settings_eq_def)
  have "agents_ok s1"
  proof (rule fewer_slots_ok [OF ok(2) eq(2,1)])
    fix n j assume "map_of (cs_reservations s1) n = Some j"
    then have "(n, j) \<in> set (cs_reservations s)" by (auto simp: s1_def dest: map_of_SomeD)
    then have "map_of (cs_reservations s) n = Some j" using wf_map_of_mem [OF agents_okD(2) [OF ok(2)]] by simp
    then show "map_of (cs_agents s) j \<noteq> None" by (rule agents_okD(7) [OF ok(2)])
  qed (use agents_okD(2,8) [OF ok(2)] in \<open>auto simp: s1_def\<close>)
  then have a2: "agents_ok s2" by (simp add: agents_ok_nodes_only [OF s2(3)])
  have f2: "cs_agents s2 = cs_agents s1" "settings_eq s1 s2" "cs_reservations s2 = cs_reservations s1"
    using s2(3) by (auto simp: nodes_only_def settings_eq_def)
  define s3 where "s3 = s2\<lparr>cs_agentSnapshots := AList.delete k (cs_agentSnapshots s2)\<rparr>"
  have "nodes_ok s3" using s2(1) by (subst nodes_ok_cong [of _ s2]) (simp_all add: s3_def)
  moreover have "agents_ok s3" using a2 by (subst agents_ok_cong [of _ s2]) (simp_all add: s3_def)
  moreover have "nodes_evolve s s3" using s2(2) by (simp add: nodes_evolve_def s1_def s3_def)
  moreover have "settings_eq s s3" "cs_agents s3 = cs_agents s" using eq f2 by (simp_all add: s3_def settings_eq_def)
  moreover have "held (cs_reservations s3) k = 0" using f2(3) by (simp add: s3_def s1_def)
  ultimately show ?thesis unfolding r s3_def [symmetric] by blast
qed

lemma register_as_ok:
  assumes ok: "registry_ok s" and prev: "previous = map_of (cs_agents s) (ag_ID a)"
    and reg: "register_as now previous restarted a s = (s', a')"
  shows "nodes_ok s' \<and> nodes_evolve s s' \<and> agents_ok s' \<and> ag_ID a' = ag_ID a \<and> held (cs_reservations s') (ag_ID a) \<le> max 0 (ag_ActiveNodes a')
    \<and> cs_agents s' = cs_agents s"
proof (cases previous)
  case None
  have "agents_ok s" "nodes_ok s" using ok by (simp_all add: registry_ok_def)
  then have "held (cs_reservations s) (ag_ID a) = 0"
    using None prev agents_okD(2,7) by (intro held_none) (metis, blast)
  then show ?thesis using reg None \<open>agents_ok s\<close> \<open>nodes_ok s\<close> by (auto simp: register_as_def nodes_evolve_refl)
next
  case (Some p)
  have "agents_ok s" "nodes_ok s" using ok by (simp_all add: registry_ok_def)
  then have "held (cs_reservations s) (ag_ID a) \<le> ag_ActiveNodes p" using agents_okD(5) Some prev by metis
  then show ?thesis using reg Some restart_agent_ok [OF ok, of now "ag_ID a"] \<open>agents_ok s\<close> \<open>nodes_ok s\<close>
    by (auto simp: register_as_def nodes_evolve_refl split: if_splits)
qed

text \<open>Storing an observed Agent over a registry whose slots it covers.\<close>

lemma observed_agent_ok:
  assumes ok: "nodes_ok s" "agents_ok s" and obs: "observeAgentCapacityLocked fresh a s = (s', a')"
    and a: "ag_ID a \<noteq> []" "held (cs_reservations s) (ag_ID a) \<le> ag_ActiveNodes a"
  shows "registry_ok (put_agent (ag_ID a) a' s')" "cs_nodes (put_agent (ag_ID a) a' s') = cs_nodes s"
proof -
  note o = observe_capacity [OF obs]
  have "agents_ok (put_agent (ag_ID a) a' s')"
  proof (rule put_agent_ok [OF ok(2), where k = "ag_ID a" and a = a'])
    have eq: "settings_eq s (put_agent (ag_ID a) a' s')" using o(1) by (simp add: settings_eq_def put_agent_def)
    show "settings_ok (put_agent (ag_ID a) a' s') b" if "map_of (cs_agents s) j = Some b" for j b
      using agents_okD(6) [OF ok(2) that] by (simp add: settings_ok_cong [OF eq])
    show "settings_ok (put_agent (ag_ID a) a' s') a'" using o(2) by (simp add: settings_ok_def put_agent_def)
  qed (use a o agents_okD(2,7) [OF ok(2)] in \<open>auto simp: put_agent_def\<close>)
  moreover have "nodes_ok (put_agent (ag_ID a) a' s')"
    using ok(1) o(8,9) by (subst nodes_ok_cong [of _ s]) (simp_all add: put_agent_def)
  ultimately show "registry_ok (put_agent (ag_ID a) a' s')" by (simp add: registry_ok_def)
  show "cs_nodes (put_agent (ag_ID a) a' s') = cs_nodes s" using o(8) by (simp add: put_agent_def)
qed

lemma admit_agent_ok:
  assumes ok: "registry_ok s" and ID: "ag_ID a \<noteq> []" and prev: "previous = map_of (cs_agents s) (ag_ID a)"
    and adm: "admit_agent now fresh reportedAt previous restarted a s = (s', a')"
  shows "registry_ok s' \<and> nodes_evolve s s'"
proof -
  obtain s1 a1 where 1: "register_as now previous restarted a s = (s1, a1)" by fastforce
  note r = register_as_ok [OF ok prev 1]
  define a2 where "a2 = (if IsZero (ag_StartedAt a1) then a1\<lparr>ag_StartedAt := now\<rparr> else a1)"
  define s2 where "s2 = (if \<not> IsZero reportedAt \<and> reportedAt > mget 0 (cs_agentSnapshots s1) (ag_ID a2)
    then s1\<lparr>cs_agentSnapshots := AList.update (ag_ID a2) reportedAt (cs_agentSnapshots s1)\<rparr> else s1)"
  define a3 where "a3 = a2\<lparr>ag_Resources := register_resources previous restarted reportedAt now s2 a2,
    ag_ActiveNodes := max 0 (ag_ActiveNodes a2), ag_LastSeen := now, ag_State := AgentOnline\<rparr>"
  obtain s4 a4 where 4: "observeAgentCapacityLocked fresh a3 s2 = (s4, a4)" by fastforce
  have s': "s' = put_agent (ag_ID a4) a4 s4"
    using adm unfolding admit_agent_def 1 prod.case Let_def a2_def [symmetric] s2_def [symmetric] a3_def [symmetric] 4 by auto
  have frame: "cs_nodes s2 = cs_nodes s1" "cs_activeNodeIDs s2 = cs_activeNodeIDs s1" "cs_agents s2 = cs_agents s1"
    "cs_reservations s2 = cs_reservations s1" "settings_eq s1 s2" "cs_uncertainCreates s2 = cs_uncertainCreates s1"
    by (simp_all add: s2_def settings_eq_def)
  have n2: "nodes_ok s2" using r frame by (simp add: nodes_ok_cong [of s2 s1])
  have g2: "agents_ok s2" using r frame by (subst agents_ok_cong [of s2 s1]) (simp_all add: settings_eq_def)
  have ID3: "ag_ID a3 = ag_ID a" using r by (simp add: a3_def a2_def)
  have cover: "held (cs_reservations s2) (ag_ID a3) \<le> ag_ActiveNodes a3"
    using r by (simp add: ID3 frame) (simp add: a3_def a2_def)
  have ID4: "ag_ID a4 = ag_ID a3" by (rule observe_capacity(3) [OF 4])
  note p = observed_agent_ok [OF n2 g2 4 _ cover, unfolded ID3, OF ID]
  show ?thesis using p r by (simp add: s' ID4 ID3 nodes_evolve_def frame)
qed

lemma registerAgent_ok:
  assumes ok: "registry_ok s"
  shows "registry_ok (fst (registerAgent now fresh a s)) \<and> nodes_evolve s (fst (registerAgent now fresh a s))"
proof -
  let ?prev = "map_of (cs_agents s) (ag_ID a)"
  define a0 where "a0 = (case ?prev of Some p \<Rightarrow> if IsZero (ag_StartedAt a) then a\<lparr>ag_StartedAt := ag_StartedAt p\<rparr> else a | None \<Rightarrow> a)"
  let ?restarted = "ptr_is (\<lambda>p. ag_StartedAt a0 \<noteq> ag_StartedAt p) ?prev"
  have ID: "ag_ID a0 = ag_ID a" by (simp add: a0_def split: option.split)
  obtain s1 a1 where 1: "admit_agent now fresh (ag_LastSeen a) ?prev ?restarted a0 s = (s1, a1)" by fastforce
  have "fst (registerAgent now fresh a s) = s \<or> TrimSpace (ag_ID a) \<noteq> [] \<and> fst (registerAgent now fresh a s) = s1"
    unfolding registerAgent_def Let_def a0_def [symmetric] 1 by (simp split: option.split)
  moreover have "registry_ok s1 \<and> nodes_evolve s s1" if "TrimSpace (ag_ID a) \<noteq> []"
    using that by (intro admit_agent_ok [OF ok _ _ 1]) (auto simp: ID TrimSpace_def)
  ultimately show ?thesis using ok by (auto simp: nodes_evolve_refl)
qed

subsection \<open>Heartbeats\<close>

lemma report_evolves: "\<not> keeps_record old n \<Longrightarrow> evolves old n"
  by (auto simp: keeps_record_def evolves_def confirmed_failure_def node_running_def node_state_defs split: if_splits)

lemma reported_node_spec:
  assumes "nodes_ok s"
  shows "no_ID (reported_node s now k n) = no_ID n"
    "map_of (cs_nodes s) (no_ID n) = Some old \<Longrightarrow> evolves old (reported_node s now k n)"
  using assms by (auto simp: reported_node_def Let_def nodes_ok_def report_evolves split: option.split)

text \<open>What the loop over the nodes of a report keeps, relative to the registry \<open>s0\<close> at its start.\<close>

definition report_inv :: "string \<Rightarrow> registry \<Rightarrow> registry \<times> int \<times> int \<Rightarrow> bool" where
  "report_inv k s0 = (\<lambda>(s, active, released). nodes_ok s \<and> nodes_evolve s0 s \<and> cs_agents s = cs_agents s0 \<and> settings_eq s0 s
     \<and> wf_map (cs_reservations s) \<and> (\<forall>n j. map_of (cs_reservations s) n = Some j \<longrightarrow> map_of (cs_reservations s0) n = Some j)
     \<and> set (cs_uncertainCreates s) \<subseteq> set (cs_uncertainCreates s0) \<and> 0 \<le> released
     \<and> (\<forall>j. held (cs_reservations s) j = held (cs_reservations s0) j - (if j = k then released else 0)))"

lemma delete_subset: "set (AList.delete n m) \<subseteq> set m"
  by (auto simp: AList.delete_eq)

lemma report_node_inv:
  assumes k: "k \<noteq> []" and inv: "report_inv k s0 c"
  shows "report_inv k s0 (report_node now t k n c)"
proof -
  obtain s x r where c: "c = (s, x, r)" by (cases c) auto
  define s1 where "s1 = s\<lparr>cs_nodeReportTimes := AList.update (no_ID n) (topologyReportTime now t (no_LastSeen n)) (cs_nodeReportTimes s)\<rparr>"
  define m where "m = reported_node s1 now k n"
  define s2 where "s2 = setNodeLocked m s1"
  have i: "nodes_ok s" "nodes_evolve s0 s" "cs_agents s = cs_agents s0" "settings_eq s0 s" "wf_map (cs_reservations s)"
    "\<And>n j. map_of (cs_reservations s) n = Some j \<Longrightarrow> map_of (cs_reservations s0) n = Some j"
    "set (cs_uncertainCreates s) \<subseteq> set (cs_uncertainCreates s0)" "0 \<le> r"
    "\<And>j. held (cs_reservations s) j = held (cs_reservations s0) j - (if j = k then r else 0)"
    using inv by (auto simp: report_inv_def c)
  have n1: "nodes_ok s1" using i(1) by (subst nodes_ok_cong [of s1 s]) (simp_all add: s1_def)
  have "nodes_evolve s1 s2" unfolding s2_def
    using reported_node_spec [OF n1] by (intro setNodeLocked_evolve) (simp add: m_def)
  then have ev: "nodes_evolve s0 s2" using i(2) by (simp add: nodes_evolve_def s1_def) (meson evolves_trans)
  have n2: "nodes_ok s2" using n1 by (simp add: s2_def setNodeLocked_ok)
  have f: "cs_agents s2 = cs_agents s" "cs_reservations s2 = cs_reservations s" "cs_uncertainCreates s2 = cs_uncertainCreates s" "settings_eq s s2"
    by (simp_all add: s2_def s1_def setNodeLocked_def Let_def settings_eq_def)
  have st: "settings_eq s0 s2" using i(4) f(4) by (simp add: settings_eq_def)
  define s3 where "s3 = s2\<lparr>cs_reservations := AList.delete (no_ID m) (cs_reservations s2), cs_uncertainCreates := AList.delete (no_ID m) (cs_uncertainCreates s2)\<rparr>"
  let ?mine = "mget [] (cs_reservations s2) (no_ID m) = k"
  have res: "report_node now t k n c = (if ?mine then (s3, x + (if node_running m then 1 else 0), r + 1) else (s2, x + (if node_running m then 1 else 0), r))"
    by (simp add: report_node_def c Let_def s1_def [symmetric] m_def [symmetric] s2_def [symmetric] s3_def)
  show ?thesis
  proof (cases ?mine)
    case True
    then have hit: "map_of (cs_reservations s) (no_ID m) = Some k" using k by (auto simp: f mget_def split: option.splits)
    have "nodes_ok s3" "nodes_evolve s0 s3" "settings_eq s0 s3" "cs_agents s3 = cs_agents s0"
      using n2 ev st i(3) f(1) by (simp_all add: s3_def nodes_ok_def nodes_evolve_def settings_eq_def)
    moreover have "wf_map (cs_reservations s3)" "set (cs_uncertainCreates s3) \<subseteq> set (cs_uncertainCreates s0)"
      using i(5) order_trans [OF delete_subset i(7)] by (simp_all add: s3_def f)
    moreover have "map_of (cs_reservations s0) a = Some j" if "map_of (cs_reservations s3) a = Some j" for a j
      using that i(6) by (simp add: s3_def f map_of_delete_if split: if_splits)
    moreover have "held (cs_reservations s3) j = held (cs_reservations s0) j - (if j = k then r + 1 else 0)" for j
      using i(5,9) hit by (simp add: s3_def f held_delete)
    ultimately show ?thesis using True i(8) unfolding res report_inv_def by simp
  next
    case False
    then show ?thesis using n2 ev st i f unfolding res report_inv_def by simp
  qed
qed

lemma report_fold_inv:
  assumes "k \<noteq> []" "registry_ok s"
  shows "report_inv k s (fold (report_node now t k) ns (s, 0, 0))"
proof (rule fold_invariant [where Q = "\<lambda>_. True"])
  show "report_inv k s (s, 0, 0)" using assms(2) agents_okD(2)
    by (auto simp: report_inv_def registry_ok_def nodes_evolve_refl settings_eq_def)
qed (simp_all add: report_node_inv assms(1))

lemma apply_report_ok:
  assumes ok: "registry_ok s" and prev: "map_of (cs_agents s) (ag_ID (hb_Agent h)) = Some previous"
  shows "registry_ok (apply_report now fresh h previous stale seen s) \<and> nodes_evolve s (apply_report now fresh h previous stale seen s)"
proof -
  let ?k = "ag_ID (hb_Agent h)"
  let ?ns = "if stale then filter final_report (hb_Nodes h) else hb_Nodes h"
  define s1 where "s1 = (if \<not> stale \<and> \<not> IsZero (ag_LastSeen (hb_Agent h))
    then s\<lparr>cs_agentSnapshots := AList.update ?k (ag_LastSeen (hb_Agent h)) (cs_agentSnapshots s)\<rparr> else s)"
  define agent where "agent = carry_agent s1 now previous (hb_Agent h)"
  obtain s2 x r where 2: "fold (report_node now (ag_LastSeen (hb_Agent h)) ?k) ?ns (s1, 0, 0) = (s2, x, r)" by (metis prod_cases3)
  define s3 where "s3 = (if hb_Partial h then s2 else fold (sweep_node now ?k seen) (cs_nodes s2) s2)"
  define agent2 where "agent2 = agent\<lparr>ag_ActiveNodes := max (max 0 (ag_ActiveNodes agent)) (if hb_Partial h then inventory_active s2 ?k else x) + reserved_for s2 ?k\<rparr>"
  obtain s4 a4 where 4: "observeAgentCapacityLocked fresh agent2 s3 = (s4, a4)" by fastforce
  have res: "apply_report now fresh h previous stale seen s =
      (if stale then put_agent ?k (previous\<lparr>ag_ActiveNodes := max 0 (ag_ActiveNodes previous - r)\<rparr>) s3 else put_agent ?k a4 s4)"
    unfolding apply_report_def Let_def s1_def [symmetric] agent_def [symmetric] 2 prod.case s3_def [symmetric] agent2_def [symmetric] 4 by simp
  have okS: "nodes_ok s" "agents_ok s" using ok by (simp_all add: registry_ok_def)
  have k: "?k \<noteq> []" using agents_okD(4) [OF okS(2) prev] .
  have ok1: "registry_ok s1" and f1: "cs_nodes s1 = cs_nodes s" "cs_agents s1 = cs_agents s"
    using ok by (auto simp: s1_def registry_ok_def nodes_ok_def agents_ok_def settings_ok_def)
  have "report_inv ?k s1 (s2, x, r)" using report_fold_inv [OF k ok1] 2 by metis
  then have i: "nodes_ok s2" "nodes_evolve s1 s2" "cs_agents s2 = cs_agents s1" "settings_eq s1 s2" "wf_map (cs_reservations s2)"
    "\<And>n j. map_of (cs_reservations s2) n = Some j \<Longrightarrow> map_of (cs_reservations s1) n = Some j"
    "set (cs_uncertainCreates s2) \<subseteq> set (cs_uncertainCreates s1)" "0 \<le> r"
    "\<And>j. held (cs_reservations s2) j = held (cs_reservations s1) j - (if j = ?k then r else 0)"
    by (auto simp: report_inv_def)
  have a1: "agents_ok s1" using ok1 by (simp add: registry_ok_def)
  have a2: "agents_ok s2"
  proof (rule fewer_slots_ok [OF a1 i(4,3,5)])
    show "held (cs_reservations s2) j \<le> held (cs_reservations s1) j" for j using i(8,9) by simp
    show "map_of (cs_agents s1) j \<noteq> None" if "map_of (cs_reservations s2) n = Some j" for n j by (rule agents_okD(7) [OF a1 i(6) [OF that]])
    show "map_of (cs_agents s1) (uc_agentID u) \<noteq> None" if "(n, u) \<in> set (cs_uncertainCreates s2)" for n u
      using that i(7) agents_okD(8) [OF a1] by blast
  qed
  have 3: "nodes_ok s3 \<and> nodes_evolve s2 s3 \<and> nodes_only s2 s3"
    using left_out.sweep_all [OF i(1)] i(1) by (simp add: s3_def nodes_evolve_refl)
  then have a3: "agents_ok s3" using a2 agents_ok_nodes_only by blast
  have f3: "cs_agents s3 = cs_agents s2" "cs_reservations s3 = cs_reservations s2" using 3 by (auto simp: nodes_only_def)
  have ev: "nodes_evolve s s3" using nodes_evolve_trans [OF i(2)] 3 f1(1) by (simp add: nodes_evolve_def)
  show ?thesis
  proof (cases stale)
    case True
    let ?a = "previous\<lparr>ag_ActiveNodes := max 0 (ag_ActiveNodes previous - r)\<rparr>"
    have p3: "map_of (cs_agents s3) ?k = Some previous" using prev by (simp add: f3 i(3) f1)
    have "agents_ok (put_agent ?k ?a s3)"
    proof (rule put_agent_ok [OF a3, where k = ?k and a = ?a])
      have eq: "settings_ok (put_agent ?k ?a s3) b = settings_ok s3 b" for b by (simp add: settings_ok_def put_agent_def)
      show "settings_ok (put_agent ?k ?a s3) b" if "map_of (cs_agents s3) j = Some b" for j b
        unfolding eq by (rule agents_okD(6) [OF a3 that])
      show "settings_ok (put_agent ?k ?a s3) ?a" using agents_okD(6) [OF a3 p3] by (simp add: eq)
      show "held (cs_reservations (put_agent ?k ?a s3)) ?k \<le> ag_ActiveNodes ?a"
        using i(9) [of ?k] agents_okD(5) [OF a1, of ?k previous] prev f1(2) f3(2) by (simp add: put_agent_def)
      show "ag_ID ?a = ?k" using agents_okD(3) [OF okS(2) prev] by simp
    qed (use k agents_okD(2,7) [OF a3] in \<open>auto simp: put_agent_def\<close>)
    moreover have "nodes_ok (put_agent ?k ?a s3)" using 3 by (simp add: nodes_ok_def put_agent_def)
    ultimately show ?thesis unfolding res using True ev by (simp add: registry_ok_def nodes_evolve_def put_agent_def)
  next
    case False
    have ID: "ag_ID agent2 = ?k" by (simp add: agent2_def agent_def carry_agent_def)
    have "held (cs_reservations s3) (ag_ID agent2) \<le> ag_ActiveNodes agent2"
      by (simp add: ID f3 reserved_for_held) (simp add: agent2_def reserved_for_held)
    note p = observed_agent_ok [OF _ a3 4 _ this, unfolded ID, OF _ k]
    show ?thesis unfolding res using False 3 ev p by (simp add: nodes_evolve_def)
  qed
qed

lemma heartbeat_ok:
  assumes ok: "registry_ok s"
  shows "registry_ok (fst (heartbeat now fresh h s)) \<and> nodes_evolve s (fst (heartbeat now fresh h s))"
proof -
  have "fst (heartbeat now fresh h s) = s \<or> (\<exists>previous stale seen. map_of (cs_agents s) (ag_ID (hb_Agent h)) = Some previous
      \<and> fst (heartbeat now fresh h s) = apply_report now fresh h previous stale seen s)"
    by (auto simp: heartbeat_def Let_def split: option.split sum.split)
  then show ?thesis using ok apply_report_ok [OF ok] by (auto simp: nodes_evolve_refl)
qed

subsection \<open>Slots\<close>

text \<open>A new count of an Agent's nodes.\<close>

lemma put_count_ok:
  assumes ok: "agents_ok s" and a: "map_of (cs_agents s) k = Some a"
    and s': "cs_agents s' = AList.update k (a\<lparr>ag_ActiveNodes := x\<rparr>) (cs_agents s)" "settings_eq s s'"
    and res: "wf_map (cs_reservations s')" "held (cs_reservations s') k \<le> x"
      "\<And>j. j \<noteq> k \<Longrightarrow> held (cs_reservations s') j \<le> held (cs_reservations s) j"
      "\<And>n j. map_of (cs_reservations s') n = Some j \<Longrightarrow> j = k \<or> map_of (cs_agents s) j \<noteq> None"
    and unc: "set (cs_uncertainCreates s') \<subseteq> set (cs_uncertainCreates s)"
  shows "agents_ok s'"
proof (rule put_agent_ok [OF ok _ s'(1) res(1,3,4) unc])
  show "settings_ok s' b" if "map_of (cs_agents s) j = Some b" for j b
    using agents_okD(6) [OF ok that] by (simp add: settings_ok_cong [OF s'(2)])
  show "settings_ok s' (a\<lparr>ag_ActiveNodes := x\<rparr>)" using agents_okD(6) [OF ok a] by (simp add: settings_ok_cong [OF s'(2)])
qed (use agents_okD(3,4) [OF ok a] res(2) in simp_all)

lemma release_slot_ok:
  assumes ok: "agents_ok s" and a: "map_of (cs_agents s) k = Some a" and n: "map_of (cs_reservations s) n = Some k"
    and s': "cs_agents s' = AList.update k (a\<lparr>ag_ActiveNodes := x\<rparr>) (cs_agents s)" "settings_eq s s'"
      "cs_reservations s' = AList.delete n (cs_reservations s)" "cs_uncertainCreates s' = cs_uncertainCreates s"
    and x: "ag_ActiveNodes a - 1 \<le> x"
  shows "agents_ok s'"
  by (rule put_count_ok [OF ok a s'(1,2)])
    (use agents_okD(2) [OF ok] agents_okD(5) [OF ok a] n x delete_slot [OF ok, of n] in \<open>auto simp: s' held_delete\<close>)

lemma drop_reservation_ok:
  assumes ok: "agents_ok s" and n: "map_of (cs_reservations s) n = Some k"
  shows "agents_ok (drop_reservation n k s)" "map_of (cs_reservations (drop_reservation n k s)) n = None"
proof -
  obtain a where a: "map_of (cs_agents s) k = Some a" using agents_okD(7) [OF ok n] by auto
  then have d: "drop_reservation n k s = put_agent k (a\<lparr>ag_ActiveNodes := max 0 (ag_ActiveNodes a - 1)\<rparr>) (s\<lparr>cs_reservations := AList.delete n (cs_reservations s)\<rparr>)"
    by (simp add: drop_reservation_def)
  show "agents_ok (drop_reservation n k s)"
    by (rule release_slot_ok [OF ok a n, where x = "max 0 (ag_ActiveNodes a - 1)"]) (simp_all add: d put_agent_def settings_eq_def max_def)
  show "map_of (cs_reservations (drop_reservation n k s)) n = None" by (simp add: d put_agent_def map_of_delete_if)
qed

lemma releaseReservation_ok:
  assumes ok: "agents_ok s"
  shows "agents_ok (releaseReservation n s)"
proof (cases "map_of (cs_reservations s) n")
  case None
  have "map_of (cs_agents s) [] = None" using agents_okD(4) [OF ok] by fastforce
  moreover have "AList.delete n (cs_reservations s) = cs_reservations s" using None by (intro delete_id) (simp add: map_of_eq_None_iff)
  ultimately show ?thesis using ok None by (simp add: releaseReservation_def Let_def)
next
  case (Some k)
  obtain a where a: "map_of (cs_agents s) k = Some a" using agents_okD(7) [OF ok Some] by auto
  have "1 \<le> held (cs_reservations s) k" using held_delete [OF agents_okD(2) [OF ok], of n k] Some held_nonneg [of "AList.delete n (cs_reservations s)" k] by simp
  then have pos: "0 < ag_ActiveNodes a" using agents_okD(5) [OF ok a] by simp
  show ?thesis
    by (rule release_slot_ok [OF ok a Some, where x = "ag_ActiveNodes a - 1"])
      (use Some a pos in \<open>simp_all add: releaseReservation_def Let_def put_agent_def settings_eq_def\<close>)
qed

lemma better_agent_mem: "fold better_agent as sel = Some b \<Longrightarrow> b \<in> set as \<or> sel = Some b"
  by (induction "as" arbitrary: sel) (fastforce simp: better_agent_def split: option.splits if_splits)+

lemma select_agent_mem:
  assumes "select_agent s now target r = (Some b, r')"
  shows "b \<in> set (filter (may_place s now target) (map snd (cs_agents s)))"
proof (cases r)
  case None
  then show ?thesis using assms better_agent_mem [where sel = None] by (fastforce simp: select_agent_def Let_def)
next
  case (Some g)
  let ?c = "filter (may_place s now target) (map snd (cs_agents s))"
  obtain i where "rng_Intn (length ?c) g = Inr (i, the r')" "b = sort_key ag_ID ?c ! i"
    using assms Some by (auto simp: select_agent_def Let_def split: if_splits sum.splits prod.splits)
  then have "b \<in> set (sort_key ag_ID ?c)" using rng_Intn_range by (metis length_sort nth_mem)
  then show ?thesis by simp
qed

lemma reserve_new_ok:
  assumes ok: "agents_ok s" and n: "map_of (cs_reservations s) n = None"
  shows "agents_ok (fst (reserve_new now n target r s))"
proof (cases "select_agent s now target r")
  case (Pair sel r')
  show ?thesis
  proof (cases sel)
    case None
    then show ?thesis using Pair ok by (simp add: reserve_new_def)
  next
    case (Some b)
    then obtain k where "(k, b) \<in> set (cs_agents s)" using select_agent_mem Pair by fastforce
    then have b: "map_of (cs_agents s) k = Some b" using wf_map_of_mem [OF agents_okD(1) [OF ok]] by simp
    have ID: "ag_ID b = k" by (rule agents_okD(3) [OF ok b])
    show ?thesis
      by (rule put_count_ok [OF ok b, where x = "ag_ActiveNodes b + 1"])
        (use agents_okD(2,5,7) [OF ok] b ID Pair Some n in
          \<open>auto simp: reserve_new_def Let_def put_agent_def settings_eq_def held_update map_of_update_if split: if_splits\<close>)
  qed
qed

end
