(* ===== verification/Registry_Machine.thy ===== *)
theory Registry_Machine
  imports Registry_Correct
begin

text \<open>The registry as a state machine: its steps are the critical sections of the Controller, in any order.\<close>

subsection \<open>Remaining operations\<close>

lemma tryReserve_ok:
  assumes ok: "agents_ok s"
  shows "agents_ok (fst (tryReserveAgentWithPlacement now n target r s))"
proof (cases "map_of (cs_reservations s) n")
  case None
  then show ?thesis using reserve_new_ok [OF ok] by (simp add: tryReserveAgentWithPlacement_def)
next
  case (Some k)
  obtain a where a: "map_of (cs_agents s) k = Some a" using agents_okD(7) [OF ok Some] by auto
  note d = drop_reservation_ok [OF ok Some]
  show ?thesis using ok reserve_new_ok [OF d] Some a by (simp add: tryReserveAgentWithPlacement_def)
qed

lemma put_agent_frame [simp]:
  "cs_nodes (put_agent k a s) = cs_nodes s" "cs_activeNodeIDs (put_agent k a s) = cs_activeNodeIDs s"
  by (simp_all add: put_agent_def)

lemma drop_reservation_frame [simp]:
  "cs_nodes (drop_reservation n k s) = cs_nodes s" "cs_activeNodeIDs (drop_reservation n k s) = cs_activeNodeIDs s"
  by (simp_all add: drop_reservation_def Let_def split: option.split)

lemma reserve_new_frame [simp]:
  "cs_nodes (fst (reserve_new now n target r s)) = cs_nodes s" "cs_activeNodeIDs (fst (reserve_new now n target r s)) = cs_activeNodeIDs s"
  by (simp_all add: reserve_new_def Let_def split: prod.split option.split)

lemma tryReserve_frame [simp]:
  "cs_nodes (fst (tryReserveAgentWithPlacement now n target r s)) = cs_nodes s"
  "cs_activeNodeIDs (fst (tryReserveAgentWithPlacement now n target r s)) = cs_activeNodeIDs s"
  by (simp_all add: tryReserveAgentWithPlacement_def split: option.split)

lemma releaseReservation_frame [simp]:
  "cs_nodes (releaseReservation n s) = cs_nodes s" "cs_activeNodeIDs (releaseReservation n s) = cs_activeNodeIDs s"
  by (simp_all add: releaseReservation_def Let_def split: option.split)

lemma settings_frame [simp]:
  "cs_nodes (commit_capacity fresh k c s) = cs_nodes s" "cs_activeNodeIDs (commit_capacity fresh k c s) = cs_activeNodeIDs s"
  "cs_nodes (commit_enabled k e s) = cs_nodes s" "cs_activeNodeIDs (commit_enabled k e s) = cs_activeNodeIDs s"
  "cs_nodes (fst (setHostDisabled v sv h d s)) = cs_nodes s" "cs_activeNodeIDs (fst (setHostDisabled v sv h d s)) = cs_activeNodeIDs s"
  "cs_nodes (markStaleAgents now m s) = cs_nodes s" "cs_activeNodeIDs (markStaleAgents now m s) = cs_activeNodeIDs s"
  by (simp_all add: commit_capacity_def commit_enabled_def setHostDisabled_def markStaleAgents_def Let_def split: option.split)

lemma defer_ok: "agents_ok s \<Longrightarrow> agents_ok (deferAgentAdmission now a after s)"
  by (auto simp: deferAgentAdmission_def split: option.split intro: iffD2 [OF agents_ok_cong])

lemma retain_frame [simp]:
  "cs_agents (retainUncertainCreate q k s) = cs_agents s" "cs_reservations (retainUncertainCreate q k s) = cs_reservations s"
  "cs_nodes (retainUncertainCreate q k s) = cs_nodes s" "cs_activeNodeIDs (retainUncertainCreate q k s) = cs_activeNodeIDs s"
  "settings_eq s (retainUncertainCreate q k s)"
  by (simp_all add: retainUncertainCreate_def settings_eq_def)

lemma defer_frame [simp]:
  "cs_nodes (deferAgentAdmission now a after s) = cs_nodes s" "cs_activeNodeIDs (deferAgentAdmission now a after s) = cs_activeNodeIDs s"
  by (simp_all add: deferAgentAdmission_def split: option.split)

lemma retain_ok: "agents_ok s \<Longrightarrow> map_of (cs_agents s) k \<noteq> None \<Longrightarrow> agents_ok (retainUncertainCreate q k s)"
proof -
  assume ok: "agents_ok s" and k: "map_of (cs_agents s) k \<noteq> None"
  have "set (AList.update n u m) \<subseteq> insert (n, u) (set m)" for n and u :: uncertainCreate and m by (induction m) auto
  then have "(n, u) \<in> set (cs_uncertainCreates (retainUncertainCreate q k s)) \<Longrightarrow> map_of (cs_agents s) (uc_agentID u) \<noteq> None" for n u
    using agents_okD(8) [OF ok] k by (fastforce simp: retainUncertainCreate_def split: if_splits)
  then show ?thesis
    by (intro fewer_slots_ok [OF ok]) (use agents_okD(2,7) [OF ok] in auto)
qed

text \<open>The loop over the uncertain creations; its Agents are registered throughout.\<close>

lemma release_uncertain_ok:
  fixes n run :: string and g :: "64 word" and cl :: "string list"
  assumes ok: "agents_ok s" and k: "map_of (cs_agents s) (uc_agentID u) \<noteq> None"
  defines "s' \<equiv> release_uncertain run g cl (n, u) s"
  shows "agents_ok s' \<and> dom (map_of (cs_agents s')) = dom (map_of (cs_agents s))
    \<and> cs_nodes s' = cs_nodes s \<and> cs_activeNodeIDs s' = cs_activeNodeIDs s"
proof -
  let ?k = "uc_agentID u"
  obtain a where a: "map_of (cs_agents s) ?k = Some a" using k by auto
  define s1 where "s1 = (if mget [] (cs_reservations s) n = ?k
    then put_agent ?k (a\<lparr>ag_ActiveNodes := max 0 (ag_ActiveNodes a - 1)\<rparr>) (s\<lparr>cs_reservations := AList.delete n (cs_reservations s)\<rparr>) else s)"
  have s': "s' = s \<or> s' = s1\<lparr>cs_uncertainCreates := AList.delete n (cs_uncertainCreates s1)\<rparr>"
    using a by (simp add: s'_def release_uncertain_def s1_def Let_def)
  have ok1: "agents_ok s1"
  proof (cases "mget [] (cs_reservations s) n = ?k")
    case True
    then have "map_of (cs_reservations s) n = Some ?k" using agents_okD(4) [OF ok a] by (auto simp: mget_def split: option.splits)
    then show ?thesis
      by (rule release_slot_ok [OF ok a, where x = "max 0 (ag_ActiveNodes a - 1)"])
        (simp_all add: s1_def True put_agent_def settings_eq_def max_def)
  qed (simp add: s1_def ok)
  have ok2: "agents_ok (s1\<lparr>cs_uncertainCreates := AList.delete n (cs_uncertainCreates s1)\<rparr>)"
    by (intro fewer_slots_ok [OF ok1]) (use agents_okD(2,7,8) [OF ok1] in \<open>auto simp: settings_eq_def dest!: subsetD [OF delete_subset]\<close>)
  have "dom (map_of (cs_agents s1)) = dom (map_of (cs_agents s))" "cs_nodes s1 = cs_nodes s" "cs_activeNodeIDs s1 = cs_activeNodeIDs s"
    using a by (auto simp: s1_def put_agent_def update_conv')
  then show ?thesis using s' ok ok2 by (elim disjE) simp_all
qed

lemma release_uncertain_fold:
  fixes run :: string and g :: "64 word" and cl :: "string list"
  assumes "agents_ok s" "\<And>n u. (n, u) \<in> set es \<Longrightarrow> map_of (cs_agents s) (uc_agentID u) \<noteq> None"
  defines "s' \<equiv> fold (release_uncertain run g cl) es s"
  shows "agents_ok s' \<and> cs_nodes s' = cs_nodes s \<and> cs_activeNodeIDs s' = cs_activeNodeIDs s"
  using assms(1,2) unfolding s'_def
proof (induction es arbitrary: s)
  case (Cons e es)
  obtain n u where e: "e = (n, u)" by (cases e)
  define t where "t = release_uncertain run g cl (n, u) s"
  have t: "agents_ok t" "dom (map_of (cs_agents t)) = dom (map_of (cs_agents s))" "cs_nodes t = cs_nodes s" "cs_activeNodeIDs t = cs_activeNodeIDs s"
    using release_uncertain_ok [OF Cons.prems(1), of u run g cl n] Cons.prems(2) [of n u] by (simp_all add: e t_def)
  have "map_of (cs_agents t) (uc_agentID u') \<noteq> None" if "(n', u') \<in> set es" for n' u'
    using Cons.prems(2) [of n' u'] that t(2) by (simp add: domIff set_eq_iff)
  from Cons.IH [OF t(1) this] show ?case using t(3,4) by (simp add: e t_def)
qed simp

lemma releaseUncertainCreates_ok:
  fixes run :: string and g :: "64 word" and cl :: "string list"
  assumes "agents_ok s"
  defines "s' \<equiv> releaseUncertainCreates run g cl s"
  shows "agents_ok s' \<and> cs_nodes s' = cs_nodes s \<and> cs_activeNodeIDs s' = cs_activeNodeIDs s"
  unfolding s'_def releaseUncertainCreates_def by (rule release_uncertain_fold [OF assms(1) agents_okD(8) [OF assms(1)]])

lemma registry_ok_frame:
  assumes "registry_ok s" "agents_ok s'" "cs_nodes s' = cs_nodes s" "cs_activeNodeIDs s' = cs_activeNodeIDs s"
  shows "registry_ok s'" "nodes_evolve s s'"
  using assms by (simp_all add: registry_ok_def nodes_ok_cong [of s' s] nodes_evolve_refl)

lemma markStopping_ok:
  assumes ok: "registry_ok s"
  shows "registry_ok (markNodeStoppingAndReleaseCapacity now n s) \<and> nodes_evolve s (markNodeStoppingAndReleaseCapacity now n s)"
proof -
  define s1 where "s1 = (case map_of (cs_nodes s) n of
      Some node \<Rightarrow> if node_running node then setNodeLocked (node\<lparr>no_State := NodeStopping, no_LastSeen := now\<rparr>) s else s | None \<Rightarrow> s)"
  have m: "markNodeStoppingAndReleaseCapacity now n s = s1\<lparr>cs_reservations := AList.delete n (cs_reservations s1)\<rparr>"
    by (simp add: markNodeStoppingAndReleaseCapacity_def s1_def Let_def)
  have nodes: "nodes_ok s" and ag: "agents_ok s" using ok by (simp_all add: registry_ok_def)
  have "evolves old (node\<lparr>no_State := NodeStopping, no_LastSeen := now\<rparr>)"
    if "map_of (cs_nodes s) n = Some node" "node_running node" "map_of (cs_nodes s) (no_ID node) = Some old" for node old
  proof -
    have "old = node" using nodes that by (auto simp: nodes_ok_def)
    then show ?thesis using that(2) confirmed_not_running by (auto simp: evolves_def node_running_def)
  qed
  then have s1: "nodes_ok s1" "nodes_evolve s s1" "nodes_only s s1"
    using nodes by (auto simp: s1_def setNodeLocked_ok nodes_evolve_refl intro!: setNodeLocked_evolve split: option.split)
  have a1: "agents_ok s1" using ag agents_ok_nodes_only [OF s1(3)] by simp
  have "agents_ok (s1\<lparr>cs_reservations := AList.delete n (cs_reservations s1)\<rparr>)"
    by (intro fewer_slots_ok [OF a1]) (use delete_slot [OF a1, of n] agents_okD(8) [OF a1] in \<open>auto simp: settings_eq_def\<close>)
  then show ?thesis using s1 unfolding m by (simp add: registry_ok_def nodes_ok_def nodes_evolve_def)
qed

lemma recordCreated_ok:
  assumes ok: "registry_ok s"
  shows "registry_ok (fst (recordCreatedNode lb enc now q k n t s)) \<and> nodes_evolve s (fst (recordCreatedNode lb enc now q k n t s))"
proof -
  let ?n = "created_node lb enc now q k n"
  have nodes: "nodes_ok s" and ag: "agents_ok s" using ok by (simp_all add: registry_ok_def)
  have run: "evolves c ?n" if "node_running c" for c
    using that confirmed_not_running by (auto simp: evolves_def node_running_def)
  have "fst (recordCreatedNode lb enc now q k n t s) = s \<or> fst (recordCreatedNode lb enc now q k n t s) = setNodeLocked ?n s
      \<and> (\<forall>c. map_of (cs_nodes s) (no_ID ?n) = Some c \<longrightarrow> node_running c)"
    by (auto simp: recordCreatedNode_def Let_def split: option.split)
  then show ?thesis
  proof
    assume "fst (recordCreatedNode lb enc now q k n t s) = s"
    then show ?thesis using ok by (simp add: nodes_evolve_refl)
  next
    assume *: "fst (recordCreatedNode lb enc now q k n t s) = setNodeLocked ?n s \<and> (\<forall>c. map_of (cs_nodes s) (no_ID ?n) = Some c \<longrightarrow> node_running c)"
    have "agents_ok (setNodeLocked ?n s)" using ag agents_ok_nodes_only [OF setNodeLocked_only] by blast
    then show ?thesis using * run setNodeLocked_ok [OF nodes] setNodeLocked_evolve by (auto simp: registry_ok_def)
  qed
qed

subsection \<open>Steps\<close>

text \<open>
  The contract every operation of the registry meets, and what it means for the users of the registry.
\<close>

locale registry_operation =
  fixes guard :: "registry \<Rightarrow> bool" and oper :: "registry \<Rightarrow> registry"
  assumes oper_ok: "registry_ok s \<Longrightarrow> guard s \<Longrightarrow> registry_ok (oper s) \<and> nodes_evolve s (oper s)"
begin

lemma step_ok: "registry_ok s \<Longrightarrow> guard s \<Longrightarrow> registry_ok (oper s) \<and> nodes_evolve s (oper s)"
  by (rule oper_ok)

text \<open>Evidence of a failure stays as it was recorded.\<close>

lemma evidence_kept:
  "registry_ok s \<Longrightarrow> guard s \<Longrightarrow> map_of (cs_nodes s) k = Some n \<Longrightarrow> confirmed_failure n \<Longrightarrow> map_of (cs_nodes (oper s)) k = Some n"
  using oper_ok unfolding nodes_evolve_def evolves_def by metis

end

interpretation registering: registry_operation "\<lambda>_. True" "\<lambda>s. fst (registerAgent now fresh a s)" for now fresh a
  by unfold_locales (rule registerAgent_ok)

interpretation beating: registry_operation "\<lambda>_. True" "\<lambda>s. fst (heartbeat now fresh h s)" for now fresh h
  by unfold_locales (rule heartbeat_ok)

interpretation staling: registry_operation "\<lambda>_. True" "markStaleAgents now maxAge" for now maxAge
  by unfold_locales (use registry_ok_frame stale_agents_ok in \<open>simp add: registry_ok_def\<close>)

interpretation reserving: registry_operation "\<lambda>_. True" "\<lambda>s. fst (tryReserveAgentWithPlacement now n target r s)" for now n target r
  by unfold_locales (use registry_ok_frame tryReserve_ok in \<open>simp add: registry_ok_def\<close>)

interpretation releasing: registry_operation "\<lambda>_. True" "releaseReservation n" for n
  by unfold_locales (use registry_ok_frame releaseReservation_ok in \<open>simp add: registry_ok_def\<close>)

interpretation deferring: registry_operation "\<lambda>_. True" "deferAgentAdmission now a after" for now a after
  by unfold_locales (use registry_ok_frame defer_ok in \<open>simp add: registry_ok_def\<close>)

interpretation stopping: registry_operation "\<lambda>_. True" "markNodeStoppingAndReleaseCapacity now n" for now n
  by unfold_locales (rule markStopping_ok)

interpretation recording: registry_operation "\<lambda>_. True" "\<lambda>s. fst (recordCreatedNode lb enc now q k n t s)" for lb enc now q k n t
  by unfold_locales (rule recordCreated_ok)

interpretation retaining: registry_operation "\<lambda>s. map_of (cs_agents s) k \<noteq> None" "retainUncertainCreate q k" for k q
  by unfold_locales (use registry_ok_frame retain_ok in \<open>simp add: registry_ok_def\<close>)

interpretation settling: registry_operation "\<lambda>_. True" "releaseUncertainCreates run g cl" for run g cl
  by unfold_locales (use registry_ok_frame releaseUncertainCreates_ok in \<open>simp add: registry_ok_def\<close>)

text \<open>The settings an operator may store: the overrides of the other Agents stay.\<close>

definition capacity_edit :: "string \<Rightarrow> int gomap \<Rightarrow> registry \<Rightarrow> bool" where
  "capacity_edit k capacities s \<longleftrightarrow> map_of (cs_agents s) k \<noteq> None
     \<and> (capacities = AList.delete k (cs_agentCapacityOverrides s) \<or> (\<exists>c>0. capacities = AList.update k c (cs_agentCapacityOverrides s)))"

interpretation resizing: registry_operation "capacity_edit k capacities" "commit_capacity fresh k capacities" for k capacities fresh
proof unfold_locales
  fix s assume ok: "registry_ok s" and g: "capacity_edit k capacities s"
  then obtain a where "map_of (cs_agents s) k = Some a" by (auto simp: capacity_edit_def)
  moreover have "mget 0 capacities j = mget 0 (cs_agentCapacityOverrides s) j" if "j \<noteq> k" for j
    using g that by (auto simp: capacity_edit_def map_rules)
  ultimately have "agents_ok (commit_capacity fresh k capacities s)" using ok commit_capacity_ok by (simp add: registry_ok_def)
  then show "registry_ok (commit_capacity fresh k capacities s) \<and> nodes_evolve s (commit_capacity fresh k capacities s)"
    using registry_ok_frame [OF ok] by simp
qed

interpretation enabling: registry_operation "\<lambda>s. map_of (cs_agents s) k \<noteq> None \<and> cs_agentAvailabilityErr s = None" "commit_enabled k enabled"
  for k enabled
  by unfold_locales (use registry_ok_frame commit_enabled_ok in \<open>auto simp: registry_ok_def\<close>)

interpretation hosting: registry_operation "\<lambda>_. True" "\<lambda>s. fst (setHostDisabled valid saved host disabled s)" for valid saved host disabled
  by unfold_locales (use registry_ok_frame host_disabled_ok in \<open>simp add: registry_ok_def\<close>)

inductive registry_step :: "registry \<Rightarrow> registry \<Rightarrow> bool" where
  Register: "registry_step s (fst (registerAgent now fresh a s))"
| Heartbeat: "registry_step s (fst (heartbeat now fresh h s))"
| Stale: "registry_step s (markStaleAgents now maxAge s)"
| Reserve: "registry_step s (fst (tryReserveAgentWithPlacement now n target r s))"
| Release: "registry_step s (releaseReservation n s)"
| Defer: "registry_step s (deferAgentAdmission now a after s)"
| Stopping: "registry_step s (markNodeStoppingAndReleaseCapacity now n s)"
| Created: "registry_step s (fst (recordCreatedNode lb enc now q k n t s))"
| Retain: "map_of (cs_agents s) k \<noteq> None \<Longrightarrow> registry_step s (retainUncertainCreate q k s)"
| Settle: "registry_step s (releaseUncertainCreates run g cl s)"
| Resize: "capacity_edit k capacities s \<Longrightarrow> registry_step s (commit_capacity fresh k capacities s)"
| Enable: "map_of (cs_agents s) k \<noteq> None \<Longrightarrow> cs_agentAvailabilityErr s = None \<Longrightarrow> registry_step s (commit_enabled k enabled s)"
| Host: "registry_step s (fst (setHostDisabled valid saved host disabled s))"

inductive registry_reach :: "registry \<Rightarrow> registry \<Rightarrow> bool" for s where
  Refl: "registry_reach s s"
| Step: "registry_reach s s' \<Longrightarrow> registry_step s' s'' \<Longrightarrow> registry_reach s s''"

lemma registry_step_ok: "registry_step s s' \<Longrightarrow> registry_ok s \<Longrightarrow> registry_ok s' \<and> nodes_evolve s s'"
proof (induction rule: registry_step.induct)
  case (Retain s k q) then show ?case by (intro retaining.step_ok)
next
  case (Resize k c s f) then show ?case by (intro resizing.step_ok)
next
  case (Enable s k e) then show ?case by (intro enabling.step_ok) simp_all
qed (rule registering.step_ok beating.step_ok staling.step_ok reserving.step_ok releasing.step_ok deferring.step_ok stopping.step_ok
    recording.step_ok settling.step_ok hosting.step_ok; simp)+

lemma registry_reach_ok: "registry_reach s s' \<Longrightarrow> registry_ok s \<Longrightarrow> registry_ok s' \<and> nodes_evolve s s'"
proof (induction rule: registry_reach.induct)
  case Refl
  then show ?case by (simp add: nodes_evolve_refl)
next
  case (Step s' s'')
  then show ?case using registry_step_ok nodes_evolve_trans by blast
qed

lemma newState_ok: "registry_ok (newState ov se da dh ae)"
  by (simp add: registry_ok_def nodes_ok_def agents_ok_def newState_def)

lemma reachable_ok: "registry_reach (newState ov se da dh ae) s \<Longrightarrow> registry_ok s"
  using registry_reach_ok newState_ok by blast

subsection \<open>Agents stay registered\<close>

definition agents_kept :: "registry \<Rightarrow> registry \<Rightarrow> bool" where
  "agents_kept s s' \<longleftrightarrow> dom (map_of (cs_agents s)) \<subseteq> dom (map_of (cs_agents s'))"

lemma agents_kept_refl: "cs_agents s' = cs_agents s \<Longrightarrow> agents_kept s s'"
  by (simp add: agents_kept_def)

lemma agents_kept_put: "cs_agents s' = cs_agents s \<Longrightarrow> agents_kept s (put_agent k a s')"
  by (auto simp: agents_kept_def put_agent_def update_conv')

lemma agents_kept_trans: "agents_kept a b \<Longrightarrow> agents_kept b c \<Longrightarrow> agents_kept a c"
  by (auto simp: agents_kept_def)

lemma agents_keptD: "agents_kept s s' \<Longrightarrow> map_of (cs_agents s) k \<noteq> None \<Longrightarrow> map_of (cs_agents s') k \<noteq> None"
  by (auto simp: agents_kept_def)

lemma fold_agents: "(\<And>e s. cs_agents (f e s) = cs_agents s) \<Longrightarrow> cs_agents (fold f es s) = cs_agents s"
  by (induction es arbitrary: s) simp_all

lemma setNodeLocked_agents [simp]: "cs_agents (setNodeLocked n s) = cs_agents s"
  by (simp add: setNodeLocked_def Let_def)

lemma register_kept: "agents_kept s (fst (registerAgent now fresh a s))"
proof -
  have "cs_agents (fold (fail_restarted now k) es s) = cs_agents s" for now k es s
    by (rule fold_agents) (simp add: fail_restarted_def Let_def)
  then have "cs_agents (fst (register_as now p r b s)) = cs_agents s" for now p r b s
    by (simp add: register_as_def restart_agent_def Let_def split: option.split)
  then have "agents_kept s (fst (admit_agent now fresh t p r b s))" for now t p r b s
    by (auto simp: admit_agent_def observeAgentCapacityLocked_def Let_def case_prod_beta intro!: agents_kept_put)
  then show ?thesis by (simp add: registerAgent_def Let_def case_prod_beta agents_kept_refl split: option.split)
qed

lemma heartbeat_kept: "agents_kept s (fst (heartbeat now fresh h s))"
proof -
  have sweep: "cs_agents (fold (sweep_node now k seen) es s) = cs_agents s" for now k seen es s
    by (rule fold_agents) (simp add: sweep_node_def Let_def)
  have "cs_agents (fst (fold (report_node now t k) ns c)) = cs_agents (fst c)" for now t k ns c
    by (induction ns arbitrary: c) (simp_all add: report_node_def Let_def case_prod_beta)
  then have "agents_kept s (apply_report now fresh h previous stale seen s)" for previous stale seen
    by (auto simp: apply_report_def observeAgentCapacityLocked_def Let_def case_prod_beta sweep intro!: agents_kept_put)
  then show ?thesis by (simp add: heartbeat_def Let_def agents_kept_refl split: option.split sum.split)
qed

lemma reserve_kept: "agents_kept s (fst (tryReserveAgentWithPlacement now n target r s))"
proof -
  have "agents_kept s (drop_reservation n k s)" for s n k
    by (auto simp: drop_reservation_def Let_def agents_kept_refl intro!: agents_kept_put split: option.split)
  moreover have "agents_kept s (fst (reserve_new now n target r s))" for s
    by (auto simp: reserve_new_def Let_def agents_kept_def put_agent_def update_conv' split: option.split prod.split)
  ultimately have "agents_kept s (fst (reserve_new now n target r (drop_reservation n k s)))" "agents_kept s (fst (reserve_new now n target r s))" for k
    using agents_kept_trans by blast+
  then show ?thesis by (simp add: tryReserveAgentWithPlacement_def agents_kept_refl split: option.split)
qed

lemma settle_kept: "agents_kept s (releaseUncertainCreates run g cl s)"
proof -
  have step: "agents_kept s (release_uncertain run g cl e s)" for e s
    by (auto simp: release_uncertain_def Let_def agents_kept_def put_agent_def update_conv')
  have "agents_kept s (fold (release_uncertain run g cl) es s)" for es s
    by (induction es arbitrary: s) (auto simp: agents_kept_refl intro: agents_kept_trans step)
  then show ?thesis by (simp add: releaseUncertainCreates_def)
qed

lemma registry_step_kept: "registry_step s s' \<Longrightarrow> agents_kept s s'"
proof (induction rule: registry_step.induct)
  case (Host s v sv h d)
  then show ?case by (auto simp: setHostDisabled_def Let_def agents_kept_def map_of_map_snd split: option.split)
next
  case (Stale s now m)
  then show ?case by (auto simp: markStaleAgents_def agents_kept_def map_of_map_snd)
next
  case (Created s lb enc now q k n t)
  then show ?case by (intro agents_kept_refl) (simp add: recordCreatedNode_def Let_def split: option.split)
next
  case (Stopping s now n)
  then show ?case by (intro agents_kept_refl) (simp add: markNodeStoppingAndReleaseCapacity_def Let_def split: option.split)
next
  case (Release s n)
  then show ?case by (auto simp: releaseReservation_def Let_def agents_kept_refl intro!: agents_kept_put split: option.split)
next
  case (Defer s now a after)
  then show ?case by (intro agents_kept_refl) (simp add: deferAgentAdmission_def split: option.split)
next
  case (Resize k c s f)
  then show ?case by (auto simp: commit_capacity_def Let_def intro!: agents_kept_put)
next
  case (Enable s k e)
  then show ?case by (auto simp: commit_enabled_def Let_def intro!: agents_kept_put)
qed (simp_all add: register_kept heartbeat_kept reserve_kept settle_kept agents_kept_refl)

end
