(* ===== verification/Placement_Correct.thy ===== *)
theory Placement_Correct
  imports Registry_Machine "HOL-Library.Multiset"
begin

text \<open>
  The properties of the registry over all its runs, and of placement: the chosen Agent is the best of the admissible ones,
  whatever the iteration order of the map.
\<close>

subsection \<open>The balanced order\<close>

lemma f_eq_iff: "x \<noteq> NaN \<Longrightarrow> f_eq x y \<longleftrightarrow> x = y"
  by (cases x; cases y) auto

lemma f_lt_irrefl [simp]: "\<not> f_lt x x"
  by (cases x) auto

lemma f_lt_trans: "f_lt x y \<Longrightarrow> f_lt y z \<Longrightarrow> f_lt x z"
  by (cases x; cases y; cases z) auto

lemma f_lt_total: "x \<noteq> NaN \<Longrightarrow> y \<noteq> NaN \<Longrightarrow> x \<noteq> y \<Longrightarrow> f_lt x y \<or> f_lt y x"
  by (cases x; cases y) auto

lemma f64_round_not_NaN [simp]: "f64_round x \<noteq> NaN"
  by (simp add: f64_round_def Let_def)

definition ranked :: "Agent \<Rightarrow> bool" where
  "ranked a \<longleftrightarrow> utilization a 0 \<noteq> NaN \<and> utilization a 1 \<noteq> NaN"

lemma balanced_iff:
  "ranked a \<Longrightarrow> balancedAgentBefore a b \<longleftrightarrow> f_lt (utilization a 1) (utilization b 1)
     \<or> utilization a 1 = utilization b 1 \<and> (f_lt (utilization a 0) (utilization b 0) \<or> utilization a 0 = utilization b 0 \<and> ag_ID a < ag_ID b)"
  by (auto simp: balancedAgentBefore_def ranked_def f_eq_iff)

lemma balanced_trans:
  assumes "ranked a" "ranked b" "ranked c" "balancedAgentBefore a b" "balancedAgentBefore b c"
  shows "balancedAgentBefore a c"
  using assms(4,5) unfolding balanced_iff [OF assms(1)] balanced_iff [OF assms(2)]
  by (elim disjE conjE) (auto dest: f_lt_trans less_trans)

lemma balanced_total: "ranked a \<Longrightarrow> ranked b \<Longrightarrow> ag_ID a \<noteq> ag_ID b \<Longrightarrow> balancedAgentBefore a b \<or> balancedAgentBefore b a"
  using f_lt_total unfolding balancedAgentBefore_def ranked_def by (auto simp: f_eq_iff)

lemma balanced_irrefl: "ranked a \<Longrightarrow> \<not> balancedAgentBefore a a"
  unfolding balancedAgentBefore_def ranked_def by (simp add: f_eq_iff)

text \<open>Counters below \<open>2 ^ 52\<close> are exact as floats, so the utilizations are numbers.\<close>

lemma small_ranked:
  assumes "0 \<le> ag_ActiveNodes a" "ag_ActiveNodes a < 2 ^ 52" "ag_Capacity a < 2 ^ 52"
  shows "ranked a"
proof -
  have fl: "float_of z = Fin (of_nat (nat z))" if "0 \<le> z" "z < 2 ^ 52" for z
  proof -
    have "nat z < 2 ^ 53" using that by (simp add: nat_less_iff)
    then show ?thesis using f64_round_nat [of "nat z"] that(1) by (simp add: float_of_def)
  qed
  have one: "float_of 0 = Fin 0" "float_of 1 = Fin 1" using fl [of 0] fl [of 1] by simp_all
  have occ: "\<exists>q. f_add (float_of (ag_ActiveNodes a)) (float_of d) = Fin q" if "d = 0 \<or> d = 1" for d :: int
  proof -
    have "nat (ag_ActiveNodes a) + 1 < 2 ^ 53" using assms(1,2) by (simp add: nat_less_iff)
    then have "f64_round (of_nat (nat (ag_ActiveNodes a))) = Fin (of_nat (nat (ag_ActiveNodes a)))"
      "f64_round (of_nat (nat (ag_ActiveNodes a) + 1)) = Fin (of_nat (nat (ag_ActiveNodes a) + 1))"
      using f64_round_nat by (metis add_lessD1, metis)
    then show ?thesis using that fl [OF assms(1,2)] one by (auto simp: add.commute)
  qed
  have "utilization a d \<noteq> NaN" if "d = 0 \<or> d = 1" for d :: int
  proof -
    from occ [OF that] obtain q where q: "f_add (float_of (ag_ActiveNodes a)) (float_of d) = Fin q" ..
    show ?thesis
    proof (cases "ag_Capacity a \<le> 0")
      case False
      then show ?thesis using fl [of "ag_Capacity a"] assms(3) by (simp add: utilization_def q)
    qed (simp add: utilization_def q)
  qed
  then show ?thesis by (simp add: ranked_def)
qed

lemma fold_better:
  assumes "ranked b" "\<forall>a\<in>set as. ranked a" "distinct (ag_ID b # map ag_ID as)"
  shows "\<exists>m. fold better_agent as (Some b) = Some m \<and> m \<in> set (b # as) \<and> (\<forall>c\<in>set (b # as). c \<noteq> m \<longrightarrow> balancedAgentBefore m c)"
  using assms
proof (induction "as" arbitrary: b)
  case (Cons a as)
  define b' where "b' = (if balancedAgentBefore a b then a else b)"
  define lose where "lose = (if balancedAgentBefore a b then b else a)"
  have r: "ranked a" "ranked b" using Cons.prems by simp_all
  have pair: "{a, b} = {b', lose}" "balancedAgentBefore b' lose"
    using balanced_total [OF r] Cons.prems(3) by (auto simp: b'_def lose_def)
  have "ranked b'" "distinct (ag_ID b' # map ag_ID as)" using Cons.prems by (auto simp: b'_def)
  then obtain m where m: "fold better_agent as (Some b') = Some m" "m \<in> set (b' # as)"
    "\<forall>c\<in>set (b' # as). c \<noteq> m \<longrightarrow> balancedAgentBefore m c"
    using Cons.IH [of b'] Cons.prems(2) by auto
  have rm: "ranked m" "ranked b'" "ranked lose" using m(2) Cons.prems r by (auto simp: b'_def lose_def)
  have "balancedAgentBefore m lose"
  proof (cases "m = b'")
    case False
    then have "balancedAgentBefore m b'" using m(3) by simp
    then show ?thesis using balanced_trans [OF rm] pair(2) by blast
  qed (simp add: pair(2))
  moreover have "fold better_agent (a # as) (Some b) = Some m" using m(1) by (simp add: better_agent_def b'_def split: if_splits)
  moreover have "set (b # a # as) = insert lose (set (b' # as))" using pair(1) by auto
  ultimately show ?case using m(2,3) by (intro exI [of _ m]) auto
qed simp

lemma better_least:
  assumes "as \<noteq> []" "\<forall>a\<in>set as. ranked a" "distinct (map ag_ID as)"
  shows "\<exists>m. fold better_agent as None = Some m \<and> m \<in> set as \<and> (\<forall>c\<in>set as. c \<noteq> m \<longrightarrow> balancedAgentBefore m c)"
proof (cases "as")
  case (Cons b bs)
  then show ?thesis using fold_better [of b bs] assms by (simp add: better_agent_def)
qed (simp add: assms)

lemma better_perm:
  assumes "mset xs = mset ys" "\<forall>a\<in>set xs. ranked a" "distinct (map ag_ID xs)"
  shows "fold better_agent xs None = fold better_agent ys None"
proof (cases "xs = []")
  case False
  have ys: "set ys = set xs" "ys \<noteq> []" using assms(1) False mset_eq_setD by (metis, force)
  have "distinct (map ag_ID ys)" using assms(1,3) by (metis mset_eq_imp_distinct_iff mset_map)
  with better_least [of ys] ys assms(2) obtain n where
    n: "fold better_agent ys None = Some n" "n \<in> set xs" "\<forall>c\<in>set xs. c \<noteq> n \<longrightarrow> balancedAgentBefore n c" by auto
  obtain m where
    m: "fold better_agent xs None = Some m" "m \<in> set xs" "\<forall>c\<in>set xs. c \<noteq> m \<longrightarrow> balancedAgentBefore m c"
    using better_least [OF False assms(2,3)] by blast
  have "m = n" using m(2,3) n(2,3) balanced_trans balanced_irrefl assms(2) by metis
  then show ?thesis using m(1) n(1) by simp
qed (use assms in simp)

subsection \<open>Placement\<close>

text \<open>The counters of the registered Agents are exact as floats.\<close>

definition counters_small :: "registry \<Rightarrow> bool" where
  "counters_small s = list_all (\<lambda>(_, a). ag_ActiveNodes a < 2 ^ 52 \<and> ag_Capacity a < 2 ^ 52) (cs_agents s)"

lemma agent_list:
  assumes ok: "agents_ok s" and small: "counters_small s"
  shows "distinct (map ag_ID (map snd (cs_agents s)))" "\<forall>a\<in>set (map snd (cs_agents s)). ranked a"
proof -
  have e: "ag_ID a = k \<and> held (cs_reservations s) k \<le> ag_ActiveNodes a" if "(k, a) \<in> set (cs_agents s)" for k a
    using agents_okD(3,5) [OF ok] wf_map_of_mem [OF agents_okD(1) [OF ok]] that by simp
  then have eq: "map ag_ID (map snd (cs_agents s)) = map fst (cs_agents s)" by (auto simp: map_eq_conv)
  show "distinct (map ag_ID (map snd (cs_agents s)))" unfolding eq using agents_okD(1) [OF ok] by (simp add: wf_map_def)
  have "ranked a" if "(k, a) \<in> set (cs_agents s)" for k a
  proof (rule small_ranked)
    show "0 \<le> ag_ActiveNodes a" using e [OF that] held_nonneg order_trans by blast
    show "ag_ActiveNodes a < 2 ^ 52" "ag_Capacity a < 2 ^ 52" using small that by (auto simp: counters_small_def list_all_iff)
  qed
  then show "\<forall>a\<in>set (map snd (cs_agents s)). ranked a" by auto
qed

lemma agent_mem: "agents_ok s \<Longrightarrow> a \<in> set (map snd (cs_agents s)) \<longleftrightarrow> map_of (cs_agents s) (ag_ID a) = Some a"
proof
  assume ok: "agents_ok s" and "a \<in> set (map snd (cs_agents s))"
  then obtain k where "map_of (cs_agents s) k = Some a" using wf_map_of_mem [OF agents_okD(1) [OF ok]] by auto
  then show "map_of (cs_agents s) (ag_ID a) = Some a" using agents_okD(3) [OF ok] by metis
next
  assume "map_of (cs_agents s) (ag_ID a) = Some a"
  then show "a \<in> set (map snd (cs_agents s))" by (auto dest: map_of_SomeD intro: rev_image_eqI)
qed

lemma select_agent_None:
  "fst (select_agent s now target r) = None \<longleftrightarrow> filter (may_place s now target) (map snd (cs_agents s)) = []"
proof -
  have some: "fold better_agent as (Some b) \<noteq> None" for "as" b by (induction "as" arbitrary: b) (simp_all add: better_agent_def)
  have b: "fold better_agent as None = None \<longleftrightarrow> as = []" for "as"
    using some by (cases "as") (simp_all add: better_agent_def)
  show ?thesis
  proof (cases r)
    case None
    then show ?thesis by (simp add: select_agent_def b)
  next
    case (Some g)
    let ?c = "filter (may_place s now target) (map snd (cs_agents s))"
    show ?thesis
    proof (cases "?c = []")
      case False
      then obtain i g' where "rng_Intn (length ?c) g = Inr (i, g')" using rng_Intn_total by (metis length_greater_0_conv)
      then show ?thesis using Some False by (simp only: select_agent_def Let_def option.case sum.case prod.case if_False fst_conv) simp
    qed (simp add: select_agent_def Some)
  qed
qed

lemma may_place_agents [simp]: "may_place (s\<lparr>cs_agents := as\<rparr>) now target = may_place s now target"
  by (simp add: fun_eq_iff may_place_def deferred_def)

lemma select_agent_perm:
  assumes "agents_ok s" "counters_small s" "mset as = mset (cs_agents s)"
  shows "select_agent (s\<lparr>cs_agents := as\<rparr>) now target r = select_agent s now target r"
proof -
  let ?c = "filter (may_place s now target) (map snd (cs_agents s))"
  let ?d = "filter (may_place s now target) (map snd as)"
  have m: "mset ?d = mset ?c" using assms(3) by (metis mset_filter mset_map)
  have dist: "distinct (map ag_ID ?c)" "\<forall>a\<in>set ?c. ranked a"
    using distinct_map_filter [OF agent_list(1) [OF assms(1,2)]] agent_list(2) [OF assms(1,2)] by auto
  have b: "fold better_agent ?d None = fold better_agent ?c None" using better_perm [OF m [symmetric]] dist by simp
  have inj: "inj_on ag_ID (set ?d)" using dist(1) mset_eq_setD [OF m] by (simp only: distinct_map)
  have sortd: "sort_key ag_ID ?d = sort_key ag_ID ?c"
    by (rule sort_key_inj_key_eq) (use m inj in simp_all)
  have len: "length ?d = length ?c" by (rule mset_eq_length [OF m])
  then have nil: "(?d = []) = (?c = [])" by (metis length_0_conv)
  have "cs_agents (s\<lparr>cs_agents := as\<rparr>) = as" by simp
  then show ?thesis by (simp only: select_agent_def Let_def may_place_agents b sortd len nil)
qed

text \<open>
  C27. Placement of a node. In every reachable state whose node counts and capacities stay below \<open>2 ^ 52\<close>, where \<^verbatim>\<open>float64\<close> is
  exact, an Agent is chosen exactly when one is admissible, and the choice is an
  admissible registered Agent. Without a random source it precedes every other admissible Agent in the balanced order. In
  both cases the choice is the same for every iteration order of the map of Agents.
\<close>

theorem placement_choice:
  assumes "registry_reach (newState overrides err disabled hosts err') s" "counters_small s"
  shows "(fst (select_agent s now target r) = None \<longleftrightarrow> (\<forall>k a. map_of (cs_agents s) k = Some a \<longrightarrow> \<not> may_place s now target a))
    \<and> (\<forall>b. fst (select_agent s now target r) = Some b \<longrightarrow> map_of (cs_agents s) (ag_ID b) = Some b \<and> may_place s now target b
         \<and> (r = None \<longrightarrow> (\<forall>k c. map_of (cs_agents s) k = Some c \<and> may_place s now target c \<and> c \<noteq> b \<longrightarrow> balancedAgentBefore b c)))
    \<and> (\<forall>as. mset as = mset (cs_agents s) \<longrightarrow> select_agent (s\<lparr>cs_agents := as\<rparr>) now target r = select_agent s now target r)"
proof -
  let ?c = "filter (may_place s now target) (map snd (cs_agents s))"
  have ok: "agents_ok s" using reachable_ok [OF assms(1)] by (simp add: registry_ok_def)
  note mem = agent_mem [OF ok]
  have reg: "a \<in> set (map snd (cs_agents s)) \<longleftrightarrow> (\<exists>k. map_of (cs_agents s) k = Some a)" for a
    using mem agents_okD(3) [OF ok] by metis
  have c: "a \<in> set ?c \<longleftrightarrow> map_of (cs_agents s) (ag_ID a) = Some a \<and> may_place s now target a" for a using mem by auto
  have none: "fst (select_agent s now target r) = None \<longleftrightarrow> (\<forall>k a. map_of (cs_agents s) k = Some a \<longrightarrow> \<not> may_place s now target a)"
    unfolding select_agent_None filter_empty_conv using reg by blast
  have some: "map_of (cs_agents s) (ag_ID b) = Some b \<and> may_place s now target b
      \<and> (r = None \<longrightarrow> (\<forall>k c. map_of (cs_agents s) k = Some c \<and> may_place s now target c \<and> c \<noteq> b \<longrightarrow> balancedAgentBefore b c))"
    if sel: "fst (select_agent s now target r) = Some b" for b
  proof -
    have rk: "\<forall>a\<in>set ?c. ranked a" "distinct (map ag_ID ?c)"
      using agent_list(2) [OF ok assms(2)] distinct_map_filter [OF agent_list(1) [OF ok assms(2)]] by auto
    have b: "b \<in> set ?c" using sel by (intro select_agent_mem [of _ _ _ _ _ "snd (select_agent s now target r)"]) (simp add: prod_eq_iff)
    have "balancedAgentBefore b a" if "r = None" "map_of (cs_agents s) k = Some a" "may_place s now target a" "a \<noteq> b" for k a
    proof -
      have "?c \<noteq> []" using b by (metis empty_iff list.set(1))
      moreover have "a \<in> set ?c" using reg that(2,3) by (simp only: set_filter mem_Collect_eq) blast
      moreover have "fold better_agent ?c None = Some b" using sel that(1) by (simp add: select_agent_def)
      ultimately show ?thesis
        using better_least [OF _ rk] that(4) by (metis option.inject)
    qed
    then show ?thesis using b unfolding c by blast
  qed
  show ?thesis
  proof (intro conjI allI impI none)
    fix b assume "fst (select_agent s now target r) = Some b"
    from some [OF this] show "map_of (cs_agents s) (ag_ID b) = Some b" "may_place s now target b"
      "\<And>k c. r = None \<Longrightarrow> map_of (cs_agents s) k = Some c \<and> may_place s now target c \<and> c \<noteq> b \<Longrightarrow> balancedAgentBefore b c"
      by blast+
  qed (rule select_agent_perm [OF ok assms(2)])
qed

subsection \<open>An example\<close>

definition ex_agent :: "string \<Rightarrow> int \<Rightarrow> Agent" where
  "ex_agent k capacity = zero_agent\<lparr>ag_ID := k, ag_URL := ''http://'' @ k, ag_Capacity := capacity, ag_DefaultCapacity := capacity, ag_StartedAt := 5\<rparr>"

definition ex_node :: "string \<Rightarrow> string \<Rightarrow> Node" where
  "ex_node k st = \<lparr>no_ScoreSample = None, no_ID = k, no_RunID = ''run'', no_Generation = 2, no_AgentID = [], no_Group = [], no_Role = [],
     no_Type = [], no_Profile = [], no_PeerID = [], no_State = st, no_Addresses = [], no_ConnectedPeers = [], no_RoutingPeers = [],
     no_MeshPeers = [], no_OverlayObservedAt = 0, no_TopicPeers = [], no_PeerScores = [], no_Metadata = Some [], no_StartedAt = 7,
     no_LastSeen = 9, no_Error = []\<rparr>"

definition ex_request :: "string \<Rightarrow> CreateNodeRequest" where
  "ex_request k = \<lparr>cq_AgentStartedAt = 0, cq_PeerNetworkID = [], cq_NetworkMutable = False, cq_ProfileRevision = 0, cq_ExperimentStartedAt = 0,
     cq_ID = k, cq_RunID = ''run'', cq_Generation = 2, cq_Group = ''g'', cq_Role = ''peer'', cq_Type = ''full'', cq_Profile = [], cq_Seed = 3,
     cq_Config = zero_node, cq_Lifetime = []\<rparr>"

definition ex_start :: registry where "ex_start = newState [] None [] [] None"

definition ex_two :: registry where
  "ex_two = fst (registerAgent 100 ''r2'' (ex_agent ''b'' 4) (fst (registerAgent 90 ''r1'' (ex_agent ''a'' 2) ex_start)))"

lemma ex_two_reach: "registry_reach (newState [] None [] [] None) ex_two"
  unfolding ex_two_def ex_start_def by (rule registry_reach.Step [OF registry_reach.Step [OF registry_reach.Refl]]) (rule registry_step.Register)+

lemma ex_two_small: "counters_small ex_two"
  by code_simp

lemma ex_two_place: "ptr_is (may_place ex_two 100 []) (map_of (cs_agents ex_two) ''a'')"
  by code_simp

theorem placement_choice_witness:
  "select_agent (ex_two\<lparr>cs_agents := rev (cs_agents ex_two)\<rparr>) 100 [] None = select_agent ex_two 100 [] None
    \<and> fst (select_agent ex_two 100 [] None) \<noteq> None"
proof -
  obtain a where "map_of (cs_agents ex_two) ''a'' = Some a" "may_place ex_two 100 [] a"
    using ex_two_place by (cases "map_of (cs_agents ex_two) ''a''") auto
  then show ?thesis using placement_choice [OF ex_two_reach ex_two_small, of 100 "[]" None] mset_rev by metis
qed

text \<open>Two nodes are recorded, one of them is stopped and then reported as ready again.\<close>

definition ex_create :: "string \<Rightarrow> int \<Rightarrow> registry \<Rightarrow> registry" where
  "ex_create k seen s = fst (recordCreatedNode ex_lib (\<lambda>_. []) 60 (ex_request k) ''a'' ((ex_node k ''ready'')\<lparr>no_LastSeen := seen\<rparr>) None s)"

definition ex_stopping :: registry where
  "ex_stopping = markNodeStoppingAndReleaseCapacity 70 ''n'' (ex_create ''n'' 40 (ex_create ''m'' 40 ex_start))"

lemma ex_stopping_reach: "registry_reach (newState [] None [] [] None) ex_stopping"
  unfolding ex_stopping_def ex_create_def ex_start_def
  by (rule registry_reach.Step [OF registry_reach.Step [OF registry_reach.Step [OF registry_reach.Refl]]])
    (rule registry_step.Created registry_step.Stopping)+

lemmas create_eval = ex_create_def recordCreatedNode_def created_node_def Let_def ex_node_def ex_request_def ex_start_def newState_def
  firstNonEmpty_def IsZero_def setNodeLocked_def nodeHasLiveState_def node_state_defs node_running_def

lemma ex_stopping_nodes: "map_option no_State (map_of (cs_nodes ex_stopping) ''n'') = Some NodeStopping" "cs_activeNodeIDs ex_stopping = Some [''n'', ''m'']"
  by (simp_all add: ex_stopping_def markNodeStoppingAndReleaseCapacity_def create_eval)

subsection \<open>Properties of every run\<close>

text \<open>
  C28. The index of active nodes. In every reachable state the iterator over active nodes yields exactly the recorded nodes that are
  neither stopped nor failed, each once, and the index, once built, holds exactly their identifiers.
\<close>

theorem registry_active_index:
  assumes "registry_reach (newState overrides err disabled hosts err') s"
  shows "distinct (map no_ID (activeNodesLocked s))
    \<and> (\<forall>n. n \<in> set (activeNodesLocked s) \<longleftrightarrow> map_of (cs_nodes s) (no_ID n) = Some n \<and> nodeHasLiveState n)
    \<and> (\<forall>ids. cs_activeNodeIDs s = Some ids \<longrightarrow> distinct ids \<and> (\<forall>k. k \<in> set ids \<longleftrightarrow> (\<exists>n. map_of (cs_nodes s) k = Some n \<and> nodeHasLiveState n)))"
proof -
  have ok: "nodes_ok s" using reachable_ok [OF assms] by (simp add: registry_ok_def)
  show ?thesis using activeNodesLocked_live [OF ok] ok unfolding nodes_ok_def by blast
qed

theorem registry_active_index_witness:
  "distinct (map no_ID (activeNodesLocked ex_stopping)) \<and> (\<exists>n. map_of (cs_nodes ex_stopping) ''m'' = Some n \<and> nodeHasLiveState n)"
  using registry_active_index [OF ex_stopping_reach] ex_stopping_nodes(2) by auto

text \<open>
  C25. The life of a node. Between any two states of a run a node's record never disappears. A failure whose cleanup is confirmed
  is never altered. A stopped node stays stopped, or becomes a confirmed failure. A node that has begun to stop, has stopped or has
  failed never runs again, whatever late, repeated or reordered reports arrive.
\<close>

theorem node_lifecycle:
  assumes "registry_reach (newState overrides err disabled hosts err') s" "registry_reach s s'" "map_of (cs_nodes s) k = Some n"
  shows "\<exists>n'. map_of (cs_nodes s') k = Some n' \<and> no_ID n' = k \<and> (confirmed_failure n \<longrightarrow> n' = n)
    \<and> (no_State n = NodeStopped \<longrightarrow> no_State n' = NodeStopped \<or> confirmed_failure n') \<and> (\<not> node_running n \<longrightarrow> \<not> node_running n')"
proof -
  have r: "registry_ok s' \<and> nodes_evolve s s'" using registry_reach_ok [OF assms(2)] reachable_ok [OF assms(1)] by blast
  then obtain n' where n': "map_of (cs_nodes s') k = Some n'" "evolves n n'" using assms(3) by (auto simp: nodes_evolve_def)
  then have "no_ID n' = k" using r by (auto simp: registry_ok_def nodes_ok_def)
  then show ?thesis using n' unfolding evolves_def by blast
qed

theorem node_lifecycle_witness:
  "\<exists>n'. map_of (cs_nodes (ex_create ''n'' 90 ex_stopping)) ''n'' = Some n' \<and> \<not> node_running n'"
proof -
  obtain n where n: "map_of (cs_nodes ex_stopping) ''n'' = Some n" "no_State n = NodeStopping" using ex_stopping_nodes(1) by auto
  have "registry_reach ex_stopping (ex_create ''n'' 90 ex_stopping)"
    unfolding ex_create_def by (rule registry_reach.Step [OF registry_reach.Refl registry_step.Created])
  from node_lifecycle [OF ex_stopping_reach this n(1)] show ?thesis using n(2) by (auto simp: node_running_def)
qed

lemma reserve_new_grant:
  assumes ok: "agents_ok s" and new: "reserve_new now n target r s = (s', r', Some a)"
  shows "\<exists>b. map_of (cs_agents s) (ag_ID b) = Some b \<and> may_place s now target b \<and> a = b\<lparr>ag_ActiveNodes := ag_ActiveNodes b + 1\<rparr>
      \<and> map_of (cs_reservations s') n = Some (ag_ID a) \<and> map_of (cs_agents s') (ag_ID a) = Some a \<and> settings_eq s s'
      \<and> cs_agentAdmissionUntil s' = cs_agentAdmissionUntil s"
proof -
  obtain b where b: "select_agent s now target r = (Some b, r')" "a = b\<lparr>ag_ActiveNodes := ag_ActiveNodes b + 1\<rparr>"
    "s' = (put_agent (ag_ID b) a s)\<lparr>cs_reservations := AList.update n (ag_ID b) (cs_reservations s)\<rparr>"
    using new by (auto simp: reserve_new_def Let_def put_agent_def split: prod.splits option.splits)
  then have "map_of (cs_agents s) (ag_ID b) = Some b" "may_place s now target b"
    using select_agent_mem [OF b(1)] agent_mem [OF ok] by auto
  then show ?thesis using b by (intro exI [of _ b]) (simp add: put_agent_def map_of_update_if settings_eq_def)
qed

lemma drop_reservation_settings: "settings_eq s (drop_reservation n k s)" "cs_agentAdmissionUntil (drop_reservation n k s) = cs_agentAdmissionUntil s"
  by (simp_all add: drop_reservation_def Let_def put_agent_def settings_eq_def split: option.split)

text \<open>A granted slot is an earlier one that is still usable, or a new one.\<close>

lemma reserve_cases:
  assumes ok: "agents_ok s" and res: "tryReserveAgentWithPlacement now n target r s = (s', r', Some a)"
  obtains (Earlier) "s' = s" "map_of (cs_reservations s) n = Some (ag_ID a)" "map_of (cs_agents s) (ag_ID a) = Some a" "\<not> ag_Disabled a"
      "\<not> deferred s now (ag_ID a)" "agentIsOnline a now" "target = [] \<or> ag_ID a = target"
  | (New) t where "agents_ok t" "settings_eq s t" "cs_agentAdmissionUntil t = cs_agentAdmissionUntil s"
      "reserve_new now n target r t = (s', r', Some a)"
proof (cases "map_of (cs_reservations s) n")
  case None
  show ?thesis by (rule New [of s]) (use None res ok in \<open>simp_all add: tryReserveAgentWithPlacement_def settings_eq_def\<close>)
next
  case (Some k)
  obtain b where b: "map_of (cs_agents s) k = Some b" using agents_okD(7) [OF ok Some] by auto
  have ID: "ag_ID b = k" by (rule agents_okD(3) [OF ok b])
  show ?thesis
  proof (cases "\<not> ag_Disabled b \<and> \<not> deferred s now (ag_ID b)")
    case True
    then have "s' = s" "a = b" "agentIsOnline b now" "target = [] \<or> k = target"
      using res Some b by (auto simp: tryReserveAgentWithPlacement_def split: if_splits)
    then show ?thesis using Earlier True Some b ID by blast
  next
    case False
    show ?thesis
      by (rule New [of "drop_reservation n k s"])
        (use False res Some b drop_reservation_ok(1) [OF ok Some] drop_reservation_settings in \<open>auto simp: tryReserveAgentWithPlacement_def\<close>)
  qed
qed

lemma reserve_spec:
  assumes ok: "agents_ok s" and res: "tryReserveAgentWithPlacement now n target r s = (s', r', Some a)"
  shows "map_of (cs_reservations s') n = Some (ag_ID a) \<and> map_of (cs_agents s') (ag_ID a) = Some a \<and> settings_eq s s' \<and> \<not> ag_Disabled a
    \<and> agentIsOnline a now \<and> \<not> deferred s' now (ag_ID a) \<and> (target \<noteq> [] \<longrightarrow> ag_ID a = target)
    \<and> (map_of (cs_reservations s) n = None \<longrightarrow> 0 < ag_Capacity a \<longrightarrow> ag_ActiveNodes a \<le> ag_Capacity a)"
proof (cases rule: reserve_cases [OF assms])
  case 1
  then show ?thesis by (auto simp: settings_eq_def)
next
  case (2 t)
  from reserve_new_grant [OF 2(1,4)] obtain b where b: "may_place t now target b" "a = b\<lparr>ag_ActiveNodes := ag_ActiveNodes b + 1\<rparr>"
    "map_of (cs_reservations s') n = Some (ag_ID a)" "map_of (cs_agents s') (ag_ID a) = Some a" "settings_eq t s'"
    "cs_agentAdmissionUntil s' = cs_agentAdmissionUntil t" by blast
  then show ?thesis using 2(2) by (auto simp: may_place_def deferred_def settings_eq_def agentIsOnline_def)
qed

text \<open>
  C26. Reservations. In every reachable state a granted slot is on a registered Agent that is online, not deferred and that the
  operator has not disabled, by itself or with its host, and the Agent's count of nodes covers every slot held on it. When the node
  had no slot before, that count is within the limit the operator or the Agent's command line sets, if there is a positive one.
\<close>

theorem reservation_within_limit:
  assumes "registry_reach (newState overrides err disabled hosts err') s"
    and "tryReserveAgentWithPlacement now n target r s = (s', r', Some a)"
  shows "map_of (cs_reservations s') n = Some (ag_ID a) \<and> map_of (cs_agents s') (ag_ID a) = Some a
    \<and> reserved_for s' (ag_ID a) \<le> ag_ActiveNodes a
    \<and> agentIsOnline a now \<and> \<not> deferred s' now (ag_ID a) \<and> (target \<noteq> [] \<longrightarrow> ag_ID a = target)
    \<and> \<not> mget False (cs_agentDisabled s) (ag_ID a) \<and> \<not> mget False (cs_hostDisabled s) (agentHostNodeID a) \<and> cs_agentAvailabilityErr s = None
    \<and> (map_of (cs_reservations s) n = None \<longrightarrow>
        (let override = mget 0 (cs_agentCapacityOverrides s) (ag_ID a); limit = (if override > 0 then override else ag_DefaultCapacity a)
         in 0 < limit \<longrightarrow> ag_ActiveNodes a \<le> limit))"
proof -
  have ok: "agents_ok s" using reachable_ok [OF assms(1)] by (simp add: registry_ok_def)
  note g = reserve_spec [OF ok assms(2)]
  have ok': "agents_ok s'" using tryReserve_ok [OF ok, of now n target r] assms(2) by simp
  have st: "settings_ok s a" "reserved_for s' (ag_ID a) \<le> ag_ActiveNodes a"
    using agents_okD(5,6) [OF ok', of "ag_ID a" a] settings_ok_cong [of s s' a] g by (simp_all add: reserved_for_held)
  then have "\<not> mget False (cs_agentDisabled s) (ag_ID a)" "\<not> mget False (cs_hostDisabled s) (agentHostNodeID a)" "cs_agentAvailabilityErr s = None"
    using g by (auto simp: settings_ok_def)
  moreover have "ag_ActiveNodes a \<le> agent_limit a" if "map_of (cs_reservations s) n = None" "0 < agent_limit a"
    using g st(1) that by (auto simp: settings_ok_def)
  moreover have lim: "agent_limit a = (if mget 0 (cs_agentCapacityOverrides s) (ag_ID a) > 0 then mget 0 (cs_agentCapacityOverrides s) (ag_ID a)
      else ag_DefaultCapacity a)" using st(1) by (simp add: settings_ok_def agent_limit_def)
  ultimately show ?thesis using g st(2) unfolding Let_def lim [symmetric] by blast
qed

lemma ex_grant: "snd (snd (tryReserveAgentWithPlacement 100 ''n'' ''b'' None ex_two)) \<noteq> None" "cs_reservations ex_two = []"
  by code_simp+

theorem reservation_within_limit_witness:
  "\<exists>s' a. tryReserveAgentWithPlacement 100 ''n'' ''b'' None ex_two = (s', None, Some a) \<and> ag_ID a = ''b''
     \<and> map_of (cs_reservations s') ''n'' = Some ''b'' \<and> reserved_for s' ''b'' \<le> ag_ActiveNodes a"
proof -
  obtain s' r' a where e: "tryReserveAgentWithPlacement 100 ''n'' ''b'' None ex_two = (s', r', Some a)"
    using ex_grant(1) by (metis not_None_eq prod.collapse)
  have "r' = None" using e ex_grant(2)
    by (auto simp: tryReserveAgentWithPlacement_def reserve_new_def select_agent_def Let_def split: prod.splits option.splits)
  then show ?thesis using e reservation_within_limit [OF ex_two_reach e] by auto
qed

end
