(* ===== verification/Node_Create.thy ===== *)
theory Node_Create
  imports Placement_Correct Go_Bytes
begin

text \<open>
  \<^verbatim>\<open>createReservedNode\<close> and \<^verbatim>\<open>createOnAgent\<close> of \<^verbatim>\<open>internal/controller\<close>: one goroutine that reserves a slot, sends the create request,
  replays it on the same Agent instance when the answer is lost, and looks for another Agent only when the request is known not to
  have created a Peer. Other goroutines work on the registry between any two of its steps.
\<close>

subsection \<open>Answers of an Agent\<close>

text \<open>The errors \<^verbatim>\<open>retryableCreateTransport\<close> tells apart.\<close>

datatype transport_error = IoEOF | IoUnexpectedEOF | ECONNRESET | EPIPE | ECONNREFUSED | NetError bool | OtherTransport

definition retryableCreateTransport :: "transport_error \<Rightarrow> bool" where
  "retryableCreateTransport e =
     (e = IoEOF \<or> e = IoUnexpectedEOF \<or> e = ECONNRESET \<or> e = EPIPE \<or> e = ECONNREFUSED \<or> e = NetError True)"

text \<open>
  A response: its status, the admission header, \<^verbatim>\<open>Retry-After\<close>, the \<^verbatim>\<open>error\<close> field of a JSON body if it decodes, and the body decoded
  as a node or the error of reading it.
\<close>

record create_response =
  ax_Status :: nat
  ax_Admission :: string
  ax_RetryAfter :: string
  ax_Error :: "string option"
  ax_Body :: "transport_error + Node"

datatype create_answer = NotSent | NoResponse transport_error | Response create_response

datatype create_error = UncertainCreate bool | CapacityReached | AdmissionDeferred int | OtherError

definition retryableAdmissionResponse :: "create_response \<Rightarrow> bool" where
  "retryableAdmissionResponse resp =
     (ax_Status resp = 503
      \<and> (ax_Admission resp = ''not-created''
         \<or> ax_RetryAfter resp \<noteq> []
           \<and> (ax_Error resp = Some ''Agent telemetry backlog is full; retry Peer admission after delivery recovers''
              \<or> ax_Error resp = Some ''Agent terminal evidence is awaiting delivery or local storage; retry after recovery'')))"

text \<open>\<^verbatim>\<open>http.ParseTime\<close> is the parameter \<open>parse\<close>; the seconds are parsed with 32 bits.\<close>

definition admissionRetryDelay :: "(string \<Rightarrow> gotime option) \<Rightarrow> string \<Rightarrow> gotime \<Rightarrow> int" where
  "admissionRetryDelay parse value now =
     (let delay = (case ParseInt value of
            Some seconds \<Rightarrow> if 0 \<le> seconds \<and> seconds < 2 ^ 31 then seconds * second
              else (case parse value of Some t \<Rightarrow> time_Sub t now | None \<Rightarrow> second)
          | None \<Rightarrow> (case parse value of Some t \<Rightarrow> time_Sub t now | None \<Rightarrow> second))
      in min (30 * second) (max 250000000 delay))"

lemma admissionRetryDelay_range: "250000000 \<le> admissionRetryDelay parse v now" "admissionRetryDelay parse v now \<le> 30 * second"
  by (simp_all add: admissionRetryDelay_def Let_def second_def)

text \<open>\<^verbatim>\<open>callAgent\<close> for the create request.\<close>

definition callAgent_create :: "(string \<Rightarrow> gotime option) \<Rightarrow> gotime \<Rightarrow> create_answer \<Rightarrow> create_error + Node" where
  "callAgent_create parse now answer =
     (case answer of
        NotSent \<Rightarrow> Inl OtherError
      | NoResponse e \<Rightarrow> Inl (UncertainCreate (retryableCreateTransport e))
      | Response resp \<Rightarrow>
          if ax_Status resp < 200 \<or> ax_Status resp \<ge> 300 then
            if ax_Status resp = 429 then Inl CapacityReached
            else if retryableAdmissionResponse resp then Inl (AdmissionDeferred (admissionRetryDelay parse (ax_RetryAfter resp) now))
            else if ax_Status resp \<ge> 500 \<and> ax_Status resp < 600 then Inl (UncertainCreate False)
            else Inl OtherError
          else case ax_Body resp of Inl e \<Rightarrow> Inl (UncertainCreate (retryableCreateTransport e)) | Inr node \<Rightarrow> Inr node)"

subsection \<open>The goroutine\<close>

text \<open>
  Its program counter. \<open>Releasing\<close> frees the slot and goes on to look for an Agent, to wait, or to return the error. \<open>Sending\<close> and \<open>Awaiting\<close> are the loop of \<^verbatim>\<open>createOnAgent\<close>, before
  and after the registry is consulted; the last component is \<^verbatim>\<open>last\<close>.
\<close>

datatype after_release = ThenAcquire | ThenPause | ThenFail

datatype create_pc =
    Acquiring
  | Checking Agent
  | Preparing Agent
  | Rechecking Agent CreateNodeRequest
  | Sending Agent CreateNodeRequest nat "create_error option"
  | Awaiting Agent CreateNodeRequest nat "create_error option"
  | Backoff Agent CreateNodeRequest nat create_error
  | Recording Agent CreateNodeRequest Node
  | Failed Agent create_error
  | Pausing
  | Releasing after_release
  | Returned "create_error option"

text \<open>\<open>cp_posts\<close> lists the requests sent: the instance addressed and whether the outcome was uncertain.\<close>

type_synonym instance_id = "string \<times> gotime \<times> string"

record creation =
  cp_request :: CreateNodeRequest
  cp_target :: string
  cp_rng :: "rng option"
  cp_pc :: create_pc
  cp_posts :: "(instance_id \<times> bool) list"

definition instance_of :: "Agent \<Rightarrow> instance_id" where
  "instance_of agent = (ag_ID agent, ag_StartedAt agent, ag_URL agent)"

text \<open>What a step observes besides the registry: the clock, the context, results of calls outside the registry.\<close>

record create_env =
  ce_now :: gotime
  ce_cancelled :: bool
  ce_remembered :: bool
  ce_effective :: "CreateNodeRequest option"
  ce_answer :: create_answer
  ce_parse :: "string \<Rightarrow> gotime option"
  ce_lib :: golib
  ce_topics :: "string list option \<Rightarrow> string"

definition agent_available :: "registry \<Rightarrow> gotime \<Rightarrow> Agent \<Rightarrow> bool" where
  "agent_available s now agent =
     ptr_is (\<lambda>current. \<not> ag_Disabled current \<and> agentIsOnline current now \<and> \<not> deferred s now (ag_ID agent)
        \<and> ag_StartedAt current = ag_StartedAt agent \<and> ag_URL current = ag_URL agent) (map_of (cs_agents s) (ag_ID agent))"

definition create_attempts :: "Agent \<Rightarrow> nat" where
  "create_attempts agent = (if ag_CreateReplay agent \<and> \<not> IsZero (ag_StartedAt agent) then 3 else 1)"

definition stamp_request :: "Agent \<Rightarrow> CreateNodeRequest \<Rightarrow> CreateNodeRequest" where
  "stamp_request agent request =
     (if ag_CreateReplay agent \<and> \<not> IsZero (ag_StartedAt agent) then request\<lparr>cq_AgentStartedAt := ag_StartedAt agent\<rparr> else request)"

definition same_instance :: "registry \<Rightarrow> Agent \<Rightarrow> bool" where
  "same_instance s agent =
     ptr_is (\<lambda>current. ag_StartedAt current = ag_StartedAt agent \<and> ag_URL current = ag_URL agent) (map_of (cs_agents s) (ag_ID agent))"

definition joined_error :: "create_error option \<Rightarrow> create_error \<Rightarrow> create_error" where
  "joined_error prior e = (if prior = None then e else UncertainCreate False)"

text \<open>The answer of one attempt: the acknowledgement must name the node that was asked for.\<close>

definition attempt_result :: "create_env \<Rightarrow> Agent \<Rightarrow> CreateNodeRequest \<Rightarrow> create_error + Node" where
  "attempt_result E agent request =
     (case callAgent_create (ce_parse E) (ce_now E) (ce_answer E) of
        Inr node \<Rightarrow> if createAcknowledgementMatches node request (ag_ID agent) (create_attempts agent > 1) then Inr node
          else Inl (UncertainCreate False)
      | Inl e \<Rightarrow> Inl e)"

text \<open>The loop of \<^verbatim>\<open>createOnAgent\<close>: before the request, its answer with whether it is uncertain, and the pause before a replay.\<close>

definition sending_next :: "create_env \<Rightarrow> registry \<Rightarrow> Agent \<Rightarrow> CreateNodeRequest \<Rightarrow> nat \<Rightarrow> create_error option \<Rightarrow> create_pc" where
  "sending_next E s agent request attempt prior =
     (if ce_cancelled E then Failed agent (joined_error prior OtherError)
      else if attempt > 1 \<and> \<not> same_instance s agent then Failed agent (UncertainCreate False)
      else Awaiting agent request attempt prior)"

definition awaiting_next :: "create_env \<Rightarrow> Agent \<Rightarrow> CreateNodeRequest \<Rightarrow> nat \<Rightarrow> create_error option \<Rightarrow> create_pc \<times> bool" where
  "awaiting_next E agent request attempt prior =
     (case attempt_result E agent request of
        Inr node \<Rightarrow> (Recording agent request node, False)
      | Inl (UncertainCreate retryable) \<Rightarrow>
          (if \<not> retryable \<or> attempt = create_attempts agent \<or> ce_cancelled E then Failed agent (UncertainCreate False)
           else Backoff agent request attempt (UncertainCreate retryable), True)
      | Inl e \<Rightarrow> (Failed agent (joined_error prior e), False))"

definition backoff_next :: "create_env \<Rightarrow> Agent \<Rightarrow> CreateNodeRequest \<Rightarrow> nat \<Rightarrow> create_error \<Rightarrow> create_pc" where
  "backoff_next E agent request attempt e =
     (if ce_cancelled E then Failed agent (UncertainCreate False) else Sending agent request (attempt + 1) (Some e))"

definition create_next :: "create_env \<Rightarrow> registry \<times> creation \<Rightarrow> registry \<times> creation" where
  "create_next E = (\<lambda>(s, p).
     let go = (\<lambda>pc. (s, p\<lparr>cp_pc := pc\<rparr>)) in
     case cp_pc p of
       Acquiring \<Rightarrow>
         if ce_cancelled E then go (Returned (Some OtherError))
         else (case tryReserveAgentWithPlacement (ce_now E) (cq_ID (cp_request p)) (cp_target p) (cp_rng p) s of
                 (s', r, Some agent) \<Rightarrow> (s', p\<lparr>cp_rng := r, cp_pc := Checking agent\<rparr>)
               | (s', r, None) \<Rightarrow> (s', p\<lparr>cp_rng := r\<rparr>))
     | Checking agent \<Rightarrow> go (if agent_available s (ce_now E) agent then Preparing agent else Releasing ThenAcquire)
     | Preparing agent \<Rightarrow>
         (case ce_effective E of
            Some request \<Rightarrow> go (if ce_remembered E then Rechecking agent request else Releasing ThenFail)
          | None \<Rightarrow> go (Releasing ThenFail))
     | Rechecking agent request \<Rightarrow>
         go (if agent_available s (ce_now E) agent then Sending agent (stamp_request agent request) 1 None else Releasing ThenAcquire)
     | Sending agent request attempt prior \<Rightarrow> go (sending_next E s agent request attempt prior)
     | Awaiting agent request attempt prior \<Rightarrow>
         (case awaiting_next E agent request attempt prior of
            (pc, unsure) \<Rightarrow> (s, p\<lparr>cp_posts := cp_posts p @ [(instance_of agent, unsure)], cp_pc := pc\<rparr>))
     | Backoff agent request attempt e \<Rightarrow> go (backoff_next E agent request attempt e)
     | Recording agent request node \<Rightarrow>
         (case recordCreatedNode (ce_lib E) (ce_topics E) (ce_now E) request (ag_ID agent) node (Some (ag_StartedAt agent)) s of
            (s', created) \<Rightarrow> (s', p\<lparr>cp_pc := (if created then Returned None else Releasing ThenFail)\<rparr>))
     | Failed agent e \<Rightarrow>
         (case e of
            UncertainCreate _ \<Rightarrow> (retainUncertainCreate (cp_request p) (ag_ID agent) s, p\<lparr>cp_pc := Returned (Some e)\<rparr>)
          | AdmissionDeferred after \<Rightarrow> (deferAgentAdmission (ce_now E) agent after s, p\<lparr>cp_pc := Releasing ThenAcquire\<rparr>)
          | CapacityReached \<Rightarrow> go (Releasing ThenPause)
          | OtherError \<Rightarrow> go (Releasing ThenFail))
     | Pausing \<Rightarrow> go (if ce_cancelled E then Returned (Some OtherError) else Acquiring)
     | Releasing next \<Rightarrow> (releaseReservation (cq_ID (cp_request p)) s,
         p\<lparr>cp_pc := (case next of ThenAcquire \<Rightarrow> Acquiring | ThenPause \<Rightarrow> Pausing | ThenFail \<Rightarrow> Returned (Some OtherError))\<rparr>)
     | Returned _ \<Rightarrow> (s, p))"

lemmas next_defs = create_next_def Let_def sending_next_def awaiting_next_def backoff_next_def

text \<open>The goroutine among the others.\<close>

definition new_creation :: "CreateNodeRequest \<Rightarrow> string \<Rightarrow> rng option \<Rightarrow> creation" where
  "new_creation request target r = \<lparr>cp_request = request, cp_target = target, cp_rng = r, cp_pc = Acquiring, cp_posts = []\<rparr>"

inductive create_run :: "registry \<Rightarrow> creation \<Rightarrow> registry \<times> creation \<Rightarrow> bool" for s0 p0 where
  Start: "create_run s0 p0 (s0, p0)"
| Own: "create_run s0 p0 c \<Longrightarrow> create_run s0 p0 (create_next E c)"
| Other: "create_run s0 p0 (s, p) \<Longrightarrow> registry_step s s' \<Longrightarrow> create_run s0 p0 (s', p)"

subsection \<open>The invariant\<close>

text \<open>\<open>bound_to h pc\<close>: at \<open>pc\<close> the goroutine sends nothing more, or only to the instance \<open>h\<close>.\<close>

definition bound_to :: "instance_id \<Rightarrow> create_pc \<Rightarrow> bool" where
  "bound_to h pc = (case pc of
       Sending a _ _ prior \<Rightarrow> prior \<noteq> None \<and> instance_of a = h
     | Awaiting a _ _ prior \<Rightarrow> prior \<noteq> None \<and> instance_of a = h
     | Backoff a _ _ _ \<Rightarrow> instance_of a = h
     | Recording a _ _ \<Rightarrow> instance_of a = h
     | Failed a e \<Rightarrow> (\<exists>b. e = UncertainCreate b) \<and> instance_of a = h
     | Releasing next \<Rightarrow> next = ThenFail
     | Returned _ \<Rightarrow> True
     | _ \<Rightarrow> False)"

text \<open>Where an uncertain request is behind the goroutine.\<close>

definition unsure_pc :: "create_pc \<Rightarrow> bool" where
  "unsure_pc pc = (case pc of
       Sending _ _ n prior \<Rightarrow> prior \<noteq> None | Awaiting _ _ n prior \<Rightarrow> prior \<noteq> None | Backoff _ _ _ _ \<Rightarrow> True
     | Failed _ (UncertainCreate _) \<Rightarrow> True | Returned (Some (UncertainCreate _)) \<Rightarrow> True | _ \<Rightarrow> False)"

text \<open>How many requests may have been uncertain so far.\<close>

definition unsure_limit :: "create_pc \<Rightarrow> nat \<Rightarrow> bool" where
  "unsure_limit pc k = (case pc of
       Sending a _ n prior \<Rightarrow> 0 < n \<and> k < n \<and> n \<le> create_attempts a \<and> (1 < n \<longrightarrow> prior \<noteq> None)
     | Awaiting a _ n prior \<Rightarrow> 0 < n \<and> k < n \<and> n \<le> create_attempts a
     | Backoff a _ n _ \<Rightarrow> k \<le> n \<and> n < create_attempts a
     | _ \<Rightarrow> k \<le> 3)"

definition pc_agent :: "create_pc \<Rightarrow> Agent option" where
  "pc_agent pc = (case pc of Checking a \<Rightarrow> Some a | Preparing a \<Rightarrow> Some a | Rechecking a _ \<Rightarrow> Some a | Sending a _ _ _ \<Rightarrow> Some a
     | Awaiting a _ _ _ \<Rightarrow> Some a | Backoff a _ _ _ \<Rightarrow> Some a | Recording a _ _ \<Rightarrow> Some a | Failed a _ \<Rightarrow> Some a | _ \<Rightarrow> None)"

definition one_home :: "(instance_id \<times> bool) list \<Rightarrow> bool" where
  "one_home posts \<longleftrightarrow> (\<forall>i j. i < j \<and> j < length posts \<and> snd (posts ! i) \<longrightarrow> fst (posts ! j) = fst (posts ! i))"

definition posts_ok :: "create_pc \<Rightarrow> (instance_id \<times> bool) list \<Rightarrow> bool" where
  "posts_ok pc posts \<longleftrightarrow> one_home posts \<and> (\<forall>x\<in>set posts. snd x \<longrightarrow> bound_to (fst x) pc) \<and> unsure_limit pc (length (filter snd posts))
     \<and> (unsure_pc pc \<longrightarrow> (\<exists>x\<in>set posts. snd x))
     \<and> ((\<exists>a q n. pc = Recording a q n) \<or> (\<exists>pc'. pc = Releasing pc') \<longrightarrow> (\<exists>x\<in>set posts. snd x) \<longrightarrow> \<not> snd (last posts))"

lemma one_home_snoc:
  assumes "one_home posts" "\<forall>x\<in>set posts. snd x \<longrightarrow> fst x = fst y"
  shows "one_home (posts @ [y])"
  unfolding one_home_def
proof (intro allI impI)
  fix i j assume *: "i < j \<and> j < length (posts @ [y]) \<and> snd ((posts @ [y]) ! i)"
  then have i: "(posts @ [y]) ! i = posts ! i" "posts ! i \<in> set posts" by (simp_all add: nth_append)
  show "fst ((posts @ [y]) ! j) = fst ((posts @ [y]) ! i)"
  proof (cases "j = length posts")
    case True
    then show ?thesis using assms(2) i * by simp
  next
    case False
    then show ?thesis using assms(1) i * by (simp add: one_home_def nth_append)
  qed
qed

lemma create_attempts_le: "create_attempts a \<le> 3"
  by (simp add: create_attempts_def)

text \<open>Steps that send nothing.\<close>

lemma posts_ok_move:
  assumes "posts_ok pc posts" "\<And>h. bound_to h pc \<Longrightarrow> bound_to h pc'" "unsure_limit pc' (length (filter snd posts))"
    "unsure_pc pc' \<Longrightarrow> unsure_pc pc" "\<And>a q n. pc' \<noteq> Recording a q n" "\<And>q. pc' = Releasing q \<Longrightarrow> \<exists>x\<in>set posts. snd x \<Longrightarrow> \<not> snd (last posts)"
  shows "posts_ok pc' posts"
  unfolding posts_ok_def
proof (intro conjI impI ballI)
  show "one_home posts" using assms(1) by (simp add: posts_ok_def)
  show "bound_to (fst x) pc'" if "x \<in> set posts" "snd x" for x using that assms(1,2) by (simp add: posts_ok_def)
  show "\<exists>x\<in>set posts. snd x" if "unsure_pc pc'" using assms(1,4) that by (simp add: posts_ok_def)
  show "\<not> snd (last posts)" if "(\<exists>a q n. pc' = Recording a q n) \<or> (\<exists>q. pc' = Releasing q)" "\<exists>x\<in>set posts. snd x"
    using that assms(5,6) by auto
qed (rule assms(3))

lemma no_unsure: "(\<And>h. \<not> bound_to h pc) \<Longrightarrow> posts_ok pc posts \<Longrightarrow> filter snd posts = []"
  by (auto simp: posts_ok_def filter_empty_conv)

lemma posts_ok_snoc:
  assumes ok: "posts_ok (Awaiting a q n prior) posts"
    and b: "u \<or> prior \<noteq> None \<Longrightarrow> bound_to (instance_of a) pc'"
    and l: "\<And>k. k < n \<Longrightarrow> n \<le> create_attempts a \<Longrightarrow> unsure_limit pc' (if u then Suc k else k)"
    and v: "unsure_pc pc' \<Longrightarrow> u \<or> prior \<noteq> None" and r: "(\<exists>a q n. pc' = Recording a q n) \<or> (\<exists>q. pc' = Releasing q) \<Longrightarrow> \<not> u"
  shows "posts_ok pc' (posts @ [(instance_of a, u)])"
  unfolding posts_ok_def
proof (intro conjI impI ballI)
  have home: "\<forall>x\<in>set posts. snd x \<longrightarrow> prior \<noteq> None \<and> fst x = instance_of a"
    using ok by (auto simp: posts_ok_def bound_to_def)
  show "one_home (posts @ [(instance_of a, u)])"
    using ok home by (intro one_home_snoc) (auto simp: posts_ok_def)
  show "bound_to (fst x) pc'" if "x \<in> set (posts @ [(instance_of a, u)])" "snd x" for x
    using that home b by auto
  have "length (filter snd posts) < n" "n \<le> create_attempts a" using ok by (simp_all add: posts_ok_def unsure_limit_def)
  then show "unsure_limit pc' (length (filter snd (posts @ [(instance_of a, u)])))" using l [of "length (filter snd posts)"] by (cases u) simp_all
  show "\<exists>x\<in>set (posts @ [(instance_of a, u)]). snd x" if "unsure_pc pc'"
    using v [OF that] ok by (auto simp: posts_ok_def unsure_pc_def)
  show "\<not> snd (last (posts @ [(instance_of a, u)]))" if "(\<exists>a q n. pc' = Recording a q n) \<or> (\<exists>q. pc' = Releasing q)"
    using r that by simp
qed

lemmas pc_defs = bound_to_def unsure_limit_def unsure_pc_def joined_error_def

lemma next_awaiting:
  assumes ok: "posts_ok (cp_pc p) (cp_posts p)" and pc: "cp_pc p = Awaiting a q n prior"
  shows "posts_ok (cp_pc (snd (create_next E (s, p)))) (cp_posts (snd (create_next E (s, p))))"
proof -
  note sn = posts_ok_snoc [OF ok [unfolded pc]]
  have le: "n \<le> create_attempts a \<Longrightarrow> k < n \<Longrightarrow> k < 3" for k using create_attempts_le [of a] by simp
  show ?thesis
  proof (cases "attempt_result E a q")
    case (Inr node)
    have "posts_ok (Recording a q node) (cp_posts p @ [(instance_of a, False)])"
      by (rule sn) (use le in \<open>auto simp: pc_defs intro: less_imp_le\<close>)
    then show ?thesis by (simp add: next_defs pc Inr)
  next
    case (Inl e)
    have F: "posts_ok (Failed a (joined_error prior e)) (cp_posts p @ [(instance_of a, False)])" if "\<And>b. e \<noteq> UncertainCreate b"
      by (rule sn) (use le that in \<open>auto simp: pc_defs intro: less_imp_le split: create_error.splits if_splits\<close>)
    show ?thesis
    proof (cases e)
      case (UncertainCreate retryable)
      have "posts_ok (Failed a (UncertainCreate False)) (cp_posts p @ [(instance_of a, True)])"
        by (rule sn) (use le in \<open>auto simp: pc_defs Suc_le_eq\<close>)
      moreover have "posts_ok (Backoff a q n e) (cp_posts p @ [(instance_of a, True)])" if "n \<noteq> create_attempts a"
        by (rule sn) (use that in \<open>auto simp: pc_defs\<close>)
      ultimately show ?thesis by (cases retryable) (simp_all add: next_defs pc Inl UncertainCreate)
    qed (use F in \<open>simp_all add: next_defs pc Inl\<close>)
  qed
qed

lemma next_posts:
  assumes ok: "posts_ok (cp_pc p) (cp_posts p)"
  shows "posts_ok (cp_pc (snd (create_next E (s, p)))) (cp_posts (snd (create_next E (s, p))))"
proof -
  note none = no_unsure [OF _ ok] and move = posts_ok_move [OF ok]
  show ?thesis
  proof (cases "cp_pc p")
    case Acquiring
    have "filter snd (cp_posts p) = []" by (rule none) (simp add: Acquiring pc_defs)
    then have "posts_ok (Checking a) (cp_posts p)" "posts_ok (Returned (Some OtherError)) (cp_posts p)" for a
      by (auto intro!: move simp: Acquiring pc_defs)
    then show ?thesis using ok by (auto simp: next_defs Acquiring split: prod.split option.split)
  next
    case (Checking a)
    have "filter snd (cp_posts p) = []" by (rule none) (simp add: Checking pc_defs)
    then have "posts_ok (Preparing a) (cp_posts p)" "posts_ok (Releasing ThenAcquire) (cp_posts p)"
      by (auto intro!: move simp: Checking pc_defs filter_empty_conv)
    then show ?thesis by (simp add: next_defs Checking)
  next
    case (Preparing a)
    have "filter snd (cp_posts p) = []" by (rule none) (simp add: Preparing pc_defs)
    then have "posts_ok (Rechecking a q) (cp_posts p)" "posts_ok (Releasing ThenFail) (cp_posts p)" for q
      by (auto intro!: move simp: Preparing pc_defs filter_empty_conv)
    then show ?thesis by (simp add: next_defs Preparing split: option.split)
  next
    case (Rechecking a q)
    have "filter snd (cp_posts p) = []" by (rule none) (simp add: Rechecking pc_defs)
    moreover have "1 \<le> create_attempts a" by (simp add: create_attempts_def)
    ultimately have "posts_ok (Sending a r 1 None) (cp_posts p)" "posts_ok (Releasing ThenAcquire) (cp_posts p)" for r
      by (auto intro!: move simp: Rechecking pc_defs filter_empty_conv)
    then show ?thesis by (simp add: next_defs Rechecking)
  next
    case (Sending a q n prior)
    have lim: "length (filter snd (cp_posts p)) < n" "n \<le> create_attempts a" "1 < n \<longrightarrow> prior \<noteq> None" "0 < n"
      using ok by (simp_all add: posts_ok_def Sending unsure_limit_def)
    then have le: "length (filter snd (cp_posts p)) \<le> 3" using create_attempts_le [of a] by simp
    have f: "posts_ok (Failed a (joined_error prior OtherError)) (cp_posts p)"
      by (rule move) (use le in \<open>auto simp: Sending pc_defs split: if_splits\<close>)
    have g: "posts_ok (Failed a (UncertainCreate False)) (cp_posts p)" if "1 < n"
      by (rule move) (use le lim that in \<open>auto simp: Sending pc_defs\<close>)
    have w: "posts_ok (Awaiting a q n prior) (cp_posts p)"
      by (rule move) (use lim in \<open>auto simp: Sending pc_defs\<close>)
    show ?thesis using f g w by (simp add: next_defs Sending)
  next
    case (Awaiting a q n prior)
    then show ?thesis by (rule next_awaiting [OF ok])
  next
    case (Backoff a q n e)
    have lim: "length (filter snd (cp_posts p)) \<le> n" "n < create_attempts a" using ok by (simp_all add: posts_ok_def Backoff unsure_limit_def)
    then have le: "length (filter snd (cp_posts p)) \<le> 3" using create_attempts_le [of a] by simp
    have "posts_ok (Failed a (UncertainCreate False)) (cp_posts p)" "posts_ok (Sending a q (Suc n) (Some e)) (cp_posts p)"
      by (rule move; use lim le in \<open>auto simp: Backoff pc_defs\<close>)+
    then show ?thesis by (simp add: next_defs Backoff)
  next
    case (Recording a q n)
    have "posts_ok (Returned None) (cp_posts p)" "posts_ok (Releasing ThenFail) (cp_posts p)"
      by (rule move; use ok in \<open>auto simp: Recording pc_defs posts_ok_def\<close>)+
    then show ?thesis by (simp add: next_defs Recording split: prod.split)
  next
    case (Failed a e)
    have le: "length (filter snd (cp_posts p)) \<le> 3" using ok by (simp add: posts_ok_def Failed unsure_limit_def)
    have free: "filter snd (cp_posts p) = []" if "\<And>b. e \<noteq> UncertainCreate b" by (rule none) (use that in \<open>simp add: Failed pc_defs\<close>)
    have "posts_ok (Releasing pc') (cp_posts p)" if "\<And>b. e \<noteq> UncertainCreate b" for pc'
      by (rule move) (use free [OF that] that in \<open>auto simp: Failed pc_defs filter_empty_conv\<close>)
    moreover have "posts_ok (Returned (Some e)) (cp_posts p)"
      by (rule move) (use le in \<open>auto simp: Failed pc_defs split: create_error.splits\<close>)
    ultimately show ?thesis by (cases e) (simp_all add: next_defs Failed)
  next
    case Pausing
    have "filter snd (cp_posts p) = []" by (rule none) (simp add: Pausing pc_defs)
    then have "posts_ok Acquiring (cp_posts p)" "posts_ok (Returned (Some OtherError)) (cp_posts p)"
      by (auto intro!: move simp: Pausing pc_defs)
    then show ?thesis by (simp add: next_defs Pausing)
  next
    case (Returned r)
    then show ?thesis using ok by (simp add: next_defs)
  next
    case (Releasing k)
    have le: "length (filter snd (cp_posts p)) \<le> 3" using ok by (simp add: posts_ok_def Releasing unsure_limit_def)
    have "posts_ok (Returned (Some OtherError)) (cp_posts p)" by (rule move) (use le in \<open>auto simp: Releasing pc_defs\<close>)
    moreover have "posts_ok Acquiring (cp_posts p)" "posts_ok Pausing (cp_posts p)" if "k \<noteq> ThenFail"
      by (rule move; use le that in \<open>auto simp: Releasing pc_defs\<close>)+
    ultimately show ?thesis by (cases k) (simp_all add: next_defs Releasing)
  qed
qed

subsection \<open>The registry\<close>

text \<open>A step of the goroutine is a step of the registry, and the Agent it works with is registered.\<close>

definition pc_registered :: "registry \<Rightarrow> create_pc \<Rightarrow> bool" where
  "pc_registered s pc = (\<forall>a. pc_agent pc = Some a \<longrightarrow> map_of (cs_agents s) (ag_ID a) \<noteq> None)"

lemma pc_registered_kept: "agents_kept s s' \<Longrightarrow> pc_registered s pc \<Longrightarrow> pc_registered s' pc"
  unfolding pc_registered_def using agents_keptD by blast

lemma next_registry_step:
  assumes "pc_registered s (cp_pc p)"
  shows "fst (create_next E (s, p)) = s \<or> registry_step s (fst (create_next E (s, p)))"
proof (cases "cp_pc p")
  case Acquiring
  have "fst (create_next E (s, p)) = s
      \<or> fst (create_next E (s, p)) = fst (tryReserveAgentWithPlacement (ce_now E) (cq_ID (cp_request p)) (cp_target p) (cp_rng p) s)"
    by (simp add: next_defs Acquiring split: prod.split option.split)
  then show ?thesis using registry_step.Reserve by metis
next
  case (Recording a q n)
  have "fst (create_next E (s, p)) = fst (recordCreatedNode (ce_lib E) (ce_topics E) (ce_now E) q (ag_ID a) n (Some (ag_StartedAt a)) s)"
    by (simp add: next_defs Recording split: prod.split)
  then show ?thesis using registry_step.Created by metis
next
  case (Failed a e)
  have "map_of (cs_agents s) (ag_ID a) \<noteq> None" using assms by (simp add: Failed pc_registered_def pc_agent_def)
  then show ?thesis
    by (cases e) (simp_all add: next_defs Failed registry_step.Retain registry_step.Defer)
next
  case (Releasing k)
  then show ?thesis by (simp add: next_defs registry_step.Release)
qed (simp_all add: next_defs split: option.split sum.split create_error.split)

lemma next_pc_agent:
  assumes "cp_pc p \<noteq> Acquiring"
  shows "pc_agent (cp_pc (snd (create_next E (s, p)))) = pc_agent (cp_pc p) \<or> pc_agent (cp_pc (snd (create_next E (s, p)))) = None"
  using assms
  by (cases "cp_pc p")
    (simp_all add: next_defs pc_agent_def split: option.split sum.split create_error.split prod.split after_release.split)

lemma next_acquired:
  assumes "agents_ok s" "cp_pc p = Acquiring"
  shows "pc_registered (fst (create_next E (s, p))) (cp_pc (snd (create_next E (s, p))))"
proof (cases "ce_cancelled E")
  case False
  obtain s' r res where t: "tryReserveAgentWithPlacement (ce_now E) (cq_ID (cp_request p)) (cp_target p) (cp_rng p) s = (s', r, res)"
    by (metis prod_cases3)
  show ?thesis
  proof (cases res)
    case (Some a)
    then have "map_of (cs_agents s') (ag_ID a) = Some a" using reserve_spec [OF assms(1)] t by blast
    then show ?thesis using False Some by (simp add: next_defs assms(2) t pc_registered_def pc_agent_def)
  qed (use False in \<open>simp add: next_defs assms(2) t pc_registered_def pc_agent_def\<close>)
qed (simp add: next_defs assms(2) pc_registered_def pc_agent_def)

lemma next_registered:
  assumes ok: "agents_ok s" and reg: "pc_registered s (cp_pc p)"
  shows "pc_registered (fst (create_next E (s, p))) (cp_pc (snd (create_next E (s, p))))"
proof (cases "cp_pc p = Acquiring")
  case True
  then show ?thesis by (rule next_acquired [OF ok])
next
  case False
  have "agents_kept s (fst (create_next E (s, p)))"
    using next_registry_step [OF reg] registry_step_kept agents_kept_refl by metis
  then have "pc_registered (fst (create_next E (s, p))) (cp_pc p)" by (rule pc_registered_kept [OF _ reg])
  then show ?thesis using next_pc_agent [OF False, of E s] unfolding pc_registered_def by (elim disjE) simp_all
qed

lemma create_run_inv:
  assumes "create_run (newState ov se da dh ae) (new_creation request target r) c"
  shows "registry_reach (newState ov se da dh ae) (fst c) \<and> pc_registered (fst c) (cp_pc (snd c)) \<and> posts_ok (cp_pc (snd c)) (cp_posts (snd c))"
  using assms
proof (induction rule: create_run.induct)
  case Start
  show ?case by (simp add: registry_reach.Refl new_creation_def pc_registered_def pc_agent_def posts_ok_def one_home_def pc_defs)
next
  case (Own c E)
  obtain s p where c: "c = (s, p)" by (cases c)
  have IH: "registry_reach (newState ov se da dh ae) s" "pc_registered s (cp_pc p)" "posts_ok (cp_pc p) (cp_posts p)"
    using Own.IH by (simp_all add: c)
  have "agents_ok s" using reachable_ok [OF IH(1)] by (simp add: registry_ok_def)
  moreover have "registry_reach (newState ov se da dh ae) (fst (create_next E (s, p)))"
    using next_registry_step [OF IH(2)] registry_reach.Step [OF IH(1)] IH(1) by metis
  ultimately show ?case using next_registered [OF _ IH(2)] next_posts [OF IH(3)] by (simp add: c)
next
  case (Other s p s')
  then show ?case using registry_step_kept pc_registered_kept registry_reach.Step by (simp, blast)
qed

text \<open>While a request of uncertain outcome is behind it, the goroutine itself leaves the slot and the counters of the Agents alone.\<close>

lemma next_keeps_slot:
  assumes "posts_ok (cp_pc p) (cp_posts p)" "(h, True) \<in> set (cp_posts p)" "\<And>a q n. cp_pc p \<noteq> Recording a q n" "\<And>k. cp_pc p \<noteq> Releasing k"
  shows "cs_reservations (fst (create_next E (s, p))) = cs_reservations s \<and> cs_agents (fst (create_next E (s, p))) = cs_agents s"
proof -
  have "\<forall>x\<in>set (cp_posts p). snd x \<longrightarrow> bound_to (fst x) (cp_pc p)" using assms(1) unfolding posts_ok_def by blast
  from bspec [OF this assms(2)] have b: "bound_to h (cp_pc p)" by simp
  show ?thesis
  proof (cases "cp_pc p")
    case (Failed a e)
    then obtain u where "e = UncertainCreate u" using b by (auto simp: bound_to_def)
    then show ?thesis by (simp add: create_next_def Failed retainUncertainCreate_def)
  qed (use b assms(3,4) in \<open>simp_all add: create_next_def bound_to_def Let_def split: prod.split\<close>)
qed

lemma next_retains:
  assumes "cp_pc p = Failed agent (UncertainCreate b)" "map_of (cs_reservations s) (cq_ID (cp_request p)) = Some (ag_ID agent)"
  shows "map_of (cs_uncertainCreates (fst (create_next E (s, p)))) (cq_ID (cp_request p)) =
      Some \<lparr>uc_runID = cq_RunID (cp_request p), uc_generation = cq_Generation (cp_request p), uc_agentID = ag_ID agent\<rparr>
    \<and> cp_pc (snd (create_next E (s, p))) = Returned (Some (UncertainCreate b))"
  using assms by (simp add: next_defs retainUncertainCreate_def mget_def update_conv)

lemma next_request: "cp_request (snd (create_next E (s, p))) = cp_request p"
  by (cases "cp_pc p") (auto simp: next_defs split: sum.split create_error.split option.split prod.split)

lemma create_run_request: "create_run s0 p0 c \<Longrightarrow> cp_request (snd c) = cp_request p0"
  by (induction rule: create_run.induct) (auto simp: next_request split: prod.splits)

text \<open>
  C24. One home for a Peer. Whatever the Agents answer and whatever the other goroutines do, after a create request whose outcome is
  uncertain every further request goes to the same instance of the same Agent; at most three requests are uncertain. The goroutine
  reports an uncertain outcome only when there was one, and when it gives up its slot after one, the last request was answered
  with certainty. After an uncertain request the goroutine itself changes neither a reservation nor a counter of an Agent, unless it
  records the Peer or gives the slot up as just said; and when it ends with an uncertain outcome and still holds the slot, the slot
  stays reserved and is entered among the uncertain creations with the run, the generation and the Agent, where the cleanup of the
  run looks for it. Its steps are steps of the registry, so the properties of the registry hold while it runs.
\<close>

theorem create_single_home:
  assumes "create_run (newState overrides err disabled hosts err') (new_creation request target r) (s, p)"
  shows "(\<forall>i j. i < j \<and> j < length (cp_posts p) \<and> snd (cp_posts p ! i) \<longrightarrow> fst (cp_posts p ! j) = fst (cp_posts p ! i))
    \<and> length (filter snd (cp_posts p)) \<le> 3
    \<and> (\<forall>b. cp_pc p = Returned (Some (UncertainCreate b)) \<longrightarrow> (\<exists>h. (h, True) \<in> set (cp_posts p)))
    \<and> (\<forall>next h. cp_pc p = Releasing next \<and> (h, True) \<in> set (cp_posts p) \<longrightarrow> \<not> snd (last (cp_posts p)))
    \<and> (\<forall>h E. (h, True) \<in> set (cp_posts p) \<and> (\<forall>a q n. cp_pc p \<noteq> Recording a q n) \<and> (\<forall>k. cp_pc p \<noteq> Releasing k) \<longrightarrow>
         cs_reservations (fst (create_next E (s, p))) = cs_reservations s \<and> cs_agents (fst (create_next E (s, p))) = cs_agents s)
    \<and> (\<forall>agent b E. cp_pc p = Failed agent (UncertainCreate b) \<and> map_of (cs_reservations s) (cq_ID request) = Some (ag_ID agent) \<longrightarrow>
         map_of (cs_reservations (fst (create_next E (s, p)))) (cq_ID request) = Some (ag_ID agent)
         \<and> map_of (cs_uncertainCreates (fst (create_next E (s, p)))) (cq_ID request) =
             Some \<lparr>uc_runID = cq_RunID request, uc_generation = cq_Generation request, uc_agentID = ag_ID agent\<rparr>
         \<and> cp_pc (snd (create_next E (s, p))) = Returned (Some (UncertainCreate b)))
    \<and> registry_reach (newState overrides err disabled hosts err') s"
proof -
  have inv: "registry_reach (newState overrides err disabled hosts err') s" "posts_ok (cp_pc p) (cp_posts p)"
    using create_run_inv [OF assms] by simp_all
  have req: "cp_request p = request" using create_run_request [OF assms] by (simp add: new_creation_def)
  have limit: "length (filter snd (cp_posts p)) \<le> 3"
  proof (cases "cp_pc p")
    case (Sending a q n u)
    then show ?thesis using inv(2) create_attempts_le [of a] by (simp add: posts_ok_def unsure_limit_def)
  next
    case (Awaiting a q n u)
    then show ?thesis using inv(2) create_attempts_le [of a] by (simp add: posts_ok_def unsure_limit_def)
  next
    case (Backoff a q n u)
    then show ?thesis using inv(2) create_attempts_le [of a] by (simp add: posts_ok_def unsure_limit_def)
  qed (use inv(2) in \<open>simp_all add: posts_ok_def unsure_limit_def\<close>)
  have some: "\<exists>h. (h, True) \<in> set (cp_posts p)" if "unsure_pc (cp_pc p)"
  proof -
    have "\<exists>x\<in>set (cp_posts p). snd x" using inv(2) that by (simp add: posts_ok_def)
    then show ?thesis by (metis (full_types) prod.collapse)
  qed
  have certain: "\<not> snd (last (cp_posts p))" if "cp_pc p = Releasing next" "(h, True) \<in> set (cp_posts p)" for "next" h
    using inv(2) that unfolding posts_ok_def by (metis snd_conv)
  have held: "cs_reservations (fst (create_next E (s, p))) = cs_reservations s" if f: "cp_pc p = Failed agent (UncertainCreate b)" for agent b E
    using f some next_keeps_slot [OF inv(2)] by (auto simp: unsure_pc_def)
  show ?thesis
  proof (intro conjI allI impI)
    show "fst (cp_posts p ! j) = fst (cp_posts p ! i)" if "i < j \<and> j < length (cp_posts p) \<and> snd (cp_posts p ! i)" for i j
      using inv(2) that unfolding posts_ok_def one_home_def by blast
    show "\<exists>h. (h, True) \<in> set (cp_posts p)" if "cp_pc p = Returned (Some (UncertainCreate b))" for b
      using some that by (simp add: unsure_pc_def)
    show "\<not> snd (last (cp_posts p))" if "cp_pc p = Releasing next \<and> (h, True) \<in> set (cp_posts p)" for "next" h
      using certain that by blast
    fix agent b E assume f: "cp_pc p = Failed agent (UncertainCreate b) \<and> map_of (cs_reservations s) (cq_ID request) = Some (ag_ID agent)"
    then show "map_of (cs_reservations (fst (create_next E (s, p)))) (cq_ID request) = Some (ag_ID agent)" using held by simp
    show "map_of (cs_uncertainCreates (fst (create_next E (s, p)))) (cq_ID request) =
        Some \<lparr>uc_runID = cq_RunID request, uc_generation = cq_Generation request, uc_agentID = ag_ID agent\<rparr>"
      "cp_pc (snd (create_next E (s, p))) = Returned (Some (UncertainCreate b))"
      using next_retains [of p agent b s E] f unfolding req by blast+
  qed (use limit inv next_keeps_slot [OF inv(2)] in blast)+
qed

text \<open>A lost answer, and its recovery by a replay on the same instance.\<close>

definition ex_env :: "create_answer \<Rightarrow> create_env" where
  "ex_env answer = \<lparr>ce_now = 100, ce_cancelled = False, ce_remembered = True, ce_effective = Some (ex_request ''n''), ce_answer = answer,
     ce_parse = (\<lambda>_. None), ce_lib = ex_lib, ce_topics = (\<lambda>_. [])\<rparr>"

definition ex_ack :: create_answer where
  "ex_ack = Response \<lparr>ax_Status = 201, ax_Admission = [], ax_RetryAfter = [], ax_Error = None,
     ax_Body = Inr ((ex_node ''n'' ''ready'')\<lparr>no_AgentID := ''a'', no_Group := ''g''\<rparr>)\<rparr>"

definition ex_registered :: registry where
  "ex_registered = fst (registerAgent 90 ''r1'' ((ex_agent ''a'' 2)\<lparr>ag_CreateReplay := True\<rparr>) ex_start)"

definition ex_steps :: "create_answer list \<Rightarrow> registry \<times> creation" where
  "ex_steps answers = fold (\<lambda>answer. create_next (ex_env answer)) answers (ex_registered, new_creation (ex_request ''n'') [] None)"

lemma create_run_fold: "create_run s0 p0 c \<Longrightarrow> create_run s0 p0 (fold (\<lambda>answer. create_next (ex_env answer)) answers c)"
  by (induction answers arbitrary: c) (simp_all add: create_run.Own)

lemma ex_steps_run: "create_run (newState [] None [] [] None) (new_creation (ex_request ''n'') [] None) (ex_steps answers)"
  unfolding ex_steps_def ex_registered_def ex_start_def by (rule create_run_fold [OF create_run.Other [OF create_run.Start registry_step.Register]])

definition ex_answers :: "create_answer list" where
  "ex_answers = [NotSent, NotSent, NotSent, NotSent, NotSent, NoResponse ECONNRESET, NotSent, NotSent, ex_ack]"

lemma ex_posts: "map snd (cp_posts (snd (ex_steps ex_answers))) = [True, False]"
  by code_simp

text \<open>Three lost answers: the goroutine is about to end with an uncertain outcome.\<close>

definition ex_lost :: "create_answer list" where
  "ex_lost = [NotSent, NotSent, NotSent, NotSent, NotSent, NoResponse ECONNRESET, NotSent, NotSent, NoResponse ECONNRESET, NotSent, NotSent, NoResponse ECONNRESET]"

lemma ex_lost_state:
  "(case cp_pc (snd (ex_steps ex_lost)) of
      Failed agent (UncertainCreate b) \<Rightarrow> map_of (cs_reservations (fst (ex_steps ex_lost))) ''n'' = Some (ag_ID agent) \<and> ag_ID agent = ''a'' | _ \<Rightarrow> False)
    \<and> length (filter snd (cp_posts (snd (ex_steps ex_lost)))) = 3"
  by code_simp

theorem create_single_home_witness:
  "length (cp_posts (snd (ex_steps ex_answers))) = 2 \<and> snd (cp_posts (snd (ex_steps ex_answers)) ! 0)
    \<and> fst (cp_posts (snd (ex_steps ex_answers)) ! 1) = fst (cp_posts (snd (ex_steps ex_answers)) ! 0)
    \<and> map_of (cs_reservations (fst (create_next (ex_env NotSent) (ex_steps ex_lost)))) ''n'' = Some ''a''
    \<and> (\<exists>u. map_of (cs_uncertainCreates (fst (create_next (ex_env NotSent) (ex_steps ex_lost)))) ''n'' = Some u \<and> uc_agentID u = ''a'')"
proof -
  let ?posts = "cp_posts (snd (ex_steps ex_answers))"
  have run: "create_run (newState [] None [] [] None) (new_creation (ex_request ''n'') [] None) (fst (ex_steps answers), snd (ex_steps answers))" for answers
    using ex_steps_run by simp
  have len: "length ?posts = 2" using arg_cong [OF ex_posts, of length] by simp
  have "map snd ?posts ! 0" using ex_posts by simp
  then have unsure: "snd (?posts ! 0)" using len by simp
  obtain agent b where f: "cp_pc (snd (ex_steps ex_lost)) = Failed agent (UncertainCreate b)"
      "map_of (cs_reservations (fst (ex_steps ex_lost))) ''n'' = Some (ag_ID agent)" "ag_ID agent = ''a''"
    using ex_lost_state by (auto split: create_pc.splits create_error.splits)
  have id: "cq_ID (ex_request ''n'') = ''n''" by (simp add: ex_request_def)
  have "map_of (cs_reservations (fst (create_next (ex_env NotSent) (ex_steps ex_lost)))) ''n'' = Some (ag_ID agent)
      \<and> map_of (cs_uncertainCreates (fst (create_next (ex_env NotSent) (ex_steps ex_lost)))) ''n'' =
          Some \<lparr>uc_runID = cq_RunID (ex_request ''n''), uc_generation = cq_Generation (ex_request ''n''), uc_agentID = ag_ID agent\<rparr>"
    using create_single_home [OF run [of ex_lost]] f(1,2) unfolding id prod.collapse by blast
  moreover have "fst (?posts ! 1) = fst (?posts ! 0)" using create_single_home [OF run [of ex_answers]] unsure len by force
  ultimately show ?thesis using len unsure f(3) by simp
qed

end
