(* ===== verification/Sequence_Ranges.thy ===== *)
theory Sequence_Ranges
  imports KPL_Prelude
begin

text \<open>
  \<^verbatim>\<open>sequenceRanges\<close> of \<^verbatim>\<open>internal/controller/run_metrics_window.go\<close>: the set of source sequence numbers a session has delivered, as
  ranges with gaps between them. \<open>Search\<close> is the binary search of \<^verbatim>\<open>sort.Search\<close>.

  The lemmas show that the ranges represent exactly the numbers added, in a form that depends on the set alone, so the order
  of arrival is not observable, and that \<open>through\<close> finds the end of the unbroken run at a number.
\<close>

subsection \<open>Binary search\<close>

function search_loop :: "(nat \<Rightarrow> bool) \<Rightarrow> nat \<Rightarrow> nat \<Rightarrow> nat" where
  "search_loop f i j =
     (if i < j then let h = (i + j) div 2 in if \<not> f h then search_loop f (h + 1) j else search_loop f i h else i)"
  by auto
termination by (relation "measure (\<lambda>(f, i, j). j - i)") auto

declare search_loop.simps [simp del]

definition Search :: "nat \<Rightarrow> (nat \<Rightarrow> bool) \<Rightarrow> nat" where
  "Search n f = search_loop f 0 n"

lemma search_loop_first:
  assumes "i \<le> j" "\<And>a b. a \<le> b \<Longrightarrow> b < n \<Longrightarrow> f a \<Longrightarrow> f b" "j \<le> n" "\<And>a. a < i \<Longrightarrow> \<not> f a" "j < n \<Longrightarrow> f j"
  shows "search_loop f i j \<le> n \<and> (\<forall>a < search_loop f i j. \<not> f a) \<and> (search_loop f i j < n \<longrightarrow> f (search_loop f i j))"
  using assms
proof (induction f i j rule: search_loop.induct)
  case (1 f i j)
  let ?h = "(i + j) div 2"
  show ?case
  proof (cases "i < j")
    case True
    then have h: "i \<le> ?h" "?h < j" by auto
    show ?thesis
    proof (cases "f ?h")
      case f: True
      have "search_loop f i j = search_loop f i ?h" using True f by (simp add: search_loop.simps [of f i j] Let_def)
      moreover have "search_loop f i ?h \<le> n \<and> (\<forall>a < search_loop f i ?h. \<not> f a) \<and> (search_loop f i ?h < n \<longrightarrow> f (search_loop f i ?h))"
      proof (rule 1(2) [OF True refl])
        show "\<not> \<not> f ?h" "f ?h" using f by auto
        show "i \<le> ?h" "?h \<le> n" using h 1(5) by auto
      qed (rule 1(4) 1(6), assumption+)+
      ultimately show ?thesis by metis
    next
      case f: False
      have less: "\<not> f a" if "a < ?h + 1" for a using f 1(4) [of a ?h] h 1(5) that by auto
      have "search_loop f i j = search_loop f (?h + 1) j"
        using True f by (simp add: search_loop.simps [of f i j] Let_def)
      moreover have "search_loop f (?h + 1) j \<le> n \<and> (\<forall>a < search_loop f (?h + 1) j. \<not> f a)
          \<and> (search_loop f (?h + 1) j < n \<longrightarrow> f (search_loop f (?h + 1) j))"
      proof (rule 1(1) [OF True refl f])
        show "?h + 1 \<le> j" using h by simp
        show "j \<le> n" by (rule 1(5))
      qed (rule 1(4) 1(7) less, assumption+)+
      ultimately show ?thesis by metis
    qed
  next
    case False
    then have "search_loop f i j = i" by (subst search_loop.simps) simp
    moreover have "i = j" using False 1(3) by simp
    ultimately have "search_loop f i j = i" "i = j" .
    then show ?thesis using 1(5-7) by auto
  qed
qed

text \<open>For a monotone test the search splits a list at the first element that passes it.\<close>

lemma Search_split:
  assumes "sorted_wrt (\<lambda>x y. P x \<longrightarrow> P y) xs"
  defines "i \<equiv> Search (length xs) (\<lambda>i. P (xs ! i))"
  shows "i \<le> length xs" "list_all (\<lambda>x. \<not> P x) (take i xs)" "i < length xs \<Longrightarrow> P (xs ! i)"
proof -
  have "P (xs ! b)" if "a \<le> b" "b < length xs" "P (xs ! a)" for a b
    using sorted_wrt_nth_less [OF assms(1), of a b] that by (cases "a = b") auto
  then have "i \<le> length xs \<and> (\<forall>a < i. \<not> P (xs ! a)) \<and> (i < length xs \<longrightarrow> P (xs ! i))"
    unfolding i_def Search_def by (intro search_loop_first) auto
  then show "i \<le> length xs" "list_all (\<lambda>x. \<not> P x) (take i xs)" "i < length xs \<Longrightarrow> P (xs ! i)"
    by (auto simp: list_all_length)
qed

lemma Search_cases:
  assumes "sorted_wrt (\<lambda>x y. P x \<longrightarrow> P y) xs"
  obtains "list_all (\<lambda>x. \<not> P x) xs" "Search (length xs) (\<lambda>i. P (xs ! i)) = length xs"
    | as b cs where "xs = as @ b # cs" "list_all (\<lambda>x. \<not> P x) as" "P b"
        "Search (length xs) (\<lambda>i. P (xs ! i)) = length as"
proof (cases "Search (length xs) (\<lambda>i. P (xs ! i)) < length xs")
  case True
  define i where "i = Search (length xs) (\<lambda>i. P (xs ! i))"
  note split = Search_split [OF assms, folded i_def]
  have i: "i < length xs" using True by (simp add: i_def)
  show ?thesis
  proof (rule that(2))
    show "xs = take i xs @ xs ! i # drop (Suc i) xs" using i by (rule id_take_nth_drop)
    show "Search (length xs) (\<lambda>i. P (xs ! i)) = length (take i xs)" using i by (simp add: i_def)
  qed (use split i in auto)
next
  case False
  moreover note Search_split [OF assms]
  ultimately show ?thesis by (intro that(1)) auto
qed

subsection \<open>Ranges\<close>

record sequenceRange =
  sr_first :: "64 word"
  sr_last :: "64 word"

type_synonym sequenceRanges = "sequenceRange list"

definition ranges_add :: "64 word \<Rightarrow> sequenceRanges \<Rightarrow> sequenceRanges" where
  "ranges_add sequence ranges =
     (if sequence = 0 then ranges
      else let i = Search (length ranges) (\<lambda>i. sr_last (ranges ! i) \<ge> sequence \<or> sr_last (ranges ! i) = sequence - 1)
      in if i = length ranges then ranges @ [\<lparr>sr_first = sequence, sr_last = sequence\<rparr>]
      else let r = ranges ! i
      in if sequence < sr_first r \<and> sr_first r - sequence > 1
         then take i ranges @ \<lparr>sr_first = sequence, sr_last = sequence\<rparr> # drop i ranges
      else let r = \<lparr>sr_first = min (sr_first r) sequence, sr_last = max (sr_last r) sequence\<rparr>
      in if i + 1 < length ranges \<and> sr_first (ranges ! (i + 1)) - sr_last r \<le> 1
         then take i ranges @ r\<lparr>sr_last := max (sr_last r) (sr_last (ranges ! (i + 1)))\<rparr> # drop (i + 2) ranges
         else ranges[i := r])"

definition ranges_through :: "sequenceRanges \<Rightarrow> 64 word \<Rightarrow> 64 word" where
  "ranges_through ranges start =
     (let i = Search (length ranges) (\<lambda>i. sr_last (ranges ! i) \<ge> start)
      in if start = 0 \<or> i = length ranges \<or> sr_first (ranges ! i) > start then 0 else sr_last (ranges ! i))"

text \<open>The numbers of a range list, and its form: ascending, without empty or adjacent ranges.\<close>

definition ranges_set :: "sequenceRanges \<Rightarrow> nat set" where
  "ranges_set rs = (\<Union>r\<in>set rs. {unat (sr_first r)..unat (sr_last r)})"

definition apart :: "sequenceRange \<Rightarrow> sequenceRange \<Rightarrow> bool" where
  "apart a b \<longleftrightarrow> unat (sr_last a) + 1 < unat (sr_first b)"

definition range_ok :: "sequenceRange \<Rightarrow> bool" where
  "range_ok r \<longleftrightarrow> sr_first r \<noteq> 0 \<and> sr_first r \<le> sr_last r"

definition ranges_ok :: "sequenceRanges \<Rightarrow> bool" where
  "ranges_ok rs \<longleftrightarrow> list_all range_ok rs \<and> sorted_wrt apart rs"

lemma ranges_set_simps [simp]:
  "ranges_set [] = {}"
  "ranges_set (r # rs) = {unat (sr_first r)..unat (sr_last r)} \<union> ranges_set rs"
  "ranges_set (rs @ ss) = ranges_set rs \<union> ranges_set ss"
  by (auto simp: ranges_set_def)

lemma ranges_ok_simps [simp]:
  "ranges_ok []"
  "ranges_ok (r # rs) \<longleftrightarrow> range_ok r \<and> ranges_ok rs \<and> (\<forall>s\<in>set rs. apart r s)"
  "ranges_ok (rs @ ss) \<longleftrightarrow> ranges_ok rs \<and> ranges_ok ss \<and> (\<forall>r\<in>set rs. \<forall>s\<in>set ss. apart r s)"
  by (auto simp: ranges_ok_def sorted_wrt_append)

lemma range_ok_nat: "range_ok r \<longleftrightarrow> 0 < unat (sr_first r) \<and> unat (sr_first r) \<le> unat (sr_last r)"
  by (simp add: range_ok_def word_le_nat_alt unat_gt_0)

text \<open>The tests of the code on words, as arithmetic.\<close>

lemma reaches_nat:
  fixes x s :: "64 word"
  assumes "s \<noteq> 0"
  shows "x \<ge> s \<or> x = s - 1 \<longleftrightarrow> unat s \<le> unat x + 1"
proof -
  have "unat (s - 1) = unat s - 1" using assms by (simp add: unat_minus_one)
  moreover have "0 < unat s" using assms by (simp add: unat_gt_0)
  moreover have "x = s - 1 \<longleftrightarrow> unat x = unat (s - 1)" by (rule word_unat_eq_iff)
  ultimately have "x = s - 1 \<longleftrightarrow> unat x + 1 = unat s" by linarith
  then show ?thesis unfolding word_le_nat_alt by linarith
qed

lemma near_nat: "s < x \<Longrightarrow> x - s \<le> 1 \<longleftrightarrow> unat x \<le> unat s + 1" for x s :: "64 word"
proof -
  assume "s < x"
  then have "unat (x - s) = unat x - unat s" by (intro unat_sub less_imp_le)
  then show ?thesis unfolding word_le_nat_alt by (simp add: le_diff_conv)
qed

lemma far_nat: "s < x \<and> x - s > 1 \<longleftrightarrow> unat s + 1 < unat x" for x s :: "64 word"
proof (cases "s < x")
  case True
  then show ?thesis using near_nat [OF True] by (simp add: not_le [symmetric])
next
  case False
  then show ?thesis by (simp add: word_less_nat_alt)
qed

lemma unat_min_max:
  "unat (min x y) = min (unat x) (unat y)" "unat (max x y) = max (unat x) (unat y)" for x y :: "64 word"
  by (auto simp: min_def max_def word_le_nat_alt)

lemma reaches_mono:
  assumes "ranges_ok rs"
  shows "sorted_wrt (\<lambda>a b. unat s \<le> unat (sr_last a) + k \<longrightarrow> unat s \<le> unat (sr_last b) + k) rs"
proof (rule sorted_wrt_mono_rel)
  show "sorted_wrt apart rs" using assms by (simp add: ranges_ok_def)
  fix a b assume "b \<in> set rs" "apart a b"
  moreover have "range_ok b" using assms \<open>b \<in> set rs\<close> by (auto simp: ranges_ok_def list_all_iff)
  ultimately show "unat s \<le> unat (sr_last a) + k \<longrightarrow> unat s \<le> unat (sr_last b) + k"
    unfolding apart_def range_ok_nat by linarith
qed

lemma add_search:
  assumes "ranges_ok rs" "s \<noteq> 0"
  obtains "list_all (\<lambda>r. unat (sr_last r) + 1 < unat s) rs" "ranges_add s rs = rs @ [\<lparr>sr_first = s, sr_last = s\<rparr>]"
  | as b cs where "rs = as @ b # cs" "list_all (\<lambda>r. unat (sr_last r) + 1 < unat s) as"
      "unat s \<le> unat (sr_last b) + 1" "unat s + 1 < unat (sr_first b)"
      "ranges_add s rs = as @ \<lparr>sr_first = s, sr_last = s\<rparr> # b # cs"
  | as b c cs where "rs = as @ b # c # cs" "list_all (\<lambda>r. unat (sr_last r) + 1 < unat s) as"
      "unat s \<le> unat (sr_last b) + 1" "unat (sr_first b) \<le> unat s + 1" "unat (sr_first c) = unat s + 1"
      "ranges_add s rs = as @ \<lparr>sr_first = min (sr_first b) s, sr_last = sr_last c\<rparr> # cs"
  | as b cs where "rs = as @ b # cs" "list_all (\<lambda>r. unat (sr_last r) + 1 < unat s) as"
      "unat s \<le> unat (sr_last b) + 1" "unat (sr_first b) \<le> unat s + 1"
      "\<And>c. c \<in> set cs \<Longrightarrow> unat s + 1 < unat (sr_first c)"
      "ranges_add s rs = as @ \<lparr>sr_first = min (sr_first b) s, sr_last = max (sr_last b) s\<rparr> # cs"
proof -
  let ?P = "\<lambda>r. unat s \<le> unat (sr_last r) + 1"
  have find: "(\<lambda>i. sr_last (rs ! i) \<ge> s \<or> sr_last (rs ! i) = s - 1) = (\<lambda>i. ?P (rs ! i))"
    using reaches_nat [OF assms(2)] by auto
  have not: "(\<lambda>r. \<not> ?P r) = (\<lambda>r. unat (sr_last r) + 1 < unat s)" by auto
  show ?thesis
  proof (cases rule: Search_cases [OF reaches_mono [OF assms(1), of s 1]])
    case 1
    then show ?thesis using that(1) assms(2) unfolding not ranges_add_def find by simp
  next
    case (2 as b cs)
    let ?r = "\<lparr>sr_first = min (sr_first b) s, sr_last = max (sr_last b) s\<rparr>"
    note ok = assms(1) [unfolded 2(1)]
    show ?thesis
    proof (cases "unat s + 1 < unat (sr_first b)")
      case True
      then have "ranges_add s rs = as @ \<lparr>sr_first = s, sr_last = s\<rparr> # b # cs"
        using 2 assms(2) unfolding ranges_add_def find far_nat by simp
      then show ?thesis using that(2) 2 True unfolding not by blast
    next
      case False
      show ?thesis
      proof (cases cs)
        case Nil
        then have "ranges_add s rs = as @ [?r]"
          using 2 assms(2) False unfolding ranges_add_def find far_nat by (simp add: Let_def)
        then show ?thesis using that(4) [of as b cs] 2 False Nil unfolding not by simp
      next
        case (Cons c ds)
        have bc: "unat (sr_last b) + 1 < unat (sr_first c)" "unat (sr_first c) \<le> unat (sr_last c)"
          using ok Cons by (auto simp: apart_def range_ok_nat)
        then have "max (sr_last b) s < sr_first c" using 2(3) by (auto simp: max_def word_less_nat_alt)
        from near_nat [OF this]
        have near: "sr_first c - max (sr_last b) s \<le> 1 \<longleftrightarrow> unat (sr_first c) = unat s + 1"
          using bc 2(3) by (auto simp: unat_min_max)
        have cs: "unat (sr_first c) < unat (sr_first d)" if "d \<in> set ds" for d
          using that ok bc Cons by (fastforce simp: apart_def)
        show ?thesis
        proof (cases "unat (sr_first c) = unat s + 1")
          case True
          then have "max (max (sr_last b) s) (sr_last c) = sr_last c"
            using bc by (auto simp: max_def word_le_nat_alt)
          then have "ranges_add s rs = as @ \<lparr>sr_first = min (sr_first b) s, sr_last = sr_last c\<rparr> # ds"
            using 2 assms(2) False True near Cons unfolding ranges_add_def find far_nat by (simp add: Let_def nth_append)
          then show ?thesis using that(3) [of as b c ds] 2 False True Cons unfolding not by simp
        next
          case apart: False
          have "ranges_add s rs = as @ ?r # cs"
            using 2 assms(2) False apart near Cons unfolding ranges_add_def find far_nat by (simp add: Let_def nth_append)
          moreover have "unat s + 1 < unat (sr_first d)" if "d \<in> set cs" for d
            using that Cons cs [of d] bc 2(3) apart by auto
          ultimately show ?thesis using that(4) [of as b cs] 2 False unfolding not by simp
        qed
      qed
    qed
  qed
qed

lemma ranges_add_set:
  assumes "ranges_ok rs"
  shows "ranges_set (ranges_add s rs) = (if s = 0 then ranges_set rs else insert (unat s) (ranges_set rs))"
proof (cases "s = 0")
  case False
  from assms False show ?thesis
  proof (cases rule: add_search)
    case (3 as b c cs)
    then have "unat (sr_last b) + 1 < unat (sr_first c)" "unat (sr_first c) \<le> unat (sr_last c)"
      using assms by (auto simp: apart_def range_ok_nat)
    then show ?thesis using 3 False by (auto simp: unat_min_max)
  qed (use False in \<open>auto simp: unat_min_max\<close>)
qed (simp add: ranges_add_def)

lemma ranges_add_ok:
  assumes "ranges_ok rs"
  shows "ranges_ok (ranges_add s rs)"
proof (cases "s = 0")
  case False
  then have s: "0 < unat s" by (simp add: unat_gt_0)
  from assms False show ?thesis
  proof (cases rule: add_search)
    case 1
    then show ?thesis using assms s by (auto simp: range_ok_nat apart_def list_all_iff)
  next
    case (2 as b cs)
    then have "unat s + 1 < unat (sr_first c)" if "c \<in> set cs" for c
      using assms that by (force simp: apart_def range_ok_nat)
    then show ?thesis using 2 assms s by (auto simp: range_ok_nat apart_def list_all_iff)
  next
    case (3 as b c cs)
    then show ?thesis using assms s
      by (auto simp: range_ok_nat apart_def list_all_iff unat_min_max word_le_nat_alt min_def)
  next
    case (4 as b cs)
    then have "Suc (max (unat (sr_last b)) (unat s)) < unat (sr_first c)" if "c \<in> set cs" for c
      using assms that by (auto simp: apart_def max_def)
    then show ?thesis using 4 assms s by (auto simp: range_ok_nat apart_def list_all_iff unat_min_max)
  qed
qed (use assms in \<open>simp add: ranges_add_def\<close>)

subsection \<open>The run at a number\<close>

lemma through_search:
  assumes "ranges_ok rs" "s \<noteq> 0"
  obtains "unat s \<notin> ranges_set rs" "ranges_through rs s = 0"
  | as b cs where "rs = as @ b # cs" "unat (sr_first b) \<le> unat s" "unat s \<le> unat (sr_last b)" "ranges_through rs s = sr_last b"
proof -
  let ?P = "\<lambda>r. unat s \<le> unat (sr_last r) + 0"
  have find: "(\<lambda>i. sr_last (rs ! i) \<ge> s) = (\<lambda>i. ?P (rs ! i))" by (auto simp: word_le_nat_alt)
  show ?thesis
  proof (cases rule: Search_cases [OF reaches_mono [OF assms(1), of s 0]])
    case 1
    then have "unat s \<notin> ranges_set rs" by (auto simp: list_all_iff ranges_set_def)
    then show ?thesis using that(1) 1(2) assms(2) unfolding ranges_through_def find by simp
  next
    case (2 as b cs)
    show ?thesis
    proof (cases "sr_first b > s")
      case True
      have "unat s < unat (sr_first c)" if "c \<in> set (b # cs)" for c
        using that True assms(1) 2 by (fastforce simp: word_less_nat_alt apart_def range_ok_nat)
      then have "unat s \<notin> ranges_set rs" using 2 by (fastforce simp: list_all_iff ranges_set_def)
      then show ?thesis using that(1) True 2 assms(2) unfolding ranges_through_def find by simp
    next
      case False
      then have "ranges_through rs s = sr_last b" using 2 assms(2) unfolding ranges_through_def find by simp
      then show ?thesis using that(2) [of as b cs] False 2 by (simp add: word_less_nat_alt)
    qed
  qed
qed

lemma ranges_through_member:
  assumes "ranges_ok rs" "s \<noteq> 0"
  shows "ranges_through rs s \<noteq> 0 \<longleftrightarrow> unat s \<in> ranges_set rs"
proof (cases rule: through_search [OF assms])
  case (2 as b cs)
  then have "0 < unat (sr_last b)" using assms(1) by (auto simp: range_ok_nat)
  then show ?thesis using 2 by (auto simp: unat_gt_0)
qed simp

text \<open>The answer is the last number of the unbroken run that starts at the argument.\<close>

lemma ranges_through_run:
  assumes "ranges_ok rs" "unat s \<in> ranges_set rs"
  shows "unat s \<le> unat (ranges_through rs s)" "{unat s..unat (ranges_through rs s)} \<subseteq> ranges_set rs"
    "unat (ranges_through rs s) + 1 \<notin> ranges_set rs"
proof -
  have pos: "0 < n" if "n \<in> ranges_set rs" for n
    using assms(1) that by (fastforce simp: ranges_ok_def ranges_set_def list_all_iff range_ok_nat)
  then have "s \<noteq> 0" using assms(2) by fastforce
  then have "(\<exists>as b cs. rs = as @ b # cs \<and> unat (sr_first b) \<le> unat s \<and> unat s \<le> unat (sr_last b) \<and> ranges_through rs s = sr_last b)"
    using assms by (cases rule: through_search [OF assms(1) \<open>s \<noteq> 0\<close>]) blast+
  then obtain as b cs where b: "rs = as @ b # cs" "unat (sr_first b) \<le> unat s" "unat s \<le> unat (sr_last b)" "ranges_through rs s = sr_last b"
    by blast
  then show "unat s \<le> unat (ranges_through rs s)" "{unat s..unat (ranges_through rs s)} \<subseteq> ranges_set rs" by auto
  have "unat (sr_last a) < unat (sr_last b)" if "a \<in> set as" for a
    using assms(1) b(1-3) that by (fastforce simp: apart_def)
  moreover have "unat (sr_last b) + 1 < unat (sr_first c)" if "c \<in> set cs" for c
    using assms(1) b(1) that by (fastforce simp: apart_def)
  ultimately show "unat (ranges_through rs s) + 1 \<notin> ranges_set rs"
    unfolding b(4) using b(1) by (fastforce simp: ranges_set_def)
qed

subsection \<open>The form depends on the set alone\<close>

lemma first_least:
  assumes "ranges_ok (r # rs)" "n \<in> ranges_set (r # rs)"
  shows "unat (sr_first r) \<le> n"
  using assms by (fastforce simp: ranges_set_def apart_def range_ok_nat)

lemma last_gap:
  assumes "ranges_ok (r # rs)"
  shows "unat (sr_last r) + 1 \<notin> ranges_set (r # rs)"
  using assms by (fastforce simp: ranges_set_def apart_def)

lemma rest_beyond:
  assumes "ranges_ok (r # rs)"
  shows "ranges_set rs = ranges_set (r # rs) - {unat (sr_first r)..unat (sr_last r)}"
  using assms by (fastforce simp: ranges_set_def apart_def)

lemma ranges_canonical:
  assumes "ranges_ok rs" "ranges_ok ss" "ranges_set rs = ranges_set ss"
  shows "rs = ss"
  using assms
proof (induction rs arbitrary: ss)
  case Nil
  then show ?case by (cases ss) (auto simp: range_ok_nat)
next
  case (Cons r rs)
  then obtain t ts where ss: "ss = t # ts" by (cases ss) (auto simp: range_ok_nat)
  note set = Cons.prems(3) [unfolded ss]
  have ok: "range_ok r" "range_ok t" "ranges_ok rs" "ranges_ok ts" using Cons.prems ss by auto
  have "unat (sr_first r) \<in> ranges_set (r # rs)" "unat (sr_first t) \<in> ranges_set (t # ts)"
    using ok by (auto simp: range_ok_nat)
  then have first: "unat (sr_first r) = unat (sr_first t)"
    using first_least [OF Cons.prems(1)] first_least [OF Cons.prems(2) [unfolded ss]] set by (simp only: order_antisym)
  have "\<not> unat (sr_last r) < unat (sr_last t)"
    using last_gap [OF Cons.prems(1)] ok first unfolding set by (auto simp: range_ok_nat)
  moreover have "\<not> unat (sr_last t) < unat (sr_last r)"
    using last_gap [OF Cons.prems(2) [unfolded ss]] ok first unfolding set [symmetric] by (auto simp: range_ok_nat)
  ultimately have last: "unat (sr_last r) = unat (sr_last t)" by simp
  have "ranges_set rs = ranges_set ts"
    using rest_beyond [OF Cons.prems(1)] rest_beyond [OF Cons.prems(2) [unfolded ss]] set first last by simp
  then have "rs = ts" using Cons.IH ok by simp
  moreover have "r = t" using first last by (cases r, cases t) (simp add: word_unat_eq_iff)
  ultimately show ?case using ss by simp
qed

lemma ranges_fold:
  assumes "ranges_ok rs"
  shows "ranges_ok (fold ranges_add ss rs) \<and> ranges_set (fold ranges_add ss rs) = ranges_set rs \<union> unat ` (set ss - {0})"
  using assms by (induction ss arbitrary: rs) (auto simp: ranges_add_ok ranges_add_set)

text \<open>
  C11. However the sequence numbers of a session arrive, its ranges hold exactly the numbers received; \<open>through\<close> answers 0
  for a number not received and otherwise the last number of the unbroken run from it; and the ranges do not depend on the
  order or the repetition of arrivals.
\<close>

theorem sequence_ranges_refine:
  fixes ss ts :: "64 word list"
  assumes "start \<noteq> 0"
  shows "(ranges_through (fold ranges_add ss []) start = 0 \<longleftrightarrow> start \<notin> set ss)
    \<and> (start \<in> set ss \<longrightarrow> (let end = ranges_through (fold ranges_add ss []) start in start \<le> end
         \<and> {unat start..unat end} \<subseteq> unat ` set ss \<and> unat end + 1 \<notin> unat ` set ss))
    \<and> (set ts - {0} = set ss - {0} \<longrightarrow> fold ranges_add ts [] = fold ranges_add ss [])"
proof -
  define rs where "rs = fold ranges_add ss []"
  have ok: "ranges_ok rs" and set: "ranges_set rs = unat ` (set ss - {0})"
    using ranges_fold [of "[]" ss] by (auto simp: rs_def)
  have mem: "unat start \<in> ranges_set rs \<longleftrightarrow> start \<in> set ss"
    using assms by (auto simp: set) (metis word_unat_eq_iff)
  have run: "start \<le> ranges_through rs start \<and> {unat start..unat (ranges_through rs start)} \<subseteq> unat ` set ss
      \<and> unat (ranges_through rs start) + 1 \<notin> unat ` set ss" if "start \<in> set ss"
    using ranges_through_run [OF ok, of start] mem that by (auto simp: set word_le_nat_alt)
  have "fold ranges_add ts [] = rs" if "set ts - {0} = set ss - {0}"
    using ranges_fold [of "[]" ts] ok set that by (intro ranges_canonical) auto
  then show ?thesis
    unfolding rs_def [symmetric] Let_def using ranges_through_member [OF ok assms] mem run by blast
qed

theorem sequence_ranges_refine_witness:
  "ranges_through (fold ranges_add [5, 3, 4, 9, 3] []) 3 = 5
   \<and> (ranges_through (fold ranges_add [5, 3, 4, 9, 3 :: 64 word] []) 3 = 0 \<longleftrightarrow> 3 \<notin> set [5, 3, 4, 9, 3 :: 64 word])
   \<and> fold ranges_add [9, 3, 5, 4] [] = fold ranges_add [5, 3, 4, 9, 3] []"
proof (intro conjI)
  have three: "(3 :: 64 word) \<noteq> 0" by simp
  show "ranges_through (fold ranges_add [5, 3, 4, 9, 3] []) 3 = 5" by code_simp
  show "ranges_through (fold ranges_add [5, 3, 4, 9, 3 :: 64 word] []) 3 = 0 \<longleftrightarrow> 3 \<notin> set [5, 3, 4, 9, 3 :: 64 word]"
    by (rule sequence_ranges_refine [OF three, of "[5, 3, 4, 9, 3]", THEN conjunct1])
  show "fold ranges_add [9, 3, 5, 4] [] = fold ranges_add [5, 3, 4, 9, 3] []"
    by (rule sequence_ranges_refine [OF three, of "[5, 3, 4, 9, 3]" "[9, 3, 5, 4]", THEN conjunct2, THEN conjunct2, THEN mp]) auto
qed

end
