(* ===== verification/Trace_Event.thy ===== *)
theory Trace_Event
  imports Agent_Registry Sequence_Ranges Go_Bytes
begin

text \<open>
  The telemetry events of \<^verbatim>\<open>internal/model/model.go\<close> and \<^verbatim>\<open>bandwidth.go\<close> with the accessors that \<^verbatim>\<open>internal/controller\<close> uses on
  them: untyped fields (\<^verbatim>\<open>numericEventField\<close>, \<^verbatim>\<open>targetNodeIDs\<close>, \<^verbatim>\<open>nonnegativeMetricNumber\<close>) and the identity of an event
  (\<^verbatim>\<open>eventIdentity\<close>).
\<close>

subsection \<open>Signed 64-bit arithmetic\<close>

definition MaxInt64 :: int where "MaxInt64 = 2 ^ 63 - 1"

definition wrap64 :: "int \<Rightarrow> int" where
  "wrap64 x = (x + 2 ^ 63) mod 2 ^ 64 - 2 ^ 63"

definition int64_range :: "int \<Rightarrow> bool" where
  "int64_range x \<longleftrightarrow> - (2 ^ 63) \<le> x \<and> x \<le> MaxInt64"

lemma wrap64_range [simp]: "int64_range x \<Longrightarrow> wrap64 x = x"
  by (simp add: wrap64_def int64_range_def MaxInt64_def)

lemma wrap64_nonneg: "0 \<le> x \<Longrightarrow> x \<le> MaxInt64 \<Longrightarrow> wrap64 x = x"
  by (simp add: int64_range_def)

subsection \<open>Untyped values\<close>

text \<open>
  An \<^verbatim>\<open>any\<close> by its dynamic type. \<^verbatim>\<open>[]string\<close> and \<^verbatim>\<open>[]any\<close> may be nil; the integer types are \<open>VInt\<close> for those
  \<^verbatim>\<open>numericEventField\<close> knows and \<open>VOtherInt\<close> for the others; \<open>VNumber\<close> holds what the method \<^verbatim>\<open>Float64\<close> of a
  \<^verbatim>\<open>json.Number\<close> returns, \<open>VFloat32\<close> the value converted to \<^verbatim>\<open>float64\<close>.
\<close>

datatype any_field =
    VString string
  | VBool bool
  | VFloat f64
  | VFloat32 f64
  | VInt int
  | VOtherInt int
  | VNumber "f64 option"
  | VStrings "string list option"
  | VList "any_field list option"
  | VOther

text \<open>\<^verbatim>\<open>s, _ := fields[key].(string)\<close> and the same for a Boolean: the zero value on a miss.\<close>

definition string_field :: "any_field gomap \<Rightarrow> string \<Rightarrow> string" where
  "string_field fs key = (case map_of fs key of Some (VString s) \<Rightarrow> s | _ \<Rightarrow> [])"

definition bool_field :: "any_field gomap \<Rightarrow> string \<Rightarrow> bool" where
  "bool_field fs key = (case map_of fs key of Some (VBool b) \<Rightarrow> b | _ \<Rightarrow> False)"

definition numericEventField :: "any_field gomap \<Rightarrow> string \<Rightarrow> f64 \<times> bool" where
  "numericEventField fs key =
     (case map_of fs key of
        None \<Rightarrow> (Fin 0, False)
      | Some (VFloat x) \<Rightarrow> (x, True)
      | Some (VFloat32 x) \<Rightarrow> (x, True)
      | Some (VInt i) \<Rightarrow> (float_of i, True)
      | Some (VNumber (Some x)) \<Rightarrow> (x, True)
      | Some _ \<Rightarrow> (Fin 0, False))"

fun string_items :: "any_field list \<Rightarrow> string list option" where
  "string_items [] = Some []"
| "string_items (VString s # xs) = map_option ((#) s) (string_items xs)"
| "string_items (_ # xs) = None"

definition targetNodeIDs :: "any_field option \<Rightarrow> string list option" where
  "targetNodeIDs value =
     (case value of
        Some (VStrings ids) \<Rightarrow> ids
      | Some (VList (Some items)) \<Rightarrow> string_items items
      | _ \<Rightarrow> None)"

definition nonnegativeMetricNumber :: "any_field option \<Rightarrow> f64 \<times> bool" where
  "nonnegativeMetricNumber value =
     (let found = (\<lambda>number. (number, f_le (Fin 0) number \<and> f_finite number))
      in case value of
        Some (VFloat x) \<Rightarrow> found x
      | Some (VFloat32 x) \<Rightarrow> found x
      | Some (VInt i) \<Rightarrow> found (float_of i)
      | Some (VOtherInt i) \<Rightarrow> found (float_of i)
      | Some (VNumber (Some x)) \<Rightarrow> found x
      | _ \<Rightarrow> (Fin 0, False))"

definition nonnegativeMetricCount :: "any_field option \<Rightarrow> f64 \<times> bool" where
  "nonnegativeMetricCount value =
     (case nonnegativeMetricNumber value of (number, ok) \<Rightarrow> (number, ok \<and> f_eq (f_floor number) number))"

definition nonnegativeEventCount :: "any_field gomap \<Rightarrow> string \<Rightarrow> int" where
  "nonnegativeEventCount fs key =
     (case nonnegativeMetricCount (map_of fs key) of (number, ok) \<Rightarrow>
        if \<not> ok \<or> f_lt (Fin (2 ^ 31 - 1)) number then 0 else int64_of number)"

lemma nonnegativeEventCount_range: "0 \<le> nonnegativeEventCount fs key \<and> nonnegativeEventCount fs key \<le> 2 ^ 31 - 1"
proof -
  obtain number ok where n: "nonnegativeMetricCount (map_of fs key) = (number, ok)" by fastforce
  then have "ok \<Longrightarrow> f_le (Fin 0) number \<and> f_finite number"
    by (auto simp: nonnegativeMetricCount_def nonnegativeMetricNumber_def Let_def split: prod.splits option.splits any_field.splits)
  note ok = this
  show ?thesis
  proof (cases "ok \<and> \<not> f_lt (Fin (2 ^ 31 - 1)) number")
    case True
    then obtain a where a: "number = Fin a" "0 \<le> a" "a \<le> 2 ^ 31 - 1" using ok by (auto simp: f_finite_iff)
    then have "0 \<le> \<lfloor>a\<rfloor>" "\<lfloor>a\<rfloor> \<le> 2 ^ 31 - 1" by (simp_all add: floor_le_iff)
    then show ?thesis using True n a(1,2) by (simp add: nonnegativeEventCount_def int64_of_def)
  next
    case False
    then show ?thesis using n by (auto simp: nonnegativeEventCount_def)
  qed
qed

subsection \<open>Events\<close>

record BandwidthProtocol =
  bp_Protocol :: string
  bp_ReceivedBytes :: int
  bp_SentBytes :: int

record BandwidthSample =
  bs_ElapsedNS :: int
  bs_ReceivedBytes :: int
  bs_SentBytes :: int
  bs_Protocols :: "BandwidthProtocol list"
  bs_Final :: bool

record TraceEvent =
  te_ScoreSample :: "PeerScoreSample option"
  te_Group :: string
  te_Bandwidth :: "BandwidthSample option"
  te_SessionID :: string
  te_Sequence :: "64 word"
  te_EventID :: string
  te_RunID :: string
  te_AgentID :: string
  te_NodeID :: string
  te_PeerID :: string
  te_Type :: string
  te_MessageID :: string
  te_RemotePeerID :: string
  te_Topic :: string
  te_Timestamp :: gotime
  te_LatencyMS :: f64
  te_Fields :: "any_field gomap"

record EventBatch =
  eb_AgentID :: string
  eb_Events :: "TraceEvent list"

definition zero_event :: TraceEvent where
  "zero_event = \<lparr>te_ScoreSample = None, te_Group = [], te_Bandwidth = None, te_SessionID = [], te_Sequence = 0, te_EventID = [],
     te_RunID = [], te_AgentID = [], te_NodeID = [], te_PeerID = [], te_Type = [], te_MessageID = [], te_RemotePeerID = [],
     te_Topic = [], te_Timestamp = 0, te_LatencyMS = Fin 0, te_Fields = []\<rparr>"

text \<open>The keys \<^verbatim>\<open>measurementSessionKey\<close>, \<^verbatim>\<open>bandwidthSessionKey\<close> (Peer and session) and \<^verbatim>\<open>messageMetricKey\<close> (topic and message).\<close>

type_synonym session_key = "string \<times> string"
type_synonym message_key = "string \<times> string"

text \<open>The test \<^verbatim>\<open>event.SessionID != "" && event.Sequence > 0\<close>.\<close>

definition sequenced :: "TraceEvent \<Rightarrow> bool" where
  "sequenced event \<longleftrightarrow> te_SessionID event \<noteq> [] \<and> te_Sequence event > 0"

definition eventIdentity :: "TraceEvent \<Rightarrow> string" where
  "eventIdentity event =
     (if sequenced event
      then te_NodeID event @ CHR 0x00 # ''session:'' @ te_SessionID event @ '':'' @ Itoa (uint (te_Sequence event))
      else if te_EventID event = [] then []
      else te_NodeID event @ CHR 0x00 # te_EventID event)"

end
