(* ===== verification/Window_Metrics.thy ===== *)
theory Window_Metrics
  imports Trace_Event
begin

text \<open>
  \<^verbatim>\<open>internal/controller/run_metrics_window.go\<close>: the delivery metrics of a run. Every Peer reports, in a session with
  numbered events, when its measurement starts, is alive and stops; every publication has a delivery window. The
  accumulator keeps the evidence (\<open>window_observe\<close>), and the summary decides for each publication and each session
  whether a delivery was expected, made in time, missed or unknown (\<open>window_summarize\<close>).

  The context of a summary is never cancelled here: a cancelled call returns an error and no metrics. The field
  \<^verbatim>\<open>research\<close> of a delivery is set by offline exports only. Counters are unbounded: they count stored events.
\<close>

subsection \<open>Evidence\<close>

record sessionProof =
  sp_at :: gotime
  sp_sequence :: "64 word"

record measurementSession =
  ms_key :: session_key
  ms_started :: bool
  ms_start :: sessionProof
  ms_topics :: "string list"
  ms_known :: bool
  ms_sequences :: sequenceRanges
  ms_proofs :: "sessionProof list"
  ms_stop :: "sessionProof option"
  ms_invalid :: bool

record windowPublication =
  wp_key :: message_key
  wp_publisher :: string
  wp_sessionID :: string
  wp_auditTargets :: "string list"
  wp_at :: gotime
  wp_deadline :: gotime
  wp_valid :: bool
  wp_local :: bool

record deliveryMetric =
  dm_timestamp :: gotime
  dm_agentID :: string
  dm_latencyMS :: f64
  dm_latencyAvailable :: bool
  dm_clockSynchronized :: bool
  dm_latencyUncertaintyMS :: f64

record windowDelivery =
  wd_proof :: sessionProof
  wd_value :: deliveryMetric

record windowReceipts =
  wr_deliveries :: "windowDelivery list"
  wr_duplicates :: "sessionProof list"

record sessionWindowAccumulator =
  wa_enabled :: bool
  wa_incomplete :: bool
  wa_sessions :: "(session_key \<times> measurementSession) list"
  wa_publications :: "(message_key \<times> windowPublication) list"
  wa_receipts :: "(message_key \<times> (session_key \<times> windowReceipts) list) list"
  wa_terminations :: "gotime list gomap"

definition new_window :: sessionWindowAccumulator where
  "new_window = \<lparr>wa_enabled = False, wa_incomplete = False, wa_sessions = [], wa_publications = [], wa_receipts = [], wa_terminations = []\<rparr>"

definition new_session :: "session_key \<Rightarrow> measurementSession" where
  "new_session key = \<lparr>ms_key = key, ms_started = False, ms_start = \<lparr>sp_at = 0, sp_sequence = 0\<rparr>, ms_topics = [], ms_known = False,
     ms_sequences = [], ms_proofs = [], ms_stop = None, ms_invalid = False\<rparr>"

definition sessionWindowDefinition :: string where
  "sessionWindowDefinition = ''session-window-v1''"

definition isLifecycle :: "TraceEvent \<Rightarrow> bool" where
  "isLifecycle e \<longleftrightarrow> te_Type e = ''measurement_start'' \<or> te_Type e = ''measurement_checkpoint'' \<or> te_Type e = ''measurement_stop''"

definition session_start :: "TraceEvent \<Rightarrow> measurementSession \<Rightarrow> measurementSession" where
  "session_start e s =
     (if \<not> ms_started s \<or> te_Sequence e < sp_sequence (ms_start s)
      then let topics = targetNodeIDs (map_of (te_Fields e) ''subscribedTopics'')
           in s\<lparr>ms_started := True, ms_start := \<lparr>sp_at = te_Timestamp e, sp_sequence = te_Sequence e\<rparr>,
                ms_known := topics \<noteq> None, ms_topics := remdups (elems topics)\<rparr>
      else s)"

definition session_proof :: "TraceEvent \<Rightarrow> measurementSession \<Rightarrow> measurementSession" where
  "session_proof e s =
     (let proof = \<lparr>sp_at = te_Timestamp e, sp_sequence = te_Sequence e\<rparr>;
          s = s\<lparr>ms_proofs := ms_proofs s @ [proof]\<rparr>
      in if te_Type e = ''measurement_stop'' \<and> (case ms_stop s of None \<Rightarrow> True | Some stop \<Rightarrow> te_Sequence e < sp_sequence stop)
         then s\<lparr>ms_stop := Some proof\<rparr> else s)"

definition session_observe :: "TraceEvent \<Rightarrow> measurementSession \<Rightarrow> measurementSession" where
  "session_observe e s =
     (let s = s\<lparr>ms_sequences := ranges_add (te_Sequence e) (ms_sequences s)\<rparr>;
          s = (if te_Sequence e = 0 then s\<lparr>ms_invalid := True\<rparr> else s)
      in if te_Type e = ''measurement_start'' then session_start e s
         else if te_Type e = ''measurement_checkpoint'' \<or> te_Type e = ''measurement_stop'' then session_proof e s
         else s)"

definition publication_of :: "TraceEvent \<Rightarrow> windowPublication" where
  "publication_of e =
     (let base = \<not> IsZero (te_Timestamp e) \<and> te_MessageID e \<noteq> [] \<and> te_NodeID e \<noteq> [];
          (window, valid) =
            (case map_of (te_Fields e) ''deliveryWindow'' of
               None \<Rightarrow> (10 * second, base)
             | Some (VString s) \<Rightarrow>
                 (case ParseDuration s of
                    Inl _ \<Rightarrow> (10 * second, False)
                  | Inr d \<Rightarrow> if d \<le> 0 \<or> d > 3600 * second then (10 * second, False) else (d, base))
             | Some _ \<Rightarrow> (10 * second, False))
      in \<lparr>wp_key = (te_Topic e, te_MessageID e), wp_publisher = te_NodeID e, wp_sessionID = te_SessionID e,
          wp_auditTargets = elems (targetNodeIDs (map_of (te_Fields e) ''targetNodeIds'')), wp_at = te_Timestamp e,
          wp_deadline = te_Timestamp e + window, wp_valid = valid, wp_local = bool_field (te_Fields e) ''localPublication''\<rparr>)"

definition delivery_of :: "TraceEvent \<Rightarrow> deliveryMetric" where
  "delivery_of e =
     \<lparr>dm_timestamp = te_Timestamp e, dm_agentID = te_AgentID e, dm_latencyMS = te_LatencyMS e,
      dm_latencyAvailable = (string_field (te_Fields e) ''payloadEncoding'' = ''envelope'' \<and> bool_field (te_Fields e) ''latencyAvailable''),
      dm_clockSynchronized = bool_field (te_Fields e) ''latencyClockSynchronized'',
      dm_latencyUncertaintyMS = fst (numericEventField (te_Fields e) ''latencyUncertaintyMs'')\<rparr>"

definition receipt_observe :: "TraceEvent \<Rightarrow> windowReceipts \<Rightarrow> windowReceipts" where
  "receipt_observe e r =
     (let proof = \<lparr>sp_at = te_Timestamp e, sp_sequence = te_Sequence e\<rparr>
      in if te_Type e = ''duplicate'' then r\<lparr>wr_duplicates := wr_duplicates r @ [proof]\<rparr>
         else r\<lparr>wr_deliveries := wr_deliveries r @ [\<lparr>wd_proof = proof, wd_value = delivery_of e\<rparr>]\<rparr>)"

definition alist_get :: "'v \<Rightarrow> ('k \<times> 'v) list \<Rightarrow> 'k \<Rightarrow> 'v" where
  "alist_get z m k = (case map_of m k of None \<Rightarrow> z | Some v \<Rightarrow> v)"

definition window_sessions :: "TraceEvent \<Rightarrow> sessionWindowAccumulator \<Rightarrow> sessionWindowAccumulator" where
  "window_sessions e w =
     (let key = (te_NodeID e, te_SessionID e)
      in if te_SessionID e \<noteq> [] \<and> te_NodeID e \<noteq> []
         then w\<lparr>wa_sessions := AList.update key (session_observe e (alist_get (new_session key) (wa_sessions w) key)) (wa_sessions w)\<rparr>
         else if isLifecycle e \<or> string_field (te_Fields e) ''measurementDefinition'' = sessionWindowDefinition
         then w\<lparr>wa_incomplete := True\<rparr> else w)"

definition window_publication :: "TraceEvent \<Rightarrow> sessionWindowAccumulator \<Rightarrow> sessionWindowAccumulator" where
  "window_publication e w =
     (let key = (te_Topic e, te_MessageID e)
      in if te_Type e = ''publish'' \<and> string_field (te_Fields e) ''measurementDefinition'' = sessionWindowDefinition
            \<and> map_of (wa_publications w) key = None
         then w\<lparr>wa_publications := AList.update key (publication_of e) (wa_publications w)\<rparr> else w)"

definition window_receipts :: "TraceEvent \<Rightarrow> sessionWindowAccumulator \<Rightarrow> sessionWindowAccumulator" where
  "window_receipts e w =
     (let key = (te_Topic e, te_MessageID e); sessionKey = (te_NodeID e, te_SessionID e)
      in if te_MessageID e = [] \<or> te_NodeID e = [] \<or> te_Type e \<noteq> ''deliver'' \<and> te_Type e \<noteq> ''duplicate'' then w
         else if bool_field (te_Fields e) ''localDelivery'' then w
         else let rs = alist_get [] (wa_receipts w) key;
                  r = alist_get \<lparr>wr_deliveries = [], wr_duplicates = []\<rparr> rs sessionKey
         in w\<lparr>wa_receipts := AList.update key (AList.update sessionKey (receipt_observe e r) rs) (wa_receipts w)\<rparr>)"

definition window_observe :: "TraceEvent \<Rightarrow> sessionWindowAccumulator \<Rightarrow> sessionWindowAccumulator" where
  "window_observe e w =
     (if te_Type e = ''measurement_terminated'' then
        (if te_NodeID e \<noteq> [] \<and> \<not> IsZero (te_Timestamp e)
         then w\<lparr>wa_terminations := AList.update (te_NodeID e) (mget [] (wa_terminations w) (te_NodeID e) @ [te_Timestamp e]) (wa_terminations w)\<rparr>
         else w)
      else let w = (if te_Type e \<noteq> ''bandwidth'' \<and>
                       (te_SessionID e \<noteq> [] \<or> string_field (te_Fields e) ''measurementDefinition'' = sessionWindowDefinition \<or> isLifecycle e)
                    then w\<lparr>wa_enabled := True\<rparr> else w)
           in window_receipts e (window_publication e (window_sessions e w)))"

subsection \<open>Sessions\<close>

record evaluatedSession =
  ev_source :: measurementSession
  ev_aliveThrough :: gotime
  ev_completeUntil :: gotime
  ev_stopComplete :: bool
  ev_end :: "gotime option"

text \<open>One proof of liveness; \<open>None\<close> when it contradicts the start or the stop.\<close>

definition proof_body :: "64 word \<Rightarrow> sessionProof \<Rightarrow> evaluatedSession \<Rightarrow> evaluatedSession option" where
  "proof_body through p r =
     (let s = ev_source r
      in if sp_sequence p < sp_sequence (ms_start s) \<or> sp_at p < sp_at (ms_start s) \<or> IsZero (sp_at p) then None
         else if (case ms_stop s of None \<Rightarrow> False | Some stop \<Rightarrow> sp_sequence p > sp_sequence stop \<or> sp_at p > sp_at stop) then None
         else let r = (if sp_at p > ev_aliveThrough r then r\<lparr>ev_aliveThrough := sp_at p\<rparr> else r)
         in Some (if sp_sequence p \<le> through \<and> sp_at p > ev_completeUntil r then r\<lparr>ev_completeUntil := sp_at p\<rparr> else r))"

fun proofs_loop :: "64 word \<Rightarrow> sessionProof list \<Rightarrow> evaluatedSession \<Rightarrow> evaluatedSession option" where
  "proofs_loop through [] r = Some r"
| "proofs_loop through (p # ps) r = (case proof_body through p r of None \<Rightarrow> None | Some r \<Rightarrow> proofs_loop through ps r)"

definition evaluateSession :: "measurementSession \<Rightarrow> evaluatedSession option" where
  "evaluateSession s =
     (if \<not> ms_started s \<or> \<not> ms_known s \<or> ms_invalid s \<or> IsZero (sp_at (ms_start s)) \<or> sp_sequence (ms_start s) = 0 then None
      else if (case ms_stop s of None \<Rightarrow> False
               | Some stop \<Rightarrow> sp_at stop < sp_at (ms_start s) \<or> sp_sequence stop < sp_sequence (ms_start s)) then None
      else let through = ranges_through (ms_sequences s) (sp_sequence (ms_start s))
      in case proofs_loop through (ms_proofs s)
                \<lparr>ev_source = s, ev_aliveThrough = 0, ev_completeUntil = 0, ev_stopComplete = False, ev_end = map_option sp_at (ms_stop s)\<rparr> of
           None \<Rightarrow> None
         | Some r \<Rightarrow> Some (r\<lparr>ev_stopComplete := (case ms_stop s of None \<Rightarrow> False | Some stop \<Rightarrow> sp_sequence stop \<le> through)\<rparr>))"

text \<open>A confirmed removal bounds the end of a session from above.\<close>

definition terminate_body :: "gotime \<Rightarrow> evaluatedSession \<Rightarrow> evaluatedSession" where
  "terminate_body terminated r =
     (if \<not> terminated < sp_at (ms_start (ev_source r)) \<and> (case ev_end r of None \<Rightarrow> True | Some e \<Rightarrow> terminated < e)
      then r\<lparr>ev_end := Some terminated, ev_stopComplete := False\<rparr> else r)"

subsection \<open>Receipts\<close>

record windowReceiptResult =
  rr_ontime :: "windowDelivery option"
  rr_late :: bool
  rr_invalid :: bool
  rr_duplicates :: int

definition clockBounded :: "deliveryMetric \<Rightarrow> bool" where
  "clockBounded v \<longleftrightarrow> dm_clockSynchronized v \<and> dm_latencyAvailable v \<and> f_le (Fin 0) (dm_latencyUncertaintyMS v)
     \<and> f_finite (dm_latencyMS v) \<and> f_finite (dm_latencyUncertaintyMS v)"

definition outside_session :: "windowPublication \<Rightarrow> evaluatedSession \<Rightarrow> windowDelivery \<Rightarrow> bool" where
  "outside_session pub ev d \<longleftrightarrow>
     (let s = ev_source ev; stamp = sp_at (wd_proof d); sequence = sp_sequence (wd_proof d)
      in (\<not> clockBounded (wd_value d) \<and> stamp < wp_at pub) \<or> stamp < sp_at (ms_start s) \<or> sequence < sp_sequence (ms_start s)
         \<or> (case ev_end ev of None \<Rightarrow> False | Some e \<Rightarrow> stamp > e)
         \<or> (case ms_stop s of None \<Rightarrow> False | Some stop \<Rightarrow> stamp > sp_at stop \<or> sequence > sp_sequence stop))"

text \<open>The verdict on a delivery inside its session: in time, late, or neither can be decided.\<close>

datatype verdict = OnTime | Late | Undecided

definition delivery_verdict :: "windowPublication \<Rightarrow> windowDelivery \<Rightarrow> verdict" where
  "delivery_verdict pub d =
     (let v = wd_value d
      in if clockBounded v then
           let upper = f_add (dm_latencyMS v) (dm_latencyUncertaintyMS v);
               lower = f_sub (dm_latencyMS v) (dm_latencyUncertaintyMS v);
               windowMS = f_div (float_of (time_Sub (wp_deadline pub) (wp_at pub))) (Fin 1000000)
           in if f_lt upper (Fin 0) then Undecided
              else if f_lt windowMS upper then (if f_lt windowMS lower then Late else Undecided)
              else OnTime
         else if dm_latencyAvailable v \<and> (f_lt (dm_latencyMS v) (Fin 0) \<or> \<not> f_finite (dm_latencyMS v)) then Undecided
         else if sp_at (wd_proof d) > wp_deadline pub then Late
         else OnTime)"

definition receipt_body :: "windowPublication \<Rightarrow> evaluatedSession \<Rightarrow> windowDelivery \<Rightarrow> windowReceiptResult \<Rightarrow> windowReceiptResult" where
  "receipt_body pub ev d r =
     (if outside_session pub ev d then r\<lparr>rr_invalid := True\<rparr>
      else case delivery_verdict pub d of
          Undecided \<Rightarrow> r\<lparr>rr_invalid := True\<rparr>
        | Late \<Rightarrow> r\<lparr>rr_late := True\<rparr>
        | OnTime \<Rightarrow> if (case rr_ontime r of None \<Rightarrow> True | Some old \<Rightarrow> sp_at (wd_proof d) < sp_at (wd_proof old)) then r\<lparr>rr_ontime := Some d\<rparr> else r)"

definition counted_duplicate :: "windowPublication \<Rightarrow> evaluatedSession \<Rightarrow> sessionProof \<Rightarrow> bool" where
  "counted_duplicate pub ev d \<longleftrightarrow>
     (let s = ev_source ev
      in \<not> sp_at d < wp_at pub \<and> \<not> sp_at d > wp_deadline pub \<and> sp_sequence d \<ge> sp_sequence (ms_start s)
         \<and> (case ev_end ev of None \<Rightarrow> True | Some e \<Rightarrow> \<not> sp_at d > e)
         \<and> (case ms_stop s of None \<Rightarrow> True | Some stop \<Rightarrow> \<not> sp_at d > sp_at stop \<and> sp_sequence d \<le> sp_sequence stop))"

definition inspectWindowReceipts :: "windowReceipts option \<Rightarrow> windowPublication \<Rightarrow> evaluatedSession \<Rightarrow> windowReceiptResult" where
  "inspectWindowReceipts receipts pub ev =
     (let r = \<lparr>rr_ontime = None, rr_late = False, rr_invalid = False, rr_duplicates = 0\<rparr>
      in case receipts of
           None \<Rightarrow> r
         | Some rs \<Rightarrow> (fold (receipt_body pub ev) (wr_deliveries rs) r)
             \<lparr>rr_duplicates := int (length (filter (counted_duplicate pub ev) (wr_duplicates rs)))\<rparr>)"

end
