(* ===== verification/Window_Summary.thy ===== *)
theory Window_Summary
  imports Window_Metrics Bandwidth
begin

text \<open>
  The summary of the delivery metrics, \<^verbatim>\<open>sessionWindowAccumulator.summarizeContext\<close> in
  \<^verbatim>\<open>internal/controller/run_metrics_window.go\<close>: a sweep over the publications of each topic in the order of time with the
  sessions that are active. Go ranges over a map in any order, so a map is the list of its entries in the order of the
  iteration; sorting is stable here, and as the order of equal elements is that of an arbitrary iteration, this covers
  every result of the unstable \<^verbatim>\<open>sort.Slice\<close>.
\<close>

subsection \<open>Metrics\<close>

record GossipSubControlMetric =
  gc_AgentID :: string
  gc_Direction :: string
  gc_ControlType :: string
  gc_RPCs :: int
  gc_Entries :: int
  gc_MessageIDs :: int
  gc_PeerExchangeRecords :: int

record Metrics =
  mt_DeliveryWindows :: "string list"
  mt_Definition :: string
  mt_RunID :: string
  mt_Published :: int
  mt_Delivered :: int
  mt_Duplicates :: int
  mt_AverageLatencyMS :: f64
  mt_P95LatencyMS :: f64
  mt_Reachability :: f64
  mt_EligibleDeliveries :: int
  mt_ExpectedDeliveries :: int
  mt_DeliveryRatioAvailable :: bool
  mt_LatencySamples :: int
  mt_InvalidLatencySamples :: int
  mt_AverageDuplicates :: f64
  mt_EligibleDuplicates :: int
  mt_DuplicateSamples :: int
  mt_UnscopedPublications :: int
  mt_DeliveryRatioUpperBound :: f64
  mt_UnknownDeliveries :: int
  mt_MissedDeliveries :: int
  mt_LateDeliveries :: int
  mt_PendingPublications :: int
  mt_FinalizedPublications :: int
  mt_InitialExpectedDeliveries :: int
  mt_InitialEligibleDeliveries :: int
  mt_InitialUnknownDeliveries :: int
  mt_InitialDeliveryRatio :: f64
  mt_InitialDeliveryRatioUpperBound :: f64
  mt_InitialDeliveryRatioAvailable :: bool
  mt_DepartedPairs :: int
  mt_PublicationAvailabilityUnknownPairs :: int
  mt_ContinuityUnknownPairs :: int
  mt_AvailabilityUnknownPairs :: int
  mt_StableCoverage :: f64
  mt_StableCoverageUpperBound :: f64
  mt_StableCoverageAvailable :: bool
  mt_LegacyPublications :: int
  mt_MeasurementIncomplete :: bool
  mt_Bandwidth :: "BandwidthSummary option"
  mt_GossipSubControl :: "GossipSubControlMetric list"

definition zero_metrics :: Metrics where
  "zero_metrics = \<lparr>mt_DeliveryWindows = [], mt_Definition = [], mt_RunID = [], mt_Published = 0, mt_Delivered = 0, mt_Duplicates = 0,
     mt_AverageLatencyMS = Fin 0, mt_P95LatencyMS = Fin 0, mt_Reachability = Fin 0, mt_EligibleDeliveries = 0, mt_ExpectedDeliveries = 0,
     mt_DeliveryRatioAvailable = False, mt_LatencySamples = 0, mt_InvalidLatencySamples = 0, mt_AverageDuplicates = Fin 0,
     mt_EligibleDuplicates = 0, mt_DuplicateSamples = 0, mt_UnscopedPublications = 0, mt_DeliveryRatioUpperBound = Fin 0,
     mt_UnknownDeliveries = 0, mt_MissedDeliveries = 0, mt_LateDeliveries = 0, mt_PendingPublications = 0, mt_FinalizedPublications = 0,
     mt_InitialExpectedDeliveries = 0, mt_InitialEligibleDeliveries = 0, mt_InitialUnknownDeliveries = 0, mt_InitialDeliveryRatio = Fin 0,
     mt_InitialDeliveryRatioUpperBound = Fin 0, mt_InitialDeliveryRatioAvailable = False, mt_DepartedPairs = 0,
     mt_PublicationAvailabilityUnknownPairs = 0, mt_ContinuityUnknownPairs = 0, mt_AvailabilityUnknownPairs = 0, mt_StableCoverage = Fin 0,
     mt_StableCoverageUpperBound = Fin 0, mt_StableCoverageAvailable = False, mt_LegacyPublications = 0, mt_MeasurementIncomplete = False,
     mt_Bandwidth = None, mt_GossipSubControl = []\<rparr>"

record propagationSample =
  pg_agentID :: string
  pg_topic :: string
  pg_seconds :: f64
  pg_nodeID :: string

subsection \<open>Topics\<close>

record sessionTopicIndex =
  ti_starts :: "evaluatedSession list"
  ti_ends :: "evaluatedSession list"
  ti_publications :: "windowPublication list"

definition new_index :: sessionTopicIndex where
  "new_index = \<lparr>ti_starts = [], ti_ends = [], ti_publications = []\<rparr>"

definition index_session :: "evaluatedSession \<Rightarrow> string \<Rightarrow> sessionTopicIndex gomap \<Rightarrow> sessionTopicIndex gomap" where
  "index_session ev topic topics =
     (let t = mget new_index topics topic; t = t\<lparr>ti_starts := ti_starts t @ [ev]\<rparr>
      in AList.update topic (if ev_end ev \<noteq> None then t\<lparr>ti_ends := ti_ends t @ [ev]\<rparr> else t) topics)"

text \<open>\<open>ended\<close>: the session of the map after the terminations of its node.\<close>

definition ended :: "sessionWindowAccumulator \<Rightarrow> measurementSession \<Rightarrow> evaluatedSession \<Rightarrow> evaluatedSession" where
  "ended w s ev = fold terminate_body (mget [] (wa_terminations w) (fst (ms_key s))) ev"

definition session_body ::
    "sessionWindowAccumulator \<Rightarrow> session_key \<times> measurementSession \<Rightarrow> bool \<times> sessionTopicIndex gomap \<times> string list
     \<Rightarrow> bool \<times> sessionTopicIndex gomap \<times> string list" where
  "session_body w = (\<lambda>(_, s) (incomplete, topics, knownStartNodes).
     case evaluateSession s of
       None \<Rightarrow> (True, topics, knownStartNodes)
     | Some ev \<Rightarrow>
         let nodes = fst (ms_key s) # knownStartNodes; ev = ended w s ev
         in if (case ev_end ev of None \<Rightarrow> False | Some e \<Rightarrow> ev_aliveThrough ev > e) then (True, topics, nodes)
            else (incomplete, fold (index_session ev) (ms_topics s) topics, nodes))"

definition publication_body ::
    "sessionWindowAccumulator \<Rightarrow> string list \<Rightarrow> gotime \<Rightarrow> message_key \<times> windowPublication \<Rightarrow> Metrics \<times> sessionTopicIndex gomap
     \<Rightarrow> Metrics \<times> sessionTopicIndex gomap" where
  "publication_body w knownStartNodes asOf = (\<lambda>(key, pub) (result, topics).
     if wp_local pub then (result, topics)
     else if \<not> wp_valid pub then (result\<lparr>mt_MeasurementIncomplete := True\<rparr>, topics)
     else let result = (if list_ex (\<lambda>n. n \<noteq> [] \<and> n \<notin> set knownStartNodes) (wp_auditTargets pub)
                        then result\<lparr>mt_MeasurementIncomplete := True\<rparr> else result);
              window = Duration_String (time_Sub (wp_deadline pub) (wp_at pub));
              result = (if window \<in> set (mt_DeliveryWindows result) then result
                        else result\<lparr>mt_DeliveryWindows := mt_DeliveryWindows result @ [window]\<rparr>);
              result = (if list_ex (\<lambda>(session, _). snd session = []) (alist_get [] (wa_receipts w) key)
                        then result\<lparr>mt_MeasurementIncomplete := True\<rparr> else result)
     in if asOf < wp_deadline pub then (result\<lparr>mt_PendingPublications := mt_PendingPublications result + 1\<rparr>, topics)
        else (result\<lparr>mt_FinalizedPublications := mt_FinalizedPublications result + 1\<rparr>,
              let t = mget new_index topics (fst key)
              in AList.update (fst key) (t\<lparr>ti_publications := ti_publications t @ [pub]\<rparr>) topics))"

subsection \<open>The sweep\<close>

type_synonym sweep_state = "Metrics \<times> propagationSample list \<times> f64 list"

definition departed :: "windowPublication \<Rightarrow> evaluatedSession \<Rightarrow> bool" where
  "departed pub ev \<longleftrightarrow> (case ev_end ev of None \<Rightarrow> False | Some e \<Rightarrow> e < wp_deadline pub)"

definition initial_counts :: "windowPublication \<Rightarrow> evaluatedSession \<Rightarrow> windowReceiptResult \<Rightarrow> Metrics \<Rightarrow> Metrics" where
  "initial_counts pub ev receipt m =
     (let m = m\<lparr>mt_InitialExpectedDeliveries := mt_InitialExpectedDeliveries m + 1\<rparr>
      in if rr_ontime receipt \<noteq> None then m\<lparr>mt_InitialEligibleDeliveries := mt_InitialEligibleDeliveries m + 1\<rparr>
         else if rr_invalid receipt \<or> (departed pub ev \<and> \<not> ev_stopComplete ev) \<or> (\<not> departed pub ev \<and> ev_completeUntil ev < wp_deadline pub)
         then m\<lparr>mt_InitialUnknownDeliveries := mt_InitialUnknownDeliveries m + 1\<rparr> else m)"

definition undelivered :: "windowPublication \<Rightarrow> evaluatedSession \<Rightarrow> windowReceiptResult \<Rightarrow> Metrics \<Rightarrow> Metrics" where
  "undelivered pub ev receipt m =
     (let m = (if rr_invalid receipt \<or> ev_completeUntil ev < wp_deadline pub
               then m\<lparr>mt_UnknownDeliveries := mt_UnknownDeliveries m + 1\<rparr>
               else m\<lparr>mt_MissedDeliveries := mt_MissedDeliveries m + 1\<rparr>);
          m = (if rr_late receipt then m\<lparr>mt_LateDeliveries := mt_LateDeliveries m + 1\<rparr> else m)
      in if rr_invalid receipt then m\<lparr>mt_InvalidLatencySamples := mt_InvalidLatencySamples m + 1\<rparr> else m)"

definition eligible :: "windowPublication \<Rightarrow> session_key \<Rightarrow> windowReceiptResult \<Rightarrow> windowDelivery \<Rightarrow> sweep_state \<Rightarrow> sweep_state" where
  "eligible pub key receipt d = (\<lambda>(m, samples, latencies).
     let m = m\<lparr>mt_EligibleDeliveries := mt_EligibleDeliveries m + 1,
               mt_EligibleDuplicates := mt_EligibleDuplicates m + rr_duplicates receipt\<rparr>;
         v = wd_value d
     in if dm_latencyAvailable v \<and> f_le (Fin 0) (dm_latencyMS v) \<and> f_finite (dm_latencyMS v)
        then (m, samples @ [\<lparr>pg_agentID = dm_agentID v, pg_topic = fst (wp_key pub), pg_seconds = f_div (dm_latencyMS v) (Fin 1000), pg_nodeID = fst key\<rparr>],
              latencies @ [dm_latencyMS v])
        else if dm_latencyAvailable v then (m\<lparr>mt_InvalidLatencySamples := mt_InvalidLatencySamples m + 1\<rparr>, samples, latencies)
        else (m, samples, latencies))"

definition pair_body :: "sessionWindowAccumulator \<Rightarrow> windowPublication \<Rightarrow> session_key \<times> evaluatedSession \<Rightarrow> sweep_state \<Rightarrow> sweep_state" where
  "pair_body w pub = (\<lambda>(key, ev) (m, samples, latencies).
     if fst key = wp_publisher pub then (m, samples, latencies)
     else if ev_aliveThrough ev < wp_at pub
       then (m\<lparr>mt_PublicationAvailabilityUnknownPairs := mt_PublicationAvailabilityUnknownPairs m + 1,
               mt_AvailabilityUnknownPairs := mt_AvailabilityUnknownPairs m + 1\<rparr>, samples, latencies)
     else let receipt = inspectWindowReceipts (map_of (alist_get [] (wa_receipts w) (wp_key pub)) key) pub ev;
              m = initial_counts pub ev receipt m
     in if departed pub ev then (m\<lparr>mt_DepartedPairs := mt_DepartedPairs m + 1\<rparr>, samples, latencies)
        else if ev_aliveThrough ev < wp_deadline pub
          then (m\<lparr>mt_ContinuityUnknownPairs := mt_ContinuityUnknownPairs m + 1,
                  mt_AvailabilityUnknownPairs := mt_AvailabilityUnknownPairs m + 1\<rparr>, samples, latencies)
        else let m = m\<lparr>mt_ExpectedDeliveries := mt_ExpectedDeliveries m + 1\<rparr>
        in case rr_ontime receipt of
             None \<Rightarrow> (undelivered pub ev receipt m, samples, latencies)
           | Some d \<Rightarrow> eligible pub key receipt d (m, samples, latencies))"

text \<open>The two inner loops move the boundary of the sorted starts and ends past the time of the publication.\<close>

type_synonym active_map = "(session_key \<times> evaluatedSession) list"

fun admit :: "gotime \<Rightarrow> evaluatedSession list \<Rightarrow> active_map \<Rightarrow> evaluatedSession list \<times> active_map" where
  "admit t [] active = ([], active)"
| "admit t (s # starts) active =
     (if \<not> sp_at (ms_start (ev_source s)) > t then admit t starts (AList.update (ms_key (ev_source s)) s active) else (s # starts, active))"

fun expire :: "gotime \<Rightarrow> evaluatedSession list \<Rightarrow> active_map \<Rightarrow> evaluatedSession list \<times> active_map" where
  "expire t [] active = ([], active)"
| "expire t (s # ends) active =
     (if (case ev_end s of None \<Rightarrow> False | Some e \<Rightarrow> \<not> e > t) then expire t ends (AList.delete (ms_key (ev_source s)) active) else (s # ends, active))"

fun sweep :: "sessionWindowAccumulator \<Rightarrow> windowPublication list \<Rightarrow> evaluatedSession list \<Rightarrow> evaluatedSession list \<Rightarrow> active_map \<Rightarrow> sweep_state \<Rightarrow> sweep_state" where
  "sweep w [] starts ends active out = out"
| "sweep w (pub # pubs) starts ends active out =
     (case admit (wp_at pub) starts active of (starts, active) \<Rightarrow>
      case expire (wp_at pub) ends active of (ends, active) \<Rightarrow>
        sweep w pubs starts ends active (fold (pair_body w pub) active out))"

definition end_time :: "evaluatedSession \<Rightarrow> gotime" where
  "end_time s = (case ev_end s of None \<Rightarrow> 0 | Some e \<Rightarrow> e)"

definition topic_body :: "sessionWindowAccumulator \<Rightarrow> string \<times> sessionTopicIndex \<Rightarrow> sweep_state \<Rightarrow> sweep_state" where
  "topic_body w = (\<lambda>(_, t) out.
     sweep w (sort_key wp_at (ti_publications t)) (sort_key (\<lambda>s. sp_at (ms_start (ev_source s))) (ti_starts t))
       (sort_key end_time (ti_ends t)) [] out)"

subsection \<open>Ratios and latencies\<close>

definition ratio :: "int \<Rightarrow> int \<Rightarrow> f64" where
  "ratio a b = f_div (float_of a) (float_of b)"

definition f_ceil :: "f64 \<Rightarrow> f64" where
  "f_ceil x = (case x of Fin a \<Rightarrow> Fin (of_int \<lceil>a\<rceil>) | y \<Rightarrow> y)"

definition f_val :: "f64 \<Rightarrow> rat" where
  "f_val x = (case x of Fin a \<Rightarrow> a | _ \<Rightarrow> 0)"

text \<open>\<^verbatim>\<open>latencies[int(math.Ceil(0.95*float64(len(latencies))))-1]\<close>, a panic when the index is out of range.\<close>

definition p95 :: "f64 list \<Rightarrow> f64 result" where
  "p95 xs = (let i = int64_of (f_ceil (f_mul (flit 95 2) (float_of (int (length xs))))) - 1
             in if 0 \<le> i \<and> i < int (length xs) then Inr (xs ! nat i) else Inl Panic)"

fun mean_loop :: "int \<Rightarrow> f64 list \<Rightarrow> f64 \<Rightarrow> f64" where
  "mean_loop i [] avg = avg"
| "mean_loop i (x # xs) avg = mean_loop (i + 1) xs (f_add avg (f_div (f_sub x avg) (float_of (i + 1))))"

definition latency_stats :: "f64 list \<Rightarrow> Metrics \<Rightarrow> Metrics result" where
  "latency_stats latencies m =
     (let m = m\<lparr>mt_LatencySamples := int (length latencies)\<rparr>
      in if latencies = [] then Inr m
         else let sorted = sort_key f_val latencies
         in rbind (p95 sorted) (\<lambda>x. Inr (m\<lparr>mt_AverageLatencyMS := mean_loop 0 sorted (mt_AverageLatencyMS m), mt_P95LatencyMS := x\<rparr>)))"

definition duplicate_stats :: "Metrics \<Rightarrow> Metrics" where
  "duplicate_stats m =
     (let m = m\<lparr>mt_DuplicateSamples := mt_EligibleDeliveries m\<rparr>
      in if mt_DuplicateSamples m > 0 then m\<lparr>mt_AverageDuplicates := ratio (mt_EligibleDuplicates m) (mt_DuplicateSamples m)\<rparr> else m)"

definition window_ratios :: "Metrics \<Rightarrow> Metrics" where
  "window_ratios m =
     (let m = m\<lparr>mt_DeliveryRatioAvailable := mt_ExpectedDeliveries m > 0\<rparr>;
          m = (if mt_DeliveryRatioAvailable m
               then m\<lparr>mt_Reachability := ratio (mt_EligibleDeliveries m) (mt_ExpectedDeliveries m),
                      mt_DeliveryRatioUpperBound := ratio (mt_EligibleDeliveries m + mt_UnknownDeliveries m) (mt_ExpectedDeliveries m)\<rparr> else m);
          m = m\<lparr>mt_InitialDeliveryRatioAvailable := mt_InitialExpectedDeliveries m > 0, mt_StableCoverageAvailable := mt_InitialExpectedDeliveries m > 0\<rparr>
      in if mt_InitialExpectedDeliveries m > 0
         then m\<lparr>mt_InitialDeliveryRatio := ratio (mt_InitialEligibleDeliveries m) (mt_InitialExpectedDeliveries m),
                mt_InitialDeliveryRatioUpperBound := ratio (mt_InitialEligibleDeliveries m + mt_InitialUnknownDeliveries m) (mt_InitialExpectedDeliveries m),
                mt_StableCoverage := ratio (mt_ExpectedDeliveries m) (mt_InitialExpectedDeliveries m),
                mt_StableCoverageUpperBound := ratio (mt_ExpectedDeliveries m + mt_ContinuityUnknownPairs m) (mt_InitialExpectedDeliveries m)\<rparr> else m)"

definition window_topics :: "sessionWindowAccumulator \<Rightarrow> gotime \<Rightarrow> Metrics \<Rightarrow> Metrics \<times> sessionTopicIndex gomap" where
  "window_topics w asOf result =
     (case fold (session_body w) (wa_sessions w) (mt_MeasurementIncomplete result, [], []) of (incomplete, topics, nodes) \<Rightarrow>
        fold (publication_body w nodes asOf) (wa_publications w) (result\<lparr>mt_MeasurementIncomplete := incomplete\<rparr>, topics))"

definition window_summarize ::
    "sessionWindowAccumulator \<Rightarrow> string \<Rightarrow> gotime \<Rightarrow> int \<Rightarrow> int \<Rightarrow> int \<Rightarrow> (Metrics \<times> propagationSample list) result" where
  "window_summarize w runID asOf published delivered duplicates =
     (let result = zero_metrics\<lparr>mt_Definition := sessionWindowDefinition, mt_RunID := runID, mt_Published := published, mt_Delivered := delivered,
            mt_Duplicates := duplicates, mt_LegacyPublications := max 0 (published - int (length (wa_publications w))),
            mt_MeasurementIncomplete := wa_incomplete w\<rparr>
      in case window_topics w asOf result of (result, topics) \<Rightarrow>
         let result = result\<lparr>mt_DeliveryWindows := sort (mt_DeliveryWindows result)\<rparr>
      in case fold (topic_body w) topics (result, [], []) of (result, samples, latencies) \<Rightarrow>
         rbind (latency_stats latencies (duplicate_stats (window_ratios result))) (\<lambda>result. Inr (result, samples)))"

end
