(* ===== verification/Window_Correct.thy ===== *)
theory Window_Correct
  imports Window_Summary "HOL-Library.Multiset"
begin

text \<open>
  The sweep computes what the definition of the metrics says pair by pair: every publication whose window has closed is
  judged against exactly the sessions that were subscribed and running at its time, each pair falls in one class, and the
  counters of the summary are the sizes of the classes.
\<close>

subsection \<open>Classes of pairs\<close>

type_synonym pair = "windowPublication \<times> evaluatedSession"

definition ses_key :: "evaluatedSession \<Rightarrow> session_key" where "ses_key s = ms_key (ev_source s)"
definition start_time :: "evaluatedSession \<Rightarrow> gotime" where "start_time s = sp_at (ms_start (ev_source s))"

datatype pair_class = PSelf | PUnavailable | PDeparted | PBroken | PDelivered | PUnknown | PMissed

definition pair_receipt :: "sessionWindowAccumulator \<Rightarrow> pair \<Rightarrow> windowReceiptResult" where
  "pair_receipt w = (\<lambda>(pub, ev). inspectWindowReceipts (map_of (alist_get [] (wa_receipts w) (wp_key pub)) (ses_key ev)) pub ev)"

definition pair_class :: "sessionWindowAccumulator \<Rightarrow> pair \<Rightarrow> pair_class" where
  "pair_class w = (\<lambda>(pub, ev).
     if fst (ses_key ev) = wp_publisher pub then PSelf
     else if ev_aliveThrough ev < wp_at pub then PUnavailable
     else if departed pub ev then PDeparted
     else if ev_aliveThrough ev < wp_deadline pub then PBroken
     else if rr_ontime (pair_receipt w (pub, ev)) \<noteq> None then PDelivered
     else if rr_invalid (pair_receipt w (pub, ev)) \<or> ev_completeUntil ev < wp_deadline pub then PUnknown
     else PMissed)"

text \<open>The receiver was there when the message was published.\<close>

definition present :: "sessionWindowAccumulator \<Rightarrow> pair \<Rightarrow> bool" where
  "present w p \<longleftrightarrow> pair_class w p \<notin> {PSelf, PUnavailable}"

definition initial_unknown :: "sessionWindowAccumulator \<Rightarrow> pair \<Rightarrow> bool" where
  "initial_unknown w = (\<lambda>(pub, ev). present w (pub, ev) \<and> rr_ontime (pair_receipt w (pub, ev)) = None
     \<and> (rr_invalid (pair_receipt w (pub, ev)) \<or> (departed pub ev \<and> \<not> ev_stopComplete ev)
        \<or> (\<not> departed pub ev \<and> ev_completeUntil ev < wp_deadline pub)))"

definition measured :: "windowDelivery option \<Rightarrow> f64 option" where
  "measured d = (case d of None \<Rightarrow> None
     | Some d \<Rightarrow> let v = wd_value d in if dm_latencyAvailable v \<and> f_le (Fin 0) (dm_latencyMS v) \<and> f_finite (dm_latencyMS v) then Some (dm_latencyMS v) else None)"

definition pair_latency :: "sessionWindowAccumulator \<Rightarrow> pair \<Rightarrow> f64 option" where
  "pair_latency w p = (if pair_class w p = PDelivered then measured (rr_ontime (pair_receipt w p)) else None)"

definition size_of :: "(pair \<Rightarrow> bool) \<Rightarrow> pair list \<Rightarrow> int" where
  "size_of P ps = int (length (filter P ps))"

lemma size_of_simps [simp]: "size_of P [] = 0" "size_of P (ps @ [p]) = size_of P ps + (if P p then 1 else 0)"
  by (simp_all add: size_of_def)

lemma size_of_perm: "mset ps = mset qs \<Longrightarrow> size_of P ps = size_of P qs"
  unfolding size_of_def by (metis mset_filter size_mset)

text \<open>The counters of the metrics against the pairs judged so far.\<close>

definition tally :: "sessionWindowAccumulator \<Rightarrow> pair list \<Rightarrow> sweep_state \<Rightarrow> bool" where
  "tally w ps = (\<lambda>(m, samples, latencies).
     mt_PublicationAvailabilityUnknownPairs m = size_of (\<lambda>p. pair_class w p = PUnavailable) ps
     \<and> mt_DepartedPairs m = size_of (\<lambda>p. pair_class w p = PDeparted) ps
     \<and> mt_ContinuityUnknownPairs m = size_of (\<lambda>p. pair_class w p = PBroken) ps
     \<and> mt_AvailabilityUnknownPairs m = size_of (\<lambda>p. pair_class w p \<in> {PUnavailable, PBroken}) ps
     \<and> mt_EligibleDeliveries m = size_of (\<lambda>p. pair_class w p = PDelivered) ps
     \<and> mt_UnknownDeliveries m = size_of (\<lambda>p. pair_class w p = PUnknown) ps
     \<and> mt_MissedDeliveries m = size_of (\<lambda>p. pair_class w p = PMissed) ps
     \<and> mt_ExpectedDeliveries m = size_of (\<lambda>p. pair_class w p \<in> {PDelivered, PUnknown, PMissed}) ps
     \<and> mt_InitialExpectedDeliveries m = size_of (present w) ps
     \<and> mt_InitialEligibleDeliveries m = size_of (\<lambda>p. present w p \<and> rr_ontime (pair_receipt w p) \<noteq> None) ps
     \<and> mt_InitialUnknownDeliveries m = size_of (initial_unknown w) ps
     \<and> latencies = List.map_filter (pair_latency w) ps \<and> length samples = length latencies)"

definition judge :: "sessionWindowAccumulator \<Rightarrow> pair \<Rightarrow> sweep_state \<Rightarrow> sweep_state" where
  "judge w = (\<lambda>(pub, ev). pair_body w pub (ses_key ev, ev))"

lemma map_filter_snoc: "List.map_filter f (xs @ [x]) = List.map_filter f xs @ (case f x of None \<Rightarrow> [] | Some y \<Rightarrow> [y])"
  by (induction xs) (auto simp: map_filter_simps split: option.splits)

lemma judge_class:
  "judge w (pub, ev) (m, samples, latencies) =
     (let m' = initial_counts pub ev (pair_receipt w (pub, ev)) m in
      case pair_class w (pub, ev) of
        PSelf \<Rightarrow> (m, samples, latencies)
      | PUnavailable \<Rightarrow> (m\<lparr>mt_PublicationAvailabilityUnknownPairs := mt_PublicationAvailabilityUnknownPairs m + 1,
               mt_AvailabilityUnknownPairs := mt_AvailabilityUnknownPairs m + 1\<rparr>, samples, latencies)
      | PDeparted \<Rightarrow> (m'\<lparr>mt_DepartedPairs := mt_DepartedPairs m' + 1\<rparr>, samples, latencies)
      | PBroken \<Rightarrow> (m'\<lparr>mt_ContinuityUnknownPairs := mt_ContinuityUnknownPairs m' + 1,
                  mt_AvailabilityUnknownPairs := mt_AvailabilityUnknownPairs m' + 1\<rparr>, samples, latencies)
      | PDelivered \<Rightarrow> eligible pub (ses_key ev) (pair_receipt w (pub, ev)) (the (rr_ontime (pair_receipt w (pub, ev))))
                  (m'\<lparr>mt_ExpectedDeliveries := mt_ExpectedDeliveries m' + 1\<rparr>, samples, latencies)
      | _ \<Rightarrow> (undelivered pub ev (pair_receipt w (pub, ev)) (m'\<lparr>mt_ExpectedDeliveries := mt_ExpectedDeliveries m' + 1\<rparr>), samples, latencies))"
  by (auto simp: judge_def pair_body_def pair_class_def pair_receipt_def Let_def split: option.splits)

lemma initial_counts_sel [simp]:
  "mt_PublicationAvailabilityUnknownPairs (initial_counts pub ev r m) = mt_PublicationAvailabilityUnknownPairs m"
  "mt_DepartedPairs (initial_counts pub ev r m) = mt_DepartedPairs m"
  "mt_ContinuityUnknownPairs (initial_counts pub ev r m) = mt_ContinuityUnknownPairs m"
  "mt_AvailabilityUnknownPairs (initial_counts pub ev r m) = mt_AvailabilityUnknownPairs m"
  "mt_EligibleDeliveries (initial_counts pub ev r m) = mt_EligibleDeliveries m"
  "mt_UnknownDeliveries (initial_counts pub ev r m) = mt_UnknownDeliveries m"
  "mt_MissedDeliveries (initial_counts pub ev r m) = mt_MissedDeliveries m"
  "mt_ExpectedDeliveries (initial_counts pub ev r m) = mt_ExpectedDeliveries m"
  "mt_InitialExpectedDeliveries (initial_counts pub ev r m) = mt_InitialExpectedDeliveries m + 1"
  "mt_InitialEligibleDeliveries (initial_counts pub ev r m) = mt_InitialEligibleDeliveries m + (if rr_ontime r \<noteq> None then 1 else 0)"
  "mt_InitialUnknownDeliveries (initial_counts pub ev r m) = mt_InitialUnknownDeliveries m +
     (if rr_ontime r = None \<and> (rr_invalid r \<or> (departed pub ev \<and> \<not> ev_stopComplete ev) \<or> (\<not> departed pub ev \<and> ev_completeUntil ev < wp_deadline pub))
      then 1 else 0)"
  by (simp_all add: initial_counts_def Let_def)

lemma undelivered_sel [simp]:
  "mt_PublicationAvailabilityUnknownPairs (undelivered pub ev r m) = mt_PublicationAvailabilityUnknownPairs m"
  "mt_DepartedPairs (undelivered pub ev r m) = mt_DepartedPairs m"
  "mt_ContinuityUnknownPairs (undelivered pub ev r m) = mt_ContinuityUnknownPairs m"
  "mt_AvailabilityUnknownPairs (undelivered pub ev r m) = mt_AvailabilityUnknownPairs m"
  "mt_EligibleDeliveries (undelivered pub ev r m) = mt_EligibleDeliveries m"
  "mt_ExpectedDeliveries (undelivered pub ev r m) = mt_ExpectedDeliveries m"
  "mt_InitialExpectedDeliveries (undelivered pub ev r m) = mt_InitialExpectedDeliveries m"
  "mt_InitialEligibleDeliveries (undelivered pub ev r m) = mt_InitialEligibleDeliveries m"
  "mt_InitialUnknownDeliveries (undelivered pub ev r m) = mt_InitialUnknownDeliveries m"
  "mt_UnknownDeliveries (undelivered pub ev r m) = mt_UnknownDeliveries m + (if rr_invalid r \<or> ev_completeUntil ev < wp_deadline pub then 1 else 0)"
  "mt_MissedDeliveries (undelivered pub ev r m) = mt_MissedDeliveries m + (if rr_invalid r \<or> ev_completeUntil ev < wp_deadline pub then 0 else 1)"
  by (simp_all add: undelivered_def Let_def)

lemma eligible_sel [simp]:
  "mt_PublicationAvailabilityUnknownPairs (fst (eligible pub k r d (m, ss, ls))) = mt_PublicationAvailabilityUnknownPairs m"
  "mt_DepartedPairs (fst (eligible pub k r d (m, ss, ls))) = mt_DepartedPairs m"
  "mt_ContinuityUnknownPairs (fst (eligible pub k r d (m, ss, ls))) = mt_ContinuityUnknownPairs m"
  "mt_AvailabilityUnknownPairs (fst (eligible pub k r d (m, ss, ls))) = mt_AvailabilityUnknownPairs m"
  "mt_UnknownDeliveries (fst (eligible pub k r d (m, ss, ls))) = mt_UnknownDeliveries m"
  "mt_MissedDeliveries (fst (eligible pub k r d (m, ss, ls))) = mt_MissedDeliveries m"
  "mt_ExpectedDeliveries (fst (eligible pub k r d (m, ss, ls))) = mt_ExpectedDeliveries m"
  "mt_InitialExpectedDeliveries (fst (eligible pub k r d (m, ss, ls))) = mt_InitialExpectedDeliveries m"
  "mt_InitialEligibleDeliveries (fst (eligible pub k r d (m, ss, ls))) = mt_InitialEligibleDeliveries m"
  "mt_InitialUnknownDeliveries (fst (eligible pub k r d (m, ss, ls))) = mt_InitialUnknownDeliveries m"
  "mt_EligibleDeliveries (fst (eligible pub k r d (m, ss, ls))) = mt_EligibleDeliveries m + 1"
  "snd (snd (eligible pub k r d (m, ss, ls))) = ls @ (case measured (Some d) of None \<Rightarrow> [] | Some x \<Rightarrow> [x])"
  "length (fst (snd (eligible pub k r d (m, ss, ls)))) = length ss + (case measured (Some d) of None \<Rightarrow> 0 | Some x \<Rightarrow> 1)"
  by (simp_all add: eligible_def Let_def measured_def)

lemma tally_step:
  assumes "tally w ps out"
  shows "tally w (ps @ [p]) (judge w p out)"
proof -
  obtain pub ev where p: "p = (pub, ev)" by fastforce
  obtain m ss ls where out: "out = (m, ss, ls)" by (cases out) auto
  let ?r = "pair_receipt w (pub, ev)"
  have on: "pair_class w (pub, ev) = PDelivered \<Longrightarrow> \<exists>d. rr_ontime ?r = Some d"
    "pair_class w (pub, ev) = PUnknown \<Longrightarrow> rr_ontime ?r = None \<and> \<not> departed pub ev \<and> (rr_invalid ?r \<or> ev_completeUntil ev < wp_deadline pub)"
    "pair_class w (pub, ev) = PMissed \<Longrightarrow> rr_ontime ?r = None \<and> \<not> departed pub ev \<and> \<not> (rr_invalid ?r \<or> ev_completeUntil ev < wp_deadline pub)"
    by (auto simp: pair_class_def split: if_splits)
  note tally = assms [unfolded tally_def out prod.case]
  show ?thesis
  proof (cases "pair_class w (pub, ev)")
    case PDelivered
    then obtain d where d: "rr_ontime ?r = Some d" using on(1) by blast
    show ?thesis unfolding tally_def case_prod_beta
      using tally d PDelivered
      by (simp add: p out judge_class Let_def map_filter_snoc pair_latency_def present_def initial_unknown_def split: option.splits)
  qed (use tally on in \<open>simp_all add: tally_def p out judge_class Let_def map_filter_snoc pair_latency_def present_def initial_unknown_def\<close>)
qed

lemma tally_fold: "tally w ps out \<Longrightarrow> tally w (ps @ qs) (fold (judge w) qs out)"
proof (induction qs arbitrary: ps out)
  case (Cons q qs)
  then show ?case using Cons.IH [OF tally_step [OF Cons.prems]] by simp
qed simp

subsection \<open>The sweep visits the running sessions\<close>

definition ended_by :: "gotime \<Rightarrow> evaluatedSession \<Rightarrow> bool" where
  "ended_by t s \<longleftrightarrow> (case ev_end s of None \<Rightarrow> False | Some e \<Rightarrow> e \<le> t)"

definition running :: "gotime \<Rightarrow> evaluatedSession \<Rightarrow> bool" where
  "running t s \<longleftrightarrow> start_time s \<le> t \<and> \<not> ended_by t s"

definition sessions_ok :: "evaluatedSession list \<Rightarrow> bool" where
  "sessions_ok S \<longleftrightarrow> distinct (map ses_key S) \<and> (\<forall>s\<in>set S. \<forall>e. ev_end s = Some e \<longrightarrow> start_time s \<le> e)"

definition entry :: "evaluatedSession \<Rightarrow> session_key \<times> evaluatedSession" where
  "entry s = (ses_key s, s)"

definition active_ok :: "evaluatedSession list \<Rightarrow> gotime \<Rightarrow> active_map \<Rightarrow> bool" where
  "active_ok S t active \<longleftrightarrow> distinct (map fst active) \<and> set active = entry ` {s \<in> set S. running t s}"

lemma admit_eq:
  "admit t starts active = (dropWhile (\<lambda>s. start_time s \<le> t) starts,
     fold (\<lambda>s. AList.update (ses_key s) s) (takeWhile (\<lambda>s. start_time s \<le> t) starts) active)"
  by (induction t starts active rule: admit.induct) (auto simp: start_time_def ses_key_def)

lemma expire_eq:
  "expire t ends active = (dropWhile (ended_by t) ends, fold (\<lambda>s. AList.delete (ses_key s)) (takeWhile (ended_by t) ends) active)"
  by (induction t ends active rule: expire.induct) (auto simp: ended_by_def ses_key_def split: option.splits)

lemma fold_update_fresh:
  assumes "distinct (map ses_key xs)" "distinct (map fst active)" "ses_key ` set xs \<inter> fst ` set active = {}"
  shows "distinct (map fst (fold (\<lambda>s. AList.update (ses_key s) s) xs active))
    \<and> set (fold (\<lambda>s. AList.update (ses_key s) s) xs active) = set active \<union> entry ` set xs"
  using assms
proof (induction xs arbitrary: active)
  case (Cons x xs)
  have fresh: "map_of active (ses_key x) = None" using Cons.prems(3) by (auto simp: map_of_eq_None_iff)
  then have "AList.update (ses_key x) x active = active @ [(ses_key x, x)]"
    by (induction active) (auto split: if_splits)
  then show ?case using Cons.IH [of "active @ [(ses_key x, x)]"] Cons.prems by (auto simp: entry_def)
qed simp

lemma fold_delete_set:
  "distinct (map fst active) \<Longrightarrow> distinct (map fst (fold (\<lambda>s. AList.delete (ses_key s)) xs active))
    \<and> set (fold (\<lambda>s. AList.delete (ses_key s)) xs active) = {p \<in> set active. fst p \<notin> ses_key ` set xs}"
proof (induction xs arbitrary: active)
  case (Cons x xs)
  then have "distinct (map fst (AList.delete (ses_key x) active))" by (simp add: distinct_delete)
  from Cons.IH [OF this] show ?case by (auto simp: AList.delete_eq)
qed simp

lemma takeWhile_sorted:
  assumes "sorted (map f xs)"
  shows "takeWhile (\<lambda>x. f x \<le> t) xs = filter (\<lambda>x. f x \<le> t) xs" "dropWhile (\<lambda>x. f x \<le> t) xs = filter (\<lambda>x. \<not> f x \<le> t) xs"
proof -
  have "takeWhile (\<lambda>x. f x \<le> t) xs = filter (\<lambda>x. f x \<le> t) xs \<and> dropWhile (\<lambda>x. f x \<le> t) xs = filter (\<lambda>x. \<not> f x \<le> t) xs"
    using assms
  proof (induction xs)
    case (Cons x xs)
    then have "f x \<le> t \<or> (\<forall>y\<in>set (x # xs). \<not> f y \<le> t)" by (auto dest: order_trans)
    then show ?case using Cons by (auto simp: filter_empty_conv intro!: filter_True [symmetric])
  qed simp
  then show "takeWhile (\<lambda>x. f x \<le> t) xs = filter (\<lambda>x. f x \<le> t) xs" "dropWhile (\<lambda>x. f x \<le> t) xs = filter (\<lambda>x. \<not> f x \<le> t) xs" by auto
qed

lemma sweep_step:
  assumes S: "sessions_ok S" and t: "t \<le> t'" and act: "active_ok S t active"
    and SS: "sorted (map start_time SS)" "mset SS = mset S"
    and EE: "sorted (map end_time EE)" "set EE = {s \<in> set S. ev_end s \<noteq> None}"
  obtains act1 act2 where "admit t' (filter (\<lambda>s. \<not> start_time s \<le> t) SS) active = (filter (\<lambda>s. \<not> start_time s \<le> t') SS, act1)"
    "expire t' (filter (\<lambda>s. \<not> ended_by t s) EE) act1 = (filter (\<lambda>s. \<not> ended_by t' s) EE, act2)" "active_ok S t' act2"
proof -
  let ?new = "filter (\<lambda>s. \<not> start_time s \<le> t \<and> start_time s \<le> t') SS"
  define act1 where "act1 = fold (\<lambda>s. AList.update (ses_key s) s) ?new active"
  have keys: "inj_on ses_key (set S)" and early: "\<And>s e. s \<in> set S \<Longrightarrow> ev_end s = Some e \<Longrightarrow> start_time s \<le> e"
    using S by (auto simp: sessions_ok_def distinct_map)
  have SS': "set SS = set S" "distinct (map ses_key SS)"
    using SS(2) S by (auto simp: sessions_ok_def dest: mset_eq_setD) (metis mset_eq_imp_distinct_iff mset_map)
  have sub: "sorted (map f (filter P xs))" if "sorted (map f xs)" for f :: "evaluatedSession \<Rightarrow> gotime" and P xs
    using that by (induction xs) auto
  have "dropWhile (\<lambda>s. start_time s \<le> t') (filter (\<lambda>s. \<not> start_time s \<le> t) SS) = filter (\<lambda>s. \<not> start_time s \<le> t') SS"
    "takeWhile (\<lambda>s. start_time s \<le> t') (filter (\<lambda>s. \<not> start_time s \<le> t) SS) = ?new"
    using t by (auto simp: takeWhile_sorted sub SS(1) intro!: filter_cong)
  then have a: "admit t' (filter (\<lambda>s. \<not> start_time s \<le> t) SS) active = (filter (\<lambda>s. \<not> start_time s \<le> t') SS, act1)"
    by (simp add: admit_eq act1_def)
  have fresh: "ses_key ` set ?new \<inter> fst ` set active = {}"
    using act keys SS' by (auto simp: active_ok_def entry_def running_def dest: inj_onD)
  have "distinct (map ses_key ?new)" using SS'(2) by (simp add: distinct_map_filter)
  from fold_update_fresh [OF this _ fresh]
  have act1: "distinct (map fst act1)" "set act1 = entry ` ({s \<in> set S. running t s} \<union> set ?new)"
    using act by (auto simp: act1_def active_ok_def)
  moreover have "{s \<in> set S. running t s} \<union> set ?new = {s \<in> set S. start_time s \<le> t' \<and> \<not> ended_by t s}"
    using t early SS'(1) by (fastforce simp: running_def ended_by_def split: option.splits)
  ultimately have act1: "distinct (map fst act1)" "set act1 = entry ` {s \<in> set S. start_time s \<le> t' \<and> \<not> ended_by t s}" by auto
  have EE': "sorted (map end_time (filter (\<lambda>s. \<not> ended_by t s) EE))" by (rule sub [OF EE(1)])
  have by_end: "ended_by u s \<longleftrightarrow> end_time s \<le> u" if "s \<in> set EE" for s u
    using that EE(2) by (auto simp: ended_by_def end_time_def)
  have "dropWhile (ended_by t') (filter (\<lambda>s. \<not> ended_by t s) EE) = dropWhile (\<lambda>s. end_time s \<le> t') (filter (\<lambda>s. \<not> ended_by t s) EE)"
    "takeWhile (ended_by t') (filter (\<lambda>s. \<not> ended_by t s) EE) = takeWhile (\<lambda>s. end_time s \<le> t') (filter (\<lambda>s. \<not> ended_by t s) EE)"
    by (auto intro!: dropWhile_cong takeWhile_cong simp: by_end)
  then have drop: "dropWhile (ended_by t') (filter (\<lambda>s. \<not> ended_by t s) EE) = filter (\<lambda>s. \<not> ended_by t' s) EE"
    and take: "takeWhile (ended_by t') (filter (\<lambda>s. \<not> ended_by t s) EE) = filter (\<lambda>s. \<not> ended_by t s \<and> ended_by t' s) EE"
    using t unfolding takeWhile_sorted [OF EE'] filter_filter by (auto simp: by_end intro!: filter_cong)
  define act2 where "act2 = fold (\<lambda>s. AList.delete (ses_key s)) (filter (\<lambda>s. \<not> ended_by t s \<and> ended_by t' s) EE) act1"
  have "expire t' (filter (\<lambda>s. \<not> ended_by t s) EE) act1 = (filter (\<lambda>s. \<not> ended_by t' s) EE, act2)"
    by (simp add: expire_eq drop take act2_def)
  moreover have "active_ok S t' act2"
  proof -
    let ?A = "{s \<in> set S. start_time s \<le> t' \<and> \<not> ended_by t s}" and ?F = "{s \<in> set S. \<not> ended_by t s \<and> ended_by t' s}"
    have F: "set (filter (\<lambda>s. \<not> ended_by t s \<and> ended_by t' s) EE) = ?F" using EE(2) by (auto simp: ended_by_def split: option.splits)
    have mem: "ses_key s \<in> ses_key ` ?F \<longleftrightarrow> s \<in> ?F" if "s \<in> set S" for s
      using that by (intro inj_on_image_mem_iff [OF keys]) auto
    have "{s \<in> ?A. ses_key s \<notin> ses_key ` ?F} = ?A - ?F" using mem by blast
    moreover have "{p \<in> entry ` ?A. fst p \<notin> ses_key ` ?F} = entry ` {s \<in> ?A. ses_key s \<notin> ses_key ` ?F}" unfolding entry_def by auto
    ultimately have "{p \<in> entry ` ?A. fst p \<notin> ses_key ` ?F} = entry ` (?A - ?F)" by simp
    moreover have "?A - ?F = {s \<in> set S. running t' s}"
      using t by (auto simp: running_def ended_by_def split: option.splits)
    ultimately have "{p \<in> entry ` ?A. fst p \<notin> ses_key ` ?F} = entry ` {s \<in> set S. running t' s}" by simp
    then show ?thesis
      using fold_delete_set [OF act1(1), of "filter (\<lambda>s. \<not> ended_by t s \<and> ended_by t' s) EE"] unfolding active_ok_def act2_def act1(2) F by simp
  qed
  ultimately show ?thesis using that a by blast
qed

lemma mset_concat_map: "mset (concat (map f xs)) = (\<Sum>x\<in>#mset xs. mset (f x))"
  by (induction xs) auto

text \<open>The pairs of a publication: the running sessions of a list.\<close>

definition pairs_of :: "evaluatedSession list \<Rightarrow> windowPublication list \<Rightarrow> pair list" where
  "pairs_of S pubs = concat (map (\<lambda>pub. map (Pair pub) (filter (running (wp_at pub)) S)) pubs)"

lemma active_perm:
  assumes "sessions_ok S" "active_ok S t active"
  shows "mset active = mset (map entry (filter (running t) S))"
proof -
  have "distinct active" using assms(2) by (auto simp: active_ok_def distinct_map)
  moreover have "distinct (map entry (filter (running t) S))"
    using assms(1) by (auto simp: sessions_ok_def entry_def distinct_map inj_on_def)
  moreover have "set active = set (map entry (filter (running t) S))" using assms(2) by (auto simp: active_ok_def)
  ultimately show ?thesis using set_eq_iff_mset_eq_distinct by blast
qed

lemma fold_pair_body:
  assumes "set active \<subseteq> range entry"
  shows "fold (pair_body w pub) active out = fold (judge w) (map (\<lambda>a. (pub, snd a)) active) out"
  using assms by (induction active arbitrary: out) (auto simp: judge_def entry_def)

lemma sweep_pairs:
  assumes S: "sessions_ok S" and SS: "sorted (map start_time SS)" "mset SS = mset S"
    and EE: "sorted (map end_time EE)" "set EE = {s \<in> set S. ev_end s \<noteq> None}"
    and "active_ok S t active" "sorted (map wp_at pubs)" "\<forall>pub\<in>set pubs. t \<le> wp_at pub"
  shows "\<exists>ps. mset ps = mset (pairs_of S pubs) \<and>
    sweep w pubs (filter (\<lambda>s. \<not> start_time s \<le> t) SS) (filter (\<lambda>s. \<not> ended_by t s) EE) active out = fold (judge w) ps out"
  using assms(6-)
proof (induction pubs arbitrary: t active out)
  case Nil
  then show ?case by (auto simp: pairs_of_def)
next
  case (Cons pub pubs)
  let ?t = "wp_at pub"
  obtain act1 act2 where step: "admit ?t (filter (\<lambda>s. \<not> start_time s \<le> t) SS) active = (filter (\<lambda>s. \<not> start_time s \<le> ?t) SS, act1)"
      "expire ?t (filter (\<lambda>s. \<not> ended_by t s) EE) act1 = (filter (\<lambda>s. \<not> ended_by ?t s) EE, act2)" and act2: "active_ok S ?t act2"
    using sweep_step [OF S _ Cons.prems(1) SS EE, of ?t] Cons.prems(3) by auto
  let ?qs = "map (\<lambda>a. (pub, snd a)) act2"
  have "fold (pair_body w pub) act2 out = fold (judge w) ?qs out"
    using act2 by (intro fold_pair_body) (auto simp: active_ok_def)
  then have eq: "sweep w (pub # pubs) (filter (\<lambda>s. \<not> start_time s \<le> t) SS) (filter (\<lambda>s. \<not> ended_by t s) EE) active out
      = sweep w pubs (filter (\<lambda>s. \<not> start_time s \<le> ?t) SS) (filter (\<lambda>s. \<not> ended_by ?t s) EE) act2 (fold (judge w) ?qs out)"
    by (simp add: step)
  have "\<forall>q\<in>set pubs. ?t \<le> wp_at q" "sorted (map wp_at pubs)" using Cons.prems(2) by auto
  from Cons.IH [OF act2 this(2,1), of "fold (judge w) ?qs out"] obtain ps where ps: "mset ps = mset (pairs_of S pubs)"
      "sweep w pubs (filter (\<lambda>s. \<not> start_time s \<le> ?t) SS) (filter (\<lambda>s. \<not> ended_by ?t s) EE) act2 (fold (judge w) ?qs out)
       = fold (judge w) ps (fold (judge w) ?qs out)" by blast
  have "mset ?qs = image_mset (\<lambda>a. (pub, snd a)) (mset act2)" by simp
  also have "\<dots> = mset (map (Pair pub) (filter (running ?t) S))"
    unfolding active_perm [OF S act2] by (simp add: entry_def o_def multiset.map_comp)
  finally have "mset (?qs @ ps) = mset (pairs_of S (pub # pubs))" using ps(1) by (simp add: pairs_of_def)
  moreover have "sweep w (pub # pubs) (filter (\<lambda>s. \<not> start_time s \<le> t) SS) (filter (\<lambda>s. \<not> ended_by t s) EE) active out = fold (judge w) (?qs @ ps) out"
    unfolding eq ps(2) by simp
  ultimately show ?case by blast
qed

text \<open>The whole sweep of a topic starts before every session and publication.\<close>

lemma topic_pairs:
  assumes "sessions_ok (ti_starts t)" "ti_ends t = filter (\<lambda>s. ev_end s \<noteq> None) (ti_starts t)"
  shows "\<exists>ps. mset ps = mset (pairs_of (ti_starts t) (ti_publications t)) \<and> topic_body w (k, t) out = fold (judge w) ps out"
proof -
  let ?S = "ti_starts t" and ?P = "ti_publications t"
  let ?SS = "sort_key start_time ?S" and ?EE = "sort_key end_time (ti_ends t)" and ?PP = "sort_key wp_at ?P"
  define M where "M = Min (start_time ` set ?S \<union> wp_at ` set ?P)"
  define T where "T = M - 1"
  have low: "T < start_time s" if "s \<in> set ?S" for s
  proof -
    have "M \<le> start_time s" unfolding M_def using that by (intro Min_le) auto
    then show ?thesis by (simp add: T_def)
  qed
  have lowp: "T \<le> wp_at p" if "p \<in> set ?P" for p
  proof -
    have "M \<le> wp_at p" unfolding M_def using that by (intro Min_le) auto
    then show ?thesis by (simp add: T_def)
  qed
  have not_started: "filter (\<lambda>s. \<not> start_time s \<le> T) ?SS = ?SS" using low by (auto simp: filter_id_conv not_le)
  have "\<not> ended_by T s" if "s \<in> set ?S" for s
    using low [OF that] assms(1) that by (force simp: sessions_ok_def ended_by_def split: option.splits)
  then have not_ended: "filter (\<lambda>s. \<not> ended_by T s) ?EE = ?EE" using assms(2) by (auto simp: filter_id_conv)
  have "active_ok ?S T []" using low by (fastforce simp: active_ok_def running_def)
  from sweep_pairs [OF assms(1) _ _ _ _ this, of ?SS ?EE ?PP w out]
  obtain ps where ps: "mset ps = mset (pairs_of ?S ?PP)" "sweep w ?PP ?SS ?EE [] out = fold (judge w) ps out"
    using lowp assms(2) unfolding not_started not_ended by auto
  have "mset (pairs_of ?S ?PP) = mset (pairs_of ?S ?P)"
    unfolding pairs_of_def mset_concat_map by simp
  moreover have "topic_body w (k, t) out = sweep w ?PP ?SS ?EE [] out"
    by (simp add: topic_body_def start_time_def [abs_def])
  ultimately show ?thesis using ps by auto
qed

subsection \<open>The index of the topics\<close>

definition window_inv :: "sessionWindowAccumulator \<Rightarrow> bool" where
  "window_inv w \<longleftrightarrow> distinct (map fst (wa_sessions w)) \<and> (\<forall>(k, s)\<in>set (wa_sessions w). ms_key s = k \<and> distinct (ms_topics s))
     \<and> distinct (map fst (wa_publications w)) \<and> (\<forall>(k, p)\<in>set (wa_publications w). wp_key p = k)"

text \<open>The sessions that count, and the publications whose window has closed.\<close>

definition judged_session :: "sessionWindowAccumulator \<Rightarrow> measurementSession \<Rightarrow> evaluatedSession option" where
  "judged_session w s = (case evaluateSession s of None \<Rightarrow> None
     | Some ev \<Rightarrow> if (case ev_end (ended w s ev) of None \<Rightarrow> False | Some e \<Rightarrow> ev_aliveThrough (ended w s ev) > e) then None else Some (ended w s ev))"

definition valid_sessions :: "sessionWindowAccumulator \<Rightarrow> evaluatedSession list" where
  "valid_sessions w = List.map_filter (\<lambda>(k, s). judged_session w s) (wa_sessions w)"

definition closed :: "gotime \<Rightarrow> windowPublication \<Rightarrow> bool" where
  "closed asOf p \<longleftrightarrow> \<not> wp_local p \<and> wp_valid p \<and> wp_deadline p \<le> asOf"

definition finalized :: "sessionWindowAccumulator \<Rightarrow> gotime \<Rightarrow> windowPublication list" where
  "finalized w asOf = filter (closed asOf) (map snd (wa_publications w))"

definition subscribed :: "string \<Rightarrow> evaluatedSession \<Rightarrow> bool" where
  "subscribed t ev \<longleftrightarrow> t \<in> set (ms_topics (ev_source ev))"

definition judged_pairs :: "sessionWindowAccumulator \<Rightarrow> gotime \<Rightarrow> pair list" where
  "judged_pairs w asOf = concat (map (\<lambda>pub. map (Pair pub)
     (filter (\<lambda>ev. subscribed (fst (wp_key pub)) ev \<and> running (wp_at pub) ev) (valid_sessions w))) (finalized w asOf))"

definition topics_ok :: "evaluatedSession list \<Rightarrow> windowPublication list \<Rightarrow> sessionTopicIndex gomap \<Rightarrow> bool" where
  "topics_ok L P T \<longleftrightarrow> distinct (map fst T) \<and> (\<forall>t. mget new_index T t =
     \<lparr>ti_starts = filter (subscribed t) L, ti_ends = filter (\<lambda>s. ev_end s \<noteq> None) (filter (subscribed t) L),
      ti_publications = filter (\<lambda>p. fst (wp_key p) = t) P\<rparr>)"

lemma mget_alist_update [simp]: "mget z (AList.update k v m) j = (if j = k then v else mget z m j)"
  by (simp add: mget_def update_conv)

lemma index_session_fold:
  assumes "distinct ts"
  shows "mget new_index (fold (index_session ev) ts T) t =
    (if t \<in> set ts then (mget new_index T t)\<lparr>ti_starts := ti_starts (mget new_index T t) @ [ev],
       ti_ends := ti_ends (mget new_index T t) @ (if ev_end ev \<noteq> None then [ev] else [])\<rparr> else mget new_index T t)"
  using assms
proof (induction ts arbitrary: T)
  case (Cons u ts)
  then show ?case by (auto simp: index_session_def Let_def)
qed simp

lemma index_session_distinct: "distinct (map fst T) \<Longrightarrow> distinct (map fst (fold (index_session ev) ts T))"
  by (induction ts arbitrary: T) (auto simp: index_session_def Let_def distinct_update)

lemma topics_ok_session:
  assumes "topics_ok L P T" "distinct (ms_topics (ev_source ev))"
  shows "topics_ok (L @ [ev]) P (fold (index_session ev) (ms_topics (ev_source ev)) T)"
  using assms by (auto simp: topics_ok_def index_session_fold index_session_distinct subscribed_def)

lemma evaluated_source:
  "proofs_loop thr ps r = Some r' \<Longrightarrow> ev_source r' = ev_source r \<and> ev_end r' = ev_end r"
  by (induction thr ps r rule: proofs_loop.induct) (auto simp: proof_body_def Let_def split: option.splits if_splits)

lemma terminate_fold:
  "ev_source (fold terminate_body ts ev) = ev_source ev
   \<and> ((\<forall>e. ev_end ev = Some e \<longrightarrow> start_time ev \<le> e) \<longrightarrow> (\<forall>e. ev_end (fold terminate_body ts ev) = Some e \<longrightarrow> start_time ev \<le> e))"
proof (induction ts arbitrary: ev)
  case (Cons t ts)
  have "ev_source (terminate_body t ev) = ev_source ev" "start_time (terminate_body t ev) = start_time ev"
    by (simp_all add: terminate_body_def start_time_def)
  moreover have "(\<forall>e. ev_end ev = Some e \<longrightarrow> start_time ev \<le> e) \<longrightarrow> (\<forall>e. ev_end (terminate_body t ev) = Some e \<longrightarrow> start_time ev \<le> e)"
    by (auto simp: terminate_body_def start_time_def not_less)
  ultimately show ?case using Cons.IH [of "terminate_body t ev"] unfolding fold_simps by metis
qed simp

lemma evaluateSession_source:
  assumes "evaluateSession s = Some ev"
  shows "ev_source ev = s" "ev_end ev = map_option sp_at (ms_stop s)" "\<And>e. ev_end ev = Some e \<Longrightarrow> start_time ev \<le> e"
  using assms
  by (auto simp: evaluateSession_def Let_def start_time_def not_less dest!: evaluated_source split: if_splits option.splits)

lemma judged_session_source:
  assumes "judged_session w s = Some ev"
  shows "ev_source ev = s" "\<And>e. ev_end ev = Some e \<Longrightarrow> start_time ev \<le> e"
proof -
  obtain ev0 where ev0: "evaluateSession s = Some ev0" "ev = ended w s ev0"
    using assms by (auto simp: judged_session_def split: option.splits if_splits)
  note src = evaluateSession_source [OF ev0(1)]
  show "ev_source ev = s" "\<And>e. ev_end ev = Some e \<Longrightarrow> start_time ev \<le> e"
    using terminate_fold [of "mget [] (wa_terminations w) (fst (ms_key s))" ev0] src by (auto simp: ev0(2) ended_def start_time_def)
qed

lemma valid_sessions_ok:
  assumes "window_inv w"
  shows "sessions_ok (filter P (valid_sessions w))"
proof -
  have "distinct (map ses_key (List.map_filter (\<lambda>(k, s). judged_session w s) xs)) \<and> set (map ses_key (List.map_filter (\<lambda>(k, s). judged_session w s) xs)) \<subseteq> fst ` set xs"
    if "distinct (map fst xs)" "\<forall>(k, s)\<in>set xs. ms_key s = k" for xs :: "(session_key \<times> measurementSession) list"
    using that
  proof (induction xs)
    case (Cons x xs)
    obtain k s where x: "x = (k, s)" by fastforce
    then have "ses_key ev = k" if "judged_session w s = Some ev" for ev
      using Cons.prems(2) judged_session_source(1) [OF that] by (simp add: ses_key_def)
    then show ?case using Cons x by (auto simp: map_filter_simps split: option.splits)
  qed (simp add: map_filter_simps)
  then have "distinct (map ses_key (valid_sessions w))" using assms by (fastforce simp: valid_sessions_def window_inv_def)
  moreover have "\<exists>s. judged_session w s = Some ev" if "ev \<in> set (valid_sessions w)" for ev
    using that by (auto simp: valid_sessions_def map_filter_def)
  ultimately show ?thesis using judged_session_source(2) by (fastforce simp: sessions_ok_def distinct_map_filter)
qed

lemma session_loop:
  assumes "topics_ok L [] T" "\<forall>(k, s)\<in>set xs. distinct (ms_topics s)"
  shows "topics_ok (L @ List.map_filter (\<lambda>(k, s). judged_session w s) xs) [] (fst (snd (fold (session_body w) xs (inc, T, ns))))"
  using assms
proof (induction xs arbitrary: L T inc ns)
  case (Cons x xs)
  obtain k s where x: "x = (k, s)" by fastforce
  show ?case
  proof (cases "judged_session w s")
    case None
    then have "fst (snd (session_body w x (inc, T, ns))) = T"
      by (auto simp: session_body_def judged_session_def x Let_def split: option.splits if_splits)
    then show ?thesis using Cons None by (cases "session_body w x (inc, T, ns)") (auto simp: x map_filter_simps)
  next
    case (Some ev)
    then have "fst (snd (session_body w x (inc, T, ns))) = fold (index_session ev) (ms_topics (ev_source ev)) T"
      using judged_session_source(1) [OF Some]
      by (auto simp: session_body_def judged_session_def x Let_def split: option.splits if_splits)
    moreover have "topics_ok (L @ [ev]) [] (fold (index_session ev) (ms_topics (ev_source ev)) T)"
      using Cons.prems judged_session_source(1) [OF Some] x by (intro topics_ok_session) auto
    ultimately show ?thesis using Cons.IH [of "L @ [ev]"] Cons.prems Some
      by (cases "session_body w x (inc, T, ns)") (auto simp: x map_filter_simps)
  qed
qed (simp add: map_filter_simps)

text \<open>The second loop files the closed publications and touches no counter of pairs.\<close>

lemma publication_step:
  assumes "topics_ok L P T" "wp_key p = k" "tally w [] (m, [], [])"
  shows "topics_ok L (P @ (if closed asOf p then [p] else [])) (snd (publication_body w ns asOf (k, p) (m, T)))
    \<and> tally w [] (fst (publication_body w ns asOf (k, p) (m, T)), [], [])
    \<and> mt_FinalizedPublications (fst (publication_body w ns asOf (k, p) (m, T))) = mt_FinalizedPublications m + (if closed asOf p then 1 else 0)
    \<and> mt_PendingPublications (fst (publication_body w ns asOf (k, p) (m, T))) = mt_PendingPublications m
        + (if \<not> wp_local p \<and> wp_valid p \<and> asOf < wp_deadline p then 1 else 0)"
  using assms
  by (auto simp: publication_body_def closed_def topics_ok_def tally_def Let_def distinct_update)

lemma publication_loop:
  assumes "topics_ok L P T" "\<forall>(k, p)\<in>set xs. wp_key p = k" "tally w [] (m, [], [])"
  shows "topics_ok L (P @ filter (closed asOf) (map snd xs)) (snd (fold (publication_body w ns asOf) xs (m, T)))
    \<and> tally w [] (fst (fold (publication_body w ns asOf) xs (m, T)), [], [])
    \<and> mt_FinalizedPublications (fst (fold (publication_body w ns asOf) xs (m, T))) = mt_FinalizedPublications m + int (length (filter (closed asOf) (map snd xs)))"
  using assms
proof (induction xs arbitrary: P T m)
  case (Cons x xs)
  obtain k p where x: "x = (k, p)" by fastforce
  obtain m' T' where b: "publication_body w ns asOf (k, p) (m, T) = (m', T')" by fastforce
  note step = publication_step [OF Cons.prems(1) _ Cons.prems(3), of p k asOf ns, unfolded b fst_conv snd_conv]
  have "topics_ok L (P @ (if closed asOf p then [p] else [])) T'" "tally w [] (m', [], [])"
      "mt_FinalizedPublications m' = mt_FinalizedPublications m + (if closed asOf p then 1 else 0)"
    using step Cons.prems(2) x by auto
  then show ?case using Cons.IH [of "P @ (if closed asOf p then [p] else [])" T' m'] Cons.prems(2) x b by (auto split: if_splits)
qed simp

lemma sum_list_at: "distinct ks \<Longrightarrow> a \<in> set ks \<Longrightarrow> (\<Sum>t\<leftarrow>ks. if a = t then g else 0) = (g :: 'b multiset)"
proof (induction ks)
  case (Cons k ks)
  have "(\<Sum>t\<leftarrow>ks. if a = t then g else 0) = 0" if "a \<notin> set ks" using that by (induction ks) auto
  then show ?case using Cons by auto
qed simp

lemma sum_by_topic:
  fixes g :: "'a \<Rightarrow> 'b multiset"
  assumes "distinct ks" "h ` set F \<subseteq> set ks"
  shows "(\<Sum>t\<leftarrow>ks. \<Sum>p\<leftarrow>filter (\<lambda>p. h p = t) F. g p) = (\<Sum>p\<leftarrow>F. g p)"
  using assms(2)
proof (induction F)
  case (Cons p F)
  have "(\<Sum>t\<leftarrow>ks. \<Sum>q\<leftarrow>filter (\<lambda>q. h q = t) (p # F). g q)
      = (\<Sum>t\<leftarrow>ks. (if h p = t then g p else 0) + (\<Sum>q\<leftarrow>filter (\<lambda>q. h q = t) F. g q))"
    by (rule arg_cong [of _ _ sum_list]) (auto intro!: map_cong)
  also have "\<dots> = (\<Sum>t\<leftarrow>ks. if h p = t then g p else 0) + (\<Sum>t\<leftarrow>ks. \<Sum>q\<leftarrow>filter (\<lambda>q. h q = t) F. g q)"
    by (rule sum_list_addf)
  finally show ?case using Cons assms(1) by (simp add: sum_list_at)
qed (simp add: sum_list_0)

lemma topics_fold:
  assumes "\<forall>(k, t)\<in>set T. sessions_ok (ti_starts t) \<and> ti_ends t = filter (\<lambda>s. ev_end s \<noteq> None) (ti_starts t)"
  shows "\<exists>ps. mset ps = (\<Sum>(k, t)\<leftarrow>T. mset (pairs_of (ti_starts t) (ti_publications t))) \<and> fold (topic_body w) T out = fold (judge w) ps out"
  using assms
proof (induction T arbitrary: out)
  case (Cons x T)
  obtain k t where x: "x = (k, t)" by fastforce
  then obtain ps where ps: "mset ps = mset (pairs_of (ti_starts t) (ti_publications t))" "topic_body w (k, t) out = fold (judge w) ps out"
    using topic_pairs [of t w k out] Cons.prems by auto
  obtain qs where qs: "mset qs = (\<Sum>(k, t)\<leftarrow>T. mset (pairs_of (ti_starts t) (ti_publications t)))"
      "fold (topic_body w) T (topic_body w (k, t) out) = fold (judge w) qs (topic_body w (k, t) out)"
    using Cons.IH [of "topic_body w (k, t) out"] Cons.prems by auto
  then show ?case using ps x by (intro exI [of _ "ps @ qs"]) simp
qed simp

lemma topics_entries:
  assumes "topics_ok L P T" "(k, t) \<in> set T"
  shows "t = \<lparr>ti_starts = filter (subscribed k) L, ti_ends = filter (\<lambda>s. ev_end s \<noteq> None) (filter (subscribed k) L),
      ti_publications = filter (\<lambda>p. fst (wp_key p) = k) P\<rparr>"
proof -
  have "mget new_index T k = t" using assms by (simp add: topics_ok_def mget_def)
  then show ?thesis using assms(1) by (simp add: topics_ok_def)
qed

lemma topics_pairs:
  assumes "topics_ok L P T"
  shows "(\<Sum>(k, t)\<leftarrow>T. mset (pairs_of (ti_starts t) (ti_publications t)))
    = mset (concat (map (\<lambda>pub. map (Pair pub) (filter (\<lambda>ev. subscribed (fst (wp_key pub)) ev \<and> running (wp_at pub) ev) L)) P))"
proof -
  define g where "g = (\<lambda>pub :: windowPublication. mset (map (Pair pub) (filter (\<lambda>ev. subscribed (fst (wp_key pub)) ev \<and> running (wp_at pub) ev) L)))"
  have keys: "(\<lambda>p. fst (wp_key p)) ` set P \<subseteq> set (map fst T)"
  proof safe
    fix p assume p: "p \<in> set P"
    have "mget new_index T (fst (wp_key p)) \<noteq> new_index"
      using assms p by (auto simp: topics_ok_def new_index_def filter_empty_conv)
    then show "fst (wp_key p) \<in> set (map fst T)" by (auto simp: mget_def image_iff split: option.splits dest!: map_of_SomeD) force
  qed
  have "mset (pairs_of (ti_starts t) (ti_publications t)) = (\<Sum>p\<leftarrow>filter (\<lambda>p. fst (wp_key p) = k) P. g p)" if "(k, t) \<in> set T" for k t
    unfolding topics_entries [OF assms that] pairs_of_def g_def
    by (auto simp: mset_concat filter_filter conj_commute intro!: arg_cong [of _ _ sum_list])
  then have "(\<Sum>(k, t)\<leftarrow>T. mset (pairs_of (ti_starts t) (ti_publications t))) = (\<Sum>k\<leftarrow>map fst T. \<Sum>p\<leftarrow>filter (\<lambda>p. fst (wp_key p) = k) P. g p)"
    by (auto intro!: arg_cong [of _ _ sum_list])
  also have "\<dots> = (\<Sum>p\<leftarrow>P. g p)" using assms keys by (intro sum_by_topic) (auto simp: topics_ok_def)
  finally show ?thesis by (simp add: g_def mset_concat o_def)
qed

lemma window_topics_pairs:
  assumes "window_inv w" "tally w [] (m, [], [])" "window_topics w asOf m = (m', T)"
  shows "tally w [] (m', [], []) \<and> mt_FinalizedPublications m' = mt_FinalizedPublications m + int (length (finalized w asOf))"
    and "\<exists>ps. mset ps = mset (judged_pairs w asOf) \<and> fold (topic_body w) T out = fold (judge w) ps out"
proof -
  obtain inc T0 ns where loop: "fold (session_body w) (wa_sessions w) (mt_MeasurementIncomplete m, [], []) = (inc, T0, ns)"
    by (metis prod_cases3)
  have "topics_ok [] [] []" by (simp add: topics_ok_def mget_def new_index_def)
  from session_loop [OF this, of "wa_sessions w" w "mt_MeasurementIncomplete m" "[]"]
  have T0: "topics_ok (valid_sessions w) [] T0" using assms(1) loop by (auto simp: valid_sessions_def window_inv_def)
  have "tally w [] (m\<lparr>mt_MeasurementIncomplete := inc\<rparr>, [], [])" using assms(2) by (simp add: tally_def)
  from publication_loop [OF T0 _ this, of "wa_publications w" asOf ns]
  have T: "topics_ok (valid_sessions w) (finalized w asOf) T"
    and m': "tally w [] (m', [], []) \<and> mt_FinalizedPublications m' = mt_FinalizedPublications m + int (length (finalized w asOf))"
    using assms(1,3) loop by (auto simp: window_topics_def finalized_def window_inv_def)
  show "tally w [] (m', [], []) \<and> mt_FinalizedPublications m' = mt_FinalizedPublications m + int (length (finalized w asOf))" by (rule m')
  have "\<forall>(k, t)\<in>set T. sessions_ok (ti_starts t) \<and> ti_ends t = filter (\<lambda>s. ev_end s \<noteq> None) (ti_starts t)"
    using topics_entries [OF T] valid_sessions_ok [OF assms(1)] by fastforce
  from topics_fold [OF this, of w out]
  show "\<exists>ps. mset ps = mset (judged_pairs w asOf) \<and> fold (topic_body w) T out = fold (judge w) ps out"
    unfolding topics_pairs [OF T] judged_pairs_def .
qed

end
