(* ===== verification/Float_Round.thy ===== *)
theory Float_Round
  imports Go_Duration
begin

text \<open>Rounding to binary64 is monotone on the non-negative rationals and leaves representable values alone.\<close>

lemma round_half_even_mono:
  assumes "x \<le> y"
  shows "round_half_even x \<le> round_half_even y"
proof (cases "\<lfloor>x\<rfloor> = \<lfloor>y\<rfloor>")
  case True
  then show ?thesis using assms by (auto simp: round_half_even_def Let_def)
next
  case False
  then have "\<lfloor>x\<rfloor> + 1 \<le> \<lfloor>y\<rfloor>" using floor_mono [OF assms] by linarith
  moreover have "round_half_even x \<le> \<lfloor>x\<rfloor> + 1" "\<lfloor>y\<rfloor> \<le> round_half_even y" by (auto simp: round_half_even_def Let_def)
  ultimately show ?thesis by linarith
qed

lemma round_half_even_int [simp]: "round_half_even (of_int z) = z"
  by (simp add: round_half_even_def)

lemma int_bits_bounds: "0 < x \<Longrightarrow> 2 ^ nat (int_bits x - 1) \<le> x \<and> x < 2 ^ nat (int_bits x) \<and> 1 \<le> int_bits x"
proof (induction x rule: int_bits.induct)
  case (1 x)
  have e: "int_bits x = int_bits (x div 2) + 1" using 1(2) by (subst int_bits.simps) simp
  have low: "2 ^ nat (int_bits x - 1) \<le> x" "1 \<le> int_bits x" using int_bits_pow [OF 1(2)] by auto
  have "x < 2 ^ nat (int_bits x)"
  proof (cases "x div 2 > 0")
    case True
    then have "x div 2 < 2 ^ nat (int_bits (x div 2))" "1 \<le> int_bits (x div 2)" using 1 by auto
    moreover have "(2 :: int) ^ nat (int_bits x) = 2 * 2 ^ nat (int_bits (x div 2))"
      using \<open>1 \<le> int_bits (x div 2)\<close> by (simp add: e nat_add_distrib)
    ultimately show ?thesis by linarith
  next
    case False
    then have "x = 1" using 1(2) by linarith
    then show ?thesis by (simp add: int_bits_1)
  qed
  then show ?case using low by simp
qed

text \<open>\<open>floor_log2_rat\<close> is the binary exponent.\<close>

lemma powi_less: "(2 :: rat) powi a < 2 powi b \<longleftrightarrow> a < b"
  using power_int_strict_increasing [of a b "2 :: rat"] power_int_increasing [of b a "2 :: rat"] by force

lemma powi_le: "(2 :: rat) powi a \<le> 2 powi b \<longleftrightarrow> a \<le> b"
  using powi_less [of b a] by linarith

lemma floor_log2_bounds:
  assumes "0 < r"
  shows "2 powi floor_log2_rat r \<le> r" "r < 2 powi (floor_log2_rat r + 1)"
proof -
  obtain p q where pq: "quotient_of r = (p, q)" by fastforce
  have q: "0 < q" and r: "r = of_int p / of_int q" using pq quotient_of_denom_pos quotient_of_div by auto
  then have p: "0 < p" using assms by (simp add: zero_less_divide_iff)
  define k where "k = int_bits p - int_bits q"
  note bp = int_bits_bounds [OF p] and bq = int_bits_bounds [OF q]
  have up: "(of_int x :: rat) < 2 powi int_bits x" if "x < 2 ^ nat (int_bits x)" "1 \<le> int_bits x" for x
  proof -
    have "(of_int x :: rat) < of_int (2 ^ nat (int_bits x))" using that(1) by (simp only: of_int_less_iff)
    then show ?thesis using that(2) by (simp add: power_int_def)
  qed
  have low: "2 powi (int_bits x - 1) \<le> (of_int x :: rat)" if "2 ^ nat (int_bits x - 1) \<le> x" "1 \<le> int_bits x" for x
  proof -
    have "of_int (2 ^ nat (int_bits x - 1)) \<le> (of_int x :: rat)" using that(1) by (simp only: of_int_le_iff)
    then show ?thesis using that(2) by (simp add: power_int_def)
  qed
  have "r < 2 powi int_bits p / 2 powi (int_bits q - 1)"
    unfolding r using up [of p] low [of q] bp bq p q by (intro frac_less) auto
  moreover have "k + 1 = int_bits p - (int_bits q - 1)" by (simp add: k_def)
  ultimately have upper: "r < 2 powi (k + 1)" by (simp add: power_int_diff power_int_add)
  have "2 powi (int_bits p - 1) / 2 powi int_bits q < r"
    unfolding r using up [of q] low [of p] bp bq p q by (intro frac_less2) auto
  then have lower: "2 powi (k - 1) < r" by (simp add: k_def power_int_diff [symmetric] algebra_simps)
  have f: "floor_log2_rat r = (if 2 powi k \<le> r then k else k - 1)" by (simp add: floor_log2_rat_def pq k_def)
  show "2 powi floor_log2_rat r \<le> r" "r < 2 powi (floor_log2_rat r + 1)" using upper lower by (auto simp: f)
qed

lemma floor_log2_mono:
  assumes "0 < r" "r \<le> s"
  shows "floor_log2_rat r \<le> floor_log2_rat s"
proof -
  have "2 powi floor_log2_rat r \<le> r" using floor_log2_bounds assms by auto
  also have "r \<le> s" by fact
  also have "s < 2 powi (floor_log2_rat s + 1)" using floor_log2_bounds assms by auto
  finally show ?thesis by (simp add: powi_less)
qed

text \<open>The magnitude of a rounded value.\<close>

definition f64_exp :: "rat \<Rightarrow> int" where
  "f64_exp r = max (-1074) (floor_log2_rat r - 52)"

definition f64_mag :: "rat \<Rightarrow> rat" where
  "f64_mag r = of_int (round_half_even (r / 2 powi f64_exp r)) * 2 powi f64_exp r"

lemma f64_round_pos:
  "0 < r \<Longrightarrow> f64_round r = (if f64_mag r \<ge> 2 ^ 1024 then PInf else Fin (f64_mag r))"
  by (simp add: f64_round_def f64_mag_def f64_exp_def Let_def)

lemma round_le_multiple:
  assumes "r \<le> of_int z * 2 powi e"
  shows "of_int (round_half_even (r / 2 powi e)) * 2 powi e \<le> (of_int z * 2 powi e :: rat)"
proof -
  have "r / 2 powi e \<le> of_int z" using assms by (simp add: divide_le_eq)
  then have "round_half_even (r / 2 powi e) \<le> z" using round_half_even_mono [of "r / 2 powi e" "of_int z"] by simp
  then show ?thesis by (intro mult_right_mono) auto
qed

lemma round_ge_multiple:
  assumes "of_int z * 2 powi e \<le> r"
  shows "(of_int z * 2 powi e :: rat) \<le> of_int (round_half_even (r / 2 powi e)) * 2 powi e"
proof -
  have "of_int z \<le> r / 2 powi e" using assms by (simp add: le_divide_eq)
  then have "z \<le> round_half_even (r / 2 powi e)" using round_half_even_mono [of "of_int z" "r / 2 powi e"] by simp
  then show ?thesis by (intro mult_right_mono) auto
qed

lemma power_multiple: "e \<le> n \<Longrightarrow> (2 :: rat) powi n = of_int (2 ^ nat (n - e)) * 2 powi e"
proof -
  assume "e \<le> n"
  then have "(2 :: rat) powi n = 2 powi int (nat (n - e)) * 2 powi e" by (simp add: power_int_add [symmetric])
  then show ?thesis by (simp del: of_nat_nat int_nat_eq)
qed

lemma f64_mag_mono:
  assumes "0 < r" "r \<le> s"
  shows "f64_mag r \<le> f64_mag s"
proof (cases "f64_exp r = f64_exp s")
  case True
  have "r / 2 powi f64_exp s \<le> s / 2 powi f64_exp s" using assms(2) by (intro divide_right_mono) auto
  then show ?thesis unfolding f64_mag_def True by (intro mult_right_mono) (auto simp: round_half_even_mono)
next
  case False
  have s: "0 < s" using assms by linarith
  have "f64_exp r \<le> f64_exp s" using floor_log2_mono [OF assms] by (simp add: f64_exp_def)
  then have lt: "f64_exp r < f64_exp s" using False by simp
  then have es: "f64_exp s = floor_log2_rat s - 52" and logs: "floor_log2_rat r + 1 \<le> floor_log2_rat s"
    by (auto simp: f64_exp_def)
  define n where "n = max (floor_log2_rat r + 1) (f64_exp r)"
  have n: "f64_exp r \<le> n" "n \<le> floor_log2_rat s" using lt es logs by (auto simp: n_def)
  have "r < 2 powi (floor_log2_rat r + 1)" using floor_log2_bounds [OF assms(1)] by simp
  also have "\<dots> \<le> 2 powi n" by (simp add: powi_le n_def)
  finally have "r \<le> of_int (2 ^ nat (n - f64_exp r)) * 2 powi f64_exp r" using power_multiple [OF n(1)] by simp
  then have "f64_mag r \<le> 2 powi n" unfolding f64_mag_def power_multiple [OF n(1)] by (rule round_le_multiple)
  also have "\<dots> \<le> 2 powi floor_log2_rat s" using n(2) by (simp add: powi_le)
  also have "\<dots> \<le> f64_mag s"
  proof -
    have "f64_exp s \<le> floor_log2_rat s" using es by simp
    note m = power_multiple [OF this]
    show ?thesis unfolding f64_mag_def using floor_log2_bounds(1) [OF s] unfolding m by (rule round_ge_multiple)
  qed
  finally show ?thesis .
qed

lemma f64_mag_pos: "0 < r \<Longrightarrow> 0 \<le> f64_mag r"
  unfolding f64_mag_def using round_half_even_mono [of "of_int 0" "r / 2 powi f64_exp r", unfolded round_half_even_int] by (intro mult_nonneg_nonneg) auto

text \<open>The statement the components use.\<close>

lemma f64_round_mono:
  assumes "0 \<le> r" "r \<le> s"
  shows "f_le (f64_round r) (f64_round s)"
proof (cases "r = 0")
  case True
  then show ?thesis using assms f64_mag_pos [of s] by (cases "s = 0") (auto simp: f64_round_pos f64_round_def [of 0] f_le_def)
next
  case False
  then have "0 < r" "0 < s" using assms by auto
  then show ?thesis using f64_mag_mono [of r s] assms(2) by (auto simp: f64_round_pos f_le_def)
qed

lemma f64_round_between:
  assumes "0 \<le> lo" "lo \<le> r" "r \<le> hi" "f64_round lo = Fin lo" "f64_round hi = Fin hi"
  obtains x where "f64_round r = Fin x" "lo \<le> x" "x \<le> hi"
proof -
  have "f_le (Fin lo) (f64_round r)" "f_le (f64_round r) (Fin hi)"
    using f64_round_mono [of lo r] f64_round_mono [of r hi] assms by auto
  then show ?thesis using that by (cases "f64_round r") (auto simp: f_le_def)
qed

lemma f64_round_int: "0 \<le> i \<Longrightarrow> i < 2 ^ 53 \<Longrightarrow> f64_round (of_int i) = Fin (of_int i)"
  using f64_round_nat [of "nat i"] by (simp add: nat_less_iff)

end
