(* ===== verification/Window_Bounds.thy ===== *)
theory Window_Bounds
  imports Window_Correct Float_Round
begin

text \<open>
  What the summary of a run reports: the counters are the sizes of the classes of \<open>Window_Correct\<close>, the ratios lie between
  0 and 1 with each lower bound below its upper bound, and the index of the 95th percentile is always in range.
\<close>

subsection \<open>Observed accumulators\<close>

lemma session_observe_keeps:
  "ms_key (session_observe e s) = ms_key s" "distinct (ms_topics s) \<Longrightarrow> distinct (ms_topics (session_observe e s))"
  by (auto simp: session_observe_def session_start_def session_proof_def Let_def)

lemma new_window_inv: "window_inv new_window"
  by (simp add: window_inv_def new_window_def)

lemma alist_update_ball:
  "(\<forall>(k, v)\<in>set m. P k v) \<Longrightarrow> P a x \<Longrightarrow> \<forall>(k, v)\<in>set (AList.update a x m). P k v"
  by (induction m) auto

lemma window_sessions_inv:
  assumes "window_inv w"
  shows "window_inv (window_sessions e w)"
proof -
  let ?k = "(te_NodeID e, te_SessionID e)"
  define s where "s = alist_get (new_session ?k) (wa_sessions w) ?k"
  have s: "ms_key s = ?k \<and> distinct (ms_topics s)"
    using assms by (auto simp: s_def alist_get_def window_inv_def new_session_def split: option.splits dest!: map_of_SomeD)
  have "\<forall>(k, s)\<in>set (AList.update ?k (session_observe e s) (wa_sessions w)). ms_key s = k \<and> distinct (ms_topics s)"
    using assms s by (intro alist_update_ball) (auto simp: window_inv_def session_observe_keeps)
  then show ?thesis using assms
    by (simp add: window_sessions_def Let_def window_inv_def s_def [symmetric] distinct_update)
qed

lemma window_publication_inv:
  assumes "window_inv w"
  shows "window_inv (window_publication e w)"
proof -
  let ?k = "(te_Topic e, te_MessageID e)"
  have "\<forall>(k, p)\<in>set (AList.update ?k (publication_of e) (wa_publications w)). wp_key p = k"
    using assms by (intro alist_update_ball) (auto simp: window_inv_def publication_of_def Let_def split: prod.splits)
  then show ?thesis using assms by (simp add: window_publication_def Let_def window_inv_def distinct_update)
qed

lemma window_observe_inv:
  assumes "window_inv w"
  shows "window_inv (window_observe e w)"
proof -
  have frame: "window_inv (window_receipts e v) \<longleftrightarrow> window_inv v" for v
    by (simp add: window_receipts_def Let_def window_inv_def)
  have "window_inv (if b then w\<lparr>wa_enabled := True\<rparr> else w)" for b using assms by (simp add: window_inv_def)
  then show ?thesis using assms
    by (simp add: window_observe_def Let_def frame window_publication_inv window_sessions_inv) (simp add: window_inv_def)
qed

lemma window_fold_inv: "window_inv w \<Longrightarrow> window_inv (fold window_observe es w)"
  by (induction es arbitrary: w) (auto simp: window_observe_inv)

subsection \<open>Ratios and the percentile\<close>

lemma ratio_bounds:
  assumes "0 \<le> a" "a \<le> b" "b \<le> c" "0 < c" "c < 2 ^ 53"
  shows "f_le (Fin 0) (ratio a c) \<and> f_le (ratio a c) (ratio b c) \<and> f_le (ratio b c) (Fin 1)"
proof -
  have r: "ratio x c = f64_round (of_int x / of_int c)" if "0 \<le> x" "x \<le> c" for x
    using that assms f64_round_int [of x] f64_round_int [of c] by (simp add: ratio_def float_of_def)
  have "f64_round 0 = Fin 0" "f64_round 1 = Fin 1" using f64_round_int [of 0] f64_round_int [of 1] by simp_all
  moreover have "0 \<le> (of_int a :: rat) / of_int c" "(of_int a :: rat) / of_int c \<le> of_int b / of_int c" "(of_int b :: rat) / of_int c \<le> 1"
    using assms by (auto intro: divide_right_mono)
  ultimately show ?thesis
    using f64_round_mono [of 0 "of_int a / of_int c"] f64_round_mono [of "of_int a / of_int c" "of_int b / of_int c"]
      f64_round_mono [of "of_int b / of_int c" 1] assms by (simp add: r)
qed

lemma flit_95: "flit 95 2 = Fin (4278419646001971 / 4503599627370496)"
  by code_simp

lemma p95_total:
  assumes "xs \<noteq> []" "length xs < 2 ^ 52"
  shows "\<exists>x\<in>set xs. p95 xs = Inr x"
proof -
  define n where "n = int (length xs)"
  define c :: rat where "c = 4278419646001971 / 4503599627370496"
  have "nat n < 2 ^ 52" using assms(2) by (simp add: n_def)
  then have n: "1 \<le> n" "n < 2 ^ 52" using assms by (auto simp: n_def Suc_le_eq nat_less_iff)
  have half: "f64_round (1 / 2) = Fin (1 / 2)" by code_simp
  have "1 / 2 \<le> c * of_int n" "c * of_int n \<le> of_int n" using n by (auto simp: c_def)
  then obtain x where x: "f64_round (c * of_int n) = Fin x" "1 / 2 \<le> x" "x \<le> of_int n"
    using f64_round_between [OF _ _ _ half f64_round_int, of "c * of_int n" n] n by auto
  have len: "int64_of (f_ceil (f_mul (flit 95 2) (float_of (int (length xs))))) = \<lceil>x\<rceil>"
  proof -
    have "float_of n = Fin (of_int n)" using n by (simp add: float_of_def f64_round_int)
    then have "f_mul (flit 95 2) (float_of n) = Fin x" using x(1) by (simp add: flit_95 c_def [symmetric])
    moreover have "0 \<le> \<lceil>x\<rceil>" "\<lceil>x\<rceil> < 2 ^ 63" using x n by (auto simp: ceiling_less_iff)
    ultimately show ?thesis by (simp add: n_def [symmetric] f_ceil_def int64_of_def)
  qed
  have "1 \<le> \<lceil>x\<rceil>" "\<lceil>x\<rceil> \<le> n" using x by (auto simp: ceiling_le_iff one_le_ceiling)
  moreover from this have "nat (\<lceil>x\<rceil> - 1) < length xs" unfolding n_def by linarith
  ultimately show ?thesis unfolding p95_def len Let_def by (auto simp: n_def intro!: nth_mem)
qed

lemma p95_sorted:
  assumes "latencies \<noteq> []" "length latencies < 2 ^ 52"
  obtains x where "x \<in> set latencies" "p95 (sort_key f_val latencies) = Inr x"
proof -
  have "sort_key f_val latencies \<noteq> []" using assms(1) by (metis length_0_conv length_sort)
  then show ?thesis using p95_total [of "sort_key f_val latencies"] assms(2) that by auto
qed

subsection \<open>The summary\<close>

text \<open>The last steps set ratios and averages and keep every counter of pairs.\<close>

definition same_counts :: "Metrics \<Rightarrow> Metrics \<Rightarrow> bool" where
  "same_counts m n \<longleftrightarrow>
     mt_PublicationAvailabilityUnknownPairs m = mt_PublicationAvailabilityUnknownPairs n \<and> mt_DepartedPairs m = mt_DepartedPairs n
     \<and> mt_ContinuityUnknownPairs m = mt_ContinuityUnknownPairs n \<and> mt_AvailabilityUnknownPairs m = mt_AvailabilityUnknownPairs n
     \<and> mt_EligibleDeliveries m = mt_EligibleDeliveries n \<and> mt_UnknownDeliveries m = mt_UnknownDeliveries n
     \<and> mt_MissedDeliveries m = mt_MissedDeliveries n \<and> mt_ExpectedDeliveries m = mt_ExpectedDeliveries n
     \<and> mt_InitialExpectedDeliveries m = mt_InitialExpectedDeliveries n \<and> mt_InitialEligibleDeliveries m = mt_InitialEligibleDeliveries n
     \<and> mt_InitialUnknownDeliveries m = mt_InitialUnknownDeliveries n \<and> mt_FinalizedPublications m = mt_FinalizedPublications n"

definition same_ratios :: "Metrics \<Rightarrow> Metrics \<Rightarrow> bool" where
  "same_ratios m n \<longleftrightarrow> mt_Reachability m = mt_Reachability n \<and> mt_DeliveryRatioUpperBound m = mt_DeliveryRatioUpperBound n
     \<and> mt_InitialDeliveryRatio m = mt_InitialDeliveryRatio n \<and> mt_InitialDeliveryRatioUpperBound m = mt_InitialDeliveryRatioUpperBound n
     \<and> mt_StableCoverage m = mt_StableCoverage n \<and> mt_StableCoverageUpperBound m = mt_StableCoverageUpperBound n
     \<and> mt_DeliveryRatioAvailable m = mt_DeliveryRatioAvailable n \<and> mt_StableCoverageAvailable m = mt_StableCoverageAvailable n"

lemma window_ratios_counts: "same_counts (window_ratios m) m"
  by (simp add: same_counts_def window_ratios_def Let_def)

lemma window_ratios_values:
  "mt_ExpectedDeliveries m > 0 \<Longrightarrow> mt_Reachability (window_ratios m) = ratio (mt_EligibleDeliveries m) (mt_ExpectedDeliveries m)
     \<and> mt_DeliveryRatioUpperBound (window_ratios m) = ratio (mt_EligibleDeliveries m + mt_UnknownDeliveries m) (mt_ExpectedDeliveries m)"
  "mt_InitialExpectedDeliveries m > 0 \<Longrightarrow>
     mt_InitialDeliveryRatio (window_ratios m) = ratio (mt_InitialEligibleDeliveries m) (mt_InitialExpectedDeliveries m)
     \<and> mt_InitialDeliveryRatioUpperBound (window_ratios m) = ratio (mt_InitialEligibleDeliveries m + mt_InitialUnknownDeliveries m) (mt_InitialExpectedDeliveries m)
     \<and> mt_StableCoverage (window_ratios m) = ratio (mt_ExpectedDeliveries m) (mt_InitialExpectedDeliveries m)
     \<and> mt_StableCoverageUpperBound (window_ratios m) = ratio (mt_ExpectedDeliveries m + mt_ContinuityUnknownPairs m) (mt_InitialExpectedDeliveries m)"
  "mt_DeliveryRatioAvailable (window_ratios m) = (mt_ExpectedDeliveries m > 0)"
  "mt_StableCoverageAvailable (window_ratios m) = (mt_InitialExpectedDeliveries m > 0)"
  by (simp_all add: window_ratios_def Let_def)

lemma duplicate_stats_keeps: "same_counts (duplicate_stats m) m" "same_ratios (duplicate_stats m) m"
  by (simp_all add: same_counts_def same_ratios_def duplicate_stats_def Let_def)

lemma latency_stats_total:
  assumes "length latencies < 2 ^ 52"
  obtains m' where "latency_stats latencies m = Inr m'" "same_counts m' m" "same_ratios m' m" "mt_LatencySamples m' = int (length latencies)"
    "latencies \<noteq> [] \<Longrightarrow> mt_P95LatencyMS m' \<in> set latencies"
proof (cases "latencies = []")
  case True
  show ?thesis
    by (rule that [of "m\<lparr>mt_LatencySamples := 0\<rparr>"]) (use True in \<open>simp_all add: latency_stats_def same_counts_def same_ratios_def\<close>)
next
  case False
  obtain x where x: "x \<in> set latencies" "p95 (sort_key f_val latencies) = Inr x" using p95_sorted [OF False assms] by blast
  show ?thesis
    by (rule that [of "m\<lparr>mt_LatencySamples := int (length latencies), mt_AverageLatencyMS := mean_loop 0 (sort_key f_val latencies) (mt_AverageLatencyMS m), mt_P95LatencyMS := x\<rparr>"])
      (use False x in \<open>simp_all add: latency_stats_def same_counts_def same_ratios_def Let_def\<close>)
qed

lemma length_map_filter: "length (List.map_filter f xs) \<le> length xs"
  by (induction xs) (auto simp: map_filter_simps split: option.splits)

lemma summary_of_pairs:
  assumes "window_inv w" "length (judged_pairs w asOf) < 2 ^ 52"
  obtains m samples m0 ps latencies where "window_summarize w runID asOf published delivered duplicates = Inr (m, samples)"
    "mset ps = mset (judged_pairs w asOf)" "tally w ps (m0, samples, latencies)" "same_counts m (window_ratios m0)" "same_ratios m (window_ratios m0)"
    "mt_FinalizedPublications m0 = int (length (finalized w asOf))" "mt_LatencySamples m = int (length latencies)"
    "latencies \<noteq> [] \<longrightarrow> mt_P95LatencyMS m \<in> set latencies"
proof -
  define r0 where "r0 = zero_metrics\<lparr>mt_Definition := sessionWindowDefinition, mt_RunID := runID, mt_Published := published, mt_Delivered := delivered,
            mt_Duplicates := duplicates, mt_LegacyPublications := max 0 (published - int (length (wa_publications w))),
            mt_MeasurementIncomplete := wa_incomplete w\<rparr>"
  obtain r1 T where r1: "window_topics w asOf r0 = (r1, T)" by fastforce
  have "tally w [] (r0, [], [])" by (simp add: tally_def r0_def zero_metrics_def map_filter_simps)
  note topics = window_topics_pairs [OF assms(1) this r1]
  define r2 where "r2 = r1\<lparr>mt_DeliveryWindows := sort (mt_DeliveryWindows r1)\<rparr>"
  have "tally w [] (r2, [], [])" using topics(1) by (simp add: tally_def r2_def)
  obtain ps where ps: "mset ps = mset (judged_pairs w asOf)" "fold (topic_body w) T (r2, [], []) = fold (judge w) ps (r2, [], [])"
    using topics(2) by blast
  obtain m0 samples latencies where out: "fold (judge w) ps (r2, [], []) = (m0, samples, latencies)" by (metis prod_cases3)
  have tally: "tally w ps (m0, samples, latencies)" using tally_fold [OF \<open>tally w [] (r2, [], [])\<close>, of ps] out by simp
  have fin: "mt_FinalizedPublications (fst (fold (judge w) qs out)) = mt_FinalizedPublications (fst out)" for qs out
    by (induction qs arbitrary: out) (auto simp: judge_def pair_body_def initial_counts_def undelivered_def eligible_def Let_def split: prod.splits option.splits)
  have "length latencies \<le> length ps" using tally length_map_filter by (auto simp: tally_def)
  also have "\<dots> = length (judged_pairs w asOf)" using ps(1) by (metis size_mset)
  finally have "length latencies < 2 ^ 52" using assms(2) by simp
  from latency_stats_total [OF this] obtain m where m: "latency_stats latencies (duplicate_stats (window_ratios m0)) = Inr m"
      "same_counts m (duplicate_stats (window_ratios m0))" "same_ratios m (duplicate_stats (window_ratios m0))" "mt_LatencySamples m = int (length latencies)"
      "latencies \<noteq> [] \<longrightarrow> mt_P95LatencyMS m \<in> set latencies" by blast
  show ?thesis
  proof (rule that [of m samples ps m0 latencies])
    show "window_summarize w runID asOf published delivered duplicates = Inr (m, samples)"
      using r1 ps(2) out m(1) by (simp add: window_summarize_def Let_def r0_def [symmetric] r2_def [symmetric])
    show "same_counts m (window_ratios m0)" "same_ratios m (window_ratios m0)"
      using m(2,3) duplicate_stats_keeps [of "window_ratios m0"] by (auto simp: same_counts_def same_ratios_def)
    show "mt_FinalizedPublications m0 = int (length (finalized w asOf))"
      using fin [of ps "(r2, [], [])"] out topics(1) by (simp add: r2_def r0_def zero_metrics_def)
  qed (use ps tally m in auto)
qed

lemma size_of_nonneg: "0 \<le> size_of P ps"
  by (simp add: size_of_def)

lemma size_of_le: "(\<And>p. p \<in> set ps \<Longrightarrow> P p \<Longrightarrow> Q p) \<Longrightarrow> size_of P ps \<le> size_of Q ps"
  unfolding size_of_def by (induction ps) auto

lemma size_of_length: "size_of P ps \<le> int (length ps)"
  by (simp add: size_of_def)

lemma size_of_disjoint: "(\<And>p. \<not> (P p \<and> Q p)) \<Longrightarrow> size_of P ps + size_of Q ps = size_of (\<lambda>p. P p \<or> Q p) ps"
  unfolding size_of_def by (induction ps) auto

lemma expected_split:
  "size_of (\<lambda>p. pair_class w p \<in> {PDelivered, PUnknown, PMissed}) ps
     = size_of (\<lambda>p. pair_class w p = PDelivered) ps + size_of (\<lambda>p. pair_class w p = PUnknown) ps + size_of (\<lambda>p. pair_class w p = PMissed) ps"
  unfolding size_of_def by (induction ps) auto

lemma present_split:
  "size_of (present w) ps = size_of (\<lambda>p. pair_class w p = PDeparted) ps + size_of (\<lambda>p. pair_class w p = PBroken) ps
     + size_of (\<lambda>p. pair_class w p \<in> {PDelivered, PUnknown, PMissed}) ps"
proof (induction ps)
  case (Cons p ps)
  then show ?case by (cases "pair_class w p") (auto simp: size_of_def present_def)
qed (simp add: size_of_def)

text \<open>
  C2. Delivery metrics are exact. For every sequence of observed events the summary returns, and its counters are the
  sizes of the classes of the judged pairs: every publication whose window has closed with every session that evidence
  shows subscribed and running when it was published. Each pair is counted once, and the expected deliveries are those made
  in time, missed or unknown.
\<close>

theorem window_metrics_exact:
  assumes "w = fold window_observe es new_window" "length (judged_pairs w asOf) < 2 ^ 52"
  shows "\<exists>m samples. window_summarize w runID asOf published delivered duplicates = Inr (m, samples)
    \<and> mt_EligibleDeliveries m = size_of (\<lambda>p. pair_class w p = PDelivered) (judged_pairs w asOf)
    \<and> mt_UnknownDeliveries m = size_of (\<lambda>p. pair_class w p = PUnknown) (judged_pairs w asOf)
    \<and> mt_MissedDeliveries m = size_of (\<lambda>p. pair_class w p = PMissed) (judged_pairs w asOf)
    \<and> mt_DepartedPairs m = size_of (\<lambda>p. pair_class w p = PDeparted) (judged_pairs w asOf)
    \<and> mt_ContinuityUnknownPairs m = size_of (\<lambda>p. pair_class w p = PBroken) (judged_pairs w asOf)
    \<and> mt_PublicationAvailabilityUnknownPairs m = size_of (\<lambda>p. pair_class w p = PUnavailable) (judged_pairs w asOf)
    \<and> mt_ExpectedDeliveries m = mt_EligibleDeliveries m + mt_UnknownDeliveries m + mt_MissedDeliveries m
    \<and> mt_InitialExpectedDeliveries m = mt_DepartedPairs m + mt_ContinuityUnknownPairs m + mt_ExpectedDeliveries m
    \<and> mt_InitialUnknownDeliveries m = size_of (initial_unknown w) (judged_pairs w asOf)
    \<and> mt_FinalizedPublications m = int (length (finalized w asOf))
    \<and> mt_LatencySamples m = int (length samples)"
proof -
  have inv: "window_inv w" using window_fold_inv [OF new_window_inv] assms(1) by simp
  obtain m samples m0 ps latencies where m: "window_summarize w runID asOf published delivered duplicates = Inr (m, samples)"
    and ps: "mset ps = mset (judged_pairs w asOf)" and tally: "tally w ps (m0, samples, latencies)"
    and same: "same_counts m (window_ratios m0)" "same_ratios m (window_ratios m0)"
    and fin: "mt_FinalizedPublications m0 = int (length (finalized w asOf))" "mt_LatencySamples m = int (length latencies)"
    "latencies \<noteq> [] \<longrightarrow> mt_P95LatencyMS m \<in> set latencies"
    by (rule summary_of_pairs [OF inv assms(2), of runID published delivered duplicates]) metis
  have counts: "same_counts m m0" using same(1) window_ratios_counts [of m0] by (simp add: same_counts_def)
  show ?thesis
    using m counts tally fin(1,2) unfolding tally_def same_counts_def prod.case size_of_perm [OF ps] present_split expected_split
    by (intro exI [of _ m] exI [of _ samples]) simp
qed

text \<open>
  C13. The ratios the summary reports lie between 0 and 1, and a lower bound never exceeds its upper bound, in the floating
  point arithmetic of the code.
\<close>

theorem window_ratios_within:
  assumes "w = fold window_observe es new_window" "length (judged_pairs w asOf) < 2 ^ 52"
    "window_summarize w runID asOf published delivered duplicates = Inr (m, samples)"
  shows "(mt_DeliveryRatioAvailable m \<longrightarrow> f_le (Fin 0) (mt_Reachability m) \<and> f_le (mt_Reachability m) (mt_DeliveryRatioUpperBound m)
       \<and> f_le (mt_DeliveryRatioUpperBound m) (Fin 1))
    \<and> (mt_StableCoverageAvailable m \<longrightarrow> f_le (Fin 0) (mt_InitialDeliveryRatio m) \<and> f_le (mt_InitialDeliveryRatio m) (mt_InitialDeliveryRatioUpperBound m)
       \<and> f_le (mt_InitialDeliveryRatioUpperBound m) (Fin 1)
       \<and> f_le (Fin 0) (mt_StableCoverage m) \<and> f_le (mt_StableCoverage m) (mt_StableCoverageUpperBound m) \<and> f_le (mt_StableCoverageUpperBound m) (Fin 1))"
proof -
  have inv: "window_inv w" using window_fold_inv [OF new_window_inv] assms(1) by simp
  obtain m1 samples1 m0 ps latencies where m: "window_summarize w runID asOf published delivered duplicates = Inr (m1, samples1)"
    and ps: "mset ps = mset (judged_pairs w asOf)" and tally: "tally w ps (m0, samples1, latencies)"
    and same: "same_counts m1 (window_ratios m0)" "same_ratios m1 (window_ratios m0)"
    and fin: "mt_FinalizedPublications m0 = int (length (finalized w asOf))" "mt_LatencySamples m1 = int (length latencies)"
    "latencies \<noteq> [] \<longrightarrow> mt_P95LatencyMS m1 \<in> set latencies"
    by (rule summary_of_pairs [OF inv assms(2), of runID published delivered duplicates]) metis
  have m1: "m1 = m" using m assms(3) by simp
  have "length ps = length (judged_pairs w asOf)" using ps by (metis size_mset)
  then have len: "int (length ps) < 2 ^ 53" using assms(2) by simp
  note t = tally [unfolded tally_def prod.case expected_split present_split]
  have initial: "mt_InitialEligibleDeliveries m0 + mt_InitialUnknownDeliveries m0 \<le> mt_InitialExpectedDeliveries m0"
  proof -
    have "mt_InitialEligibleDeliveries m0 + mt_InitialUnknownDeliveries m0
        = size_of (\<lambda>p. (present w p \<and> rr_ontime (pair_receipt w p) \<noteq> None) \<or> initial_unknown w p) ps"
      using tally by (subst size_of_disjoint [symmetric]) (auto simp: tally_def initial_unknown_def)
    also have "\<dots> \<le> size_of (present w) ps" by (rule size_of_le) (auto simp: initial_unknown_def)
    finally show ?thesis using tally by (simp add: tally_def)
  qed
  let ?E = "mt_EligibleDeliveries m0" and ?U = "mt_UnknownDeliveries m0" and ?X = "mt_ExpectedDeliveries m0"
    and ?IE = "mt_InitialEligibleDeliveries m0" and ?IU = "mt_InitialUnknownDeliveries m0" and ?IX = "mt_InitialExpectedDeliveries m0"
    and ?B = "mt_ContinuityUnknownPairs m0" and ?M = "mt_MissedDeliveries m0" and ?D = "mt_DepartedPairs m0"
  have pos: "0 \<le> ?E" "0 \<le> ?U" "0 \<le> ?M" "0 \<le> ?IE" "0 \<le> ?IU" "0 \<le> ?B" "0 \<le> ?D"
    using t by (simp_all add: size_of_nonneg)
  have sums: "?X = ?E + ?U + ?M" "?IX = ?D + ?B + ?X" using t by simp_all
  have small: "?IX < 2 ^ 53" using size_of_length [of "present w" ps] len tally by (simp add: tally_def)
  have "f_le (Fin 0) (ratio ?E ?X) \<and> f_le (ratio ?E ?X) (ratio (?E + ?U) ?X) \<and> f_le (ratio (?E + ?U) ?X) (Fin 1)" if "0 < ?X"
    using that pos sums small by (intro ratio_bounds) auto
  moreover have "f_le (Fin 0) (ratio ?IE ?IX) \<and> f_le (ratio ?IE ?IX) (ratio (?IE + ?IU) ?IX) \<and> f_le (ratio (?IE + ?IU) ?IX) (Fin 1)" if "0 < ?IX"
    using that pos initial small by (intro ratio_bounds) auto
  moreover have "f_le (Fin 0) (ratio ?X ?IX) \<and> f_le (ratio ?X ?IX) (ratio (?X + ?B) ?IX) \<and> f_le (ratio (?X + ?B) ?IX) (Fin 1)" if "0 < ?IX"
    using that pos sums small by (intro ratio_bounds) auto
  ultimately show ?thesis
    using same(2) [unfolded m1 same_ratios_def window_ratios_values(3,4)] window_ratios_values(1,2) [of m0] by simp
qed

subsection \<open>An example run\<close>

text \<open>Node \<open>n2\<close> receives one message of \<open>n1\<close> in time and misses another one.\<close>

definition ex_event :: "string \<Rightarrow> string \<Rightarrow> 64 word \<Rightarrow> gotime \<Rightarrow> TraceEvent" where
  "ex_event node kind sequence t = zero_event\<lparr>te_NodeID := node, te_SessionID := ''s'', te_Type := kind, te_Sequence := sequence, te_Timestamp := t,
     te_Topic := ''news'', te_Fields := [(''subscribedTopics'', VStrings (Some [''news''])), (''measurementDefinition'', VString sessionWindowDefinition)]\<rparr>"

definition ex_events :: "TraceEvent list" where
  "ex_events =
     [ex_event ''n2'' ''measurement_start'' 1 (2 * second), (ex_event ''n1'' ''publish'' 2 (3 * second))\<lparr>te_MessageID := ''m1''\<rparr>,
      (ex_event ''n2'' ''deliver'' 2 (4 * second))\<lparr>te_MessageID := ''m1''\<rparr>, (ex_event ''n1'' ''publish'' 3 (5 * second))\<lparr>te_MessageID := ''m2''\<rparr>,
      ex_event ''n2'' ''measurement_checkpoint'' 3 (30 * second)]"

definition ex_window :: sessionWindowAccumulator where
  "ex_window = fold window_observe ex_events new_window"

lemma ex_pairs:
  "length (judged_pairs ex_window (40 * second)) = 2"
  "size_of (\<lambda>p. pair_class ex_window p = PDelivered) (judged_pairs ex_window (40 * second)) = 1"
  "size_of (\<lambda>p. pair_class ex_window p = PMissed) (judged_pairs ex_window (40 * second)) = 1"
  by code_simp+

theorem window_metrics_exact_witness:
  "\<exists>m samples. window_summarize ex_window ''run'' (40 * second) 2 1 0 = Inr (m, samples) \<and> mt_EligibleDeliveries m = 1 \<and> mt_MissedDeliveries m = 1"
proof -
  have "length (judged_pairs ex_window (40 * second)) < 2 ^ 52" by (simp add: ex_pairs)
  from window_metrics_exact [OF ex_window_def this, of "''run''" 2 1 0] show ?thesis unfolding ex_pairs by blast
qed

lemma ex_summary:
  obtains m samples where "window_summarize ex_window ''run'' (40 * second) 2 1 0 = Inr (m, samples)" "mt_DeliveryRatioAvailable m"
proof -
  have len: "length (judged_pairs ex_window (40 * second)) < 2 ^ 52" by (simp add: ex_pairs)
  have inv: "window_inv ex_window" unfolding ex_window_def by (rule window_fold_inv [OF new_window_inv])
  obtain m samples m0 ps latencies where m: "window_summarize ex_window ''run'' (40 * second) 2 1 0 = Inr (m, samples)"
    and ps: "mset ps = mset (judged_pairs ex_window (40 * second))" and tally: "tally ex_window ps (m0, samples, latencies)"
    and same: "same_ratios m (window_ratios m0)"
    by (rule summary_of_pairs [OF inv len, of "''run''" 2 1 0]) metis
  have "1 \<le> mt_ExpectedDeliveries m0"
    using tally size_of_nonneg [of _ "judged_pairs ex_window (40 * second)"] unfolding tally_def prod.case size_of_perm [OF ps] expected_split ex_pairs by simp
  then show ?thesis using that [OF m] same window_ratios_values(3) [of m0] by (simp add: same_ratios_def)
qed

theorem window_ratios_within_witness:
  "\<exists>m samples. window_summarize ex_window ''run'' (40 * second) 2 1 0 = Inr (m, samples)
     \<and> f_le (mt_Reachability m) (mt_DeliveryRatioUpperBound m) \<and> f_le (mt_DeliveryRatioUpperBound m) (Fin 1)"
proof -
  have len: "length (judged_pairs ex_window (40 * second)) < 2 ^ 52" by (simp add: ex_pairs)
  obtain m samples where m: "window_summarize ex_window ''run'' (40 * second) 2 1 0 = Inr (m, samples)" "mt_DeliveryRatioAvailable m"
    by (rule ex_summary)
  from window_ratios_within [OF ex_window_def len m(1)] m show ?thesis by blast
qed

end
