(* ===== verification/Bandwidth_Correct.thy ===== *)
theory Bandwidth_Correct
  imports Bandwidth "HOL-Library.Multiset"
begin

text \<open>
  The byte counters of a run are conserved: the totals of the accumulator are the sums of the latest accepted sample of
  each session, no sum of the code overflows, and every reported sample is counted as accepted, rejected or superseded.
\<close>

subsection \<open>Entries of a map\<close>

definition entry_sum :: "('v \<Rightarrow> int) \<Rightarrow> ('k \<times> 'v) list \<Rightarrow> int" where
  "entry_sum f m = (\<Sum>(k, v)\<leftarrow>m. f v)"

lemma entry_sum_simps [simp]: "entry_sum f [] = 0" "entry_sum f ((k, v) # m) = f v + entry_sum f m"
  by (simp_all add: entry_sum_def)

lemma entry_sum_update:
  assumes "distinct (map fst m)"
  shows "entry_sum f (AList.update k v m) = entry_sum f m - (case map_of m k of None \<Rightarrow> 0 | Some w \<Rightarrow> f w) + f v"
  using assms
proof (induction m)
  case (Cons p m)
  then show ?case by (cases p) (auto split: option.splits)
qed simp

lemma entry_sum_mono: "(\<And>k v. (k, v) \<in> set m \<Longrightarrow> f v \<le> g v) \<Longrightarrow> entry_sum f m \<le> entry_sum g m"
  unfolding entry_sum_def by (rule sum_list_mono) auto

lemma entry_sum_nonneg: "(\<And>k v. (k, v) \<in> set m \<Longrightarrow> 0 \<le> f v) \<Longrightarrow> 0 \<le> entry_sum f m"
  unfolding entry_sum_def by (rule sum_list_nonneg) auto

lemma update_entries:
  "distinct (map fst m) \<Longrightarrow> (k, v) \<in> set (AList.update a x m) \<Longrightarrow> (k, v) = (a, x) \<or> k \<noteq> a \<and> (k, v) \<in> set m"
  by (induction m) (auto split: if_splits simp: image_iff)

subsection \<open>Accepted samples\<close>

text \<open>What the type \<^verbatim>\<open>int64\<close> of the decoded counters gives.\<close>

definition counters_range :: "TraceEvent \<Rightarrow> bool" where
  "counters_range e \<longleftrightarrow> (case te_Bandwidth e of None \<Rightarrow> True
     | Some s \<Rightarrow> int64_range (bs_ElapsedNS s) \<and> int64_range (bs_ReceivedBytes s) \<and> int64_range (bs_SentBytes s))"

definition sample_ok :: "BandwidthSample \<Rightarrow> bool" where
  "sample_ok s \<longleftrightarrow> 0 < bs_ElapsedNS s \<and> bs_ElapsedNS s \<le> MaxInt64
     \<and> (\<Sum>p\<leftarrow>bs_Protocols s. bp_ReceivedBytes p) \<le> bs_ReceivedBytes s \<and> bs_ReceivedBytes s \<le> MaxInt64
     \<and> (\<Sum>p\<leftarrow>bs_Protocols s. bp_SentBytes p) \<le> bs_SentBytes s \<and> bs_SentBytes s \<le> MaxInt64
     \<and> distinct (map bp_Protocol (bs_Protocols s))
     \<and> (\<forall>p\<in>set (bs_Protocols s). 0 \<le> bp_ReceivedBytes p \<and> 0 \<le> bp_SentBytes p)"

lemma valid_protocols_ok:
  assumes "valid_protocols ps seen i k" "0 \<le> i" "i \<le> MaxInt64" "0 \<le> k" "k \<le> MaxInt64"
  shows "(\<Sum>p\<leftarrow>ps. bp_ReceivedBytes p) \<le> i \<and> (\<Sum>p\<leftarrow>ps. bp_SentBytes p) \<le> k \<and> distinct (map bp_Protocol ps)
    \<and> (\<forall>p\<in>set ps. 0 \<le> bp_ReceivedBytes p \<and> 0 \<le> bp_SentBytes p \<and> bp_Protocol p \<notin> set seen)"
  using assms
proof (induction ps seen i k rule: valid_protocols.induct)
  case (2 p ps seen i k)
  then have p: "bp_Protocol p \<notin> set seen" "0 \<le> bp_ReceivedBytes p" "0 \<le> bp_SentBytes p" "bp_ReceivedBytes p \<le> i" "bp_SentBytes p \<le> k"
    and rest: "valid_protocols ps (bp_Protocol p # seen) (wrap64 (i - bp_ReceivedBytes p)) (wrap64 (k - bp_SentBytes p))"
    by (auto split: if_splits)
  then have w: "wrap64 (i - bp_ReceivedBytes p) = i - bp_ReceivedBytes p" "wrap64 (k - bp_SentBytes p) = k - bp_SentBytes p"
    using 2(4,6) by (auto intro!: wrap64_nonneg)
  have "\<not> (bp_Protocol p \<in> set seen \<or> bp_ReceivedBytes p < 0 \<or> bp_SentBytes p < 0 \<or> bp_ReceivedBytes p > i \<or> bp_SentBytes p > k)"
    using p by auto
  from 2(1) [OF this rest] have "(\<Sum>p\<leftarrow>ps. bp_ReceivedBytes p) \<le> i - bp_ReceivedBytes p \<and> (\<Sum>p\<leftarrow>ps. bp_SentBytes p) \<le> k - bp_SentBytes p
      \<and> distinct (map bp_Protocol ps) \<and> (\<forall>q\<in>set ps. 0 \<le> bp_ReceivedBytes q \<and> 0 \<le> bp_SentBytes q \<and> bp_Protocol q \<notin> set (bp_Protocol p # seen))"
    using p 2(4,6) unfolding w by simp
  then show ?case using p by auto
qed simp

lemma validBandwidthSample_ok:
  assumes "validBandwidthSample e" "counters_range e"
  obtains s where "te_Bandwidth e = Some s" "sample_ok s"
proof -
  obtain s where s: "te_Bandwidth e = Some s" "0 < bs_ElapsedNS s" "0 \<le> bs_ReceivedBytes s" "0 \<le> bs_SentBytes s"
    "valid_protocols (bs_Protocols s) [] (bs_ReceivedBytes s) (bs_SentBytes s)"
    using assms(1) by (auto simp: validBandwidthSample_def split: option.splits)
  moreover have "bs_ElapsedNS s \<le> MaxInt64" "bs_ReceivedBytes s \<le> MaxInt64" "bs_SentBytes s \<le> MaxInt64"
    using assms(2) s(1) by (auto simp: counters_range_def int64_range_def)
  ultimately have "sample_ok s" using valid_protocols_ok [OF s(5)] by (simp add: sample_ok_def)
  then show ?thesis using that s(1) by blast
qed

subsection \<open>The invariant\<close>

definition received :: "bandwidthSession \<Rightarrow> int" where "received b = bs_ReceivedBytes (bw_sample b)"
definition sent :: "bandwidthSession \<Rightarrow> int" where "sent b = bs_SentBytes (bw_sample b)"

definition bandwidth_inv :: "bandwidthAccumulator \<Rightarrow> bool" where
  "bandwidth_inv a \<longleftrightarrow> distinct (map fst (ba_sessions a)) \<and> (\<forall>(k, b)\<in>set (ba_sessions a). sample_ok (bw_sample b))
     \<and> ba_receivedBytes a = entry_sum received (ba_sessions a) \<and> ba_receivedBytes a \<le> MaxInt64
     \<and> ba_sentBytes a = entry_sum sent (ba_sessions a) \<and> ba_sentBytes a \<le> MaxInt64"

lemma sample_ok_nonneg: "sample_ok s \<Longrightarrow> 0 \<le> bs_ReceivedBytes s \<and> 0 \<le> bs_SentBytes s"
proof -
  assume s: "sample_ok s"
  have "0 \<le> (\<Sum>p\<leftarrow>bs_Protocols s. bp_ReceivedBytes p)" "0 \<le> (\<Sum>p\<leftarrow>bs_Protocols s. bp_SentBytes p)"
    using s by (auto intro!: sum_list_nonneg simp: sample_ok_def)
  then show ?thesis using s by (auto simp: sample_ok_def)
qed

text \<open>The baseline of a session: its latest accepted sample.\<close>

definition baseline :: "bandwidthAccumulator \<Rightarrow> session_key \<Rightarrow> BandwidthSample" where
  "baseline a key = (case map_of (ba_sessions a) key of None \<Rightarrow> zero_sample | Some b \<Rightarrow> bw_sample b)"

lemma baseline_nonneg:
  assumes "bandwidth_inv a"
  shows "0 \<le> bs_ElapsedNS (baseline a k)" "0 \<le> bs_ReceivedBytes (baseline a k)" "0 \<le> bs_SentBytes (baseline a k)"
proof -
  have "baseline a k = zero_sample \<or> sample_ok (baseline a k)"
    using assms by (auto simp: baseline_def bandwidth_inv_def split: option.splits dest!: map_of_SomeD)
  then show "0 \<le> bs_ElapsedNS (baseline a k)" "0 \<le> bs_ReceivedBytes (baseline a k)" "0 \<le> bs_SentBytes (baseline a k)"
    using sample_ok_nonneg by (auto simp: zero_sample_def sample_ok_def)
qed

definition band_next :: "TraceEvent \<Rightarrow> bandwidthAccumulator \<Rightarrow> bandwidthAccumulator" where
  "band_next e a = fst (bandwidth_observe e a)"

lemma bandwidth_observe_cases:
  assumes "counters_range e" "bandwidth_inv a"
  obtains "te_Type e \<noteq> ''bandwidth''" "bandwidth_observe e a = (a, None)"
  | "te_Type e = ''bandwidth''" "bandwidth_observe e a = (a\<lparr>ba_rejected := ba_rejected a + 1\<rparr>, None)"
  | "te_Type e = ''bandwidth''" "bandwidth_observe e a = (a\<lparr>ba_superseded := ba_superseded a + 1\<rparr>, None)"
  | s b where "te_Type e = ''bandwidth''" "te_Bandwidth e = Some s" "sample_ok s" "bw_sample b = s"
      "bs_ElapsedNS (baseline a (te_NodeID e, te_SessionID e)) < bs_ElapsedNS s"
      "bi_durationNS (bw_interval b) = bs_ElapsedNS s - bs_ElapsedNS (baseline a (te_NodeID e, te_SessionID e))"
      "bi_receivedBytes (bw_interval b) = bs_ReceivedBytes s - bs_ReceivedBytes (baseline a (te_NodeID e, te_SessionID e))"
      "0 \<le> bi_receivedBytes (bw_interval b)" "ba_receivedBytes a + bi_receivedBytes (bw_interval b) \<le> MaxInt64"
      "bi_sentBytes (bw_interval b) = bs_SentBytes s - bs_SentBytes (baseline a (te_NodeID e, te_SessionID e))"
      "0 \<le> bi_sentBytes (bw_interval b)" "ba_sentBytes a + bi_sentBytes (bw_interval b) \<le> MaxInt64"
      "bandwidth_observe e a = (a\<lparr>ba_sessions := AList.update (te_NodeID e, te_SessionID e) b (ba_sessions a),
         ba_receivedBytes := ba_receivedBytes a + bi_receivedBytes (bw_interval b),
         ba_sentBytes := ba_sentBytes a + bi_sentBytes (bw_interval b), ba_samples := ba_samples a + 1\<rparr>, Some (bw_interval b))"
proof (cases "te_Type e = ''bandwidth'' \<and> validBandwidthSample e")
  case False
  then show ?thesis using that(1,2) by (cases "te_Type e = ''bandwidth''") (auto simp: bandwidth_observe_def reject_def)
next
  case True
  obtain s where s: "te_Bandwidth e = Some s" "sample_ok s" using validBandwidthSample_ok [OF _ assms(1)] True by blast
  let ?key = "(te_NodeID e, te_SessionID e)"
  define prev where "prev = baseline a ?key"
  define known where "known = (map_of (ba_sessions a) ?key \<noteq> None)"
  note base = baseline_nonneg [OF assms(2), of ?key, folded prev_def]
  define iv where "iv = \<lparr>bi_at = te_Timestamp e, bi_durationNS = wrap64 (bs_ElapsedNS s - bs_ElapsedNS prev),
     bi_receivedBytes = wrap64 (bs_ReceivedBytes s - bs_ReceivedBytes prev), bi_sentBytes = wrap64 (bs_SentBytes s - bs_SentBytes prev),
     bi_protocols = []\<rparr>"
  have obs: "bandwidth_observe e a =
     (if known \<and> bs_ElapsedNS s \<le> bs_ElapsedNS prev then (a\<lparr>ba_superseded := ba_superseded a + 1\<rparr>, None)
      else if known \<and> (bs_Final prev \<or> bs_ReceivedBytes s < bs_ReceivedBytes prev \<or> bs_SentBytes s < bs_SentBytes prev) then reject a
      else if bi_receivedBytes iv > wrap64 (MaxInt64 - ba_receivedBytes a) \<or> bi_sentBytes iv > wrap64 (MaxInt64 - ba_sentBytes a) then reject a
      else case protocol_deltas (bs_Protocols s) (protocol_index (bs_Protocols prev)) [] of
          None \<Rightarrow> reject a
        | Some (ps, old) \<Rightarrow>
            if old \<noteq> [] then reject a
            else (a\<lparr>ba_sessions := AList.update ?key \<lparr>bw_agentID = te_AgentID e, bw_at = te_Timestamp e, bw_sample = s,
                       bw_interval = iv\<lparr>bi_protocols := ps\<rparr>\<rparr> (ba_sessions a),
                   ba_receivedBytes := wrap64 (ba_receivedBytes a + bi_receivedBytes iv),
                   ba_sentBytes := wrap64 (ba_sentBytes a + bi_sentBytes iv),
                   ba_samples := ba_samples a + 1\<rparr>, Some (iv\<lparr>bi_protocols := ps\<rparr>)))"
    unfolding bandwidth_observe_def Let_def iv_def prev_def known_def baseline_def using True s(1)
    by (auto split: option.splits prod.splits)
  have new: "bs_ReceivedBytes prev = 0" "bs_SentBytes prev = 0" "bs_ElapsedNS prev = 0" if "\<not> known"
    using that by (auto simp: prev_def baseline_def known_def zero_sample_def)
  have inv: "0 \<le> ba_receivedBytes a" "ba_receivedBytes a \<le> MaxInt64" "0 \<le> ba_sentBytes a" "ba_sentBytes a \<le> MaxInt64"
    using assms(2) sample_ok_nonneg by (fastforce simp: bandwidth_inv_def received_def sent_def intro!: entry_sum_nonneg)+
  show ?thesis
  proof (cases "known \<and> bs_ElapsedNS s \<le> bs_ElapsedNS prev")
    case old: True
    show ?thesis by (rule that(3)) (use True s old in \<open>simp_all add: obs\<close>)
  next
    case newer: False
    show ?thesis
    proof (cases "known \<and> (bs_Final prev \<or> bs_ReceivedBytes s < bs_ReceivedBytes prev \<or> bs_SentBytes s < bs_SentBytes prev)")
      case fell: True
      show ?thesis by (rule that(2)) (use True s newer fell in \<open>simp_all add: obs reject_def\<close>)
    next
      case rose: False
      have ge: "bs_ElapsedNS prev < bs_ElapsedNS s" "bs_ReceivedBytes prev \<le> bs_ReceivedBytes s" "bs_SentBytes prev \<le> bs_SentBytes s"
        using newer rose new s(2) sample_ok_nonneg [OF s(2)] by (cases known; auto simp: sample_ok_def)+
      have w: "wrap64 (bs_ElapsedNS s - bs_ElapsedNS prev) = bs_ElapsedNS s - bs_ElapsedNS prev"
          "wrap64 (bs_ReceivedBytes s - bs_ReceivedBytes prev) = bs_ReceivedBytes s - bs_ReceivedBytes prev"
          "wrap64 (bs_SentBytes s - bs_SentBytes prev) = bs_SentBytes s - bs_SentBytes prev"
          "wrap64 (MaxInt64 - ba_receivedBytes a) = MaxInt64 - ba_receivedBytes a" "wrap64 (MaxInt64 - ba_sentBytes a) = MaxInt64 - ba_sentBytes a"
        using ge base s(2) inv by (auto intro!: wrap64_nonneg simp: sample_ok_def)
      note rest = obs [unfolded if_not_P [OF newer] if_not_P [OF rose]]
      show ?thesis
      proof (cases "bi_receivedBytes iv > MaxInt64 - ba_receivedBytes a \<or> bi_sentBytes iv > MaxInt64 - ba_sentBytes a
          \<or> (\<forall>ps. protocol_deltas (bs_Protocols s) (protocol_index (bs_Protocols prev)) [] \<noteq> Some (ps, []))")
        case refused: True
        show ?thesis
        proof (rule that(2))
          show "te_Type e = ''bandwidth''" using True by simp
          show "bandwidth_observe e a = (a\<lparr>ba_rejected := ba_rejected a + 1\<rparr>, None)"
            using refused unfolding rest w(4,5) reject_def by (auto split: option.splits)
        qed
      next
        case False
        then obtain ps where ps: "protocol_deltas (bs_Protocols s) (protocol_index (bs_Protocols prev)) [] = Some (ps, [])"
          and fits: "bi_receivedBytes iv \<le> MaxInt64 - ba_receivedBytes a" "bi_sentBytes iv \<le> MaxInt64 - ba_sentBytes a" by auto
        have iv: "bi_durationNS iv = bs_ElapsedNS s - bs_ElapsedNS prev" "bi_receivedBytes iv = bs_ReceivedBytes s - bs_ReceivedBytes prev"
            "bi_sentBytes iv = bs_SentBytes s - bs_SentBytes prev" using w by (auto simp: iv_def)
        then have sums: "wrap64 (ba_receivedBytes a + bi_receivedBytes iv) = ba_receivedBytes a + bi_receivedBytes iv"
            "wrap64 (ba_sentBytes a + bi_sentBytes iv) = ba_sentBytes a + bi_sentBytes iv"
          using fits ge inv by (auto intro!: wrap64_nonneg)
        let ?b = "\<lparr>bw_agentID = te_AgentID e, bw_at = te_Timestamp e, bw_sample = s, bw_interval = iv\<lparr>bi_protocols := ps\<rparr>\<rparr>"
        show ?thesis
          by (rule that(4) [of s ?b])
            (use True s iv ge fits ps in \<open>simp_all add: prev_def [symmetric] rest w(4,5) sums [unfolded iv]\<close>)
      qed
    qed
  qed
qed

text \<open>One observation keeps the invariant, counts the event once and never lowers the totals.\<close>

lemma band_next_inv:
  assumes "counters_range e" "bandwidth_inv a"
  shows "bandwidth_inv (band_next e a)"
    and "ba_samples (band_next e a) + ba_rejected (band_next e a) + ba_superseded (band_next e a)
      = ba_samples a + ba_rejected a + ba_superseded a + (if te_Type e = ''bandwidth'' then 1 else 0)"
    and "ba_receivedBytes a \<le> ba_receivedBytes (band_next e a)" "ba_sentBytes a \<le> ba_sentBytes (band_next e a)"
proof -
  note inv = assms(2) [unfolded bandwidth_inv_def]
  have "bandwidth_inv (band_next e a)
    \<and> ba_samples (band_next e a) + ba_rejected (band_next e a) + ba_superseded (band_next e a)
      = ba_samples a + ba_rejected a + ba_superseded a + (if te_Type e = ''bandwidth'' then 1 else 0)
    \<and> ba_receivedBytes a \<le> ba_receivedBytes (band_next e a) \<and> ba_sentBytes a \<le> ba_sentBytes (band_next e a)"
  proof (cases rule: bandwidth_observe_cases [OF assms])
    case (4 s b)
    let ?k = "(te_NodeID e, te_SessionID e)" and ?m = "ba_sessions a"
    have "entry_sum received (AList.update ?k b ?m) = entry_sum received ?m + bi_receivedBytes (bw_interval b)"
      "entry_sum sent (AList.update ?k b ?m) = entry_sum sent ?m + bi_sentBytes (bw_interval b)"
      using inv 4(4,7,10)
      by (auto simp: entry_sum_update received_def sent_def baseline_def zero_sample_def split: option.splits)
    moreover have "\<forall>(k, c)\<in>set (AList.update ?k b ?m). sample_ok (bw_sample c)"
      using inv 4(3,4) by (auto dest: update_entries)
    ultimately have "bandwidth_inv (band_next e a)"
      using inv 4(9,12) by (simp add: band_next_def 4(13) bandwidth_inv_def distinct_update)
    then show ?thesis using 4(1,8,11) by (simp add: band_next_def 4(13))
  qed (use inv in \<open>simp_all add: band_next_def bandwidth_inv_def\<close>)
  then show "bandwidth_inv (band_next e a)"
    and "ba_samples (band_next e a) + ba_rejected (band_next e a) + ba_superseded (band_next e a)
      = ba_samples a + ba_rejected a + ba_superseded a + (if te_Type e = ''bandwidth'' then 1 else 0)"
    and "ba_receivedBytes a \<le> ba_receivedBytes (band_next e a)" "ba_sentBytes a \<le> ba_sentBytes (band_next e a)" by auto
qed

lemma band_fold_inv:
  assumes "\<forall>e\<in>set es. counters_range e" "bandwidth_inv a"
  shows "bandwidth_inv (fold band_next es a)
    \<and> ba_samples (fold band_next es a) + ba_rejected (fold band_next es a) + ba_superseded (fold band_next es a)
      = ba_samples a + ba_rejected a + ba_superseded a + int (length (filter (\<lambda>e. te_Type e = ''bandwidth'') es))
    \<and> ba_receivedBytes a \<le> ba_receivedBytes (fold band_next es a) \<and> ba_sentBytes a \<le> ba_sentBytes (fold band_next es a)"
  using assms
proof (induction es arbitrary: a)
  case (Cons e es)
  then show ?case using band_next_inv [of e a] Cons.IH [of "band_next e a"] by force
qed simp

lemma new_bandwidth_inv: "bandwidth_inv new_bandwidth"
  by (simp add: bandwidth_inv_def new_bandwidth_def MaxInt64_def)

subsection \<open>The summary\<close>

definition proto_sum :: "(BandwidthProtocol \<Rightarrow> int) \<Rightarrow> string \<Rightarrow> BandwidthProtocol list \<Rightarrow> int" where
  "proto_sum f name ps = (\<Sum>p\<leftarrow>filter (\<lambda>p. bp_Protocol p = name) ps. f p)"

text \<open>The protocol table holds the sums of the protocols added so far.\<close>

definition table_of :: "BandwidthProtocol list \<Rightarrow> BandwidthProtocol gomap \<Rightarrow> bool" where
  "table_of ps m \<longleftrightarrow> distinct (map fst m) \<and> fst ` set m = bp_Protocol ` set ps
     \<and> (\<forall>(k, t)\<in>set m. bp_Protocol t = k \<and> bp_ReceivedBytes t = proto_sum bp_ReceivedBytes k ps \<and> bp_SentBytes t = proto_sum bp_SentBytes k ps)"

lemma proto_sum_simps [simp]:
  "proto_sum f k [] = 0"
  "proto_sum f k (ps @ [p]) = proto_sum f k ps + (if bp_Protocol p = k then f p else 0)"
  by (simp_all add: proto_sum_def)

lemma proto_sum_bound:
  assumes "\<forall>p\<in>set ps. 0 \<le> f p"
  shows "0 \<le> proto_sum f k ps" "proto_sum f k ps \<le> sum_list (map f ps)"
  using assms by (induction ps) (auto simp: proto_sum_def)

lemma table_of_add:
  assumes "table_of ps m" "\<forall>q\<in>set (ps @ [p]). 0 \<le> bp_ReceivedBytes q \<and> 0 \<le> bp_SentBytes q"
    "sum_list (map bp_ReceivedBytes (ps @ [p])) \<le> MaxInt64" "sum_list (map bp_SentBytes (ps @ [p])) \<le> MaxInt64"
  shows "table_of (ps @ [p]) (add_protocol p m)"
proof -
  let ?k = "bp_Protocol p" and ?z = "\<lparr>bp_Protocol = [], bp_ReceivedBytes = 0, bp_SentBytes = 0\<rparr>"
  have "mget ?z m ?k = ?z \<and> ?k \<notin> bp_Protocol ` set ps \<or> (?k, mget ?z m ?k) \<in> set m"
    using assms(1) map_of_eq_None_iff [of m ?k] by (auto simp: mget_def table_of_def split: option.splits dest: map_of_SomeD)
  moreover have "proto_sum f ?k ps = 0" if "?k \<notin> bp_Protocol ` set ps" for f
    using that by (induction ps) (auto simp: proto_sum_def)
  ultimately have t: "bp_ReceivedBytes (mget ?z m ?k) = proto_sum bp_ReceivedBytes ?k ps" "bp_SentBytes (mget ?z m ?k) = proto_sum bp_SentBytes ?k ps"
    using assms(1) by (auto simp: table_of_def)
  have w: "wrap64 (proto_sum bp_ReceivedBytes ?k ps + bp_ReceivedBytes p) = proto_sum bp_ReceivedBytes ?k ps + bp_ReceivedBytes p"
      "wrap64 (proto_sum bp_SentBytes ?k ps + bp_SentBytes p) = proto_sum bp_SentBytes ?k ps + bp_SentBytes p"
    using assms(2-4) proto_sum_bound [of ps bp_ReceivedBytes ?k] proto_sum_bound [of ps bp_SentBytes ?k] by (auto intro!: wrap64_nonneg)
  have "add_protocol p m = AList.update ?k \<lparr>bp_Protocol = ?k, bp_ReceivedBytes = proto_sum bp_ReceivedBytes ?k (ps @ [p]),
      bp_SentBytes = proto_sum bp_SentBytes ?k (ps @ [p])\<rparr> m"
    unfolding add_protocol_def Let_def t w by simp
  then show ?thesis
    using assms(1) by (auto simp: table_of_def distinct_update dom_update dest!: update_entries)
qed

lemma table_of_fold:
  assumes "table_of ps m" "\<forall>q\<in>set (ps @ qs). 0 \<le> bp_ReceivedBytes q \<and> 0 \<le> bp_SentBytes q"
    "sum_list (map bp_ReceivedBytes (ps @ qs)) \<le> MaxInt64" "sum_list (map bp_SentBytes (ps @ qs)) \<le> MaxInt64"
  shows "table_of (ps @ qs) (fold add_protocol qs m)"
  using assms
proof (induction qs arbitrary: ps m)
  case (Cons q qs)
  have "0 \<le> sum_list (map bp_ReceivedBytes qs)" "0 \<le> sum_list (map bp_SentBytes qs)"
    using Cons.prems(2) by (auto intro!: sum_list_nonneg)
  then have "table_of (ps @ [q]) (add_protocol q m)" using Cons.prems by (intro table_of_add) auto
  from Cons.IH [OF this] show ?case using Cons.prems by simp
qed simp

text \<open>All protocol counters of the latest samples.\<close>

definition all_protocols :: "bandwidthAccumulator \<Rightarrow> BandwidthProtocol list" where
  "all_protocols a = concat (map (\<lambda>(k, b). bs_Protocols (bw_sample b)) (ba_sessions a))"

lemma summary_fold:
  "snd (fold summary_body bs (out, m)) = fold add_protocol (concat (map (\<lambda>(k, b). bs_Protocols (bw_sample b)) bs)) m
   \<and> bm_ReceivedBytes (fst (fold summary_body bs (out, m))) = bm_ReceivedBytes out
   \<and> bm_SentBytes (fst (fold summary_body bs (out, m))) = bm_SentBytes out"
  by (induction bs arbitrary: out m) (auto simp: summary_body_def Let_def)

lemma all_protocols_bound:
  assumes "bandwidth_inv a"
  shows "\<forall>q\<in>set (all_protocols a). 0 \<le> bp_ReceivedBytes q \<and> 0 \<le> bp_SentBytes q"
    "sum_list (map bp_ReceivedBytes (all_protocols a)) \<le> ba_receivedBytes a"
    "sum_list (map bp_SentBytes (all_protocols a)) \<le> ba_sentBytes a"
proof -
  note inv = assms [unfolded bandwidth_inv_def]
  show "\<forall>q\<in>set (all_protocols a). 0 \<le> bp_ReceivedBytes q \<and> 0 \<le> bp_SentBytes q"
    using inv by (fastforce simp: all_protocols_def sample_ok_def)
  have "sum_list (map f (concat (map (\<lambda>(k, b). bs_Protocols (bw_sample b)) bs))) =
      entry_sum (\<lambda>b. sum_list (map f (bs_Protocols (bw_sample b)))) bs" for f :: "BandwidthProtocol \<Rightarrow> int" and bs :: "(session_key \<times> bandwidthSession) list"
    by (induction bs) auto
  note sum = this [of _ "ba_sessions a", folded all_protocols_def]
  show "sum_list (map bp_ReceivedBytes (all_protocols a)) \<le> ba_receivedBytes a" "sum_list (map bp_SentBytes (all_protocols a)) \<le> ba_sentBytes a"
    unfolding sum using inv by (auto simp: received_def sent_def sample_ok_def intro!: entry_sum_mono)
qed

lemma proto_sum_partition:
  assumes "finite S" "bp_Protocol ` set ps \<subseteq> S"
  shows "(\<Sum>k\<in>S. proto_sum f k ps) = sum_list (map f ps)"
  using assms
proof (induction ps rule: rev_induct)
  case (snoc p ps)
  then show ?case by (simp add: sum.distrib)
qed simp

lemma bandwidth_summary_table:
  assumes "bandwidth_inv a" "bandwidth_summarize a = Some out"
  shows "sorted (map bp_Protocol (bm_Protocols out)) \<and> distinct (map bp_Protocol (bm_Protocols out))
    \<and> bp_Protocol ` set (bm_Protocols out) = bp_Protocol ` set (all_protocols a)
    \<and> (\<forall>t\<in>set (bm_Protocols out). bp_ReceivedBytes t = proto_sum bp_ReceivedBytes (bp_Protocol t) (all_protocols a)
         \<and> bp_SentBytes t = proto_sum bp_SentBytes (bp_Protocol t) (all_protocols a))
    \<and> bm_ReceivedBytes out = ba_receivedBytes a \<and> bm_SentBytes out = ba_sentBytes a"
proof -
  define m where "m = fold add_protocol (all_protocols a) []"
  have "ba_receivedBytes a \<le> MaxInt64" "ba_sentBytes a \<le> MaxInt64" using assms(1) by (auto simp: bandwidth_inv_def)
  then have m: "table_of (all_protocols a) m"
    using table_of_fold [of "[]" "[]" "all_protocols a"] all_protocols_bound [OF assms(1)] unfolding m_def by (simp add: table_of_def)
  have out: "bm_Protocols out = sort_key bp_Protocol (map snd m)" "bm_ReceivedBytes out = ba_receivedBytes a" "bm_SentBytes out = ba_sentBytes a"
  proof -
    define start where "start = \<lparr>bm_Scope = ''libp2p-stream-v1'', bm_Sessions = int (length (ba_sessions a)), bm_FinalizedSessions = 0,
      bm_Samples = ba_samples a, bm_RejectedSamples = ba_rejected a, bm_SupersededSamples = ba_superseded a,
      bm_ReceivedBytes = ba_receivedBytes a, bm_SentBytes = ba_sentBytes a, bm_Protocols = [], bm_LatestAt = 0\<rparr>"
    have "out = (fst (fold summary_body (ba_sessions a) (start, [])))\<lparr>bm_Protocols := sort_key bp_Protocol (map snd m)\<rparr>"
      using assms(2) summary_fold [of "ba_sessions a" start "[]"]
      unfolding bandwidth_summarize_def start_def [symmetric] m_def all_protocols_def by (auto split: if_splits prod.splits)
    then show "bm_Protocols out = sort_key bp_Protocol (map snd m)" "bm_ReceivedBytes out = ba_receivedBytes a" "bm_SentBytes out = ba_sentBytes a"
      using summary_fold [of "ba_sessions a" start "[]"] by (simp_all add: start_def)
  qed
  have names: "map bp_Protocol (map snd m) = map fst m" using m by (auto simp: table_of_def)
  have "distinct (map bp_Protocol (bm_Protocols out))"
    using names m unfolding out(1)
    by (metis (no_types, lifting) mset_eq_imp_distinct_iff mset_map mset_sort table_of_def)
  moreover have "bp_Protocol ` set (bm_Protocols out) = bp_Protocol ` set (all_protocols a)"
    using m names unfolding out(1) by (metis (no_types, lifting) list.set_map set_sort table_of_def)
  ultimately show ?thesis using m out by (auto simp: table_of_def)
qed

lemma bandwidth_column_sum:
  assumes "distinct (map bp_Protocol rows)" "bp_Protocol ` set rows = bp_Protocol ` set ps" "\<forall>t\<in>set rows. f t = proto_sum f (bp_Protocol t) ps"
  shows "(\<Sum>t\<leftarrow>rows. f t) = (\<Sum>p\<leftarrow>ps. f p)"
proof -
  have "(\<Sum>t\<leftarrow>rows. f t) = (\<Sum>k\<leftarrow>map bp_Protocol rows. proto_sum f k ps)"
    using assms(3) by (auto intro!: arg_cong [of _ _ sum_list])
  also have "\<dots> = (\<Sum>k\<in>bp_Protocol ` set ps. proto_sum f k ps)"
    using assms(1,2) by (subst sum_list_distinct_conv_sum_set) auto
  also have "\<dots> = (\<Sum>p\<leftarrow>ps. f p)" by (rule proto_sum_partition) auto
  finally show ?thesis .
qed

text \<open>
  C12. For every sequence of telemetry events the byte totals of a run, received and sent, are the sums of the latest
  accepted sample of each session and fit an \<^verbatim>\<open>int64\<close>, and every bandwidth event is counted exactly once as accepted,
  rejected or superseded. There is a summary as soon as a sample was accepted or rejected; it repeats the totals, and its
  protocol table is sorted, has exactly one row for each protocol that occurs in a latest sample, holds in that row the sums
  of the bytes received and of the bytes sent over the sessions, and so accounts for all bytes that the sessions attribute
  to a protocol, at most the totals.
\<close>

theorem bandwidth_conserved:
  assumes "\<forall>e\<in>set es. counters_range e" "a = fold band_next es new_bandwidth"
  shows "ba_receivedBytes a = entry_sum received (ba_sessions a) \<and> ba_sentBytes a = entry_sum sent (ba_sessions a)
    \<and> 0 \<le> ba_receivedBytes a \<and> ba_receivedBytes a \<le> MaxInt64 \<and> 0 \<le> ba_sentBytes a \<and> ba_sentBytes a \<le> MaxInt64
    \<and> ba_samples a + ba_rejected a + ba_superseded a = int (length (filter (\<lambda>e. te_Type e = ''bandwidth'') es))
    \<and> (bandwidth_summarize a = None \<longleftrightarrow> ba_samples a = 0 \<and> ba_rejected a = 0)
    \<and> (\<forall>out. bandwidth_summarize a = Some out \<longrightarrow>
         bm_ReceivedBytes out = ba_receivedBytes a \<and> bm_SentBytes out = ba_sentBytes a
         \<and> sorted (map bp_Protocol (bm_Protocols out)) \<and> distinct (map bp_Protocol (bm_Protocols out))
         \<and> bp_Protocol ` set (bm_Protocols out) = bp_Protocol ` set (all_protocols a)
         \<and> (\<forall>t\<in>set (bm_Protocols out). bp_ReceivedBytes t = proto_sum bp_ReceivedBytes (bp_Protocol t) (all_protocols a)
              \<and> bp_SentBytes t = proto_sum bp_SentBytes (bp_Protocol t) (all_protocols a))
         \<and> (\<Sum>t\<leftarrow>bm_Protocols out. bp_ReceivedBytes t) = (\<Sum>p\<leftarrow>all_protocols a. bp_ReceivedBytes p)
         \<and> (\<Sum>t\<leftarrow>bm_Protocols out. bp_SentBytes t) = (\<Sum>p\<leftarrow>all_protocols a. bp_SentBytes p)
         \<and> (\<Sum>t\<leftarrow>bm_Protocols out. bp_ReceivedBytes t) \<le> bm_ReceivedBytes out
         \<and> (\<Sum>t\<leftarrow>bm_Protocols out. bp_SentBytes t) \<le> bm_SentBytes out)"
proof -
  have inv: "bandwidth_inv a" and counts: "ba_samples a + ba_rejected a + ba_superseded a = int (length (filter (\<lambda>e. te_Type e = ''bandwidth'') es))"
    and pos: "0 \<le> ba_receivedBytes a" "0 \<le> ba_sentBytes a"
    using band_fold_inv [OF assms(1) new_bandwidth_inv] unfolding assms(2) by (simp_all add: new_bandwidth_def)
  have none: "bandwidth_summarize a = None \<longleftrightarrow> ba_samples a = 0 \<and> ba_rejected a = 0"
    by (simp add: bandwidth_summarize_def case_prod_beta)
  have columns: "(\<Sum>t\<leftarrow>bm_Protocols out. bp_ReceivedBytes t) = (\<Sum>p\<leftarrow>all_protocols a. bp_ReceivedBytes p)"
      "(\<Sum>t\<leftarrow>bm_Protocols out. bp_SentBytes t) = (\<Sum>p\<leftarrow>all_protocols a. bp_SentBytes p)" if "bandwidth_summarize a = Some out" for out
    using bandwidth_summary_table [OF inv that] by (auto intro!: bandwidth_column_sum)
  show ?thesis
    using inv [unfolded bandwidth_inv_def] counts pos none bandwidth_summary_table [OF inv] columns all_protocols_bound(2,3) [OF inv] by simp
qed

definition ex_band :: "string \<Rightarrow> int \<Rightarrow> int \<Rightarrow> TraceEvent" where
  "ex_band node elapsed bytes = zero_event\<lparr>te_Type := ''bandwidth'', te_NodeID := node, te_SessionID := ''s'', te_Timestamp := 7, te_Bandwidth :=
     Some \<lparr>bs_ElapsedNS = elapsed, bs_ReceivedBytes = bytes, bs_SentBytes = 20,
       bs_Protocols = [\<lparr>bp_Protocol = ''/meshsub'', bp_ReceivedBytes = bytes - 5, bp_SentBytes = 17\<rparr>], bs_Final = False\<rparr>\<rparr>"

definition ex_bands :: "TraceEvent list" where
  "ex_bands = [ex_band ''n1'' 1000 100, ex_band ''n2'' 1000 40, ex_band ''n1'' 2000 300, ex_band ''n1'' 1500 200, ex_band ''n1'' 3000 250]"

lemma ex_bands_total:
  "ba_receivedBytes (fold band_next ex_bands new_bandwidth) = 340"
  "map_option bm_Protocols (bandwidth_summarize (fold band_next ex_bands new_bandwidth)) =
     Some [\<lparr>bp_Protocol = ''/meshsub'', bp_ReceivedBytes = 330, bp_SentBytes = 34\<rparr>]"
  by code_simp+

theorem bandwidth_conserved_witness:
  "ba_receivedBytes (fold band_next ex_bands new_bandwidth) = 340
   \<and> ba_receivedBytes (fold band_next ex_bands new_bandwidth) = entry_sum received (ba_sessions (fold band_next ex_bands new_bandwidth))
   \<and> map_option bm_Protocols (bandwidth_summarize (fold band_next ex_bands new_bandwidth)) =
       Some [\<lparr>bp_Protocol = ''/meshsub'', bp_ReceivedBytes = 330, bp_SentBytes = 34\<rparr>]
   \<and> (\<Sum>p\<leftarrow>all_protocols (fold band_next ex_bands new_bandwidth). bp_SentBytes p) = 34"
proof -
  have "\<forall>e\<in>set ex_bands. counters_range e"
    by (simp add: ex_bands_def ex_band_def counters_range_def int64_range_def MaxInt64_def zero_event_def)
  note main = bandwidth_conserved [OF this refl]
  obtain out where out: "bandwidth_summarize (fold band_next ex_bands new_bandwidth) = Some out"
    "bm_Protocols out = [\<lparr>bp_Protocol = ''/meshsub'', bp_ReceivedBytes = 330, bp_SentBytes = 34\<rparr>]" using ex_bands_total(2) by auto
  then have "(\<Sum>t\<leftarrow>bm_Protocols out. bp_SentBytes t) = (\<Sum>p\<leftarrow>all_protocols (fold band_next ex_bands new_bandwidth). bp_SentBytes p)" using main by blast
  then show ?thesis using main ex_bands_total out by simp
qed

end
