(* ===== verification/Run_Metrics.thy ===== *)
theory Run_Metrics
  imports Window_Summary
begin

text \<open>
  \<^verbatim>\<open>internal/controller/run_metrics.go\<close>: the accumulator of a run. It remembers which events it has seen, by session and
  sequence number or by event identifier, counts publications, deliveries and duplicates, and keeps the evidence for the
  delivery metrics, the GossipSub control counters and the bandwidth. Observation is idempotent per event identity.

  The field \<^verbatim>\<open>research\<close> and the callback \<^verbatim>\<open>onBandwidth\<close> of offline exports are left out, the cache of \<^verbatim>\<open>liveSummary\<close> is in
  \<open>Live_Summary\<close>. Counters are unbounded: they count stored events.
\<close>

subsection \<open>Records\<close>

record messageMetric =
  mm_publishedAt :: gotime
  mm_published :: bool
  mm_publisher :: string
  mm_targets :: "string list option"
  mm_deliveries :: "deliveryMetric gomap"
  mm_duplicates :: "int gomap"

record gossipSubControlKey =
  ck_agentID :: string
  ck_direction :: string
  ck_controlType :: string

record runMetricAccumulator =
  rm_compactWindow :: bool
  rm_seen :: "string list"
  rm_sequences :: "(session_key \<times> sequenceRanges) list"
  rm_messages :: "(message_key \<times> messageMetric) list"
  rm_control :: "(gossipSubControlKey \<times> GossipSubControlMetric) list"
  rm_published :: int
  rm_delivered :: int
  rm_duplicates :: int
  rm_window :: sessionWindowAccumulator
  rm_bandwidth :: bandwidthAccumulator
  rm_revision :: "64 word"

definition zero_message :: messageMetric where
  "zero_message = \<lparr>mm_publishedAt = 0, mm_published = False, mm_publisher = [], mm_targets = None, mm_deliveries = [], mm_duplicates = []\<rparr>"

definition newRunMetricAccumulator :: runMetricAccumulator where
  "newRunMetricAccumulator = \<lparr>rm_compactWindow = False, rm_seen = [], rm_sequences = [], rm_messages = [], rm_control = [],
     rm_published = 0, rm_delivered = 0, rm_duplicates = 0, rm_window = new_window, rm_bandwidth = new_bandwidth, rm_revision = 0\<rparr>"

definition newLiveRunMetricAccumulator :: runMetricAccumulator where
  "newLiveRunMetricAccumulator = newRunMetricAccumulator\<lparr>rm_compactWindow := True\<rparr>"

subsection \<open>Identity\<close>

definition hasEventLocked :: "runMetricAccumulator \<Rightarrow> TraceEvent \<Rightarrow> bool" where
  "hasEventLocked a e =
     (if sequenced e then ranges_through (alist_get [] (rm_sequences a) (te_NodeID e, te_SessionID e)) (te_Sequence e) \<noteq> 0
      else eventIdentity e \<noteq> [] \<and> eventIdentity e \<in> set (rm_seen a))"

definition mark_event :: "TraceEvent \<Rightarrow> runMetricAccumulator \<Rightarrow> runMetricAccumulator" where
  "mark_event e a =
     (let key = (te_NodeID e, te_SessionID e)
      in if sequenced e then a\<lparr>rm_sequences := AList.update key (ranges_add (te_Sequence e) (alist_get [] (rm_sequences a) key)) (rm_sequences a)\<rparr>
         else if eventIdentity e \<noteq> [] then a\<lparr>rm_seen := List.insert (eventIdentity e) (rm_seen a)\<rparr>
         else a)"

subsection \<open>Control traffic\<close>

definition control_kinds :: "(string \<times> string) list" where
  "control_kinds = concat (map (\<lambda>d. map (Pair d) [''ihave'', ''iwant'', ''idontwant'', ''graft'', ''prune'']) [''send'', ''recv'', ''drop''])"

definition gossipSubControlEvent :: "string \<Rightarrow> gossipSubControlKey option" where
  "gossipSubControlEvent kind =
     (case filter (\<lambda>(d, c). kind = d @ ''_'' @ c) control_kinds of
        [] \<Rightarrow> None
      | (d, c) # _ \<Rightarrow> Some \<lparr>ck_agentID = [], ck_direction = d, ck_controlType = c\<rparr>)"

definition observeGossipSubControl :: "TraceEvent \<Rightarrow> runMetricAccumulator \<Rightarrow> runMetricAccumulator" where
  "observeGossipSubControl e a =
     (case gossipSubControlEvent (te_Type e) of
        None \<Rightarrow> a
      | Some key \<Rightarrow>
          let key = key\<lparr>ck_agentID := te_AgentID e\<rparr>;
              metric = alist_get \<lparr>gc_AgentID = ck_agentID key, gc_Direction = ck_direction key, gc_ControlType = ck_controlType key, gc_RPCs = 0,
                         gc_Entries = 0, gc_MessageIDs = 0, gc_PeerExchangeRecords = 0\<rparr> (rm_control a) key
          in a\<lparr>rm_control := AList.update key (metric\<lparr>gc_RPCs := gc_RPCs metric + 1,
                 gc_Entries := gc_Entries metric + nonnegativeEventCount (te_Fields e) ''controlEntries'',
                 gc_MessageIDs := gc_MessageIDs metric + nonnegativeEventCount (te_Fields e) ''messageIdCount'',
                 gc_PeerExchangeRecords := gc_PeerExchangeRecords metric + nonnegativeEventCount (te_Fields e) ''peerExchangeCount''\<rparr>) (rm_control a)\<rparr>)"

definition direction_order :: "string \<Rightarrow> nat" where
  "direction_order d = mget 0 [(''send'', 0), (''recv'', 1), (''drop'', 2)] d"

definition control_order :: "string \<Rightarrow> nat" where
  "control_order c = mget 0 [(''ihave'', 0), (''iwant'', 1), (''idontwant'', 2), (''graft'', 3), (''prune'', 4)] c"

definition summarizeGossipSubControl :: "runMetricAccumulator \<Rightarrow> GossipSubControlMetric list" where
  "summarizeGossipSubControl a =
     sort_key gc_AgentID (sort_key (\<lambda>m. direction_order (gc_Direction m)) (sort_key (\<lambda>m. control_order (gc_ControlType m)) (map snd (rm_control a))))"

subsection \<open>Observation\<close>

text \<open>The compact index keeps the published messages only, without their details.\<close>

definition compactLegacyWindowIndex :: "runMetricAccumulator \<Rightarrow> runMetricAccumulator" where
  "compactLegacyWindowIndex a =
     a\<lparr>rm_messages := map (\<lambda>(k, m). (k, zero_message\<lparr>mm_published := True\<rparr>)) (filter (\<lambda>(k, m). mm_published m) (rm_messages a))\<rparr>"

definition count_compact :: "TraceEvent \<Rightarrow> runMetricAccumulator \<Rightarrow> runMetricAccumulator" where
  "count_compact e a =
     (let key = (te_Topic e, te_MessageID e)
      in if te_Type e = ''publish'' then
           (if te_MessageID e \<noteq> [] then
              (if map_of (rm_messages a) key \<noteq> None then a
               else a\<lparr>rm_messages := AList.update key (zero_message\<lparr>mm_published := True\<rparr>) (rm_messages a), rm_published := rm_published a + 1\<rparr>)
            else a\<lparr>rm_published := rm_published a + 1\<rparr>)
         else if te_Type e = ''deliver'' then a\<lparr>rm_delivered := rm_delivered a + 1\<rparr>
         else a\<lparr>rm_duplicates := rm_duplicates a + 1\<rparr>)"

definition publish_message :: "TraceEvent \<Rightarrow> messageMetric \<Rightarrow> messageMetric" where
  "publish_message e m =
     (let m = m\<lparr>mm_published := True, mm_publisher := te_NodeID e, mm_publishedAt := te_Timestamp e\<rparr>
      in case targetNodeIDs (map_of (te_Fields e) ''targetNodeIds'') of
           None \<Rightarrow> m
         | Some targets \<Rightarrow> m\<lparr>mm_targets := Some (remdups (filter (\<lambda>n. n \<noteq> [] \<and> n \<noteq> te_NodeID e) targets))\<rparr>)"

definition deliver_message :: "TraceEvent \<Rightarrow> messageMetric \<Rightarrow> messageMetric" where
  "deliver_message e m =
     (if te_NodeID e = [] \<or> bool_field (te_Fields e) ''localDelivery''
         \<or> (case map_of (mm_deliveries m) (te_NodeID e) of None \<Rightarrow> False | Some previous \<Rightarrow> \<not> te_Timestamp e < dm_timestamp previous) then m
      else m\<lparr>mm_deliveries := AList.update (te_NodeID e) (delivery_of e) (mm_deliveries m)\<rparr>)"

definition duplicate_message :: "TraceEvent \<Rightarrow> messageMetric \<Rightarrow> messageMetric" where
  "duplicate_message e m =
     (if te_NodeID e = [] then m
      else m\<lparr>mm_duplicates := AList.update (te_NodeID e) (mget 0 (mm_duplicates m) (te_NodeID e) + 1) (mm_duplicates m)\<rparr>)"

definition put_message :: "message_key \<Rightarrow> messageMetric \<Rightarrow> runMetricAccumulator \<Rightarrow> runMetricAccumulator" where
  "put_message key m a = a\<lparr>rm_messages := AList.update key m (rm_messages a)\<rparr>"

text \<open>The detailed index: a message is created on its first event, which may be a delivery.\<close>

definition count_detailed :: "TraceEvent \<Rightarrow> runMetricAccumulator \<Rightarrow> runMetricAccumulator" where
  "count_detailed e a =
     (let key = (te_Topic e, te_MessageID e); m = alist_get zero_message (rm_messages a) key; known = te_MessageID e \<noteq> []
      in if te_Type e = ''publish'' then
           (if \<not> known then a\<lparr>rm_published := rm_published a + 1\<rparr>
            else if mm_published m then a
            else (put_message key (publish_message e m) a)\<lparr>rm_published := rm_published a + 1\<rparr>)
         else if te_Type e = ''deliver'' then
           (if known then put_message key (deliver_message e m) a else a)\<lparr>rm_delivered := rm_delivered a + 1\<rparr>
         else (if known then put_message key (duplicate_message e m) a else a)\<lparr>rm_duplicates := rm_duplicates a + 1\<rparr>)"

definition evidence :: "TraceEvent \<Rightarrow> runMetricAccumulator \<Rightarrow> runMetricAccumulator" where
  "evidence e a =
     (let a = a\<lparr>rm_revision := rm_revision a + 1\<rparr>;
          wasWindow = wa_enabled (rm_window a);
          a = a\<lparr>rm_window := window_observe e (rm_window a)\<rparr>;
          a = (if rm_compactWindow a \<and> \<not> wasWindow \<and> wa_enabled (rm_window a) then compactLegacyWindowIndex a else a);
          a = observeGossipSubControl e a
      in a\<lparr>rm_bandwidth := fst (bandwidth_observe e (rm_bandwidth a))\<rparr>)"

definition count_event :: "TraceEvent \<Rightarrow> runMetricAccumulator \<Rightarrow> runMetricAccumulator" where
  "count_event e a =
     (if te_Type e \<noteq> ''publish'' \<and> te_Type e \<noteq> ''deliver'' \<and> te_Type e \<noteq> ''duplicate'' then a
      else if rm_compactWindow a \<and> wa_enabled (rm_window a) then count_compact e a
      else count_detailed e a)"

definition observeLocked :: "TraceEvent \<Rightarrow> runMetricAccumulator \<Rightarrow> runMetricAccumulator \<times> bool" where
  "observeLocked e a =
     (if hasEventLocked a e then (a, False)
      else (count_event e (evidence e (mark_event e a)), True))"

definition observe :: "TraceEvent \<Rightarrow> runMetricAccumulator \<Rightarrow> runMetricAccumulator" where
  "observe e a = fst (observeLocked e a)"

subsection \<open>Summaries\<close>

definition legacy_receiver :: "message_key \<Rightarrow> messageMetric \<Rightarrow> string \<Rightarrow> sweep_state \<Rightarrow> sweep_state" where
  "legacy_receiver key message receiver = (\<lambda>(m, samples, latencies).
     case map_of (mm_deliveries message) receiver of
       None \<Rightarrow> (m, samples, latencies)
     | Some d \<Rightarrow>
         if receiver = mm_publisher message then (m, samples, latencies)
         else let m = m\<lparr>mt_EligibleDeliveries := mt_EligibleDeliveries m + 1,
                        mt_EligibleDuplicates := mt_EligibleDuplicates m + mget 0 (mm_duplicates message) receiver\<rparr>
         in if \<not> dm_latencyAvailable d then (m, samples, latencies)
            else if f_lt (dm_latencyMS d) (Fin 0) \<or> \<not> f_finite (dm_latencyMS d)
              then (m\<lparr>mt_InvalidLatencySamples := mt_InvalidLatencySamples m + 1\<rparr>, samples, latencies)
            else (m, samples @ [\<lparr>pg_agentID = dm_agentID d, pg_topic = fst key, pg_seconds = f_div (dm_latencyMS d) (Fin 1000), pg_nodeID = receiver\<rparr>],
                  latencies @ [dm_latencyMS d]))"

definition legacy_message :: "message_key \<times> messageMetric \<Rightarrow> int \<times> sweep_state \<Rightarrow> int \<times> sweep_state" where
  "legacy_message = (\<lambda>(key, message) (publications, m, samples, latencies).
     case mm_targets message of
       None \<Rightarrow> (publications, m, samples, latencies)
     | Some targets \<Rightarrow>
         if \<not> mm_published message then (publications, m, samples, latencies)
         else (publications + 1, fold (legacy_receiver key message) targets
                (m\<lparr>mt_ExpectedDeliveries := mt_ExpectedDeliveries m + int (length targets)\<rparr>, samples, latencies)))"

definition summarizeLegacy :: "runMetricAccumulator \<Rightarrow> string \<Rightarrow> (Metrics \<times> propagationSample list) result" where
  "summarizeLegacy a runID =
     (let result = zero_metrics\<lparr>mt_Definition := ''dispatch-cohort-v1'', mt_RunID := runID, mt_Published := rm_published a,
            mt_Delivered := rm_delivered a, mt_Duplicates := rm_duplicates a\<rparr>
      in case fold legacy_message (rm_messages a) (0, result, [], []) of (publications, result, samples, latencies) \<Rightarrow>
         let result = result\<lparr>mt_UnscopedPublications := mt_Published result - publications,
               mt_DeliveryRatioAvailable := mt_ExpectedDeliveries result > 0\<rparr>;
             result = (if mt_DeliveryRatioAvailable result
                       then result\<lparr>mt_Reachability := ratio (mt_EligibleDeliveries result) (mt_ExpectedDeliveries result)\<rparr> else result)
      in rbind (latency_stats latencies (duplicate_stats result)) (\<lambda>result. Inr (result, samples)))"

definition summarizeLocked :: "runMetricAccumulator \<Rightarrow> string \<Rightarrow> gotime \<Rightarrow> (Metrics \<times> propagationSample list) result" where
  "summarizeLocked a runID boundary =
     rbind (if wa_enabled (rm_window a)
            then window_summarize (rm_window a) runID boundary (rm_published a) (rm_delivered a) (rm_duplicates a)
            else summarizeLegacy a runID)
       (\<lambda>(result, samples). Inr (result\<lparr>mt_GossipSubControl := summarizeGossipSubControl a,
          mt_Bandwidth := bandwidth_summarize (rm_bandwidth a)\<rparr>, samples))"

text \<open>
  Rebuilding the metrics of a run from the lines of its event log, as a scanner whose limit of 16 MiB no line exceeds yields
  them. Decoding a line is a parameter, a line that cannot be decoded is an error.
\<close>

fun replay :: "(bytes \<Rightarrow> TraceEvent option) \<Rightarrow> string \<Rightarrow> bytes list \<Rightarrow> runMetricAccumulator \<Rightarrow> runMetricAccumulator result" where
  "replay decode runID [] a = Inr a"
| "replay decode runID (line # rest) a =
     (case decode line of
        None \<Rightarrow> Inl (Fail ''decode event line'')
      | Some e \<Rightarrow> replay decode runID rest (if te_RunID e = runID then observe e a else a))"

definition summarizeRunEvents :: "(bytes \<Rightarrow> TraceEvent option) \<Rightarrow> string \<Rightarrow> bytes list \<Rightarrow> gotime \<Rightarrow> Metrics result" where
  "summarizeRunEvents decode runID source asOf =
     rbind (replay decode runID source newRunMetricAccumulator) (\<lambda>a.
     rbind (summarizeLocked a runID asOf) (\<lambda>(m, _). Inr m))"

end
