(* ===== verification/Event_Log.thy ===== *)
theory Event_Log
  imports Run_Metrics
begin

text \<open>
  The Controller's side of telemetry: \<^verbatim>\<open>appendEvents\<close>, \<^verbatim>\<open>appendRunEvents\<close> and \<^verbatim>\<open>persistEventsLocked\<close> of
  \<^verbatim>\<open>internal/controller/state.go\<close> with \<^verbatim>\<open>recordRunWriteError\<close> of \<^verbatim>\<open>run_integrity.go\<close>, \<^verbatim>\<open>resultDeletedLocked\<close> and
  \<^verbatim>\<open>validResultID\<close> of \<^verbatim>\<open>results.go\<close>. An Agent repeats a batch until it is acknowledged, so events arrive more than once; a
  batch is written to the log of its run before it is counted.

  \<^verbatim>\<open>appendRunEvents\<close> holds \<^verbatim>\<open>persistMu\<close> and the lock of the accumulator from its tests to its last write, so a call is one
  transition. The order in which a batch is split over its runs is that of a map iteration and is an argument; so is the
  outcome of each file operation. The texts of operating system errors are left out. A log has the name of its run, as
  \<open>safeName\<close> changes nothing in an identifier that \<^verbatim>\<open>resultDeletedLocked\<close> lets pass. Watchers, archive queues and Prometheus counters are notified outside this state.
\<close>

subsection \<open>State\<close>

text \<open>The fields of \<^verbatim>\<open>model.Experiment\<close> that a failed write changes.\<close>

record runStatus =
  rs_State :: string
  rs_Error :: string
  rs_DataState :: string
  rs_IntegrityError :: string

record logState =
  lg_runMetrics :: "runMetricAccumulator gomap"
  lg_events :: "TraceEvent list"
  lg_files :: "bytes gomap"
  lg_experiments :: "runStatus gomap"
  lg_failedRunWrites :: "string list"

text \<open>What the file system answers: the deletion marker of a run, and how far the append to its log gets.\<close>

datatype write_outcome =
    MkdirFails
  | OpenFails
  | StatFails
  | WriteFails nat bool   \<comment> \<open>how many bytes reached the file, and whether it could be truncated again\<close>
  | SyncFails
  | CloseFails
  | DirectoryFails        \<comment> \<open>the directory of a new log cannot be opened or synced\<close>
  | Written

record log_env =
  le_now :: gotime
  le_encode :: "TraceEvent \<Rightarrow> bytes option"
  le_marker :: "string \<Rightarrow> bool result"
  le_write :: "string \<Rightarrow> write_outcome"

definition recentEventLimit :: nat where "recentEventLimit = 300"

subsection \<open>Identifiers\<close>

definition id_char :: "char \<Rightarrow> bool" where
  "id_char c = ((CHR ''a'' \<le> c \<and> c \<le> CHR ''z'') \<or> (CHR ''A'' \<le> c \<and> c \<le> CHR ''Z'') \<or> (CHR ''0'' \<le> c \<and> c \<le> CHR ''9'')
     \<or> c = CHR ''-'' \<or> c = CHR ''_'')"

definition validResultID :: "string \<Rightarrow> bool" where
  "validResultID s \<longleftrightarrow> \<not> (length s = 0 \<or> length s > 128) \<and> list_all id_char s"

definition safeName :: "string \<Rightarrow> string" where
  "safeName s = (let b = map (\<lambda>c. if id_char c then c else CHR ''_'') s in if b = [] then ''unnamed'' else b)"

lemma safeName_valid: "validResultID s \<Longrightarrow> safeName s = s"
proof -
  assume s: "validResultID s"
  then have "map (\<lambda>c. if id_char c then c else CHR ''_'') s = s"
    by (intro map_idI) (auto simp: validResultID_def list_all_iff)
  then show ?thesis using s by (auto simp: safeName_def Let_def validResultID_def)
qed

definition resultDeletedLocked :: "log_env \<Rightarrow> string \<Rightarrow> bool result" where
  "resultDeletedLocked env runID = (if \<not> validResultID runID then Inl (Fail ''invalid result id'') else le_marker env runID)"

subsection \<open>Writing\<close>

fun encode_all :: "(TraceEvent \<Rightarrow> bytes option) \<Rightarrow> TraceEvent list \<Rightarrow> bytes option" where
  "encode_all enc [] = Some []"
| "encode_all enc (e # es) = (case enc e of None \<Rightarrow> None | Some b \<Rightarrow> map_option ((@) b) (encode_all enc es))"

text \<open>\<^verbatim>\<open>persistEventsLocked\<close>: the file afterwards and the result. Opening creates an empty log.\<close>

definition persistEventsLocked :: "log_env \<Rightarrow> string \<Rightarrow> TraceEvent list \<Rightarrow> bytes gomap \<Rightarrow> bytes gomap \<times> unit result" where
  "persistEventsLocked env runID es files =
     (case encode_all (le_encode env) es of
        None \<Rightarrow> (files, Inl (Fail ''encode event''))
      | Some data \<Rightarrow>
          let run = safeName runID; old = mget [] files run; appended = AList.update run (old @ data) files
          in case le_write env run of
               MkdirFails \<Rightarrow> (files, Inl (Fail ''create run directory''))
             | OpenFails \<Rightarrow> (files, Inl (Fail ''open event log''))
             | StatFails \<Rightarrow> (AList.update run old files, Inl (Fail ''stat''))
             | WriteFails n rolledBack \<Rightarrow>
                 if rolledBack then (AList.update run old files, Inl (Fail ''write event''))
                 else (AList.update run (old @ take n data) files, Inl (Fail ''write event; rollback''))
             | SyncFails \<Rightarrow> (appended, Inl (Fail ''sync''))
             | CloseFails \<Rightarrow> (appended, Inl (Fail ''close''))
             | DirectoryFails \<Rightarrow> (appended, if old = [] then Inl (Fail ''sync directory'') else Inr ())
             | Written \<Rightarrow> (appended, Inr ()))"

definition recordRunWriteError :: "string \<Rightarrow> string \<Rightarrow> logState \<Rightarrow> logState" where
  "recordRunWriteError runID msg s =
     (case map_of (lg_experiments s) runID of
        None \<Rightarrow> s
      | Some run \<Rightarrow>
          let run = (if rs_IntegrityError run = [] then run\<lparr>rs_IntegrityError := ''Result recording failed: '' @ msg\<rparr> else run);
              run = run\<lparr>rs_DataState := ''incomplete''\<rparr>;
              run = (if rs_State run = ''completed'' then run\<lparr>rs_State := ''failed'', rs_Error := rs_IntegrityError run\<rparr> else run)
          in s\<lparr>lg_experiments := AList.update runID run (lg_experiments s), lg_failedRunWrites := List.insert runID (lg_failedRunWrites s)\<rparr>)"

subsection \<open>Appending\<close>

text \<open>The loop that selects the events to accept: new to the accumulator and to this batch.\<close>

fun accept_loop :: "runMetricAccumulator \<Rightarrow> TraceEvent list \<Rightarrow> string list \<Rightarrow> TraceEvent list" where
  "accept_loop a [] pending = []"
| "accept_loop a (e # es) pending =
     (if hasEventLocked a e then accept_loop a es pending
      else if eventIdentity e \<noteq> [] then
        (if eventIdentity e \<in> set pending then accept_loop a es pending
         else e # accept_loop a es (eventIdentity e # pending))
      else e # accept_loop a es pending)"

definition live_event :: "TraceEvent \<Rightarrow> bool" where
  "live_event e \<longleftrightarrow> te_Type e \<noteq> ''peer_score'' \<and> te_Type e \<noteq> ''topology_assignment'' \<and> te_Type e \<noteq> ''topology_applied''"

definition publish_events :: "string \<Rightarrow> runMetricAccumulator \<Rightarrow> TraceEvent list \<Rightarrow> logState \<Rightarrow> logState" where
  "publish_events runID a accepted s =
     (let recent = lg_events s @ filter live_event accepted
      in s\<lparr>lg_runMetrics := AList.update runID a (lg_runMetrics s),
           lg_events := (if length recent > recentEventLimit then drop (length recent - recentEventLimit) recent else recent)\<rparr>)"

definition err_text :: "go_err \<Rightarrow> string" where
  "err_text err = (case err of Fail msg \<Rightarrow> msg | _ \<Rightarrow> [])"

text \<open>The body of \<^verbatim>\<open>appendRunEvents\<close>; its deferred function records an error of the run.\<close>

definition append_body :: "log_env \<Rightarrow> string \<Rightarrow> TraceEvent list \<Rightarrow> logState \<Rightarrow> logState \<times> unit result" where
  "append_body env runID es s =
     (let a = mget newLiveRunMetricAccumulator (lg_runMetrics s) runID
      in case (if runID = [] then Inr False else resultDeletedLocked env runID) of
           Inl err \<Rightarrow> (s, Inl err)
         | Inr True \<Rightarrow> (s, Inr ())
         | Inr False \<Rightarrow>
             let accepted = accept_loop a es []
             in if accepted = [] then (s, Inr ())
                else case (if runID = [] then (lg_files s, Inr ()) else persistEventsLocked env runID accepted (lg_files s)) of
                  (files, Inl err) \<Rightarrow> (s\<lparr>lg_files := files\<rparr>, Inl err)
                | (files, Inr _) \<Rightarrow> (publish_events runID (fold observe accepted a) accepted (s\<lparr>lg_files := files\<rparr>), Inr ()))"

definition appendRunEvents :: "log_env \<Rightarrow> string \<Rightarrow> TraceEvent list \<Rightarrow> logState \<Rightarrow> logState \<times> unit result" where
  "appendRunEvents env runID es s =
     (case append_body env runID es s of
        (s, Inl err) \<Rightarrow> (recordRunWriteError runID (err_text err) s, Inl err)
      | (s, Inr u) \<Rightarrow> (s, Inr u))"

definition complete_event :: "log_env \<Rightarrow> string \<Rightarrow> TraceEvent \<Rightarrow> TraceEvent" where
  "complete_event env agentID e =
     (let e = (if te_AgentID e = [] then e\<lparr>te_AgentID := agentID\<rparr> else e)
      in if IsZero (te_Timestamp e) \<and> te_Type e \<noteq> ''bandwidth'' then e\<lparr>te_Timestamp := le_now env\<rparr> else e)"

definition events_of :: "string \<Rightarrow> TraceEvent list \<Rightarrow> TraceEvent list" where
  "events_of runID es = filter (\<lambda>e. te_RunID e = runID) es"

fun append_runs :: "log_env \<Rightarrow> TraceEvent list \<Rightarrow> string list \<Rightarrow> logState \<Rightarrow> logState \<times> unit result" where
  "append_runs env es [] s = (s, Inr ())"
| "append_runs env es (runID # runs) s =
     (case appendRunEvents env runID (events_of runID es) s of
        (s, Inl err) \<Rightarrow> (s, Inl err)
      | (s, Inr _) \<Rightarrow> append_runs env es runs s)"

text \<open>\<open>runs\<close> is the order in which the map of the batch's runs is ranged over.\<close>

definition appendEvents :: "log_env \<Rightarrow> string list \<Rightarrow> EventBatch \<Rightarrow> logState \<Rightarrow> logState \<times> unit result" where
  "appendEvents env runs batch s =
     (if eb_Events batch = [] then (s, Inr ())
      else append_runs env (map (complete_event env (eb_AgentID batch)) (eb_Events batch)) runs s)"

definition run_order :: "string list \<Rightarrow> EventBatch \<Rightarrow> bool" where
  "run_order runs batch \<longleftrightarrow> distinct runs \<and> set runs = te_RunID ` set (eb_Events batch)"

end
