(* ===== verification/Event_Index.thy ===== *)
theory Event_Index
  imports Event_Log
begin

text \<open>
  Recognition of repeated events. The interface \<open>event_index\<close> is what a consumer of repeated deliveries relies on: a test
  for events already taken and an operation that takes an event, agreeing on a set of keys. It is interpreted on the
  accumulator of a run, whose index is split into ranges of sequence numbers and a set of identifiers.
\<close>

subsection \<open>First occurrences\<close>

fun fresh :: "('e \<Rightarrow> 'k option) \<Rightarrow> 'k set \<Rightarrow> 'e list \<Rightarrow> 'e list" where
  "fresh key K [] = []"
| "fresh key K (e # es) =
     (case key e of
        None \<Rightarrow> e # fresh key K es
      | Some k \<Rightarrow> if k \<in> K then fresh key K es else e # fresh key (insert k K) es)"

definition keys_of :: "('e \<Rightarrow> 'k option) \<Rightarrow> 'e list \<Rightarrow> 'k set" where
  "keys_of key es = (\<Union>e\<in>set es. set_option (key e))"

lemma keys_of_simps [simp]:
  "keys_of key [] = {}" "keys_of key (e # es) = set_option (key e) \<union> keys_of key es" "keys_of key (es @ fs) = keys_of key es \<union> keys_of key fs"
  by (auto simp: keys_of_def)

lemma fresh_append: "fresh key K (es @ fs) = fresh key K es @ fresh key (K \<union> keys_of key es) fs"
  by (induction key K es rule: fresh.induct) (auto split: option.splits simp: insert_absorb)

lemma fresh_subset: "set (fresh key K es) \<subseteq> set es"
  by (induction key K es rule: fresh.induct) (auto split: option.splits)

lemma fresh_length: "length (fresh key K es) \<le> length es"
  by (induction key K es rule: fresh.induct) (auto split: option.splits intro: le_SucI)

lemma fresh_keys: "keys_of key (fresh key K es) = keys_of key es - K"
  by (induction key K es rule: fresh.induct) (auto split: option.splits)

lemma fresh_fixed: "fresh key K es = es \<longleftrightarrow> distinct (List.map_filter key es) \<and> keys_of key es \<inter> K = {}"
proof (induction key K es rule: fresh.induct)
  case (2 key K e es)
  have len: "fresh key L es \<noteq> x # es" for L x
    using fresh_length [of key L es] by (metis length_Cons not_less_eq_eq order_refl)
  have set: "set (List.map_filter key es) = keys_of key es" by (force simp: map_filter_def keys_of_def)
  show ?case
  proof (cases "key e")
    case None
    then show ?thesis using 2(1) by (auto simp: map_filter_simps)
  next
    case (Some k)
    then show ?thesis using 2(2,3) [OF Some] len [of K e] set by (auto simp: map_filter_simps)
  qed
qed (simp add: map_filter_simps)

subsection \<open>The interface\<close>

locale event_index =
  fixes has :: "'a \<Rightarrow> 'e \<Rightarrow> bool" and absorb :: "'e \<Rightarrow> 'a \<Rightarrow> 'a" and key :: "'e \<Rightarrow> 'k option"
    and members :: "'a \<Rightarrow> 'k set" and ok :: "'a \<Rightarrow> bool"
  assumes has_iff: "ok a \<Longrightarrow> has a e \<longleftrightarrow> (\<exists>k. key e = Some k \<and> k \<in> members a)"
    and absorb_members: "ok a \<Longrightarrow> members (absorb e a) = set_option (key e) \<union> members a"
    and absorb_ok: "ok a \<Longrightarrow> ok (absorb e a)"
begin

lemma absorb_all: "ok a \<Longrightarrow> ok (fold absorb es a) \<and> members (fold absorb es a) = keys_of key es \<union> members a"
  by (induction es arbitrary: a) (auto simp: absorb_ok absorb_members)

text \<open>Taking what is new, one event at a time, takes the first occurrences.\<close>

lemma observe_all: "ok a \<Longrightarrow> fold (\<lambda>e a. if has a e then a else absorb e a) es a = fold absorb (fresh key (members a) es) a"
proof (induction es arbitrary: a)
  case (Cons e es)
  then show ?case using Cons.IH [of "absorb e a"] Cons.IH [of a]
    by (auto simp: has_iff absorb_ok absorb_members split: option.splits)
qed simp

lemma observe_members:
  assumes "ok a"
  shows "members (fold (\<lambda>e a. if has a e then a else absorb e a) es a) = keys_of key es \<union> members a"
  unfolding observe_all [OF assms] using absorb_all [OF assms] by (auto simp: fresh_keys)

end

subsection \<open>The index of a run\<close>

datatype event_key = SeqKey string string nat | IdKey string

definition event_key :: "TraceEvent \<Rightarrow> event_key option" where
  "event_key e =
     (if sequenced e then Some (SeqKey (te_NodeID e) (te_SessionID e) (unat (te_Sequence e)))
      else if eventIdentity e \<noteq> [] then Some (IdKey (eventIdentity e)) else None)"

definition members :: "runMetricAccumulator \<Rightarrow> event_key set" where
  "members a = {SeqKey n s i | n s i. i \<in> ranges_set (alist_get [] (rm_sequences a) (n, s))} \<union> IdKey ` set (rm_seen a)"

definition index_ok :: "runMetricAccumulator \<Rightarrow> bool" where
  "index_ok a \<longleftrightarrow> (\<forall>k. ranges_ok (alist_get [] (rm_sequences a) k))"

lemma members_iff [simp]:
  "SeqKey n s i \<in> members a \<longleftrightarrow> i \<in> ranges_set (alist_get [] (rm_sequences a) (n, s))" "IdKey x \<in> members a \<longleftrightarrow> x \<in> set (rm_seen a)"
  by (auto simp: members_def)

text \<open>What \<^verbatim>\<open>observeLocked\<close> does with a new event.\<close>

definition absorb :: "TraceEvent \<Rightarrow> runMetricAccumulator \<Rightarrow> runMetricAccumulator" where
  "absorb e a = count_event e (evidence e (mark_event e a))"

lemma observe_absorb: "observe e a = (if hasEventLocked a e then a else absorb e a)"
  by (simp add: observe_def observeLocked_def absorb_def)

lemma control_frame [simp]:
  "rm_seen (observeGossipSubControl e a) = rm_seen a" "rm_sequences (observeGossipSubControl e a) = rm_sequences a"
  "rm_messages (observeGossipSubControl e a) = rm_messages a" "rm_window (observeGossipSubControl e a) = rm_window a"
  "rm_compactWindow (observeGossipSubControl e a) = rm_compactWindow a" "rm_published (observeGossipSubControl e a) = rm_published a"
  "rm_delivered (observeGossipSubControl e a) = rm_delivered a" "rm_duplicates (observeGossipSubControl e a) = rm_duplicates a"
  "rm_bandwidth (observeGossipSubControl e a) = rm_bandwidth a"
  by (simp_all add: observeGossipSubControl_def Let_def split: option.split)

lemma evidence_frame [simp]:
  "rm_seen (evidence e a) = rm_seen a" "rm_sequences (evidence e a) = rm_sequences a" "rm_compactWindow (evidence e a) = rm_compactWindow a"
  "rm_published (evidence e a) = rm_published a" "rm_delivered (evidence e a) = rm_delivered a" "rm_duplicates (evidence e a) = rm_duplicates a"
  "rm_window (evidence e a) = window_observe e (rm_window a)"
  by (simp_all add: evidence_def Let_def compactLegacyWindowIndex_def)

lemma count_frame [simp]:
  "rm_seen (count_event e a) = rm_seen a" "rm_sequences (count_event e a) = rm_sequences a" "rm_compactWindow (count_event e a) = rm_compactWindow a"
  "rm_window (count_event e a) = rm_window a" "rm_bandwidth (count_event e a) = rm_bandwidth a" "rm_control (count_event e a) = rm_control a"
  by (simp_all add: count_event_def count_compact_def count_detailed_def put_message_def Let_def)

lemma absorb_index: "rm_seen (absorb e a) = rm_seen (mark_event e a)" "rm_sequences (absorb e a) = rm_sequences (mark_event e a)"
  by (simp_all add: absorb_def)

lemma alist_get_update [simp]: "alist_get z (AList.update k v m) j = (if j = k then v else alist_get z m j)"
  by (simp add: alist_get_def update_conv)

interpretation run: event_index hasEventLocked absorb event_key members index_ok
proof
  fix a and e :: TraceEvent assume ok: "index_ok a"
  let ?k = "(te_NodeID e, te_SessionID e)"
  have rs: "ranges_ok (alist_get [] (rm_sequences a) ?k)" using ok by (simp add: index_ok_def)
  show "hasEventLocked a e \<longleftrightarrow> (\<exists>k. event_key e = Some k \<and> k \<in> members a)"
  proof (cases "sequenced e")
    case True
    then have "te_Sequence e \<noteq> 0" by (auto simp: sequenced_def)
    from ranges_through_member [OF rs this] show ?thesis using True by (auto simp: hasEventLocked_def event_key_def members_def)
  next
    case False
    then show ?thesis by (auto simp: hasEventLocked_def event_key_def members_def)
  qed
  have set: "sequenced e \<Longrightarrow> ranges_set (ranges_add (te_Sequence e) (alist_get [] (rm_sequences a) ?k))
      = insert (unat (te_Sequence e)) (ranges_set (alist_get [] (rm_sequences a) ?k))"
    using ranges_add_set [OF rs] by (auto simp: sequenced_def)
  show "members (absorb e a) = set_option (event_key e) \<union> members a"
  proof (rule set_eqI)
    fix k
    show "k \<in> members (absorb e a) \<longleftrightarrow> k \<in> set_option (event_key e) \<union> members a"
      using set by (cases k) (auto simp: event_key_def absorb_index mark_event_def Let_def)
  qed
  show "index_ok (absorb e a)"
    using ok by (auto simp: index_ok_def absorb_index mark_event_def Let_def ranges_add_ok)
qed

lemma new_index: "index_ok newRunMetricAccumulator" "members newRunMetricAccumulator = {}"
  "index_ok newLiveRunMetricAccumulator" "members newLiveRunMetricAccumulator = {}"
  by (auto simp: index_ok_def members_def newRunMetricAccumulator_def newLiveRunMetricAccumulator_def alist_get_def)

text \<open>Observing a list of events takes its first occurrences, in order.\<close>

lemma observe_first: "index_ok a \<Longrightarrow> fold observe es a = fold absorb (fresh event_key (members a) es) a"
  using run.observe_all [of a es] by (simp add: observe_absorb [abs_def])

end
