(* ===== verification/Event_Log_Correct.thy ===== *)
theory Event_Log_Correct
  imports Event_Index "HOL-Library.Sublist"
begin

text \<open>
  The event log under repeated delivery: whatever batches arrive, however often and whatever file operations fail, each
  event is counted once, only after its whole line is in the log, and every acknowledged event of a run that is not deleted
  is counted. A write that fails and cannot be rolled back leaves a fragment in the log; the whole lines around it stay.
\<close>

subsection \<open>Keys and identities\<close>

definition key_identity :: "event_key \<Rightarrow> string" where
  "key_identity k = (case k of SeqKey n s i \<Rightarrow> n @ CHR 0x00 # ''session:'' @ s @ '':'' @ Itoa (int i) | IdKey x \<Rightarrow> x)"

lemma event_key_identity: "event_key e = Some k \<Longrightarrow> eventIdentity e = key_identity k"
  by (auto simp: event_key_def key_identity_def eventIdentity_def split: if_splits)

lemma event_key_None: "event_key e = None \<longleftrightarrow> eventIdentity e = []"
  by (auto simp: event_key_def eventIdentity_def)

subsection \<open>Selection\<close>

lemma accept_subset: "set (accept_loop a es p) \<subseteq> set es"
  by (induction a es p rule: accept_loop.induct) auto

lemma accept_new:
  "x \<in> set (accept_loop a es p) \<Longrightarrow> \<not> hasEventLocked a x \<and> (eventIdentity x = [] \<or> eventIdentity x \<notin> set p)"
  by (induction a es p rule: accept_loop.induct) (auto split: if_splits)

lemma accept_distinct: "distinct (map eventIdentity (filter (\<lambda>e. eventIdentity e \<noteq> []) (accept_loop a es p)))"
  by (induction a es p rule: accept_loop.induct) (auto dest: accept_new)

lemma accept_covers:
  "e \<in> set es \<Longrightarrow> hasEventLocked a e \<or> e \<in> set (accept_loop a es p)
     \<or> eventIdentity e \<noteq> [] \<and> (eventIdentity e \<in> set p \<or> (\<exists>x\<in>set (accept_loop a es p). eventIdentity x = eventIdentity e))"
  by (induction a es p rule: accept_loop.induct) (auto split: if_splits)

lemma map_filter_distinct:
  "distinct (map eventIdentity (filter (\<lambda>e. eventIdentity e \<noteq> []) es)) \<Longrightarrow> distinct (List.map_filter event_key es)"
proof (induction es)
  case (Cons e es)
  show ?case
  proof (cases "event_key e")
    case None
    moreover have "eventIdentity e = []" using None by (simp add: event_key_None)
    ultimately show ?thesis using Cons by (simp add: map_filter_simps)
  next
    case (Some k)
    have "k \<notin> set (List.map_filter event_key es)"
    proof
      assume "k \<in> set (List.map_filter event_key es)"
      then obtain x where x: "x \<in> set es" "event_key x = Some k" by (auto simp: map_filter_def)
      moreover have "eventIdentity x \<noteq> []" "eventIdentity e \<noteq> []" using x(2) Some event_key_None by (metis option.distinct(1))+
      ultimately show False using Cons.prems event_key_identity [OF Some] event_key_identity [OF x(2)] by (auto simp: image_iff)
    qed
    moreover have "eventIdentity e \<noteq> []" using Some event_key_None by (metis option.distinct(1))
    ultimately show ?thesis using Cons Some by (auto simp: map_filter_simps)
  qed
qed (simp add: map_filter_simps)

lemma accept_fresh:
  assumes "index_ok a"
  shows "fresh event_key (members a) (accept_loop a es []) = accept_loop a es []"
  unfolding fresh_fixed
proof
  show "distinct (List.map_filter event_key (accept_loop a es []))" by (intro map_filter_distinct accept_distinct)
  show "keys_of event_key (accept_loop a es []) \<inter> members a = {}"
    using accept_new [of _ a es "[]"] run.has_iff [OF assms] by (fastforce simp: keys_of_def)
qed

subsection \<open>One run\<close>

text \<open>A log consists of whole lines, one for each event, and of the fragments that failed rollbacks leave.\<close>

datatype log_chunk = Whole TraceEvent | Torn bytes

fun log_bytes :: "(TraceEvent \<Rightarrow> bytes option) \<Rightarrow> log_chunk list \<Rightarrow> bytes option" where
  "log_bytes enc [] = Some []"
| "log_bytes enc (Whole e # W) = (case enc e of None \<Rightarrow> None | Some b \<Rightarrow> map_option ((@) b) (log_bytes enc W))"
| "log_bytes enc (Torn b # W) = map_option ((@) b) (log_bytes enc W)"

lemma log_bytes_whole: "log_bytes enc (map Whole es) = encode_all enc es"
  by (induction es) (auto split: option.split)

lemma log_bytes_append: "log_bytes enc (V @ W) = (case log_bytes enc V of None \<Rightarrow> None | Some b \<Rightarrow> map_option ((@) b) (log_bytes enc W))"
  by (induction enc V rule: log_bytes.induct) (auto simp: option.map_comp o_def map_option_case split: option.split)

text \<open>\<open>A\<close> are the events counted so far, \<open>W\<close> the pieces of the log.\<close>

definition run_inv :: "(TraceEvent \<Rightarrow> bytes option) \<Rightarrow> string \<Rightarrow> logState \<Rightarrow> TraceEvent list \<Rightarrow> log_chunk list \<Rightarrow> bool" where
  "run_inv enc r s A W \<longleftrightarrow> mget newLiveRunMetricAccumulator (lg_runMetrics s) r = fold absorb A newLiveRunMetricAccumulator
     \<and> fresh event_key {} A = A \<and> log_bytes enc W = Some (mget [] (lg_files s) r) \<and> subseq (map Whole A) W
     \<and> (\<forall>e. Whole e \<in> set W \<longrightarrow> te_RunID e = r)"

definition covered :: "TraceEvent list \<Rightarrow> TraceEvent \<Rightarrow> bool" where
  "covered A e \<longleftrightarrow> (if eventIdentity e = [] then e \<in> set A else \<exists>x\<in>set A. eventIdentity x = eventIdentity e)"

lemma covered_mono: "covered A e \<Longrightarrow> covered (A @ B) e"
  by (auto simp: covered_def split: if_splits)

definition no_torn :: "log_env \<Rightarrow> bool" where
  "no_torn env \<longleftrightarrow> (\<forall>r n. le_write env r \<noteq> WriteFails n False)"

text \<open>The failures after which the log may hold events that are not counted yet.\<close>

definition clean :: "log_env \<Rightarrow> bool" where
  "clean env \<longleftrightarrow> (\<forall>r. le_write env r \<notin> {SyncFails, CloseFails, DirectoryFails})"

definition intact :: "log_env \<Rightarrow> bool" where
  "intact env \<longleftrightarrow> no_torn env \<and> clean env"

lemma persist_cases:
  assumes "persistEventsLocked env r es files = (files', res)" "validResultID r" "log_bytes (le_encode env) W = Some (mget [] files r)"
  obtains (same) "mget [] files' r = mget [] files r" "\<exists>err. res = Inl err"
  | (torn) b where "log_bytes (le_encode env) (W @ [Torn b]) = Some (mget [] files' r)" "\<exists>err. res = Inl err" "\<not> no_torn env"
  | (whole) "log_bytes (le_encode env) (W @ map Whole es) = Some (mget [] files' r)" "clean env \<longrightarrow> res = Inr ()"
proof -
  note safe = safeName_valid [OF assms(2)]
  show ?thesis
  proof (cases "encode_all (le_encode env) es")
    case None
    then show ?thesis using same assms(1) by (auto simp: persistEventsLocked_def)
  next
    case (Some data)
    have app: "log_bytes (le_encode env) (W @ map Whole es) = Some (mget [] files r @ data)"
      "log_bytes (le_encode env) (W @ [Torn b]) = Some (mget [] files r @ b)" for b
      using assms(3) Some by (simp_all add: log_bytes_append log_bytes_whole)
    have dirty: "clean env \<longrightarrow> le_write env r \<notin> {SyncFails, CloseFails, DirectoryFails}" by (simp add: clean_def)
    show ?thesis
    proof (cases "\<exists>n. le_write env r = WriteFails n False")
      case True
      then obtain n where "le_write env r = WriteFails n False" by blast
      moreover from this have "\<not> no_torn env" by (auto simp: no_torn_def)
      ultimately show ?thesis using assms(1) Some torn [of "take n data"] app(2)
        by (auto simp: persistEventsLocked_def safe Let_def mget_def update_conv)
    next
      case False
      then show ?thesis
        using assms(1) app(1) same whole Some dirty
        by (cases "le_write env r") (auto simp: persistEventsLocked_def safe Let_def mget_def update_conv split: if_splits)
    qed
  qed
qed

lemma persist_frame:
  assumes "persistEventsLocked env r es files = (files', res)" "validResultID r" "q \<noteq> r"
  shows "mget [] files' q = mget [] files q"
  using assms(1,3) safeName_valid [OF assms(2)]
  by (auto simp: persistEventsLocked_def Let_def mget_def update_conv split: option.splits write_outcome.splits if_splits)

lemma record_frame [simp]:
  "lg_runMetrics (recordRunWriteError r msg s) = lg_runMetrics s" "lg_files (recordRunWriteError r msg s) = lg_files s"
  by (simp_all add: recordRunWriteError_def Let_def split: option.split)

lemma append_body_other:
  assumes "append_body env q es s = (s', res)" "r \<noteq> q"
  shows "mget z (lg_runMetrics s') r = mget z (lg_runMetrics s) r \<and> mget [] (lg_files s') r = mget [] (lg_files s) r"
proof (cases "q \<noteq> [] \<and> validResultID q")
  case True
  have "mget [] files' r = mget [] files r" if "persistEventsLocked env q xs files = (files', x)" for xs files files' x
    using persist_frame [OF that _ assms(2)] True by simp
  then show ?thesis using assms True
    by (auto simp: append_body_def Let_def publish_events_def mget_def update_conv resultDeletedLocked_def split: sum.splits bool.splits if_splits prod.splits)
next
  case False
  then show ?thesis using assms
    by (auto simp: append_body_def Let_def publish_events_def mget_def update_conv resultDeletedLocked_def split: if_splits)
qed

lemma appendRunEvents_other:
  assumes "appendRunEvents env q es s = (s', res)" "r \<noteq> q"
  shows "run_inv enc r s' A W \<longleftrightarrow> run_inv enc r s A W"
proof -
  obtain t x where t: "append_body env q es s = (t, x)" by fastforce
  have "lg_runMetrics s' = lg_runMetrics t" "lg_files s' = lg_files t"
    using assms(1) t by (auto simp: appendRunEvents_def split: sum.splits)
  then show ?thesis using append_body_other [OF t assms(2)] by (simp add: run_inv_def)
qed

text \<open>A call for the run itself extends both lists, and a successful one covers its events.\<close>

lemma append_body_step:
  assumes body: "append_body env r es s = (s', res)" and r: "validResultID r"
    and inv: "run_inv (le_encode env) r s A W" and es: "\<forall>e\<in>set es. te_RunID e = r"
  shows "\<exists>B C. run_inv (le_encode env) r s' (A @ B) (W @ C) \<and> set B \<subseteq> set es
    \<and> (no_torn env \<longrightarrow> (\<forall>b. Torn b \<notin> set C)) \<and> (intact env \<longrightarrow> C = map Whole B)
    \<and> (res = Inr () \<and> le_marker env r = Inr False \<longrightarrow> (\<forall>e\<in>set es. covered (A @ B) e))"
proof -
  define a where "a = fold absorb A newLiveRunMetricAccumulator"
  have a: "mget newLiveRunMetricAccumulator (lg_runMetrics s) r = a" using inv by (simp add: run_inv_def a_def)
  have ok: "index_ok a" and mem: "members a = keys_of event_key A"
    using run.absorb_all [OF new_index(3), of A] by (auto simp: a_def new_index)
  have nonempty: "r \<noteq> []" using r by (auto simp: validResultID_def)
  define acc where "acc = accept_loop a es []"
  have known: "covered A e" if h: "hasEventLocked a e" for e
  proof -
    obtain k x where "event_key e = Some k" "x \<in> set A" "event_key x = Some k"
      using h run.has_iff [OF ok] by (auto simp: mem keys_of_def)
    then show ?thesis using event_key_identity event_key_None by (auto simp: covered_def) (metis option.distinct(1))+
  qed
  have cover: "covered (A @ acc) e" if "e \<in> set es" for e
    using accept_covers [OF that, of a "[]", folded acc_def] known [of e, THEN covered_mono, of acc] by (auto simp: covered_def)
  consider (stop) "s' = s" "res \<noteq> Inr () \<or> le_marker env r \<noteq> Inr False \<or> acc = []"
    | (persist) files x where "acc \<noteq> []" "persistEventsLocked env r acc (lg_files s) = (files, x)"
        "s' = (case x of Inl err \<Rightarrow> s\<lparr>lg_files := files\<rparr> | Inr _ \<Rightarrow> publish_events r (fold observe acc a) acc (s\<lparr>lg_files := files\<rparr>))" "res = x"
    using body r nonempty
    by (auto simp: append_body_def a Let_def resultDeletedLocked_def acc_def [symmetric] split: sum.splits bool.splits if_splits prod.splits)
  then show ?thesis
  proof cases
    case stop
    show ?thesis
      by (rule exI [of _ "[]"], rule exI [of _ "[]"]) (use stop inv cover in auto)
  next
    case persist
    have enc: "log_bytes (le_encode env) W = Some (mget [] (lg_files s) r)" and sub: "subseq (map Whole A) W" and W: "\<forall>e. Whole e \<in> set W \<longrightarrow> te_RunID e = r"
      and A: "fresh event_key {} A = A" using inv by (auto simp: run_inv_def)
    have acc: "set acc \<subseteq> set es" by (simp add: acc_def accept_subset)
    have "fold observe acc a = fold absorb acc a" using observe_first [OF ok] accept_fresh [OF ok] by (simp add: acc_def)
    then have fold: "fold observe acc a = fold absorb (A @ acc) newLiveRunMetricAccumulator" by (simp add: a_def)
    have fresh: "fresh event_key {} (A @ acc) = A @ acc"
      using A accept_fresh [OF ok, of es] by (simp add: fresh_append mem acc_def)
    from persist(2) r enc show ?thesis
    proof (cases rule: persist_cases)
      case same
      then show ?thesis using persist(3,4) inv
        by (intro exI [of _ "[]"]) (auto simp: run_inv_def)
    next
      case (torn b)
      then have "run_inv (le_encode env) r s' (A @ []) (W @ [Torn b])"
        using persist(3) inv list_emb_prefix [OF sub] by (auto simp: run_inv_def)
      then show ?thesis using torn persist(4) by (intro exI [of _ "[]"] exI [of _ "[Torn b]"]) (auto simp: intact_def)
    next
      case whole
      have run: "\<forall>e. Whole e \<in> set (W @ map Whole acc) \<longrightarrow> te_RunID e = r" using W acc es by auto
      show ?thesis
      proof (cases x)
        case (Inl err)
        then have s': "lg_runMetrics s' = lg_runMetrics s" "lg_files s' = files" using persist(3) by simp_all
        have "subseq (map Whole A) (W @ map Whole acc)" by (rule list_emb_prefix [OF sub])
        moreover have "mget newLiveRunMetricAccumulator (lg_runMetrics s) r = fold absorb A newLiveRunMetricAccumulator" using inv by (simp add: run_inv_def)
        ultimately have "run_inv (le_encode env) r s' (A @ []) (W @ map Whole acc)"
          using whole(1) A run unfolding run_inv_def s' append_Nil2 by blast
        moreover have "\<not> intact env" using whole(2) Inl by (auto simp: intact_def)
        ultimately show ?thesis using Inl persist(4) by (intro exI [of _ "[]"] exI [of _ "map Whole acc"]) auto
      next
        case (Inr u)
        then have s': "lg_files s' = files" "mget newLiveRunMetricAccumulator (lg_runMetrics s') r = fold absorb (A @ acc) newLiveRunMetricAccumulator"
          using persist(3) fold by (simp_all add: publish_events_def Let_def mget_def update_conv)
        have "subseq (map Whole (A @ acc)) (W @ map Whole acc)" using sub by (simp add: list_emb_append_mono)
        then have "run_inv (le_encode env) r s' (A @ acc) (W @ map Whole acc)" using whole(1) run fresh s'(2) unfolding run_inv_def s'(1) by blast
        then show ?thesis using cover acc by (intro exI [of _ acc] exI [of _ "map Whole acc"]) auto
      qed
    qed
  qed
qed

lemma appendRunEvents_step:
  assumes "appendRunEvents env r es s = (s', res)" "validResultID r" "run_inv (le_encode env) r s A W" "\<forall>e\<in>set es. te_RunID e = r"
  shows "\<exists>B C. run_inv (le_encode env) r s' (A @ B) (W @ C) \<and> set B \<subseteq> set es
    \<and> (no_torn env \<longrightarrow> (\<forall>b. Torn b \<notin> set C)) \<and> (intact env \<longrightarrow> C = map Whole B)
    \<and> (res = Inr () \<and> le_marker env r = Inr False \<longrightarrow> (\<forall>e\<in>set es. covered (A @ B) e))"
proof -
  obtain t x where t: "append_body env r es s = (t, x)" by fastforce
  have "lg_runMetrics s' = lg_runMetrics t" "lg_files s' = lg_files t" "res = x"
    using assms(1) t by (auto simp: appendRunEvents_def split: sum.splits)
  then show ?thesis using append_body_step [OF t assms(2-4)] by (simp add: run_inv_def)
qed

subsection \<open>Batches\<close>

lemma append_runs_step:
  assumes "append_runs env es runs s = (s', res)" "validResultID r" "run_inv (le_encode env) r s A W"
  shows "\<exists>B C. run_inv (le_encode env) r s' (A @ B) (W @ C) \<and> set B \<subseteq> set es \<and> (no_torn env \<longrightarrow> (\<forall>b. Torn b \<notin> set C)) \<and> (intact env \<longrightarrow> C = map Whole B)
    \<and> (res = Inr () \<and> le_marker env r = Inr False \<and> r \<in> set runs \<longrightarrow> (\<forall>e\<in>set es. te_RunID e = r \<longrightarrow> covered (A @ B) e))"
  using assms(1,3)
proof (induction env es runs s arbitrary: A W rule: append_runs.induct)
  case (1 env es s)
  then show ?case by (intro exI [of _ "[]"]) auto
next
  case (2 env es q runs s)
  obtain t x where t: "appendRunEvents env q (events_of q es) s = (t, x)" by fastforce
  have one: "\<exists>B C. run_inv (le_encode env) r t (A @ B) (W @ C) \<and> set B \<subseteq> set es \<and> (no_torn env \<longrightarrow> (\<forall>b. Torn b \<notin> set C)) \<and> (intact env \<longrightarrow> C = map Whole B)
    \<and> (x = Inr () \<and> le_marker env r = Inr False \<and> r = q \<longrightarrow> (\<forall>e\<in>set es. te_RunID e = r \<longrightarrow> covered (A @ B) e))"
  proof (cases "r = q")
    case True
    have "\<forall>e\<in>set (events_of q es). te_RunID e = r" "set (events_of q es) \<subseteq> set es" using True by (auto simp: events_of_def)
    from appendRunEvents_step [OF t [folded True] assms(2) 2(3), folded True] this(1) obtain B C where
      B: "run_inv (le_encode env) r t (A @ B) (W @ C)" "set B \<subseteq> set (events_of r es)" "no_torn env \<longrightarrow> (\<forall>b. Torn b \<notin> set C)" "intact env \<longrightarrow> C = map Whole B"
        "x = Inr () \<and> le_marker env r = Inr False \<longrightarrow> (\<forall>e\<in>set (events_of r es). covered (A @ B) e)" unfolding True by blast
    then show ?thesis by (intro exI [of _ B] exI [of _ C]) (auto simp: events_of_def)
  next
    case False
    then show ?thesis using appendRunEvents_other [OF t False] 2(3) by (intro exI [of _ "[]"]) auto
  qed
  then obtain B C where B: "run_inv (le_encode env) r t (A @ B) (W @ C)" "set B \<subseteq> set es" "no_torn env \<longrightarrow> (\<forall>b. Torn b \<notin> set C)" "intact env \<longrightarrow> C = map Whole B"
    "x = Inr () \<Longrightarrow> le_marker env r = Inr False \<Longrightarrow> r = q \<Longrightarrow> \<forall>e\<in>set es. te_RunID e = r \<longrightarrow> covered (A @ B) e" by blast
  show ?case
  proof (cases x)
    case (Inl err)
    then show ?thesis using 2(2) t B by (intro exI [of _ B] exI [of _ C]) auto
  next
    case (Inr u)
    then have "append_runs env es runs t = (s', res)" using 2(2) t by simp
    from 2(1) [OF t [symmetric] _ this B(1)] Inr obtain D E where D: "run_inv (le_encode env) r s' ((A @ B) @ D) ((W @ C) @ E)" "set D \<subseteq> set es" "no_torn env \<longrightarrow> (\<forall>b. Torn b \<notin> set E)" "intact env \<longrightarrow> E = map Whole D"
      "res = Inr () \<and> le_marker env r = Inr False \<and> r \<in> set runs \<longrightarrow> (\<forall>e\<in>set es. te_RunID e = r \<longrightarrow> covered ((A @ B) @ D) e)" by blast
    show ?thesis
    proof (intro exI conjI)
      show "run_inv (le_encode env) r s' (A @ (B @ D)) (W @ (C @ E))" "set (B @ D) \<subseteq> set es" using D B by auto
      show "no_torn env \<longrightarrow> (\<forall>b. Torn b \<notin> set (C @ E))" "intact env \<longrightarrow> C @ E = map Whole (B @ D)" using D(3,4) B(3,4) by auto
      show "res = Inr () \<and> le_marker env r = Inr False \<and> r \<in> set (q # runs) \<longrightarrow> (\<forall>e\<in>set es. te_RunID e = r \<longrightarrow> covered (A @ (B @ D)) e)"
        using D(5) B(5) Inr covered_mono [of "A @ B" _ D] by auto
    qed
  qed
qed

text \<open>
  Runs of the Controller: any sequence of batches, each under its own environment, for which \<open>ok\<close> holds. The second list
  collects the events of acknowledged batches for runs that are not deleted: the Controller acknowledges the events of a
  deleted run without keeping them.
\<close>

definition empty_log :: "runStatus gomap \<Rightarrow> logState" where
  "empty_log experiments = \<lparr>lg_runMetrics = [], lg_events = [], lg_files = [], lg_experiments = experiments, lg_failedRunWrites = []\<rparr>"

definition completed :: "log_env \<Rightarrow> EventBatch \<Rightarrow> TraceEvent list" where
  "completed env batch = map (complete_event env (eb_AgentID batch)) (eb_Events batch)"

definition kept :: "log_env \<Rightarrow> TraceEvent \<Rightarrow> bool" where
  "kept env e \<longleftrightarrow> le_marker env (te_RunID e) = Inr False"

inductive log_run :: "(log_env \<Rightarrow> bool) \<Rightarrow> (TraceEvent \<Rightarrow> bytes option) \<Rightarrow> logState \<Rightarrow> TraceEvent list \<Rightarrow> TraceEvent list \<Rightarrow> bool" for ok enc where
  Init: "log_run ok enc (empty_log experiments) [] []"
| Batch: "log_run ok enc s received acked \<Longrightarrow> le_encode env = enc \<Longrightarrow> ok env \<Longrightarrow> run_order runs batch \<Longrightarrow>
     appendEvents env runs batch s = (s', res) \<Longrightarrow>
     log_run ok enc s' (received @ completed env batch) (acked @ (if res = Inr () then filter (kept env) (completed env batch) else []))"

lemma complete_run: "te_RunID (complete_event env agent e) = te_RunID e"
  by (simp add: complete_event_def Let_def)

lemma batch_step:
  assumes "appendEvents env runs batch s = (s', res)" "run_order runs batch" "validResultID r" "run_inv (le_encode env) r s A W"
  shows "\<exists>B C. run_inv (le_encode env) r s' (A @ B) (W @ C) \<and> set B \<subseteq> set (completed env batch)
    \<and> (no_torn env \<longrightarrow> (\<forall>b. Torn b \<notin> set C)) \<and> (intact env \<longrightarrow> C = map Whole B)
    \<and> (res = Inr () \<and> le_marker env r = Inr False \<longrightarrow> (\<forall>e\<in>set (completed env batch). te_RunID e = r \<longrightarrow> covered (A @ B) e))"
proof (cases "eb_Events batch = []")
  case True
  then show ?thesis using assms by (intro exI [of _ "[]"]) (auto simp: appendEvents_def completed_def)
next
  case False
  then have ap: "append_runs env (completed env batch) runs s = (s', res)" using assms(1) by (simp add: appendEvents_def completed_def)
  have "r \<in> set runs" if "e \<in> set (completed env batch)" "te_RunID e = r" for e
    using assms(2) that by (auto simp: run_order_def completed_def complete_run)
  then show ?thesis using append_runs_step [OF ap assms(3,4)] by metis
qed

lemma log_run_inv:
  assumes "log_run ok enc s received acked" "validResultID r"
  shows "\<exists>A W. run_inv enc r s A W \<and> set A \<subseteq> set received \<and> (\<forall>e\<in>set acked. te_RunID e = r \<longrightarrow> covered A e)
    \<and> ((\<forall>env. ok env \<longrightarrow> no_torn env) \<longrightarrow> (\<forall>b. Torn b \<notin> set W)) \<and> ((\<forall>env. ok env \<longrightarrow> intact env) \<longrightarrow> W = map Whole A)"
  using assms(1)
proof induction
  case (Init experiments)
  have "run_inv enc r (empty_log experiments) [] []" by (simp add: run_inv_def empty_log_def mget_def)
  then show ?case by fastforce
next
  case (Batch s received acked env runs batch s' res)
  then obtain A W where A: "run_inv enc r s A W" "set A \<subseteq> set received" "\<forall>e\<in>set acked. te_RunID e = r \<longrightarrow> covered A e"
    "(\<forall>env. ok env \<longrightarrow> no_torn env) \<longrightarrow> (\<forall>b. Torn b \<notin> set W)" "(\<forall>env. ok env \<longrightarrow> intact env) \<longrightarrow> W = map Whole A" by blast
  from batch_step [OF Batch(5,4) assms(2)] Batch(2) A(1) obtain B C where
    B: "run_inv enc r s' (A @ B) (W @ C)" "set B \<subseteq> set (completed env batch)"
    "no_torn env \<longrightarrow> (\<forall>b. Torn b \<notin> set C)" "intact env \<longrightarrow> C = map Whole B"
    "res = Inr () \<Longrightarrow> le_marker env r = Inr False \<Longrightarrow> \<forall>e\<in>set (completed env batch). te_RunID e = r \<longrightarrow> covered (A @ B) e" by blast
  show ?case
  proof (intro exI conjI)
    show "run_inv enc r s' (A @ B) (W @ C)" by (rule B(1))
    show "(\<forall>env. ok env \<longrightarrow> no_torn env) \<longrightarrow> (\<forall>b. Torn b \<notin> set (W @ C))" using A(4) B(3) Batch(3) by auto
    show "(\<forall>env. ok env \<longrightarrow> intact env) \<longrightarrow> W @ C = map Whole (A @ B)" using A(5) B(4) Batch(3) by simp
    show "set (A @ B) \<subseteq> set (received @ completed env batch)" using A(2) B(2) by auto
    show "\<forall>e\<in>set (acked @ (if res = Inr () then filter (kept env) (completed env batch) else [])). te_RunID e = r \<longrightarrow> covered (A @ B) e"
      using A(3) B(5) covered_mono [of A _ B] by (auto simp: kept_def split: if_splits)
  qed
qed

lemma whole_log: "\<forall>b. Torn b \<notin> set W \<Longrightarrow> \<exists>V. W = map Whole V"
proof (induction W)
  case (Cons c W)
  then obtain V where V: "W = map Whole V" by auto
  show ?case
  proof (cases c)
    case (Whole e)
    then show ?thesis using V by (intro exI [of _ "e # V"]) simp
  qed (use Cons in auto)
qed simp

lemma subseq_map_whole: "subseq (map Whole A) (map Whole V) \<Longrightarrow> subseq A V"
  using subseq_map [of "map Whole A" "map Whole V" "case_log_chunk (\<lambda>e. e) (\<lambda>_. zero_event)"] by (simp add: o_def)

end
