(* ===== verification/Event_Replay.thy ===== *)
theory Event_Replay
  imports Event_Log_Correct
begin

text \<open>
  What the accumulator of a run counts, and that rebuilding it from the log gives the same metrics: the live accumulator
  keeps a compact index of the messages once the run reports sessions, the one rebuilt from the log keeps every detail.
\<close>

subsection \<open>Counters\<close>

definition of_type :: "string \<Rightarrow> TraceEvent list \<Rightarrow> TraceEvent list" where
  "of_type kind A = filter (\<lambda>e. te_Type e = kind) A"

definition published_keys :: "TraceEvent list \<Rightarrow> message_key set" where
  "published_keys A = {(te_Topic e, te_MessageID e) | e. e \<in> set A \<and> te_Type e = ''publish'' \<and> te_MessageID e \<noteq> []}"

definition publications :: "TraceEvent list \<Rightarrow> int" where
  "publications A = int (card (published_keys A)) + int (length (filter (\<lambda>e. te_MessageID e = []) (of_type ''publish'' A)))"

lemma published_keys_snoc:
  "published_keys (A @ [e]) = (if te_Type e = ''publish'' \<and> te_MessageID e \<noteq> [] then insert (te_Topic e, te_MessageID e) (published_keys A) else published_keys A)"
  by (auto simp: published_keys_def)

lemma finite_published [simp]: "finite (published_keys A)"
proof -
  have "published_keys A \<subseteq> (\<lambda>e. (te_Topic e, te_MessageID e)) ` set A" by (auto simp: published_keys_def)
  then show ?thesis by (rule finite_subset) simp
qed

lemma publications_snoc:
  "publications (A @ [e]) = publications A + (if te_Type e = ''publish'' \<and> (te_MessageID e = [] \<or> (te_Topic e, te_MessageID e) \<notin> published_keys A) then 1 else 0)"
  by (auto simp: publications_def published_keys_snoc of_type_def insert_absorb)

text \<open>The messages the index holds as published.\<close>

definition published_in :: "(message_key \<times> messageMetric) list \<Rightarrow> message_key set" where
  "published_in ms = {k. \<exists>m. map_of ms k = Some m \<and> mm_published m}"

definition compact :: "runMetricAccumulator \<Rightarrow> bool" where
  "compact a \<longleftrightarrow> rm_compactWindow a \<and> wa_enabled (rm_window a)"

definition counts_inv :: "TraceEvent list \<Rightarrow> runMetricAccumulator \<Rightarrow> bool" where
  "counts_inv A a \<longleftrightarrow> distinct (map fst (rm_messages a)) \<and> published_in (rm_messages a) = published_keys A
     \<and> (compact a \<longrightarrow> (\<forall>k m. map_of (rm_messages a) k = Some m \<longrightarrow> mm_published m))
     \<and> rm_published a = publications A \<and> rm_delivered a = int (length (of_type ''deliver'' A)) \<and> rm_duplicates a = int (length (of_type ''duplicate'' A))"

lemma enabled_frame [simp]:
  "wa_enabled (window_receipts e w) = wa_enabled w" "wa_enabled (window_publication e w) = wa_enabled w" "wa_enabled (window_sessions e w) = wa_enabled w"
  by (simp_all add: window_receipts_def window_publication_def window_sessions_def Let_def)

lemma window_enabled_mono: "wa_enabled w \<Longrightarrow> wa_enabled (window_observe e w)"
  unfolding window_observe_def Let_def by (cases "te_Type e = ''measurement_terminated''") simp_all

definition compacted :: "(message_key \<times> messageMetric) list \<Rightarrow> (message_key \<times> messageMetric) list" where
  "compacted ms = map (\<lambda>(k, m). (k, zero_message\<lparr>mm_published := True\<rparr>)) (filter (\<lambda>(k, m). mm_published m) ms)"

lemma compacted_map_of:
  assumes "distinct (map fst ms)"
  shows "map_of (compacted ms) k = (if k \<in> published_in ms then Some (zero_message\<lparr>mm_published := True\<rparr>) else None)"
  using assms unfolding compacted_def
proof (induction ms)
  case (Cons x ms)
  obtain j m where x: "x = (j, m)" by fastforce
  have "map_of ms j = None" using Cons.prems x by (auto simp: map_of_eq_None_iff)
  then show ?case using Cons x by (auto simp: published_in_def)
qed (simp add: published_in_def)

lemma compacted_distinct:
  assumes "distinct (map fst ms)"
  shows "distinct (map fst (compacted ms))"
proof -
  have "map fst (compacted ms) = map fst (filter (\<lambda>(k, m). mm_published m) ms)" unfolding compacted_def by (simp add: case_prod_beta o_def)
  then show ?thesis using assms by (simp only: distinct_map_filter)
qed

lemma compacted_published:
  assumes "distinct (map fst ms)"
  shows "published_in (compacted ms) = published_in ms"
  unfolding published_in_def [of "compacted ms"] compacted_map_of [OF assms] by auto

lemma evidence_messages: "rm_messages (evidence e a) = (if compact (evidence e a) \<and> \<not> compact a then compacted (rm_messages a) else rm_messages a)"
  by (auto simp: evidence_def Let_def compactLegacyWindowIndex_def compact_def compacted_def)

lemma compact_evidence: "compact a \<Longrightarrow> compact (evidence e a)"
  by (simp add: compact_def window_enabled_mono)

lemma evidence_inv:
  assumes "counts_inv A a"
  shows "counts_inv A (evidence e a)"
proof (cases "compact (evidence e a) \<and> \<not> compact a")
  case True
  then have "rm_messages (evidence e a) = compacted (rm_messages a)" by (simp add: evidence_messages)
  then show ?thesis using assms by (simp add: counts_inv_def compacted_distinct compacted_published compacted_map_of)
next
  case False
  then have "rm_messages (evidence e a) = rm_messages a" "compact (evidence e a) = compact a" using compact_evidence by (auto simp: evidence_messages)
  then show ?thesis using assms by (simp add: counts_inv_def)
qed

lemma mark_frame [simp]:
  "rm_messages (mark_event e a) = rm_messages a" "rm_window (mark_event e a) = rm_window a" "rm_compactWindow (mark_event e a) = rm_compactWindow a"
  "rm_published (mark_event e a) = rm_published a" "rm_delivered (mark_event e a) = rm_delivered a" "rm_duplicates (mark_event e a) = rm_duplicates a"
  "rm_bandwidth (mark_event e a) = rm_bandwidth a" "rm_control (mark_event e a) = rm_control a"
  by (simp_all add: mark_event_def Let_def)

lemma published_in_update:
  "published_in (AList.update k m ms) = (if mm_published m then insert k (published_in ms) else published_in ms - {k})"
  by (auto simp: published_in_def update_conv)

lemma count_event_inv:
  assumes "counts_inv A a"
  shows "counts_inv (A @ [e]) (count_event e a)"
proof -
  let ?k = "(te_Topic e, te_MessageID e)"
  note inv = assms [unfolded counts_inv_def]
  have get: "?k \<in> published_in (rm_messages a) \<longleftrightarrow> mm_published (alist_get zero_message (rm_messages a) ?k)"
    by (auto simp: published_in_def alist_get_def zero_message_def split: option.splits)
  have kinds: "(''publish'' :: string) \<noteq> ''deliver''" "(''publish'' :: string) \<noteq> ''duplicate''" "(''deliver'' :: string) \<noteq> ''duplicate''" by simp_all
  have keep: "mm_published (deliver_message e m) = mm_published m" "mm_published (duplicate_message e m) = mm_published m" "mm_published (publish_message e m)" for m
    by (simp_all add: deliver_message_def duplicate_message_def publish_message_def Let_def split: option.split)
  have c: "compact (count_event e a) = compact a" by (simp add: compact_def)
  consider (other) "te_Type e \<noteq> ''publish''" "te_Type e \<noteq> ''deliver''" "te_Type e \<noteq> ''duplicate''" | (compact) "compact a" "te_Type e \<in> {''publish'', ''deliver'', ''duplicate''}"
    | (detailed) "\<not> compact a" "te_Type e \<in> {''publish'', ''deliver'', ''duplicate''}" by auto
  then show ?thesis
  proof cases
    case other
    then show ?thesis using assms by (simp add: counts_inv_def count_event_def compact_def published_keys_snoc publications_snoc of_type_def)
  next
    case compact
    then have eq: "count_event e a = count_compact e a" by (auto simp: count_event_def compact_def)
    have all: "mm_published m" if "map_of (rm_messages a) k = Some m" for k m using inv compact(1) that by blast
    have present: "?k \<in> published_keys A \<longleftrightarrow> map_of (rm_messages a) ?k \<noteq> None"
    proof -
      have "?k \<in> published_keys A \<longleftrightarrow> ?k \<in> published_in (rm_messages a)" using inv by simp
      then show ?thesis using all by (auto simp: published_in_def)
    qed
    show ?thesis
    proof (cases "te_Type e = ''publish'' \<and> te_MessageID e \<noteq> [] \<and> ?k \<notin> published_keys A")
      case True
      then have "count_compact e a = a\<lparr>rm_messages := AList.update ?k (zero_message\<lparr>mm_published := True\<rparr>) (rm_messages a), rm_published := rm_published a + 1\<rparr>"
        using present by (simp add: count_compact_def)
      then show ?thesis using inv all True
        by (simp add: eq counts_inv_def published_keys_snoc publications_snoc of_type_def published_in_update distinct_update update_conv)
    next
      case False
      have "rm_messages (count_compact e a) = rm_messages a" using False compact(2) present by (auto simp: count_compact_def Let_def)
      moreover have "rm_published (count_compact e a) = publications (A @ [e])" "rm_delivered (count_compact e a) = int (length (of_type ''deliver'' (A @ [e])))"
        "rm_duplicates (count_compact e a) = int (length (of_type ''duplicate'' (A @ [e])))"
        using False compact(2) present inv by (auto simp: count_compact_def Let_def publications_snoc of_type_def)
      moreover have "published_keys (A @ [e]) = published_keys A" using False by (auto simp: published_keys_snoc)
      ultimately show ?thesis using inv all by (simp add: eq counts_inv_def)
    qed
  next
    case detailed
    then have eq: "count_event e a = count_detailed e a" by (auto simp: count_event_def compact_def)
    show ?thesis unfolding eq counts_inv_def using inv detailed get c [unfolded eq]
      by (auto simp: count_detailed_def put_message_def Let_def published_keys_snoc publications_snoc of_type_def published_in_update distinct_update insert_absorb keep
          split: if_splits)
  qed
qed

lemma absorb_counts: "counts_inv A a \<Longrightarrow> counts_inv (A @ [e]) (absorb e a)"
proof -
  assume "counts_inv A a"
  then have "counts_inv A (mark_event e a)" by (simp add: counts_inv_def compact_def)
  then show ?thesis unfolding absorb_def by (intro count_event_inv evidence_inv)
qed

lemma fold_counts: "counts_inv A a \<Longrightarrow> counts_inv (A @ B) (fold absorb B a)"
proof (induction B arbitrary: A a)
  case (Cons e B)
  then show ?case using Cons.IH [OF absorb_counts [OF Cons.prems]] by simp
qed simp

lemma new_counts: "counts_inv [] newLiveRunMetricAccumulator" "counts_inv [] newRunMetricAccumulator"
  by (simp_all add: counts_inv_def newLiveRunMetricAccumulator_def newRunMetricAccumulator_def published_in_def published_keys_def publications_def of_type_def)

subsection \<open>Live and rebuilt accumulators\<close>

definition twin :: "runMetricAccumulator \<Rightarrow> runMetricAccumulator \<Rightarrow> bool" where
  "twin l r \<longleftrightarrow> rm_control l = rm_control r \<and> rm_window l = rm_window r \<and> rm_bandwidth l = rm_bandwidth r
     \<and> rm_compactWindow l \<and> \<not> rm_compactWindow r \<and> (\<not> wa_enabled (rm_window l) \<longrightarrow> rm_messages l = rm_messages r)"

lemma evidence_parts:
  "rm_bandwidth (evidence e a) = fst (bandwidth_observe e (rm_bandwidth a))"
  "rm_control l = rm_control r \<Longrightarrow> rm_control (evidence e l) = rm_control (evidence e r)"
  by (simp_all add: evidence_def Let_def compactLegacyWindowIndex_def observeGossipSubControl_def split: option.split)

lemma count_detailed_messages: "rm_messages l = rm_messages r \<Longrightarrow> rm_messages (count_detailed e l) = rm_messages (count_detailed e r)"
  by (simp add: count_detailed_def put_message_def Let_def)

lemma twin_absorb:
  assumes "twin l r"
  shows "twin (absorb e l) (absorb e r)"
proof -
  let ?l = "evidence e (mark_event e l)" and ?r = "evidence e (mark_event e r)"
  have ev: "twin ?l ?r"
  proof -
    have "rm_messages ?l = rm_messages ?r" if "\<not> wa_enabled (rm_window ?l)"
    proof -
      have "\<not> wa_enabled (rm_window l)" using that window_enabled_mono by auto
      then show ?thesis using assms that by (simp add: twin_def evidence_messages compact_def)
    qed
    then show ?thesis using assms evidence_parts(2) [of "mark_event e l" "mark_event e r" e] by (simp add: twin_def evidence_parts(1))
  qed
  have "rm_messages (count_event e ?l) = rm_messages (count_event e ?r)" if "\<not> wa_enabled (rm_window ?l)"
    using that ev count_detailed_messages [of ?l ?r e] by (simp add: twin_def count_event_def)
  then show ?thesis using ev unfolding absorb_def by (simp add: twin_def)
qed

lemma twin_fold: "twin l r \<Longrightarrow> twin (fold absorb A l) (fold absorb A r)"
  by (induction A arbitrary: l r) (auto simp: twin_absorb)

lemma new_twin: "twin newLiveRunMetricAccumulator newRunMetricAccumulator"
  by (simp add: twin_def newLiveRunMetricAccumulator_def newRunMetricAccumulator_def)

text \<open>The summary of a run reads nothing in which the two differ.\<close>

lemma twin_summary:
  assumes "twin l r" "counts_inv A l" "counts_inv A r"
  shows "summarizeLocked l run boundary = summarizeLocked r run boundary"
proof -
  have "rm_published l = rm_published r" "rm_delivered l = rm_delivered r" "rm_duplicates l = rm_duplicates r"
    using assms(2,3) by (auto simp: counts_inv_def)
  then have "\<not> wa_enabled (rm_window l) \<Longrightarrow> summarizeLegacy l run = summarizeLegacy r run"
    using assms(1) by (simp add: summarizeLegacy_def twin_def)
  then show ?thesis using assms(1) \<open>rm_published l = rm_published r\<close> \<open>rm_delivered l = rm_delivered r\<close> \<open>rm_duplicates l = rm_duplicates r\<close>
    by (simp add: summarizeLocked_def twin_def summarizeGossipSubControl_def)
qed

lemma live_summary: "summarizeLocked (fold absorb A newLiveRunMetricAccumulator) run boundary = summarizeLocked (fold absorb A newRunMetricAccumulator) run boundary"
  using twin_summary [OF twin_fold [OF new_twin], of A A run boundary] fold_counts [OF new_counts(1), of A] fold_counts [OF new_counts(2), of A] by simp

subsection \<open>Replay\<close>

text \<open>
  What the code relies on of \<^verbatim>\<open>encoding/json\<close> for the events that a Controller received, which were decoded from JSON
  themselves: an encoded event is one line, and decoding the line gives the event back.
\<close>

definition json_lines :: "(TraceEvent \<Rightarrow> bytes option) \<Rightarrow> (bytes \<Rightarrow> TraceEvent option) \<Rightarrow> TraceEvent list \<Rightarrow> bool" where
  "json_lines enc decode received \<longleftrightarrow>
     (\<forall>e\<in>set received. \<forall>b. enc e = Some b \<longrightarrow> (\<exists>l. b = l @ [newline] \<and> newline \<notin> set l \<and> decode l = Some e))"

lemma encode_lines:
  assumes "json_lines enc decode received" "encode_all enc W = Some b" "set W \<subseteq> set received"
  shows "\<exists>ls. b = concat (map (\<lambda>l. l @ [newline]) ls) \<and> (\<forall>l\<in>set ls. newline \<notin> set l) \<and> map decode ls = map Some W"
  using assms(2,3)
proof (induction W arbitrary: b)
  case Nil
  then show ?case by (intro exI [of _ "[]"]) simp
next
  case (Cons e W)
  then obtain x c where x: "enc e = Some x" "encode_all enc W = Some c" "b = x @ c" by (auto split: option.splits)
  obtain l where l: "x = l @ [newline]" "newline \<notin> set l" "decode l = Some e" using assms(1) x(1) Cons.prems(2) by (auto simp: json_lines_def)
  obtain ls where ls: "c = concat (map (\<lambda>l. l @ [newline]) ls)" "\<forall>l\<in>set ls. newline \<notin> set l" "map decode ls = map Some W"
    using Cons.IH [OF x(2)] Cons.prems(2) by auto
  then show ?case using x l by (intro exI [of _ "l # ls"]) simp
qed

lemma replay_events:
  assumes "map decode ls = map Some W" "\<forall>e\<in>set W. te_RunID e = r"
  shows "replay decode r ls a = Inr (fold observe W a)"
  using assms
proof (induction ls arbitrary: W a)
  case (Cons l ls)
  then obtain e V where W: "W = e # V" by (cases W) auto
  then show ?case using Cons by simp
qed simp

text \<open>An example: one publication, delivered twice to a Controller whose run has no log yet.\<close>

definition ex_event :: TraceEvent where
  "ex_event = zero_event\<lparr>te_EventID := ''e1'', te_RunID := ''run'', te_NodeID := ''n1'', te_Type := ''publish'', te_MessageID := ''m1'', te_Timestamp := 1\<rparr>"

definition ex_line :: bytes where "ex_line = [123, 125]"

definition ex_encode :: "TraceEvent \<Rightarrow> bytes option" where "ex_encode _ = Some (ex_line @ [newline])"

definition ex_log_env :: log_env where
  "ex_log_env = \<lparr>le_now = 5, le_encode = ex_encode, le_marker = (\<lambda>_. Inr False), le_write = (\<lambda>_. Written)\<rparr>"

definition ex_batch :: EventBatch where "ex_batch = \<lparr>eb_AgentID = ''a1'', eb_Events = [ex_event]\<rparr>"

definition ex_stored :: TraceEvent where "ex_stored = complete_event ex_log_env ''a1'' ex_event"

definition ex_step :: "logState \<Rightarrow> logState" where "ex_step s = fst (appendEvents ex_log_env [''run''] ex_batch s)"

lemma ex_acknowledged: "snd (appendEvents ex_log_env [''run''] ex_batch s) = Inr ()"
proof -
  have "snd (append_body ex_log_env ''run'' es s) = Inr ()" for es
  proof -
    have "resultDeletedLocked ex_log_env ''run'' = Inr False" by (simp add: resultDeletedLocked_def validResultID_def id_char_def ex_log_env_def)
    moreover have "encode_all ex_encode W \<noteq> None" for W by (induction W) (auto simp: ex_encode_def)
    then have "snd (persistEventsLocked ex_log_env ''run'' W f) = Inr ()" for W f
      by (auto simp: persistEventsLocked_def ex_log_env_def Let_def split: option.split)
    ultimately show ?thesis by (auto simp: append_body_def Let_def split: prod.split sum.split) (metis snd_conv sum.distinct(1))+
  qed
  then show ?thesis by (auto simp: appendEvents_def appendRunEvents_def ex_batch_def split: prod.split sum.split) (metis snd_conv sum.distinct(1))+
qed

lemma ex_log_run: "log_run intact ex_encode (ex_step (ex_step (empty_log []))) [ex_stored, ex_stored] [ex_stored, ex_stored]"
proof -
  have batch: "completed ex_log_env ex_batch = [ex_stored]" "kept ex_log_env ex_stored" "run_order [''run''] ex_batch"
    by (simp_all add: completed_def ex_batch_def ex_stored_def kept_def ex_log_env_def run_order_def ex_event_def zero_event_def)
  have env: "le_encode ex_log_env = ex_encode" "intact ex_log_env" by (auto simp: ex_log_env_def intact_def no_torn_def clean_def)
  have step: "log_run intact ex_encode (ex_step s) (received @ [ex_stored]) (acked @ [ex_stored])" if "log_run intact ex_encode s received acked" for s received acked
  proof -
    have "appendEvents ex_log_env [''run''] ex_batch s = (ex_step s, Inr ())" by (simp add: ex_step_def prod_eq_iff ex_acknowledged)
    from Batch [OF that env batch(3) this] show ?thesis by (simp add: batch)
  qed
  show ?thesis using step [OF step [OF Init]] by simp
qed





lemma ex_run_id: "validResultID ''run''" by (simp add: validResultID_def id_char_def)

lemma ex_json: "json_lines ex_encode (\<lambda>_. Some ex_stored) [ex_stored, ex_stored]"
  by (simp add: json_lines_def ex_encode_def ex_line_def newline_def)



text \<open>
  C3. Metrics survive in the log. When every append so far either left the log as it was or completed, that is, no rollback,
  sync, close or directory operation failed, and when the received events come back from their JSON lines, then rebuilding
  the metrics of a run from its log gives what the live accumulator reports, although the live one dropped the detailed
  message index. After a failed sync the log may hold events that are counted only when their batch is repeated.
\<close>

theorem log_replay_identical:
  assumes "log_run intact enc s received acked" "validResultID r" "json_lines enc decode received"
  shows "summarizeRunEvents decode r (fst (split_lines (mget [] (lg_files s) r))) asOf
    = rbind (summarizeLocked (mget newLiveRunMetricAccumulator (lg_runMetrics s) r) r asOf) (\<lambda>(m, _). Inr m)"
proof -
  obtain A where A: "run_inv enc r s A (map Whole A)" "set A \<subseteq> set received" and "encode_all enc A = Some (mget [] (lg_files s) r)" "\<forall>e\<in>set A. te_RunID e = r"
    using log_run_inv [OF assms(1,2)] log_bytes_whole [of enc] by (auto simp: run_inv_def)
  then have acc: "mget newLiveRunMetricAccumulator (lg_runMetrics s) r = fold absorb A newLiveRunMetricAccumulator"
    and fresh: "fresh event_key {} A = A" and enc: "encode_all enc A = Some (mget [] (lg_files s) r)" and run: "\<forall>e\<in>set A. te_RunID e = r"
    by (auto simp: run_inv_def)
  obtain ls where ls: "mget [] (lg_files s) r = concat (map (\<lambda>l. l @ [newline]) ls)" "\<forall>l\<in>set ls. newline \<notin> set l" "map decode ls = map Some A"
    using encode_lines [OF assms(3) enc A(2)] by blast
  have "fst (split_lines (mget [] (lg_files s) r)) = ls" using split_lines_concat [OF ls(2), of "[]"] by (simp add: ls(1))
  moreover have "fold observe A newRunMetricAccumulator = fold absorb A newRunMetricAccumulator"
    using observe_first [OF new_index(1), of A] fresh by (simp add: new_index(2))
  ultimately show ?thesis
    using replay_events [OF ls(3) run, of newRunMetricAccumulator] live_summary [of A r asOf] by (simp add: summarizeRunEvents_def acc)
qed

theorem log_replay_identical_witness:
  "summarizeRunEvents (\<lambda>_. Some ex_stored) ''run'' (fst (split_lines (mget [] (lg_files (ex_step (ex_step (empty_log [])))) ''run''))) 9
    = rbind (summarizeLocked (mget newLiveRunMetricAccumulator (lg_runMetrics (ex_step (ex_step (empty_log [])))) ''run'') ''run'' 9) (\<lambda>(m, _). Inr m)"
  by (rule log_replay_identical [OF ex_log_run ex_run_id ex_json])

end
