(* ===== verification/Live_Summary.thy ===== *)
theory Live_Summary
  imports Event_Index
begin

text \<open>
  \<^verbatim>\<open>liveSummaryLocked\<close> of \<^verbatim>\<open>internal/controller/run_metrics.go\<close>: monitoring readers share one reconstruction of the metrics
  of a run. A cached summary is returned while the run is unchanged and either less than a second has passed or no delivery
  window was still open; the theorem says that readers cannot tell, up to that second.

  The cached histograms are a function of the samples of the same summary and are left out.
\<close>

record liveCache =
  lc_revision :: "64 word"
  lc_at :: gotime
  lc_run :: string
  lc_metrics :: Metrics

definition new_cache :: liveCache where
  "new_cache = \<lparr>lc_revision = 0, lc_at = 0, lc_run = [], lc_metrics = zero_metrics\<rparr>"

definition snapshotInterval :: int where "snapshotInterval = second"

definition cache_valid :: "string \<Rightarrow> gotime \<Rightarrow> runMetricAccumulator \<Rightarrow> liveCache \<Rightarrow> bool" where
  "cache_valid runID now a c \<longleftrightarrow> \<not> IsZero (lc_at c) \<and> lc_run c = runID \<and> \<not> now < lc_at c \<and> lc_revision c = rm_revision a
     \<and> (time_Sub now (lc_at c) < snapshotInterval \<or> mt_PendingPublications (lc_metrics c) = 0)"

definition liveSummaryLocked :: "string \<Rightarrow> gotime \<Rightarrow> runMetricAccumulator \<Rightarrow> liveCache \<Rightarrow> (liveCache \<times> Metrics) result" where
  "liveSummaryLocked runID now a c =
     (if cache_valid runID now a c then Inr (c, lc_metrics c)
      else rbind (summarizeLocked a runID now) (\<lambda>(m, _).
        Inr (\<lparr>lc_revision = rm_revision a, lc_at = now, lc_run = runID, lc_metrics = m\<rparr>, m)))"

subsection \<open>A settled summary does not change\<close>

lemma pair_body_pending: "mt_PendingPublications (fst (pair_body w pub x out)) = mt_PendingPublications (fst out)"
  by (cases out; cases x)
    (simp add: pair_body_def initial_counts_def undelivered_def eligible_def Let_def split: option.split)

lemma fold_keeps: "(\<And>x s. g (f x s) = g s) \<Longrightarrow> g (fold f xs s) = g s"
  by (induction xs arbitrary: s) auto

lemma sweep_pending: "mt_PendingPublications (fst (sweep w pubs starts ends active out)) = mt_PendingPublications (fst out)"
proof (induction w pubs starts ends active out rule: sweep.induct)
  case (2 w pub pubs starts ends active out)
  have "mt_PendingPublications (fst (fold (pair_body w pub) xs out)) = mt_PendingPublications (fst out)" for xs
    by (rule fold_keeps [of "\<lambda>s. mt_PendingPublications (fst s)"]) (rule pair_body_pending)
  then show ?case using 2 by (simp split: prod.split)
qed simp

lemma topics_pending: "mt_PendingPublications (fst (fold (topic_body w) T out)) = mt_PendingPublications (fst out)"
  by (rule fold_keeps [of "\<lambda>s. mt_PendingPublications (fst s)"]) (simp add: topic_body_def sweep_pending split: prod.split)

lemma stats_pending:
  "latency_stats latencies m = Inr m' \<Longrightarrow> mt_PendingPublications m' = mt_PendingPublications m"
  "mt_PendingPublications (duplicate_stats m) = mt_PendingPublications m"
  "mt_PendingPublications (window_ratios m) = mt_PendingPublications m"
proof -
  show "latency_stats latencies m = Inr m' \<Longrightarrow> mt_PendingPublications m' = mt_PendingPublications m"
    by (cases "p95 (sort_key f_val latencies)") (auto simp: latency_stats_def Let_def split: if_splits)
  show "mt_PendingPublications (duplicate_stats m) = mt_PendingPublications m" by (simp add: duplicate_stats_def Let_def)
  show "mt_PendingPublications (window_ratios m) = mt_PendingPublications m" by (simp add: window_ratios_def Let_def)
qed

lemma publication_pending:
  "mt_PendingPublications (fst (publication_body w ns t (k, p) (m, T)))
     = mt_PendingPublications m + (if \<not> wp_local p \<and> wp_valid p \<and> t < wp_deadline p then 1 else 0)"
  by (simp add: publication_body_def Let_def)

lemma publications_settled:
  assumes "t \<le> now"
  shows "mt_PendingPublications m \<le> mt_PendingPublications (fst (fold (publication_body w ns t) xs (m, T)))
    \<and> (mt_PendingPublications (fst (fold (publication_body w ns t) xs (m, T))) = mt_PendingPublications m
       \<longrightarrow> fold (publication_body w ns now) xs (m, T) = fold (publication_body w ns t) xs (m, T))"
proof (induction xs arbitrary: m T)
  case (Cons x xs)
  obtain k p where x: "x = (k, p)" by fastforce
  obtain m' T' where b: "publication_body w ns t (k, p) (m, T) = (m', T')" by fastforce
  note pending = publication_pending [of w ns t k p m T, unfolded b fst_conv]
  have same: "publication_body w ns now (k, p) (m, T) = (m', T')" if "mt_PendingPublications m' = mt_PendingPublications m"
  proof -
    have "wp_local p \<or> \<not> wp_valid p \<or> (\<not> t < wp_deadline p \<and> \<not> now < wp_deadline p)"
      using that assms by (auto simp: pending split: if_splits)
    then have "publication_body w ns now (k, p) (m, T) = publication_body w ns t (k, p) (m, T)"
      by (auto simp: publication_body_def Let_def)
    then show ?thesis by (simp add: b)
  qed
  have "mt_PendingPublications m \<le> mt_PendingPublications m'" by (simp add: pending)
  moreover note Cons.IH [of m' T']
  ultimately show ?case using same by (auto simp: x b)
qed simp

lemma window_settled:
  assumes "window_summarize w runID t published delivered duplicates = Inr (m, samples)" "mt_PendingPublications m = 0" "t \<le> now"
  shows "window_summarize w runID now published delivered duplicates = Inr (m, samples)"
proof -
  define r where "r = zero_metrics\<lparr>mt_Definition := sessionWindowDefinition, mt_RunID := runID, mt_Published := published, mt_Delivered := delivered,
            mt_Duplicates := duplicates, mt_LegacyPublications := max 0 (published - int (length (wa_publications w))),
            mt_MeasurementIncomplete := wa_incomplete w\<rparr>"
  obtain r1 T where r1: "window_topics w t r = (r1, T)" by fastforce
  obtain r2 s2 l2 where out: "fold (topic_body w) T (r1\<lparr>mt_DeliveryWindows := sort (mt_DeliveryWindows r1)\<rparr>, [], []) = (r2, s2, l2)" by (metis prod_cases3)
  have "mt_PendingPublications r2 = mt_PendingPublications r1" using topics_pending [of w T "(r1\<lparr>mt_DeliveryWindows := sort (mt_DeliveryWindows r1)\<rparr>, [], [])"] out by simp
  moreover have "latency_stats l2 (duplicate_stats (window_ratios r2)) = Inr m"
    using assms(1) r1 out by (cases "latency_stats l2 (duplicate_stats (window_ratios r2))") (auto simp: window_summarize_def Let_def r_def [symmetric])
  then have "mt_PendingPublications m = mt_PendingPublications r2" by (simp add: stats_pending)
  ultimately have "mt_PendingPublications r1 = 0" using assms(2) by simp
  moreover obtain inc T0 ns where s: "fold (session_body w) (wa_sessions w) (mt_MeasurementIncomplete r, [], []) = (inc, T0, ns)" by (metis prod_cases3)
  moreover have "mt_PendingPublications (r\<lparr>mt_MeasurementIncomplete := inc\<rparr>) = 0" by (simp add: r_def zero_metrics_def)
  ultimately have "window_topics w now r = window_topics w t r"
    using publications_settled [OF assms(3), of "r\<lparr>mt_MeasurementIncomplete := inc\<rparr>" w ns "wa_publications w" T0] r1
    by (simp add: window_topics_def)
  then show ?thesis using assms(1) by (simp add: window_summarize_def Let_def r_def [symmetric])
qed

lemma summary_settled:
  assumes "summarizeLocked a runID t = Inr (m, samples)" "mt_PendingPublications m = 0" "t \<le> now"
  shows "summarizeLocked a runID now = Inr (m, samples)"
proof (cases "wa_enabled (rm_window a)")
  case True
  then obtain m0 where m0: "window_summarize (rm_window a) runID t (rm_published a) (rm_delivered a) (rm_duplicates a) = Inr (m0, samples)"
      "m = m0\<lparr>mt_GossipSubControl := summarizeGossipSubControl a, mt_Bandwidth := bandwidth_summarize (rm_bandwidth a)\<rparr>"
    using assms(1) by (cases "window_summarize (rm_window a) runID t (rm_published a) (rm_delivered a) (rm_duplicates a)") (auto simp: summarizeLocked_def)
  then show ?thesis using True window_settled [OF m0(1) _ assms(3)] assms(2) by (simp add: summarizeLocked_def)
next
  case False
  then show ?thesis using assms(1) by (simp add: summarizeLocked_def)
qed

subsection \<open>Readers and writers\<close>

text \<open>Any interleaving of observations and reads, under the lock of the accumulator; \<open>n\<close> counts the observations.\<close>

inductive live_run :: "runMetricAccumulator \<Rightarrow> liveCache \<Rightarrow> nat \<Rightarrow> bool" where
  Start: "live_run newLiveRunMetricAccumulator new_cache 0"
| Observe: "live_run a c n \<Longrightarrow> live_run (observe e a) c (Suc n)"
| Read: "live_run a c n \<Longrightarrow> liveSummaryLocked runID now a c = Inr (c', m) \<Longrightarrow> live_run a c' n"

lemma absorb_revision: "rm_revision (absorb e a) = rm_revision a + 1"
proof -
  have "rm_revision (count_event e b) = rm_revision b" for b
    by (simp add: count_event_def count_compact_def count_detailed_def put_message_def Let_def)
  moreover have "rm_revision (evidence e b) = rm_revision b + 1" for b
    by (simp add: evidence_def observeGossipSubControl_def compactLegacyWindowIndex_def Let_def split: option.split)
  moreover have "rm_revision (mark_event e b) = rm_revision b" for b by (simp add: mark_event_def Let_def)
  ultimately show ?thesis by (simp add: absorb_def)
qed

lemma observe_cases: "observe e a = a \<or> observe e a = absorb e a"
  by (simp add: observe_def observeLocked_def absorb_def)

text \<open>The cache belongs to an earlier revision, and describes the accumulator when it is the present one.\<close>

definition cache_inv :: "runMetricAccumulator \<Rightarrow> liveCache \<Rightarrow> nat \<Rightarrow> bool" where
  "cache_inv a c k \<longleftrightarrow> rm_revision a = of_nat k \<and> (IsZero (lc_at c) \<or> (\<exists>j\<le>k. lc_revision c = of_nat j
     \<and> (j = k \<longrightarrow> (\<exists>samples. summarizeLocked a (lc_run c) (lc_at c) = Inr (lc_metrics c, samples)))))"

lemma cache_inv_read:
  assumes "cache_inv a c k" "liveSummaryLocked runID now a c = Inr (c', m)"
  shows "cache_inv a c' k"
proof (cases "cache_valid runID now a c")
  case True
  then show ?thesis using assms by (simp add: liveSummaryLocked_def)
next
  case False
  then obtain samples where "summarizeLocked a runID now = Inr (m, samples)"
      "c' = \<lparr>lc_revision = rm_revision a, lc_at = now, lc_run = runID, lc_metrics = m\<rparr>"
    using assms(2) by (cases "summarizeLocked a runID now") (auto simp: liveSummaryLocked_def)
  then show ?thesis using assms(1) by (auto simp: cache_inv_def)
qed

lemma live_run_inv: "live_run a c n \<Longrightarrow> \<exists>k\<le>n. cache_inv a c k"
proof (induction rule: live_run.induct)
  case Start
  show ?case by (simp add: cache_inv_def new_cache_def IsZero_def newLiveRunMetricAccumulator_def newRunMetricAccumulator_def)
next
  case (Observe a c n e)
  then obtain k where k: "k \<le> n" "cache_inv a c k" by blast
  show ?case
  proof (cases "observe e a = a")
    case True
    then show ?thesis using k by (intro exI [of _ k]) simp
  next
    case False
    then have "observe e a = absorb e a" using observe_cases by blast
    moreover have "j \<le> Suc k \<and> j \<noteq> Suc k" if "j \<le> k" for j using that by simp
    ultimately have "cache_inv (observe e a) c (Suc k)" using k(2) unfolding cache_inv_def by (metis absorb_revision of_nat_Suc add.commute)
    then show ?thesis using k(1) by auto
  qed
next
  case (Read a c n runID now c' m)
  then show ?case using cache_inv_read by blast
qed

lemma same_revision: "j < 2 ^ 64 \<Longrightarrow> k < 2 ^ 64 \<Longrightarrow> (of_nat j :: 64 word) = of_nat k \<Longrightarrow> j = k"
proof -
  have unat: "unat (of_nat i :: 64 word) = i" if "i < 2 ^ 64" for i using that by (simp add: unat_of_nat take_bit_nat_eq_self)
  show "j < 2 ^ 64 \<Longrightarrow> k < 2 ^ 64 \<Longrightarrow> (of_nat j :: 64 word) = of_nat k \<Longrightarrow> j = k" using unat by metis
qed

text \<open>
  C4. A reader of the live metrics of a run gets the summary of everything observed so far, as of a time that lies less than a
  second in the past, for every interleaving of observations and reads, with clocks that may step back. When no
  delivery window is open the cached summary is that of the present.
\<close>

theorem live_summary_current:
  assumes "live_run a c n" "n < 2 ^ 64" "liveSummaryLocked runID now a c = Inr (c', m)"
  shows "\<exists>t samples. summarizeLocked a runID t = Inr (m, samples) \<and> t \<le> now \<and> now < t + snapshotInterval"
proof (cases "cache_valid runID now a c")
  case True
  then have m: "m = lc_metrics c" "lc_run c = runID" "lc_at c \<le> now" "\<not> IsZero (lc_at c)" "lc_revision c = rm_revision a"
    using assms(3) by (auto simp: liveSummaryLocked_def cache_valid_def)
  obtain k where k: "k \<le> n" "cache_inv a c k" using live_run_inv [OF assms(1)] by blast
  then obtain j where j: "j \<le> k" "lc_revision c = of_nat j" "rm_revision a = of_nat k"
      "j = k \<longrightarrow> (\<exists>samples. summarizeLocked a (lc_run c) (lc_at c) = Inr (lc_metrics c, samples))"
    using m(4) by (auto simp: cache_inv_def)
  have "j = k" by (rule same_revision) (use j m(5) k(1) assms(2) in auto)
  then obtain samples where s: "summarizeLocked a runID (lc_at c) = Inr (m, samples)" using j(4) m by auto
  show ?thesis
  proof (cases "mt_PendingPublications m = 0")
    case True
    then show ?thesis using summary_settled [OF s _ m(3)] by (intro exI [of _ now]) (auto simp: snapshotInterval_def second_def)
  next
    case False
    then have "time_Sub now (lc_at c) < snapshotInterval" using True m(1) by (simp add: cache_valid_def)
    then have "now < lc_at c + snapshotInterval" by (auto simp: time_Sub_def snapshotInterval_def second_def min_def max_def split: if_splits)
    then show ?thesis using s m(3) by blast
  qed
next
  case False
  then have "\<exists>samples. summarizeLocked a runID now = Inr (m, samples)"
    using assms(3) by (cases "summarizeLocked a runID now") (auto simp: liveSummaryLocked_def)
  then show ?thesis by (intro exI [of _ now]) (auto simp: snapshotInterval_def second_def)
qed

definition ex_live :: runMetricAccumulator where
  "ex_live = observe (zero_event\<lparr>te_EventID := ''e1'', te_NodeID := ''n1'', te_Type := ''publish'', te_MessageID := ''m1''\<rparr>) newLiveRunMetricAccumulator"

definition ex_cache :: "(liveCache \<times> Metrics) result" where
  "ex_cache = liveSummaryLocked ''run'' (5 * second) ex_live new_cache"

lemma ex_cache_read:
  obtains c m where "ex_cache = Inr (c, m)" "liveSummaryLocked ''run'' (5 * second + 1) ex_live c = Inr (c, m)"
proof -
  have "case ex_cache of Inl _ \<Rightarrow> False | Inr _ \<Rightarrow> True" by code_simp
  then obtain c m where c: "ex_cache = Inr (c, m)" by (auto split: sum.splits)
  have "\<not> cache_valid ''run'' (5 * second) ex_live new_cache" by (simp add: cache_valid_def new_cache_def IsZero_def)
  then have "c = \<lparr>lc_revision = rm_revision ex_live, lc_at = 5 * second, lc_run = ''run'', lc_metrics = m\<rparr>"
    using c by (cases "summarizeLocked ex_live ''run'' (5 * second)") (auto simp: ex_cache_def liveSummaryLocked_def)
  then have "liveSummaryLocked ''run'' (5 * second + 1) ex_live c = Inr (c, m)"
    by (simp add: liveSummaryLocked_def cache_valid_def IsZero_def second_def time_Sub_def snapshotInterval_def)
  with c show ?thesis by (rule that)
qed

theorem live_summary_current_witness:
  "\<exists>c m t samples. ex_cache = Inr (c, m) \<and> liveSummaryLocked ''run'' (5 * second + 1) ex_live c = Inr (c, m)
     \<and> summarizeLocked ex_live ''run'' t = Inr (m, samples) \<and> t \<le> 5 * second + 1 \<and> 5 * second + 1 < t + snapshotInterval"
proof -
  obtain c m where c: "ex_cache = Inr (c, m)" "liveSummaryLocked ''run'' (5 * second + 1) ex_live c = Inr (c, m)" by (rule ex_cache_read)
  have "live_run ex_live c 1" using Read [OF Observe [OF Start]] c(1) by (simp add: ex_live_def ex_cache_def)
  from live_summary_current [OF this _ c(2)] c show ?thesis by fastforce
qed

end
