(* ===== verification/Scenario.thy ===== *)
theory Scenario
  imports Profile_Config Topology_Config Agent_Registry Go_Bytes
begin

text \<open>
  The scenario language, \<^verbatim>\<open>internal/scenario\<close>: a scenario is a list of phases; \<^verbatim>\<open>Validate\<close> fills in its defaults, resolves the
  configuration of every join and rejects what the runner could not carry out. \<^verbatim>\<open>stop-all\<close> ends a generation of Peers: job
  names, groups and the joins a later phase may refer to are those of the current generation.

  Decoding of YAML is outside the model. Character classes are those of ASCII text, a map is the list of its entries in
  the order of iteration. The maps of \<^verbatim>\<open>Validate\<close> with empty values are lists of their keys.
\<close>

subsection \<open>Data\<close>

record Phase =
  ph_Name :: string
  ph_Job :: string
  ph_Jobs :: "string list"
  ph_Action :: string
  ph_OnError :: string
  ph_AgentID :: string
  ph_Placement :: string
  ph_Group :: string
  ph_NodeIDs :: "string list option"
  ph_PeerIDs :: "string list option"
  ph_Role :: string
  ph_Profile :: string
  ph_NodeType :: string
  ph_Count :: int
  ph_Repeat :: int
  ph_Parallel :: bool
  ph_Parallelism :: int
  ph_Await :: "bool option"
  ph_Duration :: string
  ph_Timeout :: string
  ph_Message :: string
  ph_ReadyRatio :: f64
  ph_MinCount :: int
  ph_PayloadSize :: int
  ph_PayloadEncoding :: string
  ph_DeliveryWindow :: string
  ph_Topic :: string
  ph_Topology :: "TopologyConfig option"
  ph_Schedule :: "ProfileSchedule option"
  ph_NetworkMutable :: bool
  ph_Interval :: Distribution
  ph_Lifetime :: Distribution
  ph_Node :: NodeConfig

record Scenario =
  sn_Version :: int
  sn_Name :: string
  sn_Seed :: int
  sn_OnExit :: string
  sn_JobShutdownTimeout :: string
  sn_Profiles :: "NodeConfig gomap"
  sn_Phases :: "Phase list"

text \<open>The local variables of \<^verbatim>\<open>Validate\<close>: background joins by group, background jobs and joins of the generation.\<close>

record scopes =
  vs_backgroundJoins :: "string list gomap"
  vs_knownJobs :: "string list"
  vs_joinedGroups :: "Phase list gomap"

definition new_scopes :: scopes where
  "new_scopes = \<lparr>vs_backgroundJoins = [], vs_knownJobs = [], vs_joinedGroups = []\<rparr>"

definition MaxPublishPayloadBytes :: int where "MaxPublishPayloadBytes = 16 * 2 ^ 20"

definition ShouldAwait :: "Phase \<Rightarrow> bool" where
  "ShouldAwait p \<longleftrightarrow> ph_Await p = None \<or> ph_Await p = Some True"

text \<open>\<^verbatim>\<open>time.ParseDuration\<close> with a test that the duration is positive.\<close>

definition positive_duration :: "string \<Rightarrow> unit result" where
  "positive_duration s = rbind (ParseDuration s) (\<lambda>d. check (d \<le> 0) ''must be positive'')"

subsection \<open>Attack options\<close>

definition scheduleHasAttacks :: "ProfileSchedule \<Rightarrow> bool" where
  "scheduleHasAttacks s = list_ex (\<lambda>change. HasAttacks (pc_Set change)) (sc_Changes s)"

definition profile_attacks :: "golib \<Rightarrow> int \<Rightarrow> string \<times> NodeConfig \<Rightarrow> unit result" where
  "profile_attacks lb version = (\<lambda>(name, p).
     rbind (check (HasAttackOptions p \<and> version < 4) ''attack options require version 4'') (\<lambda>_.
     wrap ''profile: '' (ValidateAttackSyntax lb p)))"

definition phase_attacks :: "golib \<Rightarrow> int \<Rightarrow> Phase \<Rightarrow> unit result" where
  "phase_attacks lb version p =
     rbind (check ((HasAttackOptions (ph_Node p) \<or> ptr_is scheduleHasAttacks (ph_Schedule p)) \<and> version < 4) ''attack options require version 4'') (\<lambda>_.
     rbind (check (HasAttackOptions (ph_Node p) \<and> ph_Action p \<noteq> ''join'') ''node attack options are only supported for join'') (\<lambda>_.
     wrap ''phase: '' (ValidateAttackSyntax lb (ph_Node p))))"

definition validateAttackVersion :: "golib \<Rightarrow> Scenario \<Rightarrow> unit result" where
  "validateAttackVersion lb s =
     rbind (check_all (profile_attacks lb (sn_Version s)) (sn_Profiles s)) (\<lambda>_.
     check_all (phase_attacks lb (sn_Version s)) (sn_Phases s))"

definition known_targets :: "string list \<Rightarrow> Phase \<Rightarrow> unit result" where
  "known_targets groups p =
     (if ph_Action p \<noteq> ''join'' then Inr ()
      else check_all (\<lambda>selector. case selector of None \<Rightarrow> Inr ()
        | Some se \<Rightarrow> check_all (\<lambda>group. check (group \<notin> set groups) ''unknown attack target group in this generation'') (se_Groups se))
        (AttackSelectors (ph_Node p)))"

definition in_generation :: "Phase \<Rightarrow> bool" where
  "in_generation p \<longleftrightarrow> ph_Action p \<noteq> ''stop-all''"

function validateAttackSelectors :: "Phase list \<Rightarrow> unit result" where
  "validateAttackSelectors phases =
     (if phases = [] then Inr ()
      else let generation = takeWhile in_generation phases;
               groups = map ph_Group (filter (\<lambda>p. ph_Action p = ''join'') generation)
      in rbind (check_all (known_targets groups) generation) (\<lambda>_. validateAttackSelectors (drop (length generation + 1) phases)))"
  by auto
termination by (relation "measure length") auto

declare validateAttackSelectors.simps [simp del]

subsection \<open>Selectors of Peers\<close>

definition id_forbidden :: "char \<Rightarrow> bool" where
  "id_forbidden c \<longleftrightarrow> go_space c \<or> (of_char c :: nat) < 32 \<or> (of_char c :: nat) = 127 \<or> c \<in> {CHR ''/'', CHR 0x5C, CHR ''?'', CHR ''#''}"

fun selector_ids :: "(string \<Rightarrow> bool) \<Rightarrow> string list \<Rightarrow> string list \<Rightarrow> unit result" where
  "selector_ids decodes [] seen = Inr ()"
| "selector_ids decodes (i # ids) seen =
     rbind (check (i = [] \<or> i = ''.'' \<or> i = ''..'' \<or> list_ex id_forbidden i) ''invalid ID'') (\<lambda>_.
     rbind (check (\<not> decodes i) ''invalid libp2p peer ID'') (\<lambda>_.
     rbind (check (i \<in> set seen) ''duplicate ID'') (\<lambda>_.
     selector_ids decodes ids (i # seen))))"

definition check_selector :: "(string \<Rightarrow> bool) \<Rightarrow> string list option \<Rightarrow> unit result" where
  "check_selector decodes ids =
     rbind (check (ids = Some []) ''must not be empty when specified'') (\<lambda>_. selector_ids decodes (elems ids) [])"

definition validatePeerSelector :: "golib \<Rightarrow> Phase \<Rightarrow> unit result" where
  "validatePeerSelector lb p =
     rbind (check (ph_Group p = [] \<and> elems (ph_NodeIDs p) = [] \<and> elems (ph_PeerIDs p) = []) ''requires group, nodeIds, or peerIds'') (\<lambda>_.
     rbind (check (TrimSpace (ph_Group p) \<noteq> ph_Group p) ''group must not contain surrounding whitespace'') (\<lambda>_.
     rbind (check_selector (\<lambda>_. True) (ph_NodeIDs p)) (\<lambda>_.
     rbind (check_selector (\<lambda>i. lb_Decode lb i \<noteq> None) (ph_PeerIDs p)) (\<lambda>_.
     check (ph_Role p \<noteq> [] \<and> ph_Role p \<noteq> ''boot'' \<and> ph_Role p \<noteq> ''worker'') ''role must be boot or worker''))))"

subsection \<open>Phases on running Peers\<close>

definition validateMeshFreezePhase :: "golib \<Rightarrow> Phase \<Rightarrow> Phase result" where
  "validateMeshFreezePhase lb p =
     rbind (validatePeerSelector lb p) (\<lambda>_.
     rbind (check (ph_Count p \<noteq> 0 \<or> ph_Parallelism p \<noteq> 0 \<or> \<not> dist_is_zero (ph_Interval p) \<or> \<not> dist_is_zero (ph_Lifetime p) \<or> ph_Topic p \<noteq> [])
       ''mesh-freeze does not support count, parallelism, interval, lifetime, or topic'') (\<lambda>_.
     let p = p\<lparr>ph_Timeout := default_str ''30s'' (ph_Timeout p)\<rparr> in
     rbind (positive_duration (ph_Timeout p)) (\<lambda>_. Inr p)))"

definition validateTopologyPhase :: "golib \<Rightarrow> Phase \<Rightarrow> unit result" where
  "validateTopologyPhase lb p =
     rbind (validatePeerSelector lb p) (\<lambda>_.
     case ph_Topology p of None \<Rightarrow> Inl (Fail ''topology action requires topology configuration'')
     | Some topology \<Rightarrow>
         rbind (check (ph_Topic p = [] \<or> TrimSpace (ph_Topic p) \<noteq> ph_Topic p \<or> ph_Topic p = ''*'' \<or> length (ph_Topic p) > 1024)
           ''topology requires one explicit topic of at most 1024 bytes'') (\<lambda>_.
         rbind (check (ph_Repeat p \<noteq> 1 \<or> \<not> ShouldAwait p \<or> ph_Parallel p \<or> ph_Parallelism p \<noteq> 0)
           ''topology requires repeat: 1, await: true, and no parallel or parallelism'') (\<lambda>_.
         rbind (check (ph_Job p \<noteq> [] \<or> ph_Profile p \<noteq> [] \<or> ph_Duration p \<noteq> [] \<or> ph_Message p \<noteq> [] \<or> \<not> KPL_Prelude.f_eq (ph_ReadyRatio p) (Fin 0)
             \<or> ph_MinCount p \<noteq> 0 \<or> ph_PayloadSize p \<noteq> 0 \<or> \<not> dist_is_zero (ph_Interval p) \<or> \<not> dist_is_zero (ph_Lifetime p) \<or> ph_Node p \<noteq> zero_node)
           ''topology does not support job, profile, node, duration, message, readiness, payload, interval, or lifetime settings'') (\<lambda>_.
         rbind (topology_Validate topology (ph_Count p)) (\<lambda>_.
         if ph_Timeout p = [] then Inr () else positive_duration (ph_Timeout p))))))"

definition topology_join :: "Phase \<Rightarrow> Phase \<Rightarrow> bool \<Rightarrow> bool result" where
  "topology_join p joined matched =
     (if ph_Role p \<noteq> [] \<and> ph_Role joined \<noteq> ph_Role p \<or> ph_NodeType p \<noteq> [] \<and> ph_NodeType joined \<noteq> ph_NodeType p then Inr matched
      else rbind (check (gs_MeshFreeze (nd_GossipSub (ph_Node joined)) \<noteq> Some True) ''matching join phase does not enable meshFreeze'') (\<lambda>_. Inr True))"

definition validateTopologyGroup :: "Phase \<Rightarrow> Phase list \<Rightarrow> unit result" where
  "validateTopologyGroup p joins =
     (if ph_Group p = [] \<or> elems (ph_NodeIDs p) \<noteq> [] \<or> elems (ph_PeerIDs p) \<noteq> [] then Inr ()
      else rbind (foldR (topology_join p) joins False) (\<lambda>matched. check (\<not> matched) ''topology group requires a preceding join''))"

definition validateSchedulePhase :: "golib \<Rightarrow> gomath \<Rightarrow> Phase \<Rightarrow> Phase result" where
  "validateSchedulePhase lb gm p =
     rbind (if ph_Profile p = [] then validatePeerSelector lb p
            else rbind (check (TrimSpace (ph_Profile p) \<noteq> ph_Profile p) ''profile must not contain surrounding whitespace'') (\<lambda>_.
              validatePeerSelector lb (if ph_Group p = [] \<and> elems (ph_NodeIDs p) = [] \<and> elems (ph_PeerIDs p) = []
                then p\<lparr>ph_Group := ''profile-selector''\<rparr> else p))) (\<lambda>_.
     case ph_Schedule p of None \<Rightarrow> Inl (Fail ''schedule action requires schedule.changes'')
     | Some schedule \<Rightarrow>
         rbind (profile_Validate gm schedule) (\<lambda>_.
         rbind (check (ph_Repeat p \<noteq> 1 \<or> ph_Parallel p \<or> ph_Parallelism p \<noteq> 0 \<or> ph_Count p \<noteq> 0 \<or> \<not> dist_is_zero (ph_Interval p)
             \<or> \<not> dist_is_zero (ph_Lifetime p) \<or> ph_Duration p \<noteq> [] \<or> ph_Topic p \<noteq> [] \<or> ph_Message p \<noteq> [] \<or> \<not> KPL_Prelude.f_eq (ph_ReadyRatio p) (Fin 0)
             \<or> ph_MinCount p \<noteq> 0 \<or> ph_PayloadSize p \<noteq> 0 \<or> ph_Node p \<noteq> zero_node)
           ''schedule supports selectors, job, await, timeout, and schedule; repeat must be 1'') (\<lambda>_.
         let p = p\<lparr>ph_Timeout := default_str ''2m'' (ph_Timeout p)\<rparr> in
         rbind (positive_duration (ph_Timeout p)) (\<lambda>_. Inr p))))"

subsection \<open>Joins\<close>

definition base_kind :: "Scenario \<Rightarrow> Phase \<Rightarrow> string" where
  "base_kind s phase =
     (let profile = map_of (sn_Profiles s) (ph_Profile phase); kind = ph_NodeType phase;
          kind = (if kind = [] then (case profile of None \<Rightarrow> [] | Some c \<Rightarrow> nd_Type c) else kind);
          kind = (if kind = [] \<and> ph_Profile phase \<noteq> [] \<and> profile = None then ph_Profile phase else kind)
      in if kind = [] then (if ph_Role phase = ''boot'' then ''boot'' else ''full'') else kind)"

definition base_config :: "golib \<Rightarrow> string \<Rightarrow> NodeConfig \<times> bool" where
  "base_config lb kind =
     (case BuiltInNodeConfig lb kind of (base, builtIn) \<Rightarrow>
        (if builtIn then base else (fst (BuiltInNodeConfig lb ''full''))\<lparr>nd_Type := kind\<rparr>, builtIn))"

text \<open>\<^verbatim>\<open>if preset, ok := model.BuiltInNodeConfig(t); ok { t = preset.Type }\<close>\<close>

definition canonical_type :: "golib \<Rightarrow> string \<Rightarrow> string" where
  "canonical_type lb t = (case BuiltInNodeConfig lb t of (c, ok) \<Rightarrow> if ok then nd_Type c else t)"

definition resolveNodeConfig :: "golib \<Rightarrow> gomath \<Rightarrow> Scenario \<Rightarrow> Phase \<Rightarrow> Phase result" where
  "resolveNodeConfig lb gm s phase =
     (case base_config lb (base_kind s phase) of (base, builtIn) \<Rightarrow>
      rbind (if ph_Profile phase = [] then Inr base
             else case map_of (sn_Profiles s) (ph_Profile phase) of
               Some profile \<Rightarrow> Inr (node_Merge base profile)
             | None \<Rightarrow> rbind (check (\<not> snd (BuiltInNodeConfig lb (ph_Profile phase)) \<or> \<not> builtIn) ''unknown profile'') (\<lambda>_. Inr base)) (\<lambda>base.
      let base = node_Merge base (ph_Node phase);
          base = (if ph_NodeType phase \<noteq> [] then base\<lparr>nd_Type := ph_NodeType phase\<rparr> else base);
          base = node_WithDefaults lb (base\<lparr>nd_Type := canonical_type lb (nd_Type base)\<rparr>) in
      rbind (node_Validate lb gm base) (\<lambda>_.
      Inr (phase\<lparr>ph_Node := base, ph_NodeType := nd_Type base, ph_Profile := default_str (nd_Type base) (ph_Profile phase)\<rparr>))))"

definition note_join :: "Phase \<Rightarrow> scopes \<Rightarrow> scopes" where
  "note_join p v =
     (let v = v\<lparr>vs_joinedGroups := AList.update (ph_Group p) (mget [] (vs_joinedGroups v) (ph_Group p) @ [p]) (vs_joinedGroups v)\<rparr>
      in if ShouldAwait p then v
         else v\<lparr>vs_backgroundJoins := AList.update (ph_Group p) (List.insert (ph_Job p) (mget [] (vs_backgroundJoins v) (ph_Group p))) (vs_backgroundJoins v)\<rparr>)"

definition join_phase :: "golib \<Rightarrow> gomath \<Rightarrow> Scenario \<Rightarrow> Phase \<Rightarrow> scopes \<Rightarrow> (Phase \<times> scopes) result" where
  "join_phase lb gm s p v =
     (let p = p\<lparr>ph_Placement := default_str ''balanced'' (ph_Placement p)\<rparr> in
      rbind (check (ph_Placement p \<noteq> ''balanced'' \<and> ph_Placement p \<noteq> ''single-agent'' \<and> ph_Placement p \<noteq> ''random'')
        ''placement must be balanced, random, or single-agent'') (\<lambda>_.
      rbind (check (ph_AgentID p \<noteq> [] \<and> TrimSpace (ph_AgentID p) \<noteq> ph_AgentID p) ''agentId must not contain surrounding whitespace'') (\<lambda>_.
      rbind (check (ph_Group p = [] \<or> ph_Count p < 1) ''join requires group and positive count'') (\<lambda>_.
      let p = p\<lparr>ph_Role := default_str ''worker'' (ph_Role p)\<rparr> in
      rbind (check (ph_Role p \<noteq> ''boot'' \<and> ph_Role p \<noteq> ''worker'') ''role must be boot or worker'') (\<lambda>_.
      rbind (wrap ''interval: '' (dist_Validate gm True (ph_Interval p))) (\<lambda>_.
      rbind (wrap ''lifetime: '' (dist_Validate gm True (ph_Lifetime p))) (\<lambda>_.
      rbind (resolveNodeConfig lb gm s p) (\<lambda>p.
      rbind (ValidateAttackRole (ph_Node p) (ph_Role p)) (\<lambda>_.
      Inr (p, note_join p v))))))))))"

subsection \<open>Waiting\<close>

definition firstUnwaitedBackgroundJoin :: "string list gomap \<Rightarrow> string \<Rightarrow> string list \<Rightarrow> string" where
  "firstUnwaitedBackgroundJoin background grp waited =
     (case sort (concat (map (\<lambda>(g, jobs). if grp \<noteq> [] \<and> g \<noteq> grp then [] else filter (\<lambda>job. job \<notin> set waited) jobs) background)) of
        [] \<Rightarrow> []
      | job # _ \<Rightarrow> job)"

definition removeBackgroundJoinJobs :: "string list gomap \<Rightarrow> string list \<Rightarrow> string list gomap" where
  "removeBackgroundJoinJobs background waited =
     filter (\<lambda>(g, jobs). jobs \<noteq> []) (map (\<lambda>(g, jobs). (g, filter (\<lambda>job. job \<notin> set waited) jobs)) background)"

definition started_jobs :: "string list \<Rightarrow> scopes \<Rightarrow> unit result" where
  "started_jobs jobs v = check_all (\<lambda>job. check (job \<notin> set (vs_knownJobs v)) ''job has not been started'') jobs"

definition wait_ready_phase :: "Phase \<Rightarrow> scopes \<Rightarrow> (Phase \<times> scopes) result" where
  "wait_ready_phase p v =
     rbind (check (ph_MinCount p < 0) ''minCount cannot be negative'') (\<lambda>_.
     rbind (started_jobs (ph_Jobs p) v) (\<lambda>_.
     rbind (check (firstUnwaitedBackgroundJoin (vs_backgroundJoins v) (ph_Group p) (ph_Jobs p) \<noteq> [] \<and> ph_MinCount p = 0)
       ''wait-ready after background join requires minCount or all relevant join jobs'') (\<lambda>_.
     let v = v\<lparr>vs_backgroundJoins := removeBackgroundJoinJobs (vs_backgroundJoins v) (ph_Jobs p)\<rparr>;
         p = (if KPL_Prelude.f_eq (ph_ReadyRatio p) (Fin 0) then p\<lparr>ph_ReadyRatio := Fin 1\<rparr> else p) in
     rbind (check (ph_ReadyRatio p = NaN \<or> f_le (ph_ReadyRatio p) (Fin 0) \<or> f_lt (Fin 1) (ph_ReadyRatio p)) ''readyRatio must be in (0, 1]'') (\<lambda>_.
     let p = p\<lparr>ph_Timeout := default_str ''1m'' (ph_Timeout p)\<rparr> in
     rbind (positive_duration (ph_Timeout p)) (\<lambda>_. Inr (p, v))))))"

definition wait_jobs_phase :: "Phase \<Rightarrow> scopes \<Rightarrow> (Phase \<times> scopes) result" where
  "wait_jobs_phase p v =
     rbind (check (\<not> ShouldAwait p) ''wait-jobs must use await: true'') (\<lambda>_.
     let p = p\<lparr>ph_Timeout := default_str ''5m'' (ph_Timeout p)\<rparr> in
     rbind (positive_duration (ph_Timeout p)) (\<lambda>_.
     if ph_Jobs p = [] then Inr (p, v\<lparr>vs_backgroundJoins := []\<rparr>)
     else rbind (started_jobs (ph_Jobs p) v) (\<lambda>_.
       Inr (p, v\<lparr>vs_backgroundJoins := removeBackgroundJoinJobs (vs_backgroundJoins v) (ph_Jobs p)\<rparr>))))"

subsection \<open>Traffic\<close>

definition publish_phase :: "gomath \<Rightarrow> Phase \<Rightarrow> Phase result" where
  "publish_phase gm p =
     (let p = p\<lparr>ph_DeliveryWindow := default_str ''10s'' (ph_DeliveryWindow p)\<rparr> in
      rbind (check (case ParseDuration (ph_DeliveryWindow p) of Inl _ \<Rightarrow> True | Inr window \<Rightarrow> window \<le> 0 \<or> window > 3600 * second)
        ''deliveryWindow must be a positive duration no longer than 1h'') (\<lambda>_.
      let p = p\<lparr>ph_PayloadEncoding := default_str ''envelope'' (ph_PayloadEncoding p)\<rparr> in
      rbind (check (ph_PayloadEncoding p \<noteq> ''envelope'' \<and> ph_PayloadEncoding p \<noteq> ''raw'') ''payloadEncoding must be envelope or raw'') (\<lambda>_.
      rbind (check (ph_Group p = [] \<or> ph_Count p < 1) ''publish requires group and positive count'') (\<lambda>_.
      let p = (if ph_PayloadSize p \<le> 0 then p\<lparr>ph_PayloadSize := 32\<rparr> else p) in
      rbind (check (ph_PayloadSize p > MaxPublishPayloadBytes) ''payloadSize exceeds 16 MiB'') (\<lambda>_.
      rbind (wrap ''interval: '' (dist_Validate gm True (ph_Interval p))) (\<lambda>_. Inr p))))))"

definition leave_phase :: "gomath \<Rightarrow> Phase \<Rightarrow> Phase result" where
  "leave_phase gm p =
     rbind (check (ph_Group p = [] \<or> ph_Count p < 1) ''leave requires group and positive count'') (\<lambda>_.
     rbind (wrap ''interval: '' (dist_Validate gm True (ph_Interval p))) (\<lambda>_. Inr p))"

subsection \<open>Phases\<close>

text \<open>The defaults at the head of the loop; \<open>i\<close> is the index of the phase.\<close>

definition normalize_phase :: "golib \<Rightarrow> nat \<Rightarrow> Phase \<Rightarrow> Phase" where
  "normalize_phase lb i p =
     (let action = (if ph_Action p = ''sleep'' then ''wait'' else if ph_Action p = ''reset'' then ''stop-all'' else ph_Action p);
          number = Itoa (int i + 1)
      in p\<lparr>ph_Action := action, ph_Name := (if ph_Name p = [] then action @ ''-'' @ number else ph_Name p),
           ph_NodeType := (if ph_NodeType p \<noteq> [] then canonical_type lb (ph_NodeType p) else ph_NodeType p),
           ph_Job := (if ph_Job p = [] \<and> action \<noteq> ''topology'' then ''phase-'' @ number else ph_Job p),
           ph_Repeat := (if ph_Repeat p = 0 then 1 else ph_Repeat p)\<rparr>)"

definition on_error_phase :: "Phase \<Rightarrow> Phase result" where
  "on_error_phase p =
     (if ph_Action p = ''publish'' \<or> ph_Action p = ''leave'' then
        let p = p\<lparr>ph_OnError := default_str ''fail'' (ph_OnError p)\<rparr>
        in rbind (check (ph_OnError p \<noteq> ''fail'' \<and> ph_OnError p \<noteq> ''continue'') ''onError must be fail or continue'') (\<lambda>_. Inr p)
      else rbind (check (ph_OnError p \<noteq> []) ''onError is only supported for publish and leave'') (\<lambda>_. Inr p))"

definition phase_fields :: "int \<Rightarrow> Phase \<Rightarrow> Phase result" where
  "phase_fields version p =
     (let a = ph_Action p in
      rbind (check (ph_Repeat p < 1) ''repeat must be positive'') (\<lambda>_.
      rbind (check (ph_Parallelism p < 0) ''parallelism cannot be negative'') (\<lambda>_.
      rbind (check (ph_Jobs p \<noteq> [] \<and> a \<noteq> ''wait-ready'' \<and> a \<noteq> ''wait-jobs'') ''jobs is only supported for wait-ready and wait-jobs'') (\<lambda>_.
      rbind (on_error_phase p) (\<lambda>p.
      rbind (check (a \<noteq> ''join'' \<and> (ph_AgentID p \<noteq> [] \<or> ph_Placement p \<noteq> [])) ''agentId and placement are only supported for join'') (\<lambda>_.
      rbind (check (a \<noteq> ''publish'' \<and> ph_PayloadEncoding p \<noteq> []) ''payloadEncoding is only supported for publish'') (\<lambda>_.
      rbind (check (a \<noteq> ''publish'' \<and> ph_DeliveryWindow p \<noteq> []) ''deliveryWindow is only supported for publish'') (\<lambda>_.
      rbind (check ((ph_NodeIDs p \<noteq> None \<or> ph_PeerIDs p \<noteq> None) \<and> (version < 3 \<or> a \<noteq> ''mesh-freeze'' \<and> a \<noteq> ''topology'' \<and> a \<noteq> ''schedule''))
        ''nodeIds and peerIds require version 3 mesh-freeze, topology, or schedule'') (\<lambda>_.
      rbind (check (ph_Schedule p \<noteq> None \<and> a \<noteq> ''schedule'') ''schedule configuration requires the schedule action'') (\<lambda>_.
      rbind (check (ph_Topology p \<noteq> None \<and> a \<noteq> ''topology'') ''topology configuration is only supported for the topology action'') (\<lambda>_.
      Inr p)))))))))))"

text \<open>The switch over the action.\<close>

definition phase_action :: "golib \<Rightarrow> gomath \<Rightarrow> Scenario \<Rightarrow> Phase \<Rightarrow> scopes \<Rightarrow> (Phase \<times> scopes) result" where
  "phase_action lb gm s p v =
     (let a = ph_Action p; keep = (\<lambda>p. Inr (p, v)); version3 = check (sn_Version s < 3) ''action requires version 3'' in
      if a = ''schedule'' then rbind version3 (\<lambda>_. rbind (validateSchedulePhase lb gm p) keep)
      else if a = ''topology'' then
        rbind version3 (\<lambda>_. rbind (validateTopologyPhase lb p) (\<lambda>_.
        rbind (validateTopologyGroup p (mget [] (vs_joinedGroups v) (ph_Group p))) (\<lambda>_. keep p)))
      else if a = ''mesh-freeze'' then rbind version3 (\<lambda>_. rbind (validateMeshFreezePhase lb p) keep)
      else if a = ''join'' then join_phase lb gm s p v
      else if a = ''wait'' then rbind (positive_duration (ph_Duration p)) (\<lambda>_. keep p)
      else if a = ''wait-ready'' then wait_ready_phase p v
      else if a = ''wait-jobs'' then wait_jobs_phase p v
      else if a = ''publish'' then rbind (publish_phase gm p) keep
      else if a = ''leave'' then rbind (leave_phase gm p) keep
      else if a = ''stop-all'' then Inr (p, new_scopes)
      else if a = ''log'' then keep p
      else Inl (Fail ''unknown action''))"

definition phase_job :: "Phase \<Rightarrow> scopes \<Rightarrow> scopes result" where
  "phase_job p v =
     (let a = ph_Action p in
      rbind (check (\<not> ShouldAwait p \<and> a \<noteq> ''join'' \<and> a \<noteq> ''publish'' \<and> a \<noteq> ''leave'' \<and> a \<noteq> ''schedule'')
        ''await:false is only supported for join, publish, leave, and schedule'') (\<lambda>_.
      rbind (check (ph_Parallel p \<and> a \<noteq> ''join'' \<and> a \<noteq> ''publish'' \<and> a \<noteq> ''leave'') ''parallel is only supported for join, publish, and leave'') (\<lambda>_.
      if ShouldAwait p then Inr v
      else rbind (check (ph_Job p \<in> set (vs_knownJobs v)) ''duplicate background job'') (\<lambda>_.
        Inr (v\<lparr>vs_knownJobs := ph_Job p # vs_knownJobs v\<rparr>)))))"

definition validate_phase :: "golib \<Rightarrow> gomath \<Rightarrow> Scenario \<Rightarrow> nat \<times> Phase \<Rightarrow> Phase list \<times> scopes \<Rightarrow> (Phase list \<times> scopes) result" where
  "validate_phase lb gm s = (\<lambda>(i, p) (done, v).
     rbind (phase_fields (sn_Version s) (normalize_phase lb i p)) (\<lambda>p.
     rbind (wrap ''phase: '' (phase_action lb gm s p v)) (\<lambda>(p, v).
     rbind (phase_job p v) (\<lambda>v. Inr (done @ [p], v)))))"

subsection \<open>Schedules against joins\<close>

definition MatchesProfile :: "Phase \<Rightarrow> string \<Rightarrow> string \<Rightarrow> string \<Rightarrow> string \<Rightarrow> bool" where
  "MatchesProfile p grp profile nodeType role \<longleftrightarrow>
     (ph_Group p = [] \<or> ph_Group p = grp) \<and> (ph_Profile p = [] \<or> ph_Profile p = profile)
     \<and> (ph_NodeType p = [] \<or> ph_NodeType p = nodeType) \<and> (ph_Role p = [] \<or> ph_Role p = role)"

definition explicit_ids :: "Phase \<Rightarrow> bool" where
  "explicit_ids p \<longleftrightarrow> elems (ph_NodeIDs p) \<noteq> [] \<or> elems (ph_PeerIDs p) \<noteq> []"

definition change_body :: "golib \<Rightarrow> gomath \<Rightarrow> Phase \<Rightarrow> string \<Rightarrow> ProfileChange \<Rightarrow> NodeConfig \<times> bool \<Rightarrow> (NodeConfig \<times> bool) result" where
  "change_body lb gm schedule role change = (\<lambda>(config, mutable).
     let mutable = (mutable \<or> rp_Network (pc_Set change) \<noteq> None) in
     if explicit_ids schedule then Inr (config, mutable)
     else rbind (patch_Apply lb gm (pc_Set change) config) (\<lambda>config.
       rbind (ValidateAttackRole config role) (\<lambda>_. Inr (config, mutable))))"

text \<open>The loop over the joins of the generation, by their positions, which it may mark as mutable.\<close>

definition schedule_join :: "golib \<Rightarrow> gomath \<Rightarrow> Phase \<Rightarrow> nat \<Rightarrow> Phase list \<times> bool \<Rightarrow> (Phase list \<times> bool) result" where
  "schedule_join lb gm schedule j = (\<lambda>(phases, matched).
     let join = phases ! j in
     if \<not> MatchesProfile schedule (ph_Group join) (ph_Profile join) (ph_NodeType join) (ph_Role join) then Inr (phases, matched)
     else rbind (deref (ph_Schedule schedule)) (\<lambda>sc.
       rbind (foldR (change_body lb gm schedule (ph_Role join)) (sc_Changes sc) (ph_Node join, ph_NetworkMutable join)) (\<lambda>(_, mutable).
       Inr (phases[j := join\<lparr>ph_NetworkMutable := mutable\<rparr>], True))))"

definition generation_end :: "Phase list \<Rightarrow> nat \<Rightarrow> nat" where
  "generation_end phases i = i + length (takeWhile in_generation (drop i phases))"

definition generation_joins :: "Phase list \<Rightarrow> nat \<Rightarrow> nat list" where
  "generation_joins phases i = filter (\<lambda>j. ph_Action (phases ! j) = ''join'') [i..<generation_end phases i]"

definition schedule_body :: "golib \<Rightarrow> gomath \<Rightarrow> nat \<Rightarrow> Phase list \<times> nat list \<times> nat \<Rightarrow> (Phase list \<times> nat list \<times> nat) result" where
  "schedule_body lb gm index = (\<lambda>(phases, joins, generationEnd).
     case (if index \<ge> generationEnd then (generation_joins phases index, generation_end phases index) else (joins, generationEnd)) of (joins, generationEnd) \<Rightarrow>
     let schedule = phases ! index in
     if ph_Action schedule \<noteq> ''schedule'' then Inr (phases, joins, generationEnd)
     else rbind (foldR (schedule_join lb gm schedule) joins (phases, False)) (\<lambda>(phases, matched).
       rbind (check (\<not> matched \<and> \<not> explicit_ids schedule) ''schedule selectors do not match any join in this generation'') (\<lambda>_.
       Inr (phases, joins, generationEnd))))"

definition validateProfileSchedules :: "golib \<Rightarrow> gomath \<Rightarrow> Phase list \<Rightarrow> Phase list result" where
  "validateProfileSchedules lb gm phases =
     rbind (foldR (schedule_body lb gm) [0..<length phases] (phases, [], 0)) (\<lambda>(phases, _). Inr phases)"

subsection \<open>Scenarios\<close>

definition scenario_head :: "Scenario \<Rightarrow> Scenario result" where
  "scenario_head s =
     (let s = (if sn_Version s = 0 then s\<lparr>sn_Version := 1\<rparr> else s) in
      rbind (check (sn_Version s \<noteq> 1 \<and> sn_Version s \<noteq> 2 \<and> sn_Version s \<noteq> 3 \<and> sn_Version s \<noteq> 4) ''unsupported scenario version'') (\<lambda>_.
      rbind (check (TrimSpace (sn_Name s) = []) ''scenario name is required'') (\<lambda>_.
      rbind (check (sn_Phases s = []) ''scenario must contain at least one phase'') (\<lambda>_.
      let s = s\<lparr>sn_OnExit := default_str ''cancel'' (sn_OnExit s)\<rparr> in
      rbind (check (sn_OnExit s \<noteq> ''cancel'' \<and> sn_OnExit s \<noteq> ''drain'') ''onExit must be cancel or drain'') (\<lambda>_.
      let s = s\<lparr>sn_JobShutdownTimeout := default_str ''3m'' (sn_JobShutdownTimeout s)\<rparr> in
      rbind (positive_duration (sn_JobShutdownTimeout s)) (\<lambda>_. Inr s))))))"

definition scenario_Validate :: "golib \<Rightarrow> gomath \<Rightarrow> Scenario \<Rightarrow> Scenario result" where
  "scenario_Validate lb gm s =
     rbind (scenario_head s) (\<lambda>s.
     rbind (validateAttackVersion lb s) (\<lambda>_.
     rbind (foldR (validate_phase lb gm s) (enumerate 0 (sn_Phases s)) ([], new_scopes)) (\<lambda>(phases, _).
     rbind (validateAttackSelectors phases) (\<lambda>_.
     rbind (validateProfileSchedules lb gm phases) (\<lambda>phases.
     Inr (s\<lparr>sn_Phases := phases\<rparr>))))))"

end
