(* ===== verification/Scenario_Scope.thy ===== *)
theory Scenario_Scope
  imports Scenario
begin

text \<open>
  The scoping rules of the scenario language. \<open>Validate\<close> keeps its bookkeeping in maps that it updates and clears; here they
  are related to the phases accepted so far: the background jobs, the joins of a group and the joins not yet waited for are
  functions of the phases since the last \<^verbatim>\<open>stop-all\<close>.
\<close>

subsection \<open>Generations\<close>

definition current_gen :: "Phase list \<Rightarrow> Phase list" where
  "current_gen ps = rev (takeWhile in_generation (rev ps))"

lemma current_gen_simps [simp]:
  "current_gen [] = []"
  "current_gen (ps @ [p]) = (if in_generation p then current_gen ps @ [p] else [])"
  by (simp_all add: current_gen_def)

definition background :: "Phase \<Rightarrow> bool" where
  "background p \<longleftrightarrow> \<not> ShouldAwait p"

definition background_join :: "Phase \<Rightarrow> bool" where
  "background_join p \<longleftrightarrow> ph_Action p = ''join'' \<and> background p"

text \<open>A phase that waits for a job: by name, or for all of them.\<close>

definition waits_for :: "Phase \<Rightarrow> string \<Rightarrow> bool" where
  "waits_for p job \<longleftrightarrow> ph_Action p = ''wait-ready'' \<and> job \<in> set (ph_Jobs p)
     \<or> ph_Action p = ''wait-jobs'' \<and> (ph_Jobs p = [] \<or> job \<in> set (ph_Jobs p))"

definition pend :: "Phase \<Rightarrow> (string \<times> string) set \<Rightarrow> (string \<times> string) set" where
  "pend p S = (if background_join p then insert (ph_Group p, ph_Job p) S else {x \<in> S. \<not> waits_for p (snd x)})"

definition pending :: "Phase list \<Rightarrow> (string \<times> string) set" where
  "pending ps = fold pend ps {}"

lemma pending_snoc [simp]: "pending [] = {}" "pending (ps @ [p]) = pend p (pending ps)"
  by (simp_all add: pending_def)

text \<open>What is pending was joined in the background and not waited for since.\<close>

definition unwaited_at :: "string \<Rightarrow> string \<Rightarrow> Phase list \<Rightarrow> nat \<Rightarrow> bool" where
  "unwaited_at g job ps i \<longleftrightarrow> background_join (ps ! i) \<and> ph_Group (ps ! i) = g \<and> ph_Job (ps ! i) = job
     \<and> (\<forall>j. i < j \<longrightarrow> j < length ps \<longrightarrow> \<not> waits_for (ps ! j) job)"

lemma pending_iff: "(g, job) \<in> pending ps \<longleftrightarrow> (\<exists>i < length ps. unwaited_at g job ps i)"
proof (induction ps rule: rev_induct)
  case (snoc p ps)
  have wait: "\<not> (background_join p \<and> waits_for p job)" by (auto simp: background_join_def waits_for_def)
  let ?Q = "unwaited_at g job"
  have old: "?Q (ps @ [p]) i \<longleftrightarrow> ?Q ps i \<and> \<not> waits_for p job" if "i < length ps" for i
    using that by (auto simp: unwaited_at_def nth_append less_Suc_eq)
  have new: "?Q (ps @ [p]) (length ps) \<longleftrightarrow> background_join p \<and> ph_Group p = g \<and> ph_Job p = job" by (auto simp: unwaited_at_def nth_append)
  have "(\<exists>i < length (ps @ [p]). ?Q (ps @ [p]) i) \<longleftrightarrow> (\<exists>i < length ps. ?Q (ps @ [p]) i) \<or> ?Q (ps @ [p]) (length ps)"
    by (auto simp: less_Suc_eq)
  then have "(\<exists>i < length (ps @ [p]). ?Q (ps @ [p]) i) \<longleftrightarrow> ((\<exists>i < length ps. ?Q ps i) \<and> \<not> waits_for p job) \<or> (background_join p \<and> ph_Group p = g \<and> ph_Job p = job)"
    using old new by auto
  moreover have "(g, job) \<in> pend p (pending ps) \<longleftrightarrow> ((g, job) \<in> pending ps \<and> \<not> waits_for p job) \<or> (background_join p \<and> ph_Group p = g \<and> ph_Job p = job)"
    using wait by (auto simp: pend_def background_join_def waits_for_def)
  ultimately show ?case using snoc.IH by simp
qed simp

subsection \<open>The effect of a phase on the scopes\<close>

definition scope_after :: "Phase \<Rightarrow> scopes \<Rightarrow> scopes" where
  "scope_after p v =
     (if ph_Action p = ''join'' then note_join p v
      else if ph_Action p = ''wait-ready'' then v\<lparr>vs_backgroundJoins := removeBackgroundJoinJobs (vs_backgroundJoins v) (ph_Jobs p)\<rparr>
      else if ph_Action p = ''wait-jobs'' then
        (if ph_Jobs p = [] then v\<lparr>vs_backgroundJoins := []\<rparr>
         else v\<lparr>vs_backgroundJoins := removeBackgroundJoinJobs (vs_backgroundJoins v) (ph_Jobs p)\<rparr>)
      else if ph_Action p = ''stop-all'' then new_scopes
      else v)"

text \<open>An action keeps the fields that identify a phase.\<close>

definition same_phase :: "Phase \<Rightarrow> Phase \<Rightarrow> bool" where
  "same_phase p q \<longleftrightarrow> ph_Action p = ph_Action q \<and> ph_Name p = ph_Name q \<and> ph_Job p = ph_Job q \<and> ph_Jobs p = ph_Jobs q \<and> ph_Group p = ph_Group q
     \<and> ph_Await p = ph_Await q \<and> ph_Repeat p = ph_Repeat q \<and> ph_Count p = ph_Count q \<and> ph_MinCount p = ph_MinCount q
     \<and> ph_NodeIDs p = ph_NodeIDs q \<and> ph_PeerIDs p = ph_PeerIDs q \<and> ph_Schedule p = ph_Schedule q \<and> ph_Topology p = ph_Topology q"

lemma action_parts:
  "validateSchedulePhase lb gm q = Inr p \<Longrightarrow> same_phase p q \<and> ph_Schedule q \<noteq> None \<and> p = q\<lparr>ph_Timeout := ph_Timeout p\<rparr>"
  "validateMeshFreezePhase lb q = Inr p \<Longrightarrow> same_phase p q"
  "publish_phase gm q = Inr p \<Longrightarrow> same_phase p q"
  "leave_phase gm q = Inr p \<Longrightarrow> p = q"
  "resolveNodeConfig lb gm s q = Inr p \<Longrightarrow> same_phase p q"
  by (auto simp: validateSchedulePhase_def validateMeshFreezePhase_def publish_phase_def leave_phase_def resolveNodeConfig_def same_phase_def
      rbind_Inr_iff Let_def split: option.splits if_splits prod.splits)

lemma join_phase_scope: "join_phase lb gm s q v = Inr (p, v') \<Longrightarrow> same_phase p q \<and> v' = note_join p v"
  unfolding join_phase_def Let_def by (auto simp: rbind_Inr_iff same_phase_def dest!: action_parts(5))

lemma wait_ready_scope:
  "wait_ready_phase q v = Inr (p, v') \<Longrightarrow> same_phase p q \<and> v' = v\<lparr>vs_backgroundJoins := removeBackgroundJoinJobs (vs_backgroundJoins v) (ph_Jobs p)\<rparr>"
  unfolding wait_ready_phase_def Let_def by (auto simp: rbind_Inr_iff same_phase_def split: if_splits)

lemma wait_jobs_scope:
  "wait_jobs_phase q v = Inr (p, v') \<Longrightarrow> same_phase p q \<and> v' = (if ph_Jobs p = [] then v\<lparr>vs_backgroundJoins := []\<rparr>
     else v\<lparr>vs_backgroundJoins := removeBackgroundJoinJobs (vs_backgroundJoins v) (ph_Jobs p)\<rparr>)"
  unfolding wait_jobs_phase_def Let_def by (auto simp: rbind_Inr_iff same_phase_def split: if_splits)

text \<open>The switch, one action at a time.\<close>

lemma phase_action_switch:
  "ph_Action p = ''schedule'' \<Longrightarrow> phase_action lb gm s p v
     = rbind (check (sn_Version s < 3) ''action requires version 3'') (\<lambda>_. rbind (validateSchedulePhase lb gm p) (\<lambda>p. Inr (p, v)))"
  "ph_Action p = ''topology'' \<Longrightarrow> phase_action lb gm s p v
     = rbind (check (sn_Version s < 3) ''action requires version 3'') (\<lambda>_. rbind (validateTopologyPhase lb p) (\<lambda>_.
         rbind (validateTopologyGroup p (mget [] (vs_joinedGroups v) (ph_Group p))) (\<lambda>_. Inr (p, v))))"
  "ph_Action p = ''mesh-freeze'' \<Longrightarrow> phase_action lb gm s p v
     = rbind (check (sn_Version s < 3) ''action requires version 3'') (\<lambda>_. rbind (validateMeshFreezePhase lb p) (\<lambda>p. Inr (p, v)))"
  "ph_Action p = ''join'' \<Longrightarrow> phase_action lb gm s p v = join_phase lb gm s p v"
  "ph_Action p = ''wait'' \<Longrightarrow> phase_action lb gm s p v = rbind (positive_duration (ph_Duration p)) (\<lambda>_. Inr (p, v))"
  "ph_Action p = ''wait-ready'' \<Longrightarrow> phase_action lb gm s p v = wait_ready_phase p v"
  "ph_Action p = ''wait-jobs'' \<Longrightarrow> phase_action lb gm s p v = wait_jobs_phase p v"
  "ph_Action p = ''publish'' \<Longrightarrow> phase_action lb gm s p v = rbind (publish_phase gm p) (\<lambda>p. Inr (p, v))"
  "ph_Action p = ''leave'' \<Longrightarrow> phase_action lb gm s p v = rbind (leave_phase gm p) (\<lambda>p. Inr (p, v))"
  "ph_Action p = ''stop-all'' \<Longrightarrow> phase_action lb gm s p v = Inr (p, new_scopes)"
  "ph_Action p = ''log'' \<Longrightarrow> phase_action lb gm s p v = Inr (p, v)"
  by (simp_all add: phase_action_def)

definition known_actions :: "string list" where
  "known_actions = [''schedule'', ''topology'', ''mesh-freeze'', ''join'', ''wait'', ''wait-ready'', ''wait-jobs'', ''publish'', ''leave'', ''stop-all'', ''log'']"

lemma phase_action_known: "phase_action lb gm s p v = Inr r \<Longrightarrow> ph_Action p \<in> set known_actions"
  unfolding phase_action_def Let_def known_actions_def by (auto split: if_splits)

lemma phase_action_cases:
  assumes "phase_action lb gm s q v = Inr r"
  obtains "ph_Action q = ''schedule''" | "ph_Action q = ''topology''" | "ph_Action q = ''mesh-freeze''" | "ph_Action q = ''join''"
    | "ph_Action q = ''wait''" | "ph_Action q = ''wait-ready''" | "ph_Action q = ''wait-jobs''" | "ph_Action q = ''publish''"
    | "ph_Action q = ''leave''" | "ph_Action q = ''stop-all''" | "ph_Action q = ''log''"
  using phase_action_known [OF assms] unfolding known_actions_def by auto

lemma same_phase_refl [simp]: "same_phase p p"
  by (simp add: same_phase_def)

lemma same_phase_action: "same_phase p q \<Longrightarrow> ph_Action p = ph_Action q"
  by (simp add: same_phase_def)

lemma scope_after_simps:
  "ph_Action p = ''join'' \<Longrightarrow> scope_after p v = note_join p v"
  "ph_Action p = ''wait-ready'' \<Longrightarrow> scope_after p v = v\<lparr>vs_backgroundJoins := removeBackgroundJoinJobs (vs_backgroundJoins v) (ph_Jobs p)\<rparr>"
  "ph_Action p = ''wait-jobs'' \<Longrightarrow> scope_after p v = (if ph_Jobs p = [] then v\<lparr>vs_backgroundJoins := []\<rparr>
     else v\<lparr>vs_backgroundJoins := removeBackgroundJoinJobs (vs_backgroundJoins v) (ph_Jobs p)\<rparr>)"
  "ph_Action p = ''stop-all'' \<Longrightarrow> scope_after p v = new_scopes"
  "ph_Action p \<notin> {''join'', ''wait-ready'', ''wait-jobs'', ''stop-all''} \<Longrightarrow> scope_after p v = v"
  by (simp_all add: scope_after_def)

lemma phase_action_scope:
  assumes "phase_action lb gm s q v = Inr (p, v')"
  shows "same_phase p q \<and> v' = scope_after p v"
proof (cases rule: phase_action_cases [OF assms])
  case 1
  then have "same_phase p q \<and> v' = v" using assms action_parts(1) by (auto simp: phase_action_switch(1) rbind_Inr_iff)
  then show ?thesis using 1 same_phase_action [of p q] by (simp add: scope_after_simps(5))
next
  case 2
  then show ?thesis using assms by (auto simp: phase_action_switch(2) rbind_Inr_iff scope_after_simps(5))
next
  case 3
  then have "same_phase p q \<and> v' = v" using assms action_parts(2) by (auto simp: phase_action_switch(3) rbind_Inr_iff)
  then show ?thesis using 3 same_phase_action [of p q] by (simp add: scope_after_simps(5))
next
  case 4
  then show ?thesis using assms join_phase_scope [of lb gm s q v p v'] same_phase_action [of p q] by (simp add: phase_action_switch(4) scope_after_simps(1))
next
  case 5
  then show ?thesis using assms by (auto simp: phase_action_switch(5) rbind_Inr_iff scope_after_simps(5))
next
  case 6
  then show ?thesis using assms wait_ready_scope [of q v p v'] same_phase_action [of p q] by (simp add: phase_action_switch(6) scope_after_simps(2))
next
  case 7
  then show ?thesis using assms wait_jobs_scope [of q v p v'] same_phase_action [of p q] by (simp add: phase_action_switch(7) scope_after_simps(3))
next
  case 8
  then have "same_phase p q \<and> v' = v" using assms action_parts(3) by (auto simp: phase_action_switch(8) rbind_Inr_iff)
  then show ?thesis using 8 same_phase_action [of p q] by (simp add: scope_after_simps(5))
next
  case 9
  then have "p = q \<and> v' = v" using assms action_parts(4) [of gm q p] by (auto simp: phase_action_switch(9) rbind_Inr_iff)
  then show ?thesis using 9 by (simp add: scope_after_simps(5))
next
  case 10
  then show ?thesis using assms by (auto simp: phase_action_switch(10) scope_after_simps(4))
next
  case 11
  then show ?thesis using assms by (auto simp: phase_action_switch(11) scope_after_simps(5))
qed


subsection \<open>The scopes are functions of the generation\<close>

text \<open>The entries of the map of background joins, as pairs of group and job.\<close>

definition entries :: "string list gomap \<Rightarrow> (string \<times> string) set" where
  "entries m = {(g, job). \<exists>js. (g, js) \<in> set m \<and> job \<in> set js}"

lemma entries_simps [simp]: "entries [] = {}" "entries ((g, js) # m) = Pair g ` set js \<union> entries m"
  by (auto simp: entries_def)

lemma entries_remove: "entries (removeBackgroundJoinJobs m waited) = {x \<in> entries m. snd x \<notin> set waited}"
proof (induction m)
  case (Cons x m)
  obtain g js where x: "x = (g, js)" by fastforce
  define ks where "ks = filter (\<lambda>job. job \<notin> set waited) js"
  have "removeBackgroundJoinJobs (x # m) waited = (if ks = [] then [] else [(g, ks)]) @ removeBackgroundJoinJobs m waited"
    by (simp add: removeBackgroundJoinJobs_def x ks_def [symmetric])
  then have "entries (removeBackgroundJoinJobs (x # m) waited) = Pair g ` set ks \<union> entries (removeBackgroundJoinJobs m waited)" by simp
  also have "Pair g ` set ks = {y \<in> Pair g ` set js. snd y \<notin> set waited}" by (auto simp: ks_def)
  finally show ?case using Cons.IH by (auto simp: x)
qed (simp add: removeBackgroundJoinJobs_def)

lemma distinct_remove: "distinct (map fst m) \<Longrightarrow> distinct (map fst (removeBackgroundJoinJobs m waited))"
  unfolding removeBackgroundJoinJobs_def by (rule distinct_map_filter) (simp add: case_prod_beta o_def)

lemma entries_insert:
  assumes "distinct (map fst m)"
  shows "entries (AList.update g (List.insert job (mget [] m g)) m) = insert (g, job) (entries m)"
proof -
  have dist: "distinct (map fst (AList.update k v m))" for k v using assms by (rule distinct_update)
  have mem: "(k, js) \<in> set n \<longleftrightarrow> map_of n k = Some js" if "distinct (map fst n)" for k js and n :: "string list gomap"
    using that by (metis map_of_SomeD map_of_is_SomeI)
  have "x \<in> entries n \<longleftrightarrow> snd x \<in> set (mget [] n (fst x))" if "distinct (map fst n)" for x n
    using mem [OF that] by (cases x, cases "map_of n (fst x)") (simp_all add: entries_def mget_def)
  note iff = this
  show ?thesis using iff [OF dist] iff [OF assms] by (auto simp: mget_def update_conv set_eq_iff split: if_splits)
qed

definition scope_rel :: "Phase list \<Rightarrow> scopes \<Rightarrow> bool" where
  "scope_rel ps v \<longleftrightarrow> set (vs_knownJobs v) = ph_Job ` set (filter background (current_gen ps))
     \<and> (\<forall>g. mget [] (vs_joinedGroups v) g = filter (\<lambda>p. ph_Action p = ''join'' \<and> ph_Group p = g) (current_gen ps))
     \<and> distinct (map fst (vs_backgroundJoins v)) \<and> entries (vs_backgroundJoins v) = pending (current_gen ps)"

lemma scope_rel_new: "scope_rel [] new_scopes"
  by (simp add: scope_rel_def new_scopes_def mget_def)

lemma note_join_parts:
  assumes "distinct (map fst (vs_backgroundJoins v))"
  shows "vs_knownJobs (note_join p v) = vs_knownJobs v"
    "mget [] (vs_joinedGroups (note_join p v)) g = mget [] (vs_joinedGroups v) g @ (if ph_Group p = g then [p] else [])"
    "distinct (map fst (vs_backgroundJoins (note_join p v)))"
    "entries (vs_backgroundJoins (note_join p v)) = (if background p then insert (ph_Group p, ph_Job p) (entries (vs_backgroundJoins v)) else entries (vs_backgroundJoins v))"
  using assms entries_insert [OF assms] by (simp_all add: note_join_def background_def Let_def mget_def update_conv distinct_update)

lemma scope_after_jobs: "vs_knownJobs (scope_after p v) = (if in_generation p then vs_knownJobs v else [])"
  by (simp add: scope_after_def note_join_def Let_def in_generation_def new_scopes_def)

text \<open>One phase: the scopes after it, with its job added, are those of the longer list.\<close>

lemma scope_after_joins:
  assumes "distinct (map fst (vs_backgroundJoins v))"
  shows "mget [] (vs_joinedGroups (scope_after p v)) g
    = (if in_generation p then mget [] (vs_joinedGroups v) g @ (if ph_Action p = ''join'' \<and> ph_Group p = g then [p] else []) else [])"
  using note_join_parts(2) [OF assms, of p g] by (simp add: scope_after_def in_generation_def new_scopes_def mget_def)

lemma scope_after_pending:
  assumes "distinct (map fst (vs_backgroundJoins v))"
  shows "distinct (map fst (vs_backgroundJoins (scope_after p v)))"
    and "entries (vs_backgroundJoins (scope_after p v)) = (if in_generation p then pend p (entries (vs_backgroundJoins v)) else {})"
proof -
  show "distinct (map fst (vs_backgroundJoins (scope_after p v)))"
    using assms note_join_parts(3) [OF assms] distinct_remove [OF assms] by (simp add: scope_after_def new_scopes_def)
  consider "ph_Action p = ''join''" | "ph_Action p = ''wait-ready''" | "ph_Action p = ''wait-jobs''" | "ph_Action p = ''stop-all''"
    | "ph_Action p \<notin> {''join'', ''wait-ready'', ''wait-jobs'', ''stop-all''}" by blast
  then show "entries (vs_backgroundJoins (scope_after p v)) = (if in_generation p then pend p (entries (vs_backgroundJoins v)) else {})"
  proof cases
    case 1
    then show ?thesis using note_join_parts(4) [OF assms, of p]
      by (auto simp: scope_after_simps(1) in_generation_def pend_def background_join_def waits_for_def)
  qed (auto simp: scope_after_simps in_generation_def pend_def background_join_def waits_for_def entries_remove new_scopes_def)
qed

lemma phase_job_scope:
  assumes "phase_job p v = Inr v'"
  shows "vs_joinedGroups v' = vs_joinedGroups v" "vs_backgroundJoins v' = vs_backgroundJoins v"
    "set (vs_knownJobs v') = set (vs_knownJobs v) \<union> (if background p then {ph_Job p} else {})"
    "background p \<Longrightarrow> ph_Job p \<notin> set (vs_knownJobs v)"
    "background p \<Longrightarrow> ph_Action p \<in> {''join'', ''publish'', ''leave'', ''schedule''}"
  using assms by (auto simp: phase_job_def background_def rbind_Inr_iff Let_def split: if_splits)

lemma scope_rel_step:
  assumes "scope_rel ps v" "phase_job p (scope_after p v) = Inr v'"
  shows "scope_rel (ps @ [p]) v'"
proof -
  have d: "distinct (map fst (vs_backgroundJoins v))" using assms(1) by (simp add: scope_rel_def)
  note after = scope_after_joins [OF d, of p] scope_after_pending [OF d, of p] scope_after_jobs [of p v]
  note job = phase_job_scope [OF assms(2)]
  have gen: "in_generation p" if "background p" using job(5) [OF that] by (auto simp: in_generation_def)
  show ?thesis using assms(1) gen unfolding scope_rel_def job(1,2,3) after(1,3,4) by (auto simp: image_iff intro: after(2))
qed

end
