(* ===== verification/Scenario_Jobs.thy ===== *)
theory Scenario_Jobs
  imports Scenario_Scope
begin

text \<open>
  What the loop of \<open>scenario_Validate\<close> establishes of the accepted phases, position by position, and from it the soundness of
  job references: a phase waits only for jobs that were started, and a readiness ratio is never taken of a group that a
  background join is still filling.
\<close>

subsection \<open>Accepted phases\<close>

definition accepted_at :: "golib \<Rightarrow> gomath \<Rightarrow> Scenario \<Rightarrow> Phase list \<Rightarrow> Phase \<Rightarrow> bool" where
  "accepted_at lb gm s ps p \<longleftrightarrow> (\<exists>i r q v v'. scope_rel ps v \<and> phase_fields (sn_Version s) (normalize_phase lb i r) = Inr q
     \<and> phase_action lb gm s q v = Inr (p, scope_after p v) \<and> phase_job p (scope_after p v) = Inr v')"

lemma validate_phase_step:
  assumes "validate_phase lb gm s (i, r) (ps, v) = Inr (ps', v')" "scope_rel ps v"
  shows "\<exists>p. ps' = ps @ [p] \<and> scope_rel ps' v' \<and> accepted_at lb gm s ps p"
proof -
  obtain q p w where q: "phase_fields (sn_Version s) (normalize_phase lb i r) = Inr q" "phase_action lb gm s q v = Inr (p, w)"
      "phase_job p w = Inr v'" "ps' = ps @ [p]"
    using assms(1) by (auto simp: validate_phase_def rbind_Inr_iff)
  have w: "w = scope_after p v" using phase_action_scope [OF q(2)] by simp
  then have "scope_rel (ps @ [p]) v'" using scope_rel_step [OF assms(2)] q(3) by simp
  then show ?thesis using q w assms(2) unfolding accepted_at_def by blast
qed

lemma phases_accepted:
  assumes "foldR (validate_phase lb gm s) (enumerate 0 xs) ([], new_scopes) = Inr (ps, v)"
  shows "length ps = length xs" "\<And>k. k < length ps \<Longrightarrow> accepted_at lb gm s (take k ps) (ps ! k)"
proof -
  define I where "I = (\<lambda>ys (qs, w). length qs = length (ys :: (nat \<times> Phase) list) \<and> scope_rel qs w
    \<and> (\<forall>k < length qs. accepted_at lb gm s (take k qs) (qs ! k)))"
  have "I (enumerate 0 xs) (ps, v)"
  proof (rule foldR_invariant [OF assms])
    show "I [] ([], new_scopes)" by (simp add: I_def scope_rel_new)
    fix ys x zs t t'
    assume "I ys t" "validate_phase lb gm s x t = Inr t'"
    moreover obtain i r qs w qs' w' where x: "x = (i, r)" "t = (qs, w)" "t' = (qs', w')" by (metis prod.exhaust)
    ultimately obtain p where "qs' = qs @ [p]" "scope_rel qs' w'" "accepted_at lb gm s qs p"
      using validate_phase_step [of lb gm s i r qs w qs' w'] by (auto simp: I_def)
    then show "I (ys @ [x]) t'" using \<open>I ys t\<close> by (auto simp: I_def x nth_append less_Suc_eq)
  qed
  then show "length ps = length xs" "\<And>k. k < length ps \<Longrightarrow> accepted_at lb gm s (take k ps) (ps ! k)" by (auto simp: I_def)
qed

subsection \<open>Generations by position\<close>

definition same_generation :: "Phase list \<Rightarrow> nat \<Rightarrow> nat \<Rightarrow> bool" where
  "same_generation ps i k \<longleftrightarrow> i < k \<and> (\<forall>j. i \<le> j \<longrightarrow> j < k \<longrightarrow> in_generation (ps ! j))"

lemma current_gen_drop:
  assumes "k \<le> length ps"
  obtains b where "b \<le> k" "current_gen (take k ps) = drop b (take k ps)" "\<And>i. b \<le> i \<and> i < k \<longleftrightarrow> same_generation ps i k"
proof -
  let ?xs = "take k ps"
  define b where "b = length (dropWhile in_generation (rev ?xs))"
  have split: "?xs = rev (dropWhile in_generation (rev ?xs)) @ current_gen ?xs"
    by (metis current_gen_def rev_append rev_rev_ident takeWhile_dropWhile_id)
  have len: "length ?xs = k" using assms by simp
  have bk: "b \<le> k" using arg_cong [OF split, of length] len by (simp add: b_def)
  have gen: "current_gen ?xs = drop b ?xs" by (subst split) (simp add: b_def)
  have nth: "?xs ! j = ps ! j" if "j < k" for j using that by simp
  have inside: "in_generation (ps ! j)" if "b \<le> j" "j < k" for j
  proof -
    have "?xs ! j \<in> set (drop b ?xs)" using that len by (auto simp: in_set_conv_nth intro!: exI [of _ "j - b"])
    then have "?xs ! j \<in> set (current_gen ?xs)" using gen by simp
    then show ?thesis using nth [OF that(2)] by (auto simp: current_gen_def dest: set_takeWhileD)
  qed
  have before: "\<not> in_generation (ps ! (b - 1))" if "0 < b"
  proof -
    have ne: "dropWhile in_generation (rev ?xs) \<noteq> []" using that by (auto simp: b_def)
    then have "\<not> in_generation (hd (dropWhile in_generation (rev ?xs)))" by (rule hd_dropWhile)
    moreover have "?xs ! (b - 1) = last (rev (dropWhile in_generation (rev ?xs)))"
      using ne that by (subst split) (simp add: nth_append b_def last_conv_nth)
    ultimately show ?thesis using nth [of "b - 1"] bk that ne by (simp add: last_rev)
  qed
  have "b \<le> i \<and> i < k \<longleftrightarrow> same_generation ps i k" for i
  proof
    assume "b \<le> i \<and> i < k"
    then show "same_generation ps i k" using inside by (simp add: same_generation_def)
  next
    assume s: "same_generation ps i k"
    show "b \<le> i \<and> i < k"
    proof (rule ccontr)
      assume "\<not> (b \<le> i \<and> i < k)"
      then have "0 < b" "i \<le> b - 1" "b - 1 < k" using s bk by (auto simp: same_generation_def)
      then show False using s before by (auto simp: same_generation_def)
    qed
  qed
  then show ?thesis using that bk gen by blast
qed

lemma in_current_gen:
  assumes "k \<le> length ps"
  shows "p \<in> set (current_gen (take k ps)) \<longleftrightarrow> (\<exists>i. same_generation ps i k \<and> ps ! i = p)"
proof -
  obtain b where b: "b \<le> k" "current_gen (take k ps) = drop b (take k ps)" "\<And>i. b \<le> i \<and> i < k \<longleftrightarrow> same_generation ps i k"
    using current_gen_drop [OF assms] by blast
  have "p \<in> set (drop b (take k ps)) \<longleftrightarrow> (\<exists>i. b \<le> i \<and> i < k \<and> ps ! i = p)"
  proof
    assume "p \<in> set (drop b (take k ps))"
    then obtain m where "m < k - b" "take k ps ! (b + m) = p" using assms by (auto simp: in_set_conv_nth)
    then show "\<exists>i. b \<le> i \<and> i < k \<and> ps ! i = p" by (intro exI [of _ "b + m"]) simp
  next
    assume "\<exists>i. b \<le> i \<and> i < k \<and> ps ! i = p"
    then obtain i where i: "b \<le> i" "i < k" "ps ! i = p" by blast
    then have "drop b (take k ps) ! (i - b) = p" "i - b < length (drop b (take k ps))" using assms by auto
    then show "p \<in> set (drop b (take k ps))" by (metis nth_mem)
  qed
  then show ?thesis unfolding b(2) using b(3) by metis
qed

text \<open>A pending join is a background join of the generation that no phase in between waits for.\<close>

lemma pending_gen:
  assumes "k \<le> length ps" "same_generation ps i k" "background_join (ps ! i)"
    "\<And>j. i < j \<Longrightarrow> j < k \<Longrightarrow> \<not> waits_for (ps ! j) (ph_Job (ps ! i))"
  shows "(ph_Group (ps ! i), ph_Job (ps ! i)) \<in> pending (current_gen (take k ps))"
proof -
  obtain b where b: "b \<le> k" "current_gen (take k ps) = drop b (take k ps)" "\<And>i. b \<le> i \<and> i < k \<longleftrightarrow> same_generation ps i k"
    using current_gen_drop [OF assms(1)] by blast
  have i: "b \<le> i" "i < k" using b(3) assms(2) by blast+
  have nth: "drop b (take k ps) ! m = ps ! (b + m)" if "m < k - b" for m using that assms(1) by simp
  have len: "length (drop b (take k ps)) = k - b" using assms(1) by simp
  have "unwaited_at (ph_Group (ps ! i)) (ph_Job (ps ! i)) (drop b (take k ps)) (i - b)"
    unfolding unwaited_at_def using assms(3,4) i nth len by auto
  then show ?thesis unfolding b(2) pending_iff using i len by (intro exI [of _ "i - b"]) auto
qed

lemma pending_jobs: "(g, job) \<in> pending ps \<Longrightarrow> \<exists>p\<in>set ps. background_join p \<and> ph_Job p = job"
  by (auto simp: pending_iff unwaited_at_def)


subsection \<open>Facts of an accepted phase\<close>

lemma normalize_job: "ph_Action (normalize_phase lb i r) = ''topology'' \<or> ph_Job (normalize_phase lb i r) \<noteq> []"
  by (simp add: normalize_phase_def Let_def)

lemma on_error_form: "on_error_phase r = Inr p \<Longrightarrow> \<exists>e. p = r\<lparr>ph_OnError := e\<rparr>"
  unfolding on_error_phase_def Let_def by (auto simp: rbind_Inr_iff split: if_splits) (metis Phase.surjective Phase.update_convs(5))

lemma phase_fields_Inr:
  assumes "phase_fields version r = Inr q"
  shows "q = r\<lparr>ph_OnError := ph_OnError q\<rparr>" "1 \<le> ph_Repeat q" "ph_Jobs q \<noteq> [] \<Longrightarrow> ph_Action q \<in> {''wait-ready'', ''wait-jobs''}"
    "ph_Schedule q \<noteq> None \<Longrightarrow> ph_Action q = ''schedule''"
    "(ph_NodeIDs q \<noteq> None \<or> ph_PeerIDs q \<noteq> None) \<Longrightarrow> ph_Action q \<in> {''mesh-freeze'', ''topology'', ''schedule''}"
proof -
  let ?a = "ph_Action r"
  have "(\<exists>e. q = r\<lparr>ph_OnError := e\<rparr>) \<and> 1 \<le> ph_Repeat r \<and> \<not> (ph_Jobs r \<noteq> [] \<and> ?a \<noteq> ''wait-ready'' \<and> ?a \<noteq> ''wait-jobs'')
    \<and> \<not> (ph_Schedule r \<noteq> None \<and> ?a \<noteq> ''schedule'')
    \<and> \<not> ((ph_NodeIDs r \<noteq> None \<or> ph_PeerIDs r \<noteq> None) \<and> ?a \<noteq> ''mesh-freeze'' \<and> ?a \<noteq> ''topology'' \<and> ?a \<noteq> ''schedule'')"
  proof -
    obtain p where p: "on_error_phase r = Inr p"
        and jobs: "1 \<le> ph_Repeat r" "\<not> (ph_Jobs r \<noteq> [] \<and> ?a \<noteq> ''wait-ready'' \<and> ?a \<noteq> ''wait-jobs'')"
        and rest: "\<not> (ph_Schedule p \<noteq> None \<and> ?a \<noteq> ''schedule'')" "q = p"
          "\<not> ((ph_NodeIDs p \<noteq> None \<or> ph_PeerIDs p \<noteq> None) \<and> (version < 3 \<or> ?a \<noteq> ''mesh-freeze'' \<and> ?a \<noteq> ''topology'' \<and> ?a \<noteq> ''schedule''))"
      using assms unfolding phase_fields_def Let_def rbind_check_Inr_iff rbind_Inr_iff [of "on_error_phase r"] not_less Inl_Inr_False sum.inject by blast
    obtain e where "p = r\<lparr>ph_OnError := e\<rparr>" using on_error_form [OF p] by blast
    then show ?thesis using jobs rest by simp blast
  qed
  then obtain e where e: "q = r\<lparr>ph_OnError := e\<rparr>" "1 \<le> ph_Repeat r" "\<not> (ph_Jobs r \<noteq> [] \<and> ?a \<noteq> ''wait-ready'' \<and> ?a \<noteq> ''wait-jobs'')"
    "\<not> (ph_Schedule r \<noteq> None \<and> ?a \<noteq> ''schedule'')"
    "\<not> ((ph_NodeIDs r \<noteq> None \<or> ph_PeerIDs r \<noteq> None) \<and> ?a \<noteq> ''mesh-freeze'' \<and> ?a \<noteq> ''topology'' \<and> ?a \<noteq> ''schedule'')" by blast
  show "q = r\<lparr>ph_OnError := ph_OnError q\<rparr>" "1 \<le> ph_Repeat q" using e(1,2) by simp_all
  show "ph_Jobs q \<noteq> [] \<Longrightarrow> ph_Action q \<in> {''wait-ready'', ''wait-jobs''}" "ph_Schedule q \<noteq> None \<Longrightarrow> ph_Action q = ''schedule''"
    "(ph_NodeIDs q \<noteq> None \<or> ph_PeerIDs q \<noteq> None) \<Longrightarrow> ph_Action q \<in> {''mesh-freeze'', ''topology'', ''schedule''}"
    using e by auto
qed

lemma started_jobs_Inr: "started_jobs jobs v = Inr u \<longleftrightarrow> set jobs \<subseteq> set (vs_knownJobs v)"
  by (auto simp: started_jobs_def check_all_Inr)

lemma wait_phase_jobs:
  "wait_ready_phase q v = Inr r \<Longrightarrow> set (ph_Jobs q) \<subseteq> set (vs_knownJobs v)"
  "wait_ready_phase q v = Inr r \<Longrightarrow> ph_MinCount q = 0 \<Longrightarrow> firstUnwaitedBackgroundJoin (vs_backgroundJoins v) (ph_Group q) (ph_Jobs q) = []"
  "wait_jobs_phase q v = Inr r \<Longrightarrow> set (ph_Jobs q) \<subseteq> set (vs_knownJobs v)"
  unfolding wait_ready_phase_def wait_jobs_phase_def Let_def by (auto simp: rbind_Inr_iff started_jobs_Inr split: if_splits)

lemma sort_hd: "sort xs = y # ys \<Longrightarrow> y \<in> set xs"
  by (metis list.set_intros(1) set_sort)

lemma firstUnwaited_empty:
  assumes "firstUnwaitedBackgroundJoin m g waited = []" "(h, job) \<in> entries m" "g = [] \<or> g = h" "\<And>h job. (h, job) \<in> entries m \<Longrightarrow> job \<noteq> []"
  shows "job \<in> set waited"
proof (rule ccontr)
  assume "job \<notin> set waited"
  define cs where "cs = concat (map (\<lambda>(h, jobs). if g \<noteq> [] \<and> h \<noteq> g then [] else filter (\<lambda>job. job \<notin> set waited) jobs) m)"
  obtain js where js: "(h, js) \<in> set m" "job \<in> set js" using assms(2) by (auto simp: entries_def)
  then have "job \<in> set (case (h, js) of (h, jobs) \<Rightarrow> if g \<noteq> [] \<and> h \<noteq> g then [] else filter (\<lambda>job. job \<notin> set waited) jobs)"
    using assms(3) \<open>job \<notin> set waited\<close> by auto
  then have "job \<in> set cs" using js(1) unfolding cs_def set_concat set_map by blast
  then obtain y ys where y: "sort cs = y # ys" by (cases "sort cs") (auto dest: arg_cong [of _ _ set])
  then have "y \<in> set cs" by (rule sort_hd)
  then obtain h' where "(h', y) \<in> entries m" by (auto simp: cs_def entries_def split: if_splits)
  then show False using assms(1,4) y by (auto simp: firstUnwaitedBackgroundJoin_def cs_def [symmetric])
qed

lemma accepted_atE:
  assumes "accepted_at lb gm s ps p"
  obtains q v v' where "scope_rel ps v" "phase_action lb gm s q v = Inr (p, scope_after p v)" "phase_job p (scope_after p v) = Inr v'"
    "same_phase p q" "ph_Action p = ''topology'' \<or> ph_Job p \<noteq> []" "1 \<le> ph_Repeat p" "ph_Jobs p \<noteq> [] \<Longrightarrow> ph_Action p \<in> {''wait-ready'', ''wait-jobs''}"
proof -
  obtain i r q v v' where q: "scope_rel ps v" "phase_fields (sn_Version s) (normalize_phase lb i r) = Inr q"
      "phase_action lb gm s q v = Inr (p, scope_after p v)" "phase_job p (scope_after p v) = Inr v'"
    using assms unfolding accepted_at_def by blast
  note same = phase_action_scope [OF q(3), THEN conjunct1] and f = phase_fields_Inr [OF q(2)]
  have "ph_Action q = ph_Action (normalize_phase lb i r)" "ph_Job q = ph_Job (normalize_phase lb i r)" by (subst f(1), simp)+
  then have "ph_Action q = ''topology'' \<or> ph_Job q \<noteq> []" using normalize_job [of lb i r] by simp
  then show ?thesis using that [OF q(1,3,4) same] same f(2,3) by (simp add: same_phase_def)
qed

definition jobs_scoped :: "Phase list \<Rightarrow> nat \<Rightarrow> bool" where
  "jobs_scoped ps k \<longleftrightarrow>
     (\<forall>i. same_generation ps i k \<and> background (ps ! i) \<and> background (ps ! k) \<longrightarrow> ph_Job (ps ! i) \<noteq> ph_Job (ps ! k))
   \<and> (\<forall>job\<in>set (ph_Jobs (ps ! k)). \<exists>i. same_generation ps i k \<and> background (ps ! i) \<and> ph_Job (ps ! i) = job)
   \<and> (ph_Action (ps ! k) = ''wait-ready'' \<and> ph_MinCount (ps ! k) = 0 \<longrightarrow>
       (\<forall>i. same_generation ps i k \<and> background_join (ps ! i) \<and> (ph_Group (ps ! k) = [] \<or> ph_Group (ps ! k) = ph_Group (ps ! i))
         \<longrightarrow> (\<exists>j. i < j \<and> j \<le> k \<and> waits_for (ps ! j) (ph_Job (ps ! i)))))"

lemma accepted_known:
  assumes "accepted_at lb gm s (take k ps) (ps ! k)" "k \<le> length ps"
  shows "background (ps ! k) \<Longrightarrow> same_generation ps i k \<Longrightarrow> background (ps ! i) \<Longrightarrow> ph_Job (ps ! i) \<noteq> ph_Job (ps ! k)"
    and "job \<in> set (ph_Jobs (ps ! k)) \<Longrightarrow> \<exists>i. same_generation ps i k \<and> background (ps ! i) \<and> ph_Job (ps ! i) = job"
proof -
  let ?p = "ps ! k"
  obtain q v v' where q: "scope_rel (take k ps) v" "phase_action lb gm s q v = Inr (?p, scope_after ?p v)" "phase_job ?p (scope_after ?p v) = Inr v'"
    "same_phase ?p q" "ph_Jobs ?p \<noteq> [] \<Longrightarrow> ph_Action ?p \<in> {''wait-ready'', ''wait-jobs''}" using assms(1) by (rule accepted_atE) metis
  have known: "job \<in> set (vs_knownJobs v) \<longleftrightarrow> (\<exists>i. same_generation ps i k \<and> background (ps ! i) \<and> ph_Job (ps ! i) = job)" for job
    using q(1) in_current_gen [OF assms(2)] by (auto simp: scope_rel_def image_iff)
  show "background ?p \<Longrightarrow> same_generation ps i k \<Longrightarrow> background (ps ! i) \<Longrightarrow> ph_Job (ps ! i) \<noteq> ph_Job ?p"
  proof -
    assume bg: "background ?p" and i: "same_generation ps i k" "background (ps ! i)"
    have "in_generation ?p" using phase_job_scope(5) [OF q(3) bg] by (auto simp: in_generation_def)
    then have "ph_Job ?p \<notin> set (vs_knownJobs v)" using phase_job_scope(4) [OF q(3) bg] by (simp add: scope_after_jobs)
    then show ?thesis using known i by metis
  qed
  show "job \<in> set (ph_Jobs ?p) \<Longrightarrow> \<exists>i. same_generation ps i k \<and> background (ps ! i) \<and> ph_Job (ps ! i) = job"
  proof -
    assume job: "job \<in> set (ph_Jobs ?p)"
    then have "ph_Action ?p \<in> {''wait-ready'', ''wait-jobs''}" by (intro q(5)) auto
    then have act: "ph_Action q = ''wait-ready'' \<or> ph_Action q = ''wait-jobs''" "ph_Jobs q = ph_Jobs ?p" using q(4) by (auto simp: same_phase_def)
    then have "set (ph_Jobs q) \<subseteq> set (vs_knownJobs v)"
      using q(2) wait_phase_jobs(1,3) [of q v "(?p, scope_after ?p v)"] phase_action_switch(6,7) [of q lb gm s v] by fastforce
    then show ?thesis using known job act(2) by auto
  qed
qed

lemma accepted_wait:
  assumes "\<And>i. i < length ps \<Longrightarrow> accepted_at lb gm s (take i ps) (ps ! i)" "k < length ps" "ph_Action (ps ! k) = ''wait-ready''" "ph_MinCount (ps ! k) = 0"
    "same_generation ps i k" "background_join (ps ! i)" "ph_Group (ps ! k) = [] \<or> ph_Group (ps ! k) = ph_Group (ps ! i)"
  shows "\<exists>j. i < j \<and> j \<le> k \<and> waits_for (ps ! j) (ph_Job (ps ! i))"
proof (cases "\<exists>j. i < j \<and> j < k \<and> waits_for (ps ! j) (ph_Job (ps ! i))")
  case False
  let ?p = "ps ! k" and ?x = "(ph_Group (ps ! i), ph_Job (ps ! i))"
  have x: "?x \<in> pending (current_gen (take k ps))" using pending_gen [OF _ assms(5,6)] assms(2) False by auto
  obtain q v where q: "scope_rel (take k ps) v" "phase_action lb gm s q v = Inr (?p, scope_after ?p v)" "same_phase ?p q"
    using assms(1) [OF assms(2)] by (rule accepted_atE) metis
  have eq: "entries (vs_backgroundJoins v) = pending (current_gen (take k ps))" using q(1) by (simp add: scope_rel_def)
  have "wait_ready_phase q v = Inr (?p, scope_after ?p v)" using q(2,3) assms(3) phase_action_switch(6) [of q] by (simp add: same_phase_def)
  then have first: "firstUnwaitedBackgroundJoin (vs_backgroundJoins v) (ph_Group ?p) (ph_Jobs ?p) = []"
    using wait_phase_jobs(2) [of q v] q(3) assms(4) by (auto simp: same_phase_def)
  have named: "job \<noteq> []" if h: "(h, job) \<in> entries (vs_backgroundJoins v)" for h job
  proof -
    obtain p where p: "p \<in> set (current_gen (take k ps))" "background_join p" "ph_Job p = job"
      using pending_jobs [of h job] h unfolding eq by blast
    then obtain m where m: "same_generation ps m k" "ps ! m = p" using in_current_gen [OF less_imp_le [OF assms(2)]] by blast
    then have "m < length ps" using assms(2) by (auto simp: same_generation_def)
    from assms(1) [OF this] have "ph_Action p = ''topology'' \<or> ph_Job p \<noteq> []" unfolding m(2) by (rule accepted_atE) blast
    then show ?thesis using p(2,3) by (auto simp: background_join_def)
  qed
  have "ph_Job (ps ! i) \<in> set (ph_Jobs ?p)" by (rule firstUnwaited_empty [OF first _ assms(7) named]) (use x eq in simp_all)
  then show ?thesis using assms(3,5) by (intro exI [of _ k]) (auto simp: waits_for_def same_generation_def)
qed auto

lemma accepted_jobs_scoped:
  assumes "\<And>i. i < length ps \<Longrightarrow> accepted_at lb gm s (take i ps) (ps ! i)" "k < length ps"
  shows "jobs_scoped ps k"
  unfolding jobs_scoped_def using accepted_known [OF assms(1) [OF assms(2)]] accepted_wait [OF assms(1) assms(2)] assms(2) by auto

end
