(* ===== verification/Scenario_Schedules.thy ===== *)
theory Scenario_Schedules
  imports Scenario_Jobs
begin

text \<open>
  \<open>validateProfileSchedules\<close>: the loop visits every phase once and collects the joins of a generation when it enters it. The
  lemmas show that it checks every schedule against every join of its generation, earlier or later, and changes nothing of
  a phase but the mark that its network may change.
\<close>

subsection \<open>Generations\<close>

definition generation_mates :: "Phase list \<Rightarrow> nat \<Rightarrow> nat \<Rightarrow> bool" where
  "generation_mates ps j k \<longleftrightarrow> j < length ps \<and> k < length ps \<and> (\<forall>m. min j k \<le> m \<longrightarrow> m \<le> max j k \<longrightarrow> in_generation (ps ! m))"

lemma generation_end_facts:
  assumes "b \<le> length ps"
  shows "b \<le> generation_end ps b" "generation_end ps b \<le> length ps"
    "\<And>m. b \<le> m \<Longrightarrow> m < generation_end ps b \<Longrightarrow> in_generation (ps ! m)"
    "generation_end ps b < length ps \<Longrightarrow> \<not> in_generation (ps ! generation_end ps b)"
proof -
  let ?t = "takeWhile in_generation (drop b ps)"
  have len: "length ?t \<le> length ps - b" using length_takeWhile_le [of in_generation "drop b ps"] by simp
  show "b \<le> generation_end ps b" "generation_end ps b \<le> length ps" using len assms by (simp_all add: generation_end_def)
  show "in_generation (ps ! m)" if "b \<le> m" "m < generation_end ps b" for m
  proof -
    have "m - b < length ?t" using that by (simp add: generation_end_def)
    then have "?t ! (m - b) \<in> set ?t" "?t ! (m - b) = drop b ps ! (m - b)" by (rule nth_mem, simp add: takeWhile_nth)
    then show ?thesis using that assms by (auto dest: set_takeWhileD)
  qed
  show "\<not> in_generation (ps ! generation_end ps b)" if "generation_end ps b < length ps"
    using nth_length_takeWhile [of in_generation "drop b ps"] that assms by (simp add: generation_end_def)
qed

definition gen_start :: "Phase list \<Rightarrow> nat \<Rightarrow> bool" where
  "gen_start ps b \<longleftrightarrow> b = 0 \<or> b \<le> length ps \<and> \<not> in_generation (ps ! (b - 1))"

lemma generation_members:
  assumes "gen_start ps b" "b \<le> length ps" "b \<le> k" "k < generation_end ps b"
  shows "generation_mates ps j k \<longleftrightarrow> b \<le> j \<and> j < generation_end ps b"
proof
  note e = generation_end_facts [OF assms(2)]
  assume m: "generation_mates ps j k"
  show "b \<le> j \<and> j < generation_end ps b"
  proof (rule ccontr)
    assume "\<not> (b \<le> j \<and> j < generation_end ps b)"
    then consider "j < b" | "generation_end ps b \<le> j" by linarith
    then show False
    proof cases
      case 1
      then have "\<not> in_generation (ps ! (b - 1))" "min j k \<le> b - 1" "b - 1 \<le> max j k" using assms(1,3) by (auto simp: gen_start_def)
      then show False using m by (auto simp: generation_mates_def)
    next
      case 2
      then have "generation_end ps b < length ps" "min j k \<le> generation_end ps b" "generation_end ps b \<le> max j k"
        using m assms(4) by (auto simp: generation_mates_def)
      then show False using e(4) m by (auto simp: generation_mates_def)
    qed
  qed
next
  note e = generation_end_facts [OF assms(2)]
  assume "b \<le> j \<and> j < generation_end ps b"
  then show "generation_mates ps j k" using assms(3,4) e by (auto simp: generation_mates_def min_def max_def split: if_splits)
qed

subsection \<open>Marks\<close>

definition remarked :: "Phase \<Rightarrow> Phase \<Rightarrow> bool" where
  "remarked p q \<longleftrightarrow> (\<exists>b. q = p\<lparr>ph_NetworkMutable := b\<rparr>) \<and> (ph_NetworkMutable p \<longrightarrow> ph_NetworkMutable q)"

lemma remarked_refl [simp]: "remarked p p"
  unfolding remarked_def by (metis Phase.surjective Phase.update_convs(30))

lemma remarked_trans: "remarked p q \<Longrightarrow> remarked q r \<Longrightarrow> remarked p r"
  by (auto simp: remarked_def)

lemma remarked_same:
  assumes "remarked p q"
  shows "ph_Action q = ph_Action p" "ph_Group q = ph_Group p" "ph_Profile q = ph_Profile p" "ph_NodeType q = ph_NodeType p" "ph_Role q = ph_Role p"
    "ph_Schedule q = ph_Schedule p" "ph_Node q = ph_Node p" "ph_NodeIDs q = ph_NodeIDs p" "ph_PeerIDs q = ph_PeerIDs p" "ph_Job q = ph_Job p"
    "ph_Jobs q = ph_Jobs p" "ph_Await q = ph_Await p" "ph_MinCount q = ph_MinCount p" "ph_Count q = ph_Count p"
  using assms by (auto simp: remarked_def)

lemma remarked_preds:
  assumes "remarked p q"
  shows "in_generation q = in_generation p" "explicit_ids q = explicit_ids p" "background q = background p" "background_join q = background_join p"
    "waits_for q job = waits_for p job"
  using remarked_same [OF assms] by (simp_all add: in_generation_def explicit_ids_def background_def background_join_def waits_for_def ShouldAwait_def)

abbreviation marks :: "Phase list \<Rightarrow> Phase list \<Rightarrow> bool" where
  "marks ps qs \<equiv> list_all2 remarked ps qs"

lemma marks_refl [simp]: "marks ps ps"
  by (simp add: list.rel_refl)

lemma marks_trans: "marks ps qs \<Longrightarrow> marks qs rs \<Longrightarrow> marks ps rs"
  by (rule list_all2_trans [of remarked remarked remarked]) (auto intro: remarked_trans)

lemma marks_nth: "marks ps qs \<Longrightarrow> i < length ps \<Longrightarrow> remarked (ps ! i) (qs ! i)"
  by (rule list_all2_nthD)

lemma marks_mates: "marks ps qs \<Longrightarrow> generation_mates qs j k = generation_mates ps j k"
  using list_all2_lengthD [of remarked ps qs] remarked_preds(1) [OF marks_nth [of ps qs]] by (fastforce simp: generation_mates_def)

subsection \<open>One schedule\<close>

definition matches :: "Phase \<Rightarrow> Phase \<Rightarrow> bool" where
  "matches schedule join \<longleftrightarrow> MatchesProfile schedule (ph_Group join) (ph_Profile join) (ph_NodeType join) (ph_Role join)"

definition apply_change :: "golib \<Rightarrow> gomath \<Rightarrow> string \<Rightarrow> ProfileChange \<Rightarrow> NodeConfig \<Rightarrow> NodeConfig result" where
  "apply_change lb gm role change c = rbind (patch_Apply lb gm (pc_Set change) c) (\<lambda>c. rbind (ValidateAttackRole c role) (\<lambda>_. Inr c))"

text \<open>The changes apply one after the other to the configuration of the join, whose network is marked when one changes it.\<close>

definition scheduled :: "golib \<Rightarrow> gomath \<Rightarrow> Phase \<Rightarrow> Phase \<Rightarrow> bool" where
  "scheduled lb gm schedule join \<longleftrightarrow> (\<exists>sc. ph_Schedule schedule = Some sc
     \<and> (\<not> explicit_ids schedule \<longrightarrow> (\<exists>c. foldR (apply_change lb gm (ph_Role join)) (sc_Changes sc) (ph_Node join) = Inr c))
     \<and> (list_ex (\<lambda>change. rp_Network (pc_Set change) \<noteq> None) (sc_Changes sc) \<longrightarrow> ph_NetworkMutable join))"

lemma scheduled_remarked: "remarked p q \<Longrightarrow> remarked sc sc' \<Longrightarrow> scheduled lb gm sc p \<Longrightarrow> scheduled lb gm sc' q"
  using remarked_same [of p q] remarked_same [of sc sc'] remarked_preds(2) [of sc sc'] by (auto simp: scheduled_def remarked_def)

lemma matches_remarked: "remarked p q \<Longrightarrow> remarked sc sc' \<Longrightarrow> matches sc' q = matches sc p"
  using remarked_same [of p q] remarked_same [of sc sc'] by (simp add: matches_def MatchesProfile_def)

lemma changes_fold:
  assumes "foldR (change_body lb gm schedule role) changes (c, m) = Inr (c', m')"
  shows "m' = (m \<or> list_ex (\<lambda>change. rp_Network (pc_Set change) \<noteq> None) changes)
    \<and> (\<not> explicit_ids schedule \<longrightarrow> foldR (apply_change lb gm role) changes c = Inr c')"
  using assms
proof (induction changes arbitrary: c m)
  case (Cons x changes)
  obtain c1 where c1: "foldR (change_body lb gm schedule role) changes (c1, m \<or> rp_Network (pc_Set x) \<noteq> None) = Inr (c', m')"
    "\<not> explicit_ids schedule \<longrightarrow> apply_change lb gm role x c = Inr c1"
  proof -
    let ?n = "m \<or> rp_Network (pc_Set x) \<noteq> None"
    have "change_body lb gm schedule role x (c, m) = (if explicit_ids schedule then Inr (c, ?n) else rbind (apply_change lb gm role x c) (\<lambda>c. Inr (c, ?n)))"
      by (cases "patch_Apply lb gm (pc_Set x) c") (auto simp: change_body_def apply_change_def rbind_def split: sum.split)
    then show ?thesis using Cons.prems that by (cases "explicit_ids schedule") (auto simp: rbind_Inr_iff)
  qed
  show ?case using Cons.IH [OF c1(1)] c1(2) by auto
qed auto

lemma schedule_join_step:
  assumes "schedule_join lb gm schedule j (phases, matched) = Inr (phases', matched')" "j < length phases"
  shows "marks phases phases'" "matched' = (matched \<or> matches schedule (phases ! j))" "matches schedule (phases ! j) \<Longrightarrow> scheduled lb gm schedule (phases' ! j)"
proof -
  let ?join = "phases ! j"
  have "marks phases phases' \<and> matched' = (matched \<or> matches schedule ?join) \<and> (matches schedule ?join \<longrightarrow> scheduled lb gm schedule (phases' ! j))"
  proof (cases "matches schedule ?join")
    case False
    then show ?thesis using assms(1) by (auto simp: schedule_join_def matches_def Let_def)
  next
    case True
    then obtain sc c m where sc: "ph_Schedule schedule = Some sc"
        "foldR (change_body lb gm schedule (ph_Role ?join)) (sc_Changes sc) (ph_Node ?join, ph_NetworkMutable ?join) = Inr (c, m)"
        "phases' = phases[j := ?join\<lparr>ph_NetworkMutable := m\<rparr>]" "matched'"
      using assms(1) by (cases "ph_Schedule schedule") (auto simp: schedule_join_def matches_def Let_def rbind_Inr_iff)
    note f = changes_fold [OF sc(2)]
    have "remarked ?join (?join\<lparr>ph_NetworkMutable := m\<rparr>)" using f by (auto simp: remarked_def)
    then have "marks phases phases'" unfolding sc(3) by (metis list_all2_update_cong list_update_id marks_refl)
    moreover have "scheduled lb gm schedule (phases' ! j)" using sc f assms(2) by (simp add: scheduled_def)
    ultimately show ?thesis using True sc(4) by simp
  qed
  then show "marks phases phases'" "matched' = (matched \<or> matches schedule ?join)" "matches schedule ?join \<Longrightarrow> scheduled lb gm schedule (phases' ! j)" by auto
qed

lemma schedule_joins:
  assumes "foldR (schedule_join lb gm schedule) joins (phases, matched) = Inr (phases', matched')" "\<forall>j\<in>set joins. j < length phases"
  shows "marks phases phases' \<and> matched' = (matched \<or> (\<exists>j\<in>set joins. matches schedule (phases ! j)))
    \<and> (\<forall>j\<in>set joins. matches schedule (phases ! j) \<longrightarrow> scheduled lb gm schedule (phases' ! j))"
  using assms
proof (induction joins arbitrary: phases matched)
  case (Cons j joins)
  then obtain p1 m1 where step: "schedule_join lb gm schedule j (phases, matched) = Inr (p1, m1)"
      "foldR (schedule_join lb gm schedule) joins (p1, m1) = Inr (phases', matched')"
    by (auto simp: rbind_Inr_iff)
  have j: "j < length phases" using Cons.prems(2) by simp
  note s = schedule_join_step [OF step(1) j]
  have len: "length p1 = length phases" using list_all2_lengthD [OF s(1)] by simp
  have IH: "marks p1 phases' \<and> matched' = (m1 \<or> (\<exists>j\<in>set joins. matches schedule (p1 ! j)))
      \<and> (\<forall>j\<in>set joins. matches schedule (p1 ! j) \<longrightarrow> scheduled lb gm schedule (phases' ! j))"
    using Cons.IH [OF step(2)] Cons.prems(2) len by simp
  have same: "matches schedule (p1 ! i) = matches schedule (phases ! i)" if "i < length phases" for i
    using matches_remarked [OF marks_nth [OF s(1) that] remarked_refl] .
  have "scheduled lb gm schedule (phases' ! j)" if "matches schedule (phases ! j)"
    by (rule scheduled_remarked [OF marks_nth [of p1 phases' j] remarked_refl]) (use IH len j s(3) that in auto)
  then show ?case using IH s(2) same Cons.prems(2) marks_trans [OF s(1)] by auto
qed auto

subsection \<open>All schedules\<close>

definition schedule_sound :: "golib \<Rightarrow> gomath \<Rightarrow> Phase list \<Rightarrow> nat \<Rightarrow> bool" where
  "schedule_sound lb gm ps k \<longleftrightarrow>
     (\<forall>j. generation_mates ps j k \<and> ph_Action (ps ! j) = ''join'' \<and> matches (ps ! k) (ps ! j) \<longrightarrow> scheduled lb gm (ps ! k) (ps ! j))
   \<and> (\<not> explicit_ids (ps ! k) \<longrightarrow> (\<exists>j. generation_mates ps j k \<and> ph_Action (ps ! j) = ''join'' \<and> matches (ps ! k) (ps ! j)))"

lemma schedule_sound_marks:
  assumes "marks ps qs" "k < length ps" "schedule_sound lb gm ps k"
  shows "schedule_sound lb gm qs k"
proof -
  note k = marks_nth [OF assms(1,2)]
  have j: "ph_Action (qs ! j) = ph_Action (ps ! j) \<and> matches (qs ! k) (qs ! j) = matches (ps ! k) (ps ! j)
      \<and> (scheduled lb gm (ps ! k) (ps ! j) \<longrightarrow> scheduled lb gm (qs ! k) (qs ! j))" if "generation_mates ps j k" for j
    using remarked_same(1) [OF marks_nth [OF assms(1)]] matches_remarked [OF marks_nth [OF assms(1)] k] scheduled_remarked [OF marks_nth [OF assms(1)] k] that
    by (auto simp: generation_mates_def)
  show ?thesis using assms(3) j marks_mates [OF assms(1)] remarked_preds(2) [OF k] unfolding schedule_sound_def by metis
qed

text \<open>The joins at hand are those of the generation that starts at \<open>b\<close>, or a generation starts at the index.\<close>

definition loop_state :: "Phase list \<Rightarrow> nat \<Rightarrow> nat list \<Rightarrow> nat \<Rightarrow> bool" where
  "loop_state ps i joins gend \<longleftrightarrow>
     gend \<le> i \<and> (gen_start ps i \<or> i \<ge> length ps \<or> \<not> in_generation (ps ! i))
   \<or> i < gend \<and> (\<exists>b\<le>i. gen_start ps b \<and> gend = generation_end ps b \<and> joins = generation_joins ps b)"

lemma generation_marks:
  assumes "marks ps qs" "b \<le> length ps"
  shows "generation_end qs b = generation_end ps b" "generation_joins qs b = generation_joins ps b" "gen_start qs b = gen_start ps b"
proof -
  have len: "length qs = length ps" using list_all2_lengthD [OF assms(1)] by simp
  have "list_all2 remarked (drop b ps) (drop b qs)" using assms(1) by (rule list_all2_dropI)
  then have "length (takeWhile in_generation (drop b ps)) = length (takeWhile in_generation (drop b qs))"
    by (induction rule: list_all2_induct) (auto simp: remarked_preds(1))
  then show e: "generation_end qs b = generation_end ps b" by (simp add: generation_end_def)
  have "ph_Action (qs ! j) = ph_Action (ps ! j)" if "j < generation_end ps b" for j
    using remarked_same(1) [OF marks_nth [OF assms(1)]] generation_end_facts(2) [OF assms(2)] that by simp
  then show "generation_joins qs b = generation_joins ps b" unfolding generation_joins_def e by (intro filter_cong) auto
  have "in_generation (qs ! (b - 1)) = in_generation (ps ! (b - 1))" if "b \<noteq> 0"
    using remarked_preds(1) [OF marks_nth [OF assms(1), of "b - 1"]] assms(2) that by simp
  then show "gen_start qs b = gen_start ps b" using len by (auto simp: gen_start_def)
qed

lemma next_state:
  assumes "b \<le> i" "i < generation_end ps b" "gen_start ps b" "b \<le> length ps"
  shows "loop_state ps (Suc i) (generation_joins ps b) (generation_end ps b)"
proof (cases "Suc i < generation_end ps b")
  case True
  then show ?thesis using assms unfolding loop_state_def by (metis le_SucI)
next
  case False
  then have "generation_end ps b = Suc i" using assms(2) by simp
  moreover have "Suc i \<ge> length ps \<or> \<not> in_generation (ps ! Suc i)" using generation_end_facts(4) [OF assms(4)] calculation by auto
  ultimately show ?thesis by (auto simp: loop_state_def)
qed

lemma loop_generation:
  assumes "loop_state ps i joins gend" "i < length ps" "in_generation (ps ! i)"
  obtains b where "b \<le> i" "i < generation_end ps b" "gen_start ps b"
    "(if i \<ge> gend then (generation_joins ps i, generation_end ps i) else (joins, gend)) = (generation_joins ps b, generation_end ps b)"
proof (cases "i \<ge> gend")
  case True
  then have "gen_start ps i" using assms by (auto simp: loop_state_def)
  moreover have "i < generation_end ps i" using generation_end_facts(1,4) [of i ps] assms(2,3) by (metis le_neq_implies_less less_imp_le)
  ultimately show ?thesis using True by (intro that [of i]) auto
next
  case False
  then obtain b where "b \<le> i" "gen_start ps b" "gend = generation_end ps b" "joins = generation_joins ps b" using assms(1) by (auto simp: loop_state_def)
  then show ?thesis using False by (intro that [of b]) auto
qed

lemma schedule_body_step:
  assumes "schedule_body lb gm i (ps, joins, gend) = Inr (ps', joins', gend')" "loop_state ps i joins gend" "i < length ps"
  shows "marks ps ps' \<and> loop_state ps' (Suc i) joins' gend' \<and> (ph_Action (ps ! i) = ''schedule'' \<longrightarrow> schedule_sound lb gm ps' i)"
proof (cases "in_generation (ps ! i)")
  case False
  then have "ph_Action (ps ! i) \<noteq> ''schedule''" by (auto simp: in_generation_def)
  moreover have "gend \<le> i"
  proof (rule ccontr)
    assume "\<not> gend \<le> i"
    then obtain b where "b \<le> i" "i < generation_end ps b" using assms(2) by (auto simp: loop_state_def)
    then show False using generation_end_facts(3) [of b ps i] False assms(3) by simp
  qed
  moreover have "generation_end ps i = i" using False assms(3) by (simp add: generation_end_def Cons_nth_drop_Suc [symmetric])
  ultimately have "ps' = ps" "gend' = i" using assms(1) by (auto simp: schedule_body_def Let_def)
  then show ?thesis using False assms(3) \<open>ph_Action (ps ! i) \<noteq> ''schedule''\<close> by (auto simp: loop_state_def gen_start_def)
next
  case True
  obtain b where b: "b \<le> i" "i < generation_end ps b" "gen_start ps b"
      and now: "(if i \<ge> gend then (generation_joins ps i, generation_end ps i) else (joins, gend)) = (generation_joins ps b, generation_end ps b)"
    using loop_generation [OF assms(2,3) True] by blast
  have bl: "b \<le> length ps" using b(1) assms(3) by simp
  note nx = next_state [OF b(1,2,3) bl]
  show ?thesis
  proof (cases "ph_Action (ps ! i) = ''schedule''")
    case False
    then have "ps' = ps" "joins' = generation_joins ps b" "gend' = generation_end ps b"
      using assms(1) unfolding schedule_body_def prod.case now by (auto simp: Let_def)
    then show ?thesis using nx False by simp
  next
    case sched: True
    then obtain m where m: "foldR (schedule_join lb gm (ps ! i)) (generation_joins ps b) (ps, False) = Inr (ps', m)"
        "m \<or> explicit_ids (ps ! i)" "joins' = generation_joins ps b" "gend' = generation_end ps b"
      using assms(1) unfolding schedule_body_def prod.case now by (auto simp: Let_def rbind_Inr_iff)
    have mem: "j \<in> set (generation_joins ps b) \<longleftrightarrow> generation_mates ps j i \<and> ph_Action (ps ! j) = ''join''" for j
      using generation_members [OF b(3) bl b(1,2), of j] by (auto simp: generation_joins_def)
    have J: "marks ps ps' \<and> m = (\<exists>j\<in>set (generation_joins ps b). matches (ps ! i) (ps ! j))
        \<and> (\<forall>j\<in>set (generation_joins ps b). matches (ps ! i) (ps ! j) \<longrightarrow> scheduled lb gm (ps ! i) (ps' ! j))"
      using schedule_joins [OF m(1)] mem by (auto simp: generation_mates_def)
    then have marks: "marks ps ps'" by blast
    note k = marks_nth [OF marks assms(3)]
    have j: "ph_Action (ps' ! j) = ph_Action (ps ! j) \<and> matches (ps' ! i) (ps' ! j) = matches (ps ! i) (ps ! j)
        \<and> (scheduled lb gm (ps ! i) (ps' ! j) \<longrightarrow> scheduled lb gm (ps' ! i) (ps' ! j))" if "generation_mates ps j i" for j
      using remarked_same(1) [OF marks_nth [OF marks]] matches_remarked [OF marks_nth [OF marks] k] scheduled_remarked [OF remarked_refl k] that
      by (auto simp: generation_mates_def)
    have "schedule_sound lb gm ps' i"
      unfolding schedule_sound_def using J j mem marks_mates [OF marks] remarked_preds(2) [OF k] m(2) by metis
    moreover have "loop_state ps' (Suc i) joins' gend'" unfolding m(3,4) generation_marks(1,2) [OF marks bl, symmetric]
      by (rule next_state) (use b bl generation_marks [OF marks bl] list_all2_lengthD [OF marks] in auto)
    ultimately show ?thesis using marks by blast
  qed
qed

lemma schedules_checked:
  assumes "validateProfileSchedules lb gm ps = Inr qs"
  shows "marks ps qs" "\<And>k. k < length qs \<Longrightarrow> ph_Action (qs ! k) = ''schedule'' \<Longrightarrow> schedule_sound lb gm qs k"
proof -
  obtain joins gend where fold: "foldR (schedule_body lb gm) [0..<length ps] (ps, [], 0) = Inr (qs, joins, gend)"
    using assms by (auto simp: validateProfileSchedules_def rbind_Inr_iff)
  define I where "I = (\<lambda>(is :: nat list) (rs, js, g). marks ps rs \<and> loop_state rs (length is) js g
    \<and> (\<forall>k < length is. ph_Action (rs ! k) = ''schedule'' \<longrightarrow> schedule_sound lb gm rs k))"
  have "I [0..<length ps] (qs, joins, gend)"
  proof (rule foldR_invariant [OF fold])
    show "I [] (ps, [], 0)" by (simp add: I_def loop_state_def gen_start_def)
    fix ys x zs t t'
    assume split: "[0..<length ps] = ys @ x # zs" and I: "I ys t" and step: "schedule_body lb gm x t = Inr t'"
    obtain rs js g rs' js' g' where t: "t = (rs, js, g)" "t' = (rs', js', g')" by (metis prod_cases3)
    have len: "length ys < length ps" using arg_cong [OF split, of length] by simp
    have x: "x = length ys" "length ys < length ps" using arg_cong [OF split, of "\<lambda>l. l ! length ys"] len by simp_all
    have rs: "marks ps rs" "length rs = length ps" using I list_all2_lengthD [of remarked ps rs] by (auto simp: I_def t)
    note st = schedule_body_step [of lb gm "length ys" rs js g rs' js' g']
    have new: "marks rs rs'" "loop_state rs' (Suc (length ys)) js' g'" "ph_Action (rs ! length ys) = ''schedule'' \<longrightarrow> schedule_sound lb gm rs' (length ys)"
      using st step I x rs(2) by (auto simp: I_def t)
    have "schedule_sound lb gm rs' k" if "k < Suc (length ys)" "ph_Action (rs' ! k) = ''schedule''" for k
    proof (cases "k = length ys")
      case True
      then show ?thesis using new(3) that(2) remarked_same(1) [OF marks_nth [OF new(1)]] x rs(2) by auto
    next
      case False
      then have k: "k < length ys" "k < length rs" using that(1) x rs(2) by auto
      then have "schedule_sound lb gm rs k" using I that(2) remarked_same(1) [OF marks_nth [OF new(1) k(2)]] by (auto simp: I_def t)
      then show ?thesis by (rule schedule_sound_marks [OF new(1) k(2)])
    qed
    then show "I (ys @ [x]) t'" using marks_trans [OF rs(1) new(1)] new(2) by (auto simp: I_def t)
  qed
  then show "marks ps qs" "\<And>k. k < length qs \<Longrightarrow> ph_Action (qs ! k) = ''schedule'' \<Longrightarrow> schedule_sound lb gm qs k"
    using list_all2_lengthD [of remarked ps qs] by (auto simp: I_def)
qed

end
