(* ===== verification/Scenario_Correct.thy ===== *)
theory Scenario_Correct
  imports Scenario_Schedules Profile_Update_Correct Topology_Correct
begin

text \<open>
  What acceptance of a scenario promises to the runner: jobs are started before they are waited for, joins carry a complete
  and accepted node configuration, schedules apply to every join they select, and validation itself never panics.
\<close>

subsection \<open>Joins and topologies\<close>

lemma resolve_facts:
  assumes "resolveNodeConfig lb gm s q = Inr p"
  shows "node_Validate lb gm (ph_Node p) = Inr () \<and> ph_NodeType p = nd_Type (ph_Node p) \<and> ph_Role p = ph_Role q \<and> ph_Profile p \<noteq> []"
proof -
  obtain base where base: "node_Validate lb gm base = Inr ()" "nd_Type base \<noteq> []"
      "p = q\<lparr>ph_Node := base, ph_NodeType := nd_Type base, ph_Profile := default_str (nd_Type base) (ph_Profile q)\<rparr>"
  proof -
    obtain b c where "c = node_WithDefaults lb b" "node_Validate lb gm c = Inr ()"
      "p = q\<lparr>ph_Node := c, ph_NodeType := nd_Type c, ph_Profile := default_str (nd_Type c) (ph_Profile q)\<rparr>"
      using assms unfolding resolveNodeConfig_def Let_def by (auto simp: rbind_Inr_iff split: prod.splits)
    moreover have "nd_Type (node_WithDefaults lb b) \<noteq> []" for b by (simp add: node_WithDefaults_def Let_def)
    ultimately show ?thesis using that by blast
  qed
  then show ?thesis by simp
qed

definition join_resolved :: "golib \<Rightarrow> gomath \<Rightarrow> Phase \<Rightarrow> bool" where
  "join_resolved lb gm p \<longleftrightarrow> ph_Group p \<noteq> [] \<and> 1 \<le> ph_Count p \<and> ph_Role p \<in> {''boot'', ''worker''} \<and> ph_Profile p \<noteq> []
     \<and> node_Validate lb gm (ph_Node p) = Inr () \<and> ph_NodeType p = nd_Type (ph_Node p) \<and> (HasActiveAttacks (ph_Node p) \<longrightarrow> ph_Role p = ''worker'')"

lemma join_phase_resolved:
  assumes "join_phase lb gm s q v = Inr (p, v')"
  shows "join_resolved lb gm p"
proof -
  define r where "r = q\<lparr>ph_Placement := default_str ''balanced'' (ph_Placement q), ph_Role := default_str ''worker'' (ph_Role q)\<rparr>"
  have r: "\<not> (ph_Group q = [] \<or> ph_Count q < 1)" "\<not> (ph_Role r \<noteq> ''boot'' \<and> ph_Role r \<noteq> ''worker'')" "resolveNodeConfig lb gm s r = Inr p"
      "ValidateAttackRole (ph_Node p) (ph_Role p) = Inr ()"
    using assms unfolding join_phase_def Let_def by (simp_all add: rbind_Inr_iff r_def)
  have "\<not> (HasActiveAttacks (ph_Node p) \<and> ph_Role p \<noteq> ''worker'')" using r(4) by (simp add: ValidateAttackRole_def)
  moreover have "ph_Group p = ph_Group q" "ph_Count p = ph_Count q" using action_parts(5) [OF r(3)] by (simp_all add: same_phase_def r_def)
  ultimately show ?thesis using resolve_facts [OF r(3)] r(1,2) unfolding join_resolved_def by auto
qed

definition topology_selects :: "Phase \<Rightarrow> Phase \<Rightarrow> bool" where
  "topology_selects p joined \<longleftrightarrow> (ph_Role p = [] \<or> ph_Role joined = ph_Role p) \<and> (ph_NodeType p = [] \<or> ph_NodeType joined = ph_NodeType p)"

lemma topology_joins:
  assumes "foldR (topology_join p) joins m = Inr m'"
  shows "m' = (m \<or> list_ex (topology_selects p) joins) \<and> (\<forall>j\<in>set joins. topology_selects p j \<longrightarrow> gs_MeshFreeze (nd_GossipSub (ph_Node j)) = Some True)"
  using assms
proof (induction joins arbitrary: m)
  case (Cons j joins)
  then obtain m1 where "topology_join p j m = Inr m1" "foldR (topology_join p) joins m1 = Inr m'" by (auto simp: rbind_Inr_iff)
  moreover have "m1 = (m \<or> topology_selects p j) \<and> (topology_selects p j \<longrightarrow> gs_MeshFreeze (nd_GossipSub (ph_Node j)) = Some True)"
    using calculation(1) by (auto simp: topology_join_def topology_selects_def rbind_Inr_iff split: if_splits)
  ultimately show ?case using Cons.IH [of m1] by auto
qed simp

definition topology_ready :: "Phase list \<Rightarrow> nat \<Rightarrow> bool" where
  "topology_ready ps k \<longleftrightarrow>
     (\<exists>i. same_generation ps i k \<and> ph_Action (ps ! i) = ''join'' \<and> ph_Group (ps ! i) = ph_Group (ps ! k) \<and> topology_selects (ps ! k) (ps ! i))
   \<and> (\<forall>i. same_generation ps i k \<and> ph_Action (ps ! i) = ''join'' \<and> ph_Group (ps ! i) = ph_Group (ps ! k) \<and> topology_selects (ps ! k) (ps ! i)
        \<longrightarrow> gs_MeshFreeze (nd_GossipSub (ph_Node (ps ! i))) = Some True)"

lemma accepted_topology:
  assumes "accepted_at lb gm s (take k ps) (ps ! k)" "k < length ps" "ph_Action (ps ! k) = ''topology''" "ph_Group (ps ! k) \<noteq> []" "\<not> explicit_ids (ps ! k)"
  shows "topology_ready ps k"
proof -
  let ?p = "ps ! k"
  obtain q v where q: "scope_rel (take k ps) v" "phase_action lb gm s q v = Inr (?p, scope_after ?p v)" "same_phase ?p q"
    using assms(1) by (rule accepted_atE) metis
  have "ph_Action q = ''topology''" using q(3) assms(3) by (simp add: same_phase_def)
  then have "?p = q \<and> validateTopologyGroup q (mget [] (vs_joinedGroups v) (ph_Group q)) = Inr ()"
    using q(2) by (auto simp: phase_action_switch(2) rbind_Inr_iff)
  then obtain m where fold: "foldR (topology_join ?p) (mget [] (vs_joinedGroups v) (ph_Group ?p)) False = Inr m" "m"
    using assms(4,5) by (auto simp: validateTopologyGroup_def explicit_ids_def rbind_Inr_iff)
  have joins: "set (mget [] (vs_joinedGroups v) (ph_Group ?p)) = {j. (\<exists>i. same_generation ps i k \<and> ps ! i = j) \<and> ph_Action j = ''join'' \<and> ph_Group j = ph_Group ?p}"
    using q(1) in_current_gen [OF less_imp_le [OF assms(2)]] by (auto simp: scope_rel_def)
  show ?thesis using topology_joins [OF fold(1)] fold(2) unfolding topology_ready_def list_ex_iff joins by blast
qed

subsection \<open>Targets of attacks\<close>

definition targets_joined :: "Phase list \<Rightarrow> nat \<Rightarrow> bool" where
  "targets_joined ps k \<longleftrightarrow> (\<forall>se grp. Some se \<in> set (AttackSelectors (ph_Node (ps ! k))) \<and> grp \<in> set (se_Groups se) \<longrightarrow>
     (\<exists>j. generation_mates ps j k \<and> ph_Action (ps ! j) = ''join'' \<and> ph_Group (ps ! j) = grp))"

lemma known_targets_Inr:
  "known_targets groups p = Inr u \<longleftrightarrow> ph_Action p \<noteq> ''join'' \<or> (\<forall>se. Some se \<in> set (AttackSelectors (ph_Node p)) \<longrightarrow> set (se_Groups se) \<subseteq> set groups)"
  by (auto simp: known_targets_def check_all_Inr split: option.splits)

lemma generation_slice:
  assumes "b \<le> length ps"
  shows "takeWhile in_generation (drop b ps) = map (\<lambda>i. ps ! i) [b..<generation_end ps b]"
proof (rule nth_equalityI)
  show "length (takeWhile in_generation (drop b ps)) = length (map (\<lambda>i. ps ! i) [b..<generation_end ps b])" by (simp add: generation_end_def)
  fix i assume "i < length (takeWhile in_generation (drop b ps))"
  then show "takeWhile in_generation (drop b ps) ! i = map (\<lambda>i. ps ! i) [b..<generation_end ps b] ! i"
    using assms length_takeWhile_le [of in_generation "drop b ps"] by (simp add: takeWhile_nth generation_end_def)
qed

lemma selectors_checked:
  assumes "validateAttackSelectors (drop b ps) = Inr u" "gen_start ps b" "b \<le> k" "k < length ps" "ph_Action (ps ! k) = ''join''"
  shows "targets_joined ps k"
  using assms(1-3)
proof (induction "length ps - b" arbitrary: b rule: less_induct)
  case less
  have b: "b \<le> length ps" using less.prems(3) assms(4) by simp
  let ?e = "generation_end ps b" and ?g = "takeWhile in_generation (drop b ps)"
  let ?groups = "map ph_Group (filter (\<lambda>p. ph_Action p = ''join'') ?g)"
  have ne: "drop b ps \<noteq> []" using less.prems(3) assms(4) by simp
  have checked: "\<forall>p\<in>set ?g. known_targets ?groups p = Inr ()" "validateAttackSelectors (drop (length ?g + 1) (drop b ps)) = Inr u"
    using less.prems(1) ne by (subst (asm) validateAttackSelectors.simps, auto simp: Let_def rbind_Inr_iff check_all_Inr)+
  note e = generation_end_facts [OF b]
  have elem: "p \<in> set ?g \<longleftrightarrow> (\<exists>i. b \<le> i \<and> i < ?e \<and> p = ps ! i)" for p unfolding generation_slice [OF b] by auto
  show ?case
  proof (cases "k < ?e")
    case True
    then have "ps ! k \<in> set ?g" using elem less.prems(3) by blast
    then have "known_targets ?groups (ps ! k) = Inr ()" using checked(1) by blast
    then have groups: "set (se_Groups se) \<subseteq> set ?groups" if "Some se \<in> set (AttackSelectors (ph_Node (ps ! k)))" for se
      using that assms(5) by (simp add: known_targets_Inr)
    have "\<exists>j. generation_mates ps j k \<and> ph_Action (ps ! j) = ''join'' \<and> ph_Group (ps ! j) = grp" if grp: "grp \<in> set ?groups" for grp
    proof -
      obtain j where "b \<le> j" "j < ?e" "ph_Action (ps ! j) = ''join''" "ph_Group (ps ! j) = grp" using grp elem by auto
      then show ?thesis using generation_members [OF less.prems(2) b less.prems(3) True, of j] by blast
    qed
    then show ?thesis using groups unfolding targets_joined_def by blast
  next
    case False
    then have "?e < length ps" "\<not> in_generation (ps ! ?e)" using assms(4) e(4) by auto
    moreover have "k \<noteq> ?e" using assms(5) calculation(2) by (auto simp: in_generation_def)
    moreover have "drop (length ?g + 1) (drop b ps) = drop (Suc ?e) ps" by (simp add: generation_end_def add.commute add.left_commute)
    ultimately show ?thesis using less.hyps [of "Suc ?e"] checked(2) False e(1) b by (simp add: gen_start_def)
  qed
qed

subsection \<open>Acceptance\<close>

lemma scenario_accepted:
  assumes "scenario_Validate lb gm s = Inr t"
  obtains s' ps where "marks ps (sn_Phases t)" "length ps = length (sn_Phases s)" "validateAttackSelectors ps = Inr ()"
    "\<And>k. k < length ps \<Longrightarrow> accepted_at lb gm s' (take k ps) (ps ! k)"
    "\<And>k. k < length ps \<Longrightarrow> ph_Action (sn_Phases t ! k) = ''schedule'' \<Longrightarrow> schedule_sound lb gm (sn_Phases t) k"
proof -
  obtain s' ps v where head: "scenario_head s = Inr s'" and loop: "foldR (validate_phase lb gm s') (enumerate 0 (sn_Phases s')) ([], new_scopes) = Inr (ps, v)"
      and sel: "validateAttackSelectors ps = Inr ()" and sched: "validateProfileSchedules lb gm ps = Inr (sn_Phases t)"
    using assms by (auto simp: scenario_Validate_def rbind_Inr_iff)
  have "sn_Phases s' = sn_Phases s" using head by (auto simp: scenario_head_def rbind_Inr_iff Let_def split: if_splits)
  then show ?thesis using that [OF schedules_checked(1) [OF sched] _ sel phases_accepted(2) [OF loop]] phases_accepted(1) [OF loop]
      schedules_checked(2) [OF sched] list_all2_lengthD [OF schedules_checked(1) [OF sched]] by simp
qed

lemma marks_generation: "marks ps qs \<Longrightarrow> k < length ps \<Longrightarrow> same_generation qs i k = same_generation ps i k"
  using remarked_preds(1) [OF marks_nth [of ps qs]] by (fastforce simp: same_generation_def)

lemma jobs_scoped_marks:
  assumes "marks ps qs" "k < length ps" "jobs_scoped ps k"
  shows "jobs_scoped qs k"
proof -
  note r = marks_nth [OF assms(1)]
  have k: "background (qs ! k) = background (ps ! k)" "ph_Job (qs ! k) = ph_Job (ps ! k)" "ph_Jobs (qs ! k) = ph_Jobs (ps ! k)"
      "ph_Action (qs ! k) = ph_Action (ps ! k)" "ph_MinCount (qs ! k) = ph_MinCount (ps ! k)" "ph_Group (qs ! k) = ph_Group (ps ! k)"
    using remarked_same [OF r [OF assms(2)]] remarked_preds [OF r [OF assms(2)]] by simp_all
  have i: "background (qs ! i) = background (ps ! i) \<and> background_join (qs ! i) = background_join (ps ! i) \<and> ph_Job (qs ! i) = ph_Job (ps ! i)
      \<and> ph_Group (qs ! i) = ph_Group (ps ! i)" if "same_generation ps i k" for i
    using remarked_same [OF r, of i] remarked_preds [OF r, of i] that assms(2) by (simp add: same_generation_def)
  have j: "waits_for (qs ! j) job = waits_for (ps ! j) job" if "j \<le> k" for j job using remarked_preds(5) [OF r, of j] that assms(2) by simp
  note gen = marks_generation [OF assms(1,2)]
  have one: "\<forall>i. same_generation qs i k \<and> background (qs ! i) \<and> background (qs ! k) \<longrightarrow> ph_Job (qs ! i) \<noteq> ph_Job (qs ! k)"
    using assms(3) i unfolding jobs_scoped_def k gen by metis
  have two: "\<forall>job\<in>set (ph_Jobs (qs ! k)). \<exists>i. same_generation qs i k \<and> background (qs ! i) \<and> ph_Job (qs ! i) = job"
    using assms(3) i unfolding jobs_scoped_def k gen by metis
  have three: "ph_Action (qs ! k) = ''wait-ready'' \<and> ph_MinCount (qs ! k) = 0 \<longrightarrow>
       (\<forall>i. same_generation qs i k \<and> background_join (qs ! i) \<and> (ph_Group (qs ! k) = [] \<or> ph_Group (qs ! k) = ph_Group (qs ! i))
         \<longrightarrow> (\<exists>j. i < j \<and> j \<le> k \<and> waits_for (qs ! j) (ph_Job (qs ! i))))"
    using assms(3) i j unfolding jobs_scoped_def k gen by metis
  show ?thesis using one two three unfolding jobs_scoped_def by blast
qed

text \<open>
  Jobs of an accepted scenario. Within a generation no two background jobs have the same name; a phase that waits for a
  job by name follows the phase that starts it; and a readiness check without a minimum count never takes the ratio of a
  group that is still being filled: every background join of the group before it is waited for, by it or before it.
\<close>

theorem scenario_jobs_sound:
  assumes "scenario_Validate lb gm s = Inr t" "ps = sn_Phases t" "k < length ps"
  shows "(\<forall>i. same_generation ps i k \<and> background (ps ! i) \<and> background (ps ! k) \<longrightarrow> ph_Job (ps ! i) \<noteq> ph_Job (ps ! k))
   \<and> (\<forall>job\<in>set (ph_Jobs (ps ! k)). \<exists>i. same_generation ps i k \<and> background (ps ! i) \<and> ph_Job (ps ! i) = job)
   \<and> (ph_Action (ps ! k) = ''wait-ready'' \<and> ph_MinCount (ps ! k) = 0 \<longrightarrow>
       (\<forall>i. same_generation ps i k \<and> background_join (ps ! i) \<and> (ph_Group (ps ! k) = [] \<or> ph_Group (ps ! k) = ph_Group (ps ! i))
         \<longrightarrow> (\<exists>j. i < j \<and> j \<le> k \<and> waits_for (ps ! j) (ph_Job (ps ! i)))))"
proof -
  obtain s' qs where qs: "marks qs ps" "\<And>k. k < length qs \<Longrightarrow> accepted_at lb gm s' (take k qs) (qs ! k)"
    using scenario_accepted [OF assms(1)] unfolding assms(2) by metis
  have k: "k < length qs" using list_all2_lengthD [OF qs(1)] assms(3) by simp
  show ?thesis using jobs_scoped_marks [OF qs(1) k accepted_jobs_scoped [OF qs(2) k]] unfolding jobs_scoped_def .
qed

lemma join_resolved_remarked: "remarked p q \<Longrightarrow> join_resolved lb gm p \<Longrightarrow> join_resolved lb gm q"
  using remarked_same [of p q] by (simp add: join_resolved_def)

lemma targets_marks:
  assumes "marks ps qs" "k < length ps" "targets_joined ps k"
  shows "targets_joined qs k"
proof -
  note r = marks_nth [OF assms(1)]
  have node: "ph_Node (qs ! k) = ph_Node (ps ! k)" using remarked_same(7) [OF r [OF assms(2)]] .
  have j: "ph_Action (qs ! j) = ph_Action (ps ! j) \<and> ph_Group (qs ! j) = ph_Group (ps ! j)" if "generation_mates ps j k" for j
    using remarked_same(1,2) [OF r, of j] that by (simp add: generation_mates_def)
  show ?thesis using assms(3) j unfolding targets_joined_def node marks_mates [OF assms(1)] by metis
qed

lemma topology_marks:
  assumes "marks ps qs" "k < length ps" "topology_ready ps k"
  shows "topology_ready qs k"
proof -
  note r = marks_nth [OF assms(1)]
  have k: "ph_Group (qs ! k) = ph_Group (ps ! k)" "ph_Role (qs ! k) = ph_Role (ps ! k)" "ph_NodeType (qs ! k) = ph_NodeType (ps ! k)"
    using remarked_same [OF r [OF assms(2)]] by simp_all
  have i: "ph_Action (qs ! i) = ph_Action (ps ! i) \<and> ph_Group (qs ! i) = ph_Group (ps ! i) \<and> ph_Node (qs ! i) = ph_Node (ps ! i)
      \<and> topology_selects (qs ! k) (qs ! i) = topology_selects (ps ! k) (ps ! i)" if "same_generation ps i k" for i
    using remarked_same [OF r, of i] that assms(2) k by (simp add: same_generation_def topology_selects_def)
  show ?thesis using assms(3) i unfolding topology_ready_def marks_generation [OF assms(1,2)] k(1) by metis
qed

text \<open>
  Joins and topologies of an accepted scenario. A join names a group and a positive count, its node configuration is
  complete and accepted, active attacks are on workers, and every group an attack is aimed at is joined in the same
  generation. A topology imposed on a group has an earlier join to work on in its generation, and all joins it selects
  can freeze their mesh.
\<close>

theorem scenario_joins_sound:
  assumes "scenario_Validate lb gm s = Inr t" "ps = sn_Phases t" "k < length ps"
  shows "(ph_Action (ps ! k) = ''join'' \<longrightarrow> join_resolved lb gm (ps ! k) \<and> targets_joined ps k)
    \<and> (ph_Action (ps ! k) = ''topology'' \<and> ph_Group (ps ! k) \<noteq> [] \<and> \<not> explicit_ids (ps ! k) \<longrightarrow> topology_ready ps k)"
proof -
  obtain s' qs where qs: "marks qs ps" "validateAttackSelectors qs = Inr ()" "\<And>k. k < length qs \<Longrightarrow> accepted_at lb gm s' (take k qs) (qs ! k)"
    using scenario_accepted [OF assms(1)] unfolding assms(2) by metis
  have k: "k < length qs" using list_all2_lengthD [OF qs(1)] assms(3) by simp
  note r = marks_nth [OF qs(1) k]
  have join: "join_resolved lb gm (ps ! k) \<and> targets_joined ps k" if act: "ph_Action (ps ! k) = ''join''"
  proof -
    obtain q v where q: "phase_action lb gm s' q v = Inr (qs ! k, scope_after (qs ! k) v)" "same_phase (qs ! k) q"
      using qs(3) [OF k] by (rule accepted_atE) metis
    have a: "ph_Action (qs ! k) = ''join''" using act remarked_same(1) [OF r] by simp
    then have "ph_Action q = ''join''" using q(2) by (simp add: same_phase_def)
    then have "join_phase lb gm s' q v = Inr (qs ! k, scope_after (qs ! k) v)" using q(1) by (simp add: phase_action_switch(4))
    then have "join_resolved lb gm (qs ! k)" by (rule join_phase_resolved)
    moreover have "targets_joined qs k" by (rule selectors_checked [of 0]) (use qs(2) k a in \<open>simp_all add: gen_start_def\<close>)
    ultimately show ?thesis using join_resolved_remarked [OF r] targets_marks [OF qs(1) k] by blast
  qed
  have "topology_ready ps k" if "ph_Action (ps ! k) = ''topology''" "ph_Group (ps ! k) \<noteq> []" "\<not> explicit_ids (ps ! k)"
    by (rule topology_marks [OF qs(1) k accepted_topology [OF qs(3) [OF k] k]]) (use that remarked_same [OF r] remarked_preds(2) [OF r] in simp_all)
  then show ?thesis using join by blast
qed

text \<open>
  Schedules of an accepted scenario. A schedule that selects by group, profile, type or role selects at least one join
  of its generation, before or after it. For every join it selects the changes apply one after the other to the node
  configuration of the join, each giving an accepted configuration, and a join whose network a schedule may change is marked.
\<close>

theorem scenario_schedules_sound:
  assumes "scenario_Validate lb gm s = Inr t" "ps = sn_Phases t" "k < length ps" "ph_Action (ps ! k) = ''schedule''"
  shows "(\<not> explicit_ids (ps ! k) \<longrightarrow> (\<exists>j. generation_mates ps j k \<and> ph_Action (ps ! j) = ''join'' \<and> matches (ps ! k) (ps ! j)))
    \<and> (\<forall>j. generation_mates ps j k \<and> ph_Action (ps ! j) = ''join'' \<and> matches (ps ! k) (ps ! j) \<longrightarrow>
        (\<exists>sc. ph_Schedule (ps ! k) = Some sc
          \<and> (\<not> explicit_ids (ps ! k) \<longrightarrow> (\<exists>c. foldR (apply_change lb gm (ph_Role (ps ! j))) (sc_Changes sc) (ph_Node (ps ! j)) = Inr c))
          \<and> (list_ex (\<lambda>change. rp_Network (pc_Set change) \<noteq> None) (sc_Changes sc) \<longrightarrow> ph_NetworkMutable (ps ! j))))"
proof -
  obtain qs where qs: "marks qs ps" "\<And>k. k < length qs \<Longrightarrow> ph_Action (ps ! k) = ''schedule'' \<Longrightarrow> schedule_sound lb gm ps k"
    using scenario_accepted [OF assms(1)] unfolding assms(2) by metis
  have "schedule_sound lb gm ps k" using qs(2) list_all2_lengthD [OF qs(1)] assms(3,4) by simp
  then show ?thesis unfolding schedule_sound_def scheduled_def by blast
qed

subsection \<open>Panics\<close>

lemma calm_foldR:
  assumes "\<And>x s. x \<in> set xs \<Longrightarrow> I s \<Longrightarrow> calm (f x s) \<and> (\<forall>s'. f x s = Inr s' \<longrightarrow> I s')" "I s"
  shows "calm (foldR f xs s)"
  using assms
proof (induction xs arbitrary: s)
  case (Cons x xs)
  have x: "calm (f x s)" "\<And>s'. f x s = Inr s' \<Longrightarrow> I s'" using Cons.prems by auto
  show ?case unfolding foldR.simps by (rule calm_bind [OF x(1)]) (use Cons x(2) in auto)
qed simp

lemma calm_foldR_all: "(\<And>x s. x \<in> set xs \<Longrightarrow> calm (f x s)) \<Longrightarrow> calm (foldR f xs s)"
  by (rule calm_foldR [of _ "\<lambda>_. True"]) auto

lemma calm_positive [simp]: "calm (positive_duration s)"
  unfolding positive_duration_def by (intro calm_rules) simp_all

lemma calm_topology [simp]: "calm (topology_Validate c n)"
  using Validate_no_panic by (simp add: calm_def)

lemma calm_role [simp]: "calm (ValidateAttackRole c r)"
  by (simp add: ValidateAttackRole_def)

lemma calm_selector_ids [simp]: "calm (selector_ids d ids seen)"
proof (induction ids arbitrary: seen)
  case (Cons i ids)
  then show ?case by (auto intro!: calm_rules)
qed simp

lemma calm_peer_selector [simp]: "calm (validatePeerSelector lb p)"
proof -
  have "calm (check_selector d ids)" for d ids unfolding check_selector_def by (intro calm_rules) simp_all
  then show ?thesis unfolding validatePeerSelector_def by (intro calm_rules) simp_all
qed

lemma calm_profile [simp]: "calm (profile_Validate gm sc)"
proof -
  have "calm (profile_changes gm cs prev)" for cs prev
  proof (induction cs arbitrary: prev)
    case (Cons c cs)
    then show ?case by (auto split: sum.split intro!: calm_rules)
  qed simp
  then show ?thesis unfolding profile_Validate_def by (intro calm_rules) simp_all
qed

lemma calm_phases_parts:
  "calm (validateSchedulePhase lb gm p)" "calm (validateTopologyPhase lb p)" "calm (validateTopologyGroup p js)" "calm (validateMeshFreezePhase lb p)"
  "calm (publish_phase gm p)" "calm (leave_phase gm p)" "calm (started_jobs jobs v)" "calm (resolveNodeConfig lb gm s p)"
proof -
  show "calm (validateSchedulePhase lb gm p)" unfolding validateSchedulePhase_def Let_def by (intro calm_rules) simp_all
  show "calm (validateTopologyPhase lb p)" unfolding validateTopologyPhase_def by (intro calm_rules) simp_all
  have "calm (topology_join p j m)" for j m unfolding topology_join_def by (intro calm_rules) simp_all
  then show "calm (validateTopologyGroup p js)" unfolding validateTopologyGroup_def by (intro calm_rules calm_foldR_all) simp_all
  show "calm (validateMeshFreezePhase lb p)" unfolding validateMeshFreezePhase_def Let_def by (intro calm_rules) simp_all
  show "calm (publish_phase gm p)" unfolding publish_phase_def Let_def by (intro calm_rules) simp_all
  show "calm (leave_phase gm p)" unfolding leave_phase_def by (intro calm_rules) simp_all
  show "calm (started_jobs jobs v)" unfolding started_jobs_def by (intro calm_rules) simp_all
  show "calm (resolveNodeConfig lb gm s p)" unfolding resolveNodeConfig_def Let_def case_prod_beta by (intro calm_rules) simp_all
qed

lemma calm_phase_action: "calm (phase_action lb gm s p v)"
proof -
  note [simp] = calm_phases_parts
  have "calm (join_phase lb gm s p v)" unfolding join_phase_def Let_def by (intro calm_rules) simp_all
  moreover have "calm (wait_ready_phase p v)" unfolding wait_ready_phase_def Let_def by (intro calm_rules) simp_all
  moreover have "calm (wait_jobs_phase p v)" unfolding wait_jobs_phase_def Let_def by (intro calm_rules) simp_all
  ultimately show ?thesis unfolding phase_action_def Let_def by (intro calm_rules) simp_all
qed

lemma calm_validate_phase: "calm (validate_phase lb gm s x t)"
proof -
  have "calm (on_error_phase p)" for p unfolding on_error_phase_def Let_def by (intro calm_rules) simp_all
  then have "calm (phase_fields version p)" for version p unfolding phase_fields_def Let_def by (intro calm_rules) simp_all
  moreover have "calm (phase_job p v)" for p v unfolding phase_job_def Let_def by (intro calm_rules) simp_all
  ultimately show ?thesis unfolding validate_phase_def case_prod_beta by (intro calm_rules) (simp_all add: calm_phase_action)
qed

lemma calm_selectors: "calm (validateAttackSelectors ps)"
proof (induction ps rule: validateAttackSelectors.induct)
  case (1 ps)
  have "calm (known_targets groups p)" for groups p unfolding known_targets_def by (auto split: option.split intro!: calm_rules)
  then show ?case using 1 by (subst validateAttackSelectors.simps) (auto simp: Let_def intro!: calm_rules)
qed

text \<open>Every schedule phase that reaches the last check has a schedule.\<close>

definition schedules_present :: "Phase list \<Rightarrow> bool" where
  "schedules_present ps \<longleftrightarrow> (\<forall>p\<in>set ps. ph_Action p = ''schedule'' \<longrightarrow> ph_Schedule p \<noteq> None)"

lemma accepted_schedules:
  assumes "foldR (validate_phase lb gm s) (enumerate 0 xs) ([], new_scopes) = Inr (ps, v)"
  shows "schedules_present ps"
  unfolding schedules_present_def
proof (intro ballI impI)
  fix p assume "p \<in> set ps" and act: "ph_Action p = ''schedule''"
  then obtain k where "k < length ps" "ps ! k = p" by (auto simp: in_set_conv_nth)
  then have "accepted_at lb gm s (take k ps) p" using phases_accepted(2) [OF assms] by blast
  then obtain q w where q: "phase_action lb gm s q w = Inr (p, scope_after p w)" "same_phase p q" by (rule accepted_atE) metis
  then have "ph_Action q = ''schedule''" using act by (simp add: same_phase_def)
  then have "validateSchedulePhase lb gm q = Inr p" using q(1) by (auto simp: phase_action_switch(1) rbind_Inr_iff)
  then show "ph_Schedule p \<noteq> None" using action_parts(1) by (auto simp: same_phase_def)
qed

lemma calm_schedules:
  assumes "schedules_present ps"
  shows "calm (validateProfileSchedules lb gm ps)"
proof -
  have change: "calm (change_body lb gm sc role c t)" for sc role c t
    unfolding change_body_def case_prod_beta Let_def by (intro calm_rules) simp_all
  have join: "calm (schedule_join lb gm sc j t)" if "ph_Schedule sc \<noteq> None" for sc j t
    unfolding schedule_join_def case_prod_beta Let_def by (intro calm_rules calm_foldR_all) (use that change in auto)
  define I where "I = (\<lambda>(qs :: Phase list, js :: nat list, g :: nat). length qs = length ps \<and> schedules_present qs
    \<and> (\<forall>j\<in>set js. j < length ps))"
  have "calm (foldR (schedule_body lb gm) [0..<length ps] (ps, [], 0))"
  proof (rule calm_foldR [of _ I])
    fix i t
    assume i: "i \<in> set [0..<length ps]" and "I t"
    then obtain qs js g where t: "t = (qs, js, g)" "length qs = length ps" "schedules_present qs" "\<forall>j\<in>set js. j < length ps" by (auto simp: I_def)
    obtain js' g' where now: "(if i \<ge> g then (generation_joins qs i, generation_end qs i) else (js, g)) = (js', g')" by fastforce
    have js': "\<forall>j\<in>set js'. j < length qs" using now t(2,4) i generation_end_facts(2) [of i qs] by (auto simp: generation_joins_def split: if_splits)
    have "calm (schedule_body lb gm i t)"
      unfolding t(1) schedule_body_def prod.case now case_prod_beta Let_def
      by (intro calm_rules calm_foldR_all join) (use t(2,3) i in \<open>auto simp: schedules_present_def\<close>)
    moreover have "I t'" if res: "schedule_body lb gm i t = Inr t'" for t'
    proof -
      obtain qs' where qs': "t' = (qs', js', g')" "marks qs qs'"
        using res schedule_joins [OF _ js'] unfolding t(1) schedule_body_def prod.case now
        by (fastforce simp: Let_def rbind_Inr_iff split: if_splits)
      have len: "length qs' = length qs" using list_all2_lengthD [OF qs'(2)] by simp
      have "schedules_present qs'" unfolding schedules_present_def all_set_conv_all_nth
        using t(3) remarked_same(1,6) [OF marks_nth [OF qs'(2)]] len by (simp add: schedules_present_def)
      then show ?thesis using qs'(1) js' t(2) len by (simp add: I_def)
    qed
    ultimately show "calm (schedule_body lb gm i t) \<and> (\<forall>t'. schedule_body lb gm i t = Inr t' \<longrightarrow> I t')" by blast
  qed (simp add: I_def assms)
  then show ?thesis unfolding validateProfileSchedules_def case_prod_beta by (intro calm_rules) simp_all
qed

text \<open>
  Validation of any decoded scenario ends in acceptance or an error, never in a panic: the pointers the schedules are
  read through are those whose presence was checked.
\<close>

theorem scenario_Validate_no_panic: "scenario_Validate lb gm s \<noteq> Inl Panic"
proof -
  have "calm (scenario_head s)" unfolding scenario_head_def Let_def by (intro calm_rules) simp_all
  moreover have "calm (validateAttackVersion lb s)" for s
    unfolding validateAttackVersion_def by (intro calm_rules) (auto simp: profile_attacks_def phase_attacks_def intro!: calm_rules)
  moreover have "calm (foldR (validate_phase lb gm s) xs t)" for s xs t by (rule calm_foldR_all) (rule calm_validate_phase)
  ultimately have "calm (scenario_Validate lb gm s)"
    unfolding scenario_Validate_def by (intro calm_rules) (auto simp: calm_selectors intro!: calm_rules calm_schedules dest!: accepted_schedules split: prod.split)
  then show ?thesis by (simp add: calm_def)
qed

end
