(* ===== verification/Spec2Isabelle.thy ===== *)
theory Spec2Isabelle
  imports Topology_Correct Telemetry_Recover Event_Batch Work_Queue_Correct Profile_Update_Correct Node_Create
    Window_Bounds Bandwidth_Correct Event_Replay Live_Summary Scenario_Correct
begin

text \<open>
  K-P2PLab v3 runs peer-to-peer experiments. A Controller reads a scenario, queues the work, generates the topology and
  creates Peers through Agents; a Peer runs libp2p with a configured router, network impairment and attacks; telemetry
  flows back from Peer to Agent to Controller. This library models the parts of \<^verbatim>\<open>src/internal\<close> that carry the logic of
  that pipeline and proves what each part promises to the next.

  \<^bold>\<open>Conventions.\<close> A struct is a record, a pointer an \<open>option\<close>, a \<^verbatim>\<open>(value, error)\<close> result the sum \<open>'a result\<close> whose left
  side also has \<open>Panic\<close> for a run-time panic and \<open>CtxErr\<close> for a cancelled context. Error texts leave out formatted arguments.
  Floating point numbers are \<open>f64\<close>: exact rationals, infinities and NaN with rounding to nearest even; durations are
  \<open>int\<close> nanoseconds in the range of \<^verbatim>\<open>int64\<close>; fixed-width integers whose width is observable are words. A map is the
  list of its entries in iteration order (the statements hold for every order) or a HOL map. Strings are byte
  strings, and \<open>ToLower\<close>, \<open>TrimSpace\<close>, \<open>safeName\<close> and the classes of characters are those of ASCII text; on other text Go folds and
  trims a few characters more. Sums and counters that the size limits of the code keep far below \<open>2 ^ 63\<close>, such as those of \<open>degreeTree\<close>, are
  unbounded. Code outside the repository
  (\<^verbatim>\<open>encoding/json\<close>, transcendental functions, the random source, peer identifiers, CIDR and regular expression syntax,
  the file system below a complete write, calls to libp2p) is a parameter of the definitions that use it.

  \<^bold>\<open>Parts and theories\<close>

  \<^item> Base: \<open>KPL_Prelude\<close> (results, loops, \<open>f64\<close>, random tapes), \<open>Go_Bytes\<close> (big-endian integers, CRC-32, decimal text,
    lines), \<open>Go_Duration\<close> (\<^verbatim>\<open>time.ParseDuration\<close>, \<^verbatim>\<open>Duration.String\<close>), \<open>Config_Base\<close> (errors, overlays and checks shared
    by the configuration code).
  \<^item> Topologies, \<^verbatim>\<open>model/topology.go\<close> and \<^verbatim>\<open>topology/generate.go\<close>: \<open>Topology_Config\<close> (description and validation),
    \<open>Degree_Tree\<close> (the Fenwick tree, against the locale \<open>weighted_sampler\<close>), \<open>Topology_Builder\<close>, \<open>Topology_Lattice\<close>,
    \<open>Topology_BA\<close>, \<open>Topology_WS\<close>, \<open>Topology_Generate\<close> (the builder, the models, the exported graph). \<open>Topology_Invariant\<close>
    and \<open>Topology_Correct\<close>: generation never panics, every graph is simple, symmetric and within its bounds, the models have
    exactly the links or the number of edges they promise, and valid requests complete.
  \<^item> Telemetry of an Agent, \<^verbatim>\<open>agent/telemetry_spool.go\<close>, \<^verbatim>\<open>telemetry_log.go\<close> and \<^verbatim>\<open>telemetry_window.go\<close>: \<open>Telemetry_Files\<close>
    (files and records on disk), \<open>Telemetry_Spool\<close> (append, acknowledge, open), \<open>Telemetry_Ack\<close> (the journal),
    \<open>Telemetry_Window\<close> and \<open>Telemetry_Queue\<close> (the batch and the flush loop), \<open>Telemetry_Correct\<close>, \<open>Telemetry_Recover\<close> (the
    records survive a crash), \<open>Telemetry_Deliver\<close> (the flush loop against the locale \<open>durable_queue\<close>: the request bodies that the
    Controller takes are, byte for byte, envelopes of consecutive payloads in order, and cover every acknowledged one).
    \<open>Event_Batch\<close> is \<^verbatim>\<open>model/event_batch.go\<close>: the longest prefix that fits the receiver's limits.
  \<^item> Receipt of telemetry by the Controller, \<^verbatim>\<open>appendEvents\<close> of \<^verbatim>\<open>controller/state.go\<close>: \<open>Trace_Event\<close> (events of \<^verbatim>\<open>model/model.go\<close> and
    their identity), \<open>Event_Log\<close> (deduplication, the log of a run with every file error). \<open>Event_Index\<close> states what the log
    needs of the index of seen events as the locale \<open>event_index\<close>; \<open>Event_Log_Correct\<close> and \<open>Event_Replay\<close>: whatever
    file operation fails, every acknowledged event of a run that is not deleted is counted exactly once and is a whole line of the
    log, and as long as every append is refused or completes, the metrics rebuilt from the log are the live ones.
  \<^item> Metrics of a run, \<^verbatim>\<open>controller/run_metrics.go\<close>, \<^verbatim>\<open>run_metrics_window.go\<close>, \<^verbatim>\<open>bandwidth.go\<close>: \<open>Sequence_Ranges\<close> (the set of received
    sequence numbers), \<open>Window_Metrics\<close> and \<open>Window_Summary\<close> (evidence of sessions and deliveries, the sweep over time),
    \<open>Bandwidth\<close>, \<open>Run_Metrics\<close> (the accumulator), \<open>Live_Summary\<close> (the cache of monitoring readers). \<open>Window_Correct\<close> and
    \<open>Window_Bounds\<close> show that the sweep counts what the pairwise definition says and that the reported ratios lie in their
    bounds, with \<open>Float_Round\<close> for monotone rounding; \<open>Bandwidth_Correct\<close> that no byte is lost or counted twice.
  \<^item> Controller work queue, \<^verbatim>\<open>controller/work_queue.go\<close> with its admission in \<^verbatim>\<open>experiment_queue.go\<close> and \<^verbatim>\<open>repeat.go\<close>:
    \<open>Work_Queue\<close>, and \<open>Work_Queue_Correct\<close> for every interleaving of its operations, the registration and the end of repeated
    batches among them.
  \<^item> Agent registry, \<^verbatim>\<open>controller/state.go\<close>, \<^verbatim>\<open>agent_capacity.go\<close>, \<^verbatim>\<open>agent_availability.go\<close>, \<^verbatim>\<open>host_availability.go\<close>: \<open>Agent_Resources\<close>
    (resource samples), \<open>Agent_Registry\<close> (records, node index, settings, registration), \<open>Agent_Heartbeat\<close> (reports). Placement,
    \<^verbatim>\<open>controller/runner.go\<close> and \<^verbatim>\<open>create_retry.go\<close>: \<open>Placement\<close>. \<open>Registry_Invariant\<close> and \<open>Registry_Correct\<close> show that each
    operation keeps the invariant, \<open>Registry_Machine\<close> that each meets the contract \<open>registry_operation\<close> and composes them into
    a step relation, \<open>Placement_Correct\<close> the properties of every run: the life of a node, slots within limits, the choice of
    an Agent. \<open>Node_Create\<close> is the goroutine of \<^verbatim>\<open>createReservedNode\<close> and \<^verbatim>\<open>createOnAgent\<close> running among the others: a Peer is never asked
    of a second Agent while a first one may have created it, and its slot is kept until that is settled.
  \<^item> Node configuration of \<^verbatim>\<open>model\<close>: \<open>Distribution\<close> (\<^verbatim>\<open>distribution/distribution.go\<close>), \<open>Network_Config\<close>
    (\<^verbatim>\<open>network.go\<close>, \<^verbatim>\<open>network_schedule.go\<close>), \<open>Score_Config\<close>, \<open>Gossipsub_Config\<close>, \<open>Kademlia_Config\<close>, \<open>Attack_Config\<close>,
    \<open>Node_Config\<close> (overlay and defaults), \<open>Node_Validate\<close> (validation and presets). The theories ending in \<open>_Correct\<close>,
    \<open>Node_Presets\<close> and \<open>Node_Accepted\<close> show that validation never panics, that defaults are idempotent, that the built-in
    presets are accepted, and what acceptance guarantees to the code that runs a node.
  \<^item> Run-time profiles: \<open>Profile_Config\<close> and \<open>Profile_Correct\<close> (\<^verbatim>\<open>model/profile_schedule.go\<close>), \<open>Profile_Update\<close> and
    \<open>Profile_Update_Correct\<close> (\<^verbatim>\<open>peer/profile_update.go\<close>): the two-stage update of a running Peer as a state machine whose
    steps are the requests it handles.
  \<^item> The scenario language, \<^verbatim>\<open>internal/scenario\<close>: \<open>Scenario\<close> is \<^verbatim>\<open>Validate\<close> of a decoded scenario, which fills in defaults and resolves
    joins over the configuration theories above. \<open>Scenario_Scope\<close> relates an accepted phase to the names and joins of its generation,
    \<open>Scenario_Jobs\<close> and \<open>Scenario_Schedules\<close> follow the background jobs and the run-time schedules, and \<open>Scenario_Correct\<close> shows what
    acceptance gives the runner: jobs are distinct and started before they are waited for, every join is an accepted configuration,
    every schedule applies to the joins it selects, and validation never panics.

  \<^bold>\<open>Fuel.\<close> The rejection samplers of the gamma and Poisson distributions wait on random draws, so no bound holds for every
  source; the other models are shown to sample without fuel. The acknowledgement loop of the spool takes as much fuel as
  records to acknowledge, and returning is part of its property. Every other loop is structural or has a termination proof.

  \<^bold>\<open>Not modelled.\<close> HTTP handlers, clients and authentication, the command line and Docker Swarm deployment, the web
  interface, result archives and their analysis, the exposition of metrics to Prometheus, container management and network namespaces: their behaviour is that of
  the operating system, Docker or encoding libraries they call. The vendored fork of go-libp2p-pubsub is the router a
  Peer runs and belongs to another project. The manifest lists each of these parts.
\<close>

end
